(* ===== verification/Prelude.thy ===== *)
theory Prelude
  imports Main
begin

text \<open>
  Shared vocabulary of the development: thrown values, the error monad in which fallible
  code is written, the string operations of JavaScript that the sources use (\<open>split\<close>,
  \<open>join\<close>, the character classes of their regular expressions), and the generic lemmas the
  component proofs rest on.

  Strings are character lists read as their UTF-8 bytes; every identifier grammar of the
  program is ASCII.
\<close>

named_theorems errE \<open>characterisations of successful runs in the error monad\<close>
named_theorems schema_defs \<open>definitions of the zod schemas\<close>

section \<open>Thrown values\<close>

text \<open>
  A thrown value is its class, the message template and the interpolated values, in order.
  \<open>ZodError\<close> names the schema whose \<open>parse\<close> rejected its input.
\<close>

datatype error =
    ZodError string
  | PlainError string "string list"
  | CardServiceInvariantError string "string list"
  | CardSelectionInvalidError string "string list"
  | AuthoredRecordNotFoundError
  | InternalActorError string "string list"
  | InvalidActorDefinitionError string "string list"

section \<open>The error monad\<close>

definition bindE :: "'e + 'a \<Rightarrow> ('a \<Rightarrow> 'e + 'b) \<Rightarrow> 'e + 'b" where
  "bindE m f = (case m of Inl e \<Rightarrow> Inl e | Inr x \<Rightarrow> f x)"

definition guardE :: "bool \<Rightarrow> 'e \<Rightarrow> 'e + unit" where
  "guardE c e = (if c then Inr () else Inl e)"

fun mapE :: "('a \<Rightarrow> 'e + 'b) \<Rightarrow> 'a list \<Rightarrow> 'e + 'b list" where
  "mapE f [] = Inr []"
| "mapE f (x # xs) = bindE (f x) (\<lambda>y. bindE (mapE f xs) (\<lambda>ys. Inr (y # ys)))"

definition optionE :: "'e \<Rightarrow> 'a option \<Rightarrow> 'e + 'a" where
  "optionE e v = (case v of None \<Rightarrow> Inl e | Some x \<Rightarrow> Inr x)"

lemma bindE_simps [simp]:
  "bindE (Inl e) f = Inl e"
  "bindE (Inr x) f = f x"
  by (simp_all add: bindE_def)

lemma bindE_cong [fundef_cong]:
  assumes "m = m'" and "\<And>x. m' = Inr x \<Longrightarrow> f x = g x"
  shows "bindE m f = bindE m' g"
  using assms by (cases m') auto

lemma bindE_Inr_iff [errE]: "bindE m f = Inr y \<longleftrightarrow> (\<exists>x. m = Inr x \<and> f x = Inr y)"
  by (cases m) auto

lemma bindE_Inl_iff: "bindE m f = Inl e \<longleftrightarrow> m = Inl e \<or> (\<exists>x. m = Inr x \<and> f x = Inl e)"
  by (cases m) auto

lemma bindE_assoc: "bindE (bindE m f) g = bindE m (\<lambda>x. bindE (f x) g)"
  by (cases m) auto

lemma guardE_simps [simp]:
  "guardE True e = Inr ()"
  "guardE False e = Inl e"
  by (simp_all add: guardE_def)

lemma guardE_Inr_iff [errE]: "guardE c e = Inr u \<longleftrightarrow> c"
  by (simp add: guardE_def)

lemma guardE_Inl_iff: "guardE c e = Inl e' \<longleftrightarrow> \<not> c \<and> e' = e"
  by (auto simp: guardE_def)

lemma optionE_simps [simp]:
  "optionE e None = Inl e"
  "optionE e (Some x) = Inr x"
  by (simp_all add: optionE_def)

lemma optionE_Inr_iff [errE]: "optionE e v = Inr x \<longleftrightarrow> v = Some x"
  by (cases v) auto

lemma pred_option_code [code]:
  "pred_option P None \<longleftrightarrow> True"
  "pred_option P (Some x) \<longleftrightarrow> P x"
  by simp_all

lemma mapE_cong [fundef_cong]:
  assumes "xs = ys" and "\<And>x. x \<in> set ys \<Longrightarrow> f x = g x"
  shows "mapE f xs = mapE g ys"
proof -
  have "mapE f ys = mapE g ys" using assms(2) by (induction ys) (auto intro!: bindE_cong)
  then show ?thesis using assms(1) by simp
qed

lemma mapE_Inr_iff: "mapE f xs = Inr ys \<longleftrightarrow> list_all2 (\<lambda>x y. f x = Inr y) xs ys"
  by (induction xs arbitrary: ys) (auto simp: errE list_all2_Cons1)

lemma mapE_all_Inr: "(\<And>x. x \<in> set xs \<Longrightarrow> f x = Inr (g x)) \<Longrightarrow> mapE f xs = Inr (map g xs)"
  by (induction xs) auto

lemma mapE_total: "(\<And>x. x \<in> set xs \<Longrightarrow> \<exists>y. f x = Inr y) \<Longrightarrow> \<exists>ys. mapE f xs = Inr ys"
proof (induction xs)
  case Nil
  show ?case by simp
next
  case (Cons x xs)
  then obtain y ys where "f x = Inr y" "mapE f xs = Inr ys" by fastforce
  then show ?case by simp
qed

lemma mapE_succeeds_iff: "(\<exists>ys. mapE f xs = Inr ys) \<longleftrightarrow> (\<forall>x \<in> set xs. \<exists>y. f x = Inr y)"
proof
  assume "\<exists>ys. mapE f xs = Inr ys"
  then show "\<forall>x \<in> set xs. \<exists>y. f x = Inr y" by (induction xs) (auto simp: errE)
qed (rule mapE_total, blast)

lemma mapE_each: "mapE f xs = Inr ys \<Longrightarrow> x \<in> set xs \<Longrightarrow> \<exists>y. f x = Inr y"
  by (induction xs arbitrary: ys) (auto simp: errE)

lemma mapE_set: "mapE f xs = Inr ys \<Longrightarrow> y \<in> set ys \<Longrightarrow> \<exists>x \<in> set xs. f x = Inr y"
  by (induction xs arbitrary: ys) (auto simp: errE)

section \<open>Operations on a mutable state\<close>

text \<open>
  An operation returns its value or the thrown error together with the state it leaves
  behind: an error after a write keeps the write, as in the source.
\<close>

type_synonym ('s, 'a) op = "'s \<Rightarrow> (error + 'a) \<times> 's"

definition bindS :: "('s, 'a) op \<Rightarrow> ('a \<Rightarrow> ('s, 'b) op) \<Rightarrow> ('s, 'b) op" where
  "bindS m f s = (case m s of (Inl e, s') \<Rightarrow> (Inl e, s') | (Inr x, s') \<Rightarrow> f x s')"

definition returnS :: "'a \<Rightarrow> ('s, 'a) op" where
  "returnS x s = (Inr x, s)"

definition liftS :: "error + 'a \<Rightarrow> ('s, 'a) op" where
  "liftS m s = (m, s)"

definition readS :: "('s \<Rightarrow> error + 'a) \<Rightarrow> ('s, 'a) op" where
  "readS f s = (f s, s)"

definition modifyS :: "('s \<Rightarrow> 's) \<Rightarrow> ('s, unit) op" where
  "modifyS f s = (Inr (), f s)"

lemma bindS_Inr_iff [errE]:
  "bindS m f s = (Inr y, s') \<longleftrightarrow> (\<exists>x s1. m s = (Inr x, s1) \<and> f x s1 = (Inr y, s'))"
  by (auto simp: bindS_def split: prod.splits sum.splits)

lemma bindS_Inl_iff:
  "bindS m f s = (Inl e, s') \<longleftrightarrow> m s = (Inl e, s') \<or> (\<exists>x s1. m s = (Inr x, s1) \<and> f x s1 = (Inl e, s'))"
  by (auto simp: bindS_def split: prod.splits sum.splits)

lemma bindS_simps [simp]:
  "m s = (Inr x, s1) \<Longrightarrow> bindS m f s = f x s1"
  "m s = (Inl e, s1) \<Longrightarrow> bindS m f s = (Inl e, s1)"
  by (simp_all add: bindS_def)

lemma bindS_prim [simp]:
  "bindS (returnS x) f s = f x s"
  "bindS (liftS (Inr x)) f s = f x s"
  "bindS (liftS (Inl e)) f s = (Inl e, s)"
  "bindS (modifyS g) h s = h () (g s)"
  by (simp_all add: bindS_def returnS_def liftS_def modifyS_def)

lemma bindS_readS: "bindS (readS g) f s = (case g s of Inl e \<Rightarrow> (Inl e, s) | Inr x \<Rightarrow> f x s)"
  by (auto simp: bindS_def readS_def split: sum.splits)

lemma bindS_readS_Inr [simp]: "g s = Inr x \<Longrightarrow> bindS (readS g) f s = f x s"
  by (simp add: bindS_readS)

lemma returnS_iff [errE]: "returnS x s = (r, s') \<longleftrightarrow> r = Inr x \<and> s' = s"
  by (auto simp: returnS_def)

lemma liftS_iff [errE]: "liftS m s = (r, s') \<longleftrightarrow> m = r \<and> s' = s"
  by (auto simp: liftS_def)

lemma readS_iff [errE]: "readS g s = (r, s') \<longleftrightarrow> g s = r \<and> s' = s"
  by (auto simp: readS_def)

lemma modifyS_iff [errE]: "modifyS g s = (r, s') \<longleftrightarrow> r = Inr () \<and> s' = g s"
  by (auto simp: modifyS_def)

text \<open>A \<open>for ... of\<close> loop: the body runs on each element until one throws.\<close>

fun forS :: "('a \<Rightarrow> ('s, unit) op) \<Rightarrow> 'a list \<Rightarrow> ('s, unit) op" where
  "forS f [] = returnS ()"
| "forS f (x # xs) = bindS (f x) (\<lambda>_. forS f xs)"

text \<open>The value and the state of a run that succeeds.\<close>

definition succeeds :: "('s, 'a) op \<Rightarrow> 's \<Rightarrow> bool" where
  "succeeds m s = (case fst (m s) of Inl _ \<Rightarrow> False | Inr _ \<Rightarrow> True)"

definition resultS :: "('s, 'a) op \<Rightarrow> 's \<Rightarrow> 'a" where
  "resultS m s = projr (fst (m s))"

definition stateS :: "('s, 'a) op \<Rightarrow> 's \<Rightarrow> 's" where
  "stateS m s = snd (m s)"

lemma succeedsD: "succeeds m s \<Longrightarrow> m s = (Inr (resultS m s), stateS m s)"
  by (cases "m s") (auto simp: succeeds_def resultS_def stateS_def split: sum.splits)

text \<open>
  A relation between the state before and after that is reflexive and transitive is kept by a
  sequence when its parts keep it, whether or not an error ends the sequence.
\<close>

definition keeps :: "('s \<Rightarrow> 's \<Rightarrow> bool) \<Rightarrow> ('s, 'a) op \<Rightarrow> bool" where
  "keeps R m \<longleftrightarrow> (\<forall>s r s'. m s = (r, s') \<longrightarrow> R s s')"

lemma keepsI: "(\<And>s r s'. m s = (r, s') \<Longrightarrow> R s s') \<Longrightarrow> keeps R m"
  by (simp add: keeps_def)

lemma keepsD: "keeps R m \<Longrightarrow> m s = (r, s') \<Longrightarrow> R s s'"
  by (simp add: keeps_def)

locale state_frame =
  fixes R :: "'s \<Rightarrow> 's \<Rightarrow> bool"
  assumes frame_refl: "R s s"
    and frame_trans: "R s t \<Longrightarrow> R t u \<Longrightarrow> R s u"
begin

lemma keeps_bind:
  assumes "keeps R m" and "\<And>x. keeps R (f x)"
  shows "keeps R (bindS m f)"
proof (rule keepsI)
  fix s r s'
  assume "bindS m f s = (r, s')"
  then show "R s s'"
    using assms frame_trans
    by (fastforce simp: bindS_def keeps_def split: prod.splits sum.splits)
qed

lemma keeps_prim: "keeps R (returnS x)" "keeps R (liftS m)" "keeps R (readS g)"
  by (simp_all add: keeps_def returnS_def liftS_def readS_def frame_refl)

lemma keeps_modify: "(\<And>s. R s (g s)) \<Longrightarrow> keeps R (modifyS g)"
  by (simp add: keeps_def modifyS_def)

lemma keeps_if: "(c \<Longrightarrow> keeps R m) \<Longrightarrow> (\<not> c \<Longrightarrow> keeps R m') \<Longrightarrow> keeps R (if c then m else m')"
  by simp

lemma keeps_option:
  "(v = None \<Longrightarrow> keeps R m) \<Longrightarrow> (\<And>x. v = Some x \<Longrightarrow> keeps R (f x)) \<Longrightarrow>
   keeps R (case v of None \<Rightarrow> m | Some x \<Rightarrow> f x)"
  by (cases v) auto

lemma keeps_lift: "(\<And>x. m = Inr x \<Longrightarrow> keeps R (f x)) \<Longrightarrow> keeps R (bindS (liftS m) f)"
  by (cases m) (auto simp: keeps_def frame_refl)

lemma keeps_for: "(\<And>x. x \<in> set xs \<Longrightarrow> keeps R (f x)) \<Longrightarrow> keeps R (forS f xs)"
  by (induction xs) (auto intro: keeps_bind keeps_prim)

lemmas keeps_rules = keeps_lift keeps_bind keeps_prim keeps_if keeps_option

end

section \<open>Character classes and strings\<close>

abbreviation code :: "char \<Rightarrow> nat" where
  "code c \<equiv> of_char c"

text \<open>The classes \<open>[a-z]\<close>, \<open>[0-9]\<close> and \<open>[0-9a-f]\<close>.\<close>

definition is_lower :: "char \<Rightarrow> bool" where
  "is_lower c \<longleftrightarrow> 97 \<le> code c \<and> code c \<le> 122"

definition is_digit :: "char \<Rightarrow> bool" where
  "is_digit c \<longleftrightarrow> 48 \<le> code c \<and> code c \<le> 57"

definition is_hex :: "char \<Rightarrow> bool" where
  "is_hex c \<longleftrightarrow> is_digit c \<or> (97 \<le> code c \<and> code c \<le> 102)"

text \<open>
  \<open>is_blank s\<close> is \<open>s.trim().length === 0\<close>: the UTF-8 encoding of a sequence of white space
  and line terminators, that is of U+0009 to U+000D, U+0020, U+00A0, U+1680, U+2000 to
  U+200A, U+2028, U+2029, U+202F, U+205F, U+3000 and U+FEFF.
\<close>

fun is_blank_bytes :: "nat list \<Rightarrow> bool" where
  "is_blank_bytes (b1 # b2 # b3 # bs) =
     (if 9 \<le> b1 \<and> b1 \<le> 13 \<or> b1 = 32 then is_blank_bytes (b2 # b3 # bs)
      else if b1 = 0xC2 \<and> b2 = 0xA0 then is_blank_bytes (b3 # bs)
      else if (b1 = 0xEF \<and> b2 = 0xBB \<and> b3 = 0xBF) \<or> (b1 = 0xE1 \<and> b2 = 0x9A \<and> b3 = 0x80) \<or>
        (b1 = 0xE2 \<and> b2 = 0x80 \<and> (0x80 \<le> b3 \<and> b3 \<le> 0x8A \<or> b3 \<in> {0xA8, 0xA9, 0xAF})) \<or>
        (b1 = 0xE2 \<and> b2 = 0x81 \<and> b3 = 0x9F) \<or> (b1 = 0xE3 \<and> b2 = 0x80 \<and> b3 = 0x80)
        then is_blank_bytes bs
      else False)"
| "is_blank_bytes [b1, b2] =
     ((9 \<le> b1 \<and> b1 \<le> 13 \<or> b1 = 32) \<and> (9 \<le> b2 \<and> b2 \<le> 13 \<or> b2 = 32) \<or> b1 = 0xC2 \<and> b2 = 0xA0)"
| "is_blank_bytes [b1] = (9 \<le> b1 \<and> b1 \<le> 13 \<or> b1 = 32)"
| "is_blank_bytes [] = True"

definition is_blank :: "string \<Rightarrow> bool" where
  "is_blank s = is_blank_bytes (map of_char s)"

text \<open>\<open>String.prototype.split\<close> at a one-character separator and \<open>Array.prototype.join\<close>.\<close>

fun split_on :: "char \<Rightarrow> string \<Rightarrow> string list" where
  "split_on c [] = [[]]"
| "split_on c (x # xs) =
     (if x = c then [] # split_on c xs
      else (case split_on c xs of [] \<Rightarrow> [[x]] | w # ws \<Rightarrow> (x # w) # ws))"

fun join :: "string \<Rightarrow> string list \<Rightarrow> string" where
  "join sep [] = []"
| "join sep [w] = w"
| "join sep (w # ws) = w @ sep @ join sep ws"

lemma split_on_nonempty [simp]: "split_on c s \<noteq> []"
  by (induction s) (auto split: list.splits)

lemma split_on_free: "c \<notin> set s \<Longrightarrow> split_on c s = [s]"
  by (induction s) auto

lemma split_on_append: "c \<notin> set w \<Longrightarrow> split_on c (w @ c # s) = w # split_on c s"
  by (induction w) auto

lemma split_on_join:
  "ws \<noteq> [] \<Longrightarrow> \<forall>w \<in> set ws. c \<notin> set w \<Longrightarrow> split_on c (join [c] ws) = ws"
  by (induction "[c]" ws rule: join.induct) (auto simp: split_on_free split_on_append)

lemma join_split_on: "join [c] (split_on c s) = s"
proof (induction s)
  case Nil
  show ?case by simp
next
  case (Cons x xs)
  obtain w ws where "split_on c xs = w # ws" by (metis list.exhaust split_on_nonempty)
  with Cons show ?case by (cases ws) auto
qed

lemma join_snoc: "ws \<noteq> [] \<Longrightarrow> join sep (ws @ [w]) = join sep ws @ sep @ w"
  by (induction sep ws rule: join.induct) auto

text \<open>The grammar \<open>^[a-z][a-z0-9-]{0,63}$\<close> of agent and card-type names.\<close>

definition is_name :: "string \<Rightarrow> bool" where
  "is_name s \<longleftrightarrow> s \<noteq> [] \<and> is_lower (hd s) \<and> length s \<le> 64 \<and>
     list_all (\<lambda>c. is_lower c \<or> is_digit c \<or> c = CHR ''-'') s"

text \<open>\<open>startsWith\<close>, \<open>endsWith\<close> and \<open>includes\<close> on strings.\<close>

definition starts_with :: "string \<Rightarrow> string \<Rightarrow> bool" where
  "starts_with p s \<longleftrightarrow> take (length p) s = p"

definition ends_with :: "string \<Rightarrow> string \<Rightarrow> bool" where
  "ends_with p s \<longleftrightarrow> starts_with (rev p) (rev s)"

definition includes_str :: "string \<Rightarrow> string \<Rightarrow> bool" where
  "includes_str p s \<longleftrightarrow> list_ex (\<lambda>k. starts_with p (drop k s)) [0..<Suc (length s)]"

text \<open>
  Numbers: \<open>z.number().int().safe()\<close> and \<open>.positive()\<close>, with \<open>Number.MAX_SAFE_INTEGER\<close>. The
  comparison is evaluated on binary integers.
\<close>

definition MAX_SAFE_INTEGER :: int where
  "MAX_SAFE_INTEGER = 9007199254740991"

definition safe_nat :: "nat \<Rightarrow> bool" where
  "safe_nat n \<longleftrightarrow> int n \<le> MAX_SAFE_INTEGER"

definition positiveSafeIntegerSchema :: "nat \<Rightarrow> bool" where
  "positiveSafeIntegerSchema n \<longleftrightarrow> 0 < n \<and> safe_nat n"

section \<open>Lists\<close>

text \<open>JavaScript's \<open>xs.at(-1)\<close> and \<open>xs.slice(0, -1)\<close>.\<close>

definition at_last :: "'a list \<Rightarrow> 'a option" where
  "at_last xs = (if xs = [] then None else Some (last xs))"

abbreviation slice_init :: "'a list \<Rightarrow> 'a list" where
  "slice_init xs \<equiv> butlast xs"

lemma at_last_snoc [simp]: "at_last (xs @ [x]) = Some x"
  by (simp add: at_last_def)

lemma at_last_Some_iff: "at_last xs = Some x \<longleftrightarrow> (\<exists>ys. xs = ys @ [x])"
  by (auto simp: at_last_def intro: exI [of _ "butlast xs"])

lemma distinct_same_length_set:
  assumes "distinct xs" and "length xs = length ys" and "set xs \<subseteq> set ys"
  shows "set xs = set ys" and "distinct ys"
proof -
  have c: "card (set xs) = length ys" using assms by (simp add: distinct_card)
  have le: "card (set ys) \<le> length ys" by (rule card_length)
  have "card (set xs) \<le> card (set ys)" by (rule card_mono) (use assms in auto)
  with c le have eq: "card (set ys) = length ys" by simp
  then show "distinct ys" by (rule card_distinct)
  show "set xs = set ys" by (rule card_subset_eq) (use assms c eq in auto)
qed

end
