(* ===== verification/CardId.thy ===== *)
theory CardId
  imports Prelude
begin

text \<open>
  Hierarchical card identities (\<^verbatim>\<open>src/schemas/card-id.ts\<close>): the root is \<open>project\<close>, any other
  card is \<open>card-\<close> followed by one to twelve lower-case segments, so an identity spells its
  whole ancestry. Segments are allotted by \<open>nextCardSegment\<close>, a counter in bijective base 26.
\<close>

section \<open>Definitions\<close>

definition cardSegmentSchema :: "string \<Rightarrow> bool" where
  "cardSegmentSchema s \<longleftrightarrow> s \<noteq> [] \<and> list_all is_lower s"

definition MAX_CARD_DEPTH :: nat where
  "MAX_CARD_DEPTH = 12"

definition nonRootCardIdSchema :: "string \<Rightarrow> bool" where
  "nonRootCardIdSchema i \<longleftrightarrow>
     take 5 i = ''card-'' \<and>
     (let segments = split_on CHR ''-'' (drop 5 i)
      in list_all cardSegmentSchema segments \<and> length segments \<le> MAX_CARD_DEPTH)"

definition cardIdSchema :: "string \<Rightarrow> bool" where
  "cardIdSchema i \<longleftrightarrow> i = ''project'' \<or> nonRootCardIdSchema i"

text \<open>The carry loop of \<open>nextCardSegment\<close>, over the letters from the last to the first.\<close>

fun increment_letters :: "string \<Rightarrow> string" where
  "increment_letters [] = ''a''"
| "increment_letters (c # cs) =
     (if c \<noteq> CHR ''z'' then char_of (code c + 1) # cs else CHR ''a'' # increment_letters cs)"

definition nextCardSegment :: "string option \<Rightarrow> error + string" where
  "nextCardSegment segment = (case segment of
     None \<Rightarrow> Inr ''a''
   | Some s \<Rightarrow>
       bindE (guardE (cardSegmentSchema s) (ZodError ''cardSegment'')) (\<lambda>_.
       let t = rev (increment_letters (rev s))
       in bindE (guardE (cardSegmentSchema t) (ZodError ''cardSegment'')) (\<lambda>_. Inr t)))"

definition cardIdSegments :: "string \<Rightarrow> error + string list" where
  "cardIdSegments i =
     bindE (guardE (cardIdSchema i) (ZodError ''cardId'')) (\<lambda>_.
     Inr (if i = ''project'' then [] else split_on CHR ''-'' (drop 5 i)))"

definition cardDepth :: "string \<Rightarrow> error + nat" where
  "cardDepth i = bindE (cardIdSegments i) (\<lambda>segments. Inr (length segments))"

definition cardParentId :: "string \<Rightarrow> error + string option" where
  "cardParentId i = bindE (cardIdSegments i) (\<lambda>segments.
     Inr (if length segments = 0 then None
          else if length segments = 1 then Some ''project''
          else Some (''card-'' @ join ''-'' (butlast segments))))"

definition childCardId :: "string \<Rightarrow> string \<Rightarrow> error + string" where
  "childCardId parentId segment =
     bindE (guardE (cardIdSchema parentId) (ZodError ''cardId'')) (\<lambda>_.
     bindE (guardE (cardSegmentSchema segment) (ZodError ''cardSegment'')) (\<lambda>_.
     let i = (if parentId = ''project'' then ''card-'' @ segment else parentId @ ''-'' @ segment)
     in bindE (guardE (nonRootCardIdSchema i) (ZodError ''nonRootCardId'')) (\<lambda>_. Inr i)))"

section \<open>Identities are paths of segments\<close>

text \<open>
  The abstract view of an identity is the list of its segments; \<open>card_id_of\<close> prints it.
  On it the operations above are \<open>butlast\<close>, \<open>length\<close> and appending one segment.
\<close>

definition card_id_of :: "string list \<Rightarrow> string" where
  "card_id_of segments =
     (if segments = [] then ''project'' else ''card-'' @ join ''-'' segments)"

definition card_path :: "string list \<Rightarrow> bool" where
  "card_path segments \<longleftrightarrow> list_all cardSegmentSchema segments \<and> length segments \<le> MAX_CARD_DEPTH"

lemma card_path_Nil [simp]: "card_path []"
  by (simp add: card_path_def)

lemma card_path_butlast: "card_path segments \<Longrightarrow> card_path (butlast segments)"
  by (auto simp: card_path_def list_all_iff dest: in_set_butlastD)

lemma card_path_snoc:
  "card_path (segments @ [s]) \<longleftrightarrow>
     card_path segments \<and> cardSegmentSchema s \<and> length segments < MAX_CARD_DEPTH"
  by (auto simp: card_path_def)

lemma cardSegment_no_dash: "cardSegmentSchema s \<Longrightarrow> CHR ''-'' \<notin> set s"
  by (auto simp: cardSegmentSchema_def list_all_iff is_lower_def)

lemma split_card_id_of:
  assumes "card_path segments" and "segments \<noteq> []"
  shows "split_on CHR ''-'' (drop 5 (card_id_of segments)) = segments"
proof -
  have "\<forall>w \<in> set segments. CHR ''-'' \<notin> set w"
    using assms(1) by (auto simp: card_path_def list_all_iff dest: cardSegment_no_dash)
  then show ?thesis using assms(2) by (simp add: card_id_of_def split_on_join)
qed

lemma card_id_of_not_project: "segments \<noteq> [] \<Longrightarrow> card_id_of segments \<noteq> ''project''"
  by (simp add: card_id_of_def)

lemma nonRootCardIdSchema_iff:
  "nonRootCardIdSchema i \<longleftrightarrow> (\<exists>segments. segments \<noteq> [] \<and> card_path segments \<and> i = card_id_of segments)"
proof
  assume *: "nonRootCardIdSchema i"
  define segments where "segments = split_on CHR ''-'' (drop 5 i)"
  have "i = take 5 i @ drop 5 i" by simp
  also have "\<dots> = ''card-'' @ join ''-'' segments"
    using * by (simp add: nonRootCardIdSchema_def segments_def join_split_on)
  finally have "i = card_id_of segments" by (simp add: card_id_of_def segments_def)
  moreover have "card_path segments" "segments \<noteq> []"
    using * by (simp_all add: nonRootCardIdSchema_def card_path_def segments_def Let_def)
  ultimately show "\<exists>segments. segments \<noteq> [] \<and> card_path segments \<and> i = card_id_of segments"
    by blast
next
  assume "\<exists>segments. segments \<noteq> [] \<and> card_path segments \<and> i = card_id_of segments"
  then obtain segments where *: "segments \<noteq> []" "card_path segments" "i = card_id_of segments"
    by blast
  then have "take 5 i = ''card-''" by (simp add: card_id_of_def)
  with * split_card_id_of [OF *(2,1)] show "nonRootCardIdSchema i"
    by (simp add: nonRootCardIdSchema_def card_path_def)
qed

lemma cardIdSchema_iff: "cardIdSchema i \<longleftrightarrow> (\<exists>segments. card_path segments \<and> i = card_id_of segments)"
  unfolding cardIdSchema_def nonRootCardIdSchema_iff
  by (metis card_id_of_def card_path_Nil)

lemma card_id_of_valid [simp]: "card_path segments \<Longrightarrow> cardIdSchema (card_id_of segments)"
  by (auto simp: cardIdSchema_iff)

lemma cardIdSegments_card_id_of [simp]:
  assumes "card_path segments"
  shows "cardIdSegments (card_id_of segments) = Inr segments"
proof (cases "segments = []")
  case True
  then show ?thesis by (simp add: cardIdSegments_def card_id_of_def cardIdSchema_def)
next
  case False
  with assms show ?thesis
    by (simp add: cardIdSegments_def split_card_id_of card_id_of_not_project)
qed

lemma cardIdSegments_Inr_iff:
  "cardIdSegments i = Inr segments \<longleftrightarrow> card_path segments \<and> i = card_id_of segments"
proof
  assume *: "cardIdSegments i = Inr segments"
  then have "cardIdSchema i" by (auto simp: cardIdSegments_def errE)
  then obtain segments' where "card_path segments'" "i = card_id_of segments'"
    by (auto simp: cardIdSchema_iff)
  with * show "card_path segments \<and> i = card_id_of segments" by simp
qed simp

lemma card_id_of_inject:
  "card_path xs \<Longrightarrow> card_path ys \<Longrightarrow> card_id_of xs = card_id_of ys \<Longrightarrow> xs = ys"
  by (metis cardIdSegments_card_id_of sum.inject(2))

lemma cardDepth_card_id_of [simp]:
  "card_path segments \<Longrightarrow> cardDepth (card_id_of segments) = Inr (length segments)"
  by (simp add: cardDepth_def)

lemma cardParentId_card_id_of [simp]:
  assumes "card_path segments"
  shows "cardParentId (card_id_of segments) =
    Inr (if segments = [] then None else Some (card_id_of (butlast segments)))"
proof -
  have "length segments = Suc 0 \<longleftrightarrow> segments \<noteq> [] \<and> butlast segments = []"
    by (cases segments rule: rev_cases) auto
  with assms show ?thesis
    by (cases "segments = []") (auto simp: cardParentId_def card_id_of_def [of "butlast segments"])
qed

lemma childCardId_card_id_of:
  assumes "card_path segments"
  shows "childCardId (card_id_of segments) s =
    (if \<not> cardSegmentSchema s then Inl (ZodError ''cardSegment'')
     else if length segments < MAX_CARD_DEPTH then Inr (card_id_of (segments @ [s]))
     else Inl (ZodError ''nonRootCardId''))"
proof -
  have str: "(if card_id_of segments = ''project'' then ''card-'' @ s
      else card_id_of segments @ ''-'' @ s) = card_id_of (segments @ [s])"
    by (simp add: card_id_of_def join_snoc)
  have "nonRootCardIdSchema (card_id_of (segments @ [s])) \<longleftrightarrow> length segments < MAX_CARD_DEPTH"
    if s: "cardSegmentSchema s"
  proof
    assume "nonRootCardIdSchema (card_id_of (segments @ [s]))"
    then have len: "length (split_on CHR ''-'' (drop 5 (card_id_of (segments @ [s])))) \<le> MAX_CARD_DEPTH"
      by (simp add: nonRootCardIdSchema_def Let_def)
    have "\<forall>w \<in> set (segments @ [s]). CHR ''-'' \<notin> set w"
      using assms s by (auto simp: card_path_def list_all_iff dest: cardSegment_no_dash)
    then have "split_on CHR ''-'' (drop 5 (card_id_of (segments @ [s]))) = segments @ [s]"
      by (simp add: card_id_of_def split_on_join)
    with len show "length segments < MAX_CARD_DEPTH" by simp
  next
    assume "length segments < MAX_CARD_DEPTH"
    then have "card_path (segments @ [s])" using assms s by (simp add: card_path_snoc)
    then show "nonRootCardIdSchema (card_id_of (segments @ [s]))"
      by (auto simp: nonRootCardIdSchema_iff)
  qed
  with assms show ?thesis
    unfolding childCardId_def Let_def str by (auto simp: guardE_def)
qed

section \<open>The segment counter\<close>

text \<open>Lower-case letters are the digits 1 to 26 of a numeral, least significant first.\<close>

fun letters_value :: "string \<Rightarrow> nat" where
  "letters_value [] = 0"
| "letters_value (c # cs) = (code c - 96) + 26 * letters_value cs"

definition segment_value :: "string \<Rightarrow> nat" where
  "segment_value s = letters_value (rev s)"

lemma is_lower_succ:
  assumes "is_lower c" and "c \<noteq> CHR ''z''"
  shows "code (char_of (code c + 1)) = code c + 1" and "is_lower (char_of (code c + 1))"
proof -
  have "code c \<noteq> code CHR ''z''" using assms(2) by (metis char_of_char)
  then have lt: "code c < 122" using assms(1) by (auto simp: is_lower_def)
  then show eq: "code (char_of (code c + 1)) = code c + 1" by (simp add: of_char_mod_256)
  show "is_lower (char_of (code c + 1))"
    using assms(1) lt unfolding is_lower_def eq by simp
qed

lemma increment_letters_lower: "list_all is_lower cs \<Longrightarrow> list_all is_lower (increment_letters cs)"
  by (induction cs) (use is_lower_succ in \<open>auto simp: is_lower_def\<close>)

lemma increment_letters_nonempty [simp]: "increment_letters cs \<noteq> []"
  by (cases cs) auto

lemma increment_letters_value:
  "list_all is_lower cs \<Longrightarrow> letters_value (increment_letters cs) = letters_value cs + 1"
proof (induction cs)
  case Nil
  show ?case by simp
next
  case (Cons c cs)
  show ?case
  proof (cases "c = CHR ''z''")
    case True
    with Cons show ?thesis by simp
  next
    case False
    with Cons.prems have "code (char_of (code c + 1)) = code c + 1" "97 \<le> code c"
      using is_lower_succ(1) by (auto simp: is_lower_def)
    with False show ?thesis by simp
  qed
qed

lemma nextCardSegment_Some:
  assumes "cardSegmentSchema s"
  shows "\<exists>t. nextCardSegment (Some s) = Inr t \<and> cardSegmentSchema t \<and>
    segment_value t = segment_value s + 1"
proof -
  have low: "list_all is_lower (rev s)" using assms by (simp add: cardSegmentSchema_def list_all_iff)
  have "cardSegmentSchema (rev (increment_letters (rev s)))"
    using increment_letters_lower [OF low] by (simp add: cardSegmentSchema_def list_all_iff)
  moreover have "segment_value (rev (increment_letters (rev s))) = segment_value s + 1"
    using increment_letters_value [OF low] by (simp add: segment_value_def)
  ultimately show ?thesis using assms by (simp add: nextCardSegment_def Let_def)
qed

lemma base26_unique:
  assumes "a + 26 * m = b + 26 * (n::nat)" and "1 \<le> a" "a \<le> 26" "1 \<le> b" "b \<le> 26"
  shows "a = b" and "m = n"
proof -
  show "m = n" using assms by (cases m n rule: linorder_cases) linarith+
  with assms(1) show "a = b" by simp
qed

lemma letters_value_inject:
  "list_all is_lower xs \<Longrightarrow> list_all is_lower ys \<Longrightarrow> letters_value xs = letters_value ys \<Longrightarrow> xs = ys"
proof (induction xs arbitrary: ys)
  case Nil
  then show ?case by (cases ys) (auto simp: is_lower_def)
next
  case (Cons x xs)
  then obtain y ys' where ys: "ys = y # ys'" by (cases ys) (auto simp: is_lower_def)
  have bounds: "97 \<le> code x" "code x \<le> 122" "97 \<le> code y" "code y \<le> 122"
    using Cons.prems ys by (auto simp: is_lower_def)
  have eq: "(code x - 96) + 26 * letters_value xs = (code y - 96) + 26 * letters_value ys'"
    using Cons.prems ys by simp
  have "code x - 96 = code y - 96" and v: "letters_value xs = letters_value ys'"
    using base26_unique [OF eq] bounds by auto
  then have "code x = code y" using bounds by linarith
  then have "x = y" by (metis char_of_char)
  moreover have "xs = ys'" using Cons.IH Cons.prems ys v by auto
  ultimately show ?case using ys by simp
qed

lemma segment_value_inject:
  "cardSegmentSchema s \<Longrightarrow> cardSegmentSchema t \<Longrightarrow> segment_value s = segment_value t \<Longrightarrow> s = t"
  using letters_value_inject [of "rev s" "rev t"]
  by (simp add: cardSegmentSchema_def segment_value_def list_all_iff)

lemma segment_value_pos: "cardSegmentSchema s \<Longrightarrow> 0 < segment_value s"
  unfolding segment_value_def cardSegmentSchema_def
  by (cases s rule: rev_cases) (auto simp: is_lower_def)

section \<open>Properties\<close>

text \<open>
  Allotting segments: the first segment is \<open>a\<close>, and the successor of a valid segment is
  a valid segment that denotes the next number of a bijective base-26 numeral system, so
  repeated calls never hand out a segment twice.
\<close>

theorem nextCardSegment_counts:
  "nextCardSegment None = Inr ''a'' \<and> segment_value ''a'' = 1 \<and>
   (cardSegmentSchema s \<longrightarrow>
      (\<exists>t. nextCardSegment (Some s) = Inr t \<and> cardSegmentSchema t \<and>
           segment_value t = segment_value s + 1)) \<and>
   (cardSegmentSchema s \<and> cardSegmentSchema t \<and> segment_value s = segment_value t \<longrightarrow> s = t)"
  using nextCardSegment_Some segment_value_inject
  by (simp add: nextCardSegment_def segment_value_def)

theorem nextCardSegment_counts_witness:
  "cardSegmentSchema ''az'' \<and> nextCardSegment (Some ''az'') = Inr ''ba'' \<and>
   nextCardSegment (Some ''zz'') = Inr ''aaa'' \<and> segment_value ''ba'' = segment_value ''az'' + 1"
proof -
  have v: "cardSegmentSchema ''az''" by (simp add: cardSegmentSchema_def is_lower_def)
  have n: "nextCardSegment (Some ''az'') = Inr ''ba''" "nextCardSegment (Some ''zz'') = Inr ''aaa''"
    by code_simp+
  show ?thesis using nextCardSegment_counts [of "''az''"] v n by auto
qed

text \<open>
  Child and parent are inverse: a child identity is produced exactly below the maximal
  depth and from a valid segment, it is a valid identity one level deeper, and its parent is
  the card it was made from. Distinct segments give distinct children.
\<close>

theorem childCardId_roundtrip:
  assumes "cardIdSchema p" and "cardSegmentSchema s" and "cardDepth p = Inr d" and "d < MAX_CARD_DEPTH"
  shows "\<exists>i. childCardId p s = Inr i \<and> cardIdSchema i \<and> cardParentId i = Inr (Some p) \<and>
             cardDepth i = Inr (d + 1) \<and> cardIdSegments i = bindE (cardIdSegments p) (\<lambda>ss. Inr (ss @ [s]))"
proof -
  obtain ss where ss: "card_path ss" "p = card_id_of ss" using assms(1) by (auto simp: cardIdSchema_iff)
  then have "length ss = d" using assms(3) by simp
  then have "card_path (ss @ [s])" using assms ss by (simp add: card_path_snoc)
  with ss assms \<open>length ss = d\<close> show ?thesis by (simp add: childCardId_card_id_of)
qed

theorem childCardId_roundtrip_witness:
  "\<exists>i. childCardId ''card-a-b'' ''c'' = Inr i \<and> cardParentId i = Inr (Some ''card-a-b'') \<and> cardDepth i = Inr 3"
proof -
  have ok: "cardIdSchema ''card-a-b''" "cardSegmentSchema ''c''"
      "cardDepth ''card-a-b'' = Inr 2" "2 < MAX_CARD_DEPTH"
    by (simp_all add: cardIdSchema_def nonRootCardIdSchema_def cardSegmentSchema_def is_lower_def
        cardDepth_def cardIdSegments_def MAX_CARD_DEPTH_def)
  show ?thesis using childCardId_roundtrip [OF ok] by auto
qed

end
