(* ===== verification/Schemas.thy ===== *)
theory Schemas
  imports CardId
begin

text \<open>
  The shared data types and their zod schemas: name grammars, native Git facts
  (\<^verbatim>\<open>src/schemas/git-source.ts\<close>), the card lifecycle (\<^verbatim>\<open>src/schemas/lifecycle.ts\<close>), the card
  record (\<^verbatim>\<open>src/schemas/types.ts\<close>, \<^verbatim>\<open>src/schemas/validators.ts\<close>) and the version change
  (\<^verbatim>\<open>src/schemas/card-version-change.ts\<close>).

  A schema is a predicate on typed values: \<open>parse\<close> returns its input when the predicate
  holds and throws a \<open>ZodError\<close> otherwise. Object literals that a schema fixes
  (\<open>format_version\<close>, \<open>kind\<close>, \<open>changed_by_surface\<close>) are part of the type. The two string
  checks that zod itself implements, \<open>z.string().datetime()\<close> and \<open>z.string().uuid()\<close>, are
  the fields of the parameter \<open>zod\<close>.
\<close>

record zod =
  datetime :: "string \<Rightarrow> bool"
  uuid :: "string \<Rightarrow> bool"

section \<open>Names and identifiers\<close>

definition uuidV4Schema :: "string \<Rightarrow> bool" where
  "uuidV4Schema s \<longleftrightarrow> length s = 36 \<and>
     list_all (\<lambda>(i, c).
       if i \<in> {8, 13, 18, 23} then c = CHR ''-''
       else if i = 14 then c = CHR ''4''
       else if i = 19 then c \<in> {CHR ''8'', CHR ''9'', CHR ''a'', CHR ''b''}
       else is_hex c) (enumerate 0 s)"

definition agentNameSchema :: "string \<Rightarrow> bool" where
  "agentNameSchema = is_name"

definition cardTypeNameSchema :: "string \<Rightarrow> bool" where
  "cardTypeNameSchema = is_name"

definition externalActorSchema :: "string \<Rightarrow> bool" where
  "externalActorSchema s \<longleftrightarrow> starts_with ''external:'' s \<and> is_name (drop 9 s)"

definition createdBySchema :: "string \<Rightarrow> bool" where
  "createdBySchema s \<longleftrightarrow> externalActorSchema s \<or> agentNameSchema s \<or>
     s = ''runtime:bootstrap'' \<or> s = ''runtime:repair''"

definition operationComponent :: "string \<Rightarrow> bool" where
  "operationComponent s \<longleftrightarrow> is_name s \<and> length s \<le> 48"

definition operationIdSchema :: "string \<Rightarrow> bool" where
  "operationIdSchema s \<longleftrightarrow>
     (let parts = split_on CHR ''.'' s in 2 \<le> length parts \<and> list_all operationComponent parts)"

definition conversationSessionIdSchema :: "string \<Rightarrow> bool" where
  "conversationSessionIdSchema s = (case split_on CHR '':'' s of
     [a, name, rest] \<Rightarrow> a = ''agent'' \<and> agentNameSchema name \<and> (rest = ''global'' \<or> cardIdSchema rest)
   | _ \<Rightarrow> False)"

definition recordNameSchema :: "string \<Rightarrow> bool" where
  "recordNameSchema s \<longleftrightarrow> ends_with ''.md'' s \<and> is_name (take (length s - 3) s)"

section \<open>Native Git facts\<close>

definition gitOidSchema :: "string \<Rightarrow> bool" where
  "gitOidSchema s \<longleftrightarrow> (length s = 40 \<or> length s = 64) \<and> list_all is_hex s"

definition gitRefNameSchema :: "string \<Rightarrow> bool" where
  "gitRefNameSchema s \<longleftrightarrow>
     s \<noteq> [] \<and> \<not> starts_with ''/'' s \<and> \<not> ends_with ''/'' s \<and> \<not> ends_with ''.'' s \<and>
     \<not> list_ex (\<lambda>c. code c \<le> 32 \<or> code c = 127) s \<and>
     \<not> list_ex (\<lambda>c. c \<in> {CHR ''~'', CHR ''^'', CHR '':'', CHR ''?'', CHR ''*'', CHR ''['', CHR 0x5C}) s \<and>
     \<not> includes_str ''..'' s \<and> \<not> includes_str [CHR ''@'', CHR 0x7B] s \<and> s \<noteq> ''@'' \<and>
     list_all (\<lambda>part. part \<noteq> [] \<and> \<not> starts_with ''.'' part \<and> \<not> ends_with ''.lock'' part)
       (split_on CHR ''/'' s)"

definition gitBranchSchema :: "string \<Rightarrow> bool" where
  "gitBranchSchema s \<longleftrightarrow> gitRefNameSchema s \<and> starts_with ''refs/heads/'' s"

text \<open>\<open>^refs/saivage/.+/<area>/.+$\<close>, on names without control characters.\<close>

definition gitPrivateRef :: "string \<Rightarrow> string \<Rightarrow> bool" where
  "gitPrivateRef area s \<longleftrightarrow> gitRefNameSchema s \<and> starts_with ''refs/saivage/'' s \<and>
     (let rest = drop 13 s; sep = ''/'' @ area @ ''/''
      in list_ex (\<lambda>k. starts_with sep (drop k rest) \<and> k + length sep < length rest) [1..<length rest])"

record git_selection =
  gs_branch_ref :: string
  gs_observed_tip :: string

definition gitSelectionSchema :: "git_selection \<Rightarrow> bool" where
  "gitSelectionSchema g \<longleftrightarrow> gitBranchSchema (gs_branch_ref g) \<and> gitOidSchema (gs_observed_tip g)"

record git_preserved =
  gp_ref :: string
  gp_oid :: string
  gp_source_tip :: string

definition gitPreservedSourceSchema :: "git_preserved \<Rightarrow> bool" where
  "gitPreservedSourceSchema p \<longleftrightarrow> gitPrivateRef ''preserved'' (gp_ref p) \<and>
     gitOidSchema (gp_oid p) \<and> gitOidSchema (gp_source_tip p)"

record git_correction =
  gk_branch_ref :: string
  gk_base_oid :: string
  gk_original_tip :: string
  gk_onto :: git_selection
  gk_retained_original_ref :: string
  gk_preserved_source :: "git_preserved option"

definition gitCorrectionTaskSchema :: "git_correction \<Rightarrow> bool" where
  "gitCorrectionTaskSchema k \<longleftrightarrow> gitBranchSchema (gk_branch_ref k) \<and> gitOidSchema (gk_base_oid k) \<and>
     gitOidSchema (gk_original_tip k) \<and> gitSelectionSchema (gk_onto k) \<and>
     gitPrivateRef ''retained'' (gk_retained_original_ref k) \<and>
     pred_option gitPreservedSourceSchema (gk_preserved_source k)"

record git_candidate =
  gc_base_oid :: string
  gc_candidate_oid :: string
  gc_preparation_invocation_id :: string

record git_delivery =
  gd_child_tip :: string
  gd_parent_before :: string
  gd_parent_after :: string

text \<open>\<open>kind: 'root'\<close> carries the digest of the commissioned policy.\<close>

datatype git_kind = GitRoot (policy_digest: string) | GitChild

record git_facts =
  g_kind :: git_kind
  g_branch_ref :: string
  g_parent :: git_selection
  g_base_oid :: string
  g_observed_tip :: string
  g_candidate :: "git_candidate option"
  g_last_delivery :: "git_delivery option"
  g_correction :: "git_correction option"

definition is_root :: "git_facts \<Rightarrow> bool" where
  "is_root g \<longleftrightarrow> g_kind g \<noteq> GitChild"

definition cardGitFactsSchema :: "zod \<Rightarrow> git_facts \<Rightarrow> bool" where
  "cardGitFactsSchema z g \<longleftrightarrow>
     (case g_kind g of GitRoot d \<Rightarrow> length d = 64 \<and> list_all is_hex d | GitChild \<Rightarrow> True) \<and>
     gitBranchSchema (g_branch_ref g) \<and> gitSelectionSchema (g_parent g) \<and>
     gitOidSchema (g_base_oid g) \<and> gitOidSchema (g_observed_tip g) \<and>
     pred_option (\<lambda>c. gitOidSchema (gc_base_oid c) \<and> gitOidSchema (gc_candidate_oid c) \<and>
       uuid z (gc_preparation_invocation_id c)) (g_candidate g) \<and>
     pred_option (\<lambda>d. gitOidSchema (gd_child_tip d) \<and> gitOidSchema (gd_parent_before d) \<and>
       gitOidSchema (gd_parent_after d)) (g_last_delivery g) \<and>
     pred_option gitCorrectionTaskSchema (g_correction g) \<and>
     pred_option (\<lambda>k. gk_branch_ref k = g_branch_ref g \<and>
       gs_branch_ref (gk_onto k) = gs_branch_ref (g_parent g) \<and>
       gs_observed_tip (gk_onto k) = gs_observed_tip (g_parent g)) (g_correction g) \<and>
     pred_option (\<lambda>c. gc_base_oid c = g_base_oid g \<and> gc_candidate_oid c = g_observed_tip g) (g_candidate g)"

datatype git_native_step = Commission | Enter | Checkpoint | PrepareCandidate | VerifyCorrection
  | Deliver | PreserveAndReturn | CaptureRebase | RestoreRebaseAndReturn | Inspect | Switch

section \<open>Lifecycle\<close>

datatype card_status = Backlog | Running | Blocked | Changed | Stopped | Done | Failed | Cancelled

datatype provider_kind = Builtin | Plugin

datatype workflow_executor =
    AgentExecutor (executor_agent: string)
  | ActionExecutor (executor_action: string) (executor_contract_version: nat)
      (executor_provider_kind: provider_kind) (executor_provider_name: string)
      (executor_invocation_id: string)

definition workflowExecutorSchema :: "workflow_executor \<Rightarrow> bool" where
  "workflowExecutorSchema e = (case e of
     AgentExecutor agent \<Rightarrow> agent \<noteq> []
   | ActionExecutor action version kind name invocation \<Rightarrow>
       operationIdSchema action \<and> 0 < version \<and> name \<noteq> [] \<and> uuidV4Schema invocation)"

datatype workflow_terminal = DONE | BLOCKED | FAILED

record record_ref =
  rr_name :: string
  rr_url :: string
  rr_version :: nat

datatype card_result =
    WorkflowResult (wr_terminal: workflow_terminal) (wr_executor: workflow_executor)
      (wr_node_id: string) (wr_outcome: string) (result_summary: string) (wr_records: "record_ref list")
  | RuntimeFailure (result_summary: string)
  | ContentPolicyRefusal (result_summary: string) (cp_session_id: string) (cp_marker_id: string)
      (cp_evidence_url: string)
  | CompactionSummaryBlocked (result_summary: string) (cs_session_id: string) (cs_summary_input_id: string)
  | GitWorkflowBlocked (gb_step: git_native_step) (gb_invocation_id: string) (result_summary: string)

fun result_kind :: "card_result \<Rightarrow> string" where
  "result_kind (WorkflowResult _ _ _ _ _ _) = ''workflow-result''"
| "result_kind (RuntimeFailure _) = ''runtime-failure''"
| "result_kind (ContentPolicyRefusal _ _ _ _) = ''content-policy-refusal''"
| "result_kind (CompactionSummaryBlocked _ _ _) = ''compaction-summary-blocked''"
| "result_kind (GitWorkflowBlocked _ _ _) = ''git-workflow-blocked''"

definition CONTENT_POLICY_REFUSAL_BLOCKED_SUMMARY :: string where
  "CONTENT_POLICY_REFUSAL_BLOCKED_SUMMARY =
     ''Provider content policy blocked this card after one safety-respecting reframing attempt.''"

definition COMPACTION_SUMMARY_BLOCKED_SUMMARY :: string where
  "COMPACTION_SUMMARY_BLOCKED_SUMMARY =
     ''Internal conversation summarization was blocked by the provider after bounded recovery. No further automatic retry was attempted.''"

fun workflowResultSchema :: "card_result \<Rightarrow> bool" where
  "workflowResultSchema (WorkflowResult _ executor node outcome summary records) \<longleftrightarrow>
     workflowExecutorSchema executor \<and> node \<noteq> [] \<and> outcome \<noteq> [] \<and> summary \<noteq> [] \<and>
     list_all (\<lambda>r. rr_name r \<noteq> [] \<and> rr_url r \<noteq> [] \<and> 0 < rr_version r) records"
| "workflowResultSchema _ \<longleftrightarrow> False"

fun failedResultSchema :: "card_result \<Rightarrow> bool" where
  "failedResultSchema (RuntimeFailure summary) \<longleftrightarrow> summary \<noteq> []"
| "failedResultSchema r \<longleftrightarrow> workflowResultSchema r"

fun blockedResultSchema :: "zod \<Rightarrow> card_result \<Rightarrow> bool" where
  "blockedResultSchema z (ContentPolicyRefusal summary session marker evidence) \<longleftrightarrow>
     summary = CONTENT_POLICY_REFUSAL_BLOCKED_SUMMARY \<and> conversationSessionIdSchema session \<and>
     marker \<noteq> [] \<and> evidence \<noteq> []"
| "blockedResultSchema z (CompactionSummaryBlocked summary session input) \<longleftrightarrow>
     summary = COMPACTION_SUMMARY_BLOCKED_SUMMARY \<and> conversationSessionIdSchema session \<and> uuid z input"
| "blockedResultSchema z (GitWorkflowBlocked step invocation summary) \<longleftrightarrow>
     uuidV4Schema invocation \<and> summary \<noteq> []"
| "blockedResultSchema z r \<longleftrightarrow> workflowResultSchema r"

text \<open>Statuses without a result have \<open>result\<close>, \<open>error\<close> and \<open>completed_at\<close> null; a blocked card
  has no completion time.\<close>

datatype card_lifecycle =
    LBacklog
  | LRunning
  | LChanged
  | LStopped
  | LDone card_result string
  | LFailed card_result string string
  | LBlocked card_result string
  | LCancelled

fun lc_status :: "card_lifecycle \<Rightarrow> card_status" where
  "lc_status LBacklog = Backlog"
| "lc_status LRunning = Running"
| "lc_status LChanged = Changed"
| "lc_status LStopped = Stopped"
| "lc_status (LDone _ _) = Done"
| "lc_status (LFailed _ _ _) = Failed"
| "lc_status (LBlocked _ _) = Blocked"
| "lc_status LCancelled = Cancelled"

fun lc_result :: "card_lifecycle \<Rightarrow> card_result option" where
  "lc_result (LDone r _) = Some r"
| "lc_result (LFailed r _ _) = Some r"
| "lc_result (LBlocked r _) = Some r"
| "lc_result _ = None"

fun lc_error :: "card_lifecycle \<Rightarrow> string option" where
  "lc_error (LFailed _ e _) = Some e"
| "lc_error (LBlocked _ e) = Some e"
| "lc_error _ = None"

fun lc_completed_at :: "card_lifecycle \<Rightarrow> string option" where
  "lc_completed_at (LDone _ t) = Some t"
| "lc_completed_at (LFailed _ _ t) = Some t"
| "lc_completed_at _ = None"

fun cardLifecycleStateSchema :: "zod \<Rightarrow> card_lifecycle \<Rightarrow> bool" where
  "cardLifecycleStateSchema z (LDone r t) \<longleftrightarrow> workflowResultSchema r \<and> datetime z t"
| "cardLifecycleStateSchema z (LFailed r e t) \<longleftrightarrow> failedResultSchema r \<and> e \<noteq> [] \<and> datetime z t"
| "cardLifecycleStateSchema z (LBlocked r e) \<longleftrightarrow> blockedResultSchema z r \<and> e \<noteq> []"
| "cardLifecycleStateSchema z _ \<longleftrightarrow> True"

end
