(* ===== verification/CardRecord.thy ===== *)
theory CardRecord
  imports Schemas
begin

text \<open>
  The card record, its schema with the cross-field refinements (\<^verbatim>\<open>src/schemas/types.ts\<close>,
  \<^verbatim>\<open>src/schemas/validators.ts\<close>), queued notifications, and the version change that accompanies
  every published version (\<^verbatim>\<open>src/schemas/c-version-change.ts\<close>).
\<close>

section \<open>The card record\<close>

datatype urgency = Low | Normal | High | Critical

text \<open>
  \<open>ordinary_card\<close> is the payload kept in history, \<open>card_record\<close> adds the three current
  fields that a card head carries (\<open>ordinaryCardPayloadSchema\<close> drops exactly these).
\<close>

record ordinary_card =
  c_git :: "git_facts option"
  c_id :: string
  c_type :: string
  c_child_membership :: "string list"
  c_active_child_order :: "string list"
  c_title :: string
  c_priority :: int
  c_urgency :: urgency
  c_created_by :: string
  c_created_at :: string
  c_depends_on :: "string list"
  c_lifecycle :: card_lifecycle
  c_status_text :: "string option"
  c_status_text_updated_at :: "string option"

record card_record = ordinary_card +
  c_updated_at :: string
  c_version_seq :: nat
  c_pending_notifications :: "string list"

abbreviation c_status :: "'a ordinary_card_scheme \<Rightarrow> card_status" where
  "c_status c \<equiv> lc_status (c_lifecycle c)"

definition ordinaryCardPayload :: "card_record \<Rightarrow> ordinary_card" where
  "ordinaryCardPayload c =
     \<lparr>c_git = c_git c, c_id = c_id c, c_type = c_type c,
      c_child_membership = c_child_membership c, c_active_child_order = c_active_child_order c,
      c_title = c_title c, c_priority = c_priority c, c_urgency = c_urgency c,
      c_created_by = c_created_by c, c_created_at = c_created_at c, c_depends_on = c_depends_on c,
      c_lifecycle = c_lifecycle c, c_status_text = c_status_text c,
      c_status_text_updated_at = c_status_text_updated_at c\<rparr>"

text \<open>The object spread \<open>{ ...payload, version_seq, updated_at, pending_notifications }\<close>.\<close>

definition with_current :: "ordinary_card \<Rightarrow> nat \<Rightarrow> string \<Rightarrow> string list \<Rightarrow> card_record" where
  "with_current p version updated pending =
     \<lparr>c_git = c_git p, c_id = c_id p, c_type = c_type p,
      c_child_membership = c_child_membership p, c_active_child_order = c_active_child_order p,
      c_title = c_title p, c_priority = c_priority p, c_urgency = c_urgency p,
      c_created_by = c_created_by p, c_created_at = c_created_at p, c_depends_on = c_depends_on p,
      c_lifecycle = c_lifecycle p, c_status_text = c_status_text p,
      c_status_text_updated_at = c_status_text_updated_at p,
      c_updated_at = updated, c_version_seq = version, c_pending_notifications = pending\<rparr>"

record card_notification =
  n_id :: string
  n_content :: string
  n_created_at :: string
  n_source :: "string option"

definition cardNotificationSchema :: "zod \<Rightarrow> card_notification \<Rightarrow> bool" where
  "cardNotificationSchema z n \<longleftrightarrow> uuidV4Schema (n_id n) \<and> n_content n \<noteq> [] \<and>
     datetime z (n_created_at n) \<and> pred_option (\<lambda>s. s \<noteq> []) (n_source n)"

text \<open>The object shapes, field by field; \<open>priority\<close> is an integer by its type.\<close>

definition ordinaryCardPayloadSchema :: "zod \<Rightarrow> 'a ordinary_card_scheme \<Rightarrow> bool" where
  "ordinaryCardPayloadSchema z c \<longleftrightarrow>
     pred_option (cardGitFactsSchema z) (c_git c) \<and>
     cardIdSchema (c_id c) \<and>
     cardTypeNameSchema (c_type c) \<and>
     list_all cardIdSchema (c_child_membership c) \<and>
     list_all cardIdSchema (c_active_child_order c) \<and>
     c_title c \<noteq> [] \<and>
     cardLifecycleStateSchema z (c_lifecycle c) \<and>
     createdBySchema (c_created_by c) \<and>
     datetime z (c_created_at c) \<and>
     list_all cardIdSchema (c_depends_on c) \<and>
     pred_option (datetime z) (c_status_text_updated_at c)"

definition cardRecordShape :: "zod \<Rightarrow> card_record \<Rightarrow> bool" where
  "cardRecordShape z c \<longleftrightarrow> ordinaryCardPayloadSchema z c \<and>
     datetime z (c_updated_at c) \<and>
     positiveSafeIntegerSchema (c_version_seq c) \<and>
     list_all uuidV4Schema (c_pending_notifications c)"

definition refineCardCommon :: "'a ordinary_card_scheme \<Rightarrow> bool" where
  "refineCardCommon c \<longleftrightarrow>
     pred_option (\<lambda>g. is_root g = (c_id c = ''project'')) (c_git c) \<and>
     (c_id c = ''project'' \<longrightarrow> c_type c = ''project'') \<and>
     (c_id c \<noteq> ''project'' \<longrightarrow> c_type c \<noteq> ''project'') \<and>
     distinct (c_child_membership c) \<and>
     list_all (\<lambda>i. cardParentId i = Inr (Some (c_id c))) (c_child_membership c) \<and>
     distinct (c_active_child_order c) \<and>
     list_all (\<lambda>i. cardParentId i = Inr (Some (c_id c))) (c_active_child_order c) \<and>
     length (c_child_membership c) = length (c_active_child_order c) \<and>
     list_all (\<lambda>i. i \<in> set (c_active_child_order c)) (c_child_membership c)"

definition refineCardLifecycle :: "card_record \<Rightarrow> bool" where
  "refineCardLifecycle c \<longleftrightarrow>
     refineCardCommon c \<and>
     distinct (c_pending_notifications c) \<and>
     (c_status c \<in> {Done, Failed, Cancelled} \<longrightarrow> c_pending_notifications c = [])"

definition cardRecordSchema :: "zod \<Rightarrow> card_record \<Rightarrow> bool" where
  "cardRecordSchema z c \<longleftrightarrow> cardRecordShape z c \<and> refineCardLifecycle c"

definition parse_card :: "zod \<Rightarrow> card_record \<Rightarrow> error + card_record" where
  "parse_card z c = (if cardRecordSchema z c then Inr c else Inl (ZodError ''cardRecord''))"

lemmas cardRecordSchema_defs =
  cardRecordSchema_def cardRecordShape_def ordinaryCardPayloadSchema_def refineCardLifecycle_def
  refineCardCommon_def

lemma parse_card_Inr_iff [errE]: "parse_card z c = Inr c' \<longleftrightarrow> c' = c \<and> cardRecordSchema z c"
  by (auto simp: parse_card_def)

section \<open>Version changes\<close>

datatype change_kind = KUpdate | KGitSource | KNotificationEnqueue | KNotificationRemove
  | KStatus | KTerminal | KChildLink | KReorder | KDelete

record content_policy_summary =
  cps_session_id :: string
  cps_marker_id :: string
  cps_evidence_url :: string
  cps_blocked_at :: string

record terminal_summary =
  ts_status :: card_status
  ts_result_kind :: string
  ts_summary :: string
  ts_content_policy :: "content_policy_summary option"

record card_version_change =
  v_entry_id :: string
  v_kind :: change_kind
  v_card_id :: string
  v_resulting_version :: nat
  v_changed_at :: string
  v_changed_by_actor :: string
  v_changed_fields :: "string list"
  v_change_summary :: string
  v_change_reason :: string
  v_terminal_summary :: "terminal_summary option"

definition terminalSummarySchema :: "zod \<Rightarrow> terminal_summary \<Rightarrow> bool" where
  "terminalSummarySchema z t \<longleftrightarrow>
     ts_status t \<in> {Done, Failed, Blocked} \<and>
     ts_result_kind t \<in> {''workflow-result'', ''runtime-failure'', ''content-policy-refusal'',
       ''compaction-summary-blocked'', ''git-workflow-blocked''} \<and>
     ts_summary t \<noteq> [] \<and>
     pred_option (\<lambda>p. conversationSessionIdSchema (cps_session_id p) \<and> cps_marker_id p \<noteq> [] \<and>
       cps_evidence_url p \<noteq> [] \<and> datetime z (cps_blocked_at p)) (ts_content_policy t) \<and>
     (ts_result_kind t = ''content-policy-refusal'') = (ts_content_policy t \<noteq> None)"

definition cardVersionChangeSchema :: "zod \<Rightarrow> card_version_change \<Rightarrow> bool" where
  "cardVersionChangeSchema z v \<longleftrightarrow>
     uuid z (v_entry_id v) \<and> cardIdSchema (v_card_id v) \<and>
     positiveSafeIntegerSchema (v_resulting_version v) \<and> datetime z (v_changed_at v) \<and>
     (agentNameSchema (v_changed_by_actor v) \<or> externalActorSchema (v_changed_by_actor v) \<or>
       v_changed_by_actor v = ''runtime'') \<and>
     v_changed_fields v \<noteq> [] \<and> list_all (\<lambda>f. f \<noteq> []) (v_changed_fields v) \<and>
     v_change_summary v \<noteq> [] \<and> v_change_reason v \<noteq> [] \<and>
     distinct (v_changed_fields v) \<and>
     (if v_kind v \<in> {KUpdate, KDelete} then v_changed_by_actor v \<noteq> ''runtime''
      else v_changed_by_actor v = ''runtime'') \<and>
     (v_kind v = KTerminal) = (v_terminal_summary v \<noteq> None) \<and>
     pred_option (terminalSummarySchema z) (v_terminal_summary v)"

definition parse_change :: "zod \<Rightarrow> card_version_change \<Rightarrow> error + card_version_change" where
  "parse_change z v =
     (if cardVersionChangeSchema z v then Inr v else Inl (ZodError ''cardVersionChange''))"

lemma parse_change_Inr_iff [errE]: "parse_change z v = Inr v' \<longleftrightarrow> v' = v \<and> cardVersionChangeSchema z v"
  by (auto simp: parse_change_def)

section \<open>Payloads\<close>

lemma with_current_sel [simp]:
  "c_git (with_current p v u q) = c_git p"
  "c_id (with_current p v u q) = c_id p"
  "c_type (with_current p v u q) = c_type p"
  "c_child_membership (with_current p v u q) = c_child_membership p"
  "c_active_child_order (with_current p v u q) = c_active_child_order p"
  "c_title (with_current p v u q) = c_title p"
  "c_priority (with_current p v u q) = c_priority p"
  "c_urgency (with_current p v u q) = c_urgency p"
  "c_created_by (with_current p v u q) = c_created_by p"
  "c_created_at (with_current p v u q) = c_created_at p"
  "c_depends_on (with_current p v u q) = c_depends_on p"
  "c_lifecycle (with_current p v u q) = c_lifecycle p"
  "c_status_text (with_current p v u q) = c_status_text p"
  "c_status_text_updated_at (with_current p v u q) = c_status_text_updated_at p"
  "c_updated_at (with_current p v u q) = u"
  "c_version_seq (with_current p v u q) = v"
  "c_pending_notifications (with_current p v u q) = q"
  by (simp_all add: with_current_def)

lemma ordinaryCardPayload_sel [simp]:
  "c_git (ordinaryCardPayload c) = c_git c"
  "c_id (ordinaryCardPayload c) = c_id c"
  "c_type (ordinaryCardPayload c) = c_type c"
  "c_child_membership (ordinaryCardPayload c) = c_child_membership c"
  "c_active_child_order (ordinaryCardPayload c) = c_active_child_order c"
  "c_title (ordinaryCardPayload c) = c_title c"
  "c_priority (ordinaryCardPayload c) = c_priority c"
  "c_urgency (ordinaryCardPayload c) = c_urgency c"
  "c_created_by (ordinaryCardPayload c) = c_created_by c"
  "c_created_at (ordinaryCardPayload c) = c_created_at c"
  "c_depends_on (ordinaryCardPayload c) = c_depends_on c"
  "c_lifecycle (ordinaryCardPayload c) = c_lifecycle c"
  "c_status_text (ordinaryCardPayload c) = c_status_text c"
  "c_status_text_updated_at (ordinaryCardPayload c) = c_status_text_updated_at c"
  by (simp_all add: ordinaryCardPayload_def)

lemma ordinaryCardPayload_with_current [simp]: "ordinaryCardPayload (with_current p v u q) = p"
  by (simp add: ordinaryCardPayload_def)

lemma with_current_ordinaryCardPayload:
  "with_current (ordinaryCardPayload c) v u q =
     c\<lparr>c_version_seq := v, c_updated_at := u, c_pending_notifications := q\<rparr>"
  by (simp add: with_current_def)

lemma with_current_eqI:
  "ordinaryCardPayload c = p \<Longrightarrow> c_version_seq c = v \<Longrightarrow> c_updated_at c = u \<Longrightarrow>
   c_pending_notifications c = q \<Longrightarrow> with_current p v u q = c"
  by (auto simp: with_current_ordinaryCardPayload)

lemma ordinaryCardPayloadSchema_payload [simp]:
  "ordinaryCardPayloadSchema z (ordinaryCardPayload c) = ordinaryCardPayloadSchema z c"
  "ordinaryCardPayloadSchema z (with_current p v u q) = ordinaryCardPayloadSchema z p"
  by (simp_all add: ordinaryCardPayloadSchema_def)

lemma refineCardCommon_payload [simp]:
  "refineCardCommon (ordinaryCardPayload c) = refineCardCommon c"
  "refineCardCommon (with_current p v u q) = refineCardCommon p"
  by (simp_all add: refineCardCommon_def)

lemma cardRecordSchema_with_current:
  "cardRecordSchema z (with_current p v u q) \<longleftrightarrow>
     ordinaryCardPayloadSchema z p \<and> datetime z u \<and> positiveSafeIntegerSchema v \<and>
     list_all uuidV4Schema q \<and> refineCardCommon p \<and> distinct q \<and>
     (c_status p \<in> {Done, Failed, Cancelled} \<longrightarrow> q = [])"
  by (simp add: cardRecordSchema_def cardRecordShape_def refineCardLifecycle_def)

lemma cardRecordSchema_payload:
  "cardRecordSchema z c \<Longrightarrow> ordinaryCardPayloadSchema z c \<and> refineCardCommon c"
  by (simp add: cardRecordSchema_def cardRecordShape_def refineCardLifecycle_def)

section \<open>Consequences of the schema\<close>

lemma card_children_same_set:
  assumes "cardRecordSchema z c"
  shows "set (c_child_membership c) = set (c_active_child_order c)"
proof -
  have "distinct (c_child_membership c)"
    "length (c_child_membership c) = length (c_active_child_order c)"
    "set (c_child_membership c) \<subseteq> set (c_active_child_order c)"
    using assms by (auto simp: cardRecordSchema_defs list_all_iff)
  then show ?thesis by (rule distinct_same_length_set)
qed

lemma card_child_parent:
  "cardRecordSchema z c \<Longrightarrow> i \<in> set (c_child_membership c) \<Longrightarrow> cardParentId i = Inr (Some (c_id c))"
  by (auto simp: cardRecordSchema_defs list_all_iff)

end
