(* ===== verification/CardLifecycle.thy ===== *)
theory CardLifecycle
  imports CardRecord
begin

text \<open>
  Pure lifecycle rules of cards: status predicates (\<^verbatim>\<open>src/cards/card-status.ts\<close>), operator
  permissions (\<^verbatim>\<open>src/cards/card-permissions.ts\<close>), and the builders and guards of
  \<^verbatim>\<open>src/cards/lifecycle.ts\<close> for status operations, edits and notification queues.
\<close>

section \<open>Status predicates\<close>

definition canCreateChildInStatus :: "card_status \<Rightarrow> bool" where
  "canCreateChildInStatus s \<longleftrightarrow> s = Backlog \<or> s = Changed \<or> s = Running \<or> s = Blocked \<or> s = Stopped"

definition canCancelCardStatus :: "card_status \<Rightarrow> bool" where
  "canCancelCardStatus s \<longleftrightarrow> s \<noteq> Done \<and> s \<noteq> Cancelled"

definition acceptsCardNotifications :: "card_status \<Rightarrow> bool" where
  "acceptsCardNotifications s \<longleftrightarrow> s = Backlog \<or> s = Changed \<or> s = Running \<or> s = Blocked \<or> s = Stopped"

datatype edit_effect = Preserve | Reopen

definition analystRecordEditEffect :: "card_status \<Rightarrow> edit_effect option" where
  "analystRecordEditEffect s =
     (if s = Backlog \<or> s = Changed \<or> s = Running \<or> s = Stopped then Some Preserve
      else if s = Blocked \<or> s = Done \<or> s = Failed then Some Reopen
      else None)"

section \<open>Operator permissions\<close>

datatype card_action = CardStart | CardCreate | CardCancel | CardDelete | CardReorderChild

definition cardActionValues :: "card_action list" where
  "cardActionValues = [CardStart, CardCreate, CardCancel, CardDelete, CardReorderChild]"

fun isOperatorCardActionAllowed :: "card_action \<Rightarrow> card_status \<Rightarrow> bool" where
  "isOperatorCardActionAllowed CardStart s \<longleftrightarrow> s = Backlog \<or> s = Changed \<or> s = Stopped"
| "isOperatorCardActionAllowed CardCreate s \<longleftrightarrow> False"
| "isOperatorCardActionAllowed CardCancel s \<longleftrightarrow> canCancelCardStatus s"
| "isOperatorCardActionAllowed CardDelete s \<longleftrightarrow> s \<noteq> Running"
| "isOperatorCardActionAllowed CardReorderChild s \<longleftrightarrow> False"

definition allowedOperatorCardActions :: "card_status \<Rightarrow> card_action list" where
  "allowedOperatorCardActions s = filter (\<lambda>a. isOperatorCardActionAllowed a s) cardActionValues"

section \<open>Status operations\<close>

datatype set_status_target = ToRunning | ToChanged | ToCancelled

fun target_status :: "set_status_target \<Rightarrow> card_status" where
  "target_status ToRunning = Running"
| "target_status ToChanged = Changed"
| "target_status ToCancelled = Cancelled"

text \<open>The keys of the table \<open>SET_STATUS_SOURCES\<close> are the targets; any other status has no entry.\<close>

fun SET_STATUS_SOURCES :: "card_status \<Rightarrow> card_status list option" where
  "SET_STATUS_SOURCES Running = Some [Backlog, Blocked, Changed]"
| "SET_STATUS_SOURCES Changed = Some [Blocked, Done, Failed]"
| "SET_STATUS_SOURCES Cancelled = Some [Backlog, Running, Blocked, Changed, Stopped, Failed]"
| "SET_STATUS_SOURCES _ = None"

definition isSetStatusTransition :: "card_status \<Rightarrow> card_status \<Rightarrow> bool" where
  "isSetStatusTransition from to' =
     (case SET_STATUS_SOURCES to' of None \<Rightarrow> False | Some sources \<Rightarrow> from \<in> set sources)"

definition assertSetStatusAdmission :: "card_record \<Rightarrow> set_status_target \<Rightarrow> error + unit" where
  "assertSetStatusAdmission c target =
     guardE (isSetStatusTransition (c_status c) (target_status target))
       (PlainError ''Invalid status operation'' [c_id c])"

fun buildSetStatusLifecycle :: "set_status_target \<Rightarrow> card_lifecycle" where
  "buildSetStatusLifecycle ToRunning = LRunning"
| "buildSetStatusLifecycle ToChanged = LChanged"
| "buildSetStatusLifecycle ToCancelled = LCancelled"

definition buildStoppedLifecycle :: card_lifecycle where
  "buildStoppedLifecycle = LStopped"

definition buildActivatedStoppedLifecycle :: card_lifecycle where
  "buildActivatedStoppedLifecycle = LRunning"

section \<open>Edits\<close>

definition summarizeChangedFields :: "string list \<Rightarrow> string" where
  "summarizeChangedFields fs =
     (if fs = [] then ''card updated'' else join '', '' fs @ '' updated'')"

text \<open>A patch has an optional value per editable field, absent for \<open>undefined\<close>.\<close>

record card_edit_patch =
  p_title :: "string option"
  p_priority :: "int option"
  p_urgency :: "urgency option"

definition empty_patch :: card_edit_patch where
  "empty_patch = \<lparr>p_title = None, p_priority = None, p_urgency = None\<rparr>"

definition keep_if_differs :: "'a \<Rightarrow> 'a option \<Rightarrow> 'a option" where
  "keep_if_differs current v = (if v = Some current then None else v)"

definition pruneCardEditPatch :: "card_record \<Rightarrow> card_edit_patch \<Rightarrow> card_edit_patch" where
  "pruneCardEditPatch existing p =
     \<lparr>p_title = keep_if_differs (c_title existing) (p_title p),
      p_priority = keep_if_differs (c_priority existing) (p_priority p),
      p_urgency = keep_if_differs (c_urgency existing) (p_urgency p)\<rparr>"

definition or_else :: "'a option \<Rightarrow> 'a \<Rightarrow> 'a" where
  "or_else v d = (case v of None \<Rightarrow> d | Some x \<Rightarrow> x)"

definition buildEditedCard :: "card_record \<Rightarrow> card_edit_patch \<Rightarrow> string \<Rightarrow> card_record" where
  "buildEditedCard existing p stamp = existing
     \<lparr>c_title := or_else (p_title p) (c_title existing),
      c_priority := or_else (p_priority p) (c_priority existing),
      c_urgency := or_else (p_urgency p) (c_urgency existing),
      c_updated_at := stamp,
      c_version_seq := c_version_seq existing + 1\<rparr>"

definition collectEditChangedFields :: "card_record \<Rightarrow> card_record \<Rightarrow> card_edit_patch \<Rightarrow> string list" where
  "collectEditChangedFields existing candidate p =
     (if p_title p \<noteq> None \<and> c_title existing \<noteq> c_title candidate then [''title''] else []) @
     (if p_priority p \<noteq> None \<and> c_priority existing \<noteq> c_priority candidate then [''priority''] else []) @
     (if p_urgency p \<noteq> None \<and> c_urgency existing \<noteq> c_urgency candidate then [''urgency''] else [])"

section \<open>Notification queue\<close>

definition enqueueCardNotification :: "zod \<Rightarrow> card_record \<Rightarrow> card_notification \<Rightarrow> error + card_record" where
  "enqueueCardNotification z c n =
     bindE (guardE (acceptsCardNotifications (c_status c))
       (PlainError ''Cannot queue notification for terminal card'' [c_id c])) (\<lambda>_.
     bindE (guardE (cardNotificationSchema z n) (ZodError ''cardNotification'')) (\<lambda>_.
     bindE (guardE (n_id n \<notin> set (c_pending_notifications c))
       (PlainError ''Notification already exists on card'' [n_id n, c_id c])) (\<lambda>_.
     Inr (c\<lparr>c_pending_notifications := c_pending_notifications c @ [n_id n]\<rparr>))))"

definition removeCardNotifications :: "card_record \<Rightarrow> string list \<Rightarrow> error + card_record" where
  "removeCardNotifications c ids =
     bindE (guardE (ids \<noteq> []) (PlainError ''Notification removal requires at least one id.'' [])) (\<lambda>_.
     bindE (guardE (list_all uuidV4Schema ids) (ZodError ''uuidV4'')) (\<lambda>_.
     bindE (guardE (distinct ids) (PlainError ''Notification removal ids must be unique.'' [])) (\<lambda>_.
     Inr (c\<lparr>c_pending_notifications := filter (\<lambda>n. n \<notin> set ids) (c_pending_notifications c)\<rparr>))))"

section \<open>Lemmas\<close>

lemma set_status_target_lifecycle [simp]: "lc_status (buildSetStatusLifecycle t) = target_status t"
  by (cases t) auto

lemma buildSetStatusLifecycle_schema [simp]: "cardLifecycleStateSchema z (buildSetStatusLifecycle t)"
  by (cases t) auto

lemma isSetStatusTransition_simps [simp]:
  "isSetStatusTransition from Running \<longleftrightarrow> from \<in> {Backlog, Blocked, Changed}"
  "isSetStatusTransition from Changed \<longleftrightarrow> from \<in> {Blocked, Done, Failed}"
  "isSetStatusTransition from Cancelled \<longleftrightarrow> from \<in> {Backlog, Running, Blocked, Changed, Stopped, Failed}"
  "isSetStatusTransition from Backlog \<longleftrightarrow> False"
  "isSetStatusTransition from Blocked \<longleftrightarrow> False"
  "isSetStatusTransition from Stopped \<longleftrightarrow> False"
  "isSetStatusTransition from Done \<longleftrightarrow> False"
  "isSetStatusTransition from Failed \<longleftrightarrow> False"
  by (auto simp: isSetStatusTransition_def)

lemma isSetStatusTransition_target:
  "isSetStatusTransition from (target_status t) \<Longrightarrow> from \<noteq> target_status t"
  by (cases t) auto

lemma assertSetStatusAdmission_Inr [errE]:
  "assertSetStatusAdmission c t = Inr u \<longleftrightarrow> isSetStatusTransition (c_status c) (target_status t)"
  by (simp add: assertSetStatusAdmission_def errE)

lemma summarizeChangedFields_nonempty [simp]: "summarizeChangedFields fs \<noteq> []"
  by (simp add: summarizeChangedFields_def)

lemma or_else_simps [simp]: "or_else None d = d" "or_else (Some x) d = x"
  by (simp_all add: or_else_def)

lemma keep_if_differs_Some: "keep_if_differs x v = Some y \<longleftrightarrow> v = Some y \<and> y \<noteq> x"
  by (auto simp: keep_if_differs_def)

lemma or_else_keep_if_differs: "or_else (keep_if_differs x v) x = or_else v x"
  by (cases v) (auto simp: keep_if_differs_def)

lemma or_else_keep_eq_iff: "x = or_else (keep_if_differs x v) x \<longleftrightarrow> keep_if_differs x v = None"
  by (cases v) (auto simp: keep_if_differs_def)

text \<open>Pruned edits change exactly the fields they keep.\<close>

lemma collectEditChangedFields_pruned:
  fixes existing :: card_record and p :: card_edit_patch
  defines "q \<equiv> pruneCardEditPatch existing p"
  shows "collectEditChangedFields existing (buildEditedCard existing q stamp) q =
    (if p_title q \<noteq> None then [''title''] else []) @
    (if p_priority q \<noteq> None then [''priority''] else []) @
    (if p_urgency q \<noteq> None then [''urgency''] else [])"
  by (simp add: collectEditChangedFields_def buildEditedCard_def q_def pruneCardEditPatch_def
      or_else_keep_eq_iff)

section \<open>Properties\<close>

text \<open>
  The permission tables agree: the operator is offered cancellation exactly in the statuses
  from which the status operation accepts it, and the statuses that accept notifications are
  exactly those in which children may be created; deletion is withheld only while running.
\<close>

theorem status_tables_agree:
  "(CardCancel \<in> set (allowedOperatorCardActions s) \<longleftrightarrow> isSetStatusTransition s Cancelled) \<and>
   (CardStart \<in> set (allowedOperatorCardActions s) \<longleftrightarrow>
      s = Stopped \<or> (s \<noteq> Blocked \<and> isSetStatusTransition s Running)) \<and>
   (CardDelete \<in> set (allowedOperatorCardActions s) \<longleftrightarrow> s \<noteq> Running) \<and>
   acceptsCardNotifications s = canCreateChildInStatus s \<and>
   (analystRecordEditEffect s = Some Reopen \<longleftrightarrow> isSetStatusTransition s Changed)"
  by (cases s) (auto simp: allowedOperatorCardActions_def cardActionValues_def canCancelCardStatus_def
      acceptsCardNotifications_def canCreateChildInStatus_def analystRecordEditEffect_def)

end
