(* ===== verification/CardArtifacts.thy ===== *)
theory CardArtifacts
  imports CardLifecycle
begin

text \<open>
  Canonical card artifacts (\<^verbatim>\<open>src/persistence/canonical-card-artifacts.ts\<close>): the head selector of a
  card, the immutable history documents (ordinary versions and tombstones), their schemas,
  the admission of an initial card and the validator \<open>validateCardTransition\<close> that every
  published version and every step of a read history must pass.
\<close>

section \<open>Documents\<close>

record artifact_ref =
  ref_entry_id :: string
  ref_version :: nat

definition cardArtifactReferenceSchema :: "artifact_ref \<Rightarrow> bool" where
  "cardArtifactReferenceSchema r \<longleftrightarrow> uuidV4Schema (ref_entry_id r) \<and> positiveSafeIntegerSchema (ref_version r)"

record card_head =
  h_head_id :: string
  h_card_id :: string
  h_version_seq :: nat
  h_updated_at :: string
  h_ordinary :: artifact_ref
  h_pending :: "string list"

definition cardHeadSchema :: "zod \<Rightarrow> card_head \<Rightarrow> bool" where
  "cardHeadSchema z h \<longleftrightarrow>
     uuidV4Schema (h_head_id h) \<and> cardIdSchema (h_card_id h) \<and>
     positiveSafeIntegerSchema (h_version_seq h) \<and> datetime z (h_updated_at h) \<and>
     cardArtifactReferenceSchema (h_ordinary h) \<and> list_all uuidV4Schema (h_pending h) \<and>
     ref_version (h_ordinary h) \<le> h_version_seq h \<and> distinct (h_pending h)"

record mailbox_message =
  mm_card_id :: string
  mm_notification :: card_notification

definition cardMailboxMessageSchema :: "zod \<Rightarrow> mailbox_message \<Rightarrow> bool" where
  "cardMailboxMessageSchema z m \<longleftrightarrow> cardIdSchema (mm_card_id m) \<and> cardNotificationSchema z (mm_notification m)"

text \<open>The stored documents; \<open>parsed_card\<close> is the record their schema transforms the payload to.\<close>

record version_artifact =
  av_entry_id :: string
  av_card_id :: string
  av_version :: nat
  av_committed_at :: string
  av_card :: ordinary_card
  av_predecessor :: "artifact_ref option"
  av_change :: "card_version_change option"

record tombstone_artifact =
  at_entry_id :: string
  at_card_id :: string
  at_version :: nat
  at_committed_at :: string
  at_prior_card_version :: nat
  at_prior_updated_at :: string
  at_final_card :: ordinary_card
  at_predecessor :: artifact_ref
  at_change :: card_version_change

datatype card_artifact = CardVersion version_artifact | CardTombstone tombstone_artifact

fun art_entry_id :: "card_artifact \<Rightarrow> string" where
  "art_entry_id (CardVersion a) = av_entry_id a"
| "art_entry_id (CardTombstone t) = at_entry_id t"

fun art_card_id :: "card_artifact \<Rightarrow> string" where
  "art_card_id (CardVersion a) = av_card_id a"
| "art_card_id (CardTombstone t) = at_card_id t"

fun art_version :: "card_artifact \<Rightarrow> nat" where
  "art_version (CardVersion a) = av_version a"
| "art_version (CardTombstone t) = at_version t"

fun art_committed_at :: "card_artifact \<Rightarrow> string" where
  "art_committed_at (CardVersion a) = av_committed_at a"
| "art_committed_at (CardTombstone t) = at_committed_at t"

fun art_predecessor :: "card_artifact \<Rightarrow> artifact_ref option" where
  "art_predecessor (CardVersion a) = av_predecessor a"
| "art_predecessor (CardTombstone t) = Some (at_predecessor t)"

fun is_tombstone :: "card_artifact \<Rightarrow> bool" where
  "is_tombstone (CardVersion _) = False"
| "is_tombstone (CardTombstone _) = True"

definition version_card :: "version_artifact \<Rightarrow> card_record" where
  "version_card a = with_current (av_card a) (av_version a) (av_committed_at a) []"

definition final_card :: "tombstone_artifact \<Rightarrow> card_record" where
  "final_card t = with_current (at_final_card t) (at_prior_card_version t) (at_prior_updated_at t) []"

section \<open>Admission of an initial card\<close>

definition fail_if :: "bool \<Rightarrow> string \<Rightarrow> string \<Rightarrow> error + unit" where
  "fail_if c path message = guardE (\<not> c) (PlainError message [path])"

lemma fail_if_Inr_iff [errE]: "fail_if c path message = Inr u \<longleftrightarrow> \<not> c"
  by (simp add: fail_if_def errE)

lemma fail_if_False [simp]: "fail_if False path message = Inr ()"
  by (simp add: fail_if_def)

definition REPAIR_CARD_LOSS_SUMMARY :: string where
  "REPAIR_CARD_LOSS_SUMMARY =
     ''Generated card history, records and conversations were discarded under explicit repair; all prior history is lost.''"

text \<open>The title template has an em dash, three bytes in UTF-8.\<close>

definition recovered_title :: "string \<Rightarrow> string" where
  "recovered_title i = ''Recovered card '' @ i @ '' '' @ [CHR 0xE2, CHR 0x80, CHR 0x94] @ '' data discarded''"

definition validateInitialCard :: "card_record \<Rightarrow> string \<Rightarrow> error + unit" where
  "validateInitialCard c path =
     bindE (fail_if (\<not> (c_child_membership c = [] \<and> c_active_child_order c = [] \<and> c_version_seq c = 1 \<and>
         c_created_at c = c_updated_at c \<and> c_status_text c = None \<and>
         c_status_text_updated_at c = None \<and> c_pending_notifications c = []))
       path ''has an invalid initial card'') (\<lambda>_.
     bindE (fail_if (\<not> pred_option (\<lambda>g. c_id c = ''project'' \<and> c_created_by c = ''runtime:bootstrap'' \<and>
         is_root g \<and> g_branch_ref g \<noteq> gs_branch_ref (g_parent g) \<and>
         g_base_oid g = gs_observed_tip (g_parent g) \<and> g_observed_tip g = g_base_oid g \<and>
         g_candidate g = None \<and> g_correction g = None \<and> g_last_delivery g = None) (c_git c))
       path ''has invalid initial commissioned root facts'') (\<lambda>_.
     if c_created_by c = ''runtime:repair'' then
       bindE (fail_if (\<not> (c_title c = recovered_title (c_id c) \<and> c_priority c = 0 \<and>
           c_urgency c = Normal \<and> c_depends_on c = [] \<and>
           c_lifecycle c = LFailed (RuntimeFailure REPAIR_CARD_LOSS_SUMMARY) REPAIR_CARD_LOSS_SUMMARY (c_created_at c)))
         path ''has an invalid synthetic repair initial card'') (\<lambda>_.
       fail_if ((c_id c = ''project'') \<noteq> (c_type c = ''project''))
         path ''has an invalid synthetic repair root/type'')
     else
       bindE (fail_if (c_status c \<noteq> Backlog) path ''has an invalid ordinary initial lifecycle'') (\<lambda>_.
       if c_id c = ''project'' then
         fail_if (\<not> (c_type c = ''project'' \<and> c_created_by c = ''runtime:bootstrap'' \<and> c_priority c = 0 \<and>
             c_urgency c = Normal \<and> c_depends_on c = []))
           path ''has an invalid initial project card''
       else fail_if (c_type c = ''project'') path ''has an invalid initial child card'')))"

section \<open>Document schemas\<close>

definition cardVersionArtifactSchema :: "zod \<Rightarrow> version_artifact \<Rightarrow> bool" where
  "cardVersionArtifactSchema z a \<longleftrightarrow>
     uuidV4Schema (av_entry_id a) \<and> cardIdSchema (av_card_id a) \<and>
     positiveSafeIntegerSchema (av_version a) \<and> datetime z (av_committed_at a) \<and>
     ordinaryCardPayloadSchema z (av_card a) \<and>
     pred_option cardArtifactReferenceSchema (av_predecessor a) \<and>
     pred_option (cardVersionChangeSchema z) (av_change a) \<and>
     cardRecordSchema z (version_card a) \<and>
     c_id (av_card a) = av_card_id a \<and>
     (av_version a = 1) = (av_change a = None) \<and>
     (av_version a = 1) = (av_predecessor a = None) \<and>
     pred_option (\<lambda>r. ref_version r < av_version a) (av_predecessor a) \<and>
     pred_option (\<lambda>v. v_kind v \<notin> {KNotificationEnqueue, KNotificationRemove, KDelete} \<and>
       ''pending_notifications'' \<notin> set (v_changed_fields v) \<and> v_changed_at v = av_committed_at a)
       (av_change a) \<and>
     (av_version a = 1 \<longrightarrow> validateInitialCard (version_card a) (av_card_id a) = Inr ()) \<and>
     pred_option (\<lambda>v. v_entry_id v = av_entry_id a \<and> v_card_id v = av_card_id a \<and>
       v_resulting_version v = av_version a) (av_change a)"

definition cardTombstoneArtifactSchema :: "zod \<Rightarrow> tombstone_artifact \<Rightarrow> bool" where
  "cardTombstoneArtifactSchema z t \<longleftrightarrow>
     uuidV4Schema (at_entry_id t) \<and> nonRootCardIdSchema (at_card_id t) \<and>
     positiveSafeIntegerSchema (at_version t) \<and> datetime z (at_committed_at t) \<and>
     positiveSafeIntegerSchema (at_prior_card_version t) \<and> datetime z (at_prior_updated_at t) \<and>
     ordinaryCardPayloadSchema z (at_final_card t) \<and> cardArtifactReferenceSchema (at_predecessor t) \<and>
     cardVersionChangeSchema z (at_change t) \<and> cardRecordSchema z (final_card t) \<and>
     c_id (at_final_card t) = at_card_id t \<and> at_version t = at_prior_card_version t + 1 \<and>
     ref_version (at_predecessor t) \<le> at_prior_card_version t \<and>
     v_kind (at_change t) = KDelete \<and> v_entry_id (at_change t) = at_entry_id t \<and>
     v_card_id (at_change t) = at_card_id t \<and> v_resulting_version (at_change t) = at_version t \<and>
     v_changed_at (at_change t) = at_committed_at t \<and> v_changed_fields (at_change t) = [''__deleted__''] \<and>
     v_change_summary (at_change t) = ''card deleted'' \<and>
     v_change_reason (at_change t) = ''analyst subtree deletion'' \<and>
     v_terminal_summary (at_change t) = None"

fun cardArtifactSchema :: "zod \<Rightarrow> card_artifact \<Rightarrow> bool" where
  "cardArtifactSchema z (CardVersion a) = cardVersionArtifactSchema z a"
| "cardArtifactSchema z (CardTombstone t) = cardTombstoneArtifactSchema z t"

section \<open>Deltas\<close>

text \<open>
  \<open>BUSINESS_FIELDS\<close> in the order of \<open>CARD_RECORD_FIELDS\<close>, each paired with whether
  \<open>valuesEqual\<close> finds a difference. Equality of the JSON encodings of two values of one schema
  is equality of the values.
\<close>

definition field_differences :: "card_record \<Rightarrow> card_record \<Rightarrow> (string \<times> bool) list" where
  "field_differences prior next =
     [(''git'', c_git prior \<noteq> c_git next),
      (''id'', c_id prior \<noteq> c_id next),
      (''type'', c_type prior \<noteq> c_type next),
      (''child_membership'', c_child_membership prior \<noteq> c_child_membership next),
      (''active_child_order'', c_active_child_order prior \<noteq> c_active_child_order next),
      (''title'', c_title prior \<noteq> c_title next),
      (''priority'', c_priority prior \<noteq> c_priority next),
      (''urgency'', c_urgency prior \<noteq> c_urgency next),
      (''created_by'', c_created_by prior \<noteq> c_created_by next),
      (''created_at'', c_created_at prior \<noteq> c_created_at next),
      (''depends_on'', c_depends_on prior \<noteq> c_depends_on next),
      (''lifecycle'', c_lifecycle prior \<noteq> c_lifecycle next),
      (''status_text'', c_status_text prior \<noteq> c_status_text next),
      (''status_text_updated_at'', c_status_text_updated_at prior \<noteq> c_status_text_updated_at next),
      (''pending_notifications'', c_pending_notifications prior \<noteq> c_pending_notifications next)]"

definition actualDelta :: "card_record \<Rightarrow> card_record \<Rightarrow> string list" where
  "actualDelta prior next = map fst (filter snd (field_differences prior next))"

definition requireSame :: "string \<Rightarrow> 'a \<Rightarrow> 'a \<Rightarrow> string \<Rightarrow> error + unit" where
  "requireSame path left right message = fail_if (left \<noteq> right) path message"

definition requireChange :: "string \<Rightarrow> card_version_change \<Rightarrow> string list \<Rightarrow> string \<Rightarrow> string \<Rightarrow> error + unit" where
  "requireChange path change fs reason summary =
     bindE (requireSame path (v_changed_fields change) fs ''has the wrong changed fields'') (\<lambda>_.
     fail_if (v_change_reason change \<noteq> reason \<or> v_change_summary change \<noteq> summary)
       path ''has invalid reason or summary'')"

lemma requireSame_Inr [errE]: "requireSame path l r m = Inr u \<longleftrightarrow> l = r"
  by (simp add: requireSame_def errE)

lemma requireChange_Inr [errE]:
  "requireChange path v fs reason summary = Inr u \<longleftrightarrow>
     v_changed_fields v = fs \<and> v_change_reason v = reason \<and> v_change_summary v = summary"
  by (auto simp: requireChange_def errE)

section \<open>Transitions\<close>

definition terminal_fields :: "card_record \<Rightarrow> card_record \<Rightarrow> string list" where
  "terminal_fields prior next =
     [''lifecycle''] @
     (if c_status_text prior \<noteq> c_status_text next then [''status_text''] else []) @
     (if c_status_text_updated_at prior \<noteq> c_status_text_updated_at next
      then [''status_text_updated_at''] else []) @
     (if c_pending_notifications prior \<noteq> [] then [''pending_notifications''] else [])"

definition content_policy_consistent ::
    "card_result \<Rightarrow> terminal_summary \<Rightarrow> string \<Rightarrow> bool" where
  "content_policy_consistent result summary changed_at = (case result of
     ContentPolicyRefusal _ session marker evidence \<Rightarrow>
       (case ts_content_policy summary of None \<Rightarrow> False | Some p \<Rightarrow>
          cps_session_id p = session \<and> cps_marker_id p = marker \<and> cps_evidence_url p = evidence \<and>
          cps_blocked_at p = changed_at)
   | _ \<Rightarrow> True)"

fun workflow_terminal_is :: "workflow_terminal \<Rightarrow> card_result \<Rightarrow> bool" where
  "workflow_terminal_is t (WorkflowResult t' _ _ _ _ _) \<longleftrightarrow> t' = t"
| "workflow_terminal_is t _ \<longleftrightarrow> True"

fun is_workflow_result :: "card_result \<Rightarrow> bool" where
  "is_workflow_result (WorkflowResult _ _ _ _ _ _) \<longleftrightarrow> True"
| "is_workflow_result _ \<longleftrightarrow> False"

text \<open>A missing \<open>result\<close> or \<open>terminal_summary\<close> is dereferenced by the code: a \<open>TypeError\<close>.\<close>

definition validateTerminal ::
    "string \<Rightarrow> card_record \<Rightarrow> card_record \<Rightarrow> card_version_change \<Rightarrow> error + unit" where
  "validateTerminal path prior next change =
     bindE (fail_if (c_status prior \<noteq> Running \<or> c_status next \<notin> {Done, Failed, Blocked})
       path ''has an invalid terminal transition'') (\<lambda>_.
     bindE (optionE (PlainError ''TypeError'' []) (lc_result (c_lifecycle next))) (\<lambda>result.
     bindE (optionE (PlainError ''TypeError'' []) (v_terminal_summary change)) (\<lambda>summary.
     bindE (fail_if (Some (result_summary result) \<noteq> c_status_text next \<or>
         ts_summary summary \<noteq> result_summary result \<or> ts_status summary \<noteq> c_status next \<or>
         ts_result_kind summary \<noteq> result_kind result \<or>
         c_status_text_updated_at next \<noteq> Some (v_changed_at change))
       path ''has inconsistent terminal summary'') (\<lambda>_.
     bindE (fail_if (\<not> content_policy_consistent result summary (v_changed_at change))
       path ''has inconsistent content-policy terminal metadata'') (\<lambda>_.
     bindE (fail_if (c_status next = Done \<and>
         (\<not> is_workflow_result result \<or> \<not> workflow_terminal_is DONE result \<or>
          lc_completed_at (c_lifecycle next) \<noteq> Some (v_changed_at change)))
       path ''has invalid done terminal relationships'') (\<lambda>_.
     bindE (fail_if (c_status next = Failed \<and>
         (\<not> workflow_terminal_is FAILED result \<or>
          lc_error (c_lifecycle next) \<noteq> Some (result_summary result) \<or>
          lc_completed_at (c_lifecycle next) \<noteq> Some (v_changed_at change)))
       path ''has invalid failed terminal relationships'') (\<lambda>_.
     bindE (fail_if (c_status next = Blocked \<and>
         (\<not> workflow_terminal_is BLOCKED result \<or>
          lc_error (c_lifecycle next) \<noteq> Some (result_summary result) \<or>
          lc_completed_at (c_lifecycle next) \<noteq> None))
       path ''has invalid blocked terminal relationships'') (\<lambda>_.
     bindE (requireSame path (c_pending_notifications next) [] ''retained terminal notifications'') (\<lambda>_.
     bindE (requireChange path change (terminal_fields prior next) ''terminal lifecycle commit''
         (summarizeChangedFields (terminal_fields prior next))) (\<lambda>_.
     requireSame path (actualDelta prior next) (terminal_fields prior next)
       ''has a terminal piggyback change''))))))))))"

definition validateGitSource ::
    "string \<Rightarrow> card_record \<Rightarrow> card_record \<Rightarrow> card_version_change \<Rightarrow> error + unit" where
  "validateGitSource path prior next change =
     bindE (requireSame path (actualDelta prior next) [''git''] ''has a native source piggyback change'') (\<lambda>_.
     bindE (requireChange path change [''git''] ''native source facts published''
         (summarizeChangedFields [''git''])) (\<lambda>_.
     case c_git next of
       None \<Rightarrow> Inl (PlainError ''clears established native source facts'' [path])
     | Some n \<Rightarrow> (case c_git prior of
         None \<Rightarrow> Inr ()
       | Some p \<Rightarrow>
           bindE (fail_if (is_root p \<noteq> is_root n \<or> g_branch_ref p \<noteq> g_branch_ref n \<or>
               gs_branch_ref (g_parent p) \<noteq> gs_branch_ref (g_parent n) \<or>
               (is_root p \<and> is_root n \<and> g_kind p \<noteq> g_kind n))
             path ''changes native source ownership or commissioned policy'') (\<lambda>_.
           case (g_correction p, g_correction n) of
             (Some kp, Some kn) \<Rightarrow>
               fail_if (gk_base_oid kp \<noteq> gk_base_oid kn \<or> gk_original_tip kp \<noteq> gk_original_tip kn \<or>
                   gk_retained_original_ref kp \<noteq> gk_retained_original_ref kn)
                 path ''changes retained original correction provenance''
           | _ \<Rightarrow> Inr ()))))"

definition status_reason :: "card_status \<Rightarrow> string" where
  "status_reason s = (case s of
     Running \<Rightarrow> ''status -> running'' | Changed \<Rightarrow> ''status -> changed''
   | Cancelled \<Rightarrow> ''status -> cancelled'' | Backlog \<Rightarrow> ''status -> backlog''
   | Blocked \<Rightarrow> ''status -> blocked'' | Stopped \<Rightarrow> ''status -> stopped''
   | Done \<Rightarrow> ''status -> done'' | Failed \<Rightarrow> ''status -> failed'')"

definition validateStatus ::
    "string \<Rightarrow> card_record \<Rightarrow> card_record \<Rightarrow> card_version_change \<Rightarrow> error + unit" where
  "validateStatus path prior next change =
     (let from = c_status prior; to' = c_status next in
     bindE (if from = Running \<and> to' = Stopped then Inr ''recovery stopped lifecycle''
            else if from = Stopped \<and> to' = Running then Inr ''STOPPED activation''
            else if \<not> isSetStatusTransition from to'
              then Inl (PlainError ''has an invalid status transition'' [path])
            else Inr (status_reason to')) (\<lambda>reason.
     let clears = (to' = Cancelled \<and> c_pending_notifications prior \<noteq> []);
         fs = [''lifecycle''] @ (if clears then [''pending_notifications''] else []) in
     bindE (if to' = Cancelled
            then requireSame path (c_pending_notifications next) [] ''retained cancellation notifications''
            else requireSame path (c_pending_notifications next) (c_pending_notifications prior)
              ''changed notifications during status operation'') (\<lambda>_.
     bindE (requireChange path change fs reason (summarizeChangedFields fs)) (\<lambda>_.
     requireSame path (actualDelta prior next) fs ''has a status piggyback change''))))"

datatype linkage = Live | History

definition validateCardTransition ::
    "card_record \<Rightarrow> card_record \<Rightarrow> card_version_change \<Rightarrow> string \<Rightarrow> linkage \<Rightarrow> error + unit" where
  "validateCardTransition prior next change path linkage =
     bindE (fail_if (v_card_id change \<noteq> c_id next \<or> v_resulting_version change \<noteq> c_version_seq next \<or>
         v_changed_at change \<noteq> c_updated_at next \<or>
         (if linkage = Live then c_version_seq next \<noteq> c_version_seq prior + 1
          else c_version_seq next \<le> c_version_seq prior))
       path ''has inconsistent change linkage'') (\<lambda>_.
     bindE (fail_if (c_id next \<noteq> c_id prior \<or> c_type next \<noteq> c_type prior \<or>
         c_created_at next \<noteq> c_created_at prior \<or> c_created_by next \<noteq> c_created_by prior \<or>
         c_depends_on next \<noteq> c_depends_on prior)
       path ''mutates immutable field'') (\<lambda>_.
     case v_kind change of
       KGitSource \<Rightarrow> validateGitSource path prior next change
     | KUpdate \<Rightarrow>
         bindE (fail_if (c_status prior \<notin> {Backlog, Changed, Stopped}) path ''edits a disallowed lifecycle state'') (\<lambda>_.
         let fs = actualDelta prior next in
         bindE (fail_if (fs = [] \<or> \<not> set fs \<subseteq> {''title'', ''priority'', ''urgency''})
           path ''has an invalid update delta'') (\<lambda>_.
         requireChange path change fs ''agent edit_card'' (summarizeChangedFields fs)))
     | KNotificationEnqueue \<Rightarrow>
         (let queued = c_pending_notifications prior; after = c_pending_notifications next in
         bindE (fail_if (length after \<noteq> length queued + 1 \<or> slice_init after \<noteq> queued \<or>
             pred_option (\<lambda>n. n \<in> set queued) (at_last after))
           path ''has an invalid notification enqueue'') (\<lambda>_.
         bindE (requireChange path change [''pending_notifications''] ''notification enqueued''
             ''notification enqueued'') (\<lambda>_.
         requireSame path (actualDelta prior next) [''pending_notifications'']
           ''has a notification enqueue piggyback change'')))
     | KNotificationRemove \<Rightarrow>
         (let survivors = c_pending_notifications next;
              expected = filter (\<lambda>n. n \<in> set survivors) (c_pending_notifications prior) in
         bindE (fail_if (length survivors \<ge> length (c_pending_notifications prior) \<or> survivors \<noteq> expected)
           path ''has an invalid notification removal'') (\<lambda>_.
         bindE (requireChange path change [''pending_notifications''] ''notifications delivered''
             ''notifications delivered'') (\<lambda>_.
         requireSame path (actualDelta prior next) [''pending_notifications'']
           ''has a notification removal piggyback change'')))
     | KStatus \<Rightarrow> validateStatus path prior next change
     | KTerminal \<Rightarrow> validateTerminal path prior next change
     | KChildLink \<Rightarrow>
         (case at_last (c_child_membership next) of
            None \<Rightarrow> Inl (PlainError ''has an invalid child link'' [path])
          | Some linked \<Rightarrow>
              bindE (fail_if (linked = [] \<or> linked \<in> set (c_child_membership prior) \<or>
                  linked \<in> set (c_active_child_order prior) \<or>
                  slice_init (c_child_membership next) \<noteq> c_child_membership prior \<or>
                  slice_init (c_active_child_order next) \<noteq> c_active_child_order prior \<or>
                  at_last (c_active_child_order next) \<noteq> Some linked)
                path ''has an invalid child link'') (\<lambda>_.
              bindE (requireChange path change [''child_membership'', ''active_child_order''] ''child linked''
                  (''linked child '' @ linked)) (\<lambda>_.
              requireSame path (actualDelta prior next) [''child_membership'', ''active_child_order'']
                ''has a child-link piggyback change'')))
     | KReorder \<Rightarrow>
         bindE (fail_if (c_child_membership prior \<noteq> c_child_membership next \<or>
             c_active_child_order prior = c_active_child_order next \<or>
             length (c_active_child_order next) \<noteq> length (c_active_child_order prior) \<or>
             \<not> distinct (c_active_child_order next) \<or>
             \<not> set (c_active_child_order prior) \<subseteq> set (c_active_child_order next))
           path ''has an invalid child reorder'') (\<lambda>_.
         bindE (requireChange path change [''active_child_order''] ''children reordered''
             ''children reordered'') (\<lambda>_.
         requireSame path (actualDelta prior next) [''active_child_order''] ''has a reorder piggyback change''))
     | KDelete \<Rightarrow> Inl (PlainError ''uses delete change on an ordinary version'' [path])))"

text \<open>\<open>ordinaryChange\<close> of \<^verbatim>\<open>card-files.ts\<close>: the change as history keeps it, without the queue.\<close>

definition ordinaryChange :: "card_version_change \<Rightarrow> card_version_change" where
  "ordinaryChange change =
     (let fs = filter (\<lambda>f. f \<noteq> ''pending_notifications'') (v_changed_fields change)
      in change\<lparr>v_changed_fields := fs,
                v_change_summary := (if v_kind change \<in> {KStatus, KTerminal}
                  then summarizeChangedFields fs else v_change_summary change)\<rparr>)"

end
