(* ===== verification/CardFiles.thy ===== *)
theory CardFiles
  imports CardArtifacts
begin

text \<open>
  The card store (\<^verbatim>\<open>src/persistence/card-files.ts\<close>) over the documents of the project tree: one head
  selector and one previous selector per card, immutable history documents, mailbox messages
  and the namespace directories that claim card identities. Documents are kept as typed
  values; reading one applies its schema, a missing file is \<open>ENOENT\<close>. Clock readings and
  random identifiers are arguments.
\<close>

section \<open>The store\<close>

record card_store =
  heads :: "string \<rightharpoonup> card_head"
  previous_heads :: "string \<rightharpoonup> card_head"
  history :: "string \<times> string \<rightharpoonup> card_artifact"
  mailbox :: "string \<times> string \<rightharpoonup> mailbox_message"
  namespaces :: "string list"

definition ENOENT :: "string \<Rightarrow> error" where
  "ENOENT what = PlainError ''ENOENT'' [what]"

record current_selection =
  s_selection :: card_head
  s_head :: card_artifact
  s_card :: card_record

abbreviation s_tombstone :: "current_selection \<Rightarrow> bool" where
  "s_tombstone sel \<equiv> is_tombstone (s_head sel)"

section \<open>Reading one card\<close>

definition readArtifact :: "zod \<Rightarrow> 'a card_store_scheme \<Rightarrow> string \<Rightarrow> artifact_ref \<Rightarrow> error + card_artifact" where
  "readArtifact z st cardId reference =
     bindE (optionE (ENOENT ''card-history'') (history st (cardId, ref_entry_id reference))) (\<lambda>artifact.
     bindE (guardE (cardArtifactSchema z artifact) (ZodError ''cardArtifact'')) (\<lambda>_.
     bindE (guardE (art_card_id artifact = cardId \<and> art_entry_id artifact = ref_entry_id reference \<and>
         art_version artifact = ref_version reference)
       (PlainError ''history reference and document identity disagree'' [cardId])) (\<lambda>_.
     Inr artifact)))"

definition decodeCurrent :: "zod \<Rightarrow> 'a card_store_scheme \<Rightarrow> string \<Rightarrow> card_head \<Rightarrow> error + current_selection" where
  "decodeCurrent z st cardId selection =
     bindE (guardE (cardHeadSchema z selection) (ZodError ''cardHead'')) (\<lambda>_.
     bindE (guardE (h_card_id selection = cardId) (PlainError ''head owner mismatch'' [cardId])) (\<lambda>_.
     bindE (readArtifact z st cardId (h_ordinary selection)) (\<lambda>head.
     bindE (guardE (is_tombstone head \<longrightarrow>
         h_version_seq selection = art_version head \<and> h_updated_at selection = art_committed_at head \<and>
         h_pending selection = [])
       (CardSelectionInvalidError ''invalid tombstone selection'' [cardId])) (\<lambda>_.
     bindE (guardE (\<not> (h_version_seq selection = art_version head \<and>
         h_updated_at selection \<noteq> art_committed_at head))
       (CardSelectionInvalidError ''current time and selected history disagree'' [cardId])) (\<lambda>_.
     bindE (case head of
         CardTombstone t \<Rightarrow> Inr (final_card t)
       | CardVersion a \<Rightarrow>
           (let c = with_current (av_card a) (h_version_seq selection) (h_updated_at selection) (h_pending selection)
            in if cardRecordSchema z c then Inr c
               else Inl (CardSelectionInvalidError ''head projection is invalid'' [cardId]))) (\<lambda>c.
     Inr \<lparr>s_selection = selection, s_head = head, s_card = c\<rparr>))))))"

definition readExactCard :: "zod \<Rightarrow> 'a card_store_scheme \<Rightarrow> string \<Rightarrow> error + current_selection" where
  "readExactCard z st cardId =
     bindE (optionE (ENOENT ''card-head'') (heads st cardId)) (decodeCurrent z st cardId)"

definition readRoot :: "zod \<Rightarrow> 'a card_store_scheme \<Rightarrow> error + current_selection option" where
  "readRoot z st = (case heads st ''project'' of
     None \<Rightarrow> Inr None
   | Some selection \<Rightarrow> bindE (decodeCurrent z st ''project'' selection) (\<lambda>fold. Inr (Some fold)))"

section \<open>Reaching a card from the root\<close>

fun walkLinked :: "zod \<Rightarrow> 'a card_store_scheme \<Rightarrow> bool \<Rightarrow> string \<Rightarrow> current_selection \<Rightarrow> string list \<Rightarrow>
    error + current_selection option" where
  "walkLinked z st terminalTombstone currentId current [] = Inr (Some current)"
| "walkLinked z st terminalTombstone currentId current (segment # rest) =
     bindE (childCardId currentId segment) (\<lambda>nextId.
     if nextId \<notin> set (c_child_membership (s_card current)) then Inr None
     else bindE (readExactCard z st nextId) (\<lambda>next.
       if s_tombstone next \<and> \<not> (terminalTombstone \<and> rest = []) then Inr None
       else walkLinked z st terminalTombstone nextId next rest))"

definition readLinkedCard :: "zod \<Rightarrow> 'a card_store_scheme \<Rightarrow> string \<Rightarrow> bool \<Rightarrow> error + current_selection option" where
  "readLinkedCard z st targetId terminalTombstone =
     bindE (cardIdSegments targetId) (\<lambda>segments.
     bindE (readRoot z st) (\<lambda>root.
     case root of None \<Rightarrow> Inr None
     | Some current \<Rightarrow> walkLinked z st terminalTombstone ''project'' current segments))"

definition readActiveCardFold :: "zod \<Rightarrow> 'a card_store_scheme \<Rightarrow> string \<Rightarrow> error + current_selection option" where
  "readActiveCardFold z st targetId =
     bindE (guardE (cardIdSchema targetId) (ZodError ''cardId'')) (\<lambda>_.
     readLinkedCard z st targetId False)"

definition readCard :: "zod \<Rightarrow> 'a card_store_scheme \<Rightarrow> string \<Rightarrow> error + card_record option" where
  "readCard z st cardId =
     bindE (readActiveCardFold z st cardId) (\<lambda>fold. Inr (map_option s_card fold))"

definition readCardArtifacts :: "zod \<Rightarrow> 'a card_store_scheme \<Rightarrow> string \<Rightarrow> error + current_selection" where
  "readCardArtifacts z st cardId =
     bindE (readActiveCardFold z st cardId) (optionE (PlainError ''Card does not exist.'' [cardId]))"

section \<open>History\<close>

definition checkPredecessor :: "card_artifact \<Rightarrow> card_artifact \<Rightarrow> error + unit" where
  "checkPredecessor prior artifact = (case prior of
     CardTombstone _ \<Rightarrow> Inl (PlainError ''invalid predecessor linkage'' [art_card_id artifact])
   | CardVersion p \<Rightarrow>
       bindE (guardE (av_version p < art_version artifact)
         (PlainError ''invalid predecessor linkage'' [art_card_id artifact])) (\<lambda>_.
       case artifact of
         CardVersion a \<Rightarrow>
           (case av_change a of
              None \<Rightarrow> Inl (PlainError ''TypeError'' [])
            | Some change \<Rightarrow>
                validateCardTransition (version_card p) (version_card a) change (av_card_id a) History)
       | CardTombstone t \<Rightarrow>
           guardE (ordinaryCardPayload (version_card p) = ordinaryCardPayload (final_card t))
             (PlainError ''tombstone ordinary payload differs from predecessor'' [at_card_id t])))"

function historyFrom :: "zod \<Rightarrow> 'a card_store_scheme \<Rightarrow> nat option \<Rightarrow> card_artifact \<Rightarrow> error + card_artifact list" where
  "historyFrom z st stopAt artifact =
     (if pred_option (\<lambda>v. \<not> art_version artifact \<le> v) stopAt \<and> art_predecessor artifact \<noteq> None then
        bindE (readArtifact z st (art_card_id artifact) (the (art_predecessor artifact))) (\<lambda>prior.
        bindE (checkPredecessor prior artifact) (\<lambda>_.
        bindE (historyFrom z st stopAt prior) (\<lambda>rows. Inr (artifact # rows))))
      else Inr [artifact])"
  by pat_completeness auto
termination
  by (relation "measure (\<lambda>(z, st, stopAt, artifact). art_version artifact)")
     (auto simp: checkPredecessor_def errE split: card_artifact.splits)

definition readHistory :: "zod \<Rightarrow> 'a card_store_scheme \<Rightarrow> current_selection \<Rightarrow> nat option \<Rightarrow> error + card_artifact list" where
  "readHistory z st current stopAt =
     bindE (historyFrom z st stopAt (s_head current)) (\<lambda>rows. Inr (rev rows))"

declare historyFrom.simps [simp del]

section \<open>Mailbox\<close>

definition readPendingCardNotifications :: "zod \<Rightarrow> 'a card_store_scheme \<Rightarrow> string \<Rightarrow> error + card_notification list" where
  "readPendingCardNotifications z st cardId =
     bindE (readCardArtifacts z st cardId) (\<lambda>current.
     mapE (\<lambda>i.
       bindE (optionE (ENOENT ''card-mailbox'') (mailbox st (cardId, i))) (\<lambda>message.
       bindE (guardE (cardMailboxMessageSchema z message) (ZodError ''cardMailboxMessage'')) (\<lambda>_.
       bindE (guardE (mm_card_id message = cardId \<and> n_id (mm_notification message) = i)
         (PlainError ''mailbox reference and document identity disagree'' [cardId])) (\<lambda>_.
       Inr (mm_notification message)))))
     (h_pending (s_selection current)))"

section \<open>Children and traversal\<close>

definition readMembershipChildrenOfReached ::
    "zod \<Rightarrow> 'a card_store_scheme \<Rightarrow> string \<Rightarrow> current_selection \<Rightarrow> error + current_selection list" where
  "readMembershipChildrenOfReached z st parentId parent =
     mapE (\<lambda>i.
       bindE (cardIdSegments i) (\<lambda>segments.
       bindE (optionE (PlainError ''TypeError'' []) (at_last segments)) (\<lambda>segment.
       bindE (childCardId parentId segment) (\<lambda>expected.
       bindE (guardE (expected = i) (PlainError ''has invalid direct child'' [parentId, i])) (\<lambda>_.
       readExactCard z st i)))))
     (c_child_membership (s_card parent))"

definition select_child :: "string \<Rightarrow> current_selection list \<Rightarrow> string \<Rightarrow> error + current_selection" where
  "select_child parentId children i =
     optionE (PlainError ''has unresolved active child order member'' [parentId, i])
       (find (\<lambda>child. c_id (s_card child) = i) (rev children))"

definition readCanonicalChildrenOfReached ::
    "zod \<Rightarrow> 'a card_store_scheme \<Rightarrow> string \<Rightarrow> current_selection \<Rightarrow> error + current_selection list" where
  "readCanonicalChildrenOfReached z st parentId parent =
     bindE (readMembershipChildrenOfReached z st parentId parent) (\<lambda>byId.
     bindE (mapE (select_child parentId byId) (c_active_child_order (s_card parent))) (\<lambda>children.
     Inr (filter (\<lambda>child. \<not> s_tombstone child) children)))"

definition readLinkedChildrenProjection ::
    "zod \<Rightarrow> 'a card_store_scheme \<Rightarrow> string \<Rightarrow> error + card_record \<times> card_record list" where
  "readLinkedChildrenProjection z st parentId =
     bindE (readActiveCardFold z st parentId) (\<lambda>target.
     bindE (optionE (PlainError ''Parent card does not exist.'' [parentId]) target) (\<lambda>parent.
     bindE (readCanonicalChildrenOfReached z st parentId parent) (\<lambda>children.
     Inr (s_card parent, map s_card children))))"

section \<open>Publication\<close>

text \<open>
  Publications whose file-system calls return. \<open>PublicationFaults\<close> has the same publications
  with calls that throw, and shows that they agree with these.
\<close>

definition publishFreshHistory :: "string \<Rightarrow> card_artifact \<Rightarrow> ('a card_store_scheme, unit) op" where
  "publishFreshHistory cardId artifact =
     bindS (readS (\<lambda>st. guardE (history st (cardId, art_entry_id artifact) = None)
       (PlainError ''File is already published.'' [art_entry_id artifact]))) (\<lambda>_.
     modifyS (\<lambda>st. st\<lparr>history := (history st)((cardId, art_entry_id artifact) \<mapsto> artifact)\<rparr>))"

datatype publication_mode = Initial | Replacement

text \<open>\<open>publishHeadFile\<close>: drop the previous slot, link the current selector into it when one is
  replaced, and put the new selector in place.\<close>

definition publishHeadFile :: "string \<Rightarrow> card_head \<Rightarrow> publication_mode \<Rightarrow> ('a card_store_scheme, unit) op" where
  "publishHeadFile cardId head mode =
     bindS (modifyS (\<lambda>st. st\<lparr>previous_heads := (previous_heads st)(cardId := None)\<rparr>)) (\<lambda>_.
     bindS (if mode = Replacement then
              bindS (readS (\<lambda>st. optionE (ENOENT ''card-head'') (heads st cardId))) (\<lambda>current.
              modifyS (\<lambda>st. st\<lparr>previous_heads := (previous_heads st)(cardId \<mapsto> current)\<rparr>))
            else returnS ()) (\<lambda>_.
     modifyS (\<lambda>st. st\<lparr>heads := (heads st)(cardId \<mapsto> head)\<rparr>)))"

definition parse_head :: "zod \<Rightarrow> card_head \<Rightarrow> error + card_head" where
  "parse_head z h = (if cardHeadSchema z h then Inr h else Inl (ZodError ''cardHead''))"

definition parse_artifact :: "zod \<Rightarrow> card_artifact \<Rightarrow> error + card_artifact" where
  "parse_artifact z a = (if cardArtifactSchema z a then Inr a else Inl (ZodError ''cardArtifact''))"

definition referenceOf :: "card_artifact \<Rightarrow> artifact_ref" where
  "referenceOf a = \<lparr>ref_entry_id = art_entry_id a, ref_version = art_version a\<rparr>"

text \<open>The initial publication of a card (\<open>change === null\<close>).\<close>

definition publishInitialVersion ::
    "zod \<Rightarrow> card_record \<Rightarrow> string \<Rightarrow> string \<Rightarrow> ('a card_store_scheme, card_artifact) op" where
  "publishInitialVersion z c entryId headId =
     bindS (liftS (parse_card z c)) (\<lambda>c.
     bindS (liftS (validateInitialCard c (c_id c))) (\<lambda>_.
     bindS (liftS (parse_artifact z (CardVersion
       \<lparr>av_entry_id = entryId, av_card_id = c_id c, av_version = 1, av_committed_at = c_created_at c,
        av_card = ordinaryCardPayload c, av_predecessor = None, av_change = None\<rparr>))) (\<lambda>artifact.
     bindS (publishFreshHistory (c_id c) artifact) (\<lambda>_.
     bindS (liftS (parse_head z
       \<lparr>h_head_id = headId, h_card_id = c_id c, h_version_seq = 1, h_updated_at = c_updated_at c,
        h_ordinary = referenceOf artifact, h_pending = []\<rparr>)) (\<lambda>head.
     bindS (publishHeadFile (c_id c) head Initial) (\<lambda>_.
     returnS artifact))))))"

definition publishMailboxMessage ::
    "zod \<Rightarrow> card_record \<Rightarrow> card_notification option \<Rightarrow> ('a card_store_scheme, unit) op" where
  "publishMailboxMessage z c notification =
     bindS (liftS (optionE (ZodError ''cardNotification'') notification)) (\<lambda>n.
     bindS (liftS (guardE (cardMailboxMessageSchema z \<lparr>mm_card_id = c_id c, mm_notification = n\<rparr>)
       (ZodError ''cardMailboxMessage''))) (\<lambda>_.
     bindS (liftS (guardE (at_last (c_pending_notifications c) = Some (n_id n))
       (PlainError ''enqueued message identity mismatch'' [c_id c]))) (\<lambda>_.
     bindS (readS (\<lambda>st. guardE (mailbox st (c_id c, n_id n) = None)
       (PlainError ''File is already published.'' [n_id n]))) (\<lambda>_.
     modifyS (\<lambda>st. st\<lparr>mailbox := (mailbox st)((c_id c, n_id n) \<mapsto>
       \<lparr>mm_card_id = c_id c, mm_notification = n\<rparr>)\<rparr>)))))"

definition publishCardVersion ::
    "zod \<Rightarrow> card_record \<Rightarrow> card_version_change \<Rightarrow> card_notification option \<Rightarrow> string \<Rightarrow>
     ('a card_store_scheme, card_artifact option) op" where
  "publishCardVersion z c change notification headId =
     bindS (readS (\<lambda>st. readExactCard z st (c_id c))) (\<lambda>fold.
     bindS (liftS (guardE (\<not> s_tombstone fold) (PlainError ''Card is terminal.'' [c_id c]))) (\<lambda>_.
     bindS (liftS (parse_card z c)) (\<lambda>c.
     bindS (liftS (parse_change z change)) (\<lambda>change.
     bindS (liftS (validateCardTransition (s_card fold) c change (c_id c) Live)) (\<lambda>_.
     if v_kind change = KNotificationEnqueue \<or> v_kind change = KNotificationRemove then
       bindS (if v_kind change = KNotificationEnqueue then publishMailboxMessage z c notification
              else returnS ()) (\<lambda>_.
       bindS (liftS (parse_head z ((s_selection fold)
         \<lparr>h_head_id := headId, h_version_seq := c_version_seq c, h_updated_at := c_updated_at c,
          h_pending := c_pending_notifications c\<rparr>))) (\<lambda>head.
       bindS (publishHeadFile (c_id c) head Replacement) (\<lambda>_.
       returnS None)))
     else
       bindS (liftS (parse_artifact z (CardVersion
         \<lparr>av_entry_id = v_entry_id change, av_card_id = c_id c, av_version = c_version_seq c,
          av_committed_at = v_changed_at change, av_card = ordinaryCardPayload c,
          av_predecessor = Some (h_ordinary (s_selection fold)), av_change = Some (ordinaryChange change)\<rparr>))) (\<lambda>artifact.
       bindS (publishFreshHistory (c_id c) artifact) (\<lambda>_.
       bindS (liftS (parse_head z ((s_selection fold)
         \<lparr>h_head_id := headId, h_ordinary := referenceOf artifact, h_version_seq := c_version_seq c,
          h_updated_at := c_updated_at c, h_pending := c_pending_notifications c\<rparr>))) (\<lambda>head.
       bindS (publishHeadFile (c_id c) head Replacement) (\<lambda>_.
       returnS (Some artifact))))))))))"

definition publishCardTombstone ::
    "zod \<Rightarrow> string \<Rightarrow> card_record \<Rightarrow> card_version_change \<Rightarrow> string \<Rightarrow> ('a card_store_scheme, card_artifact) op" where
  "publishCardTombstone z cardId finalCard change headId =
     bindS (liftS (guardE (cardId \<noteq> ''project'') (PlainError ''Cannot tombstone the project card.'' []))) (\<lambda>_.
     bindS (readS (\<lambda>st. readCardArtifacts z st cardId)) (\<lambda>fold.
     bindS (liftS (guardE (\<not> s_tombstone fold) (PlainError ''Card is terminal.'' [cardId]))) (\<lambda>_.
     bindS (liftS (guardE (s_card fold = finalCard)
       (PlainError ''tombstone final card must equal current'' [cardId]))) (\<lambda>_.
     bindS (liftS (parse_artifact z (CardTombstone
       \<lparr>at_entry_id = v_entry_id change, at_card_id = cardId, at_version = c_version_seq finalCard + 1,
        at_committed_at = v_changed_at change, at_prior_card_version = c_version_seq finalCard,
        at_prior_updated_at = c_updated_at finalCard, at_final_card = ordinaryCardPayload finalCard,
        at_predecessor = h_ordinary (s_selection fold), at_change = change\<rparr>))) (\<lambda>artifact.
     bindS (publishFreshHistory cardId artifact) (\<lambda>_.
     bindS (liftS (parse_head z ((s_selection fold)
       \<lparr>h_head_id := headId, h_ordinary := referenceOf artifact, h_version_seq := art_version artifact,
        h_updated_at := art_committed_at artifact, h_pending := []\<rparr>))) (\<lambda>head.
     bindS (publishHeadFile cardId head Replacement) (\<lambda>_.
     returnS artifact))))))))"

end
