(* ===== verification/CardTransitions.thy ===== *)
theory CardTransitions
  imports CardArtifacts
begin

text \<open>
  What \<open>validateCardTransition\<close> guarantees: immutable identity, the lifecycle graph that its
  accepted steps walk, and the correspondence between the two linkages. A step accepted when
  it is published (\<open>Live\<close>) is accepted again when history is read back (\<open>History\<close>), where the
  notification queue is not recorded and queue-only versions are skipped.
\<close>

section \<open>Deltas\<close>

lemma selected_mem: "f \<in> set (map fst (filter snd xs)) \<longleftrightarrow> (f, True) \<in> set xs"
  by force

lemma selected_filter:
  "map fst (filter snd (map (\<lambda>(f, b). (f, b \<and> f \<noteq> x)) xs)) = filter (\<lambda>f. f \<noteq> x) (map fst (filter snd xs))"
  by (induction xs) auto

lemma actualDelta_mem:
  "''git'' \<in> set (actualDelta p n) \<longleftrightarrow> c_git p \<noteq> c_git n"
  "''lifecycle'' \<in> set (actualDelta p n) \<longleftrightarrow> c_lifecycle p \<noteq> c_lifecycle n"
  "''child_membership'' \<in> set (actualDelta p n) \<longleftrightarrow> c_child_membership p \<noteq> c_child_membership n"
  "''active_child_order'' \<in> set (actualDelta p n) \<longleftrightarrow> c_active_child_order p \<noteq> c_active_child_order n"
  "''title'' \<in> set (actualDelta p n) \<longleftrightarrow> c_title p \<noteq> c_title n"
  "''priority'' \<in> set (actualDelta p n) \<longleftrightarrow> c_priority p \<noteq> c_priority n"
  "''urgency'' \<in> set (actualDelta p n) \<longleftrightarrow> c_urgency p \<noteq> c_urgency n"
  "''status_text'' \<in> set (actualDelta p n) \<longleftrightarrow> c_status_text p \<noteq> c_status_text n"
  "''status_text_updated_at'' \<in> set (actualDelta p n) \<longleftrightarrow> c_status_text_updated_at p \<noteq> c_status_text_updated_at n"
  "''pending_notifications'' \<in> set (actualDelta p n) \<longleftrightarrow> c_pending_notifications p \<noteq> c_pending_notifications n"
  unfolding actualDelta_def selected_mem by (simp_all add: field_differences_def)

lemma actualDelta_history:
  "actualDelta (with_current (ordinaryCardPayload p) v u q) (with_current (ordinaryCardPayload n) w x q) =
     filter (\<lambda>f. f \<noteq> ''pending_notifications'') (actualDelta p n)"
proof -
  have "field_differences (with_current (ordinaryCardPayload p) v u q) (with_current (ordinaryCardPayload n) w x q) =
    map (\<lambda>(f, b). (f, b \<and> f \<noteq> ''pending_notifications'')) (field_differences p n)"
    by (simp add: field_differences_def)
  then show ?thesis by (simp only: actualDelta_def selected_filter)
qed

section \<open>The lifecycle graph\<close>

text \<open>The status steps that accepted changes take; every other kind of change keeps the status.\<close>

inductive lifecycle_step :: "card_status \<Rightarrow> card_status \<Rightarrow> bool" where
  set_status: "isSetStatusTransition s t \<Longrightarrow> lifecycle_step s t"
| stop: "lifecycle_step Running Stopped"
| activate_stopped: "lifecycle_step Stopped Running"
| terminal: "t \<in> {Done, Failed, Blocked} \<Longrightarrow> lifecycle_step Running t"

inductive_cases from_cancelled: "lifecycle_step Cancelled t"
inductive_cases to_done: "lifecycle_step s Done"
inductive_cases from_done: "lifecycle_step Done t"
inductive_simps lifecycle_step_simps: "lifecycle_step s t"

lemma lifecycle_step_iff:
  "lifecycle_step s t \<longleftrightarrow>
     (s, t) \<in> {(Backlog, Running), (Blocked, Running), (Changed, Running), (Stopped, Running),
       (Blocked, Changed), (Done, Changed), (Failed, Changed), (Running, Stopped),
       (Running, Done), (Running, Failed), (Running, Blocked),
       (Backlog, Cancelled), (Running, Cancelled), (Blocked, Cancelled), (Changed, Cancelled),
       (Stopped, Cancelled), (Failed, Cancelled)}"
  by (cases t) (auto simp: lifecycle_step_simps)

section \<open>Facts about accepted transitions\<close>

lemma transition_linkage:
  assumes "validateCardTransition p n v path l = Inr u"
  shows "c_id n = c_id p" "c_type n = c_type p" "c_created_at n = c_created_at p"
    "c_created_by n = c_created_by p" "c_depends_on n = c_depends_on p"
    "v_card_id v = c_id n" "v_resulting_version v = c_version_seq n" "v_changed_at v = c_updated_at n"
    "c_version_seq p < c_version_seq n"
    "l = Live \<Longrightarrow> c_version_seq n = c_version_seq p + 1"
  using assms unfolding validateCardTransition_def
  by (auto simp: bindE_Inr_iff fail_if_Inr_iff split: if_splits)

text \<open>The body of the validator, by kind of change, once the linkage holds.\<close>

lemma transition_cases:
  assumes "validateCardTransition p n v path l = Inr u"
  obtains
    (git) "v_kind v = KGitSource" "validateGitSource path p n v = Inr ()"
  | (update) "v_kind v = KUpdate" "c_status p \<in> {Backlog, Changed, Stopped}" "actualDelta p n \<noteq> []"
      "set (actualDelta p n) \<subseteq> {''title'', ''priority'', ''urgency''}"
      "v_changed_fields v = actualDelta p n" "v_change_reason v = ''agent edit_card''"
      "v_change_summary v = summarizeChangedFields (actualDelta p n)"
  | (enqueue) i where "v_kind v = KNotificationEnqueue"
      "c_pending_notifications n = c_pending_notifications p @ [i]" "i \<notin> set (c_pending_notifications p)"
      "actualDelta p n = [''pending_notifications'']"
      "v_changed_fields v = [''pending_notifications'']"
  | (remove) "v_kind v = KNotificationRemove"
      "c_pending_notifications n = filter (\<lambda>i. i \<in> set (c_pending_notifications n)) (c_pending_notifications p)"
      "length (c_pending_notifications n) < length (c_pending_notifications p)"
      "actualDelta p n = [''pending_notifications'']"
      "v_changed_fields v = [''pending_notifications'']"
  | (status) "v_kind v = KStatus" "validateStatus path p n v = Inr ()"
  | (terminal) "v_kind v = KTerminal" "validateTerminal path p n v = Inr ()"
  | (child_link) i where "v_kind v = KChildLink" "i \<noteq> []"
      "c_child_membership n = c_child_membership p @ [i]" "c_active_child_order n = c_active_child_order p @ [i]"
      "i \<notin> set (c_child_membership p)" "i \<notin> set (c_active_child_order p)"
      "actualDelta p n = [''child_membership'', ''active_child_order'']"
      "v_changed_fields v = [''child_membership'', ''active_child_order'']" "v_change_reason v = ''child linked''"
      "v_change_summary v = ''linked child '' @ i"
  | (reorder) "v_kind v = KReorder" "c_child_membership n = c_child_membership p"
      "c_active_child_order n \<noteq> c_active_child_order p"
      "length (c_active_child_order n) = length (c_active_child_order p)" "distinct (c_active_child_order n)"
      "set (c_active_child_order p) \<subseteq> set (c_active_child_order n)"
      "actualDelta p n = [''active_child_order'']" "v_changed_fields v = [''active_child_order'']"
      "v_change_reason v = ''children reordered''" "v_change_summary v = ''children reordered''"
proof (cases "v_kind v")
  case KNotificationEnqueue
  with assms have *: "length (c_pending_notifications n) = length (c_pending_notifications p) + 1"
      "butlast (c_pending_notifications n) = c_pending_notifications p"
      "\<not> pred_option (\<lambda>i. i \<in> set (c_pending_notifications p)) (at_last (c_pending_notifications n))"
      "actualDelta p n = [''pending_notifications'']" "v_changed_fields v = [''pending_notifications'']"
    by (simp_all add: validateCardTransition_def errE Let_def)
  then have ne: "c_pending_notifications n \<noteq> []" by auto
  define i where "i = last (c_pending_notifications n)"
  have "c_pending_notifications n = c_pending_notifications p @ [i]"
    using * ne unfolding i_def by (metis append_butlast_last_id)
  with * enqueue KNotificationEnqueue show ?thesis by simp
next
  case KChildLink
  with assms obtain i where i: "at_last (c_child_membership n) = Some i"
    by (auto simp: validateCardTransition_def errE split: option.splits)
  with KChildLink assms have *: "i \<noteq> []" "i \<notin> set (c_child_membership p)" "i \<notin> set (c_active_child_order p)"
      "butlast (c_child_membership n) = c_child_membership p"
      "butlast (c_active_child_order n) = c_active_child_order p"
      "at_last (c_active_child_order n) = Some i"
      "actualDelta p n = [''child_membership'', ''active_child_order'']"
      "v_changed_fields v = [''child_membership'', ''active_child_order'']" "v_change_reason v = ''child linked''"
      "v_change_summary v = ''linked child '' @ i"
    by (simp_all add: validateCardTransition_def errE)
  have "c_child_membership n = c_child_membership p @ [i]" "c_active_child_order n = c_active_child_order p @ [i]"
    using i * by (auto simp: at_last_Some_iff)
  with * child_link KChildLink show ?thesis by blast
next
  case KUpdate
  with assms update show ?thesis by (simp add: validateCardTransition_def errE Let_def)
next
  case KNotificationRemove
  with assms remove show ?thesis by (simp add: validateCardTransition_def errE Let_def)
next
  case KReorder
  with assms have "c_active_child_order p \<noteq> c_active_child_order n" "c_child_membership p = c_child_membership n"
    by (simp_all add: validateCardTransition_def errE)
  then have "c_active_child_order n \<noteq> c_active_child_order p" "c_child_membership n = c_child_membership p"
    by simp_all
  with KReorder assms reorder show ?thesis by (simp add: validateCardTransition_def errE)
qed (use assms git status terminal in \<open>simp_all add: validateCardTransition_def errE\<close>)

lemma validateStatus_iff:
  "validateStatus path p n v = Inr u \<longleftrightarrow>
     (let fs = [''lifecycle''] @ (if c_status n = Cancelled \<and> c_pending_notifications p \<noteq> []
                 then [''pending_notifications''] else []) in
      (c_status p = Running \<and> c_status n = Stopped \<or> c_status p = Stopped \<and> c_status n = Running \<or>
       isSetStatusTransition (c_status p) (c_status n)) \<and>
      c_pending_notifications n = (if c_status n = Cancelled then [] else c_pending_notifications p) \<and>
      v_changed_fields v = fs \<and>
      v_change_reason v = (if c_status p = Running \<and> c_status n = Stopped then ''recovery stopped lifecycle''
        else if c_status p = Stopped \<and> c_status n = Running then ''STOPPED activation''
        else status_reason (c_status n)) \<and>
      v_change_summary v = summarizeChangedFields fs \<and> actualDelta p n = fs)"
  unfolding validateStatus_def Let_def by (auto simp: errE split: if_splits)

lemma lc_status_result: "s \<in> {Done, Failed, Blocked} \<Longrightarrow> lc_status l = s \<Longrightarrow> \<exists>r. lc_result l = Some r"
  by (cases l) auto

text \<open>An accepted transition either keeps the lifecycle or takes a step of the graph.\<close>

lemma transition_lifecycle:
  assumes "validateCardTransition p n v path l = Inr u"
  shows "c_lifecycle n = c_lifecycle p \<or> lifecycle_step (c_status p) (c_status n)"
  using assms
proof (cases rule: transition_cases)
  case git
  then have "actualDelta p n = [''git'']" by (simp add: validateGitSource_def errE)
  then show ?thesis using actualDelta_mem(2) [of p n] by simp
next
  case update
  then have "''lifecycle'' \<notin> set (actualDelta p n)" by auto
  then show ?thesis by (simp add: actualDelta_mem)
next
  case status
  then show ?thesis by (auto simp: validateStatus_iff Let_def intro: lifecycle_step.intros)
next
  case terminal
  then show ?thesis by (auto simp: validateTerminal_def errE intro: lifecycle_step.intros)
qed (use actualDelta_mem(2) [of p n] in auto)

text \<open>Every accepted ordinary change names the fields it changes, and no other field changes.\<close>

lemma transition_delta:
  assumes "validateCardTransition p n v path l = Inr u"
  shows "v_changed_fields v = actualDelta p n"
  using assms
proof (cases rule: transition_cases)
  case git
  then show ?thesis by (simp add: validateGitSource_def errE)
next
  case status
  then show ?thesis by (auto simp: validateStatus_iff Let_def)
next
  case terminal
  then show ?thesis by (auto simp: validateTerminal_def errE)
qed simp_all

section \<open>What is published can be read back\<close>

lemma ordinaryChange_sel [simp]:
  "v_entry_id (ordinaryChange v) = v_entry_id v" "v_kind (ordinaryChange v) = v_kind v"
  "v_card_id (ordinaryChange v) = v_card_id v" "v_resulting_version (ordinaryChange v) = v_resulting_version v"
  "v_changed_at (ordinaryChange v) = v_changed_at v"
  "v_changed_by_actor (ordinaryChange v) = v_changed_by_actor v"
  "v_change_reason (ordinaryChange v) = v_change_reason v"
  "v_terminal_summary (ordinaryChange v) = v_terminal_summary v"
  "v_changed_fields (ordinaryChange v) = filter (\<lambda>f. f \<noteq> ''pending_notifications'') (v_changed_fields v)"
  by (simp_all add: ordinaryChange_def Let_def)

lemma ordinaryChange_summary:
  "v_change_summary (ordinaryChange v) =
    (if v_kind v \<in> {KStatus, KTerminal}
     then summarizeChangedFields (filter (\<lambda>f. f \<noteq> ''pending_notifications'') (v_changed_fields v))
     else v_change_summary v)"
  by (simp add: ordinaryChange_def Let_def)

lemma terminal_fields_history:
  "terminal_fields (with_current (ordinaryCardPayload p) v u []) (with_current (ordinaryCardPayload n) w x []) =
     filter (\<lambda>f. f \<noteq> ''pending_notifications'') (terminal_fields p n)"
  by (simp add: terminal_fields_def)

lemma filter_true: "\<forall>x \<in> set xs. P x \<Longrightarrow> filter P xs = xs"
  by (induction xs) auto

lemma live_transition_history:
  assumes live: "validateCardTransition p n v path Live = Inr ()"
    and kind: "v_kind v \<notin> {KNotificationEnqueue, KNotificationRemove}"
    and earlier: "w \<le> c_version_seq p"
  shows "validateCardTransition (with_current (ordinaryCardPayload p) w x [])
      (with_current (ordinaryCardPayload n) (c_version_seq n) (c_updated_at n) []) (ordinaryChange v) path' History = Inr ()"
    (is "validateCardTransition ?p ?n ?v _ _ = _")
proof -
  note link = transition_linkage [OF live]
  have vers: "\<not> c_version_seq n \<le> w" using link(10) earlier by simp
  have delta: "actualDelta ?p ?n = filter (\<lambda>f. f \<noteq> ''pending_notifications'') (actualDelta p n)"
    by (rule actualDelta_history)
  have start:
    "v_kind v = KGitSource \<Longrightarrow> validateCardTransition ?p ?n ?v path' History = validateGitSource path' ?p ?n ?v"
    "v_kind v = KStatus \<Longrightarrow> validateCardTransition ?p ?n ?v path' History = validateStatus path' ?p ?n ?v"
    "v_kind v = KTerminal \<Longrightarrow> validateCardTransition ?p ?n ?v path' History = validateTerminal path' ?p ?n ?v"
    using link vers by (simp_all add: validateCardTransition_def)
  from live show ?thesis
  proof (cases rule: transition_cases)
    case git
    then have "actualDelta p n = [''git'']" "v_changed_fields v = [''git'']"
      by (auto simp: validateGitSource_def errE)
    with git show ?thesis unfolding start(1) [OF git(1)]
      by (auto simp: validateGitSource_def bindE_Inr_iff requireSame_Inr requireChange_Inr delta
          ordinaryChange_summary fail_if_Inr_iff split: option.splits)
  next
    case update
    then have "\<forall>f \<in> set (actualDelta p n). f \<noteq> ''pending_notifications''" by auto
    then have "actualDelta ?p ?n = actualDelta p n" "v_changed_fields ?v = v_changed_fields v"
      using delta update(5) by (simp_all add: filter_true)
    with update link vers show ?thesis
      by (simp add: validateCardTransition_def errE ordinaryChange_summary Let_def)
  next
    case status
    then have *: "actualDelta p n = v_changed_fields v" by (auto simp: validateStatus_iff Let_def)
    from status show ?thesis unfolding start(2) [OF status(1)]
      by (simp add: validateStatus_iff delta ordinaryChange_summary Let_def *)
  next
    case terminal
    then have "actualDelta p n = terminal_fields p n" "v_changed_fields v = terminal_fields p n"
      by (auto simp: validateTerminal_def errE)
    with terminal show ?thesis unfolding start(3) [OF terminal(1)]
      by (clarsimp simp: validateTerminal_def bindE_Inr_iff requireSame_Inr requireChange_Inr delta
          ordinaryChange_summary fail_if_Inr_iff optionE_Inr_iff terminal_fields_history)
  next
    case (child_link i)
    with link vers delta show ?thesis
      by (simp add: validateCardTransition_def errE ordinaryChange_summary)
  next
    case reorder
    with link vers delta show ?thesis
      by (simp add: validateCardTransition_def errE ordinaryChange_summary)
  qed (use kind in auto)
qed

end
