(* ===== verification/CardStore.thy ===== *)
theory CardStore
  imports CardFiles CardTransitions
begin

text \<open>
  Laws of the card store: reading after a publication, the frame of a publication, and the
  growth of history. They hold of every successful publication, whatever it publishes.
\<close>

section \<open>Reading is stable under fresh documents\<close>

lemma readArtifact_mono:
  assumes "history st \<subseteq>\<^sub>m history st'" and "readArtifact z st i r = Inr a"
  shows "readArtifact z st' i r = Inr a"
proof -
  have "history st (i, ref_entry_id r) = Some a" using assms(2) by (auto simp: readArtifact_def errE)
  then have "history st' (i, ref_entry_id r) = Some a"
    using assms(1) by (metis domI map_le_def)
  with assms(2) show ?thesis by (auto simp: readArtifact_def errE)
qed

lemma readArtifact_Inr:
  assumes "readArtifact z st i r = Inr a"
  shows "history st (i, ref_entry_id r) = Some a" "cardArtifactSchema z a" "art_card_id a = i"
    "art_entry_id a = ref_entry_id r" "art_version a = ref_version r"
  using assms by (auto simp: readArtifact_def errE)

lemma historyFrom_unfold:
  "historyFrom z st stopAt a = Inr rows \<longleftrightarrow>
     (if pred_option (\<lambda>v. \<not> art_version a \<le> v) stopAt \<and> art_predecessor a \<noteq> None then
        (\<exists>prior rest. readArtifact z st (art_card_id a) (the (art_predecessor a)) = Inr prior \<and>
           checkPredecessor prior a = Inr () \<and> historyFrom z st stopAt prior = Inr rest \<and> rows = a # rest)
      else rows = [a])"
  by (subst historyFrom.simps) (auto simp: errE)

lemma historyFrom_mono:
  "historyFrom z st stopAt a = Inr rows \<Longrightarrow> history st \<subseteq>\<^sub>m history st' \<Longrightarrow> historyFrom z st' stopAt a = Inr rows"
proof (induction z st stopAt a arbitrary: rows rule: historyFrom.induct)
  case (1 z st stopAt a)
  show ?case
  proof (cases "pred_option (\<lambda>v. \<not> art_version a \<le> v) stopAt \<and> art_predecessor a \<noteq> None")
    case True
    with "1.prems"(1) obtain prior rest where
      *: "readArtifact z st (art_card_id a) (the (art_predecessor a)) = Inr prior"
        "checkPredecessor prior a = Inr ()" "historyFrom z st stopAt prior = Inr rest" "rows = a # rest"
      by (auto simp: historyFrom_unfold [of z st stopAt a])
    have "readArtifact z st' (art_card_id a) (the (art_predecessor a)) = Inr prior"
      using "1.prems"(2) *(1) by (rule readArtifact_mono)
    moreover have "historyFrom z st' stopAt prior = Inr rest"
      using "1.IH" True * "1.prems"(2) by blast
    ultimately show ?thesis using * True by (simp add: historyFrom_unfold [of z st' stopAt a])
  next
    case False
    then have "rows = [a]" using "1.prems"(1) by (simp only: historyFrom_unfold [of z st stopAt a] if_False)
    with False show ?thesis by (simp only: historyFrom_unfold [of z st' stopAt a] if_False)
  qed
qed

lemma readHistory_mono:
  "history st \<subseteq>\<^sub>m history st' \<Longrightarrow> readHistory z st sel stopAt = Inr rows \<Longrightarrow> readHistory z st' sel stopAt = Inr rows"
  by (auto simp: readHistory_def errE dest: historyFrom_mono)

lemma decodeCurrent_mono:
  "history st \<subseteq>\<^sub>m history st' \<Longrightarrow> decodeCurrent z st i h = Inr sel \<Longrightarrow> decodeCurrent z st' i h = Inr sel"
  by (auto simp: decodeCurrent_def bindE_Inr_iff dest: readArtifact_mono)

lemma readExactCard_mono:
  "history st \<subseteq>\<^sub>m history st' \<Longrightarrow> heads st' i = heads st i \<Longrightarrow> readExactCard z st i = Inr sel \<Longrightarrow>
   readExactCard z st' i = Inr sel"
  by (auto simp: readExactCard_def errE dest: decodeCurrent_mono)

section \<open>What a decoded head is\<close>

lemma decodeCurrent_version_iff:
  "decodeCurrent z st i h = Inr sel \<and> \<not> s_tombstone sel \<longleftrightarrow>
     (\<exists>a. cardHeadSchema z h \<and> h_card_id h = i \<and> readArtifact z st i (h_ordinary h) = Inr (CardVersion a) \<and>
        (h_version_seq h = av_version a \<longrightarrow> h_updated_at h = av_committed_at a) \<and>
        cardRecordSchema z (with_current (av_card a) (h_version_seq h) (h_updated_at h) (h_pending h)) \<and>
        sel = \<lparr>s_selection = h, s_head = CardVersion a,
               s_card = with_current (av_card a) (h_version_seq h) (h_updated_at h) (h_pending h)\<rparr>)"
  (is "?l \<longleftrightarrow> ?r")
proof
  assume ?l
  then obtain head where head: "readArtifact z st i (h_ordinary h) = Inr head"
    by (auto simp: decodeCurrent_def errE)
  with \<open>?l\<close> obtain a where "head = CardVersion a"
    by (cases head) (auto simp: decodeCurrent_def errE)
  with head \<open>?l\<close> show ?r by (auto simp: decodeCurrent_def errE Let_def split: if_splits)
next
  assume ?r
  then show ?l by (auto simp: decodeCurrent_def)
qed

lemma readExactCard_head:
  assumes "readExactCard z st i = Inr sel"
  shows "heads st i = Some (s_selection sel)"
    "readArtifact z st i (h_ordinary (s_selection sel)) = Inr (s_head sel)"
    "cardHeadSchema z (s_selection sel)" "h_card_id (s_selection sel) = i"
  using assms by (auto simp: readExactCard_def decodeCurrent_def bindE_Inr_iff errE)

lemma readExactCard_version:
  assumes "readExactCard z st i = Inr sel" and "\<not> s_tombstone sel"
  obtains a where "heads st i = Some (s_selection sel)" "cardHeadSchema z (s_selection sel)"
    "h_card_id (s_selection sel) = i" "s_head sel = CardVersion a"
    "readArtifact z st i (h_ordinary (s_selection sel)) = Inr (CardVersion a)"
    "ordinaryCardPayload (s_card sel) = av_card a" "c_version_seq (s_card sel) = h_version_seq (s_selection sel)"
    "c_updated_at (s_card sel) = h_updated_at (s_selection sel)"
    "c_pending_notifications (s_card sel) = h_pending (s_selection sel)"
    "cardRecordSchema z (s_card sel)" "c_id (s_card sel) = i" "av_version a \<le> c_version_seq (s_card sel)"
proof -
  obtain h where h: "heads st i = Some h" "decodeCurrent z st i h = Inr sel"
    using assms(1) by (auto simp: readExactCard_def errE)
  then obtain a where a: "cardHeadSchema z h" "h_card_id h = i"
      "readArtifact z st i (h_ordinary h) = Inr (CardVersion a)"
      "cardRecordSchema z (with_current (av_card a) (h_version_seq h) (h_updated_at h) (h_pending h))"
      "sel = \<lparr>s_selection = h, s_head = CardVersion a,
               s_card = with_current (av_card a) (h_version_seq h) (h_updated_at h) (h_pending h)\<rparr>"
    using assms(2) decodeCurrent_version_iff [of z st i h sel] by blast
  have "av_version a \<le> h_version_seq h"
    using a(1) readArtifact_Inr [OF a(3)] by (simp add: cardHeadSchema_def)
  moreover have "c_id (av_card a) = i"
    using readArtifact_Inr [OF a(3)] by (simp add: cardVersionArtifactSchema_def)
  ultimately show thesis using that [of a] h a by simp
qed

section \<open>Effects of a publication\<close>

lemma publishFreshHistory_iff [errE]:
  "publishFreshHistory i a st = (Inr u, st') \<longleftrightarrow>
     history st (i, art_entry_id a) = None \<and> st' = st\<lparr>history := (history st)((i, art_entry_id a) \<mapsto> a)\<rparr>"
  by (auto simp: publishFreshHistory_def errE)

lemma publishHeadFile_Initial [simp]:
  "publishHeadFile i h Initial st =
     (Inr (), st\<lparr>heads := (heads st)(i \<mapsto> h), previous_heads := (previous_heads st)(i := None)\<rparr>)"
  by (simp add: publishHeadFile_def bindS_def modifyS_def returnS_def)

lemma publishHeadFile_Replacement [simp]:
  "heads st i = Some current \<Longrightarrow>
   publishHeadFile i h Replacement st =
     (Inr (), st\<lparr>heads := (heads st)(i \<mapsto> h), previous_heads := (previous_heads st)(i \<mapsto> current)\<rparr>)"
  by (simp add: publishHeadFile_def bindS_def modifyS_def readS_def)

lemma parse_head_Inr [errE]: "parse_head z h = Inr h' \<longleftrightarrow> h' = h \<and> cardHeadSchema z h"
  by (auto simp: parse_head_def)

lemma parse_artifact_Inr [errE]: "parse_artifact z a = Inr a' \<longleftrightarrow> a' = a \<and> cardArtifactSchema z a"
  by (auto simp: parse_artifact_def)

text \<open>The documents of an ordinary publication, of a queue publication and of a tombstone.\<close>

abbreviation next_artifact :: "current_selection \<Rightarrow> card_record \<Rightarrow> card_version_change \<Rightarrow> version_artifact" where
  "next_artifact sel c v \<equiv>
     \<lparr>av_entry_id = v_entry_id v, av_card_id = c_id c, av_version = c_version_seq c,
      av_committed_at = v_changed_at v, av_card = ordinaryCardPayload c,
      av_predecessor = Some (h_ordinary (s_selection sel)), av_change = Some (ordinaryChange v)\<rparr>"

abbreviation next_head :: "current_selection \<Rightarrow> artifact_ref \<Rightarrow> card_record \<Rightarrow> string \<Rightarrow> card_head" where
  "next_head sel r c headId \<equiv> (s_selection sel)
     \<lparr>h_head_id := headId, h_ordinary := r, h_version_seq := c_version_seq c,
      h_updated_at := c_updated_at c, h_pending := c_pending_notifications c\<rparr>"

abbreviation is_queue_kind :: "change_kind \<Rightarrow> bool" where
  "is_queue_kind k \<equiv> k = KNotificationEnqueue \<or> k = KNotificationRemove"

lemma publishMailboxMessage_Inr:
  assumes "publishMailboxMessage z c n st = (Inr u, st')"
  obtains m where "n = Some m" "cardMailboxMessageSchema z \<lparr>mm_card_id = c_id c, mm_notification = m\<rparr>"
    "at_last (c_pending_notifications c) = Some (n_id m)" "mailbox st (c_id c, n_id m) = None"
    "st' = st\<lparr>mailbox := (mailbox st)((c_id c, n_id m) \<mapsto> \<lparr>mm_card_id = c_id c, mm_notification = m\<rparr>)\<rparr>"
  using assms by (auto simp: publishMailboxMessage_def errE)

lemma publishCardVersion_sel:
  assumes "publishCardVersion z c v n headId st = (Inr r, st')"
  obtains sel where "readExactCard z st (c_id c) = Inr sel" "\<not> s_tombstone sel" "cardRecordSchema z c"
    "cardVersionChangeSchema z v" "validateCardTransition (s_card sel) c v (c_id c) Live = Inr ()"
    "heads st (c_id c) = Some (s_selection sel)"
proof -
  obtain sel where sel: "readExactCard z st (c_id c) = Inr sel" "\<not> s_tombstone sel" "cardRecordSchema z c"
    "cardVersionChangeSchema z v" "validateCardTransition (s_card sel) c v (c_id c) Live = Inr ()"
    using assms by (auto simp: publishCardVersion_def errE)
  with that show thesis by (blast elim: readExactCard_version)
qed

abbreviation change_ref :: "card_version_change \<Rightarrow> card_record \<Rightarrow> artifact_ref" where
  "change_ref v c \<equiv> \<lparr>ref_entry_id = v_entry_id v, ref_version = c_version_seq c\<rparr>"

lemma publishCardVersion_queue:
  assumes pub: "publishCardVersion z c v n headId st = (Inr r, st')" and q: "is_queue_kind (v_kind v)"
    and sel: "readExactCard z st (c_id c) = Inr sel"
  obtains st1 where "r = None" "cardHeadSchema z (next_head sel (h_ordinary (s_selection sel)) c headId)"
    "if v_kind v = KNotificationEnqueue then publishMailboxMessage z c n st = (Inr (), st1) else st1 = st"
    "st' = st1\<lparr>heads := (heads st)(c_id c \<mapsto> next_head sel (h_ordinary (s_selection sel)) c headId),
           previous_heads := (previous_heads st)(c_id c \<mapsto> s_selection sel)\<rparr>"
proof -
  have head: "heads st (c_id c) = Some (s_selection sel)"
    using publishCardVersion_sel [OF pub] sel by force
  from assms obtain st1 where st1:
      "(if v_kind v = KNotificationEnqueue then publishMailboxMessage z c n else returnS ()) st = (Inr (), st1)"
      "r = None" "cardHeadSchema z (next_head sel (h_ordinary (s_selection sel)) c headId)"
      "publishHeadFile (c_id c) (next_head sel (h_ordinary (s_selection sel)) c headId) Replacement st1 = (Inr (), st')"
    by (auto simp: publishCardVersion_def errE)
  have "heads st1 = heads st" "previous_heads st1 = previous_heads st"
    using st1(1) by (auto simp: errE elim: publishMailboxMessage_Inr split: if_splits)
  with st1 head that [of st1] show thesis by (auto simp: errE split: if_splits)
qed

lemma publishCardVersion_ordinary:
  assumes pub: "publishCardVersion z c v n headId st = (Inr r, st')" and q: "\<not> is_queue_kind (v_kind v)"
    and sel: "readExactCard z st (c_id c) = Inr sel"
  shows "r = Some (CardVersion (next_artifact sel c v))" "cardVersionArtifactSchema z (next_artifact sel c v)"
    "history st (c_id c, v_entry_id v) = None" "cardHeadSchema z (next_head sel (change_ref v c) c headId)"
    "st' = st\<lparr>history := (history st)((c_id c, v_entry_id v) \<mapsto> CardVersion (next_artifact sel c v)),
         heads := (heads st)(c_id c \<mapsto> next_head sel (change_ref v c) c headId),
         previous_heads := (previous_heads st)(c_id c \<mapsto> s_selection sel)\<rparr>"
proof -
  have "heads st (c_id c) = Some (s_selection sel)"
    using publishCardVersion_sel [OF pub] sel by force
  with assms show "r = Some (CardVersion (next_artifact sel c v))" "cardVersionArtifactSchema z (next_artifact sel c v)"
    "history st (c_id c, v_entry_id v) = None" "cardHeadSchema z (next_head sel (change_ref v c) c headId)"
    "st' = st\<lparr>history := (history st)((c_id c, v_entry_id v) \<mapsto> CardVersion (next_artifact sel c v)),
         heads := (heads st)(c_id c \<mapsto> next_head sel (change_ref v c) c headId),
         previous_heads := (previous_heads st)(c_id c \<mapsto> s_selection sel)\<rparr>"
    by (auto simp: publishCardVersion_def errE referenceOf_def)
qed

section \<open>Reading after a publication\<close>

lemma queue_transition_payload:
  assumes "validateCardTransition p n v path l = Inr u" and "is_queue_kind (v_kind v)"
  shows "ordinaryCardPayload n = ordinaryCardPayload p"
proof -
  have "actualDelta p n = [''pending_notifications'']"
    using assms(1) by (cases rule: transition_cases) (use assms(2) in auto)
  then show ?thesis
    using actualDelta_mem [of p n] transition_linkage [OF assms(1)] by (simp add: ordinaryCardPayload_def)
qed

lemma readExactCard_I:
  assumes "heads st i = Some h" "cardHeadSchema z h" "h_card_id h = i"
    "readArtifact z st i (h_ordinary h) = Inr (CardVersion a)"
    "h_version_seq h = av_version a \<longrightarrow> h_updated_at h = av_committed_at a"
    "cardRecordSchema z c" "ordinaryCardPayload c = av_card a" "c_version_seq c = h_version_seq h"
    "c_updated_at c = h_updated_at h" "c_pending_notifications c = h_pending h" "cardIdSchema i"
  shows "readExactCard z st i = Inr \<lparr>s_selection = h, s_head = CardVersion a, s_card = c\<rparr>"
proof -
  have "with_current (av_card a) (h_version_seq h) (h_updated_at h) (h_pending h) = c"
    using assms by (intro with_current_eqI) simp_all
  then have "decodeCurrent z st i h = Inr \<lparr>s_selection = h, s_head = CardVersion a, s_card = c\<rparr>"
    using assms decodeCurrent_version_iff [of z st i h "\<lparr>s_selection = h, s_head = CardVersion a, s_card = c\<rparr>"]
    by simp
  then show ?thesis using assms by (simp add: readExactCard_def)
qed

lemma readArtifact_fresh:
  "cardArtifactSchema z a \<Longrightarrow> art_card_id a = i \<Longrightarrow> history st (i, art_entry_id a) = Some a \<Longrightarrow>
   ref_entry_id r = art_entry_id a \<Longrightarrow> ref_version r = art_version a \<Longrightarrow> readArtifact z st i r = Inr a"
  by (simp add: readArtifact_def)

text \<open>After a successful publication the card reads as the published record; the selected
  artifact is the new one, or for the queue kinds the one selected before.\<close>

lemma publishCardVersion_read:
  assumes pub: "publishCardVersion z c v n headId st = (Inr r, st')"
  obtains sel sel' where "readExactCard z st (c_id c) = Inr sel" "\<not> s_tombstone sel"
    "readExactCard z st' (c_id c) = Inr sel'" "s_card sel' = c"
    "r = None \<Longrightarrow> s_head sel' = s_head sel" "\<And>a. r = Some a \<Longrightarrow> s_head sel' = a"
    "r = None \<longleftrightarrow> is_queue_kind (v_kind v)"
proof -
  from pub obtain sel where sel: "readExactCard z st (c_id c) = Inr sel" "\<not> s_tombstone sel" "cardRecordSchema z c"
    "cardVersionChangeSchema z v" "validateCardTransition (s_card sel) c v (c_id c) Live = Inr ()"
    by (rule publishCardVersion_sel)
  note link = transition_linkage [OF sel(5)]
  have ids: "cardIdSchema (c_id c)"
    using cardRecordSchema_payload [OF sel(3)] by (simp add: ordinaryCardPayloadSchema_def)
  from sel(1,2) obtain a where a: "heads st (c_id c) = Some (s_selection sel)" "h_card_id (s_selection sel) = c_id c"
      "s_head sel = CardVersion a" "readArtifact z st (c_id c) (h_ordinary (s_selection sel)) = Inr (CardVersion a)"
      "ordinaryCardPayload (s_card sel) = av_card a" "av_version a \<le> c_version_seq (s_card sel)"
    by (rule readExactCard_version)
  show thesis
  proof (cases "is_queue_kind (v_kind v)")
    case True
    let ?h = "next_head sel (h_ordinary (s_selection sel)) c headId"
    from pub True sel(1) obtain st1 where st1: "r = None" "cardHeadSchema z ?h"
      "if v_kind v = KNotificationEnqueue then publishMailboxMessage z c n st = (Inr (), st1) else st1 = st"
      "st' = st1\<lparr>heads := (heads st)(c_id c \<mapsto> ?h), previous_heads := (previous_heads st)(c_id c \<mapsto> s_selection sel)\<rparr>"
      by (rule publishCardVersion_queue)
    have "history st1 = history st"
      using st1(3) by (auto elim: publishMailboxMessage_Inr split: if_splits)
    then have hist: "history st' = history st" using st1(4) by simp
    have "readExactCard z st' (c_id c) = Inr \<lparr>s_selection = ?h, s_head = CardVersion a, s_card = c\<rparr>"
    proof (rule readExactCard_I)
      show "ordinaryCardPayload c = av_card a" using queue_transition_payload [OF sel(5) True] a(5) by simp
      show "readArtifact z st' (c_id c) (h_ordinary ?h) = Inr (CardVersion a)"
        using readArtifact_mono [OF _ a(4), of st'] by (simp add: hist)
      show "h_version_seq ?h = av_version a \<longrightarrow> h_updated_at ?h = av_committed_at a"
        using link(10) a(6) by simp
    qed (use st1 a sel ids in simp_all)
    then show thesis using that [OF sel(1,2)] st1(1) True a(3) by auto
  next
    case False
    note ord = publishCardVersion_ordinary [OF pub False sel(1)]
    let ?r = "change_ref v c"
    have "readExactCard z st' (c_id c) =
        Inr \<lparr>s_selection = next_head sel ?r c headId, s_head = CardVersion (next_artifact sel c v), s_card = c\<rparr>"
    proof (rule readExactCard_I)
      show "readArtifact z st' (c_id c) (h_ordinary (next_head sel ?r c headId)) = Inr (CardVersion (next_artifact sel c v))"
        using ord by (intro readArtifact_fresh) simp_all
    qed (use ord a sel ids link in simp_all)
    then show thesis using that [OF sel(1,2)] ord(1) False by auto
  qed
qed

section \<open>The store invariant\<close>

text \<open>
  A card is intact when its head decodes, the history below it reads to the initial version
  and every queued notification has its mailbox document. The store is intact when every
  card with a head is.
\<close>

definition mailbox_holds :: "zod \<Rightarrow> 'a card_store_scheme \<Rightarrow> string \<Rightarrow> string \<Rightarrow> bool" where
  "mailbox_holds z st i n \<longleftrightarrow> (case mailbox st (i, n) of None \<Rightarrow> False
     | Some m \<Rightarrow> cardMailboxMessageSchema z m \<and> mm_card_id m = i \<and> n_id (mm_notification m) = n)"

definition card_ok :: "zod \<Rightarrow> 'a card_store_scheme \<Rightarrow> string \<Rightarrow> bool" where
  "card_ok z st i = (case readExactCard z st i of
     Inl _ \<Rightarrow> False
   | Inr sel \<Rightarrow> (case readHistory z st sel None of Inl _ \<Rightarrow> False | Inr _ \<Rightarrow> True) \<and>
       list_all (mailbox_holds z st i) (h_pending (s_selection sel)))"

definition store_ok :: "zod \<Rightarrow> 'a card_store_scheme \<Rightarrow> bool" where
  "store_ok z st \<longleftrightarrow> (\<forall>i \<in> dom (heads st). card_ok z st i)"

lemma card_ok_iff:
  "card_ok z st i \<longleftrightarrow> (\<exists>sel rows. readExactCard z st i = Inr sel \<and> readHistory z st sel None = Inr rows \<and>
     (\<forall>n \<in> set (h_pending (s_selection sel)). mailbox_holds z st i n))"
  by (auto simp: card_ok_def list_all_iff split: sum.splits)

definition documents_grow :: "'a card_store_scheme \<Rightarrow> 'a card_store_scheme \<Rightarrow> bool" where
  "documents_grow st st' \<longleftrightarrow> history st \<subseteq>\<^sub>m history st' \<and> mailbox st \<subseteq>\<^sub>m mailbox st'"

lemma documents_growD: "documents_grow st st' \<Longrightarrow> history st \<subseteq>\<^sub>m history st'"
  by (simp add: documents_grow_def)

interpretation grow: state_frame documents_grow
  by unfold_locales (auto simp: documents_grow_def intro: map_le_trans)

text \<open>Writing to the store leaves the heads of the cards outside a set alone.\<close>

definition heads_outside :: "string set \<Rightarrow> 'a card_store_scheme \<Rightarrow> 'a card_store_scheme \<Rightarrow> bool" where
  "heads_outside A st st' \<longleftrightarrow> (\<forall>j. j \<notin> A \<longrightarrow> heads st' j = heads st j)"

interpretation outside: state_frame "heads_outside A" for A
  by unfold_locales (auto simp: heads_outside_def)

lemma map_le_upd_fresh: "m k = None \<Longrightarrow> m \<subseteq>\<^sub>m m(k \<mapsto> v)"
  by (auto simp: map_le_def)

lemma mailbox_holds_mono: "documents_grow st st' \<Longrightarrow> mailbox_holds z st i n \<Longrightarrow> mailbox_holds z st' i n"
  by (auto simp: mailbox_holds_def documents_grow_def map_le_def dom_def split: option.splits)

lemma card_ok_mono:
  "documents_grow st st' \<Longrightarrow> heads st' i = heads st i \<Longrightarrow> card_ok z st i \<Longrightarrow> card_ok z st' i"
  unfolding card_ok_iff
  by (blast dest: mailbox_holds_mono intro: readExactCard_mono readHistory_mono documents_growD)

text \<open>
  The contract of a publication for card \<open>i\<close>: documents are only added, other heads stay, a
  failure leaves the head of \<open>i\<close> as it was, and a success leaves an intact card.
\<close>

locale card_publication =
  fixes z :: zod and i :: string and publish :: "('a card_store_scheme, 'b) op"
  assumes grows: "keeps documents_grow publish"
    and frame: "keeps (heads_outside {i}) publish"
    and atomic: "publish st = (Inl e, st') \<Longrightarrow> heads st' i = heads st i"
    and selects: "publish st = (Inr x, st') \<Longrightarrow> store_ok z st \<Longrightarrow> card_ok z st' i"
begin

lemma preserves_store_ok:
  assumes "publish st = (r, st')" and "store_ok z st"
  shows "store_ok z st'"
  unfolding store_ok_def
proof
  fix j
  assume j: "j \<in> dom (heads st')"
  have g: "documents_grow st st'" using grows assms(1) by (rule keepsD)
  show "card_ok z st' j"
  proof (cases "heads st' j = heads st j")
    case True
    then have "card_ok z st j" using assms(2) j by (simp add: store_ok_def domIff)
    then show ?thesis by (rule card_ok_mono [OF g True])
  next
    case False
    then have "j = i" using keepsD [OF frame assms(1)] by (auto simp: heads_outside_def)
    with False obtain x where "r = Inr x" using atomic assms(1) by (cases r) auto
    with assms \<open>j = i\<close> show ?thesis using selects by blast
  qed
qed

lemma other_card_unchanged:
  "publish st = (r, st') \<Longrightarrow> j \<noteq> i \<Longrightarrow> readExactCard z st j = Inr sel \<Longrightarrow>
   readExactCard z st' j = Inr sel \<and> (\<forall>s rows. readHistory z st sel s = Inr rows \<longrightarrow> readHistory z st' sel s = Inr rows)"
  using keepsD [OF grows] keepsD [OF frame]
  by (metis documents_grow_def heads_outside_def readExactCard_mono readHistory_mono singletonD)

lemma failed_publication_invisible:
  assumes "publish st = (Inl e, st')" and "readExactCard z st j = Inr sel"
  shows "readExactCard z st' j = Inr sel"
proof (rule readExactCard_mono [OF _ _ assms(2)])
  show "history st \<subseteq>\<^sub>m history st'" using keepsD [OF grows assms(1)] by (simp add: documents_grow_def)
  show "heads st' j = heads st j"
    using keepsD [OF frame assms(1)] atomic [OF assms(1)] by (cases "j = i") (auto simp: heads_outside_def)
qed

end

end
