(* ===== verification/CardLinks.thy ===== *)
theory CardLinks
  imports CardStore
begin

text \<open>
  The cards reachable from the project card. \<open>readLinkedCard\<close> follows the segments of a card
  identity from the root through the membership of each parent; \<open>linked\<close> is what it decides.
\<close>

section \<open>Reachable cards\<close>

inductive linked :: "zod \<Rightarrow> 'a card_store_scheme \<Rightarrow> string \<Rightarrow> current_selection \<Rightarrow> bool"
  for z :: zod and st :: "'a card_store_scheme" where
  root: "readExactCard z st ''project'' = Inr sel \<Longrightarrow> linked z st ''project'' sel"
| child: "linked z st p parent \<Longrightarrow> childCardId p s = Inr i \<Longrightarrow> i \<in> set (c_child_membership (s_card parent)) \<Longrightarrow>
    readExactCard z st i = Inr sel \<Longrightarrow> \<not> s_tombstone sel \<Longrightarrow> linked z st i sel"

lemma linked_reads: "linked z st i sel \<Longrightarrow> readExactCard z st i = Inr sel"
  by (induction rule: linked.induct) auto

lemma root_not_tombstone:
  assumes "readExactCard z st ''project'' = Inr sel"
  shows "\<not> s_tombstone sel"
proof (cases "s_head sel")
  case (CardTombstone t)
  then have "cardTombstoneArtifactSchema z t" "at_card_id t = ''project''"
    using readArtifact_Inr(2,3) [OF readExactCard_head(2) [OF assms]] by simp_all
  moreover have "\<not> nonRootCardIdSchema ''project''" by code_simp
  ultimately show ?thesis by (simp add: cardTombstoneArtifactSchema_def)
qed simp

lemma linked_not_tombstone: "linked z st i sel \<Longrightarrow> \<not> s_tombstone sel"
  by (induction rule: linked.induct) (auto dest: root_not_tombstone)

lemma readRoot_iff: "readRoot z st = Inr (Some sel) \<longleftrightarrow> readExactCard z st ''project'' = Inr sel"
  by (auto simp: readRoot_def readExactCard_def errE split: option.splits)

lemma childCardId_path:
  "card_path ss \<Longrightarrow> childCardId (card_id_of ss) s = Inr i \<longleftrightarrow>
     cardSegmentSchema s \<and> length ss < MAX_CARD_DEPTH \<and> i = card_id_of (ss @ [s])"
  by (auto simp: childCardId_card_id_of)

lemma linked_path: "linked z st i sel \<Longrightarrow> \<exists>ss. card_path ss \<and> i = card_id_of ss"
proof (induction rule: linked.induct)
  case (root sel)
  show ?case by (rule exI [of _ "[]"]) (simp add: card_id_of_def)
next
  case (child p parent s i sel)
  then obtain ss where "card_path ss" "p = card_id_of ss" by blast
  with child show ?case by (intro exI [of _ "ss @ [s]"]) (auto simp: childCardId_path card_path_snoc)
qed

lemma walkLinked_snoc:
  "walkLinked z st False p current (ss @ [s]) =
     bindE (walkLinked z st False p current ss) (\<lambda>r. case r of None \<Rightarrow> Inr None
       | Some sel \<Rightarrow> (case foldl (\<lambda>q t. bindE q (\<lambda>q. childCardId q t)) (Inr p) ss of Inl e \<Rightarrow> Inl e
           | Inr q \<Rightarrow> walkLinked z st False q sel [s]))"
proof (induction ss arbitrary: p current)
  case Nil
  show ?case by simp
next
  case (Cons t ss)
  show ?case
  proof (cases "childCardId p t")
    case (Inr i)
    then show ?thesis using Cons.IH [of i] by (cases "readExactCard z st i") simp_all
  qed simp
qed

lemma child_chain:
  "card_path (ps @ ss) \<Longrightarrow> foldl (\<lambda>q t. bindE q (\<lambda>q. childCardId q t)) (Inr (card_id_of ps)) ss = Inr (card_id_of (ps @ ss))"
proof (induction ss rule: rev_induct)
  case (snoc s ss)
  then have "card_path (ps @ ss)" "cardSegmentSchema s" "length (ps @ ss) < MAX_CARD_DEPTH"
    using card_path_snoc [of "ps @ ss" s] by auto
  with snoc.IH show ?case by (simp add: childCardId_card_id_of)
qed simp

lemma walkLinked_iff:
  assumes "readExactCard z st ''project'' = Inr current"
  shows "card_path ss \<Longrightarrow> walkLinked z st False ''project'' current ss = Inr (Some sel) \<longleftrightarrow> linked z st (card_id_of ss) sel"
proof (induction ss arbitrary: sel rule: rev_induct)
  case Nil
  show ?case
    using assms linked_reads [of z st "''project''" sel] by (auto simp: card_id_of_def intro: linked.root)
next
  case (snoc s ss)
  then have path: "card_path ss" "cardSegmentSchema s" "length ss < MAX_CARD_DEPTH"
    by (auto simp: card_path_snoc)
  have chain: "foldl (\<lambda>q t. bindE q (\<lambda>q. childCardId q t)) (Inr ''project'') ss = Inr (card_id_of ss)"
    using child_chain [of "[]" ss] path(1) by (simp add: card_id_of_def)
  have child: "childCardId (card_id_of ss) s = Inr (card_id_of (ss @ [s]))"
    using path by (simp add: childCardId_path)
  have step: "walkLinked z st False ''project'' current (ss @ [s]) = Inr (Some sel) \<longleftrightarrow>
      (\<exists>parent. linked z st (card_id_of ss) parent \<and> card_id_of (ss @ [s]) \<in> set (c_child_membership (s_card parent)) \<and>
        readExactCard z st (card_id_of (ss @ [s])) = Inr sel \<and> \<not> s_tombstone sel)"
    using snoc.IH [OF path(1)] by (auto simp: walkLinked_snoc chain child errE split: option.splits if_splits)
  show ?case
  proof
    assume "walkLinked z st False ''project'' current (ss @ [s]) = Inr (Some sel)"
    then show "linked z st (card_id_of (ss @ [s])) sel" using step child by (auto intro: linked.child)
  next
    assume "linked z st (card_id_of (ss @ [s])) sel"
    then show "walkLinked z st False ''project'' current (ss @ [s]) = Inr (Some sel)"
    proof (cases rule: linked.cases)
      case root
      then show ?thesis using card_id_of_not_project [of "ss @ [s]"] by simp
    next
      case (child p parent t)
      obtain ps where ps: "card_path ps" "p = card_id_of ps" using child(1) linked_path by blast
      with child(2) have "card_path (ps @ [t])" "card_id_of (ps @ [t]) = card_id_of (ss @ [s])"
        by (auto simp: childCardId_path card_path_snoc)
      then have "ps = ss" using card_id_of_inject [of "ps @ [t]" "ss @ [s]"] snoc.prems by simp
      with ps child step show ?thesis by auto
    qed
  qed
qed

lemma readActiveCardFold_iff: "readActiveCardFold z st i = Inr (Some sel) \<longleftrightarrow> linked z st i sel"
proof
  assume "readActiveCardFold z st i = Inr (Some sel)"
  then obtain ss current where "card_path ss" "i = card_id_of ss" "readRoot z st = Inr (Some current)"
      "walkLinked z st False ''project'' current ss = Inr (Some sel)"
    by (auto simp: readActiveCardFold_def readLinkedCard_def errE cardIdSegments_Inr_iff split: option.splits)
  then show "linked z st i sel" using walkLinked_iff [of z st current ss sel] by (simp add: readRoot_iff)
next
  assume l: "linked z st i sel"
  then obtain ss where ss: "card_path ss" "i = card_id_of ss" using linked_path by blast
  have "\<exists>current. readExactCard z st ''project'' = Inr current" using l by (induction rule: linked.induct) auto
  then obtain current where "readExactCard z st ''project'' = Inr current" ..
  with l ss walkLinked_iff [of z st current ss sel] readRoot_iff [of z st current]
  show "readActiveCardFold z st i = Inr (Some sel)"
    by (simp add: readActiveCardFold_def readLinkedCard_def)
qed

lemma readCardArtifacts_iff [errE]: "readCardArtifacts z st i = Inr sel \<longleftrightarrow> linked z st i sel"
  by (auto simp: readCardArtifacts_def bindE_Inr_iff optionE_Inr_iff readActiveCardFold_iff)

lemma readCard_iff: "readCard z st i = Inr (Some c) \<longleftrightarrow> (\<exists>sel. linked z st i sel \<and> s_card sel = c)"
  by (auto simp: readCard_def bindE_Inr_iff readActiveCardFold_iff [symmetric])

end
