(* ===== verification/CardPublication.thy ===== *)
theory CardPublication
  imports CardLinks
begin

text \<open>
  The three publications of \<^verbatim>\<open>card-files.ts\<close> (initial version, next version, tombstone) meet the
  contract \<open>card_publication\<close>: they only add documents, touch one head, leave it alone when
  they fail and select an intact card when they succeed. History grows by exactly the
  published artifact.
\<close>

section \<open>Frames of the primitive writes\<close>

lemma publishFreshHistory_grows: "keeps documents_grow (publishFreshHistory i a)"
proof (rule keepsI)
  fix st r and st' :: "'a card_store_scheme"
  assume "publishFreshHistory i a st = (r, st')"
  then show "documents_grow st st'"
    by (cases "history st (i, art_entry_id a) = None")
       (auto simp: publishFreshHistory_def bindS_def readS_def modifyS_def documents_grow_def map_le_upd_fresh)
qed

lemma publishMailboxMessage_grows: "keeps documents_grow (publishMailboxMessage z c n)"
proof (rule keepsI)
  fix st r and st' :: "'a card_store_scheme"
  assume a: "publishMailboxMessage z c n st = (r, st')"
  show "documents_grow st st'"
  proof (cases r)
    case (Inl e)
    with a have "st' = st"
      by (auto simp: publishMailboxMessage_def bindS_Inl_iff liftS_iff readS_iff modifyS_iff)
    then show ?thesis by (simp add: grow.frame_refl)
  next
    case (Inr u)
    with a obtain m where "mailbox st (c_id c, n_id m) = None"
      "st' = st\<lparr>mailbox := (mailbox st)((c_id c, n_id m) \<mapsto> \<lparr>mm_card_id = c_id c, mm_notification = m\<rparr>)\<rparr>"
      by (auto elim: publishMailboxMessage_Inr)
    then show ?thesis by (simp add: documents_grow_def map_le_upd_fresh)
  qed
qed

lemma publishHeadFile_grows: "keeps documents_grow (publishHeadFile i h mode)"
  unfolding publishHeadFile_def
  by (intro grow.keeps_rules grow.keeps_modify) (simp_all add: documents_grow_def)

lemma publishHeadFile_outside: "i \<in> A \<Longrightarrow> keeps (heads_outside A) (publishHeadFile i h mode)"
  unfolding publishHeadFile_def
  by (intro outside.keeps_rules outside.keeps_modify) (auto simp: heads_outside_def)

lemma publishFreshHistory_outside: "keeps (heads_outside A) (publishFreshHistory i a)"
  unfolding publishFreshHistory_def
  by (intro outside.keeps_rules outside.keeps_modify) (simp add: heads_outside_def)

lemma publishMailboxMessage_outside: "keeps (heads_outside A) (publishMailboxMessage z c n)"
  unfolding publishMailboxMessage_def
  by (intro outside.keeps_rules outside.keeps_modify) (simp add: heads_outside_def)

lemmas write_grows = publishFreshHistory_grows publishMailboxMessage_grows publishHeadFile_grows
lemmas write_outside = publishFreshHistory_outside publishMailboxMessage_outside

lemma publishHeadFile_fails: "publishHeadFile i h mode st = (Inl e, st') \<Longrightarrow> heads st' = heads st"
  by (auto simp: publishHeadFile_def bindS_Inl_iff returnS_iff modifyS_iff readS_iff split: if_splits)

lemma no_heads_written: "keeps (heads_outside {}) m \<Longrightarrow> m st = (r, st') \<Longrightarrow> heads st' = heads st"
  by (auto simp: keeps_def heads_outside_def)

text \<open>A sequence of head-preserving steps that ends with a head publication fails without moving a head.\<close>

definition heads_last :: "('a card_store_scheme, 'b) op \<Rightarrow> bool" where
  "heads_last m \<longleftrightarrow> (\<forall>st e st'. m st = (Inl e, st') \<longrightarrow> heads st' = heads st)"

lemma heads_last_bind:
  "keeps (heads_outside {}) m \<Longrightarrow> (\<And>x. heads_last (f x)) \<Longrightarrow> heads_last (bindS m f)"
  unfolding heads_last_def bindS_Inl_iff using no_heads_written [of m] by fastforce

lemma heads_last_lift: "(\<And>x. m = Inr x \<Longrightarrow> heads_last (f x)) \<Longrightarrow> heads_last (bindS (liftS m) f)"
  by (cases m) (auto simp: heads_last_def)

lemma heads_last_head: "heads_last (bindS (publishHeadFile i h mode) (\<lambda>_. returnS x))"
  by (auto simp: heads_last_def bindS_Inl_iff returnS_iff dest: publishHeadFile_fails)

lemma heads_last_if: "(c \<Longrightarrow> heads_last m) \<Longrightarrow> (\<not> c \<Longrightarrow> heads_last m') \<Longrightarrow> heads_last (if c then m else m')"
  by simp

lemmas heads_last_rules = heads_last_lift heads_last_head heads_last_if heads_last_bind

lemma publishCardVersion_grows: "keeps documents_grow (publishCardVersion z c v n headId)"
  unfolding publishCardVersion_def by (intro grow.keeps_rules write_grows)

lemma publishCardVersion_outside: "keeps (heads_outside {c_id c}) (publishCardVersion z c v n headId)"
  unfolding publishCardVersion_def
  by (intro outside.keeps_rules write_outside publishHeadFile_outside) (auto simp: errE)

lemma publishCardVersion_heads_last: "heads_last (publishCardVersion z c v n headId)"
  unfolding publishCardVersion_def
  by (intro heads_last_rules outside.keeps_rules write_outside)

lemma publishInitialVersion_grows: "keeps documents_grow (publishInitialVersion z c e headId)"
  unfolding publishInitialVersion_def by (intro grow.keeps_rules write_grows)

lemma publishInitialVersion_outside: "keeps (heads_outside {c_id c}) (publishInitialVersion z c e headId)"
  unfolding publishInitialVersion_def
  by (intro outside.keeps_rules write_outside publishHeadFile_outside) (auto simp: errE)

lemma publishInitialVersion_heads_last: "heads_last (publishInitialVersion z c e headId)"
  unfolding publishInitialVersion_def
  by (intro heads_last_rules outside.keeps_rules write_outside)

lemma publishCardTombstone_grows: "keeps documents_grow (publishCardTombstone z i c v headId)"
  unfolding publishCardTombstone_def by (intro grow.keeps_rules write_grows)

lemma publishCardTombstone_outside: "keeps (heads_outside {i}) (publishCardTombstone z i c v headId)"
  unfolding publishCardTombstone_def
  by (intro outside.keeps_rules write_outside publishHeadFile_outside) (auto simp: errE)

lemma publishCardTombstone_heads_last: "heads_last (publishCardTombstone z i c v headId)"
  unfolding publishCardTombstone_def
  by (intro heads_last_rules outside.keeps_rules write_outside)

section \<open>History grows by the published artifact\<close>

lemma historyFrom_version:
  assumes "readHistory z st sel None = Inr rows" and "history st \<subseteq>\<^sub>m history st'"
    and "art_predecessor a = Some r" "readArtifact z st' (art_card_id a) r = Inr (s_head sel)"
    and "checkPredecessor (s_head sel) a = Inr ()" and "s_head sel' = a"
  shows "readHistory z st' sel' None = Inr (rows @ [a])"
proof -
  obtain bs where bs: "historyFrom z st None (s_head sel) = Inr bs" "rows = rev bs"
    using assms(1) by (auto simp: readHistory_def errE)
  have "historyFrom z st' None (s_head sel) = Inr bs" using bs(1) assms(2) by (rule historyFrom_mono)
  then have "historyFrom z st' None a = Inr (a # bs)"
    using assms by (subst historyFrom_unfold) simp
  then show ?thesis using bs assms(6) by (simp add: readHistory_def)
qed

lemma published_checkPredecessor:
  assumes sel: "readExactCard z st (c_id c) = Inr sel" "\<not> s_tombstone sel"
    and trans: "validateCardTransition (s_card sel) c v (c_id c) Live = Inr ()"
    and kind: "\<not> is_queue_kind (v_kind v)"
  shows "checkPredecessor (s_head sel) (CardVersion (next_artifact sel c v)) = Inr ()"
proof -
  from sel obtain a where a: "s_head sel = CardVersion a" "ordinaryCardPayload (s_card sel) = av_card a"
      "av_version a \<le> c_version_seq (s_card sel)"
    by (rule readExactCard_version)
  note link = transition_linkage [OF trans]
  have "validateCardTransition (version_card a) (version_card (next_artifact sel c v)) (ordinaryChange v) (c_id c) History = Inr ()"
    using live_transition_history [OF trans _ a(3), of "av_committed_at a" "c_id c"] kind
    by (simp add: version_card_def a(2) link(8))
  then show ?thesis using a link by (simp add: checkPredecessor_def)
qed

lemma publishCardVersion_read_of:
  assumes pub: "publishCardVersion z c v n headId st = (Inr r, st')"
    and sel: "readExactCard z st (c_id c) = Inr sel" and sel': "readExactCard z st' (c_id c) = Inr sel'"
  shows "\<not> s_tombstone sel" "\<not> s_tombstone sel'" "s_card sel' = c" "r = None \<Longrightarrow> s_head sel' = s_head sel"
    "\<And>a. r = Some a \<Longrightarrow> s_head sel' = a" "r = None \<longleftrightarrow> is_queue_kind (v_kind v)"
    "validateCardTransition (s_card sel) c v (c_id c) Live = Inr ()"
proof -
  show *: "\<not> s_tombstone sel" "s_card sel' = c" "r = None \<Longrightarrow> s_head sel' = s_head sel"
      "\<And>a. r = Some a \<Longrightarrow> s_head sel' = a" "r = None \<longleftrightarrow> is_queue_kind (v_kind v)"
    by (rule publishCardVersion_read [OF pub], use sel sel' in simp)+
  show "validateCardTransition (s_card sel) c v (c_id c) Live = Inr ()"
    by (rule publishCardVersion_sel [OF pub], use sel in simp)
  show "\<not> s_tombstone sel'"
  proof (cases "is_queue_kind (v_kind v)")
    case False
    then show ?thesis using publishCardVersion_ordinary(1) [OF pub False sel] *(4) by simp
  qed (use * in simp)
qed

lemma publishCardVersion_history:
  assumes pub: "publishCardVersion z c v n headId st = (Inr r, st')"
    and sel: "readExactCard z st (c_id c) = Inr sel" and rows: "readHistory z st sel None = Inr rows"
    and sel': "readExactCard z st' (c_id c) = Inr sel'"
  shows "readHistory z st' sel' None = Inr (rows @ (case r of None \<Rightarrow> [] | Some a \<Rightarrow> [a]))"
proof -
  note read = publishCardVersion_read_of [OF pub sel sel']
  have hist: "history st \<subseteq>\<^sub>m history st'"
    using keepsD [OF publishCardVersion_grows pub] by (rule documents_growD)
  show ?thesis
  proof (cases r)
    case None
    with read(4) rows readHistory_mono [OF hist rows] show ?thesis by (simp add: readHistory_def)
  next
    case (Some a)
    then have k: "\<not> is_queue_kind (v_kind v)" using read(6) by simp
    note ord = publishCardVersion_ordinary [OF pub k sel]
    from sel read(1) obtain b where "s_head sel = CardVersion b"
      "readArtifact z st (c_id c) (h_ordinary (s_selection sel)) = Inr (s_head sel)"
      by (metis readExactCard_version)
    moreover have "checkPredecessor (s_head sel) (CardVersion (next_artifact sel c v)) = Inr ()"
      by (rule published_checkPredecessor [OF sel read(1,7) k])
    ultimately have "readHistory z st' sel' None = Inr (rows @ [CardVersion (next_artifact sel c v)])"
      using rows hist read(5) ord(1)
      by (intro historyFrom_version) (auto intro: readArtifact_mono)
    with ord(1) show ?thesis by simp
  qed
qed

lemma transition_pending:
  assumes "validateCardTransition p n v path l = Inr u" and "v_kind v \<noteq> KNotificationEnqueue"
  shows "set (c_pending_notifications n) \<subseteq> set (c_pending_notifications p)"
  using assms(1)
proof (cases rule: transition_cases)
  case git
  then have "actualDelta p n = [''git'']" by (simp add: validateGitSource_def errE)
  then show ?thesis using actualDelta_mem(10) [of p n] by simp
next
  case update
  then have "''pending_notifications'' \<notin> set (actualDelta p n)" by auto
  then show ?thesis by (simp add: actualDelta_mem)
next
  case remove
  then show ?thesis by (metis filter_is_subset)
next
  case terminal
  then have "c_pending_notifications n = []" by (auto simp: validateTerminal_def errE)
  then show ?thesis by simp
next
  case status
  then show ?thesis by (auto simp: validateStatus_iff Let_def)
qed (use actualDelta_mem(10) [of p n] assms(2) in auto)

lemma publishCardVersion_selects:
  assumes pub: "publishCardVersion z c v n headId st = (Inr r, st')" and ok: "card_ok z st (c_id c)"
  shows "card_ok z st' (c_id c)"
proof -
  from pub obtain sel sel' where sel: "readExactCard z st (c_id c) = Inr sel" "readExactCard z st' (c_id c) = Inr sel'"
    by (rule publishCardVersion_read) blast
  note read = publishCardVersion_read_of [OF pub sel]
  obtain rows where rows: "readHistory z st sel None = Inr rows"
      "\<And>n. n \<in> set (h_pending (s_selection sel)) \<Longrightarrow> mailbox_holds z st (c_id c) n"
    using ok sel(1) by (auto simp: card_ok_iff)
  have pend: "h_pending (s_selection sel) = c_pending_notifications (s_card sel)"
    using sel(1) read(1) by (auto elim: readExactCard_version)
  have pend': "h_pending (s_selection sel') = c_pending_notifications c"
    using sel(2) read(2,3) by (auto elim: readExactCard_version)
  have grow: "documents_grow st st'" using publishCardVersion_grows pub by (rule keepsD)
  have "mailbox_holds z st' (c_id c) k" if k: "k \<in> set (c_pending_notifications c)" for k
  proof (cases "k \<in> set (c_pending_notifications (s_card sel))")
    case True
    then show ?thesis using rows(2) pend grow by (auto intro: mailbox_holds_mono)
  next
    case False
    then have enq: "v_kind v = KNotificationEnqueue" using transition_pending [OF read(7)] k by auto
    obtain st1 where st1: "publishMailboxMessage z c n st = (Inr (), st1)"
        "mailbox st' = mailbox st1"
      by (rule publishCardVersion_queue [OF pub _ sel(1)]) (use enq in simp_all)
    from read(7) enq obtain i where "c_pending_notifications c = c_pending_notifications (s_card sel) @ [i]"
      by (cases rule: transition_cases) auto
    with False k have i: "k = i" "at_last (c_pending_notifications c) = Some k" by auto
    from st1(1) obtain m where m: "n_id m = k"
        "cardMailboxMessageSchema z \<lparr>mm_card_id = c_id c, mm_notification = m\<rparr>"
        "mailbox st1 = (mailbox st)((c_id c, n_id m) \<mapsto> \<lparr>mm_card_id = c_id c, mm_notification = m\<rparr>)"
      by (rule publishMailboxMessage_Inr) (use i(2) in simp)
    with st1(2) m show ?thesis by (simp add: mailbox_holds_def)
  qed
  with sel(2) pend' publishCardVersion_history [OF pub sel(1) rows(1) sel(2)] show ?thesis
    by (auto simp: card_ok_iff)
qed

section \<open>Initial publication\<close>

abbreviation initial_artifact :: "card_record \<Rightarrow> string \<Rightarrow> version_artifact" where
  "initial_artifact c e \<equiv> \<lparr>av_entry_id = e, av_card_id = c_id c, av_version = 1, av_committed_at = c_created_at c,
     av_card = ordinaryCardPayload c, av_predecessor = None, av_change = None\<rparr>"

abbreviation initial_head :: "card_record \<Rightarrow> string \<Rightarrow> string \<Rightarrow> card_head" where
  "initial_head c e headId \<equiv> \<lparr>h_head_id = headId, h_card_id = c_id c, h_version_seq = 1, h_updated_at = c_updated_at c,
     h_ordinary = \<lparr>ref_entry_id = e, ref_version = 1\<rparr>, h_pending = []\<rparr>"

lemma publishInitialVersion_iff:
  "publishInitialVersion z c e headId st = (Inr r, st') \<longleftrightarrow>
     cardRecordSchema z c \<and> validateInitialCard c (c_id c) = Inr () \<and> history st (c_id c, e) = None \<and>
     cardVersionArtifactSchema z (initial_artifact c e) \<and> cardHeadSchema z (initial_head c e headId) \<and>
     r = CardVersion (initial_artifact c e) \<and>
     st' = st\<lparr>history := (history st)((c_id c, e) \<mapsto> CardVersion (initial_artifact c e)),
       heads := (heads st)(c_id c \<mapsto> initial_head c e headId), previous_heads := (previous_heads st)(c_id c := None)\<rparr>"
  by (auto simp: publishInitialVersion_def errE referenceOf_def)

lemma validateInitialCard_Inr:
  "validateInitialCard c p = Inr u \<Longrightarrow> c_child_membership c = [] \<and> c_version_seq c = 1 \<and>
     c_updated_at c = c_created_at c \<and> c_pending_notifications c = []"
  unfolding validateInitialCard_def bindE_Inr_iff fail_if_Inr_iff by auto

lemma publishInitialVersion_read:
  assumes pub: "publishInitialVersion z c e headId st = (Inr r, st')"
  shows "readExactCard z st' (c_id c) =
      Inr \<lparr>s_selection = initial_head c e headId, s_head = r, s_card = c\<rparr>" (is "_ = Inr ?sel")
    and "readHistory z st' \<lparr>s_selection = initial_head c e headId, s_head = r, s_card = c\<rparr> None = Inr [r]"
proof -
  note p = pub [unfolded publishInitialVersion_iff]
  then have init: "c_version_seq c = 1" "c_updated_at c = c_created_at c" "c_pending_notifications c = []"
    using validateInitialCard_Inr by blast+
  show "readExactCard z st' (c_id c) = Inr ?sel"
    unfolding p [THEN conjunct2, THEN conjunct2, THEN conjunct2, THEN conjunct2, THEN conjunct2, THEN conjunct1]
  proof (rule readExactCard_I)
    show "cardIdSchema (c_id c)" using p by (simp add: cardVersionArtifactSchema_def)
    show "readArtifact z st' (c_id c) (h_ordinary (initial_head c e headId)) = Inr (CardVersion (initial_artifact c e))"
      using p by (intro readArtifact_fresh) simp_all
  qed (use p init in simp_all)
  show "readHistory z st' ?sel None = Inr [r]"
    using p by (simp add: readHistory_def historyFrom.simps)
qed

section \<open>Tombstones\<close>

abbreviation next_tombstone :: "current_selection \<Rightarrow> string \<Rightarrow> card_version_change \<Rightarrow> tombstone_artifact" where
  "next_tombstone sel i v \<equiv>
     \<lparr>at_entry_id = v_entry_id v, at_card_id = i, at_version = c_version_seq (s_card sel) + 1,
      at_committed_at = v_changed_at v, at_prior_card_version = c_version_seq (s_card sel),
      at_prior_updated_at = c_updated_at (s_card sel), at_final_card = ordinaryCardPayload (s_card sel),
      at_predecessor = h_ordinary (s_selection sel), at_change = v\<rparr>"

abbreviation tombstone_head :: "current_selection \<Rightarrow> card_version_change \<Rightarrow> string \<Rightarrow> card_head" where
  "tombstone_head sel v headId \<equiv> (s_selection sel)
     \<lparr>h_head_id := headId,
      h_ordinary := \<lparr>ref_entry_id = v_entry_id v, ref_version = c_version_seq (s_card sel) + 1\<rparr>,
      h_version_seq := c_version_seq (s_card sel) + 1, h_updated_at := v_changed_at v, h_pending := []\<rparr>"

lemma publishCardTombstone_Inr:
  assumes "publishCardTombstone z i c v headId st = (Inr r, st')"
  obtains sel where "i \<noteq> ''project''" "linked z st i sel" "s_card sel = c"
    "r = CardTombstone (next_tombstone sel i v)" "cardTombstoneArtifactSchema z (next_tombstone sel i v)"
    "cardHeadSchema z (tombstone_head sel v headId)" "history st (i, v_entry_id v) = None"
    "st' = st\<lparr>history := (history st)((i, v_entry_id v) \<mapsto> CardTombstone (next_tombstone sel i v)),
       heads := (heads st)(i \<mapsto> tombstone_head sel v headId), previous_heads := (previous_heads st)(i \<mapsto> s_selection sel)\<rparr>"
proof -
  from assms obtain sel where sel: "linked z st i sel" "s_card sel = c" "i \<noteq> ''project''"
    by (auto simp: publishCardTombstone_def errE)
  have "heads st i = Some (s_selection sel)"
    using linked_reads [OF sel(1)] by (rule readExactCard_head)
  moreover have "readCardArtifacts z st i = Inr sel" using sel(1) by (simp add: readCardArtifacts_iff)
  ultimately show thesis using assms sel that
    by (auto simp: publishCardTombstone_def referenceOf_def errE)
qed

lemma publishCardTombstone_read:
  assumes pub: "publishCardTombstone z i c v headId st = (Inr r, st')"
  obtains sel sel' where "linked z st i sel" "s_card sel = c"
    "readExactCard z st' i = Inr sel'" "s_head sel' = r" "s_tombstone sel'"
    "h_pending (s_selection sel') = []" "ordinaryCardPayload (s_card sel') = ordinaryCardPayload c"
    "\<And>rows. readHistory z st sel None = Inr rows \<Longrightarrow> readHistory z st' sel' None = Inr (rows @ [r])"
proof -
  from pub obtain sel where sel: "i \<noteq> ''project''" "linked z st i sel" "s_card sel = c"
    "r = CardTombstone (next_tombstone sel i v)" "cardTombstoneArtifactSchema z (next_tombstone sel i v)"
    "cardHeadSchema z (tombstone_head sel v headId)" "history st (i, v_entry_id v) = None"
    "st' = st\<lparr>history := (history st)((i, v_entry_id v) \<mapsto> CardTombstone (next_tombstone sel i v)),
       heads := (heads st)(i \<mapsto> tombstone_head sel v headId), previous_heads := (previous_heads st)(i \<mapsto> s_selection sel)\<rparr>"
    by (rule publishCardTombstone_Inr)
  let ?t = "next_tombstone sel i v" and ?h = "tombstone_head sel v headId"
  let ?sel = "\<lparr>s_selection = ?h, s_head = CardTombstone ?t, s_card = final_card ?t\<rparr>"
  note reads = linked_reads [OF sel(2)]
  from reads linked_not_tombstone [OF sel(2)] obtain a where a: "s_head sel = CardVersion a"
      "ordinaryCardPayload (s_card sel) = av_card a" "av_version a \<le> c_version_seq (s_card sel)"
      "h_card_id (s_selection sel) = i"
    by (rule readExactCard_version)
  have "readArtifact z st' i (h_ordinary ?h) = Inr (CardTombstone ?t)"
    using sel by (intro readArtifact_fresh) simp_all
  then have "readExactCard z st' i = Inr ?sel"
    using sel a(4) by (simp add: readExactCard_def decodeCurrent_def)
  moreover have "readHistory z st' ?sel None = Inr (rows @ [r])" if "readHistory z st sel None = Inr rows" for rows
    unfolding sel(4)
  proof (rule historyFrom_version [OF that])
    show "history st \<subseteq>\<^sub>m history st'" using sel(7,8) by (simp add: map_le_upd_fresh)
    then show "readArtifact z st' (art_card_id (CardTombstone ?t)) (h_ordinary (s_selection sel)) = Inr (s_head sel)"
      using readArtifact_mono readExactCard_head(2) [OF reads] by simp
    show "checkPredecessor (s_head sel) (CardTombstone ?t) = Inr ()"
      using a by (simp add: checkPredecessor_def version_card_def final_card_def)
  qed simp_all
  ultimately show thesis
    using that [OF sel(2,3), of ?sel] sel(3,4) by (simp add: final_card_def)
qed

section \<open>The contract holds\<close>

interpretation initial: card_publication z "c_id c" "publishInitialVersion z c e headId" for z c e headId
proof unfold_locales
  show "publishInitialVersion z c e headId st = (Inl err, st') \<Longrightarrow> heads st' (c_id c) = heads st (c_id c)"
    for st :: "'a card_store_scheme" and err st'
    using publishInitialVersion_heads_last unfolding heads_last_def by metis
  show "publishInitialVersion z c e headId st = (Inr x, st') \<Longrightarrow> store_ok z st \<Longrightarrow> card_ok z st' (c_id c)"
    for st :: "'a card_store_scheme" and x st'
    using publishInitialVersion_read [of z c e headId st x st'] by (simp add: card_ok_iff)
qed (rule publishInitialVersion_grows publishInitialVersion_outside)+

interpretation versions: card_publication z "c_id c" "publishCardVersion z c v n headId" for z c v n headId
proof unfold_locales
  show "publishCardVersion z c v n headId st = (Inl err, st') \<Longrightarrow> heads st' (c_id c) = heads st (c_id c)"
    for st :: "'a card_store_scheme" and err st'
    using publishCardVersion_heads_last unfolding heads_last_def by metis
  show "card_ok z st' (c_id c)"
    if pub: "publishCardVersion z c v n headId st = (Inr x, st')" and ok: "store_ok z st"
    for st :: "'a card_store_scheme" and x st'
  proof -
    have "heads st (c_id c) \<noteq> None" by (rule publishCardVersion_sel [OF pub]) simp
    then show ?thesis using ok publishCardVersion_selects [OF pub] by (auto simp: store_ok_def)
  qed
qed (rule publishCardVersion_grows publishCardVersion_outside)+

interpretation tombstones: card_publication z i "publishCardTombstone z i c v headId" for z i c v headId
proof unfold_locales
  show "publishCardTombstone z i c v headId st = (Inl err, st') \<Longrightarrow> heads st' i = heads st i"
    for st :: "'a card_store_scheme" and err st'
    using publishCardTombstone_heads_last unfolding heads_last_def by metis
  show "card_ok z st' i"
    if pub: "publishCardTombstone z i c v headId st = (Inr x, st')" and ok: "store_ok z st"
    for st :: "'a card_store_scheme" and x st'
  proof (rule publishCardTombstone_read [OF pub])
    fix sel sel'
    assume "linked z st i sel" and *: "readExactCard z st' i = Inr sel'" "h_pending (s_selection sel') = []"
      "\<And>rows. readHistory z st sel None = Inr rows \<Longrightarrow> readHistory z st' sel' None = Inr (rows @ [x])"
    then have "readExactCard z st i = Inr sel" by (blast dest: linked_reads)
    moreover from this have "card_ok z st i"
      using ok readExactCard_head(1) [of z st i sel] by (auto simp: store_ok_def)
    ultimately obtain rows where "readHistory z st sel None = Inr rows" by (auto simp: card_ok_iff)
    with * show "card_ok z st' i" by (auto simp: card_ok_iff)
  qed
qed (rule publishCardTombstone_grows publishCardTombstone_outside)+

end
