(* ===== verification/RecordFiles.thy ===== *)
theory RecordFiles
  imports CardFiles
begin

text \<open>
  Authored records of a card: the documents of \<^verbatim>\<open>src/persistence/canonical-record-artifacts.ts\<close> and
  the operations of \<^verbatim>\<open>src/persistence/authored-record-files.ts\<close>. A record has one mutable head,
  holding at most a baseline or a draft and a reference to the latest accepted document, and
  a chain of immutable accepted documents. \<open>sha256Hex\<close> of \<^verbatim>\<open>node:crypto\<close> is the parameter \<open>sha\<close>;
  presentation URLs of projections are left out.
\<close>

section \<open>Authors\<close>

datatype output_source = CommandStdout | ReturnedText

record action_output =
  ao_operation :: string
  ao_contract_version :: nat
  ao_builtin :: bool
  ao_provider_name :: string
  ao_activation_id :: string
  ao_invocation_id :: string
  ao_node_id :: string
  ao_ordinal :: nat
  ao_process_id :: "string option"
  ao_source :: output_source
  ao_size_bytes :: nat
  ao_sha256 :: string
  ao_outcome :: string
  ao_leader_exit :: "(int option \<times> string option) option"

datatype record_author =
    AuthorAgent string
  | AuthorExternal string
  | AuthorCardAgent string string
  | AuthorBootstrap
  | AuthorRepair
  | AuthorActionOutput action_output

fun is_action_output :: "record_author \<Rightarrow> bool" where
  "is_action_output (AuthorActionOutput _) = True"
| "is_action_output _ = False"

definition hashSchema :: "string \<Rightarrow> bool" where
  "hashSchema s \<longleftrightarrow> length s = 64 \<and> list_all is_hex s"

definition processIdSchema :: "string \<Rightarrow> bool" where
  "processIdSchema s \<longleftrightarrow> length s = 17 \<and> take 5 s = ''proc-'' \<and> list_all is_hex (drop 5 s)"

definition outcomeNameSchema :: "string \<Rightarrow> bool" where
  "outcomeNameSchema s \<longleftrightarrow> s \<noteq> [] \<and> is_lower (hd s) \<and> length s \<le> 64 \<and>
     list_all (\<lambda>c. is_lower c \<or> is_digit c \<or> c = CHR ''_'' \<or> c = CHR ''-'') s"

definition actionOutputDescriptorSchema :: "action_output \<Rightarrow> bool" where
  "actionOutputDescriptorSchema a \<longleftrightarrow>
     0 < ao_size_bytes a \<and> int (ao_size_bytes a) \<le> 1024 * 1024 \<and> hashSchema (ao_sha256 a)"

text \<open>\<open>leader_exit\<close> pairs the exit code with the signal; exactly one of them is present.\<close>

definition action_output_shape :: "action_output \<Rightarrow> bool" where
  "action_output_shape a \<longleftrightarrow>
     operationIdSchema (ao_operation a) \<and> positiveSafeIntegerSchema (ao_contract_version a) \<and>
     ao_provider_name a \<noteq> [] \<and> uuidV4Schema (ao_activation_id a) \<and> uuidV4Schema (ao_invocation_id a) \<and>
     ao_node_id a \<noteq> [] \<and> safe_nat (ao_ordinal a) \<and> pred_option processIdSchema (ao_process_id a) \<and>
     actionOutputDescriptorSchema a \<and> outcomeNameSchema (ao_outcome a) \<and>
     pred_option (\<lambda>(code, signal). pred_option (\<lambda>k. \<bar>k\<bar> \<le> MAX_SAFE_INTEGER) code \<and>
       pred_option (\<lambda>s. s \<noteq> []) signal) (ao_leader_exit a)"

definition action_output_refined :: "action_output \<Rightarrow> bool" where
  "action_output_refined a \<longleftrightarrow>
     ao_provider_name a = hd (split_on CHR ''.'' (ao_operation a)) \<and>
     (ao_process_id a = None \<longrightarrow> ao_leader_exit a = None) \<and>
     (ao_source a = CommandStdout \<longrightarrow> ao_process_id a \<noteq> None) \<and>
     pred_option (\<lambda>(code, signal). (code = None) \<noteq> (signal = None)) (ao_leader_exit a) \<and>
     (ao_operation a = ''shell.run'' \<longrightarrow>
        ao_contract_version a = 1 \<and> ao_builtin a \<and> ao_source a = CommandStdout \<and>
        ao_outcome a \<in> {''passed'', ''failed'', ''signalled'', ''timed_out''} \<and>
        (ao_outcome a = ''passed'' \<longrightarrow> ao_leader_exit a = Some (Some 0, None)) \<and>
        (ao_outcome a = ''failed'' \<longrightarrow>
           (case ao_leader_exit a of Some (Some k, None) \<Rightarrow> k \<noteq> 0 | _ \<Rightarrow> False)) \<and>
        (ao_outcome a = ''signalled'' \<longrightarrow>
           (case ao_leader_exit a of Some (None, Some _) \<Rightarrow> True | _ \<Rightarrow> False)))"

fun recordAuthorSchema :: "record_author \<Rightarrow> bool" where
  "recordAuthorSchema (AuthorAgent a) = agentNameSchema a"
| "recordAuthorSchema (AuthorExternal p) = is_name p"
| "recordAuthorSchema (AuthorCardAgent a c) = (agentNameSchema a \<and> cardIdSchema c)"
| "recordAuthorSchema AuthorBootstrap = True"
| "recordAuthorSchema AuthorRepair = True"
| "recordAuthorSchema (AuthorActionOutput a) = (action_output_shape a \<and> action_output_refined a)"

section \<open>Documents\<close>

abbreviation isEmptyRecordContent :: "string \<Rightarrow> bool" where
  "isEmptyRecordContent content \<equiv> is_blank content"

record accepted_snapshot =
  as_source_version :: nat
  as_source_entry_id :: string
  as_committed_at :: string
  as_author :: record_author
  as_card_version_seq :: nat
  as_card_history :: artifact_ref
  as_content :: string
  as_sha256 :: string
  as_size_bytes :: nat

definition acceptedRecordSnapshotSchema :: "zod \<Rightarrow> (string \<Rightarrow> string) \<Rightarrow> accepted_snapshot \<Rightarrow> bool" where
  "acceptedRecordSnapshotSchema z sha s \<longleftrightarrow>
     positiveSafeIntegerSchema (as_source_version s) \<and> uuidV4Schema (as_source_entry_id s) \<and>
     datetime z (as_committed_at s) \<and> recordAuthorSchema (as_author s) \<and>
     positiveSafeIntegerSchema (as_card_version_seq s) \<and> cardArtifactReferenceSchema (as_card_history s) \<and>
     hashSchema (as_sha256 s) \<and> safe_nat (as_size_bytes s) \<and>
     \<not> isEmptyRecordContent (as_content s) \<and> sha (as_content s) = as_sha256 s \<and>
     length (as_content s) = as_size_bytes s \<and>
     ref_version (as_card_history s) \<le> as_card_version_seq s \<and>
     (case as_author s of
        AuthorActionOutput a \<Rightarrow> ao_sha256 a = as_sha256 s \<and> ao_size_bytes a = as_size_bytes s \<and>
          CHR 0x00 \<notin> set (as_content s)
      | _ \<Rightarrow> True)"

record record_draft =
  d_version :: nat
  d_target_version :: nat
  d_opened_at :: string
  d_updated_at :: string
  d_content :: string
  d_sha256 :: string

definition openRecordDraftSchema :: "zod \<Rightarrow> (string \<Rightarrow> string) \<Rightarrow> record_draft \<Rightarrow> bool" where
  "openRecordDraftSchema z sha d \<longleftrightarrow>
     safe_nat (d_version d) \<and> positiveSafeIntegerSchema (d_target_version d) \<and>
     datetime z (d_opened_at d) \<and> datetime z (d_updated_at d) \<and> hashSchema (d_sha256 d) \<and>
     sha (d_content d) = d_sha256 d \<and>
     (d_version d = d_target_version d \<or> d_version d = 0 \<and> d_target_version d = 1) \<and>
     (d_version d = 0 \<longrightarrow> \<not> isEmptyRecordContent (d_content d))"

record record_baseline =
  b_created_at :: string
  b_content :: string
  b_sha256 :: string

definition recordBaselineSchema :: "zod \<Rightarrow> (string \<Rightarrow> string) \<Rightarrow> record_baseline \<Rightarrow> bool" where
  "recordBaselineSchema z sha b \<longleftrightarrow>
     datetime z (b_created_at b) \<and> hashSchema (b_sha256 b) \<and>
     \<not> isEmptyRecordContent (b_content b) \<and> sha (b_content b) = b_sha256 b"

record record_identity =
  ri_card_id :: string
  ri_record_name :: string
  ri_format :: string
  ri_schema :: string

definition identitySchema :: "'a record_identity_scheme \<Rightarrow> bool" where
  "identitySchema v \<longleftrightarrow> cardIdSchema (ri_card_id v) \<and> recordNameSchema (ri_record_name v) \<and>
     ri_format v = ''markdown'' \<and> ri_schema v \<noteq> []"

record record_head = record_identity +
  rh_head_id :: string
  rh_revision :: nat
  rh_baseline :: "record_baseline option"
  rh_draft :: "record_draft option"
  rh_accepted :: "artifact_ref option"

abbreviation ref_version0 :: "artifact_ref option \<Rightarrow> nat" where
  "ref_version0 r \<equiv> (case r of None \<Rightarrow> 0 | Some x \<Rightarrow> ref_version x)"

definition recordHeadSchema :: "zod \<Rightarrow> (string \<Rightarrow> string) \<Rightarrow> record_head \<Rightarrow> bool" where
  "recordHeadSchema z sha h \<longleftrightarrow>
     identitySchema h \<and> uuidV4Schema (rh_head_id h) \<and> positiveSafeIntegerSchema (rh_revision h) \<and>
     pred_option (recordBaselineSchema z sha) (rh_baseline h) \<and>
     pred_option (openRecordDraftSchema z sha) (rh_draft h) \<and>
     pred_option cardArtifactReferenceSchema (rh_accepted h) \<and>
     (rh_baseline h \<noteq> None \<longrightarrow> rh_draft h = None \<and> rh_accepted h = None) \<and>
     pred_option (\<lambda>d. d_target_version d = ref_version0 (rh_accepted h) + 1 \<and>
       (d_version d = 0 \<longrightarrow> rh_accepted h = None)) (rh_draft h) \<and>
     pred_option (\<lambda>r. ref_version r \<le> rh_revision h) (rh_accepted h)"

record accepted_artifact = record_identity +
  ra_entry_id :: string
  ra_version :: nat
  ra_published_at :: string
  ra_accepted :: accepted_snapshot
  ra_predecessor :: "artifact_ref option"

definition authoredRecordVersionArtifactSchema ::
    "zod \<Rightarrow> (string \<Rightarrow> string) \<Rightarrow> accepted_artifact \<Rightarrow> bool" where
  "authoredRecordVersionArtifactSchema z sha a \<longleftrightarrow>
     identitySchema a \<and> uuidV4Schema (ra_entry_id a) \<and> positiveSafeIntegerSchema (ra_version a) \<and>
     datetime z (ra_published_at a) \<and> acceptedRecordSnapshotSchema z sha (ra_accepted a) \<and>
     pred_option cardArtifactReferenceSchema (ra_predecessor a) \<and>
     ra_entry_id a = as_source_entry_id (ra_accepted a) \<and> ra_version a = as_source_version (ra_accepted a) \<and>
     ra_published_at a = as_committed_at (ra_accepted a) \<and>
     ra_version a = ref_version0 (ra_predecessor a) + 1 \<and>
     (as_author (ra_accepted a) = AuthorRepair \<longrightarrow>
        ra_version a = 1 \<and> ra_predecessor a = None \<and> as_card_version_seq (ra_accepted a) = 1 \<and>
        ref_version (as_card_history (ra_accepted a)) = 1)"

text \<open>\<open>isEligibleRecordContent\<close> and \<open>effectiveRecordContent\<close> (content, source, version).\<close>

definition isEligibleRecordContent :: "record_draft option \<Rightarrow> accepted_snapshot option \<Rightarrow> bool" where
  "isEligibleRecordContent d a = (case d of
     Some d \<Rightarrow> 0 < d_version d \<and> \<not> isEmptyRecordContent (d_content d)
   | None \<Rightarrow> (case a of None \<Rightarrow> False | Some a \<Rightarrow> \<not> isEmptyRecordContent (as_content a)))"

datatype content_source = FromDraft | FromBaseline | FromAccepted

definition effectiveRecordContent ::
    "record_baseline option \<Rightarrow> record_draft option \<Rightarrow> accepted_snapshot option \<Rightarrow>
     (string \<times> content_source \<times> string \<times> nat) option" where
  "effectiveRecordContent b d a = (case d of
     Some d \<Rightarrow> Some (d_content d, FromDraft, d_updated_at d, d_version d)
   | None \<Rightarrow> (case b of
       Some b \<Rightarrow> Some (b_content b, FromBaseline, b_created_at b, 0)
     | None \<Rightarrow> (case a of
         Some a \<Rightarrow> Some (as_content a, FromAccepted, as_committed_at a, as_source_version a)
       | None \<Rightarrow> None)))"

section \<open>The store\<close>

text \<open>The card store extended with record documents, opened conversations and the
  notifications (\<open>FreshnessEffects\<close>) that services emit.\<close>

datatype freshness_effect =
    CardScope string string
  | RecordScope string string
  | RuntimeChanged
  | AgentMembershipChanged string

record project_store = card_store +
  record_heads :: "string \<times> string \<rightharpoonup> record_head"
  previous_record_heads :: "string \<times> string \<rightharpoonup> record_head"
  accepted_records :: "string \<times> string \<rightharpoonup> accepted_artifact"
  conversations :: "string list"
  effects :: "freshness_effect list"

record record_definition =
  rd_filename :: string
  rd_format :: string
  rd_schema :: string
  rd_bootstrap :: bool
  rd_declared :: bool

section \<open>Reading records\<close>

definition exactIdentity :: "'a record_identity_scheme \<Rightarrow> string \<Rightarrow> record_definition \<Rightarrow> error + unit" where
  "exactIdentity v cardId definition =
     guardE (ri_card_id v = cardId \<and> ri_record_name v = rd_filename definition \<and>
         ri_format v = rd_format definition \<and> ri_schema v = rd_schema definition)
       (PlainError ''exact identity mismatch'' [cardId, rd_filename definition])"

definition decodeRecordHead ::
    "zod \<Rightarrow> (string \<Rightarrow> string) \<Rightarrow> string \<Rightarrow> record_definition \<Rightarrow> record_head \<Rightarrow> error + record_head" where
  "decodeRecordHead z sha cardId definition head =
     bindE (guardE (recordHeadSchema z sha head) (ZodError ''recordHead'')) (\<lambda>_.
     bindE (exactIdentity head cardId definition) (\<lambda>_.
     bindE (guardE (\<not> (rd_bootstrap definition \<and> rh_accepted head = None))
       (PlainError ''Bootstrap record has no accepted selection.'' [])) (\<lambda>_.
     Inr head)))"

definition readHead ::
    "zod \<Rightarrow> (string \<Rightarrow> string) \<Rightarrow> 'a project_store_scheme \<Rightarrow> string \<Rightarrow> record_definition \<Rightarrow> error + record_head option" where
  "readHead z sha st cardId definition = (case record_heads st (cardId, rd_filename definition) of
     None \<Rightarrow>
       if rd_bootstrap definition
       then Inl (PlainError ''Required bootstrap record missing.'' [cardId, rd_filename definition])
       else Inr None
   | Some data \<Rightarrow> bindE (decodeRecordHead z sha cardId definition data) (\<lambda>head. Inr (Some head)))"

definition readAccepted ::
    "zod \<Rightarrow> (string \<Rightarrow> string) \<Rightarrow> 'a project_store_scheme \<Rightarrow> string \<Rightarrow> record_definition \<Rightarrow> artifact_ref \<Rightarrow>
     error + accepted_artifact" where
  "readAccepted z sha st cardId definition reference =
     bindE (optionE (ENOENT ''accepted-record'') (accepted_records st (cardId, ref_entry_id reference))) (\<lambda>artifact.
     bindE (guardE (authoredRecordVersionArtifactSchema z sha artifact) (ZodError ''acceptedRecord'')) (\<lambda>_.
     bindE (exactIdentity artifact cardId definition) (\<lambda>_.
     bindE (guardE (ra_entry_id artifact = ref_entry_id reference \<and> ra_version artifact = ref_version reference)
       (PlainError ''Accepted record reference identity mismatch.'' [])) (\<lambda>_.
     bindE (guardE (\<not> (rd_bootstrap definition \<and> ra_predecessor artifact = None \<and>
         (ra_version artifact \<noteq> 1 \<or> is_action_output (as_author (ra_accepted artifact)))))
       (PlainError ''Invalid bootstrap accepted origin.'' [])) (\<lambda>_.
     bindE (guardE (\<not> (as_author (ra_accepted artifact) = AuthorBootstrap \<and>
         (\<not> rd_bootstrap definition \<or> ra_version artifact \<noteq> 1 \<or> ra_predecessor artifact \<noteq> None)))
       (PlainError ''Invalid runtime bootstrap acceptance.'' [])) (\<lambda>_.
     bindE (guardE (\<not> (rd_bootstrap definition \<and> is_action_output (as_author (ra_accepted artifact))))
       (PlainError ''Action output cannot author a bootstrap record.'' [])) (\<lambda>_.
     Inr artifact)))))))"

datatype record_state = RBaseline | ROpen | RClosed | REmpty

record record_projection =
  p_card_id :: string
  p_filename :: string
  p_revision :: nat
  p_head_id :: string
  p_state :: record_state
  p_baseline :: "record_baseline option"
  p_accepted :: "accepted_snapshot option"
  p_draft :: "record_draft option"

definition project :: "record_definition \<Rightarrow> record_head \<Rightarrow> accepted_snapshot option \<Rightarrow> record_projection" where
  "project definition head accepted =
     \<lparr>p_card_id = ri_card_id head, p_filename = rd_filename definition, p_revision = rh_revision head,
      p_head_id = rh_head_id head,
      p_state = (if rh_baseline head \<noteq> None then RBaseline else if rh_draft head \<noteq> None then ROpen
                 else if accepted \<noteq> None then RClosed else REmpty),
      p_baseline = rh_baseline head, p_accepted = accepted, p_draft = rh_draft head\<rparr>"

definition currentProjection ::
    "zod \<Rightarrow> (string \<Rightarrow> string) \<Rightarrow> 'a project_store_scheme \<Rightarrow> record_definition \<Rightarrow> record_head \<Rightarrow> error + record_projection" where
  "currentProjection z sha st definition head =
     bindE (case rh_accepted head of
         None \<Rightarrow> Inr None
       | Some r \<Rightarrow> bindE (readAccepted z sha st (ri_card_id head) definition r) (\<lambda>a. Inr (Some (ra_accepted a))))
     (\<lambda>accepted. Inr (project definition head accepted))"

datatype record_classification = Unclaimed | Empty | Present record_projection

definition classifyCurrentAuthoredRecord ::
    "zod \<Rightarrow> (string \<Rightarrow> string) \<Rightarrow> 'a project_store_scheme \<Rightarrow> string \<Rightarrow> record_definition \<Rightarrow> error + record_classification" where
  "classifyCurrentAuthoredRecord z sha st cardId definition =
     bindE (readHead z sha st cardId definition) (\<lambda>head. case head of
       Some h \<Rightarrow> bindE (currentProjection z sha st definition h) (\<lambda>p. Inr (Present p))
     | None \<Rightarrow> Inr (if rd_declared definition then Empty else Unclaimed))"

definition readCurrentAuthoredRecord ::
    "zod \<Rightarrow> (string \<Rightarrow> string) \<Rightarrow> 'a project_store_scheme \<Rightarrow> string \<Rightarrow> record_definition \<Rightarrow> error + record_projection option" where
  "readCurrentAuthoredRecord z sha st cardId definition =
     bindE (classifyCurrentAuthoredRecord z sha st cardId definition) (\<lambda>result. case result of
       Present p \<Rightarrow> Inr (Some p) | _ \<Rightarrow> Inr None)"

text \<open>The loop over predecessors; each step reads a strictly smaller document version.\<close>

function acceptedFrom ::
    "zod \<Rightarrow> (string \<Rightarrow> string) \<Rightarrow> 'a project_store_scheme \<Rightarrow> string \<Rightarrow> record_definition \<Rightarrow> nat option \<Rightarrow>
     artifact_ref option \<Rightarrow> error + accepted_artifact list" where
  "acceptedFrom z sha st cardId definition stopAt None = Inr []"
| "acceptedFrom z sha st cardId definition stopAt (Some selected) =
     bindE (readAccepted z sha st cardId definition selected) (\<lambda>artifact.
     if \<not> pred_option (\<lambda>v. \<not> ra_version artifact \<le> v) stopAt then Inr [artifact]
     else bindE (acceptedFrom z sha st cardId definition stopAt (ra_predecessor artifact)) (\<lambda>rows.
       Inr (artifact # rows)))"
  by pat_completeness auto
termination
proof (relation "measure (\<lambda>(z, sha, st, cardId, definition, stopAt, selected). ref_version0 selected)")
  fix z sha and st :: "'a project_store_scheme" and cardId dfn stopAt selected artifact
  assume "readAccepted z sha st cardId dfn selected = Inr artifact"
  then have "ra_version artifact = ref_version selected"
    "ra_version artifact = ref_version0 (ra_predecessor artifact) + 1"
    by (auto simp: readAccepted_def authoredRecordVersionArtifactSchema_def errE)
  then show "((z, sha, st, cardId, dfn, stopAt, ra_predecessor artifact),
      (z, sha, st, cardId, dfn, stopAt, Some selected))
    \<in> measure (\<lambda>(z, sha, st, cardId, dfn, stopAt, selected). ref_version0 selected)" by simp
qed simp

declare acceptedFrom.simps [simp del]

definition readAcceptedHistory ::
    "zod \<Rightarrow> (string \<Rightarrow> string) \<Rightarrow> 'a project_store_scheme \<Rightarrow> string \<Rightarrow> record_definition \<Rightarrow> nat option \<Rightarrow>
     error + accepted_artifact list" where
  "readAcceptedHistory z sha st cardId definition stopAt =
     bindE (readHead z sha st cardId definition) (\<lambda>head.
     acceptedFrom z sha st cardId definition stopAt (Option.bind head rh_accepted))"

definition readAuthoredRecordVersion ::
    "zod \<Rightarrow> (string \<Rightarrow> string) \<Rightarrow> 'a project_store_scheme \<Rightarrow> string \<Rightarrow> record_definition \<Rightarrow> nat \<Rightarrow>
     error + accepted_artifact option" where
  "readAuthoredRecordVersion z sha st cardId definition version =
     bindE (readAcceptedHistory z sha st cardId definition (Some version)) (\<lambda>rows.
     Inr (find (\<lambda>row. ra_version row = version) rows))"

definition readAuthoredRecordVersionPair ::
    "zod \<Rightarrow> (string \<Rightarrow> string) \<Rightarrow> 'a project_store_scheme \<Rightarrow> string \<Rightarrow> record_definition \<Rightarrow> nat \<Rightarrow> nat \<Rightarrow>
     error + accepted_artifact option \<times> accepted_artifact option" where
  "readAuthoredRecordVersionPair z sha st cardId definition fromV toV =
     bindE (readAcceptedHistory z sha st cardId definition (Some fromV)) (\<lambda>rows.
     Inr (find (\<lambda>row. ra_version row = fromV) rows, find (\<lambda>row. ra_version row = toV) rows))"

definition listAuthoredRecordVersions ::
    "zod \<Rightarrow> (string \<Rightarrow> string) \<Rightarrow> 'a project_store_scheme \<Rightarrow> string \<Rightarrow> record_definition \<Rightarrow> error + accepted_artifact list" where
  "listAuthoredRecordVersions z sha st cardId definition =
     bindE (readAcceptedHistory z sha st cardId definition None) (\<lambda>rows. Inr (rev rows))"

end
