(* ===== verification/RecordOperations.thy ===== *)
theory RecordOperations
  imports RecordFiles
begin

text \<open>
  The writes of \<^verbatim>\<open>src/persistence/authored-record-files.ts\<close>: open, edit, close, discard, accept and
  the initial records, with the laws of the record life cycle. Clock readings (\<open>now\<close>) and
  random identifiers (\<open>entryId\<close>, \<open>headId\<close>) are arguments.
\<close>

section \<open>Publication\<close>

definition publishRecordHead ::
    "record_definition \<Rightarrow> record_head \<Rightarrow> publication_mode \<Rightarrow> ('a project_store_scheme, unit) op" where
  "publishRecordHead definition head mode =
     (let k = (ri_card_id head, rd_filename definition) in
     bindS (modifyS (\<lambda>st. st\<lparr>previous_record_heads := (previous_record_heads st)(k := None)\<rparr>)) (\<lambda>_.
     bindS (if mode = Replacement then
              bindS (readS (\<lambda>st. optionE (ENOENT ''record-head'') (record_heads st k))) (\<lambda>current.
              modifyS (\<lambda>st. st\<lparr>previous_record_heads := (previous_record_heads st)(k \<mapsto> current)\<rparr>))
            else returnS ()) (\<lambda>_.
     modifyS (\<lambda>st. st\<lparr>record_heads := (record_heads st)(k \<mapsto> head)\<rparr>))))"

definition publishAcceptedDocument :: "string \<Rightarrow> accepted_artifact \<Rightarrow> ('a project_store_scheme, unit) op" where
  "publishAcceptedDocument cardId artifact =
     bindS (readS (\<lambda>st. guardE (accepted_records st (cardId, ra_entry_id artifact) = None)
       (PlainError ''File is already published.'' [ra_entry_id artifact]))) (\<lambda>_.
     modifyS (\<lambda>st. st\<lparr>accepted_records := (accepted_records st)((cardId, ra_entry_id artifact) \<mapsto> artifact)\<rparr>))"

definition parse_record_head :: "zod \<Rightarrow> (string \<Rightarrow> string) \<Rightarrow> record_head \<Rightarrow> error + record_head" where
  "parse_record_head z sha h = (if recordHeadSchema z sha h then Inr h else Inl (ZodError ''recordHead''))"

definition parse_accepted :: "zod \<Rightarrow> (string \<Rightarrow> string) \<Rightarrow> accepted_artifact \<Rightarrow> error + accepted_artifact" where
  "parse_accepted z sha a =
     (if authoredRecordVersionArtifactSchema z sha a then Inr a else Inl (ZodError ''acceptedRecord''))"

definition new_head ::
    "string \<Rightarrow> record_definition \<Rightarrow> string \<Rightarrow> nat \<Rightarrow> record_baseline option \<Rightarrow> record_draft option \<Rightarrow>
     artifact_ref option \<Rightarrow> record_head" where
  "new_head cardId definition headId revision baseline draft accepted =
     \<lparr>ri_card_id = cardId, ri_record_name = rd_filename definition, ri_format = rd_format definition,
      ri_schema = rd_schema definition, rh_head_id = headId, rh_revision = revision,
      rh_baseline = baseline, rh_draft = draft, rh_accepted = accepted\<rparr>"

definition new_draft :: "(string \<Rightarrow> string) \<Rightarrow> string \<Rightarrow> string \<Rightarrow> string \<Rightarrow> nat \<Rightarrow> nat \<Rightarrow> record_draft" where
  "new_draft sha stamp openedAt content version targetVersion =
     \<lparr>d_version = version, d_target_version = targetVersion, d_opened_at = openedAt, d_updated_at = stamp,
      d_content = content, d_sha256 = sha content\<rparr>"

abbreviation prior_accepted :: "record_head option \<Rightarrow> artifact_ref option" where
  "prior_accepted prior \<equiv> Option.bind prior rh_accepted"

abbreviation prior_baseline :: "record_head option \<Rightarrow> record_baseline option" where
  "prior_baseline prior \<equiv> Option.bind prior rh_baseline"

abbreviation prior_draft :: "record_head option \<Rightarrow> record_draft option" where
  "prior_draft prior \<equiv> Option.bind prior rh_draft"

abbreviation prior_revision :: "record_head option \<Rightarrow> nat" where
  "prior_revision prior \<equiv> (case prior of None \<Rightarrow> 0 | Some h \<Rightarrow> rh_revision h)"

abbreviation mode_of :: "record_head option \<Rightarrow> publication_mode" where
  "mode_of prior \<equiv> (if prior = None then Initial else Replacement)"

text \<open>The accepted snapshot behind a head that may be absent.\<close>

definition prior_snapshot ::
    "zod \<Rightarrow> (string \<Rightarrow> string) \<Rightarrow> 'a project_store_scheme \<Rightarrow> record_definition \<Rightarrow> record_head option \<Rightarrow>
     error + accepted_snapshot option" where
  "prior_snapshot z sha st definition prior = (case prior of
     None \<Rightarrow> Inr None
   | Some h \<Rightarrow> bindE (currentProjection z sha st definition h) (\<lambda>p. Inr (p_accepted p)))"

section \<open>Operations\<close>

definition openAuthoredRecord ::
    "zod \<Rightarrow> (string \<Rightarrow> string) \<Rightarrow> string \<Rightarrow> record_definition \<Rightarrow> string \<Rightarrow> string \<Rightarrow>
     ('a project_store_scheme, record_projection) op" where
  "openAuthoredRecord z sha cardId definition now headId =
     bindS (readS (\<lambda>st. readHead z sha st cardId definition)) (\<lambda>prior.
     if prior_draft prior \<noteq> None then readS (\<lambda>st. currentProjection z sha st definition (the prior))
     else
       bindS (readS (\<lambda>st. prior_snapshot z sha st definition prior)) (\<lambda>accepted.
       bindS (liftS (parse_record_head z sha
         (new_head cardId definition headId (prior_revision prior + 1) None
           (Some (new_draft sha now now
              (case prior_baseline prior of None \<Rightarrow> [] | Some b \<Rightarrow> b_content b)
              (if prior_baseline prior \<noteq> None then 0 else ref_version0 (prior_accepted prior) + 1)
              (ref_version0 (prior_accepted prior) + 1)))
           (prior_accepted prior)))) (\<lambda>head.
       bindS (publishRecordHead definition head (mode_of prior)) (\<lambda>_.
       returnS (project definition head accepted)))))"

definition initializeRecordBaseline ::
    "zod \<Rightarrow> (string \<Rightarrow> string) \<Rightarrow> string \<Rightarrow> record_definition \<Rightarrow> error + string \<Rightarrow> string \<Rightarrow> string \<Rightarrow>
     ('a project_store_scheme, record_projection) op" where
  "initializeRecordBaseline z sha cardId definition render now headId =
     bindS (readS (\<lambda>st. readHead z sha st cardId definition)) (\<lambda>prior. case prior of
       Some h \<Rightarrow> readS (\<lambda>st. currentProjection z sha st definition h)
     | None \<Rightarrow>
         bindS (liftS (guardE (\<not> rd_bootstrap definition)
           (PlainError ''Bootstrap records cannot have a template baseline.'' []))) (\<lambda>_.
         bindS (liftS render) (\<lambda>content.
         bindS (liftS (parse_record_head z sha (new_head cardId definition headId 1
           (Some \<lparr>b_created_at = now, b_content = content, b_sha256 = sha content\<rparr>) None None))) (\<lambda>head.
         bindS (publishRecordHead definition head Initial) (\<lambda>_.
         returnS (project definition head None))))))"

definition editOpenAuthoredRecord ::
    "zod \<Rightarrow> (string \<Rightarrow> string) \<Rightarrow> string \<Rightarrow> record_definition \<Rightarrow> string \<Rightarrow> string \<Rightarrow> string \<Rightarrow>
     ('a project_store_scheme, record_projection) op" where
  "editOpenAuthoredRecord z sha cardId definition content now headId =
     bindS (readS (\<lambda>st. readHead z sha st cardId definition)) (\<lambda>prior.
     case prior_draft prior of
       None \<Rightarrow> liftS (Inl (PlainError ''Record is not open.'' []))
     | Some d \<Rightarrow>
         bindS (readS (\<lambda>st. prior_snapshot z sha st definition prior)) (\<lambda>accepted.
         bindS (liftS (guardE (d_content d \<noteq> content)
           (PlainError ''Record open edit must change content.'' []))) (\<lambda>_.
         bindS (liftS (guardE (\<not> isEmptyRecordContent content)
           (PlainError ''Record content must not be empty.'' []))) (\<lambda>_.
         bindS (liftS (parse_record_head z sha ((the prior)
           \<lparr>rh_head_id := headId, rh_revision := rh_revision (the prior) + 1,
            rh_draft := Some (new_draft sha now (d_opened_at d) content (d_target_version d) (d_target_version d))\<rparr>))) (\<lambda>head.
         bindS (publishRecordHead definition head Replacement) (\<lambda>_.
         returnS (project definition head accepted)))))))"

definition publishAcceptance ::
    "zod \<Rightarrow> (string \<Rightarrow> string) \<Rightarrow> string \<Rightarrow> record_definition \<Rightarrow> record_head option \<Rightarrow> string \<Rightarrow> record_author \<Rightarrow>
     nat \<Rightarrow> artifact_ref \<Rightarrow> string \<Rightarrow> string \<Rightarrow> string \<Rightarrow> ('a project_store_scheme, record_projection) op" where
  "publishAcceptance z sha cardId definition prior content author cardVersionSeq cardHistory now entryId headId =
     bindS (liftS (guardE (\<not> isEmptyRecordContent content)
       (PlainError ''Record content must not be empty.'' []))) (\<lambda>_.
     let version = ref_version0 (prior_accepted prior) + 1 in
     bindS (liftS (parse_accepted z sha
       \<lparr>ri_card_id = cardId, ri_record_name = rd_filename definition, ri_format = rd_format definition,
        ri_schema = rd_schema definition, ra_entry_id = entryId, ra_version = version, ra_published_at = now,
        ra_accepted = \<lparr>as_source_version = version, as_source_entry_id = entryId, as_committed_at = now,
          as_author = author, as_card_version_seq = cardVersionSeq, as_card_history = cardHistory,
          as_content = content, as_sha256 = sha content, as_size_bytes = length content\<rparr>,
        ra_predecessor = prior_accepted prior\<rparr>)) (\<lambda>artifact.
     bindS (liftS (parse_record_head z sha
       (new_head cardId definition headId (prior_revision prior + 1) None None
         (Some \<lparr>ref_entry_id = ra_entry_id artifact, ref_version = ra_version artifact\<rparr>)))) (\<lambda>head.
     bindS (publishAcceptedDocument cardId artifact) (\<lambda>_.
     bindS (publishRecordHead definition head (mode_of prior)) (\<lambda>_.
     returnS (project definition head (Some (ra_accepted artifact))))))))"

text \<open>\<open>acceptanceCard\<close>: the observed revision and history reference of a live card.\<close>

definition acceptanceCard :: "current_selection \<Rightarrow> error + nat \<times> artifact_ref" where
  "acceptanceCard sel = (case s_head sel of
     CardVersion a \<Rightarrow> Inr (c_version_seq (s_card sel), \<lparr>ref_entry_id = av_entry_id a, ref_version = av_version a\<rparr>)
   | CardTombstone _ \<Rightarrow> Inl AuthoredRecordNotFoundError)"

definition acceptAuthoredRecord ::
    "zod \<Rightarrow> (string \<Rightarrow> string) \<Rightarrow> current_selection \<Rightarrow> record_definition \<Rightarrow> string \<Rightarrow> record_author \<Rightarrow>
     string \<Rightarrow> string \<Rightarrow> string \<Rightarrow> ('a project_store_scheme, record_projection) op" where
  "acceptAuthoredRecord z sha sel definition content author now entryId headId =
     (let cardId = c_id (s_card sel) in
     bindS (liftS (guardE (\<not> (rd_bootstrap definition \<and> is_action_output author))
       (PlainError ''Action output cannot author a bootstrap record.'' []))) (\<lambda>_.
     bindS (readS (\<lambda>st. readHead z sha st cardId definition)) (\<lambda>prior.
     bindS (liftS (guardE (prior_draft prior = None)
       (PlainError ''Record already has an open workflow draft.'' []))) (\<lambda>_.
     bindS (readS (\<lambda>st. prior_snapshot z sha st definition prior)) (\<lambda>accepted.
     bindS (liftS (guardE (\<not> (\<not> is_action_output author \<and>
         (case prior_baseline prior of Some b \<Rightarrow> Some (b_content b) | None \<Rightarrow> map_option as_content accepted) = Some content))
       (PlainError ''Record content is unchanged.'' []))) (\<lambda>_.
     bindS (liftS (acceptanceCard sel)) (\<lambda>(revision, history).
     publishAcceptance z sha cardId definition prior content author revision history now entryId headId)))))))"

definition closeOpenAuthoredRecord ::
    "zod \<Rightarrow> (string \<Rightarrow> string) \<Rightarrow> current_selection \<Rightarrow> record_definition \<Rightarrow> string \<Rightarrow>
     string \<Rightarrow> string \<Rightarrow> string \<Rightarrow> ('a project_store_scheme, record_projection) op" where
  "closeOpenAuthoredRecord z sha sel definition writer now entryId headId =
     (let cardId = c_id (s_card sel) in
     bindS (readS (\<lambda>st. readHead z sha st cardId definition)) (\<lambda>prior.
     case prior_draft prior of
       None \<Rightarrow> liftS (Inl (PlainError ''Record is not open.'' []))
     | Some d \<Rightarrow>
         bindS (liftS (guardE (isEligibleRecordContent (Some d) None)
           (PlainError ''Record draft is empty or document 0; authored content is required.'' []))) (\<lambda>_.
         bindS (liftS (acceptanceCard sel)) (\<lambda>(revision, history).
         publishAcceptance z sha cardId definition prior (d_content d) (AuthorCardAgent writer cardId)
           revision history now entryId headId))))"

definition discardOpenAuthoredRecord ::
    "zod \<Rightarrow> (string \<Rightarrow> string) \<Rightarrow> string \<Rightarrow> record_definition \<Rightarrow> string \<Rightarrow> ('a project_store_scheme, record_projection) op" where
  "discardOpenAuthoredRecord z sha cardId definition headId =
     bindS (readS (\<lambda>st. readHead z sha st cardId definition)) (\<lambda>prior.
     case prior_draft prior of
       None \<Rightarrow> liftS (Inl (PlainError ''Record is not open.'' []))
     | Some d \<Rightarrow>
         bindS (readS (\<lambda>st. prior_snapshot z sha st definition prior)) (\<lambda>accepted.
         bindS (liftS (parse_record_head z sha ((the prior)
           \<lparr>rh_head_id := headId, rh_revision := rh_revision (the prior) + 1, rh_draft := None\<rparr>))) (\<lambda>head.
         bindS (publishRecordHead definition head Replacement) (\<lambda>_.
         returnS (project definition head accepted)))))"

definition initializeAuthoredRecord ::
    "zod \<Rightarrow> (string \<Rightarrow> string) \<Rightarrow> string \<Rightarrow> record_definition \<Rightarrow> artifact_ref \<Rightarrow> record_author \<Rightarrow> string option \<Rightarrow>
     string \<Rightarrow> string \<Rightarrow> string \<Rightarrow> ('a project_store_scheme, record_projection option) op" where
  "initializeAuthoredRecord z sha cardId definition cardHistory author bootstrapContent now entryId headId =
     (case bootstrapContent of
        None \<Rightarrow> returnS None
      | Some content \<Rightarrow>
          bindS (liftS (guardE (rd_bootstrap definition)
            (PlainError ''Only the bootstrap record accepts bootstrap content.'' []))) (\<lambda>_.
          bindS (publishAcceptance z sha cardId definition None content author 1 cardHistory now entryId headId) (\<lambda>p.
          returnS (Some p))))"

definition initializeRepairAuthoredRecord ::
    "zod \<Rightarrow> (string \<Rightarrow> string) \<Rightarrow> string \<Rightarrow> record_definition \<Rightarrow> artifact_ref \<Rightarrow> string \<Rightarrow>
     string \<Rightarrow> string \<Rightarrow> string \<Rightarrow> ('a project_store_scheme, unit) op" where
  "initializeRepairAuthoredRecord z sha cardId definition cardHistory content now entryId headId =
     bindS (publishAcceptance z sha cardId definition None content AuthorRepair 1 cardHistory now entryId headId) (\<lambda>_.
     returnS ())"

end
