(* ===== verification/RecordLaws.thy ===== *)
theory RecordLaws
  imports RecordOperations
begin

text \<open>
  Laws of authored records: accepted documents are never replaced, every write reads back,
  accepted versions are consecutive from 1, and the draft life cycle.
\<close>

section \<open>Successful steps\<close>

lemma parse_record_head_Inr [errE]: "parse_record_head z sha h = Inr h' \<longleftrightarrow> h' = h \<and> recordHeadSchema z sha h"
  by (auto simp: parse_record_head_def)

lemma parse_accepted_Inr [errE]:
  "parse_accepted z sha a = Inr a' \<longleftrightarrow> a' = a \<and> authoredRecordVersionArtifactSchema z sha a"
  by (auto simp: parse_accepted_def)

lemma exactIdentity_Inr [errE]:
  "exactIdentity v cardId d = Inr u \<longleftrightarrow> ri_card_id v = cardId \<and> ri_record_name v = rd_filename d \<and>
     ri_format v = rd_format d \<and> ri_schema v = rd_schema d"
  by (simp add: exactIdentity_def errE)

lemma publishAcceptedDocument_iff [errE]:
  "publishAcceptedDocument i a st = (Inr u, st') \<longleftrightarrow>
     accepted_records st (i, ra_entry_id a) = None \<and>
     st' = st\<lparr>accepted_records := (accepted_records st)((i, ra_entry_id a) \<mapsto> a)\<rparr>"
  by (auto simp: publishAcceptedDocument_def errE)

lemma publishRecordHead_iff:
  "publishRecordHead d h mode st = (Inr u, st') \<longleftrightarrow>
     (mode = Replacement \<longrightarrow> record_heads st (ri_card_id h, rd_filename d) \<noteq> None) \<and>
     st' = st\<lparr>record_heads := (record_heads st)((ri_card_id h, rd_filename d) \<mapsto> h),
       previous_record_heads := (previous_record_heads st)
         ((ri_card_id h, rd_filename d) := (if mode = Replacement then record_heads st (ri_card_id h, rd_filename d) else None))\<rparr>"
  by (cases mode) (auto simp: publishRecordHead_def Let_def errE)

lemma readHead_Some_iff:
  "readHead z sha st i d = Inr (Some h) \<longleftrightarrow> record_heads st (i, rd_filename d) = Some h \<and>
     recordHeadSchema z sha h \<and> exactIdentity h i d = Inr () \<and> (rd_bootstrap d \<longrightarrow> rh_accepted h \<noteq> None)"
  by (auto simp: readHead_def decodeRecordHead_def errE split: option.splits if_splits)

lemma readHead_None_iff:
  "readHead z sha st i d = Inr None \<longleftrightarrow> record_heads st (i, rd_filename d) = None \<and> \<not> rd_bootstrap d"
  by (auto simp: readHead_def decodeRecordHead_def errE split: option.splits)

lemma readHead_present:
  "readHead z sha st i d = Inr prior \<Longrightarrow> record_heads st (i, rd_filename d) = prior"
  by (cases prior) (auto simp: readHead_Some_iff readHead_None_iff)

section \<open>Accepted documents only grow\<close>

definition records_grow :: "'a project_store_scheme \<Rightarrow> 'a project_store_scheme \<Rightarrow> bool" where
  "records_grow st st' \<longleftrightarrow> accepted_records st \<subseteq>\<^sub>m accepted_records st'"

interpretation rgrow: state_frame records_grow
  by unfold_locales (auto simp: records_grow_def intro: map_le_trans)

definition record_heads_outside :: "(string \<times> string) set \<Rightarrow> 'a project_store_scheme \<Rightarrow> 'a project_store_scheme \<Rightarrow> bool" where
  "record_heads_outside A st st' \<longleftrightarrow> (\<forall>k. k \<notin> A \<longrightarrow> record_heads st' k = record_heads st k)"

interpretation routside: state_frame "record_heads_outside A" for A
  by unfold_locales (auto simp: record_heads_outside_def)

text \<open>Record writes leave the card documents alone.\<close>

definition cards_same :: "'a project_store_scheme \<Rightarrow> 'a project_store_scheme \<Rightarrow> bool" where
  "cards_same st st' \<longleftrightarrow> heads st' = heads st \<and> previous_heads st' = previous_heads st \<and> history st' = history st \<and>
     mailbox st' = mailbox st \<and> namespaces st' = namespaces st"

interpretation csame: state_frame cards_same
  by unfold_locales (auto simp: cards_same_def)

lemma publishAcceptedDocument_grows: "keeps records_grow (publishAcceptedDocument i a)"
proof (rule keepsI)
  fix st r and st' :: "'a project_store_scheme"
  assume "publishAcceptedDocument i a st = (r, st')"
  then show "records_grow st st'"
    by (cases "accepted_records st (i, ra_entry_id a) = None")
       (auto simp: publishAcceptedDocument_def bindS_def readS_def modifyS_def records_grow_def map_le_def)
qed

lemma publishAcceptedDocument_outside: "keeps (record_heads_outside A) (publishAcceptedDocument i a)"
  unfolding publishAcceptedDocument_def
  by (intro routside.keeps_rules routside.keeps_modify) (simp add: record_heads_outside_def)

lemma publishAcceptedDocument_cards: "keeps cards_same (publishAcceptedDocument i a)"
  unfolding publishAcceptedDocument_def
  by (intro csame.keeps_rules csame.keeps_modify) (simp add: cards_same_def)

lemma publishRecordHead_grows: "keeps records_grow (publishRecordHead d h mode)"
  unfolding publishRecordHead_def Let_def
  by (intro rgrow.keeps_rules rgrow.keeps_modify) (simp_all add: records_grow_def)

lemma publishRecordHead_outside:
  "(ri_card_id h, rd_filename d) \<in> A \<Longrightarrow> keeps (record_heads_outside A) (publishRecordHead d h mode)"
  unfolding publishRecordHead_def Let_def
  by (intro routside.keeps_rules routside.keeps_modify) (auto simp: record_heads_outside_def)

lemma publishRecordHead_cards: "keeps cards_same (publishRecordHead d h mode)"
  unfolding publishRecordHead_def Let_def
  by (intro csame.keeps_rules csame.keeps_modify) (simp_all add: cards_same_def)

lemmas record_write_grows = publishAcceptedDocument_grows publishRecordHead_grows
lemmas record_write_cards = publishAcceptedDocument_cards publishRecordHead_cards

text \<open>All record operations at once.\<close>

lemmas record_op_defs = openAuthoredRecord_def initializeRecordBaseline_def editOpenAuthoredRecord_def
  publishAcceptance_def acceptAuthoredRecord_def closeOpenAuthoredRecord_def discardOpenAuthoredRecord_def
  initializeAuthoredRecord_def initializeRepairAuthoredRecord_def Let_def

lemma publishAcceptance_grows: "keeps records_grow (publishAcceptance z sha i d prior ct au vs ch now e hId)"
  unfolding publishAcceptance_def Let_def by (intro rgrow.keeps_rules record_write_grows)

lemma publishAcceptance_cards: "keeps cards_same (publishAcceptance z sha i d prior ct au vs ch now e hId)"
  unfolding publishAcceptance_def Let_def by (intro csame.keeps_rules record_write_cards)

lemma publishAcceptance_outside:
  "keeps (record_heads_outside {(i, rd_filename d)}) (publishAcceptance z sha i d prior ct au vs ch now e hId)"
  unfolding publishAcceptance_def Let_def
  by (intro routside.keeps_rules publishAcceptedDocument_outside publishRecordHead_outside)
     (auto simp: errE new_head_def)

lemma keeps_case_prod: "(\<And>a b. keeps R (f a b)) \<Longrightarrow> keeps R (case p of (a, b) \<Rightarrow> f a b)"
  by (cases p) simp

lemma record_ops_grow:
  "keeps records_grow (openAuthoredRecord z sha i d now hId)"
  "keeps records_grow (initializeRecordBaseline z sha i d render now hId)"
  "keeps records_grow (editOpenAuthoredRecord z sha i d ct now hId)"
  "keeps records_grow (acceptAuthoredRecord z sha sel d ct au now e hId)"
  "keeps records_grow (closeOpenAuthoredRecord z sha sel d w now e hId)"
  "keeps records_grow (discardOpenAuthoredRecord z sha i d hId)"
  "keeps records_grow (initializeAuthoredRecord z sha i d r au bc now e hId)"
  "keeps records_grow (initializeRepairAuthoredRecord z sha i d r ct now e hId)"
  unfolding openAuthoredRecord_def initializeRecordBaseline_def editOpenAuthoredRecord_def acceptAuthoredRecord_def
    closeOpenAuthoredRecord_def discardOpenAuthoredRecord_def initializeAuthoredRecord_def
    initializeRepairAuthoredRecord_def Let_def
  by (intro rgrow.keeps_rules keeps_case_prod record_write_grows publishAcceptance_grows)+

lemma record_ops_cards:
  "keeps cards_same (openAuthoredRecord z sha i d now hId)"
  "keeps cards_same (initializeRecordBaseline z sha i d render now hId)"
  "keeps cards_same (editOpenAuthoredRecord z sha i d ct now hId)"
  "keeps cards_same (acceptAuthoredRecord z sha sel d ct au now e hId)"
  "keeps cards_same (closeOpenAuthoredRecord z sha sel d w now e hId)"
  "keeps cards_same (discardOpenAuthoredRecord z sha i d hId)"
  "keeps cards_same (initializeAuthoredRecord z sha i d r au bc now e hId)"
  "keeps cards_same (initializeRepairAuthoredRecord z sha i d r ct now e hId)"
  unfolding openAuthoredRecord_def initializeRecordBaseline_def editOpenAuthoredRecord_def acceptAuthoredRecord_def
    closeOpenAuthoredRecord_def discardOpenAuthoredRecord_def initializeAuthoredRecord_def
    initializeRepairAuthoredRecord_def Let_def
  by (intro csame.keeps_rules keeps_case_prod record_write_cards publishAcceptance_cards)+

section \<open>Reading accepted documents\<close>

lemma readAccepted_Inr:
  assumes "readAccepted z sha st i d r = Inr a"
  shows "accepted_records st (i, ref_entry_id r) = Some a" "authoredRecordVersionArtifactSchema z sha a"
    "ra_version a = ref_version r" "ra_entry_id a = ref_entry_id r"
    "ra_version a = ref_version0 (ra_predecessor a) + 1"
  using assms by (auto simp: readAccepted_def errE authoredRecordVersionArtifactSchema_def)

lemma readAccepted_mono:
  assumes "records_grow st st'" and "readAccepted z sha st i d r = Inr a"
  shows "readAccepted z sha st' i d r = Inr a"
proof -
  have "accepted_records st' (i, ref_entry_id r) = Some a"
    using assms(1) readAccepted_Inr(1) [OF assms(2)] by (auto simp: records_grow_def map_le_def dom_def)
  with assms(2) readAccepted_Inr(1) [OF assms(2)] show ?thesis by (auto simp: readAccepted_def errE)
qed

lemma acceptedFrom_None: "acceptedFrom z sha st i d stop None = Inr []"
  by (simp add: acceptedFrom.simps)

lemma acceptedFrom_Some:
  "acceptedFrom z sha st i d stop (Some r) = Inr rows \<longleftrightarrow>
     (\<exists>a. readAccepted z sha st i d r = Inr a \<and>
        (if pred_option (\<lambda>v. \<not> ra_version a \<le> v) stop
         then \<exists>rest. acceptedFrom z sha st i d stop (ra_predecessor a) = Inr rest \<and> rows = a # rest
         else rows = [a]))"
  by (subst acceptedFrom.simps) (auto simp: bindE_Inr_iff)

lemma acceptedFrom_mono:
  "acceptedFrom z sha st i d stop r = Inr rows \<Longrightarrow> records_grow st st' \<Longrightarrow> acceptedFrom z sha st' i d stop r = Inr rows"
proof (induction z sha st i d stop r arbitrary: rows rule: acceptedFrom.induct)
  case (2 z sha st i d stop r)
  then obtain a where a: "readAccepted z sha st i d r = Inr a" by (auto simp: acceptedFrom_Some)
  have a': "readAccepted z sha st' i d r = Inr a" by (rule readAccepted_mono [OF "2.prems"(2) a])
  show ?case
  proof (cases "pred_option (\<lambda>v. \<not> ra_version a \<le> v) stop")
    case True
    with "2.prems"(1) a obtain rest where "acceptedFrom z sha st i d stop (ra_predecessor a) = Inr rest" "rows = a # rest"
      by (auto simp: acceptedFrom_Some)
    moreover from this True a "2.prems"(2) have "acceptedFrom z sha st' i d stop (ra_predecessor a) = Inr rest"
      by (intro "2.IH") auto
    ultimately show ?thesis using a' True by (auto simp: acceptedFrom_Some)
  next
    case False
    then show ?thesis using "2.prems"(1) a a' by (auto simp: acceptedFrom_Some)
  qed
qed (simp add: acceptedFrom_None)

text \<open>Accepted versions count down from the selected one to 1.\<close>

lemma acceptedFrom_versions:
  "acceptedFrom z sha st i d None r = Inr rows \<Longrightarrow> map ra_version rows = rev [1..<Suc (ref_version0 r)]"
proof (induction z sha st i d "None :: nat option" r arbitrary: rows rule: acceptedFrom.induct)
  case (2 z sha st i d r)
  then obtain a rest where a: "readAccepted z sha st i d r = Inr a"
      "acceptedFrom z sha st i d None (ra_predecessor a) = Inr rest" "rows = a # rest"
    by (auto simp: acceptedFrom_Some)
  then have "map ra_version rest = rev [1..<Suc (ref_version0 (ra_predecessor a))]"
    using "2.hyps" by simp
  moreover have "ref_version r = Suc (ref_version0 (ra_predecessor a))" "ra_version a = ref_version r"
    using readAccepted_Inr(3,5) [OF a(1)] by simp_all
  ultimately show ?case using a(3) by simp
qed (simp add: acceptedFrom_None)

text \<open>Stopping early reads a prefix of the full history.\<close>

lemma acceptedFrom_stop:
  "acceptedFrom z sha st i d None r = Inr rows \<Longrightarrow> 1 \<le> v \<Longrightarrow>
   acceptedFrom z sha st i d (Some v) r = Inr (take (Suc (ref_version0 r - v)) rows)"
proof (induction z sha st i d "None :: nat option" r arbitrary: rows rule: acceptedFrom.induct)
  case (2 z sha st i d r)
  then obtain a rest where a: "readAccepted z sha st i d r = Inr a"
      "acceptedFrom z sha st i d None (ra_predecessor a) = Inr rest" "rows = a # rest"
    by (auto simp: acceptedFrom_Some)
  then have IH: "acceptedFrom z sha st i d (Some v) (ra_predecessor a) =
      Inr (take (Suc (ref_version0 (ra_predecessor a) - v)) rest)"
    using "2.hyps" "2.prems"(2) by simp
  have v: "ref_version r = Suc (ref_version0 (ra_predecessor a))" "ra_version a = ref_version r"
    using readAccepted_Inr(3,5) [OF a(1)] by simp_all
  show ?case
  proof (cases "ra_version a \<le> v")
    case True
    then show ?thesis using a v by (simp add: acceptedFrom_Some)
  next
    case False
    then have "Suc (ref_version0 (ra_predecessor a) - v) = ref_version r - v" using v by simp
    with False a IH show ?thesis by (simp add: acceptedFrom_Some)
  qed
qed (simp add: acceptedFrom_None)

section \<open>An acceptance reads back\<close>

abbreviation accepted_doc ::
    "(string \<Rightarrow> string) \<Rightarrow> string \<Rightarrow> record_definition \<Rightarrow> record_head option \<Rightarrow> string \<Rightarrow> record_author \<Rightarrow> nat \<Rightarrow>
     artifact_ref \<Rightarrow> string \<Rightarrow> string \<Rightarrow> accepted_artifact" where
  "accepted_doc sha i d prior ct au vs ch now e \<equiv>
     \<lparr>ri_card_id = i, ri_record_name = rd_filename d, ri_format = rd_format d,
      ri_schema = rd_schema d, ra_entry_id = e, ra_version = ref_version0 (prior_accepted prior) + 1,
      ra_published_at = now,
      ra_accepted = \<lparr>as_source_version = ref_version0 (prior_accepted prior) + 1, as_source_entry_id = e,
        as_committed_at = now, as_author = au, as_card_version_seq = vs, as_card_history = ch,
        as_content = ct, as_sha256 = sha ct, as_size_bytes = length ct\<rparr>,
      ra_predecessor = prior_accepted prior\<rparr>"

abbreviation accepted_head :: "string \<Rightarrow> record_definition \<Rightarrow> record_head option \<Rightarrow> string \<Rightarrow> string \<Rightarrow> record_head" where
  "accepted_head i d prior e hId \<equiv> new_head i d hId (prior_revision prior + 1) None None
     (Some \<lparr>ref_entry_id = e, ref_version = ref_version0 (prior_accepted prior) + 1\<rparr>)"

lemma publishAcceptance_Inr:
  assumes "publishAcceptance z sha i d prior ct au vs ch now e hId st = (Inr p, st')"
  shows "\<not> isEmptyRecordContent ct"
    "authoredRecordVersionArtifactSchema z sha (accepted_doc sha i d prior ct au vs ch now e)"
    "recordHeadSchema z sha (accepted_head i d prior e hId)" "accepted_records st (i, e) = None"
    "p = project d (accepted_head i d prior e hId) (Some (ra_accepted (accepted_doc sha i d prior ct au vs ch now e)))"
    "record_heads st' (i, rd_filename d) = Some (accepted_head i d prior e hId)"
    "accepted_records st' = (accepted_records st)((i, e) \<mapsto> accepted_doc sha i d prior ct au vs ch now e)"
  using assms by (auto simp: publishAcceptance_def Let_def errE publishRecordHead_iff new_head_def)

text \<open>The authors a reader admits for a document after \<open>prior\<close>.\<close>

definition author_readable :: "record_definition \<Rightarrow> record_head option \<Rightarrow> record_author \<Rightarrow> bool" where
  "author_readable d prior au \<longleftrightarrow> \<not> (rd_bootstrap d \<and> is_action_output au) \<and>
     (au = AuthorBootstrap \<longrightarrow> rd_bootstrap d \<and> prior_accepted prior = None)"

lemma new_head_sel [simp]:
  "ri_card_id (new_head i d hId r b dr a) = i" "ri_record_name (new_head i d hId r b dr a) = rd_filename d"
  "ri_format (new_head i d hId r b dr a) = rd_format d" "ri_schema (new_head i d hId r b dr a) = rd_schema d"
  "rh_head_id (new_head i d hId r b dr a) = hId" "rh_revision (new_head i d hId r b dr a) = r"
  "rh_baseline (new_head i d hId r b dr a) = b" "rh_draft (new_head i d hId r b dr a) = dr"
  "rh_accepted (new_head i d hId r b dr a) = a"
  by (simp_all add: new_head_def)

lemma publishAcceptance_reads:
  assumes pub: "publishAcceptance z sha i d prior ct au vs ch now e hId st = (Inr p, st')"
    and au: "author_readable d prior au"
  shows "readCurrentAuthoredRecord z sha st' i d = Inr (Some p)"
    and "acceptedFrom z sha st i d None (prior_accepted prior) = Inr rows \<Longrightarrow>
      readAcceptedHistory z sha st' i d None = Inr (accepted_doc sha i d prior ct au vs ch now e # rows)"
proof -
  let ?doc = "accepted_doc sha i d prior ct au vs ch now e" and ?h = "accepted_head i d prior e hId"
  note p = publishAcceptance_Inr [OF pub]
  have doc: "readAccepted z sha st' i d \<lparr>ref_entry_id = e, ref_version = ref_version0 (prior_accepted prior) + 1\<rparr> = Inr ?doc"
    using p(2,7) au
    by (cases "prior_accepted prior") (auto simp: readAccepted_def exactIdentity_def author_readable_def)
  have head: "readHead z sha st' i d = Inr (Some ?h)"
    using p(3,6) by (simp add: readHead_Some_iff exactIdentity_def)
  then show "readCurrentAuthoredRecord z sha st' i d = Inr (Some p)"
    using doc p(5) by (simp add: readCurrentAuthoredRecord_def classifyCurrentAuthoredRecord_def currentProjection_def)
  assume "acceptedFrom z sha st i d None (prior_accepted prior) = Inr rows"
  then have "acceptedFrom z sha st' i d None (prior_accepted prior) = Inr rows"
    using keepsD [OF publishAcceptance_grows pub] by (rule acceptedFrom_mono)
  with head doc show "readAcceptedHistory z sha st' i d None = Inr (?doc # rows)"
    by (simp add: readAcceptedHistory_def acceptedFrom_Some)
qed

lemma acceptAuthoredRecord_Inr:
  assumes "acceptAuthoredRecord z sha sel d ct au now e hId st = (Inr p, st')"
  obtains prior a where "readHead z sha st (c_id (s_card sel)) d = Inr prior" "prior_draft prior = None"
    "s_head sel = CardVersion a" "\<not> (rd_bootstrap d \<and> is_action_output au)"
    "publishAcceptance z sha (c_id (s_card sel)) d prior ct au (c_version_seq (s_card sel))
       \<lparr>ref_entry_id = av_entry_id a, ref_version = av_version a\<rparr> now e hId st = (Inr p, st')"
  using assms by (auto simp: acceptAuthoredRecord_def acceptanceCard_def Let_def errE split: card_artifact.splits)

lemma closeOpenAuthoredRecord_Inr:
  assumes "closeOpenAuthoredRecord z sha sel d w now e hId st = (Inr p, st')"
  obtains h dr a where "readHead z sha st (c_id (s_card sel)) d = Inr (Some h)" "rh_draft h = Some dr"
    "0 < d_version dr" "\<not> isEmptyRecordContent (d_content dr)" "s_head sel = CardVersion a"
    "publishAcceptance z sha (c_id (s_card sel)) d (Some h) (d_content dr) (AuthorCardAgent w (c_id (s_card sel)))
       (c_version_seq (s_card sel)) \<lparr>ref_entry_id = av_entry_id a, ref_version = av_version a\<rparr> now e hId st = (Inr p, st')"
proof -
  from assms obtain prior dr where "readHead z sha st (c_id (s_card sel)) d = Inr prior" "prior_draft prior = Some dr"
    by (auto simp: closeOpenAuthoredRecord_def Let_def errE split: option.splits)
  with assms that show thesis
    by (cases prior) (auto simp: closeOpenAuthoredRecord_def acceptanceCard_def isEligibleRecordContent_def Let_def errE
        split: card_artifact.splits)
qed

section \<open>Drafts\<close>

lemma openAuthoredRecord_Inr:
  assumes "openAuthoredRecord z sha i d now hId st = (Inr p, st')"
    and "readHead z sha st i d = Inr prior" and "prior_draft prior = None"
  obtains h dr where "record_heads st' (i, rd_filename d) = Some h" "recordHeadSchema z sha h"
    "exactIdentity h i d = Inr ()" "rh_draft h = Some dr" "rh_baseline h = None"
    "rh_accepted h = prior_accepted prior" "rh_revision h = prior_revision prior + 1"
    "d_version dr = 0 \<or> d_content dr = []" "d_target_version dr = ref_version0 (prior_accepted prior) + 1"
    "d_content dr = (case prior_baseline prior of None \<Rightarrow> [] | Some b \<Rightarrow> b_content b)"
    "accepted_records st' = accepted_records st"
proof -
  let ?dr = "new_draft sha now now (case prior_baseline prior of None \<Rightarrow> [] | Some b \<Rightarrow> b_content b)
      (if prior_baseline prior \<noteq> None then 0 else ref_version0 (prior_accepted prior) + 1)
      (ref_version0 (prior_accepted prior) + 1)"
  let ?h = "new_head i d hId (prior_revision prior + 1) None (Some ?dr) (prior_accepted prior)"
  have run: "recordHeadSchema z sha ?h \<and> publishRecordHead d ?h (mode_of prior) st = (Inr (), st')"
    using assms by (auto simp: openAuthoredRecord_def errE)
  then have "record_heads st' (i, rd_filename d) = Some ?h" "accepted_records st' = accepted_records st"
    by (auto simp: publishRecordHead_iff)
  moreover have "d_version ?dr = 0 \<or> d_content ?dr = []"
    by (auto simp: new_draft_def split: option.splits)
  ultimately show thesis
    using that [of ?h ?dr] run by (simp add: exactIdentity_def new_draft_def)
qed

lemma readHead_of_publication:
  assumes "record_heads st (i, rd_filename d) = Some h" "recordHeadSchema z sha h" "exactIdentity h i d = Inr ()"
    and "rd_bootstrap d \<longrightarrow> rh_accepted h \<noteq> None"
  shows "readHead z sha st i d = Inr (Some h)"
  using assms by (simp add: readHead_Some_iff)

lemma editOpenAuthoredRecord_Inr:
  assumes "editOpenAuthoredRecord z sha i d ct now hId st = (Inr p, st')"
  obtains h dr h' where "readHead z sha st i d = Inr (Some h)" "rh_draft h = Some dr" "d_content dr \<noteq> ct"
    "\<not> isEmptyRecordContent ct" "readHead z sha st' i d = Inr (Some h')"
    "h' = h\<lparr>rh_head_id := hId, rh_revision := rh_revision h + 1,
            rh_draft := Some (new_draft sha now (d_opened_at dr) ct (d_target_version dr) (d_target_version dr))\<rparr>"
    "accepted_records st' = accepted_records st"
proof -
  from assms obtain prior dr where pr: "readHead z sha st i d = Inr prior" "prior_draft prior = Some dr"
    by (auto simp: editOpenAuthoredRecord_def errE split: option.splits)
  then obtain h where h: "prior = Some h" "rh_draft h = Some dr" by (cases prior) auto
  let ?h' = "h\<lparr>rh_head_id := hId, rh_revision := rh_revision h + 1,
            rh_draft := Some (new_draft sha now (d_opened_at dr) ct (d_target_version dr) (d_target_version dr))\<rparr>"
  have run: "d_content dr \<noteq> ct" "\<not> isEmptyRecordContent ct" "recordHeadSchema z sha ?h'"
      "publishRecordHead d ?h' Replacement st = (Inr (), st')"
    using assms pr h by (auto simp: editOpenAuthoredRecord_def errE)
  have "exactIdentity ?h' i d = Inr ()" "rd_bootstrap d \<longrightarrow> rh_accepted ?h' \<noteq> None" "ri_card_id h = i"
    using pr h by (auto simp: readHead_Some_iff exactIdentity_def errE)
  with run have "readHead z sha st' i d = Inr (Some ?h')" "accepted_records st' = accepted_records st"
    by (auto simp: readHead_Some_iff publishRecordHead_iff)
  with that pr h run show thesis by blast
qed

lemma discardOpenAuthoredRecord_Inr:
  assumes "discardOpenAuthoredRecord z sha i d hId st = (Inr p, st')"
  obtains h dr where "readHead z sha st i d = Inr (Some h)" "rh_draft h = Some dr"
    "readHead z sha st' i d = Inr (Some (h\<lparr>rh_head_id := hId, rh_revision := rh_revision h + 1, rh_draft := None\<rparr>))"
    "accepted_records st' = accepted_records st"
proof -
  from assms obtain prior dr where pr: "readHead z sha st i d = Inr prior" "prior_draft prior = Some dr"
    by (auto simp: discardOpenAuthoredRecord_def errE split: option.splits)
  then obtain h where h: "prior = Some h" "rh_draft h = Some dr" by (cases prior) auto
  let ?h' = "h\<lparr>rh_head_id := hId, rh_revision := rh_revision h + 1, rh_draft := None\<rparr>"
  have run: "recordHeadSchema z sha ?h'" "publishRecordHead d ?h' Replacement st = (Inr (), st')"
    using assms pr h by (auto simp: discardOpenAuthoredRecord_def errE)
  have "exactIdentity ?h' i d = Inr ()" "rd_bootstrap d \<longrightarrow> rh_accepted ?h' \<noteq> None" "ri_card_id h = i"
    using pr h by (auto simp: readHead_Some_iff exactIdentity_def errE)
  with run have "readHead z sha st' i d = Inr (Some ?h')" "accepted_records st' = accepted_records st"
    by (auto simp: readHead_Some_iff publishRecordHead_iff)
  with that pr h show thesis by blast
qed

end
