(* ===== verification/CardBirth.thy ===== *)
theory CardBirth
  imports CardPublication RecordLaws
begin

text \<open>
  Birth of cards (\<^verbatim>\<open>src/persistence/card-files.ts\<close>): claiming a child namespace, the bootstrap records
  and conversations of a new card, and its first version. Creating a directory fails when it
  exists (\<open>EEXIST\<close>); the namespace directory of a card is what claims its identity.
\<close>

section \<open>Compiled workflows\<close>

text \<open>
  What the card services use of \<open>CompiledCardTypeWorkflow\<close>: the card type, its records in
  declaration order, the permitted child types and the states, of which only the nodes run by
  an agent with a card session matter here.
\<close>

datatype workflow_state = CardAgentNode string | OtherState

record compiled_workflow =
  w_card_type :: string
  w_records :: "record_definition list"
  w_permitted :: "string list"
  w_states :: "workflow_state list"

definition record_definitions :: "compiled_workflow \<Rightarrow> record_definition list" where
  "record_definitions w = map (\<lambda>r. r\<lparr>rd_declared := True\<rparr>) (w_records w)"

text \<open>A \<open>Set\<close> iterates in the order of first insertion.\<close>

definition agent_names :: "compiled_workflow \<Rightarrow> string list" where
  "agent_names w =
     rev (remdups (rev (concat (map (\<lambda>s. case s of CardAgentNode n \<Rightarrow> [n] | OtherState \<Rightarrow> []) (w_states w)))))"

record new_child_input =
  in_type :: string
  in_parent :: string
  in_title :: string
  in_bootstrap_content :: string
  in_bootstrap_author :: record_author
  in_priority :: int
  in_urgency :: urgency
  in_created_by :: string
  in_depends_on :: "string list"

text \<open>Clock readings and random identifiers of one birth; \<open>bi_record\<close> serves each record.\<close>

record birth_ids =
  bi_stamp :: string
  bi_entry :: string
  bi_head :: string
  bi_record :: "string \<Rightarrow> string \<times> string \<times> string"

section \<open>Claiming a namespace\<close>

definition EEXIST :: "string \<Rightarrow> error" where
  "EEXIST what = PlainError ''EEXIST'' [what]"

text \<open>The ids that the loop may still try from \<open>segment\<close> on and that are taken.\<close>

definition taken_from :: "string \<Rightarrow> string \<Rightarrow> string list \<Rightarrow> string set" where
  "taken_from parentId segment taken =
     {i \<in> set taken. \<exists>s. cardSegmentSchema s \<and> segment_value segment \<le> segment_value s \<and> childCardId parentId s = Inr i}"

lemma childCardId_inject:
  assumes "childCardId p s = Inr i" and "childCardId p t = Inr i"
  shows "s = t"
proof -
  have "cardIdSchema p" using assms(1) by (auto simp: childCardId_def errE)
  then obtain ss where ss: "card_path ss" "p = card_id_of ss" by (auto simp: cardIdSchema_iff)
  then have "card_path (ss @ [s])" "card_path (ss @ [t])" "card_id_of (ss @ [s]) = card_id_of (ss @ [t])"
    using assms by (auto simp: childCardId_path card_path_snoc)
  then show ?thesis using card_id_of_inject [of "ss @ [s]" "ss @ [t]"] by simp
qed

lemma taken_from_decreases:
  assumes "childCardId p s = Inr i" and "i \<in> set taken" and "nextCardSegment (Some s) = Inr t"
  shows "card (taken_from p t taken) < card (taken_from p s taken)"
proof (rule psubset_card_mono)
  show "finite (taken_from p s taken)" by (simp add: taken_from_def)
  have s: "cardSegmentSchema s" using assms(1) by (auto simp: childCardId_def errE)
  then have t: "segment_value t = segment_value s + 1" using nextCardSegment_Some [OF s] assms(3) by auto
  have "i \<in> taken_from p s taken" using assms s by (auto simp: taken_from_def)
  moreover have "i \<notin> taken_from p t taken"
    using t childCardId_inject [OF assms(1)] by (auto simp: taken_from_def)
  ultimately show "taken_from p t taken \<subset> taken_from p s taken"
    using t by (auto simp: taken_from_def)
qed

function claimFrom :: "string \<Rightarrow> string list \<Rightarrow> string \<Rightarrow> error + string" where
  "claimFrom parentId taken segment =
     bindE (childCardId parentId segment) (\<lambda>i.
     if i \<notin> set taken then Inr i
     else bindE (nextCardSegment (Some segment)) (claimFrom parentId taken))"
  by pat_completeness auto
termination
  by (relation "measure (\<lambda>(parentId, taken, segment). card (taken_from parentId segment taken))")
     (auto intro: taken_from_decreases)

declare claimFrom.simps [simp del]

definition claimChildNamespace :: "string \<Rightarrow> ('a project_store_scheme, string) op" where
  "claimChildNamespace parentId =
     bindS (readS (\<lambda>st. guardE (parentId \<in> set (namespaces st)) (ENOENT ''card-namespace''))) (\<lambda>_.
     bindS (readS (\<lambda>st. bindE (nextCardSegment None) (claimFrom parentId (namespaces st)))) (\<lambda>i.
     bindS (modifyS (\<lambda>st. st\<lparr>namespaces := namespaces st @ [i]\<rparr>)) (\<lambda>_.
     returnS i)))"

section \<open>Conversations\<close>

text \<open>
  For the birth of a card a conversation is only its session identity, claimed once; its files are
  modelled in \<open>ConversationFiles\<close>.
\<close>

definition initializeConversation :: "string \<Rightarrow> ('a project_store_scheme, unit) op" where
  "initializeConversation sessionId =
     bindS (liftS (guardE (conversationSessionIdSchema sessionId) (ZodError ''conversationSessionId''))) (\<lambda>_.
     bindS (readS (\<lambda>st. guardE (sessionId \<notin> set (conversations st)) (EEXIST ''conversation''))) (\<lambda>_.
     modifyS (\<lambda>st. st\<lparr>conversations := conversations st @ [sessionId]\<rparr>)))"

definition cardAgentSessionId :: "string \<Rightarrow> string \<Rightarrow> string" where
  "cardAgentSessionId agentName cardId = ''agent:'' @ agentName @ '':'' @ cardId"

definition initializeCardConversations :: "string \<Rightarrow> compiled_workflow \<Rightarrow> ('a project_store_scheme, unit) op" where
  "initializeCardConversations cardId workflow =
     forS (\<lambda>name. initializeConversation (cardAgentSessionId name cardId)) (agent_names workflow)"

section \<open>First publication\<close>

definition publishInitialCardState ::
    "zod \<Rightarrow> (string \<Rightarrow> string) \<Rightarrow> card_record \<Rightarrow> string \<Rightarrow> record_definition list \<Rightarrow> record_author \<Rightarrow> birth_ids \<Rightarrow>
     ('a project_store_scheme, unit) op" where
  "publishInitialCardState z sha c bootstrapContent definitions author ids =
     bindS (forS (\<lambda>d. case bi_record ids (rd_filename d) of (now, e, h) \<Rightarrow>
         bindS (initializeAuthoredRecord z sha (c_id c) d \<lparr>ref_entry_id = bi_entry ids, ref_version = 1\<rparr> author
           (if rd_bootstrap d then Some bootstrapContent else None) now e h) (\<lambda>_. returnS ()))
       definitions) (\<lambda>_.
     bindS (publishInitialVersion z c (bi_entry ids) (bi_head ids)) (\<lambda>_.
     returnS ()))"

definition new_child_card :: "new_child_input \<Rightarrow> string \<Rightarrow> string \<Rightarrow> card_record" where
  "new_child_card input i stamp =
     \<lparr>c_git = None, c_id = i, c_type = in_type input, c_child_membership = [], c_active_child_order = [],
      c_title = in_title input, c_priority = in_priority input, c_urgency = in_urgency input,
      c_created_by = in_created_by input, c_created_at = stamp, c_depends_on = in_depends_on input,
      c_lifecycle = LBacklog, c_status_text = None, c_status_text_updated_at = None,
      c_updated_at = stamp, c_version_seq = 1, c_pending_notifications = []\<rparr>"

definition publishInitialChildCard ::
    "zod \<Rightarrow> (string \<Rightarrow> string) \<Rightarrow> new_child_input \<Rightarrow> compiled_workflow \<Rightarrow> birth_ids \<Rightarrow> ('a project_store_scheme, card_record) op" where
  "publishInitialChildCard z sha input workflow ids =
     bindS (liftS (guardE (w_card_type workflow = in_type input)
       (PlainError ''Compiled workflow does not match child type'' [w_card_type workflow, in_type input]))) (\<lambda>_.
     bindS (claimChildNamespace (in_parent input)) (\<lambda>i.
     bindS (liftS (cardParentId i)) (\<lambda>parent.
     bindS (liftS (guardE (parent = Some (in_parent input))
       (PlainError ''Claimed card does not belong to requested parent'' [i, in_parent input]))) (\<lambda>_.
     bindS (liftS (parse_card z (new_child_card input i (bi_stamp ids)))) (\<lambda>c.
     bindS (initializeCardConversations i workflow) (\<lambda>_.
     bindS (publishInitialCardState z sha c (in_bootstrap_content input) (record_definitions workflow)
         (in_bootstrap_author input) ids) (\<lambda>_.
     returnS c)))))))"

definition prepareInitialProjectDirectories :: "compiled_workflow \<Rightarrow> ('a project_store_scheme, unit) op" where
  "prepareInitialProjectDirectories workflow =
     bindS (liftS (guardE (w_card_type workflow = ''project'')
       (PlainError ''Initial project preparation requires the compiled project workflow.'' []))) (\<lambda>_.
     bindS (readS (\<lambda>st. guardE (''project'' \<notin> set (namespaces st)) (EEXIST ''card-namespace''))) (\<lambda>_.
     bindS (modifyS (\<lambda>st. st\<lparr>namespaces := namespaces st @ [''project'']\<rparr>)) (\<lambda>_.
     initializeCardConversations ''project'' workflow)))"

definition initial_project_card :: "string \<Rightarrow> git_facts option \<Rightarrow> string \<Rightarrow> card_record" where
  "initial_project_card title git stamp =
     \<lparr>c_git = git, c_id = ''project'', c_type = ''project'', c_child_membership = [], c_active_child_order = [],
      c_title = title, c_priority = 0, c_urgency = Normal, c_created_by = ''runtime:bootstrap'',
      c_created_at = stamp, c_depends_on = [], c_lifecycle = LBacklog, c_status_text = None,
      c_status_text_updated_at = None, c_updated_at = stamp, c_version_seq = 1, c_pending_notifications = []\<rparr>"

definition publishInitialProjectCard ::
    "zod \<Rightarrow> (string \<Rightarrow> string) \<Rightarrow> string \<Rightarrow> string \<Rightarrow> compiled_workflow \<Rightarrow> git_facts option \<Rightarrow> birth_ids \<Rightarrow>
     ('a project_store_scheme, unit) op" where
  "publishInitialProjectCard z sha title bootstrapContent workflow git ids =
     bindS (liftS (guardE (w_card_type workflow = ''project'')
       (PlainError ''Initial project publication requires the compiled project workflow.'' []))) (\<lambda>_.
     bindS (liftS (guardE (\<not> is_blank bootstrapContent)
       (PlainError ''Project bootstrap_content must contain non-whitespace Markdown.'' []))) (\<lambda>_.
     bindS (liftS (parse_card z (initial_project_card title git (bi_stamp ids)))) (\<lambda>c.
     publishInitialCardState z sha c bootstrapContent (record_definitions workflow) AuthorBootstrap ids)))"

text \<open>
  The publications of \<open>publishInitialProjectRuntime\<close> (\<^verbatim>\<open>src/boot/project-runtime-bootstrap.ts\<close>): the root must be
  absent; directories and conversations come first, the project card last. \<open>git\<close> is the outcome
  of the native commissioning that runs in between.
\<close>

definition publishInitialProjectRuntime ::
    "zod \<Rightarrow> (string \<Rightarrow> string) \<Rightarrow> string \<Rightarrow> string \<Rightarrow> string \<Rightarrow> compiled_workflow \<Rightarrow> error + git_facts option \<Rightarrow> birth_ids \<Rightarrow>
     ('a project_store_scheme, unit) op" where
  "publishInitialProjectRuntime z sha title bootstrapContent analyst workflow git ids =
     bindS (readS (\<lambda>st. guardE (''project'' \<notin> set (namespaces st))
       (PlainError ''Initial publication requires an absent root, not retained-state adoption.'' []))) (\<lambda>_.
     bindS (prepareInitialProjectDirectories workflow) (\<lambda>_.
     bindS (initializeConversation (''agent:'' @ analyst @ '':global'')) (\<lambda>_.
     bindS (liftS git) (\<lambda>g.
     publishInitialProjectCard z sha title bootstrapContent workflow g ids))))"

end
