(* ===== verification/CardTree.thy ===== *)
theory CardTree
  imports CardLinks
begin

text \<open>
  Traversal of the active tree (\<open>walkActivePreorder\<close> and its readers in
  \<^verbatim>\<open>src/persistence/card-files.ts\<close>), the dependency validator \<^verbatim>\<open>src/cards/validator.ts\<close> and the index
  \<^verbatim>\<open>src/cards/card-index.ts\<close>. The recursion of the walk ends because each child is one level deeper and
  card identities have at most \<open>MAX_CARD_DEPTH\<close> segments.
\<close>

section \<open>Depth of children\<close>

definition depth_of :: "string \<Rightarrow> nat" where
  "depth_of i = (case cardDepth i of Inl _ \<Rightarrow> 0 | Inr d \<Rightarrow> d)"

lemma depth_of_child:
  assumes "childCardId p s = Inr i"
  shows "depth_of i = Suc (depth_of p)" "depth_of i \<le> MAX_CARD_DEPTH"
proof -
  have "cardIdSchema p" using assms by (auto simp: childCardId_def errE)
  then obtain ss where "card_path ss" "p = card_id_of ss" by (auto simp: cardIdSchema_iff)
  then show "depth_of i = Suc (depth_of p)" "depth_of i \<le> MAX_CARD_DEPTH"
    using assms by (auto simp: childCardId_path card_path_snoc depth_of_def)
qed

lemma select_child_Inr:
  "select_child p children i = Inr sel \<Longrightarrow> sel \<in> set children \<and> c_id (s_card sel) = i"
  by (auto simp: select_child_def errE find_Some_iff) (metis in_set_conv_nth length_rev set_rev)

lemma readCanonicalChildren_child:
  assumes "readCanonicalChildrenOfReached z st p parent = Inr children" and "child \<in> set children"
  shows "\<exists>i s. i \<in> set (c_child_membership (s_card parent)) \<and> readExactCard z st i = Inr child \<and>
     childCardId p s = Inr i \<and> \<not> s_tombstone child \<and> c_id (s_card child) = i"
proof -
  obtain byId where byId: "readMembershipChildrenOfReached z st p parent = Inr byId"
      and child: "child \<in> set byId" "\<not> s_tombstone child"
    using assms by (auto simp: readCanonicalChildrenOfReached_def bindE_Inr_iff dest!: mapE_set select_child_Inr)
  from mapE_set [OF byId(1) [unfolded readMembershipChildrenOfReached_def] child(1)] obtain i s where
    i: "i \<in> set (c_child_membership (s_card parent))" "childCardId p s = Inr i" "readExactCard z st i = Inr child"
    by (auto simp: errE)
  then have "c_id (s_card child) = i" using child(2) by (auto elim: readExactCard_version)
  with i child show ?thesis by blast
qed

section \<open>The walk\<close>

record traversal_row =
  t_card :: card_record
  t_head_id :: string
  t_ordinary :: artifact_ref
  t_parent_id :: "string option"
  t_children_count :: nat
  t_relative_depth :: nat
  t_descendant_count :: nat

text \<open>\<open>visit\<close> of \<open>walkActivePreorder\<close>: the rows of the subtree and the returned descendant count.\<close>

function visit :: "zod \<Rightarrow> 'a card_store_scheme \<Rightarrow> current_selection \<Rightarrow> nat \<Rightarrow> error + traversal_row list \<times> nat" where
  "visit z st sel depth =
     bindE (readCanonicalChildrenOfReached z st (c_id (s_card sel)) sel) (\<lambda>children.
     bindE (cardParentId (c_id (s_card sel))) (\<lambda>parentId.
     bindE (mapE (\<lambda>child. visit z st child (depth + 1)) children) (\<lambda>subtrees.
     let descendants = sum_list (map (\<lambda>(rows, n). 1 + n) subtrees) in
     Inr (\<lparr>t_card = s_card sel, t_head_id = h_head_id (s_selection sel), t_ordinary = h_ordinary (s_selection sel),
           t_parent_id = parentId, t_children_count = length children, t_relative_depth = depth,
           t_descendant_count = descendants\<rparr> # concat (map fst subtrees), descendants))))"
  by pat_completeness auto
termination
proof (relation "measure (\<lambda>(z, st, sel, depth). MAX_CARD_DEPTH - depth_of (c_id (s_card sel)))")
  fix z and st :: "'a card_store_scheme" and sel depth children parentId child
  assume "readCanonicalChildrenOfReached z st (c_id (s_card sel)) sel = Inr children" "child \<in> set children"
  then obtain i s where "childCardId (c_id (s_card sel)) s = Inr i" "c_id (s_card child) = i"
    using readCanonicalChildren_child by blast
  then have "depth_of (c_id (s_card child)) = Suc (depth_of (c_id (s_card sel)))"
      "depth_of (c_id (s_card child)) \<le> MAX_CARD_DEPTH"
    using depth_of_child by auto
  then show "((z, st, child, depth + 1), (z, st, sel, depth)) \<in>
      measure (\<lambda>(z, st, sel, depth). MAX_CARD_DEPTH - depth_of (c_id (s_card sel)))" by simp
qed simp

declare visit.simps [simp del]

definition walkActivePreorder :: "zod \<Rightarrow> 'a card_store_scheme \<Rightarrow> current_selection \<Rightarrow> error + traversal_row list" where
  "walkActivePreorder z st root = bindE (visit z st root 0) (\<lambda>(rows, _). Inr rows)"

section \<open>Dependency validation\<close>

abbreviation lookup_card :: "card_record list \<Rightarrow> string \<Rightarrow> card_record option" where
  "lookup_card cards i \<equiv> find (\<lambda>c. c_id c = i) (rev cards)"

text \<open>
  \<open>visitDependencies\<close> over a list of ids, with \<open>dependencyStack\<close> (innermost first) and
  \<open>visitedDependencies\<close> (in the order they were added).
\<close>

function visitDependencies ::
    "card_record list \<Rightarrow> string list \<Rightarrow> string list \<Rightarrow> string list \<Rightarrow> error + string list" where
  "visitDependencies cards stack visited [] = Inr visited"
| "visitDependencies cards stack visited (i # rest) =
     (if i \<in> set stack
      then Inl (CardServiceInvariantError ''Card dependency graph contains a cycle'' [i])
      else if i \<in> set visited then visitDependencies cards stack visited rest
      else (case lookup_card cards i of
        None \<Rightarrow> Inl (PlainError ''TypeError'' [])
      | Some c \<Rightarrow>
          bindE (visitDependencies cards (i # stack) visited (c_depends_on c)) (\<lambda>visited'.
          visitDependencies cards stack (visited' @ [i]) rest)))"
  by pat_completeness auto
termination
proof (relation "measures [\<lambda>(cards, stack, visited, ids). card (c_id ` set cards - set stack),
    \<lambda>(cards, stack, visited, ids). length ids]")
  fix cards stack visited i rest c
  assume "i \<notin> set stack" "i \<notin> set visited" "lookup_card cards i = Some (c :: card_record)"
  then have "i \<in> c_id ` set cards" by (auto simp: find_Some_iff) (metis image_eqI length_rev nth_mem set_rev)
  with \<open>i \<notin> set stack\<close> have "card (c_id ` set cards - insert i (set stack)) < card (c_id ` set cards - set stack)"
    by (intro psubset_card_mono) auto
  then show "((cards, i # stack, visited, c_depends_on c), (cards, stack, visited, i # rest))
    \<in> measures [\<lambda>(cards, stack, visited, ids). card (c_id ` set cards - set stack),
        \<lambda>(cards, stack, visited, ids). length ids]" by simp
qed simp_all

definition validateParsedCards :: "card_record list \<Rightarrow> error + unit" where
  "validateParsedCards cards =
     bindE (mapE (\<lambda>c. mapE (\<lambda>dep. guardE (lookup_card cards dep \<noteq> None)
         (CardServiceInvariantError ''depends_on missing card'' [c_id c, dep])) (c_depends_on c)) cards) (\<lambda>_.
     bindE (visitDependencies cards [] [] (map c_id cards)) (\<lambda>_.
     Inr ()))"

definition listActiveCardTraversal :: "zod \<Rightarrow> 'a card_store_scheme \<Rightarrow> error + traversal_row list" where
  "listActiveCardTraversal z st =
     bindE (readRoot z st) (\<lambda>root. case root of
       None \<Rightarrow> Inr []
     | Some root \<Rightarrow>
         bindE (walkActivePreorder z st root) (\<lambda>rows.
         bindE (validateParsedCards (map t_card rows)) (\<lambda>_.
         Inr rows)))"

definition readActiveCardSubtree :: "zod \<Rightarrow> 'a card_store_scheme \<Rightarrow> string \<Rightarrow> error + traversal_row list option" where
  "readActiveCardSubtree z st cardId =
     bindE (readActiveCardFold z st cardId) (\<lambda>reached. case reached of
       None \<Rightarrow> Inr None
     | Some target \<Rightarrow> bindE (walkActivePreorder z st target) (\<lambda>rows. Inr (Some rows)))"

definition listCards :: "zod \<Rightarrow> 'a card_store_scheme \<Rightarrow> error + card_record list" where
  "listCards z st = bindE (listActiveCardTraversal z st) (\<lambda>rows. Inr (map t_card rows))"

section \<open>The card index\<close>

text \<open>
  \<open>CardIndex\<close> keeps a \<open>Map\<close>: insertion order, a second \<open>set\<close> of a key keeps its place. In
  \<open>descendantsOf\<close> the set \<open>visited\<close> and the list \<open>result\<close> always hold the same ids; the model keeps
  \<open>result\<close>. The stack is written with its top first.
\<close>

type_synonym card_index = "card_record list"

definition index_get :: "card_index \<Rightarrow> string \<Rightarrow> card_record option" where
  "index_get idx i = find (\<lambda>c. c_id c = i) idx"

fun index_upsert :: "card_index \<Rightarrow> card_record \<Rightarrow> card_index" where
  "index_upsert [] c = [c]"
| "index_upsert (x # xs) c = (if c_id x = c_id c then c # xs else x # index_upsert xs c)"

definition childrenOf :: "card_index \<Rightarrow> string \<Rightarrow> string list" where
  "childrenOf idx parentId = (case index_get idx parentId of
     Some parent \<Rightarrow> filter (\<lambda>i. index_get idx i \<noteq> None) (c_active_child_order parent)
   | None \<Rightarrow> [])"

function descend :: "card_index \<Rightarrow> string list \<Rightarrow> string list \<Rightarrow> string list" where
  "descend idx result [] = result"
| "descend idx result (i # rest) =
     (if i \<in> set result then descend idx result rest
      else descend idx (result @ [i]) (childrenOf idx i @ rest))"
  by pat_completeness auto
termination
proof (relation "measures [\<lambda>(idx, result, stack). card (c_id ` set idx - set result),
    \<lambda>(idx, result, stack). length stack]")
  fix idx :: card_index and result :: "string list" and i rest
  assume i: "i \<notin> set result"
  show "((idx, result @ [i], childrenOf idx i @ rest), (idx, result, i # rest))
    \<in> measures [\<lambda>(idx, result, stack). card (c_id ` set idx - set result), \<lambda>(idx, result, stack). length stack]"
  proof (cases "index_get idx i")
    case None
    then have "i \<notin> c_id ` set idx" by (auto simp: index_get_def find_None_iff)
    then have "c_id ` set idx - insert i (set result) = c_id ` set idx - set result" by auto
    with None show ?thesis by (simp add: childrenOf_def)
  next
    case (Some c)
    then have "i \<in> c_id ` set idx" by (auto simp: index_get_def find_Some_iff)
    with i have "card (c_id ` set idx - insert i (set result)) < card (c_id ` set idx - set result)"
      by (intro psubset_card_mono) auto
    then show ?thesis by simp
  qed
qed simp_all

definition descendantsOf :: "card_index \<Rightarrow> string \<Rightarrow> string list" where
  "descendantsOf idx parentId = descend idx [] (childrenOf idx parentId)"

end
