(* ===== verification/CardGraph.thy ===== *)
theory CardGraph
  imports CardTree
begin

text \<open>
  The dependency validator decides exactly: it accepts a list of cards when every dependency is
  in the list and the dependency graph is acyclic, and throws \<open>CardServiceInvariantError\<close>
  otherwise. The walk of the active tree is total on intact linked stores.
\<close>

section \<open>The dependency graph\<close>

definition dep_edges :: "card_record list \<Rightarrow> (string \<times> string) set" where
  "dep_edges cards = {(i, d). \<exists>c. lookup_card cards i = Some c \<and> d \<in> set (c_depends_on c)}"

text \<open>A list in which every card comes after its dependencies.\<close>

definition topological :: "(string \<times> string) set \<Rightarrow> string list \<Rightarrow> bool" where
  "topological E vs \<longleftrightarrow> (\<forall>us i ws. vs = us @ i # ws \<longrightarrow> E `` {i} \<subseteq> set us)"

lemma topological_Nil [simp]: "topological E []"
  by (simp add: topological_def)

lemma topological_snoc: "topological E vs \<Longrightarrow> E `` {i} \<subseteq> set vs \<Longrightarrow> topological E (vs @ [i])"
  unfolding topological_def by (metis append_butlast_last_id butlast.simps(2) butlast_append last_appendR last_snoc
      butlast_snoc list.distinct(1) last.simps)

lemma topological_acyclic:
  assumes "topological E vs" and "Domain E \<subseteq> set vs"
  shows "acyclic E"
proof -
  define idx where "idx i = length (takeWhile (\<lambda>x. x \<noteq> i) vs)" for i
  have "idx d < idx i" if "(i, d) \<in> E" for i d
  proof -
    have "i \<in> set vs" using assms(2) that by blast
    then obtain us ws where v: "vs = us @ i # ws" "i \<notin> set us" by (metis split_list_first)
    then have d: "d \<in> set us" using assms(1) that unfolding topological_def by blast
    have "takeWhile (\<lambda>x. x \<noteq> i) us = us" using v(2) by (simp add: takeWhile_eq_all_conv) blast
    then have "idx i = length us" using v by (simp add: idx_def)
    moreover have "idx d < length us"
    proof -
      have "takeWhile (\<lambda>x. x \<noteq> d) vs = takeWhile (\<lambda>x. x \<noteq> d) us" using v(1) d by simp
      moreover have "length (takeWhile (\<lambda>x. x \<noteq> d) us) < length us"
        using d by (metis (mono_tags, lifting) length_takeWhile_le nat_less_le takeWhile_eq_all_conv takeWhile_eq_take take_all)
      ultimately show ?thesis by (simp add: idx_def)
    qed
    ultimately show ?thesis by simp
  qed
  then have "E\<inverse> \<subseteq> measure idx" by auto
  then have "wf (E\<inverse>)" by (rule wf_subset [rotated]) simp
  then show ?thesis by (metis wf_acyclic acyclic_converse)
qed

lemma visitDependencies_visited:
  assumes "visitDependencies cards stack visited ids = Inr visited'" and "topological (dep_edges cards) visited"
  shows "topological (dep_edges cards) visited' \<and> set visited \<union> set ids \<subseteq> set visited'"
  using assms
proof (induction cards stack visited ids arbitrary: visited' rule: visitDependencies.induct)
  case (1 cards stack visited)
  then show ?case by simp
next
  case (2 cards stack visited i rest)
  show ?case
  proof (cases "i \<in> set visited")
    case True
    with 2 show ?thesis by (auto split: if_splits)
  next
    case False
    with "2.prems"(1) obtain c v where c: "i \<notin> set stack" "lookup_card cards i = Some c"
        "visitDependencies cards (i # stack) visited (c_depends_on c) = Inr v"
        "visitDependencies cards stack (v @ [i]) rest = Inr visited'"
      by (auto simp: errE split: if_splits option.splits)
    then have v: "topological (dep_edges cards) v" "set visited \<union> set (c_depends_on c) \<subseteq> set v"
      using "2.IH"(2) [OF c(1) False c(2,3) "2.prems"(2)] by blast+
    have "dep_edges cards `` {i} = set (c_depends_on c)" using c(2) by (auto simp: dep_edges_def)
    with v have "topological (dep_edges cards) (v @ [i])" by (intro topological_snoc) auto
    then show ?thesis using "2.IH"(3) [OF c(1) False c(2,3) c(4)] v by auto
  qed
qed

lemma lookup_card_Some_iff: "lookup_card cards i \<noteq> None \<longleftrightarrow> i \<in> c_id ` set cards"
  by (auto simp: find_None_iff)

text \<open>The stack is a path of dependency edges, innermost first.\<close>

fun dep_path :: "(string \<times> string) set \<Rightarrow> string list \<Rightarrow> bool" where
  "dep_path E (a # b # xs) \<longleftrightarrow> (b, a) \<in> E \<and> dep_path E (b # xs)"
| "dep_path E _ \<longleftrightarrow> True"

lemma dep_path_reaches: "dep_path E (a # xs) \<Longrightarrow> b \<in> set (a # xs) \<Longrightarrow> (b, a) \<in> E\<^sup>*"
proof (induction E "a # xs" arbitrary: a xs rule: dep_path.induct)
  case (1 E a b' xs)
  then show ?case by (auto intro: rtrancl_into_rtrancl)
qed auto

lemma visitDependencies_error:
  assumes "visitDependencies cards stack visited ids = Inl e"
    and "\<forall>i \<in> set ids. lookup_card cards i \<noteq> None"
    and "Range (dep_edges cards) \<subseteq> c_id ` set cards"
    and "dep_path (dep_edges cards) stack" and "\<forall>a as. stack = a # as \<longrightarrow> (\<forall>i \<in> set ids. (a, i) \<in> dep_edges cards)"
  shows "\<exists>i. e = CardServiceInvariantError ''Card dependency graph contains a cycle'' [i] \<and> (i, i) \<in> (dep_edges cards)\<^sup>+"
  using assms
proof (induction cards stack visited ids rule: visitDependencies.induct)
  case (1 cards stack visited)
  then show ?case by simp
next
  case (2 cards stack visited i rest)
  consider (cycle) "i \<in> set stack" | (seen) "i \<notin> set stack" "i \<in> set visited" | (new) "i \<notin> set stack" "i \<notin> set visited"
    by blast
  then show ?case
  proof cases
    case cycle
    then obtain a as where as: "stack = a # as" by (cases stack) auto
    then have "(i, a) \<in> (dep_edges cards)\<^sup>*" "(a, i) \<in> dep_edges cards"
      using cycle "2.prems"(4,5) dep_path_reaches by auto
    then have "(i, i) \<in> (dep_edges cards)\<^sup>+" by (rule rtrancl_into_trancl1)
    with cycle "2.prems"(1) show ?thesis by auto
  next
    case seen
    with 2 show ?thesis by auto
  next
    case new
    from "2.prems"(2) obtain c where c: "lookup_card cards i = Some c" by auto
    have edges: "\<forall>d \<in> set (c_depends_on c). (i, d) \<in> dep_edges cards" using c by (auto simp: dep_edges_def)
    show ?thesis
    proof (cases "visitDependencies cards (i # stack) visited (c_depends_on c)")
      case (Inl e')
      have "\<forall>d \<in> set (c_depends_on c). lookup_card cards d \<noteq> None"
        unfolding lookup_card_Some_iff using edges "2.prems"(3) by blast
      moreover have "dep_path (dep_edges cards) (i # stack)"
        using "2.prems"(4,5) by (cases stack) auto
      ultimately show ?thesis
        using "2.IH"(2) [OF new c _ _ "2.prems"(3)] Inl "2.prems"(1) new c edges by auto
    next
      case (Inr v)
      with 2 new c show ?thesis by auto
    qed
  qed
qed

lemma validateParsedCards_iff:
  "validateParsedCards cards = Inr () \<longleftrightarrow>
     (\<forall>c \<in> set cards. set (c_depends_on c) \<subseteq> c_id ` set cards) \<and> acyclic (dep_edges cards)" (is "?l \<longleftrightarrow> ?deps \<and> _")
proof -
  let ?m = "mapE (\<lambda>c. mapE (\<lambda>dep. guardE (lookup_card cards dep \<noteq> None)
         (CardServiceInvariantError ''depends_on missing card'' [c_id c, dep])) (c_depends_on c)) cards"
  have deps: "(\<exists>ys. ?m = Inr ys) \<longleftrightarrow> ?deps"
    unfolding mapE_succeeds_iff guardE_Inr_iff lookup_card_Some_iff by auto
  show ?thesis
  proof (cases ?deps)
    case False
    then have "\<not> (\<exists>ys. ?m = Inr ys)" using deps by blast
    with False show ?thesis by (auto simp: validateParsedCards_def bindE_Inr_iff)
  next
    case True
    then obtain ys where ys: "?m = Inr ys" using deps by blast
    have range: "Range (dep_edges cards) \<subseteq> c_id ` set cards"
    proof
      fix d assume "d \<in> Range (dep_edges cards)"
      then obtain i c where "lookup_card cards i = Some c" "d \<in> set (c_depends_on c)" by (auto simp: dep_edges_def)
      moreover from this have "c \<in> set cards" by (auto simp: find_Some_iff) (metis nth_mem length_rev set_rev)
      ultimately show "d \<in> c_id ` set cards" using True by blast
    qed
    have dom: "Domain (dep_edges cards) \<subseteq> c_id ` set cards"
      using lookup_card_Some_iff [of _ cards] by (fastforce simp: dep_edges_def)
    show ?thesis
    proof (cases "visitDependencies cards [] [] (map c_id cards)")
      case (Inl e)
      then have "\<not> acyclic (dep_edges cards)"
        using visitDependencies_error [OF Inl _ range] lookup_card_Some_iff [of _ cards] by (auto simp: acyclic_def)
      with Inl ys show ?thesis by (simp add: validateParsedCards_def)
    next
      case (Inr v)
      then have "topological (dep_edges cards) v" "set (map c_id cards) \<subseteq> set v"
        using visitDependencies_visited by fastforce+
      moreover from this dom have "Domain (dep_edges cards) \<subseteq> set v" by auto
      ultimately have "acyclic (dep_edges cards)" by (intro topological_acyclic)
      with Inr ys True show ?thesis by (simp add: validateParsedCards_def)
    qed
  qed
qed

section \<open>Children\<close>

lemma readExactCard_tombstone:
  assumes "readExactCard z st i = Inr sel" and "s_head sel = CardTombstone t"
  shows "s_card sel = final_card t"
  using assms readExactCard_head(2) [OF assms(1)] readExactCard_head(1) [OF assms(1)]
  by (cases sel) (auto simp: readExactCard_def decodeCurrent_def errE)

lemma readExactCard_id:
  assumes "readExactCard z st i = Inr sel"
  shows "c_id (s_card sel) = i"
proof (cases "s_tombstone sel")
  case True
  note head = readExactCard_head [OF assms]
  from True obtain t where t: "s_head sel = CardTombstone t" by (cases "s_head sel") auto
  have "s_card sel = final_card t" using assms t by (rule readExactCard_tombstone)
  then show ?thesis
    using readArtifact_Inr(2,3) [OF head(2)] t by (simp add: final_card_def cardTombstoneArtifactSchema_def)
qed (use assms in \<open>auto elim: readExactCard_version\<close>)

lemma readExactCard_schema:
  assumes "readExactCard z st i = Inr sel"
  shows "cardRecordSchema z (s_card sel)"
proof (cases "s_tombstone sel")
  case True
  note head = readExactCard_head [OF assms]
  from True obtain t where t: "s_head sel = CardTombstone t" by (cases "s_head sel") auto
  have "s_card sel = final_card t" using assms t by (rule readExactCard_tombstone)
  then show ?thesis
    using readArtifact_Inr(2) [OF head(2)] t by (simp add: cardTombstoneArtifactSchema_def)
qed (use assms in \<open>auto elim: readExactCard_version\<close>)

text \<open>The ids a valid card names as its children are children by construction.\<close>

lemma member_is_child:
  assumes "cardRecordSchema z c" and "i \<in> set (c_child_membership c)"
  shows "\<exists>ss s. card_path ss \<and> c_id c = card_id_of ss \<and> i = card_id_of (ss @ [s]) \<and> card_path (ss @ [s])"
proof -
  have "cardParentId i = Inr (Some (c_id c))" using assms by (rule card_child_parent)
  moreover have "cardIdSchema i" using assms by (auto simp: cardRecordSchema_defs list_all_iff)
  then obtain ps where ps: "card_path ps" "i = card_id_of ps" by (auto simp: cardIdSchema_iff)
  ultimately have "ps \<noteq> []" "c_id c = card_id_of (butlast ps)" by (auto split: if_splits)
  with ps show ?thesis
    by (intro exI [of _ "butlast ps"] exI [of _ "last ps"]) (auto simp: card_path_butlast)
qed

lemma member_segments:
  assumes "cardRecordSchema z c" and "i \<in> set (c_child_membership c)"
  shows "\<exists>segments s. cardIdSegments i = Inr segments \<and> at_last segments = Some s \<and> childCardId (c_id c) s = Inr i"
proof -
  obtain ss s where "card_path ss" "c_id c = card_id_of ss" "i = card_id_of (ss @ [s])" "card_path (ss @ [s])"
    using member_is_child [OF assms] by blast
  then show ?thesis by (auto simp: childCardId_path card_path_snoc)
qed

lemma readMembershipChildren_iff:
  assumes "cardRecordSchema z (s_card parent)" and "c_id (s_card parent) = p"
  shows "readMembershipChildrenOfReached z st p parent = Inr sels \<longleftrightarrow>
    list_all2 (\<lambda>i sel. readExactCard z st i = Inr sel) (c_child_membership (s_card parent)) sels"
proof -
  have "mapE (\<lambda>i. bindE (cardIdSegments i) (\<lambda>segments.
       bindE (optionE (PlainError ''TypeError'' []) (at_last segments)) (\<lambda>segment.
       bindE (childCardId p segment) (\<lambda>expected.
       bindE (guardE (expected = i) (PlainError ''has invalid direct child'' [p, i])) (\<lambda>_.
       readExactCard z st i)))))
     (c_child_membership (s_card parent)) = mapE (readExactCard z st) (c_child_membership (s_card parent))"
  proof (rule mapE_cong [OF refl])
    fix i
    assume "i \<in> set (c_child_membership (s_card parent))"
    then obtain segments s where "cardIdSegments i = Inr segments" "at_last segments = Some s" "childCardId p s = Inr i"
      using member_segments [OF assms(1)] assms(2) by blast
    then show "bindE (cardIdSegments i) (\<lambda>segments.
       bindE (optionE (PlainError ''TypeError'' []) (at_last segments)) (\<lambda>segment.
       bindE (childCardId p segment) (\<lambda>expected.
       bindE (guardE (expected = i) (PlainError ''has invalid direct child'' [p, i])) (\<lambda>_.
       readExactCard z st i)))) = readExactCard z st i" by simp
  qed
  then show ?thesis by (simp add: readMembershipChildrenOfReached_def mapE_Inr_iff)
qed

text \<open>The live children of a card, in their active order.\<close>

lemma readCanonicalChildren_iff:
  assumes schema: "cardRecordSchema z (s_card parent)" and p: "c_id (s_card parent) = p"
  shows "readCanonicalChildrenOfReached z st p parent = Inr children \<longleftrightarrow>
    (\<exists>sels. list_all2 (\<lambda>i sel. readExactCard z st i = Inr sel) (c_active_child_order (s_card parent)) sels \<and>
       children = filter (\<lambda>c. \<not> s_tombstone c) sels)"
proof -
  have same: "set (c_child_membership (s_card parent)) = set (c_active_child_order (s_card parent))"
    using schema by (rule card_children_same_set)
  have select: "select_child p byId i = readExactCard z st i"
    if byId: "list_all2 (\<lambda>i sel. readExactCard z st i = Inr sel) (c_child_membership (s_card parent)) byId"
      and i: "i \<in> set (c_active_child_order (s_card parent))" for byId i
  proof -
    from i same obtain k where k: "k < length (c_child_membership (s_card parent))" "c_child_membership (s_card parent) ! k = i"
      by (metis in_set_conv_nth)
    then have sel: "readExactCard z st i = Inr (byId ! k)" "byId ! k \<in> set byId"
      using list_all2_nthD [OF byId k(1)] list_all2_lengthD [OF byId] by auto
    then have "find (\<lambda>child. c_id (s_card child) = i) (rev byId) \<noteq> None"
      using readExactCard_id [OF sel(1)] by (auto simp: find_None_iff)
    then obtain sel' where sel': "select_child p byId i = Inr sel'" by (auto simp: select_child_def)
    then have "sel' \<in> set byId" "c_id (s_card sel') = i" using select_child_Inr by blast+
    then obtain m where m: "m < length byId" "byId ! m = sel'" by (auto simp: in_set_conv_nth)
    then have read: "readExactCard z st (c_child_membership (s_card parent) ! m) = Inr sel'"
      using list_all2_nthD2 [OF byId m(1)] by simp
    then have "readExactCard z st i = Inr sel'" using readExactCard_id [OF read] \<open>c_id (s_card sel') = i\<close> by simp
    with sel' show ?thesis by simp
  qed
  show ?thesis
  proof
    assume "readCanonicalChildrenOfReached z st p parent = Inr children"
    then obtain byId sels where b: "readMembershipChildrenOfReached z st p parent = Inr byId"
        "mapE (select_child p byId) (c_active_child_order (s_card parent)) = Inr sels"
        "children = filter (\<lambda>c. \<not> s_tombstone c) sels"
      by (auto simp: readCanonicalChildrenOfReached_def bindE_Inr_iff)
    have "mapE (select_child p byId) (c_active_child_order (s_card parent)) =
        mapE (readExactCard z st) (c_active_child_order (s_card parent))"
      by (rule mapE_cong [OF refl select]) (use b(1) in \<open>simp_all add: readMembershipChildren_iff [OF schema p]\<close>)
    with b(2,3) show "\<exists>sels. list_all2 (\<lambda>i sel. readExactCard z st i = Inr sel) (c_active_child_order (s_card parent)) sels \<and>
        children = filter (\<lambda>c. \<not> s_tombstone c) sels" by (auto simp: mapE_Inr_iff)
  next
    assume "\<exists>sels. list_all2 (\<lambda>i sel. readExactCard z st i = Inr sel) (c_active_child_order (s_card parent)) sels \<and>
        children = filter (\<lambda>c. \<not> s_tombstone c) sels"
    then obtain sels where sels: "mapE (readExactCard z st) (c_active_child_order (s_card parent)) = Inr sels"
        "children = filter (\<lambda>c. \<not> s_tombstone c) sels" by (auto simp: mapE_Inr_iff)
    then have "\<forall>i \<in> set (c_child_membership (s_card parent)). \<exists>sel. readExactCard z st i = Inr sel"
      using same mapE_succeeds_iff [of "readExactCard z st" "c_active_child_order (s_card parent)"] by auto
    then obtain byId where byId: "mapE (readExactCard z st) (c_child_membership (s_card parent)) = Inr byId"
      using mapE_succeeds_iff by blast
    then have b: "readMembershipChildrenOfReached z st p parent = Inr byId"
      by (simp add: readMembershipChildren_iff [OF schema p] mapE_Inr_iff)
    have "mapE (select_child p byId) (c_active_child_order (s_card parent)) =
        mapE (readExactCard z st) (c_active_child_order (s_card parent))"
      by (rule mapE_cong [OF refl select]) (use byId in \<open>simp_all add: mapE_Inr_iff\<close>)
    with b sels show "readCanonicalChildrenOfReached z st p parent = Inr children"
      by (simp add: readCanonicalChildrenOfReached_def)
  qed
qed

end
