(* ===== verification/CardWalk.thy ===== *)
theory CardWalk
  imports CardGraph
begin

text \<open>
  The preorder walk lists exactly the cards below its root, each once, and always succeeds on a
  store whose cards are intact and whose memberships are backed by heads.
\<close>

inductive below :: "zod \<Rightarrow> 'a card_store_scheme \<Rightarrow> string \<Rightarrow> string \<Rightarrow> current_selection \<Rightarrow> bool"
  for z :: zod and st :: "'a card_store_scheme" where
  self: "readExactCard z st i = Inr sel \<Longrightarrow> \<not> s_tombstone sel \<Longrightarrow> below z st i i sel"
| down: "readExactCard z st i = Inr parent \<Longrightarrow> \<not> s_tombstone parent \<Longrightarrow>
    c \<in> set (c_child_membership (s_card parent)) \<Longrightarrow> below z st c j sel \<Longrightarrow> below z st i j sel"

lemma below_reads: "below z st i j sel \<Longrightarrow> readExactCard z st j = Inr sel \<and> \<not> s_tombstone sel"
  by (induction rule: below.induct) auto

lemma below_top: "below z st i j sel \<Longrightarrow> \<exists>top. readExactCard z st i = Inr top \<and> \<not> s_tombstone top"
  by (induction rule: below.induct) auto

lemma below_snoc:
  "below z st i p parent \<Longrightarrow> j \<in> set (c_child_membership (s_card parent)) \<Longrightarrow>
   readExactCard z st j = Inr sel \<Longrightarrow> \<not> s_tombstone sel \<Longrightarrow> below z st i j sel"
  by (induction rule: below.induct) (auto intro: below.intros)

lemma membership_child:
  assumes "readExactCard z st p = Inr parent" and "j \<in> set (c_child_membership (s_card parent))"
  shows "\<exists>s. childCardId p s = Inr j"
  using member_segments [OF readExactCard_schema [OF assms(1)] assms(2)] readExactCard_id [OF assms(1)] by auto

lemma linked_below: "linked z st j sel \<longleftrightarrow> below z st ''project'' j sel"
proof
  show "linked z st j sel \<Longrightarrow> below z st ''project'' j sel"
    by (induction rule: linked.induct) (auto intro: below.self below_snoc dest: root_not_tombstone)
next
  have "linked z st j sel" if "below z st i j sel" "readExactCard z st i = Inr top" "linked z st i top" for i top
    using that
  proof (induction arbitrary: top rule: below.induct)
    case (self i sel)
    then show ?case by simp
  next
    case (down i parent c j sel)
    obtain s where s: "childCardId i s = Inr c" using membership_child [OF down.hyps(1,3)] by blast
    obtain t where t: "readExactCard z st c = Inr t" "\<not> s_tombstone t" using below_top [OF down.hyps(4)] by blast
    have "top = parent" using down.hyps(1) down.prems(1) by simp
    then have "linked z st c t" using down s t by (auto intro: linked.child)
    with t show ?case by (intro down.IH)
  qed
  then show "below z st ''project'' j sel \<Longrightarrow> linked z st j sel"
    using below_top by (metis linked.root)
qed

text \<open>Identities below a card extend its path.\<close>

lemma below_path:
  "below z st i j sel \<Longrightarrow> \<exists>ss ts. card_path (ss @ ts) \<and> i = card_id_of ss \<and> j = card_id_of (ss @ ts)"
proof (induction rule: below.induct)
  case (self i sel)
  have "cardIdSchema i" using readExactCard_schema [OF self(1)] readExactCard_id [OF self(1)]
    by (auto simp: cardRecordSchema_defs)
  then obtain ss where "card_path ss" "i = card_id_of ss" by (auto simp: cardIdSchema_iff)
  then show ?case by (intro exI [of _ ss] exI [of _ "[]"]) simp
next
  case (down i parent c j sel)
  then obtain s where s: "childCardId i s = Inr c" using membership_child by blast
  have "cardIdSchema i" using s by (auto simp: childCardId_def errE)
  then obtain ps where ps: "card_path ps" "i = card_id_of ps" by (auto simp: cardIdSchema_iff)
  with s have c: "c = card_id_of (ps @ [s])" "card_path (ps @ [s])" by (auto simp: childCardId_path card_path_snoc)
  from down.IH obtain ss ts where ss: "card_path (ss @ ts)" "c = card_id_of ss" "j = card_id_of (ss @ ts)" by blast
  have "card_path ss" using ss(1) by (simp add: card_path_def)
  then have "ss = ps @ [s]" using ss(2) c card_id_of_inject by blast
  with ps ss show ?case by (intro exI [of _ ps] exI [of _ "s # ts"]) simp
qed

lemma below_siblings:
  assumes "below z st a j s1" and "below z st b j s2" and "depth_of a = depth_of b"
  shows "a = b"
proof -
  obtain as ats where a: "card_path (as @ ats)" "a = card_id_of as" "j = card_id_of (as @ ats)"
    using below_path [OF assms(1)] by blast
  obtain bs bts where b: "card_path (bs @ bts)" "b = card_id_of bs" "j = card_id_of (bs @ bts)"
    using below_path [OF assms(2)] by blast
  have "card_path as" "card_path bs" using a(1) b(1) by (auto simp: card_path_def)
  then have "length as = length bs" using assms(3) a(2) b(2) by (simp add: depth_of_def)
  moreover have "as @ ats = bs @ bts" using a b card_id_of_inject by metis
  ultimately show ?thesis using a(2) b(2) by simp
qed

lemma below_not_up:
  assumes "readExactCard z st i = Inr parent" and "c \<in> set (c_child_membership (s_card parent))"
  shows "\<not> below z st c i sel"
proof
  assume "below z st c i sel"
  then obtain ss ts where p: "card_path (ss @ ts)" "c = card_id_of ss" "i = card_id_of (ss @ ts)" using below_path by blast
  then have "card_path ss" by (simp add: card_path_def)
  with p have "depth_of c \<le> depth_of i" by (simp add: depth_of_def)
  moreover have "depth_of c = Suc (depth_of i)" using membership_child [OF assms] depth_of_child(1) by blast
  ultimately show False by simp
qed

section \<open>What the walk returns\<close>

definition row_ids :: "traversal_row list \<Rightarrow> string list" where
  "row_ids rows = map (\<lambda>r. c_id (t_card r)) rows"

lemma row_ids_simps [simp]:
  "row_ids [] = []" "row_ids (r # rows) = c_id (t_card r) # row_ids rows"
  "row_ids (xs @ ys) = row_ids xs @ row_ids ys" "row_ids (concat xss) = concat (map row_ids xss)"
  "length (row_ids rows) = length rows"
  by (simp_all add: row_ids_def [abs_def] map_concat)

lemma visit_Inr:
  "visit z st sel d = Inr (rows, n) \<longleftrightarrow>
    (\<exists>children parentId subtrees. readCanonicalChildrenOfReached z st (c_id (s_card sel)) sel = Inr children \<and>
       cardParentId (c_id (s_card sel)) = Inr parentId \<and>
       list_all2 (\<lambda>c sub. visit z st c (d + 1) = Inr sub) children subtrees \<and>
       n = sum_list (map (\<lambda>(rows, n). 1 + n) subtrees) \<and>
       rows = \<lparr>t_card = s_card sel, t_head_id = h_head_id (s_selection sel), t_ordinary = h_ordinary (s_selection sel),
           t_parent_id = parentId, t_children_count = length children, t_relative_depth = d,
           t_descendant_count = n\<rparr> # concat (map fst subtrees))"
  by (subst visit.simps) (auto simp: bindE_Inr_iff mapE_Inr_iff Let_def)

lemma live_children:
  assumes "readExactCard z st i = Inr sel"
    and "readCanonicalChildrenOfReached z st (c_id (s_card sel)) sel = Inr children"
  shows "c \<in> set children \<longleftrightarrow> (\<exists>j \<in> set (c_child_membership (s_card sel)). readExactCard z st j = Inr c \<and> \<not> s_tombstone c)"
    and "distinct (map (\<lambda>c. c_id (s_card c)) children)"
proof -
  note schema = readExactCard_schema [OF assms(1)]
  obtain sels where sels: "list_all2 (\<lambda>i sel. readExactCard z st i = Inr sel) (c_active_child_order (s_card sel)) sels"
      "children = filter (\<lambda>c. \<not> s_tombstone c) sels"
    using assms(2) readCanonicalChildren_iff [OF schema refl] by blast
  have same: "set (c_child_membership (s_card sel)) = set (c_active_child_order (s_card sel))"
    using schema by (rule card_children_same_set)
  have ids: "map (\<lambda>c. c_id (s_card c)) sels = c_active_child_order (s_card sel)"
    using sels(1) by (induction rule: list_all2_induct) (auto dest: readExactCard_id)
  show "c \<in> set children \<longleftrightarrow> (\<exists>j \<in> set (c_child_membership (s_card sel)). readExactCard z st j = Inr c \<and> \<not> s_tombstone c)"
  proof -
    have "c \<in> set sels \<longleftrightarrow> (\<exists>j \<in> set (c_active_child_order (s_card sel)). readExactCard z st j = Inr c)"
      using sels(1) by (induction rule: list_all2_induct) auto
    with sels(2) same show ?thesis by auto
  qed
  have "distinct (c_active_child_order (s_card sel))" using schema by (simp add: cardRecordSchema_defs)
  then show "distinct (map (\<lambda>c. c_id (s_card c)) children)"
    using ids sels(2) by (metis distinct_map_filter)
qed

lemma below_cases_children:
  assumes "readExactCard z st i = Inr sel" and "\<not> s_tombstone sel"
    and "readCanonicalChildrenOfReached z st (c_id (s_card sel)) sel = Inr children"
  shows "below z st i j s \<longleftrightarrow> j = i \<and> s = sel \<or> (\<exists>c \<in> set children. below z st (c_id (s_card c)) j s)"
proof
  assume "below z st i j s"
  then show "j = i \<and> s = sel \<or> (\<exists>c \<in> set children. below z st (c_id (s_card c)) j s)"
  proof (cases rule: below.cases)
    case self
    then show ?thesis using assms(1) by simp
  next
    case (down parent c)
    obtain t where t: "readExactCard z st c = Inr t" "\<not> s_tombstone t" using below_top [OF down(4)] by blast
    then have "t \<in> set children" using live_children(1) [OF assms(1,3)] down(1,3) assms(1) by auto
    with down(4) readExactCard_id [OF t(1)] show ?thesis by auto
  qed
next
  assume "j = i \<and> s = sel \<or> (\<exists>c \<in> set children. below z st (c_id (s_card c)) j s)"
  then show "below z st i j s"
  proof
    assume "\<exists>c \<in> set children. below z st (c_id (s_card c)) j s"
    then obtain c k where "below z st (c_id (s_card c)) j s" "k \<in> set (c_child_membership (s_card sel))"
        "readExactCard z st k = Inr c"
      using live_children(1) [OF assms(1,3)] by blast
    then show ?thesis using below.down [OF assms(1,2)] readExactCard_id by metis
  qed (use assms in \<open>auto intro: below.self\<close>)
qed

lemma below_ids: "c_id ` {s_card s | s. \<exists>j. below z st i j s} = {j. \<exists>s. below z st i j s}"
proof (intro equalityI subsetI)
  fix k
  assume "k \<in> c_id ` {s_card s | s. \<exists>j. below z st i j s}"
  then obtain s j where "k = c_id (s_card s)" "below z st i j s" by blast
  moreover from this(2) have "c_id (s_card s) = j" using below_reads readExactCard_id by blast
  ultimately show "k \<in> {j. \<exists>s. below z st i j s}" by blast
next
  fix k
  assume "k \<in> {j. \<exists>s. below z st i j s}"
  then obtain s where s: "below z st i k s" by blast
  then have "c_id (s_card s) = k" using below_reads readExactCard_id by blast
  with s show "k \<in> c_id ` {s_card s | s. \<exists>j. below z st i j s}" by blast
qed

lemma children_disjoint:
  assumes "list_all2 R children subtrees" and "distinct (map (\<lambda>c. c_id (s_card c)) children)"
    and "\<And>c sub. c \<in> set children \<Longrightarrow> R c sub \<Longrightarrow>
      distinct (row_ids (fst sub)) \<and> set (row_ids (fst sub)) = {j. \<exists>s. below z st (c_id (s_card c)) j s}"
    and "\<And>c. c \<in> set children \<Longrightarrow> depth_of (c_id (s_card c)) = k"
  shows "distinct (concat (map (\<lambda>x. row_ids (fst x)) subtrees)) \<and>
    set (concat (map (\<lambda>x. row_ids (fst x)) subtrees)) = {j. \<exists>c \<in> set children. \<exists>s. below z st (c_id (s_card c)) j s}"
  using assms
proof (induction rule: list_all2_induct)
  case (Cons c children sub subtrees)
  have "distinct (concat (map (\<lambda>x. row_ids (fst x)) subtrees)) \<and>
    set (concat (map (\<lambda>x. row_ids (fst x)) subtrees)) = {j. \<exists>c \<in> set children. \<exists>s. below z st (c_id (s_card c)) j s}"
  proof (rule Cons.IH)
    show "distinct (map (\<lambda>c. c_id (s_card c)) children)" using Cons.prems(1) by simp
  qed (use Cons.prems(2,3) in \<open>blast intro: list.set_intros\<close>)+
  then have IH: "distinct (concat (map (\<lambda>x. row_ids (fst x)) subtrees))"
    "set (concat (map (\<lambda>x. row_ids (fst x)) subtrees)) = {j. \<exists>c \<in> set children. \<exists>s. below z st (c_id (s_card c)) j s}"
    by blast+
  have sub: "distinct (row_ids (fst sub))" "set (row_ids (fst sub)) = {j. \<exists>s. below z st (c_id (s_card c)) j s}"
    using Cons.prems(2) [of c sub] Cons.hyps(1) by auto
  have "set (row_ids (fst sub)) \<inter> set (concat (map (\<lambda>x. row_ids (fst x)) subtrees)) = {}"
  proof (rule ccontr)
    assume "\<not> ?thesis"
    then obtain j s1 c' s2 where "below z st (c_id (s_card c)) j s1" "c' \<in> set children" "below z st (c_id (s_card c')) j s2"
      using IH(2) sub(2) by auto
    then have "c_id (s_card c) = c_id (s_card c')" using below_siblings Cons.prems(3) by (metis list.set_intros)
    with Cons.prems(1) \<open>c' \<in> set children\<close> show False by auto
  qed
  with IH sub show ?case by auto
qed simp

lemma visit_ids:
  assumes "visit z st sel d = Inr (rows, n)" and "readExactCard z st i = Inr sel" and "\<not> s_tombstone sel"
  shows "length rows = Suc n \<and> t_card ` set rows = {s_card s | s. \<exists>j. below z st i j s} \<and> distinct (row_ids rows)"
  using assms
proof (induction z st sel d arbitrary: rows n i rule: visit.induct)
  case (1 z st sel d)
  from "1.prems"(1) obtain children parentId subtrees where
    ch: "readCanonicalChildrenOfReached z st (c_id (s_card sel)) sel = Inr children"
      "cardParentId (c_id (s_card sel)) = Inr parentId"
      "list_all2 (\<lambda>c sub. visit z st c (d + 1) = Inr sub) children subtrees"
      "n = sum_list (map (\<lambda>(rows, n). 1 + n) subtrees)"
    and rows: "rows = \<lparr>t_card = s_card sel, t_head_id = h_head_id (s_selection sel), t_ordinary = h_ordinary (s_selection sel),
           t_parent_id = parentId, t_children_count = length children, t_relative_depth = d,
           t_descendant_count = n\<rparr> # concat (map fst subtrees)"
    unfolding visit_Inr by blast
  note live = live_children [OF "1.prems"(2) ch(1)]
  have id: "c_id (s_card sel) = i" by (rule readExactCard_id [OF "1.prems"(2)])
  have sub: "length (fst sub) = Suc (snd sub) \<and> t_card ` set (fst sub) = {s_card s | s. \<exists>j. below z st (c_id (s_card c)) j s} \<and>
      distinct (row_ids (fst sub))"
    if c: "c \<in> set children" and v: "visit z st c (d + 1) = Inr sub" for c sub
  proof -
    obtain j where j: "readExactCard z st j = Inr c" "\<not> s_tombstone c" using c live(1) [of c] by auto
    then show ?thesis
      using "1.IH" [OF ch(1,2) c, of "fst sub" "snd sub" j] v readExactCard_id [OF j(1)] by simp
  qed
  have each: "\<exists>c \<in> set children. visit z st c (d + 1) = Inr sub" if "sub \<in> set subtrees" for sub
    using ch(3) that by (induction rule: list_all2_induct) auto
  have each': "\<exists>sub \<in> set subtrees. visit z st c (d + 1) = Inr sub" if "c \<in> set children" for c
    using ch(3) that by (induction rule: list_all2_induct) auto
  have len: "length (fst sub) = Suc (snd sub)" if "sub \<in> set subtrees" for sub
    using each [OF that] sub by blast
  have ids: "set (row_ids (fst sub)) = {j. \<exists>s. below z st (c_id (s_card c)) j s}"
    if "c \<in> set children" "visit z st c (d + 1) = Inr sub" for c sub
  proof -
    have "set (row_ids (fst sub)) = c_id ` t_card ` set (fst sub)" by (auto simp: row_ids_def)
    also have "\<dots> = {j. \<exists>s. below z st (c_id (s_card c)) j s}"
      using sub [OF that] below_ids [of z st "c_id (s_card c)"] by simp
    finally show ?thesis .
  qed
  have depth: "depth_of (c_id (s_card c)) = Suc (depth_of i)" if c: "c \<in> set children" for c
  proof -
    obtain j where j: "j \<in> set (c_child_membership (s_card sel))" "readExactCard z st j = Inr c" using c live(1) [of c] by auto
    then show ?thesis
      using membership_child [OF "1.prems"(2) j(1)] depth_of_child(1) readExactCard_id [OF j(2)] by auto
  qed
  have dis: "distinct (concat (map (\<lambda>x. row_ids (fst x)) subtrees)) \<and>
    set (concat (map (\<lambda>x. row_ids (fst x)) subtrees)) = {j. \<exists>c \<in> set children. \<exists>s. below z st (c_id (s_card c)) j s}"
    using sub ids depth by (intro children_disjoint [OF ch(3) live(2), where k = "Suc (depth_of i)"]) auto
  have up: "\<not> below z st (c_id (s_card c)) i s" if c: "c \<in> set children" for c s
  proof -
    obtain j where j: "j \<in> set (c_child_membership (s_card sel))" "readExactCard z st j = Inr c" using c live(1) [of c] by auto
    then show ?thesis using below_not_up [OF "1.prems"(2) j(1)] readExactCard_id [OF j(2)] by simp
  qed
  have "length rows = Suc n"
  proof -
    have "(\<Sum>x\<leftarrow>subtrees. length (fst x)) = (\<Sum>(rows, n)\<leftarrow>subtrees. 1 + n)"
      using len by (intro arg_cong [where f = sum_list] map_cong) (auto simp: split_beta)
    then show ?thesis using rows ch(4) by (simp add: length_concat comp_def)
  qed
  moreover have "distinct (row_ids rows)" using dis up rows id by (auto simp: comp_def)
  moreover have "t_card ` set rows = {s_card s | s. \<exists>j. below z st i j s}"
  proof -
    have "t_card ` set rows = insert (s_card sel) (\<Union>sub \<in> set subtrees. t_card ` set (fst sub))" using rows by auto
    also have "(\<Union>sub \<in> set subtrees. t_card ` set (fst sub)) =
        (\<Union>c \<in> set children. {s_card s | s. \<exists>j. below z st (c_id (s_card c)) j s})"
    proof (intro equalityI UN_least)
      fix x assume "x \<in> set subtrees"
      then obtain c where c: "c \<in> set children" "visit z st c (d + 1) = Inr x" using each by blast
      then have "t_card ` set (fst x) = {s_card s | s. \<exists>j. below z st (c_id (s_card c)) j s}" using sub by blast
      with c(1) show "t_card ` set (fst x) \<subseteq> (\<Union>c \<in> set children. {s_card s | s. \<exists>j. below z st (c_id (s_card c)) j s})"
        by blast
    next
      fix c assume c: "c \<in> set children"
      then obtain x where x: "x \<in> set subtrees" "visit z st c (d + 1) = Inr x" using each' by blast
      then have "t_card ` set (fst x) = {s_card s | s. \<exists>j. below z st (c_id (s_card c)) j s}" using sub c by blast
      with x(1) show "{s_card s | s. \<exists>j. below z st (c_id (s_card c)) j s} \<subseteq> (\<Union>sub \<in> set subtrees. t_card ` set (fst sub))"
        by blast
    qed
    also have "insert (s_card sel) (\<Union>c \<in> set children. {s_card s | s. \<exists>j. below z st (c_id (s_card c)) j s}) =
        {s_card s | s. \<exists>j. below z st i j s}"
      unfolding below_cases_children [OF "1.prems"(2,3) ch(1)] by blast
    finally show ?thesis .
  qed
  ultimately show ?case by simp
qed

section \<open>The walk succeeds\<close>

definition links_ok :: "zod \<Rightarrow> 'a card_store_scheme \<Rightarrow> bool" where
  "links_ok z st \<longleftrightarrow> (\<forall>i sel. readExactCard z st i = Inr sel \<longrightarrow>
     set (c_child_membership (s_card sel)) \<subseteq> dom (heads st))"

lemma member_reads:
  assumes "store_ok z st" and "links_ok z st" and "readExactCard z st i = Inr sel"
    and "j \<in> set (c_child_membership (s_card sel))"
  shows "\<exists>c. readExactCard z st j = Inr c"
proof -
  have "j \<in> dom (heads st)" using assms(2-4) by (auto simp: links_ok_def)
  then show ?thesis using assms(1) by (auto simp: store_ok_def card_ok_iff)
qed

lemma children_total:
  assumes "store_ok z st" and "links_ok z st" and "readExactCard z st i = Inr sel"
  shows "\<exists>children. readCanonicalChildrenOfReached z st (c_id (s_card sel)) sel = Inr children"
proof -
  note schema = readExactCard_schema [OF assms(3)]
  have "\<forall>j \<in> set (c_active_child_order (s_card sel)). \<exists>c. readExactCard z st j = Inr c"
    using member_reads [OF assms] card_children_same_set [OF schema] by auto
  then obtain sels where "mapE (readExactCard z st) (c_active_child_order (s_card sel)) = Inr sels"
    using mapE_succeeds_iff by blast
  then show ?thesis using readCanonicalChildren_iff [OF schema refl, of st] by (auto simp: mapE_Inr_iff)
qed

lemma visit_total:
  "store_ok z st \<Longrightarrow> links_ok z st \<Longrightarrow> readExactCard z st i = Inr sel \<Longrightarrow> \<exists>r. visit z st sel d = Inr r"
proof (induction z st sel d arbitrary: i rule: visit.induct)
  case (1 z st sel d)
  obtain children where ch: "readCanonicalChildrenOfReached z st (c_id (s_card sel)) sel = Inr children"
    using children_total [OF "1.prems"] by blast
  have "cardIdSchema (c_id (s_card sel))" using readExactCard_schema [OF "1.prems"(3)] by (simp add: cardRecordSchema_defs)
  then obtain parentId where par: "cardParentId (c_id (s_card sel)) = Inr parentId"
    by (auto simp: cardParentId_def cardIdSegments_def)
  have "\<exists>r. visit z st c (d + 1) = Inr r" if c: "c \<in> set children" for c
  proof -
    obtain j where "readExactCard z st j = Inr c" using live_children(1) [OF "1.prems"(3) ch, of c] c by auto
    then show ?thesis using "1.IH" [OF ch par c "1.prems"(1,2)] by blast
  qed
  then obtain subs where "mapE (\<lambda>c. visit z st c (d + 1)) children = Inr subs"
    using mapE_total [of children "\<lambda>c. visit z st c (d + 1)"] by blast
  with ch par show ?case by (subst visit.simps) (simp add: Let_def)
qed

lemma readRoot_total: "store_ok z st \<Longrightarrow> \<exists>r. readRoot z st = Inr r"
  by (auto simp: readRoot_def store_ok_def card_ok_iff readExactCard_def split: option.splits) force+

text \<open>The cards listed from the root are the linked cards, each once.\<close>

lemma walk_root:
  assumes "store_ok z st" and "links_ok z st" and "readRoot z st = Inr (Some root)"
  obtains rows where "walkActivePreorder z st root = Inr rows" "distinct (row_ids rows)"
    "t_card ` set rows = {s_card s | s. \<exists>i. linked z st i s}"
proof -
  have root: "readExactCard z st ''project'' = Inr root" using assms(3) by (simp add: readRoot_iff)
  obtain rows n where v: "visit z st root 0 = Inr (rows, n)" using visit_total [OF assms(1,2) root] by (metis prod.exhaust)
  from visit_ids [OF v root root_not_tombstone [OF root]] v that show thesis
    by (simp add: walkActivePreorder_def linked_below)
qed

lemma lookup_linked:
  assumes "t_card ` set rows = {s_card s | s. \<exists>i. linked z st i s}"
  shows "lookup_card (map t_card rows) i = Some c \<longleftrightarrow> (\<exists>s. linked z st i s \<and> s_card s = c)"
proof -
  have ids: "c_id (s_card s) = i \<longleftrightarrow> linked z st i s" if "linked z st j s" for s i j
    using that readExactCard_id [OF linked_reads [OF that]] readExactCard_id [OF linked_reads, of z st i s] by auto
  have uniq: "s = s'" if "linked z st i s" "linked z st i s'" for s s'
    using linked_reads [OF that(1)] linked_reads [OF that(2)] by simp
  have "lookup_card (map t_card rows) i = Some c \<longleftrightarrow> c \<in> t_card ` set rows \<and> c_id c = i"
  proof
    assume "lookup_card (map t_card rows) i = Some c"
    then show "c \<in> t_card ` set rows \<and> c_id c = i"
      by (auto simp: find_Some_iff) (metis image_eqI length_map length_rev nth_mem set_map set_rev)
  next
    assume c: "c \<in> t_card ` set rows \<and> c_id c = i"
    then have "lookup_card (map t_card rows) i \<noteq> None" by (auto simp: find_None_iff)
    then obtain c' where c': "lookup_card (map t_card rows) i = Some c'" by auto
    then have "c' \<in> t_card ` set rows" "c_id c' = i"
      by (auto simp: find_Some_iff) (metis image_eqI length_map length_rev nth_mem set_map set_rev)
    with c have "c' = c" unfolding assms using ids uniq by blast
    with c' show "lookup_card (map t_card rows) i = Some c" by simp
  qed
  also have "\<dots> \<longleftrightarrow> (\<exists>s. linked z st i s \<and> s_card s = c)" unfolding assms using ids by blast
  finally show ?thesis .
qed

end
