(* ===== verification/CardService.thy ===== *)
theory CardService
  imports CardBirth CardWalk
begin

text \<open>
  The card service (\<^verbatim>\<open>src/cards/card-service.ts\<close>): every operation that changes a card builds a candidate
  record and a version change, publishes them and emits freshness effects. Clock readings and
  random identifiers are arguments (\<open>stamps\<close>); \<open>clone\<close> copies values and has no counterpart.
\<close>

section \<open>Effects\<close>

text \<open>
  Freshness callbacks are appended to a log in the store. A callback that calls the service again
  while it runs is not modelled: the calls of a history follow one another.
\<close>

definition emit :: "freshness_effect \<Rightarrow> ('a project_store_scheme, unit) op" where
  "emit e = modifyS (\<lambda>st. st\<lparr>effects := effects st @ [e]\<rparr>)"

definition publishCardVersionEffects ::
    "card_version_change \<Rightarrow> string option \<Rightarrow> bool \<Rightarrow> string list \<Rightarrow> ('a project_store_scheme, unit) op" where
  "publishCardVersionEffects change parentId runtimeChanged recordNames =
     bindS (emit (CardScope ''detail'' (v_card_id change))) (\<lambda>_.
     bindS (emit (CardScope ''history'' (v_card_id change))) (\<lambda>_.
     bindS (emit (CardScope ''diff'' (v_card_id change))) (\<lambda>_.
     bindS (emit (CardScope ''children'' (v_card_id change))) (\<lambda>_.
     bindS (case parentId of None \<Rightarrow> returnS () | Some p \<Rightarrow> emit (CardScope ''children'' p)) (\<lambda>_.
     bindS (forS (\<lambda>name. emit (RecordScope (v_card_id change) name)) recordNames) (\<lambda>_.
     if runtimeChanged then emit RuntimeChanged else returnS ()))))))"

section \<open>Version changes\<close>

record stamps =
  k_now :: string
  k_entry :: string
  k_head :: string

definition terminal_summary_of :: "card_record option \<Rightarrow> string \<Rightarrow> error + terminal_summary" where
  "terminal_summary_of next changedAt = (case next of
     None \<Rightarrow> Inl (PlainError ''Terminal card change requires terminal lifecycle.'' [])
   | Some n \<Rightarrow> (case lc_result (c_lifecycle n) of
       None \<Rightarrow> Inl (PlainError ''Terminal card change requires terminal lifecycle.'' [])
     | Some result \<Rightarrow>
         Inr \<lparr>ts_status = c_status n, ts_result_kind = result_kind result, ts_summary = result_summary result,
              ts_content_policy = (case result of
                  ContentPolicyRefusal _ session marker evidence \<Rightarrow>
                    Some \<lparr>cps_session_id = session, cps_marker_id = marker, cps_evidence_url = evidence,
                          cps_blocked_at = changedAt\<rparr>
                | _ \<Rightarrow> None)\<rparr>))"

definition versionChange ::
    "zod \<Rightarrow> card_record \<Rightarrow> card_record option \<Rightarrow> change_kind \<Rightarrow> string list \<Rightarrow> string \<Rightarrow> string \<Rightarrow>
     string option \<Rightarrow> stamps \<Rightarrow> error + card_version_change" where
  "versionChange z prior next kind fs summary reason agentName k =
     bindE (if kind = KUpdate \<or> kind = KDelete then optionE (ZodError ''cardVersionChange'') agentName
            else Inr ''runtime'') (\<lambda>actor.
     let changedAt = (case next of None \<Rightarrow> k_now k | Some n \<Rightarrow> c_updated_at n) in
     bindE (guardE (changedAt \<noteq> [])
       (PlainError ''Terminal card change requires status_text_updated_at.'' [])) (\<lambda>_.
     bindE (if kind = KTerminal then bindE (terminal_summary_of next changedAt) (\<lambda>t. Inr (Some t))
            else Inr None) (\<lambda>terminalSummary.
     bindE (if kind = KDelete then Inr (c_version_seq prior + 1)
            else optionE (PlainError ''TypeError'' []) (map_option c_version_seq next)) (\<lambda>resulting.
     parse_change z
       \<lparr>v_entry_id = k_entry k, v_kind = kind, v_card_id = c_id prior, v_resulting_version = resulting,
        v_changed_at = changedAt, v_changed_by_actor = actor, v_changed_fields = fs,
        v_change_summary = summary, v_change_reason = reason, v_terminal_summary = terminalSummary\<rparr>))))"

section \<open>Reads\<close>

definition card_not_found :: "string \<Rightarrow> error" where
  "card_not_found i = PlainError ''Card not found.'' [i]"

definition require_card :: "zod \<Rightarrow> string \<Rightarrow> ('a project_store_scheme, card_record) op" where
  "require_card z i = readS (\<lambda>st. bindE (readCard z st i) (optionE (card_not_found i)))"

definition readActivationAdmission ::
    "zod \<Rightarrow> 'a project_store_scheme \<Rightarrow> string \<Rightarrow> error + (card_record \<times> (string \<times> card_status) list) option" where
  "readActivationAdmission z st cardId =
     bindE (readCard z st cardId) (\<lambda>child. case child of
       None \<Rightarrow> Inr None
     | Some child \<Rightarrow>
         bindE (mapE (\<lambda>i. bindE (readCard z st i) (\<lambda>dep. case dep of
             None \<Rightarrow> Inl (CardServiceInvariantError ''depends_on missing card'' [c_id child, i])
           | Some d \<Rightarrow> Inr (i, c_status d))) (c_depends_on child)) (\<lambda>deps.
         Inr (Some (child, deps))))"

text \<open>\<open>Array.prototype.sort\<close> by depth is stable.\<close>

definition service_list :: "zod \<Rightarrow> 'a project_store_scheme \<Rightarrow> error + card_record list" where
  "service_list z st =
     bindE (listActiveCardTraversal z st) (\<lambda>rows. Inr (sort_key (\<lambda>c. depth_of (c_id c)) (map t_card rows)))"

definition listChildren :: "zod \<Rightarrow> 'a project_store_scheme \<Rightarrow> string \<Rightarrow> error + string list" where
  "listChildren z st parentId =
     bindE (readLinkedChildrenProjection z st parentId) (\<lambda>(parent, children). Inr (map c_id children))"

definition getParent :: "zod \<Rightarrow> 'a project_store_scheme \<Rightarrow> string \<Rightarrow> error + string option" where
  "getParent z st i =
     bindE (readActiveCardFold z st i) (\<lambda>r. if r \<noteq> None then cardParentId i else Inr None)"

text \<open>The \<open>while (parent)\<close> loop of \<open>getAncestors\<close> climbs one segment at a time.\<close>

lemma depth_of_parent:
  assumes "cardParentId p = Inr (Some q)"
  shows "depth_of q < depth_of p"
proof -
  have "cardIdSchema p" using assms by (auto simp: cardParentId_def cardIdSegments_def errE)
  then obtain ss where ss: "card_path ss" "p = card_id_of ss" by (auto simp: cardIdSchema_iff)
  with assms have "ss \<noteq> []" "q = card_id_of (butlast ss)" by (auto split: if_splits)
  with ss show ?thesis by (simp add: depth_of_def card_path_butlast)
qed

function climb :: "string option \<Rightarrow> string list \<Rightarrow> error + string list" where
  "climb None out = Inr out"
| "climb (Some p) out = bindE (cardParentId p) (\<lambda>parent. climb parent (p # out))"
  by pat_completeness auto
termination
  by (relation "measure (\<lambda>(parent, out). case parent of None \<Rightarrow> 0 | Some p \<Rightarrow> Suc (depth_of p))")
     (auto dest: depth_of_parent split: option.splits)

definition getAncestors :: "zod \<Rightarrow> 'a project_store_scheme \<Rightarrow> string \<Rightarrow> error + string list" where
  "getAncestors z st i =
     bindE (readActiveCardFold z st i) (\<lambda>r.
     if r = None then Inr []
     else bindE (cardParentId i) (\<lambda>parent. climb parent []))"

section \<open>Publishing a version\<close>

definition publishVersion ::
    "zod \<Rightarrow> card_record \<Rightarrow> card_record \<Rightarrow> change_kind \<Rightarrow> string list \<Rightarrow> string \<Rightarrow> string \<Rightarrow> string option \<Rightarrow>
     card_notification option \<Rightarrow> stamps \<Rightarrow> ('a project_store_scheme, card_record) op" where
  "publishVersion z existing candidate kind fs reason summary agentName notification k =
     bindS (liftS (parse_card z candidate)) (\<lambda>parsed.
     bindS (liftS (versionChange z existing (Some parsed) kind fs summary reason agentName k)) (\<lambda>change.
     bindS (publishCardVersion z parsed change notification (k_head k)) (\<lambda>_.
     bindS (liftS (cardParentId (c_id existing))) (\<lambda>parent.
     bindS (publishCardVersionEffects change parent (''lifecycle'' \<in> set fs) []) (\<lambda>_.
     returnS candidate)))))"

definition publishGitFacts ::
    "zod \<Rightarrow> string \<Rightarrow> git_facts \<Rightarrow> stamps \<Rightarrow> ('a project_store_scheme, card_record) op" where
  "publishGitFacts z i facts k =
     bindS (liftS (guardE (cardGitFactsSchema z facts) (ZodError ''cardGitFacts''))) (\<lambda>_.
     bindS (require_card z i) (\<lambda>existing.
     if c_git existing = Some facts then returnS existing
     else publishVersion z existing
       (existing\<lparr>c_git := Some facts, c_updated_at := k_now k, c_version_seq := c_version_seq existing + 1\<rparr>)
       KGitSource [''git''] ''native source facts published'' (summarizeChangedFields [''git'']) None None k))"

definition set_status_fields :: "set_status_target \<Rightarrow> card_record \<Rightarrow> string list" where
  "set_status_fields status existing =
     [''lifecycle''] @ (if status = ToCancelled \<and> c_pending_notifications existing \<noteq> []
       then [''pending_notifications''] else [])"

definition setStatus ::
    "zod \<Rightarrow> string \<Rightarrow> set_status_target \<Rightarrow> stamps \<Rightarrow> ('a project_store_scheme, card_record) op" where
  "setStatus z i status k =
     bindS (require_card z i) (\<lambda>existing.
     bindS (liftS (assertSetStatusAdmission existing status)) (\<lambda>_.
     publishVersion z existing
       (existing\<lparr>c_lifecycle := buildSetStatusLifecycle status,
          c_pending_notifications := (if status = ToCancelled then [] else c_pending_notifications existing),
          c_updated_at := k_now k, c_version_seq := c_version_seq existing + 1\<rparr>)
       KStatus (set_status_fields status existing) (status_reason (target_status status))
       (summarizeChangedFields (set_status_fields status existing)) None None k))"

definition editCard ::
    "zod \<Rightarrow> string \<Rightarrow> card_edit_patch \<Rightarrow> string \<Rightarrow> stamps \<Rightarrow> stamps \<Rightarrow> ('a project_store_scheme, card_record) op" where
  "editCard z i changes agentName ks k =
     bindS (require_card z i) (\<lambda>existing.
     bindS (liftS (guardE (c_status existing \<in> {Backlog, Changed, Stopped, Blocked, Failed})
       (PlainError ''Card cannot be edited in status'' [i]))) (\<lambda>_.
     let patch = pruneCardEditPatch existing changes in
     if patch = empty_patch then returnS existing
     else
       bindS (if c_status existing \<in> {Blocked, Failed} then
                bindS (setStatus z i ToChanged ks) (\<lambda>_.
                readS (\<lambda>st. bindE (readCard z st i) (optionE (PlainError ''TypeError'' []))))
              else returnS existing) (\<lambda>updateBase.
       let candidate = buildEditedCard updateBase patch (k_now k);
           fs = collectEditChangedFields updateBase candidate patch in
       publishVersion z updateBase candidate KUpdate fs ''agent edit_card''
         (summarizeChangedFields fs) (Some agentName) None k)))"

definition stopRunning :: "zod \<Rightarrow> string \<Rightarrow> stamps \<Rightarrow> ('a project_store_scheme, card_record) op" where
  "stopRunning z i k =
     bindS (require_card z i) (\<lambda>c.
     bindS (liftS (guardE (c_status c = Running)
       (PlainError ''Card must be running before its lifecycle can be stopped.'' [i]))) (\<lambda>_.
     publishVersion z c
       (c\<lparr>c_lifecycle := buildStoppedLifecycle, c_updated_at := k_now k, c_version_seq := c_version_seq c + 1\<rparr>)
       KStatus [''lifecycle''] ''recovery stopped lifecycle'' (summarizeChangedFields [''lifecycle'']) None None k))"

definition activateStopped :: "zod \<Rightarrow> string \<Rightarrow> stamps \<Rightarrow> ('a project_store_scheme, card_record) op" where
  "activateStopped z i k =
     bindS (require_card z i) (\<lambda>c.
     bindS (liftS (guardE (c_status c = Stopped)
       (PlainError ''Card must be stopped before it can be activated through STOPPED.'' [i]))) (\<lambda>_.
     publishVersion z c
       (c\<lparr>c_lifecycle := buildActivatedStoppedLifecycle, c_updated_at := k_now k,
          c_version_seq := c_version_seq c + 1\<rparr>)
       KStatus [''lifecycle''] ''STOPPED activation'' (summarizeChangedFields [''lifecycle'']) None None k))"

definition enqueueNotification ::
    "zod \<Rightarrow> string \<Rightarrow> card_notification \<Rightarrow> stamps \<Rightarrow> ('a project_store_scheme, card_record) op" where
  "enqueueNotification z i notification k =
     bindS (require_card z i) (\<lambda>c.
     bindS (liftS (enqueueCardNotification z c notification)) (\<lambda>next.
     publishVersion z c (next\<lparr>c_updated_at := k_now k, c_version_seq := c_version_seq c + 1\<rparr>)
       KNotificationEnqueue [''pending_notifications''] ''notification enqueued'' ''notification enqueued''
       None (Some notification) k))"

definition removeNotifications ::
    "zod \<Rightarrow> string \<Rightarrow> string list \<Rightarrow> stamps \<Rightarrow> ('a project_store_scheme, card_record) op" where
  "removeNotifications z i notificationIds k =
     bindS (require_card z i) (\<lambda>c.
     bindS (liftS (removeCardNotifications c notificationIds)) (\<lambda>next.
     if length (c_pending_notifications next) = length (c_pending_notifications c) then returnS c
     else publishVersion z c (next\<lparr>c_updated_at := k_now k, c_version_seq := c_version_seq c + 1\<rparr>)
       KNotificationRemove [''pending_notifications''] ''notifications delivered'' ''notifications delivered''
       None None k))"

section \<open>Terminal outcomes\<close>

datatype terminal_status = TDone | TFailed | TBlocked

record activation_outcome =
  o_status :: terminal_status
  o_result :: card_result
  o_summary :: string

definition terminal_lifecycle :: "activation_outcome \<Rightarrow> string \<Rightarrow> card_lifecycle" where
  "terminal_lifecycle outcome settledAt = (case o_status outcome of
     TDone \<Rightarrow> LDone (o_result outcome) settledAt
   | TFailed \<Rightarrow> LFailed (o_result outcome) (o_summary outcome) settledAt
   | TBlocked \<Rightarrow> LBlocked (o_result outcome) (o_summary outcome))"

definition commitActivationOutcome ::
    "zod \<Rightarrow> string \<Rightarrow> activation_outcome \<Rightarrow> string \<Rightarrow> stamps \<Rightarrow>
     ('a project_store_scheme, card_record \<times> artifact_ref) op" where
  "commitActivationOutcome z i outcome settledAt k =
     bindS (require_card z i) (\<lambda>existing.
     bindS (liftS (guardE (c_status existing = Running)
       (PlainError ''Card must be running before terminal lifecycle commit.'' [i]))) (\<lambda>_.
     bindS (liftS (guardE (result_summary (o_result outcome) = o_summary outcome)
       (PlainError ''Activation outcome summary must equal result summary.'' []))) (\<lambda>_.
     let fs = [''lifecycle''] @
           (if c_status_text existing \<noteq> Some (o_summary outcome) then [''status_text''] else []) @
           (if c_status_text_updated_at existing \<noteq> Some settledAt then [''status_text_updated_at''] else []) @
           (if c_pending_notifications existing \<noteq> [] then [''pending_notifications''] else []);
         candidate = existing\<lparr>c_lifecycle := terminal_lifecycle outcome settledAt,
           c_status_text := Some (o_summary outcome), c_status_text_updated_at := Some settledAt,
           c_pending_notifications := [], c_updated_at := settledAt, c_version_seq := c_version_seq existing + 1\<rparr> in
     bindS (liftS (parse_card z candidate)) (\<lambda>parsed.
     bindS (liftS (versionChange z existing (Some parsed) KTerminal fs (summarizeChangedFields fs)
         ''terminal lifecycle commit'' None k)) (\<lambda>change.
     bindS (publishCardVersion z parsed change None (k_head k)) (\<lambda>published.
     bindS (liftS (cardParentId (c_id existing))) (\<lambda>parent.
     bindS (publishCardVersionEffects change parent True []) (\<lambda>_.
     bindS (liftS (optionE (PlainError ''TypeError'' []) published)) (\<lambda>artifact.
     returnS (parsed, \<lparr>ref_entry_id = art_entry_id artifact, ref_version = art_version artifact\<rparr>))))))))))"

section \<open>Children\<close>

datatype reorder_result = Reordered nat | NotReordered "string list" "string list"

definition publishExactChildReorder ::
    "zod \<Rightarrow> card_record \<Rightarrow> string list \<Rightarrow> stamps \<Rightarrow> ('a project_store_scheme, card_record) op" where
  "publishExactChildReorder z parent fullOrder k =
     publishVersion z parent
       (parent\<lparr>c_active_child_order := fullOrder, c_version_seq := c_version_seq parent + 1, c_updated_at := k_now k\<rparr>)
       KReorder [''active_child_order''] ''children reordered'' ''children reordered'' None None k"

definition reorderChildren ::
    "zod \<Rightarrow> string \<Rightarrow> string list \<Rightarrow> stamps \<Rightarrow> ('a project_store_scheme, reorder_result) op" where
  "reorderChildren z parentId orderedChildIds k =
     bindS (readS (\<lambda>st. readLinkedChildrenProjection z st parentId)) (\<lambda>(parent, activeChildren).
     let actual = map c_id activeChildren in
     if length actual \<noteq> length orderedChildIds \<or> \<not> distinct orderedChildIds \<or> \<not> set actual \<subseteq> set orderedChildIds
     then returnS (NotReordered (filter (\<lambda>i. i \<notin> set orderedChildIds) actual)
       (filter (\<lambda>i. i \<notin> set actual) orderedChildIds))
     else
       let fullOrder = orderedChildIds @ filter (\<lambda>i. i \<notin> set actual) (c_active_child_order parent);
           changed = length (filter (\<lambda>(a, b). a \<noteq> b) (zip actual orderedChildIds)) in
       if changed = 0 then returnS (Reordered 0)
       else bindS (publishExactChildReorder z parent fullOrder k) (\<lambda>_. returnS (Reordered changed)))"

definition admitChildParent ::
    "card_record \<Rightarrow> string \<Rightarrow> (string \<rightharpoonup> compiled_workflow) \<Rightarrow> error + compiled_workflow" where
  "admitChildParent parent message workflows =
     bindE (optionE (PlainError ''No compiled workflow exists for card type'' [c_type parent]) (workflows (c_type parent))) (\<lambda>workflow.
     bindE (guardE (w_permitted workflow \<noteq> [] \<and> canCreateChildInStatus (c_status parent))
       (PlainError message [c_id parent])) (\<lambda>_.
     Inr workflow))"

definition assertPermittedChildType ::
    "card_record \<Rightarrow> string \<Rightarrow> string \<Rightarrow> compiled_workflow \<Rightarrow> error + unit" where
  "assertPermittedChildType parent childType message workflow =
     guardE (childType \<in> set (w_permitted workflow)) (PlainError message [c_id parent])"

definition create_admission ::
    "zod \<Rightarrow> (string \<rightharpoonup> compiled_workflow) \<Rightarrow> new_child_input \<Rightarrow> ('a project_store_scheme, card_record \<times> nat \<times> compiled_workflow) op" where
  "create_admission z workflows input =
     bindS (liftS (guardE (\<not> is_blank (in_bootstrap_content input))
       (PlainError ''Child bootstrap_content must contain non-whitespace Markdown.'' []))) (\<lambda>_.
     bindS (liftS (guardE (in_title input \<noteq> []) (PlainError ''Child title and priority are invalid.'' []))) (\<lambda>_.
     bindS (readS (\<lambda>st. bindE (readCard z st (in_parent input))
       (optionE (PlainError ''Parent card does not exist.'' [in_parent input])))) (\<lambda>parent.
     bindS (liftS (cardDepth (c_id parent))) (\<lambda>parentDepth.
     let depth = parentDepth + 1 in
     bindS (liftS (guardE (depth \<le> MAX_CARD_DEPTH) (PlainError ''Cannot create card at depth'' []))) (\<lambda>_.
     bindS (liftS (admitChildParent parent ''Cannot create a child under'' workflows)) (\<lambda>parentWorkflow.
     bindS (liftS (optionE (PlainError ''No workflow for child type'' [in_type input]) (workflows (in_type input)))) (\<lambda>childWorkflow.
     bindS (liftS (assertPermittedChildType parent (in_type input) ''Cannot create a child under'' parentWorkflow)) (\<lambda>_.
     bindS (liftS (guardE (\<not> (depth = MAX_CARD_DEPTH \<and> w_permitted childWorkflow \<noteq> []))
       (PlainError ''Cannot create non-leaf child type at maximum card depth'' [in_type input]))) (\<lambda>_.
     bindS (forS (\<lambda>dep. readS (\<lambda>st. bindE (readCard z st dep) (\<lambda>r.
         guardE (r \<noteq> None) (PlainError ''Dependency card does not exist.'' [dep])))) (in_depends_on input)) (\<lambda>_.
     returnS (parent, depth, childWorkflow)))))))))))"

definition linkChild ::
    "zod \<Rightarrow> (string \<rightharpoonup> compiled_workflow) \<Rightarrow> new_child_input \<Rightarrow> string \<Rightarrow> string \<Rightarrow> stamps \<Rightarrow> ('a project_store_scheme, unit) op" where
  "linkChild z workflows input parentId childId k =
     bindS (readS (\<lambda>st. readCard z st parentId)) (\<lambda>fresh.
     bindS (liftS (guardE (pred_option (\<lambda>p. childId \<notin> set (c_child_membership p)) fresh \<and> fresh \<noteq> None)
       (PlainError ''Parent changed during child publication.'' [parentId]))) (\<lambda>_.
     let freshParent = the fresh in
     bindS (liftS (admitChildParent freshParent ''Cannot link a child under'' workflows)) (\<lambda>workflow.
     bindS (liftS (assertPermittedChildType freshParent (in_type input) ''Cannot link a child under'' workflow)) (\<lambda>_.
     bindS (liftS (parse_card z (freshParent
       \<lparr>c_child_membership := c_child_membership freshParent @ [childId],
        c_active_child_order := c_active_child_order freshParent @ [childId],
        c_version_seq := c_version_seq freshParent + 1, c_updated_at := k_now k\<rparr>))) (\<lambda>linked.
     bindS (liftS (versionChange z freshParent (Some linked) KChildLink [''child_membership'', ''active_child_order'']
         (''linked child '' @ childId) ''child linked'' None k)) (\<lambda>change.
     bindS (publishCardVersion z linked change None (k_head k)) (\<lambda>_.
     bindS (liftS (cardParentId (c_id freshParent))) (\<lambda>grandparent.
     publishCardVersionEffects change grandparent True []))))))))"

definition create ::
    "zod \<Rightarrow> (string \<Rightarrow> string) \<Rightarrow> (string \<rightharpoonup> compiled_workflow) \<Rightarrow> new_child_input \<Rightarrow> birth_ids \<Rightarrow> stamps \<Rightarrow>
     ('a project_store_scheme, card_record) op" where
  "create z sha workflows input ids k =
     bindS (create_admission z workflows input) (\<lambda>(parent, depth, childWorkflow).
     bindS (publishInitialChildCard z sha input childWorkflow ids) (\<lambda>c.
     bindS (liftS (cardParentId (c_id c))) (\<lambda>claimedParent.
     bindS (liftS (cardDepth (c_id c))) (\<lambda>claimedDepth.
     bindS (liftS (guardE (claimedParent = Some (c_id parent) \<and> claimedDepth = depth)
       (PlainError ''Claimed card does not belong to requested parent'' [c_id c, c_id parent]))) (\<lambda>_.
     bindS (linkChild z workflows input (c_id parent) (c_id c) k) (\<lambda>_.
     bindS (emit (AgentMembershipChanged (c_id c))) (\<lambda>_.
     returnS c)))))))"

end
