(* ===== verification/CardServiceLaws.thy ===== *)
theory CardServiceLaws
  imports CardService
begin

text \<open>
  What the card service guarantees: the documents it builds pass the validators of the
  persistence layer, so that an admitted operation succeeds and reads back.
\<close>

section \<open>Published documents are valid\<close>

lemma transition_fields:
  assumes "validateCardTransition p n v path Live = Inr ()" and "\<not> is_queue_kind (v_kind v)"
  shows "filter (\<lambda>f. f \<noteq> ''pending_notifications'') (v_changed_fields v) \<noteq> []" "v_kind v \<noteq> KDelete"
proof -
  from assms(1) have "filter (\<lambda>f. f \<noteq> ''pending_notifications'') (v_changed_fields v) \<noteq> [] \<and> v_kind v \<noteq> KDelete"
  proof (cases rule: transition_cases)
    case git
    then show ?thesis by (auto simp: validateGitSource_def errE)
  next
    case update
    then obtain f rest where f: "actualDelta p n = f # rest" by (cases "actualDelta p n") auto
    with update(4) have "f \<noteq> ''pending_notifications''" by auto
    with f update show ?thesis by simp
  next
    case status
    then show ?thesis by (auto simp: validateStatus_iff Let_def)
  next
    case terminal
    then show ?thesis by (auto simp: validateTerminal_def errE terminal_fields_def)
  qed (use assms(2) in auto)
  then show "filter (\<lambda>f. f \<noteq> ''pending_notifications'') (v_changed_fields v) \<noteq> []" "v_kind v \<noteq> KDelete" by blast+
qed

lemma ordinaryChange_schema:
  assumes "cardVersionChangeSchema z v" and "filter (\<lambda>f. f \<noteq> ''pending_notifications'') (v_changed_fields v) \<noteq> []"
  shows "cardVersionChangeSchema z (ordinaryChange v)"
  using assms by (auto simp: cardVersionChangeSchema_def ordinaryChange_summary list_all_iff)

lemma record_schema_parts:
  assumes "cardRecordSchema z c"
  shows "cardIdSchema (c_id c)" "positiveSafeIntegerSchema (c_version_seq c)" "datetime z (c_updated_at c)"
    "list_all uuidV4Schema (c_pending_notifications c)" "distinct (c_pending_notifications c)"
  using assms by (simp_all add: cardRecordSchema_defs)

lemma next_artifact_schema:
  assumes sel: "readExactCard z st (c_id c) = Inr sel" "\<not> s_tombstone sel"
    and c: "cardRecordSchema z c" and v: "cardVersionChangeSchema z v" "uuidV4Schema (v_entry_id v)"
    and trans: "validateCardTransition (s_card sel) c v (c_id c) Live = Inr ()" and kind: "\<not> is_queue_kind (v_kind v)"
  shows "cardVersionArtifactSchema z (next_artifact sel c v)"
proof -
  note link = transition_linkage [OF trans] and parts = record_schema_parts [OF c]
  note fs = transition_fields [OF trans kind]
  note head = readExactCard_head [OF sel(1)]
  have ref: "cardArtifactReferenceSchema (h_ordinary (s_selection sel))"
    "ref_version (h_ordinary (s_selection sel)) \<le> h_version_seq (s_selection sel)"
    using head(3) by (auto simp: cardHeadSchema_def)
  have seq: "h_version_seq (s_selection sel) = c_version_seq (s_card sel)" "0 < c_version_seq (s_card sel)"
    using sel head(3) by (auto elim: readExactCard_version simp: cardHeadSchema_def positiveSafeIntegerSchema_def)
  have "cardRecordSchema z (version_card (next_artifact sel c v))"
    using cardRecordSchema_payload [OF c] parts link(8) by (simp add: version_card_def cardRecordSchema_with_current)
  moreover have "cardVersionChangeSchema z (ordinaryChange v)" using v(1) fs(1) by (rule ordinaryChange_schema)
  ultimately show ?thesis
    using v(2) parts link ref seq fs kind cardRecordSchema_payload [OF c]
    by (auto simp: cardVersionArtifactSchema_def)
qed

lemma next_head_schema:
  assumes "cardHeadSchema z (s_selection sel)" and "cardRecordSchema z c" and "uuidV4Schema headId"
    and "cardArtifactReferenceSchema r" and "ref_version r \<le> c_version_seq c"
  shows "cardHeadSchema z (next_head sel r c headId)"
  using assms record_schema_parts [OF assms(2)] by (simp add: cardHeadSchema_def)

lemma publishCardVersion_ordinary_succeeds:
  assumes sel: "readExactCard z st (c_id c) = Inr sel" "\<not> s_tombstone sel"
    and c: "cardRecordSchema z c" and v: "cardVersionChangeSchema z v" "uuidV4Schema (v_entry_id v)"
    and trans: "validateCardTransition (s_card sel) c v (c_id c) Live = Inr ()" and kind: "\<not> is_queue_kind (v_kind v)"
    and fresh: "history st (c_id c, v_entry_id v) = None" and headId: "uuidV4Schema headId"
  shows "\<exists>st'. publishCardVersion z c v n headId st = (Inr (Some (CardVersion (next_artifact sel c v))), st')"
proof -
  note art = next_artifact_schema [OF sel c v trans kind] and head = readExactCard_head [OF sel(1)]
  have "cardHeadSchema z (next_head sel (change_ref v c) c headId)"
    using next_head_schema [OF head(3) c headId] v(2) record_schema_parts(2) [OF c]
    by (simp add: cardArtifactReferenceSchema_def)
  with sel c v trans kind fresh art head show ?thesis
    by (simp add: publishCardVersion_def parse_card_def parse_change_def parse_artifact_def parse_head_def
        publishFreshHistory_def referenceOf_def bindS_def readS_def liftS_def modifyS_def returnS_def)
qed

lemma publishCardVersion_remove_succeeds:
  assumes sel: "readExactCard z st (c_id c) = Inr sel" "\<not> s_tombstone sel"
    and c: "cardRecordSchema z c" and v: "cardVersionChangeSchema z v"
    and trans: "validateCardTransition (s_card sel) c v (c_id c) Live = Inr ()" and kind: "v_kind v = KNotificationRemove"
    and headId: "uuidV4Schema headId"
  shows "\<exists>st'. publishCardVersion z c v n headId st = (Inr None, st')"
proof -
  note head = readExactCard_head [OF sel(1)]
  have "cardHeadSchema z (next_head sel (h_ordinary (s_selection sel)) c headId)"
  proof (rule next_head_schema [OF head(3) c headId])
    have "ref_version (h_ordinary (s_selection sel)) \<le> c_version_seq (s_card sel)"
      using sel head(3) by (auto elim: readExactCard_version simp: cardHeadSchema_def)
    then show "ref_version (h_ordinary (s_selection sel)) \<le> c_version_seq c" using transition_linkage(9) [OF trans] by simp
  qed (use head(3) in \<open>simp add: cardHeadSchema_def\<close>)
  with sel c v trans kind head show ?thesis
    by (simp add: publishCardVersion_def parse_card_def parse_change_def parse_head_def
        bindS_def readS_def liftS_def modifyS_def returnS_def)
qed

lemma publishCardVersion_enqueue_succeeds:
  assumes sel: "readExactCard z st (c_id c) = Inr sel" "\<not> s_tombstone sel"
    and c: "cardRecordSchema z c" and v: "cardVersionChangeSchema z v"
    and trans: "validateCardTransition (s_card sel) c v (c_id c) Live = Inr ()" and kind: "v_kind v = KNotificationEnqueue"
    and headId: "uuidV4Schema headId" and n: "cardNotificationSchema z m" "at_last (c_pending_notifications c) = Some (n_id m)"
    and fresh: "mailbox st (c_id c, n_id m) = None"
  shows "\<exists>st'. publishCardVersion z c v (Some m) headId st = (Inr None, st')"
proof -
  note head = readExactCard_head [OF sel(1)]
  have "cardHeadSchema z (next_head sel (h_ordinary (s_selection sel)) c headId)"
  proof (rule next_head_schema [OF head(3) c headId])
    have "ref_version (h_ordinary (s_selection sel)) \<le> c_version_seq (s_card sel)"
      using sel head(3) by (auto elim: readExactCard_version simp: cardHeadSchema_def)
    then show "ref_version (h_ordinary (s_selection sel)) \<le> c_version_seq c" using transition_linkage(9) [OF trans] by simp
  qed (use head(3) in \<open>simp add: cardHeadSchema_def\<close>)
  with sel c v trans kind head n fresh record_schema_parts(1) [OF c] show ?thesis
    by (simp add: publishCardVersion_def publishMailboxMessage_def parse_card_def parse_change_def parse_head_def
        cardMailboxMessageSchema_def bindS_def readS_def liftS_def modifyS_def returnS_def)
qed

section \<open>Reading depends on heads and history\<close>

lemma decodeCurrent_cong: "history st' = history st \<Longrightarrow> decodeCurrent z st' i = decodeCurrent z st i"
  by (intro ext) (simp add: decodeCurrent_def readArtifact_def)

lemma readExactCard_cong:
  assumes "heads st' i = heads st i" and "history st' = history st"
  shows "readExactCard z st' i = readExactCard z st i"
  unfolding readExactCard_def decodeCurrent_cong [OF assms(2)] assms(1) ..

lemma cards_same_reads: "cards_same st st' \<Longrightarrow> readExactCard z st' i = readExactCard z st i"
  unfolding cards_same_def by (elim conjE) (rule readExactCard_cong, simp_all)

lemma cards_same_sym: "cards_same st st' \<Longrightarrow> cards_same st' st"
  by (simp add: cards_same_def)

lemma linked_transfer:
  assumes "linked z st i sel" and "\<And>j s. readExactCard z st j = Inr s \<Longrightarrow> readExactCard z st' j = Inr s"
  shows "linked z st' i sel"
  using assms by (induction rule: linked.induct) (auto intro: linked.intros)

lemma cards_same_linked: "cards_same st st' \<Longrightarrow> linked z st' i sel \<longleftrightarrow> linked z st i sel"
  using linked_transfer [of z st i sel st'] linked_transfer [of z st' i sel st] cards_same_reads [of st st' z] by auto

lemma cards_same_store_ok:
  assumes same: "cards_same st st'" and ok: "store_ok z st"
  shows "store_ok z st'"
  unfolding store_ok_def
proof
  fix i assume "i \<in> dom (heads st')"
  then have "card_ok z st i" using same ok by (auto simp: cards_same_def store_ok_def)
  moreover have "documents_grow st st'" "heads st' i = heads st i" using same by (simp_all add: cards_same_def documents_grow_def)
  ultimately show "card_ok z st' i" by (rule card_ok_mono [rotated 2])
qed

lemma cards_same_links_ok:
  assumes same: "cards_same st st'" and ok: "links_ok z st"
  shows "links_ok z st'"
  unfolding links_ok_def
proof (intro allI impI)
  fix i sel assume "readExactCard z st' i = Inr sel"
  then have "readExactCard z st i = Inr sel" using cards_same_reads [OF same, of z i] by simp
  then have "set (c_child_membership (s_card sel)) \<subseteq> dom (heads st)" using ok unfolding links_ok_def by blast
  then show "set (c_child_membership (s_card sel)) \<subseteq> dom (heads st')" using same by (simp add: cards_same_def)
qed

section \<open>Links after a publication\<close>

lemma transition_membership:
  assumes "validateCardTransition p n v path l = Inr u"
  shows "c_child_membership n = c_child_membership p \<or>
    v_kind v = KChildLink \<and> (\<exists>i. c_child_membership n = c_child_membership p @ [i])"
  using assms
proof (cases rule: transition_cases)
  case git
  then have "actualDelta p n = [''git'']" by (simp add: validateGitSource_def errE)
  then show ?thesis using actualDelta_mem(3) [of p n] by simp
next
  case update
  then have "''child_membership'' \<notin> set (actualDelta p n)" by auto
  then show ?thesis by (simp add: actualDelta_mem)
next
  case status
  then have "''child_membership'' \<notin> set (actualDelta p n)" by (auto simp: validateStatus_iff Let_def)
  then show ?thesis by (simp add: actualDelta_mem)
next
  case terminal
  then have "actualDelta p n = terminal_fields p n" by (auto simp: validateTerminal_def errE)
  then have "''child_membership'' \<notin> set (actualDelta p n)" by (auto simp: terminal_fields_def)
  then show ?thesis by (simp add: actualDelta_mem)
qed (use actualDelta_mem(3) [of p n] in auto)

text \<open>A linked card stays linked when one card is replaced by a live version with at least its members.\<close>

lemma linked_replace:
  assumes "linked z st j s" and "readExactCard z st' i = Inr sel'" "\<not> s_tombstone sel'"
    and "\<And>sel. readExactCard z st i = Inr sel \<Longrightarrow> set (c_child_membership (s_card sel)) \<subseteq> set (c_child_membership (s_card sel'))"
    and "\<And>k t. k \<noteq> i \<Longrightarrow> readExactCard z st k = Inr t \<Longrightarrow> readExactCard z st' k = Inr t"
  shows "linked z st' j (if j = i then sel' else s)"
  using assms(1)
proof (induction rule: linked.induct)
  case (root sel)
  have "readExactCard z st' ''project'' = Inr (if ''project'' = i then sel' else sel)" using root assms(2,5) by auto
  then show ?case by (rule linked.root)
next
  case (child p parent s j sel)
  have "j \<in> set (c_child_membership (s_card (if p = i then sel' else parent)))"
    using child linked_reads [OF child(1)] assms(4) by (auto split: if_splits)
  with child assms(2,3,5) show ?case by (intro linked.child [OF child.IH child.hyps(2)]) auto
qed

lemma publishCardVersion_linked:
  assumes pub: "publishCardVersion z c v n headId st = (Inr r, st')" and "linked z st j s"
  obtains sel' where "readExactCard z st' (c_id c) = Inr sel'" "s_card sel' = c"
    "linked z st' j (if j = c_id c then sel' else s)"
proof -
  from pub obtain sel sel' where sel: "readExactCard z st (c_id c) = Inr sel" "readExactCard z st' (c_id c) = Inr sel'"
    by (rule publishCardVersion_read) blast
  note read = publishCardVersion_read_of [OF pub sel]
  have "linked z st' j (if j = c_id c then sel' else s)"
  proof (rule linked_replace [OF assms(2) sel(2) read(2)])
    show "set (c_child_membership (s_card t)) \<subseteq> set (c_child_membership (s_card sel'))"
      if "readExactCard z st (c_id c) = Inr t" for t
      using that sel(1) read(3) transition_membership [OF read(7)] by auto
    show "readExactCard z st' k = Inr t" if "k \<noteq> c_id c" "readExactCard z st k = Inr t" for k t
      using versions.other_card_unchanged [OF pub that] by blast
  qed
  with sel(2) read(3) that show thesis by blast
qed

section \<open>Effects\<close>

lemma emit_run [simp]: "emit e st = (Inr (), st\<lparr>effects := effects st @ [e]\<rparr>)"
  by (simp add: emit_def modifyS_def)

lemma forS_emit: "forS (\<lambda>x. emit (f x)) xs st = (Inr (), st\<lparr>effects := effects st @ map f xs\<rparr>)"
  by (induction xs arbitrary: st) (auto simp: returnS_def bindS_def)

definition effects_of :: "card_version_change \<Rightarrow> string option \<Rightarrow> bool \<Rightarrow> string list \<Rightarrow> freshness_effect list" where
  "effects_of v parent rc names =
     map (\<lambda>scope. CardScope scope (v_card_id v)) [''detail'', ''history'', ''diff'', ''children''] @
     (case parent of None \<Rightarrow> [] | Some p \<Rightarrow> [CardScope ''children'' p]) @
     map (RecordScope (v_card_id v)) names @ (if rc then [RuntimeChanged] else [])"

lemma publishCardVersionEffects_run:
  "publishCardVersionEffects v parent rc names st = (Inr (), st\<lparr>effects := effects st @ effects_of v parent rc names\<rparr>)"
  by (cases parent) (simp_all add: publishCardVersionEffects_def bindS_def forS_emit returnS_def effects_of_def)

lemma publishCardVersionEffects_cards: "keeps cards_same (publishCardVersionEffects v parent rc names)"
  by (rule keepsI) (auto simp: publishCardVersionEffects_run cards_same_def)

lemma cardParentId_total: "cardIdSchema i \<Longrightarrow> \<exists>p. cardParentId i = Inr p"
  by (auto simp: cardParentId_def cardIdSegments_def)

section \<open>Publishing through the service\<close>

lemma require_card_iff [errE]:
  "require_card z i st = (Inr c, st') \<longleftrightarrow> (\<exists>sel. linked z st i sel \<and> s_card sel = c) \<and> st' = st"
  by (auto simp: require_card_def errE readCard_iff bindE_Inr_iff)

lemma require_card_run: "linked z st i sel \<Longrightarrow> require_card z i st = (Inr (s_card sel), st)"
  using require_card_iff [of z i st "s_card sel" st] by blast

lemma publishVersion_Inr:
  assumes "publishVersion z ex c kind fs reason summary agent nt k st = (Inr r, st')"
  obtains v st1 a parent where "r = c" "versionChange z ex (Some c) kind fs summary reason agent k = Inr v"
    "publishCardVersion z c v nt (k_head k) st = (Inr a, st1)" "cardParentId (c_id ex) = Inr parent"
    "st' = st1\<lparr>effects := effects st1 @ effects_of v parent (''lifecycle'' \<in> set fs) []\<rparr>"
  using assms by (auto simp: publishVersion_def errE publishCardVersionEffects_run)

lemma publishVersion_run:
  assumes "cardRecordSchema z c" and "versionChange z ex (Some c) kind fs summary reason agent k = Inr v"
    and "publishCardVersion z c v nt (k_head k) st = (Inr a, st1)" and "cardParentId (c_id ex) = Inr parent"
  shows "publishVersion z ex c kind fs reason summary agent nt k st =
    (Inr c, st1\<lparr>effects := effects st1 @ effects_of v parent (''lifecycle'' \<in> set fs) []\<rparr>)"
  using assms by (simp add: publishVersion_def parse_card_def bindS_def liftS_def publishCardVersionEffects_run returnS_def)

text \<open>After a publication through the service the card reads as the candidate, and every other
  linked card reads as before.\<close>

lemma publishVersion_reads:
  assumes pub: "publishVersion z ex c kind fs reason summary agent nt k st = (Inr r, st')"
    and "linked z st j s"
  shows "readCard z st' j = Inr (Some (if j = c_id c then c else s_card s))"
proof -
  from pub obtain v st1 a parent where p: "publishCardVersion z c v nt (k_head k) st = (Inr a, st1)"
    "st' = st1\<lparr>effects := effects st1 @ effects_of v parent (''lifecycle'' \<in> set fs) []\<rparr>"
    by (rule publishVersion_Inr) blast
  from publishCardVersion_linked [OF p(1) assms(2)] obtain sel' where
    l: "s_card sel' = c" "linked z st1 j (if j = c_id c then sel' else s)" by blast
  have "cards_same st1 st'" using p(2) by (simp add: cards_same_def)
  then have "linked z st' j (if j = c_id c then sel' else s)" using l(2) by (simp add: cards_same_linked)
  with l(1) show ?thesis unfolding readCard_iff by auto
qed

end
