(* ===== verification/CardInvariant.thy ===== *)
theory CardInvariant
  imports CardServiceLaws
begin

text \<open>
  The invariant of a project: every card is intact, memberships are backed by cards, identities
  are claimed once, dependencies were claimed before their dependents and active cards depend
  on active cards only. It makes the active tree listable: the walk and the dependency
  validator succeed.
\<close>

section \<open>The invariant\<close>

definition earlier :: "'a list \<Rightarrow> 'a \<Rightarrow> 'a \<Rightarrow> bool" where
  "earlier ns d i \<longleftrightarrow> d \<in> set (takeWhile (\<lambda>x. x \<noteq> i) ns)"

definition names_ok :: "'a card_store_scheme \<Rightarrow> bool" where
  "names_ok st \<longleftrightarrow> distinct (namespaces st) \<and> dom (heads st) \<subseteq> set (namespaces st)"

definition order_ok :: "zod \<Rightarrow> 'a card_store_scheme \<Rightarrow> bool" where
  "order_ok z st \<longleftrightarrow> (\<forall>i sel. readExactCard z st i = Inr sel \<longrightarrow>
     (\<forall>d \<in> set (c_depends_on (s_card sel)). earlier (namespaces st) d i))"

definition closed_ok :: "zod \<Rightarrow> 'a card_store_scheme \<Rightarrow> bool" where
  "closed_ok z st \<longleftrightarrow> (\<forall>i sel. linked z st i sel \<longrightarrow>
     (\<forall>d \<in> set (c_depends_on (s_card sel)). \<exists>s. linked z st d s))"

definition project_ok :: "zod \<Rightarrow> 'a card_store_scheme \<Rightarrow> bool" where
  "project_ok z st \<longleftrightarrow> store_ok z st \<and> links_ok z st \<and> names_ok st \<and> order_ok z st \<and> closed_ok z st"

lemma earlier_append: "i \<in> set ns \<Longrightarrow> earlier (ns @ xs) d i \<longleftrightarrow> earlier ns d i"
  by (simp add: earlier_def)

lemma earlier_snoc: "i \<notin> set ns \<Longrightarrow> d \<in> set ns \<Longrightarrow> earlier (ns @ [i]) d i"
  unfolding earlier_def by (subst takeWhile_append2) auto

lemma earlier_irrefl: "\<not> earlier ns i i"
  by (auto simp: earlier_def dest: set_takeWhileD)

lemma earlier_index: "earlier ns d i \<Longrightarrow> length (takeWhile (\<lambda>x. x \<noteq> d) ns) < length (takeWhile (\<lambda>x. x \<noteq> i) ns)"
proof (induction ns)
  case (Cons x ns)
  then show ?case by (cases "x = i"; cases "x = d") (auto simp: earlier_def)
qed (simp add: earlier_def)

section \<open>The active tree can be listed\<close>

lemma project_ok_lists:
  assumes ok: "project_ok z st"
  shows "\<exists>rows. listActiveCardTraversal z st = Inr rows \<and> distinct (row_ids rows) \<and>
    t_card ` set rows = {s_card s | s. \<exists>i. linked z st i s}"
proof -
  have parts: "store_ok z st" "links_ok z st" "order_ok z st" "closed_ok z st" using ok by (simp_all add: project_ok_def)
  obtain r where r: "readRoot z st = Inr r" using readRoot_total [OF parts(1)] by blast
  show ?thesis
  proof (cases r)
    case None
    have "\<not> linked z st i s" for i s
    proof
      assume "linked z st i s"
      then have "\<exists>t. readExactCard z st ''project'' = Inr t" by (induction rule: linked.induct) auto
      with r None show False using readRoot_iff [of z st] by auto
    qed
    with r None show ?thesis by (auto simp: listActiveCardTraversal_def)
  next
    case (Some root)
    with r obtain rows where rows: "walkActivePreorder z st root = Inr rows" "distinct (row_ids rows)"
        "t_card ` set rows = {s_card s | s. \<exists>i. linked z st i s}"
      using walk_root [OF parts(1,2)] by blast
    let ?cards = "map t_card rows"
    have ids: "c_id ` set ?cards = {i. \<exists>s. linked z st i s}"
    proof -
      have "c_id ` set ?cards = c_id ` {s_card s | s. \<exists>i. linked z st i s}" using rows(3) by (simp add: image_image [symmetric] image_comp)
      then show ?thesis unfolding linked_below using below_ids [of z st "''project''"] by simp
    qed
    have "set (c_depends_on c) \<subseteq> c_id ` set ?cards" if "c \<in> set ?cards" for c
    proof -
      have "c \<in> {s_card s | s. \<exists>i. linked z st i s}" using that rows(3) by simp
      then show ?thesis using parts(4) unfolding ids closed_ok_def by blast
    qed
    moreover have "acyclic (dep_edges ?cards)"
    proof -
      let ?idx = "\<lambda>i. length (takeWhile (\<lambda>x. x \<noteq> i) (namespaces st))"
      have "?idx d < ?idx i" if "(i, d) \<in> dep_edges ?cards" for i d
      proof -
        obtain c where c: "lookup_card ?cards i = Some c" "d \<in> set (c_depends_on c)" using \<open>(i, d) \<in> dep_edges ?cards\<close>
          unfolding dep_edges_def by blast
        then obtain s where "linked z st i s" "s_card s = c" using lookup_linked [OF rows(3), of i c] by blast
        then have "earlier (namespaces st) d i" using c(2) parts(3) linked_reads unfolding order_ok_def by blast
        then show ?thesis by (rule earlier_index)
      qed
      then have "(dep_edges ?cards)\<inverse> \<subseteq> measure ?idx" by auto
      then have "wf ((dep_edges ?cards)\<inverse>)" by (rule wf_subset [rotated]) simp
      then show ?thesis by (metis wf_acyclic acyclic_converse)
    qed
    ultimately have "validateParsedCards ?cards = Inr ()" unfolding validateParsedCards_iff by blast
    with r Some rows show ?thesis by (simp add: listActiveCardTraversal_def)
  qed
qed

section \<open>Quiet steps\<close>

text \<open>Heads stay, documents may be added and namespaces may be claimed.\<close>

definition quiet :: "'a card_store_scheme \<Rightarrow> 'a card_store_scheme \<Rightarrow> bool" where
  "quiet st st' \<longleftrightarrow> documents_grow st st' \<and> heads st' = heads st \<and>
     (\<exists>xs. namespaces st' = namespaces st @ xs \<and> distinct xs \<and> set xs \<inter> set (namespaces st) = {})"

interpretation quiet: state_frame quiet
proof unfold_locales
  show "quiet s s" for s :: "'a card_store_scheme"
    by (simp add: quiet_def documents_grow_def)
  show "quiet s u" if q: "quiet s t" "quiet t u" for s t u :: "'a card_store_scheme"
  proof -
    obtain xs ys where "namespaces t = namespaces s @ xs" "namespaces u = namespaces t @ ys" "distinct xs" "distinct ys"
        "set xs \<inter> set (namespaces s) = {}" "set ys \<inter> set (namespaces t) = {}"
      using q unfolding quiet_def by blast
    then have "namespaces u = namespaces s @ (xs @ ys)" "distinct (xs @ ys)" "set (xs @ ys) \<inter> set (namespaces s) = {}" by auto
    moreover have "documents_grow s u" "heads u = heads s"
      using q grow.frame_trans [of s t u] by (auto simp: quiet_def)
    ultimately show ?thesis unfolding quiet_def by blast
  qed
qed

lemma cards_same_quiet: "cards_same st st' \<Longrightarrow> quiet st st'"
  by (simp add: cards_same_def quiet_def documents_grow_def)

lemma reads_other:
  assumes ok: "store_ok z st" and "history st \<subseteq>\<^sub>m history st'" and "heads st' i = heads st i"
  shows "readExactCard z st' i = readExactCard z st i"
proof (cases "heads st i")
  case None
  with assms(3) show ?thesis by (simp add: readExactCard_def)
next
  case (Some h)
  then obtain sel where "readExactCard z st i = Inr sel" using ok by (auto simp: store_ok_def card_ok_iff)
  with readExactCard_mono [OF assms(2,3) this] show ?thesis by simp
qed

lemma linked_cong:
  assumes "\<And>j. readExactCard z st' j = readExactCard z st j"
  shows "linked z st' i sel \<longleftrightarrow> linked z st i sel"
  using linked_transfer [of z st i sel st'] linked_transfer [of z st' i sel st] assms by auto

lemma quiet_project_ok:
  assumes q: "quiet st st'" and ok: "project_ok z st"
  shows "project_ok z st'"
proof -
  have st: "store_ok z st" "links_ok z st" "names_ok st" "order_ok z st" "closed_ok z st"
    using ok by (simp_all add: project_ok_def)
  have grow: "documents_grow st st'" and heads: "heads st' = heads st" using q by (simp_all add: quiet_def)
  obtain xs where xs: "namespaces st' = namespaces st @ xs" "distinct xs" "set xs \<inter> set (namespaces st) = {}"
    using q by (auto simp: quiet_def)
  have reads: "readExactCard z st' j = readExactCard z st j" for j
    using reads_other [OF st(1) documents_growD [OF grow]] heads by simp
  have "store_ok z st'"
    unfolding store_ok_def
  proof
    fix i assume "i \<in> dom (heads st')"
    then have "card_ok z st i" using heads st(1) by (simp add: store_ok_def)
    then show "card_ok z st' i" by (rule card_ok_mono [OF grow, rotated]) (simp add: heads)
  qed
  moreover have "links_ok z st'" using st(2) unfolding links_ok_def reads heads .
  moreover have "names_ok st'" using st(3) xs heads by (auto simp: names_ok_def)
  moreover have "order_ok z st'"
    unfolding order_ok_def reads
  proof (intro allI impI ballI)
    fix i sel d
    assume i: "readExactCard z st i = Inr sel" "d \<in> set (c_depends_on (s_card sel))"
    then have "i \<in> set (namespaces st)" using readExactCard_head(1) [OF i(1)] st(3) by (auto simp: names_ok_def)
    then show "earlier (namespaces st') d i" using i st(4) xs(1) by (auto simp: order_ok_def earlier_append)
  qed
  moreover have "closed_ok z st'" using st(5) unfolding closed_ok_def linked_cong [OF reads] .
  ultimately show ?thesis by (simp add: project_ok_def)
qed

section \<open>One card changes\<close>

lemma store_ok_step:
  assumes "store_ok z st" "documents_grow st st'" "card_ok z st' i" "\<And>k. k \<noteq> i \<Longrightarrow> heads st' k = heads st k"
  shows "store_ok z st'"
  unfolding store_ok_def
proof
  fix k assume "k \<in> dom (heads st')"
  then show "card_ok z st' k"
    using assms card_ok_mono [OF assms(2), of k z] by (cases "k = i") (auto simp: store_ok_def domIff)
qed

text \<open>A live card is replaced by a live version with the same dependencies; its membership may
  gain cards without members whose dependencies are linked.\<close>

lemma replace_project_ok:
  assumes ok: "project_ok z st" and grow: "documents_grow st st'" and new: "card_ok z st' i"
    and other: "\<And>k. k \<noteq> i \<Longrightarrow> heads st' k = heads st k" and names: "namespaces st' = namespaces st"
    and sel: "readExactCard z st i = Inr sel" "\<not> s_tombstone sel"
    and sel': "readExactCard z st' i = Inr sel'" "\<not> s_tombstone sel'"
    and deps: "c_depends_on (s_card sel') = c_depends_on (s_card sel)"
    and mem: "set (c_child_membership (s_card sel')) = set (c_child_membership (s_card sel)) \<union> N"
    and N: "\<And>n. n \<in> N \<Longrightarrow> n \<noteq> i \<and> (\<exists>t. readExactCard z st n = Inr t \<and> c_child_membership (s_card t) = [] \<and>
        (\<forall>d \<in> set (c_depends_on (s_card t)). \<exists>s. linked z st d s))"
  shows "project_ok z st'"
proof -
  have st: "store_ok z st" "links_ok z st" "names_ok st" "order_ok z st" "closed_ok z st"
    using ok by (simp_all add: project_ok_def)
  have reads: "k \<noteq> i \<Longrightarrow> readExactCard z st' k = readExactCard z st k" for k
    using reads_other [OF st(1) documents_growD [OF grow]] other by simp
  have dom: "dom (heads st') = dom (heads st)"
  proof -
    have "k \<in> dom (heads st') \<longleftrightarrow> k \<in> dom (heads st)" for k
      using other [of k] readExactCard_head(1) [OF sel(1)] readExactCard_head(1) [OF sel'(1)] by (cases "k = i") (auto simp: domIff)
    then show ?thesis by blast
  qed
  have bwd: "(\<exists>s. linked z st j s \<and> c_depends_on (s_card s) = c_depends_on (s_card s')) \<or>
      j \<in> N \<and> readExactCard z st j = Inr s'" if "linked z st' j s'" for j s'
    using that
  proof (induction rule: linked.induct)
    case (root s)
    then show ?case using sel sel' deps reads by (cases "i = ''project''") (auto intro: linked.root)
  next
    case (child p ps seg j s)
    have p: "readExactCard z st' p = Inr ps" using child(1) by (rule linked_reads)
    have live: "\<exists>t. readExactCard z st j = Inr t \<and> \<not> s_tombstone t \<and> c_depends_on (s_card t) = c_depends_on (s_card s)"
      using child(4,5) sel sel' deps reads [of j] by (cases "j = i") auto
    from child.IH show ?case
    proof
      assume "\<exists>t. linked z st p t \<and> c_depends_on (s_card t) = c_depends_on (s_card ps)"
      then obtain t where t: "linked z st p t" by blast
      have tr: "readExactCard z st p = Inr t" using t by (rule linked_reads)
      have "j \<in> set (c_child_membership (s_card t)) \<or> p = i \<and> j \<in> N"
        using child(3) p tr sel sel' mem reads [of p] by (cases "p = i") auto
      then show ?thesis
      proof
        assume "j \<in> set (c_child_membership (s_card t))"
        with t child(2) live show ?thesis by (blast intro: linked.child)
      next
        assume "p = i \<and> j \<in> N"
        with N child(4) reads [of j] show ?thesis by auto
      qed
    next
      assume "p \<in> N \<and> readExactCard z st p = Inr ps"
      then have "c_child_membership (s_card ps) = []" using N [of p] by auto
      with child(3) show ?thesis by simp
    qed
  qed
  have forth: "\<exists>s'. linked z st' j s'" if "linked z st j s" for j s
  proof -
    have "linked z st' j (if j = i then sel' else s)"
      by (rule linked_replace [OF that sel']) (use sel mem reads in auto)
    then show ?thesis by blast
  qed
  have "store_ok z st'" by (rule store_ok_step [OF st(1) grow new other])
  moreover have "links_ok z st'"
    unfolding links_ok_def dom
  proof (intro allI impI)
    fix k t assume k: "readExactCard z st' k = Inr t"
    show "set (c_child_membership (s_card t)) \<subseteq> dom (heads st)"
    proof (cases "k = i")
      case True
      have "N \<subseteq> dom (heads st)" using N readExactCard_head(1) by blast
      moreover have "set (c_child_membership (s_card sel)) \<subseteq> dom (heads st)" using st(2) sel(1) unfolding links_ok_def by blast
      ultimately show ?thesis using True k sel'(1) mem by auto
    next
      case False
      then show ?thesis using st(2) k reads unfolding links_ok_def by auto
    qed
  qed
  moreover have "names_ok st'" using st(3) dom names by (simp add: names_ok_def)
  moreover have "order_ok z st'"
    unfolding order_ok_def names
  proof (intro allI impI)
    fix k t assume k: "readExactCard z st' k = Inr t"
    then show "\<forall>d \<in> set (c_depends_on (s_card t)). earlier (namespaces st) d k"
      using st(4) reads [of k] sel sel' deps unfolding order_ok_def by (cases "k = i") auto
  qed
  moreover have "closed_ok z st'"
    unfolding closed_ok_def
  proof (intro allI impI ballI)
    fix j s d assume j: "linked z st' j s" "d \<in> set (c_depends_on (s_card s))"
    from bwd [OF j(1)] have "\<exists>t. linked z st d t"
      using st(5) N j(2) unfolding closed_ok_def by (metis Inr_inject)
    then show "\<exists>t. linked z st' d t" using forth by blast
  qed
  ultimately show ?thesis by (simp add: project_ok_def)
qed

text \<open>A card is born: its head is new, it has no members and its dependencies are older.\<close>

lemma birth_project_ok:
  assumes ok: "project_ok z st" and grow: "documents_grow st st'" and new: "card_ok z st' i"
    and other: "\<And>k. k \<noteq> i \<Longrightarrow> heads st' k = heads st k" and names: "namespaces st' = namespaces st"
    and fresh: "heads st i = None" "i \<in> set (namespaces st)"
    and sel': "readExactCard z st' i = Inr sel'" "c_child_membership (s_card sel') = []"
    and deps: "\<forall>d \<in> set (c_depends_on (s_card sel')). earlier (namespaces st) d i" "i = ''project'' \<Longrightarrow> c_depends_on (s_card sel') = []"
  shows "project_ok z st' \<and> (i \<noteq> ''project'' \<longrightarrow> (\<forall>j s. linked z st' j s \<longleftrightarrow> linked z st j s))"
proof -
  have st: "store_ok z st" "links_ok z st" "names_ok st" "order_ok z st" "closed_ok z st"
    using ok by (simp_all add: project_ok_def)
  have reads: "k \<noteq> i \<Longrightarrow> readExactCard z st' k = readExactCard z st k" for k
    using reads_other [OF st(1) documents_growD [OF grow]] other by simp
  have dom: "dom (heads st') = insert i (dom (heads st))"
  proof -
    have "k \<in> dom (heads st') \<longleftrightarrow> k = i \<or> k \<in> dom (heads st)" for k
      using other [of k] readExactCard_head(1) [OF sel'(1)] by (cases "k = i") (auto simp: domIff)
    then show ?thesis by blast
  qed
  have unlinked: "i \<notin> set (c_child_membership (s_card t))" if "readExactCard z st k = Inr t" for k t
    using st(2) that fresh(1) unfolding links_ok_def by (metis domIff subsetD)
  have bwd: "linked z st j s \<or> i = ''project'' \<and> j = i \<and> s = sel'" if "linked z st' j s" for j s
    using that
  proof (induction rule: linked.induct)
    case (root s)
    then show ?case using sel'(1) reads by (cases "i = ''project''") (auto intro: linked.root)
  next
    case (child p ps seg j s)
    have "\<not> (p = i \<and> ps = sel')" using child(3) sel'(2) by auto
    with child.IH have p: "linked z st p ps" by blast
    then have "j \<noteq> i" using unlinked [OF linked_reads [OF p]] child(3) by blast
    with p child reads [of j] show ?case by (auto intro: linked.child)
  qed
  have forth: "linked z st' j s" if "linked z st j s" for j s
  proof (rule linked_transfer [OF that])
    fix k t assume k: "readExactCard z st k = Inr t"
    then have "k \<noteq> i" using readExactCard_head(1) [OF k] fresh(1) by auto
    then show "readExactCard z st' k = Inr t" using reads k by simp
  qed
  have "store_ok z st'" by (rule store_ok_step [OF st(1) grow new other])
  moreover have "links_ok z st'"
    unfolding links_ok_def dom
  proof (intro allI impI)
    fix k t assume "readExactCard z st' k = Inr t"
    then show "set (c_child_membership (s_card t)) \<subseteq> insert i (dom (heads st))"
      using st(2) reads [of k] sel' unfolding links_ok_def by (cases "k = i") auto
  qed
  moreover have "names_ok st'" using st(3) dom names fresh(2) by (simp add: names_ok_def)
  moreover have "order_ok z st'"
    unfolding order_ok_def names
  proof (intro allI impI)
    fix k t assume "readExactCard z st' k = Inr t"
    then show "\<forall>d \<in> set (c_depends_on (s_card t)). earlier (namespaces st) d k"
      using st(4) reads [of k] sel'(1) deps(1) unfolding order_ok_def by (cases "k = i") auto
  qed
  moreover have "closed_ok z st'"
    unfolding closed_ok_def
  proof (intro allI impI ballI)
    fix j s d assume j: "linked z st' j s" "d \<in> set (c_depends_on (s_card s))"
    then have "linked z st j s" using bwd deps(2) by fastforce
    then show "\<exists>t. linked z st' d t" using st(5) j(2) forth unfolding closed_ok_def by blast
  qed
  moreover have "i \<noteq> ''project'' \<longrightarrow> (\<forall>j s. linked z st' j s \<longleftrightarrow> linked z st j s)" using bwd forth by blast
  ultimately show ?thesis by (simp add: project_ok_def)
qed

text \<open>A card without active members on which no other active card depends is entombed.\<close>

lemma entomb_project_ok:
  assumes ok: "project_ok z st" and grow: "documents_grow st st'" and new: "card_ok z st' i"
    and other: "\<And>k. k \<noteq> i \<Longrightarrow> heads st' k = heads st k" and names: "namespaces st' = namespaces st"
    and sel: "linked z st i sel" "i \<noteq> ''project''"
    and sel': "readExactCard z st' i = Inr sel'" "s_tombstone sel'"
    and same: "ordinaryCardPayload (s_card sel') = ordinaryCardPayload (s_card sel)"
    and leaf: "\<And>m t. m \<in> set (c_child_membership (s_card sel)) \<Longrightarrow> readExactCard z st m = Inr t \<Longrightarrow> s_tombstone t"
    and unused: "\<And>j s. linked z st j s \<Longrightarrow> j \<noteq> i \<Longrightarrow> i \<notin> set (c_depends_on (s_card s))"
  shows "project_ok z st' \<and> (\<forall>j s. linked z st' j s \<longleftrightarrow> linked z st j s \<and> j \<noteq> i)"
proof -
  have st: "store_ok z st" "links_ok z st" "names_ok st" "order_ok z st" "closed_ok z st"
    using ok by (simp_all add: project_ok_def)
  have rd: "readExactCard z st i = Inr sel" using sel(1) by (rule linked_reads)
  have pay: "c_depends_on (s_card sel') = c_depends_on (s_card sel)" "c_child_membership (s_card sel') = c_child_membership (s_card sel)"
    using arg_cong [OF same, of c_depends_on] arg_cong [OF same, of c_child_membership] by simp_all
  have reads: "k \<noteq> i \<Longrightarrow> readExactCard z st' k = readExactCard z st k" for k
    using reads_other [OF st(1) documents_growD [OF grow]] other by simp
  have dom: "dom (heads st') = dom (heads st)"
  proof -
    have "k \<in> dom (heads st') \<longleftrightarrow> k \<in> dom (heads st)" for k
      using other [of k] readExactCard_head(1) [OF rd] readExactCard_head(1) [OF sel'(1)] by (cases "k = i") (auto simp: domIff)
    then show ?thesis by blast
  qed
  have bwd: "linked z st j s \<and> j \<noteq> i" if "linked z st' j s" for j s
    using that
  proof (induction rule: linked.induct)
    case (root s)
    then show ?case using sel(2) reads by (auto intro: linked.root)
  next
    case (child p ps seg j s)
    then have "j \<noteq> i" using sel' by auto
    with child reads [of j] show ?case by (auto intro: linked.child)
  qed
  have forth: "linked z st' j s" if "linked z st j s" "j \<noteq> i" for j s
    using that
  proof (induction rule: linked.induct)
    case (root s)
    then show ?case using reads by (auto intro: linked.root)
  next
    case (child p ps seg j s)
    have "p \<noteq> i"
    proof
      assume "p = i"
      then have "ps = sel" using linked_reads [OF child(1)] rd by simp
      with leaf child(3-5) show False by blast
    qed
    with child reads [of j] show ?case by (auto intro: linked.child)
  qed
  have "store_ok z st'" by (rule store_ok_step [OF st(1) grow new other])
  moreover have "links_ok z st'"
    unfolding links_ok_def dom
  proof (intro allI impI)
    fix k t assume "readExactCard z st' k = Inr t"
    then show "set (c_child_membership (s_card t)) \<subseteq> dom (heads st)"
      using st(2) reads [of k] sel'(1) rd pay unfolding links_ok_def by (cases "k = i") fastforce+
  qed
  moreover have "names_ok st'" using st(3) dom names by (simp add: names_ok_def)
  moreover have "order_ok z st'"
    unfolding order_ok_def names
  proof (intro allI impI)
    fix k t assume "readExactCard z st' k = Inr t"
    then show "\<forall>d \<in> set (c_depends_on (s_card t)). earlier (namespaces st) d k"
      using st(4) reads [of k] sel'(1) rd pay unfolding order_ok_def by (cases "k = i") auto
  qed
  moreover have "closed_ok z st'"
    unfolding closed_ok_def
  proof (intro allI impI ballI)
    fix j s d assume j: "linked z st' j s" "d \<in> set (c_depends_on (s_card s))"
    then have "linked z st j s" "j \<noteq> i" using bwd by blast+
    then have "d \<noteq> i" "\<exists>t. linked z st d t" using unused j(2) st(5) unfolding closed_ok_def by blast+
    then show "\<exists>t. linked z st' d t" using forth by blast
  qed
  ultimately show ?thesis using bwd forth by (auto simp: project_ok_def)
qed

end
