(* ===== verification/CardSteps.thy ===== *)
theory CardSteps
  imports CardInvariant
begin

text \<open>
  Every operation of the card service keeps the project invariant, whether it succeeds or fails
  halfway: the frame \<open>kept\<close> is carried through the code of each operation, with the publication
  of a version, the birth of a card and its link as the steps that touch heads.
\<close>

section \<open>The frame\<close>

definition kept :: "zod \<Rightarrow> 'a card_store_scheme \<Rightarrow> 'a card_store_scheme \<Rightarrow> bool" where
  "kept z st st' \<longleftrightarrow> (project_ok z st \<longrightarrow> project_ok z st')"

interpretation kept: state_frame "kept z" for z
  by unfold_locales (auto simp: kept_def)

lemma quiet_kept: "quiet st st' \<Longrightarrow> kept z st st'"
  using quiet_project_ok by (auto simp: kept_def)

lemma keeps_mono: "keeps R m \<Longrightarrow> (\<And>s t. R s t \<Longrightarrow> R' s t) \<Longrightarrow> keeps R' m"
  by (auto simp: keeps_def)

lemmas cards_same_kept = keeps_mono [OF _ quiet_kept [OF cards_same_quiet]]

definition names_same :: "'a card_store_scheme \<Rightarrow> 'a card_store_scheme \<Rightarrow> bool" where
  "names_same st st' \<longleftrightarrow> namespaces st' = namespaces st"

interpretation nsame: state_frame names_same
  by unfold_locales (auto simp: names_same_def)

lemma write_names:
  "keeps names_same (publishFreshHistory i a)" "keeps names_same (publishHeadFile i h m)"
  "keeps names_same (publishMailboxMessage z c nt)"
  by (auto simp: keeps_def names_same_def publishFreshHistory_def publishHeadFile_def publishMailboxMessage_def
      bindS_def readS_def liftS_def modifyS_def returnS_def guardE_def bindE_def
      split: prod.splits sum.splits if_splits publication_mode.splits option.splits)

lemma publication_names:
  "keeps names_same (publishCardVersion z c v nt headId)" "keeps names_same (publishInitialVersion z c e headId)"
  "keeps names_same (publishCardTombstone z i c v headId)"
  unfolding publishCardVersion_def publishInitialVersion_def publishCardTombstone_def Let_def
  by (intro nsame.keeps_rules write_names)+

context card_publication
begin

lemma failed_quiet:
  assumes "publish st = (Inl e, st')" and "keeps names_same publish"
  shows "quiet st st'"
proof -
  have "heads st' j = heads st j" for j
    using keepsD [OF frame assms(1)] atomic [OF assms(1)] by (cases "j = i") (auto simp: heads_outside_def)
  then have "heads st' = heads st" by blast
  then show ?thesis
    using keepsD [OF grows assms(1)] keepsD [OF assms(2) assms(1)] by (simp add: quiet_def names_same_def)
qed

end

section \<open>Versions\<close>

lemma publishCardVersion_kept:
  assumes kind: "v_kind v \<noteq> KChildLink"
  shows "keeps (kept z) (publishCardVersion z c v nt headId)"
proof (rule keepsI)
  fix st r st' assume run: "publishCardVersion z c v nt headId st = (r, st')"
  show "kept z st st'"
  proof (cases r)
    case (Inl e)
    with run show ?thesis using versions.failed_quiet publication_names(1) quiet_kept by blast
  next
    case (Inr a)
    then have pub: "publishCardVersion z c v nt headId st = (Inr a, st')" using run by simp
    then obtain sel sel' where sel: "readExactCard z st (c_id c) = Inr sel" "readExactCard z st' (c_id c) = Inr sel'"
      by (rule publishCardVersion_read) blast
    note read = publishCardVersion_read_of [OF pub sel]
    have mem: "c_child_membership c = c_child_membership (s_card sel)"
      using transition_membership [OF read(7)] kind by blast
    have deps: "c_depends_on c = c_depends_on (s_card sel)" using transition_linkage [OF read(7)] by simp
    show ?thesis
      unfolding kept_def
    proof
      assume ok: "project_ok z st"
      then have "card_ok z st' (c_id c)" using versions.selects [OF pub] by (simp add: project_ok_def)
      then show "project_ok z st'"
        using ok keepsD [OF versions.grows pub] keepsD [OF versions.frame pub] keepsD [OF publication_names(1) pub] read mem deps
        by (intro replace_project_ok [where i = "c_id c" and N = "{}", OF _ _ _ _ _ sel(1) _ sel(2)])
          (simp_all add: names_same_def heads_outside_def)
    qed
  qed
qed

lemma effects_kept: "keeps (kept z) (publishCardVersionEffects v parent b rs)"
  by (rule cards_same_kept [OF publishCardVersionEffects_cards])

lemma publishVersion_kept:
  assumes "kind \<noteq> KChildLink"
  shows "keeps (kept z) (publishVersion z ex c kind fs reason summary agent nt k)"
proof -
  have "v_kind v = kind" if "versionChange z ex n kind fs summary reason agent k = Inr v" for n v
    using that by (auto simp: versionChange_def Let_def errE)
  with assms show ?thesis
    unfolding publishVersion_def
    by (intro kept.keeps_lift kept.keeps_bind kept.keeps_prim publishCardVersion_kept effects_kept) auto
qed

lemmas version_kept = kept.keeps_rules publishVersion_kept effects_kept

lemma require_card_kept: "keeps (kept z) (require_card z' i)"
  unfolding require_card_def by (rule kept.keeps_prim)

lemma setStatus_kept: "keeps (kept z) (setStatus z i t k)"
  unfolding setStatus_def by (intro version_kept require_card_kept) simp

lemma service_versions_kept:
  "keeps (kept z) (publishGitFacts z i facts k)"
  "keeps (kept z) (editCard z i patch agent ks k)"
  "keeps (kept z) (stopRunning z i k)"
  "keeps (kept z) (activateStopped z i k)"
  "keeps (kept z) (enqueueNotification z i nt k)"
  "keeps (kept z) (removeNotifications z i ids k)"
  "keeps (kept z) (publishExactChildReorder z parent order k)"
  unfolding publishGitFacts_def editCard_def stopRunning_def activateStopped_def enqueueNotification_def
    removeNotifications_def publishExactChildReorder_def Let_def
  by (intro version_kept require_card_kept setStatus_kept; simp)+

lemma reorderChildren_kept: "keeps (kept z) (reorderChildren z i order k)"
  unfolding reorderChildren_def Let_def
  by (intro version_kept keeps_case_prod service_versions_kept)

lemma commitActivationOutcome_kept: "keeps (kept z) (commitActivationOutcome z i outcome settledAt k)"
  unfolding commitActivationOutcome_def Let_def
  by (intro version_kept require_card_kept publishCardVersion_kept) (auto simp: versionChange_def Let_def errE)

section \<open>Birth\<close>

lemma claimFrom_fresh:
  assumes "claimFrom p taken s = Inr i"
  shows "i \<notin> set taken \<and> (\<exists>t. childCardId p t = Inr i)"
  using assms
proof (induction p taken s rule: claimFrom.induct)
  case (1 p taken s)
  from 1(2) obtain j where j: "childCardId p s = Inr j"
    by (subst (asm) claimFrom.simps) (auto simp: errE)
  show ?case
  proof (cases "j \<in> set taken")
    case True
    with 1(2) j obtain t where "nextCardSegment (Some s) = Inr t" "claimFrom p taken t = Inr i"
      by (subst (asm) claimFrom.simps) (auto simp: errE)
    with 1(1) [OF j] True show ?thesis by blast
  next
    case False
    with 1(2) j show ?thesis by (subst (asm) claimFrom.simps) auto
  qed
qed

lemma claimChildNamespace_Inr:
  assumes "claimChildNamespace p st = (Inr i, st')"
  shows "i \<notin> set (namespaces st) \<and> st' = st\<lparr>namespaces := namespaces st @ [i]\<rparr> \<and> (\<exists>s. childCardId p s = Inr i)"
  using assms claimFrom_fresh by (auto simp: claimChildNamespace_def errE)

lemma claim_quiet: "keeps quiet (claimChildNamespace p)"
proof (rule keepsI)
  fix st :: "'a project_store_scheme" and r st' assume run: "claimChildNamespace p st = (r, st')"
  show "quiet st st'"
  proof (cases r)
    case (Inl e)
    with run have "st' = st"
      by (auto simp: claimChildNamespace_def bindS_def readS_def modifyS_def returnS_def split: sum.splits prod.splits)
    then show ?thesis using quiet.frame_refl by simp
  next
    case (Inr i)
    with run claimChildNamespace_Inr [of p st i st'] show ?thesis by (auto simp: quiet_def documents_grow_def)
  qed
qed

lemma conversations_cards: "keeps cards_same (initializeConversation s)"
  unfolding initializeConversation_def
  by (intro csame.keeps_rules csame.keeps_modify) (simp_all add: cards_same_def)

lemma card_conversations_cards: "keeps cards_same (initializeCardConversations i w)"
  unfolding initializeCardConversations_def by (intro csame.keeps_for conversations_cards)

lemma publishInitialVersion_birth:
  assumes run: "publishInitialVersion z c e headId st = (r, st')" and ok: "project_ok z st"
    and fresh: "heads st (c_id c) = None" "c_id c \<in> set (namespaces st)" and empty: "c_child_membership c = []"
    and deps: "\<forall>d \<in> set (c_depends_on c). earlier (namespaces st) d (c_id c)" "c_id c = ''project'' \<Longrightarrow> c_depends_on c = []"
  shows "project_ok z st'" "c_id c \<noteq> ''project'' \<Longrightarrow> linked z st' j s \<longleftrightarrow> linked z st j s"
    "r = Inr a \<Longrightarrow> \<exists>sel. readExactCard z st' (c_id c) = Inr sel \<and> s_card sel = c \<and> \<not> s_tombstone sel"
proof -
  have *: "project_ok z st' \<and> (c_id c \<noteq> ''project'' \<longrightarrow> (\<forall>j s. linked z st' j s \<longleftrightarrow> linked z st j s))"
  proof (cases r)
    case (Inl err)
    with run have q: "quiet st st'" using initial.failed_quiet publication_names(2) by blast
    then have "readExactCard z st' j = readExactCard z st j" for j
      using ok reads_other [of z st st' j] by (simp add: quiet_def project_ok_def documents_growD)
    then show ?thesis using quiet_project_ok [OF q ok] linked_cong by blast
  next
    case (Inr a)
    then have pub: "publishInitialVersion z c e headId st = (Inr a, st')" using run by simp
    have "card_ok z st' (c_id c)" using initial.selects [OF pub] ok by (simp add: project_ok_def)
    then show ?thesis
      using keepsD [OF initial.grows pub] keepsD [OF initial.frame pub] keepsD [OF publication_names(2) pub] empty deps
      by (intro birth_project_ok [OF ok _ _ _ _ fresh publishInitialVersion_read(1) [OF pub]])
        (simp_all add: names_same_def heads_outside_def)
  qed
  then show "project_ok z st'" "c_id c \<noteq> ''project'' \<Longrightarrow> linked z st' j s \<longleftrightarrow> linked z st j s" by blast+
  show "\<exists>sel. readExactCard z st' (c_id c) = Inr sel \<and> s_card sel = c \<and> \<not> s_tombstone sel" if "r = Inr a"
    using publishInitialVersion_read(1) [of z c e headId st a st'] publishInitialVersion_iff [of z c e headId st a st'] run that by auto
qed

lemma bindS_cases:
  assumes "bindS m f st = (r, st')"
  obtains (fails) e where "m st = (Inl e, st')" "r = Inl e" | (goes) x st1 where "m st = (Inr x, st1)" "f x st1 = (r, st')"
  using assms by (auto simp: bindS_def split: prod.splits sum.splits)

lemma publishInitialCardState_birth:
  assumes run: "publishInitialCardState z sha c bc ds au ids st = (r, st')" and ok: "project_ok z st"
    and fresh: "heads st (c_id c) = None" "c_id c \<in> set (namespaces st)" and empty: "c_child_membership c = []"
    and deps: "\<forall>d \<in> set (c_depends_on c). earlier (namespaces st) d (c_id c)" "c_id c = ''project'' \<Longrightarrow> c_depends_on c = []"
  shows "project_ok z st'" "c_id c \<noteq> ''project'' \<Longrightarrow> linked z st' j s \<longleftrightarrow> linked z st j s"
    "r = Inr a \<Longrightarrow> \<exists>sel. readExactCard z st' (c_id c) = Inr sel \<and> s_card sel = c \<and> \<not> s_tombstone sel"
proof -
  let ?records = "forS (\<lambda>d. case bi_record ids (rd_filename d) of (now, e, h) \<Rightarrow>
         bindS (initializeAuthoredRecord z sha (c_id c) d \<lparr>ref_entry_id = bi_entry ids, ref_version = 1\<rparr> au
           (if rd_bootstrap d then Some bc else None) now e h) (\<lambda>_. returnS ())) ds"
  have records: "keeps cards_same ?records"
    by (intro csame.keeps_for csame.keeps_rules keeps_case_prod record_ops_cards)
  have "project_ok z st' \<and> (c_id c \<noteq> ''project'' \<longrightarrow> linked z st' j s = linked z st j s) \<and>
    (r = Inr a \<longrightarrow> (\<exists>sel. readExactCard z st' (c_id c) = Inr sel \<and> s_card sel = c \<and> \<not> s_tombstone sel))"
    using run unfolding publishInitialCardState_def
  proof (cases rule: bindS_cases)
    case (fails e)
    then have "cards_same st st'" using keepsD [OF records] by blast
    then show ?thesis using fails(2) quiet_project_ok [OF cards_same_quiet ok] cards_same_linked [of st st' z j s] by simp
  next
    case (goes x st1)
    then have same: "cards_same st st1" using keepsD [OF records] by blast
    then have st1: "project_ok z st1" "heads st1 = heads st" "namespaces st1 = namespaces st" "linked z st1 j s = linked z st j s"
      using quiet_project_ok [OF cards_same_quiet ok] cards_same_linked [of st st1 z j s] by (simp_all add: cards_same_def)
    from goes(2) obtain r2 where r2: "publishInitialVersion z c (bi_entry ids) (bi_head ids) st1 = (r2, st')" "r = Inr a \<longrightarrow> (\<exists>x. r2 = Inr x)"
      by (cases rule: bindS_cases) (auto simp: returnS_def)
    note birth = publishInitialVersion_birth [OF r2(1) st1(1)]
    show ?thesis using birth(1) birth(2) [of j s] birth(3) r2(2) st1 fresh empty deps by auto
  qed
  then show "project_ok z st'" "c_id c \<noteq> ''project'' \<Longrightarrow> linked z st' j s \<longleftrightarrow> linked z st j s"
    "r = Inr a \<Longrightarrow> \<exists>sel. readExactCard z st' (c_id c) = Inr sel \<and> s_card sel = c \<and> \<not> s_tombstone sel" by blast+
qed

lemma linked_named: "project_ok z st \<Longrightarrow> linked z st d s \<Longrightarrow> d \<in> set (namespaces st)"
  using linked_reads readExactCard_head(1) unfolding project_ok_def names_ok_def by blast

lemma publishInitialChildCard_birth:
  assumes run: "publishInitialChildCard z sha input w ids st = (r, st')" and ok: "project_ok z st"
    and deps: "\<forall>d \<in> set (in_depends_on input). \<exists>s. linked z st d s"
  shows "project_ok z st' \<and> (\<forall>j s. linked z st' j s \<longleftrightarrow> linked z st j s) \<and>
    (\<forall>c. r = Inr c \<longrightarrow> c = new_child_card input (c_id c) (bi_stamp ids) \<and> cardParentId (c_id c) = Inr (Some (in_parent input)) \<and>
      c_id c \<notin> set (namespaces st) \<and> (\<exists>sel. readExactCard z st' (c_id c) = Inr sel \<and> s_card sel = c \<and> \<not> s_tombstone sel))"
    (is "?goal r st'")
proof -
  have still: "?goal (Inl e) t" if "quiet st t" for e t
  proof -
    have "readExactCard z t j = readExactCard z st j" for j
      using that ok reads_other [of z st t j] by (simp add: quiet_def project_ok_def documents_growD)
    then show ?thesis using quiet_project_ok [OF that ok] linked_cong [of z t st] by auto
  qed
  from run show ?thesis
    unfolding publishInitialChildCard_def
  proof (cases rule: bindS_cases)
    case (fails e)
    then show ?thesis using still [of st e] quiet.frame_refl by (auto simp: liftS_def)
  next
    case (goes u st0)
    then have "st0 = st" by (simp add: liftS_def)
    from goes(2) show ?thesis
      unfolding \<open>st0 = st\<close>
    proof (cases rule: bindS_cases)
      case (fails e)
      then show ?thesis using still keepsD [OF claim_quiet] by blast
    next
      case (goes i st1)
      note claim = claimChildNamespace_Inr [OF goes(1)]
      have q1: "quiet st st1" using keepsD [OF claim_quiet goes(1)] .
      have ok1: "project_ok z st1" using quiet_project_ok [OF q1 ok] .
      from goes(2) consider (stop) e where "r = Inl e" "cards_same st1 st'"
        | (birth) c st2 r2 where "c = new_child_card input i (bi_stamp ids)" "cardParentId i = Inr (Some (in_parent input))"
          "cards_same st1 st2" "publishInitialCardState z sha c (in_bootstrap_content input) (record_definitions w)
             (in_bootstrap_author input) ids st2 = (r2, st')" "r = Inr c \<and> r2 = Inr () \<or> (\<exists>e. r = Inl e)"
        using keepsD [OF card_conversations_cards] csame.frame_refl
        by (auto simp: bindS_def liftS_def returnS_def guardE_def parse_card_def split: sum.splits prod.splits if_splits) blast+
      then show ?thesis
      proof cases
        case stop
        then show ?thesis using still quiet.frame_trans [OF q1 cards_same_quiet] by blast
      next
        case birth
        have q2: "quiet st st2" using quiet.frame_trans [OF q1 cards_same_quiet [OF birth(3)]] .
        have ok2: "project_ok z st2" using quiet_project_ok [OF q2 ok] .
        have ns: "namespaces st2 = namespaces st @ [i]" "heads st2 = heads st"
          using birth(3) claim by (auto simp: cards_same_def)
        have i: "c_id c = i" "c_child_membership c = []" "c_depends_on c = in_depends_on input"
          using birth(1) by (simp_all add: new_child_card_def)
        have "i \<noteq> ''project''" using birth(2) depth_of_parent [of i "in_parent input"] by (auto simp: depth_of_def cardDepth_def cardIdSegments_def cardIdSchema_def)
        have "heads st i = None" using claim ok by (auto simp: project_ok_def names_ok_def)
        moreover have "\<forall>d \<in> set (c_depends_on c). earlier (namespaces st2) d i"
          using deps linked_named [OF ok] claim ns i(3) by (auto intro!: earlier_snoc)
        ultimately have b: "project_ok z st'" "\<And>j s. linked z st' j s = linked z st2 j s"
            "r2 = Inr () \<Longrightarrow> \<exists>sel. readExactCard z st' i = Inr sel \<and> s_card sel = c \<and> \<not> s_tombstone sel"
          using publishInitialCardState_birth [OF birth(4) ok2] i ns \<open>i \<noteq> ''project''\<close> by auto
        have "linked z st2 j s = linked z st j s" for j s
          using still [OF q2, of undefined] by blast
        with b birth(1,2,5) i claim show ?thesis by auto
      qed
    qed
  qed
qed

section \<open>Linking a child\<close>

lemma publishCardVersion_link:
  assumes run: "publishCardVersion z c v nt headId st = (r, st')" and ok: "project_ok z st"
    and sel: "readExactCard z st (c_id c) = Inr sel"
    and mem: "c_child_membership c = c_child_membership (s_card sel) @ [i]" and other: "i \<noteq> c_id c"
    and child: "readExactCard z st i = Inr t" "c_child_membership (s_card t) = []"
      "\<forall>d \<in> set (c_depends_on (s_card t)). \<exists>s. linked z st d s"
  shows "project_ok z st'"
proof (cases r)
  case (Inl e)
  with run show ?thesis using versions.failed_quiet publication_names(1) quiet_project_ok [OF _ ok] by blast
next
  case (Inr a)
  then have pub: "publishCardVersion z c v nt headId st = (Inr a, st')" using run by simp
  then obtain sel' where sel': "readExactCard z st' (c_id c) = Inr sel'"
    by (rule publishCardVersion_read) blast
  note read = publishCardVersion_read_of [OF pub sel sel']
  have deps: "c_depends_on c = c_depends_on (s_card sel)" using transition_linkage [OF read(7)] by simp
  have "card_ok z st' (c_id c)" using versions.selects [OF pub] ok by (simp add: project_ok_def)
  then show ?thesis
    using keepsD [OF versions.grows pub] keepsD [OF versions.frame pub] keepsD [OF publication_names(1) pub] read mem deps child other
    by (intro replace_project_ok [where i = "c_id c" and N = "{i}", OF ok _ _ _ _ sel _ sel'])
      (simp_all add: names_same_def heads_outside_def)
qed

lemma bindS_lift_cases:
  assumes "bindS (liftS m) f st = (r, st')"
  obtains x where "m = Inr x" "f x st = (r, st')" | "st' = st"
  using assms by (cases m) (auto simp: bindS_def liftS_def)

lemma linkChild_cases:
  assumes "linkChild z ws input p i k st = (r, st')"
  obtains (stop) "st' = st"
    | (pub) sel c v r2 st1 where "linked z st p sel" "publishCardVersion z c v None (k_head k) st = (r2, st1)" "cards_same st1 st'"
      "c_id c = p" "c_child_membership c = c_child_membership (s_card sel) @ [i]"
proof -
  have "st' = st \<or> (\<exists>sel c v r2 st1. linked z st p sel \<and> publishCardVersion z c v None (k_head k) st = (r2, st1) \<and>
      cards_same st1 st' \<and> c_id c = p \<and> c_child_membership c = c_child_membership (s_card sel) @ [i])"
    using assms unfolding linkChild_def
  proof (cases rule: bindS_cases)
    case (fails e)
    then show ?thesis by (simp add: readS_def)
  next
    case (goes fresh st0)
    show ?thesis
    proof (cases fresh)
      case None
      with goes show ?thesis by (auto simp: bindS_def readS_def liftS_def)
    next
      case (Some parent)
      with goes(1) have "readCard z st p = Inr (Some parent)" and st0: "st0 = st" by (auto simp: readS_def)
      then obtain sel where sel: "linked z st p sel" "s_card sel = parent" using readCard_iff by blast
      have id: "c_id parent = p" using linked_reads [OF sel(1)] readExactCard_id sel(2) by blast
      have tail: "cards_same st1 st'" if "bindS (liftS (cardParentId j)) (\<lambda>g. publishCardVersionEffects v g True []) st1 = (r, st')" for v j st1
        using keepsD [OF csame.keeps_lift [OF publishCardVersionEffects_cards] that] .
      from goes(2) Some st0 consider (refused) "st' = st"
        | (published) c v where "c = parent\<lparr>c_child_membership := c_child_membership parent @ [i],
             c_active_child_order := c_active_child_order parent @ [i], c_version_seq := c_version_seq parent + 1,
             c_updated_at := k_now k\<rparr>"
           "bindS (publishCardVersion z c v None (k_head k)) (\<lambda>_. bindS (liftS (cardParentId (c_id parent)))
              (\<lambda>g. publishCardVersionEffects v g True [])) st = (r, st')"
        by (auto simp: Let_def parse_card_def guardE_def elim!: bindS_lift_cases split: if_splits)
      then show ?thesis
      proof cases
        case published
        from published(2) show ?thesis
        proof (cases rule: bindS_cases)
          case (fails e)
          then show ?thesis using sel id published(1) csame.frame_refl by fastforce
        next
          case (goes x st1)
          then show ?thesis using sel id published(1) tail by fastforce
        qed
      qed simp
    qed
  qed
  then show thesis using stop pub by blast
qed

lemma linkChild_project_ok:
  assumes run: "linkChild z ws input p i k st = (r, st')" and ok: "project_ok z st" and "i \<noteq> p"
    and child: "readExactCard z st i = Inr t" "c_child_membership (s_card t) = []"
      "\<forall>d \<in> set (c_depends_on (s_card t)). \<exists>s. linked z st d s"
  shows "project_ok z st'"
  using run
proof (cases rule: linkChild_cases)
  case stop
  then show ?thesis using ok by simp
next
  case (pub sel c v r2 st1)
  have "readExactCard z st (c_id c) = Inr sel" using linked_reads [OF pub(1)] pub(4) by simp
  then have "project_ok z st1" using publishCardVersion_link [OF pub(2) ok _ pub(5) _ child] assms(3) pub(4) by simp
  then show ?thesis using quiet_project_ok [OF cards_same_quiet [OF pub(3)]] by blast
qed

section \<open>Creating a card\<close>

lemma dependencies_read:
  "forS (\<lambda>dep. readS (\<lambda>st. bindE (readCard z st dep) (\<lambda>r. guardE (r \<noteq> None) (err dep)))) ds st = (r, st') \<Longrightarrow>
   st' = st \<and> (\<forall>u. r = Inr u \<longrightarrow> (\<forall>d \<in> set ds. \<exists>s. linked z st d s))"
proof (induction ds arbitrary: st)
  case (Cons d ds)
  from Cons.prems show ?case
    unfolding forS.simps
  proof (cases rule: bindS_cases)
    case (fails e)
    then show ?thesis by (auto simp: readS_def)
  next
    case (goes x st1)
    have "st1 = st" "\<exists>s. linked z st d s" using goes(1) by (auto simp: errE readCard_iff)
    with Cons.IH goes(2) show ?thesis by auto
  qed
qed (simp add: returnS_def)

definition unchanged :: "'s \<Rightarrow> 's \<Rightarrow> bool" where
  "unchanged s t \<longleftrightarrow> t = s"

interpretation unchanged: state_frame unchanged
  by unfold_locales (auto simp: unchanged_def)

lemma create_admission_cases:
  assumes "create_admission z ws input st = (r, st')"
  shows "st' = st" "r = Inr (parent, depth, w) \<Longrightarrow> c_id parent = in_parent input \<and> (\<forall>d \<in> set (in_depends_on input). \<exists>s. linked z st d s)"
proof -
  show same: "st' = st"
  proof -
    have "keeps unchanged (create_admission z ws input)"
      unfolding create_admission_def Let_def
      by (intro unchanged.keeps_rules unchanged.keeps_for)
    then show ?thesis using assms by (auto simp: keeps_def unchanged_def)
  qed
  assume "r = Inr (parent, depth, w)"
  then obtain sel st1 where "linked z st (in_parent input) sel" "s_card sel = parent"
      "forS (\<lambda>dep. readS (\<lambda>st. bindE (readCard z st dep) (\<lambda>r.
         guardE (r \<noteq> None) (PlainError ''Dependency card does not exist.'' [dep])))) (in_depends_on input) st = (Inr (), st1)"
    using assms unfolding create_admission_def by (auto simp: errE readCard_iff Let_def bindE_Inr_iff)
  moreover from this have "\<forall>d \<in> set (in_depends_on input). \<exists>s. linked z st d s"
    using dependencies_read [where err = "\<lambda>dep. PlainError ''Dependency card does not exist.'' [dep]"] by blast
  ultimately show "c_id parent = in_parent input \<and> (\<forall>d \<in> set (in_depends_on input). \<exists>s. linked z st d s)"
    using readExactCard_id [OF linked_reads] by blast
qed

lemma create_kept: "keeps (kept z) (create z sha ws input ids k)"
proof (rule keepsI, unfold kept_def, rule impI)
  fix st r st' assume run: "create z sha ws input ids k st = (r, st')" and ok: "project_ok z st"
  from run show "project_ok z st'"
    unfolding create_def
  proof (cases rule: bindS_cases)
    case (fails e)
    then show ?thesis using create_admission_cases(1) ok by blast
  next
    case (goes x st0)
    obtain parent depth w where x: "x = (parent, depth, w)" by (cases x)
    note adm = goes(1) [unfolded x]
    have st0: "st0 = st" using create_admission_cases(1) [OF adm] .
    have parent: "c_id parent = in_parent input" and deps: "\<forall>d \<in> set (in_depends_on input). \<exists>s. linked z st d s"
      using create_admission_cases(2) [OF adm] by blast+
    from goes(2) show ?thesis
      unfolding x split st0
    proof (cases rule: bindS_cases)
      case (fails e)
      then show ?thesis using publishInitialChildCard_birth [OF fails(1) ok deps] by blast
    next
      case (goes c st1)
      note birth = publishInitialChildCard_birth [OF goes(1) ok deps]
      have ok1: "project_ok z st1" using birth by blast
      from birth obtain sel where sel: "readExactCard z st1 (c_id c) = Inr sel" "s_card sel = c"
        and c: "c = new_child_card input (c_id c) (bi_stamp ids)" and up: "cardParentId (c_id c) = Inr (Some (in_parent input))"
        by blast
      have empty: "c_child_membership c = []" "c_depends_on c = in_depends_on input"
        by (subst c, simp add: new_child_card_def)+
      have ne: "c_id c \<noteq> c_id parent" using depth_of_parent [OF up] parent by auto
      have d1: "\<forall>d \<in> set (c_depends_on (s_card sel)). \<exists>s. linked z st1 d s" using deps birth sel(2) empty(2) by simp
      have link: "project_ok z t" if "linkChild z ws input (c_id parent) (c_id c) k st1 = (r2, t)" for r2 t
        using linkChild_project_ok [OF that ok1 ne sel(1) _ d1] sel(2) empty(1) by simp
      from goes(2) consider "st' = st1" | r2 t where "linkChild z ws input (c_id parent) (c_id c) k st1 = (r2, t)" "cards_same t st'"
        by (elim bindS_lift_cases bindS_cases) (auto simp: returnS_def cards_same_def)
      then show ?thesis using ok1 link quiet_project_ok [OF cards_same_quiet] by cases blast+
    qed
  qed
qed

section \<open>The first card\<close>

lemma publishInitialProjectRuntime_kept: "keeps (kept z) (publishInitialProjectRuntime z sha title bc analyst w git ids)"
proof (rule keepsI, unfold kept_def, rule impI)
  fix st r st' assume run: "publishInitialProjectRuntime z sha title bc analyst w git ids st = (r, st')" and ok: "project_ok z st"
  let ?claimed = "st\<lparr>namespaces := namespaces st @ [''project'']\<rparr>"
  have prepare: "(\<exists>e. x = Inl e) \<and> st1 = st \<or> ''project'' \<notin> set (namespaces st) \<and> cards_same ?claimed st1"
    if "prepareInitialProjectDirectories w st = (x, st1)" for x st1
    using that unfolding prepareInitialProjectDirectories_def
    by (auto simp: liftS_def bindS_def readS_def modifyS_def guardE_def split: if_splits intro: keepsD [OF card_conversations_cards])
  have claimed: "project_ok z ?claimed" if "''project'' \<notin> set (namespaces st)"
    using that quiet_project_ok [OF _ ok, of ?claimed] by (simp add: quiet_def documents_grow_def)
  have cont: "project_ok z st'" if pre: "''project'' \<notin> set (namespaces st)" "cards_same ?claimed st1"
      and birth: "publishInitialProjectCard z sha title bc w g ids st1 = (r, st')" for st1 g
  proof -
    have st1: "project_ok z st1" "heads st1 ''project'' = None" "''project'' \<in> set (namespaces st1)"
      using quiet_project_ok [OF cards_same_quiet [OF pre(2)] claimed [OF pre(1)]] pre ok
      by (auto simp: cards_same_def project_ok_def names_ok_def)
    let ?c = "initial_project_card title g (bi_stamp ids)"
    have c: "c_id ?c = ''project''" "c_child_membership ?c = []" "c_depends_on ?c = []"
      by (simp_all add: initial_project_card_def)
    from birth have "st' = st1 \<or> publishInitialCardState z sha ?c bc (record_definitions w) AuthorBootstrap ids st1 = (r, st')"
      unfolding publishInitialProjectCard_def by (elim bindS_lift_cases) (auto simp: parse_card_def guardE_def split: if_splits)
    then show ?thesis using st1 c publishInitialCardState_birth(1) [of z sha ?c] by auto
  qed
  from run consider "st' = st" | (conv) x st1 where "prepareInitialProjectDirectories w st = (x, st1)"
      "case x of Inl e \<Rightarrow> st' = st1 | Inr u \<Rightarrow> cards_same st1 st' \<or> (\<exists>st2 g. cards_same st1 st2 \<and>
         publishInitialProjectCard z sha title bc w g ids st2 = (r, st'))"
    unfolding publishInitialProjectRuntime_def
    by (auto simp: bindS_def readS_def liftS_def guardE_def split: sum.splits prod.splits if_splits
        dest: keepsD [OF conversations_cards])
  then show "project_ok z st'"
  proof cases
    case conv
    show ?thesis
    proof (cases x)
      case (Inl e)
      with conv prepare [OF conv(1)] claimed ok show ?thesis using quiet_project_ok [OF cards_same_quiet] by auto
    next
      case (Inr u)
      with prepare [OF conv(1)] have st1: "''project'' \<notin> set (namespaces st)" "cards_same ?claimed st1" by auto
      from conv(2) Inr show ?thesis
        using cont [OF st1(1)] csame.frame_trans [OF st1(2)] quiet_project_ok [OF cards_same_quiet claimed [OF st1(1)]] by auto
    qed
  qed (use ok in simp)
qed

end
