(* ===== verification/CardDeletion.thy ===== *)
theory CardDeletion
  imports CardSteps "HOL-Library.Char_ord" "HOL-Library.List_Lexorder" "HOL-Library.Multiset"
begin

text \<open>
  Deletion of subtrees (\<open>deleteSubtrees\<close> of \<^verbatim>\<open>src/cards/card-service.ts\<close>): the intended cards are the requested
  ones with their descendants; they are entombed in an order in which children come before
  parents and dependents before their dependencies, found by counting incoming edges with a
  sorted list of ready cards.
\<close>

section \<open>The order of deletion\<close>

text \<open>
  \<open>outgoing\<close> and \<open>indegree\<close> are maps whose keys are the intended ids; a set is kept as the list of
  its elements in insertion order. Decrementing the count of an id that is not a key yields
  \<open>NaN\<close>, which is never 0, so such an id is skipped.
\<close>

type_synonym edge_state = "(string \<Rightarrow> string list) \<times> (string \<Rightarrow> int)"

fun edge :: "string \<Rightarrow> string \<Rightarrow> edge_state \<Rightarrow> edge_state" where
  "edge a b (out, indegree) =
     (if b \<in> set (out a) then (out, indegree)
      else (out(a := out a @ [b]), indegree(b := indegree b + 1)))"

definition card_edges :: "card_index \<Rightarrow> string list \<Rightarrow> string \<Rightarrow> error + string list" where
  "card_edges idx intended i =
     bindE (optionE (PlainError ''TypeError'' []) (index_get idx i)) (\<lambda>c.
     bindE (cardParentId i) (\<lambda>parent.
     Inr ((case parent of Some p \<Rightarrow> (if p \<in> set intended then [p] else []) | None \<Rightarrow> []) @
          filter (\<lambda>d. d \<in> set intended) (c_depends_on c))))"

definition deletion_edges :: "card_index \<Rightarrow> string list \<Rightarrow> error + edge_state" where
  "deletion_edges idx intended =
     bindE (mapE (\<lambda>i. bindE (card_edges idx intended i) (\<lambda>targets. Inr (i, targets))) intended) (\<lambda>all.
     Inr (fold (\<lambda>(i, targets). fold (edge i) targets) all (\<lambda>_. [], \<lambda>_. 0)))"

fun release :: "string list \<Rightarrow> string \<Rightarrow> (string \<Rightarrow> int) \<times> string list \<Rightarrow> (string \<Rightarrow> int) \<times> string list" where
  "release intended next (indegree, ready) =
     (if next \<notin> set intended then (indegree, ready)
      else let n = indegree next - 1 in
        (indegree(next := n), if n = 0 then sort (ready @ [next]) else ready))"

definition waiting :: "string list \<Rightarrow> (string \<Rightarrow> int) \<Rightarrow> string set" where
  "waiting intended indegree = {n \<in> set intended. indegree n > 0}"

lemma release_measure:
  "card (waiting intended (fst (release intended x (d, rs)))) + length (snd (release intended x (d, rs)))
   \<le> card (waiting intended d) + length rs"
proof (cases "x \<in> set intended")
  case True
  show ?thesis
  proof (cases "d x = 1")
    case eq: True
    have "waiting intended d = insert x (waiting intended (d(x := 0)))" "x \<notin> waiting intended (d(x := 0))"
      using True eq by (auto simp: waiting_def)
    then have "card (waiting intended d) = Suc (card (waiting intended (d(x := 0))))"
      by (simp add: waiting_def)
    with True eq show ?thesis by (simp add: Let_def)
  next
    case False
    then have "waiting intended (d(x := d x - 1)) \<subseteq> waiting intended d" by (auto simp: waiting_def split: if_splits)
    then have "card (waiting intended (d(x := d x - 1))) \<le> card (waiting intended d)"
      by (intro card_mono) (simp_all add: waiting_def)
    with True False show ?thesis by (simp add: Let_def)
  qed
qed simp

lemma release_all_measure:
  "card (waiting intended (fst (fold (release intended) xs (d, rs)))) + length (snd (fold (release intended) xs (d, rs)))
   \<le> card (waiting intended d) + length rs"
proof (induction xs arbitrary: d rs)
  case (Cons x xs)
  obtain d' rs' where s: "release intended x (d, rs) = (d', rs')" by fastforce
  with Cons.IH [of d' rs'] release_measure [of intended x d rs] show ?case by (simp del: release.simps)
qed simp

function drain :: "string list \<Rightarrow> (string \<Rightarrow> string list) \<Rightarrow> (string \<Rightarrow> int) \<Rightarrow> string list \<Rightarrow> string list \<Rightarrow> string list" where
  "drain intended out indegree [] order = order"
| "drain intended out indegree (i # rest) order =
     (case fold (release intended) (out i) (indegree, rest) of
        (indegree', ready) \<Rightarrow> drain intended out indegree' ready (order @ [i]))"
  by pat_completeness auto
termination
proof (relation "measure (\<lambda>(intended, out, indegree, ready, order). card (waiting intended indegree) + length ready)", goal_cases)
  case (2 intended out d i rest order d' rs)
  then show ?case using release_all_measure [of intended "out i" d rest]
    by (cases "fold (release intended) (out i) (d, rest)") auto
qed simp

definition deletionOrder :: "card_index \<Rightarrow> string list \<Rightarrow> error + string list" where
  "deletionOrder idx intended =
     bindE (deletion_edges idx intended) (\<lambda>(out, indegree).
     let order = drain intended out indegree (sort (filter (\<lambda>i. indegree i = 0) intended)) [] in
     bindE (guardE (length order = length intended)
       (PlainError ''Deletion dependency and hierarchy constraints conflict.'' [])) (\<lambda>_.
     Inr order))"

section \<open>The cards to delete\<close>

definition buildFullIndex :: "zod \<Rightarrow> 'a card_store_scheme \<Rightarrow> error + card_index" where
  "buildFullIndex z st =
     bindE (listActiveCardTraversal z st) (\<lambda>rows.
     Inr (foldl index_upsert [] (sort_key (\<lambda>c. depth_of (c_id c)) (map t_card rows))))"

definition set_add :: "string list \<Rightarrow> string \<Rightarrow> string list" where
  "set_add xs x = (if x \<in> set xs then xs else xs @ [x])"

fun intendedFrom :: "card_index \<Rightarrow> string list \<Rightarrow> string list \<Rightarrow> error + string list" where
  "intendedFrom idx intended [] = Inr intended"
| "intendedFrom idx intended (i # roots) =
     (if index_get idx i = None \<or> i = ''project'' then Inl (PlainError ''Card cannot be deleted.'' [i])
      else intendedFrom idx (foldl set_add (set_add intended i) (descendantsOf idx i)) roots)"

definition deletionPlan ::
    "zod \<Rightarrow> 'a project_store_scheme \<Rightarrow> string list \<Rightarrow> (card_record \<Rightarrow> bool) \<Rightarrow>
     error + card_index \<times> string list \<times> string list" where
  "deletionPlan z st requestedIds allowed =
     bindE (guardE (requestedIds \<noteq> []) (PlainError ''Deletion requires at least one card id.'' [])) (\<lambda>_.
     bindE (buildFullIndex z st) (\<lambda>idx.
     let roots = foldl set_add [] requestedIds in
     bindE (intendedFrom idx [] roots) (\<lambda>intended.
     bindE (mapE (\<lambda>i. bindE (optionE (PlainError ''TypeError'' []) (index_get idx i)) (\<lambda>c.
         guardE (allowed c) (PlainError ''Deletion denied for card'' [i]))) intended) (\<lambda>_.
     bindE (mapE (\<lambda>survivor. mapE (\<lambda>d. guardE (\<not> (c_id survivor \<notin> set intended \<and> d \<in> set intended))
         (PlainError ''Surviving card depends on deleted card'' [c_id survivor, d])) (c_depends_on survivor)) idx) (\<lambda>_.
     bindE (deletionOrder idx intended) (\<lambda>order.
     Inr (idx, order, roots)))))))"

definition deleteCard ::
    "zod \<Rightarrow> (string \<rightharpoonup> compiled_workflow) \<Rightarrow> card_index \<Rightarrow> string \<Rightarrow> (string \<Rightarrow> stamps) \<Rightarrow> string \<Rightarrow>
     ('a project_store_scheme, unit) op" where
  "deleteCard z workflows idx agentName ks i =
     bindS (liftS (optionE (PlainError ''TypeError'' []) (index_get idx i))) (\<lambda>c.
     bindS (liftS (optionE (PlainError ''TypeError'' []) (workflows (c_type c)))) (\<lambda>workflow.
     bindS (liftS (versionChange z c None KDelete [''__deleted__''] ''card deleted'' ''analyst subtree deletion''
       (Some agentName) (ks i))) (\<lambda>change.
     bindS (publishCardTombstone z i c change (k_head (ks i))) (\<lambda>_.
     bindS (liftS (cardParentId (c_id c))) (\<lambda>parent.
     bindS (publishCardVersionEffects change parent True (map rd_filename (record_definitions workflow))) (\<lambda>_.
     emit (AgentMembershipChanged (c_id c))))))))"

definition deleteSubtrees ::
    "zod \<Rightarrow> (string \<rightharpoonup> compiled_workflow) \<Rightarrow> string list \<Rightarrow> (card_record \<Rightarrow> bool) \<Rightarrow> string \<Rightarrow> (string \<Rightarrow> stamps) \<Rightarrow>
     ('a project_store_scheme, string list \<times> string list) op" where
  "deleteSubtrees z workflows requestedIds allowed agentName ks =
     bindS (readS (\<lambda>st. deletionPlan z st requestedIds allowed)) (\<lambda>(idx, order, roots).
     bindS (forS (deleteCard z workflows idx agentName ks) order) (\<lambda>_.
     returnS (order, roots)))"

section \<open>Kahn's algorithm\<close>

definition pred_count :: "(string \<Rightarrow> string list) \<Rightarrow> string set \<Rightarrow> string \<Rightarrow> nat" where
  "pred_count out A n = card {a \<in> A. n \<in> set (out a)}"

text \<open>Before each turn: the counts are those of the cards not yet ordered, the cards with count 0
  are those ordered or ready, and an ordered card has all its predecessors before it.\<close>

definition drain_inv :: "string list \<Rightarrow> (string \<Rightarrow> string list) \<Rightarrow> (string \<Rightarrow> int) \<Rightarrow> string list \<Rightarrow> string list \<Rightarrow> bool" where
  "drain_inv intended out d ready order \<longleftrightarrow>
     distinct (order @ ready) \<and> set (order @ ready) \<subseteq> set intended \<and>
     (\<forall>n \<in> set intended. d n = int (pred_count out (set intended - set order) n)) \<and>
     (\<forall>n \<in> set intended. d n = 0 \<longleftrightarrow> n \<in> set (order @ ready)) \<and>
     (\<forall>k < length order. \<forall>a \<in> set intended. order ! k \<in> set (out a) \<longrightarrow> a \<in> set (take k order))"

lemma release_run:
  assumes "distinct xs" "set xs \<subseteq> set intended"
  shows "fst (fold (release intended) xs (d, rs)) = (\<lambda>n. if n \<in> set xs then d n - 1 else d n) \<and>
    mset (snd (fold (release intended) xs (d, rs))) = mset rs + mset (filter (\<lambda>n. d n = 1) xs)"
  using assms
proof (induction xs arbitrary: d rs)
  case (Cons x xs)
  let ?d = "d(x := d x - 1)" and ?rs = "if d x = 1 then sort (rs @ [x]) else rs"
  have step: "release intended x (d, rs) = (?d, ?rs)" using Cons.prems by (simp add: Let_def)
  have "filter (\<lambda>n. ?d n = 1) xs = filter (\<lambda>n. d n = 1) xs" using Cons.prems(1) by (intro filter_cong) auto
  moreover have "(\<lambda>n. if n \<in> set xs then ?d n - 1 else ?d n) = (\<lambda>n. if n \<in> set (x # xs) then d n - 1 else d n)"
    using Cons.prems(1) by (auto simp: fun_eq_iff)
  ultimately show ?case using Cons.IH [of ?d ?rs] Cons.prems by (simp add: step del: release.simps fun_upd_apply)
qed simp

lemma drain_step:
  assumes inv: "drain_inv intended out d (i # rest) order"
    and out: "\<forall>a \<in> set intended. distinct (out a) \<and> set (out a) \<subseteq> set intended \<and> a \<notin> set (out a)"
    and run: "fold (release intended) (out i) (d, rest) = (d', ready)"
  shows "drain_inv intended out d' ready (order @ [i])"
proof -
  note D = inv [unfolded drain_inv_def]
  have i: "i \<in> set intended" "i \<notin> set order" "i \<notin> set rest" using D by auto
  have o: "distinct (out i)" "set (out i) \<subseteq> set intended" "i \<notin> set (out i)" using out i(1) by auto
  have d': "d' = (\<lambda>n. if n \<in> set (out i) then d n - 1 else d n)"
    and ready: "mset ready = mset rest + mset (filter (\<lambda>n. d n = 1) (out i))"
    using release_run [OF o(1,2), of d rest] run by auto
  have setr: "set ready = set rest \<union> {n \<in> set (out i). d n = 1}" using arg_cong [OF ready, of set_mset] by simp
  have cnt: "d' n = int (pred_count out (set intended - set (order @ [i])) n)" if n: "n \<in> set intended" for n
  proof -
    let ?A = "set intended - set order"
    have split: "{a \<in> ?A. n \<in> set (out a)} = {a \<in> ?A - {i}. n \<in> set (out a)} \<union> (if n \<in> set (out i) then {i} else {})"
      using i by auto
    have "pred_count out ?A n = pred_count out (?A - {i}) n + (if n \<in> set (out i) then 1 else 0)"
      unfolding pred_count_def split by (subst card_Un_disjoint) auto
    moreover have "?A - {i} = set intended - set (order @ [i])" by auto
    ultimately show ?thesis using D n d' by auto
  qed
  have zero: "d' n = 0 \<longleftrightarrow> n \<in> set ((order @ [i]) @ ready)" if n: "n \<in> set intended" for n
  proof (cases "n \<in> set (out i)")
    case True
    have "pred_count out (set intended - set order) n \<noteq> 0"
      using True i by (auto simp: pred_count_def)
    then have "d n \<noteq> 0" using D n by auto
    then have "n \<notin> set (order @ i # rest)" using D n by blast
    then show ?thesis using True d' setr o(3) by auto
  next
    case False
    then show ?thesis using d' setr D n by auto
  qed
  have dist: "distinct ((order @ [i]) @ ready)"
  proof -
    have "set (filter (\<lambda>n. d n = 1) (out i)) \<inter> set (order @ i # rest) = {}"
      using D o(2) by (force simp del: set_append)
    then have "distinct (rest @ filter (\<lambda>n. d n = 1) (out i))" using D o(1) by auto
    then have "distinct ready" using ready mset_eq_imp_distinct_iff [of ready "rest @ filter (\<lambda>n. d n = 1) (out i)"] by simp
    moreover have "set ready \<inter> set (order @ [i]) = {}" using setr D \<open>set (filter (\<lambda>n. d n = 1) (out i)) \<inter> set (order @ i # rest) = {}\<close> i by auto
    ultimately show ?thesis using D by auto
  qed
  have before: "a \<in> set (take k (order @ [i]))" if "k < length (order @ [i])" "a \<in> set intended" "(order @ [i]) ! k \<in> set (out a)" for k a
  proof (cases "k < length order")
    case True
    then show ?thesis using D that by (auto simp: nth_append)
  next
    case False
    then have k: "k = length order" using that by simp
    then have "i \<in> set (out a)" using that by (simp add: nth_append)
    moreover have "d i = 0" using D i by auto
    then have "{a \<in> set intended - set order. i \<in> set (out a)} = {}" using D i by (auto simp: pred_count_def)
    ultimately show ?thesis using that(2) k by auto
  qed
  have sub: "set ((order @ [i]) @ ready) \<subseteq> set intended" using D setr o(2) by auto
  show ?thesis unfolding drain_inv_def using dist sub cnt zero before by blast
qed

lemma drain_final:
  assumes "drain_inv intended out d ready order"
    and out: "\<forall>a \<in> set intended. distinct (out a) \<and> set (out a) \<subseteq> set intended \<and> a \<notin> set (out a)"
  shows "\<exists>d'. drain_inv intended out d' [] (drain intended out d ready order)"
  using assms
proof (induction intended out d ready order rule: drain.induct)
  case (2 intended out d i rest order)
  obtain d' ready where run: "fold (release intended) (out i) (d, rest) = (d', ready)" by fastforce
  with 2 drain_step [OF 2(2,3) run] show ?case by auto
qed auto

text \<open>With edges that lead down a rank, all intended ids are ordered, sources before targets.\<close>

lemma drain_orders:
  assumes out: "\<forall>a \<in> set intended. distinct (out a) \<and> set (out a) \<subseteq> set intended"
    and rank: "\<And>a b. a \<in> set intended \<Longrightarrow> b \<in> set (out a) \<Longrightarrow> f b < (f a :: nat)"
    and d: "\<forall>n \<in> set intended. d n = int (pred_count out (set intended) n)" and dist: "distinct intended"
  defines "order \<equiv> drain intended out d (sort (filter (\<lambda>i. d i = 0) intended)) []"
  shows "distinct order" "set order = set intended"
    "k < length order \<Longrightarrow> a \<in> set intended \<Longrightarrow> order ! k \<in> set (out a) \<Longrightarrow> a \<in> set (take k order)"
proof -
  have out': "\<forall>a \<in> set intended. distinct (out a) \<and> set (out a) \<subseteq> set intended \<and> a \<notin> set (out a)"
    using out rank by blast
  have "drain_inv intended out d (sort (filter (\<lambda>i. d i = 0) intended)) []"
    using d dist by (auto simp: drain_inv_def)
  then obtain d' where inv: "drain_inv intended out d' [] order" unfolding order_def using drain_final [OF _ out'] by blast
  note D = inv [unfolded drain_inv_def]
  show "distinct order" using D by simp
  show "k < length order \<Longrightarrow> a \<in> set intended \<Longrightarrow> order ! k \<in> set (out a) \<Longrightarrow> a \<in> set (take k order)" using D by blast
  have "set intended - set order = {}"
  proof (rule ccontr)
    let ?R = "set intended - set order"
    assume "?R \<noteq> {}"
    then obtain n where n: "n \<in> ?R" "\<And>m. m \<in> ?R \<Longrightarrow> f m \<le> f n"
      using finite_subset [of ?R "set intended"] Max_in [of "f ` ?R"] Max_ge [of "f ` ?R"] by fastforce
    then have "d' n \<noteq> 0" using D by auto
    then have "pred_count out ?R n \<noteq> 0" using D n(1) by auto
    then obtain a where "a \<in> ?R" "n \<in> set (out a)" by (auto simp: pred_count_def card_eq_0_iff)
    then have "f n < f a" using rank by blast
    with n(2) \<open>a \<in> ?R\<close> show False by fastforce
  qed
  then show "set order = set intended" using D by auto
qed

lemma edge_counts:
  assumes "(\<forall>a. distinct (out a)) \<and> (\<forall>n. d n = int (pred_count out S n))" and "a \<in> S" "finite S"
    and "fold (edge a) ts (out, d) = (out', d')"
  shows "(\<forall>a. distinct (out' a)) \<and> (\<forall>n. d' n = int (pred_count out' S n)) \<and>
    (\<forall>b. set (out' b) = (if b = a then set (out a) \<union> set ts else set (out b)))"
  using assms
proof (induction ts arbitrary: out d)
  case (Cons b ts)
  show ?case
  proof (cases "b \<in> set (out a)")
    case True
    with Cons.prems(4) have "fold (edge a) ts (out, d) = (out', d')" by simp
    with Cons.IH [OF Cons.prems(1-3)] True show ?thesis by (auto simp: insert_absorb)
  next
    case False
    let ?o = "out(a := out a @ [b])" and ?d = "d(b := d b + 1)"
    have run: "fold (edge a) ts (?o, ?d) = (out', d')" using Cons.prems(4) False by simp
    have "pred_count ?o S n = pred_count out S n + (if n = b then 1 else 0)" for n
    proof (cases "n = b")
      case True
      then have "{x \<in> S. n \<in> set (?o x)} = insert a {x \<in> S. n \<in> set (out x)}" using Cons.prems(2) by auto
      then show ?thesis using True False Cons.prems(3) by (simp add: pred_count_def)
    next
      case False
      then have "{x \<in> S. n \<in> set (?o x)} = {x \<in> S. n \<in> set (out x)}" by auto
      then show ?thesis using False by (simp add: pred_count_def)
    qed
    then have "(\<forall>a. distinct (?o a)) \<and> (\<forall>n. ?d n = int (pred_count ?o S n))" using Cons.prems(1) False by auto
    from Cons.IH [OF this Cons.prems(2,3) run] show ?thesis by auto
  qed
qed auto

lemma all_edges_counts:
  assumes "(\<forall>a. distinct (out a)) \<and> (\<forall>n. d n = int (pred_count out S n))" and "fst ` set all \<subseteq> S" "finite S"
    and "distinct (map fst all)" and "\<forall>a \<in> fst ` set all. out a = []"
    and "fold (\<lambda>(i, ts). fold (edge i) ts) all (out, d) = (out', d')"
  shows "(\<forall>a. distinct (out' a)) \<and> (\<forall>n. d' n = int (pred_count out' S n)) \<and>
    (\<forall>(a, ts) \<in> set all. set (out' a) = set ts) \<and> (\<forall>a. a \<notin> fst ` set all \<longrightarrow> set (out' a) = set (out a))"
  using assms
proof (induction all arbitrary: out d)
  case (Cons p all)
  obtain i ts where p: "p = (i, ts)" by fastforce
  obtain o1 d1 where s: "fold (edge i) ts (out, d) = (o1, d1)" by fastforce
  have 1: "(\<forall>a. distinct (o1 a)) \<and> (\<forall>n. d1 n = int (pred_count o1 S n)) \<and>
    (\<forall>b. set (o1 b) = (if b = i then set (out i) \<union> set ts else set (out b)))"
    using edge_counts [OF Cons.prems(1) _ Cons.prems(3) s] Cons.prems(2) p by auto
  have run: "fold (\<lambda>(i, ts). fold (edge i) ts) all (o1, d1) = (out', d')" using Cons.prems(6) p s by simp
  have empty: "\<forall>a \<in> fst ` set all. o1 a = []"
  proof
    fix a assume a: "a \<in> fst ` set all"
    then have "a \<noteq> i" "out a = []" using Cons.prems(4,5) p by auto
    then have "set (o1 a) = {}" using 1 by simp
    then show "o1 a = []" by simp
  qed
  have "i \<notin> fst ` set all" "set (out i) = {}" using Cons.prems(4,5) p by auto
  have 2: "(\<forall>a. distinct (o1 a)) \<and> (\<forall>n. d1 n = int (pred_count o1 S n))" using 1 by blast
  have sub: "fst ` set all \<subseteq> S" "distinct (map fst all)" using Cons.prems(2,4) p by auto
  note ih = Cons.IH [OF 2 sub(1) Cons.prems(3) sub(2) empty run]
  have "set (o1 i) = set ts" "\<And>b. b \<noteq> i \<Longrightarrow> set (o1 b) = set (out b)" using 1 \<open>set (out i) = {}\<close> by auto
  then show ?case using ih \<open>i \<notin> fst ` set all\<close> p by auto
qed auto

lemma deletion_edges_Inr:
  assumes "deletion_edges idx intended = Inr (out, d)" and "distinct intended"
  shows "\<forall>a. distinct (out a)" "\<forall>n. d n = int (pred_count out (set intended) n)"
    "a \<in> set intended \<Longrightarrow> \<exists>ts. card_edges idx intended a = Inr ts \<and> set (out a) = set ts"
proof -
  obtain all where all: "mapE (\<lambda>i. bindE (card_edges idx intended i) (\<lambda>ts. Inr (i, ts))) intended = Inr all"
      "fold (\<lambda>(i, ts). fold (edge i) ts) all (\<lambda>_. [], \<lambda>_. 0) = (out, d)"
    using assms(1) by (auto simp: deletion_edges_def errE)
  have pairs: "list_all2 (\<lambda>i p. bindE (card_edges idx intended i) (\<lambda>ts. Inr (i, ts)) = Inr p) intended all"
    using all(1) by (simp add: mapE_Inr_iff)
  then have fsts: "map fst all = intended"
    by (induction rule: list_all2_induct) (auto simp: errE)
  then have S: "fst ` set all = set intended" by (metis set_map)
  have "(\<forall>a. distinct (out a)) \<and> (\<forall>n. d n = int (pred_count out (set intended) n)) \<and>
    (\<forall>(a, ts) \<in> set all. set (out a) = set ts) \<and> (\<forall>a. a \<notin> fst ` set all \<longrightarrow> set (out a) = set [])"
    by (rule all_edges_counts [OF _ _ _ _ _ all(2)]) (use fsts S assms(2) in \<open>auto simp: pred_count_def\<close>)
  then show "\<forall>a. distinct (out a)" "\<forall>n. d n = int (pred_count out (set intended) n)"
    and *: "a \<in> set intended \<Longrightarrow> \<exists>ts. card_edges idx intended a = Inr ts \<and> set (out a) = set ts"
    using pairs S by (auto simp: list_all2_conv_all_nth in_set_conv_nth errE) fastforce+
qed

end
