(* ===== verification/CardDeletionLaws.thy ===== *)
theory CardDeletionLaws
  imports CardDeletion
begin

text \<open>
  Deletion removes exactly the requested subtrees: the index holds the active cards, the intended
  ids are the cards below the requested ones, and every tombstone is published for a card
  without active children or dependents, so the project invariant is kept at every moment.
\<close>

section \<open>The index\<close>

definition indexes :: "zod \<Rightarrow> 'a card_store_scheme \<Rightarrow> card_index \<Rightarrow> bool" where
  "indexes z st idx \<longleftrightarrow> distinct (map c_id idx) \<and> (\<forall>i c. index_get idx i = Some c \<longleftrightarrow> (\<exists>s. linked z st i s \<and> s_card s = c))"

lemma index_upsert_fresh: "c_id c \<notin> c_id ` set idx \<Longrightarrow> index_upsert idx c = idx @ [c]"
  by (induction idx) auto

lemma index_built: "distinct (map c_id (xs @ cs)) \<Longrightarrow> foldl index_upsert xs cs = xs @ cs"
  by (induction cs arbitrary: xs) (auto simp: index_upsert_fresh)

lemma index_get_iff: "distinct (map c_id idx) \<Longrightarrow> index_get idx i = Some c \<longleftrightarrow> c \<in> set idx \<and> c_id c = i"
  unfolding index_get_def by (induction idx) (auto intro: rev_image_eqI)

lemma buildFullIndex_total:
  assumes "project_ok z st"
  shows "\<exists>idx. buildFullIndex z st = Inr idx \<and> indexes z st idx"
proof -
  obtain rows where rows: "listActiveCardTraversal z st = Inr rows" "distinct (row_ids rows)"
      "t_card ` set rows = {s_card s | s. \<exists>i. linked z st i s}"
    using project_ok_lists [OF assms] by blast
  let ?idx = "sort_key (\<lambda>c. depth_of (c_id c)) (map t_card rows)"
  have "mset (map c_id ?idx) = mset (row_ids rows)" by (simp add: row_ids_def multiset.map_comp comp_def)
  then have dist: "distinct (map c_id ?idx)" using rows(2) mset_eq_imp_distinct_iff by blast
  have "index_get ?idx i = Some c \<longleftrightarrow> (\<exists>s. linked z st i s \<and> s_card s = c)" for i c
  proof -
    have id: "c_id (s_card s) = j" if "linked z st j s" for j s using readExactCard_id [OF linked_reads [OF that]] .
    have "index_get ?idx i = Some c \<longleftrightarrow> c \<in> t_card ` set rows \<and> c_id c = i" using index_get_iff [OF dist] by simp
    also have "\<dots> \<longleftrightarrow> (\<exists>s. linked z st i s \<and> s_card s = c)" unfolding rows(3) using id by blast
    finally show ?thesis .
  qed
  then have "indexes z st ?idx" using dist by (simp add: indexes_def)
  moreover have "buildFullIndex z st = Inr ?idx" using rows(1) index_built [of "[]"] dist by (simp add: buildFullIndex_def)
  ultimately show ?thesis by blast
qed

section \<open>Descendants\<close>

definition child_edges :: "card_index \<Rightarrow> (string \<times> string) set" where
  "child_edges idx = {(p, i). i \<in> set (childrenOf idx p)}"

lemma descend_includes: "set result \<union> set stack \<subseteq> set (descend idx result stack)"
  by (induction idx result stack rule: descend.induct) auto

lemma descend_closed:
  "(\<forall>x \<in> set result. set (childrenOf idx x) \<subseteq> set result \<union> set stack) \<Longrightarrow>
   x \<in> set (descend idx result stack) \<Longrightarrow> set (childrenOf idx x) \<subseteq> set (descend idx result stack)"
proof (induction idx result stack rule: descend.induct)
  case (2 idx result i rest)
  show ?case
  proof (cases "i \<in> set result")
    case True
    with 2 show ?thesis by fastforce
  next
    case False
    with 2(2) [OF False] 2(3,4) show ?thesis by fastforce
  qed
qed auto

lemma descend_reached:
  "set (descend idx result stack) \<subseteq> set result \<union> (child_edges idx)\<^sup>* `` set stack"
proof (induction idx result stack rule: descend.induct)
  case (2 idx result i rest)
  show ?case
  proof (cases "i \<in> set result")
    case True
    with 2(1) show ?thesis by auto
  next
    case False
    have "(child_edges idx)\<^sup>* `` set (childrenOf idx i) \<subseteq> (child_edges idx)\<^sup>* `` {i}"
      by (auto simp: child_edges_def intro: converse_rtrancl_into_rtrancl)
    with 2(2) [OF False] False show ?thesis by (auto simp: Image_Un)
  qed
qed auto

lemma descendantsOf_set: "insert i (set (descendantsOf idx i)) = (child_edges idx)\<^sup>* `` {i}"
proof
  have "(child_edges idx)\<^sup>* `` set (childrenOf idx i) \<subseteq> (child_edges idx)\<^sup>* `` {i}"
    by (auto simp: child_edges_def intro: converse_rtrancl_into_rtrancl)
  then show "insert i (set (descendantsOf idx i)) \<subseteq> (child_edges idx)\<^sup>* `` {i}"
    using descend_reached [of idx "[]" "childrenOf idx i"] by (auto simp: descendantsOf_def)
  have "j \<in> insert i (set (descendantsOf idx i))" if "(i, j) \<in> (child_edges idx)\<^sup>*" for j
    using that
  proof (induction rule: rtrancl_induct)
    case (step y z)
    then show ?case
      using descend_includes [of "[]" "childrenOf idx i" idx] descend_closed [of "[]" idx "childrenOf idx i" y]
      by (auto simp: descendantsOf_def child_edges_def)
  qed simp
  then show "(child_edges idx)\<^sup>* `` {i} \<subseteq> insert i (set (descendantsOf idx i))" by auto
qed

lemma child_edges_iff:
  assumes "indexes z st idx" and "linked z st p sel"
  shows "(p, i) \<in> child_edges idx \<longleftrightarrow> i \<in> set (c_child_membership (s_card sel)) \<and> (\<exists>s. linked z st i s)"
proof -
  have "index_get idx p = Some (s_card sel)" using assms by (auto simp: indexes_def)
  moreover have "set (c_child_membership (s_card sel)) = set (c_active_child_order (s_card sel))"
    using card_children_same_set readExactCard_schema linked_reads [OF assms(2)] by blast
  moreover have "index_get idx i \<noteq> None \<longleftrightarrow> (\<exists>s. linked z st i s)" using assms(1) by (force simp: indexes_def)
  ultimately show ?thesis by (auto simp: child_edges_def childrenOf_def)
qed

lemma member_linked:
  assumes "linked z st p parent" "i \<in> set (c_child_membership (s_card parent))" "readExactCard z st i = Inr s" "\<not> s_tombstone s"
  shows "linked z st i s"
  using assms membership_child [OF linked_reads [OF assms(1)] assms(2)] by (auto intro: linked.child)

lemma child_edges_below:
  assumes idx: "indexes z st idx" and i: "linked z st i tp"
  shows "(i, j) \<in> (child_edges idx)\<^sup>* \<longleftrightarrow> (\<exists>s. below z st i j s)"
proof
  assume "(i, j) \<in> (child_edges idx)\<^sup>*"
  then have "\<exists>s. below z st i j s \<and> linked z st j s"
  proof (induction rule: rtrancl_induct)
    case base
    then show ?case using i linked_reads [OF i] linked_not_tombstone [OF i] by (blast intro: below.self)
  next
    case (step y w)
    then obtain s where s: "below z st i y s" "linked z st y s" by blast
    with step(2) child_edges_iff [OF idx s(2)] obtain t where t: "w \<in> set (c_child_membership (s_card s))" "linked z st w t" by blast
    then show ?case using below_snoc [OF s(1) t(1)] linked_reads linked_not_tombstone by blast
  qed
  then show "\<exists>s. below z st i j s" by blast
next
  have "(i, j) \<in> (child_edges idx)\<^sup>*" if "below z st i j s" "linked z st i tp" for s tp
    using that
  proof (induction arbitrary: tp rule: below.induct)
    case (down i parent c j sel)
    have tp: "tp = parent" using linked_reads [OF down.prems] down(1) by simp
    obtain t where t: "readExactCard z st c = Inr t" "\<not> s_tombstone t" using below_top [OF down(4)] by blast
    then have c: "linked z st c t" using member_linked [OF down.prems] down(3) tp by blast
    then have "(i, c) \<in> child_edges idx" using child_edges_iff [OF idx down.prems] down(3) tp by blast
    with down.IH [OF c] show ?case by (metis converse_rtrancl_into_rtrancl)
  qed simp
  then show "\<exists>s. below z st i j s \<Longrightarrow> (i, j) \<in> (child_edges idx)\<^sup>*" using i by blast
qed

section \<open>The intended cards\<close>

lemma set_add_set [simp]: "set (set_add xs x) = insert x (set xs)"
  by (auto simp: set_add_def)

lemma set_add_distinct [simp]: "distinct (set_add xs x) \<longleftrightarrow> distinct xs"
  by (auto simp: set_add_def)

lemma set_add_all: "set (foldl set_add xs ys) = set xs \<union> set ys" "distinct (foldl set_add xs ys) \<longleftrightarrow> distinct xs"
  by (induction ys arbitrary: xs) auto

lemma intendedFrom_Inr:
  assumes "intendedFrom idx xs roots = Inr intended" and "distinct xs"
  shows "distinct intended \<and> set intended = set xs \<union> (child_edges idx)\<^sup>* `` set roots \<and>
    (\<forall>r \<in> set roots. index_get idx r \<noteq> None \<and> r \<noteq> ''project'')"
  using assms
proof (induction idx xs roots rule: intendedFrom.induct)
  case (2 idx xs i roots)
  from 2(2) have i: "index_get idx i \<noteq> None" "i \<noteq> ''project''"
      and rest: "intendedFrom idx (foldl set_add (set_add xs i) (descendantsOf idx i)) roots = Inr intended"
    by (simp_all split: if_splits)
  have "set (foldl set_add (set_add xs i) (descendantsOf idx i)) = set xs \<union> (child_edges idx)\<^sup>* `` {i}"
    unfolding descendantsOf_set [symmetric] by (auto simp: set_add_all)
  with 2(1) i rest 2(3) show ?case by (auto simp: set_add_all)
qed auto

lemma survivor_check:
  assumes "mapE (\<lambda>survivor. mapE (\<lambda>d. guardE (\<not> (c_id survivor \<notin> set intended \<and> d \<in> set intended)) (err survivor d))
      (c_depends_on survivor)) idx = Inr us" and "c \<in> set idx" "d \<in> set (c_depends_on c)" "d \<in> set intended"
  shows "c_id c \<in> set intended"
proof -
  obtain vs where "mapE (\<lambda>d. guardE (\<not> (c_id c \<notin> set intended \<and> d \<in> set intended)) (err c d)) (c_depends_on c) = Inr vs"
    using assms(1,2) by (auto simp: mapE_Inr_iff list_all2_conv_all_nth in_set_conv_nth)
  then show ?thesis using assms(3,4) by (fastforce simp: mapE_Inr_iff list_all2_conv_all_nth in_set_conv_nth errE)
qed

section \<open>The order exists\<close>

text \<open>Every identity was claimed after the identity of its parent.\<close>

definition parents_first :: "'a card_store_scheme \<Rightarrow> bool" where
  "parents_first st \<longleftrightarrow> (\<forall>i \<in> set (namespaces st). \<forall>p. cardParentId i = Inr (Some p) \<longrightarrow> earlier (namespaces st) p i)"

definition precedes :: "string list \<Rightarrow> string \<Rightarrow> string \<Rightarrow> bool" where
  "precedes order a b \<longleftrightarrow> (\<forall>xs ys. order = xs @ b # ys \<longrightarrow> a \<in> set xs)"

lemma deletionOrder_total:
  assumes ok: "project_ok z st" and pf: "parents_first st" and idx: "indexes z st idx"
    and I: "distinct intended" "\<forall>i \<in> set intended. \<exists>s. linked z st i s"
  shows "\<exists>order. deletionOrder idx intended = Inr order \<and> distinct order \<and> set order = set intended \<and>
    (\<forall>a \<in> set intended. \<forall>s b. linked z st a s \<longrightarrow> b \<in> set intended \<longrightarrow>
      (cardParentId a = Inr (Some b) \<or> b \<in> set (c_depends_on (s_card s))) \<longrightarrow> precedes order a b)"
proof -
  let ?f = "\<lambda>i. length (takeWhile (\<lambda>x. x \<noteq> i) (namespaces st))"
  have parent: "\<exists>p. cardParentId a = Inr p" if "linked z st a s" for a s
    using cardParentId_total record_schema_parts(1) readExactCard_schema [OF linked_reads [OF that]] readExactCard_id [OF linked_reads [OF that]] by metis
  have edges: "card_edges idx intended a = Inr ((case p of Some p \<Rightarrow> (if p \<in> set intended then [p] else []) | None \<Rightarrow> []) @
          filter (\<lambda>d. d \<in> set intended) (c_depends_on (s_card s)))" if "linked z st a s" "cardParentId a = Inr p" for a s p
  proof -
    have "index_get idx a = Some (s_card s)" using idx that(1) by (auto simp: indexes_def)
    then show ?thesis using that(2) by (simp add: card_edges_def)
  qed
  have "\<exists>ts. card_edges idx intended a = Inr ts" if "a \<in> set intended" for a
    using I(2) that edges parent by blast
  then have "\<exists>all. mapE (\<lambda>i. bindE (card_edges idx intended i) (\<lambda>ts. Inr (i, ts))) intended = Inr all"
    by (intro mapE_total) (auto simp: errE)
  then obtain all where "mapE (\<lambda>i. bindE (card_edges idx intended i) (\<lambda>ts. Inr (i, ts))) intended = Inr all" by blast
  moreover obtain out d where "fold (\<lambda>(i, ts). fold (edge i) ts) all (\<lambda>_. [], \<lambda>_. 0) = (out, d)" by (rule prod.exhaust)
  ultimately have e: "deletion_edges idx intended = Inr (out, d)" by (simp add: deletion_edges_def)
  note E = deletion_edges_Inr [OF e I(1)]
  have targets: "b \<in> set (out a) \<longleftrightarrow> b \<in> set intended \<and> (cardParentId a = Inr (Some b) \<or> b \<in> set (c_depends_on (s_card s)))"
    if a: "a \<in> set intended" "linked z st a s" for a s b
  proof -
    obtain p where p: "cardParentId a = Inr p" using parent a(2) by blast
    obtain ts where ts: "card_edges idx intended a = Inr ts" "set (out a) = set ts" using E(3) [OF a(1)] by blast
    have "ts = (case p of Some p \<Rightarrow> (if p \<in> set intended then [p] else []) | None \<Rightarrow> []) @
          filter (\<lambda>d. d \<in> set intended) (c_depends_on (s_card s))"
      using ts(1) unfolding edges [OF a(2) p] by simp
    then show ?thesis unfolding ts(2) p by (cases p) auto
  qed
  have rank: "?f b < ?f a" if a: "a \<in> set intended" "b \<in> set (out a)" for a b
  proof -
    obtain s where s: "linked z st a s" using I(2) a(1) by blast
    have "earlier (namespaces st) b a"
      using targets [OF a(1) s] a(2) pf ok linked_named [OF ok s] linked_reads [OF s]
      unfolding parents_first_def project_ok_def order_ok_def by blast
    then show ?thesis by (rule earlier_index)
  qed
  have out: "\<forall>a \<in> set intended. distinct (out a) \<and> set (out a) \<subseteq> set intended" using E(1) targets I(2) by blast
  let ?order = "drain intended out d (sort (filter (\<lambda>i. d i = 0) intended)) []"
  have D: "distinct ?order" "set ?order = set intended"
      "\<And>k a. k < length ?order \<Longrightarrow> a \<in> set intended \<Longrightarrow> ?order ! k \<in> set (out a) \<Longrightarrow> a \<in> set (take k ?order)"
    using drain_orders [of intended out ?f d, OF out rank _ I(1)] E(2) by blast+
  have "precedes ?order a b" if "a \<in> set intended" "b \<in> set (out a)" for a b
    unfolding precedes_def
  proof (intro allI impI)
    fix xs ys assume o: "?order = xs @ b # ys"
    then show "a \<in> set xs" using D(3) [of "length xs" a] that by (simp add: o)
  qed
  moreover have "length ?order = length intended" using D I(1) distinct_card by metis
  ultimately show ?thesis using D e targets by (intro exI [of _ ?order]) (auto simp: deletionOrder_def Let_def)
qed

section \<open>The deletions\<close>

lemma deleteCard_cases:
  assumes "deleteCard z ws idx agent ks i st = (r, st')"
  obtains (stop) "st' = st" "\<exists>e. r = Inl e"
    | (fails) c v e where "publishCardTombstone z i c v (k_head (ks i)) st = (Inl e, st')" "r = Inl e"
    | (entombs) c v a st1 where "publishCardTombstone z i c v (k_head (ks i)) st = (Inr a, st1)" "cards_same st1 st'"
proof -
  have eff: "cards_same t u" if "bindS (liftS (cardParentId j)) (\<lambda>p. bindS (publishCardVersionEffects v p True rs)
      (\<lambda>_. emit e)) t = (x, u)" for j v rs e t x u
    using keepsD [OF csame.keeps_lift [OF csame.keeps_bind [OF publishCardVersionEffects_cards]] that]
    by (simp add: emit_def csame.keeps_modify cards_same_def)
  have "(st' = st \<and> (\<exists>e. r = Inl e)) \<or>
      (\<exists>c v e. publishCardTombstone z i c v (k_head (ks i)) st = (Inl e, st') \<and> r = Inl e) \<or>
      (\<exists>c v a st1. publishCardTombstone z i c v (k_head (ks i)) st = (Inr a, st1) \<and> cards_same st1 st')"
  proof (cases "index_get idx i")
    case (Some c)
    show ?thesis
    proof (cases "ws (c_type c)")
      case (Some w)
      show ?thesis
      proof (cases "versionChange z c None KDelete [''__deleted__''] ''card deleted'' ''analyst subtree deletion'' (Some agent) (ks i)")
        case (Inr v)
        have "bindS (publishCardTombstone z i c v (k_head (ks i))) (\<lambda>_. bindS (liftS (cardParentId (c_id c))) (\<lambda>p.
            bindS (publishCardVersionEffects v p True (map rd_filename (record_definitions w))) (\<lambda>_.
              emit (AgentMembershipChanged (c_id c))))) st = (r, st')"
          using assms Inr \<open>index_get idx i = Some c\<close> Some by (simp add: deleteCard_def)
        then show ?thesis by (cases rule: bindS_cases) (blast dest: eff)+
      qed (use assms \<open>index_get idx i = Some c\<close> Some in \<open>auto simp: deleteCard_def\<close>)
    qed (use assms Some in \<open>auto simp: deleteCard_def\<close>)
  qed (use assms in \<open>auto simp: deleteCard_def\<close>)
  then show thesis using stop fails entombs by blast
qed

text \<open>The cards active in \<open>st\<close> are those of \<open>base\<close> less the ones in \<open>gone\<close>.\<close>

definition shrunk :: "zod \<Rightarrow> 'a card_store_scheme \<Rightarrow> string set \<Rightarrow> 'a card_store_scheme \<Rightarrow> bool" where
  "shrunk z base gone st \<longleftrightarrow> project_ok z st \<and> (\<forall>j s. linked z st j s \<longleftrightarrow> linked z base j s \<and> j \<notin> gone)"

lemma quiet_shrunk: "quiet st st' \<Longrightarrow> shrunk z base gone st \<Longrightarrow> shrunk z base gone st'"
proof -
  assume q: "quiet st st'" and s: "shrunk z base gone st"
  then have ok: "project_ok z st" by (simp add: shrunk_def)
  have "readExactCard z st' j = readExactCard z st j" for j
    using q ok reads_other [of z st st' j] by (simp add: quiet_def project_ok_def documents_growD)
  then show ?thesis using s quiet_project_ok [OF q ok] linked_cong [of z st' st] by (simp add: shrunk_def)
qed

lemma deleteCard_shrinks:
  assumes run: "deleteCard z ws idx agent ks i st = (r, st')" and st: "shrunk z base gone st" and "i \<noteq> ''project''"
    and leaf: "\<And>s m t. linked z base i s \<Longrightarrow> m \<in> set (c_child_membership (s_card s)) \<Longrightarrow> linked z base m t \<Longrightarrow> m \<in> gone"
    and unused: "\<And>j s. linked z base j s \<Longrightarrow> i \<in> set (c_depends_on (s_card s)) \<Longrightarrow> j \<noteq> i \<Longrightarrow> j \<in> gone"
  shows "shrunk z base gone st' \<and> (\<exists>e. r = Inl e) \<or> shrunk z base (insert i gone) st'"
  using run
proof (cases rule: deleteCard_cases)
  case stop
  then show ?thesis using st by auto
next
  case (fails c v e)
  then have "quiet st st'" using tombstones.failed_quiet publication_names(3) by blast
  then show ?thesis using quiet_shrunk st fails by blast
next
  case (entombs c v a st1)
  have ok: "project_ok z st" and lk: "\<And>j s. linked z st j s \<longleftrightarrow> linked z base j s \<and> j \<notin> gone" using st by (auto simp: shrunk_def)
  from entombs(1) obtain sel sel' where t: "linked z st i sel" "s_card sel = c" "readExactCard z st1 i = Inr sel'"
      "s_tombstone sel'" "ordinaryCardPayload (s_card sel') = ordinaryCardPayload c"
    by (rule publishCardTombstone_read)
  have leaf': "s_tombstone t" if m: "m \<in> set (c_child_membership (s_card sel))" "readExactCard z st m = Inr t" for m t
  proof (rule ccontr)
    assume "\<not> s_tombstone t"
    then have "linked z st m t" using member_linked [OF \<open>linked z st i sel\<close> m] by blast
    then show False using leaf [of sel m t] lk \<open>linked z st i sel\<close> m(1) by blast
  qed
  have "card_ok z st1 i" using tombstones.selects [OF entombs(1)] ok by (simp add: project_ok_def)
  moreover have "j \<noteq> i \<Longrightarrow> linked z st j s \<Longrightarrow> i \<notin> set (c_depends_on (s_card s))" for j s using unused lk by blast
  ultimately have "project_ok z st1 \<and> (\<forall>j s. linked z st1 j s \<longleftrightarrow> linked z st j s \<and> j \<noteq> i)"
    using keepsD [OF tombstones.grows entombs(1)] keepsD [OF tombstones.frame entombs(1)]
      keepsD [OF publication_names(3) entombs(1)] t leaf' \<open>i \<noteq> ''project''\<close>
    by (intro entomb_project_ok [OF ok _ _ _ _ t(1) _ t(3)]) (simp_all add: names_same_def heads_outside_def)
  then have "shrunk z base (insert i gone) st1" using lk by (auto simp: shrunk_def)
  then show ?thesis using quiet_shrunk [OF cards_same_quiet [OF entombs(2)]] by blast
qed

lemma deletions_shrink:
  assumes "forS (deleteCard z ws idx agent ks) ys st = (r, st')" and "shrunk z base (set xs) st"
    and "\<And>us i vs s m t. xs @ ys = us @ i # vs \<Longrightarrow> linked z base i s \<Longrightarrow> m \<in> set (c_child_membership (s_card s)) \<Longrightarrow>
        linked z base m t \<Longrightarrow> m \<in> set us"
    and "\<And>us i vs j s. xs @ ys = us @ i # vs \<Longrightarrow> linked z base j s \<Longrightarrow> i \<in> set (c_depends_on (s_card s)) \<Longrightarrow> j \<noteq> i \<Longrightarrow> j \<in> set us"
    and "''project'' \<notin> set ys"
  shows "\<exists>us vs. xs @ ys = us @ vs \<and> shrunk z base (set us) st' \<and> (r = Inr () \<longrightarrow> vs = [])"
  using assms
proof (induction ys arbitrary: xs st)
  case Nil
  then show ?case by (auto simp: returnS_def)
next
  case (Cons i ys)
  from Cons.prems(1) show ?case
    unfolding forS.simps
  proof (cases rule: bindS_cases)
    case (fails e)
    have "shrunk z base (set xs) st' \<or> shrunk z base (insert i (set xs)) st'"
      using deleteCard_shrinks [OF fails(1) Cons.prems(2)] Cons.prems(3-5) by (metis list.set_intros(1))
    then have "shrunk z base (set xs) st' \<or> shrunk z base (set (xs @ [i])) st'" by simp
    then show ?thesis using fails(2) by (metis Inl_Inr_False append.assoc append_Cons append_Nil)
  next
    case (goes u st1)
    have "shrunk z base (insert i (set xs)) st1"
      using deleteCard_shrinks [OF goes(1) Cons.prems(2)] Cons.prems(3-5) by (metis Inl_Inr_False list.set_intros(1))
    then have "shrunk z base (set (xs @ [i])) st1" by simp
    from Cons.IH [OF goes(2) this] Cons.prems(3-5) show ?thesis by simp
  qed
qed

section \<open>The plan\<close>

definition subtree_ids :: "zod \<Rightarrow> 'a card_store_scheme \<Rightarrow> string list \<Rightarrow> string set" where
  "subtree_ids z st roots = {j. \<exists>r \<in> set roots. \<exists>s. below z st r j s}"

lemma below_linked: "below z st i j s \<Longrightarrow> linked z st i tp \<Longrightarrow> linked z st j s"
proof (induction arbitrary: tp rule: below.induct)
  case (self i sel)
  then show ?case using linked_reads [OF self.prems] by simp
next
  case (down i parent c j sel)
  have tp: "tp = parent" using linked_reads [OF down.prems] down(1) by simp
  obtain t where "readExactCard z st c = Inr t" "\<not> s_tombstone t" using below_top [OF down(4)] by blast
  then have "linked z st c t" using member_linked [OF down.prems] down(3) tp by blast
  then show ?case by (rule down.IH)
qed

lemma intended_subtree:
  assumes idx: "indexes z st idx" and I: "intendedFrom idx [] roots = Inr intended"
  shows "distinct intended" "set intended = subtree_ids z st roots"
    "\<forall>r \<in> set roots. r \<noteq> ''project'' \<and> (\<exists>s. linked z st r s)" "\<forall>i \<in> set intended. \<exists>s. linked z st i s"
proof -
  note P = intendedFrom_Inr [OF I, simplified]
  have get: "index_get idx r \<noteq> None \<longleftrightarrow> (\<exists>s. linked z st r s)" for r using idx by (force simp: indexes_def)
  show "distinct intended" using P by blast
  show roots: "\<forall>r \<in> set roots. r \<noteq> ''project'' \<and> (\<exists>s. linked z st r s)" using P get by blast
  have "(child_edges idx)\<^sup>* `` set roots = subtree_ids z st roots"
  proof -
    have "(r, j) \<in> (child_edges idx)\<^sup>* \<longleftrightarrow> (\<exists>s. below z st r j s)" if r: "r \<in> set roots" for r j
    proof -
      obtain tp where "linked z st r tp" using roots r by blast
      then show ?thesis by (rule child_edges_below [OF idx])
    qed
    then show ?thesis by (auto simp: subtree_ids_def)
  qed
  then show *: "set intended = subtree_ids z st roots" using P by simp
  show "\<forall>i \<in> set intended. \<exists>s. linked z st i s"
  proof
    fix i assume "i \<in> set intended"
    then obtain r s where r: "r \<in> set roots" "below z st r i s" unfolding * subtree_ids_def by blast
    moreover obtain tp where "linked z st r tp" using roots r(1) by blast
    ultimately show "\<exists>s. linked z st i s" using below_linked [of z st r i s tp] by blast
  qed
qed

lemma subtree_children:
  assumes "j \<in> subtree_ids z st roots" "linked z st j s" "m \<in> set (c_child_membership (s_card s))" "linked z st m t"
  shows "m \<in> subtree_ids z st roots" "cardParentId m = Inr (Some j)"
proof -
  obtain r s' where r: "r \<in> set roots" "below z st r j s'" using assms(1) by (auto simp: subtree_ids_def)
  then have "s' = s" using below_reads [OF r(2)] linked_reads [OF assms(2)] by simp
  then have "below z st r m t" using below_snoc [OF r(2)] assms linked_reads [OF assms(4)] linked_not_tombstone [OF assms(4)] by blast
  with r show "m \<in> subtree_ids z st roots" by (auto simp: subtree_ids_def)
  show "cardParentId m = Inr (Some j)"
    using card_child_parent [OF readExactCard_schema [OF linked_reads [OF assms(2)]] assms(3)] readExactCard_id [OF linked_reads [OF assms(2)]] by simp
qed

text \<open>What must hold for the plan to be made; the order itself never fails.\<close>

definition deletable :: "zod \<Rightarrow> 'a card_store_scheme \<Rightarrow> string list \<Rightarrow> (card_record \<Rightarrow> bool) \<Rightarrow> bool" where
  "deletable z st requested allowed \<longleftrightarrow> requested \<noteq> [] \<and>
     (\<forall>r \<in> set requested. r \<noteq> ''project'' \<and> (\<exists>s. linked z st r s)) \<and>
     (\<forall>i \<in> subtree_ids z st requested. \<forall>s. linked z st i s \<longrightarrow> allowed (s_card s)) \<and>
     (\<forall>j s. linked z st j s \<longrightarrow> j \<notin> subtree_ids z st requested \<longrightarrow> set (c_depends_on (s_card s)) \<inter> subtree_ids z st requested = {})"

lemma subtree_ids_cong: "set xs = set ys \<Longrightarrow> subtree_ids z st xs = subtree_ids z st ys"
  by (simp add: subtree_ids_def)

lemma intendedFrom_total:
  "\<forall>r \<in> set roots. index_get idx r \<noteq> None \<and> r \<noteq> ''project'' \<Longrightarrow> \<exists>intended. intendedFrom idx xs roots = Inr intended"
  by (induction roots arbitrary: xs) auto

lemma deletionPlan_iff:
  assumes ok: "project_ok z st" and pf: "parents_first st"
  shows "(\<exists>p. deletionPlan z st requested allowed = Inr p) \<longleftrightarrow> deletable z st requested allowed" (is "?plan \<longleftrightarrow> _")
    and "deletionPlan z st requested allowed = Inr (idx, order, roots) \<Longrightarrow> indexes z st idx \<and> set roots = set requested \<and>
      distinct order \<and> set order = subtree_ids z st requested \<and>
      (\<forall>a \<in> set order. \<forall>s. \<forall>b \<in> set order. linked z st a s \<longrightarrow> cardParentId a = Inr (Some b) \<or> b \<in> set (c_depends_on (s_card s)) \<longrightarrow> precedes order a b)"
      (is "?run \<Longrightarrow> ?spec")
proof -
  obtain ix where ix: "buildFullIndex z st = Inr ix" "indexes z st ix" using buildFullIndex_total [OF ok] by blast
  have get: "index_get ix i = Some c \<longleftrightarrow> (\<exists>s. linked z st i s \<and> s_card s = c)" for i c using ix(2) by (simp add: indexes_def)
  have mem: "c \<in> set ix \<longleftrightarrow> (\<exists>i s. linked z st i s \<and> s_card s = c)" for c
    using get [of "c_id c" c] index_get_iff [of ix "c_id c" c] ix(2) get unfolding indexes_def by (metis index_get_iff)
  let ?roots = "foldl set_add [] requested"
  have sr: "set ?roots = set requested" by (simp add: set_add_all)
  have sub: "subtree_ids z st ?roots = subtree_ids z st requested" using subtree_ids_cong [OF sr] .
  have plan: "deletionPlan z st requested allowed = Inr (idx, order, roots) \<longleftrightarrow>
      requested \<noteq> [] \<and> idx = ix \<and> roots = ?roots \<and> (\<exists>I. intendedFrom ix [] ?roots = Inr I \<and>
        (\<exists>us. mapE (\<lambda>i. bindE (optionE (PlainError ''TypeError'' []) (index_get ix i)) (\<lambda>c.
           guardE (allowed c) (PlainError ''Deletion denied for card'' [i]))) I = Inr us) \<and>
        (\<exists>us. mapE (\<lambda>survivor. mapE (\<lambda>d. guardE (\<not> (c_id survivor \<notin> set I \<and> d \<in> set I))
           (PlainError ''Surviving card depends on deleted card'' [c_id survivor, d])) (c_depends_on survivor)) ix = Inr us) \<and>
        deletionOrder ix I = Inr order)" for idx order roots
    using ix(1) by (auto simp: deletionPlan_def Let_def bindE_Inr_iff guardE_Inr_iff)
  show ?spec if ?run
  proof -
    from that obtain I where I: "intendedFrom ix [] ?roots = Inr I" "deletionOrder ix I = Inr order" "idx = ix" "roots = ?roots"
      unfolding plan by blast
    note S = intended_subtree [OF ix(2) I(1)]
    from deletionOrder_total [OF ok pf ix(2) S(1,4)] I(2) have "distinct order" "set order = set I"
      "\<forall>a \<in> set I. \<forall>s b. linked z st a s \<longrightarrow> b \<in> set I \<longrightarrow>
        (cardParentId a = Inr (Some b) \<or> b \<in> set (c_depends_on (s_card s))) \<longrightarrow> precedes order a b" by auto
    then show ?thesis using S(2) sub sr I ix(2) by blast
  qed
  show "?plan \<longleftrightarrow> deletable z st requested allowed"
  proof
    assume ?plan
    then obtain idx order roots where "deletionPlan z st requested allowed = Inr (idx, order, roots)" by (metis prod_cases3)
    then obtain I us vs where p: "requested \<noteq> []" "intendedFrom ix [] ?roots = Inr I"
        "mapE (\<lambda>i. bindE (optionE (PlainError ''TypeError'' []) (index_get ix i)) (\<lambda>c.
           guardE (allowed c) (PlainError ''Deletion denied for card'' [i]))) I = Inr us"
        "mapE (\<lambda>survivor. mapE (\<lambda>d. guardE (\<not> (c_id survivor \<notin> set I \<and> d \<in> set I))
           (PlainError ''Surviving card depends on deleted card'' [c_id survivor, d])) (c_depends_on survivor)) ix = Inr vs"
      unfolding plan by blast
    note S = intended_subtree [OF ix(2) p(2)]
    have "allowed (s_card s)" if "i \<in> set I" "linked z st i s" for i s
    proof -
      have "index_get ix i = Some (s_card s)" using get that(2) by blast
      then show ?thesis using p(3) that(1) by (fastforce simp: mapE_Inr_iff list_all2_conv_all_nth in_set_conv_nth errE)
    qed
    moreover have "j \<in> set I" if "linked z st j s" "d \<in> set (c_depends_on (s_card s))" "d \<in> set I" for j s d
      using survivor_check [OF p(4), of "s_card s" d] mem that readExactCard_id [OF linked_reads [OF that(1)]] by auto
    ultimately show "deletable z st requested allowed" unfolding deletable_def using p(1) S(2,3) sub sr by blast
  next
    assume D: "deletable z st requested allowed"
    then obtain I where I: "intendedFrom ix [] ?roots = Inr I"
      using intendedFrom_total [of ?roots ix "[]"] get sr unfolding deletable_def by (metis not_None_eq)
    note S = intended_subtree [OF ix(2) I]
    have "\<exists>u. bindE (optionE (PlainError ''TypeError'' []) (index_get ix i)) (\<lambda>c.
           guardE (allowed c) (PlainError ''Deletion denied for card'' [i])) = Inr u" if "i \<in> set I" for i
    proof -
      obtain s where "linked z st i s" using S(4) \<open>i \<in> set I\<close> by blast
      moreover from this have "index_get ix i = Some (s_card s)" using get by blast
      ultimately show ?thesis using D that S(2) sub unfolding deletable_def by (auto simp: errE)
    qed
    then have "\<exists>us. mapE (\<lambda>i. bindE (optionE (PlainError ''TypeError'' []) (index_get ix i)) (\<lambda>c.
           guardE (allowed c) (PlainError ''Deletion denied for card'' [i]))) I = Inr us" by (rule mapE_total)
    moreover have "\<exists>us. mapE (\<lambda>survivor. mapE (\<lambda>d. guardE (\<not> (c_id survivor \<notin> set I \<and> d \<in> set I))
           (PlainError ''Surviving card depends on deleted card'' [c_id survivor, d])) (c_depends_on survivor)) ix = Inr us"
    proof (rule mapE_total, rule mapE_total)
      fix c d assume "c \<in> set ix" "d \<in> set (c_depends_on c)"
      then obtain j s where js: "linked z st j s" "s_card s = c" using mem by blast
      then have "c_id c = j" using readExactCard_id [OF linked_reads [OF js(1)]] by simp
      then have "\<not> (c_id c \<notin> set I \<and> d \<in> set I)"
        using D S(2) sub \<open>d \<in> set (c_depends_on c)\<close> js unfolding deletable_def by (metis Int_iff empty_iff)
      then show "\<exists>u. guardE (\<not> (c_id c \<notin> set I \<and> d \<in> set I)) (PlainError ''Surviving card depends on deleted card'' [c_id c, d]) = Inr u"
        by (simp add: guardE_def)
    qed
    moreover obtain order where "deletionOrder ix I = Inr order" using deletionOrder_total [OF ok pf ix(2) S(1,4)] by blast
    ultimately have "deletionPlan z st requested allowed = Inr (ix, order, ?roots)"
      unfolding plan using I D by (simp add: deletable_def)
    then show ?plan by blast
  qed
qed

section \<open>Deletion\<close>

lemma deleteSubtrees_shrinks:
  assumes ok: "project_ok z st" and pf: "parents_first st"
    and run: "deleteSubtrees z ws requested allowed agent ks st = (r, st')"
  shows "\<exists>gone \<subseteq> subtree_ids z st requested. shrunk z st gone st' \<and>
    (\<forall>deleted roots. r = Inr (deleted, roots) \<longrightarrow> distinct deleted \<and> set deleted = subtree_ids z st requested \<and>
       gone = set deleted \<and> set roots = set requested)"
proof (cases "deletionPlan z st requested allowed")
  case (Inl e)
  then have "r = Inl e" "st' = st" using run by (auto simp: deleteSubtrees_def bindS_def readS_def)
  then show ?thesis using ok by (auto simp: shrunk_def)
next
  case (Inr p)
  obtain idx order roots where p: "p = (idx, order, roots)" by (cases p)
  note plan = Inr [unfolded p]
  note D = deletionPlan_iff(1) [OF ok pf, of requested allowed]
  note P = deletionPlan_iff(2) [OF ok pf plan]
  have D: "deletable z st requested allowed" using deletionPlan_iff(1) [OF ok pf] plan by blast
  have set: "set order = subtree_ids z st requested" using P by blast
  have ordered: "a \<in> set us"
    if "order = us @ b # vs" "a \<in> set order" "linked z st a s" "cardParentId a = Inr (Some b) \<or> b \<in> set (c_depends_on (s_card s))" for us vs a b s
  proof -
    have "b \<in> set order" using that(1) by simp
    then have "precedes order a b" using P that(2-4) by blast
    then show ?thesis using that(1) unfolding precedes_def by blast
  qed
  have no_project: "''project'' \<notin> set order"
  proof
    assume "''project'' \<in> set order"
    then obtain r s where r: "r \<in> set requested" "below z st r ''project'' s" unfolding set subtree_ids_def by blast
    then obtain ss ts where "card_path (ss @ ts)" "r = card_id_of ss" "''project'' = card_id_of (ss @ ts)" using below_path by blast
    then have "ss = []" using card_id_of_inject [of "ss @ ts" "[]"] card_path_Nil by (metis append_is_Nil_conv card_id_of_def)
    then have "r = ''project''" using \<open>r = card_id_of ss\<close> by (simp add: card_id_of_def)
    then show False using D r(1) unfolding deletable_def by blast
  qed
  from run plan have "bindS (forS (deleteCard z ws idx agent ks) order) (\<lambda>_. returnS (order, roots)) st = (r, st')"
    by (simp add: deleteSubtrees_def bindS_def readS_def)
  then obtain r2 where r2: "forS (deleteCard z ws idx agent ks) order st = (r2, st')" "\<And>x. r = Inr x \<Longrightarrow> r2 = Inr () \<and> x = (order, roots)"
    by (cases rule: bindS_cases) (auto simp: returnS_def)
  have "\<exists>us vs. [] @ order = us @ vs \<and> shrunk z st (set us) st' \<and> (r2 = Inr () \<longrightarrow> vs = [])"
  proof (rule deletions_shrink [OF r2(1)])
    show "shrunk z st (set []) st" using ok by (simp add: shrunk_def)
    show "''project'' \<notin> set order" by (rule no_project)
    fix us i vs s m t
    assume o: "[] @ order = us @ i # vs" and "linked z st i s" "m \<in> set (c_child_membership (s_card s))" "linked z st m t"
    moreover have "i \<in> subtree_ids z st requested" using o set by auto
    ultimately have "m \<in> set order" "cardParentId m = Inr (Some i)" using subtree_children set by blast+
    then show "m \<in> set us" using ordered [of us i vs m t] o \<open>linked z st m t\<close> by simp
  next
    fix us i vs j s
    assume o: "[] @ order = us @ i # vs" and j: "linked z st j s" "i \<in> set (c_depends_on (s_card s))" "j \<noteq> i"
    have "i \<in> subtree_ids z st requested" using o set by auto
    then have "j \<in> set order" using D j set unfolding deletable_def by (metis Int_iff empty_iff)
    then show "j \<in> set us" using ordered [of us i vs j s] o j by simp
  qed
  then obtain us vs where "order = us @ vs" "shrunk z st (set us) st'" "r2 = Inr () \<longrightarrow> vs = []" by auto
  then show ?thesis using r2(2) P set by (intro exI [of _ "set us"]) auto
qed

lemma deleteSubtrees_kept:
  "project_ok z st \<Longrightarrow> parents_first st \<Longrightarrow> deleteSubtrees z ws requested allowed agent ks st = (r, st') \<Longrightarrow> project_ok z st'"
  using deleteSubtrees_shrinks unfolding shrunk_def by blast

end
