(* ===== verification/ProjectRuns.thy ===== *)
theory ProjectRuns
  imports CardDeletionLaws
begin

text \<open>
  Histories of a project: the stores reachable from the empty store by any sequence of calls of
  the services, successful or failing. Every reachable store satisfies the project invariant.
\<close>

section \<open>Calls\<close>

text \<open>
  The calls that change a project, with the clock readings and identifiers they draw, and the
  stores reachable from the empty store by any sequence of calls, successful or not.
\<close>

datatype call =
    Bootstrap string string string compiled_workflow "error + git_facts option" birth_ids
  | Create new_child_input birth_ids stamps
  | SetStatus string set_status_target stamps
  | Edit string card_edit_patch string stamps stamps
  | GitFacts string git_facts stamps
  | Stop string stamps
  | Activate string stamps
  | Enqueue string card_notification stamps
  | Remove string "string list" stamps
  | Commit string activation_outcome string stamps
  | Reorder string "string list" stamps
  | Delete "string list" "card_record \<Rightarrow> bool" string "string \<Rightarrow> stamps"
  | OpenRecord string record_definition string string
  | EditRecord string record_definition string string string
  | CloseRecord current_selection record_definition string string string string
  | DiscardRecord string record_definition string
  | AcceptRecord current_selection record_definition string record_author string string string

definition ignore :: "('s, 'a) op \<Rightarrow> ('s, unit) op" where
  "ignore m = bindS m (\<lambda>_. returnS ())"

fun perform :: "zod \<Rightarrow> (string \<Rightarrow> string) \<Rightarrow> (string \<rightharpoonup> compiled_workflow) \<Rightarrow> call \<Rightarrow> ('a project_store_scheme, unit) op" where
  "perform z sha ws (Bootstrap title bc analyst w git ids) = publishInitialProjectRuntime z sha title bc analyst w git ids"
| "perform z sha ws (Create input ids k) = ignore (create z sha ws input ids k)"
| "perform z sha ws (SetStatus i t k) = ignore (setStatus z i t k)"
| "perform z sha ws (Edit i p a ks k) = ignore (editCard z i p a ks k)"
| "perform z sha ws (GitFacts i f k) = ignore (publishGitFacts z i f k)"
| "perform z sha ws (Stop i k) = ignore (stopRunning z i k)"
| "perform z sha ws (Activate i k) = ignore (activateStopped z i k)"
| "perform z sha ws (Enqueue i n k) = ignore (enqueueNotification z i n k)"
| "perform z sha ws (Remove i ns k) = ignore (removeNotifications z i ns k)"
| "perform z sha ws (Commit i out t k) = ignore (commitActivationOutcome z i out t k)"
| "perform z sha ws (Reorder i order k) = ignore (reorderChildren z i order k)"
| "perform z sha ws (Delete is allowed agent ks) = ignore (deleteSubtrees z ws is allowed agent ks)"
| "perform z sha ws (OpenRecord i d now h) = ignore (openAuthoredRecord z sha i d now h)"
| "perform z sha ws (EditRecord i d ct now h) = ignore (editOpenAuthoredRecord z sha i d ct now h)"
| "perform z sha ws (CloseRecord sel d w now e h) = ignore (closeOpenAuthoredRecord z sha sel d w now e h)"
| "perform z sha ws (DiscardRecord i d h) = ignore (discardOpenAuthoredRecord z sha i d h)"
| "perform z sha ws (AcceptRecord sel d ct au now e h) = ignore (acceptAuthoredRecord z sha sel d ct au now e h)"

definition empty_project :: project_store where
  "empty_project = \<lparr>heads = Map.empty, previous_heads = Map.empty, history = Map.empty, mailbox = Map.empty, namespaces = [],
     record_heads = Map.empty, previous_record_heads = Map.empty, accepted_records = Map.empty, conversations = [], effects = []\<rparr>"

inductive reachable :: "zod \<Rightarrow> (string \<Rightarrow> string) \<Rightarrow> (string \<rightharpoonup> compiled_workflow) \<Rightarrow> project_store \<Rightarrow> bool"
  for z :: zod and sha :: "string \<Rightarrow> string" and ws :: "string \<rightharpoonup> compiled_workflow" where
  start: "reachable z sha ws empty_project"
| call: "reachable z sha ws st \<Longrightarrow> perform z sha ws c st = (r, st') \<Longrightarrow> reachable z sha ws st'"

section \<open>Identities are claimed in order\<close>

definition claims_kept :: "'a card_store_scheme \<Rightarrow> 'a card_store_scheme \<Rightarrow> bool" where
  "claims_kept st st' \<longleftrightarrow> (parents_first st \<longrightarrow> parents_first st')"

interpretation claims: state_frame claims_kept
  by unfold_locales (auto simp: claims_kept_def)

lemma names_same_claims: "names_same st st' \<Longrightarrow> claims_kept st st'"
  by (simp add: names_same_def claims_kept_def parents_first_def)

lemma cards_same_claims: "cards_same st st' \<Longrightarrow> claims_kept st st'"
  by (simp add: cards_same_def claims_kept_def parents_first_def)

lemmas claims_of_names = keeps_mono [OF _ names_same_claims]
lemmas claims_of_cards = keeps_mono [OF _ cards_same_claims]

lemma claimChildNamespace_claims: "keeps claims_kept (claimChildNamespace p)"
proof (rule keepsI, unfold claims_kept_def, rule impI)
  fix st :: "'a project_store_scheme" and r st'
  assume run: "claimChildNamespace p st = (r, st')" and ok: "parents_first st"
  show "parents_first st'"
  proof (cases r)
    case (Inl e)
    with run have "st' = st"
      by (auto simp: claimChildNamespace_def bindS_def readS_def modifyS_def returnS_def split: sum.splits prod.splits)
    with ok show ?thesis by simp
  next
    case (Inr i)
    then have p: "p \<in> set (namespaces st)" using run by (auto simp: claimChildNamespace_def errE)
    from Inr run claimChildNamespace_Inr [of p st i st'] obtain s where
      i: "i \<notin> set (namespaces st)" "namespaces st' = namespaces st @ [i]" "childCardId p s = Inr i" by auto
    have "cardIdSchema p" "cardSegmentSchema s" using i(3) by (auto simp: childCardId_def errE)
    then obtain ss where ss: "card_path ss" "p = card_id_of ss" by (auto simp: cardIdSchema_iff)
    then have "card_path (ss @ [s])" "i = card_id_of (ss @ [s])" using i(3) by (auto simp: childCardId_path card_path_snoc)
    then have "cardParentId i = Inr (Some p)" using ss by simp
    then show ?thesis
      using ok i p unfolding parents_first_def by (auto simp: earlier_append intro: earlier_snoc)
  qed
qed

lemma project_claims: "''project'' \<notin> set (namespaces st) \<Longrightarrow> claims_kept st (st\<lparr>namespaces := namespaces st @ [''project'']\<rparr>)"
proof -
  assume fresh: "''project'' \<notin> set (namespaces st)"
  have "cardParentId ''project'' = Inr None" by (simp add: cardParentId_def cardIdSegments_def cardIdSchema_def)
  with fresh show ?thesis by (auto simp: claims_kept_def parents_first_def earlier_append)
qed

lemmas publication_claims = claims_of_names [OF publication_names(1)] claims_of_names [OF publication_names(2)]
  claims_of_names [OF publication_names(3)]

lemma emit_claims: "keeps claims_kept (emit e)"
  unfolding emit_def by (rule claims.keeps_modify) (simp add: claims_kept_def parents_first_def)

lemma require_card_claims: "keeps claims_kept (require_card z i)"
  unfolding require_card_def by (rule claims.keeps_prim)

lemmas claims_rules = claims.keeps_rules publication_claims
  emit_claims claims_of_cards [OF publishCardVersionEffects_cards] require_card_claims keeps_case_prod

lemma publishVersion_claims: "keeps claims_kept (publishVersion z ex c kind fs reason summary agent nt k)"
  unfolding publishVersion_def by (intro claims_rules)

lemma setStatus_claims: "keeps claims_kept (setStatus z i t k)"
  unfolding setStatus_def by (intro claims_rules publishVersion_claims)

lemma service_claims:
  "keeps claims_kept (publishGitFacts z i facts k)"
  "keeps claims_kept (editCard z i patch agent ks k)"
  "keeps claims_kept (stopRunning z i k)"
  "keeps claims_kept (activateStopped z i k)"
  "keeps claims_kept (enqueueNotification z i nt k)"
  "keeps claims_kept (removeNotifications z i ids k)"
  "keeps claims_kept (reorderChildren z i order k)"
  "keeps claims_kept (commitActivationOutcome z i outcome settledAt k)"
  unfolding publishGitFacts_def editCard_def stopRunning_def activateStopped_def enqueueNotification_def
    removeNotifications_def reorderChildren_def publishExactChildReorder_def commitActivationOutcome_def
    Let_def
  by (intro claims_rules publishVersion_claims setStatus_claims)+

lemma deleteCard_claims: "keeps claims_kept (deleteCard z ws idx agent km i)"
  unfolding deleteCard_def by (intro claims_rules)

lemma deleteSubtrees_claims: "keeps claims_kept (deleteSubtrees z ws is allowed agent km)"
  unfolding deleteSubtrees_def by (intro claims_rules claims.keeps_for deleteCard_claims)

lemma create_claims: "keeps claims_kept (create z sha ws input ids k)"
  unfolding create_def create_admission_def linkChild_def publishInitialChildCard_def publishInitialCardState_def Let_def
  by (intro claims_rules claims.keeps_for claimChildNamespace_claims claims_of_cards [OF card_conversations_cards]
      claims_of_cards [OF record_ops_cards(7)])

lemma prepare_claims: "keeps claims_kept (prepareInitialProjectDirectories w)"
proof (rule keepsI)
  fix st :: "'a project_store_scheme" and r st' assume run: "prepareInitialProjectDirectories w st = (r, st')"
  let ?claimed = "st\<lparr>namespaces := namespaces st @ [''project'']\<rparr>"
  have "st' = st \<or> ''project'' \<notin> set (namespaces st) \<and> cards_same ?claimed st'"
    using run unfolding prepareInitialProjectDirectories_def
    by (auto simp: liftS_def bindS_def readS_def modifyS_def guardE_def split: if_splits
        intro: keepsD [OF card_conversations_cards])
  then show "claims_kept st st'"
    using claims.frame_refl claims.frame_trans [OF project_claims cards_same_claims] by blast
qed

lemma bootstrap_claims: "keeps claims_kept (publishInitialProjectRuntime z sha title bc analyst w git ids)"
  unfolding publishInitialProjectRuntime_def publishInitialProjectCard_def publishInitialCardState_def
  by (intro claims_rules prepare_claims claims.keeps_for claims_of_cards [OF conversations_cards]
      claims_of_cards [OF record_ops_cards(7)])

section \<open>The invariant of reachable stores\<close>

lemma ignore_run: "ignore m st = (r, st') \<Longrightarrow> \<exists>x. m st = (x, st')"
  by (auto simp: ignore_def bindS_def returnS_def split: prod.splits sum.splits)

lemma record_calls_cards:
  "keeps cards_same (perform z sha ws (OpenRecord i d now h))"
  "keeps cards_same (perform z sha ws (EditRecord i d ct now h))"
  "keeps cards_same (perform z sha ws (CloseRecord sel d w now e h))"
  "keeps cards_same (perform z sha ws (DiscardRecord i d h))"
  "keeps cards_same (perform z sha ws (AcceptRecord sel d ct au now e h))"
  unfolding perform.simps ignore_def by (intro csame.keeps_bind csame.keeps_prim record_ops_cards)+

lemma perform_claims: "keeps claims_kept (perform z sha ws c)"
proof (cases c)
qed (auto simp: ignore_def intro!: claims.keeps_bind claims.keeps_prim bootstrap_claims create_claims setStatus_claims
      service_claims deleteSubtrees_claims claims_of_cards [OF record_ops_cards(1)] claims_of_cards [OF record_ops_cards(3)]
      claims_of_cards [OF record_ops_cards(4)] claims_of_cards [OF record_ops_cards(5)] claims_of_cards [OF record_ops_cards(6)])

lemma perform_kept:
  assumes "perform z sha ws c st = (r, st')" and "project_ok z st" "parents_first st"
  shows "project_ok z st'"
proof (cases "\<exists>is allowed agent ks. c = Delete is allowed agent ks")
  case True
  then show ?thesis using assms by (auto dest!: ignore_run intro: deleteSubtrees_kept)
next
  case False
  then have "keeps (kept z) (perform z sha ws c)"
    by (cases c) (auto simp: ignore_def intro!: kept.keeps_bind kept.keeps_prim publishInitialProjectRuntime_kept create_kept
      setStatus_kept service_versions_kept commitActivationOutcome_kept reorderChildren_kept
      cards_same_kept [OF record_ops_cards(1)] cards_same_kept [OF record_ops_cards(3)] cards_same_kept [OF record_ops_cards(4)]
      cards_same_kept [OF record_ops_cards(5)] cards_same_kept [OF record_ops_cards(6)])
  then show ?thesis using assms by (auto simp: keeps_def kept_def)
qed

lemma empty_project_ok: "project_ok z empty_project" "parents_first empty_project"
proof -
  have none: "readExactCard z empty_project i \<noteq> Inr sel" for i sel
    by (auto simp: readExactCard_def empty_project_def errE)
  then have "\<not> linked z empty_project i sel" for i sel using linked_reads by blast
  with none show "project_ok z empty_project"
    by (simp add: project_ok_def store_ok_def links_ok_def names_ok_def order_ok_def closed_ok_def empty_project_def)
  show "parents_first empty_project" by (simp add: parents_first_def empty_project_def)
qed

lemma reachable_ok: "reachable z sha ws st \<Longrightarrow> project_ok z st \<and> parents_first st"
proof (induction rule: reachable.induct)
  case start
  then show ?case using empty_project_ok by blast
next
  case (call st c r st')
  then show ?case using perform_kept keepsD [OF perform_claims call(2)] by (auto simp: claims_kept_def)
qed

end
