(* ===== verification/CardEvolution.thy ===== *)
theory CardEvolution
  imports ProjectRuns
begin

text \<open>
  How the cards of a project change over histories of calls: versions only grow, identity,
  type, authorship and dependencies never change, the status walks the lifecycle graph, and a
  tombstone is final.
\<close>

section \<open>One card\<close>

definition same_identity :: "card_record \<Rightarrow> card_record \<Rightarrow> bool" where
  "same_identity c d \<longleftrightarrow> c_id d = c_id c \<and> c_type d = c_type c \<and> c_created_at d = c_created_at c \<and>
     c_created_by d = c_created_by c \<and> c_depends_on d = c_depends_on c"

definition evolves :: "current_selection \<Rightarrow> current_selection \<Rightarrow> bool" where
  "evolves sel sel' \<longleftrightarrow> sel' = sel \<or>
     \<not> s_tombstone sel \<and> h_version_seq (s_selection sel) < h_version_seq (s_selection sel') \<and>
     same_identity (s_card sel) (s_card sel') \<and> lifecycle_step\<^sup>*\<^sup>* (c_status (s_card sel)) (c_status (s_card sel'))"

lemma evolves_refl: "evolves sel sel"
  by (simp add: evolves_def)

lemma evolves_trans: "evolves a b \<Longrightarrow> evolves b c \<Longrightarrow> evolves a c"
  unfolding evolves_def same_identity_def by (elim disjE) (auto dest: rtranclp_trans)

definition evolution :: "zod \<Rightarrow> 'a card_store_scheme \<Rightarrow> 'a card_store_scheme \<Rightarrow> bool" where
  "evolution z st st' \<longleftrightarrow> (\<forall>i sel. readExactCard z st i = Inr sel \<longrightarrow> (\<exists>sel'. readExactCard z st' i = Inr sel' \<and> evolves sel sel'))"

interpretation evolution: state_frame "evolution z" for z
proof unfold_locales
  show "evolution z st st" for st :: "'a card_store_scheme" using evolves_refl by (auto simp: evolution_def)
  show "evolution z st st''" if "evolution z st st'" "evolution z st' st''" for st st' st'' :: "'a card_store_scheme"
    using that evolves_trans unfolding evolution_def by meson
qed

lemma quiet_evolution: "quiet st st' \<Longrightarrow> evolution z st st'"
  using readExactCard_mono evolves_refl unfolding evolution_def quiet_def documents_grow_def by metis

lemma cards_same_evolution: "cards_same st st' \<Longrightarrow> evolution z st st'"
  using quiet_evolution cards_same_quiet by blast

lemmas evolution_of_cards = keeps_mono [OF _ cards_same_evolution]

context card_publication
begin

lemma evolution_of:
  assumes run: "publish st = (r, st')" and names: "keeps names_same publish"
    and own: "\<And>x sel. r = Inr x \<Longrightarrow> readExactCard z st i = Inr sel \<Longrightarrow> \<exists>sel'. readExactCard z st' i = Inr sel' \<and> evolves sel sel'"
  shows "evolution z st st'"
proof (cases r)
  case (Inl e)
  then show ?thesis using run failed_quiet [OF _ names] quiet_evolution by blast
next
  case (Inr x)
  show ?thesis
    unfolding evolution_def
  proof (intro allI impI)
    fix j sel assume "readExactCard z st j = Inr sel"
    then show "\<exists>sel'. readExactCard z st' j = Inr sel' \<and> evolves sel sel'"
      using own [OF Inr] other_card_unchanged [OF run] evolves_refl by (cases "j = i") blast+
  qed
qed

end

section \<open>Publications\<close>

lemma publishCardVersion_evolution: "keeps (evolution z) (publishCardVersion z c v nt headId)"
proof (rule keepsI)
  fix st r st' assume run: "publishCardVersion z c v nt headId st = (r, st')"
  show "evolution z st st'"
  proof (rule versions.evolution_of [OF run publication_names(1)])
    fix a sel assume "r = Inr a" and sel: "readExactCard z st (c_id c) = Inr sel"
    then have pub: "publishCardVersion z c v nt headId st = (Inr a, st')" using run by simp
    then obtain sel' where sel': "readExactCard z st' (c_id c) = Inr sel'" by (rule publishCardVersion_read) blast
    note read = publishCardVersion_read_of [OF pub sel sel']
    note link = transition_linkage [OF read(7)]
    have "c_version_seq (s_card sel) = h_version_seq (s_selection sel)" using readExactCard_version [OF sel read(1)] by blast
    moreover have "c_version_seq (s_card sel') = h_version_seq (s_selection sel')" using readExactCard_version [OF sel' read(2)] by blast
    moreover have "lifecycle_step\<^sup>*\<^sup>* (c_status (s_card sel)) (c_status c)" using transition_lifecycle [OF read(7)] by auto
    ultimately have "evolves sel sel'" using link read(1,3) by (simp add: evolves_def same_identity_def)
    with sel' show "\<exists>sel'. readExactCard z st' (c_id c) = Inr sel' \<and> evolves sel sel'" by blast
  qed
qed

lemma publishCardTombstone_evolution: "keeps (evolution z) (publishCardTombstone z i c v headId)"
proof (rule keepsI)
  fix st r st' assume run: "publishCardTombstone z i c v headId st = (r, st')"
  show "evolution z st st'"
  proof (rule tombstones.evolution_of [OF run publication_names(3)])
    fix a sel0 assume "r = Inr a" and sel0: "readExactCard z st i = Inr sel0"
    then have pub: "publishCardTombstone z i c v headId st = (Inr a, st')" using run by simp
    from pub obtain sel where sel: "linked z st i sel" "s_card sel = c" "heads st' i = Some (tombstone_head sel v headId)"
      by (rule publishCardTombstone_Inr) auto
    then have s0: "sel0 = sel" using sel0 linked_reads [OF sel(1)] by simp
    from pub obtain sel' where sel': "readExactCard z st' i = Inr sel'" "ordinaryCardPayload (s_card sel') = ordinaryCardPayload c"
      by (rule publishCardTombstone_read) blast
    have live: "\<not> s_tombstone sel" using linked_not_tombstone [OF sel(1)] .
    have "s_selection sel' = tombstone_head sel v headId" using readExactCard_head(1) [OF sel'(1)] sel(3) by simp
    moreover have "c_version_seq (s_card sel) = h_version_seq (s_selection sel)" using readExactCard_version [OF linked_reads [OF sel(1)] live] by blast
    moreover have "same_identity (s_card sel) (s_card sel')" "c_lifecycle (s_card sel') = c_lifecycle (s_card sel)"
      using arg_cong [OF sel'(2), of c_id] arg_cong [OF sel'(2), of c_type] arg_cong [OF sel'(2), of c_created_at]
        arg_cong [OF sel'(2), of c_created_by] arg_cong [OF sel'(2), of c_depends_on] arg_cong [OF sel'(2), of c_lifecycle] sel(2)
      by (simp_all add: same_identity_def)
    ultimately have "evolves sel sel'" using live by (simp add: evolves_def)
    with sel'(1) s0 show "\<exists>sel'. readExactCard z st' i = Inr sel' \<and> evolves sel0 sel'" by blast
  qed
qed

lemmas evolution_rules = evolution.keeps_rules publishCardVersion_evolution publishCardTombstone_evolution
  evolution_of_cards [OF publishCardVersionEffects_cards] keeps_case_prod

lemma emit_evolution: "keeps (evolution z) (emit e)"
  unfolding emit_def by (rule evolution.keeps_modify) (simp add: cards_same_evolution cards_same_def)

lemma require_card_evolution: "keeps (evolution z) (require_card z' i)"
  unfolding require_card_def by (rule evolution.keeps_prim)

lemma publishVersion_evolution: "keeps (evolution z) (publishVersion z ex c kind fs reason summary agent nt k)"
  unfolding publishVersion_def by (intro evolution_rules)

lemma setStatus_evolution: "keeps (evolution z) (setStatus z i t k)"
  unfolding setStatus_def by (intro evolution_rules require_card_evolution publishVersion_evolution)

lemma publishGitFacts_evolution: "keeps (evolution z) (publishGitFacts z i facts k)"
  unfolding publishGitFacts_def Let_def
  by (intro evolution_rules require_card_evolution publishVersion_evolution setStatus_evolution)

lemma editCard_evolution: "keeps (evolution z) (editCard z i patch agent ks k)"
  unfolding editCard_def Let_def
  by (intro evolution_rules require_card_evolution publishVersion_evolution setStatus_evolution)

lemma stopRunning_evolution: "keeps (evolution z) (stopRunning z i k)"
  unfolding stopRunning_def Let_def
  by (intro evolution_rules require_card_evolution publishVersion_evolution setStatus_evolution)

lemma activateStopped_evolution: "keeps (evolution z) (activateStopped z i k)"
  unfolding activateStopped_def Let_def
  by (intro evolution_rules require_card_evolution publishVersion_evolution setStatus_evolution)

lemma enqueueNotification_evolution: "keeps (evolution z) (enqueueNotification z i nt k)"
  unfolding enqueueNotification_def Let_def
  by (intro evolution_rules require_card_evolution publishVersion_evolution setStatus_evolution)

lemma removeNotifications_evolution: "keeps (evolution z) (removeNotifications z i ids k)"
  unfolding removeNotifications_def Let_def
  by (intro evolution_rules require_card_evolution publishVersion_evolution setStatus_evolution)

lemma reorderChildren_evolution: "keeps (evolution z) (reorderChildren z i order k)"
  unfolding reorderChildren_def publishExactChildReorder_def Let_def
  by (intro evolution_rules require_card_evolution publishVersion_evolution setStatus_evolution)

lemma commitActivationOutcome_evolution: "keeps (evolution z) (commitActivationOutcome z i outcome settledAt k)"
  unfolding commitActivationOutcome_def Let_def
  by (intro evolution_rules require_card_evolution publishVersion_evolution setStatus_evolution)

lemma linkChild_evolution: "keeps (evolution z) (linkChild z ws input p j k)"
  unfolding linkChild_def Let_def
  by (intro evolution_rules require_card_evolution publishVersion_evolution setStatus_evolution)

lemma deleteCard_evolution: "keeps (evolution z) (deleteCard z ws idx agent km i)"
  unfolding deleteCard_def by (intro evolution_rules emit_evolution)

lemma deleteSubtrees_evolution: "keeps (evolution z) (deleteSubtrees z ws is allowed agent km)"
  unfolding deleteSubtrees_def by (intro evolution_rules evolution.keeps_for deleteCard_evolution)

lemmas service_evolution = publishGitFacts_evolution editCard_evolution stopRunning_evolution activateStopped_evolution
  enqueueNotification_evolution removeNotifications_evolution reorderChildren_evolution commitActivationOutcome_evolution
  setStatus_evolution deleteSubtrees_evolution

section \<open>Births\<close>

lemma publishInitialCardState_evolution:
  assumes run: "publishInitialCardState z sha c bc ds au ids st = (r, st')" and fresh: "heads st (c_id c) = None"
  shows "evolution z st st'"
proof -
  have records: "keeps cards_same (forS (\<lambda>d. case bi_record ids (rd_filename d) of (now, e, h) \<Rightarrow>
         bindS (initializeAuthoredRecord z sha (c_id c) d \<lparr>ref_entry_id = bi_entry ids, ref_version = 1\<rparr> au
           (if rd_bootstrap d then Some bc else None) now e h) (\<lambda>_. returnS ())) ds)"
    by (intro csame.keeps_for csame.keeps_rules keeps_case_prod record_ops_cards)
  have first: "evolution z s t" if "publishInitialVersion z c (bi_entry ids) (bi_head ids) s = (x, t)" "heads s (c_id c) = None" for s t x
  proof (rule initial.evolution_of [OF that(1) publication_names(2)])
    show "\<exists>sel'. readExactCard z t (c_id c) = Inr sel' \<and> evolves sel sel'" if "readExactCard z s (c_id c) = Inr sel" for sel
      using readExactCard_head(1) [OF that] \<open>heads s (c_id c) = None\<close> by simp
  qed
  show ?thesis
    using run unfolding publishInitialCardState_def
  proof (cases rule: bindS_cases)
    case (fails e)
    then show ?thesis using cards_same_evolution keepsD [OF records] by blast
  next
    case (goes x st1)
    have same: "cards_same st st1" using keepsD [OF records goes(1)] .
    then have "heads st1 (c_id c) = None" using fresh by (simp add: cards_same_def)
    with goes(2) have "evolution z st1 st'" by (cases rule: bindS_cases) (auto simp: returnS_def dest: first)
    with cards_same_evolution [OF same] show ?thesis by (rule evolution.frame_trans)
  qed
qed

lemma publishInitialChildCard_evolution:
  assumes run: "publishInitialChildCard z sha input w ids st = (r, st')" and ok: "project_ok z st"
  shows "evolution z st st'"
  using run unfolding publishInitialChildCard_def
proof (elim bindS_lift_cases)
  assume "bindS (claimChildNamespace (in_parent input)) (\<lambda>i.
     bindS (liftS (cardParentId i)) (\<lambda>parent.
     bindS (liftS (guardE (parent = Some (in_parent input))
       (PlainError ''Claimed card does not belong to requested parent'' [i, in_parent input]))) (\<lambda>_.
     bindS (liftS (parse_card z (new_child_card input i (bi_stamp ids)))) (\<lambda>c.
     bindS (initializeCardConversations i w) (\<lambda>_.
     bindS (publishInitialCardState z sha c (in_bootstrap_content input) (record_definitions w)
         (in_bootstrap_author input) ids) (\<lambda>_.
     returnS c)))))) st = (r, st')"
  then show ?thesis
  proof (cases rule: bindS_cases)
    case (fails e)
    then show ?thesis using quiet_evolution keepsD [OF claim_quiet] by blast
  next
    case (goes i st1)
    have q: "quiet st st1" using keepsD [OF claim_quiet goes(1)] .
    have fresh: "heads st1 i = None" using claimChildNamespace_Inr [OF goes(1)] ok by (auto simp: project_ok_def names_ok_def)
    have rest: "evolution z st2 st'" if "cards_same st1 st2"
        "bindS (publishInitialCardState z sha (new_child_card input i (bi_stamp ids)) (in_bootstrap_content input) (record_definitions w)
         (in_bootstrap_author input) ids) (\<lambda>_. returnS (new_child_card input i (bi_stamp ids))) st2 = (r, st')" for st2
    proof -
      have "heads st2 (c_id (new_child_card input i (bi_stamp ids))) = None"
        using that(1) fresh by (simp add: cards_same_def new_child_card_def)
      then show ?thesis using that(2) publishInitialCardState_evolution
        by (cases rule: bindS_cases [OF that(2)]) (auto simp: returnS_def)
    qed
    from goes(2) have "evolution z st1 st'"
    proof (elim bindS_lift_cases)
      fix x u c
      assume c: "parse_card z (new_child_card input i (bi_stamp ids)) = Inr c"
        and tail: "bindS (initializeCardConversations i w) (\<lambda>_. bindS (publishInitialCardState z sha c (in_bootstrap_content input)
          (record_definitions w) (in_bootstrap_author input) ids) (\<lambda>_. returnS c)) st1 = (r, st')"
      then have c: "c = new_child_card input i (bi_stamp ids)" by (simp add: parse_card_Inr_iff)
      from tail show ?thesis
      proof (cases rule: bindS_cases)
        case (fails e)
        then show ?thesis using cards_same_evolution keepsD [OF card_conversations_cards] by blast
      next
        case (goes y st2)
        have same: "cards_same st1 st2" using keepsD [OF card_conversations_cards goes(1)] .
        show ?thesis using evolution.frame_trans [OF cards_same_evolution [OF same] rest [OF same]] goes(2) c by blast
      qed
    qed (simp_all add: evolution.frame_refl)
    with quiet_evolution [OF q] show ?thesis by (rule evolution.frame_trans)
  qed
qed (simp add: evolution.frame_refl)

lemma create_evolution:
  assumes run: "create z sha ws input ids k st = (r, st')" and ok: "project_ok z st"
  shows "evolution z st st'"
  using run unfolding create_def
proof (cases rule: bindS_cases)
  case (fails e)
  then show ?thesis using create_admission_cases(1) evolution.frame_refl by blast
next
  case (goes x st0)
  obtain parent depth w where x: "x = (parent, depth, w)" by (cases x)
  have st0: "st0 = st" using create_admission_cases(1) [OF goes(1)] .
  from goes(2) show ?thesis
    unfolding x split st0
  proof (cases rule: bindS_cases)
    case (fails e)
    then show ?thesis using publishInitialChildCard_evolution ok by blast
  next
    case (goes c st1)
    have "keeps (evolution z) (bindS (liftS (cardParentId (c_id c))) (\<lambda>claimedParent.
       bindS (liftS (cardDepth (c_id c))) (\<lambda>claimedDepth.
       bindS (liftS (guardE (claimedParent = Some (c_id parent) \<and> claimedDepth = depth)
         (PlainError ''Claimed card does not belong to requested parent'' [c_id c, c_id parent]))) (\<lambda>_.
       bindS (linkChild z ws input (c_id parent) (c_id c) k) (\<lambda>_.
       bindS (emit (AgentMembershipChanged (c_id c))) (\<lambda>_. returnS c))))))"
      by (intro evolution_rules linkChild_evolution emit_evolution)
    from evolution.frame_trans [OF publishInitialChildCard_evolution [OF goes(1) ok] keepsD [OF this goes(2)]] show ?thesis .
  qed
qed

lemma prepare_quiet: "keeps quiet (prepareInitialProjectDirectories w)"
proof (rule keepsI)
  fix st :: "'a project_store_scheme" and r st' assume run: "prepareInitialProjectDirectories w st = (r, st')"
  let ?claimed = "st\<lparr>namespaces := namespaces st @ [''project'']\<rparr>"
  have "st' = st \<or> ''project'' \<notin> set (namespaces st) \<and> cards_same ?claimed st'"
    using run unfolding prepareInitialProjectDirectories_def
    by (auto simp: liftS_def bindS_def readS_def modifyS_def guardE_def split: if_splits
        intro: keepsD [OF card_conversations_cards])
  moreover have "quiet st ?claimed" if "''project'' \<notin> set (namespaces st)"
    using that by (simp add: quiet_def documents_grow_def)
  ultimately show "quiet st st'"
    using quiet.frame_refl quiet.frame_trans [OF _ cards_same_quiet, of st ?claimed st'] by blast
qed

lemma publishInitialProjectCard_evolution:
  assumes "publishInitialProjectCard z sha title bc w g ids st = (r, st')" and "heads st ''project'' = None"
  shows "evolution z st st'"
proof -
  let ?c = "initial_project_card title g (bi_stamp ids)"
  have "st' = st \<or> publishInitialCardState z sha ?c bc (record_definitions w) AuthorBootstrap ids st = (r, st')"
    using assms(1) unfolding publishInitialProjectCard_def by (elim bindS_lift_cases) (auto simp: parse_card_def guardE_def split: if_splits)
  moreover have "c_id ?c = ''project''" by (simp add: initial_project_card_def)
  ultimately show ?thesis using publishInitialCardState_evolution [of z sha ?c] assms(2) evolution.frame_refl by auto
qed

lemma bootstrap_evolution:
  assumes run: "publishInitialProjectRuntime z sha title bc analyst w git ids st = (r, st')" and ok: "project_ok z st"
  shows "evolution z st st'"
proof (cases "''project'' \<in> set (namespaces st)")
  case True
  then have "st' = st" using run by (auto simp: publishInitialProjectRuntime_def bindS_def readS_def guardE_def)
  then show ?thesis by (simp add: evolution.frame_refl)
next
  case False
  then have none: "heads st ''project'' = None" using ok by (auto simp: project_ok_def names_ok_def)
  have quiet_conv: "keeps quiet (initializeConversation s)" for s by (rule keeps_mono [OF conversations_cards cards_same_quiet])
  from run False have "bindS (prepareInitialProjectDirectories w) (\<lambda>_. bindS (initializeConversation (''agent:'' @ analyst @ '':global'')) (\<lambda>_.
      bindS (liftS git) (\<lambda>g. publishInitialProjectCard z sha title bc w g ids))) st = (r, st')"
    by (simp add: publishInitialProjectRuntime_def bindS_def [of "readS _"] readS_def)
  then have "quiet st st' \<or> (\<exists>st1 g. quiet st st1 \<and> publishInitialProjectCard z sha title bc w g ids st1 = (r, st'))"
    by (elim bindS_cases bindS_lift_cases)
      (use keepsD [OF prepare_quiet] keepsD [OF quiet_conv] quiet.frame_trans in \<open>blast+\<close>)
  then show ?thesis
  proof (elim disjE exE conjE)
    fix st1 g assume q: "quiet st st1" and pub: "publishInitialProjectCard z sha title bc w g ids st1 = (r, st')"
    have "heads st1 ''project'' = None" using q none by (simp add: quiet_def)
    then show ?thesis using evolution.frame_trans [OF quiet_evolution [OF q] publishInitialProjectCard_evolution [OF pub]] by blast
  qed (rule quiet_evolution)
qed

section \<open>Histories\<close>

lemma perform_evolution:
  assumes "perform z sha ws c st = (r, st')" and "project_ok z st"
  shows "evolution z st st'"
proof (cases "\<exists>input ids k. c = Create input ids k")
  case True
  then show ?thesis using assms by (auto dest!: ignore_run intro: create_evolution)
next
  case other: False
  show ?thesis
  proof (cases "\<exists>t b a w g i. c = Bootstrap t b a w g i")
    case True
    then show ?thesis using assms by (auto intro: bootstrap_evolution)
  next
    case False
    with other have "keeps (evolution z) (perform z sha ws c)"
      by (cases c) (auto simp: ignore_def intro!: evolution.keeps_bind evolution.keeps_prim service_evolution
        evolution_of_cards [OF record_ops_cards(1)] evolution_of_cards [OF record_ops_cards(3)]
        evolution_of_cards [OF record_ops_cards(4)] evolution_of_cards [OF record_ops_cards(5)] evolution_of_cards [OF record_ops_cards(6)])
    then show ?thesis using assms(1) by (rule keepsD)
  qed
qed

inductive later :: "zod \<Rightarrow> (string \<Rightarrow> string) \<Rightarrow> (string \<rightharpoonup> compiled_workflow) \<Rightarrow> project_store \<Rightarrow> project_store \<Rightarrow> bool"
  for z :: zod and sha :: "string \<Rightarrow> string" and ws :: "string \<rightharpoonup> compiled_workflow" where
  now: "later z sha ws st st"
| more: "later z sha ws st st' \<Longrightarrow> perform z sha ws c st' = (r, st'') \<Longrightarrow> later z sha ws st st''"

lemma later_reachable: "later z sha ws st st' \<Longrightarrow> reachable z sha ws st \<Longrightarrow> reachable z sha ws st'"
  by (induction rule: later.induct) (auto intro: reachable.call)

lemma later_evolution: "later z sha ws st st' \<Longrightarrow> reachable z sha ws st \<Longrightarrow> evolution z st st'"
proof (induction rule: later.induct)
  case (more st st' c r st'')
  then have "project_ok z st'" using later_reachable reachable_ok by blast
  then show ?case using evolution.frame_trans [OF more.IH [OF more.prems]] perform_evolution [OF more(2)] by blast
qed (simp add: evolution.frame_refl)

end
