(* ===== verification/CardServiceRuns.thy ===== *)
theory CardServiceRuns
  imports CardServiceLaws
begin

text \<open>
  Admitted service operations succeed: with a well-formed clock reading, fresh identifiers and
  a version number below the safe bound, each operation publishes the record it builds and the
  card reads back as that record. Refused operations change nothing.
\<close>

section \<open>What the environment provides\<close>

definition stamps_ok :: "zod \<Rightarrow> stamps \<Rightarrow> bool" where
  "stamps_ok z k \<longleftrightarrow> k_now k \<noteq> [] \<and> datetime z (k_now k) \<and> uuid z (k_entry k) \<and> uuidV4Schema (k_entry k) \<and>
     uuidV4Schema (k_head k)"

definition advance_ok :: "zod \<Rightarrow> 'a project_store_scheme \<Rightarrow> current_selection \<Rightarrow> stamps \<Rightarrow> bool" where
  "advance_ok z st sel k \<longleftrightarrow> stamps_ok z k \<and> safe_nat (Suc (c_version_seq (s_card sel))) \<and>
     history st (c_id (s_card sel), k_entry k) = None"

lemma linked_schema: "linked z st i sel \<Longrightarrow> cardRecordSchema z (s_card sel) \<and> c_id (s_card sel) = i"
  using readExactCard_schema readExactCard_id linked_reads by blast

section \<open>A general success rule\<close>

lemma publishVersion_succeeds:
  assumes l: "linked z st i sel" and c: "cardRecordSchema z c" "c_id c = i"
    and v: "versionChange z (s_card sel) (Some c) kind fs summary reason agent k = Inr v"
    and trans: "validateCardTransition (s_card sel) c v i Live = Inr ()"
    and kind: "\<not> is_queue_kind kind" and adv: "advance_ok z st sel k"
  shows "\<exists>st'. publishVersion z (s_card sel) c kind fs reason summary agent nt k st = (Inr c, st') \<and>
    readCard z st' i = Inr (Some c)"
proof -
  have id: "c_id (s_card sel) = i" using linked_schema [OF l] by simp
  have vk: "v_kind v = kind" "v_entry_id v = k_entry k" "cardVersionChangeSchema z v"
    using v by (auto simp: versionChange_def Let_def errE)
  have sel: "readExactCard z st (c_id c) = Inr sel" "\<not> s_tombstone sel"
    using linked_reads [OF l] linked_not_tombstone [OF l] c(2) by simp_all
  have "\<exists>st'. publishCardVersion z c v nt (k_head k) st = (Inr (Some (CardVersion (next_artifact sel c v))), st')"
    using adv vk c trans id kind
    by (intro publishCardVersion_ordinary_succeeds [OF sel]) (simp_all add: advance_ok_def stamps_ok_def)
  then obtain a st1 where pub: "publishCardVersion z c v nt (k_head k) st = (Inr a, st1)" by blast
  have "cardIdSchema (c_id (s_card sel))" using linked_schema [OF l] record_schema_parts(1) by blast
  then obtain parent where par: "cardParentId (c_id (s_card sel)) = Inr parent" using cardParentId_total by blast
  note run = publishVersion_run [OF c(1) v pub par]
  show ?thesis using run publishVersion_reads [OF run l] c(2) by auto
qed

section \<open>Status operations\<close>

abbreviation with_lifecycle :: "card_record \<Rightarrow> card_lifecycle \<Rightarrow> string list \<Rightarrow> string \<Rightarrow> card_record" where
  "with_lifecycle c l q now \<equiv> c\<lparr>c_lifecycle := l, c_pending_notifications := q, c_updated_at := now,
     c_version_seq := c_version_seq c + 1\<rparr>"

lemma delta_with_lifecycle:
  "actualDelta c (with_lifecycle c l q now) =
     (if c_lifecycle c \<noteq> l then [''lifecycle''] else []) @
     (if c_pending_notifications c \<noteq> q then [''pending_notifications''] else [])"
  by (simp add: actualDelta_def field_differences_def)

lemma with_lifecycle_schema:
  assumes "cardRecordSchema z c" and "cardLifecycleStateSchema z l" and "datetime z now"
    and "safe_nat (Suc (c_version_seq c))" and "q = [] \<or> q = c_pending_notifications c \<and> lc_status l \<notin> {Done, Failed, Cancelled}"
  shows "cardRecordSchema z (with_lifecycle c l q now)"
  using assms by (auto simp: cardRecordSchema_defs positiveSafeIntegerSchema_def)

lemma versionChange_run:
  assumes "kind \<notin> {KUpdate, KDelete, KTerminal}" and "cardRecordSchema z c" and "stamps_ok z k"
    and "c_updated_at n = k_now k" "c_version_seq n = Suc (c_version_seq c)" "safe_nat (Suc (c_version_seq c))"
    and "fs \<noteq> []" "distinct fs" "list_all (\<lambda>f. f \<noteq> []) fs" "summary \<noteq> []" "reason \<noteq> []"
  shows "versionChange z c (Some n) kind fs summary reason None k =
    Inr \<lparr>v_entry_id = k_entry k, v_kind = kind, v_card_id = c_id c, v_resulting_version = Suc (c_version_seq c),
         v_changed_at = k_now k, v_changed_by_actor = ''runtime'', v_changed_fields = fs,
         v_change_summary = summary, v_change_reason = reason, v_terminal_summary = None\<rparr>"
proof -
  have "cardIdSchema (c_id c)" using assms(2) by (simp add: cardRecordSchema_defs)
  with assms show ?thesis
    by (simp add: versionChange_def Let_def parse_change_def cardVersionChangeSchema_def stamps_ok_def
        positiveSafeIntegerSchema_def)
qed

lemma status_publication:
  assumes l: "linked z st i sel" and adv: "advance_ok z st sel k"
    and step: "c_status (s_card sel) = Running \<and> lc_status lc = Stopped \<and> reason = ''recovery stopped lifecycle'' \<or>
      c_status (s_card sel) = Stopped \<and> lc_status lc = Running \<and> reason = ''STOPPED activation'' \<or>
      isSetStatusTransition (c_status (s_card sel)) (lc_status lc) \<and> reason = status_reason (lc_status lc)"
    and lc: "cardLifecycleStateSchema z lc" "lc_status lc \<notin> {Done, Failed}"
    and q: "q = (if lc_status lc = Cancelled then [] else c_pending_notifications (s_card sel))"
    and fs: "fs = [''lifecycle''] @ (if lc_status lc = Cancelled \<and> c_pending_notifications (s_card sel) \<noteq> []
        then [''pending_notifications''] else [])"
  shows "\<exists>st'. publishVersion z (s_card sel) (with_lifecycle (s_card sel) lc q (k_now k)) KStatus fs reason
      (summarizeChangedFields fs) None None k st = (Inr (with_lifecycle (s_card sel) lc q (k_now k)), st') \<and>
    readCard z st' i = Inr (Some (with_lifecycle (s_card sel) lc q (k_now k)))"
proof -
  let ?c = "s_card sel" and ?n = "with_lifecycle (s_card sel) lc q (k_now k)"
  have schema: "cardRecordSchema z ?c" "c_id ?c = i" using linked_schema [OF l] by simp_all
  have env: "stamps_ok z k" "safe_nat (Suc (c_version_seq ?c))" "datetime z (k_now k)"
    using adv by (simp_all add: advance_ok_def stamps_ok_def)
  have n: "cardRecordSchema z ?n"
    using schema(1) lc q env by (intro with_lifecycle_schema) auto
  have reason: "reason \<noteq> []" using step by (auto simp: status_reason_def split: card_status.splits)
  have v: "versionChange z ?c (Some ?n) KStatus fs (summarizeChangedFields fs) reason None k =
      Inr \<lparr>v_entry_id = k_entry k, v_kind = KStatus, v_card_id = c_id ?c, v_resulting_version = Suc (c_version_seq ?c),
         v_changed_at = k_now k, v_changed_by_actor = ''runtime'', v_changed_fields = fs,
         v_change_summary = summarizeChangedFields fs, v_change_reason = reason, v_terminal_summary = None\<rparr>"
    using schema(1) env reason fs by (intro versionChange_run) auto
  have neq: "c_status ?c \<noteq> lc_status lc"
    using step by (cases "lc_status lc") auto
  then have "c_lifecycle ?c \<noteq> lc" by auto
  let ?v = "\<lparr>v_entry_id = k_entry k, v_kind = KStatus, v_card_id = c_id ?c, v_resulting_version = Suc (c_version_seq ?c),
         v_changed_at = k_now k, v_changed_by_actor = ''runtime'', v_changed_fields = fs,
         v_change_summary = summarizeChangedFields fs, v_change_reason = reason, v_terminal_summary = None\<rparr>"
  have allowed: "c_status ?c = Running \<and> lc_status lc = Stopped \<or> c_status ?c = Stopped \<and> lc_status lc = Running \<or>
      isSetStatusTransition (c_status ?c) (lc_status lc)" using step by blast
  have reasons: "reason = (if c_status ?c = Running \<and> lc_status lc = Stopped then ''recovery stopped lifecycle''
        else if c_status ?c = Stopped \<and> lc_status lc = Running then ''STOPPED activation'' else status_reason (lc_status lc))"
    using step by auto
  have delta: "actualDelta ?c ?n = fs" unfolding delta_with_lifecycle using \<open>c_lifecycle ?c \<noteq> lc\<close> q fs by auto
  have "validateStatus i ?c ?n ?v = Inr ()"
    unfolding validateStatus_iff Let_def using allowed delta
    by (simp add: reasons q fs del: isSetStatusTransition_simps)
  then have trans: "validateCardTransition ?c ?n ?v i Live = Inr ()"
    by (simp add: validateCardTransition_def)
  show ?thesis by (rule publishVersion_succeeds [OF l n _ v trans _ adv]) (use schema in simp_all)
qed

lemma setStatus_succeeds:
  assumes l: "linked z st i sel" and adv: "advance_ok z st sel k"
    and ok: "isSetStatusTransition (c_status (s_card sel)) (target_status t)"
  shows "\<exists>c st'. setStatus z i t k st = (Inr c, st') \<and> readCard z st' i = Inr (Some c) \<and>
    c = with_lifecycle (s_card sel) (buildSetStatusLifecycle t)
      (if t = ToCancelled then [] else c_pending_notifications (s_card sel)) (k_now k)"
proof -
  have t: "target_status t = Cancelled \<longleftrightarrow> t = ToCancelled" by (cases t) auto
  have "assertSetStatusAdmission (s_card sel) t = Inr ()" using ok by (simp add: assertSetStatusAdmission_Inr)
  moreover have "\<exists>st'. publishVersion z (s_card sel) (with_lifecycle (s_card sel) (buildSetStatusLifecycle t)
      (if t = ToCancelled then [] else c_pending_notifications (s_card sel)) (k_now k)) KStatus (set_status_fields t (s_card sel))
      (status_reason (target_status t)) (summarizeChangedFields (set_status_fields t (s_card sel))) None None k st =
      (Inr (with_lifecycle (s_card sel) (buildSetStatusLifecycle t)
      (if t = ToCancelled then [] else c_pending_notifications (s_card sel)) (k_now k)), st') \<and>
    readCard z st' i = Inr (Some (with_lifecycle (s_card sel) (buildSetStatusLifecycle t)
      (if t = ToCancelled then [] else c_pending_notifications (s_card sel)) (k_now k)))"
    using ok t by (intro status_publication [OF l adv]) (cases t; simp add: set_status_fields_def)+
  ultimately show ?thesis
    by (auto simp: setStatus_def require_card_run [OF l] bindS_def liftS_def)
qed

end
