(* ===== verification/CardNotifications.thy ===== *)
theory CardNotifications
  imports CardServiceRuns
begin

text \<open>
  The notification queue of a card as its reader sees it: \<open>enqueueNotification\<close> appends, and
  \<open>removeNotifications\<close> takes out exactly the delivered ones; other cards keep their queues.
  An abstract queue, a list of notifications, is refined by the head and the mailbox documents.
\<close>

definition readMessage :: "zod \<Rightarrow> 'a card_store_scheme \<Rightarrow> string \<Rightarrow> string \<Rightarrow> error + card_notification" where
  "readMessage z st cardId i =
     bindE (optionE (ENOENT ''card-mailbox'') (mailbox st (cardId, i))) (\<lambda>message.
     bindE (guardE (cardMailboxMessageSchema z message) (ZodError ''cardMailboxMessage'')) (\<lambda>_.
     bindE (guardE (mm_card_id message = cardId \<and> n_id (mm_notification message) = i)
       (PlainError ''mailbox reference and document identity disagree'' [cardId])) (\<lambda>_.
     Inr (mm_notification message))))"

lemma readPending_alt:
  "readPendingCardNotifications z st i =
     bindE (readCardArtifacts z st i) (\<lambda>current. mapE (readMessage z st i) (h_pending (s_selection current)))"
  by (simp add: readPendingCardNotifications_def readMessage_def [abs_def])

lemma readPending_iff:
  "readPendingCardNotifications z st i = Inr ns \<longleftrightarrow>
     (\<exists>sel. linked z st i sel \<and> mapE (readMessage z st i) (h_pending (s_selection sel)) = Inr ns)"
  by (auto simp: readPending_alt bindE_Inr_iff readCardArtifacts_iff)

lemma readMessage_mono:
  assumes "mailbox st \<subseteq>\<^sub>m mailbox st'" and "readMessage z st i m = Inr n"
  shows "readMessage z st' i m = Inr n"
proof -
  obtain msg where "mailbox st (i, m) = Some msg" using assms(2) by (auto simp: readMessage_def errE)
  moreover from this have "mailbox st' (i, m) = Some msg" using assms(1) by (metis domI map_le_def)
  ultimately show ?thesis using assms(2) by (simp add: readMessage_def)
qed

lemma readMessages_mono:
  assumes "mailbox st \<subseteq>\<^sub>m mailbox st'" and "mapE (readMessage z st i) ms = Inr ns"
  shows "mapE (readMessage z st' i) ms = Inr ns"
  using assms readMessage_mono [OF assms(1)] by (auto simp: mapE_Inr_iff elim: list_all2_mono)

lemma readMessage_cong: "mailbox st' = mailbox st \<Longrightarrow> readMessage z st' i m = readMessage z st i m"
  by (simp add: readMessage_def)

lemma readMessage_id: "readMessage z st i m = Inr n \<Longrightarrow> n_id n = m"
  by (auto simp: readMessage_def errE)

section \<open>Enqueue\<close>

lemma queue_publication:
  assumes pub: "publishVersion z ex c kind fs reason summary agent nt k st = (Inr r, st')"
    and l: "linked z st (c_id c) sel" and kind: "is_queue_kind kind"
  shows "\<exists>sel'. linked z st' (c_id c) sel' \<and> h_pending (s_selection sel') = c_pending_notifications c \<and>
    (kind = KNotificationEnqueue \<longrightarrow> (\<exists>m. nt = Some m \<and> at_last (c_pending_notifications c) = Some (n_id m) \<and>
       mailbox st' = (mailbox st)((c_id c, n_id m) \<mapsto> \<lparr>mm_card_id = c_id c, mm_notification = m\<rparr>) \<and>
       cardMailboxMessageSchema z \<lparr>mm_card_id = c_id c, mm_notification = m\<rparr> \<and> mailbox st (c_id c, n_id m) = None)) \<and>
    (kind \<noteq> KNotificationEnqueue \<longrightarrow> mailbox st' = mailbox st)"
proof -
  from pub obtain v st1 a parent where p: "versionChange z ex (Some c) kind fs summary reason agent k = Inr v"
      "publishCardVersion z c v nt (k_head k) st = (Inr a, st1)"
      "st' = st1\<lparr>effects := effects st1 @ effects_of v parent (''lifecycle'' \<in> set fs) []\<rparr>"
    by (rule publishVersion_Inr)
  have vk: "v_kind v = kind" using p(1) by (auto simp: versionChange_def Let_def errE)
  from publishCardVersion_linked [OF p(2) l] obtain sel' where sel': "readExactCard z st1 (c_id c) = Inr sel'"
      "s_card sel' = c" "linked z st1 (c_id c) (if c_id c = c_id c then sel' else sel)" .
  have l1: "linked z st1 (c_id c) sel'" using sel'(3) by simp
  have same: "cards_same st1 st'" using p(3) by (simp add: cards_same_def)
  have l2: "linked z st' (c_id c) sel'" using cards_same_linked [OF same] l1 by blast
  have pend: "h_pending (s_selection sel') = c_pending_notifications c"
    using readExactCard_version [OF sel'(1) linked_not_tombstone [OF l1]] sel'(2) by metis
  from publishCardVersion_queue [OF p(2) _ linked_reads [OF l]] vk kind obtain st2 where st2:
      "if kind = KNotificationEnqueue then publishMailboxMessage z c nt st = (Inr (), st2) else st2 = st"
      "st1 = st2\<lparr>heads := (heads st)(c_id c \<mapsto> next_head sel (h_ordinary (s_selection sel)) c (k_head k)),
           previous_heads := (previous_heads st)(c_id c \<mapsto> s_selection sel)\<rparr>" by metis
  have mb: "mailbox st' = mailbox st2" using p(3) st2(2) by simp
  have "kind = KNotificationEnqueue \<longrightarrow> (\<exists>m. nt = Some m \<and> at_last (c_pending_notifications c) = Some (n_id m) \<and>
       mailbox st' = (mailbox st)((c_id c, n_id m) \<mapsto> \<lparr>mm_card_id = c_id c, mm_notification = m\<rparr>) \<and>
       cardMailboxMessageSchema z \<lparr>mm_card_id = c_id c, mm_notification = m\<rparr> \<and> mailbox st (c_id c, n_id m) = None)"
    using st2(1) mb by (auto elim!: publishMailboxMessage_Inr)
  moreover have "kind \<noteq> KNotificationEnqueue \<longrightarrow> mailbox st' = mailbox st" using st2(1) mb by auto
  ultimately show ?thesis using l2 pend by blast
qed

lemma enqueueNotification_queue:
  assumes run: "enqueueNotification z i n k st = (Inr c, st')" and old: "readPendingCardNotifications z st i = Inr ns"
  shows "readPendingCardNotifications z st' i = Inr (ns @ [n])"
proof -
  obtain sel where l: "linked z st i sel" and ms: "mapE (readMessage z st i) (h_pending (s_selection sel)) = Inr ns"
    using old by (auto simp: readPending_iff)
  have id: "c_id (s_card sel) = i" and pend: "c_pending_notifications (s_card sel) = h_pending (s_selection sel)"
    using readExactCard_version [OF linked_reads [OF l] linked_not_tombstone [OF l]] by metis+
  let ?c = "(s_card sel)\<lparr>c_pending_notifications := c_pending_notifications (s_card sel) @ [n_id n],
      c_updated_at := k_now k, c_version_seq := c_version_seq (s_card sel) + 1\<rparr>"
  from run have pub: "publishVersion z (s_card sel) ?c KNotificationEnqueue [''pending_notifications''] ''notification enqueued''
      ''notification enqueued'' None (Some n) k st = (Inr c, st')"
    unfolding enqueueNotification_def
    by (auto simp: bindS_Inr_iff liftS_iff require_card_run [OF l] enqueueCardNotification_def bindE_Inr_iff)
  have cid: "c_id ?c = i" using id by simp
  from queue_publication [OF pub, unfolded cid, OF l] obtain sel' where sel': "linked z st' i sel'"
      "h_pending (s_selection sel') = h_pending (s_selection sel) @ [n_id n]"
      "mailbox st' = (mailbox st)((i, n_id n) \<mapsto> \<lparr>mm_card_id = i, mm_notification = n\<rparr>)"
      "cardMailboxMessageSchema z \<lparr>mm_card_id = i, mm_notification = n\<rparr>" "mailbox st (i, n_id n) = None"
    by (auto simp: pend)
  have "mailbox st \<subseteq>\<^sub>m mailbox st'" unfolding sel'(3) using sel'(5) by (rule map_le_upd_fresh)
  then have "mapE (readMessage z st' i) (h_pending (s_selection sel)) = Inr ns" using ms by (rule readMessages_mono)
  moreover have "readMessage z st' i (n_id n) = Inr n" using sel'(3,4) by (simp add: readMessage_def)
  ultimately have "mapE (readMessage z st' i) (h_pending (s_selection sel')) = Inr (ns @ [n])"
    unfolding sel'(2) by (simp add: mapE_Inr_iff list_all2_appendI)
  then show ?thesis using sel'(1) by (auto simp: readPending_iff)
qed

section \<open>Delivery\<close>

lemma mapE_filter:
  assumes "mapE (readMessage z st i) ms = Inr ns"
  shows "mapE (readMessage z st i) (filter P ms) = Inr (filter (\<lambda>n. P (n_id n)) ns)"
  using assms
proof (induction ms arbitrary: ns)
  case (Cons m ms)
  then show ?case using readMessage_id by (fastforce simp: errE)
qed simp

lemma filter_full: "length (filter P xs) = length xs \<Longrightarrow> filter P xs = xs"
proof (induction xs)
  case (Cons x xs)
  have "length (filter P xs) \<noteq> Suc (length xs)" using length_filter_le [of P xs] by linarith
  with Cons show ?case by (auto split: if_splits)
qed simp

lemma removeNotifications_queue:
  assumes run: "removeNotifications z i ids k st = (Inr c, st')" and old: "readPendingCardNotifications z st i = Inr ns"
  shows "readPendingCardNotifications z st' i = Inr (filter (\<lambda>n. n_id n \<notin> set ids) ns)"
proof -
  obtain sel where l: "linked z st i sel" and ms: "mapE (readMessage z st i) (h_pending (s_selection sel)) = Inr ns"
    using old by (auto simp: readPending_iff)
  have id: "c_id (s_card sel) = i" and pend: "c_pending_notifications (s_card sel) = h_pending (s_selection sel)"
    using readExactCard_version [OF linked_reads [OF l] linked_not_tombstone [OF l]] by metis+
  let ?left = "filter (\<lambda>n. n \<notin> set ids) (c_pending_notifications (s_card sel))"
  let ?c = "(s_card sel)\<lparr>c_pending_notifications := ?left, c_updated_at := k_now k, c_version_seq := c_version_seq (s_card sel) + 1\<rparr>"
  have left: "mapE (readMessage z st i) ?left = Inr (filter (\<lambda>n. n_id n \<notin> set ids) ns)" using mapE_filter [OF ms] pend by simp
  from run consider (none) "length ?left = length (c_pending_notifications (s_card sel))" "st' = st"
    | (pub) "publishVersion z (s_card sel) ?c KNotificationRemove [''pending_notifications''] ''notifications delivered''
        ''notifications delivered'' None None k st = (Inr c, st')"
    unfolding removeNotifications_def
    by (auto simp: bindS_Inr_iff liftS_iff returnS_iff require_card_run [OF l] removeCardNotifications_def bindE_Inr_iff split: if_splits)
  then show ?thesis
  proof cases
    case none
    have "?left = c_pending_notifications (s_card sel)" using none(1) by (rule filter_full)
    then show ?thesis using left none(2) l pend by (auto simp: readPending_iff)
  next
    case pub
    have cid: "c_id ?c = i" using id by simp
    from queue_publication [OF pub, unfolded cid, OF l] obtain sel' where sel': "linked z st' i sel'"
        "h_pending (s_selection sel') = ?left" "mailbox st' = mailbox st" by auto
    have "readMessage z st' i = readMessage z st i" using readMessage_cong [OF sel'(3)] by (rule ext)
    then have "mapE (readMessage z st' i) (h_pending (s_selection sel')) = Inr (filter (\<lambda>n. n_id n \<notin> set ids) ns)"
      using sel'(2) left by simp
    then show ?thesis using sel'(1) by (auto simp: readPending_iff)
  qed
qed

end
