(* ===== verification/RecordProperties.thy ===== *)
theory RecordProperties
  imports RecordLaws
begin

text \<open>
  The promises of authored records, with concrete runs that meet their hypotheses.
\<close>

section \<open>Sample values\<close>

definition sample_zod :: zod where
  "sample_zod = \<lparr>datetime = (\<lambda>s. s \<noteq> []), uuid = (\<lambda>s. s \<noteq> [])\<rparr>"

definition sample_sha :: "string \<Rightarrow> string" where
  "sample_sha content = replicate 64 (CHR ''a'')"

definition sample_uuid :: "char \<Rightarrow> string" where
  "sample_uuid c = ''00000000-0000-4000-8000-00000000000'' @ [c]"

definition sample_card :: card_record where
  "sample_card =
     \<lparr>c_git = None, c_id = ''project'', c_type = ''project'', c_child_membership = [], c_active_child_order = [],
      c_title = ''Demo'', c_priority = 0, c_urgency = Normal, c_created_by = ''runtime:bootstrap'',
      c_created_at = ''t0'', c_depends_on = [], c_lifecycle = LBacklog, c_status_text = None,
      c_status_text_updated_at = None, c_updated_at = ''t0'', c_version_seq = 1, c_pending_notifications = []\<rparr>"

definition sample_definition :: record_definition where
  "sample_definition = \<lparr>rd_filename = ''notes.md'', rd_format = ''markdown'', rd_schema = ''authored-record.v1'',
     rd_bootstrap = False, rd_declared = True\<rparr>"

definition empty_store :: project_store where
  "empty_store = \<lparr>heads = (\<lambda>_. None), previous_heads = (\<lambda>_. None), history = (\<lambda>_. None), mailbox = (\<lambda>_. None),
     namespaces = [], record_heads = (\<lambda>_. None), previous_record_heads = (\<lambda>_. None),
     accepted_records = (\<lambda>_. None), conversations = [], effects = []\<rparr>"

definition sample_artifact :: version_artifact where
  "sample_artifact = \<lparr>av_entry_id = sample_uuid (CHR ''1''), av_card_id = ''project'', av_version = 1,
     av_committed_at = ''t0'', av_card = ordinaryCardPayload sample_card, av_predecessor = None, av_change = None\<rparr>"

definition sample_head :: card_head where
  "sample_head = \<lparr>h_head_id = sample_uuid (CHR ''2''), h_card_id = ''project'', h_version_seq = 1, h_updated_at = ''t0'',
     h_ordinary = \<lparr>ref_entry_id = sample_uuid (CHR ''1''), ref_version = 1\<rparr>, h_pending = []\<rparr>"

definition sample_store :: project_store where
  "sample_store = empty_store\<lparr>heads := [''project'' \<mapsto> sample_head],
     history := [(''project'', sample_uuid (CHR ''1'')) \<mapsto> CardVersion sample_artifact]\<rparr>"

definition sample_selection :: current_selection where
  "sample_selection = \<lparr>s_selection = sample_head, s_head = CardVersion sample_artifact, s_card = sample_card\<rparr>"

abbreviation sample_open :: "(project_store, record_projection) op" where
  "sample_open \<equiv> openAuthoredRecord sample_zod sample_sha ''project'' sample_definition ''t1'' (sample_uuid (CHR ''3''))"

abbreviation sample_edit :: "(project_store, record_projection) op" where
  "sample_edit \<equiv> editOpenAuthoredRecord sample_zod sample_sha ''project'' sample_definition ''hello'' ''t2'' (sample_uuid (CHR ''4''))"

abbreviation sample_close :: "(project_store, record_projection) op" where
  "sample_close \<equiv> closeOpenAuthoredRecord sample_zod sample_sha sample_selection sample_definition ''planner'' ''t3''
     (sample_uuid (CHR ''5'')) (sample_uuid (CHR ''6''))"

lemma sample_open_runs: "succeeds sample_open sample_store"
  by code_simp

lemma sample_edit_runs: "succeeds sample_edit (stateS sample_open sample_store)"
  by code_simp

lemma sample_close_runs: "succeeds sample_close (stateS sample_edit (stateS sample_open sample_store))"
  by code_simp

lemma sample_read_runs: "readHead sample_zod sample_sha sample_store ''project'' sample_definition = Inr None"
  by (simp add: readHead_None_iff sample_store_def empty_store_def sample_definition_def)

section \<open>Accepted history\<close>

text \<open>
  (C19) A direct acceptance of a record by an agent, an external principal, a repair or an
  action reads back: the current projection is the one returned, it is closed and holds the
  given content, and the accepted history is the previous one with exactly the new document
  in front. The card documents are untouched.
\<close>

theorem acceptAuthoredRecord_roundtrip:
  assumes acc: "acceptAuthoredRecord z sha sel d ct au now e hId st = (Inr p, st')"
    and au: "au \<noteq> AuthorBootstrap"
    and rows: "readAcceptedHistory z sha st (c_id (s_card sel)) d None = Inr rows"
  shows "readCurrentAuthoredRecord z sha st' (c_id (s_card sel)) d = Inr (Some p) \<and> p_state p = RClosed \<and>
    map_option as_content (p_accepted p) = Some ct \<and> map_option as_author (p_accepted p) = Some au \<and>
    (\<exists>a. readAcceptedHistory z sha st' (c_id (s_card sel)) d None = Inr (a # rows) \<and>
       p_accepted p = Some (ra_accepted a) \<and> ra_version a = length rows + 1) \<and>
    cards_same st st'"
proof -
  from acc obtain prior a where
    pr: "readHead z sha st (c_id (s_card sel)) d = Inr prior" "\<not> (rd_bootstrap d \<and> is_action_output au)"
      "s_head sel = CardVersion a"
    and pub: "publishAcceptance z sha (c_id (s_card sel)) d prior ct au (c_version_seq (s_card sel))
       \<lparr>ref_entry_id = av_entry_id a, ref_version = av_version a\<rparr> now e hId st = (Inr p, st')"
    by (rule acceptAuthoredRecord_Inr) blast
  have old: "acceptedFrom z sha st (c_id (s_card sel)) d None (prior_accepted prior) = Inr rows"
    using rows pr(1) by (simp add: readAcceptedHistory_def)
  have "author_readable d prior au" using pr(2) au by (simp add: author_readable_def)
  note reads = publishAcceptance_reads [OF pub this]
  have "length rows = ref_version0 (prior_accepted prior)"
    using arg_cong [OF acceptedFrom_versions [OF old], of length] by simp
  with reads(1) reads(2) [OF old] publishAcceptance_Inr(5) [OF pub] keepsD [OF record_ops_cards(4) acc]
  show ?thesis by (simp add: project_def)
qed

abbreviation sample_accept :: "(project_store, record_projection) op" where
  "sample_accept \<equiv> acceptAuthoredRecord sample_zod sample_sha sample_selection sample_definition ''hello''
     (AuthorAgent ''analyst'') ''t1'' (sample_uuid (CHR ''3'')) (sample_uuid (CHR ''4''))"

theorem acceptAuthoredRecord_roundtrip_witness:
  "readCurrentAuthoredRecord sample_zod sample_sha (stateS sample_accept sample_store) ''project'' sample_definition
     = Inr (Some (resultS sample_accept sample_store))"
proof -
  have run: "succeeds sample_accept sample_store" by code_simp
  have card: "c_id (s_card sample_selection) = ''project''" by (simp add: sample_selection_def sample_card_def)
  have rows: "readAcceptedHistory sample_zod sample_sha sample_store (c_id (s_card sample_selection)) sample_definition None = Inr []"
    using sample_read_runs by (simp add: card readAcceptedHistory_def acceptedFrom_None)
  show ?thesis
    using acceptAuthoredRecord_roundtrip [OF succeedsD [OF run] _ rows] by (simp add: card)
qed

text \<open>
  (C20) The accepted versions of a record are consecutive from 1: when its history reads to \<open>n\<close>
  documents, asking for version \<open>v\<close> finds the document numbered \<open>v\<close> if \<open>1 \<le> v \<le> n\<close>, finds nothing
  for a larger \<open>v\<close> (it is not rounded to a nearby one), and reads no more than the documents
  from the newest down to \<open>v\<close>.
\<close>

theorem record_versions_consecutive:
  assumes rows: "readAcceptedHistory z sha st i d None = Inr rows" and v: "1 \<le> v"
  shows "map ra_version (rev rows) = [1..<Suc (length rows)] \<and>
    readAcceptedHistory z sha st i d (Some v) = Inr (take (Suc (length rows - v)) rows) \<and>
    readAuthoredRecordVersion z sha st i d v = Inr (if v \<le> length rows then Some (rev rows ! (v - 1)) else None)"
proof -
  from rows obtain prior where prior: "readHead z sha st i d = Inr prior"
      "acceptedFrom z sha st i d None (prior_accepted prior) = Inr rows"
    by (auto simp: readAcceptedHistory_def errE)
  note vs = acceptedFrom_versions [OF prior(2)]
  have len: "ref_version0 (prior_accepted prior) = length rows"
    using arg_cong [OF vs, of length] by simp
  have up: "map ra_version (rev rows) = [1..<Suc (length rows)]"
    using arg_cong [OF vs, of rev] len by (simp add: rev_map)
  have stop: "readAcceptedHistory z sha st i d (Some v) = Inr (take (Suc (length rows - v)) rows)"
    using acceptedFrom_stop [OF prior(2) v] prior(1) by (simp add: readAcceptedHistory_def len)
  have nth: "ra_version (rows ! k) = length rows - k" if "k < length rows" for k
  proof -
    have "map ra_version rows ! k = rev [1..<Suc (length rows)] ! k" using vs len by simp
    with that show ?thesis by (simp add: rev_nth del: upt_Suc)
  qed
  have "find (\<lambda>row. ra_version row = v) (take (Suc (length rows - v)) rows) =
      (if v \<le> length rows then Some (rev rows ! (v - 1)) else None)" (is "?f = _")
  proof (cases "v \<le> length rows")
    case True
    let ?k = "length rows - v"
    have k: "?k < length (take (Suc ?k) rows)" "ra_version (take (Suc ?k) rows ! ?k) = v"
      using True v nth [of ?k] by simp_all
    moreover have "\<forall>j < ?k. ra_version (take (Suc ?k) rows ! j) \<noteq> v" using nth v by auto
    ultimately have "?f = Some (take (Suc ?k) rows ! ?k)" by (subst find_Some_iff) blast
    with True v show ?thesis by (simp add: rev_nth)
  next
    case False
    then have "ra_version row \<noteq> v" if "row \<in> set rows" for row
      using that nth by (auto simp: in_set_conv_nth)
    with False show ?thesis by (auto simp: find_None_iff dest: in_set_takeD)
  qed
  with up stop show ?thesis by (simp add: readAuthoredRecordVersion_def)
qed

theorem record_versions_consecutive_witness:
  "\<exists>row. readAuthoredRecordVersion sample_zod sample_sha (stateS sample_accept sample_store) ''project'' sample_definition 1
     = Inr (Some row) \<and> as_content (ra_accepted row) = ''hello''"
proof -
  have read: "case readAcceptedHistory sample_zod sample_sha (stateS sample_accept sample_store) ''project'' sample_definition None of
      Inr [row] \<Rightarrow> as_content (ra_accepted row) = ''hello'' | _ \<Rightarrow> False" by code_simp
  then obtain row where row: "readAcceptedHistory sample_zod sample_sha (stateS sample_accept sample_store) ''project''
      sample_definition None = Inr [row]" "as_content (ra_accepted row) = ''hello''"
    by (auto split: sum.splits list.splits)
  show ?thesis using record_versions_consecutive [OF row(1), of 1] row(2) by simp
qed

section \<open>The draft life cycle\<close>

text \<open>
  A draft that was only opened cannot be closed: it is either document 0 (the template
  baseline) or empty, so \<open>closeOpenAuthoredRecord\<close> refuses it and changes nothing.
\<close>

theorem opened_draft_not_closable:
  assumes op: "openAuthoredRecord z sha i d now hId st = (Inr p, st1)"
    and prior: "readHead z sha st i d = Inr prior" "prior_draft prior = None"
    and sel: "c_id (s_card sel) = i"
  shows "closeOpenAuthoredRecord z sha sel d w now' e hId' st1 =
    (Inl (PlainError ''Record draft is empty or document 0; authored content is required.'' []), st1)"
proof -
  from op prior obtain h dr where h: "record_heads st1 (i, rd_filename d) = Some h" "recordHeadSchema z sha h"
      "exactIdentity h i d = Inr ()" "rh_draft h = Some dr" "rh_accepted h = prior_accepted prior"
      "d_version dr = 0 \<or> d_content dr = []"
    by (rule openAuthoredRecord_Inr) blast
  have "rd_bootstrap d \<longrightarrow> rh_accepted h \<noteq> None"
    using prior h(5) by (cases prior) (auto simp: readHead_Some_iff readHead_None_iff)
  with h have head: "readHead z sha st1 i d = Inr (Some h)" by (simp add: readHead_Some_iff)
  have "\<not> isEligibleRecordContent (Some dr) None"
    using h(6) by (auto simp: isEligibleRecordContent_def is_blank_def)
  with head h(4) show ?thesis
    by (simp add: closeOpenAuthoredRecord_def Let_def sel bindS_def readS_def liftS_def)
qed

theorem opened_draft_not_closable_witness:
  "\<exists>err. sample_close (stateS sample_open sample_store) = (Inl err, stateS sample_open sample_store)"
  using opened_draft_not_closable [OF succeedsD [OF sample_open_runs] sample_read_runs, of sample_selection]
  by (simp add: sample_selection_def sample_card_def)

text \<open>
  (C21) Opening, editing and closing a record publishes the edited content as the next accepted
  version, authored by the closing agent: the record reads back closed with that content, its
  version is one more than the accepted version before, and its revision has advanced once per
  step. Only the close adds an accepted document.
\<close>

theorem draft_cycle:
  assumes op: "openAuthoredRecord z sha i d now hId st = (Inr p1, st1)"
    and prior: "readHead z sha st i d = Inr prior" "prior_draft prior = None"
    and ed: "editOpenAuthoredRecord z sha i d ct now2 hId2 st1 = (Inr p2, st2)"
    and cl: "closeOpenAuthoredRecord z sha sel d w now3 e hId3 st2 = (Inr p3, st3)"
    and sel: "c_id (s_card sel) = i"
  shows "accepted_records st2 = accepted_records st \<and>
    readCurrentAuthoredRecord z sha st3 i d = Inr (Some p3) \<and> p_state p3 = RClosed \<and>
    p_revision p3 = prior_revision prior + 3 \<and>
    (\<exists>a. p_accepted p3 = Some a \<and> as_content a = ct \<and> as_author a = AuthorCardAgent w i \<and>
       as_source_version a = ref_version0 (prior_accepted prior) + 1)"
proof -
  from op prior obtain h dr where h: "record_heads st1 (i, rd_filename d) = Some h"
      "rh_draft h = Some dr" "rh_accepted h = prior_accepted prior"
      "rh_revision h = prior_revision prior + 1" "accepted_records st1 = accepted_records st"
    by (rule openAuthoredRecord_Inr) blast
  from ed obtain h1 dr1 h' where h1: "readHead z sha st1 i d = Inr (Some h1)" "rh_draft h1 = Some dr1"
    "readHead z sha st2 i d = Inr (Some h')"
    "h' = h1\<lparr>rh_head_id := hId2, rh_revision := rh_revision h1 + 1,
            rh_draft := Some (new_draft sha now2 (d_opened_at dr1) ct (d_target_version dr1) (d_target_version dr1))\<rparr>"
    "accepted_records st2 = accepted_records st1"
    by (rule editOpenAuthoredRecord_Inr) blast
  have hh: "h1 = h" using h1(1) h(1) by (simp add: readHead_Some_iff)
  from cl obtain h2 dr2 a where c: "readHead z sha st2 i d = Inr (Some h2)" "rh_draft h2 = Some dr2" "s_head sel = CardVersion a"
    and pub: "publishAcceptance z sha i d (Some h2) (d_content dr2) (AuthorCardAgent w i)
       (c_version_seq (s_card sel)) \<lparr>ref_entry_id = av_entry_id a, ref_version = av_version a\<rparr> now3 e hId3 st2 = (Inr p3, st3)"
    by (rule closeOpenAuthoredRecord_Inr) (use sel in simp)
  have "h2 = h'" using c(1) h1(3) by simp
  then have facts: "rh_accepted h2 = prior_accepted prior" "rh_revision h2 = prior_revision prior + 2" "d_content dr2 = ct"
    using h1(4) hh h c(2) by (auto simp: new_draft_def)
  have "author_readable d (Some h2) (AuthorCardAgent w i)" by (simp add: author_readable_def)
  from publishAcceptance_reads(1) [OF pub this] publishAcceptance_Inr(5) [OF pub] facts h(5) h1(5)
  show ?thesis by (simp add: project_def)
qed

theorem draft_cycle_witness:
  "\<exists>p a. readCurrentAuthoredRecord sample_zod sample_sha
       (stateS sample_close (stateS sample_edit (stateS sample_open sample_store))) ''project'' sample_definition = Inr (Some p) \<and>
     p_accepted p = Some a \<and> as_content a = ''hello'' \<and> as_source_version a = 1"
  using draft_cycle [OF succeedsD [OF sample_open_runs] sample_read_runs _ succeedsD [OF sample_edit_runs]
      succeedsD [OF sample_close_runs]]
  by (auto simp: sample_selection_def sample_card_def)

text \<open>
  Discarding an opened draft, edited or not, gives back the accepted record: the accepted
  selection is the one before the open, and a record that had only a template baseline is left
  empty, never back at its baseline.
\<close>

theorem discard_restores_accepted:
  assumes op: "openAuthoredRecord z sha i d now hId st = (Inr p1, st1)"
    and prior: "readHead z sha st i d = Inr prior" "prior_draft prior = None"
    and edits: "st2 = st1 \<or> (\<exists>ct now2 hId2 p2. editOpenAuthoredRecord z sha i d ct now2 hId2 st1 = (Inr p2, st2))"
    and dis: "discardOpenAuthoredRecord z sha i d hId3 st2 = (Inr p3, st3)"
  shows "\<exists>h. readHead z sha st3 i d = Inr (Some h) \<and> rh_draft h = None \<and> rh_baseline h = None \<and>
    rh_accepted h = prior_accepted prior \<and> accepted_records st3 = accepted_records st"
proof -
  from op prior obtain h dr where h: "record_heads st1 (i, rd_filename d) = Some h"
      "rh_draft h = Some dr" "rh_baseline h = None" "rh_accepted h = prior_accepted prior"
      "accepted_records st1 = accepted_records st"
    by (rule openAuthoredRecord_Inr) blast
  from dis obtain h2 where d: "readHead z sha st2 i d = Inr (Some h2)"
    "readHead z sha st3 i d = Inr (Some (h2\<lparr>rh_head_id := hId3, rh_revision := rh_revision h2 + 1, rh_draft := None\<rparr>))"
    "accepted_records st3 = accepted_records st2"
    by (rule discardOpenAuthoredRecord_Inr) blast
  have "rh_baseline h2 = None \<and> rh_accepted h2 = prior_accepted prior \<and> accepted_records st2 = accepted_records st"
    using edits
  proof
    assume "st2 = st1"
    then show ?thesis using d(1) h by (auto simp: readHead_Some_iff)
  next
    assume "\<exists>ct now2 hId2 p2. editOpenAuthoredRecord z sha i d ct now2 hId2 st1 = (Inr p2, st2)"
    then obtain ct now2 hId2 p2 where "editOpenAuthoredRecord z sha i d ct now2 hId2 st1 = (Inr p2, st2)" by blast
    then show ?thesis by (rule editOpenAuthoredRecord_Inr) (use d(1) h in \<open>auto simp: readHead_Some_iff\<close>)
  qed
  with d show ?thesis by simp
qed

abbreviation sample_discard :: "(project_store, record_projection) op" where
  "sample_discard \<equiv> discardOpenAuthoredRecord sample_zod sample_sha ''project'' sample_definition (sample_uuid (CHR ''7''))"

theorem discard_restores_accepted_witness:
  "\<exists>h. readHead sample_zod sample_sha (stateS sample_discard (stateS sample_open sample_store)) ''project'' sample_definition
     = Inr (Some h) \<and> rh_accepted h = None"
proof -
  have run: "succeeds sample_discard (stateS sample_open sample_store)" by code_simp
  show ?thesis
    using discard_restores_accepted [OF succeedsD [OF sample_open_runs] sample_read_runs _ _ succeedsD [OF run]]
    by auto
qed

end
