(* ===== verification/ProjectProperties.thy ===== *)
theory ProjectProperties
  imports CardEvolution CardNotifications RecordProperties
begin

text \<open>
  The promises of the card services over whole histories of calls, with a concrete project that
  meets their hypotheses: a root with two children, the second depending on the first.
\<close>

section \<open>A sample project\<close>

definition sample_workflow :: "string \<Rightarrow> string list \<Rightarrow> compiled_workflow" where
  "sample_workflow t permitted = \<lparr>w_card_type = t, w_records = [\<lparr>rd_filename = ''brief.md'', rd_format = ''markdown'',
     rd_schema = ''authored-record.v1'', rd_bootstrap = True, rd_declared = True\<rparr>], w_permitted = permitted, w_states = [CardAgentNode ''planner'']\<rparr>"

definition sample_workflows :: "string \<rightharpoonup> compiled_workflow" where
  "sample_workflows = [''project'' \<mapsto> sample_workflow ''project'' [''task''], ''task'' \<mapsto> sample_workflow ''task'' [''task'']]"

definition sample_birth :: "char \<Rightarrow> birth_ids" where
  "sample_birth c = \<lparr>bi_stamp = ''t0'', bi_entry = sample_uuid c, bi_head = sample_uuid c,
     bi_record = (\<lambda>_. (''t0'', sample_uuid c, sample_uuid c))\<rparr>"

definition sample_stamps :: "char \<Rightarrow> stamps" where
  "sample_stamps c = \<lparr>k_now = ''t1'', k_entry = sample_uuid c, k_head = sample_uuid c\<rparr>"

definition sample_child :: "string \<Rightarrow> string list \<Rightarrow> new_child_input" where
  "sample_child p deps = \<lparr>in_type = ''task'', in_parent = p, in_title = ''Task'', in_bootstrap_content = ''do it'',
     in_bootstrap_author = AuthorAgent ''planner'', in_priority = 1, in_urgency = Normal, in_created_by = ''planner'',
     in_depends_on = deps\<rparr>"

abbreviation sample_perform :: "call \<Rightarrow> project_store \<Rightarrow> project_store" where
  "sample_perform c st \<equiv> snd (perform sample_zod sample_sha sample_workflows c st)"

definition boot_call :: call where
  "boot_call = Bootstrap ''Demo'' ''the brief'' ''analyst'' (sample_workflow ''project'' [''task'']) (Inr None) (sample_birth (CHR ''1''))"

text \<open>A store with a root and one child, written out.\<close>

definition tree_root :: card_record where
  "tree_root = sample_card\<lparr>c_child_membership := [''card-a''], c_active_child_order := [''card-a''],
     c_updated_at := ''t1'', c_version_seq := 2\<rparr>"

definition tree_child :: card_record where
  "tree_child = sample_card\<lparr>c_id := ''card-a'', c_type := ''task'', c_created_by := ''planner''\<rparr>"

definition tree_change :: card_version_change where
  "tree_change = \<lparr>v_entry_id = sample_uuid (CHR ''3''), v_kind = KChildLink, v_card_id = ''project'', v_resulting_version = 2,
     v_changed_at = ''t1'', v_changed_by_actor = ''runtime'', v_changed_fields = [''child_membership'', ''active_child_order''],
     v_change_summary = ''linked child card-a'', v_change_reason = ''child linked'', v_terminal_summary = None\<rparr>"

definition tree_version :: version_artifact where
  "tree_version = \<lparr>av_entry_id = sample_uuid (CHR ''3''), av_card_id = ''project'', av_version = 2, av_committed_at = ''t1'',
     av_card = ordinaryCardPayload tree_root, av_predecessor = Some \<lparr>ref_entry_id = sample_uuid (CHR ''1''), ref_version = 1\<rparr>,
     av_change = Some tree_change\<rparr>"

definition tree_child_version :: version_artifact where
  "tree_child_version = \<lparr>av_entry_id = sample_uuid (CHR ''4''), av_card_id = ''card-a'', av_version = 1, av_committed_at = ''t0'',
     av_card = ordinaryCardPayload tree_child, av_predecessor = None, av_change = None\<rparr>"

definition tree_head :: "string \<Rightarrow> nat \<Rightarrow> string \<Rightarrow> char \<Rightarrow> card_head" where
  "tree_head i v t e = \<lparr>h_head_id = sample_uuid (CHR ''2''), h_card_id = i, h_version_seq = v, h_updated_at = t,
     h_ordinary = \<lparr>ref_entry_id = sample_uuid e, ref_version = v\<rparr>, h_pending = []\<rparr>"

definition sample_tree :: project_store where
  "sample_tree = empty_store\<lparr>heads := [''project'' \<mapsto> tree_head ''project'' 2 ''t1'' (CHR ''3''), ''card-a'' \<mapsto> tree_head ''card-a'' 1 ''t0'' (CHR ''4'')],
     history := [(''project'', sample_uuid (CHR ''1'')) \<mapsto> CardVersion sample_artifact,
       (''project'', sample_uuid (CHR ''3'')) \<mapsto> CardVersion tree_version, (''card-a'', sample_uuid (CHR ''4'')) \<mapsto> CardVersion tree_child_version],
     namespaces := [''project'', ''card-a'']\<rparr>"

definition root_selection :: current_selection where
  "root_selection = \<lparr>s_selection = tree_head ''project'' 2 ''t1'' (CHR ''3''), s_head = CardVersion tree_version, s_card = tree_root\<rparr>"

definition child_selection :: current_selection where
  "child_selection = \<lparr>s_selection = tree_head ''card-a'' 1 ''t0'' (CHR ''4''), s_head = CardVersion tree_child_version, s_card = tree_child\<rparr>"

lemma tree_reads:
  "readExactCard sample_zod sample_tree ''project'' = Inr root_selection"
  "readExactCard sample_zod sample_tree ''card-a'' = Inr child_selection"
  by code_simp+

lemma tree_reads_only:
  assumes "readExactCard sample_zod sample_tree i = Inr s"
  shows "i = ''project'' \<and> s = root_selection \<or> i = ''card-a'' \<and> s = child_selection"
proof -
  have "i \<in> dom (heads sample_tree)" using readExactCard_head(1) [OF assms] by blast
  then have "i = ''project'' \<or> i = ''card-a''" by (auto simp: sample_tree_def empty_store_def split: if_splits)
  then show ?thesis using assms tree_reads by auto
qed

lemma tree_histories:
  "\<exists>rows. readHistory sample_zod sample_tree root_selection None = Inr rows"
  "\<exists>rows. readHistory sample_zod sample_tree child_selection None = Inr rows"
proof -
  have "\<not> isl (readHistory sample_zod sample_tree root_selection None)" "\<not> isl (readHistory sample_zod sample_tree child_selection None)"
    by code_simp+
  then show "\<exists>rows. readHistory sample_zod sample_tree root_selection None = Inr rows"
    "\<exists>rows. readHistory sample_zod sample_tree child_selection None = Inr rows"
    by (cases "readHistory sample_zod sample_tree root_selection None"; cases "readHistory sample_zod sample_tree child_selection None"; simp)+
qed

lemma tree_cards:
  "s_card root_selection = tree_root" "s_card child_selection = tree_child"
  "c_child_membership tree_root = [''card-a'']" "c_child_membership tree_child = []"
  "c_depends_on tree_root = []" "c_depends_on tree_child = []" "\<not> s_tombstone root_selection" "\<not> s_tombstone child_selection"
  "h_pending (s_selection root_selection) = []" "h_pending (s_selection child_selection) = []"
  by (simp_all add: root_selection_def child_selection_def tree_root_def tree_child_def sample_card_def tree_head_def)

lemma tree_child_of: "childCardId ''project'' ''a'' = Inr ''card-a''"
  by code_simp

lemma tree_linked: "linked sample_zod sample_tree i s \<longleftrightarrow> i = ''project'' \<and> s = root_selection \<or> i = ''card-a'' \<and> s = child_selection"
proof
  show "linked sample_zod sample_tree i s \<Longrightarrow> i = ''project'' \<and> s = root_selection \<or> i = ''card-a'' \<and> s = child_selection"
    using linked_reads tree_reads_only by blast
  have root: "linked sample_zod sample_tree ''project'' root_selection" using tree_reads(1) by (rule linked.root)
  moreover have "linked sample_zod sample_tree ''card-a'' child_selection"
    by (rule linked.child [OF root tree_child_of]) (simp_all add: tree_cards tree_reads)
  ultimately show "i = ''project'' \<and> s = root_selection \<or> i = ''card-a'' \<and> s = child_selection \<Longrightarrow> linked sample_zod sample_tree i s"
    by blast
qed

lemma tree_ok: "project_ok sample_zod sample_tree" "parents_first sample_tree"
proof -
  have heads: "dom (heads sample_tree) = {''project'', ''card-a''}" "namespaces sample_tree = [''project'', ''card-a'']"
    by (auto simp: sample_tree_def empty_store_def)
  have "store_ok sample_zod sample_tree"
    unfolding store_ok_def heads using tree_reads tree_histories by (simp add: card_ok_iff tree_cards)
  moreover have "links_ok sample_zod sample_tree" "order_ok sample_zod sample_tree"
    unfolding links_ok_def order_ok_def heads by (auto dest!: tree_reads_only simp: tree_cards)
  moreover have "names_ok sample_tree" unfolding names_ok_def heads by simp
  moreover have "closed_ok sample_zod sample_tree" unfolding closed_ok_def tree_linked by (auto simp: tree_cards)
  ultimately show "project_ok sample_zod sample_tree" by (simp add: project_ok_def)
  have "cardParentId ''project'' = Inr None" "cardParentId ''card-a'' = Inr (Some ''project'')" by code_simp+
  then show "parents_first sample_tree" unfolding parents_first_def heads by (auto simp: earlier_def)
qed

section \<open>Listing the active tree\<close>

text \<open>
  (C1) Listing always works: in every store that a history of service calls can produce, with
  every failure on the way included, \<open>list()\<close> succeeds and returns exactly the cards reachable
  from the project card, each once, parents before their descendants by depth.
\<close>

theorem reachable_list_exact:
  assumes "reachable z sha ws st"
  shows "\<exists>cards. service_list z st = Inr cards \<and> distinct (map c_id cards) \<and> sorted (map (\<lambda>c. depth_of (c_id c)) cards) \<and>
    set cards = {s_card s | s. \<exists>i. linked z st i s}"
proof -
  obtain rows where rows: "listActiveCardTraversal z st = Inr rows" "distinct (row_ids rows)"
      "t_card ` set rows = {s_card s | s. \<exists>i. linked z st i s}"
    using project_ok_lists reachable_ok [OF assms] by blast
  let ?cards = "sort_key (\<lambda>c. depth_of (c_id c)) (map t_card rows)"
  have "mset (map c_id ?cards) = mset (row_ids rows)" by (simp add: row_ids_def multiset.map_comp comp_def)
  then have "distinct (map c_id ?cards)" using rows(2) mset_eq_imp_distinct_iff by blast
  then show ?thesis using rows by (auto simp: service_list_def)
qed

lemma boot_runs: "succeeds (perform sample_zod sample_sha sample_workflows boot_call) empty_project"
  by code_simp

theorem reachable_list_exact_witness:
  "succeeds (perform sample_zod sample_sha sample_workflows boot_call) empty_project \<and>
   (\<exists>cards. service_list sample_zod (sample_perform boot_call empty_project) = Inr cards \<and> distinct (map c_id cards) \<and>
     sorted (map (\<lambda>c. depth_of (c_id c)) cards) \<and>
     set cards = {s_card s | s. \<exists>i. linked sample_zod (sample_perform boot_call empty_project) i s})"
  using boot_runs reachable_list_exact [OF reachable.call [OF reachable.start surjective_pairing]] by blast

section \<open>Deletion\<close>

text \<open>
  (C3) Deletion is admitted exactly when it should be: the request is not empty, names active cards
  other than the project card, the caller may delete every card of the subtrees, and no surviving
  active card depends on a deleted one. In particular the error about conflicting hierarchy
  and dependency constraints never occurs.
\<close>

theorem deletion_admission:
  assumes "project_ok z st" and "parents_first st"
  shows "(\<exists>p. deletionPlan z st requested allowed = Inr p) \<longleftrightarrow> deletable z st requested allowed"
  using assms by (rule deletionPlan_iff)

lemma tree_below: "below sample_zod sample_tree ''card-a'' j s \<longleftrightarrow> j = ''card-a'' \<and> s = child_selection"
proof
  assume b: "below sample_zod sample_tree ''card-a'' j s"
  then have "linked sample_zod sample_tree j s" using below_linked tree_linked by blast
  moreover have "j \<noteq> ''project''" using below_not_up [OF tree_reads(1), of "''card-a''" s] b by (auto simp: tree_cards)
  ultimately show "j = ''card-a'' \<and> s = child_selection" by (simp add: tree_linked)
qed (use tree_reads tree_cards in \<open>auto intro: below.self\<close>)

lemma tree_deletable: "deletable sample_zod sample_tree [''card-a''] (\<lambda>c. c_status c = Backlog)"
proof -
  have "c_status tree_child = Backlog" by (simp add: tree_child_def sample_card_def)
  then show ?thesis by (auto simp: deletable_def subtree_ids_def tree_below tree_linked tree_cards)
qed

theorem deletion_admission_witness:
  "(\<exists>p. deletionPlan sample_zod sample_tree [''card-a''] (\<lambda>c. c_status c = Backlog) = Inr p) \<and>
   \<not> (\<exists>p. deletionPlan sample_zod sample_tree [''project''] (\<lambda>c. True) = Inr p)"
  using deletion_admission [OF tree_ok] tree_deletable by (simp add: deletable_def)

text \<open>
  (C2) Deletion removes exactly the requested subtrees. Whatever happens, the active cards
  afterwards are those before less a part of the requested subtrees, unchanged, and the project
  invariant holds; when it succeeds that part is the whole of the subtrees, listed without
  repetition in the result.
\<close>

theorem deleteSubtrees_exact:
  assumes "project_ok z st" and "parents_first st"
    and "deleteSubtrees z ws requested allowed agent ks st = (r, st')"
  shows "project_ok z st' \<and> (\<exists>gone \<subseteq> {j. \<exists>i \<in> set requested. \<exists>s. below z st i j s}.
    (\<forall>j s. linked z st' j s \<longleftrightarrow> linked z st j s \<and> j \<notin> gone) \<and>
    (\<forall>deleted roots. r = Inr (deleted, roots) \<longrightarrow> distinct deleted \<and> set roots = set requested \<and> gone = set deleted \<and>
       set deleted = {j. \<exists>i \<in> set requested. \<exists>s. below z st i j s}))"
proof -
  obtain gone where gone: "gone \<subseteq> subtree_ids z st requested" "shrunk z st gone st'"
      "\<forall>deleted roots. r = Inr (deleted, roots) \<longrightarrow> distinct deleted \<and> set deleted = subtree_ids z st requested \<and>
        gone = set deleted \<and> set roots = set requested"
    using deleteSubtrees_shrinks [OF assms] by blast
  then have "project_ok z st'" "\<forall>j s. linked z st' j s \<longleftrightarrow> linked z st j s \<and> j \<notin> gone" by (simp_all add: shrunk_def)
  with gone show ?thesis unfolding subtree_ids_def by (intro conjI exI [of _ gone]) simp_all
qed

lemma distinct_singleton: "distinct xs \<Longrightarrow> set xs = {a} \<Longrightarrow> xs = [a]"
proof (cases xs)
  case (Cons y ys)
  assume "distinct xs" "set xs = {a}"
  with Cons show ?thesis by (cases ys) auto
qed simp

abbreviation tree_deletion :: "(project_store, string list \<times> string list) op" where
  "tree_deletion \<equiv> deleteSubtrees sample_zod sample_workflows [''card-a''] (\<lambda>c. c_status c = Backlog) ''analyst''
     (\<lambda>_. sample_stamps (CHR ''9''))"

lemma tree_deletion_runs:
  "succeeds tree_deletion sample_tree"
proof -
  obtain idx order roots where plan: "deletionPlan sample_zod sample_tree [''card-a''] (\<lambda>c. c_status c = Backlog) = Inr (idx, order, roots)"
    using deletionPlan_iff(1) [OF tree_ok] tree_deletable by (metis prod_cases3)
  note P = deletionPlan_iff(2) [OF tree_ok plan]
  have "distinct order" "set order = subtree_ids sample_zod sample_tree [''card-a'']" using P by simp_all
  moreover have "subtree_ids sample_zod sample_tree [''card-a''] = {''card-a''}" by (simp add: subtree_ids_def tree_below)
  ultimately have order: "order = [''card-a'']" using distinct_singleton [of order "''card-a''"] by simp
  have "index_get idx ''card-a'' = Some tree_child \<longleftrightarrow> (\<exists>s. linked sample_zod sample_tree ''card-a'' s \<and> s_card s = tree_child)"
    using P [THEN conjunct1] by (simp add: indexes_def)
  then have get: "index_get idx ''card-a'' = Some tree_child" by (simp add: tree_linked tree_cards)
  have "succeeds (bindS (liftS (optionE (PlainError ''TypeError'' []) (sample_workflows (c_type tree_child)))) (\<lambda>workflow.
     bindS (liftS (versionChange sample_zod tree_child None KDelete [''__deleted__''] ''card deleted'' ''analyst subtree deletion''
       (Some ''analyst'') (sample_stamps (CHR ''9'')))) (\<lambda>change.
     bindS (publishCardTombstone sample_zod ''card-a'' tree_child change (k_head (sample_stamps (CHR ''9'')))) (\<lambda>_.
     bindS (liftS (cardParentId (c_id tree_child))) (\<lambda>parent.
     bindS (publishCardVersionEffects change parent True (map rd_filename (record_definitions workflow))) (\<lambda>_.
     emit (AgentMembershipChanged (c_id tree_child)))))))) sample_tree"
    by code_simp
  then have "succeeds (deleteCard sample_zod sample_workflows idx ''analyst'' (\<lambda>_. sample_stamps (CHR ''9'')) ''card-a'') sample_tree"
    unfolding deleteCard_def get optionE_simps bindS_prim .
  from succeedsD [OF this] show ?thesis
    unfolding succeeds_def deleteSubtrees_def by (simp add: bindS_def [of "readS _"] readS_def plan order bindS_def returnS_def)
qed

theorem deleteSubtrees_exact_witness:
  "\<forall>j s. linked sample_zod (stateS tree_deletion sample_tree) j s \<longleftrightarrow> j = ''project'' \<and> s = root_selection"
proof -
  obtain deleted roots where res: "resultS tree_deletion sample_tree = (deleted, roots)" by fastforce
  have "\<exists>gone. (\<forall>j s. linked sample_zod (stateS tree_deletion sample_tree) j s \<longleftrightarrow> linked sample_zod sample_tree j s \<and> j \<notin> gone) \<and>
      gone = {''card-a''}"
    using deleteSubtrees_exact [OF tree_ok succeedsD [OF tree_deletion_runs]] res by (auto simp: tree_below)
  then show ?thesis by (auto simp: tree_linked)
qed

end
