(* ===== verification/CardActive.thy ===== *)
theory CardActive
  imports CardInvariant
begin

text \<open>
  The active cards as a map from identities to records, and how the operations of the service
  act on it: publishing a version updates it at one key.
\<close>

text \<open>The abstract view of the store: the active cards by identity.\<close>

definition active_cards :: "zod \<Rightarrow> 'a card_store_scheme \<Rightarrow> string \<rightharpoonup> card_record" where
  "active_cards z st i = (case readCard z st i of Inr (Some c) \<Rightarrow> Some c | _ \<Rightarrow> None)"

lemma active_cards_iff: "active_cards z st i = Some c \<longleftrightarrow> (\<exists>sel. linked z st i sel \<and> s_card sel = c)"
  unfolding active_cards_def readCard_iff [symmetric] by (auto split: sum.splits option.splits)

lemma publishCardVersion_active:
  assumes pub: "publishCardVersion z c v nt h st = (Inr a, st1)" and same: "cards_same st1 st'"
    and kind: "v_kind v \<noteq> KChildLink" and l: "linked z st (c_id c) sel" and ok: "project_ok z st"
  shows "active_cards z st' = (active_cards z st)(c_id c \<mapsto> c)"
proof
  from pub obtain sel' where sel': "readExactCard z st1 (c_id c) = Inr sel'" by (rule publishCardVersion_read) blast
  note read = publishCardVersion_read_of [OF pub linked_reads [OF l] sel']
  have mem: "c_child_membership c = c_child_membership (s_card sel)" using transition_membership [OF read(7)] kind by blast
  fix j
  show "active_cards z st' j = ((active_cards z st)(c_id c \<mapsto> c)) j"
  proof (cases "active_cards z st j")
    case (Some d)
    then obtain s where s: "linked z st j s" "s_card s = d" by (auto simp: active_cards_iff)
    from publishCardVersion_linked [OF pub s(1)] obtain t where
      "s_card t = c" "linked z st1 j (if j = c_id c then t else s)" by blast
    then have "linked z st' j (if j = c_id c then t else s)" "s_card t = c" using same by (simp_all add: cards_same_linked)
    then have "active_cards z st' j = Some (if j = c_id c then c else d)" using s(2) by (auto simp: active_cards_iff)
    then show ?thesis using Some by simp
  next
    case None
    have reads: "readExactCard z st1 i = readExactCard z st i" if "i \<noteq> c_id c" for i
      using ok keepsD [OF versions.grows pub] keepsD [OF versions.frame pub] that
      by (intro reads_other) (auto simp: project_ok_def heads_outside_def documents_grow_def)
    have "\<exists>t. linked z st i t" if "linked z st1 i s" for i s
      using that
    proof (induction rule: linked.induct)
      case (root s)
      have "\<exists>t. readExactCard z st ''project'' = Inr t" using l by (induction rule: linked.induct) auto
      then show ?case by (blast intro: linked.root)
    next
      case (child q ps seg i s)
      then obtain t where t: "linked z st q t" by blast
      have "i \<in> set (c_child_membership (s_card t))"
        using linked_reads [OF child(1)] linked_reads [OF t] linked_reads [OF l] sel' child(3) read(3) mem reads [of q]
        by (cases "q = c_id c") auto
      with t child reads [of i] show ?case using l by (cases "i = c_id c") (auto intro: linked.child)
    qed
    then have "\<not> linked z st' j s" for s
      using None cards_same_linked [OF same] active_cards_iff [of z st j] by force
    then have "active_cards z st' j = None" using active_cards_iff [of z st' j] by (metis not_None_eq)
    moreover have "j \<noteq> c_id c" using None l active_cards_iff [of z st j "s_card sel"] by auto
    ultimately show ?thesis using None by simp
  qed
qed

lemma publishVersion_active:
  assumes "publishVersion z ex c kind fs reason summary agent nt k st = (Inr r, st')"
    and "kind \<noteq> KChildLink" and "linked z st (c_id c) sel" and "project_ok z st"
  shows "active_cards z st' = (active_cards z st)(c_id c \<mapsto> r)"
proof -
  from assms(1) obtain v st1 a parent where p: "r = c" "versionChange z ex (Some c) kind fs summary reason agent k = Inr v"
      "publishCardVersion z c v nt (k_head k) st = (Inr a, st1)" "cards_same st1 st'"
    by (rule publishVersion_Inr) (simp add: cards_same_def)
  have "v_kind v = kind" using p(2) by (auto simp: versionChange_def Let_def errE)
  then show ?thesis using publishCardVersion_active [OF p(3,4) _ assms(3,4)] p(1) assms(2) by simp
qed

text \<open>The card a terminal outcome publishes.\<close>

definition settled_card :: "card_record \<Rightarrow> activation_outcome \<Rightarrow> string \<Rightarrow> card_record" where
  "settled_card c outcome settledAt = c\<lparr>c_lifecycle := terminal_lifecycle outcome settledAt,
     c_status_text := Some (o_summary outcome), c_status_text_updated_at := Some settledAt,
     c_pending_notifications := [], c_updated_at := settledAt, c_version_seq := c_version_seq c + 1\<rparr>"

lemma commitActivationOutcome_active:
  assumes run: "commitActivationOutcome z i outcome settledAt k st = (Inr r, st')" and ok: "project_ok z st"
  shows "\<exists>c. active_cards z st i = Some c \<and> c_status c = Running \<and> fst r = settled_card c outcome settledAt \<and>
    active_cards z st' = (active_cards z st)(i \<mapsto> fst r)"
proof -
  obtain sel v fs st1 a parent where l: "linked z st i sel" and running: "c_status (s_card sel) = Running"
    and r: "fst r = settled_card (s_card sel) outcome settledAt"
    and v: "versionChange z (s_card sel) (Some (settled_card (s_card sel) outcome settledAt)) KTerminal fs
      (summarizeChangedFields fs) ''terminal lifecycle commit'' None k = Inr v"
    and pub: "publishCardVersion z (settled_card (s_card sel) outcome settledAt) v None (k_head k) st = (Inr a, st1)"
    and eff: "publishCardVersionEffects v parent True [] st1 = (Inr (), st')"
    using run unfolding commitActivationOutcome_def Let_def settled_card_def [symmetric]
    by (auto simp: errE)
  have kind: "v_kind v = KTerminal" using v by (auto simp: versionChange_def Let_def errE)
  have id: "c_id (fst r) = i" using readExactCard_id [OF linked_reads [OF l]] by (simp add: r settled_card_def)
  have "cards_same st1 st'" using keepsD [OF publishCardVersionEffects_cards eff] .
  then have "active_cards z st' = (active_cards z st)(i \<mapsto> fst r)"
    using publishCardVersion_active [OF pub _ _ _ ok] l id kind r by auto
  then show ?thesis using l running r by (auto simp: active_cards_iff)
qed

lemma setStatus_Inr:
  assumes "setStatus z i t k st = (Inr r, st')"
  obtains sel where "linked z st i sel" and "c_id (s_card sel) = i"
    and "assertSetStatusAdmission (s_card sel) t = Inr ()"
    and "publishVersion z (s_card sel) ((s_card sel)\<lparr>c_lifecycle := buildSetStatusLifecycle t,
      c_pending_notifications := (if t = ToCancelled then [] else c_pending_notifications (s_card sel)),
      c_updated_at := k_now k, c_version_seq := c_version_seq (s_card sel) + 1\<rparr>) KStatus
      (set_status_fields t (s_card sel)) (status_reason (target_status t))
      (summarizeChangedFields (set_status_fields t (s_card sel))) None None k st = (Inr r, st')"
  by (rule meta_mp [OF _ assms [unfolded setStatus_def]])
    (auto simp: errE intro: that dest: linked_reads [THEN readExactCard_id])

lemma setStatus_active:
  assumes "setStatus z i t k st = (Inr r, st')" and "project_ok z st"
  shows "\<exists>c. active_cards z st i = Some c \<and> isSetStatusTransition (c_status c) (target_status t) \<and>
    r = c\<lparr>c_lifecycle := buildSetStatusLifecycle t,
      c_pending_notifications := (if t = ToCancelled then [] else c_pending_notifications c),
      c_updated_at := k_now k, c_version_seq := c_version_seq c + 1\<rparr> \<and>
    active_cards z st' = (active_cards z st)(i \<mapsto> r)"
proof -
  from assms(1) obtain sel where l: "linked z st i sel" and id: "c_id (s_card sel) = i"
    and adm: "assertSetStatusAdmission (s_card sel) t = Inr ()"
    and pub: "publishVersion z (s_card sel) ((s_card sel)\<lparr>c_lifecycle := buildSetStatusLifecycle t,
      c_pending_notifications := (if t = ToCancelled then [] else c_pending_notifications (s_card sel)),
      c_updated_at := k_now k, c_version_seq := c_version_seq (s_card sel) + 1\<rparr>) KStatus
      (set_status_fields t (s_card sel)) (status_reason (target_status t))
      (summarizeChangedFields (set_status_fields t (s_card sel))) None None k st = (Inr r, st')"
    by (rule setStatus_Inr)
  have "r = (s_card sel)\<lparr>c_lifecycle := buildSetStatusLifecycle t,
      c_pending_notifications := (if t = ToCancelled then [] else c_pending_notifications (s_card sel)),
      c_updated_at := k_now k, c_version_seq := c_version_seq (s_card sel) + 1\<rparr>"
    using pub by (rule publishVersion_Inr)
  moreover have "active_cards z st' = (active_cards z st)(i \<mapsto> r)"
    using publishVersion_active [OF pub _ _ assms(2)] l id by simp
  moreover have "active_cards z st i = Some (s_card sel)" using l by (auto simp: active_cards_iff)
  ultimately show ?thesis using adm by (auto simp: assertSetStatusAdmission_Inr)
qed

end
