(* ===== verification/CardRefinement.thy ===== *)
theory CardRefinement
  imports CardActive ProjectRuns
begin

text \<open>
  The card service as an implementation of a map from identities to card records. An abstract step
  says what each call does to the map: one record is replaced, a card is born and its parent linked,
  subtrees disappear, or nothing changes. Every successful call on a reachable store is such a
  step of the active cards.
\<close>

section \<open>The abstract map\<close>

definition status_card :: "set_status_target \<Rightarrow> string \<Rightarrow> card_record \<Rightarrow> card_record" where
  "status_card t now c = c\<lparr>c_lifecycle := buildSetStatusLifecycle t,
     c_pending_notifications := (if t = ToCancelled then [] else c_pending_notifications c),
     c_updated_at := now, c_version_seq := c_version_seq c + 1\<rparr>"

definition edited_card :: "card_edit_patch \<Rightarrow> string \<Rightarrow> string \<Rightarrow> card_record \<Rightarrow> card_record" where
  "edited_card changes reopened now c = (let patch = pruneCardEditPatch c changes in
     if patch = empty_patch then c
     else buildEditedCard (if c_status c \<in> {Blocked, Failed} then status_card ToChanged reopened c else c) patch now)"

definition reordered_card :: "(string \<rightharpoonup> card_record) \<Rightarrow> string list \<Rightarrow> string \<Rightarrow> card_record \<Rightarrow> card_record" where
  "reordered_card m order now c = (let live = filter (\<lambda>j. j \<in> dom m) (c_active_child_order c) in
     if distinct order \<and> set order = set live \<and> order \<noteq> live
     then c\<lparr>c_active_child_order := order @ filter (\<lambda>j. j \<notin> dom m) (c_active_child_order c),
       c_updated_at := now, c_version_seq := c_version_seq c + 1\<rparr>
     else c)"

text \<open>The calls on one existing card, with the card and its new record.\<close>

fun card_update :: "(string \<rightharpoonup> card_record) \<Rightarrow> call \<Rightarrow> (string \<times> (card_record \<Rightarrow> card_record)) option" where
  "card_update m (SetStatus i t k) = Some (i, status_card t (k_now k))"
| "card_update m (Edit i changes agent ks k) = Some (i, edited_card changes (k_now ks) (k_now k))"
| "card_update m (GitFacts i facts k) = Some (i, \<lambda>c. if c_git c = Some facts then c
     else c\<lparr>c_git := Some facts, c_updated_at := k_now k, c_version_seq := c_version_seq c + 1\<rparr>)"
| "card_update m (Stop i k) = Some (i, \<lambda>c.
     c\<lparr>c_lifecycle := buildStoppedLifecycle, c_updated_at := k_now k, c_version_seq := c_version_seq c + 1\<rparr>)"
| "card_update m (Activate i k) = Some (i, \<lambda>c.
     c\<lparr>c_lifecycle := buildActivatedStoppedLifecycle, c_updated_at := k_now k, c_version_seq := c_version_seq c + 1\<rparr>)"
| "card_update m (Enqueue i n k) = Some (i, \<lambda>c.
     c\<lparr>c_pending_notifications := c_pending_notifications c @ [n_id n], c_updated_at := k_now k, c_version_seq := c_version_seq c + 1\<rparr>)"
| "card_update m (Remove i ids k) = Some (i, \<lambda>c. if set ids \<inter> set (c_pending_notifications c) = {} then c
     else c\<lparr>c_pending_notifications := filter (\<lambda>n. n \<notin> set ids) (c_pending_notifications c),
       c_updated_at := k_now k, c_version_seq := c_version_seq c + 1\<rparr>)"
| "card_update m (Commit i outcome settledAt k) = Some (i, \<lambda>c. settled_card c outcome settledAt)"
| "card_update m (Reorder i order k) = Some (i, reordered_card m order (k_now k))"
| "card_update m call = None"

fun record_call :: "call \<Rightarrow> bool" where
  "record_call (OpenRecord _ _ _ _) = True"
| "record_call (EditRecord _ _ _ _ _) = True"
| "record_call (CloseRecord _ _ _ _ _ _) = True"
| "record_call (DiscardRecord _ _ _) = True"
| "record_call (AcceptRecord _ _ _ _ _ _ _) = True"
| "record_call _ = False"

inductive subtree :: "(string \<rightharpoonup> card_record) \<Rightarrow> string \<Rightarrow> string \<Rightarrow> bool" for m :: "string \<rightharpoonup> card_record" where
  top: "i \<in> dom m \<Longrightarrow> subtree m i i"
| down: "subtree m i p \<Longrightarrow> m p = Some c \<Longrightarrow> j \<in> set (c_child_membership c) \<Longrightarrow> j \<in> dom m \<Longrightarrow> subtree m i j"

definition linking_parent :: "card_record \<Rightarrow> string \<Rightarrow> string \<Rightarrow> card_record" where
  "linking_parent c child now = c\<lparr>c_child_membership := c_child_membership c @ [child],
     c_active_child_order := c_active_child_order c @ [child], c_version_seq := c_version_seq c + 1, c_updated_at := now\<rparr>"

inductive map_step :: "call \<Rightarrow> (string \<rightharpoonup> card_record) \<Rightarrow> (string \<rightharpoonup> card_record) \<Rightarrow> bool" where
  update: "card_update m call = Some (i, f) \<Longrightarrow> m i = Some c \<Longrightarrow> map_step call m (m(i \<mapsto> f c))"
| birth: "m p = Some parent \<Longrightarrow> p = in_parent input \<Longrightarrow> i \<notin> dom m \<Longrightarrow> cardParentId i = Inr (Some p) \<Longrightarrow>
    map_step (Create input ids k) m
      (m(p \<mapsto> linking_parent parent i (k_now k), i \<mapsto> new_child_card input i (bi_stamp ids)))"
| first: "map_step (Bootstrap title content analyst w (Inr git) ids) Map.empty
    [''project'' \<mapsto> initial_project_card title git (bi_stamp ids)]"
| delete: "map_step (Delete requested allowed agent ks) m (m |` (- {j. \<exists>i \<in> set requested. subtree m i j}))"
| records: "record_call call \<Longrightarrow> map_step call m m"

section \<open>One card\<close>

lemma map_Some_eqI: "(\<And>k v. m k = Some v \<longleftrightarrow> m' k = Some v) \<Longrightarrow> m = m'"
  by (rule ext) (metis option.exhaust)

lemma published_active:
  assumes "publishVersion z ex c kind fs reason summary agent nt k st = (Inr r, st')" and "project_ok z st"
    and "linked z st i sel" and "c_id c = i" and "kind \<noteq> KChildLink"
  shows "active_cards z st i = Some (s_card sel)" and "active_cards z st' = (active_cards z st)(i \<mapsto> c)"
proof -
  have "r = c" using assms(1) by (rule publishVersion_Inr)
  then show "active_cards z st' = (active_cards z st)(i \<mapsto> c)" using publishVersion_active [OF assms(1,5) _ assms(2)] assms(3,4) by simp
  show "active_cards z st i = Some (s_card sel)" using assms(3) by (auto simp: active_cards_iff)
qed

lemma linked_active: "linked z st i sel \<Longrightarrow> active_cards z st i = Some (s_card sel) \<and> c_id (s_card sel) = i"
  using readExactCard_id [OF linked_reads] by (auto simp: active_cards_iff)

abbreviation updates :: "zod \<Rightarrow> 'a project_store_scheme \<Rightarrow> string \<Rightarrow> (card_record \<Rightarrow> card_record) \<Rightarrow> 'a project_store_scheme \<Rightarrow> bool" where
  "updates z st i f st' \<equiv> \<exists>c. active_cards z st i = Some c \<and> active_cards z st' = (active_cards z st)(i \<mapsto> f c)"

lemma updates_same: "linked z st i sel \<Longrightarrow> f (s_card sel) = s_card sel \<Longrightarrow> updates z st i f st"
  using linked_active by (metis fun_upd_triv)

lemma updates_publish:
  assumes "publishVersion z ex (f (s_card sel)) kind fs reason summary agent nt k st = (Inr r, st')" and "project_ok z st"
    and "linked z st i sel" and "c_id (f (s_card sel)) = i" and "kind \<noteq> KChildLink"
  shows "updates z st i f st'"
  using published_active [OF assms] by blast

lemma setStatus_updates:
  "setStatus z i t k st = (Inr r, st') \<Longrightarrow> project_ok z st \<Longrightarrow> updates z st i (status_card t (k_now k)) st'"
  using setStatus_active unfolding status_card_def by metis

lemma publishGitFacts_updates:
  assumes "publishGitFacts z i facts k st = (Inr r, st')" and "project_ok z st"
  shows "updates z st i (\<lambda>c. if c_git c = Some facts then c
     else c\<lparr>c_git := Some facts, c_updated_at := k_now k, c_version_seq := c_version_seq c + 1\<rparr>) st'"
proof -
  from assms(1) obtain sel where l: "linked z st i sel"
    and run: "if c_git (s_card sel) = Some facts then st' = st else
      publishVersion z (s_card sel) ((s_card sel)\<lparr>c_git := Some facts, c_updated_at := k_now k, c_version_seq := c_version_seq (s_card sel) + 1\<rparr>)
       KGitSource [''git''] ''native source facts published'' (summarizeChangedFields [''git'']) None None k st = (Inr r, st')"
    unfolding publishGitFacts_def by (auto simp: errE split: if_splits)
  show ?thesis
  proof (cases "c_git (s_card sel) = Some facts")
    case True
    with run show ?thesis using updates_same [OF l] by simp
  next
    case False
    with run linked_active [OF l] show ?thesis by (intro updates_publish [OF _ assms(2) l]) auto
  qed
qed

lemma stopRunning_updates:
  assumes "stopRunning z i k st = (Inr r, st')" and "project_ok z st"
  shows "updates z st i (\<lambda>c. c\<lparr>c_lifecycle := buildStoppedLifecycle, c_updated_at := k_now k, c_version_seq := c_version_seq c + 1\<rparr>) st'"
  using assms unfolding stopRunning_def by (auto simp: errE linked_active dest!: published_active dest: linked_active)

lemma activateStopped_updates:
  assumes "activateStopped z i k st = (Inr r, st')" and "project_ok z st"
  shows "updates z st i (\<lambda>c. c\<lparr>c_lifecycle := buildActivatedStoppedLifecycle, c_updated_at := k_now k, c_version_seq := c_version_seq c + 1\<rparr>) st'"
  using assms unfolding activateStopped_def by (auto simp: errE linked_active dest!: published_active dest: linked_active)

lemma enqueueNotification_updates:
  assumes "enqueueNotification z i n k st = (Inr r, st')" and "project_ok z st"
  shows "updates z st i (\<lambda>c. c\<lparr>c_pending_notifications := c_pending_notifications c @ [n_id n],
    c_updated_at := k_now k, c_version_seq := c_version_seq c + 1\<rparr>) st'"
  using assms unfolding enqueueNotification_def
  by (auto simp: errE enqueueCardNotification_def bindE_Inr_iff linked_active dest!: published_active dest: linked_active)

lemma filter_untouched: "length (filter (\<lambda>n. n \<notin> A) xs) = length xs \<longleftrightarrow> A \<inter> set xs = {}"
proof
  assume "length (filter (\<lambda>n. n \<notin> A) xs) = length xs"
  then show "A \<inter> set xs = {}" using length_filter_less [of _ xs "\<lambda>n. n \<notin> A"] by force
next
  assume "A \<inter> set xs = {}"
  then have "filter (\<lambda>n. n \<notin> A) xs = xs" by (auto simp: filter_id_conv)
  then show "length (filter (\<lambda>n. n \<notin> A) xs) = length xs" by simp
qed

lemma removeNotifications_updates:
  assumes "removeNotifications z i ids k st = (Inr r, st')" and "project_ok z st"
  shows "updates z st i (\<lambda>c. if set ids \<inter> set (c_pending_notifications c) = {} then c
     else c\<lparr>c_pending_notifications := filter (\<lambda>n. n \<notin> set ids) (c_pending_notifications c),
       c_updated_at := k_now k, c_version_seq := c_version_seq c + 1\<rparr>) st'"
proof -
  from assms(1) consider (none) sel where "linked z st i sel" "set ids \<inter> set (c_pending_notifications (s_card sel)) = {}" "st' = st"
    | (pub) sel where "linked z st i sel" "set ids \<inter> set (c_pending_notifications (s_card sel)) \<noteq> {}"
      "publishVersion z (s_card sel) ((s_card sel)\<lparr>c_pending_notifications := filter (\<lambda>n. n \<notin> set ids) (c_pending_notifications (s_card sel)),
        c_updated_at := k_now k, c_version_seq := c_version_seq (s_card sel) + 1\<rparr>)
       KNotificationRemove [''pending_notifications''] ''notifications delivered'' ''notifications delivered'' None None k st = (Inr r, st')"
    unfolding removeNotifications_def removeCardNotifications_def
    by (auto simp: errE bindE_Inr_iff filter_untouched split: if_splits)
  then show ?thesis
  proof cases
    case none
    then show ?thesis using updates_same [OF none(1)] by simp
  next
    case pub
    then show ?thesis using linked_active [OF pub(1)] by (intro updates_publish [OF _ assms(2) pub(1)]) auto
  qed
qed

lemma commitActivationOutcome_updates:
  "commitActivationOutcome z i outcome settledAt k st = (Inr r, st') \<Longrightarrow> project_ok z st \<Longrightarrow>
   updates z st i (\<lambda>c. settled_card c outcome settledAt) st'"
  using commitActivationOutcome_active by metis

lemma editCard_updates:
  assumes run: "editCard z i changes agent ks k st = (Inr r, st')" and ok: "project_ok z st"
  shows "updates z st i (edited_card changes (k_now ks) (k_now k)) st'"
proof -
  from run obtain sel where l: "linked z st i sel"
    and rest: "(if pruneCardEditPatch (s_card sel) changes = empty_patch then returnS (s_card sel)
      else bindS (if c_status (s_card sel) \<in> {Blocked, Failed} then
                bindS (setStatus z i ToChanged ks) (\<lambda>_.
                readS (\<lambda>st. bindE (readCard z st i) (optionE (PlainError ''TypeError'' []))))
              else returnS (s_card sel)) (\<lambda>base.
       publishVersion z base (buildEditedCard base (pruneCardEditPatch (s_card sel) changes) (k_now k)) KUpdate
         (collectEditChangedFields base (buildEditedCard base (pruneCardEditPatch (s_card sel) changes) (k_now k))
            (pruneCardEditPatch (s_card sel) changes)) ''agent edit_card''
         (summarizeChangedFields (collectEditChangedFields base
            (buildEditedCard base (pruneCardEditPatch (s_card sel) changes) (k_now k)) (pruneCardEditPatch (s_card sel) changes)))
         (Some agent) None k)) st = (Inr r, st')"
    unfolding editCard_def Let_def by (auto simp: bindS_Inr_iff liftS_iff require_card_iff)
  note active = linked_active [OF l]
  show ?thesis
  proof (cases "pruneCardEditPatch (s_card sel) changes = empty_patch")
    case True
    with rest have "st' = st" by (simp add: returnS_def)
    moreover have "edited_card changes (k_now ks) (k_now k) (s_card sel) = s_card sel" using True by (simp add: edited_card_def)
    ultimately show ?thesis using updates_same [OF l] by blast
  next
    case edit: False
    show ?thesis
    proof (cases "c_status (s_card sel) \<in> {Blocked, Failed}")
      case False
      with edit rest active show ?thesis
        by (auto simp: edited_card_def buildEditedCard_def Let_def dest!: published_active(2) [OF _ ok l])
    next
      case True
      with edit rest obtain x st1 base where set: "setStatus z i ToChanged ks st = (Inr x, st1)" "readCard z st1 i = Inr (Some base)"
        and pub: "publishVersion z base (buildEditedCard base (pruneCardEditPatch (s_card sel) changes) (k_now k)) KUpdate
         (collectEditChangedFields base (buildEditedCard base (pruneCardEditPatch (s_card sel) changes) (k_now k))
            (pruneCardEditPatch (s_card sel) changes)) ''agent edit_card''
         (summarizeChangedFields (collectEditChangedFields base
            (buildEditedCard base (pruneCardEditPatch (s_card sel) changes) (k_now k)) (pruneCardEditPatch (s_card sel) changes)))
         (Some agent) None k st1 = (Inr r, st')"
        by (auto simp: errE)
      have ok1: "project_ok z st1" using keepsD [OF setStatus_kept set(1)] ok by (simp add: kept_def)
      have st1: "active_cards z st1 = (active_cards z st)(i \<mapsto> status_card ToChanged (k_now ks) (s_card sel))"
        using setStatus_updates [OF set(1) ok] active by auto
      obtain sel1 where l1: "linked z st1 i sel1" "s_card sel1 = base" using set(2) readCard_iff by blast
      with st1 linked_active [OF l1(1)] have base: "base = status_card ToChanged (k_now ks) (s_card sel)" by simp
      have "active_cards z st' = (active_cards z st1)(i \<mapsto> buildEditedCard base (pruneCardEditPatch (s_card sel) changes) (k_now k))"
        using linked_active [OF l1(1)] l1(2) by (intro published_active(2) [OF pub ok1 l1(1)]) (auto simp: buildEditedCard_def)
      with st1 base active True edit show ?thesis by (simp add: edited_card_def)
    qed
  qed
qed

lemma live_order:
  assumes l: "linked z st i sel" and kids: "readCanonicalChildrenOfReached z st i sel = Inr children"
  shows "map (\<lambda>c. c_id (s_card c)) children = filter (\<lambda>j. j \<in> dom (active_cards z st)) (c_active_child_order (s_card sel))"
proof -
  note schema = readExactCard_schema [OF linked_reads [OF l]]
  have id: "c_id (s_card sel) = i" using linked_active [OF l] by simp
  obtain sels where sels: "list_all2 (\<lambda>i sel. readExactCard z st i = Inr sel) (c_active_child_order (s_card sel)) sels"
      "children = filter (\<lambda>c. \<not> s_tombstone c) sels"
    using kids readCanonicalChildren_iff [OF schema id] by blast
  have live: "s_tombstone t \<longleftrightarrow> j \<notin> dom (active_cards z st)"
    if j: "j \<in> set (c_active_child_order (s_card sel))" and t: "readExactCard z st j = Inr t" for j t
  proof -
    have mem: "j \<in> set (c_child_membership (s_card sel))" using j card_children_same_set [OF schema] by simp
    obtain s where "childCardId i s = Inr j" using membership_child [OF linked_reads [OF l] mem] by blast
    then have "\<not> s_tombstone t \<Longrightarrow> linked z st j t" using linked.child [OF l _ mem t] by blast
    then show ?thesis using t linked_active [of z st j t] linked_reads linked_not_tombstone
      by (force simp: dom_def active_cards_iff)
  qed
  have "map (\<lambda>c. c_id (s_card c)) (filter (\<lambda>c. \<not> s_tombstone c) ts) = filter (\<lambda>j. j \<in> dom (active_cards z st)) js"
    if "list_all2 (\<lambda>i sel. readExactCard z st i = Inr sel) js ts" "set js \<subseteq> set (c_active_child_order (s_card sel))" for js ts
    using that by (induction rule: list_all2_induct) (auto simp: live dest: readExactCard_id)
  then show ?thesis using sels by simp
qed

lemma zip_differences: "length xs = length ys \<Longrightarrow> length (filter (\<lambda>(a, b). a \<noteq> b) (zip xs ys)) = 0 \<longleftrightarrow> xs = ys"
  by (induction xs ys rule: list_induct2) auto

lemma is_reordering:
  "distinct live \<Longrightarrow> length live = length order \<and> distinct order \<and> set live \<subseteq> set order \<longleftrightarrow> distinct order \<and> set order = set live"
  by (metis card_subset_eq distinct_card List.finite_set subset_refl)

lemma reorderChildren_updates:
  assumes run: "reorderChildren z i order k st = (Inr r, st')" and ok: "project_ok z st"
  shows "updates z st i (reordered_card (active_cards z st) order (k_now k)) st'"
proof -
  from run obtain p where proj: "readLinkedChildrenProjection z st i = Inr p" unfolding reorderChildren_def by (auto simp: errE)
  then obtain sel children where l: "linked z st i sel" and kids: "readCanonicalChildrenOfReached z st i sel = Inr children"
    and p: "p = (s_card sel, map s_card children)"
    unfolding readLinkedChildrenProjection_def by (auto simp: errE readActiveCardFold_iff)
  let ?c = "s_card sel"
  define live where "live = filter (\<lambda>j. j \<in> dom (active_cards z st)) (c_active_child_order ?c)"
  have kids': "map c_id (map s_card children) = live" using live_order [OF l kids] by (simp add: live_def comp_def)
  have dead: "filter (\<lambda>j. j \<notin> set live) (c_active_child_order ?c) = filter (\<lambda>j. j \<notin> dom (active_cards z st)) (c_active_child_order ?c)"
    by (rule filter_cong) (auto simp: live_def)
  have d: "distinct live" using live_children(2) [OF linked_reads [OF l]] kids kids' linked_active [OF l] by (simp add: comp_def)
  have run': "(if length live \<noteq> length order \<or> \<not> distinct order \<or> \<not> set live \<subseteq> set order
      then returnS (NotReordered (filter (\<lambda>i. i \<notin> set order) live) (filter (\<lambda>i. i \<notin> set live) order))
      else if length (filter (\<lambda>(a, b). a \<noteq> b) (zip live order)) = 0 then returnS (Reordered 0)
      else bindS (publishExactChildReorder z ?c (order @ filter (\<lambda>j. j \<notin> set live) (c_active_child_order ?c)) k)
        (\<lambda>_. returnS (Reordered (length (filter (\<lambda>(a, b). a \<noteq> b) (zip live order)))))) st = (Inr r, st')"
    using run unfolding reorderChildren_def bindS_readS proj p by (simp only: sum.case prod.case Let_def kids')
  have moves: "\<not> (length live \<noteq> length order \<or> \<not> distinct order \<or> \<not> set live \<subseteq> set order) \<longleftrightarrow> distinct order \<and> set order = set live"
    using is_reordering [OF d, of order] by blast
  have same: "length (filter (\<lambda>(a, b). a \<noteq> b) (zip live order)) = 0 \<longleftrightarrow> order = live" if "length live = length order"
    using zip_differences [OF that] by auto
  show ?thesis
  proof (cases "distinct order \<and> set order = set live \<and> order \<noteq> live")
    case False
    then have "st' = st" using run' moves same by (simp add: returnS_def split: if_splits)
    moreover have "reordered_card (active_cards z st) order (k_now k) ?c = ?c"
      using False by (auto simp: reordered_card_def Let_def live_def)
    ultimately show ?thesis using updates_same [OF l] by blast
  next
    case True
    then have "bindS (publishExactChildReorder z ?c (order @ filter (\<lambda>j. j \<notin> set live) (c_active_child_order ?c)) k)
        (\<lambda>_. returnS (Reordered (length (filter (\<lambda>(a, b). a \<noteq> b) (zip live order))))) st = (Inr r, st')"
      using run' moves same by (simp split: if_splits)
    then obtain x where pub: "publishExactChildReorder z ?c (order @ filter (\<lambda>j. j \<notin> dom (active_cards z st)) (c_active_child_order ?c)) k st = (Inr x, st')"
      unfolding dead by (auto simp: errE)
    have new: "reordered_card (active_cards z st) order (k_now k) ?c =
        ?c\<lparr>c_active_child_order := order @ filter (\<lambda>j. j \<notin> dom (active_cards z st)) (c_active_child_order ?c),
           c_version_seq := c_version_seq ?c + 1, c_updated_at := k_now k\<rparr>"
      using True by (auto simp: reordered_card_def Let_def live_def)
    show ?thesis
      using pub linked_active [OF l] by (intro updates_publish [OF _ ok l]) (auto simp: publishExactChildReorder_def new)
  qed
qed

section \<open>Births\<close>

lemma publishCardVersion_link_active:
  assumes pub: "publishCardVersion z c v nt h st = (Inr a, st1)" and ok: "project_ok z st" and l: "linked z st (c_id c) sel"
    and mem: "c_child_membership c = c_child_membership (s_card sel) @ [i]" and i: "i \<notin> dom (active_cards z st)"
    and child: "readExactCard z st i = Inr t" "\<not> s_tombstone t" "c_child_membership (s_card t) = []"
  shows "active_cards z st1 = (active_cards z st)(c_id c \<mapsto> c, i \<mapsto> s_card t)"
proof
  from pub obtain sel' where sel': "readExactCard z st1 (c_id c) = Inr sel'" by (rule publishCardVersion_read) blast
  note read = publishCardVersion_read_of [OF pub linked_reads [OF l] sel']
  have ne: "i \<noteq> c_id c" using i linked_active [OF l] by auto
  have reads: "readExactCard z st1 j = readExactCard z st j" if "j \<noteq> c_id c" for j
    using ok keepsD [OF versions.grows pub] keepsD [OF versions.frame pub] that
    by (intro reads_other) (auto simp: project_ok_def heads_outside_def documents_grow_def)
  have parent: "linked z st1 (c_id c) sel'" using publishCardVersion_linked [OF pub l] sel' by fastforce
  obtain s where "childCardId (c_id c) s = Inr i" using membership_child [OF sel', of i] read(3) mem by auto
  then have new: "linked z st1 i t" using child reads [OF ne] read(3) mem by (intro linked.child [OF parent]) auto
  have old: "j = i \<or> (\<exists>t. linked z st j t)" if "linked z st1 j s" for j s
    using that
  proof (induction rule: linked.induct)
    case (root s)
    have "\<exists>t. readExactCard z st ''project'' = Inr t" using l by (induction rule: linked.induct) auto
    then show ?case by (blast intro: linked.root)
  next
    case (child q ps seg j s)
    have "q \<noteq> i" using linked_reads [OF child(1)] reads [OF ne] assms(6,8) child(3) by auto
    with child obtain tq where tq: "linked z st q tq" by blast
    have "j = i \<or> j \<in> set (c_child_membership (s_card tq))"
      using linked_reads [OF child(1)] linked_reads [OF tq] linked_reads [OF l] sel' child(3) read(3) mem reads [of q]
      by (cases "q = c_id c") auto
    then show ?case using tq child reads [of j] l by (cases "j = c_id c") (auto intro: linked.child)
  qed
  fix j
  show "active_cards z st1 j = ((active_cards z st)(c_id c \<mapsto> c, i \<mapsto> s_card t)) j"
  proof (cases "j = i \<or> j = c_id c")
    case True
    then show ?thesis using linked_active [OF new] linked_active [OF parent] read(3) ne by auto
  next
    case False
    have "linked z st1 j s \<longleftrightarrow> linked z st j s" for s
      using publishCardVersion_linked [OF pub, of j s] old [of j s] False linked_reads reads [of j] by (metis sum.inject(2))
    then have "active_cards z st1 j = Some d \<longleftrightarrow> active_cards z st j = Some d" for d by (simp add: active_cards_iff)
    then have "active_cards z st1 j = active_cards z st j" by (metis option.exhaust)
    with False show ?thesis by simp
  qed
qed

lemma active_cards_cong: "(\<And>j s. linked z st' j s \<longleftrightarrow> linked z st j s) \<Longrightarrow> active_cards z st' = active_cards z st"
  by (rule map_Some_eqI) (simp add: active_cards_iff)

lemma cards_same_active: "cards_same st st' \<Longrightarrow> active_cards z st' = active_cards z st"
  by (rule active_cards_cong) (rule cards_same_linked)

lemma linkChild_Inr:
  assumes "linkChild z ws input p i k st = (Inr u, st')"
  obtains sel v a st1 where "linked z st p sel" "c_id (s_card sel) = p"
    "publishCardVersion z (linking_parent (s_card sel) i (k_now k)) v None (k_head k) st = (Inr a, st1)" "cards_same st1 st'"
proof -
  obtain fresh where fresh: "readCard z st p = Inr (Some fresh)"
    using assms unfolding linkChild_def by (auto simp: errE)
  then obtain sel where l: "linked z st p sel" "s_card sel = fresh" using readCard_iff by blast
  from assms obtain v a st1 where
      "publishCardVersion z (linking_parent fresh i (k_now k)) v None (k_head k) st = (Inr a, st1)"
      "\<exists>g. publishCardVersionEffects v g True [] st1 = (Inr u, st')"
    unfolding linkChild_def Let_def linking_parent_def by (auto simp: errE fresh)
  then show thesis using that [OF l(1)] l linked_active [OF l(1)] keepsD [OF publishCardVersionEffects_cards] by blast
qed

lemma create_step:
  assumes run: "create z sha ws input ids k st = (Inr r, st')" and ok: "project_ok z st"
  shows "map_step (Create input ids k) (active_cards z st) (active_cards z st')"
proof -
  from run obtain parent depth w c st0 st1 st2 where adm: "create_admission z ws input st = (Inr (parent, depth, w), st0)"
    and born: "publishInitialChildCard z sha input w ids st0 = (Inr c, st1)"
    and link: "linkChild z ws input (c_id parent) (c_id c) k st1 = (Inr (), st2)"
    and same: "cards_same st2 st'"
    unfolding create_def by (auto simp: errE cards_same_def)
  have st0: "st0 = st" and parent: "c_id parent = in_parent input" and deps: "\<forall>d \<in> set (in_depends_on input). \<exists>s. linked z st d s"
    using create_admission_cases [OF adm] by blast+
  note birth = publishInitialChildCard_birth [OF born [unfolded st0] ok deps]
  obtain t where t: "readExactCard z st1 (c_id c) = Inr t" "s_card t = c" "\<not> s_tombstone t"
    and c: "c = new_child_card input (c_id c) (bi_stamp ids)" and up: "cardParentId (c_id c) = Inr (Some (in_parent input))"
    and fresh: "c_id c \<notin> set (namespaces st)" using birth by blast
  have same1: "active_cards z st1 = active_cards z st" using birth by (blast intro: active_cards_cong)
  have new: "c_id c \<notin> dom (active_cards z st)"
    using fresh linked_named [OF ok] by (auto simp: dom_def active_cards_iff)
  obtain sel v a st3 where pub: "linked z st1 (c_id parent) sel" "c_id (s_card sel) = c_id parent"
      "publishCardVersion z (linking_parent (s_card sel) (c_id c) (k_now k)) v None (k_head k) st1 = (Inr a, st3)" "cards_same st3 st2"
    using link by (rule linkChild_Inr)
  have empty: "c_child_membership (s_card t) = []" unfolding t(2) by (subst c) (simp add: new_child_card_def)
  have "active_cards z st3 = (active_cards z st)(in_parent input \<mapsto> linking_parent (s_card sel) (c_id c) (k_now k), c_id c \<mapsto> c)"
    using publishCardVersion_link_active [OF pub(3), of sel "c_id c" t] birth pub(1,2) t new parent empty same1
    by (simp add: linking_parent_def)
  then have "active_cards z st' = (active_cards z st)(in_parent input \<mapsto> linking_parent (s_card sel) (c_id c) (k_now k),
      c_id c \<mapsto> new_child_card input (c_id c) (bi_stamp ids))"
    using cards_same_active [OF same] cards_same_active [OF pub(4)] c by metis
  moreover have "active_cards z st (in_parent input) = Some (s_card sel)" using linked_active [OF pub(1)] same1 parent by simp
  ultimately show ?thesis using map_step.birth [OF _ refl new up] by simp
qed

lemma unlinked_store:
  assumes "project_ok z st" and "''project'' \<notin> set (namespaces st)"
  shows "active_cards z st = Map.empty"
proof -
  have "heads st ''project'' = None" using assms by (auto simp: project_ok_def names_ok_def)
  then have none: "readExactCard z st ''project'' = Inr r \<Longrightarrow> False" for r by (auto dest: readExactCard_head(1))
  have "\<not> linked z st j s" for j s
  proof
    assume "linked z st j s"
    then show False by (induction rule: linked.induct) (use none in auto)
  qed
  then have "active_cards z st j \<noteq> Some c" for j c by (simp add: active_cards_iff)
  then show ?thesis by (intro map_Some_eqI) simp
qed

lemma lone_root:
  assumes root: "readExactCard z st ''project'' = Inr sel" and empty: "c_child_membership (s_card sel) = []"
  shows "active_cards z st = [''project'' \<mapsto> s_card sel]"
proof -
  have "linked z st j s \<longleftrightarrow> j = ''project'' \<and> s = sel" for j s
  proof
    assume "linked z st j s"
    then show "j = ''project'' \<and> s = sel" by (induction rule: linked.induct) (use root empty in auto)
  qed (auto intro: linked.root root)
  then have "active_cards z st j = Some c \<longleftrightarrow> j = ''project'' \<and> c = s_card sel" for j c by (auto simp: active_cards_iff)
  then show ?thesis  by (intro map_Some_eqI) (auto split: if_splits)
qed

lemma bootstrap_step:
  assumes run: "publishInitialProjectRuntime z sha title content analyst w git ids st = (Inr u, st')" and ok: "project_ok z st"
  shows "map_step (Bootstrap title content analyst w git ids) (active_cards z st) (active_cards z st')"
proof -
  let ?claimed = "st\<lparr>namespaces := namespaces st @ [''project'']\<rparr>"
  from run obtain g st1 st2 where absent: "''project'' \<notin> set (namespaces st)" and git: "git = Inr g"
    and prep: "prepareInitialProjectDirectories w st = (Inr (), st1)"
    and conv: "initializeConversation (''agent:'' @ analyst @ '':global'') st1 = (Inr (), st2)"
    and card: "publishInitialProjectCard z sha title content w g ids st2 = (Inr u, st')"
    unfolding publishInitialProjectRuntime_def by (auto simp: errE)
  let ?c = "initial_project_card title g (bi_stamp ids)"
  have "cards_same ?claimed st1" using prep unfolding prepareInitialProjectDirectories_def
    by (auto simp: errE intro: keepsD [OF card_conversations_cards])
  then have same: "cards_same ?claimed st2" using csame.frame_trans keepsD [OF conversations_cards conv] by blast
  have "project_ok z ?claimed" using quiet_project_ok [OF _ ok, of ?claimed] absent by (simp add: quiet_def documents_grow_def)
  then have st2: "project_ok z st2" "heads st2 ''project'' = None" "''project'' \<in> set (namespaces st2)"
    using quiet_project_ok [OF cards_same_quiet [OF same]] same absent ok
    by (auto simp: cards_same_def project_ok_def names_ok_def)
  from card have "publishInitialCardState z sha ?c content (record_definitions w) AuthorBootstrap ids st2 = (Inr u, st')"
    unfolding publishInitialProjectCard_def by (auto simp: errE)
  from publishInitialCardState_birth(3) [OF this st2(1)] st2(2,3) obtain sel where
      "readExactCard z st' ''project'' = Inr sel" "s_card sel = ?c"
    by (auto simp: initial_project_card_def)
  then have "active_cards z st' = [''project'' \<mapsto> ?c]" using lone_root [of z st' sel] by (simp add: initial_project_card_def)
  then show ?thesis unfolding git unlinked_store [OF ok absent] by (simp add: map_step.first)
qed

section \<open>Deletions\<close>

lemma subtree_below:
  assumes l: "linked z st i tsel"
  shows "subtree (active_cards z st) i j \<longleftrightarrow> (\<exists>s. below z st i j s)"
proof
  assume "subtree (active_cards z st) i j"
  then show "\<exists>s. below z st i j s"
  proof (induction rule: subtree.induct)
    case (top i)
    then show ?case by (auto simp: dom_def active_cards_iff dest: linked_reads linked_not_tombstone intro: below.self)
  next
    case (down i p c j)
    then obtain sp where sp: "below z st i p sp" by blast
    from down(2,4) obtain s t where s: "linked z st p s" "s_card s = c" and t: "linked z st j t"
      by (auto simp: dom_def active_cards_iff)
    have "sp = s" using below_reads [OF sp] linked_reads [OF s(1)] by simp
    with sp s(2) down(3) linked_reads [OF t] linked_not_tombstone [OF t] show ?case by (blast intro: below_snoc)
  qed
next
  have "subtree (active_cards z st) a j" if "below z st b j s" "subtree (active_cards z st) a b" for a b s
    using that
  proof (induction rule: below.induct)
    case (down i parent c j sel)
    obtain d where d: "active_cards z st i = Some d" using down.prems by (cases rule: subtree.cases) auto
    then obtain p where p: "linked z st i p" "s_card p = d" by (auto simp: active_cards_iff)
    then have "p = parent" using linked_reads [OF p(1)] down.hyps(1) by simp
    obtain t where t: "readExactCard z st c = Inr t" "\<not> s_tombstone t" using below_top [OF down.hyps(4)] by blast
    obtain sg where "childCardId i sg = Inr c" using membership_child [OF down.hyps(1,3)] by blast
    then have "linked z st c t" using linked.child [OF p(1)] t down.hyps(3) \<open>p = parent\<close> by blast
    then have "c \<in> dom (active_cards z st)" using linked_active by blast
    then show ?case using down.IH subtree.down [OF down.prems d] p(2) \<open>p = parent\<close> down.hyps(3) by blast
  qed
  moreover have "subtree (active_cards z st) i i" using linked_active [OF l] by (auto intro: subtree.top)
  ultimately show "\<exists>s. below z st i j s \<Longrightarrow> subtree (active_cards z st) i j" by blast
qed

lemma deleteSubtrees_step:
  assumes run: "deleteSubtrees z ws requested allowed agent ks st = (Inr r, st')" and ok: "project_ok z st" "parents_first st"
  shows "map_step (Delete requested allowed agent ks) (active_cards z st) (active_cards z st')"
proof -
  obtain deleted roots where r: "r = (deleted, roots)" by (cases r)
  have gone: "\<forall>j s. linked z st' j s \<longleftrightarrow> linked z st j s \<and> j \<notin> subtree_ids z st requested"
    using deleteSubtrees_shrinks [OF ok run] unfolding r shrunk_def by auto
  have "\<exists>p. deletionPlan z st requested allowed = Inr p" using run unfolding deleteSubtrees_def by (auto simp: errE)
  then have req: "\<exists>s. linked z st i s" if "i \<in> set requested" for i using that deletionPlan_iff(1) [OF ok] by (auto simp: deletable_def)
  have sub: "subtree_ids z st requested = {j. \<exists>i \<in> set requested. subtree (active_cards z st) i j}"
    unfolding subtree_ids_def using subtree_below req by blast
  have "active_cards z st' j = Some c \<longleftrightarrow> (active_cards z st |` (- subtree_ids z st requested)) j = Some c" for j c
    using gone by (auto simp: active_cards_iff restrict_map_def)
  then have "active_cards z st' = active_cards z st |` (- subtree_ids z st requested)" by (rule map_Some_eqI)
  then show ?thesis unfolding sub by (simp add: map_step.delete)
qed

section \<open>Every call\<close>

lemma ignore_Inr: "ignore m st = (Inr u, st') \<Longrightarrow> \<exists>x. m st = (Inr x, st')"
  by (auto simp: ignore_def errE)

lemma updates_step: "updates z st i f st' \<Longrightarrow> card_update (active_cards z st) call = Some (i, f) \<Longrightarrow>
  map_step call (active_cards z st) (active_cards z st')"
  using map_step.update by fastforce

lemmas call_updates = setStatus_updates editCard_updates publishGitFacts_updates stopRunning_updates activateStopped_updates
  enqueueNotification_updates removeNotifications_updates commitActivationOutcome_updates reorderChildren_updates

lemma perform_step:
  assumes run: "perform z sha ws call st = (Inr u, st')" and ok: "project_ok z st" "parents_first st"
  shows "map_step call (active_cards z st) (active_cards z st')"
proof (cases "record_call call")
  case True
  then have "cards_same st st'" using run by (cases call) (auto dest: keepsD [OF record_calls_cards(1)] keepsD [OF record_calls_cards(2)]
      keepsD [OF record_calls_cards(3)] keepsD [OF record_calls_cards(4)] keepsD [OF record_calls_cards(5)] simp del: perform.simps)
  then show ?thesis using cards_same_active [of st st' z] map_step.records [OF True] by simp
next
  case False
  with run ok show ?thesis
    by (cases call) (auto dest!: ignore_Inr intro: create_step bootstrap_step deleteSubtrees_step call_updates [THEN updates_step])
qed

end
