(* ===== verification/PublicationFaults.thy ===== *)
theory PublicationFaults
  imports CardPublication
begin

text \<open>
  The card publications of \<^verbatim>\<open>card-files.ts\<close> at the level of their file-system calls
  (\<^verbatim>\<open>replace-file.ts\<close>, \<^verbatim>\<open>publish-head.ts\<close>). Every call may return, throw before it had an effect, or
  throw after it; the faults are a parameter. Without faults they are the publications of
  \<open>CardFiles\<close>; with faults a publication that throws leaves every card as it was, or reports
  that its outcome is unknown and has published the new selection as a whole.
\<close>

section \<open>File-system calls that may throw\<close>

datatype io_call =
    Lstat | OpenTemporary | WriteTemporary | SyncTemporary | CloseTemporary
  | Rename | OpenParent | SyncParent | CloseParent
  | Unlink | Link | OpenSlots | SyncSlots | CloseSlots

datatype io_outcome = Returns | Throws | ThrowsAfter

datatype published_file = HistoryFile | MailboxFile | HeadFile

type_synonym io_faults = "published_file \<Rightarrow> io_call \<Rightarrow> io_outcome"

definition no_faults :: io_faults where
  "no_faults f call = Returns"

definition PublicationOutcomeUnknownError :: error where
  "PublicationOutcomeUnknownError = PlainError ''Saivage durable publication outcome is unknown.'' []"

text \<open>
  A call with its effect on the published files. \<open>SystemError\<close> is an errno other than \<open>ENOENT\<close>, which
  the code tells apart: an absent file is an answer of \<open>lstat\<close> and \<open>unlink\<close>, not a fault.
\<close>

abbreviation SystemError :: error where
  "SystemError \<equiv> PlainError ''EIO'' []"

definition io_do :: "io_outcome \<Rightarrow> ('s \<Rightarrow> 's) \<Rightarrow> ('s, unit) op" where
  "io_do out f = (case out of
       Returns \<Rightarrow> modifyS f
     | Throws \<Rightarrow> liftS (Inl SystemError)
     | ThrowsAfter \<Rightarrow> bindS (modifyS f) (\<lambda>_. liftS (Inl SystemError)))"

text \<open>Calls without an effect on published files: temporary files and descriptors.\<close>

definition io_calls :: "io_faults \<Rightarrow> published_file \<Rightarrow> io_call list \<Rightarrow> ('s, unit) op" where
  "io_calls io f calls = forS (\<lambda>call. io_do (io f call) (\<lambda>st. st)) calls"

definition unknown_outcome :: "('s, 'a) op \<Rightarrow> ('s, 'a) op" where
  "unknown_outcome m st = (case m st of
       (Inl e, st') \<Rightarrow> (Inl PublicationOutcomeUnknownError, st')
     | (Inr x, st') \<Rightarrow> (Inr x, st'))"

section \<open>Publishing a file\<close>

definition replaceFile_io :: "io_faults \<Rightarrow> published_file \<Rightarrow> ('s \<Rightarrow> 's) \<Rightarrow> ('s, unit) op" where
  "replaceFile_io io f put =
     bindS (io_calls io f [OpenTemporary, WriteTemporary, SyncTemporary, CloseTemporary]) (\<lambda>_.
     unknown_outcome
       (bindS (io_do (io f Rename) put) (\<lambda>_.
        io_calls io f [OpenParent, SyncParent, CloseParent])))"

definition publishFreshFile_io ::
    "io_faults \<Rightarrow> published_file \<Rightarrow> ('s \<Rightarrow> bool) \<Rightarrow> string \<Rightarrow> ('s \<Rightarrow> 's) \<Rightarrow> ('s, unit) op" where
  "publishFreshFile_io io f occupied target put =
     bindS (io_calls io f [Lstat]) (\<lambda>_.
     bindS (readS (\<lambda>st. guardE (\<not> occupied st) (PlainError ''File is already published.'' [target]))) (\<lambda>_.
     replaceFile_io io f put))"

definition publishFreshHistory_io :: "io_faults \<Rightarrow> string \<Rightarrow> card_artifact \<Rightarrow> ('a card_store_scheme, unit) op" where
  "publishFreshHistory_io io cardId artifact =
     publishFreshFile_io io HistoryFile (\<lambda>st. history st (cardId, art_entry_id artifact) \<noteq> None) (art_entry_id artifact)
       (\<lambda>st. st\<lparr>history := (history st)((cardId, art_entry_id artifact) \<mapsto> artifact)\<rparr>)"

definition publishHeadFile_io ::
    "io_faults \<Rightarrow> string \<Rightarrow> card_head \<Rightarrow> publication_mode \<Rightarrow> ('a card_store_scheme, unit) op" where
  "publishHeadFile_io io cardId head mode =
     bindS (io_do (io HeadFile Unlink) (\<lambda>st. st\<lparr>previous_heads := (previous_heads st)(cardId := None)\<rparr>)) (\<lambda>_.
     bindS (if mode = Replacement then
              bindS (readS (\<lambda>st. optionE (ENOENT ''card-head'') (heads st cardId))) (\<lambda>current.
              io_do (io HeadFile Link) (\<lambda>st. st\<lparr>previous_heads := (previous_heads st)(cardId \<mapsto> current)\<rparr>))
            else returnS ()) (\<lambda>_.
     bindS (unknown_outcome (io_calls io HeadFile [OpenSlots, SyncSlots, CloseSlots])) (\<lambda>_.
     replaceFile_io io HeadFile (\<lambda>st. st\<lparr>heads := (heads st)(cardId \<mapsto> head)\<rparr>))))"

section \<open>Publishing a card\<close>

definition publishInitialVersion_io ::
    "io_faults \<Rightarrow> zod \<Rightarrow> card_record \<Rightarrow> string \<Rightarrow> string \<Rightarrow> ('a card_store_scheme, card_artifact) op" where
  "publishInitialVersion_io io z c entryId headId =
     bindS (liftS (parse_card z c)) (\<lambda>c.
     bindS (liftS (validateInitialCard c (c_id c))) (\<lambda>_.
     bindS (liftS (parse_artifact z (CardVersion
       \<lparr>av_entry_id = entryId, av_card_id = c_id c, av_version = 1, av_committed_at = c_created_at c,
        av_card = ordinaryCardPayload c, av_predecessor = None, av_change = None\<rparr>))) (\<lambda>artifact.
     bindS (publishFreshHistory_io io (c_id c) artifact) (\<lambda>_.
     bindS (liftS (parse_head z
       \<lparr>h_head_id = headId, h_card_id = c_id c, h_version_seq = 1, h_updated_at = c_updated_at c,
        h_ordinary = referenceOf artifact, h_pending = []\<rparr>)) (\<lambda>head.
     bindS (publishHeadFile_io io (c_id c) head Initial) (\<lambda>_.
     returnS artifact))))))"

definition publishMailboxMessage_io ::
    "io_faults \<Rightarrow> zod \<Rightarrow> card_record \<Rightarrow> card_notification option \<Rightarrow> ('a card_store_scheme, unit) op" where
  "publishMailboxMessage_io io z c notification =
     bindS (liftS (optionE (ZodError ''cardNotification'') notification)) (\<lambda>n.
     bindS (liftS (guardE (cardMailboxMessageSchema z \<lparr>mm_card_id = c_id c, mm_notification = n\<rparr>)
       (ZodError ''cardMailboxMessage''))) (\<lambda>_.
     bindS (liftS (guardE (at_last (c_pending_notifications c) = Some (n_id n))
       (PlainError ''enqueued message identity mismatch'' [c_id c]))) (\<lambda>_.
     publishFreshFile_io io MailboxFile (\<lambda>st. mailbox st (c_id c, n_id n) \<noteq> None) (n_id n)
       (\<lambda>st. st\<lparr>mailbox := (mailbox st)((c_id c, n_id n) \<mapsto>
         \<lparr>mm_card_id = c_id c, mm_notification = n\<rparr>)\<rparr>))))"

definition publishCardVersion_io ::
    "io_faults \<Rightarrow> zod \<Rightarrow> card_record \<Rightarrow> card_version_change \<Rightarrow> card_notification option \<Rightarrow> string \<Rightarrow>
     ('a card_store_scheme, card_artifact option) op" where
  "publishCardVersion_io io z c change notification headId =
     bindS (readS (\<lambda>st. readExactCard z st (c_id c))) (\<lambda>fold.
     bindS (liftS (guardE (\<not> s_tombstone fold) (PlainError ''Card is terminal.'' [c_id c]))) (\<lambda>_.
     bindS (liftS (parse_card z c)) (\<lambda>c.
     bindS (liftS (parse_change z change)) (\<lambda>change.
     bindS (liftS (validateCardTransition (s_card fold) c change (c_id c) Live)) (\<lambda>_.
     if v_kind change = KNotificationEnqueue \<or> v_kind change = KNotificationRemove then
       bindS (if v_kind change = KNotificationEnqueue then publishMailboxMessage_io io z c notification
              else returnS ()) (\<lambda>_.
       bindS (liftS (parse_head z ((s_selection fold)
         \<lparr>h_head_id := headId, h_version_seq := c_version_seq c, h_updated_at := c_updated_at c,
          h_pending := c_pending_notifications c\<rparr>))) (\<lambda>head.
       bindS (publishHeadFile_io io (c_id c) head Replacement) (\<lambda>_.
       returnS None)))
     else
       bindS (liftS (parse_artifact z (CardVersion
         \<lparr>av_entry_id = v_entry_id change, av_card_id = c_id c, av_version = c_version_seq c,
          av_committed_at = v_changed_at change, av_card = ordinaryCardPayload c,
          av_predecessor = Some (h_ordinary (s_selection fold)), av_change = Some (ordinaryChange change)\<rparr>))) (\<lambda>artifact.
       bindS (publishFreshHistory_io io (c_id c) artifact) (\<lambda>_.
       bindS (liftS (parse_head z ((s_selection fold)
         \<lparr>h_head_id := headId, h_ordinary := referenceOf artifact, h_version_seq := c_version_seq c,
          h_updated_at := c_updated_at c, h_pending := c_pending_notifications c\<rparr>))) (\<lambda>head.
       bindS (publishHeadFile_io io (c_id c) head Replacement) (\<lambda>_.
       returnS (Some artifact))))))))))"

definition publishCardTombstone_io ::
    "io_faults \<Rightarrow> zod \<Rightarrow> string \<Rightarrow> card_record \<Rightarrow> card_version_change \<Rightarrow> string \<Rightarrow> ('a card_store_scheme, card_artifact) op" where
  "publishCardTombstone_io io z cardId finalCard change headId =
     bindS (liftS (guardE (cardId \<noteq> ''project'') (PlainError ''Cannot tombstone the project card.'' []))) (\<lambda>_.
     bindS (readS (\<lambda>st. readCardArtifacts z st cardId)) (\<lambda>fold.
     bindS (liftS (guardE (\<not> s_tombstone fold) (PlainError ''Card is terminal.'' [cardId]))) (\<lambda>_.
     bindS (liftS (guardE (s_card fold = finalCard)
       (PlainError ''tombstone final card must equal current'' [cardId]))) (\<lambda>_.
     bindS (liftS (parse_artifact z (CardTombstone
       \<lparr>at_entry_id = v_entry_id change, at_card_id = cardId, at_version = c_version_seq finalCard + 1,
        at_committed_at = v_changed_at change, at_prior_card_version = c_version_seq finalCard,
        at_prior_updated_at = c_updated_at finalCard, at_final_card = ordinaryCardPayload finalCard,
        at_predecessor = h_ordinary (s_selection fold), at_change = change\<rparr>))) (\<lambda>artifact.
     bindS (publishFreshHistory_io io cardId artifact) (\<lambda>_.
     bindS (liftS (parse_head z ((s_selection fold)
       \<lparr>h_head_id := headId, h_ordinary := referenceOf artifact, h_version_seq := art_version artifact,
        h_updated_at := art_committed_at artifact, h_pending := []\<rparr>))) (\<lambda>head.
     bindS (publishHeadFile_io io cardId head Replacement) (\<lambda>_.
     returnS artifact))))))))"

section \<open>Without faults\<close>

lemma io_do_Returns [simp]: "io_do Returns f = modifyS f"
  by (simp add: io_do_def)

lemma io_calls_no_faults [simp]: "io_calls no_faults f calls = returnS ()"
  by (induction calls) (auto simp: io_calls_def no_faults_def returnS_def modifyS_def bindS_def)

lemma unknown_outcome_no_faults: "unknown_outcome (modifyS f) = modifyS f" "unknown_outcome (returnS x) = returnS x"
  by (auto simp: unknown_outcome_def modifyS_def returnS_def)

lemma bindS_return_left [simp]: "bindS (returnS x) f = f x"
  by (rule ext) simp

lemma bindS_return_unit [simp]: "bindS (modifyS f) returnS = modifyS f" "bindS (modifyS f) (\<lambda>_. returnS ()) = modifyS f"
  by (rule ext, simp add: modifyS_def returnS_def)+

lemma replaceFile_no_faults: "replaceFile_io no_faults f put = modifyS put"
  by (simp add: replaceFile_io_def unknown_outcome_no_faults no_faults_def)

lemma publishFreshHistory_no_faults: "publishFreshHistory_io no_faults = publishFreshHistory"
  by (intro ext) (simp add: publishFreshHistory_io_def publishFreshHistory_def publishFreshFile_io_def replaceFile_no_faults)

lemma publishMailboxMessage_no_faults: "publishMailboxMessage_io no_faults = publishMailboxMessage"
  by (intro ext) (simp add: publishMailboxMessage_io_def publishMailboxMessage_def publishFreshFile_io_def replaceFile_no_faults)

lemma publishHeadFile_no_faults: "publishHeadFile_io no_faults = publishHeadFile"
  by (intro ext) (simp add: publishHeadFile_io_def publishHeadFile_def replaceFile_no_faults unknown_outcome_no_faults no_faults_def)

lemmas writes_no_faults = publishFreshHistory_no_faults publishMailboxMessage_no_faults publishHeadFile_no_faults

lemma publications_no_faults:
  "publishInitialVersion_io no_faults = publishInitialVersion"
  "publishCardVersion_io no_faults = publishCardVersion"
  "publishCardTombstone_io no_faults = publishCardTombstone"
  by (intro ext, simp only: writes_no_faults publishInitialVersion_io_def publishInitialVersion_def
    publishCardVersion_io_def publishCardVersion_def publishCardTombstone_io_def publishCardTombstone_def)+

section \<open>With faults\<close>

text \<open>The outcomes of the file publications, whatever call throws.\<close>

lemma io_do_cases:
  assumes "io_do out f st = (r, st')"
  obtains "r = Inr ()" "st' = f st" | e where "r = Inl e" "st' = st" | e where "r = Inl e" "st' = f st"
  using assms by (cases out) (auto simp: io_do_def modifyS_def liftS_def)

lemma io_calls_state: "io_calls io f calls st = (r, st') \<Longrightarrow> st' = st"
  unfolding io_calls_def
proof (induction calls arbitrary: r)
  case (Cons call calls)
  then show ?case by (cases "io f call") (auto simp: io_do_def modifyS_def liftS_def bindS_def)
qed (simp add: returnS_def)

lemma unknown_outcome_cases:
  assumes "unknown_outcome m st = (r, st')"
  obtains x where "r = Inr x" "m st = (Inr x, st')"
    | e where "r = Inl PublicationOutcomeUnknownError" "m st = (Inl e, st')"
  using assms by (auto simp: unknown_outcome_def split: prod.splits sum.splits)

lemma replaceFile_cases:
  assumes "replaceFile_io io f put st = (r, st')"
  obtains "r = Inr ()" "st' = put st" | e where "r = Inl e" "st' = st"
    | "r = Inl PublicationOutcomeUnknownError" "st' = put st"
proof (cases "io_calls io f [OpenTemporary, WriteTemporary, SyncTemporary, CloseTemporary] st")
  case (Pair q t)
  have t: "t = st" using io_calls_state [OF Pair] .
  show ?thesis
  proof (cases q)
    case (Inl e)
    with Pair t assms that(2) show ?thesis by (auto simp: replaceFile_io_def)
  next
    case (Inr u)
    with Pair t assms have "unknown_outcome (bindS (io_do (io f Rename) put)
        (\<lambda>_. io_calls io f [OpenParent, SyncParent, CloseParent])) st = (r, st')"
      by (simp add: replaceFile_io_def)
    then show ?thesis
      by (cases rule: unknown_outcome_cases)
         (auto simp: bindS_Inr_iff bindS_Inl_iff elim!: io_do_cases dest!: io_calls_state intro: that)
  qed
qed

lemma publishFreshFile_cases:
  assumes "publishFreshFile_io io f occupied target put st = (r, st')"
  obtains "r = Inr ()" "\<not> occupied st" "st' = put st" | e where "r = Inl e" "st' = st"
    | e where "r = Inl e" "\<not> occupied st" "st' = put st"
proof (cases "io_calls io f [Lstat] st")
  case (Pair q t)
  have t: "t = st" using io_calls_state [OF Pair] .
  show ?thesis
  proof (cases "isl q \<or> occupied st")
    case True
    with Pair t assms that(2) show ?thesis
      by (cases q) (auto simp: publishFreshFile_io_def bindS_readS guardE_def)
  next
    case False
    with Pair t assms have "replaceFile_io io f put st = (r, st')"
      by (cases q) (auto simp: publishFreshFile_io_def bindS_readS guardE_def)
    with False that show ?thesis by (auto elim: replaceFile_cases)
  qed
qed

text \<open>
  A step before the head: it moves no head, only adds documents, and when it returns it has
  done what the step without faults does.
\<close>

definition precedes_head :: "('a card_store_scheme, 'b) op \<Rightarrow> ('a card_store_scheme, 'b) op \<Rightarrow> bool" where
  "precedes_head m' m \<longleftrightarrow> (\<forall>st r st'. m' st = (r, st') \<longrightarrow> heads st' = heads st \<and> documents_grow st st' \<and>
     (\<forall>x. r = Inr x \<longrightarrow> m st = (Inr x, st')))"

text \<open>
  The steps up to and including the head: when they return, they have done what they do without
  faults; when they throw, no head moved, or the outcome is reported unknown and everything is done.
\<close>

definition publishes_head :: "('a card_store_scheme, 'b) op \<Rightarrow> ('a card_store_scheme, 'b) op \<Rightarrow> bool" where
  "publishes_head m' m \<longleftrightarrow> (\<forall>st r st'. m' st = (r, st') \<longrightarrow> documents_grow st st' \<and>
     (case r of
        Inr x \<Rightarrow> m st = (Inr x, st')
      | Inl e \<Rightarrow> heads st' = heads st \<or> e = PublicationOutcomeUnknownError \<and> (\<exists>x. m st = (Inr x, st'))))"

lemma precedes_head_refl: "precedes_head (liftS g) (liftS g)" "precedes_head (readS h) (readS h)" "precedes_head (returnS x) (returnS x)"
  by (auto simp: precedes_head_def errE grow.frame_refl)

lemma precedes_head_bind:
  assumes "precedes_head m' m" and "\<And>x. precedes_head (f' x) (f x)"
  shows "precedes_head (bindS m' f') (bindS m f)"
  unfolding precedes_head_def
proof (intro allI impI)
  fix st r st'
  assume run: "bindS m' f' st = (r, st')"
  obtain q t where q: "m' st = (q, t)" by (cases "m' st")
  show "heads st' = heads st \<and> documents_grow st st' \<and> (\<forall>x. r = Inr x \<longrightarrow> bindS m f st = (Inr x, st'))"
  proof (cases q)
    case (Inl e)
    with run q assms(1) show ?thesis by (auto simp: precedes_head_def)
  next
    case (Inr x)
    with q assms(1) have m: "heads t = heads st" "documents_grow st t" "m st = (Inr x, t)"
      by (auto simp: precedes_head_def)
    from run q Inr have "f' x t = (r, st')" by simp
    with assms(2) have "heads st' = heads t" "documents_grow t st'" "\<forall>y. r = Inr y \<longrightarrow> f x t = (Inr y, st')"
      unfolding precedes_head_def by blast+
    with m show ?thesis by (auto intro: grow.frame_trans)
  qed
qed

lemma precedes_head_if:
  "(c \<Longrightarrow> precedes_head m' m) \<Longrightarrow> (\<not> c \<Longrightarrow> precedes_head n' n) \<Longrightarrow> precedes_head (if c then m' else n') (if c then m else n)"
  by simp

lemma publishes_head_bind:
  assumes "precedes_head m' m" and "\<And>x. publishes_head (f' x) (f x)"
  shows "publishes_head (bindS m' f') (bindS m f)"
  unfolding publishes_head_def
proof (intro allI impI)
  fix st r st'
  assume run: "bindS m' f' st = (r, st')"
  obtain q t where q: "m' st = (q, t)" by (cases "m' st")
  show "documents_grow st st' \<and> (case r of Inr x \<Rightarrow> bindS m f st = (Inr x, st')
      | Inl e \<Rightarrow> heads st' = heads st \<or> e = PublicationOutcomeUnknownError \<and> (\<exists>x. bindS m f st = (Inr x, st')))"
  proof (cases q)
    case (Inl e)
    with run q assms(1) show ?thesis by (auto simp: precedes_head_def)
  next
    case (Inr x)
    with q assms(1) have m: "heads t = heads st" "documents_grow st t" "m st = (Inr x, t)"
      by (auto simp: precedes_head_def)
    from run q Inr have "f' x t = (r, st')" by simp
    with assms(2) have "documents_grow t st' \<and> (case r of Inr y \<Rightarrow> f x t = (Inr y, st')
      | Inl e \<Rightarrow> heads st' = heads t \<or> e = PublicationOutcomeUnknownError \<and> (\<exists>y. f x t = (Inr y, st')))"
      unfolding publishes_head_def by blast
    with m show ?thesis by (auto intro: grow.frame_trans split: sum.splits)
  qed
qed

lemma publishes_head_if:
  "(c \<Longrightarrow> publishes_head m' m) \<Longrightarrow> (\<not> c \<Longrightarrow> publishes_head n' n) \<Longrightarrow> publishes_head (if c then m' else n') (if c then m else n)"
  by simp

section \<open>Every publication under faults\<close>

lemma publishFreshHistory_precedes: "precedes_head (publishFreshHistory_io io i a) (publishFreshHistory i a)"
  unfolding precedes_head_def publishFreshHistory_io_def
  by (auto elim!: publishFreshFile_cases simp: publishFreshHistory_def bindS_readS guardE_def modifyS_def
    documents_grow_def map_le_upd_fresh)

lemma publishMailboxMessage_precedes: "precedes_head (publishMailboxMessage_io io z c n) (publishMailboxMessage z c n)"
  unfolding publishMailboxMessage_io_def publishMailboxMessage_def
proof (intro precedes_head_bind precedes_head_refl)
  fix n
  show "precedes_head (publishFreshFile_io io MailboxFile (\<lambda>st. mailbox st (c_id c, n_id n) \<noteq> None) (n_id n)
       (\<lambda>st. st\<lparr>mailbox := (mailbox st)((c_id c, n_id n) \<mapsto> \<lparr>mm_card_id = c_id c, mm_notification = n\<rparr>)\<rparr>))
     (bindS (readS (\<lambda>st. guardE (mailbox st (c_id c, n_id n) = None) (PlainError ''File is already published.'' [n_id n]))) (\<lambda>_.
        modifyS (\<lambda>st. st\<lparr>mailbox := (mailbox st)((c_id c, n_id n) \<mapsto> \<lparr>mm_card_id = c_id c, mm_notification = n\<rparr>)\<rparr>)))"
    unfolding precedes_head_def
    by (auto elim!: publishFreshFile_cases simp: bindS_readS guardE_def modifyS_def documents_grow_def map_le_upd_fresh)
qed

lemma unlink_precedes:
  "precedes_head (io_do out (\<lambda>st. st\<lparr>previous_heads := g st\<rparr>)) (modifyS (\<lambda>st. st\<lparr>previous_heads := g st\<rparr>))"
  unfolding precedes_head_def by (auto elim!: io_do_cases simp: modifyS_def documents_grow_def)

lemma sync_precedes: "precedes_head (unknown_outcome (io_calls io f calls)) (returnS ())"
  unfolding precedes_head_def
  by (auto elim!: unknown_outcome_cases dest!: io_calls_state simp: returnS_def grow.frame_refl)

lemma head_replaced:
  "publishes_head (replaceFile_io io HeadFile (\<lambda>st. st\<lparr>heads := g st\<rparr>)) (modifyS (\<lambda>st. st\<lparr>heads := g st\<rparr>))"
  unfolding publishes_head_def by (auto elim!: replaceFile_cases simp: modifyS_def documents_grow_def)

lemma publishHeadFile_synced:
  "publishHeadFile i h mode =
     bindS (modifyS (\<lambda>st. st\<lparr>previous_heads := (previous_heads st)(i := None)\<rparr>)) (\<lambda>_.
     bindS (if mode = Replacement then
              bindS (readS (\<lambda>st. optionE (ENOENT ''card-head'') (heads st i))) (\<lambda>current.
              modifyS (\<lambda>st. st\<lparr>previous_heads := (previous_heads st)(i \<mapsto> current)\<rparr>))
            else returnS ()) (\<lambda>_.
     bindS (returnS ()) (\<lambda>_. modifyS (\<lambda>st. st\<lparr>heads := (heads st)(i \<mapsto> h)\<rparr>))))"
  by (simp add: publishHeadFile_def)

lemma publishHeadFile_publishes: "publishes_head (publishHeadFile_io io i h mode) (publishHeadFile i h mode)"
  unfolding publishHeadFile_io_def publishHeadFile_synced
  by (intro publishes_head_bind precedes_head_bind precedes_head_if precedes_head_refl
    unlink_precedes sync_precedes head_replaced)

lemma head_then_return: "publishes_head m' m \<Longrightarrow> publishes_head (bindS m' (\<lambda>_. returnS x)) (bindS m (\<lambda>_. returnS x))"
  unfolding publishes_head_def by (fastforce simp: bindS_def returnS_def split: prod.splits sum.splits)

lemmas publication_steps = head_then_return [OF publishHeadFile_publishes] publishes_head_bind publishes_head_if
  precedes_head_bind precedes_head_if precedes_head_refl publishFreshHistory_precedes publishMailboxMessage_precedes

lemma publishInitialVersion_publishes: "publishes_head (publishInitialVersion_io io z c e headId) (publishInitialVersion z c e headId)"
  unfolding publishInitialVersion_io_def publishInitialVersion_def by (intro publication_steps)

lemma publishCardVersion_publishes: "publishes_head (publishCardVersion_io io z c v n headId) (publishCardVersion z c v n headId)"
  unfolding publishCardVersion_io_def publishCardVersion_def by (intro publication_steps)

lemma publishCardTombstone_publishes: "publishes_head (publishCardTombstone_io io z i c v headId) (publishCardTombstone z i c v headId)"
  unfolding publishCardTombstone_io_def publishCardTombstone_def by (intro publication_steps)

section \<open>Old or new\<close>

text \<open>
  What a reader may find after a publication, given the run without faults: the store is
  intact; a return has done exactly that run; a throw has left every card and history
  readable as before, or reports an unknown outcome and has done that run as a whole.
\<close>

definition old_or_new ::
    "zod \<Rightarrow> 'a card_store_scheme \<Rightarrow> (error + 'b) \<times> 'a card_store_scheme \<Rightarrow> (error + 'b) \<times> 'a card_store_scheme \<Rightarrow> bool" where
  "old_or_new z st run ideal \<longleftrightarrow> store_ok z (snd run) \<and>
     (case fst run of
        Inr x \<Rightarrow> ideal = run
      | Inl e \<Rightarrow>
          (\<forall>j sel. readExactCard z st j = Inr sel \<longrightarrow> readExactCard z (snd run) j = Inr sel \<and>
             (\<forall>s rows. readHistory z st sel s = Inr rows \<longrightarrow> readHistory z (snd run) sel s = Inr rows)) \<or>
          e = PublicationOutcomeUnknownError \<and> (\<exists>x. ideal = (Inr x, snd run)))"

locale faulty_publication = card_publication +
  fixes publish_io :: "('a card_store_scheme, 'b) op"
  assumes publishes: "publishes_head publish_io publish"
begin

lemma reader_finds_old_or_new:
  assumes ok: "store_ok z st"
  shows "old_or_new z st (publish_io st) (publish st)"
proof (cases "publish_io st")
  case (Pair r st')
  then have g: "documents_grow st st'"
    and run: "case r of Inr x \<Rightarrow> publish st = (Inr x, st')
      | Inl e \<Rightarrow> heads st' = heads st \<or> e = PublicationOutcomeUnknownError \<and> (\<exists>x. publish st = (Inr x, st'))"
    using publishes unfolding publishes_head_def by blast+
  have kept: "store_ok z st' \<and> (\<forall>j sel. readExactCard z st j = Inr sel \<longrightarrow> readExactCard z st' j = Inr sel \<and>
      (\<forall>s rows. readHistory z st sel s = Inr rows \<longrightarrow> readHistory z st' sel s = Inr rows))" if h: "heads st' = heads st"
  proof -
    have "store_ok z st'" using ok card_ok_mono [OF g] h by (simp add: store_ok_def)
    then show ?thesis using h documents_growD [OF g] by (auto intro: readExactCard_mono readHistory_mono)
  qed
  have done_ok: "store_ok z st'" if "publish st = (Inr x, st')" for x
    using preserves_store_ok [OF that ok] .
  show ?thesis
    using run kept done_ok by (cases r) (auto simp: old_or_new_def Pair)
qed

end

interpretation initial_io: faulty_publication z "c_id c" "publishInitialVersion z c e headId" "publishInitialVersion_io io z c e headId"
  for z c e headId io
  by unfold_locales (rule publishInitialVersion_publishes)

interpretation versions_io: faulty_publication z "c_id c" "publishCardVersion z c v n headId" "publishCardVersion_io io z c v n headId"
  for z c v n headId io
  by unfold_locales (rule publishCardVersion_publishes)

interpretation tombstones_io: faulty_publication z i "publishCardTombstone z i c v headId" "publishCardTombstone_io io z i c v headId"
  for z i c v headId io
  by unfold_locales (rule publishCardTombstone_publishes)

end
