(* ===== verification/CardProperties.thy ===== *)
theory CardProperties
  imports ProjectProperties CardRefinement PublicationFaults
begin

text \<open>
  Promises about single cards: evolution over histories, status operations, notification
  queues, history documents, reachability and identities, each with a concrete instance.
\<close>

section \<open>Evolution\<close>

text \<open>
  (C4) Cards evolve in one direction: whatever calls follow, a card that could be read still can,
  a tombstone stays as it is, a changed card has a larger version, the same identity, type, author,
  creation time and dependencies, and its status has walked the lifecycle graph; a cancelled
  card stays cancelled.
\<close>

theorem cards_evolve:
  assumes "reachable z sha ws st" and "later z sha ws st st'" and "readExactCard z st i = Inr sel"
  shows "\<exists>sel'. readExactCard z st' i = Inr sel' \<and> (s_tombstone sel \<longrightarrow> sel' = sel) \<and>
    (sel' \<noteq> sel \<longrightarrow> h_version_seq (s_selection sel) < h_version_seq (s_selection sel')) \<and>
    c_id (s_card sel') = i \<and> c_type (s_card sel') = c_type (s_card sel) \<and> c_depends_on (s_card sel') = c_depends_on (s_card sel) \<and>
    c_created_by (s_card sel') = c_created_by (s_card sel) \<and> c_created_at (s_card sel') = c_created_at (s_card sel) \<and>
    lifecycle_step\<^sup>*\<^sup>* (c_status (s_card sel)) (c_status (s_card sel')) \<and>
    (c_status (s_card sel) = Cancelled \<longrightarrow> c_status (s_card sel') = Cancelled)"
proof -
  obtain sel' where sel': "readExactCard z st' i = Inr sel'" "evolves sel sel'"
    using later_evolution [OF assms(2,1)] assms(3) unfolding evolution_def by blast
  have walk: "lifecycle_step\<^sup>*\<^sup>* (c_status (s_card sel)) (c_status (s_card sel'))" using sel'(2) by (auto simp: evolves_def)
  have "t = Cancelled" if "lifecycle_step\<^sup>*\<^sup>* Cancelled t" for t
    using that by (induction rule: rtranclp_induct) (auto elim: from_cancelled simp: lifecycle_step_iff)
  with walk have "c_status (s_card sel) = Cancelled \<longrightarrow> c_status (s_card sel') = Cancelled" by metis
  then show ?thesis
    using sel' walk readExactCard_id [OF sel'(1)] by (intro exI [of _ sel']) (auto simp: evolves_def same_identity_def)
qed

lemma boot_reads: "\<not> isl (readExactCard sample_zod (sample_perform boot_call empty_project) ''project'')"
  by code_simp

theorem cards_evolve_witness:
  "\<exists>sel sel'. readExactCard sample_zod (sample_perform boot_call empty_project) ''project'' = Inr sel \<and>
    readExactCard sample_zod (sample_perform (SetStatus ''project'' ToRunning (sample_stamps (CHR ''7'')))
      (sample_perform boot_call empty_project)) ''project'' = Inr sel' \<and> c_id (s_card sel') = ''project'' \<and>
    lifecycle_step\<^sup>*\<^sup>* (c_status (s_card sel)) (c_status (s_card sel'))"
proof -
  obtain sel where sel: "readExactCard sample_zod (sample_perform boot_call empty_project) ''project'' = Inr sel"
    using boot_reads by (cases "readExactCard sample_zod (sample_perform boot_call empty_project) ''project''") auto
  show ?thesis
    using cards_evolve [OF reachable.call [OF reachable.start surjective_pairing] later.more [OF later.now surjective_pairing] sel] sel
    by blast
qed

section \<open>Status operations\<close>

text \<open>
  (C7) A status operation on an active card succeeds exactly along the set-status table: given a
  valid clock reading and fresh identifiers, an allowed transition publishes the card with the new
  lifecycle, its queue kept or, on cancellation, cleared, and the card reads back as published; any
  other request fails and leaves the store as it was.
\<close>

theorem setStatus_exact:
  assumes "linked z st i sel" and "advance_ok z st sel k"
  shows "if isSetStatusTransition (c_status (s_card sel)) (target_status t)
    then \<exists>c st'. setStatus z i t k st = (Inr c, st') \<and> readCard z st' i = Inr (Some c) \<and>
      c = (s_card sel)\<lparr>c_lifecycle := buildSetStatusLifecycle t,
        c_pending_notifications := (if t = ToCancelled then [] else c_pending_notifications (s_card sel)),
        c_updated_at := k_now k, c_version_seq := c_version_seq (s_card sel) + 1\<rparr>
    else \<exists>e. setStatus z i t k st = (Inl e, st)"
proof (cases "isSetStatusTransition (c_status (s_card sel)) (target_status t)")
  case True
  then show ?thesis using setStatus_succeeds [OF assms, of t] by simp
next
  case False
  then have "assertSetStatusAdmission (s_card sel) t \<noteq> Inr ()" by (simp add: assertSetStatusAdmission_Inr)
  then obtain e where "assertSetStatusAdmission (s_card sel) t = Inl e" by (cases "assertSetStatusAdmission (s_card sel) t") auto
  with False show ?thesis by (simp add: setStatus_def require_card_run [OF assms(1)] bindS_def liftS_def)
qed

lemma tree_advance: "advance_ok sample_zod sample_tree child_selection (sample_stamps (CHR ''9''))"
  by code_simp

theorem setStatus_exact_witness:
  "(\<exists>c st'. setStatus sample_zod ''card-a'' ToRunning (sample_stamps (CHR ''9'')) sample_tree = (Inr c, st') \<and> c_status c = Running \<and>
     readCard sample_zod st' ''card-a'' = Inr (Some c)) \<and>
   (\<exists>e. setStatus sample_zod ''card-a'' ToChanged (sample_stamps (CHR ''9'')) sample_tree = (Inl e, sample_tree))"
proof -
  have status: "c_status (s_card child_selection) = Backlog" by (simp add: tree_cards tree_child_def sample_card_def)
  have l: "linked sample_zod sample_tree ''card-a'' child_selection" by (simp add: tree_linked)
  show ?thesis
    using setStatus_exact [OF l tree_advance, of ToRunning] setStatus_exact [OF l tree_advance, of ToChanged] status by auto
qed

section \<open>Notifications\<close>

text \<open>
  (C14) The notification queue is first in, first out and loses nothing: a successful enqueue makes the
  pending notifications of the card the previous ones followed by the new one, and a successful
  removal leaves, in order, exactly the previous ones whose ids were not removed.
\<close>

theorem notification_queue_fifo:
  assumes "readPendingCardNotifications z st i = Inr ns"
  shows "(enqueueNotification z i n k st = (Inr c, st1) \<longrightarrow> readPendingCardNotifications z st1 i = Inr (ns @ [n])) \<and>
    (removeNotifications z i ids k st = (Inr d, st2) \<longrightarrow>
       readPendingCardNotifications z st2 i = Inr (filter (\<lambda>n. n_id n \<notin> set ids) ns))"
  using assms enqueueNotification_queue removeNotifications_queue by blast

definition sample_notification :: card_notification where
  "sample_notification = \<lparr>n_id = sample_uuid (CHR ''8''), n_content = ''hello'', n_created_at = ''t1'', n_source = None\<rparr>"

lemma tree_enqueue_runs: "succeeds (enqueueNotification sample_zod ''card-a'' sample_notification (sample_stamps (CHR ''9''))) sample_tree"
  by code_simp

theorem notification_queue_fifo_witness:
  "readPendingCardNotifications sample_zod
     (stateS (enqueueNotification sample_zod ''card-a'' sample_notification (sample_stamps (CHR ''9''))) sample_tree) ''card-a''
   = Inr [sample_notification]"
proof -
  have l: "linked sample_zod sample_tree ''card-a'' child_selection" by (simp add: tree_linked)
  have "readPendingCardNotifications sample_zod sample_tree ''card-a'' = Inr []"
    unfolding readPending_iff using l by (intro exI [of _ child_selection]) (simp add: tree_cards)
  then show ?thesis using notification_queue_fifo succeedsD [OF tree_enqueue_runs] by fastforce
qed

section \<open>History\<close>

text \<open>
  (C5) History is append-only and complete: a published version of an intact card reads back as the
  card, its history is the previous history with exactly the published document appended (none for a
  change of the notification queue), and every other card reads and replays as before.
\<close>

theorem publication_appends:
  assumes "store_ok z st" and "publishCardVersion z c v nt headId st = (Inr r, st')"
  shows "\<exists>sel sel' rows. readExactCard z st (c_id c) = Inr sel \<and> readHistory z st sel None = Inr rows \<and>
    readExactCard z st' (c_id c) = Inr sel' \<and> s_card sel' = c \<and>
    readHistory z st' sel' None = Inr (rows @ (case r of None \<Rightarrow> [] | Some a \<Rightarrow> [a])) \<and>
    (\<forall>j s. j \<noteq> c_id c \<longrightarrow> readExactCard z st j = Inr s \<longrightarrow>
       readExactCard z st' j = Inr s \<and> readHistory z st' s None = readHistory z st s None)"
proof -
  from assms(2) obtain sel sel' where sel: "readExactCard z st (c_id c) = Inr sel" "readExactCard z st' (c_id c) = Inr sel'"
    by (rule publishCardVersion_read) blast
  have intact: "\<exists>rows. readHistory z st s None = Inr rows" if "readExactCard z st j = Inr s" for j s
  proof -
    have "card_ok z st j" using assms(1) readExactCard_head(1) [OF that] by (auto simp: store_ok_def)
    then show ?thesis using that by (auto simp: card_ok_iff)
  qed
  then obtain rows where rows: "readHistory z st sel None = Inr rows" using sel(1) by blast
  have "readExactCard z st' j = Inr s \<and> readHistory z st' s None = readHistory z st s None"
    if "j \<noteq> c_id c" "readExactCard z st j = Inr s" for j s
    using versions.other_card_unchanged [OF assms(2) that] intact [OF that(2)] by auto
  with sel rows publishCardVersion_read_of(3) [OF assms(2) sel] publishCardVersion_history [OF assms(2) sel(1) rows sel(2)]
  show ?thesis by blast
qed

definition tree_update :: card_record where
  "tree_update = tree_child\<lparr>c_title := ''New'', c_updated_at := ''t2'', c_version_seq := 2\<rparr>"

definition tree_update_change :: card_version_change where
  "tree_update_change = \<lparr>v_entry_id = sample_uuid (CHR ''9''), v_kind = KUpdate, v_card_id = ''card-a'', v_resulting_version = 2,
     v_changed_at = ''t2'', v_changed_by_actor = ''planner'', v_changed_fields = [''title''],
     v_change_summary = summarizeChangedFields [''title''], v_change_reason = ''agent edit_card'', v_terminal_summary = None\<rparr>"

abbreviation tree_publish :: "(project_store, card_artifact option) op" where
  "tree_publish \<equiv> publishCardVersion sample_zod tree_update tree_update_change None (sample_uuid (CHR ''9''))"

lemma tree_publish_runs: "succeeds tree_publish sample_tree"
  by code_simp

theorem publication_appends_witness:
  "\<exists>sel'. readExactCard sample_zod (stateS tree_publish sample_tree) ''card-a'' = Inr sel' \<and> s_card sel' = tree_update"
proof -
  have "c_id tree_update = ''card-a''" by (simp add: tree_update_def tree_child_def)
  then show ?thesis
    using publication_appends [OF tree_ok(1) [unfolded project_ok_def, THEN conjunct1] succeedsD [OF tree_publish_runs]] by auto
qed

text \<open>
  (C6) Whatever file-system call throws, before or after its effect, a publication leaves an intact
  store. When it returns it has published what it publishes without faults; when it throws, every
  card and history reads exactly as before, or the error says that the outcome is unknown and the
  store is that of the completed publication: a later reader finds the old or the new
  version, never anything else. Without faults it is the publication of the other theorems.
\<close>

theorem publication_old_or_new:
  assumes "store_ok z st"
  shows "old_or_new z st (publishCardVersion_io io z c v nt headId st) (publishCardVersion z c v nt headId st) \<and>
    old_or_new z st (publishInitialVersion_io io z c entry headId st) (publishInitialVersion z c entry headId st) \<and>
    old_or_new z st (publishCardTombstone_io io z i c v headId st) (publishCardTombstone z i c v headId st) \<and>
    publishCardVersion_io no_faults z c v nt headId st = publishCardVersion z c v nt headId st \<and>
    publishInitialVersion_io no_faults z c entry headId st = publishInitialVersion z c entry headId st \<and>
    publishCardTombstone_io no_faults z i c v headId st = publishCardTombstone z i c v headId st"
  using versions_io.reader_finds_old_or_new [OF assms] initial_io.reader_finds_old_or_new [OF assms]
    tombstones_io.reader_finds_old_or_new [OF assms]
  by (simp add: publications_no_faults)

text \<open>The parent directory of the head cannot be synced: the rename has happened and the error says so.\<close>

definition unsynced_head :: io_faults where
  "unsynced_head f call = (if f = HeadFile \<and> call = SyncParent then Throws else Returns)"

abbreviation tree_publish_unsynced :: "(project_store, card_artifact option) op" where
  "tree_publish_unsynced \<equiv> publishCardVersion_io unsynced_head sample_zod tree_update tree_update_change None (sample_uuid (CHR ''9''))"

lemma tree_publish_unsynced_runs: "fst (tree_publish_unsynced sample_tree) = Inl PublicationOutcomeUnknownError"
  "readExactCard sample_zod (snd (tree_publish_unsynced sample_tree)) ''card-a'' \<noteq> readExactCard sample_zod sample_tree ''card-a''"
  by code_simp+

theorem publication_old_or_new_witness:
  "fst (tree_publish_unsynced sample_tree) = Inl PublicationOutcomeUnknownError \<and>
   store_ok sample_zod (snd (tree_publish_unsynced sample_tree)) \<and>
   (\<exists>x. tree_publish sample_tree = (Inr x, snd (tree_publish_unsynced sample_tree)))"
proof -
  have "store_ok sample_zod sample_tree" using tree_ok(1) by (simp add: project_ok_def)
  from publication_old_or_new [OF this, THEN conjunct1, of unsynced_head tree_update tree_update_change None "sample_uuid (CHR ''9'')"]
  show ?thesis unfolding old_or_new_def using tree_publish_unsynced_runs tree_reads(2) by auto
qed

section \<open>Reaching cards\<close>

text \<open>
  (C17) Reading a card by its identity decides reachability: the walk along the segments of the
  identity finds a card exactly when a chain of memberships of live cards leads to it from the
  project card, and reading the card returns the current record of exactly those.
\<close>

theorem reading_decides_reachability:
  "(readActiveCardFold z st i = Inr (Some sel) \<longleftrightarrow> linked z st i sel) \<and>
   (readCard z st i = Inr (Some c) \<longleftrightarrow> (\<exists>sel. linked z st i sel \<and> s_card sel = c)) \<and>
   (readActiveCardFold z st i = Inr (Some sel) \<and> readActiveCardFold z st i = Inr (Some sel') \<longrightarrow> sel' = sel)"
  using readActiveCardFold_iff [of z st i sel] readCard_iff [of z st i c] by auto

theorem reading_decides_reachability_witness:
  "readActiveCardFold sample_zod sample_tree ''card-a'' = Inr (Some child_selection) \<and>
   readCard sample_zod sample_tree ''card-a'' = Inr (Some tree_child)"
  using reading_decides_reachability [of sample_zod sample_tree "''card-a''" child_selection tree_child]
  by (simp add: tree_linked tree_cards)

text \<open>
  (C18) The dependency validator is exact: it accepts a list of cards if and only if every dependency is
  in the list and the dependency graph has no cycle.
\<close>

theorem validateParsedCards_exact:
  "validateParsedCards cards = Inr () \<longleftrightarrow>
     (\<forall>c \<in> set cards. set (c_depends_on c) \<subseteq> c_id ` set cards) \<and> acyclic (dep_edges cards)"
  by (rule validateParsedCards_iff)

theorem validateParsedCards_exact_witness:
  "validateParsedCards [tree_root, tree_child] = Inr ()"
proof -
  have "dep_edges [tree_root, tree_child] = {}"
    by (auto simp: dep_edges_def find_Some_iff tree_cards less_Suc_eq)
  then show ?thesis unfolding validateParsedCards_exact by (simp add: tree_cards acyclic_def)
qed

section \<open>Claiming identities\<close>

lemma claimFrom_minimal:
  assumes "card_path ss" "length ss < MAX_CARD_DEPTH" "cardSegmentSchema s"
  shows "\<exists>t. claimFrom (card_id_of ss) taken s = Inr (card_id_of (ss @ [t])) \<and> cardSegmentSchema t \<and>
    card_id_of (ss @ [t]) \<notin> set taken \<and>
    (\<forall>u. cardSegmentSchema u \<and> segment_value s \<le> segment_value u \<and> segment_value u < segment_value t \<longrightarrow>
       card_id_of (ss @ [u]) \<in> set taken)"
  using assms
proof (induction "card_id_of ss" taken s rule: claimFrom.induct)
  case (1 taken s)
  have child: "childCardId (card_id_of ss) s = Inr (card_id_of (ss @ [s]))" using 1(2-4) by (simp add: childCardId_path)
  show ?case
  proof (cases "card_id_of (ss @ [s]) \<in> set taken")
    case False
    then show ?thesis using child 1(4) by (subst claimFrom.simps) auto
  next
    case True
    obtain s' where s': "nextCardSegment (Some s) = Inr s'" "cardSegmentSchema s'" "segment_value s' = segment_value s + 1"
      using nextCardSegment_Some [OF 1(4)] by blast
    have IH: "\<exists>t. claimFrom (card_id_of ss) taken s' = Inr (card_id_of (ss @ [t])) \<and> cardSegmentSchema t \<and>
        card_id_of (ss @ [t]) \<notin> set taken \<and>
        (\<forall>u. cardSegmentSchema u \<and> segment_value s' \<le> segment_value u \<and> segment_value u < segment_value t \<longrightarrow>
           card_id_of (ss @ [u]) \<in> set taken)"
      using 1(1) [OF child _ s'(1)] True 1(2,3) s'(2) by blast
    have run: "claimFrom (card_id_of ss) taken s = claimFrom (card_id_of ss) taken s'"
      using child True s'(1) by (subst claimFrom.simps) simp
    have low: "u = s" if "cardSegmentSchema u" "segment_value s \<le> segment_value u" "\<not> segment_value s' \<le> segment_value u" for u
      using that s'(3) segment_value_inject [OF that(1) 1(4)] by linarith
    show ?thesis unfolding run using IH low True by metis
  qed
qed

text \<open>
  (C16) Claiming a child identity always ends and never collides: below the maximal depth, the claim
  creates the namespace of the first segment, in the order of the counter, whose identity is
  not claimed yet; every smaller segment is already claimed.
\<close>

theorem claimChildNamespace_first_free:
  assumes "cardDepth p = Inr d" "d < MAX_CARD_DEPTH" "p \<in> set (namespaces st)"
  shows "\<exists>i t. claimChildNamespace p st = (Inr i, st\<lparr>namespaces := namespaces st @ [i]\<rparr>) \<and> i \<notin> set (namespaces st) \<and>
    childCardId p t = Inr i \<and>
    (\<forall>u. cardSegmentSchema u \<and> segment_value u < segment_value t \<longrightarrow> (\<exists>j \<in> set (namespaces st). childCardId p u = Inr j))"
proof -
  have "cardIdSchema p" using assms(1) by (auto simp: cardDepth_def cardIdSegments_def errE)
  then obtain ss where ss: "card_path ss" "p = card_id_of ss" by (auto simp: cardIdSchema_iff)
  then have len: "length ss < MAX_CARD_DEPTH" using assms(1,2) by simp
  have a: "nextCardSegment None = Inr ''a''" "cardSegmentSchema ''a''" "segment_value ''a'' = 1" by code_simp+
  obtain t where t: "claimFrom p (namespaces st) ''a'' = Inr (card_id_of (ss @ [t]))" "cardSegmentSchema t"
      "card_id_of (ss @ [t]) \<notin> set (namespaces st)"
      "\<And>u. cardSegmentSchema u \<Longrightarrow> segment_value u < segment_value t \<Longrightarrow> card_id_of (ss @ [u]) \<in> set (namespaces st)"
    using claimFrom_minimal [OF ss(1) len a(2), of "namespaces st"] ss(2) a(3) segment_value_pos by (metis Suc_leI One_nat_def)
  have "claimChildNamespace p st = (Inr (card_id_of (ss @ [t])), st\<lparr>namespaces := namespaces st @ [card_id_of (ss @ [t])]\<rparr>)"
    using assms(3) a(1) t(1) by (simp add: claimChildNamespace_def bindS_def readS_def modifyS_def returnS_def)
  then show ?thesis using t ss len by (intro exI [of _ "card_id_of (ss @ [t])"] exI [of _ t]) (auto simp: childCardId_path)
qed

theorem claimChildNamespace_first_free_witness:
  "\<exists>i. claimChildNamespace ''project'' sample_tree = (Inr i, sample_tree\<lparr>namespaces := namespaces sample_tree @ [i]\<rparr>) \<and> i \<noteq> ''card-a''"
proof -
  have "cardDepth ''project'' = Inr 0" "0 < MAX_CARD_DEPTH" by code_simp+
  moreover have "namespaces sample_tree = [''project'', ''card-a'']" by (simp add: sample_tree_def empty_store_def)
  ultimately show ?thesis using claimChildNamespace_first_free [of "''project''" 0 sample_tree] by auto
qed

section \<open>Refinement\<close>

text \<open>
  (C15) The service refines a map from identities to card records. On every reachable store, a call
  that succeeds moves the map of active cards by the abstract step of that call: a status change,
  edit, Git publication, stop, activation, notification, terminal commit or reorder replaces
  the record of its one card by the stated new record; a creation adds the new child and links it
  into its parent; the bootstrap creates the project card; a deletion removes exactly the
  requested subtrees; a record operation leaves the map as it was.
\<close>

theorem service_refines_map:
  assumes "reachable z sha ws st" and "perform z sha ws call st = (Inr u, st')"
  shows "map_step call (active_cards z st) (active_cards z st')"
  using perform_step [OF assms(2)] reachable_ok [OF assms(1)] by blast

abbreviation boot_start :: call where
  "boot_start \<equiv> SetStatus ''project'' ToRunning (sample_stamps (CHR ''7''))"

lemma boot_start_runs: "succeeds (perform sample_zod sample_sha sample_workflows boot_start) (sample_perform boot_call empty_project)"
  by code_simp

theorem service_refines_map_witness:
  "\<exists>c. active_cards sample_zod (sample_perform boot_call empty_project) ''project'' = Some c \<and>
    active_cards sample_zod (sample_perform boot_start (sample_perform boot_call empty_project)) =
      (active_cards sample_zod (sample_perform boot_call empty_project))
        (''project'' \<mapsto> status_card ToRunning (k_now (sample_stamps (CHR ''7''))) c)"
proof -
  have "map_step boot_start (active_cards sample_zod (sample_perform boot_call empty_project))
      (active_cards sample_zod (sample_perform boot_start (sample_perform boot_call empty_project)))"
    using service_refines_map [OF reachable.call [OF reachable.start surjective_pairing] succeedsD [OF boot_start_runs]]
    by (simp add: stateS_def)
  then show ?thesis by (cases rule: map_step.cases) auto
qed

end
