(* ===== verification/MicroActor.thy ===== *)
theory MicroActor
  imports Prelude
begin

text \<open>
  The micro actors of the runtime (\<open>src/runtime/micro-actor/\<close>): a table of states with
  named events, one pending event, one task slot and a main loop that dispatches events
  and awaits the task.

  A subclass is code the actor calls back (its hooks, task callbacks and task bodies) and
  that calls the protected methods of the actor. Such code is a \<open>script\<close>: a tree
  of calls with the state \<open>'u\<close> of the subclass threaded through it; each continuation takes
  what the call returned or threw, so a script may catch errors. The actor itself is an
  abstract machine with an explicit stack of continuations, one frame per place of the
  source where the actor waits for subclass code: exceptions unwind the stack through the
  \<open>try\<close>, \<open>catch\<close> and \<open>finally\<close> of the source. JavaScript runs a call to completion, so the
  outside acts (calls a method, settles the awaited task) only when the stack is empty.
\<close>

section \<open>Compiled actor tables\<close>

record compiled_transition =
  targetStateId :: string
  reenter :: bool

record compiled_state =
  on :: "(string \<times> compiled_transition) list"
  isTerminal :: bool
  isParked :: bool

type_synonym actor_table = "(string \<times> compiled_state) list"

datatype lifecycle_context =
    StartContext string
  | TransitionContext string string string bool

fun context_target :: "lifecycle_context \<Rightarrow> string" where
  "context_target (StartContext t) = t"
| "context_target (TransitionContext s e t r) = t"

definition validate_transition ::
    "actor_table \<Rightarrow> string \<Rightarrow> string \<times> compiled_transition \<Rightarrow> error + unit" where
  "validate_transition states stateName = (\<lambda>(eventName, transition).
     bindE (guardE (eventName \<noteq> [])
       (InvalidActorDefinitionError ''Event name must be non-empty in state'' [stateName])) (\<lambda>_.
     bindE (guardE (map_of states (targetStateId transition) \<noteq> None)
       (InvalidActorDefinitionError ''Transition target does not exist in states''
         [targetStateId transition, stateName, eventName])) (\<lambda>_.
     guardE (\<not> (reenter transition \<and> targetStateId transition \<noteq> stateName))
       (InvalidActorDefinitionError ''reentry requires the source and target state to match''
         [stateName, eventName, targetStateId transition]))))"

definition validate_state :: "actor_table \<Rightarrow> string \<times> compiled_state \<Rightarrow> error + unit" where
  "validate_state states = (\<lambda>(stateName, state).
     bindE (guardE (\<not> (isTerminal state \<and> on state \<noteq> []))
       (InvalidActorDefinitionError ''Terminal state cannot have transitions'' [stateName])) (\<lambda>_.
     bindE (guardE (\<not> (isTerminal state \<and> isParked state))
       (InvalidActorDefinitionError ''State cannot be both terminal and parked'' [stateName])) (\<lambda>_.
     bindE (mapE (validate_transition states stateName) (on state)) (\<lambda>_. Inr ()))))"

definition validateCompiledActorTable :: "string \<Rightarrow> actor_table \<Rightarrow> error + unit" where
  "validateCompiledActorTable initialStateId states =
     bindE (guardE (states \<noteq> [])
       (InvalidActorDefinitionError ''Actor definition must declare at least one state'' [])) (\<lambda>_.
     bindE (mapE (\<lambda>(stateName, _). guardE (stateName \<noteq> [])
       (InvalidActorDefinitionError ''State names must be non-empty'' [])) states) (\<lambda>_.
     bindE (guardE (map_of states initialStateId \<noteq> None)
       (InvalidActorDefinitionError ''Initial state does not exist in states'' [initialStateId])) (\<lambda>_.
     bindE (mapE (validate_state states) states) (\<lambda>_. Inr ()))))"

definition state_terminal :: "actor_table \<Rightarrow> string \<Rightarrow> bool" where
  "state_terminal states s = (case map_of states s of None \<Rightarrow> False | Some d \<Rightarrow> isTerminal d)"

definition state_parked :: "actor_table \<Rightarrow> string \<Rightarrow> bool" where
  "state_parked states s = (case map_of states s of None \<Rightarrow> False | Some d \<Rightarrow> isParked d)"

text \<open>What validation establishes, for lookups rather than entries.\<close>

lemma validated_initial:
  "validateCompiledActorTable i states = Inr () \<Longrightarrow> i \<in> dom (map_of states)"
  by (auto simp: validateCompiledActorTable_def errE)

lemma validated_state:
  assumes "validateCompiledActorTable i states = Inr ()" and "map_of states s = Some d"
  shows "validate_state states (s, d) = Inr ()"
  using assms(1) map_of_SomeD [OF assms(2)]
  by (auto simp: validateCompiledActorTable_def errE dest!: mapE_each)

lemma validated_target:
  assumes "validateCompiledActorTable i states = Inr ()"
    and "map_of states s = Some d" and "map_of (on d) e = Some tr"
  shows "targetStateId tr \<in> dom (map_of states)"
    and "reenter tr \<Longrightarrow> targetStateId tr = s"
  using validated_state [OF assms(1,2)] map_of_SomeD [OF assms(3)]
  by (auto simp: validate_state_def validate_transition_def errE dest!: mapE_each)

lemma validated_terminal:
  assumes "validateCompiledActorTable i states = Inr ()"
    and "map_of states s = Some d" and "isTerminal d"
  shows "on d = []" and "\<not> isParked d"
  using validated_state [OF assms(1,2)] assms(3) by (auto simp: validate_state_def errE)

section \<open>Subclass code\<close>

text \<open>
  What a call of an actor method gives back: nothing, the name of the state, or a promise,
  named by its index among the promises the actor has handed out.
\<close>

datatype answer = Void | StateName string | Promised nat

datatype ('u, 'r) script =
    Finish 'u
  | Throw error 'u
  | Call "('u, 'r) request" 'u "error + answer \<Rightarrow> 'u \<Rightarrow> ('u, 'r) script"
and ('u, 'r) request =
    GetState
  | Start
  | SendEvent string
  | ParkedSendEvent string
  | RunTask "'u \<Rightarrow> ('u, 'r) script" "'r \<Rightarrow> 'u \<Rightarrow> ('u, 'r) script" "error \<Rightarrow> 'u \<Rightarrow> ('u, 'r) script"
  | AwaitLifecycleSettlement
  | StopAfterCurrentTask

text \<open>The hooks a subclass implements.\<close>

record ('u, 'r) hooks =
  onStateEntered :: "lifecycle_context \<Rightarrow> 'u \<Rightarrow> ('u, 'r) script"
  onTransition :: "lifecycle_context \<Rightarrow> 'u \<Rightarrow> ('u, 'r) script"
  onActorMainFailure :: "error \<Rightarrow> 'u \<Rightarrow> ('u, 'r) script"
  onFatalTaskError :: "error \<Rightarrow> 'u \<Rightarrow> ('u, 'r) script"

section \<open>The actor and its continuations\<close>

text \<open>
  A task object is identified by a serial number. Its body has run up to its first
  suspension when the task is installed; \<open>threw\<close> is the error it threw there, which
  \<open>#safeTask\<close> turns into a failed result.
\<close>

record ('u, 'r) actor_task =
  task_serial :: nat
  threw :: "error option"
  onDone :: "'r \<Rightarrow> 'u \<Rightarrow> ('u, 'r) script"
  onFailed :: "error \<Rightarrow> 'u \<Rightarrow> ('u, 'r) script"

record settlement_waiter =
  waiter_sequence :: nat
  waiter_promise :: nat

record ('u, 'r) actor =
  currentState :: "string option"
  nextEvent :: "(string \<times> nat) option"
  queuedEventSequence :: nat
  settledEventSequence :: nat
  eventSettlementWaiters :: "settlement_waiter list"
  actorTask :: "('u, 'r) actor_task option"
  actorMainRunning :: bool
  mainLoopFailed :: bool
  mainLoopFailure :: "error option"
  stopAfter :: bool
  taskSerials :: nat
  promises :: "(error + unit) option list"

text \<open>
  The continuations: subclass code waiting for a call; \<open>start\<close> after its hook and after its
  fatal-error hook; \<open>runTask\<close> after the body; \<open>#dispatchEvent\<close> between its two hooks; the
  main loop after a dispatch, at its head, in its \<open>catch\<close> after each of the two failure hooks.
\<close>

datatype ('u, 'r) frame =
    Caller "error + answer \<Rightarrow> 'u \<Rightarrow> ('u, 'r) script"
  | StartEntered
  | StartFatal error
  | TaskStarted "'r \<Rightarrow> 'u \<Rightarrow> ('u, 'r) script" "error \<Rightarrow> 'u \<Rightarrow> ('u, 'r) script"
  | Entering lifecycle_context
  | Dispatched nat
  | MainLoop
  | MainFatal error
  | MainFailure

datatype ('u, 'r) control =
    Code "('u, 'r) script"
  | Return "error + answer"

text \<open>\<open>awaited\<close> is the task on whose promise the main loop is suspended.\<close>

record ('u, 'r) machine =
  actor :: "('u, 'r) actor"
  user :: 'u
  control :: "('u, 'r) control"
  stack :: "('u, 'r) frame list"
  awaited :: "('u, 'r) actor_task option"

section \<open>Operations on the actor\<close>

definition sendEvent :: "string \<Rightarrow> ('u, 'r) actor \<Rightarrow> error + ('u, 'r) actor" where
  "sendEvent name a = (case nextEvent a of
     Some (pending, _) \<Rightarrow> Inl (InternalActorError ''Actor already has pending event'' [pending, name])
   | None \<Rightarrow> Inr (a\<lparr>queuedEventSequence := Suc (queuedEventSequence a),
       nextEvent := Some (name, Suc (queuedEventSequence a))\<rparr>))"

definition resolve_promise ::
    "error + unit \<Rightarrow> settlement_waiter \<Rightarrow> ('u, 'r) actor \<Rightarrow> ('u, 'r) actor" where
  "resolve_promise outcome w a = a\<lparr>promises := (promises a)[waiter_promise w := Some outcome]\<rparr>"

definition settleLifecycleWaiters :: "('u, 'r) actor \<Rightarrow> ('u, 'r) actor" where
  "settleLifecycleWaiters a =
     (let due = filter (\<lambda>w. waiter_sequence w \<le> settledEventSequence a) (eventSettlementWaiters a)
      in List.fold (resolve_promise (Inr ())) due
        (a\<lparr>eventSettlementWaiters :=
          filter (\<lambda>w. \<not> waiter_sequence w \<le> settledEventSequence a) (eventSettlementWaiters a)\<rparr>))"

definition fail_main_loop :: "error \<Rightarrow> ('u, 'r) actor \<Rightarrow> ('u, 'r) actor" where
  "fail_main_loop e a = List.fold (resolve_promise (Inl e)) (eventSettlementWaiters a)
     (a\<lparr>mainLoopFailed := True, mainLoopFailure := Some e, eventSettlementWaiters := []\<rparr>)"

definition awaitLifecycleSettlement :: "('u, 'r) actor \<Rightarrow> ('u, 'r) actor" where
  "awaitLifecycleSettlement a =
     (if mainLoopFailed a then
        a\<lparr>promises := promises a @ [map_option Inl (mainLoopFailure a)]\<rparr>
      else if settledEventSequence a \<ge> queuedEventSequence a then
        a\<lparr>promises := promises a @ [Some (Inr ())]\<rparr>
      else a\<lparr>promises := promises a @ [None],
        eventSettlementWaiters := eventSettlementWaiters a @
          [\<lparr>waiter_sequence = queuedEventSequence a, waiter_promise = length (promises a)\<rparr>]\<rparr>)"

section \<open>Methods\<close>

text \<open>\<open>#ensureActorMain\<close>: the main loop runs on the caller's stack up to its first \<open>await\<close>.\<close>

definition ensureActorMain :: "('u, 'r) machine \<Rightarrow> ('u, 'r) machine" where
  "ensureActorMain m =
     (if actorMainRunning (actor m) \<or> mainLoopFailed (actor m) then m\<lparr>control := Return (Inr Void)\<rparr>
      else m\<lparr>actor := (actor m)\<lparr>actorMainRunning := True\<rparr>, stack := MainLoop # stack m,
        control := Return (Inr Void)\<rparr>)"

definition start_actor :: "('u, 'r) hooks \<Rightarrow> string \<Rightarrow> ('u, 'r) machine \<Rightarrow> ('u, 'r) machine" where
  "start_actor h initialStateId m = (case currentState (actor m) of
     Some s \<Rightarrow> m\<lparr>control := Return (Inl (InternalActorError ''Cannot start actor more than once'' [s]))\<rparr>
   | None \<Rightarrow> m\<lparr>actor := (actor m)\<lparr>currentState := Some initialStateId\<rparr>,
       stack := StartEntered # stack m,
       control := Code (onStateEntered h (StartContext initialStateId) (user m))\<rparr>)"

definition parkedSendEvent :: "actor_table \<Rightarrow> string \<Rightarrow> ('u, 'r) machine \<Rightarrow> ('u, 'r) machine" where
  "parkedSendEvent states name m = (case currentState (actor m) of
     None \<Rightarrow> m\<lparr>control := Return (Inl
       (InternalActorError ''Cannot send parked event before actor start'' []))\<rparr>
   | Some s \<Rightarrow>
       (if \<not> state_parked states s then m\<lparr>control := Return (Inl
          (InternalActorError ''Cannot send parked event from non-parked state'' [s]))\<rparr>
        else (case sendEvent name (actor m) of
          Inl e \<Rightarrow> m\<lparr>control := Return (Inl e)\<rparr>
        | Inr a \<Rightarrow> ensureActorMain (m\<lparr>actor := a\<rparr>))))"

definition runTask :: "actor_table \<Rightarrow> ('u \<Rightarrow> ('u, 'r) script) \<Rightarrow> ('r \<Rightarrow> 'u \<Rightarrow> ('u, 'r) script) \<Rightarrow>
    (error \<Rightarrow> 'u \<Rightarrow> ('u, 'r) script) \<Rightarrow> ('u, 'r) machine \<Rightarrow> ('u, 'r) machine" where
  "runTask states body done failed m =
     (let here = (case currentState (actor m) of None \<Rightarrow> ''undefined'' | Some s \<Rightarrow> s);
          flagged = (\<lambda>flag. case currentState (actor m) of None \<Rightarrow> False | Some s \<Rightarrow> flag states s) in
      if flagged state_terminal then m\<lparr>control := Return (Inl
        (InternalActorError ''Cannot start task in terminal state'' [here]))\<rparr>
      else if flagged state_parked then m\<lparr>control := Return (Inl
        (InternalActorError ''Cannot start task in parked state'' [here]))\<rparr>
      else if actorTask (actor m) \<noteq> None then m\<lparr>control := Return (Inl
        (InternalActorError ''Actor already has a task'' [here]))\<rparr>
      else m\<lparr>stack := TaskStarted done failed # stack m, control := Code (body (user m))\<rparr>)"

definition install_task :: "('r \<Rightarrow> 'u \<Rightarrow> ('u, 'r) script) \<Rightarrow> (error \<Rightarrow> 'u \<Rightarrow> ('u, 'r) script) \<Rightarrow>
    error + answer \<Rightarrow> ('u, 'r) actor \<Rightarrow> ('u, 'r) actor" where
  "install_task done failed r a =
     a\<lparr>actorTask := Some \<lparr>task_serial = taskSerials a,
         threw = (case r of Inl e \<Rightarrow> Some e | Inr _ \<Rightarrow> None), onDone = done, onFailed = failed\<rparr>,
       taskSerials := Suc (taskSerials a)\<rparr>"

fun perform_request :: "('u, 'r) hooks \<Rightarrow> string \<Rightarrow> actor_table \<Rightarrow> ('u, 'r) request \<Rightarrow>
    ('u, 'r) machine \<Rightarrow> ('u, 'r) machine" where
  "perform_request h i states GetState m = m\<lparr>control := Return (case currentState (actor m) of
     None \<Rightarrow> Inl (InternalActorError ''Cannot read actor state before start'' [])
   | Some s \<Rightarrow> Inr (StateName s))\<rparr>"
| "perform_request h i states Start m = start_actor h i m"
| "perform_request h i states (SendEvent name) m = (case sendEvent name (actor m) of
     Inl e \<Rightarrow> m\<lparr>control := Return (Inl e)\<rparr>
   | Inr a \<Rightarrow> m\<lparr>actor := a, control := Return (Inr Void)\<rparr>)"
| "perform_request h i states (ParkedSendEvent name) m = parkedSendEvent states name m"
| "perform_request h i states (RunTask body done failed) m = runTask states body done failed m"
| "perform_request h i states AwaitLifecycleSettlement m =
     m\<lparr>actor := awaitLifecycleSettlement (actor m),
       control := Return (Inr (Promised (length (promises (actor m)))))\<rparr>"
| "perform_request h i states StopAfterCurrentTask m =
     m\<lparr>actor := (actor m)\<lparr>stopAfter := True\<rparr>, control := Return (Inr Void)\<rparr>"

section \<open>The main loop\<close>

definition dispatchEvent :: "('u, 'r) hooks \<Rightarrow> actor_table \<Rightarrow> string \<Rightarrow>
    ('u, 'r) machine \<Rightarrow> ('u, 'r) machine" where
  "dispatchEvent h states eventName m = (case currentState (actor m) of
     None \<Rightarrow> m\<lparr>control := Return (Inl (PlainError ''TypeError'' []))\<rparr>
   | Some s \<Rightarrow> (case map_of states s of
       None \<Rightarrow> m\<lparr>control := Return (Inl (PlainError ''TypeError'' []))\<rparr>
     | Some stateDef \<Rightarrow> (case map_of (on stateDef) eventName of
         None \<Rightarrow>
           (if \<not> isTerminal stateDef then m\<lparr>control := Return (Inl (InternalActorError
              ''Actor event has no transition from non-terminal state'' [eventName, s]))\<rparr>
            else m\<lparr>control := Return (Inr Void)\<rparr>)
       | Some transition \<Rightarrow>
           (if targetStateId transition = s \<and> \<not> reenter transition
            then m\<lparr>control := Return (Inr Void)\<rparr>
            else
              let context = TransitionContext s eventName (targetStateId transition) (reenter transition)
              in m\<lparr>actor := (actor m)\<lparr>currentState := Some (targetStateId transition)\<rparr>,
                   stack := Entering context # stack m,
                   control := Code (onTransition h context (user m))\<rparr>))))"

text \<open>
  One pass of the loop; \<open>MainLoop\<close> is the top frame. Leaving the loop pops it: the
  \<open>finally\<close> clause runs when the function returns, and not when it suspends.
\<close>

definition leave_main :: "('u, 'r) machine \<Rightarrow> ('u, 'r) machine" where
  "leave_main m = m\<lparr>actor := (actor m)\<lparr>actorMainRunning := False\<rparr>, stack := tl (stack m),
     control := Return (Inr Void)\<rparr>"

definition main_pass :: "('u, 'r) hooks \<Rightarrow> actor_table \<Rightarrow> ('u, 'r) machine \<Rightarrow> ('u, 'r) machine" where
  "main_pass h states m =
     (let a = actor m;
          flagged = (\<lambda>flag. case currentState a of None \<Rightarrow> False | Some s \<Rightarrow> flag states s) in
      case nextEvent a of
        Some (name, sequence) \<Rightarrow>
          dispatchEvent h states name
            (m\<lparr>actor := a\<lparr>nextEvent := None\<rparr>, stack := Dispatched sequence # stack m\<rparr>)
      | None \<Rightarrow>
          (if stopAfter a \<and> actorTask a = None then leave_main m
           else if flagged state_terminal then leave_main m
           else if flagged state_parked then leave_main m
           else (case actorTask a of
             None \<Rightarrow> m\<lparr>control := Return (Inl (InternalActorError
               ''Actor stuck with no pending tasks or events''
               [case currentState a of None \<Rightarrow> ''undefined'' | Some s \<Rightarrow> s]))\<rparr>
           | Some t \<Rightarrow> m\<lparr>awaited := Some t, stack := tl (stack m), control := Return (Inr Void)\<rparr>)))"

text \<open>What a frame does with the value or the exception that reaches it.\<close>

fun resume :: "('u, 'r) hooks \<Rightarrow> actor_table \<Rightarrow> error + answer \<Rightarrow> ('u, 'r) frame \<Rightarrow>
    ('u, 'r) frame list \<Rightarrow> ('u, 'r) machine \<Rightarrow> ('u, 'r) machine" where
  "resume h states r (Caller k) fs m = m\<lparr>stack := fs, control := Code (k r (user m))\<rparr>"
| "resume h states (Inr x) StartEntered fs m = ensureActorMain (m\<lparr>stack := fs\<rparr>)"
| "resume h states (Inl e) StartEntered fs m =
     m\<lparr>stack := StartFatal e # fs, control := Code (onFatalTaskError h e (user m))\<rparr>"
| "resume h states (Inr x) (StartFatal e) fs m = m\<lparr>stack := fs, control := Return (Inl e)\<rparr>"
| "resume h states (Inl e') (StartFatal e) fs m = m\<lparr>stack := fs, control := Return (Inl e')\<rparr>"
| "resume h states r (TaskStarted done failed) fs m =
     m\<lparr>actor := install_task done failed r (actor m), stack := fs, control := Return (Inr Void)\<rparr>"
| "resume h states (Inr x) (Entering c) fs m =
     m\<lparr>stack := fs, control := Code (onStateEntered h c (user m))\<rparr>"
| "resume h states (Inl e) (Entering c) fs m = m\<lparr>stack := fs, control := Return (Inl e)\<rparr>"
| "resume h states (Inr x) (Dispatched q) fs m =
     m\<lparr>actor := settleLifecycleWaiters ((actor m)\<lparr>settledEventSequence := q\<rparr>),
       stack := fs, control := Return (Inr Void)\<rparr>"
| "resume h states (Inl e) (Dispatched q) fs m =
     m\<lparr>actor := settleLifecycleWaiters (actor m), stack := fs, control := Return (Inl e)\<rparr>"
| "resume h states (Inr x) MainLoop fs m = main_pass h states m"
| "resume h states (Inl e) MainLoop fs m =
     m\<lparr>stack := MainFatal e # fs, control := Code (onFatalTaskError h e (user m))\<rparr>"
| "resume h states (Inr x) (MainFatal e) fs m =
     m\<lparr>actor := fail_main_loop e (actor m), stack := MainFailure # fs,
       control := Code (onActorMainFailure h e (user m))\<rparr>"
| "resume h states (Inl e') (MainFatal e) fs m = leave_main m"
| "resume h states r MainFailure fs m = leave_main m"

definition actor_step :: "('u, 'r) hooks \<Rightarrow> string \<Rightarrow> actor_table \<Rightarrow>
    ('u, 'r) machine \<Rightarrow> ('u, 'r) machine option" where
  "actor_step h i states m = (case control m of
     Code (Finish u) \<Rightarrow> Some (m\<lparr>user := u, control := Return (Inr Void)\<rparr>)
   | Code (Throw e u) \<Rightarrow> Some (m\<lparr>user := u, control := Return (Inl e)\<rparr>)
   | Code (Call q u k) \<Rightarrow>
       Some (perform_request h i states q (m\<lparr>user := u, stack := Caller k # stack m\<rparr>))
   | Return r \<Rightarrow> (case stack m of [] \<Rightarrow> None | f # fs \<Rightarrow> Some (resume h states r f fs m)))"

text \<open>The awaited promise settles: the main loop goes on with the callback.\<close>

definition deliver :: "error + 'r \<Rightarrow> ('u, 'r) actor_task \<Rightarrow> ('u, 'r) machine \<Rightarrow> ('u, 'r) machine" where
  "deliver result t m =
     (if map_option task_serial (actorTask (actor m)) \<noteq> Some (task_serial t)
      then m\<lparr>awaited := None, stack := [MainLoop], control := Return (Inl (InternalActorError
        ''Actor task slot changed before callback delivery'' []))\<rparr>
      else m\<lparr>actor := (actor m)\<lparr>actorTask := None\<rparr>, awaited := None, stack := [MainLoop],
        control := Code (case result of Inr x \<Rightarrow> onDone t x (user m)
                         | Inl e \<Rightarrow> onFailed t e (user m))\<rparr>)"

section \<open>Runs\<close>

definition new_actor :: "('u, 'r) actor" where
  "new_actor = \<lparr>currentState = None, nextEvent = None, queuedEventSequence = 0,
     settledEventSequence = 0, eventSettlementWaiters = [], actorTask = None,
     actorMainRunning = False, mainLoopFailed = False, mainLoopFailure = None,
     stopAfter = False, taskSerials = 0, promises = []\<rparr>"

definition idle :: "('u, 'r) machine \<Rightarrow> bool" where
  "idle m \<longleftrightarrow> stack m = [] \<and> (\<exists>r. control m = Return r)"

definition new_machine :: "'u \<Rightarrow> ('u, 'r) machine" where
  "new_machine u = \<lparr>actor = new_actor, user = u, control = Return (Inr Void), stack = [],
     awaited = None\<rparr>"

text \<open>
  The actor computes, the outside calls a method of the subclass, or the awaited task
  settles (a body that threw at once settles with that error).
\<close>

inductive actor_moves :: "('u, 'r) hooks \<Rightarrow> string \<Rightarrow> actor_table \<Rightarrow>
    ('u, 'r) machine \<Rightarrow> ('u, 'r) machine \<Rightarrow> bool"
  for h i states where
  computes: "actor_step h i states m = Some m' \<Longrightarrow> actor_moves h i states m m'"
| called: "idle m \<Longrightarrow> actor_moves h i states m (m\<lparr>control := Code s\<rparr>)"
| settles: "idle m \<Longrightarrow> awaited m = Some t \<Longrightarrow>
    (\<forall>e. threw t = Some e \<longrightarrow> result = Inl e) \<Longrightarrow> actor_moves h i states m (deliver result t m)"

inductive actor_runs :: "('u, 'r) hooks \<Rightarrow> string \<Rightarrow> actor_table \<Rightarrow>
    ('u, 'r) machine \<Rightarrow> ('u, 'r) machine \<Rightarrow> bool"
  for h i states m where
  here: "actor_runs h i states m m"
| further: "actor_runs h i states m m' \<Longrightarrow> actor_moves h i states m' m'' \<Longrightarrow>
    actor_runs h i states m m''"

inductive_cases actor_movesE: "actor_moves h i states m m'"

end
