(* ===== verification/MicroActorLaws.thy ===== *)
theory MicroActorLaws
  imports MicroActor
begin

text \<open>
  The invariant of the micro actors: at most one main loop is on the stack or suspended, and
  the running flag says whether there is one; the sequence numbers of queued, dispatched and
  settled events are in order; the pending promises are exactly those of the waiters; a
  failed actor has no main loop and no waiter. One lemma per way an operation changes the
  actor and its stack, then preservation by every move.
\<close>

section \<open>The shape of the stack\<close>

fun is_loop :: "('u, 'r) frame \<Rightarrow> bool" where
  "is_loop MainLoop = True"
| "is_loop (MainFatal e) = True"
| "is_loop MainFailure = True"
| "is_loop f = False"

fun plain :: "('u, 'r) frame \<Rightarrow> bool" where
  "plain (Caller k) = True"
| "plain StartEntered = True"
| "plain (StartFatal e) = True"
| "plain (TaskStarted d f) = True"
| "plain f = False"

definition loops :: "('u, 'r) frame list \<Rightarrow> nat" where
  "loops fs = length (filter is_loop fs)"

fun stacked :: "('u, 'r) frame list \<Rightarrow> bool" where
  "stacked [] = True"
| "stacked (Entering c # fs) = ((case fs of Dispatched q # _ \<Rightarrow> True | _ \<Rightarrow> False) \<and> stacked fs)"
| "stacked (Dispatched q # fs) = ((case fs of MainLoop # _ \<Rightarrow> True | _ \<Rightarrow> False) \<and> stacked fs)"
| "stacked (f # fs) = stacked fs"

lemma loops_simps [simp]:
  "loops [] = 0"
  "loops (f # fs) = (if is_loop f then Suc (loops fs) else loops fs)"
  by (simp_all add: loops_def)

lemma stacked_plain [simp]: "plain f \<or> is_loop f \<Longrightarrow> stacked (f # fs) = stacked fs"
  by (cases f) auto

lemma plain_not_loop [simp]: "plain f \<Longrightarrow> \<not> is_loop f"
  by (cases f) auto

lemma no_loops: "loops fs = 0 \<longleftrightarrow> (\<forall>f \<in> set fs. \<not> is_loop f)"
  by (auto simp: loops_def filter_empty_conv)

lemma no_loop_no_dispatch:
  assumes "stacked fs" and "loops fs = 0"
  shows "Dispatched q \<notin> set fs"
  using assms by (induction fs rule: stacked.induct) (auto split: list.splits frame.splits if_splits)

section \<open>Promises\<close>

definition settled_with :: "error + unit \<Rightarrow> nat set \<Rightarrow> (error + unit) option list \<Rightarrow>
    (error + unit) option list" where
  "settled_with outcome ps xs =
     map (\<lambda>p. if p \<in> ps then Some outcome else xs ! p) [0..<length xs]"

lemma settled_with_empty [simp]: "settled_with outcome {} xs = xs"
  by (simp add: settled_with_def map_nth)

lemma settled_with_length [simp]: "length (settled_with outcome ps xs) = length xs"
  by (simp add: settled_with_def)

lemma settled_with_nth [simp]:
  "p < length xs \<Longrightarrow> settled_with outcome ps xs ! p = (if p \<in> ps then Some outcome else xs ! p)"
  by (simp add: settled_with_def)

lemma settled_with_update:
  "settled_with outcome ps (xs[q := Some outcome]) = settled_with outcome (insert q ps) xs"
  by (rule nth_equalityI) (auto simp: nth_list_update)

definition pending :: "(error + unit) option list \<Rightarrow> nat set" where
  "pending xs = {p. p < length xs \<and> xs ! p = None}"

lemma pending_settled_with [simp]: "pending (settled_with outcome ps xs) = pending xs - ps"
  by (auto simp: pending_def split: if_splits)

lemma pending_snoc [simp]:
  "pending (xs @ [Some r]) = pending xs" "pending (xs @ [None]) = insert (length xs) (pending xs)"
  by (auto simp: pending_def nth_append less_Suc_eq)

lemma resolve_all:
  "List.fold (resolve_promise outcome) ws a =
    a\<lparr>promises := settled_with outcome (waiter_promise ` set ws) (promises a)\<rparr>"
proof (induction ws arbitrary: a)
  case (Cons w ws)
  then show ?case by (simp add: resolve_promise_def settled_with_update)
qed simp

lemma settleLifecycleWaiters_run:
  "settleLifecycleWaiters a = a\<lparr>
     eventSettlementWaiters :=
       filter (\<lambda>w. settledEventSequence a < waiter_sequence w) (eventSettlementWaiters a),
     promises := settled_with (Inr ()) (waiter_promise `
       {w \<in> set (eventSettlementWaiters a). waiter_sequence w \<le> settledEventSequence a}) (promises a)\<rparr>"
  by (simp add: settleLifecycleWaiters_def resolve_all not_le Let_def)

lemma fail_main_loop_run:
  "fail_main_loop e a = a\<lparr>mainLoopFailed := True, mainLoopFailure := Some e,
     eventSettlementWaiters := [],
     promises := settled_with (Inl e) (waiter_promise ` set (eventSettlementWaiters a)) (promises a)\<rparr>"
  by (simp add: fail_main_loop_def resolve_all)

section \<open>The invariant\<close>

definition waiters_ok :: "('u, 'r) actor \<Rightarrow> bool" where
  "waiters_ok a \<longleftrightarrow>
     (\<forall>w \<in> set (eventSettlementWaiters a).
        settledEventSequence a < waiter_sequence w \<and> waiter_sequence w \<le> queuedEventSequence a) \<and>
     distinct (map waiter_promise (eventSettlementWaiters a)) \<and>
     waiter_promise ` set (eventSettlementWaiters a) = pending (promises a)"

definition events_ok :: "('u, 'r) actor \<Rightarrow> ('u, 'r) frame list \<Rightarrow> bool" where
  "events_ok a fs \<longleftrightarrow>
     settledEventSequence a \<le> queuedEventSequence a \<and>
     (\<forall>name k. nextEvent a = Some (name, k) \<longrightarrow>
        k = queuedEventSequence a \<and> settledEventSequence a < k) \<and>
     (\<forall>q. Dispatched q \<in> set fs \<longrightarrow> settledEventSequence a < q \<and> q \<le> queuedEventSequence a \<and>
        (\<forall>name k. nextEvent a = Some (name, k) \<longrightarrow> q < k))"

definition loop_ok :: "('u, 'r) actor \<Rightarrow> ('u, 'r) frame list \<Rightarrow> ('u, 'r) actor_task option \<Rightarrow> bool" where
  "loop_ok a fs w \<longleftrightarrow>
     stacked fs \<and>
     loops fs + (if w = None then 0 else 1) = (if actorMainRunning a then 1 else 0) \<and>
     (actorMainRunning a \<longrightarrow> currentState a \<noteq> None) \<and>
     (mainLoopFailed a \<longrightarrow> w = None \<and> MainLoop \<notin> set fs \<and> (\<forall>e. MainFatal e \<notin> set fs) \<and>
        eventSettlementWaiters a = [] \<and> mainLoopFailure a \<noteq> None \<and> currentState a \<noteq> None)"

definition actor_ok :: "actor_table \<Rightarrow> ('u, 'r) machine \<Rightarrow> bool" where
  "actor_ok states m \<longleftrightarrow>
     waiters_ok (actor m) \<and> events_ok (actor m) (stack m) \<and>
     loop_ok (actor m) (stack m) (awaited m) \<and>
     (\<forall>s. currentState (actor m) = Some s \<longrightarrow> s \<in> dom (map_of states)) \<and>
     (StartEntered \<in> set (stack m) \<longrightarrow> currentState (actor m) \<noteq> None)"

lemmas actor_ok_defs = actor_ok_def waiters_ok_def events_ok_def loop_ok_def

text \<open>The fields the invariant does not read.\<close>

lemma actor_ok_frame [simp]:
  "actor_ok states (m\<lparr>control := c\<rparr>) = actor_ok states m"
  "actor_ok states (m\<lparr>user := u\<rparr>) = actor_ok states m"
  "waiters_ok (a\<lparr>actorTask := t\<rparr>) = waiters_ok a"
  "waiters_ok (a\<lparr>taskSerials := n\<rparr>) = waiters_ok a"
  "waiters_ok (a\<lparr>stopAfter := b\<rparr>) = waiters_ok a"
  "waiters_ok (a\<lparr>actorMainRunning := b\<rparr>) = waiters_ok a"
  "waiters_ok (a\<lparr>currentState := s\<rparr>) = waiters_ok a"
  "waiters_ok (a\<lparr>nextEvent := ev\<rparr>) = waiters_ok a"
  "events_ok (a\<lparr>actorTask := t\<rparr>) fs = events_ok a fs"
  "events_ok (a\<lparr>taskSerials := n\<rparr>) fs = events_ok a fs"
  "events_ok (a\<lparr>stopAfter := b\<rparr>) fs = events_ok a fs"
  "events_ok (a\<lparr>actorMainRunning := b\<rparr>) fs = events_ok a fs"
  "events_ok (a\<lparr>currentState := s\<rparr>) fs = events_ok a fs"
  "loop_ok (a\<lparr>actorTask := t\<rparr>) fs w = loop_ok a fs w"
  "loop_ok (a\<lparr>taskSerials := n\<rparr>) fs w = loop_ok a fs w"
  "loop_ok (a\<lparr>stopAfter := b\<rparr>) fs w = loop_ok a fs w"
  "loop_ok (a\<lparr>nextEvent := ev\<rparr>) fs w = loop_ok a fs w"
  by (simp_all add: actor_ok_defs)

lemma actor_ok_plain [simp]:
  assumes "plain f"
  shows "events_ok a (f # fs) = events_ok a fs" and "loop_ok a (f # fs) w = loop_ok a fs w"
  using assms by (cases f; auto simp: events_ok_def loop_ok_def)+

section \<open>The invariant under the steps of the code\<close>

lemma sendEvent_ok:
  assumes "sendEvent name a = Inr a'"
    and "waiters_ok a" and "events_ok a fs" and "loop_ok a fs w"
  shows "waiters_ok a'" and "events_ok a' fs" and "loop_ok a' fs w"
  using assms
  by (auto simp: sendEvent_def waiters_ok_def events_ok_def loop_ok_def split: option.splits;
      fastforce)+

lemma sendEvent_state:
  "sendEvent name a = Inr a' \<Longrightarrow> currentState a' = currentState a"
  by (auto simp: sendEvent_def split: option.splits)

lemma await_state [simp]: "currentState (awaitLifecycleSettlement a) = currentState a"
  by (simp add: awaitLifecycleSettlement_def)

lemma settle_state [simp]: "currentState (settleLifecycleWaiters a) = currentState a"
  by (simp add: settleLifecycleWaiters_run)

lemma fail_state [simp]: "currentState (fail_main_loop e a) = currentState a"
  by (simp add: fail_main_loop_run)

lemma await_ok:
  assumes "waiters_ok a" and "events_ok a fs" and "loop_ok a fs w"
  shows "waiters_ok (awaitLifecycleSettlement a)"
    and "events_ok (awaitLifecycleSettlement a) fs"
    and "loop_ok (awaitLifecycleSettlement a) fs w"
proof -
  show "events_ok (awaitLifecycleSettlement a) fs" "loop_ok (awaitLifecycleSettlement a) fs w"
    using assms by (auto simp: awaitLifecycleSettlement_def events_ok_def loop_ok_def)
  show "waiters_ok (awaitLifecycleSettlement a)"
    using assms
    by (auto simp: awaitLifecycleSettlement_def waiters_ok_def loop_ok_def)
      (auto simp: pending_def set_eq_iff image_iff)
qed

text \<open>Entering, suspending, resuming and leaving the main loop.\<close>

lemma enter_loop_ok:
  assumes "events_ok a fs" and "loop_ok a fs w" and "\<not> actorMainRunning a" and "\<not> mainLoopFailed a"
    and "currentState a \<noteq> None"
  shows "events_ok a (MainLoop # fs)" and "loop_ok (a\<lparr>actorMainRunning := True\<rparr>) (MainLoop # fs) w"
  using assms by (auto simp: events_ok_def loop_ok_def split: if_splits)

lemma leave_loop_ok:
  assumes "events_ok a (f # fs)" and "loop_ok a (f # fs) w" and "is_loop f"
  shows "events_ok a fs" and "loop_ok (a\<lparr>actorMainRunning := False\<rparr>) fs w"
  using assms by (auto simp: events_ok_def loop_ok_def split: if_splits)

lemma suspend_ok:
  assumes "events_ok a (MainLoop # fs)" and "loop_ok a (MainLoop # fs) w"
  shows "events_ok a fs" and "loop_ok a fs (Some t)"
  using assms by (auto simp: events_ok_def loop_ok_def split: if_splits)

lemma awake_ok:
  assumes "events_ok a []" and "loop_ok a [] (Some t)"
  shows "events_ok a [MainLoop]" and "loop_ok a [MainLoop] None"
  using assms by (auto simp: events_ok_def loop_ok_def split: if_splits)

lemma take_event_ok:
  assumes "events_ok a (MainLoop # fs)" and "loop_ok a (MainLoop # fs) w"
    and "nextEvent a = Some (name, k)"
  shows "events_ok (a\<lparr>nextEvent := None\<rparr>) (Dispatched k # MainLoop # fs)"
    and "loop_ok a (Dispatched k # MainLoop # fs) w"
proof -
  have "stacked fs" and "loops fs = 0"
    using assms(2) by (auto simp: loop_ok_def split: if_splits)
  then have "\<And>q. Dispatched q \<notin> set fs" by (rule no_loop_no_dispatch)
  then show "events_ok (a\<lparr>nextEvent := None\<rparr>) (Dispatched k # MainLoop # fs)"
    using assms(1,3) by (auto simp: events_ok_def)
  show "loop_ok a (Dispatched k # MainLoop # fs) w"
    using assms(2) by (auto simp: loop_ok_def)
qed

lemma entering_ok:
  assumes "events_ok a (Dispatched q # fs)" and "loop_ok a (Dispatched q # fs) w"
  shows "events_ok a (Entering c # Dispatched q # fs)"
    and "loop_ok (a\<lparr>currentState := Some t\<rparr>) (Entering c # Dispatched q # fs) w"
  using assms by (auto simp: events_ok_def loop_ok_def)

lemma entered_ok:
  assumes "events_ok a (Entering c # fs)" and "loop_ok a (Entering c # fs) w"
  shows "events_ok a fs" and "loop_ok a fs w"
  using assms by (auto simp: events_ok_def loop_ok_def)

lemma settle_ok:
  assumes "waiters_ok a" and "settledEventSequence a \<le> q"
  shows "waiters_ok (settleLifecycleWaiters (a\<lparr>settledEventSequence := q\<rparr>))"
proof -
  let ?W = "set (eventSettlementWaiters a)" and ?due = "\<lambda>w. waiter_sequence w \<le> q"
  have inj: "inj_on waiter_promise ?W"
    using assms(1) by (simp add: waiters_ok_def distinct_map)
  have "waiter_promise ` {w \<in> ?W. q < waiter_sequence w} = waiter_promise ` (?W - {w \<in> ?W. ?due w})"
    by (rule arg_cong [where f = "image waiter_promise"]) auto
  also have "\<dots> = waiter_promise ` ?W - waiter_promise ` {w \<in> ?W. ?due w}"
    by (rule inj_on_image_set_diff [OF inj]) auto
  finally show ?thesis
    using assms by (simp add: settleLifecycleWaiters_run waiters_ok_def distinct_map_filter)
qed

lemma dispatched_ok:
  assumes "waiters_ok a" and "events_ok a (Dispatched q # fs)" and "loop_ok a (Dispatched q # fs) w"
  shows "waiters_ok (settleLifecycleWaiters (a\<lparr>settledEventSequence := q\<rparr>))"
    and "events_ok (settleLifecycleWaiters (a\<lparr>settledEventSequence := q\<rparr>)) fs"
    and "loop_ok (settleLifecycleWaiters (a\<lparr>settledEventSequence := q\<rparr>)) fs w"
proof -
  show "waiters_ok (settleLifecycleWaiters (a\<lparr>settledEventSequence := q\<rparr>))"
    using assms by (intro settle_ok) (auto simp: events_ok_def)
  obtain gs where fs: "fs = MainLoop # gs"
    using assms(3) by (auto simp: loop_ok_def split: list.splits frame.splits)
  with assms(3) have "stacked gs" and "loops gs = 0"
    by (auto simp: loop_ok_def split: if_splits)
  then have "\<And>r. Dispatched r \<notin> set gs" by (rule no_loop_no_dispatch)
  then show "events_ok (settleLifecycleWaiters (a\<lparr>settledEventSequence := q\<rparr>)) fs"
    using assms(2) fs by (auto simp: settleLifecycleWaiters_run events_ok_def)
  show "loop_ok (settleLifecycleWaiters (a\<lparr>settledEventSequence := q\<rparr>)) fs w"
    using assms(3) fs by (auto simp: settleLifecycleWaiters_run loop_ok_def)
qed

lemma nothing_due:
  assumes "waiters_ok a"
  shows "settleLifecycleWaiters a = a"
proof -
  have "filter (\<lambda>w. settledEventSequence a < waiter_sequence w) (eventSettlementWaiters a) =
      eventSettlementWaiters a"
    and "{w \<in> set (eventSettlementWaiters a). waiter_sequence w \<le> settledEventSequence a} = {}"
    using assms by (auto simp: waiters_ok_def intro!: filter_True)
  then show ?thesis by (simp add: settleLifecycleWaiters_run del: Collect_empty_eq)
qed

lemma undispatched_ok:
  assumes "events_ok a (Dispatched q # fs)" and "loop_ok a (Dispatched q # fs) w"
  shows "events_ok a fs" and "loop_ok a fs w"
  using assms by (auto simp: events_ok_def loop_ok_def)

lemma caught_ok:
  assumes "events_ok a (MainLoop # fs)" and "loop_ok a (MainLoop # fs) w"
  shows "events_ok a (MainFatal e # fs)" and "loop_ok a (MainFatal e # fs) w"
  using assms by (auto simp: events_ok_def loop_ok_def)

lemma failed_ok:
  assumes "waiters_ok a" and "events_ok a (MainFatal e # fs)" and "loop_ok a (MainFatal e # fs) w"
  shows "waiters_ok (fail_main_loop e a)"
    and "events_ok (fail_main_loop e a) (MainFailure # fs)"
    and "loop_ok (fail_main_loop e a) (MainFailure # fs) w"
proof -
  show "waiters_ok (fail_main_loop e a)"
    using assms(1) by (simp add: fail_main_loop_run waiters_ok_def)
  show "events_ok (fail_main_loop e a) (MainFailure # fs)"
    using assms(2) by (auto simp: fail_main_loop_run events_ok_def)
  have "loops fs = 0" using assms(3) by (auto simp: loop_ok_def split: if_splits)
  then have "\<forall>f \<in> set fs. \<not> is_loop f" by (simp add: no_loops)
  then have "MainLoop \<notin> set fs" and "\<And>e. MainFatal e \<notin> set fs" by fastforce+
  then show "loop_ok (fail_main_loop e a) (MainFailure # fs) w"
    using assms(3) by (auto simp: fail_main_loop_run loop_ok_def split: if_splits)
qed

section \<open>Every move keeps the invariant\<close>

lemma ensureActorMain_ok:
  assumes "actor_ok states m" and "currentState (actor m) \<noteq> None"
  shows "actor_ok states (ensureActorMain m)"
  using assms
  by (auto simp: ensureActorMain_def actor_ok_def intro: enter_loop_ok)

lemma start_actor_ok:
  assumes "validateCompiledActorTable i states = Inr ()" and "actor_ok states m"
  shows "actor_ok states (start_actor h i m)"
proof (cases "currentState (actor m)")
  case None
  with assms(2) have "loop_ok ((actor m)\<lparr>currentState := Some i\<rparr>) (stack m) (awaited m)"
    by (auto simp: actor_ok_def loop_ok_def)
  with None assms validated_initial [OF assms(1)] show ?thesis
    by (simp add: start_actor_def actor_ok_def)
qed (use assms in \<open>simp add: start_actor_def\<close>)

lemma parkedSendEvent_ok:
  assumes "actor_ok states m"
  shows "actor_ok states (parkedSendEvent states name m)"
proof (cases "\<exists>s a. currentState (actor m) = Some s \<and> state_parked states s \<and>
    sendEvent name (actor m) = Inr a")
  case True
  then obtain s a where at: "currentState (actor m) = Some s" "state_parked states s"
      "sendEvent name (actor m) = Inr a" by blast
  have "actor_ok states (m\<lparr>actor := a\<rparr>)"
    using assms sendEvent_ok [OF at(3), of "stack m" "awaited m"] sendEvent_state [OF at(3)]
    by (simp add: actor_ok_def)
  moreover have "currentState a \<noteq> None" using at sendEvent_state [OF at(3)] by simp
  ultimately show ?thesis using at ensureActorMain_ok [of states "m\<lparr>actor := a\<rparr>"]
    by (simp add: parkedSendEvent_def)
next
  case False
  with assms show ?thesis
    by (auto simp: parkedSendEvent_def split: option.splits sum.splits)
qed

lemma perform_request_ok:
  assumes "validateCompiledActorTable i states = Inr ()" and "actor_ok states m"
  shows "actor_ok states (perform_request h i states q m)"
proof (cases q)
  case (SendEvent name)
  with assms(2) show ?thesis
    by (auto simp: actor_ok_def sendEvent_ok sendEvent_state split: sum.splits)
next
  case (RunTask body onDone onFailed)
  with assms(2) show ?thesis by (auto simp: runTask_def actor_ok_def Let_def)
next
  case AwaitLifecycleSettlement
  with assms(2) show ?thesis by (auto simp: actor_ok_def await_ok)
next
  case StopAfterCurrentTask
  with assms(2) show ?thesis by (simp add: actor_ok_def)
qed (use assms in \<open>auto simp: start_actor_ok parkedSendEvent_ok\<close>)

lemma dispatchEvent_ok:
  assumes valid: "validateCompiledActorTable i states = Inr ()"
    and ok: "actor_ok states m" and top: "stack m = Dispatched q # fs"
  shows "actor_ok states (dispatchEvent h states name m)"
proof (cases "\<exists>s d tr. currentState (actor m) = Some s \<and> map_of states s = Some d \<and>
    map_of (on d) name = Some tr \<and> \<not> (targetStateId tr = s \<and> \<not> reenter tr)")
  case True
  then obtain s d tr where at: "currentState (actor m) = Some s" "map_of states s = Some d"
      "map_of (on d) name = Some tr" "\<not> (targetStateId tr = s \<and> \<not> reenter tr)" by blast
  with ok top validated_target(1) [OF valid at(2,3)] show ?thesis
    by (auto simp: dispatchEvent_def actor_ok_def Let_def intro!: entering_ok)
next
  case False
  with ok show ?thesis by (auto simp: dispatchEvent_def split: option.splits)
qed

lemma leave_main_ok:
  assumes "actor_ok states m" and "stack m = f # fs" and "is_loop f"
  shows "actor_ok states (leave_main m)"
  using assms by (auto simp: leave_main_def actor_ok_def intro: leave_loop_ok)

lemma main_pass_ok:
  assumes valid: "validateCompiledActorTable i states = Inr ()"
    and ok: "actor_ok states m" and top: "stack m = MainLoop # fs"
  shows "actor_ok states (main_pass h states m)"
proof (cases "nextEvent (actor m)")
  case (Some ev)
  obtain name k where ev: "ev = (name, k)" by (rule prod.exhaust)
  have "actor_ok states (m\<lparr>actor := (actor m)\<lparr>nextEvent := None\<rparr>, stack := Dispatched k # stack m\<rparr>)"
    using ok top Some ev take_event_ok [of "actor m" fs "awaited m" name k] by (auto simp: actor_ok_def)
  then have "actor_ok states (dispatchEvent h states name
      (m\<lparr>actor := (actor m)\<lparr>nextEvent := None\<rparr>, stack := Dispatched k # stack m\<rparr>))"
    by (rule dispatchEvent_ok [OF valid]) simp
  then show ?thesis using Some ev by (simp add: main_pass_def)
next
  case None
  have suspended: "actor_ok states (m\<lparr>awaited := Some t, stack := fs, control := c\<rparr>)" for t c
    using ok top suspend_ok [of "actor m" fs "awaited m"] by (auto simp: actor_ok_def)
  show ?thesis
    using None ok top leave_main_ok [OF ok top] suspended
    by (auto simp: main_pass_def Let_def split: option.splits)
qed

lemma resume_ok:
  assumes valid: "validateCompiledActorTable i states = Inr ()"
    and ok: "actor_ok states m" and top: "stack m = f # fs"
  shows "actor_ok states (resume h states r f fs m)"
proof -
  have popped: "actor_ok states (m\<lparr>stack := fs\<rparr>)" if "plain f"
    using ok top that by (auto simp: actor_ok_def)
  consider (plain) "plain f" "f \<noteq> StartEntered" | (started) "f = StartEntered" | (entering) c where "f = Entering c" | (dispatched) q where "f = Dispatched q"
    | (loop) "f = MainLoop" | (fatal) e where "f = MainFatal e" | (failure) "f = MainFailure"
    by (cases f) auto
  then show ?thesis
  proof cases
    case plain
    with ok top popped show ?thesis
      by (cases f; cases r) (auto simp: actor_ok_def install_task_def)
  next
    case started
    have "actor_ok states (ensureActorMain (m\<lparr>stack := fs\<rparr>))"
      using ok top popped started by (intro ensureActorMain_ok) (auto simp: actor_ok_def)
    with started ok top show ?thesis by (cases r) (auto simp: actor_ok_def)
  next
    case entering
    with ok top show ?thesis by (cases r) (auto simp: actor_ok_def intro: entered_ok)
  next
    case dispatched
    with ok top show ?thesis
      by (cases r) (auto simp: actor_ok_def nothing_due dispatched_ok undispatched_ok)
  next
    case loop
    have "actor_ok states (m\<lparr>stack := MainFatal e # fs\<rparr>)" for e
      using ok top loop by (auto simp: actor_ok_def intro: caught_ok)
    then show ?thesis
      using loop top main_pass_ok [OF valid ok] by (cases r) (simp_all add: actor_ok_def)
  next
    case fatal
    with ok top leave_main_ok [OF ok top] show ?thesis
      by (cases r) (auto simp: actor_ok_def failed_ok)
  next
    case failure
    with leave_main_ok [OF ok top] show ?thesis by simp
  qed
qed


lemma actor_step_ok:
  assumes "validateCompiledActorTable i states = Inr ()" and "actor_ok states m"
    and "actor_step h i states m = Some m'"
  shows "actor_ok states m'"
proof -
  have "actor_ok states (m\<lparr>user := u, stack := Caller k # stack m\<rparr>)" for u k
    using assms(2) by (simp add: actor_ok_def)
  then show ?thesis
    using assms(2,3)
    by (auto simp: actor_step_def perform_request_ok [OF assms(1)] resume_ok [OF assms(1)]
        split: control.splits script.splits list.splits)
qed

lemma deliver_ok:
  assumes "actor_ok states m" and "idle m" and "awaited m = Some t"
  shows "actor_ok states (deliver result t m)"
  using assms awake_ok [of "actor m" t] by (auto simp: deliver_def actor_ok_def idle_def)

lemma actor_moves_ok:
  assumes "validateCompiledActorTable i states = Inr ()" and "actor_ok states m"
    and "actor_moves h i states m m'"
  shows "actor_ok states m'"
  using assms(3) by cases (use assms in \<open>auto simp: actor_step_ok deliver_ok\<close>)

lemma new_machine_ok: "actor_ok states (new_machine u)"
  by (simp add: new_machine_def new_actor_def actor_ok_defs pending_def)

lemma actor_runs_ok:
  assumes "actor_runs h i states m m'" and "validateCompiledActorTable i states = Inr ()"
    and "actor_ok states m"
  shows "actor_ok states m'"
  using assms by induction (auto intro: actor_moves_ok)


section \<open>How the state moves\<close>

definition takes_transition :: "actor_table \<Rightarrow> ('u, 'r) actor \<Rightarrow> ('u, 'r) actor \<Rightarrow> bool" where
  "takes_transition states a a' \<longleftrightarrow>
     (\<exists>s d name k tr. currentState a = Some s \<and> map_of states s = Some d \<and>
        nextEvent a = Some (name, k) \<and> map_of (on d) name = Some tr \<and>
        nextEvent a' = None \<and> currentState a' = Some (targetStateId tr))"

lemma ensureActorMain_frame [simp]:
  "currentState (actor (ensureActorMain m)) = currentState (actor m)"
  "mainLoopFailed (actor (ensureActorMain m)) = mainLoopFailed (actor m)"
  "mainLoopFailure (actor (ensureActorMain m)) = mainLoopFailure (actor m)"
  "settledEventSequence (actor (ensureActorMain m)) = settledEventSequence (actor m)"
  by (simp_all add: ensureActorMain_def)

lemma leave_main_frame [simp]:
  "currentState (actor (leave_main m)) = currentState (actor m)"
  "mainLoopFailed (actor (leave_main m)) = mainLoopFailed (actor m)"
  "mainLoopFailure (actor (leave_main m)) = mainLoopFailure (actor m)"
  "settledEventSequence (actor (leave_main m)) = settledEventSequence (actor m)"
  by (simp_all add: leave_main_def)

lemma sendEvent_frame:
  assumes "sendEvent name a = Inr a'"
  shows "currentState a' = currentState a" and "mainLoopFailed a' = mainLoopFailed a"
    and "mainLoopFailure a' = mainLoopFailure a"
    and "settledEventSequence a' = settledEventSequence a"
  using assms by (auto simp: sendEvent_def split: option.splits)

lemma perform_request_frame:
  shows "mainLoopFailed (actor (perform_request h i states q m)) = mainLoopFailed (actor m)"
    and "mainLoopFailure (actor (perform_request h i states q m)) = mainLoopFailure (actor m)"
    and "settledEventSequence (actor (perform_request h i states q m)) = settledEventSequence (actor m)"
    and "currentState (actor (perform_request h i states q m)) =
      (if q = Start \<and> currentState (actor m) = None then Some i else currentState (actor m))"
  by (cases q; auto simp: start_actor_def parkedSendEvent_def runTask_def sendEvent_frame Let_def
      awaitLifecycleSettlement_def split: option.splits sum.splits)+

lemma main_pass_state:
  "currentState (actor (main_pass h states m)) = currentState (actor m) \<or>
    takes_transition states (actor m) (actor (main_pass h states m))"
  by (auto simp: main_pass_def dispatchEvent_def takes_transition_def Let_def split: option.splits)

lemma resume_state:
  "currentState (actor (resume h states r f fs m)) = currentState (actor m) \<or>
    f = MainLoop \<and> takes_transition states (actor m) (actor (resume h states r f fs m))"
  using main_pass_state [of h states m]
  by (cases f; cases r) (auto simp: install_task_def)

lemma actor_moves_state:
  assumes "actor_moves h i states m m'"
  shows "currentState (actor m') = currentState (actor m) \<or>
    currentState (actor m) = None \<and> currentState (actor m') = Some i \<or>
    takes_transition states (actor m) (actor m')"
  using assms
proof cases
  case computes
  then show ?thesis
    using resume_state [of h states]
    by (auto simp: actor_step_def perform_request_frame
        split: control.splits script.splits list.splits if_splits)
qed (auto simp: deliver_def)

section \<open>After a failure\<close>

definition dead :: "('u, 'r) actor \<Rightarrow> ('u, 'r) actor \<Rightarrow> bool" where
  "dead a a' \<longleftrightarrow> mainLoopFailed a' \<and> mainLoopFailure a' = mainLoopFailure a \<and>
     currentState a' = currentState a \<and> settledEventSequence a' = settledEventSequence a"

lemma resume_dead:
  assumes "mainLoopFailed (actor m)" and "f \<noteq> MainLoop" and "\<And>e. f \<noteq> MainFatal e"
    and "\<And>q. f \<noteq> Dispatched q"
  shows "dead (actor m) (actor (resume h states r f fs m))"
  using assms by (cases f; cases r) (auto simp: dead_def install_task_def)

lemma stack_dead:
  assumes "actor_ok states m" and "mainLoopFailed (actor m)" and "stack m = f # fs"
  shows "f \<noteq> MainLoop" and "f \<noteq> MainFatal e" and "f \<noteq> Dispatched q"
  using assms by (auto simp: actor_ok_def loop_ok_def split: list.splits frame.splits)

lemma actor_moves_dead:
  assumes ok: "actor_ok states m" and failed: "mainLoopFailed (actor m)"
    and move: "actor_moves h i states m m'"
  shows "dead (actor m) (actor m')"
  using move
proof cases
  case computes
  show ?thesis
  proof (cases "\<exists>r f fs. control m = Return r \<and> stack m = f # fs")
    case True
    then obtain r f fs where at: "control m = Return r" "stack m = f # fs" by blast
    then have "dead (actor m) (actor (resume h states r f fs m))"
      using stack_dead [OF ok failed] by (intro resume_dead failed) auto
    then show ?thesis using computes at by (simp add: actor_step_def)
  next
    case False
    have "currentState (actor m) \<noteq> None" using ok failed by (auto simp: actor_ok_def loop_ok_def)
    then show ?thesis
      using computes failed False
      by (auto simp: actor_step_def dead_def perform_request_frame
          split: control.splits script.splits list.splits)
  qed
next
  case called
  with failed show ?thesis by (simp add: dead_def)
next
  case settles
  with ok failed show ?thesis by (auto simp: actor_ok_def loop_ok_def)
qed


section \<open>No settlement is forgotten\<close>

text \<open>
  With a fatal-error hook that returns, an event is settled, pending, being dispatched, or
  the actor is failing.
\<close>

definition calm :: "('u, 'r) hooks \<Rightarrow> bool" where
  "calm h \<longleftrightarrow> (\<forall>e u. \<exists>u'. onFatalTaskError h e u = Finish u')"

definition accounted :: "('u, 'r) actor \<Rightarrow> ('u, 'r) frame list \<Rightarrow> ('u, 'r) control \<Rightarrow> bool" where
  "accounted a fs c \<longleftrightarrow>
     (mainLoopFailed a \<or> nextEvent a \<noteq> None \<or> settledEventSequence a = queuedEventSequence a \<or>
      (\<exists>q. Dispatched q \<in> set fs) \<or> (\<exists>e. MainFatal e \<in> set fs) \<or>
      (\<exists>e gs. c = Return (Inl e) \<and> fs = MainLoop # gs)) \<and>
     (\<forall>q. Dispatched q \<in> set fs \<longrightarrow> q = queuedEventSequence a \<or> nextEvent a \<noteq> None) \<and>
     (\<forall>e. MainFatal e \<in> set fs \<longrightarrow>
       (\<exists>gs. fs = MainFatal e # gs \<and> (\<forall>f. MainFatal f \<notin> set gs)) \<and>
       ((\<exists>u. c = Code (Finish u)) \<or> c = Return (Inr Void)))"

abbreviation machine_accounted :: "('u, 'r) machine \<Rightarrow> bool" where
  "machine_accounted m \<equiv> accounted (actor m) (stack m) (control m)"

text \<open>
  Subclass code is on top of the stack, and no fatal-error hook runs below it: then the
  clauses on the control state do not matter.
\<close>

definition accounted_code :: "('u, 'r) actor \<Rightarrow> ('u, 'r) frame list \<Rightarrow> bool" where
  "accounted_code a fs \<longleftrightarrow>
     (mainLoopFailed a \<or> nextEvent a \<noteq> None \<or> settledEventSequence a = queuedEventSequence a \<or>
      (\<exists>q. Dispatched q \<in> set fs)) \<and>
     (\<forall>q. Dispatched q \<in> set fs \<longrightarrow> q = queuedEventSequence a \<or> nextEvent a \<noteq> None) \<and>
     (\<forall>e. MainFatal e \<notin> set fs)"

lemma accounted_codeI: "accounted_code a fs \<Longrightarrow> accounted a fs c"
  by (auto simp: accounted_code_def accounted_def)

lemma accounted_codeD:
  assumes "accounted a fs c" and "\<And>e. MainFatal e \<notin> set fs"
    and "\<And>e gs. \<not> (c = Return (Inl e) \<and> fs = MainLoop # gs)"
  shows "accounted_code a fs"
  using assms by (auto simp: accounted_code_def accounted_def)

lemma accounted_code_plain [simp]:
  "plain f \<Longrightarrow> accounted_code a (f # fs) = accounted_code a fs"
  "accounted_code (a\<lparr>actorTask := t\<rparr>) fs = accounted_code a fs"
  "accounted_code (a\<lparr>taskSerials := n\<rparr>) fs = accounted_code a fs"
  "accounted_code (a\<lparr>stopAfter := b\<rparr>) fs = accounted_code a fs"
  "accounted_code (a\<lparr>actorMainRunning := b\<rparr>) fs = accounted_code a fs"
  "accounted_code (a\<lparr>currentState := s\<rparr>) fs = accounted_code a fs"
  "accounted_code a (MainLoop # fs) = accounted_code a fs"
  "accounted_code a (Entering c # fs) = accounted_code a fs"
  by (cases f; auto simp: accounted_code_def)+

lemma sendEvent_accounted:
  "sendEvent name a = Inr a' \<Longrightarrow> accounted_code a fs \<Longrightarrow> accounted_code a' fs"
  by (auto simp: accounted_code_def sendEvent_def split: option.splits)

lemma await_accounted: "accounted_code a fs \<Longrightarrow> accounted_code (awaitLifecycleSettlement a) fs"
  by (auto simp: accounted_code_def awaitLifecycleSettlement_def)

lemma ensureActorMain_accounted:
  "accounted_code (actor m) (stack m) \<Longrightarrow>
    accounted_code (actor (ensureActorMain m)) (stack (ensureActorMain m))"
  by (simp add: ensureActorMain_def)

lemma perform_request_accounted:
  assumes "accounted_code (actor m) (stack m)"
  shows "accounted_code (actor (perform_request h i states q m)) (stack (perform_request h i states q m))"
proof (cases q)
  case (ParkedSendEvent name)
  have "accounted_code (actor (ensureActorMain (m\<lparr>actor := a\<rparr>))) (stack (ensureActorMain (m\<lparr>actor := a\<rparr>)))"
    if "sendEvent name (actor m) = Inr a" for a
    using sendEvent_accounted [OF that assms] by (intro ensureActorMain_accounted) simp
  with ParkedSendEvent assms show ?thesis
    by (auto simp: parkedSendEvent_def split: option.splits sum.splits)
qed (use assms in \<open>auto simp: start_actor_def runTask_def Let_def sendEvent_accounted await_accounted
      split: option.splits sum.splits\<close>)


lemma only_loop:
  assumes "loop_ok a (f # fs) w" and "is_loop f"
  shows "Dispatched q \<notin> set fs" and "MainFatal e \<notin> set fs"
proof -
  have "stacked fs" and "loops fs = 0"
    using assms by (auto simp: loop_ok_def split: if_splits)
  then show "Dispatched q \<notin> set fs" by (rule no_loop_no_dispatch)
  show "MainFatal e \<notin> set fs" using \<open>loops fs = 0\<close> by (auto simp: no_loops)
qed

lemma main_pass_accounted:
  assumes ok: "actor_ok states m" and top: "stack m = MainLoop # fs"
    and acc: "accounted_code (actor m) (stack m)"
  shows "machine_accounted (main_pass h states m)"
proof (cases "nextEvent (actor m)")
  case (Some ev)
  obtain name k where ev: "ev = (name, k)" by (rule prod.exhaust)
  have "k = queuedEventSequence (actor m)"
    using ok Some ev by (auto simp: actor_ok_def events_ok_def)
  then have "accounted_code ((actor m)\<lparr>nextEvent := None\<rparr>) (Dispatched k # stack m)"
    using only_loop [of "actor m" MainLoop fs "awaited m"] ok top acc
    by (auto simp: accounted_code_def actor_ok_def)
  then show ?thesis
    using Some ev
    by (auto simp: main_pass_def dispatchEvent_def Let_def intro!: accounted_codeI split: option.splits)
next
  case None
  with acc top show ?thesis
    by (auto simp: main_pass_def leave_main_def Let_def intro!: accounted_codeI split: option.splits)
qed

lemma dispatched_accounted:
  assumes ok: "actor_ok states m" and top: "stack m = Dispatched q # fs"
    and acc: "accounted_code (actor m) (stack m)"
  shows "accounted (settleLifecycleWaiters ((actor m)\<lparr>settledEventSequence := q\<rparr>)) fs c"
    and "accounted (settleLifecycleWaiters (actor m)) fs (Return (Inl e))"
proof -
  obtain gs where fs: "fs = MainLoop # gs"
    using ok top by (auto simp: actor_ok_def loop_ok_def split: list.splits frame.splits)
  have "loop_ok (actor m) fs (awaited m)"
    using ok top undispatched_ok [of "actor m"] by (auto simp: actor_ok_def)
  note below = only_loop [OF this [unfolded fs], simplified]
  show "accounted (settleLifecycleWaiters ((actor m)\<lparr>settledEventSequence := q\<rparr>)) fs c"
    using acc top below fs
    by (intro accounted_codeI) (auto simp: accounted_code_def settleLifecycleWaiters_run)
  show "accounted (settleLifecycleWaiters (actor m)) fs (Return (Inl e))"
    using below fs by (auto simp: accounted_def settleLifecycleWaiters_run)
qed

lemma fatal_accounted:
  assumes "calm h" and "loop_ok a (MainLoop # fs) w"
  shows "accounted a (MainFatal e # fs) (Code (onFatalTaskError h e u))"
proof -
  obtain u' where "onFatalTaskError h e u = Finish u'" using assms(1) by (auto simp: calm_def)
  then show ?thesis using only_loop [OF assms(2)] by (auto simp: accounted_def)
qed

lemma resume_accounted:
  assumes "calm h" and ok: "actor_ok states m" and top: "stack m = f # fs"
    and ctl: "control m = Return r" and acc: "machine_accounted m"
  shows "machine_accounted (resume h states r f fs m)"
proof (cases "\<exists>e. f = MainFatal e")
  case True
  then obtain e where f: "f = MainFatal e" by blast
  then have "r = Inr Void" and "\<And>e. MainFatal e \<notin> set fs" and "\<And>q. Dispatched q \<notin> set fs"
    using acc top ctl only_loop [of "actor m" f fs "awaited m"] ok
    by (auto simp: accounted_def actor_ok_def)
  then show ?thesis using f by (auto simp: accounted_def fail_main_loop_run)
next
  case False
  then have none: "\<And>e. MainFatal e \<notin> set (f # fs)"
    using acc top by (fastforce simp: accounted_def)
  show ?thesis
  proof (cases "f = MainLoop \<and> (\<exists>e. r = Inl e)")
    case True
    with fatal_accounted [OF assms(1)] ok top show ?thesis by (auto simp: actor_ok_def)
  next
    case False
    then have code: "accounted_code (actor m) (f # fs)"
      using acc top ctl none accounted_codeD [of "actor m" "f # fs" "control m"] by auto
    then have code': "accounted_code (actor m) fs" if "plain f \<or> f = MainFailure \<or> (\<exists>c. f = Entering c)"
      using that by (auto simp: accounted_code_def)
    show ?thesis
    proof (cases f)
      case StartEntered
      with code' ensureActorMain_accounted [of "m\<lparr>stack := fs\<rparr>"] show ?thesis
        by (cases r) (auto intro!: accounted_codeI)
    next
      case (Dispatched q)
      then have "accounted_code (actor m) (stack m)" using code top by simp
      note settled = dispatched_accounted [OF ok top [unfolded Dispatched] this]
      with Dispatched show ?thesis by (cases r) auto
    next
      case MainLoop
      with False ok top code main_pass_accounted [of states m fs h] show ?thesis by (cases r) auto
    qed ((use none code' in \<open>cases r; auto simp: install_task_def leave_main_def top intro!: accounted_codeI\<close>)+)
  qed
qed

lemma actor_moves_accounted:
  assumes "calm h" and ok: "actor_ok states m" and acc: "machine_accounted m"
    and move: "actor_moves h i states m m'"
  shows "machine_accounted m'"
  using move
proof cases
  case computes
  have code: "accounted_code (actor m) (stack m)" if "control m = Code s" and "\<And>u. s \<noteq> Finish u" for s
    using acc that by (intro accounted_codeD [of _ _ "control m"]) (auto simp: accounted_def)
  show ?thesis
  proof (cases "control m")
    case (Code s)
    show ?thesis
    proof (cases s)
      case (Finish u)
      with Code computes acc show ?thesis by (auto simp: actor_step_def accounted_def)
    next
      case (Throw e u)
      with Code computes code show ?thesis by (auto simp: actor_step_def intro!: accounted_codeI)
    next
      case (Call q u k)
      with Code code have "accounted_code (actor m) (Caller k # stack m)" by simp
      then have "machine_accounted (perform_request h i states q (m\<lparr>user := u, stack := Caller k # stack m\<rparr>))"
        by (intro accounted_codeI perform_request_accounted) simp
      with Code Call computes show ?thesis by (simp add: actor_step_def)
    qed
  next
    case (Return r)
    with computes resume_accounted [OF assms(1) ok _ Return acc] show ?thesis
      by (auto simp: actor_step_def split: list.splits)
  qed
next
  case called
  with acc show ?thesis by (auto simp: idle_def accounted_def)
next
  case settles
  with acc have "accounted_code (actor m) []" by (auto simp: idle_def accounted_def accounted_code_def)
  with settles show ?thesis by (auto simp: deliver_def intro!: accounted_codeI)
qed

end
