(* ===== verification/MicroActorProperties.thy ===== *)
theory MicroActorProperties
  imports MicroActorLaws
begin

text \<open>
  The contract of the micro actors, for any subclass code and any interleaving of calls and
  task settlements, and a small actor on which the hypotheses hold.
\<close>

section \<open>A computation up to the next suspension\<close>

fun actor_compute :: "nat \<Rightarrow> ('u, 'r) hooks \<Rightarrow> string \<Rightarrow> actor_table \<Rightarrow>
    ('u, 'r) machine \<Rightarrow> ('u, 'r) machine" where
  "actor_compute 0 h i states m = m"
| "actor_compute (Suc n) h i states m = (case actor_step h i states m of
     None \<Rightarrow> m
   | Some m' \<Rightarrow> actor_compute n h i states m')"

lemma actor_compute_runs:
  assumes "actor_runs h i states m m'"
  shows "actor_runs h i states m (actor_compute n h i states m')"
  using assms
  by (induction n arbitrary: m') (auto split: option.splits intro: actor_runs.further actor_moves.computes)

lemma actor_runs_trans:
  assumes "actor_runs h i states m' m''" and "actor_runs h i states m m'"
  shows "actor_runs h i states m m''"
  using assms by induction (auto intro: actor_runs.further)

lemma actor_call_runs:
  assumes "actor_runs h i states m m'" and "idle m'"
  shows "actor_runs h i states m (actor_compute n h i states (m'\<lparr>control := Code s\<rparr>))"
  using assms by (blast intro: actor_compute_runs actor_runs.further actor_moves.called)

section \<open>A sample actor\<close>

definition sample_table :: actor_table where
  "sample_table =
    [(''ready'', \<lparr>on = [(''go'', \<lparr>targetStateId = ''working'', reenter = False\<rparr>),
                        (''halt'', \<lparr>targetStateId = ''end'', reenter = False\<rparr>)],
        isTerminal = False, isParked = True\<rparr>),
     (''working'', \<lparr>on = [(''done'', \<lparr>targetStateId = ''ready'', reenter = False\<rparr>)],
        isTerminal = False, isParked = False\<rparr>),
     (''end'', \<lparr>on = [], isTerminal = True, isParked = False\<rparr>)]"

definition sample_hooks :: "(unit, unit) hooks" where
  "sample_hooks = \<lparr>onStateEntered = (\<lambda>_. Finish), onTransition = (\<lambda>_. Finish),
     onActorMainFailure = (\<lambda>_. Finish), onFatalTaskError = (\<lambda>_. Finish)\<rparr>"

definition sample_call :: "(unit, unit) request \<Rightarrow> (unit, unit) machine \<Rightarrow> (unit, unit) machine" where
  "sample_call q m = actor_compute 20 sample_hooks ''ready'' sample_table
     (m\<lparr>control := Code (Call q () (\<lambda>_. Finish))\<rparr>)"

definition sample_started :: "(unit, unit) machine" where
  "sample_started = sample_call Start (new_machine ())"

definition sample_halted :: "(unit, unit) machine" where
  "sample_halted = sample_call (ParkedSendEvent ''halt'') sample_started"

definition sample_stuck :: "(unit, unit) machine" where
  "sample_stuck = sample_call (ParkedSendEvent ''go'') sample_started"

lemma sample_valid: "validateCompiledActorTable ''ready'' sample_table = Inr ()"
  by code_simp

lemma sample_calm: "calm sample_hooks"
  by (simp add: calm_def sample_hooks_def)

lemmas sample_eval = sample_halted_def sample_stuck_def sample_started_def sample_call_def
  new_machine_def new_actor_def sample_hooks_def sample_table_def eval_nat_numeral actor_step_def
  start_actor_def ensureActorMain_def main_pass_def leave_main_def parkedSendEvent_def sendEvent_def
  dispatchEvent_def state_parked_def state_terminal_def settleLifecycleWaiters_def fail_main_loop_def
  Let_def idle_def

lemma sample_states:
  "idle sample_started" "currentState (actor sample_started) = Some ''ready''"
  "idle sample_halted" "currentState (actor sample_halted) = Some ''end''"
  "idle sample_stuck" "mainLoopFailed (actor sample_stuck)"
  "nextEvent (actor sample_started) = None" "\<not> actorMainRunning (actor sample_started)"
  "\<not> mainLoopFailed (actor sample_started)" "awaited sample_started = None"
  by (simp_all add: sample_eval)

lemma sample_runs:
  "actor_runs sample_hooks ''ready'' sample_table (new_machine ()) sample_started"
  "actor_runs sample_hooks ''ready'' sample_table (new_machine ()) sample_halted"
  "actor_runs sample_hooks ''ready'' sample_table (new_machine ()) sample_stuck"
proof -
  have "idle (new_machine ())" by (simp add: idle_def new_machine_def)
  then show started: "actor_runs sample_hooks ''ready'' sample_table (new_machine ()) sample_started"
    unfolding sample_started_def sample_call_def by (intro actor_call_runs actor_runs.here)
  then show "actor_runs sample_hooks ''ready'' sample_table (new_machine ()) sample_halted"
    "actor_runs sample_hooks ''ready'' sample_table (new_machine ()) sample_stuck"
    unfolding sample_halted_def sample_stuck_def sample_call_def [of "ParkedSendEvent n" for n]
    by (intro actor_call_runs sample_states(1); assumption)+
qed

section \<open>Properties\<close>

text \<open>
  (C22) Whatever the subclass does, the actor keeps its books: no more events are settled than
  queued, a pending event is the last one queued and not yet settled, every waiter waits
  for an event that was queued and is not settled, the promises handed out and still
  pending are exactly those of the waiters, each of a waiter of its own, at most one main
  loop is active (on the stack or suspended on the task) exactly when the running flag is set,
  and the current state is a state of the table.
\<close>

theorem actor_run_invariant:
  assumes "validateCompiledActorTable i states = Inr ()"
    and "actor_runs h i states (new_machine u) m"
  shows "settledEventSequence (actor m) \<le> queuedEventSequence (actor m) \<and>
    (\<forall>name k. nextEvent (actor m) = Some (name, k) \<longrightarrow>
      k = queuedEventSequence (actor m) \<and> settledEventSequence (actor m) < k) \<and>
    (\<forall>w \<in> set (eventSettlementWaiters (actor m)).
      settledEventSequence (actor m) < waiter_sequence w \<and>
      waiter_sequence w \<le> queuedEventSequence (actor m)) \<and>
    distinct (map waiter_promise (eventSettlementWaiters (actor m))) \<and>
    waiter_promise ` set (eventSettlementWaiters (actor m)) =
      {p. p < length (promises (actor m)) \<and> promises (actor m) ! p = None} \<and>
    length (filter is_loop (stack m)) + (if awaited m = None then 0 else 1) =
      (if actorMainRunning (actor m) then 1 else 0) \<and>
    (\<forall>s. currentState (actor m) = Some s \<longrightarrow> s \<in> dom (map_of states))"
proof -
  have "actor_ok states m" using assms(2,1) new_machine_ok by (rule actor_runs_ok)
  then show ?thesis
    unfolding actor_ok_defs pending_def loops_def by (elim conjE, intro conjI) assumption+
qed

theorem actor_run_invariant_witness:
  "settledEventSequence (actor sample_halted) \<le> queuedEventSequence (actor sample_halted)"
  using actor_run_invariant [OF sample_valid sample_runs(2)] by blast

text \<open>
  (C24) The state of an actor is a run of its table: a move leaves the state alone, enters
  the initial state of an actor that has none, or takes the pending event, consumes it and
  goes to the target the table declares for it in the current state.
\<close>

theorem actor_follows_table:
  assumes "actor_moves h i states m m'"
  shows "currentState (actor m') = currentState (actor m) \<or>
    (currentState (actor m) = None \<and> currentState (actor m') = Some i) \<or>
    (\<exists>s d name k tr. currentState (actor m) = Some s \<and> map_of states s = Some d \<and>
      nextEvent (actor m) = Some (name, k) \<and> map_of (on d) name = Some tr \<and>
      nextEvent (actor m') = None \<and> currentState (actor m') = Some (targetStateId tr))"
  using actor_moves_state [OF assms] by (simp add: takes_transition_def)

definition sample_taking :: "(unit, unit) machine" where
  "sample_taking = sample_started\<lparr>control := Return (Inr Void), stack := [MainLoop],
     actor := (actor sample_started)\<lparr>nextEvent := Some (''halt'', 1)\<rparr>\<rparr>"

theorem actor_follows_table_witness:
  "actor_moves sample_hooks ''ready'' sample_table sample_taking
     (main_pass sample_hooks sample_table sample_taking) \<and>
   currentState (actor (main_pass sample_hooks sample_table sample_taking)) = Some ''end''"
proof -
  have move: "actor_moves sample_hooks ''ready'' sample_table sample_taking
      (main_pass sample_hooks sample_table sample_taking)"
    by (intro actor_moves.computes) (simp add: actor_step_def sample_taking_def)
  have "currentState (actor (main_pass sample_hooks sample_table sample_taking)) \<noteq> Some ''ready''"
    and "currentState (actor sample_taking) = Some ''ready''"
    and "nextEvent (actor sample_taking) = Some (''halt'', 1)"
    by (simp_all add: sample_taking_def sample_eval)
  with actor_follows_table [OF move] have
    "currentState (actor (main_pass sample_hooks sample_table sample_taking)) = Some ''end''"
    by (auto simp: sample_table_def)
  with move show ?thesis by blast
qed

text \<open>
  (C25) A terminal state is final: once an actor is in it, no call, event or task result
  moves it anywhere else.
\<close>

theorem actor_terminal_absorbing:
  assumes "validateCompiledActorTable i states = Inr ()"
    and "actor_runs h i states m m'"
    and "currentState (actor m) = Some s" and "state_terminal states s"
  shows "currentState (actor m') = Some s"
  using assms(2)
proof induction
  case here
  show ?case by (rule assms(3))
next
  case (further m' m'')
  obtain d where "map_of states s = Some d" "isTerminal d"
    using assms(4) by (auto simp: state_terminal_def split: option.splits)
  with validated_terminal(1) [OF assms(1)] have "map_of (on d) name = None" for name by simp
  with \<open>map_of states s = Some d\<close> show ?case
    using actor_moves_state [OF further.hyps(2)] further.IH by (auto simp: takes_transition_def)
qed

theorem actor_terminal_absorbing_witness:
  "currentState (actor (sample_call (SendEvent ''go'') sample_halted)) = Some ''end''"
proof (rule actor_terminal_absorbing [OF sample_valid])
  show "actor_runs sample_hooks ''ready'' sample_table sample_halted
      (sample_call (SendEvent ''go'') sample_halted)"
    unfolding sample_call_def by (intro actor_call_runs actor_runs.here sample_states)
qed (simp_all add: sample_states state_terminal_def sample_table_def)

text \<open>
  (C26) A failure of the main loop is final: from then on the state, the settled sequence and
  the recorded failure never change, no waiter is left pending or added, and the main
  loop is not started again.
\<close>

theorem actor_failure_final:
  assumes valid: "validateCompiledActorTable i states = Inr ()"
    and run: "actor_runs h i states (new_machine u) m" and failed: "mainLoopFailed (actor m)"
    and later: "actor_runs h i states m m'"
  shows "mainLoopFailed (actor m') \<and> mainLoopFailure (actor m') = mainLoopFailure (actor m) \<and>
    currentState (actor m') = currentState (actor m) \<and>
    settledEventSequence (actor m') = settledEventSequence (actor m) \<and>
    eventSettlementWaiters (actor m') = [] \<and> MainLoop \<notin> set (stack m') \<and> awaited m' = None"
proof -
  have ok: "actor_ok states m" using run valid new_machine_ok by (rule actor_runs_ok)
  from later have "actor_ok states m' \<and> dead (actor m) (actor m')"
  proof induction
    case here
    with ok failed show ?case by (simp add: dead_def)
  next
    case (further m' m'')
    then have "actor_ok states m''" using actor_moves_ok [OF valid] by blast
    moreover have "dead (actor m') (actor m'')"
      using further by (intro actor_moves_dead) (auto simp: dead_def)
    ultimately show ?case using further.IH by (auto simp: dead_def)
  qed
  then show ?thesis by (auto simp: dead_def actor_ok_def loop_ok_def)
qed

theorem actor_failure_final_witness:
  "currentState (actor (sample_call (ParkedSendEvent ''done'') sample_stuck)) = Some ''working''"
proof -
  have "actor_runs sample_hooks ''ready'' sample_table sample_stuck
      (sample_call (ParkedSendEvent ''done'') sample_stuck)"
    unfolding sample_call_def by (intro actor_call_runs actor_runs.here sample_states)
  note actor_failure_final [OF sample_valid sample_runs(3) sample_states(6) this]
  moreover have "currentState (actor sample_stuck) = Some ''working''" by (simp add: sample_eval)
  ultimately show ?thesis by simp
qed

text \<open>
  (C23) No settlement is forgotten: when the fatal-error hook returns, an actor at rest with no
  pending event has no waiter left, so every promise it handed out is resolved or rejected;
  unless it failed, every queued event is settled.
\<close>

theorem actor_no_forgotten_waiter:
  assumes valid: "validateCompiledActorTable i states = Inr ()"
    and calm: "\<And>e u. \<exists>u'. onFatalTaskError h e u = Finish u'"
    and run: "actor_runs h i states (new_machine u) m"
    and rest: "idle m" "nextEvent (actor m) = None"
  shows "eventSettlementWaiters (actor m) = [] \<and>
    (\<forall>p < length (promises (actor m)). promises (actor m) ! p \<noteq> None) \<and>
    (\<not> mainLoopFailed (actor m) \<longrightarrow> settledEventSequence (actor m) = queuedEventSequence (actor m))"
proof -
  have calm: "calm h" using calm by (simp add: calm_def)
  from run have "actor_ok states m \<and> machine_accounted m"
  proof induction
    case here
    show ?case using new_machine_ok
      by (auto simp: accounted_def new_machine_def new_actor_def)
  next
    case (further m' m'')
    then show ?case using actor_moves_ok [OF valid] actor_moves_accounted [OF calm] by blast
  qed
  then have ok: "actor_ok states m" and
    "mainLoopFailed (actor m) \<or> settledEventSequence (actor m) = queuedEventSequence (actor m)"
    using rest by (auto simp: accounted_def idle_def)
  moreover from this have "eventSettlementWaiters (actor m) = []"
    by (cases "eventSettlementWaiters (actor m)") (auto simp: actor_ok_defs)
  ultimately show ?thesis by (auto simp: actor_ok_def waiters_ok_def pending_def)
qed

theorem actor_no_forgotten_waiter_witness:
  "promises (actor (sample_call AwaitLifecycleSettlement sample_halted)) = [Some (Inr ())]"
proof -
  let ?m = "sample_call AwaitLifecycleSettlement sample_halted"
  have "actor_runs sample_hooks ''ready'' sample_table sample_halted ?m"
    unfolding sample_call_def by (intro actor_call_runs actor_runs.here sample_states)
  then have run: "actor_runs sample_hooks ''ready'' sample_table (new_machine ()) ?m"
    using sample_runs(2) by (rule actor_runs_trans)
  have "idle ?m" "nextEvent (actor ?m) = None"
    and shape: "\<exists>p. promises (actor ?m) = [p]" "\<forall>p e. promises (actor ?m) \<noteq> [Some (Inl e)]"
    by (simp_all add: sample_eval awaitLifecycleSettlement_def)
  with actor_no_forgotten_waiter [OF sample_valid _ run] sample_calm
  have "promises (actor ?m) ! 0 \<noteq> None" by (auto simp: calm_def)
  with shape show ?thesis by (auto simp: neq_Nil_conv) (metis (full_types) old.sum.exhaust unit.exhaust)
qed

end
