(* ===== verification/RuntimeGate.thy ===== *)
theory RuntimeGate
  imports Prelude
begin

text \<open>
  Two small concurrency objects of the runtime: the gate that parks the running frontier
  while the runtime is paused (\<open>src/runtime/runtime-gate.ts\<close>) and the lease of a parent's
  invocation on its child (\<open>src/runtime/actors/child-invocation-wait.ts\<close>). Promises are named
  by their index in the list of promises handed out; an entry is \<open>None\<close> while pending.
  Abort signals are numbers; the state carries which of them fired and who listens.
\<close>

section \<open>The runtime gate\<close>

record gate_waiter =
  gate_promise :: nat
  gate_signal :: nat

text \<open>
  \<open>onParked\<close> is the callback of the last pause request, by number; the calls made to such
  callbacks are recorded in \<open>parkNotices\<close>. A callback is the last thing
  \<open>waitUntilOpen\<close> does, so what it does to the gate are the operations that come next.
\<close>

record gate =
  gateOpen :: bool
  pauseRequested :: bool
  gateParked :: "gate_waiter option"
  onParked :: "nat option"
  gateAborted :: "nat \<Rightarrow> error option"
  abortListeners :: "gate_waiter list"
  gatePromises :: "(error + unit) option list"
  parkNotices :: "nat list"

definition new_gate :: gate where
  "new_gate = \<lparr>gateOpen = True, pauseRequested = False, gateParked = None, onParked = None,
     gateAborted = (\<lambda>_. None), abortListeners = [], gatePromises = [], parkNotices = []\<rparr>"

definition isOpen :: "gate \<Rightarrow> bool" where
  "isOpen g \<longleftrightarrow> gateOpen g \<and> \<not> pauseRequested g"

definition gateIsParked :: "gate \<Rightarrow> bool" where
  "gateIsParked g \<longleftrightarrow> gateParked g \<noteq> None"

text \<open>A promise settles once; later settlements are ignored.\<close>

definition settle_promise :: "nat \<Rightarrow> error + unit \<Rightarrow> gate \<Rightarrow> gate" where
  "settle_promise p r g =
     (if p < length (gatePromises g) \<and> gatePromises g ! p = None
      then g\<lparr>gatePromises := (gatePromises g)[p := Some r]\<rparr> else g)"

definition gate_cleanup :: "gate_waiter \<Rightarrow> gate \<Rightarrow> gate" where
  "gate_cleanup w g = g\<lparr>
     gateParked := (if gateParked g = Some w then None else gateParked g),
     abortListeners := removeAll w (abortListeners g)\<rparr>"

definition completeRun :: "gate \<Rightarrow> error + gate" where
  "completeRun g =
     (if gateParked g \<noteq> None
      then Inl (PlainError ''Cannot complete a RuntimeGate with a parked frontier.'' [])
      else Inr (g\<lparr>gateOpen := False, pauseRequested := False, onParked := None\<rparr>))"

definition requestPause :: "nat \<Rightarrow> gate \<Rightarrow> gate" where
  "requestPause callback g = g\<lparr>pauseRequested := True, gateOpen := False, onParked := Some callback\<rparr>"

definition gate_close :: "gate \<Rightarrow> gate" where
  "gate_close g = g\<lparr>gateOpen := False\<rparr>"

definition gate_open :: "gate \<Rightarrow> gate" where
  "gate_open g0 =
     (let g = g0\<lparr>pauseRequested := False\<rparr> in
      if gateOpen g \<and> gateParked g = None then g
      else
        let opened = g\<lparr>gateOpen := True, gateParked := None, onParked := None\<rparr> in
        (case gateParked g of
           None \<Rightarrow> opened
         | Some w \<Rightarrow> settle_promise (gate_promise w) (Inr ()) (gate_cleanup w
             (opened\<lparr>abortListeners := removeAll w (abortListeners opened)\<rparr>))))"

text \<open>\<open>waitUntilOpen\<close> returns the index of its promise, or throws.\<close>

definition waitUntilOpen :: "nat \<Rightarrow> gate \<Rightarrow> error + nat \<times> gate" where
  "waitUntilOpen signal g =
     (let p = length (gatePromises g) in
      case gateAborted g signal of
        Some reason \<Rightarrow> Inr (p, g\<lparr>gatePromises := gatePromises g @ [Some (Inl reason)]\<rparr>)
      | None \<Rightarrow>
          (if isOpen g then Inr (p, g\<lparr>gatePromises := gatePromises g @ [Some (Inr ())]\<rparr>)
           else if gateParked g \<noteq> None
           then Inl (PlainError ''RuntimeGate supports exactly one parked frontier.'' [])
           else
             let w = \<lparr>gate_promise = p, gate_signal = signal\<rparr> in
             Inr (p, g\<lparr>gatePromises := gatePromises g @ [None], gateParked := Some w,
               abortListeners := abortListeners g @ [w],
               parkNotices := parkNotices g @ (case onParked g of None \<Rightarrow> [] | Some c \<Rightarrow> [c])\<rparr>)))"

text \<open>A signal fires: each of its listeners rejects its promise.\<close>

definition gate_on_abort :: "error \<Rightarrow> gate_waiter \<Rightarrow> gate \<Rightarrow> gate" where
  "gate_on_abort reason w g = settle_promise (gate_promise w) (Inl reason) (gate_cleanup w g)"

definition gate_abort :: "nat \<Rightarrow> error \<Rightarrow> gate \<Rightarrow> gate" where
  "gate_abort signal reason g =
     (if gateAborted g signal \<noteq> None then g
      else List.fold (gate_on_abort reason)
        (filter (\<lambda>w. gate_signal w = signal) (abortListeners g))
        (g\<lparr>gateAborted := (gateAborted g)(signal := Some reason)\<rparr>))"

text \<open>The gate in use: any sequence of its operations and of aborts.\<close>

inductive gate_reachable :: "gate \<Rightarrow> bool" where
  fresh: "gate_reachable new_gate"
| completed: "gate_reachable g \<Longrightarrow> completeRun g = Inr g' \<Longrightarrow> gate_reachable g'"
| paused: "gate_reachable g \<Longrightarrow> gate_reachable (requestPause c g)"
| closed: "gate_reachable g \<Longrightarrow> gate_reachable (gate_close g)"
| opened: "gate_reachable g \<Longrightarrow> gate_reachable (gate_open g)"
| waited: "gate_reachable g \<Longrightarrow> waitUntilOpen s g = Inr (p, g') \<Longrightarrow> gate_reachable g'"
| aborted: "gate_reachable g \<Longrightarrow> gate_reachable (gate_abort s e g)"

definition gate_ok :: "gate \<Rightarrow> bool" where
  "gate_ok g \<longleftrightarrow>
     (gateOpen g \<longrightarrow> \<not> pauseRequested g \<and> gateParked g = None) \<and>
     (case gateParked g of
        None \<Rightarrow> abortListeners g = [] \<and>
          (\<forall>p < length (gatePromises g). gatePromises g ! p \<noteq> None)
      | Some w \<Rightarrow> abortListeners g = [w] \<and> gateAborted g (gate_signal w) = None \<and>
          (\<forall>p < length (gatePromises g). gatePromises g ! p = None \<longleftrightarrow> p = gate_promise w) \<and>
          gate_promise w < length (gatePromises g))"

lemmas gate_defs = isOpen_def completeRun_def requestPause_def gate_close_def gate_open_def
  waitUntilOpen_def gate_abort_def gate_on_abort_def gate_cleanup_def settle_promise_def

lemma gate_abort_ok:
  assumes "gate_ok g"
  shows "gate_ok (gate_abort s e g)"
  using assms
  by (cases "gateParked g")
    (auto simp: gate_ok_def gate_defs nth_list_update split: if_splits)

lemma gate_reachable_ok: "gate_reachable g \<Longrightarrow> gate_ok g"
proof (induction rule: gate_reachable.induct)
  case fresh
  show ?case by (simp add: gate_ok_def new_gate_def)
next
  case (opened g)
  then show ?case
    by (cases "gateParked g") (auto simp: gate_ok_def gate_defs Let_def nth_list_update)
next
  case (waited g s p g')
  then show ?case
    by (auto simp: gate_ok_def gate_defs Let_def nth_append less_Suc_eq split: option.splits if_splits)
      fastforce+
next
  case (aborted g s e)
  then show ?case by (intro gate_abort_ok)
qed (auto simp: gate_ok_def gate_defs split: if_splits option.splits)

text \<open>
  (C35) One parked frontier: however the gate is used, an open gate parks nobody; at most one
  promise it handed out is pending, namely that of the parked frontier; and it listens to
  exactly the abort signal of that frontier, which has not fired.
\<close>

theorem gate_single_frontier:
  assumes "gate_reachable g"
  shows "(isOpen g \<longrightarrow> \<not> gateIsParked g) \<and>
    {p. p < length (gatePromises g) \<and> gatePromises g ! p = None} =
      (case gateParked g of None \<Rightarrow> {} | Some w \<Rightarrow> {gate_promise w}) \<and>
    abortListeners g = (case gateParked g of None \<Rightarrow> [] | Some w \<Rightarrow> [w]) \<and>
    (\<forall>w. gateParked g = Some w \<longrightarrow> gateAborted g (gate_signal w) = None)"
  using gate_reachable_ok [OF assms]
  by (auto simp: gate_ok_def isOpen_def gateIsParked_def split: option.splits)

definition parked_gate :: gate where
  "parked_gate = (case waitUntilOpen 4 (requestPause 9 new_gate) of Inr (_, g) \<Rightarrow> g | Inl _ \<Rightarrow> new_gate)"

lemma parked_gate_run:
  "waitUntilOpen 4 (requestPause 9 new_gate) = Inr (0, parked_gate)"
  by (simp add: parked_gate_def gate_defs new_gate_def Let_def)

lemma parked_gate_reachable: "gate_reachable parked_gate"
  using gate_reachable.waited [OF gate_reachable.paused [OF gate_reachable.fresh] parked_gate_run] .

theorem gate_single_frontier_witness:
  "gateIsParked parked_gate \<and> \<not> isOpen parked_gate \<and> parkNotices parked_gate = [9]"
proof -
  have "gateIsParked parked_gate" "parkNotices parked_gate = [9]"
    by (simp_all add: parked_gate_def gate_defs new_gate_def Let_def gateIsParked_def)
  with gate_single_frontier [OF parked_gate_reachable] show ?thesis by blast
qed

text \<open>
  (C36) A parked frontier is always released: opening the gate resolves its promise, the abort
  of its signal rejects it with the reason, and either leaves no frontier parked, no
  pending promise and no listener behind.
\<close>

theorem gate_releases_frontier:
  assumes "gate_reachable g" and "gateParked g = Some w"
  shows "isOpen (gate_open g) \<and> gatePromises (gate_open g) ! gate_promise w = Some (Inr ()) \<and>
    gatePromises (gate_abort (gate_signal w) e g) ! gate_promise w = Some (Inl e) \<and>
    (\<forall>g' \<in> {gate_open g, gate_abort (gate_signal w) e g}.
      \<not> gateIsParked g' \<and> abortListeners g' = [] \<and>
      (\<forall>p < length (gatePromises g'). gatePromises g' ! p \<noteq> None))"
proof -
  have ok: "gate_ok g" by (rule gate_reachable_ok [OF assms(1)])
  have "gate_ok (gate_open g)" "gate_ok (gate_abort (gate_signal w) e g)"
    using assms(1) by (blast intro: gate_reachable_ok gate_reachable.opened gate_reachable.aborted)+
  moreover have "gateParked (gate_open g) = None" "gateParked (gate_abort (gate_signal w) e g) = None"
    "isOpen (gate_open g)" "gatePromises (gate_open g) ! gate_promise w = Some (Inr ())"
    "gatePromises (gate_abort (gate_signal w) e g) ! gate_promise w = Some (Inl e)"
    using ok assms(2) by (auto simp: gate_ok_def gate_defs Let_def)
  ultimately show ?thesis by (auto simp: gate_ok_def gateIsParked_def)
qed

theorem gate_releases_frontier_witness:
  "gatePromises (gate_open parked_gate) = [Some (Inr ())] \<and>
   gatePromises (gate_abort 4 (PlainError ''stop'' []) parked_gate) =
     [Some (Inl (PlainError ''stop'' []))]"
proof -
  have w: "gateParked parked_gate = Some \<lparr>gate_promise = 0, gate_signal = 4\<rparr>"
    and n: "length (gatePromises (gate_open parked_gate)) = 1"
      "length (gatePromises (gate_abort 4 (PlainError ''stop'' []) parked_gate)) = 1"
    by (simp_all add: parked_gate_def gate_defs new_gate_def Let_def)
  show ?thesis
    using gate_releases_frontier [OF parked_gate_reachable w, of "PlainError ''stop'' []"] n
    by (auto simp: length_Suc_conv)
qed

section \<open>The lease of a child invocation\<close>

datatype lease_phase = Reserved | Admitted | Settling | Interrupted | Released | Rejected

record 'o lease =
  leaseChild :: string
  leasePhase :: lease_phase
  leaseDelivered :: bool
  leaseActivation :: "(error + 'o) option"

fun phase_name :: "lease_phase \<Rightarrow> string" where
  "phase_name Reserved = ''reserved''"
| "phase_name Admitted = ''admitted''"
| "phase_name Settling = ''settling''"
| "phase_name Interrupted = ''interrupted''"
| "phase_name Released = ''released''"
| "phase_name Rejected = ''rejected''"

definition new_lease :: "string \<Rightarrow> error + 'o lease" where
  "new_lease childCardId =
     (if childCardId = [] then Inl (PlainError ''Child invocation reservation requires a child card id.'' [])
      else Inr \<lparr>leaseChild = childCardId, leasePhase = Reserved, leaseDelivered = False,
        leaseActivation = None\<rparr>)"

definition invalidTransition :: "'o lease \<Rightarrow> lease_phase \<Rightarrow> error" where
  "invalidTransition l t = PlainError ''Child invocation lease cannot transition''
     [leaseChild l, phase_name (leasePhase l), phase_name t]"

definition lease_transition :: "lease_phase \<Rightarrow> lease_phase \<Rightarrow> 'o lease \<Rightarrow> error + 'o lease" where
  "lease_transition s t l =
     (if leasePhase l \<noteq> s then Inl (invalidTransition l t) else Inr (l\<lparr>leasePhase := t\<rparr>))"

definition markAdmitted :: "'o lease \<Rightarrow> error + 'o lease" where
  "markAdmitted = lease_transition Reserved Admitted"

definition markSettling :: "'o lease \<Rightarrow> error + 'o lease" where
  "markSettling = lease_transition Admitted Settling"

definition lease_interrupt :: "error \<Rightarrow> 'o lease \<Rightarrow> error + 'o lease" where
  "lease_interrupt reason l =
     (if leasePhase l \<noteq> Admitted \<and> leasePhase l \<noteq> Settling \<or> leaseDelivered l
      then Inl (invalidTransition l Interrupted)
      else Inr (l\<lparr>leasePhase := Interrupted, leaseDelivered := True,
        leaseActivation := Some (Inl reason)\<rparr>))"

definition markReleased :: "'o lease \<Rightarrow> error + 'o lease" where
  "markReleased l =
     (if leasePhase l \<noteq> Settling then Inl (invalidTransition l Released)
      else Inr (l\<lparr>leasePhase := Released\<rparr>))"

definition markRejected :: "'o lease \<Rightarrow> error + 'o lease" where
  "markRejected = lease_transition Reserved Rejected"

definition deliverOutcome :: "'o \<Rightarrow> 'o lease \<Rightarrow> error + 'o lease" where
  "deliverOutcome outcome l =
     (if leasePhase l \<noteq> Released \<or> leaseDelivered l
      then Inl (PlainError ''Child invocation lease cannot deliver an outcome''
        [leaseChild l, phase_name (leasePhase l)])
      else Inr (l\<lparr>leaseDelivered := True, leaseActivation := Some (Inr outcome)\<rparr>))"

definition deliverInterruption :: "error \<Rightarrow> 'o lease \<Rightarrow> error + 'o lease" where
  "deliverInterruption reason l =
     (if leasePhase l \<noteq> Rejected \<or> leaseDelivered l
      then Inl (PlainError ''Child invocation lease cannot deliver an interruption''
        [leaseChild l, phase_name (leasePhase l)])
      else Inr (l\<lparr>leaseDelivered := True, leaseActivation := Some (Inl reason)\<rparr>))"

definition isWaitingBarrier :: "'o lease \<Rightarrow> bool" where
  "isWaitingBarrier l \<longleftrightarrow> leasePhase l = Admitted \<or> leasePhase l = Settling"

definition isConsumable :: "'o lease \<Rightarrow> bool" where
  "isConsumable l \<longleftrightarrow>
     leasePhase l = Released \<or> leasePhase l = Rejected \<or> leasePhase l = Interrupted"

datatype 'o lease_call =
    Admit | Settle | Interrupt error | Release | Reject | Deliver 'o | DeliverInterruption error

fun lease_perform :: "'o lease_call \<Rightarrow> 'o lease \<Rightarrow> error + 'o lease" where
  "lease_perform Admit = markAdmitted"
| "lease_perform Settle = markSettling"
| "lease_perform (Interrupt e) = lease_interrupt e"
| "lease_perform Release = markReleased"
| "lease_perform Reject = markRejected"
| "lease_perform (Deliver x) = deliverOutcome x"
| "lease_perform (DeliverInterruption e) = deliverInterruption e"

text \<open>A call that throws leaves the lease as it is.\<close>

fun lease_run :: "'o lease_call list \<Rightarrow> 'o lease \<Rightarrow> 'o lease" where
  "lease_run [] l = l"
| "lease_run (c # cs) l = lease_run cs (case lease_perform c l of Inl _ \<Rightarrow> l | Inr l' \<Rightarrow> l')"

lemmas lease_defs = markAdmitted_def markSettling_def lease_interrupt_def markReleased_def
  markRejected_def deliverOutcome_def deliverInterruption_def lease_transition_def

definition lease_ok :: "'o lease \<Rightarrow> bool" where
  "lease_ok l \<longleftrightarrow>
     leaseDelivered l = (leaseActivation l \<noteq> None) \<and>
     (leaseDelivered l \<longrightarrow> isConsumable l) \<and>
     (leasePhase l = Interrupted \<longrightarrow> leaseDelivered l) \<and>
     (\<forall>x. leaseActivation l = Some (Inr x) \<longrightarrow> leasePhase l = Released) \<and>
     (\<forall>e. leaseActivation l = Some (Inl e) \<longrightarrow> leasePhase l \<in> {Interrupted, Rejected})"

lemma lease_perform_ok:
  assumes "lease_ok l" and "lease_perform c l = Inr l'"
  shows "lease_ok l'" and "leaseActivation l \<noteq> None \<Longrightarrow> l' = l"
  using assms by (cases c; auto simp: lease_ok_def lease_defs isConsumable_def split: if_splits)+

lemma lease_run_ok: "lease_ok l \<Longrightarrow> lease_ok (lease_run cs l)"
  by (induction cs arbitrary: l) (auto simp: lease_perform_ok split: sum.splits)

text \<open>
  (C37) Exactly one delivery: whatever calls are tried on a new lease, its activation promise
  settles at most once and then nothing about the lease changes any more; it resolves
  only from the released phase and rejects only from the interrupted or rejected one, and
  a lease that still blocks its parent has delivered nothing.
\<close>

theorem lease_delivers_once:
  assumes "new_lease child = Inr l"
  shows "let l' = lease_run cs l in
    (leaseActivation l' \<noteq> None \<longrightarrow> lease_run ds l' = l') \<and>
    (\<forall>x. leaseActivation l' = Some (Inr x) \<longrightarrow> leasePhase l' = Released) \<and>
    (\<forall>e. leaseActivation l' = Some (Inl e) \<longrightarrow> leasePhase l' = Interrupted \<or> leasePhase l' = Rejected) \<and>
    (isWaitingBarrier l' \<longrightarrow> leaseActivation l' = None)"
proof -
  have "lease_ok l" using assms by (auto simp: new_lease_def lease_ok_def split: if_splits)
  then have ok: "lease_ok (lease_run cs l)" by (rule lease_run_ok)
  moreover have "lease_run ds k = k" if "lease_ok k" and "leaseActivation k \<noteq> None" for k
    using that by (induction ds) (auto split: sum.splits dest: lease_perform_ok(2))
  ultimately show ?thesis by (auto simp: Let_def lease_ok_def isWaitingBarrier_def isConsumable_def)
qed

theorem lease_delivers_once_witness:
  "\<exists>l. new_lease ''project-a'' = Inr l \<and>
    leaseActivation (lease_run [Admit, Settle, Release, Deliver (7::nat)] l) = Some (Inr 7) \<and>
    lease_run [Interrupt AuthoredRecordNotFoundError, Deliver 8]
      (lease_run [Admit, Settle, Release, Deliver (7::nat)] l) =
      lease_run [Admit, Settle, Release, Deliver 7] l"
proof -
  obtain l :: "nat lease" where l: "new_lease ''project-a'' = Inr l" by (simp add: new_lease_def)
  then have "leaseActivation (lease_run [Admit, Settle, Release, Deliver 7] l) = Some (Inr 7)"
    by (auto simp: new_lease_def lease_defs)
  then show ?thesis
    using l lease_delivers_once [OF l, of "[Admit, Settle, Release, Deliver 7]"
        "[Interrupt AuthoredRecordNotFoundError, Deliver 8]"]
    by (auto simp: Let_def)
qed

end
