(* ===== verification/OperationContract.thy ===== *)
theory OperationContract
  imports Schemas
begin

text \<open>
  The contract of workflow operations (\<open>src/runtime/card-process/operation-contract.ts\<close>): the
  declared decls of inputs and outcomes, the check of values against them, the check of what
  an operation returned, and the compiled catalogue of builtin and plugin operations.

  A JavaScript object is the list of its own properties in insertion order; field names start
  with a lower-case letter, so that is the order of \<open>Object.entries\<close>. Reading a
  property that is not own finds the members of \<open>Object.prototype\<close>: \<open>get_prop\<close>. Freezing and
  copying are the identity on values.
\<close>

section \<open>Limits\<close>

text \<open>Large limits are compared as binary integers.\<close>

definition at_most :: "nat \<Rightarrow> int \<Rightarrow> bool" where
  "at_most n limit \<longleftrightarrow> int n \<le> limit"

lemma at_most_numeral [simp]: "at_most n (numeral k) \<longleftrightarrow> n \<le> numeral k"
  by (simp add: at_most_def)

section \<open>Text measures\<close>

text \<open>
  \<open>String.prototype.trim\<close> on the UTF-8 bytes of the string (no suffix that starts inside a
  character is blank), and \<open>length\<close> in UTF-16 code units.
\<close>

definition trim_start :: "string \<Rightarrow> string" where
  "trim_start s = drop (last (filter (\<lambda>k. is_blank (take k s)) [0..<Suc (length s)])) s"

definition trim_end :: "string \<Rightarrow> string" where
  "trim_end s = (case filter (\<lambda>k. is_blank (drop k s)) [0..<Suc (length s)] of
     [] \<Rightarrow> s | k # _ \<Rightarrow> take k s)"

definition trim :: "string \<Rightarrow> string" where
  "trim s = trim_end (trim_start s)"

fun utf16_units :: "string \<Rightarrow> nat" where
  "utf16_units [] = 0"
| "utf16_units (c # cs) =
     (if 128 \<le> code c \<and> code c < 192 then 0 else if 240 \<le> code c then 2 else 1) + utf16_units cs"

text \<open>Well-formed UTF-8, as a fatal \<open>TextDecoder\<close> requires.\<close>

definition is_cont :: "nat \<Rightarrow> bool" where
  "is_cont b \<longleftrightarrow> 128 \<le> b \<and> b < 192"

fun utf8_valid :: "nat list \<Rightarrow> bool" where
  "utf8_valid [] = True"
| "utf8_valid (a # bs) =
     (if a < 128 then utf8_valid bs
      else if 194 \<le> a \<and> a < 224 then
        (case bs of b # cs \<Rightarrow> is_cont b \<and> utf8_valid cs | _ \<Rightarrow> False)
      else if 224 \<le> a \<and> a < 240 then
        (case bs of b # c # cs \<Rightarrow> is_cont b \<and> is_cont c \<and>
             (a = 224 \<longrightarrow> 160 \<le> b) \<and> (a = 237 \<longrightarrow> b < 160) \<and> utf8_valid cs | _ \<Rightarrow> False)
      else if 240 \<le> a \<and> a < 245 then
        (case bs of b # c # d # cs \<Rightarrow> is_cont b \<and> is_cont c \<and> is_cont d \<and>
             (a = 240 \<longrightarrow> 144 \<le> b) \<and> (a = 244 \<longrightarrow> b < 144) \<and> utf8_valid cs | _ \<Rightarrow> False)
      else False)"

section \<open>Objects\<close>

definition object_prototype :: "string list" where
  "object_prototype = [''constructor'', ''__defineGetter__'', ''__defineSetter__'',
     ''hasOwnProperty'', ''__lookupGetter__'', ''__lookupSetter__'', ''isPrototypeOf'',
     ''propertyIsEnumerable'', ''toString'', ''valueOf'', ''__proto__'', ''toLocaleString'']"

datatype 'a property = Own 'a | Inherited | Missing

definition get_prop :: "string \<Rightarrow> (string \<times> 'a) list \<Rightarrow> 'a property" where
  "get_prop name obj = (case map_of obj name of
     Some x \<Rightarrow> Own x
   | None \<Rightarrow> if name \<in> set object_prototype then Inherited else Missing)"

definition hasOwn :: "(string \<times> 'a) list \<Rightarrow> string \<Rightarrow> bool" where
  "hasOwn obj name \<longleftrightarrow> map_of obj name \<noteq> None"

section \<open>Values and fields\<close>

text \<open>
  \<open>OtherValue\<close> is any value of another type (\<open>null\<close>, \<open>undefined\<close>, an object, a fraction);
  \<open>ForeignField\<close> a member of \<open>Object.prototype\<close> read in place of a field declaration: it
  has no \<open>type\<close>.
\<close>

datatype op_value =
    StringValue string
  | BooleanValue bool
  | NumberValue int
  | StringsValue "string list"
  | OtherValue

datatype op_field =
    StringField "string list option" bool
  | IntegerField "int option" "int option" bool
  | BooleanField bool
  | StringsField bool
  | ForeignField

type_synonym op_values = "(string \<times> op_value) list"
type_synonym op_fields = "(string \<times> op_field) list"

fun field_workflow :: "op_field \<Rightarrow> bool" where
  "field_workflow (StringField _ w) = w"
| "field_workflow (IntegerField _ _ w) = w"
| "field_workflow (BooleanField w) = w"
| "field_workflow (StringsField w) = w"
| "field_workflow ForeignField = False"

definition lower_word :: "(char \<Rightarrow> bool) \<Rightarrow> nat \<Rightarrow> string \<Rightarrow> bool" where
  "lower_word extra n s \<longleftrightarrow> s \<noteq> [] \<and> is_lower (hd s) \<and> length s \<le> Suc n \<and>
     list_all (\<lambda>c. is_lower c \<or> is_digit c \<or> extra c) s"

definition outcomeSchema :: "string \<Rightarrow> bool" where
  "outcomeSchema = lower_word (\<lambda>c. c = CHR ''_'' \<or> c = CHR ''-'') 63"

definition fieldNameSchema :: "string \<Rightarrow> bool" where
  "fieldNameSchema = lower_word (\<lambda>c. c = CHR ''_'') 47"

definition safe_int :: "int \<Rightarrow> bool" where
  "safe_int n \<longleftrightarrow> - MAX_SAFE_INTEGER \<le> n \<and> n \<le> MAX_SAFE_INTEGER"

fun operationValueSchema :: "op_value \<Rightarrow> bool" where
  "operationValueSchema (StringValue s) = (at_most (length s) 4096)"
| "operationValueSchema (BooleanValue b) = True"
| "operationValueSchema (NumberValue n) = safe_int n"
| "operationValueSchema (StringsValue ss) = (at_most (length ss) 256 \<and> list_all (\<lambda>s. at_most (length s) 4096) ss)"
| "operationValueSchema OtherValue = False"

text \<open>The bytes of \<open>JSON.stringify\<close>.\<close>

fun json_char_size :: "char \<Rightarrow> nat" where
  "json_char_size c =
     (if c = CHR 0x22 \<or> c = CHR 0x5C then 2
      else if 32 \<le> code c then 1
      else if 8 \<le> code c \<and> code c \<le> 13 \<and> code c \<noteq> 11 then 2
      else 6)"

definition json_string_size :: "string \<Rightarrow> nat" where
  "json_string_size s = 2 + sum_list (map json_char_size s)"

fun decimal_digits :: "nat \<Rightarrow> nat" where
  "decimal_digits n = (if n < 10 then 1 else Suc (decimal_digits (n div 10)))"

declare decimal_digits.simps [simp del]

fun json_value_size :: "op_value \<Rightarrow> nat" where
  "json_value_size (StringValue s) = json_string_size s"
| "json_value_size (BooleanValue b) = (if b then 4 else 5)"
| "json_value_size (NumberValue n) = (if n < 0 then 1 else 0) + decimal_digits (nat \<bar>n\<bar>)"
| "json_value_size (StringsValue ss) =
     2 + sum_list (map json_string_size ss) + (length ss - 1)"
| "json_value_size OtherValue = 0"

definition json_values_size :: "op_values \<Rightarrow> nat" where
  "json_values_size values =
     2 + sum_list (map (\<lambda>(name, v). json_string_size name + 1 + json_value_size v) values) +
     (length values - 1)"

section \<open>Validation\<close>

definition validate_enum :: "string \<Rightarrow> string list \<Rightarrow> error + unit" where
  "validate_enum name values =
     bindE (guardE (values \<noteq> [] \<and> distinct values)
       (PlainError ''Field has an empty or duplicate enum.'' [name])) (\<lambda>_.
     bindE (mapE (\<lambda>v. guardE (operationValueSchema (StringValue v)) (ZodError ''operationValueSchema'')) values)
       (\<lambda>_. Inr ()))"

definition validate_range :: "string \<Rightarrow> int option \<Rightarrow> int option \<Rightarrow> error + unit" where
  "validate_range name lo hi =
     bindE (mapE (\<lambda>v. guardE (case v of None \<Rightarrow> True | Some n \<Rightarrow> safe_int n)
       (PlainError ''Field range must be safe integers.'' [name])) [lo, hi]) (\<lambda>_.
     guardE (case (lo, hi) of (Some a, Some b) \<Rightarrow> \<not> a > b | _ \<Rightarrow> True)
       (PlainError ''Field range is reversed.'' [name]))"

definition validate_field :: "string \<times> op_field \<Rightarrow> error + unit" where
  "validate_field = (\<lambda>(name, field).
     bindE (guardE (fieldNameSchema name) (ZodError ''fieldNameSchema'')) (\<lambda>_.
     case field of
       StringField (Some values) _ \<Rightarrow> validate_enum name values
     | StringField None _ \<Rightarrow> Inr ()
     | IntegerField lo hi _ \<Rightarrow> validate_range name lo hi
     | BooleanField _ \<Rightarrow> Inr ()
     | StringsField _ \<Rightarrow> Inr ()
     | ForeignField \<Rightarrow> Inl (PlainError ''Field needs workflow visibility.'' [name])))"

definition validateOperationFields :: "op_fields \<Rightarrow> error + unit" where
  "validateOperationFields decls =
     bindE (guardE (length decls \<le> 32) (PlainError ''Operation declares more than 32 fields.'' [])) (\<lambda>_.
     bindE (mapE validate_field decls) (\<lambda>_. Inr ()))"

fun field_admits :: "op_field \<Rightarrow> op_value \<Rightarrow> bool" where
  "field_admits (StringsField _) v = (case v of StringsValue _ \<Rightarrow> True | _ \<Rightarrow> False)"
| "field_admits (IntegerField lo hi _) v = (case v of
     NumberValue n \<Rightarrow> (case lo of None \<Rightarrow> True | Some a \<Rightarrow> n \<ge> a) \<and>
       (case hi of None \<Rightarrow> True | Some b \<Rightarrow> n \<le> b)
   | _ \<Rightarrow> False)"
| "field_admits (StringField values _) v = (case v of
     StringValue s \<Rightarrow> (case values of None \<Rightarrow> True | Some allowed \<Rightarrow> s \<in> set allowed)
   | _ \<Rightarrow> False)"
| "field_admits (BooleanField _) v = (case v of BooleanValue _ \<Rightarrow> True | _ \<Rightarrow> False)"
| "field_admits ForeignField v = (case v of BooleanValue _ \<Rightarrow> True | _ \<Rightarrow> False)"

text \<open>The item is read with \<open>values[name]\<close>; every name of \<open>fields\<close> is own in \<open>values\<close> by then.\<close>

definition validate_item :: "op_values \<Rightarrow> string \<times> op_field \<Rightarrow> error + unit" where
  "validate_item values = (\<lambda>(name, field).
     guardE (field_admits field (case map_of values name of Some v \<Rightarrow> v | None \<Rightarrow> OtherValue))
       (PlainError ''Operation field does not match its declaration.'' [name]))"

definition validateOperationValues :: "op_fields \<Rightarrow> op_values \<Rightarrow> error + op_values" where
  "validateOperationValues decls values =
     bindE (guardE (list_all (\<lambda>(name, v). fieldNameSchema name \<and> operationValueSchema v) values)
       (ZodError ''operationValues'')) (\<lambda>_.
     bindE (guardE (at_most (json_values_size values) 65536) (PlainError ''Operation values exceed 64KiB.'' [])) (\<lambda>_.
     bindE (guardE (length values = length decls \<and> list_all (\<lambda>(name, _). hasOwn decls name) values)
       (PlainError ''Operation fields must match exactly.'' [])) (\<lambda>_.
     bindE (mapE (validate_item values) decls) (\<lambda>_. Inr values))))"

section \<open>Operation definitions\<close>

datatype provider_kind = Builtin | Plugin
datatype operation_binding = NodeBinding | AfterActivationCommit
datatype output_source = CommandStdout | ReturnedText

record op_provider =
  provider_kind :: provider_kind
  provider_name :: string

text \<open>\<open>config\<close> is the parser of the operation's own configuration schema.\<close>

record 'c operation_definition =
  op_id :: string
  provider :: op_provider
  contractVersion :: nat
  bindings :: "operation_binding list"
  config :: "'c \<Rightarrow> error + 'c"
  op_inputs :: op_fields
  outcomes :: "(string \<times> op_fields) list"
  retainFields :: "string list"
  op_output :: "output_source option"

record operation_return =
  ret_outcome :: string
  ret_summary :: string
  ret_values :: op_values

definition validateOperationReturn ::
    "'c operation_definition \<Rightarrow> operation_return \<Rightarrow> error + operation_return" where
  "validateOperationReturn d r =
     (let summary = trim (ret_summary r) in
      bindE (guardE (outcomeSchema (ret_outcome r) \<and> 1 \<le> utf16_units summary \<and> at_most (utf16_units summary) 2000)
        (ZodError ''operationReturn'')) (\<lambda>_.
      bindE (optionE (PlainError ''Operation returned undeclared outcome.'' [op_id d, ret_outcome r])
        (map_of (outcomes d) (ret_outcome r))) (\<lambda>decls.
      bindE (validateOperationValues decls (ret_values r)) (\<lambda>values.
      Inr (r\<lparr>ret_summary := summary, ret_values := values\<rparr>)))))"

definition validate_retained :: "'c operation_definition \<Rightarrow> string \<Rightarrow> error + unit" where
  "validate_retained d name =
     (let declarations = concat (map (\<lambda>(_, decls).
          case map_of decls name of Some f \<Rightarrow> [f] | None \<Rightarrow> []) (outcomes d)) in
      guardE (declarations \<noteq> [] \<and> list_all field_workflow declarations)
        (PlainError ''Retained field must be declared and workflow-safe.'' [name]))"

definition freezeDefinition :: "'c operation_definition \<Rightarrow> error + 'c operation_definition" where
  "freezeDefinition d =
     bindE (guardE (operationIdSchema (op_id d)) (ZodError ''operationIdSchema'')) (\<lambda>_.
     bindE (guardE (contractVersion d = 1) (PlainError ''Unsupported operation contract.'' [op_id d])) (\<lambda>_.
     bindE (guardE (provider_name (provider d) \<noteq> [])
       (PlainError ''Operation provider must have an exact name.'' [])) (\<lambda>_.
     bindE (guardE (bindings d \<noteq> [] \<and> distinct (bindings d))
       (PlainError ''Operation has invalid bindings.'' [op_id d])) (\<lambda>_.
     bindE (validateOperationFields (op_inputs d)) (\<lambda>_.
     bindE (guardE (outcomes d \<noteq> []) (PlainError ''Operation needs a named outcome.'' [])) (\<lambda>_.
     bindE (mapE (\<lambda>(outcome, decls).
       bindE (guardE (outcomeSchema outcome) (ZodError ''outcomeSchema'')) (\<lambda>_.
       validateOperationFields decls)) (outcomes d)) (\<lambda>_.
     bindE (guardE (length (retainFields d) \<le> 32 \<and> distinct (retainFields d))
       (PlainError ''Invalid retained operation fields.'' [])) (\<lambda>_.
     bindE (mapE (validate_retained d) (retainFields d)) (\<lambda>_. Inr d)))))))))"

record operation_run_result =
  run_result :: operation_return
  run_output :: "string option"

definition validateOperationRunResult ::
    "'c operation_definition \<Rightarrow> operation_run_result \<Rightarrow> error + operation_run_result" where
  "validateOperationRunResult d completed =
     bindE (validateOperationReturn d (run_result completed)) (\<lambda>result.
     case (op_output d, run_output completed) of
       (Some ReturnedText, None) \<Rightarrow>
         Inl (PlainError ''Returned-text operation omitted its output.'' [])
     | (Some ReturnedText, Some bytes) \<Rightarrow>
         bindE (guardE (at_most (length bytes) 1048576) (PlainError ''Operation output exceeds 1MiB.'' [])) (\<lambda>_.
         bindE (guardE (utf8_valid (map of_char bytes)) (PlainError ''TypeError'' [])) (\<lambda>_.
         bindE (guardE (\<not> is_blank bytes \<and> CHR 0x00 \<notin> set bytes)
           (PlainError ''Operation output must be substantive text without NUL.'' [])) (\<lambda>_.
         Inr \<lparr>run_result = result, run_output = Some bytes\<rparr>)))
     | (_, Some _) \<Rightarrow>
         Inl (PlainError ''Only returned-text operations may supply output bytes.'' [])
     | (_, None) \<Rightarrow> Inr \<lparr>run_result = result, run_output = None\<rparr>)"

section \<open>The compiled catalogue\<close>

record 'c operation_plugin =
  plugin_namespace :: string
  plugin_operations :: "(string \<times> 'c operation_definition) list"

definition operationNamespaceSchema :: "string \<Rightarrow> bool" where
  "operationNamespaceSchema = operationComponent"

definition operationKeySchema :: "string \<Rightarrow> bool" where
  "operationKeySchema s \<longleftrightarrow> list_all operationComponent (split_on CHR ''.'' s)"

definition reserved_namespaces :: "string list" where
  "reserved_namespaces = [''shell'', ''git'', ''saivage'']"

definition add_operation :: "'c operation_definition \<Rightarrow> 'c operation_definition list \<Rightarrow>
    error + 'c operation_definition list" where
  "add_operation d definitions =
     bindE (guardE (op_id d \<notin> op_id ` set definitions) (PlainError ''Duplicate operation.'' [op_id d])) (\<lambda>_.
     bindE (freezeDefinition d) (\<lambda>frozen. Inr (definitions @ [frozen])))"

definition add_builtin :: "'c operation_definition \<Rightarrow> 'c operation_definition list \<Rightarrow>
    error + 'c operation_definition list" where
  "add_builtin d definitions =
     bindE (guardE (operationIdSchema (op_id d)) (ZodError ''operationIdSchema'')) (\<lambda>_.
     let namespace = hd (split_on CHR ''.'' (op_id d)) in
     bindE (guardE (namespace \<in> set reserved_namespaces \<and> provider_kind (provider d) = Builtin \<and>
         provider_name (provider d) = namespace)
       (PlainError ''Invalid builtin operation declaration.'' [])) (\<lambda>_.
     add_operation d definitions))"

definition add_plugin_operation :: "string \<Rightarrow> string \<times> 'c operation_definition \<Rightarrow>
    'c operation_definition list \<Rightarrow> error + 'c operation_definition list" where
  "add_plugin_operation namespace = (\<lambda>(name, d) definitions.
     bindE (guardE (operationKeySchema name) (ZodError ''operationKeySchema'')) (\<lambda>_.
     bindE (guardE (op_id d = namespace @ ''.'' @ name \<and> provider_kind (provider d) = Plugin \<and>
         provider_name (provider d) = namespace)
       (PlainError ''Plugin operation identity does not match.'' [namespace, name])) (\<lambda>_.
     add_operation d definitions)))"

fun foldE :: "('a \<Rightarrow> 's \<Rightarrow> error + 's) \<Rightarrow> 'a list \<Rightarrow> 's \<Rightarrow> error + 's" where
  "foldE f [] s = Inr s"
| "foldE f (x # xs) s = bindE (f x s) (foldE f xs)"

lemma foldE_invariant:
  assumes "foldE f xs s = Inr s'" and "I s"
    and "\<And>x s s'. x \<in> set xs \<Longrightarrow> I s \<Longrightarrow> f x s = Inr s' \<Longrightarrow> I s'"
  shows "I s'"
  using assms by (induction xs arbitrary: s) (auto simp: errE)

definition add_plugin :: "'c operation_plugin \<Rightarrow> string list \<times> 'c operation_definition list \<Rightarrow>
    error + string list \<times> 'c operation_definition list" where
  "add_plugin p = (\<lambda>(namespaces, definitions).
     bindE (guardE (operationNamespaceSchema (plugin_namespace p)) (ZodError ''operationNamespaceSchema'')) (\<lambda>_.
     bindE (guardE (\<not> (plugin_namespace p \<in> set reserved_namespaces \<or> plugin_namespace p \<in> set namespaces))
       (PlainError ''Reserved or duplicate operation namespace.'' [plugin_namespace p])) (\<lambda>_.
     bindE (foldE (add_plugin_operation (plugin_namespace p)) (plugin_operations p) definitions) (\<lambda>ds.
     Inr (namespaces @ [plugin_namespace p], ds)))))"

definition compileOperations :: "'c operation_definition list \<Rightarrow> 'c operation_plugin list \<Rightarrow>
    error + (string \<times> 'c operation_definition) list" where
  "compileOperations builtins plugins =
     bindE (foldE add_builtin builtins []) (\<lambda>definitions.
     bindE (foldE add_plugin plugins ([], definitions)) (\<lambda>(_, all_definitions).
     Inr (map (\<lambda>d. (op_id d, d)) all_definitions)))"

end
