(* ===== verification/OperationRouting.thy ===== *)
theory OperationRouting
  imports OperationContract
begin

text \<open>
  How workflow data reaches an operation (\<open>src/runtime/card-process/operation-routing.ts\<close>):
  inputs bound to literals, to facts of the card, or along an edge to an output of the
  previous operation; the compile-time checks of these bindings; their resolution at run
  time; and the choice of the route an operation's result takes.
\<close>

section \<open>Bindings\<close>

datatype fact_source = CardIdFact | CardTypeFact | CardTitleFact | CommittedStatusFact

datatype input_binding = Literal op_value | Source fact_source

type_synonym input_bindings = "(string \<times> input_binding) list"
type_synonym edge_inputs = "(string \<times> string) list"

datatype route_op = OpEq | OpGt | OpGte | OpLt | OpLte

record route_test =
  test_field :: string
  test_op :: route_op
  test_value :: op_value

record operation_route =
  route_outcome :: string
  route_id :: string
  route_test :: "route_test option"

record operation_facts =
  fact_card_id :: string
  fact_card_type :: string
  fact_card_title :: string
  fact_committed_status :: "string option"

text \<open>\<open>compileInputBindings\<close> and \<open>compileEdgeInputs\<close> copy and freeze.\<close>

record 'c compiled_action =
  act_operation :: "'c operation_definition"
  act_config :: 'c
  act_inputs :: input_bindings

record 'c action_source =
  src_action :: string
  src_contract_version :: nat
  src_config :: 'c
  src_inputs :: input_bindings

definition truthy_field :: "string \<Rightarrow> op_fields \<Rightarrow> op_field option" where
  "truthy_field name decls = (case get_prop name decls of
     Own f \<Rightarrow> Some f | Inherited \<Rightarrow> Some ForeignField | Missing \<Rightarrow> None)"

definition validate_binding :: "op_fields \<Rightarrow> bool \<Rightarrow> string \<times> input_binding \<Rightarrow> error + unit" where
  "validate_binding decls hook = (\<lambda>(name, binding).
     bindE (optionE (PlainError ''Unknown input.'' [name]) (truthy_field name decls)) (\<lambda>field.
     case binding of
       Literal v \<Rightarrow> bindE (validateOperationValues [(name, field)] [(name, v)]) (\<lambda>_. Inr ())
     | Source src \<Rightarrow>
         bindE (guardE (\<not> (src = CommittedStatusFact \<and> \<not> hook))
           (PlainError ''committed_status is hook-only.'' [])) (\<lambda>_.
         bindE (guardE (case field of StringField _ _ \<Rightarrow> True | _ \<Rightarrow> False)
           (PlainError ''Factual source requires string input.'' [name])) (\<lambda>_.
         guardE (case field of StringField (Some _) _ \<Rightarrow> False | _ \<Rightarrow> True)
           (PlainError ''Factual source cannot guarantee enum input.'' [name])))))"

definition validateInputBindings :: "op_fields \<Rightarrow> input_bindings \<Rightarrow> bool \<Rightarrow> error + unit" where
  "validateInputBindings decls bound hook = bindE (mapE (validate_binding decls hook) bound) (\<lambda>_. Inr ())"

fun assignable :: "op_field \<Rightarrow> op_field \<Rightarrow> bool" where
  "assignable (IntegerField lo hi w) (IntegerField lo' hi' w') = (w \<and>
     (case lo' of None \<Rightarrow> True | Some a \<Rightarrow> (case lo of None \<Rightarrow> False | Some b \<Rightarrow> b \<ge> a)) \<and>
     (case hi' of None \<Rightarrow> True | Some a \<Rightarrow> (case hi of None \<Rightarrow> False | Some b \<Rightarrow> b \<le> a)))"
| "assignable (StringField values w) (StringField values' w') = (w \<and>
     (case values' of None \<Rightarrow> True
      | Some targets \<Rightarrow> (case values of None \<Rightarrow> False | Some sources \<Rightarrow> list_all (\<lambda>v. v \<in> set targets) sources)))"
| "assignable (BooleanField w) (BooleanField w') = w"
| "assignable (StringsField w) (StringsField w') = w"
| "assignable source target = False"

definition validate_edge_input :: "op_fields \<Rightarrow> input_bindings \<Rightarrow> op_fields \<Rightarrow>
    string \<times> string \<Rightarrow> error + unit" where
  "validate_edge_input decls base outputs = (\<lambda>(name, output).
     bindE (guardE (\<not> hasOwn base name) (PlainError ''Duplicate supplier for input.'' [name])) (\<lambda>_.
     guardE (case (truthy_field name decls, truthy_field output outputs) of
         (Some target, Some source) \<Rightarrow> assignable source target
       | _ \<Rightarrow> False)
       (PlainError ''Invalid output binding.'' [output, name])))"

definition validateIncomingInputs :: "op_fields \<Rightarrow> input_bindings \<Rightarrow> edge_inputs \<Rightarrow>
    op_fields \<Rightarrow> error + unit" where
  "validateIncomingInputs decls base edge outputs =
     bindE (mapE (validate_edge_input decls base outputs) edge) (\<lambda>_.
     bindE (mapE (\<lambda>(name, _). guardE (hasOwn base name \<or> hasOwn edge name)
       (PlainError ''Missing required input.'' [name])) decls) (\<lambda>_. Inr ()))"

definition compileDataFields :: "op_fields \<Rightarrow> error + op_fields" where
  "compileDataFields source =
     (let decls = map (\<lambda>(name, f). (name, case f of
          StringField values _ \<Rightarrow> StringField values True
        | IntegerField lo hi _ \<Rightarrow> IntegerField lo hi True
        | BooleanField _ \<Rightarrow> BooleanField True
        | StringsField _ \<Rightarrow> StringsField True
        | ForeignField \<Rightarrow> ForeignField)) source in
      bindE (validateOperationFields decls) (\<lambda>_. Inr decls))"

definition compileActionExecution :: "'c action_source \<Rightarrow> (string \<times> 'c operation_definition) list \<Rightarrow>
    operation_binding \<Rightarrow> error + 'c compiled_action" where
  "compileActionExecution source operations binding =
     bindE (guardE (operationIdSchema (src_action source)) (ZodError ''operationIdSchema'')) (\<lambda>_.
     bindE (optionE (PlainError ''Unresolved operation.'' [src_action source])
       (map_of operations (src_action source))) (\<lambda>operation.
     bindE (guardE (src_contract_version source = contractVersion operation)
       (PlainError ''Unsupported contract.'' [src_action source])) (\<lambda>_.
     bindE (guardE (binding \<in> set (bindings operation))
       (PlainError ''Operation does not support binding.'' [src_action source])) (\<lambda>_.
     bindE (config operation (src_config source)) (\<lambda>cfg.
     bindE (validateInputBindings (op_inputs operation) (src_inputs source)
       (binding = AfterActivationCommit)) (\<lambda>_.
     bindE (if binding = AfterActivationCommit
       then validateIncomingInputs (op_inputs operation) (src_inputs source) [] [] else Inr ()) (\<lambda>_.
     Inr \<lparr>act_operation = operation, act_config = cfg, act_inputs = src_inputs source\<rparr>)))))))"

section \<open>Routes\<close>

definition validateRouteTest :: "route_test \<Rightarrow> op_fields \<Rightarrow> error + unit" where
  "validateRouteTest t decls =
     bindE (optionE (PlainError ''Case field is not workflow-safe.'' [test_field t])
       (case truthy_field (test_field t) decls of
          Some f \<Rightarrow> if field_workflow f then Some f else None | None \<Rightarrow> None)) (\<lambda>field.
     bindE (guardE (\<not> (test_op t \<noteq> OpEq \<and> (case field of IntegerField _ _ _ \<Rightarrow> False | _ \<Rightarrow> True)))
       (PlainError ''Ordered comparisons require integer fields.'' [])) (\<lambda>_.
     bindE (guardE (case field of StringsField _ \<Rightarrow> False | _ \<Rightarrow> True)
       (PlainError ''Cases cannot compare list fields.'' [])) (\<lambda>_.
     bindE (validateOperationValues [(test_field t, field)] [(test_field t, test_value t)]) (\<lambda>_. Inr ()))))"

text \<open>
  \<open>values[field]\<close> of a validated return; two arrays are never \<open>===\<close>. Ordered comparisons of a
  validated test compare numbers: on anything else the cast of the source is not modelled
  and the comparison is false.
\<close>

definition number_test :: "(int \<Rightarrow> int \<Rightarrow> bool) \<Rightarrow> op_value \<Rightarrow> op_value \<Rightarrow> bool" where
  "number_test r a b = (case (a, b) of (NumberValue x, NumberValue y) \<Rightarrow> r x y | _ \<Rightarrow> False)"

fun value_identical :: "op_value \<Rightarrow> op_value \<Rightarrow> bool" where
  "value_identical (StringValue a) (StringValue b) = (a = b)"
| "value_identical (BooleanValue a) (BooleanValue b) = (a = b)"
| "value_identical (NumberValue a) (NumberValue b) = (a = b)"
| "value_identical _ _ = False"

definition routeTestMatches :: "route_test \<Rightarrow> op_values \<Rightarrow> bool" where
  "routeTestMatches t values =
     (let value = (case map_of values (test_field t) of Some v \<Rightarrow> v | None \<Rightarrow> OtherValue) in
      case test_op t of
        OpEq \<Rightarrow> value_identical value (test_value t)
      | OpGt \<Rightarrow> number_test (>) value (test_value t)
      | OpGte \<Rightarrow> number_test (\<ge>) value (test_value t)
      | OpLt \<Rightarrow> number_test (<) value (test_value t)
      | OpLte \<Rightarrow> number_test (\<le>) value (test_value t))"

definition route_matches :: "operation_return \<Rightarrow> operation_route \<Rightarrow> bool" where
  "route_matches result r \<longleftrightarrow> route_outcome r = ret_outcome result \<and>
     (case route_test r of None \<Rightarrow> True | Some t \<Rightarrow> routeTestMatches t (ret_values result))"

definition selectOperationRoute :: "'c compiled_action \<Rightarrow> operation_route list \<Rightarrow>
    operation_return \<Rightarrow> error + operation_return \<times> string" where
  "selectOperationRoute execution routes raw =
     bindE (validateOperationReturn (act_operation execution) raw) (\<lambda>result.
     bindE (optionE (PlainError ''No compiled route.'' [ret_outcome result])
       (find (route_matches result) routes)) (\<lambda>r. Inr (result, route_id r)))"

section \<open>Resolution at run time\<close>

definition fact_value :: "operation_facts \<Rightarrow> fact_source \<Rightarrow> op_value" where
  "fact_value facts src = (case src of
     CardIdFact \<Rightarrow> StringValue (fact_card_id facts)
   | CardTypeFact \<Rightarrow> StringValue (fact_card_type facts)
   | CardTitleFact \<Rightarrow> StringValue (fact_card_title facts)
   | CommittedStatusFact \<Rightarrow>
       (case fact_committed_status facts of Some s \<Rightarrow> StringValue s | None \<Rightarrow> OtherValue))"

definition resolve_binding :: "operation_facts \<Rightarrow> input_binding \<Rightarrow> op_value" where
  "resolve_binding facts b = (case b of Literal v \<Rightarrow> v | Source src \<Rightarrow> fact_value facts src)"

definition resolve_edge :: "op_values \<Rightarrow> string \<times> string \<Rightarrow> op_values \<Rightarrow> error + op_values" where
  "resolve_edge values = (\<lambda>(name, output) resolved.
     bindE (guardE (\<not> hasOwn resolved name) (PlainError ''Duplicate supplier for input.'' [name])) (\<lambda>_.
     Inr (resolved @ [(name, case map_of values output of Some v \<Rightarrow> v | None \<Rightarrow> OtherValue)])))"

definition resolveExecutionInputs :: "op_fields \<Rightarrow> input_bindings \<Rightarrow> edge_inputs \<Rightarrow> op_values \<Rightarrow>
    operation_facts \<Rightarrow> error + op_values" where
  "resolveExecutionInputs decls base edge values facts =
     bindE (foldE (resolve_edge values) edge
       (map (\<lambda>(name, b). (name, resolve_binding facts b)) base)) (\<lambda>resolved.
     validateOperationValues decls resolved)"

end
