(* ===== verification/OperationProperties.thy ===== *)
theory OperationProperties
  imports OperationRouting
begin

text \<open>
  What the checks of operation contracts guarantee: the exact meaning of the value check, the
  soundness of the compile-time input checks for the resolution at run time, the choice of
  routes, the catalogue of operations, and the one gap of the input check.
\<close>

section \<open>Checked values\<close>

definition keys :: "(string \<times> 'a) list \<Rightarrow> string list" where
  "keys obj = map fst obj"

lemma hasOwn_iff [simp]: "hasOwn obj name \<longleftrightarrow> name \<in> set (keys obj)"
  by (auto simp: hasOwn_def keys_def map_of_eq_None_iff)

lemma keys_lookup: "name \<in> set (keys obj) \<longleftrightarrow> (\<exists>x. map_of obj name = Some x)"
  by (metis hasOwn_def hasOwn_iff not_Some_eq)

definition values_ok :: "op_fields \<Rightarrow> op_values \<Rightarrow> bool" where
  "values_ok decls values \<longleftrightarrow>
     (\<forall>(name, v) \<in> set values. fieldNameSchema name \<and> operationValueSchema v) \<and>
     json_values_size values \<le> 65536 \<and> set (keys values) = set (keys decls) \<and>
     (\<forall>(name, f) \<in> set decls. \<exists>v. map_of values name = Some v \<and> field_admits f v)"

lemma mapE_guard:
  "(\<exists>ys. mapE (\<lambda>x. guardE (P x) (e x)) xs = Inr ys) \<longleftrightarrow> (\<forall>x \<in> set xs. P x)"
  by (simp add: mapE_succeeds_iff guardE_def)

lemma validateOperationValues_iff:
  assumes "distinct (keys decls)" and "distinct (keys values)"
  shows "validateOperationValues decls values = Inr r \<longleftrightarrow> r = values \<and> values_ok decls values"
proof -
  have same: "length values = length decls \<and> set (keys values) \<subseteq> set (keys decls) \<longleftrightarrow>
      set (keys values) = set (keys decls)"
  proof
    assume "length values = length decls \<and> set (keys values) \<subseteq> set (keys decls)"
    then show "set (keys values) = set (keys decls)"
      using distinct_same_length_set(1) [OF assms(2), of "keys decls"] by (simp add: keys_def)
  next
    assume eq: "set (keys values) = set (keys decls)"
    then have "length (keys values) = length (keys decls)"
      using assms distinct_card by metis
    with eq show "length values = length decls \<and> set (keys values) \<subseteq> set (keys decls)"
      by (simp add: keys_def)
  qed
  have items: "(\<exists>ys. mapE (validate_item values) decls = Inr ys) \<longleftrightarrow>
      (\<forall>(name, f) \<in> set decls. \<exists>v. map_of values name = Some v \<and> field_admits f v)"
    if "set (keys values) = set (keys decls)"
  proof -
    have "\<exists>v. map_of values name = Some v" if "(name, f) \<in> set decls" for name f
      using that \<open>set (keys values) = set (keys decls)\<close>
      by (metis fst_conv image_eqI keys_def list.set_map map_of_eq_None_iff not_Some_eq)
    note present = this
    have "(\<exists>y. validate_item values x = Inr y) \<longleftrightarrow>
        (case x of (name, f) \<Rightarrow> \<exists>v. map_of values name = Some v \<and> field_admits f v)"
      if x: "x \<in> set decls" for x
    proof -
      obtain name f where nf: "x = (name, f)" by (rule prod.exhaust)
      obtain v where "map_of values name = Some v" using present x nf by blast
      with nf show ?thesis by (simp add: validate_item_def guardE_def)
    qed
    then show ?thesis by (simp add: mapE_succeeds_iff)
  qed
  show ?thesis
    using same items
    by (auto simp: validateOperationValues_def values_ok_def errE list_all_iff keys_def split: prod.splits)
      (metis fst_conv image_eqI)
qed

section \<open>Checked bindings\<close>

lemma assignable_admits: "assignable source target \<Longrightarrow> field_admits source v \<Longrightarrow> field_admits target v"
  by (cases source; cases target)
    (auto split: op_value.splits option.splits simp: list_all_iff)

lemma truthy_own:
  "name \<in> set (keys decls) \<Longrightarrow> truthy_field name decls = map_of decls name"
  by (auto simp: truthy_field_def get_prop_def keys_def map_of_eq_None_iff split: option.splits)

lemma map_of_pair_iff:
  "distinct (keys obj) \<Longrightarrow> (name, x) \<in> set obj \<longleftrightarrow> map_of obj name = Some x"
  by (simp add: keys_def)

lemma single_values:
  "validateOperationValues [(name, f)] [(name, v)] = Inr r \<longleftrightarrow>
    r = [(name, v)] \<and> values_ok [(name, f)] [(name, v)]"
  by (rule validateOperationValues_iff) (simp_all add: keys_def)

lemma foreign_names:
  assumes "name \<in> set object_prototype" and "fieldNameSchema name"
  shows "name = ''constructor''"
proof -
  have "\<forall>n \<in> set object_prototype. fieldNameSchema n \<longrightarrow> n = ''constructor''" by code_simp
  with assms show ?thesis by blast
qed

text \<open>A binding that passes the check names a declared field, but for one undeclared name.\<close>

lemma validate_binding_Inr:
  assumes "validate_binding decls hook (name, b) = Inr u"
    and "name \<in> set (keys decls) \<or> name \<noteq> ''constructor''"
  shows "\<exists>f. map_of decls name = Some f \<and> (case b of
     Literal v \<Rightarrow> fieldNameSchema name \<and> operationValueSchema v \<and> field_admits f v
   | Source src \<Rightarrow> (src = CommittedStatusFact \<longrightarrow> hook) \<and> (\<exists>w. f = StringField None w))"
proof -
  obtain f where f: "truthy_field name decls = Some f"
    using assms(1) by (auto simp: validate_binding_def errE)
  have own: "name \<in> set (keys decls)"
  proof (rule ccontr)
    assume n: "name \<notin> set (keys decls)"
    then have "map_of decls name = None" by (simp add: keys_def map_of_eq_None_iff)
    then have "f = ForeignField" and proto: "name \<in> set object_prototype"
      using f by (auto simp: truthy_field_def get_prop_def split: if_splits)
    then have "fieldNameSchema name"
      using assms(1) f
      by (auto simp: validate_binding_def errE single_values values_ok_def split: input_binding.splits)
    with proto foreign_names assms(2) n show False by blast
  qed
  then have "map_of decls name = Some f" using f truthy_own by simp
  with assms(1) f show ?thesis
    by (auto simp: validate_binding_def errE single_values values_ok_def
        split: input_binding.splits op_field.splits option.splits)
qed

text \<open>
  What the compile-time checks leave to the run time: the facts that are bound must fit the limit of
  a string value, and no binding may be for the one undeclared name the checks let through.
\<close>

definition facts_fit :: "input_bindings \<Rightarrow> operation_facts \<Rightarrow> bool" where
  "facts_fit base facts \<longleftrightarrow> (\<forall>name src. (name, Source src) \<in> set base \<longrightarrow>
     (\<exists>s. fact_value facts src = StringValue s \<and> length s \<le> 4096))"

definition only_declared :: "op_fields \<Rightarrow> input_bindings \<Rightarrow> bool" where
  "only_declared decls base \<longleftrightarrow> (''constructor'' \<in> set (keys base) \<longrightarrow> ''constructor'' \<in> set (keys decls))"

section \<open>Resolution\<close>

definition resolved_inputs :: "input_bindings \<Rightarrow> edge_inputs \<Rightarrow> op_values \<Rightarrow> operation_facts \<Rightarrow> op_values" where
  "resolved_inputs base edge values facts =
     map (\<lambda>(name, b). (name, resolve_binding facts b)) base @
     map (\<lambda>(name, output). (name, case map_of values output of Some v \<Rightarrow> v | None \<Rightarrow> OtherValue)) edge"

lemma resolve_edges:
  assumes "distinct (keys acc @ keys edge)"
  shows "foldE (resolve_edge values) edge acc = Inr (acc @
    map (\<lambda>(name, output). (name, case map_of values output of Some v \<Rightarrow> v | None \<Rightarrow> OtherValue)) edge)"
  using assms
proof (induction edge arbitrary: acc)
  case (Cons e edge)
  obtain name out where e: "e = (name, out)" by (rule prod.exhaust)
  have "name \<notin> set (keys acc)" using Cons.prems e by (auto simp: keys_def)
  moreover have "distinct (keys (acc @ [(name, v)]) @ keys edge)" for v
    using Cons.prems e by (auto simp: keys_def)
  ultimately show ?case using e Cons.IH by (simp add: resolve_edge_def)
qed simp

lemma resolved_keys: "keys (resolved_inputs base edge values facts) = keys base @ keys edge"
  by (simp add: keys_def resolved_inputs_def case_prod_unfold comp_def)

lemma map_of_resolved_base:
  "map_of base name = Some b \<Longrightarrow>
    map_of (resolved_inputs base edge values facts) name = Some (resolve_binding facts b)"
  by (auto simp: resolved_inputs_def map_of_map)

lemma map_of_resolved_edge:
  "map_of base name = None \<Longrightarrow> map_of edge name = Some out \<Longrightarrow> map_of values out = Some v \<Longrightarrow>
    map_of (resolved_inputs base edge values facts) name = Some v"
  by (simp add: resolved_inputs_def map_of_map map_add_def)

text \<open>The value an input resolves to, once the bindings passed the checks.\<close>

lemma base_value:
  assumes bound: "validateInputBindings decls base hook = Inr ()" and "distinct (keys decls)"
    and "map_of base name = Some b" and "name \<in> set (keys decls) \<or> name \<noteq> ''constructor''"
    and facts: "facts_fit base facts"
  shows "\<exists>f. (name, f) \<in> set decls \<and> operationValueSchema (resolve_binding facts b) \<and>
    field_admits f (resolve_binding facts b)"
proof -
  have "\<exists>u. validate_binding decls hook (name, b) = Inr u"
    using bound map_of_SomeD [OF assms(3)]
    by (auto simp: validateInputBindings_def errE dest!: mapE_each)
  then obtain f where f: "map_of decls name = Some f" and b: "case b of
     Literal v \<Rightarrow> fieldNameSchema name \<and> operationValueSchema v \<and> field_admits f v
   | Source src \<Rightarrow> (src = CommittedStatusFact \<longrightarrow> hook) \<and> (\<exists>w. f = StringField None w)"
    using validate_binding_Inr assms(4) by blast
  have "(name, f) \<in> set decls" using f by (rule map_of_SomeD)
  moreover have "operationValueSchema (resolve_binding facts b) \<and> field_admits f (resolve_binding facts b)"
  proof (cases b)
    case (Source src)
    then obtain s where "fact_value facts src = StringValue s" "length s \<le> 4096"
      using facts map_of_SomeD [OF assms(3)] unfolding facts_fit_def by blast
    moreover from b Source obtain w where "f = StringField None w" by auto
    ultimately show ?thesis using Source by (simp add: resolve_binding_def)
  qed (use b in \<open>simp add: resolve_binding_def\<close>)
  ultimately show ?thesis by blast
qed

lemma edge_value:
  assumes incoming: "validateIncomingInputs decls base edge outputs = Inr ()"
    and "map_of edge name = Some out" and vals: "values_ok outputs values"
  shows "map_of base name = None \<and> (\<exists>f v. map_of decls name = Some f \<and> map_of values out = Some v \<and>
    operationValueSchema v \<and> field_admits f v)"
proof -
  have "\<exists>u. validate_edge_input decls base outputs (name, out) = Inr u"
    using incoming map_of_SomeD [OF assms(2)]
    by (auto simp: validateIncomingInputs_def errE dest!: mapE_each)
  then obtain f g where none: "name \<notin> set (keys base)"
      and fg: "truthy_field name decls = Some f" "truthy_field out outputs = Some g" "assignable g f"
    by (auto simp: validate_edge_input_def errE split: option.splits)
  have "f \<noteq> ForeignField" "g \<noteq> ForeignField" using fg(3) by (cases f; cases g; simp)+
  then have "map_of decls name = Some f" "map_of outputs out = Some g"
    using fg(1,2) by (auto simp: truthy_field_def get_prop_def split: option.splits if_splits)
  moreover obtain v where v: "map_of values out = Some v" "field_admits g v"
    using vals map_of_SomeD [OF \<open>map_of outputs out = Some g\<close>] by (auto simp: values_ok_def)
  moreover have "operationValueSchema v"
    using vals map_of_SomeD [OF v(1)] by (auto simp: values_ok_def)
  ultimately show ?thesis
    using none assignable_admits [OF fg(3)] by (auto simp: keys_def map_of_eq_None_iff)
qed

definition inputs_checked :: "op_fields \<Rightarrow> input_bindings \<Rightarrow> edge_inputs \<Rightarrow> op_fields \<Rightarrow> bool \<Rightarrow> bool" where
  "inputs_checked decls base edge outputs hook \<longleftrightarrow>
     distinct (keys decls) \<and> distinct (keys base) \<and> distinct (keys edge) \<and>
     validateOperationFields decls = Inr () \<and> validateInputBindings decls base hook = Inr () \<and>
     validateIncomingInputs decls base edge outputs = Inr ()"

lemma checked_value:
  assumes checked: "inputs_checked decls base edge outputs hook" and only: "only_declared decls base"
    and vals: "values_ok outputs values" and facts: "facts_fit base facts"
    and name: "name \<in> set (keys base) \<union> set (keys edge)"
  shows "\<exists>f v. map_of decls name = Some f \<and> map_of (resolved_inputs base edge values facts) name = Some v \<and>
      operationValueSchema v \<and> field_admits f v"
proof (cases "name \<in> set (keys base)")
  case True
  then obtain b where b: "map_of base name = Some b" using keys_lookup [of name base] by blast
  have decls: "distinct (keys decls)" and bound: "validateInputBindings decls base hook = Inr ()"
    and "name \<in> set (keys decls) \<or> name \<noteq> ''constructor''"
    using checked only True by (auto simp: inputs_checked_def only_declared_def)
  then show ?thesis
    using base_value [OF bound decls b _ facts] map_of_resolved_base [OF b] map_of_pair_iff [OF decls]
    by fastforce
next
  case False
  with name keys_lookup [of name edge] obtain out where "map_of edge name = Some out" by blast
  moreover have "validateIncomingInputs decls base edge outputs = Inr ()"
    using checked by (simp add: inputs_checked_def)
  ultimately show ?thesis using edge_value [OF _ _ vals] map_of_resolved_edge by fastforce
qed

lemma checked_disjoint:
  assumes "inputs_checked decls base edge outputs hook" and "values_ok outputs values"
  shows "set (keys base) \<inter> set (keys edge) = {}"
  using edge_value [OF _ _ assms(2)] assms(1) by (fastforce simp: keys_lookup inputs_checked_def)

lemma checked_names:
  assumes checked: "inputs_checked decls base edge outputs hook" and only: "only_declared decls base"
    and vals: "values_ok outputs values" and facts: "facts_fit base facts"
  shows "set (keys base) \<union> set (keys edge) = set (keys decls)"
proof -
  have incoming: "validateIncomingInputs decls base edge outputs = Inr ()"
    using checked by (simp add: inputs_checked_def)
  have "name \<in> set (keys base) \<union> set (keys edge)" if decl: "name \<in> set (keys decls)" for name
  proof -
    obtain f where "(name, f) \<in> set decls" using decl map_of_SomeD by (fastforce simp: keys_lookup)
    with incoming show ?thesis by (auto simp: validateIncomingInputs_def errE dest!: mapE_each)
  qed
  moreover have "name \<in> set (keys decls)" if "name \<in> set (keys base) \<union> set (keys edge)" for name
    using checked_value [OF checked only vals facts that] keys_lookup [of name decls] by blast
  ultimately show ?thesis by blast
qed

lemma resolve_run:
  assumes "inputs_checked decls base edge outputs hook" and "set (keys base) \<inter> set (keys edge) = {}"
  shows "resolveExecutionInputs decls base edge values facts =
    validateOperationValues decls (resolved_inputs base edge values facts)"
proof -
  have "distinct (keys (map (\<lambda>(name, b). (name, resolve_binding facts b)) base) @ keys edge)"
    using assms by (simp add: inputs_checked_def keys_def case_prod_unfold comp_def)
  from resolve_edges [OF this] show ?thesis
    by (simp add: resolveExecutionInputs_def resolved_inputs_def)
qed

lemma resolved_distinct:
  assumes "inputs_checked decls base edge outputs hook" and "values_ok outputs values"
  shows "distinct (keys (resolved_inputs base edge values facts))"
  using assms(1) checked_disjoint [OF assms] by (simp add: resolved_keys inputs_checked_def)

lemma resolved_ok:
  assumes checked: "inputs_checked decls base edge outputs hook" and only: "only_declared decls base"
    and vals: "values_ok outputs values" and facts: "facts_fit base facts"
    and size: "json_values_size (resolved_inputs base edge values facts) \<le> 65536"
  shows "values_ok decls (resolved_inputs base edge values facts)"
proof -
  let ?r = "resolved_inputs base edge values facts"
  note names = checked_names [OF checked only vals facts]
  have decls: "distinct (keys decls)" using checked by (simp add: inputs_checked_def)
  have same: "set (keys ?r) = set (keys decls)" using names by (simp add: resolved_keys)
  have "fieldNameSchema name" if "name \<in> set (keys decls)" for name
    using checked that
    by (auto simp: inputs_checked_def validateOperationFields_def validate_field_def errE keys_def
        dest!: mapE_each)
  moreover have "\<exists>f v. map_of decls name = Some f \<and> map_of ?r name = Some v \<and>
      operationValueSchema v \<and> field_admits f v" if "name \<in> set (keys decls)" for name
    using that names by (intro checked_value [OF checked only vals facts]) auto
  moreover have "name \<in> set (keys decls)" if "map_of ?r name = Some v" for name v
    using that keys_lookup [of name ?r] same by blast
  moreover have "name \<in> set (keys decls)" if "map_of decls name = Some f" for name f
    using that keys_lookup [of name decls] by blast
  ultimately show "values_ok decls ?r"
    using same size
    by (fastforce simp: values_ok_def map_of_pair_iff [OF resolved_distinct [OF checked vals]] map_of_pair_iff [OF decls])
qed

text \<open>Conversely, values that fit the declared fields come from facts that fit and declared names.\<close>

lemma resolved_fits:
  assumes vals: "values_ok decls (resolved_inputs base edge values facts)"
    and bound: "validateInputBindings decls base hook = Inr ()"
  shows "only_declared decls base" and "facts_fit base facts"
    and "json_values_size (resolved_inputs base edge values facts) \<le> 65536"
proof -
  let ?r = "resolved_inputs base edge values facts"
  have names: "set (keys base) \<subseteq> set (keys decls)" using vals resolved_keys [of base edge] by (auto simp: values_ok_def)
  then show "only_declared decls base" by (auto simp: only_declared_def)
  show "facts_fit base facts" unfolding facts_fit_def
  proof (intro allI impI)
    fix name src
    assume b: "(name, Source src) \<in> set base"
    have "(name, fact_value facts src) \<in> set ?r" using b by (force simp: resolved_inputs_def resolve_binding_def)
    then have "operationValueSchema (fact_value facts src)" using vals by (auto simp: values_ok_def)
    then show "\<exists>s. fact_value facts src = StringValue s \<and> length s \<le> 4096"
      by (cases src) (auto simp: fact_value_def split: option.splits)
  qed
  show "json_values_size ?r \<le> 65536" using vals by (simp add: values_ok_def)
qed

section \<open>Properties\<close>

text \<open>
  (C32) Type soundness of workflow data, with its exact limits. Suppose that the bindings of an
  operation's inputs and of an edge passed the compile-time checks against its declared fields
  and the outputs declared by the source of the edge, and that the values on the edge passed the
  check of those outputs. Then the inputs resolve if and only if no binding is for an undeclared
  input \<open>constructor\<close>, every bound fact is a string of at most 4096 characters and the
  resolved values fit 64 KiB of JSON; these are the only run-time failures left. The result
  is then the bound literals, facts and outputs, with exactly the declared names and an admitted
  value for each.
\<close>

theorem routing_exact:
  assumes objects: "distinct (keys decls)" "distinct (keys base)" "distinct (keys edge)"
      "distinct (keys outputs)" "distinct (keys values)"
    and declared: "validateOperationFields decls = Inr ()"
    and bound: "validateInputBindings decls base hook = Inr ()"
    and incoming: "validateIncomingInputs decls base edge outputs = Inr ()"
    and returned: "validateOperationValues outputs values = Inr values"
  shows "(resolveExecutionInputs decls base edge values facts = Inr r \<longleftrightarrow>
      r = resolved_inputs base edge values facts \<and>
      (''constructor'' \<in> set (keys base) \<longrightarrow> ''constructor'' \<in> set (keys decls)) \<and>
      (\<forall>name src. (name, Source src) \<in> set base \<longrightarrow>
         (\<exists>s. fact_value facts src = StringValue s \<and> length s \<le> 4096)) \<and>
      json_values_size (resolved_inputs base edge values facts) \<le> 65536) \<and>
    (resolveExecutionInputs decls base edge values facts = Inr r \<longrightarrow>
      set (keys r) = set (keys decls) \<and>
      (\<forall>(name, f) \<in> set decls. \<exists>v. map_of r name = Some v \<and> field_admits f v))"
proof -
  let ?r = "resolved_inputs base edge values facts"
  have checked: "inputs_checked decls base edge outputs hook"
    using assms by (simp add: inputs_checked_def)
  have vals: "values_ok outputs values"
    using returned validateOperationValues_iff [OF objects(4,5)] by blast
  have run: "resolveExecutionInputs decls base edge values facts = Inr r \<longleftrightarrow> r = ?r \<and> values_ok decls ?r"
    using resolve_run [OF checked checked_disjoint [OF checked vals]]
      validateOperationValues_iff [OF objects(1) resolved_distinct [OF checked vals]] by simp
  have "values_ok decls ?r \<longleftrightarrow> only_declared decls base \<and> facts_fit base facts \<and> json_values_size ?r \<le> 65536"
    using resolved_ok [OF checked _ vals] resolved_fits [OF _ bound] by blast
  then show ?thesis using run by (auto simp: only_declared_def facts_fit_def values_ok_def)
qed

text \<open>A node that takes the title of its card and the exit code of a shell command.\<close>

definition sample_decls :: op_fields where
  "sample_decls = [(''title'', StringField None True), (''limit'', IntegerField (Some 0) (Some 300) True)]"

definition sample_outputs :: op_fields where
  "sample_outputs = [(''exit_code'', IntegerField (Some 0) (Some 255) True), (''ok'', BooleanField False)]"

definition sample_base :: input_bindings where
  "sample_base = [(''title'', Source CardTitleFact)]"

definition sample_edge :: edge_inputs where
  "sample_edge = [(''limit'', ''exit_code'')]"

definition sample_values :: op_values where
  "sample_values = [(''exit_code'', NumberValue 3), (''ok'', BooleanValue True)]"

definition sample_facts :: operation_facts where
  "sample_facts = \<lparr>fact_card_id = ''project-a'', fact_card_type = ''task'', fact_card_title = ''Fix'',
     fact_committed_status = None\<rparr>"

theorem routing_exact_witness:
  "\<exists>r. resolveExecutionInputs sample_decls sample_base sample_edge sample_values sample_facts = Inr r \<and>
    set (keys r) = {''title'', ''limit''}"
proof -
  have "distinct (keys sample_decls)" "distinct (keys sample_base)" "distinct (keys sample_edge)"
      "distinct (keys sample_outputs)" "distinct (keys sample_values)"
    by (simp_all add: keys_def sample_decls_def sample_base_def sample_edge_def sample_outputs_def
        sample_values_def)
  moreover have "validateOperationFields sample_decls = Inr ()" by code_simp
  moreover have "validateInputBindings sample_decls sample_base False = Inr ()" by code_simp
  moreover have "validateIncomingInputs sample_decls sample_base sample_edge sample_outputs = Inr ()"
    by code_simp
  moreover have "validateOperationValues sample_outputs sample_values = Inr sample_values" by code_simp
  ultimately have exact: "(resolveExecutionInputs sample_decls sample_base sample_edge sample_values sample_facts = Inr r \<longleftrightarrow>
      r = resolved_inputs sample_base sample_edge sample_values sample_facts \<and>
      (''constructor'' \<in> set (keys sample_base) \<longrightarrow> ''constructor'' \<in> set (keys sample_decls)) \<and>
      (\<forall>name src. (name, Source src) \<in> set sample_base \<longrightarrow>
         (\<exists>s. fact_value sample_facts src = StringValue s \<and> length s \<le> 4096)) \<and>
      json_values_size (resolved_inputs sample_base sample_edge sample_values sample_facts) \<le> 65536) \<and>
    (resolveExecutionInputs sample_decls sample_base sample_edge sample_values sample_facts = Inr r \<longrightarrow>
      set (keys r) = set (keys sample_decls) \<and>
      (\<forall>(name, f) \<in> set sample_decls. \<exists>v. map_of r name = Some v \<and> field_admits f v))" for r
    by (rule routing_exact)
  have "''constructor'' \<notin> set (keys sample_base)"
    "(name, Source src) \<in> set sample_base \<Longrightarrow> fact_value sample_facts src = StringValue ''Fix''" for name src
    by (simp_all add: keys_def sample_base_def fact_value_def sample_facts_def)
  moreover have "json_values_size (resolved_inputs sample_base sample_edge sample_values sample_facts) \<le> 65536"
    by (simp add: json_values_size_def resolved_inputs_def sample_base_def sample_edge_def sample_values_def
        sample_facts_def resolve_binding_def fact_value_def json_string_size_def decimal_digits.simps)
  ultimately have "resolveExecutionInputs sample_decls sample_base sample_edge sample_values sample_facts =
      Inr (resolved_inputs sample_base sample_edge sample_values sample_facts)"
    using exact [of "resolved_inputs sample_base sample_edge sample_values sample_facts"] by simp
  moreover from this have "set (keys (resolved_inputs sample_base sample_edge sample_values sample_facts)) = set (keys sample_decls)"
    using exact by blast
  ultimately show ?thesis by (simp add: keys_def sample_decls_def)
qed

text \<open>
  (C33) The check of operation values is exact: it returns the values unchanged precisely when
  every name and value is well-formed, the JSON text fits 64 KiB, the names are those declared,
  no more and no fewer, and every declared field admits the value given for it.
\<close>

theorem operation_values_exact:
  assumes "distinct (keys decls)" and "distinct (keys values)"
  shows "validateOperationValues decls values = Inr r \<longleftrightarrow> r = values \<and>
     (\<forall>(name, v) \<in> set values. fieldNameSchema name \<and> operationValueSchema v) \<and>
     json_values_size values \<le> 65536 \<and> set (keys values) = set (keys decls) \<and>
     (\<forall>(name, f) \<in> set decls. \<exists>v. map_of values name = Some v \<and> field_admits f v)"
  using validateOperationValues_iff [OF assms] by (simp add: values_ok_def)

theorem operation_values_exact_witness:
  "(\<exists>v. map_of sample_values ''exit_code'' = Some v \<and> field_admits (IntegerField (Some 0) (Some 255) True) v)"
proof -
  have "distinct (keys sample_outputs)" "distinct (keys sample_values)"
    by (simp_all add: keys_def sample_outputs_def sample_values_def)
  moreover have "validateOperationValues sample_outputs sample_values = Inr sample_values" by code_simp
  ultimately have "\<forall>(name, f) \<in> set sample_outputs. \<exists>v. map_of sample_values name = Some v \<and> field_admits f v"
    using operation_values_exact [of sample_outputs sample_values sample_values] by blast
  then show ?thesis by (auto simp: sample_outputs_def)
qed

section \<open>Routes\<close>

lemma find_first:
  "find P xs = Some x \<longleftrightarrow> (\<exists>as bs. xs = as @ x # bs \<and> P x \<and> (\<forall>y \<in> set as. \<not> P y))"
proof (induction xs)
  case (Cons a xs)
  show ?case
  proof
    assume found: "find P (a # xs) = Some x"
    show "\<exists>as bs. a # xs = as @ x # bs \<and> P x \<and> (\<forall>y \<in> set as. \<not> P y)"
    proof (cases "P a")
      case True
      with found show ?thesis by (intro exI [of _ "[]"] exI [of _ xs]) simp
    next
      case False
      with found Cons.IH obtain as bs where "xs = as @ x # bs" "P x" "\<forall>y \<in> set as. \<not> P y" by auto
      with False show ?thesis by (intro exI [of _ "a # as"] exI [of _ bs]) simp
    qed
  next
    assume "\<exists>as bs. a # xs = as @ x # bs \<and> P x \<and> (\<forall>y \<in> set as. \<not> P y)"
    then obtain as bs where "a # xs = as @ x # bs" "P x" "\<forall>y \<in> set as. \<not> P y" by blast
    with Cons.IH show "find P (a # xs) = Some x" by (cases as) auto
  qed
qed simp

text \<open>
  The route of a result: for a return that passes the check of its operation, the
  selected route is the first of the compiled routes that names the outcome and whose test,
  if any, holds of the returned values; there is one whenever some route for the
  outcome has no test, and otherwise an error says which outcome has no route.
\<close>

theorem route_selection:
  assumes "validateOperationReturn (act_operation execution) raw = Inr result"
  shows "(selectOperationRoute execution routes raw = Inr (result, chosen) \<longleftrightarrow>
      (\<exists>as r bs. routes = as @ r # bs \<and> route_id r = chosen \<and> route_matches result r \<and>
        (\<forall>q \<in> set as. \<not> route_matches result q))) \<and>
    ((\<exists>r \<in> set routes. route_outcome r = ret_outcome raw \<and> route_test r = None) \<longrightarrow>
      (\<exists>chosen. selectOperationRoute execution routes raw = Inr (result, chosen))) \<and>
    ((\<forall>r \<in> set routes. \<not> route_matches result r) \<longrightarrow>
      selectOperationRoute execution routes raw = Inl (PlainError ''No compiled route.'' [ret_outcome raw]))"
proof -
  have outcome: "ret_outcome result = ret_outcome raw"
    using assms by (auto simp: validateOperationReturn_def Let_def errE)
  have run: "selectOperationRoute execution routes raw =
      (case find (route_matches result) routes of
         None \<Rightarrow> Inl (PlainError ''No compiled route.'' [ret_outcome raw]) | Some r \<Rightarrow> Inr (result, route_id r))"
    by (simp add: selectOperationRoute_def assms outcome split: option.splits)
  have "find (route_matches result) routes \<noteq> None"
    if "r \<in> set routes" "route_outcome r = ret_outcome raw" "route_test r = None" for r
    using that outcome by (auto simp: find_None_iff route_matches_def)
  moreover have "find (route_matches result) routes = None" if "\<forall>r \<in> set routes. \<not> route_matches result r"
    using that by (auto simp: find_None_iff)
  moreover have "selectOperationRoute execution routes raw = Inr (result, chosen) \<longleftrightarrow>
      (\<exists>r. find (route_matches result) routes = Some r \<and> route_id r = chosen)"
    unfolding run by (auto split: option.splits)
  then have "selectOperationRoute execution routes raw = Inr (result, chosen) \<longleftrightarrow>
      (\<exists>as r bs. routes = as @ r # bs \<and> route_id r = chosen \<and> route_matches result r \<and>
        (\<forall>q \<in> set as. \<not> route_matches result q))"
    unfolding find_first by blast
  moreover have "\<exists>chosen. selectOperationRoute execution routes raw = Inr (result, chosen)"
    if "find (route_matches result) routes \<noteq> None"
    using that by (auto simp: run)
  ultimately show ?thesis by (auto simp: run simp del: not_None_eq)
qed

definition sample_operation :: "unit operation_definition" where
  "sample_operation = \<lparr>op_id = ''shell.run'', provider = \<lparr>provider_kind = Builtin, provider_name = ''shell''\<rparr>,
     contractVersion = 1, bindings = [NodeBinding], config = Inr, op_inputs = [],
     outcomes = [(''done'', sample_outputs)], retainFields = [''exit_code''], op_output = Some CommandStdout\<rparr>"

definition sample_routes :: "operation_route list" where
  "sample_routes =
    [\<lparr>route_outcome = ''done'', route_id = ''done:case:zero'',
       route_test = Some \<lparr>test_field = ''exit_code'', test_op = OpEq, test_value = NumberValue 0\<rparr>\<rparr>,
     \<lparr>route_outcome = ''done'', route_id = ''done:otherwise'', route_test = None\<rparr>]"

definition sample_return :: operation_return where
  "sample_return = \<lparr>ret_outcome = ''done'', ret_summary = ''ran'', ret_values = sample_values\<rparr>"

definition sample_action :: "unit compiled_action" where
  "sample_action = \<lparr>act_operation = sample_operation, act_config = (), act_inputs = []\<rparr>"

theorem route_selection_witness:
  "selectOperationRoute sample_action sample_routes sample_return = Inr (sample_return, ''done:otherwise'')"
proof -
  have ok: "validateOperationReturn (act_operation sample_action) sample_return = Inr sample_return"
    by code_simp
  have "sample_routes = [hd sample_routes] @ last sample_routes # []"
    by (simp add: sample_routes_def)
  moreover have "\<not> route_matches sample_return (hd sample_routes)"
    "route_matches sample_return (last sample_routes)" "route_id (last sample_routes) = ''done:otherwise''"
    by code_simp+
  ultimately show ?thesis
    using route_selection [OF ok, of sample_routes "''done:otherwise''"]
    by (metis empty_iff empty_set set_ConsD)
qed

section \<open>The catalogue\<close>

definition catalogue_ok :: "'c operation_definition list \<Rightarrow> bool" where
  "catalogue_ok ds \<longleftrightarrow> distinct (map op_id ds) \<and>
     (\<forall>d \<in> set ds. freezeDefinition d = Inr d \<and>
        (hd (split_on CHR ''.'' (op_id d)) \<in> set reserved_namespaces \<longleftrightarrow>
          provider_kind (provider d) = Builtin) \<and>
        provider_name (provider d) = hd (split_on CHR ''.'' (op_id d)))"

lemma add_operation_Inr:
  "add_operation d ds = Inr ds' \<longleftrightarrow>
    op_id d \<notin> op_id ` set ds \<and> freezeDefinition d = Inr d \<and> ds' = ds @ [d]"
  by (auto simp: add_operation_def freezeDefinition_def errE)

lemma add_builtin_ok: "catalogue_ok ds \<Longrightarrow> add_builtin d ds = Inr ds' \<Longrightarrow> catalogue_ok ds'"
  by (auto simp: add_builtin_def errE Let_def add_operation_Inr catalogue_ok_def)

lemma component_no_dot: "operationComponent s \<Longrightarrow> CHR ''.'' \<notin> set s"
  by (auto simp: operationComponent_def is_name_def list_all_iff is_lower_def is_digit_def)

lemma add_plugin_operation_ok:
  assumes "operationNamespaceSchema n" and "n \<notin> set reserved_namespaces" and "catalogue_ok ds"
    and "add_plugin_operation n p ds = Inr ds'"
  shows "catalogue_ok ds'"
proof -
  obtain name d where p: "p = (name, d)" by (rule prod.exhaust)
  have "CHR ''.'' \<notin> set n" using assms(1) component_no_dot by (simp add: operationNamespaceSchema_def)
  then have "hd (split_on CHR ''.'' (n @ ''.'' @ name)) = n" by (simp add: split_on_append)
  with assms(2-4) p show ?thesis
    by (auto simp: add_plugin_operation_def errE add_operation_Inr catalogue_ok_def)
qed

lemma add_plugin_ok:
  assumes "catalogue_ok (snd st)" and "add_plugin p st = Inr st'"
  shows "catalogue_ok (snd st')"
proof -
  obtain ns ds where st: "st = (ns, ds)" by (rule prod.exhaust)
  obtain ds' where n: "operationNamespaceSchema (plugin_namespace p)"
      "plugin_namespace p \<notin> set reserved_namespaces"
    and run: "foldE (add_plugin_operation (plugin_namespace p)) (plugin_operations p) ds = Inr ds'"
    and st': "snd st' = ds'"
    using assms(2) st by (auto simp: add_plugin_def errE)
  have "catalogue_ok ds" using assms(1) st by simp
  with run have "catalogue_ok ds'"
    by (rule foldE_invariant) (blast intro: add_plugin_operation_ok [OF n])
  with st' show ?thesis by simp
qed

text \<open>
  The catalogue of operations is unambiguous and its namespaces are honest: when it
  compiles, every operation is found under its own identity and only there, has a valid
  declaration, its provider is named by the first component of its identity, and exactly
  the builtin operations live in the reserved namespaces, whatever the plugins declare.
\<close>

theorem operation_catalogue:
  assumes "compileOperations builtins plugins = Inr table"
  shows "distinct (map fst table) \<and>
    (\<forall>(name, d) \<in> set table. name = op_id d \<and> map_of table name = Some d \<and> freezeDefinition d = Inr d \<and>
      provider_name (provider d) = hd (split_on CHR ''.'' name) \<and>
      (provider_name (provider d) \<in> {''shell'', ''git'', ''saivage''} \<longleftrightarrow> provider_kind (provider d) = Builtin))"
proof -
  obtain ds st where built: "foldE add_builtin builtins [] = Inr ds"
    and plugged: "foldE add_plugin plugins ([], ds) = Inr st"
    and table: "table = map (\<lambda>d. (op_id d, d)) (snd st)"
    using assms by (auto simp: compileOperations_def errE)
  have "catalogue_ok ds"
    using built by (rule foldE_invariant) (simp add: catalogue_ok_def, rule add_builtin_ok)
  then have "catalogue_ok (snd st)"
    by (intro foldE_invariant [OF plugged, of "\<lambda>st. catalogue_ok (snd st)"])
      (simp, rule add_plugin_ok)
  moreover from this have "distinct (map fst table)" by (simp add: table catalogue_ok_def comp_def)
  ultimately show ?thesis
    by (auto simp: table catalogue_ok_def reserved_namespaces_def)
qed

definition sample_plugin :: "unit operation_plugin" where
  "sample_plugin = \<lparr>plugin_namespace = ''lint'', plugin_operations =
     [(''check'', sample_operation\<lparr>op_id := ''lint.check'',
        provider := \<lparr>provider_kind = Plugin, provider_name = ''lint''\<rparr>\<rparr>)]\<rparr>"

theorem operation_catalogue_witness:
  "\<exists>table. compileOperations [sample_operation] [sample_plugin] = Inr table \<and>
    map fst table = [''shell.run'', ''lint.check''] \<and> map_of table ''shell.run'' = Some sample_operation"
proof -
  have "\<not> isl (compileOperations [sample_operation] [sample_plugin])" by code_simp
  then obtain table where t: "compileOperations [sample_operation] [sample_plugin] = Inr table"
    by (metis isl_def sum.collapse(2))
  have names: "map fst (projr (compileOperations [sample_operation] [sample_plugin])) =
      [''shell.run'', ''lint.check'']" by code_simp
  have "(''shell.run'', sample_operation) \<in> set table"
    using t by (auto simp: compileOperations_def errE add_builtin_def Let_def add_operation_Inr
        sample_plugin_def add_plugin_def add_plugin_operation_def) (simp_all add: sample_operation_def)
  with operation_catalogue [OF t] t names show ?thesis by auto
qed

text \<open>
  (C34) The gap of the input check: a boolean literal bound to the undeclared name
  \<open>constructor\<close> passes the compile-time check of the bindings, because the lookup of its
  declaration finds the member of \<open>Object.prototype\<close>; and then the inputs of that
  execution never resolve.
\<close>

theorem undeclared_constructor_accepted:
  assumes "''constructor'' \<notin> fst ` set decls"
  shows "validateInputBindings decls [(''constructor'', Literal (BooleanValue b))] hook = Inr () \<and>
    resolveExecutionInputs decls (base @ [(''constructor'', Literal (BooleanValue b))]) edge values facts \<noteq> Inr r"
proof
  have "fieldNameSchema ''constructor''" by code_simp
  then have "validateOperationValues [(''constructor'', ForeignField)] [(''constructor'', BooleanValue b)] =
      Inr [(''constructor'', BooleanValue b)]"
    by (simp add: single_values values_ok_def keys_def json_values_size_def json_string_size_def)
  moreover have "truthy_field ''constructor'' decls = Some ForeignField"
    using assms by (simp add: truthy_field_def get_prop_def object_prototype_def map_of_eq_None_iff [THEN iffD2])
  ultimately show "validateInputBindings decls [(''constructor'', Literal (BooleanValue b))] hook = Inr ()"
    by (simp add: validateInputBindings_def validate_binding_def)
  let ?acc = "map (\<lambda>(name, b). (name, resolve_binding facts b)) (base @ [(''constructor'', Literal (BooleanValue b))])"
  have "''constructor'' \<in> set (keys resolved)"
    if "foldE (resolve_edge values) edge ?acc = Inr resolved" for resolved
    by (rule foldE_invariant [OF that]) (auto simp: keys_def resolve_edge_def errE)
  with assms show "resolveExecutionInputs decls (base @ [(''constructor'', Literal (BooleanValue b))])
      edge values facts \<noteq> Inr r"
    by (auto simp: resolveExecutionInputs_def errE validateOperationValues_def list_all_iff keys_def) blast
qed

theorem undeclared_constructor_accepted_witness:
  "validateInputBindings sample_decls [(''constructor'', Literal (BooleanValue True))] False = Inr () \<and>
   isl (resolveExecutionInputs sample_decls (sample_base @ [(''constructor'', Literal (BooleanValue True))])
     sample_edge sample_values sample_facts)"
proof -
  have "''constructor'' \<notin> fst ` set sample_decls" by (simp add: sample_decls_def)
  note gap = undeclared_constructor_accepted [OF this]
  show ?thesis using gap
    by (cases "resolveExecutionInputs sample_decls (sample_base @ [(''constructor'', Literal (BooleanValue True))])
        sample_edge sample_values sample_facts") auto
qed

end
