(* ===== verification/RunningChain.thy ===== *)
theory RunningChain
  imports CardInvariant
begin

text \<open>
  The chain of running cards (\<open>src/runtime/running-card-chain.ts\<close>): on restart the runtime
  resumes the running cards, which must form one path from the project card downwards.
  \<open>selectLinkedRunningChain\<close> walks the linked cards through the reader interface
  \<open>LinkedCardReader\<close>, here the two functions \<open>rd\<close> and \<open>kids\<close>, which the card service provides.
\<close>

section \<open>The code\<close>

definition is_running :: "card_record \<Rightarrow> bool" where
  "is_running c \<longleftrightarrow> c_status c = Running"

definition read_child :: "(string \<Rightarrow> error + card_record option) \<Rightarrow> card_record \<Rightarrow> string \<Rightarrow> error + card_record" where
  "read_child rd parent i =
     bindE (rd i) (\<lambda>r.
     bindE (optionE (PlainError ''Linked child is missing.'' [i, c_id parent]) r) (\<lambda>child.
     bindE (cardParentId (c_id child)) (\<lambda>p.
     bindE (guardE (p = Some (c_id parent))
       (PlainError ''Linked child does not name its parent.'' [i, c_id parent])) (\<lambda>_.
     Inr child))))"

lemma child_depth:
  assumes "cardParentId i = Inr (Some p)"
  shows "depth_of i = Suc (depth_of p)" and "depth_of i \<le> MAX_CARD_DEPTH"
proof -
  have "cardIdSchema i" using assms by (auto simp: cardParentId_def cardIdSegments_def errE)
  then obtain ss where ss: "card_path ss" "i = card_id_of ss" by (auto simp: cardIdSchema_iff)
  with assms have "ss \<noteq> []" "p = card_id_of (butlast ss)" by (auto split: if_splits)
  with ss show "depth_of i = Suc (depth_of p)" by (simp add: depth_of_def card_path_butlast)
  show "depth_of i \<le> MAX_CARD_DEPTH" using ss by (simp add: depth_of_def card_path_def)
qed

text \<open>
  The recursive \<open>visit\<close>: the running cards in preorder and the table of linked children. It
  ends because a child lies one level deeper than its parent.
\<close>

function collect :: "(string \<Rightarrow> error + card_record option) \<Rightarrow> (string \<Rightarrow> error + string list) \<Rightarrow>
    card_record \<Rightarrow> error + card_record list \<times> (string \<times> card_record list) list" where
  "collect rd kids parent =
     bindE (kids (c_id parent)) (\<lambda>ids.
     bindE (mapE (read_child rd parent) ids) (\<lambda>children.
     bindE (mapE (collect rd kids) children) (\<lambda>subtrees.
     Inr ((if is_running parent then [parent] else []) @ concat (map fst subtrees),
          (c_id parent, children) # concat (map snd subtrees)))))"
  by pat_completeness auto
termination
proof (relation "measure (\<lambda>(rd, kids, parent). MAX_CARD_DEPTH - depth_of (c_id parent))")
  fix rd kids parent ids children child
  assume "mapE (read_child rd parent) ids = Inr children" "child \<in> set children"
  then have "cardParentId (c_id child) = Inr (Some (c_id parent))"
    by (auto simp: read_child_def errE dest!: mapE_set)
  from child_depth [OF this] show "((rd, kids, child), rd, kids, parent) \<in>
      measure (\<lambda>(rd, kids, parent). MAX_CARD_DEPTH - depth_of (c_id parent))" by simp
qed simp

declare collect.simps [simp del]

text \<open>The \<open>while\<close> loop down the running children; \<open>None\<close> would be a loop that does not end.\<close>

partial_function (option) follow :: "(string \<times> card_record list) list \<Rightarrow> card_record \<Rightarrow>
    (error + card_record list) option" where
  "follow linkedChildren current =
     (case map_of (rev linkedChildren) (c_id current) of
        None \<Rightarrow> Some (Inl (PlainError ''TypeError'' []))
      | Some children \<Rightarrow>
          (case filter is_running children of
             [] \<Rightarrow> Some (Inr [current])
           | [next] \<Rightarrow> Option.bind (follow linkedChildren next) (\<lambda>r. Some (bindE r (\<lambda>chain. Inr (current # chain))))
           | _ \<Rightarrow> Some (Inl (PlainError ''Running card has more than one running direct child.'' [c_id current]))))"

definition selectLinkedRunningChain :: "(string \<Rightarrow> error + card_record option) \<Rightarrow>
    (string \<Rightarrow> error + string list) \<Rightarrow> (error + card_record list) option" where
  "selectLinkedRunningChain rd kids =
     (case bindE (rd ''project'') (optionE (PlainError ''Root card record is missing.'' [])) of
        Inl e \<Rightarrow> Some (Inl e)
      | Inr root \<Rightarrow> (case collect rd kids root of
          Inl e \<Rightarrow> Some (Inl e)
        | Inr (runningCards, linkedChildren) \<Rightarrow>
            Option.bind (if is_running root then follow linkedChildren root else Some (Inr [])) (\<lambda>r.
            Some (bindE r (\<lambda>chain.
              case find (\<lambda>c. c_id c \<notin> c_id ` set chain) runningCards of
                Some outside \<Rightarrow> Inl (PlainError
                  ''Linked running card is outside the unique project-rooted running chain.'' [c_id outside])
              | None \<Rightarrow> Inr chain)))))"

section \<open>What the walk collects\<close>

lemma readCard_linked: "linked z st i sel \<Longrightarrow> readCard z st i = Inr (Some (s_card sel))"
  by (auto simp: readCard_iff)

lemma listChildren_linked:
  assumes "linked z st i sel" and "readCanonicalChildrenOfReached z st i sel = Inr children"
  shows "listChildren z st i = Inr (map (\<lambda>c. c_id (s_card c)) children)"
  using assms readActiveCardFold_iff [of z st i sel]
  by (simp add: listChildren_def readLinkedChildrenProjection_def comp_def)

lemma child_linked:
  assumes "linked z st i sel" and "readCanonicalChildrenOfReached z st i sel = Inr children"
    and "c \<in> set children"
  shows "linked z st (c_id (s_card c)) c" and "cardParentId (c_id (s_card c)) = Inr (Some i)"
proof -
  have id: "c_id (s_card sel) = i" using readExactCard_id [OF linked_reads [OF assms(1)]] by simp
  obtain j where j: "j \<in> set (c_child_membership (s_card sel))" "readExactCard z st j = Inr c" "\<not> s_tombstone c"
    using live_children(1) [OF linked_reads [OF assms(1)], of children c] assms(2,3) id by auto
  obtain s where s: "childCardId i s = Inr j"
    using membership_child [OF linked_reads [OF assms(1)] j(1)] by blast
  have cid: "c_id (s_card c) = j" by (rule readExactCard_id [OF j(2)])
  show "linked z st (c_id (s_card c)) c"
    using linked.child [OF assms(1) s j(1) j(2,3)] cid by simp
  obtain ss where "card_path ss" "i = card_id_of ss" using linked_path [OF assms(1)] by blast
  with s show "cardParentId (c_id (s_card c)) = Inr (Some i)"
    by (auto simp: cid childCardId_path card_path_snoc)
qed

abbreviation service_collect :: "zod \<Rightarrow> 'a project_store_scheme \<Rightarrow> card_record \<Rightarrow>
    error + card_record list \<times> (string \<times> card_record list) list" where
  "service_collect z st \<equiv> collect (readCard z st) (listChildren z st)"

definition child_cards :: "zod \<Rightarrow> 'a card_store_scheme \<Rightarrow> string \<Rightarrow> current_selection \<Rightarrow> card_record list" where
  "child_cards z st i sel = map s_card (projr (readCanonicalChildrenOfReached z st i sel))"

text \<open>What \<open>visit\<close> has collected below a card: its running cards and the table of children.\<close>

definition collected :: "zod \<Rightarrow> 'a card_store_scheme \<Rightarrow> string \<Rightarrow>
    card_record list \<times> (string \<times> card_record list) list \<Rightarrow> bool" where
  "collected z st i r \<longleftrightarrow>
     set (fst r) = {s_card s | s. \<exists>j. below z st i j s \<and> is_running (s_card s)} \<and>
     set (snd r) = {(j, child_cards z st j s) | j s. below z st i j s}"

lemma read_children:
  assumes "linked z st i sel" and "readCanonicalChildrenOfReached z st i sel = Inr children"
    and "c_id (s_card sel) = i"
  shows "mapE (read_child (readCard z st) (s_card sel)) (map (\<lambda>c. c_id (s_card c)) children) =
    Inr (map s_card children)"
proof -
  have "read_child (readCard z st) (s_card sel) (c_id (s_card c)) = Inr (s_card c)" if "c \<in> set children" for c
    using child_linked [OF assms(1,2) that] assms(3) by (simp add: read_child_def readCard_linked)
  then show ?thesis by (simp add: mapE_Inr_iff list_all2_map1 list_all2_map2 list_all2_same)
qed

lemma collect_total:
  assumes "store_ok z st" and "links_ok z st" and "linked z st i sel"
  shows "\<exists>r. service_collect z st (s_card sel) = Inr r \<and> collected z st i r"
  using assms(3)
proof (induction "MAX_CARD_DEPTH - depth_of i" arbitrary: i sel rule: less_induct)
  case less
  have rd: "readExactCard z st i = Inr sel" and id: "c_id (s_card sel) = i"
    and live: "\<not> s_tombstone sel"
    using linked_reads [OF less.prems] readExactCard_id linked_not_tombstone [OF less.prems] by auto
  obtain children where ch: "readCanonicalChildrenOfReached z st i sel = Inr children"
    using children_total [OF assms(1,2) rd] id by auto
  have "\<exists>r. service_collect z st (s_card c) = Inr r \<and> collected z st (c_id (s_card c)) r" if "c \<in> set children" for c
    using child_linked [OF less.prems ch that] child_depth [of "c_id (s_card c)" i]
    by (intro less.hyps) auto
  then obtain sub where sub: "\<And>c. c \<in> set children \<Longrightarrow>
      service_collect z st (s_card c) = Inr (sub c) \<and> collected z st (c_id (s_card c)) (sub c)"
    by metis
  have subs: "mapE (service_collect z st) (map s_card children) = Inr (map sub children)"
    using sub by (simp add: mapE_Inr_iff list_all2_map1 list_all2_map2 list_all2_same)
  have run: "service_collect z st (s_card sel) =
      Inr ((if is_running (s_card sel) then [s_card sel] else []) @ concat (map fst (map sub children)),
           (i, map s_card children) # concat (map snd (map sub children)))"
    using listChildren_linked [OF less.prems ch] read_children [OF less.prems ch id] subs
    by (subst collect.simps) (simp add: id)
  have split: "below z st i j s \<longleftrightarrow> j = i \<and> s = sel \<or> (\<exists>c \<in> set children. below z st (c_id (s_card c)) j s)" for j s
    using below_cases_children [OF rd live] ch id by auto
  have "child_cards z st i sel = map s_card children" by (simp add: child_cards_def ch)
  moreover have "(\<Union>c \<in> set children. set (fst (sub c))) =
      {s_card s | s. \<exists>c \<in> set children. \<exists>j. below z st (c_id (s_card c)) j s \<and> is_running (s_card s)}"
    using sub by (fastforce simp: collected_def)
  moreover have "(\<Union>c \<in> set children. set (snd (sub c))) =
      {(j, child_cards z st j s) | j s. \<exists>c \<in> set children. below z st (c_id (s_card c)) j s}"
    using sub by (fastforce simp: collected_def)
  ultimately show ?case
    unfolding run collected_def split by auto metis
qed

section \<open>The chain\<close>

text \<open>The abstract notion: all running cards, on one path of parents from the project card.\<close>

definition running_chain :: "zod \<Rightarrow> 'a card_store_scheme \<Rightarrow> card_record list \<Rightarrow> bool" where
  "running_chain z st cs \<longleftrightarrow>
     set cs = {s_card s | s. \<exists>i. linked z st i s \<and> is_running (s_card s)} \<and>
     (cs \<noteq> [] \<longrightarrow> c_id (hd cs) = ''project'') \<and>
     successively (\<lambda>a b. cardParentId (c_id b) = Inr (Some (c_id a))) cs"

lemma map_of_function:
  assumes "(k, f k) \<in> set xs" and "\<And>v. (k, v) \<in> set xs \<Longrightarrow> v = f k"
  shows "map_of xs k = Some (f k)"
proof -
  obtain v where "map_of xs k = Some v"
    using assms(1) by (metis image_eqI fst_conv map_of_eq_None_iff not_Some_eq)
  then show ?thesis using assms(2) map_of_SomeD by fastforce
qed

lemma below_unique: "below z st i j s \<Longrightarrow> below z st i j s' \<Longrightarrow> s = s'"
  by (metis below_reads sum.inject(2))

lemma project_parent: "cardParentId ''project'' = Inr None"
  by code_simp

lemma table_lookup:
  assumes "collected z st ''project'' (rs, table)" and "linked z st i sel"
  shows "map_of (rev table) i = Some (child_cards z st i sel)"
proof (rule map_of_function [where f = "\<lambda>i. child_cards z st i sel"])
  have b: "below z st ''project'' i sel" using assms(2) by (simp add: linked_below)
  then show "(i, child_cards z st i sel) \<in> set (rev table)" using assms(1) by (auto simp: collected_def)
  show "v = child_cards z st i sel" if "(i, v) \<in> set (rev table)" for v
    using that assms(1) below_unique [OF b] by (auto simp: collected_def)
qed

lemma running_children:
  assumes "store_ok z st" and "links_ok z st" and "linked z st i sel"
  shows "d \<in> set (child_cards z st i sel) \<longleftrightarrow>
      (\<exists>s. linked z st (c_id d) s \<and> s_card s = d \<and> cardParentId (c_id d) = Inr (Some i))"
    and "distinct (map c_id (child_cards z st i sel))"
proof -
  have rd: "readExactCard z st i = Inr sel" and id: "c_id (s_card sel) = i"
    using linked_reads [OF assms(3)] readExactCard_id by auto
  obtain children where ch: "readCanonicalChildrenOfReached z st i sel = Inr children"
    using children_total [OF assms(1,2) rd] id by auto
  show "distinct (map c_id (child_cards z st i sel))"
    using live_children(2) [OF rd] ch id by (simp add: child_cards_def comp_def)
  show "d \<in> set (child_cards z st i sel) \<longleftrightarrow>
      (\<exists>s. linked z st (c_id d) s \<and> s_card s = d \<and> cardParentId (c_id d) = Inr (Some i))"
  proof
    assume "d \<in> set (child_cards z st i sel)"
    then obtain c where "c \<in> set children" "d = s_card c" by (auto simp: child_cards_def ch)
    with child_linked [OF assms(3) ch] show "\<exists>s. linked z st (c_id d) s \<and> s_card s = d \<and>
        cardParentId (c_id d) = Inr (Some i)" by blast
  next
    assume "\<exists>s. linked z st (c_id d) s \<and> s_card s = d \<and> cardParentId (c_id d) = Inr (Some i)"
    then obtain s where l: "linked z st (c_id d) s" and d: "s_card s = d"
      and par: "cardParentId (c_id d) = Inr (Some i)" by blast
    from l show "d \<in> set (child_cards z st i sel)"
    proof (cases rule: linked.cases)
      case root
      with par show ?thesis by (simp add: project_parent)
    next
      case (child p parent t)
      obtain ps where ps: "card_path ps" "p = card_id_of ps" using linked_path [OF child(1)] by blast
      with child(2) par have "p = i" by (auto simp: childCardId_path card_path_snoc)
      with child(1) linked_reads [OF child(1)] rd have "parent = sel" by simp
      with child live_children(1) [OF rd, of children s] ch id have "s \<in> set children" by auto
      with d show ?thesis by (auto simp: child_cards_def ch)
    qed
  qed
qed


lemma follow_run:
  assumes "collected z st ''project'' (rs, table)" and "linked z st i sel"
  shows "follow table (s_card sel) = (case filter is_running (child_cards z st i sel) of
     [] \<Rightarrow> Some (Inr [s_card sel])
   | [next] \<Rightarrow> Option.bind (follow table next) (\<lambda>r. Some (bindE r (\<lambda>chain. Inr (s_card sel # chain))))
   | _ \<Rightarrow> Some (Inl (PlainError ''Running card has more than one running direct child.'' [c_id (s_card sel)])))"
  using table_lookup [OF assms] readExactCard_id [OF linked_reads [OF assms(2)]]
  by (subst follow.simps) simp

lemma running_child_linked:
  assumes "store_ok z st" and "links_ok z st" and "linked z st i sel"
    and "filter is_running (child_cards z st i sel) = d # ds"
  shows "\<exists>s. linked z st (c_id d) s \<and> s_card s = d \<and> cardParentId (c_id d) = Inr (Some i) \<and> is_running d"
proof -
  have "d \<in> set (filter is_running (child_cards z st i sel))" using assms(4) by simp
  then show ?thesis using running_children(1) [OF assms(1-3)] by auto
qed

text \<open>The loop ends, and what it returns is a path of running cards.\<close>

lemma follow_path:
  assumes ok: "store_ok z st" "links_ok z st" and table: "collected z st ''project'' (rs, table)"
    and "linked z st i sel"
  shows "\<exists>r. follow table (s_card sel) = Some r \<and> (\<forall>cs. r = Inr cs \<longrightarrow>
    (\<exists>ds. cs = s_card sel # ds \<and> successively (\<lambda>a b. cardParentId (c_id b) = Inr (Some (c_id a))) cs \<and>
      (\<forall>c \<in> set ds. \<exists>s. linked z st (c_id c) s \<and> s_card s = c \<and> is_running c)))"
  using assms(4)
proof (induction "MAX_CARD_DEPTH - depth_of i" arbitrary: i sel rule: less_induct)
  case less
  have id: "c_id (s_card sel) = i" using readExactCard_id [OF linked_reads [OF less.prems]] .
  consider (none) "filter is_running (child_cards z st i sel) = []"
    | (one) d where "filter is_running (child_cards z st i sel) = [d]"
    | (more) d e ds where "filter is_running (child_cards z st i sel) = d # e # ds"
    by (cases "filter is_running (child_cards z st i sel)" rule: remdups_adj.cases) auto
  then show ?case
  proof cases
    case one
    obtain s where s: "linked z st (c_id d) s" "s_card s = d" "cardParentId (c_id d) = Inr (Some i)" "is_running d"
      using running_child_linked [OF ok less.prems one] by blast
    have "MAX_CARD_DEPTH - depth_of (c_id d) < MAX_CARD_DEPTH - depth_of i"
      using child_depth [OF s(3)] by simp
    from less.hyps [OF this s(1)] s(2) obtain r where r: "follow table d = Some r" "\<forall>cs. r = Inr cs \<longrightarrow>
        (\<exists>ds. cs = d # ds \<and> successively (\<lambda>a b. cardParentId (c_id b) = Inr (Some (c_id a))) cs \<and>
          (\<forall>c \<in> set ds. \<exists>s. linked z st (c_id c) s \<and> s_card s = c \<and> is_running c))" by auto
    have "follow table (s_card sel) = Some (bindE r (\<lambda>chain. Inr (s_card sel # chain)))"
      by (simp add: follow_run [OF table less.prems] one r(1))
    then show ?thesis using r(2) s id by (cases r) (auto simp: successively_Cons)
  qed (simp_all add: follow_run [OF table less.prems])
qed

text \<open>Conversely, where the running cards form a chain, the loop returns what is left of it.\<close>

lemma chain_depth:
  assumes "running_chain z st cs" and "k < length cs"
  shows "depth_of (c_id (cs ! k)) = k"
  using assms(2)
proof (induction k)
  case 0
  then have "c_id (cs ! 0) = ''project''" using assms(1) by (auto simp: running_chain_def hd_conv_nth)
  moreover have "depth_of ''project'' = 0" by code_simp
  ultimately show ?case by simp
next
  case (Suc k)
  then have "cardParentId (c_id (cs ! Suc k)) = Inr (Some (c_id (cs ! k)))"
    using assms(1) by (auto simp: running_chain_def successively_conv_nth)
  from child_depth(1) [OF this] Suc show ?case by simp
qed


lemma distinct_set_singleton: "distinct xs \<Longrightarrow> set xs = {x} \<Longrightarrow> xs = [x]"
  by (cases xs rule: remdups_adj.cases) auto

lemma chain_next:
  assumes ok: "store_ok z st" "links_ok z st" and chain: "running_chain z st cs" and k: "k < length cs"
    and l: "linked z st (c_id (cs ! k)) sel"
  shows "filter is_running (child_cards z st (c_id (cs ! k)) sel) =
    (if Suc k < length cs then [cs ! Suc k] else [])"
proof -
  let ?F = "filter is_running (child_cards z st (c_id (cs ! k)) sel)"
  have "d \<in> set ?F \<longleftrightarrow> d \<in> set cs \<and> cardParentId (c_id d) = Inr (Some (c_id (cs ! k)))" for d
  proof -
    have "d \<in> set cs \<longleftrightarrow> (\<exists>s. linked z st (c_id d) s \<and> s_card s = d \<and> is_running d)"
      using chain readExactCard_id linked_reads by (fastforce simp: running_chain_def)
    then show ?thesis using running_children(1) [OF ok l, of d] by auto
  qed
  moreover have "d \<in> set cs \<and> cardParentId (c_id d) = Inr (Some (c_id (cs ! k))) \<longleftrightarrow>
      Suc k < length cs \<and> d = cs ! Suc k" for d
  proof
    assume d: "d \<in> set cs \<and> cardParentId (c_id d) = Inr (Some (c_id (cs ! k)))"
    then obtain j where j: "j < length cs" "d = cs ! j" by (auto simp: in_set_conv_nth)
    then have "j = Suc k"
      using d child_depth(1) chain_depth [OF chain j(1)] chain_depth [OF chain k] by fastforce
    with j show "Suc k < length cs \<and> d = cs ! Suc k" by simp
  next
    assume "Suc k < length cs \<and> d = cs ! Suc k"
    then show "d \<in> set cs \<and> cardParentId (c_id d) = Inr (Some (c_id (cs ! k)))"
      using chain nth_mem [of "Suc k" cs]
      by (auto simp: running_chain_def successively_conv_nth simp del: nth_mem)
  qed
  ultimately have mem: "d \<in> set ?F \<longleftrightarrow> Suc k < length cs \<and> d = cs ! Suc k" for d by blast
  have "distinct ?F" using running_children(2) [OF ok l] by (auto simp: distinct_map)
  moreover have "set ?F = (if Suc k < length cs then {cs ! Suc k} else {})" using mem by auto
  ultimately show ?thesis
    using distinct_set_singleton [of ?F "cs ! Suc k"] by (cases "Suc k < length cs") auto
qed

lemma follow_complete:
  assumes ok: "store_ok z st" "links_ok z st" and table: "collected z st ''project'' (rs, table)"
    and chain: "running_chain z st cs" and "k < length cs"
  shows "follow table (cs ! k) = Some (Inr (drop k cs))"
  using assms(5)
proof (induction "length cs - k" arbitrary: k rule: less_induct)
  case less
  have "cs ! k \<in> set cs" using less.prems by simp
  then obtain s where s: "linked z st (c_id (cs ! k)) s" "s_card s = cs ! k"
    using chain readExactCard_id linked_reads by (fastforce simp: running_chain_def)
  have run: "follow table (cs ! k) = (if Suc k < length cs
      then Option.bind (follow table (cs ! Suc k)) (\<lambda>r. Some (bindE r (\<lambda>chain. Inr (cs ! k # chain))))
      else Some (Inr [cs ! k]))"
    using follow_run [OF table s(1)] chain_next [OF ok chain less.prems s(1)] s(2) by simp
  show ?case
  proof (cases "Suc k < length cs")
    case True
    with less.hyps [of "Suc k"] run show ?thesis by (simp add: Cons_nth_drop_Suc)
  next
    case False
    with run less.prems show ?thesis by (simp add: Cons_nth_drop_Suc [symmetric])
  qed
qed

lemma linked_card_unique:
  assumes "linked z st i s" and "linked z st j t" and "c_id (s_card s) = c_id (s_card t)"
  shows "s_card s = s_card t"
  using assms linked_reads readExactCard_id by (metis sum.inject(2))

definition chain_of :: "zod \<Rightarrow> 'a card_store_scheme \<Rightarrow> current_selection \<Rightarrow> card_record list \<Rightarrow> bool" where
  "chain_of z st root cs \<longleftrightarrow>
     (if is_running (s_card root)
      then \<exists>ds. cs = s_card root # ds \<and> successively (\<lambda>a b. cardParentId (c_id b) = Inr (Some (c_id a))) cs \<and>
        (\<forall>c \<in> set ds. \<exists>s. linked z st (c_id c) s \<and> s_card s = c \<and> is_running c)
      else cs = [])"

lemma chain_sound:
  assumes root: "linked z st ''project'' root" and c: "chain_of z st root cs"
    and all: "\<And>s i. linked z st i s \<Longrightarrow> is_running (s_card s) \<Longrightarrow> c_id (s_card s) \<in> c_id ` set cs"
  shows "running_chain z st cs"
proof -
  have members: "\<exists>s i. linked z st i s \<and> s_card s = d \<and> is_running d" if "d \<in> set cs" for d
    using c that root by (auto simp: chain_of_def split: if_splits) blast+
  have "d \<in> set cs" if d: "linked z st i s" "is_running (s_card s)" "d = s_card s" for d s i
  proof -
    obtain e where e: "e \<in> set cs" "c_id e = c_id d" using all [OF d(1,2)] d(3) by auto
    obtain t j where "linked z st j t" "s_card t = e" using members [OF e(1)] by blast
    with linked_card_unique [OF d(1), of j t] d(3) e show ?thesis by auto
  qed
  with members have "set cs = {s_card s | s. \<exists>i. linked z st i s \<and> is_running (s_card s)}" by blast
  moreover have "c_id (s_card root) = ''project''" using readExactCard_id [OF linked_reads [OF root]] .
  ultimately show ?thesis using c by (auto simp: running_chain_def chain_of_def split: if_splits)
qed

lemma chain_root:
  assumes "running_chain z st cs" and root: "linked z st ''project'' root"
  shows "cs = [] \<longleftrightarrow> \<not> is_running (s_card root)" and "cs \<noteq> [] \<Longrightarrow> cs ! 0 = s_card root"
proof -
  have id: "c_id (s_card root) = ''project''" using readExactCard_id [OF linked_reads [OF root]] .
  show first: "cs ! 0 = s_card root" if "cs \<noteq> []"
  proof -
    have "cs ! 0 \<in> {s_card s | s. \<exists>i. linked z st i s \<and> is_running (s_card s)}"
      using that assms(1) nth_mem [of 0 cs] by (simp add: running_chain_def del: nth_mem)
    then obtain s i where "linked z st i s" "s_card s = cs ! 0" by auto
    moreover have "c_id (cs ! 0) = ''project''" using assms(1) that by (auto simp: running_chain_def hd_conv_nth)
    ultimately show ?thesis using linked_card_unique [OF _ root] id by metis
  qed
  show "cs = [] \<longleftrightarrow> \<not> is_running (s_card root)"
  proof
    show "\<not> is_running (s_card root)" if "cs = []"
      using that assms(1) root by (auto simp: running_chain_def)
    show "cs = []" if "\<not> is_running (s_card root)"
    proof (rule ccontr)
      assume "cs \<noteq> []"
      then have "s_card root \<in> set cs" using first nth_mem [of 0 cs] by simp
      with assms(1) that show False by (auto simp: running_chain_def)
    qed
  qed
qed

lemma selectLinkedRunningChain_run:
  assumes ok: "project_ok z st" and root: "linked z st ''project'' root"
  shows "\<exists>r. selectLinkedRunningChain (readCard z st) (listChildren z st) = Some r \<and>
    (\<forall>cs. r = Inr cs \<longleftrightarrow> running_chain z st cs)"
proof -
  have store: "store_ok z st" "links_ok z st" using ok by (simp_all add: project_ok_def)
  obtain rs table where col: "service_collect z st (s_card root) = Inr (rs, table)"
      "collected z st ''project'' (rs, table)"
    using collect_total [OF store root] by auto
  have rs: "set rs = {s_card s | s. \<exists>i. linked z st i s \<and> is_running (s_card s)}"
    using col(2) by (simp add: collected_def linked_below)
  let ?loop = "if is_running (s_card root) then follow table (s_card root) else Some (Inr [])"
  obtain r where r: "?loop = Some r"
    using follow_path [OF store col(2) root] by (cases "is_running (s_card root)") auto
  let ?out = "bindE r (\<lambda>chain. case find (\<lambda>c. c_id c \<notin> c_id ` set chain) rs of
      Some outside \<Rightarrow> Inl (PlainError
        ''Linked running card is outside the unique project-rooted running chain.'' [c_id outside])
    | None \<Rightarrow> Inr chain)"
  have run: "selectLinkedRunningChain (readCard z st) (listChildren z st) = Some ?out"
    using r by (simp add: selectLinkedRunningChain_def readCard_linked [OF root] col(1))
  have find: "find (\<lambda>c. c_id c \<notin> c_id ` set cs) rs = None \<longleftrightarrow>
      (\<forall>s i. linked z st i s \<and> is_running (s_card s) \<longrightarrow> c_id (s_card s) \<in> c_id ` set cs)" for cs
    unfolding find_None_iff rs by blast
  have "?out = Inr cs \<longleftrightarrow> running_chain z st cs" for cs
  proof
    assume "?out = Inr cs"
    then have rc: "r = Inr cs" and none: "find (\<lambda>c. c_id c \<notin> c_id ` set cs) rs = None"
      by (auto simp: errE split: option.splits)
    have "chain_of z st root cs"
      using follow_path [OF store col(2) root] r rc by (auto simp: chain_of_def split: if_splits)
    then show "running_chain z st cs" using chain_sound [OF root] none find by blast
  next
    assume chain: "running_chain z st cs"
    have "r = Inr cs"
    proof (cases "cs = []")
      case True
      then show ?thesis using r chain_root(1) [OF chain root] by simp
    next
      case False
      then have "follow table (s_card root) = Some (Inr cs)"
        using follow_complete [OF store col(2) chain, of 0] chain_root(2) [OF chain root] by simp
      then show ?thesis using r chain_root(1) [OF chain root] False by simp
    qed
    moreover have "find (\<lambda>c. c_id c \<notin> c_id ` set cs) rs = None"
      using chain find [of cs] by (auto simp: running_chain_def)
    ultimately show "?out = Inr cs" by simp
  qed
  with run show ?thesis by blast
qed

end
