(* ===== verification/ChangedPropagation.thy ===== *)
theory ChangedPropagation
  imports CardActive CardSteps CardServiceRuns
begin

text \<open>
  Propagation of edits (\<open>src/runtime/changed-propagation.ts\<close>): an edited card and its
  ancestors that rest in a finished or blocked status are reopened as changed, up to the first
  running card, and the cards concerned are notified once each.

  The callback \<open>notifyCard\<close> is an operation on the store; \<open>sanitize\<close> stands for
  \<open>sanitizeAnalystText\<close> with its limit; each notification takes its identity and creation time
  from \<open>mint\<close>.
\<close>

section \<open>The code\<close>

definition FLIPPABLE_RESTING :: "card_status list" where
  "FLIPPABLE_RESTING = [Done, Failed, Blocked]"

definition ANALYST_RECORD_FLIPPABLE :: "card_status list" where
  "ANALYST_RECORD_FLIPPABLE = [Blocked, Done, Failed]"

definition isChildCapable :: "(string \<rightharpoonup> compiled_workflow) \<Rightarrow> string \<Rightarrow> error + bool" where
  "isChildCapable workflows cardType =
     bindE (optionE (PlainError ''No compiled workflow exists for card type.'' [cardType]) (workflows cardType))
       (\<lambda>workflow. Inr (w_permitted workflow \<noteq> []))"

definition ancestorPathExcludingEdited :: "zod \<Rightarrow> 'a project_store_scheme \<Rightarrow> string \<Rightarrow> error + string list" where
  "ancestorPathExcludingEdited z st i = bindE (getAncestors z st i) (\<lambda>as. Inr (rev as))"

definition ancestorPathIncludingEdited :: "zod \<Rightarrow> 'a project_store_scheme \<Rightarrow> string \<Rightarrow> error + string list" where
  "ancestorPathIncludingEdited z st i = bindE (getAncestors z st i) (\<lambda>as. Inr (i # rev as))"

fun flipRestingCardsAlongPath :: "zod \<Rightarrow> (string \<Rightarrow> stamps) \<Rightarrow> card_status list \<Rightarrow> string list \<Rightarrow>
    ('a project_store_scheme, (string \<times> card_status) list \<times> string option) op" where
  "flipRestingCardsAlongPath z ks flippable [] = returnS ([], None)"
| "flipRestingCardsAlongPath z ks flippable (i # path) =
     bindS (readS (\<lambda>st. readCard z st i)) (\<lambda>r. case r of
       None \<Rightarrow> flipRestingCardsAlongPath z ks flippable path
     | Some c \<Rightarrow>
         if c_status c = Running then returnS ([], Some i)
         else if c_status c \<in> set flippable then
           bindS (setStatus z i ToChanged (ks i)) (\<lambda>_.
           bindS (flipRestingCardsAlongPath z ks flippable path) (\<lambda>(flipped, first).
           returnS ((i, c_status c) # flipped, first)))
         else flipRestingCardsAlongPath z ks flippable path)"

definition changeNotification :: "(string \<Rightarrow> string \<times> string) \<Rightarrow> string \<Rightarrow> string \<Rightarrow> card_notification" where
  "changeNotification mint summary i =
     \<lparr>n_id = fst (mint i), n_content = ''Card changed: '' @ summary, n_created_at = snd (mint i),
      n_source = Some ''card_changed''\<rparr>"

fun notifyOnce :: "string list \<Rightarrow> string list \<Rightarrow> (string \<Rightarrow> ('s, unit) op) \<Rightarrow> ('s, unit) op" where
  "notifyOnce notified [] notify = returnS ()"
| "notifyOnce notified (i # recipients) notify =
     (if i \<in> set notified then notifyOnce notified recipients notify
      else bindS (notify i) (\<lambda>_. notifyOnce (i # notified) recipients notify))"

fun recipients_along :: "zod \<Rightarrow> (string \<rightharpoonup> compiled_workflow) \<Rightarrow> string option \<Rightarrow> 'a project_store_scheme \<Rightarrow>
    string list \<Rightarrow> error + string list" where
  "recipients_along z workflows edited st [] = Inr []"
| "recipients_along z workflows edited st (i # path) =
     bindE (readCard z st i) (\<lambda>r. case r of
       None \<Rightarrow> recipients_along z workflows edited st path
     | Some c \<Rightarrow>
         bindE (if edited = Some i then Inr False else isChildCapable workflows (c_type c)) (\<lambda>capable.
         bindE (if c_status c = Running then Inr [] else recipients_along z workflows edited st path) (\<lambda>rest.
         Inr ((if capable then [i] else []) @ rest))))"

definition analystRecordEditedCardAndAncestorRecipients :: "zod \<Rightarrow> (string \<rightharpoonup> compiled_workflow) \<Rightarrow>
    'a project_store_scheme \<Rightarrow> string list \<Rightarrow> string \<Rightarrow> error + string list" where
  "analystRecordEditedCardAndAncestorRecipients z workflows st path editedCardId =
     bindE (recipients_along z workflows (Some editedCardId) st path) (\<lambda>rs. Inr (editedCardId # rs))"

definition analystRecordAncestorRecipients :: "zod \<Rightarrow> (string \<rightharpoonup> compiled_workflow) \<Rightarrow>
    'a project_store_scheme \<Rightarrow> string list \<Rightarrow> error + string list" where
  "analystRecordAncestorRecipients z workflows st path = recipients_along z workflows None st path"

definition propagateChange :: "zod \<Rightarrow> (string \<Rightarrow> string) \<Rightarrow> (string \<Rightarrow> stamps) \<Rightarrow> (string \<Rightarrow> string \<times> string) \<Rightarrow>
    string \<Rightarrow> string \<Rightarrow> (string \<Rightarrow> card_notification \<Rightarrow> ('a project_store_scheme, unit) op) \<Rightarrow>
    ('a project_store_scheme, (string \<times> card_status) list) op" where
  "propagateChange z sanitize ks mint editedCardId summary notifyCard =
     bindS (require_card z editedCardId) (\<lambda>edited.
     bindS (readS (\<lambda>st. ancestorPathIncludingEdited z st editedCardId)) (\<lambda>path.
     bindS (flipRestingCardsAlongPath z ks FLIPPABLE_RESTING path) (\<lambda>(flipped, firstRunningCardId).
     bindS (notifyOnce [] (editedCardId # (case firstRunningCardId of None \<Rightarrow> [] | Some i \<Rightarrow> [i]))
       (\<lambda>i. notifyCard i (changeNotification mint (sanitize summary) i))) (\<lambda>_.
     returnS flipped))))"

definition propagateAnalystRecordEdit :: "zod \<Rightarrow> (string \<rightharpoonup> compiled_workflow) \<Rightarrow> (string \<Rightarrow> string) \<Rightarrow>
    (string \<Rightarrow> stamps) \<Rightarrow> (string \<Rightarrow> string \<times> string) \<Rightarrow> string \<Rightarrow> string \<Rightarrow>
    (string \<Rightarrow> card_notification \<Rightarrow> ('a project_store_scheme, unit) op) \<Rightarrow>
    ('a project_store_scheme, (string \<times> card_status) list) op" where
  "propagateAnalystRecordEdit z workflows sanitize ks mint editedCardId summary notifyCard =
     bindS (require_card z editedCardId) (\<lambda>edited.
     bindS (case analystRecordEditEffect (c_status edited) of
         None \<Rightarrow> liftS (Inl (PlainError ''Analyst record edit propagation does not support target card status.'' []))
       | Some effect \<Rightarrow>
           if c_status edited = Running then returnS ([], [editedCardId])
           else if c_status edited = Stopped \<or> c_status edited = Changed \<or> effect = Reopen then
             bindS (readS (\<lambda>st. ancestorPathIncludingEdited z st editedCardId)) (\<lambda>path.
             bindS (flipRestingCardsAlongPath z ks ANALYST_RECORD_FLIPPABLE path) (\<lambda>(flipped, _).
             bindS (readS (\<lambda>st. analystRecordEditedCardAndAncestorRecipients z workflows st path editedCardId)) (\<lambda>rs.
             returnS (flipped, rs))))
           else if c_status edited = Backlog then
             bindS (readS (\<lambda>st. ancestorPathExcludingEdited z st editedCardId)) (\<lambda>path.
             bindS (flipRestingCardsAlongPath z ks ANALYST_RECORD_FLIPPABLE path) (\<lambda>(flipped, _).
             bindS (readS (\<lambda>st. analystRecordAncestorRecipients z workflows st path)) (\<lambda>rs.
             returnS (flipped, rs))))
           else liftS (Inl (PlainError ''Analyst record edit effect has no propagation path for status.'' [])))
       (\<lambda>(flipped, notifyRecipients).
     bindS (notifyOnce [] notifyRecipients
       (\<lambda>i. notifyCard i (changeNotification mint (sanitize summary) i))) (\<lambda>_.
     returnS flipped)))"

section \<open>The path to the project card\<close>

definition upward :: "string list \<Rightarrow> bool" where
  "upward path \<longleftrightarrow> path \<noteq> [] \<and> last path = ''project'' \<and>
     successively (\<lambda>a b. cardParentId a = Inr (Some b)) path"

lemma project_only_root:
  assumes "cardParentId i = Inr None"
  shows "i = ''project''"
proof -
  have "cardIdSchema i" using assms by (auto simp: cardParentId_def cardIdSegments_def errE)
  then obtain ss where "card_path ss" "i = card_id_of ss" by (auto simp: cardIdSchema_iff)
  with assms have "ss = []" by (auto split: if_splits)
  with \<open>i = card_id_of ss\<close> show ?thesis by (simp add: card_id_of_def)
qed

lemma climb_up:
  "cardIdSchema p \<Longrightarrow> \<exists>ps. climb (Some p) out = Inr (rev ps @ out) \<and> upward ps \<and> hd ps = p"
proof (induction "depth_of p" arbitrary: p out rule: less_induct)
  case less
  then obtain parent where par: "cardParentId p = Inr parent" using cardParentId_total by blast
  show ?case
  proof (cases parent)
    case None
    with par project_only_root have "p = ''project''" by simp
    with par None show ?thesis by (intro exI [of _ "[p]"]) (simp add: upward_def)
  next
    case (Some q)
    have "cardIdSchema q"
    proof -
      obtain ss where ss: "card_path ss" "p = card_id_of ss" using less.prems by (auto simp: cardIdSchema_iff)
      with par Some have "q = card_id_of (butlast ss)" by (auto split: if_splits)
      with ss show ?thesis using card_id_of_valid card_path_butlast by (auto simp: cardIdSchema_iff)
    qed
    with less.hyps [OF depth_of_parent] par Some obtain ps where
      ps: "climb (Some q) (p # out) = Inr (rev ps @ p # out)" "upward ps" "hd ps = q" by blast
    then show ?thesis using par Some
      by (intro exI [of _ "p # ps"]) (auto simp: upward_def successively_Cons)
  qed
qed

lemma path_including:
  assumes "linked z st i sel"
  shows "\<exists>path. ancestorPathIncludingEdited z st i = Inr path \<and> upward path \<and> hd path = i"
proof -
  have fold: "readActiveCardFold z st i = Inr (Some sel)" using assms by (simp add: readActiveCardFold_iff)
  have "cardIdSchema i" using assms linked_path by (auto simp: cardIdSchema_iff)
  then obtain parent where par: "cardParentId i = Inr parent" using cardParentId_total by blast
  obtain ps where "climb (Some i) [] = Inr (rev ps)" "upward ps" "hd ps = i"
    using climb_up [OF \<open>cardIdSchema i\<close>, of "[]"] by auto
  moreover from this obtain qs where "ps = i # qs" by (cases ps) (auto simp: upward_def)
  moreover have "climb (Some i) [] = climb parent [i]" using par by simp
  moreover have "climb parent (xs @ ys) = bindE (climb parent xs) (\<lambda>r. Inr (r @ ys))" for xs ys
    by (induction parent xs rule: climb.induct) (auto simp: bindE_assoc intro!: bindE_cong)
  from this [of "[]" "[i]"] have "climb parent [i] = bindE (climb parent []) (\<lambda>r. Inr (r @ [i]))" by simp
  ultimately have "climb parent [] = Inr (rev qs)" and "ps = i # qs" and "upward ps"
    by (cases "climb parent []"; simp)+
  then show ?thesis using fold par by (simp add: ancestorPathIncludingEdited_def getAncestors_def)
qed


section \<open>What a propagation changes\<close>

definition path_before_running :: "(string \<rightharpoonup> card_record) \<Rightarrow> string list \<Rightarrow> string list" where
  "path_before_running m path = takeWhile (\<lambda>i. map_option c_status (m i) \<noteq> Some Running) path"

text \<open>The cards to reopen: those before the first running one whose status is flippable.\<close>

definition reopened :: "card_status list \<Rightarrow> (string \<rightharpoonup> card_record) \<Rightarrow> string list \<Rightarrow> string list" where
  "reopened flippable m path =
     filter (\<lambda>i. \<exists>c. m i = Some c \<and> c_status c \<in> set flippable) (path_before_running m path)"

definition reopen_card :: "(string \<Rightarrow> stamps) \<Rightarrow> string \<Rightarrow> card_record \<Rightarrow> card_record" where
  "reopen_card ks i c = c\<lparr>c_lifecycle := LChanged, c_updated_at := k_now (ks i),
     c_version_seq := c_version_seq c + 1\<rparr>"

definition reopen_map :: "(string \<Rightarrow> stamps) \<Rightarrow> string list \<Rightarrow> (string \<rightharpoonup> card_record) \<Rightarrow> (string \<rightharpoonup> card_record)" where
  "reopen_map ks is m = (\<lambda>i. if i \<in> set is then map_option (reopen_card ks i) (m i) else m i)"

lemma reopen_status [simp]: "c_status (reopen_card ks i c) = Changed"
  by (simp add: reopen_card_def)

lemma reopened_update:
  assumes "i \<notin> set path"
  shows "reopened flippable (m(i := v)) path = reopened flippable m path"
    and "path_before_running (m(i := v)) path = path_before_running m path"
proof -
  show before: "path_before_running (m(i := v)) path = path_before_running m path"
    unfolding path_before_running_def using assms by (intro takeWhile_cong) auto
  have "set (path_before_running m path) \<subseteq> set path"
    by (auto simp: path_before_running_def dest: set_takeWhileD)
  with assms show "reopened flippable (m(i := v)) path = reopened flippable m path"
    unfolding reopened_def before by (intro filter_cong) auto
qed

lemma reopened_subset: "set (reopened flippable m path) \<subseteq> set path"
  by (auto simp: reopened_def path_before_running_def dest: set_takeWhileD)

lemma reopened_Cons:
  "m i = Some c \<Longrightarrow> c_status c \<noteq> Running \<Longrightarrow> c_status c \<in> set flippable \<Longrightarrow>
    reopened flippable m (i # path) = i # reopened flippable m path"
  by (simp add: reopened_def path_before_running_def)

lemma first_update:
  "i \<notin> set path \<Longrightarrow>
    find (\<lambda>j. map_option c_status ((m(i := v)) j) = Some Running) path =
    find (\<lambda>j. map_option c_status (m j) = Some Running) path"
  by (rule find_cong) auto

lemma reopen_map_update:
  assumes "m i = Some c" and "i \<notin> set is"
  shows "reopen_map ks is (m(i \<mapsto> reopen_card ks i c)) = reopen_map ks (i # is) m"
  using assms by (auto simp: reopen_map_def fun_eq_iff)

lemma flip_exact:
  assumes "flipRestingCardsAlongPath z ks flippable path st = (Inr (flipped, first), st')"
    and "project_ok z st" and "distinct path"
  shows "active_cards z st' = reopen_map ks (reopened flippable (active_cards z st) path) (active_cards z st) \<and>
    flipped = map (\<lambda>i. (i, c_status (the (active_cards z st i)))) (reopened flippable (active_cards z st) path) \<and>
    first = find (\<lambda>i. map_option c_status (active_cards z st i) = Some Running) path \<and> project_ok z st'"
  using assms
proof (induction path arbitrary: st flipped)
  case Nil
  then show ?case by (simp add: errE reopened_def path_before_running_def reopen_map_def)
next
  case (Cons i path)
  obtain r where r: "readCard z st i = Inr r"
    using Cons.prems(1) by (auto simp: errE)
  consider (absent) "active_cards z st i = None" "r = None"
    | (running) c where "active_cards z st i = Some c" "r = Some c" "c_status c = Running"
    | (flip) c where "active_cards z st i = Some c" "r = Some c" "c_status c \<noteq> Running" "c_status c \<in> set flippable"
    | (skip) c where "active_cards z st i = Some c" "r = Some c" "c_status c \<noteq> Running" "c_status c \<notin> set flippable"
    using r by (cases r) (auto simp: active_cards_def)
  then show ?case
  proof cases
    case flip
    obtain d st1 rest where set: "setStatus z i ToChanged (ks i) st = (Inr d, st1)"
      and rest: "flipRestingCardsAlongPath z ks flippable path st1 = (Inr (rest, first), st')"
      and fl: "flipped = (i, c_status c) # rest"
      using Cons.prems(1) r flip by (auto simp: errE)
    have d: "d = reopen_card ks i c" and act: "active_cards z st1 = (active_cards z st)(i \<mapsto> d)"
      using setStatus_active [OF set Cons.prems(2)] flip by (auto simp: reopen_card_def)
    have "project_ok z st1" using keepsD [OF setStatus_kept set] Cons.prems(2) by (simp add: kept_def)
    note ih = Cons.IH [OF rest this]
    let ?R = "reopened flippable (active_cards z st) path"
    have fresh: "i \<notin> set path" and "i \<notin> set ?R" using Cons.prems(3) reopened_subset by auto
    have labels: "map (\<lambda>j. (j, c_status (the (((active_cards z st)(i \<mapsto> d)) j)))) ?R =
        map (\<lambda>j. (j, c_status (the (active_cards z st j)))) ?R"
      using \<open>i \<notin> set ?R\<close> by (intro map_cong) auto
    show ?thesis
      using ih [unfolded act reopened_update(1) [OF fresh] first_update [OF fresh] labels] Cons.prems(3)
        reopen_map_update [of "active_cards z st" i c ?R ks] \<open>i \<notin> set ?R\<close> flip fl d
      by (simp add: reopened_Cons [of "active_cards z st" i c] del: fun_upd_apply)
  next
    case running
    then show ?thesis using Cons.prems r
      by (simp add: errE reopened_def path_before_running_def reopen_map_def)
  next
    case absent
    then show ?thesis using Cons.IH [of st] Cons.prems r
      by (auto simp: errE reopened_def path_before_running_def)
  next
    case skip
    then show ?thesis using Cons.IH [of st] Cons.prems r
      by (auto simp: errE reopened_def path_before_running_def)
  qed
qed

section \<open>Notifying once\<close>

fun fresh_recipients :: "string list \<Rightarrow> string list \<Rightarrow> string list" where
  "fresh_recipients seen [] = []"
| "fresh_recipients seen (i # rs) =
     (if i \<in> set seen then fresh_recipients seen rs else i # fresh_recipients (i # seen) rs)"

lemma notifyOnce_run: "notifyOnce seen rs notify = forS notify (fresh_recipients seen rs)"
  by (induction rs arbitrary: seen) auto

lemma fresh_pair:
  "fresh_recipients [] (i # (case first of None \<Rightarrow> [] | Some r \<Rightarrow> [r])) =
   i # (case first of None \<Rightarrow> [] | Some r \<Rightarrow> if r = i then [] else [r])"
  by (auto split: option.splits)

lemma upward_depth:
  "successively (\<lambda>a b. cardParentId a = Inr (Some b)) (i # path) \<Longrightarrow> j \<in> set path \<Longrightarrow> depth_of j < depth_of i"
proof (induction path arbitrary: i)
  case (Cons a path)
  then have "depth_of a < depth_of i" using depth_of_parent by (simp add: successively_Cons)
  with Cons show ?case by (force simp: successively_Cons)
qed simp

lemma upward_distinct: "successively (\<lambda>a b. cardParentId a = Inr (Some b)) path \<Longrightarrow> distinct path"
proof (induction path)
  case (Cons i path)
  then have "i \<notin> set path" using upward_depth [of i path i] by blast
  with Cons show ?case by (auto simp: successively_Cons)
qed simp

lemma path_excluding:
  assumes "ancestorPathIncludingEdited z st i = Inr path"
  shows "ancestorPathExcludingEdited z st i = Inr (tl path) \<and> path = i # tl path"
  using assms by (auto simp: ancestorPathIncludingEdited_def ancestorPathExcludingEdited_def errE)

text \<open>What a propagation leaves: the store after the reopening of cards along a path.\<close>

definition reopens :: "zod \<Rightarrow> (string \<Rightarrow> stamps) \<Rightarrow> card_status list \<Rightarrow> string list \<Rightarrow>
    'a project_store_scheme \<Rightarrow> (string \<times> card_status) list \<Rightarrow> 'a project_store_scheme \<Rightarrow> bool" where
  "reopens z ks flippable path st flipped st' \<longleftrightarrow>
     active_cards z st' = reopen_map ks (reopened flippable (active_cards z st) path) (active_cards z st) \<and>
     flipped = map (\<lambda>i. (i, c_status (the (active_cards z st i)))) (reopened flippable (active_cards z st) path) \<and>
     project_ok z st'"

section \<open>Every flip succeeds\<close>

text \<open>The identifiers a flip draws are good for every card that rests.\<close>

definition resting_ready :: "zod \<Rightarrow> (string \<Rightarrow> stamps) \<Rightarrow> 'a project_store_scheme \<Rightarrow> bool" where
  "resting_ready z ks st \<longleftrightarrow> (\<forall>i sel. linked z st i sel \<and> c_status (s_card sel) \<in> {Blocked, Done, Failed} \<longrightarrow>
     advance_ok z st sel (ks i))"

lemma publishCardVersion_elsewhere:
  assumes "publishCardVersion z c v nt h st = (Inr a, st')" and "j \<noteq> c_id c"
  shows "history st' (j, e) = history st (j, e)"
  using assms by (auto simp: publishCardVersion_def publishMailboxMessage_def publishHeadFile_def errE parse_card_def
      split: if_splits)

lemma setStatus_elsewhere:
  assumes "setStatus z i t k st = (Inr r, st')" and "j \<noteq> i"
  shows "history st' (j, e) = history st (j, e)"
proof -
  from assms(1) show ?thesis
  proof (rule setStatus_Inr)
    fix sel assume id: "c_id (s_card sel) = i"
    assume "publishVersion z (s_card sel) ((s_card sel)\<lparr>c_lifecycle := buildSetStatusLifecycle t,
      c_pending_notifications := (if t = ToCancelled then [] else c_pending_notifications (s_card sel)),
      c_updated_at := k_now k, c_version_seq := c_version_seq (s_card sel) + 1\<rparr>) KStatus
      (set_status_fields t (s_card sel)) (status_reason (target_status t))
      (summarizeChangedFields (set_status_fields t (s_card sel))) None None k st = (Inr r, st')"
    then show ?thesis
      by (rule publishVersion_Inr) (use id assms(2) publishCardVersion_elsewhere in fastforce)
  qed
qed

lemma resting_ready_step:
  assumes set: "setStatus z i ToChanged (ks i) st = (Inr r, st')" and ok: "project_ok z st"
    and ready: "resting_ready z ks st"
  shows "resting_ready z ks st'"
  unfolding resting_ready_def
proof (intro allI impI, elim conjE)
  fix j sel assume l: "linked z st' j sel" and s: "c_status (s_card sel) \<in> {Blocked, Done, Failed}"
  obtain c where c: "active_cards z st' = (active_cards z st)(i \<mapsto> c)" "c_status c = Changed"
    using setStatus_active [OF set ok] by auto
  have "active_cards z st' j = Some (s_card sel)" using l by (auto simp: active_cards_iff)
  with c s have "j \<noteq> i" and "active_cards z st j = Some (s_card sel)" by (auto split: if_splits)
  then obtain sel' where sel': "linked z st j sel'" "s_card sel' = s_card sel" by (auto simp: active_cards_iff)
  have "c_id (s_card sel) = j" using readExactCard_id [OF linked_reads [OF l]] .
  moreover have "advance_ok z st sel' (ks j)" using ready sel' s by (auto simp: resting_ready_def)
  ultimately show "advance_ok z st' sel (ks j)"
    using sel'(2) setStatus_elsewhere [OF set \<open>j \<noteq> i\<close>] by (simp add: advance_ok_def)
qed

lemma active_read: "active_cards z st i = Some c \<Longrightarrow> readCard z st i = Inr (Some c)"
  by (auto simp: active_cards_iff readCard_iff)

lemma flip_succeeds:
  assumes "project_ok z st" and "resting_ready z ks st" and "set path \<subseteq> dom (active_cards z st)"
    and "set flippable \<subseteq> {Blocked, Done, Failed}"
  shows "\<exists>flipped first st'. flipRestingCardsAlongPath z ks flippable path st = (Inr (flipped, first), st')"
  using assms(1-3)
proof (induction path arbitrary: st)
  case Nil
  then show ?case by (simp add: returnS_def)
next
  case (Cons i path)
  then obtain c where c: "active_cards z st i = Some c" by auto
  then obtain sel where l: "linked z st i sel" "s_card sel = c" by (auto simp: active_cards_iff)
  consider (running) "c_status c = Running" | (flip) "c_status c \<noteq> Running" "c_status c \<in> set flippable"
    | (skip) "c_status c \<noteq> Running" "c_status c \<notin> set flippable" by blast
  then show ?case
  proof cases
    case flip
    have rest: "c_status c \<in> {Blocked, Done, Failed}" using flip assms(4) by blast
    with l Cons.prems(2) have "advance_ok z st sel (ks i)" by (auto simp: resting_ready_def)
    then obtain d st1 where set: "setStatus z i ToChanged (ks i) st = (Inr d, st1)"
      using setStatus_succeeds [OF l(1), of "ks i" ToChanged] rest l(2) by auto
    have "project_ok z st1" using keepsD [OF setStatus_kept set] Cons.prems(1) by (simp add: kept_def)
    moreover have "set path \<subseteq> dom (active_cards z st1)"
      using setStatus_active [OF set Cons.prems(1)] Cons.prems(3) by auto
    ultimately obtain flipped first st' where
      "flipRestingCardsAlongPath z ks flippable path st1 = (Inr (flipped, first), st')"
      using Cons.IH [OF _ resting_ready_step [OF set Cons.prems(1,2)]] by blast
    with set flip show ?thesis by (simp add: active_read [OF c] bindS_def readS_def returnS_def)
  next
    case running
    then show ?thesis by (simp add: active_read [OF c] bindS_def readS_def returnS_def)
  next
    case skip
    then show ?thesis using Cons by (simp add: active_read [OF c] bindS_def readS_def)
  qed
qed

lemma childCardId_parent: "childCardId p s = Inr i \<Longrightarrow> cardParentId i = Inr (Some p)"
proof -
  assume i: "childCardId p s = Inr i"
  then have "cardIdSchema p" "cardSegmentSchema s" by (auto simp: childCardId_def errE)
  then obtain ss where ss: "card_path ss" "p = card_id_of ss" by (auto simp: cardIdSchema_iff)
  with i \<open>cardSegmentSchema s\<close> have "card_path (ss @ [s])" "i = card_id_of (ss @ [s])"
    by (auto simp: childCardId_path card_path_snoc)
  with ss show ?thesis by simp
qed

lemma path_active:
  assumes "linked z st i sel" and "upward path" and "hd path = i"
  shows "set path \<subseteq> dom (active_cards z st)"
  using assms
proof (induction path arbitrary: i sel)
  case (Cons j path)
  then have j: "j = i" "active_cards z st i = Some (s_card sel)" by (auto simp: active_cards_iff)
  show ?case
  proof (cases path)
    case (Cons p qs)
    then have p: "cardParentId i = Inr (Some p)" and up: "upward path" "hd path = p"
      using Cons.prems j by (auto simp: upward_def)
    from Cons.prems(1) p obtain parent where "linked z st p parent"
      by (cases rule: linked.cases)
        (auto dest: childCardId_parent simp: cardParentId_def cardIdSegments_def cardIdSchema_def errE)
    from Cons.IH [OF this up] j show ?thesis by auto
  qed (use j in auto)
qed (simp add: upward_def)

text \<open>The two together: along the path from an active card to the root a flip does its work.\<close>

lemma flip_run:
  assumes "project_ok z st" and "resting_ready z ks st" and "linked z st edited sel"
    and "upward path" "hd path = edited" and "set flippable \<subseteq> {Blocked, Done, Failed}"
  shows "\<exists>flipped st1. flipRestingCardsAlongPath z ks flippable path st =
      (Inr (flipped, find (\<lambda>i. map_option c_status (active_cards z st i) = Some Running) path), st1) \<and>
    reopens z ks flippable path st flipped st1"
proof -
  obtain flipped first st1 where run: "flipRestingCardsAlongPath z ks flippable path st = (Inr (flipped, first), st1)"
    using flip_succeeds [OF assms(1,2) path_active [OF assms(3,4,5)] assms(6)] by blast
  have "distinct path" using assms(4) upward_distinct by (simp add: upward_def)
  from run flip_exact [OF run assms(1) this] show ?thesis by (auto simp: reopens_def)
qed

section \<open>The propagations\<close>

lemma propagateChange_run:
  assumes ok: "project_ok z st" and ready: "resting_ready z ks st" and l: "linked z st edited sel"
  shows "\<exists>path flipped st1. upward path \<and> hd path = edited \<and> reopens z ks FLIPPABLE_RESTING path st flipped st1 \<and>
    propagateChange z sanitize ks mint edited summary notifyCard st =
      bindS (forS (\<lambda>i. notifyCard i (changeNotification mint (sanitize summary) i))
        (edited # (case find (\<lambda>i. map_option c_status (active_cards z st i) = Some Running) path of
           Some r \<Rightarrow> if r = edited then [] else [r] | None \<Rightarrow> []))) (\<lambda>_. returnS flipped) st1"
proof -
  obtain path where path: "ancestorPathIncludingEdited z st edited = Inr path" "upward path" "hd path = edited"
    using path_including [OF l] by blast
  obtain flipped st1 where "flipRestingCardsAlongPath z ks FLIPPABLE_RESTING path st =
      (Inr (flipped, find (\<lambda>i. map_option c_status (active_cards z st i) = Some Running) path), st1)"
    and "reopens z ks FLIPPABLE_RESTING path st flipped st1"
    using flip_run [OF ok ready l path(2,3), of FLIPPABLE_RESTING] by (auto simp: FLIPPABLE_RESTING_def)
  then show ?thesis using path require_card_run [OF l]
    by (intro exI [of _ path] exI [of _ flipped] exI [of _ st1])
      (auto simp: propagateChange_def bindS_def readS_def notifyOnce_run fresh_pair simp del: fresh_recipients.simps)
qed

text \<open>The cards an edit of records concerns: up to and including the first running one.\<close>

definition upto_running :: "(string \<rightharpoonup> card_record) \<Rightarrow> string list \<Rightarrow> string list" where
  "upto_running m path = path_before_running m path @ take 1 (drop (length (path_before_running m path)) path)"

definition child_capable :: "(string \<rightharpoonup> compiled_workflow) \<Rightarrow> (string \<rightharpoonup> card_record) \<Rightarrow> string \<Rightarrow> bool" where
  "child_capable workflows m i \<longleftrightarrow>
     (\<exists>c w. m i = Some c \<and> workflows (c_type c) = Some w \<and> w_permitted w \<noteq> [])"

lemma recipients_run:
  assumes "set path \<subseteq> dom (active_cards z st)"
    and "\<And>i c. active_cards z st i = Some c \<Longrightarrow> workflows (c_type c) \<noteq> None"
  shows "recipients_along z workflows edited st path = Inr (filter (\<lambda>i. Some i \<noteq> edited \<and>
    child_capable workflows (active_cards z st) i) (upto_running (active_cards z st) path))"
  using assms(1)
proof (induction path)
  case Nil
  then show ?case by (simp add: upto_running_def path_before_running_def)
next
  case (Cons i path)
  then obtain c where c: "active_cards z st i = Some c" by auto
  then obtain w where w: "workflows (c_type c) = Some w" using assms(2) by blast
  have cap: "child_capable workflows (active_cards z st) i \<longleftrightarrow> w_permitted w \<noteq> []"
    using c w by (simp add: child_capable_def)
  show ?case
    using Cons c w cap by (auto simp: active_read isChildCapable_def upto_running_def path_before_running_def)
qed

lemma reopen_map_running:
  assumes "Running \<notin> set flippable"
  shows "map_option c_status (reopen_map ks (reopened flippable m path) m i) = Some Running \<longleftrightarrow>
    map_option c_status (m i) = Some Running"
  using assms by (auto simp: reopen_map_def reopened_def map_option_case split: option.splits)

lemma reopen_map_type:
  "map_option c_type (reopen_map ks is m i) = map_option c_type (m i)"
  by (simp add: reopen_map_def option.map_comp comp_def reopen_card_def)

text \<open>Reopening changes neither which card runs first nor what the cards may contain.\<close>

lemma upto_running_reopens:
  assumes "reopens z ks ANALYST_RECORD_FLIPPABLE path st flipped st1"
  shows "upto_running (active_cards z st1) ps = upto_running (active_cards z st) ps"
    and "child_capable workflows (active_cards z st1) = child_capable workflows (active_cards z st)"
    and "dom (active_cards z st1) = dom (active_cards z st)"
    and "map_option c_type (active_cards z st1 i) = map_option c_type (active_cards z st i)"
proof -
  let ?m = "active_cards z st" and ?is = "reopened ANALYST_RECORD_FLIPPABLE (active_cards z st) path"
  have m: "active_cards z st1 = reopen_map ks ?is ?m" using assms by (simp add: reopens_def)
  have running: "Running \<notin> set ANALYST_RECORD_FLIPPABLE" by (simp add: ANALYST_RECORD_FLIPPABLE_def)
  show "upto_running (active_cards z st1) ps = upto_running ?m ps"
    unfolding upto_running_def path_before_running_def m
    by (simp only: reopen_map_running [OF running])
  show "map_option c_type (active_cards z st1 i) = map_option c_type (?m i)" for i
    by (simp add: m reopen_map_type)
  have capable: "child_capable workflows n = (\<lambda>i. \<exists>t w. map_option c_type (n i) = Some t \<and> workflows t = Some w \<and> w_permitted w \<noteq> [])" for n
    by (auto simp: child_capable_def fun_eq_iff)
  show "child_capable workflows (active_cards z st1) = child_capable workflows ?m"
    by (simp add: capable m reopen_map_type)
  show "dom (active_cards z st1) = dom ?m"
    by (auto simp: m reopen_map_def dom_def)
qed

text \<open>What an edit of the records of a card is to notify: the card itself unless it is still in
  the backlog, and every other card up to the first running one that may have children.\<close>

definition edit_recipients :: "(string \<rightharpoonup> compiled_workflow) \<Rightarrow> (string \<rightharpoonup> card_record) \<Rightarrow> string list \<Rightarrow> string list" where
  "edit_recipients workflows m path =
     filter (\<lambda>i. if i = hd path then map_option c_status (m i) \<noteq> Some Backlog else child_capable workflows m i)
       (upto_running m path)"

lemma upto_running_Cons:
  "upto_running m (i # path) = i # (if map_option c_status (m i) = Some Running then [] else upto_running m path)"
  by (auto simp: upto_running_def path_before_running_def)

lemma upto_running_subset: "set (upto_running m path) \<subseteq> set path"
  unfolding upto_running_def path_before_running_def
  by (auto dest: set_takeWhileD in_set_takeD in_set_dropD)

lemma upto_running_distinct: "distinct path \<Longrightarrow> distinct (upto_running m path)"
proof (induction path)
  case Nil
  then show ?case by (simp add: upto_running_def path_before_running_def)
next
  case (Cons i path)
  then show ?case using upto_running_subset [of m path] by (auto simp: upto_running_Cons)
qed

lemma fresh_distinct: "distinct rs \<Longrightarrow> set rs \<inter> set seen = {} \<Longrightarrow> fresh_recipients seen rs = rs"
  by (induction rs arbitrary: seen) auto

lemma analyst_edit_run:
  assumes ok: "project_ok z st" and ready: "resting_ready z ks st" and l: "linked z st edited sel"
    and flows: "\<And>i c. active_cards z st i = Some c \<Longrightarrow> workflows (c_type c) \<noteq> None"
    and status: "c_status (s_card sel) \<noteq> Cancelled"
  shows "\<exists>path flipped st1. upward path \<and> hd path = edited \<and> reopens z ks ANALYST_RECORD_FLIPPABLE path st flipped st1 \<and>
    propagateAnalystRecordEdit z workflows sanitize ks mint edited summary notifyCard st =
      bindS (forS (\<lambda>i. notifyCard i (changeNotification mint (sanitize summary) i))
        (edit_recipients workflows (active_cards z st) path)) (\<lambda>_. returnS flipped) st1"
proof -
  note card = require_card_run [OF l]
  have act: "active_cards z st edited = Some (s_card sel)" using l by (auto simp: active_cards_iff)
  obtain qs where path: "ancestorPathIncludingEdited z st edited = Inr (edited # qs)" "upward (edited # qs)"
    using path_including [OF l] path_excluding by metis
  note excl = path_excluding [OF path(1), simplified]
  have dist: "distinct (edited # qs)" using path(2) upward_distinct [of "edited # qs"] by (simp add: upward_def)
  obtain flipped first st1 where flip: "flipRestingCardsAlongPath z ks ANALYST_RECORD_FLIPPABLE (edited # qs) st =
      (Inr (flipped, first), st1)" and re: "reopens z ks ANALYST_RECORD_FLIPPABLE (edited # qs) st flipped st1"
    using flip_run [OF ok ready l path(2), of ANALYST_RECORD_FLIPPABLE] by (auto simp: ANALYST_RECORD_FLIPPABLE_def)
  note same = upto_running_reopens [OF re]
  have flows1: "workflows (c_type c) \<noteq> None" if "active_cards z st1 i = Some c" for i c
    using flows same(4) [of i] that by (cases "active_cards z st i") auto
  have rec: "recipients_along z workflows ed st1 ps = Inr (filter (\<lambda>i. Some i \<noteq> ed \<and>
      child_capable workflows (active_cards z st) i) (upto_running (active_cards z st) ps))"
    if ps: "set ps \<subseteq> set (edited # qs)" for ps ed
  proof -
    have "set ps \<subseteq> dom (active_cards z st1)" using ps path_active [OF l path(2)] unfolding same(3) by auto
    then show ?thesis using recipients_run [of ps z st1 workflows ed] flows1 by (simp add: same(1,2))
  qed
  have fresh: "edited \<notin> set (upto_running (active_cards z st) qs)"
    using dist upto_running_subset by fastforce
  let ?U = "filter (child_capable workflows (active_cards z st)) (upto_running (active_cards z st) qs)"
  have U: "distinct ?U" "edited \<notin> set ?U"
    using dist fresh upto_running_distinct [of qs "active_cards z st"] by simp_all
  have same_U: "filter (\<lambda>i. i \<noteq> edited \<and> child_capable workflows (active_cards z st) i)
      (upto_running (active_cards z st) qs) = ?U"
    using fresh by (intro filter_cong) auto
  have recipients: "edit_recipients workflows (active_cards z st) (edited # qs) =
      (if c_status (s_card sel) = Backlog then [] else [edited]) @
      (if c_status (s_card sel) = Running then [] else ?U)"
    using act fresh by (auto simp: edit_recipients_def upto_running_Cons intro!: filter_cong)
  consider (running) "c_status (s_card sel) = Running" | (backlog) "c_status (s_card sel) = Backlog"
    | (resting) "c_status (s_card sel) \<in> {Stopped, Changed, Blocked, Done, Failed}"
    using status by (cases "c_status (s_card sel)") auto
  then have "propagateAnalystRecordEdit z workflows sanitize ks mint edited summary notifyCard st =
      bindS (forS (\<lambda>i. notifyCard i (changeNotification mint (sanitize summary) i))
        (edit_recipients workflows (active_cards z st) (edited # qs))) (\<lambda>_. returnS flipped) st1"
  proof cases
    case running
    with flip have "flipped = []" "st1 = st" by (auto simp: active_read [OF act] errE)
    then show ?thesis
      by (simp add: propagateAnalystRecordEdit_def bindS_def card running analystRecordEditEffect_def
          notifyOnce_run recipients) (simp add: bindS_def returnS_def)
  next
    case backlog
    with flip have "flipRestingCardsAlongPath z ks ANALYST_RECORD_FLIPPABLE qs st = (Inr (flipped, first), st1)"
      by (simp add: active_read [OF act] bindS_def readS_def ANALYST_RECORD_FLIPPABLE_def)
    moreover have "analystRecordAncestorRecipients z workflows st1 qs = Inr ?U"
      using rec [of qs None] by (auto simp: analystRecordAncestorRecipients_def)
    ultimately show ?thesis using fresh_distinct [OF U(1), of "[]"]
      by (simp add: propagateAnalystRecordEdit_def bindS_def readS_def returnS_def card backlog
          analystRecordEditEffect_def notifyOnce_run recipients excl)
  next
    case resting
    have "fresh_recipients [] (edited # ?U) = edited # ?U" using U by (intro fresh_distinct) auto
    moreover have "analystRecordEditedCardAndAncestorRecipients z workflows st1 (edited # qs) edited = Inr (edited # ?U)"
      using rec [of "edited # qs" "Some edited"] act resting same_U
      by (auto simp: analystRecordEditedCardAndAncestorRecipients_def upto_running_Cons)
    ultimately show ?thesis using resting flip
      by (auto simp: propagateAnalystRecordEdit_def bindS_def readS_def returnS_def card analystRecordEditEffect_def
          notifyOnce_run recipients path(1) simp del: fresh_recipients.simps forS.simps flipRestingCardsAlongPath.simps)
  qed
  with path re show ?thesis by (intro exI [of _ "edited # qs"]) auto
qed

end
