(* ===== verification/RuntimeProperties.thy ===== *)
theory RuntimeProperties
  imports CardProperties RunningChain ChangedPropagation
begin

text \<open>
  What the runtime relies on when it recovers and when cards are edited: the running chain and the
  propagation of changes, on every intact project.
\<close>

section \<open>A project with a failed card\<close>

definition sample_outcome :: activation_outcome where
  "sample_outcome = \<lparr>o_status = TFailed, o_result = RuntimeFailure ''broken'', o_summary = ''broken''\<rparr>"

definition run_tree :: project_store where
  "run_tree = snd (setStatus sample_zod ''card-a'' ToRunning (sample_stamps (CHR ''7'')) sample_tree)"

definition failed_tree :: project_store where
  "failed_tree = snd (commitActivationOutcome sample_zod ''card-a'' sample_outcome ''t2'' (sample_stamps (CHR ''8'')) run_tree)"

definition failed_card :: card_record where
  "failed_card = settled_card (tree_child\<lparr>c_lifecycle := LRunning, c_updated_at := ''t1'', c_version_seq := 2\<rparr>) sample_outcome ''t2''"

lemma run_snd: "\<not> isl (fst p) \<Longrightarrow> \<exists>r. p = (Inr r, snd p)"
  by (cases p; cases "fst p") auto

lemma tree_active: "active_cards sample_zod sample_tree = [''project'' \<mapsto> tree_root, ''card-a'' \<mapsto> tree_child]"
proof
  fix i
  have act: "active_cards sample_zod sample_tree i = Some c \<longleftrightarrow> i = ''project'' \<and> c = tree_root \<or> i = ''card-a'' \<and> c = tree_child" for c
    by (auto simp: active_cards_iff tree_linked tree_cards)
  show "active_cards sample_zod sample_tree i = [''project'' \<mapsto> tree_root, ''card-a'' \<mapsto> tree_child] i"
    using act [of tree_root] act [of tree_child] act by (cases "active_cards sample_zod sample_tree i") auto
qed

lemma run_tree: "project_ok sample_zod run_tree"
  "active_cards sample_zod run_tree = [''project'' \<mapsto> tree_root,
     ''card-a'' \<mapsto> tree_child\<lparr>c_lifecycle := LRunning, c_updated_at := ''t1'', c_version_seq := 2\<rparr>]"
proof -
  have "\<not> isl (fst (setStatus sample_zod ''card-a'' ToRunning (sample_stamps (CHR ''7'')) sample_tree))" by code_simp
  then obtain r where r: "setStatus sample_zod ''card-a'' ToRunning (sample_stamps (CHR ''7'')) sample_tree = (Inr r, run_tree)"
    unfolding run_tree_def using run_snd by blast
  show "project_ok sample_zod run_tree" using keepsD [OF setStatus_kept r] tree_ok(1) by (simp add: kept_def)
  have "tree_child\<lparr>c_lifecycle := LRunning, c_updated_at := ''t1'', c_version_seq := 2\<rparr> =
      tree_child\<lparr>c_lifecycle := buildSetStatusLifecycle ToRunning, c_pending_notifications := c_pending_notifications tree_child,
        c_updated_at := k_now (sample_stamps (CHR ''7'')), c_version_seq := c_version_seq tree_child + 1\<rparr>"
    by (simp add: tree_child_def sample_card_def sample_stamps_def)
  then show "active_cards sample_zod run_tree = [''project'' \<mapsto> tree_root,
     ''card-a'' \<mapsto> tree_child\<lparr>c_lifecycle := LRunning, c_updated_at := ''t1'', c_version_seq := 2\<rparr>]"
    using setStatus_active [OF r tree_ok(1)] by (auto simp: tree_active)
qed

lemma failed_tree: "project_ok sample_zod failed_tree"
  "active_cards sample_zod failed_tree = [''project'' \<mapsto> tree_root, ''card-a'' \<mapsto> failed_card]"
proof -
  have "\<not> isl (fst (commitActivationOutcome sample_zod ''card-a'' sample_outcome ''t2'' (sample_stamps (CHR ''8'')) run_tree))"
    by code_simp
  then obtain r where r: "commitActivationOutcome sample_zod ''card-a'' sample_outcome ''t2'' (sample_stamps (CHR ''8'')) run_tree =
      (Inr r, failed_tree)"
    unfolding failed_tree_def using run_snd by blast
  show "project_ok sample_zod failed_tree" using keepsD [OF commitActivationOutcome_kept r] run_tree(1) by (simp add: kept_def)
  show "active_cards sample_zod failed_tree = [''project'' \<mapsto> tree_root, ''card-a'' \<mapsto> failed_card]"
    using commitActivationOutcome_active [OF r run_tree(1)] by (auto simp: run_tree(2) failed_card_def)
qed

lemma failed_statuses: "c_status tree_root = Backlog" "c_status failed_card = Failed"
  "c_type tree_root = ''project''" "c_type failed_card = ''task''" "c_version_seq failed_card = 3" "c_id failed_card = ''card-a''"
  by (simp_all add: failed_card_def settled_card_def tree_root_def tree_child_def sample_card_def sample_outcome_def
      terminal_lifecycle_def)

abbreviation failed_stamps :: "string \<Rightarrow> stamps" where
  "failed_stamps \<equiv> \<lambda>_. sample_stamps (CHR ''9'')"

lemma failed_ready: "resting_ready sample_zod failed_stamps failed_tree"
proof -
  have env: "stamps_ok sample_zod (sample_stamps (CHR ''9''))" "safe_nat (Suc 3)"
    "history failed_tree (''card-a'', k_entry (sample_stamps (CHR ''9''))) = None" by code_simp+
  have "advance_ok sample_zod failed_tree sel (sample_stamps (CHR ''9''))"
    if "linked sample_zod failed_tree i sel" and "c_status (s_card sel) \<in> {Blocked, Done, Failed}" for i sel
  proof -
    have "active_cards sample_zod failed_tree i = Some (s_card sel)" using that(1) by (auto simp: active_cards_iff)
    then have "s_card sel = failed_card" using that(2) by (auto simp: failed_tree(2) failed_statuses split: if_splits)
    then show ?thesis using env by (simp add: advance_ok_def failed_statuses)
  qed
  then show ?thesis unfolding resting_ready_def by blast
qed

lemma failed_linked: "\<exists>sel. linked sample_zod failed_tree ''card-a'' sel \<and> s_card sel = failed_card"
  using failed_tree(2) by (simp flip: active_cards_iff)

lemma failed_path:
  assumes "upward path" and "hd path = ''card-a''"
  shows "path = [''card-a'', ''project'']"
proof -
  have up: "cardParentId ''card-a'' = Inr (Some ''project'')" "cardParentId ''project'' = Inr None" by code_simp+
  obtain qs where qs: "path = ''card-a'' # qs" using assms by (cases path) (simp_all add: upward_def)
  then obtain q rs where rs: "qs = q # rs" using assms(1) by (cases qs) (simp_all add: upward_def)
  then have step: "cardParentId ''card-a'' = Inr (Some q)" and more: "successively (\<lambda>a b. cardParentId a = Inr (Some b)) (q # rs)"
    using assms(1) qs by (simp_all add: upward_def)
  from step up(1) have q: "q = ''project''" by simp
  have "rs = []" using more unfolding q by (cases rs) (simp_all add: up(2))
  then show ?thesis by (simp add: qs rs q)
qed

lemma failed_reopened:
  "reopened FLIPPABLE_RESTING [''project'' \<mapsto> tree_root, ''card-a'' \<mapsto> failed_card] [''card-a'', ''project''] = [''card-a'']"
  "reopened ANALYST_RECORD_FLIPPABLE [''project'' \<mapsto> tree_root, ''card-a'' \<mapsto> failed_card] [''card-a'', ''project''] = [''card-a'']"
  by (simp_all add: reopened_def path_before_running_def failed_statuses FLIPPABLE_RESTING_def ANALYST_RECORD_FLIPPABLE_def)

section \<open>Recovery of the running cards\<close>

text \<open>
  (C38) Recovery of the running cards: on an intact project the selection always returns, and
  it returns a list exactly when the running active cards are, in that order, one path of
  parent and child that starts at the project card; otherwise it throws.
\<close>

theorem running_chain_exact:
  assumes "project_ok z st" and "linked z st ''project'' root"
  shows "\<exists>r. selectLinkedRunningChain (readCard z st) (listChildren z st) = Some r \<and>
    (\<forall>cs. r = Inr cs \<longleftrightarrow> running_chain z st cs)"
  using assms by (rule selectLinkedRunningChain_run)

theorem running_chain_exact_witness:
  "selectLinkedRunningChain (readCard sample_zod sample_tree) (listChildren sample_zod sample_tree) = Some (Inr [])"
proof -
  have "running_chain sample_zod sample_tree []"
    by (auto simp: running_chain_def tree_linked tree_cards tree_root_def tree_child_def sample_card_def is_running_def)
  moreover have "linked sample_zod sample_tree ''project'' root_selection" by (simp add: tree_linked)
  ultimately show ?thesis using running_chain_exact [OF tree_ok(1), of root_selection] by auto
qed

section \<open>Propagation of edits\<close>

text \<open>
  (C39) The effect of an edit: on an intact project, when the clock and the identifiers drawn for
  the resting cards are good, the propagation from an active card reopens as changed exactly the
  done, failed and blocked cards on the path from the card to the project card that come before the
  first running one, reports them with their previous status, leaves every other active card and
  the invariant of the project as they were, and then notifies the edited card and, when it is
  another one, the first running card; it fails only when a notification does.
\<close>

theorem propagateChange_exact:
  assumes "project_ok z st" and "resting_ready z ks st" and "linked z st edited sel"
  shows "\<exists>path flipped st1. upward path \<and> hd path = edited \<and> reopens z ks FLIPPABLE_RESTING path st flipped st1 \<and>
    propagateChange z sanitize ks mint edited summary notifyCard st =
      bindS (forS (\<lambda>i. notifyCard i (changeNotification mint (sanitize summary) i))
        (edited # (case find (\<lambda>i. map_option c_status (active_cards z st i) = Some Running) path of
           Some r \<Rightarrow> if r = edited then [] else [r] | None \<Rightarrow> []))) (\<lambda>_. returnS flipped) st1"
  using assms by (rule propagateChange_run)

theorem propagateChange_exact_witness:
  "\<exists>st1. propagateChange sample_zod (\<lambda>s. s) failed_stamps (\<lambda>_. (''n'', ''t2'')) ''card-a'' ''edit''
      (\<lambda>i n. returnS ()) failed_tree = (Inr [(''card-a'', Failed)], st1) \<and>
    map_option c_status (active_cards sample_zod st1 ''card-a'') = Some Changed"
proof -
  obtain sel where l: "linked sample_zod failed_tree ''card-a'' sel" using failed_linked by blast
  obtain path flipped st1 where path: "upward path" "hd path = ''card-a''"
      and re: "reopens sample_zod failed_stamps FLIPPABLE_RESTING path failed_tree flipped st1"
      and run: "propagateChange sample_zod (\<lambda>s. s) failed_stamps (\<lambda>_. (''n'', ''t2'')) ''card-a'' ''edit''
        (\<lambda>i n. returnS ()) failed_tree = bindS (forS (\<lambda>i. returnS ()) (''card-a'' #
          (case find (\<lambda>i. map_option c_status (active_cards sample_zod failed_tree i) = Some Running) path of
           Some r \<Rightarrow> if r = ''card-a'' then [] else [r] | None \<Rightarrow> []))) (\<lambda>_. returnS flipped) st1"
    using propagateChange_exact [OF failed_tree(1) failed_ready l, of "\<lambda>s. s" "\<lambda>_. (''n'', ''t2'')" "''edit''" "\<lambda>i n. returnS ()"]
    by blast
  note path = failed_path [OF path]
  from re have "flipped = [(''card-a'', Failed)]" "map_option c_status (active_cards sample_zod st1 ''card-a'') = Some Changed"
    by (simp_all add: reopens_def path failed_tree(2) failed_reopened failed_statuses reopen_map_def)
  with run show ?thesis by (simp add: path failed_tree(2) failed_statuses bindS_def returnS_def)
qed

text \<open>
  (C40) The effect of an edit of the records of a card: when every active card has a workflow, the
  propagation reopens the resting cards before the first running one in the same way, and notifies,
  once each and from the card upwards to the first running one, the edited card unless it is in the
  backlog and every other card whose workflow permits children; a cancelled card is refused before
  anything is written.
\<close>

theorem analyst_edit_exact:
  assumes "project_ok z st" and "resting_ready z ks st" and "linked z st edited sel"
    and "\<And>i c. active_cards z st i = Some c \<Longrightarrow> workflows (c_type c) \<noteq> None"
  shows "if c_status (s_card sel) = Cancelled
    then \<exists>e. propagateAnalystRecordEdit z workflows sanitize ks mint edited summary notifyCard st = (Inl e, st)
    else \<exists>path flipped st1. upward path \<and> hd path = edited \<and>
      reopens z ks ANALYST_RECORD_FLIPPABLE path st flipped st1 \<and>
      propagateAnalystRecordEdit z workflows sanitize ks mint edited summary notifyCard st =
        bindS (forS (\<lambda>i. notifyCard i (changeNotification mint (sanitize summary) i))
          (edit_recipients workflows (active_cards z st) path)) (\<lambda>_. returnS flipped) st1"
proof (cases "c_status (s_card sel) = Cancelled")
  case True
  then show ?thesis
    by (simp add: propagateAnalystRecordEdit_def bindS_def require_card_run [OF assms(3)] analystRecordEditEffect_def
        liftS_def)
next
  case False
  from analyst_edit_run [OF assms(1-3) _ this, of workflows] assms(4) False show ?thesis by simp
qed

theorem analyst_edit_exact_witness:
  "\<exists>st1. propagateAnalystRecordEdit sample_zod sample_workflows (\<lambda>s. s) failed_stamps (\<lambda>_. (''n'', ''t2''))
      ''card-a'' ''edit'' (\<lambda>i n. returnS ()) failed_tree = (Inr [(''card-a'', Failed)], st1) \<and>
    map_option c_status (active_cards sample_zod st1 ''card-a'') = Some Changed"
proof -
  obtain sel where l: "linked sample_zod failed_tree ''card-a'' sel" "s_card sel = failed_card" using failed_linked by blast
  have flows: "sample_workflows (c_type c) \<noteq> None" if "active_cards sample_zod failed_tree i = Some c" for i c
    using that by (auto simp: failed_tree(2) failed_statuses sample_workflows_def split: if_splits)
  have live: "c_status (s_card sel) \<noteq> Cancelled" by (simp add: l(2) failed_statuses)
  obtain path flipped st1 where path: "upward path" "hd path = ''card-a''"
      and re: "reopens sample_zod failed_stamps ANALYST_RECORD_FLIPPABLE path failed_tree flipped st1"
      and run: "propagateAnalystRecordEdit sample_zod sample_workflows (\<lambda>s. s) failed_stamps (\<lambda>_. (''n'', ''t2''))
        ''card-a'' ''edit'' (\<lambda>i n. returnS ()) failed_tree = bindS (forS (\<lambda>i. returnS ())
          (edit_recipients sample_workflows (active_cards sample_zod failed_tree) path)) (\<lambda>_. returnS flipped) st1"
    using analyst_edit_exact [OF failed_tree(1) failed_ready l(1), of sample_workflows "\<lambda>s. s" "\<lambda>_. (''n'', ''t2'')"
        "''edit''" "\<lambda>i n. returnS ()"] flows live
    by auto
  note path = failed_path [OF path]
  have recipients: "edit_recipients sample_workflows (active_cards sample_zod failed_tree) path = [''card-a'', ''project'']"
    by (simp add: path edit_recipients_def upto_running_def path_before_running_def failed_tree(2) failed_statuses
        child_capable_def sample_workflows_def sample_workflow_def)
  from re have "flipped = [(''card-a'', Failed)]" "map_option c_status (active_cards sample_zod st1 ''card-a'') = Some Changed"
    by (simp_all add: reopens_def path failed_tree(2) failed_reopened failed_statuses reopen_map_def)
  with run show ?thesis by (simp add: recipients bindS_def returnS_def)
qed

end
