(* ===== verification/PromptTemplate.thy ===== *)
theory PromptTemplate
  imports OperationContract
begin

text \<open>
  Prompt templates (\<open>src/utils/prompt-api.ts\<close>): literal text with placeholders
  \<open>{{key}}\<close> and one level of fragment includes \<open>{{> id}}\<close>, compiled for a host that says which
  placeholders exist, and rendered with the values of the placeholders.

  The cursor of the parser is the rest of the template; the parser looks at ASCII characters
  only. \<open>resolveFragment\<close> is the callback of the caller, which reads files and may throw.
\<close>

section \<open>Hosts and tokens\<close>

datatype prompt_host =
    GlobalAgent
  | WorkflowAgent string
  | ProcessHost string
  | RecordInitializer string
  | RecordContext string

datatype compiled_token = LiteralText string | Placeholder string

datatype parsed_token = Effective compiled_token | FragmentInclude string

fun PLACEHOLDERS :: "prompt_host \<Rightarrow> string list" where
  "PLACEHOLDERS GlobalAgent = [''vocabularySnippet'']"
| "PLACEHOLDERS (WorkflowAgent _) = [''contractDescription'']"
| "PLACEHOLDERS (ProcessHost _) = [''cardType'']"
| "PLACEHOLDERS (RecordInitializer _) = [''cardType'', ''cardId'', ''cardTitle'', ''nodeId'', ''recordName'']"
| "PLACEHOLDERS (RecordContext _) = [''cardType'', ''recordSelection'', ''recordContent'']"

definition FRAGMENT_IDENTIFIER :: "string \<Rightarrow> bool" where
  "FRAGMENT_IDENTIFIER = lower_word (\<lambda>c. c = CHR ''-'') 63"

fun hostContext :: "prompt_host \<Rightarrow> string" where
  "hostContext GlobalAgent = ''global-agent''"
| "hostContext (WorkflowAgent t) = ''workflow-agent:'' @ t"
| "hostContext (ProcessHost t) = ''process:'' @ t"
| "hostContext (RecordInitializer t) = ''record-initializer:'' @ t"
| "hostContext (RecordContext t) = ''record-context:'' @ t"

definition PromptTemplateRenderError :: "prompt_host \<Rightarrow> string \<Rightarrow> string \<Rightarrow> string \<Rightarrow> error" where
  "PromptTemplateRenderError host name token reason =
     PlainError ''Prompt template error'' [hostContext host, name, reason, token]"

section \<open>Parsing\<close>

definition is_upper :: "char \<Rightarrow> bool" where
  "is_upper c \<longleftrightarrow> 65 \<le> code c \<and> code c \<le> 90"

definition identifierStart :: "char \<Rightarrow> bool" where
  "identifierStart c \<longleftrightarrow> is_lower c \<or> is_upper c \<or> c = CHR ''_''"

definition identifierPart :: "char \<Rightarrow> bool" where
  "identifierPart c \<longleftrightarrow> identifierStart c \<or> is_digit c"

definition is_gap :: "char \<Rightarrow> bool" where
  "is_gap c \<longleftrightarrow> c = CHR '' '' \<or> c = CHR 0x09"

definition tag_end :: "char \<Rightarrow> bool" where
  "tag_end c \<longleftrightarrow> is_gap c \<or> c = CHR ''}''"

definition malformedToken :: "string \<Rightarrow> string" where
  "malformedToken rest = take 32 rest"

text \<open>After the name of a tag: blanks and the closing braces.\<close>

definition close_tag :: "(string \<Rightarrow> error) \<Rightarrow> parsed_token \<Rightarrow> string \<Rightarrow> error + parsed_token \<times> string" where
  "close_tag fl token rest =
     (let d = dropWhile is_gap rest in
      if take 2 d = ''}}'' then Inr (token, drop 2 d)
      else Inl (fl (if take 2 d = ''{{'' then ''nested placeholder open before close'' else ''unclosed placeholder'')))"

text \<open>A tag after its opening braces; the reason of a failure goes to \<open>fl\<close>.\<close>

definition scan_tag :: "(string \<Rightarrow> error) \<Rightarrow> string \<Rightarrow> error + parsed_token \<times> string" where
  "scan_tag fl rest =
     (let a = dropWhile is_gap rest in
      if a \<noteq> [] \<and> hd a = CHR ''>'' then
        let b = dropWhile is_gap (tl a); i = takeWhile (\<lambda>c. \<not> tag_end c) b in
        bindE (guardE (FRAGMENT_IDENTIFIER i) (fl ''invalid fragment identifier'')) (\<lambda>_.
        close_tag fl (FragmentInclude i) (dropWhile (\<lambda>c. \<not> tag_end c) b))
      else
        bindE (guardE (a \<noteq> [] \<and> identifierStart (hd a)) (fl ''invalid placeholder identifier'')) (\<lambda>_.
        let c = dropWhile identifierPart (tl a) in
        bindE (guardE (c = [] \<or> tag_end (hd c)) (fl ''invalid placeholder identifier'')) (\<lambda>_.
        close_tag fl (Effective (Placeholder (hd a # takeWhile identifierPart (tl a)))) c)))"

definition flush :: "string \<Rightarrow> parsed_token list" where
  "flush literal = (if literal = [] then [] else [Effective (LiteralText literal)])"

lemma close_tag_shorter: "close_tag fl t r = Inr (tok, r') \<Longrightarrow> length r' \<le> length r"
  using length_dropWhile_le [of is_gap r] by (auto simp: close_tag_def Let_def split: if_splits)

lemma le_dropWhile: "n \<le> length (dropWhile P xs) \<Longrightarrow> n \<le> length xs" "n \<le> length (tl xs) \<Longrightarrow> n \<le> length xs"
  using length_dropWhile_le [of P xs] by auto

lemma scan_tag_shorter: "scan_tag fl r = Inr (tok, r') \<Longrightarrow> length r' \<le> length r"
  unfolding scan_tag_def Let_def
  by (auto simp: errE split: if_splits dest!: close_tag_shorter le_dropWhile simp del: length_tl)

function parse_from :: "prompt_host \<Rightarrow> string \<Rightarrow> string \<Rightarrow> string \<Rightarrow> error + parsed_token list" where
  "parse_from host name literal [] = Inr (flush literal)"
| "parse_from host name literal (c # rest) =
     (if c = CHR ''{'' \<and> rest \<noteq> [] \<and> hd rest = CHR ''{'' then
        bindE (scan_tag (PromptTemplateRenderError host name (malformedToken (c # rest))) (tl rest)) (\<lambda>(token, after).
        bindE (parse_from host name [] after) (\<lambda>tokens.
        Inr (flush literal @ token # tokens)))
      else if c = CHR ''}'' \<and> rest \<noteq> [] \<and> hd rest = CHR ''}'' then
        Inl (PromptTemplateRenderError host name ''}}'' ''stray '')
      else parse_from host name (literal @ [c]) rest)"
  by pat_completeness auto
termination
  by (relation "measure (\<lambda>(host, name, literal, rest). length rest)") (auto dest: scan_tag_shorter)

definition parse :: "prompt_host \<Rightarrow> string \<Rightarrow> string \<Rightarrow> error + parsed_token list" where
  "parse host name template = parse_from host name [] template"

section \<open>Compilation and rendering\<close>

fun include_fragments :: "prompt_host \<Rightarrow> string \<Rightarrow> string \<Rightarrow> (string \<Rightarrow> error + string \<times> string) \<Rightarrow>
    parsed_token list \<Rightarrow> error + compiled_token list" where
  "include_fragments host name path resolveFragment [] = Inr []"
| "include_fragments host name path resolveFragment (Effective token # tokens) =
     bindE (include_fragments host name path resolveFragment tokens) (\<lambda>effective. Inr (token # effective))"
| "include_fragments host name path resolveFragment (FragmentInclude i # tokens) =
     bindE (resolveFragment i) (\<lambda>(selected, text).
     bindE (parse host name text) (\<lambda>fragmentTokens.
     bindE (mapE (\<lambda>t. case t of Effective token \<Rightarrow> Inr token
         | FragmentInclude _ \<Rightarrow> Inl (PromptTemplateRenderError host name path ''fragment contains a fragment include''))
       fragmentTokens) (\<lambda>included.
     bindE (include_fragments host name path resolveFragment tokens) (\<lambda>effective. Inr (included @ effective)))))"

definition placeholder_count :: "string \<Rightarrow> compiled_token list \<Rightarrow> nat" where
  "placeholder_count key tokens = length (filter (\<lambda>t. t = Placeholder key) tokens)"

definition compilePromptTemplate :: "prompt_host \<Rightarrow> string \<Rightarrow> string \<Rightarrow> string \<Rightarrow>
    (string \<Rightarrow> error + string \<times> string) \<Rightarrow> error + compiled_token list" where
  "compilePromptTemplate host name path text resolveFragment =
     bindE (guardE (\<not> is_blank text) (PromptTemplateRenderError host name path ''empty template'')) (\<lambda>_.
     bindE (parse host name text) (\<lambda>tokens.
     bindE (include_fragments host name path resolveFragment tokens) (\<lambda>effective.
     bindE (mapE (\<lambda>t. case t of LiteralText _ \<Rightarrow> Inr ()
         | Placeholder key \<Rightarrow> guardE (key \<in> set (PLACEHOLDERS host))
             (PromptTemplateRenderError host name key ''unknown or inapplicable placeholder'')) effective) (\<lambda>_.
     bindE (case host of WorkflowAgent _ \<Rightarrow>
           guardE (placeholder_count ''contractDescription'' effective = 1)
             (PromptTemplateRenderError host name path ''contractDescription exactly once'')
       | RecordContext _ \<Rightarrow>
           bindE (guardE (placeholder_count ''recordSelection'' effective = 1)
             (PromptTemplateRenderError host name path ''recordSelection 1..1 times'')) (\<lambda>_.
           guardE (placeholder_count ''recordContent'' effective \<le> 1)
             (PromptTemplateRenderError host name path ''recordContent 0..1 times''))
       | _ \<Rightarrow> Inr ()) (\<lambda>_.
     Inr effective)))))"

text \<open>\<open>variables\<close> are the own properties of the object.\<close>

fun renderCompiledPrompt :: "prompt_host \<Rightarrow> string \<Rightarrow> compiled_token list \<Rightarrow> (string \<times> string) list \<Rightarrow>
    error + string" where
  "renderCompiledPrompt host name [] variables = Inr []"
| "renderCompiledPrompt host name (LiteralText text # tokens) variables =
     bindE (renderCompiledPrompt host name tokens variables) (\<lambda>rest. Inr (text @ rest))"
| "renderCompiledPrompt host name (Placeholder key # tokens) variables =
     bindE (optionE (PromptTemplateRenderError host name key ''missing variable'') (map_of variables key)) (\<lambda>value.
     bindE (renderCompiledPrompt host name tokens variables) (\<lambda>rest. Inr (value @ rest)))"

section \<open>The grammar of templates\<close>

text \<open>
  What a token may look like in a template, and which token lists are normal: literals are
  not empty, never adjacent, contain no doubled brace and do not run into the braces of a tag.
\<close>

definition brace_pair :: "char \<Rightarrow> char \<Rightarrow> bool" where
  "brace_pair c d \<longleftrightarrow> c = d \<and> (c = CHR ''{'' \<or> c = CHR ''}'')"

abbreviation clean :: "string \<Rightarrow> bool" where
  "clean \<equiv> successively (\<lambda>c d. \<not> brace_pair c d)"

definition gaps :: "string \<Rightarrow> bool" where
  "gaps s \<longleftrightarrow> (\<forall>c \<in> set s. is_gap c)"

fun written :: "parsed_token \<Rightarrow> string \<Rightarrow> bool" where
  "written (Effective (LiteralText s)) t \<longleftrightarrow> t = s \<and> s \<noteq> [] \<and> clean s"
| "written (Effective (Placeholder k)) t \<longleftrightarrow>
     k \<noteq> [] \<and> identifierStart (hd k) \<and> list_all identifierPart (tl k) \<and>
     (\<exists>a b. gaps a \<and> gaps b \<and> t = ''{{'' @ a @ k @ b @ ''}}'')"
| "written (FragmentInclude i) t \<longleftrightarrow> FRAGMENT_IDENTIFIER i \<and>
     (\<exists>a b c. gaps a \<and> gaps b \<and> gaps c \<and> t = ''{{'' @ a @ ''>'' @ b @ i @ c @ ''}}'')"

fun may_follow :: "parsed_token \<Rightarrow> parsed_token \<Rightarrow> bool" where
  "may_follow (Effective (LiteralText s)) (Effective (LiteralText _)) = False"
| "may_follow (Effective (LiteralText s)) _ = (last s \<noteq> CHR ''{'')"
| "may_follow _ _ = True"

fun template_of :: "parsed_token list \<Rightarrow> string \<Rightarrow> bool" where
  "template_of [] t \<longleftrightarrow> t = []"
| "template_of (tok # tokens) t \<longleftrightarrow> (tokens = [] \<or> may_follow tok (hd tokens)) \<and>
     (\<exists>p r. written tok p \<and> template_of tokens r \<and> t = p @ r)"

section \<open>The parser follows the grammar\<close>

lemma span_exact:
  assumes "\<forall>c \<in> set xs. P c" and "ys = [] \<or> \<not> P (hd ys)"
  shows "takeWhile P (xs @ ys) = xs" and "dropWhile P (xs @ ys) = ys"
  using assms by (cases ys; simp add: takeWhile_append2 dropWhile_append2)+

lemma identifier_chars:
  "identifierPart c \<Longrightarrow> \<not> is_gap c \<and> c \<noteq> CHR ''}'' \<and> c \<noteq> CHR ''>'' \<and> c \<noteq> CHR ''{''"
  "identifierStart c \<Longrightarrow> identifierPart c"
  by (auto simp: identifierPart_def identifierStart_def is_gap_def is_lower_def is_upper_def is_digit_def)

lemma fragment_chars:
  assumes "FRAGMENT_IDENTIFIER i"
  shows "i \<noteq> []" and "\<forall>c \<in> set i. \<not> tag_end c"
  using assms by (auto simp: FRAGMENT_IDENTIFIER_def lower_word_def list_all_iff tag_end_def is_gap_def
      is_lower_def is_digit_def)

lemma gaps_append [simp]: "gaps [] = True" "gaps (c # s) \<longleftrightarrow> is_gap c \<and> gaps s"
  by (auto simp: gaps_def)

lemma gaps_takeWhile: "gaps (takeWhile is_gap r)"
  by (auto simp: gaps_def dest: set_takeWhileD)

fun is_tag :: "parsed_token \<Rightarrow> bool" where
  "is_tag (Effective (LiteralText _)) = False"
| "is_tag _ = True"

lemma close_tag_exact:
  "close_tag fl token r = Inr (tok, r') \<longleftrightarrow> tok = token \<and> (\<exists>b. gaps b \<and> r = b @ ''}}'' @ r')"
proof
  assume close: "close_tag fl token r = Inr (tok, r')"
  let ?d = "dropWhile is_gap r"
  have two: "take 2 ?d = ''}}''" and "tok = token" "r' = drop 2 ?d"
    using close by (auto simp: close_tag_def Let_def split: if_splits)
  have "?d = ''}}'' @ r'" using append_take_drop_id [of 2 ?d] two \<open>r' = drop 2 ?d\<close> by simp
  then have "r = takeWhile is_gap r @ ''}}'' @ r'" using takeWhile_dropWhile_id [of is_gap r] by simp
  with \<open>tok = token\<close> gaps_takeWhile show "tok = token \<and> (\<exists>b. gaps b \<and> r = b @ ''}}'' @ r')" by blast
next
  assume "tok = token \<and> (\<exists>b. gaps b \<and> r = b @ ''}}'' @ r')"
  then obtain b where b: "tok = token" "gaps b" "r = b @ ''}}'' @ r'" by blast
  have "dropWhile is_gap (b @ ''}}'' @ r') = ''}}'' @ r'"
    using b(2) by (intro span_exact(2)) (auto simp: gaps_def is_gap_def)
  then show "close_tag fl token r = Inr (tok, r')" using b by (simp add: close_tag_def Let_def)
qed

lemma writtenI:
  "FRAGMENT_IDENTIFIER i \<Longrightarrow> gaps a \<Longrightarrow> gaps b \<Longrightarrow> gaps c \<Longrightarrow>
     written (FragmentInclude i) (''{{'' @ a @ ''>'' @ b @ i @ c @ ''}}'')"
  "k \<noteq> [] \<Longrightarrow> identifierStart (hd k) \<Longrightarrow> list_all identifierPart (tl k) \<Longrightarrow> gaps a \<Longrightarrow> gaps b \<Longrightarrow>
     written (Effective (Placeholder k)) (''{{'' @ a @ k @ b @ ''}}'')"
  unfolding written.simps by blast+

lemma scan_tag_sound:
  assumes "scan_tag fl r = Inr (tok, r')"
  shows "is_tag tok \<and> (\<exists>p. written tok (''{{'' @ p) \<and> r = p @ r')"
proof -
  let ?a = "dropWhile is_gap r"
  have r: "r = takeWhile is_gap r @ ?a" by simp
  show ?thesis
  proof (cases "?a \<noteq> [] \<and> hd ?a = CHR ''>''")
    case True
    let ?b = "dropWhile is_gap (tl ?a)"
    let ?i = "takeWhile (\<lambda>c. \<not> tag_end c) ?b"
    from assms True obtain c where c: "FRAGMENT_IDENTIFIER ?i" "tok = FragmentInclude ?i" "gaps c"
        "dropWhile (\<lambda>c. \<not> tag_end c) ?b = c @ ''}}'' @ r'"
      by (auto simp: scan_tag_def Let_def errE close_tag_exact)
    have a: "?a = ''>'' @ tl ?a" using True by (cases ?a) auto
    have "?b = ?i @ c @ ''}}'' @ r'" by (metis c(4) takeWhile_dropWhile_id)
    then have "tl ?a = takeWhile is_gap (tl ?a) @ ?i @ c @ ''}}'' @ r'" by (metis takeWhile_dropWhile_id)
    with a r have split: "r = (takeWhile is_gap r @ ''>'' @ takeWhile is_gap (tl ?a) @ ?i @ c @ ''}}'') @ r'" by simp
    have written: "written tok (''{{'' @ takeWhile is_gap r @ ''>'' @ takeWhile is_gap (tl ?a) @ ?i @ c @ ''}}'')"
      unfolding c(2) by (intro writtenI(1) c gaps_takeWhile)
    have "is_tag tok" by (simp add: c(2))
    then show ?thesis using written split by blast
  next
    case False
    let ?k = "hd ?a # takeWhile identifierPart (tl ?a)"
    from assms False obtain b where b: "?a \<noteq> []" "identifierStart (hd ?a)" "tok = Effective (Placeholder ?k)" "gaps b"
        "dropWhile identifierPart (tl ?a) = b @ ''}}'' @ r'"
      by (auto simp: scan_tag_def Let_def errE close_tag_exact)
    have "tl ?a = takeWhile identifierPart (tl ?a) @ b @ ''}}'' @ r'" by (metis b(5) takeWhile_dropWhile_id)
    with b(1) have "?a = ?k @ b @ ''}}'' @ r'" by (cases ?a) auto
    with r have split: "r = (takeWhile is_gap r @ ?k @ b @ ''}}'') @ r'" by simp
    have "list_all identifierPart (tl ?k)" by (auto simp: list_all_iff dest: set_takeWhileD)
    then have written: "written tok (''{{'' @ takeWhile is_gap r @ ?k @ b @ ''}}'')"
      unfolding b(3) by (intro writtenI(2) gaps_takeWhile) (simp_all add: b)
    have "is_tag tok" by (simp add: b(3))
    then show ?thesis using written split by blast
  qed
qed

lemma scan_tag_complete:
  assumes "is_tag tok" and "written tok (''{{'' @ p)"
  shows "scan_tag fl (p @ r') = Inr (tok, r')"
proof (cases tok)
  case (FragmentInclude i)
  with assms obtain a b c where i: "FRAGMENT_IDENTIFIER i" "gaps a" "gaps b" "gaps c"
      "p = a @ ''>'' @ b @ i @ c @ ''}}''" by auto
  obtain d where d: "d = c @ ''}}'' @ r'" and stop: "d \<noteq> []" "tag_end (hd d)"
    using i(4) by (cases c) (auto simp: tag_end_def)
  have "dropWhile is_gap (a @ ''>'' @ b @ i @ d) = ''>'' @ b @ i @ d"
    using i(2) by (intro span_exact(2)) (auto simp: gaps_def is_gap_def)
  moreover have "dropWhile is_gap (b @ i @ d) = i @ d"
    using i(3) fragment_chars [OF i(1)] by (intro span_exact(2)) (auto simp: gaps_def tag_end_def hd_append)
  moreover have "takeWhile (\<lambda>c. \<not> tag_end c) (i @ d) = i" "dropWhile (\<lambda>c. \<not> tag_end c) (i @ d) = d"
    using fragment_chars [OF i(1)] stop by (intro span_exact; auto)+
  ultimately have "scan_tag fl (a @ ''>'' @ b @ i @ d) = close_tag fl tok d"
    using i(1) FragmentInclude by (simp add: scan_tag_def Let_def)
  also have "\<dots> = Inr (tok, r')" using i(4) d by (auto simp: close_tag_exact)
  finally show ?thesis using i(5) d by simp
next
  case (Effective ctok)
  then obtain k where tok: "tok = Effective (Placeholder k)" using assms(1) by (cases ctok) auto
  with assms obtain a b where k: "k \<noteq> []" "identifierStart (hd k)" "\<forall>c \<in> set (tl k). identifierPart c" "gaps a" "gaps b"
      "p = a @ k @ b @ ''}}''" by (auto simp: list_all_iff)
  obtain d where d: "d = b @ ''}}'' @ r'" and stop: "d \<noteq> []" "tag_end (hd d)" "\<not> identifierPart (hd d)"
    using k(5) identifier_chars(1) by (cases b) (auto simp: tag_end_def)
  have "dropWhile is_gap (a @ k @ d) = k @ d"
    using k identifier_chars by (intro span_exact(2)) (auto simp: gaps_def hd_append)
  moreover have "takeWhile identifierPart (tl k @ d) = tl k" "dropWhile identifierPart (tl k @ d) = d"
    using k(3) stop by (intro span_exact; auto)+
  moreover have "hd k \<noteq> CHR ''>''" using k(2) identifier_chars by blast
  ultimately have "scan_tag fl (a @ k @ d) = close_tag fl tok d"
    using k(1,2) stop tok by (simp add: scan_tag_def Let_def)
  also have "\<dots> = Inr (tok, r')" using k(5) d by (auto simp: close_tag_exact)
  finally show ?thesis using k(6) d by simp
qed

lemma written_tag: "is_tag tok \<Longrightarrow> written tok t \<Longrightarrow> \<exists>p. t = ''{{'' @ p"
  by (cases tok rule: is_tag.cases) auto

lemma flush_template:
  assumes "template_of (tok # tokens) r" and "is_tag tok" and "clean (lit @ take 1 r)"
  shows "template_of (flush lit @ tok # tokens) (lit @ r)"
proof (cases "lit = []")
  case False
  obtain p after' where p: "written tok p" "r = p @ after'" using assms(1) by auto
  then obtain q where "r = CHR ''{'' # q" using written_tag [OF assms(2) p(1)] by auto
  with assms(3) False have "clean lit" "last lit \<noteq> CHR ''{''"
    by (auto simp: successively_append_iff brace_pair_def)
  moreover from this(2) assms(2) have "may_follow (Effective (LiteralText lit)) tok"
    by (cases tok rule: is_tag.cases) auto
  ultimately show ?thesis using False assms(1) by (auto simp: flush_def)
qed (use assms in \<open>simp add: flush_def\<close>)

lemma parse_from_sound:
  "parse_from host name lit r = Inr ts \<Longrightarrow> clean (lit @ take 1 r) \<Longrightarrow> template_of ts (lit @ r)"
proof (induction host name lit r arbitrary: ts rule: parse_from.induct)
  case (1 host name lit)
  then show ?case by (auto simp: flush_def)
next
  case (2 host name lit c rest)
  consider (tag) "c = CHR ''{''" "rest \<noteq> []" "hd rest = CHR ''{''"
    | (plain) "\<not> (c = CHR ''{'' \<and> rest \<noteq> [] \<and> hd rest = CHR ''{'')" "\<not> (c = CHR ''}'' \<and> rest \<noteq> [] \<and> hd rest = CHR ''}'')"
    using "2.prems"(1) by (auto split: if_splits)
  then show ?case
  proof cases
    case tag
    then obtain tok after' tokens where t: "scan_tag (PromptTemplateRenderError host name (malformedToken (c # rest))) (tl rest) = Inr (tok, after')"
        "parse_from host name [] after' = Inr tokens" "ts = flush lit @ tok # tokens"
      using "2.prems"(1) by (auto simp: errE)
    obtain p where p: "is_tag tok" "written tok (''{{'' @ p)" "tl rest = p @ after'" using scan_tag_sound [OF t(1)] by blast
    have "template_of tokens after'" using "2.IH"(1) tag t(1,2) by (cases after') auto
    moreover have "c # rest = (''{{'' @ p) @ after'" using tag p(3) by (cases rest) auto
    moreover have "may_follow tok x" for x using p(1) by (cases tok rule: is_tag.cases) auto
    ultimately have "template_of (tok # tokens) (c # rest)" unfolding template_of.simps using p(2) by blast
    then show ?thesis using flush_template p(1) "2.prems"(2) t(3) by blast
  next
    case plain
    then have run: "parse_from host name (lit @ [c]) rest = Inr ts" using "2.prems"(1) by (simp split: if_splits)
    have "clean ((lit @ [c]) @ take 1 rest)"
      using "2.prems"(2) plain by (cases rest) (auto simp: successively_append_iff brace_pair_def)
    from "2.IH"(2) [OF plain run this] show ?thesis by simp
  qed
qed

text \<open>Conversely, the parser reads every way of writing a normal token list back.\<close>

lemma parse_from_literal:
  "clean (s @ take 1 r) \<Longrightarrow> parse_from host name lit (s @ r) = parse_from host name (lit @ s) r"
proof (induction s arbitrary: lit)
  case (Cons c s)
  then have "clean (s @ take 1 r)" by (auto simp: successively_Cons)
  moreover have "\<not> (s @ r \<noteq> [] \<and> brace_pair c (hd (s @ r)))"
    using Cons.prems by (cases s; cases r) (auto simp: successively_Cons)
  ultimately show ?case using Cons.IH [of "lit @ [c]"] by (auto simp: brace_pair_def)
qed simp

lemma parse_from_complete:
  assumes "template_of ts t"
  shows "parse_from host name [] t = Inr ts"
  using assms
proof (induction ts arbitrary: t)
  case (Cons tok tokens)
  from Cons.prems obtain p r where p: "written tok p" "template_of tokens r" "t = p @ r"
    and follow: "tokens = [] \<or> may_follow tok (hd tokens)" by auto
  have ih: "parse_from host name [] r = Inr tokens" using Cons.IH p(2) by blast
  show ?case
  proof (cases "is_tag tok")
    case True
    then obtain q where q: "p = ''{{'' @ q" using written_tag p(1) by blast
    then show ?thesis using scan_tag_complete [OF True] p ih by (simp add: flush_def)
  next
    case False
    then obtain s where tok: "tok = Effective (LiteralText s)" by (cases tok rule: is_tag.cases) auto
    then have s: "p = s" "s \<noteq> []" "clean s" using p(1) by auto
    show ?thesis
    proof (cases tokens)
      case Nil
      then show ?thesis using p s tok parse_from_literal [of s "[]" host name "[]"] by (simp add: flush_def)
    next
      case (Cons tag rest)
      with follow tok have tag: "is_tag tag" "last s \<noteq> CHR ''{''" by (cases tag rule: is_tag.cases; auto)+
      obtain q u where q: "written tag (''{{'' @ q)" "template_of rest u" "r = ''{{'' @ q @ u"
      proof -
        obtain w u where w: "written tag w" "template_of rest u" "r = w @ u" using p(2) Cons by auto
        moreover from written_tag [OF tag(1) w(1)] obtain q where "w = ''{{'' @ q" by blast
        ultimately show ?thesis using that by simp
      qed
      have "clean (s @ take 1 r)" using s tag(2) q(3) by (auto simp: successively_append_iff brace_pair_def)
      then have "parse_from host name [] t = parse_from host name s r"
        using parse_from_literal [of s r host name "[]"] p(3) s(1) by simp
      moreover have "parse_from host name [] u = Inr rest"
        using ih q Cons scan_tag_complete [OF tag(1) q(1)] by (simp add: flush_def errE)
      ultimately show ?thesis using q Cons s(2) tok scan_tag_complete [OF tag(1) q(1)] by (simp add: flush_def)
    qed
  qed
qed (simp add: flush_def)

section \<open>Rendering\<close>

definition fill :: "(string \<times> string) list \<Rightarrow> compiled_token \<Rightarrow> string" where
  "fill variables token = (case token of LiteralText s \<Rightarrow> s | Placeholder k \<Rightarrow> the (map_of variables k))"

lemma render_exact:
  assumes "\<forall>k. Placeholder k \<in> set tokens \<longrightarrow> map_of variables k \<noteq> None"
  shows "renderCompiledPrompt host name tokens variables = Inr (concat (map (fill variables) tokens))"
  using assms
proof (induction tokens)
  case (Cons t tokens)
  then show ?case by (cases t) (auto simp: fill_def)
qed simp

lemma compiled_placeholders:
  assumes "compilePromptTemplate host name path text resolveFragment = Inr tokens" and "Placeholder k \<in> set tokens"
  shows "k \<in> set (PLACEHOLDERS host)"
  using assms by (auto simp: compilePromptTemplate_def errE dest!: mapE_each)

lemma count_split:
  assumes "placeholder_count k tokens = 1"
  shows "\<exists>before after'. tokens = before @ Placeholder k # after' \<and> Placeholder k \<notin> set before \<and> Placeholder k \<notin> set after'"
proof -
  have "filter (\<lambda>t. t = Placeholder k) tokens \<noteq> []" using assms by (auto simp: placeholder_count_def)
  then have "Placeholder k \<in> set tokens" by (auto simp: filter_empty_conv)
  then obtain before after' where t: "tokens = before @ Placeholder k # after'" "Placeholder k \<notin> set before"
    by (meson split_list_first)
  with assms have "filter (\<lambda>t. t = Placeholder k) after' = []" by (simp add: placeholder_count_def)
  with t show ?thesis by (auto simp: filter_empty_conv)
qed

end
