(* ===== verification/ToolAuthority.thy ===== *)
theory ToolAuthority
  imports CardService OperationContract
begin

text \<open>
  The tools of agents and what they may touch: the capability grants of the configuration
  (\<open>src/schemas/agent-capabilities.ts\<close>), the direct objects of each tool
  (\<open>src/tools/tool-resource-metadata.ts\<close>), the catalogue of runtime tools and the compilation of
  a grant (\<open>src/tools/runtime-tool-catalog.ts\<close>), and the check made on every object a tool call
  reaches (\<open>src/tools/direct-object-authority.ts\<close>).

  The regular expression a record pattern compiles to is a function of the pattern: it is
  the matcher \<open>pattern_matches\<close>. Descriptions, input schemas and executors of tools are left
  out of catalogue entries and references.
\<close>

section \<open>Grants\<close>

datatype capability_scope = SelfScope | ChildrenScope | DescendantsScope | AllScope

datatype capability_resource =
    CardResource "capability_scope list"
  | RecordResource "capability_scope list" "string list"
  | WorkspaceResource

datatype resource_kind = CardKind | RecordKind | WorkspaceKind

fun kind_of :: "capability_resource \<Rightarrow> resource_kind" where
  "kind_of (CardResource _) = CardKind"
| "kind_of (RecordResource _ _) = RecordKind"
| "kind_of WorkspaceResource = WorkspaceKind"

definition scopesSchema :: "capability_scope list \<Rightarrow> bool" where
  "scopesSchema scopes \<longleftrightarrow> scopes \<noteq> [] \<and> distinct scopes"

definition recordPatternSchema :: "string \<Rightarrow> bool" where
  "recordPatternSchema p \<longleftrightarrow> p = ''*'' \<or>
     (ends_with ''.md'' p \<and> (let stem = take (length p - 3) p in
        stem \<noteq> [] \<and> length stem \<le> 64 \<and> (is_lower (hd stem) \<or> hd stem = CHR ''*'') \<and>
        list_all (\<lambda>c. is_lower c \<or> is_digit c \<or> c = CHR ''*'' \<or> c = CHR ''-'') stem))"

fun capabilityResourceSchema :: "capability_resource \<Rightarrow> bool" where
  "capabilityResourceSchema (CardResource scopes) = scopesSchema scopes"
| "capabilityResourceSchema (RecordResource scopes patterns) =
     (scopesSchema scopes \<and> patterns \<noteq> [] \<and> list_all recordPatternSchema patterns \<and> distinct patterns)"
| "capabilityResourceSchema WorkspaceResource = True"

section \<open>Direct objects of the tools\<close>

datatype target_need = TargetRequired | TargetOptional | TargetNone

datatype direct_target =
  CardSelection | ParentTarget | BoundCard | RecordSelection | WorkspaceTarget | WorkspaceOrRecord | NoDirectTarget

record tool_metadata =
  meta_kinds :: "resource_kind list"
  meta_target :: target_need
  meta_direct :: direct_target

definition cardTools :: "string list" where
  "cardTools = [''list_cards'', ''get_card'', ''get_tree'', ''list_card_versions'', ''get_card_version'',
     ''diff_card_versions'', ''create_card'', ''edit_card'', ''activate_card'', ''reopen_card'', ''cancel_card'',
     ''delete_card'', ''reorder_child'', ''queue_notification'', ''checkpoint_source'']"

definition mixedTools :: "string list" where
  "mixedTools = [''read'', ''glob'', ''grep'', ''write'', ''edit'']"

definition workspaceTools :: "string list" where
  "workspaceTools = [''apply_patch'', ''view_image'']"

definition targetlessTools :: "string list" where
  "targetlessTools = [''start_project'', ''pause_runtime'', ''resume_runtime'', ''stop_project'', ''restart_server'',
     ''read_control_actions'', ''get_status'', ''read_runtime_events'', ''read_runtime_errors'', ''list_processes_tool'',
     ''list_agent_sessions'', ''read_agent_session'', ''show_config'', ''reconfigure'', ''navigate_workspace'',
     ''navigate_back'', ''run_command'', ''wait_process'', ''kill_process'', ''websearch'', ''skill'',
     ''list_observed_collections'', ''query_observed_collections'', ''mcp_server_replace'', ''mcp_server_register'',
     ''mcp_server_unregister'', ''mcp_servers'', ''mcp_server_control'', ''mcp_tools'', ''mcp_catalog_refresh'',
     ''mcp_tool_call'', ''code_quality_javascript_eslint'', ''code_quality_typescript_eslint'',
     ''code_quality_python_ruff'']"

definition toolResourceMetadata :: "string \<Rightarrow> error + tool_metadata" where
  "toolResourceMetadata name =
     (if name \<in> set cardTools then
        Inr \<lparr>meta_kinds = [CardKind], meta_target = TargetRequired,
          meta_direct = (if name = ''create_card'' \<or> name = ''reorder_child'' then ParentTarget
            else if name = ''checkpoint_source'' then BoundCard else CardSelection)\<rparr>
      else if name = ''read_record_version'' then
        Inr \<lparr>meta_kinds = [RecordKind], meta_target = TargetRequired, meta_direct = RecordSelection\<rparr>
      else if name \<in> set mixedTools then
        Inr \<lparr>meta_kinds = [RecordKind, WorkspaceKind], meta_target = TargetRequired, meta_direct = WorkspaceOrRecord\<rparr>
      else if name \<in> set workspaceTools then
        Inr \<lparr>meta_kinds = [WorkspaceKind], meta_target = TargetRequired, meta_direct = WorkspaceTarget\<rparr>
      else if name = ''webfetch'' then
        Inr \<lparr>meta_kinds = [RecordKind, WorkspaceKind], meta_target = TargetOptional, meta_direct = WorkspaceOrRecord\<rparr>
      else if name \<in> set targetlessTools then
        Inr \<lparr>meta_kinds = [], meta_target = TargetNone, meta_direct = NoDirectTarget\<rparr>
      else Inl (PlainError ''Missing direct-object metadata for runtime tool.'' [name]))"

section \<open>The catalogue\<close>

datatype tool_scope = GlobalScope | CardScope

record provider_group =
  group_key :: string
  group_provider :: string
  group_scope :: tool_scope
  group_tools :: "string list"

definition qualityToolNames :: "string list" where
  "qualityToolNames = [''code_quality_javascript_eslint'', ''code_quality_typescript_eslint'', ''code_quality_python_ruff'']"

abbreviation tool_group :: "string \<Rightarrow> string \<Rightarrow> tool_scope \<Rightarrow> string list \<Rightarrow> provider_group" where
  "tool_group key label scope tools \<equiv>
     \<lparr>group_key = key, group_provider = label, group_scope = scope, group_tools = tools\<rparr>"

definition shared_groups :: "string \<Rightarrow> tool_scope \<Rightarrow> provider_group list" where
  "shared_groups prefix scope =
     [tool_group (prefix @ '':card-inspection'') ''card-inspection'' scope [''list_cards'', ''get_card'', ''get_tree''],
      tool_group (prefix @ '':card-version'') ''card-version'' scope
        [''list_card_versions'', ''get_card_version'', ''diff_card_versions'', ''read_record_version'']] @
     (if scope = CardScope
      then [tool_group ''card:workspace'' ''workspace'' scope [''view_image'', ''read'', ''write'', ''edit'', ''glob'', ''grep'']]
      else []) @
     [tool_group (prefix @ '':patch'') ''patch'' scope [''apply_patch''],
      tool_group (prefix @ '':process'') ''process'' scope [''run_command'', ''wait_process'', ''kill_process''],
      tool_group (prefix @ '':web'') ''web'' scope [''websearch'', ''webfetch''],
      tool_group (prefix @ '':retrieval'') ''retrieval'' scope [''list_observed_collections'', ''query_observed_collections''],
      tool_group (prefix @ '':skill'') ''skill'' scope [''skill''],
      tool_group (prefix @ '':mcp'') ''mcp'' scope
        [''mcp_server_replace'', ''mcp_server_register'', ''mcp_server_unregister'', ''mcp_servers'',
         ''mcp_server_control'', ''mcp_tools'', ''mcp_catalog_refresh'', ''mcp_tool_call'']]"

definition runtimeToolGroups :: "provider_group list" where
  "runtimeToolGroups =
     [tool_group ''card:native-source'' ''native-source'' CardScope [''checkpoint_source''],
      tool_group ''card:quality'' ''quality'' CardScope qualityToolNames,
      tool_group ''global:quality'' ''quality'' GlobalScope qualityToolNames,
      tool_group ''global:observation'' ''observation'' GlobalScope
        [''get_status'', ''read_runtime_events'', ''read_runtime_errors'', ''list_processes_tool'', ''list_agent_sessions'',
         ''read_agent_session'', ''queue_notification''],
      tool_group ''global:workspace-observation'' ''workspace'' GlobalScope [''read'', ''view_image'', ''glob'', ''grep''],
      tool_group ''global:analyst-workspace-mutation'' ''workspace-mutation'' GlobalScope [''write'', ''edit''],
      tool_group ''global:analyst'' ''analyst'' GlobalScope
        [''create_card'', ''reorder_child'', ''reopen_card'', ''cancel_card'', ''delete_card'', ''start_project'',
         ''pause_runtime'', ''resume_runtime'', ''stop_project'', ''restart_server'', ''read_control_actions'',
         ''navigate_workspace'', ''navigate_back'', ''show_config'', ''reconfigure''],
      tool_group ''card:planner-control'' ''planner-control'' CardScope
        [''create_card'', ''edit_card'', ''cancel_card'', ''activate_card'', ''reopen_card'', ''reorder_child'']] @
     shared_groups ''global'' GlobalScope @ shared_groups ''card'' CardScope"

type_synonym tool_catalog = "((tool_scope \<times> string) \<times> string) list"

definition add_catalog_entry :: "provider_group \<Rightarrow> string \<Rightarrow> tool_catalog \<Rightarrow> error + tool_catalog" where
  "add_catalog_entry g name catalog =
     bindE (guardE (map_of catalog (group_scope g, name) = None)
       (PlainError ''Duplicate runtime tool catalog entry.'' [name])) (\<lambda>_.
     Inr (catalog @ [((group_scope g, name), group_key g)]))"

definition buildRuntimeToolCatalog :: "provider_group list \<Rightarrow> error + tool_catalog" where
  "buildRuntimeToolCatalog sourceGroups =
     foldE (\<lambda>g. foldE (add_catalog_entry g) (group_tools g)) sourceGroups []"

section \<open>Compiling a grant\<close>

record tool_reference =
  t_scope :: tool_scope
  t_name :: string
  t_group :: string
  t_target :: tool_metadata
  t_resources :: "capability_resource list"

definition compile_resource :: "tool_scope \<Rightarrow> string \<Rightarrow> tool_metadata \<Rightarrow> capability_resource \<Rightarrow>
    error + capability_resource" where
  "compile_resource scope name target resource =
     bindE (guardE (capabilityResourceSchema resource) (ZodError ''capabilityResource'')) (\<lambda>_.
     bindE (guardE (kind_of resource \<in> set (meta_kinds target))
       (PlainError ''Tool does not support resources of this kind.'' [name])) (\<lambda>_.
     case resource of
       WorkspaceResource \<Rightarrow> Inr resource
     | CardResource scopes \<Rightarrow>
         bindE (guardE (\<not> (scope = GlobalScope \<and> list_ex (\<lambda>s. s \<noteq> AllScope) scopes))
           (PlainError ''Global tool has no relative anchor; only all is permitted.'' [name])) (\<lambda>_. Inr resource)
     | RecordResource scopes patterns \<Rightarrow>
         bindE (guardE (\<not> (scope = GlobalScope \<and> list_ex (\<lambda>s. s \<noteq> AllScope) scopes))
           (PlainError ''Global tool has no relative anchor; only all is permitted.'' [name])) (\<lambda>_. Inr resource)))"

definition resolveRuntimeTool :: "tool_scope \<Rightarrow> string \<Rightarrow> capability_resource list option \<Rightarrow>
    error + tool_reference" where
  "resolveRuntimeTool scope name resources =
     bindE (buildRuntimeToolCatalog runtimeToolGroups) (\<lambda>catalog.
     bindE (optionE (PlainError ''unknown tool for session scope'' [name]) (map_of catalog (scope, name))) (\<lambda>entry.
     bindE (toolResourceMetadata name) (\<lambda>target.
     bindE (guardE (\<not> (meta_target target = TargetRequired \<and> (resources = None \<or> resources = Some [])))
       (PlainError ''Tool requires resources.'' [name])) (\<lambda>_.
     bindE (guardE (\<not> (meta_target target = TargetNone \<and> resources \<noteq> None))
       (PlainError ''Tool is targetless and must omit resources.'' [name])) (\<lambda>_.
     bindE (guardE (resources \<noteq> Some []) (PlainError ''Tool resources must be nonempty.'' [name])) (\<lambda>_.
     bindE (mapE (compile_resource scope name target) (case resources of None \<Rightarrow> [] | Some rs \<Rightarrow> rs)) (\<lambda>clauses.
     Inr \<lparr>t_scope = scope, t_name = name, t_group = entry, t_target = target, t_resources = clauses\<rparr>)))))))"

definition record_char :: "char \<Rightarrow> bool" where
  "record_char c \<longleftrightarrow> is_lower c \<or> is_digit c \<or> c = CHR ''-''"

text \<open>The expression of a pattern: \<open>*\<close> stands for \<open>[a-z0-9-]*\<close>, every other character for itself.\<close>

fun glob_matches :: "string \<Rightarrow> string \<Rightarrow> bool" where
  "glob_matches [] name = (name = [])"
| "glob_matches (p # ps) [] = (p = CHR ''*'' \<and> glob_matches ps [])"
| "glob_matches (p # ps) (c # name) =
     (if p = CHR ''*'' then glob_matches ps (c # name) \<or> (record_char c \<and> glob_matches (p # ps) name)
      else c = p \<and> glob_matches ps name)"

definition pattern_matches :: "string \<Rightarrow> string \<Rightarrow> bool" where
  "pattern_matches source name = (if source = ''*'' then recordNameSchema name else glob_matches source name)"

definition toolAllowsSelfRecord :: "tool_reference \<Rightarrow> string \<Rightarrow> bool" where
  "toolAllowsSelfRecord tool name = list_ex (\<lambda>resource. case resource of
       RecordResource scopes patterns \<Rightarrow>
         (SelfScope \<in> set scopes \<or> AllScope \<in> set scopes) \<and> list_ex (\<lambda>p. pattern_matches p name) patterns
     | _ \<Rightarrow> False) (t_resources tool)"

definition effectiveCardNodeToolReferences :: "tool_reference list \<Rightarrow> string list \<Rightarrow> tool_reference list" where
  "effectiveCardNodeToolReferences references childCreationTypes =
     (if childCreationTypes = [] then filter (\<lambda>r. t_name r \<noteq> ''create_card'') references else references)"

definition requiresProcessScope :: "tool_reference list \<Rightarrow> bool" where
  "requiresProcessScope references = list_ex (\<lambda>r. ends_with '':process'' (t_group r)) references"

definition assertNativeGitGlobalEligibility :: "tool_reference list \<Rightarrow> error + unit" where
  "assertNativeGitGlobalEligibility references =
     bindE (mapE (\<lambda>r.
       bindE (buildRuntimeToolCatalog runtimeToolGroups) (\<lambda>catalog.
       bindE (guardE (t_scope r = GlobalScope \<and> map_of catalog (GlobalScope, t_name r) = Some (t_group r))
         (PlainError ''Native Git global tools require exact canonical provider bindings.'' [])) (\<lambda>_.
       guardE (\<not> (t_group r = ''global:quality'' \<or>
           (t_group r = ''global:process'' \<and> t_name r \<notin> {''wait_process'', ''kill_process''}) \<or>
           (t_group r = ''global:mcp'' \<and> t_name r \<notin> {''mcp_servers'', ''mcp_tools''}) \<or>
           t_group r \<notin> {''global:observation'', ''global:workspace-observation'', ''global:analyst-workspace-mutation'',
             ''global:analyst'', ''global:card-inspection'', ''global:card-version'', ''global:patch'', ''global:web'',
             ''global:retrieval'', ''global:skill'', ''global:mcp'', ''global:process''}))
         (PlainError ''Native Git global participant selects unsupported source writer.'' [t_name r])))) references)
       (\<lambda>_. Inr ())"

section \<open>The check on a reached object\<close>

record direct_authority =
  anchorCardId :: "string option"
  authority_tools :: "tool_reference list"

datatype object_target = WorkspaceObject | CardObject string | RecordObject string string

function reaches_anchor :: "string \<Rightarrow> string option \<Rightarrow> error + bool" where
  "reaches_anchor anchor None = Inr False"
| "reaches_anchor anchor (Some parent) =
     (if parent = anchor then Inr True
      else bindE (cardParentId parent) (\<lambda>next. reaches_anchor anchor next))"
  by pat_completeness auto
termination
  by (relation "measure (\<lambda>(anchor, parent). case parent of None \<Rightarrow> 0 | Some p \<Rightarrow> Suc (depth_of p))")
     (auto dest: depth_of_parent split: option.splits)

definition relationshipMatches :: "capability_scope list \<Rightarrow> string option \<Rightarrow> string \<Rightarrow> error + bool" where
  "relationshipMatches scopes anchor reachedId =
     (if AllScope \<in> set scopes then Inr True
      else case anchor of
        None \<Rightarrow> Inr False
      | Some a \<Rightarrow>
          if SelfScope \<in> set scopes \<and> a = reachedId then Inr True
          else bindE (cardParentId reachedId) (\<lambda>parent.
            if ChildrenScope \<in> set scopes \<and> parent = Some a then Inr True
            else if DescendantsScope \<in> set scopes then reaches_anchor a parent
            else Inr False))"

fun someE :: "('a \<Rightarrow> error + bool) \<Rightarrow> 'a list \<Rightarrow> error + bool" where
  "someE f [] = Inr False"
| "someE f (x # xs) = bindE (f x) (\<lambda>b. if b then Inr True else someE f xs)"

fun clause_allows :: "string option \<Rightarrow> object_target \<Rightarrow> capability_resource \<Rightarrow> error + bool" where
  "clause_allows anchor WorkspaceObject clause = Inr (clause = WorkspaceResource)"
| "clause_allows anchor (CardObject i) (CardResource scopes) = relationshipMatches scopes anchor i"
| "clause_allows anchor (RecordObject i name) (RecordResource scopes patterns) =
     bindE (relationshipMatches scopes anchor i) (\<lambda>related.
     Inr (related \<and> list_ex (\<lambda>p. pattern_matches p name) patterns))"
| "clause_allows anchor _ _ = Inr False"

definition allowsReachedObject :: "direct_authority \<Rightarrow> string \<Rightarrow> object_target \<Rightarrow> error + bool" where
  "allowsReachedObject authority tool target =
     (case find (\<lambda>r. t_name r = tool) (authority_tools authority) of
        None \<Rightarrow> Inr False
      | Some r \<Rightarrow> someE (clause_allows (anchorCardId authority) target) (t_resources r))"

definition assertReachedObjectAuthority :: "direct_authority \<Rightarrow> string \<Rightarrow> object_target \<Rightarrow> error + unit" where
  "assertReachedObjectAuthority authority tool target =
     bindE (allowsReachedObject authority tool target) (\<lambda>allowed.
     guardE allowed (PlainError ''ToolArgumentValidationError'' [tool]))"

fun object_card :: "object_target \<Rightarrow> string option" where
  "object_card WorkspaceObject = None"
| "object_card (CardObject i) = Some i"
| "object_card (RecordObject i _) = Some i"

text \<open>\<open>readCommittedCardHead\<close> parses the identity and finds a linked card, deleted ones included.\<close>

definition assertHistoricalObjectAuthority :: "zod \<Rightarrow> 'a card_store_scheme \<Rightarrow> direct_authority \<Rightarrow> string \<Rightarrow>
    object_target \<Rightarrow> error + unit" where
  "assertHistoricalObjectAuthority z st authority tool target =
     (case object_card target of
        None \<Rightarrow> Inl (PlainError ''TypeError'' [])
      | Some i \<Rightarrow>
          bindE (guardE (cardIdSchema i) (ZodError ''cardId'')) (\<lambda>_.
          bindE (readLinkedCard z st i True) (\<lambda>reached.
          bindE (guardE (reached \<noteq> None) (PlainError ''ToolArgumentValidationError'' [i])) (\<lambda>_.
          assertReachedObjectAuthority authority tool target))))"

section \<open>What a grant means\<close>

text \<open>\<open>below a i\<close>: card \<open>i\<close> lies properly below card \<open>a\<close> in the tree of identities.\<close>

definition below :: "string \<Rightarrow> string \<Rightarrow> bool" where
  "below a i \<longleftrightarrow> (\<exists>ss ts. card_path (ss @ ts) \<and> ts \<noteq> [] \<and> a = card_id_of ss \<and> i = card_id_of (ss @ ts))"

definition child_of :: "string \<Rightarrow> string \<Rightarrow> bool" where
  "child_of a i \<longleftrightarrow> (\<exists>ss s. card_path (ss @ [s]) \<and> a = card_id_of ss \<and> i = card_id_of (ss @ [s]))"

definition in_scope :: "capability_scope list \<Rightarrow> string option \<Rightarrow> string \<Rightarrow> bool" where
  "in_scope scopes anchor i \<longleftrightarrow> AllScope \<in> set scopes \<or> (\<exists>a. anchor = Some a \<and>
     (SelfScope \<in> set scopes \<and> a = i \<or> ChildrenScope \<in> set scopes \<and> child_of a i \<or>
      DescendantsScope \<in> set scopes \<and> below a i))"

fun covers :: "string option \<Rightarrow> object_target \<Rightarrow> capability_resource \<Rightarrow> bool" where
  "covers anchor WorkspaceObject clause \<longleftrightarrow> clause = WorkspaceResource"
| "covers anchor (CardObject i) clause \<longleftrightarrow> (\<exists>scopes. clause = CardResource scopes \<and> in_scope scopes anchor i)"
| "covers anchor (RecordObject i name) clause \<longleftrightarrow>
     (\<exists>scopes patterns. clause = RecordResource scopes patterns \<and> in_scope scopes anchor i \<and>
        (\<exists>p \<in> set patterns. pattern_matches p name))"

lemma child_of_below: "child_of a i \<Longrightarrow> below a i"
  unfolding child_of_def below_def by blast

lemma reaches_anchor_exact:
  "card_path ss \<Longrightarrow> reaches_anchor a (Some (card_id_of ss)) =
     Inr (\<exists>us vs. ss = us @ vs \<and> a = card_id_of us)"
proof (induction ss rule: rev_induct)
  case Nil
  then show ?case by auto
next
  case (snoc s ss)
  have path: "card_path ss" using snoc.prems by (simp add: card_path_snoc)
  show ?case
  proof (cases "card_id_of (ss @ [s]) = a")
    case True
    then show ?thesis by auto
  next
    case False
    then have "reaches_anchor a (Some (card_id_of (ss @ [s]))) = reaches_anchor a (Some (card_id_of ss))"
      using snoc.prems by simp
    also have "\<dots> = Inr (\<exists>us vs. ss @ [s] = us @ vs \<and> a = card_id_of us)"
      unfolding snoc.IH [OF path] sum.inject using False
      by (metis append.right_neutral append_Nil2 append_assoc butlast_append butlast_snoc)
    finally show ?thesis .
  qed
qed

lemma relationship_exact:
  assumes "cardIdSchema i"
  shows "relationshipMatches scopes anchor i = Inr (in_scope scopes anchor i)"
proof (cases anchor)
  case None
  then show ?thesis by (simp add: relationshipMatches_def in_scope_def)
next
  case (Some a)
  obtain ss where ss: "card_path ss" "i = card_id_of ss" using assms by (auto simp: cardIdSchema_iff)
  have inj: "card_path us \<Longrightarrow> card_id_of us = i \<longleftrightarrow> us = ss" for us using ss card_id_of_inject by blast
  show ?thesis
  proof (cases ss rule: rev_cases)
    case Nil
    have "\<not> below a i" unfolding below_def using inj Nil by (metis append_is_Nil_conv)
    then have "\<not> child_of a i" "\<not> below a i" using child_of_below by blast+
    then show ?thesis using Some ss Nil by (auto simp: relationshipMatches_def in_scope_def)
  next
    case (snoc us u)
    have us: "card_path us" using ss snoc by (simp add: card_path_snoc)
    have "child_of a i \<longleftrightarrow> a = card_id_of us"
      unfolding child_of_def using inj snoc ss by (metis butlast_snoc)
    moreover have "below a i \<longleftrightarrow> (\<exists>vs ws. us = vs @ ws \<and> a = card_id_of vs)"
    proof
      assume "below a i"
      then obtain vs ts where "card_path (vs @ ts)" "ts \<noteq> []" "a = card_id_of vs" "i = card_id_of (vs @ ts)"
        unfolding below_def by blast
      then have "vs @ ts = us @ [u]" using inj snoc by metis
      then have "us = vs @ butlast ts" using \<open>ts \<noteq> []\<close> by (metis butlast_append butlast_snoc)
      with \<open>a = card_id_of vs\<close> show "\<exists>vs ws. us = vs @ ws \<and> a = card_id_of vs" by blast
    next
      assume "\<exists>vs ws. us = vs @ ws \<and> a = card_id_of vs"
      then obtain vs ws where "us = vs @ ws" "a = card_id_of vs" by blast
      then show "below a i" unfolding below_def using ss snoc by (intro exI [of _ vs] exI [of _ "ws @ [u]"]) simp
    qed
    ultimately show ?thesis
      using Some ss snoc reaches_anchor_exact [OF us] by (auto simp: relationshipMatches_def in_scope_def)
  qed
qed

lemma someE_exact: "\<forall>x \<in> set xs. f x = Inr (P x) \<Longrightarrow> someE f xs = Inr (\<exists>x \<in> set xs. P x)"
  by (induction xs) auto

lemma clause_exact:
  assumes "\<forall>i. object_card target = Some i \<longrightarrow> cardIdSchema i"
  shows "clause_allows anchor target clause = Inr (covers anchor target clause)"
  using assms by (cases target; cases clause) (auto simp: relationship_exact list_ex_iff)

lemma authority_run:
  assumes "\<forall>i. object_card target = Some i \<longrightarrow> cardIdSchema i"
  shows "allowsReachedObject auth tool target =
    Inr (\<exists>r. find (\<lambda>r. t_name r = tool) (authority_tools auth) = Some r \<and>
       (\<exists>clause \<in> set (t_resources r). covers (anchorCardId auth) target clause))"
  using someE_exact [of _ "clause_allows (anchorCardId auth) target" "covers (anchorCardId auth) target"] clause_exact [OF assms]
  by (auto simp: allowsReachedObject_def split: option.splits)

text \<open>A grant compiled for the global scope names no relative position.\<close>

fun resource_scopes :: "capability_resource \<Rightarrow> capability_scope list" where
  "resource_scopes (CardResource scopes) = scopes"
| "resource_scopes (RecordResource scopes _) = scopes"
| "resource_scopes WorkspaceResource = []"

lemma compile_resource_Inr:
  assumes "compile_resource scope name target r = Inr c"
  shows "c = r" and "capabilityResourceSchema r" and "kind_of r \<in> set (meta_kinds target)"
    and "scope = GlobalScope \<Longrightarrow> set (resource_scopes r) \<subseteq> {AllScope}"
  using assms by (auto simp: compile_resource_def errE list_ex_iff split: capability_resource.splits)

lemma resolved_clauses:
  assumes "resolveRuntimeTool scope name resources = Inr r" and "clause \<in> set (t_resources r)"
  shows "capabilityResourceSchema clause" and "scope = GlobalScope \<Longrightarrow> set (resource_scopes clause) \<subseteq> {AllScope}"
    and "\<exists>m. toolResourceMetadata name = Inr m \<and> kind_of clause \<in> set (meta_kinds m)"
proof -
  obtain m where m: "toolResourceMetadata name = Inr m"
    "mapE (compile_resource scope name m) (case resources of None \<Rightarrow> [] | Some rs \<Rightarrow> rs) = Inr (t_resources r)"
    using assms(1) by (cases resources) (auto simp: resolveRuntimeTool_def errE)
  from mapE_set [OF m(2)] assms(2) obtain res where "compile_resource scope name m res = Inr clause" by blast
  from compile_resource_Inr [OF this] m(1)
  show "capabilityResourceSchema clause" "scope = GlobalScope \<Longrightarrow> set (resource_scopes clause) \<subseteq> {AllScope}"
    "\<exists>m. toolResourceMetadata name = Inr m \<and> kind_of clause \<in> set (meta_kinds m)" by auto
qed

lemma in_scope_confined:
  assumes "in_scope scopes (Some a) i" and "AllScope \<notin> set scopes"
  shows "i = a \<or> below a i"
  using assms child_of_below by (auto simp: in_scope_def)

end
