(* ===== verification/AgentContracts.thy ===== *)
theory AgentContracts
  imports ToolAuthority
begin

text \<open>
  Model routes and agent contracts (\<open>src/runtime/card-process/card-process-config.ts\<close>,
  \<open>resolveRoute\<close> to \<open>compileAgents\<close>): from the \<open>models\<close> and \<open>agents\<close> sections of the configuration,
  the ordered model list of every agent and its compiled tools.

  Objects of the configuration are lists of own properties; an indexed read of a name that is
  not own finds a member of \<open>Object.prototype\<close>, a function: it is truthy, has no property of
  its own that the code reads, and is not iterable. The sampling temperature and the bindings
  of quality tools are carried through unchanged and left out.
\<close>

section \<open>Configuration\<close>

record model_route =
  route_candidates :: "string list option"
  route_profile :: "string option"
  route_max_tokens :: "nat option"

record routing_profile =
  profile_preferred :: "string list"
  profile_allowed :: "string list"

record models_section =
  model_routes :: "(string \<times> model_route) list"
  model_profiles :: "(string \<times> routing_profile) list"
  model_equivalents :: "string list list"
  model_failover :: "(string \<times> string list) list"

record prompt_declaration =
  pd_reference :: string
  pd_compactable :: bool
  pd_compaction_key :: "string option"

record agent_source =
  as_prompt :: prompt_declaration
  as_grants :: "(string list \<times> capability_resource list option) list"
  as_quality :: "string list"
  as_model_route :: string
  as_skills :: bool
  as_session :: tool_scope

record agents_config =
  cf_agents :: "(string \<times> agent_source) list"
  cf_analyst :: string
  cf_oversight :: string
  cf_models :: models_section

section \<open>Model routes\<close>

definition find_route :: "models_section \<Rightarrow> string \<Rightarrow> model_route option" where
  "find_route models name = (case get_prop name (model_routes models) of
     Own r \<Rightarrow> Some r
   | Inherited \<Rightarrow> Some \<lparr>route_candidates = None, route_profile = None, route_max_tokens = None\<rparr>
   | Missing \<Rightarrow> None)"

definition resolveRoute :: "models_section \<Rightarrow> string \<Rightarrow> error + string list" where
  "resolveRoute models name =
     bindE (optionE (PlainError ''models.routes entry is missing.'' [name]) (find_route models name)) (\<lambda>route.
     case route_candidates route of
       Some candidates \<Rightarrow>
         bindE (guardE (distinct candidates) (PlainError ''candidates contains a duplicate.'' [name])) (\<lambda>_.
         Inr candidates)
     | None \<Rightarrow>
         (case get_prop (case route_profile route of None \<Rightarrow> ''undefined'' | Some p \<Rightarrow> p) (model_profiles models) of
            Missing \<Rightarrow> Inl (PlainError ''profile references missing profile.'' [name])
          | Inherited \<Rightarrow> Inl (PlainError ''TypeError'' [])
          | Own profile \<Rightarrow>
              let candidates = profile_preferred profile @ profile_allowed profile in
              bindE (guardE (candidates \<noteq> []) (PlainError ''profile resolves to no candidates.'' [name])) (\<lambda>_.
              bindE (guardE (distinct candidates) (PlainError ''profile contains a duplicate candidate.'' [name])) (\<lambda>_.
              Inr candidates))))"

definition append_new :: "string \<Rightarrow> string list \<Rightarrow> string list" where
  "append_new model ordered = (if model \<in> set ordered then ordered else ordered @ [model])"

definition equivalents_of :: "models_section \<Rightarrow> string \<Rightarrow> string list" where
  "equivalents_of models model = (case find (\<lambda>g. model \<in> set g) (model_equivalents models) of
     None \<Rightarrow> [] | Some g \<Rightarrow> filter (\<lambda>m. m \<noteq> model) g)"

definition failover_of :: "models_section \<Rightarrow> string \<Rightarrow> error + string list" where
  "failover_of models model = (case get_prop model (model_failover models) of
     Own targets \<Rightarrow> Inr targets | Inherited \<Rightarrow> Inl (PlainError ''TypeError'' []) | Missing \<Rightarrow> Inr [])"

definition expand_model :: "models_section \<Rightarrow> string \<Rightarrow> string list \<Rightarrow> error + string list" where
  "expand_model models model ordered =
     (let withGroup = List.fold append_new (equivalents_of models model) (append_new model ordered) in
      bindE (failover_of models model) (\<lambda>targets. Inr (List.fold append_new targets withGroup)))"

definition expandModelOrder :: "models_section \<Rightarrow> string \<Rightarrow> error + string list" where
  "expandModelOrder models routeName =
     bindE (resolveRoute models routeName) (\<lambda>candidates. foldE (expand_model models) candidates [])"

section \<open>Agents\<close>

record agent_contract =
  a_name :: string
  a_prompt :: prompt_declaration
  a_tools :: "tool_reference list"
  a_quality :: "string list"
  a_model_route :: string
  a_models :: "string list"
  a_max_tokens :: "nat option"
  a_skills :: bool
  a_session :: tool_scope

definition agentCanWriteRecord :: "agent_contract \<Rightarrow> string \<Rightarrow> bool" where
  "agentCanWriteRecord agent name =
     list_ex (\<lambda>tool. (t_name tool = ''write'' \<or> t_name tool = ''edit'') \<and> toolAllowsSelfRecord tool name) (a_tools agent)"

definition has_tool :: "agent_contract \<Rightarrow> string \<Rightarrow> bool" where
  "has_tool agent name = list_ex (\<lambda>tool. t_name tool = name) (a_tools agent)"

definition writes_self :: "agent_contract \<Rightarrow> string \<Rightarrow> bool" where
  "writes_self agent name = list_ex (\<lambda>tool. t_name tool = ''write'' \<and> toolAllowsSelfRecord tool name) (a_tools agent)"

definition add_tool :: "agents_config \<Rightarrow> string \<Rightarrow> agent_source \<Rightarrow> string \<times> capability_resource list option \<Rightarrow>
    tool_reference list \<Rightarrow> error + tool_reference list" where
  "add_tool cfg name source = (\<lambda>(tool, resources) tools.
     bindE (guardE (\<not> (tool = ''queue_notification'' \<and> (as_session source \<noteq> GlobalScope \<or>
         (name \<noteq> cf_analyst cfg \<and> name \<noteq> cf_oversight cfg))))
       (PlainError ''capabilities may select queue_notification only for the configured Analyst or Oversight.'' [name])) (\<lambda>_.
     bindE (guardE (tool \<notin> t_name ` set tools) (PlainError ''capabilities contains duplicate.'' [name, tool])) (\<lambda>_.
     bindE (resolveRuntimeTool (as_session source) tool resources) (\<lambda>reference.
     Inr (tools @ [reference])))))"

definition compile_agent :: "agents_config \<Rightarrow> string \<times> agent_source \<Rightarrow> error + string \<times> agent_contract" where
  "compile_agent cfg = (\<lambda>(name, source).
     let selectedNames = concat (map fst (as_grants source)) in
     bindE (mapE (\<lambda>tool. guardE ((tool \<in> set selectedNames) = (tool \<in> set (as_quality source)))
       (PlainError ''quality tool requires both its selected grant and binding.'' [name, tool])) qualityToolNames) (\<lambda>_.
     bindE (foldE (add_tool cfg name source)
       (concat (map (\<lambda>(tools, resources). map (\<lambda>tool. (tool, resources)) tools) (as_grants source))) []) (\<lambda>tools.
     bindE (guardE (as_skills source = list_ex (\<lambda>tool. t_name tool = ''skill'') tools)
       (PlainError ''skills must agree with the skill tool.'' [name])) (\<lambda>_.
     bindE (optionE (PlainError ''model_route references missing route.'' [name])
       (find_route (cf_models cfg) (as_model_route source))) (\<lambda>route.
     bindE (expandModelOrder (cf_models cfg) (as_model_route source)) (\<lambda>order.
     Inr (name, \<lparr>a_name = name, a_prompt = as_prompt source, a_tools = tools, a_quality = as_quality source,
       a_model_route = as_model_route source, a_models = order, a_max_tokens = route_max_tokens route,
       a_skills = as_skills source, a_session = as_session source\<rparr>)))))))"

definition compileAgents :: "agents_config \<Rightarrow> error + (string \<times> agent_contract) list" where
  "compileAgents cfg = mapE (compile_agent cfg) (cf_agents cfg)"

section \<open>What compilation establishes\<close>

lemma append_new_set [simp]: "set (append_new m xs) = insert m (set xs)"
  by (auto simp: append_new_def)

lemma append_new_distinct: "distinct xs \<Longrightarrow> distinct (append_new m xs)"
  by (simp add: append_new_def)

lemma fold_append_new [simp]: "set (List.fold append_new ms xs) = set ms \<union> set xs"
  by (induction ms arbitrary: xs) auto

lemma fold_append_new_distinct: "distinct xs \<Longrightarrow> distinct (List.fold append_new ms xs)"
  by (induction ms arbitrary: xs) (auto simp: append_new_distinct)

definition alternatives :: "models_section \<Rightarrow> string \<Rightarrow> string set" where
  "alternatives models m = insert m (set (equivalents_of models m)) \<union>
     (case get_prop m (model_failover models) of Own ts \<Rightarrow> set ts | _ \<Rightarrow> {})"

lemma expand_model_Inr:
  assumes "expand_model models m xs = Inr ys"
  shows "set ys = alternatives models m \<union> set xs" and "distinct xs \<Longrightarrow> distinct ys"
proof -
  obtain targets where t: "failover_of models m = Inr targets"
      "ys = List.fold append_new targets (List.fold append_new (equivalents_of models m) (append_new m xs))"
    using assms by (auto simp: expand_model_def Let_def errE)
  then show "set ys = alternatives models m \<union> set xs"
    by (auto simp: alternatives_def failover_of_def split: property.splits)
  show "distinct xs \<Longrightarrow> distinct ys"
    using t(2) by (simp add: fold_append_new_distinct append_new_distinct)
qed

lemma expand_models_Inr:
  assumes "foldE (expand_model models) ms xs = Inr ys"
  shows "set ys = (\<Union>m \<in> set ms. alternatives models m) \<union> set xs" and "distinct xs \<Longrightarrow> distinct ys"
  using assms
  by (induction ms arbitrary: xs) (auto simp: errE dest: expand_model_Inr(1), blast dest: expand_model_Inr(2))

text \<open>The model list of a route names every candidate, with its equivalents and failovers, once.\<close>

lemma expandModelOrder_exact:
  assumes "expandModelOrder models r = Inr order"
  shows "\<exists>candidates. resolveRoute models r = Inr candidates \<and> distinct order \<and>
    set order = (\<Union>m \<in> set candidates. alternatives models m)"
  using assms expand_models_Inr [of models _ "[]" order] by (auto simp: expandModelOrder_def errE)

end
