(* ===== verification/PromptSelection.thy ===== *)
theory PromptSelection
  imports PromptTemplate AgentContracts
begin

text \<open>
  Selection of prompt files (\<open>src/runtime/card-process/card-process-config.ts\<close>,
  \<open>selectPrompt\<close> to \<open>compilePromptDeclaration\<close>): a prompt is looked up in the overrides of the
  project and then in the bundled files, each time first for the card type and then shared.

  \<open>pr_files\<close> is the content of a path as bytes, \<open>None\<close> for a file that does not exist; a path is
  its root with the segments joined to it. The observer of selected artifacts is left out, and so is the
  cache of compiled agent prompts: the files do not change during a compilation, so a cached
  artifact is the one that would be compiled again.
\<close>

datatype artifact_source = OverrideCard | OverrideShared | BundledCard | BundledShared

record prompt_roots =
  pr_native_git :: bool
  pr_default_root :: string
  pr_override_root :: "string option"
  pr_files :: "string list \<Rightarrow> string option"

datatype prompt_purpose = AgentsPurpose | ProcessPurpose | FragmentsPurpose

fun purpose_name :: "prompt_purpose \<Rightarrow> string" where
  "purpose_name AgentsPurpose = ''agents''"
| "purpose_name ProcessPurpose = ''process''"
| "purpose_name FragmentsPurpose = ''fragments''"

definition strip_bom :: "string \<Rightarrow> string" where
  "strip_bom s = (if take 3 s = [CHR 0xEF, CHR 0xBB, CHR 0xBF] then drop 3 s else s)"

definition readUtf8 :: "prompt_roots \<Rightarrow> string list \<Rightarrow> error + string" where
  "readUtf8 roots path =
     bindE (optionE (ENOENT ''prompt'') (pr_files roots path)) (\<lambda>bytes.
     bindE (guardE (utf8_valid (map code bytes)) (PlainError ''TypeError'' [])) (\<lambda>_.
     let text = strip_bom bytes in
     bindE (guardE (\<not> is_blank text)
       (PlainError ''Prompt artifact must contain non-whitespace UTF-8 text.'' path)) (\<lambda>_. Inr text)))"

definition readOptional :: "prompt_roots \<Rightarrow> string list \<Rightarrow> error + string option" where
  "readOptional roots path =
     (if pr_files roots path = None then Inr None else bindE (readUtf8 roots path) (\<lambda>text. Inr (Some text)))"

fun host_type :: "prompt_host \<Rightarrow> string option" where
  "host_type GlobalAgent = None"
| "host_type (WorkflowAgent t) = Some t"
| "host_type (ProcessHost t) = Some t"
| "host_type (RecordInitializer t) = Some t"
| "host_type (RecordContext t) = Some t"

definition prompt_candidates :: "prompt_purpose \<Rightarrow> prompt_host \<Rightarrow> string \<Rightarrow> prompt_roots \<Rightarrow>
    (artifact_source \<times> string list) list" where
  "prompt_candidates purpose host reference roots =
     (let file = reference @ ''.md''; p = purpose_name purpose in
      (case pr_override_root roots of None \<Rightarrow> []
       | Some root \<Rightarrow>
           (case host_type host of None \<Rightarrow> [] | Some t \<Rightarrow> [(OverrideCard, [root, p, t, file])]) @
           [(OverrideShared, [root, p, ''_shared'', file])]) @
      (case host_type host of None \<Rightarrow> [] | Some t \<Rightarrow> [(BundledCard, [pr_default_root roots, p, t, file])]) @
      [(BundledShared, [pr_default_root roots, p, ''_shared'', file])])"

record selected_prompt =
  sp_source :: artifact_source
  sp_path :: "string list"
  sp_text :: string

fun first_prompt :: "prompt_roots \<Rightarrow> (artifact_source \<times> string list) list \<Rightarrow> error + selected_prompt option" where
  "first_prompt roots [] = Inr None"
| "first_prompt roots ((source, path) # candidates) =
     bindE (readOptional roots path) (\<lambda>text. case text of
       Some t \<Rightarrow> Inr (Some \<lparr>sp_source = source, sp_path = path, sp_text = t\<rparr>)
     | None \<Rightarrow> first_prompt roots candidates)"

definition selectPrompt :: "prompt_purpose \<Rightarrow> prompt_host \<Rightarrow> string \<Rightarrow> prompt_roots \<Rightarrow> error + selected_prompt" where
  "selectPrompt purpose host reference roots =
     (let candidates = prompt_candidates purpose host reference roots in
      bindE (first_prompt roots candidates) (\<lambda>found. case found of
        Some selected \<Rightarrow> Inr selected
      | None \<Rightarrow>
          let (source, path) = last candidates in
          bindE (readUtf8 roots path) (\<lambda>text. Inr \<lparr>sp_source = source, sp_path = path, sp_text = text\<rparr>)))"

definition path_text :: "string list \<Rightarrow> string" where
  "path_text path = concat (map (\<lambda>s. ''/'' @ s) path)"

definition fragment_resolver :: "prompt_host \<Rightarrow> prompt_roots \<Rightarrow> string \<Rightarrow> error + string \<times> string" where
  "fragment_resolver host roots i =
     bindE (selectPrompt FragmentsPurpose host i roots) (\<lambda>fragment.
     Inr (path_text (sp_path fragment), sp_text fragment))"

record agent_prompt =
  ap_source :: artifact_source
  ap_reference :: string
  ap_path :: "string list"
  ap_compiled :: "compiled_token list"

definition compileSelected :: "prompt_host \<Rightarrow> string \<Rightarrow> string \<Rightarrow> prompt_roots \<Rightarrow> error + agent_prompt" where
  "compileSelected host name reference roots =
     bindE (selectPrompt AgentsPurpose host reference roots) (\<lambda>selected.
     let requiredFragment = (if host = GlobalAgent then ''native-global'' else ''native-source'') in
     bindE (compilePromptTemplate host name (path_text (sp_path selected)) (sp_text selected)
       (fragment_resolver host roots)) (\<lambda>compiled.
     bindE (parse host name (sp_text selected)) (\<lambda>tokens.
     bindE (guardE (\<not> (pr_native_git roots \<and> FragmentInclude requiredFragment \<notin> set tokens))
       (PlainError ''Native Git agent must include the capability fragment.'' [name, requiredFragment])) (\<lambda>_.
     Inr \<lparr>ap_source = sp_source selected, ap_reference = reference, ap_path = sp_path selected,
       ap_compiled = compiled\<rparr>))))"

definition selectAgentPrompt :: "prompt_host \<Rightarrow> agent_contract \<Rightarrow> prompt_roots \<Rightarrow> error + agent_prompt" where
  "selectAgentPrompt host agent roots = compileSelected host (a_name agent) (pd_reference (a_prompt agent)) roots"

record process_prompt =
  pp_reference :: string
  pp_source :: artifact_source
  pp_path :: "string list"
  pp_text :: string

definition selectProcessPrompt :: "string \<Rightarrow> string \<Rightarrow> prompt_roots \<Rightarrow> error + process_prompt" where
  "selectProcessPrompt cardType i roots =
     (let host = ProcessHost cardType in
      bindE (selectPrompt ProcessPurpose host i roots) (\<lambda>selected.
      bindE (compilePromptTemplate host i (path_text (sp_path selected)) (sp_text selected)
        (fragment_resolver host roots)) (\<lambda>compiled.
      bindE (renderCompiledPrompt host i compiled [(''cardType'', cardType)]) (\<lambda>text.
      Inr \<lparr>pp_reference = i, pp_source = sp_source selected, pp_path = sp_path selected, pp_text = text\<rparr>))))"

section \<open>Identifiers and declarations\<close>

definition IDENTIFIER :: "string \<Rightarrow> bool" where
  "IDENTIFIER = lower_word (\<lambda>c. c = CHR ''-'') 63"

definition OUTCOME_IDENTIFIER :: "string \<Rightarrow> bool" where
  "OUTCOME_IDENTIFIER = lower_word (\<lambda>c. c = CHR ''_'' \<or> c = CHR ''-'') 63"

definition process_identifier :: "string \<Rightarrow> error + string" where
  "process_identifier s = bindE (guardE (IDENTIFIER s)
     (PlainError ''must be a lowercase identifier of at most 64 characters.'' [s])) (\<lambda>_. Inr s)"

definition outcomeIdentifier :: "string \<Rightarrow> error + string" where
  "outcomeIdentifier s = bindE (guardE (OUTCOME_IDENTIFIER s)
     (PlainError ''must be a lowercase outcome identifier of at most 64 characters.'' [s])) (\<lambda>_. Inr s)"

record compiled_declaration =
  cp_prompt_id :: string
  cp_compactable :: bool
  cp_compaction_key :: "string option"

definition compilePromptDeclaration :: "prompt_declaration \<Rightarrow> error + compiled_declaration" where
  "compilePromptDeclaration d =
     bindE (process_identifier (pd_reference d)) (\<lambda>i.
     Inr \<lparr>cp_prompt_id = i, cp_compactable = pd_compactable d, cp_compaction_key = pd_compaction_key d\<rparr>)"

definition compile_optional_declaration :: "prompt_declaration option \<Rightarrow> error + compiled_declaration option" where
  "compile_optional_declaration d = (case d of None \<Rightarrow> Inr None
     | Some p \<Rightarrow> bindE (compilePromptDeclaration p) (\<lambda>c. Inr (Some c)))"

section \<open>What a selection finds\<close>

text \<open>A process prompt needs only the card type, so it always renders.\<close>

lemma processPrompt_renders:
  assumes "selectPrompt ProcessPurpose (ProcessHost t) i roots = Inr selected"
    and "compilePromptTemplate (ProcessHost t) i (path_text (sp_path selected)) (sp_text selected)
      (fragment_resolver (ProcessHost t) roots) = Inr tokens"
  shows "selectProcessPrompt t i roots = Inr \<lparr>pp_reference = i, pp_source = sp_source selected, pp_path = sp_path selected,
    pp_text = concat (map (fill [(''cardType'', t)]) tokens)\<rparr>"
proof -
  have "\<forall>k. Placeholder k \<in> set tokens \<longrightarrow> map_of [(''cardType'', t)] k \<noteq> None"
    using compiled_placeholders [OF assms(2)] by simp
  from render_exact [OF this] assms show ?thesis by (simp add: selectProcessPrompt_def Let_def)
qed

end
