(* ===== verification/WorkflowDraft.thy ===== *)
theory WorkflowDraft
  imports PromptSelection OperationRouting "HOL-Library.AList"
begin

text \<open>
  Compilation of a card type (\<open>src/runtime/card-process/card-process-config.ts\<close>,
  \<open>compileCardTypeInputs\<close>): the workflow declared in the configuration is checked and turned
  into a draft, whose nodes carry their execution, records and edges.

  A \<open>Map\<close> is an association list built with \<open>AList.update\<close>, which keeps the place of a key that
  is set again, as JavaScript does. \<open>'c\<close> is the type of the configuration of an operation.
\<close>

section \<open>The declared workflow\<close>

datatype card_entry = EntryBacklog | EntryChanged | EntryBlocked | EntryStopped

datatype terminal_port = PortDone | PortBlocked | PortFailed

definition ENTRY_PORTS :: "card_entry list" where
  "ENTRY_PORTS = [EntryBacklog, EntryChanged, EntryBlocked, EntryStopped]"

definition TERMINAL_PORTS :: "terminal_port list" where
  "TERMINAL_PORTS = [PortDone, PortBlocked, PortFailed]"

fun entry_name :: "card_entry \<Rightarrow> string" where
  "entry_name EntryBacklog = ''BACKLOG''"
| "entry_name EntryChanged = ''CHANGED''"
| "entry_name EntryBlocked = ''BLOCKED''"
| "entry_name EntryStopped = ''STOPPED''"

fun terminal_name :: "terminal_port \<Rightarrow> string" where
  "terminal_name PortDone = ''DONE''"
| "terminal_name PortBlocked = ''BLOCKED''"
| "terminal_name PortFailed = ''FAILED''"

definition nodeState :: "string \<Rightarrow> string" where
  "nodeState i = ''node:'' @ i"

definition entryState :: "card_entry \<Rightarrow> string" where
  "entryState e = ''entry:'' @ entry_name e"

definition terminalState :: "terminal_port \<Rightarrow> string" where
  "terminalState t = ''terminal:'' @ terminal_name t"

definition cardProcessEntryForStatus :: "card_status \<Rightarrow> card_entry option" where
  "cardProcessEntryForStatus status = (case status of
     Backlog \<Rightarrow> Some EntryBacklog | Changed \<Rightarrow> Some EntryChanged | Blocked \<Rightarrow> Some EntryBlocked
   | Stopped \<Rightarrow> Some EntryStopped | _ \<Rightarrow> None)"

datatype promotion = PromoteCurrent | PromoteLatest string

datatype edge_target = ToNode string | ToTerminal terminal_port promotion "string list"

record route_source =
  rs_target :: edge_target
  rs_prompt :: "prompt_declaration option"
  rs_pending :: "(string \<times> prompt_declaration) option"
  rs_inputs :: edge_inputs

datatype edge_source = PlainEdge route_source | CasesEdge "(string \<times> route_test \<times> route_source) list" route_source

datatype record_mode = CleanMode | ContinueMode
datatype record_gate = ExistsGate | UpdatedGate
datatype record_view = AcceptedView | EffectiveView
datatype record_presence = RequiredPresence | OptionalPresence

record record_prompt_source =
  rps_record :: string
  rps_selection :: record_view
  rps_presence :: record_presence
  rps_prompt :: prompt_declaration

record agent_selection =
  sel_agent :: string
  sel_prompt :: prompt_declaration
  sel_correction :: prompt_declaration
  sel_data_inputs :: op_fields
  sel_inputs :: input_bindings

datatype 'c execution_source = SelectAgent agent_selection | SelectAction "'c action_source"

record 'c node_source =
  ns_execution :: "'c execution_source"
  ns_output_record :: "string option"
  ns_initialize :: "string list option"
  ns_record_prompts :: "record_prompt_source list option"
  ns_records :: "(string \<times> record_mode \<times> record_gate) list"
  ns_descendant :: "(string list \<times> bool) option"
  ns_edges :: "(string \<times> edge_source) list"

record record_source =
  rc_format :: string
  rc_schema :: string
  rc_bootstrap :: bool
  rc_template :: "string option"

record 'c card_type_source =
  ct_permitted :: "string list"
  ct_records :: "(string \<times> record_source) list"
  ct_recipient :: string
  ct_after_commit :: "(terminal_port list \<times> 'c action_source) option"
  ct_entries :: "card_entry \<Rightarrow> string \<times> prompt_declaration option"
  ct_nodes :: "(string \<times> 'c node_source) list"

section \<open>The draft\<close>

record compiled_record =
  r_name :: string
  r_format :: string
  r_schema :: string
  r_bootstrap :: bool
  r_declared :: bool
  r_initialization :: "(string \<times> compiled_token list) option"

record agent_execution =
  ae_agent :: agent_contract
  ae_selected_prompt :: agent_prompt
  ae_prompt :: compiled_declaration
  ae_correction_prompt :: compiled_declaration
  ae_data_inputs :: op_fields
  ae_inputs :: input_bindings

datatype 'c node_execution = AgentExecution agent_execution | ActionExecution "'c compiled_action"

record terminal_behavior =
  tb_promotion :: promotion
  tb_export_records :: "compiled_record list"

record pending_draft =
  pe_target_state :: string
  pe_target_node :: string
  pe_prompt :: compiled_declaration

record edge_draft =
  ed_outcome :: string
  ed_route_id :: string
  ed_test :: "route_test option"
  ed_inputs :: edge_inputs
  ed_target_state :: string
  ed_target_node :: "string option"
  ed_prompt :: "compiled_declaration option"
  ed_terminal :: "terminal_behavior option"
  ed_pending :: "pending_draft option"

record record_requirement =
  rq_definition :: compiled_record
  rq_mode :: record_mode
  rq_gate :: record_gate

record record_prompt =
  rp_record :: string
  rp_selection :: record_view
  rp_presence :: record_presence
  rp_prompt :: compiled_declaration
  rp_artifact :: "artifact_source \<times> string list \<times> compiled_token list"

record 'c node_draft =
  nd_id :: string
  nd_execution :: "'c node_execution"
  nd_output_record :: "compiled_record option"
  nd_record_prompts :: "record_prompt list"
  nd_requirements :: "record_requirement list"
  nd_initialize :: "compiled_record list"
  nd_descendant :: "(compiled_record list \<times> bool) option"
  nd_edges :: "(string \<times> edge_draft) list"
  nd_creation_types :: "string list"
  nd_activation_types :: "string list"

record 'c card_type_draft =
  dr_after_commit :: "(terminal_port list \<times> 'c compiled_action) option"
  dr_card_type :: string
  dr_recipient :: string
  dr_permitted :: "string list"
  dr_records :: "(string \<times> compiled_record) list"
  dr_bootstrap :: compiled_record
  dr_nodes :: "(string \<times> 'c node_draft) list"
  dr_entries :: "card_entry \<Rightarrow> string \<times> compiled_declaration option"

section \<open>Child types and records\<close>

definition add_child_type :: "string list \<Rightarrow> string \<Rightarrow> string list \<Rightarrow> error + string list" where
  "add_child_type configured child children =
     bindE (guardE (child \<noteq> ''project'') (PlainError ''permitted_child_types cannot contain project.'' [])) (\<lambda>_.
     bindE (guardE (child \<notin> set children) (PlainError ''permitted_child_types contains duplicate.'' [child])) (\<lambda>_.
     bindE (guardE (child \<in> set configured) (PlainError ''permitted_child_types references missing card type.'' [child])) (\<lambda>_.
     Inr (children @ [child]))))"

definition parseRecordName :: "string \<Rightarrow> error + string" where
  "parseRecordName s = bindE (guardE (recordNameSchema s) (ZodError ''recordName'')) (\<lambda>_. Inr s)"

definition genericRecordDefinition :: "string \<Rightarrow> compiled_record" where
  "genericRecordDefinition name = \<lparr>r_name = name, r_format = ''markdown'', r_schema = ''authored-record.v1'',
     r_bootstrap = False, r_declared = False, r_initialization = None\<rparr>"

definition compile_record :: "string \<Rightarrow> prompt_roots \<Rightarrow> string \<times> record_source \<Rightarrow>
    (string \<times> compiled_record) list \<times> compiled_record option \<Rightarrow>
    error + (string \<times> compiled_record) list \<times> compiled_record option" where
  "compile_record cardType roots = (\<lambda>(rawName, source) (records, bootstrap).
     bindE (parseRecordName rawName) (\<lambda>name.
     bindE (case rc_template source of
         None \<Rightarrow> Inr None
       | Some template \<Rightarrow>
           bindE (compilePromptTemplate (RecordInitializer cardType) name ''initialization.template'' template
             (fragment_resolver (RecordInitializer cardType) roots)) (\<lambda>tokens.
           bindE (guardE (\<not> rc_bootstrap source) (PlainError ''bootstrap initialization is forbidden.'' [name])) (\<lambda>_.
           Inr (Some (template, tokens))))) (\<lambda>initialization.
     let definition' = \<lparr>r_name = name, r_format = rc_format source, r_schema = rc_schema source,
           r_bootstrap = rc_bootstrap source, r_declared = True, r_initialization = initialization\<rparr> in
     bindE (guardE (\<not> (rc_bootstrap source \<and> bootstrap \<noteq> None))
       (PlainError ''records must contain exactly one bootstrap record.'' [])) (\<lambda>_.
     Inr (AList.update name definition' records,
          if rc_bootstrap source then Some definition' else bootstrap)))))"

section \<open>Edges of a node\<close>

definition edge_branches :: "string \<Rightarrow> edge_source \<Rightarrow> (route_source \<times> string \<times> route_test option) list" where
  "edge_branches outcome e = (case e of
     PlainEdge route \<Rightarrow> [(route, outcome, None)]
   | CasesEdge cases otherwise \<Rightarrow>
       map (\<lambda>(i, test, route). (route, outcome @ '':case:'' @ i, Some test)) cases @
       [(otherwise, outcome @ '':otherwise'', None)])"

definition export_record :: "record_requirement list \<Rightarrow> string \<Rightarrow> error + compiled_record" where
  "export_record requirements raw =
     bindE (parseRecordName raw) (\<lambda>name.
     bindE (optionE (PlainError ''exports without a source-node requirement.'' [name])
       (find (\<lambda>q. r_name (rq_definition q) = name) requirements)) (\<lambda>q. Inr (rq_definition q)))"

definition compile_branch :: "'c node_execution \<Rightarrow> record_requirement list \<Rightarrow> string \<Rightarrow>
    route_source \<times> string \<times> route_test option \<Rightarrow> (string \<times> edge_draft) list \<Rightarrow>
    error + (string \<times> edge_draft) list" where
  "compile_branch execution requirements outcome = (\<lambda>(edge, routeId, test) edges.
     bindE (case (test, execution) of
         (Some t, ActionExecution action) \<Rightarrow>
           bindE (optionE (PlainError ''TypeError'' []) (map_of (outcomes (act_operation action)) outcome))
             (validateRouteTest t)
       | _ \<Rightarrow> Inr ()) (\<lambda>_.
     case rs_target edge of
       ToNode node \<Rightarrow>
         bindE (guardE (rs_pending edge = None)
           (PlainError ''pending_notifications is allowed only on a nonrecipient DONE edge.'' [outcome])) (\<lambda>_.
         bindE (compile_optional_declaration (rs_prompt edge)) (\<lambda>prompt.
         Inr (AList.update routeId \<lparr>ed_outcome = outcome, ed_route_id = routeId, ed_test = test, ed_inputs = rs_inputs edge,
           ed_target_state = nodeState node, ed_target_node = Some node, ed_prompt = prompt,
           ed_terminal = None, ed_pending = None\<rparr> edges)))
     | ToTerminal terminal promote exports \<Rightarrow>
         bindE (guardE (rs_prompt edge = None)
           (PlainError ''cannot have a terminal transition prompt.'' [outcome])) (\<lambda>_.
         bindE (mapE (export_record requirements) exports) (\<lambda>exportRecords.
         bindE (case rs_pending edge of None \<Rightarrow> Inr None
           | Some (node, declaration) \<Rightarrow> bindE (compilePromptDeclaration declaration) (\<lambda>prompt.
               Inr (Some \<lparr>pe_target_state = nodeState node, pe_target_node = node, pe_prompt = prompt\<rparr>))) (\<lambda>pending.
         Inr (AList.update routeId \<lparr>ed_outcome = outcome, ed_route_id = routeId, ed_test = test, ed_inputs = rs_inputs edge,
           ed_target_state = terminalState terminal, ed_target_node = None, ed_prompt = None,
           ed_terminal = Some \<lparr>tb_promotion = promote, tb_export_records = exportRecords\<rparr>, ed_pending = pending\<rparr> edges))))))"

definition compile_edge :: "'c node_execution \<Rightarrow> record_requirement list \<Rightarrow> string \<times> edge_source \<Rightarrow>
    (string \<times> edge_draft) list \<Rightarrow> error + (string \<times> edge_draft) list" where
  "compile_edge execution requirements = (\<lambda>(rawOutcome, configured) edges.
     bindE (outcomeIdentifier rawOutcome) (\<lambda>outcome.
     bindE (case configured of PlainEdge _ \<Rightarrow> Inr ()
       | CasesEdge cases _ \<Rightarrow>
           bindE (guardE (case execution of ActionExecution _ \<Rightarrow> True | AgentExecution _ \<Rightarrow> False)
             (PlainError ''Cases require action execution.'' [])) (\<lambda>_.
           guardE (distinct (map fst cases)) (PlainError ''Duplicate case IDs.'' [outcome]))) (\<lambda>_.
     foldE (compile_branch execution requirements outcome) (edge_branches outcome configured) edges)))"

section \<open>Records of a node\<close>

definition check_output_record :: "(string \<times> compiled_record) list \<Rightarrow> 'c node_source \<Rightarrow> 'c compiled_action option \<Rightarrow>
    string \<Rightarrow> error + compiled_record option" where
  "check_output_record records node action nodeId = (case ns_output_record node of
     None \<Rightarrow> Inr None
   | Some name \<Rightarrow>
       bindE (guardE (case action of None \<Rightarrow> False | Some a \<Rightarrow> op_output (act_operation a) \<noteq> None)
         (PlainError ''output_record requires an action with declared output.'' [nodeId])) (\<lambda>_.
       bindE (guardE (case map_of records name of None \<Rightarrow> False | Some r \<Rightarrow> \<not> r_bootstrap r)
         (PlainError ''output_record requires a declared nonbootstrap record.'' [nodeId])) (\<lambda>_.
       bindE (guardE (map_of (ns_records node) name = Some (ContinueMode, UpdatedGate))
         (PlainError ''output_record requires continue/updated.'' [nodeId])) (\<lambda>_.
       Inr (map_of records name)))))"

definition check_initializer :: "(string \<times> compiled_record) list \<Rightarrow> agent_contract option \<Rightarrow> string \<Rightarrow>
    error + compiled_record" where
  "check_initializer records agent raw =
     bindE (parseRecordName raw) (\<lambda>name.
     bindE (optionE (PlainError ''initialize_records requires a declared nonbootstrap initializer.'' [name])
       (case map_of records name of None \<Rightarrow> None
        | Some r \<Rightarrow> if r_initialization r = None \<or> r_bootstrap r then None else Some r)) (\<lambda>definition'.
     bindE (guardE (case agent of None \<Rightarrow> False | Some a \<Rightarrow> agentCanWriteRecord a raw \<and> writes_self a raw)
       (PlainError ''initialize_records requires a matching self write capability.'' [name])) (\<lambda>_.
     Inr definition')))"

definition check_requirement :: "(string \<times> compiled_record) list \<Rightarrow> agent_contract option \<Rightarrow> compiled_record option \<Rightarrow>
    string \<times> record_mode \<times> record_gate \<Rightarrow> error + record_requirement" where
  "check_requirement records agent outputRecord = (\<lambda>(raw, mode, gate).
     bindE (parseRecordName raw) (\<lambda>name.
     let definition' = (case map_of records name of Some r \<Rightarrow> r | None \<Rightarrow> genericRecordDefinition name) in
     bindE (guardE (\<not> (agent = None \<and> map_option r_name outputRecord \<noteq> Some name \<and>
         (mode \<noteq> ContinueMode \<or> gate \<noteq> ExistsGate)))
       (PlainError ''Action records require continue/exists accepted records.'' [name])) (\<lambda>_.
     bindE (guardE (case agent of None \<Rightarrow> True | Some a \<Rightarrow> agentCanWriteRecord a name)
       (PlainError ''records require matching self write/edit capability.'' [name])) (\<lambda>_.
     bindE (guardE (\<not> ((mode = CleanMode \<or> gate = UpdatedGate) \<and>
         (case agent of None \<Rightarrow> False | Some a \<Rightarrow> \<not> writes_self a name)))
       (PlainError ''records require the write tool.'' [name])) (\<lambda>_.
     Inr \<lparr>rq_definition = definition', rq_mode = mode, rq_gate = gate\<rparr>)))))"

definition compile_record_prompt :: "string \<Rightarrow> prompt_roots \<Rightarrow> (string \<times> compiled_record) list \<Rightarrow> record_prompt_source \<Rightarrow>
    (string \<times> record_view) list \<times> record_prompt list \<Rightarrow> error + (string \<times> record_view) list \<times> record_prompt list" where
  "compile_record_prompt cardType roots records input = (\<lambda>(seen, prompts).
     bindE (parseRecordName (rps_record input)) (\<lambda>name.
     bindE (guardE (map_of records name \<noteq> None) (PlainError ''record_prompts references unknown record.'' [name])) (\<lambda>_.
     bindE (guardE ((name, rps_selection input) \<notin> set seen) (PlainError ''record_prompts duplicates record/view.'' [name])) (\<lambda>_.
     bindE (compilePromptDeclaration (rps_prompt input)) (\<lambda>declaration.
     let host = RecordContext cardType in
     bindE (selectPrompt ProcessPurpose host (cp_prompt_id declaration) roots) (\<lambda>selected.
     bindE (compilePromptTemplate host (cp_prompt_id declaration) (path_text (sp_path selected)) (sp_text selected)
       (fragment_resolver host roots)) (\<lambda>compiled.
     Inr (seen @ [(name, rps_selection input)], prompts @ [\<lparr>rp_record = name, rp_selection = rps_selection input,
       rp_presence = rps_presence input, rp_prompt = declaration,
       rp_artifact = (sp_source selected, sp_path selected, compiled)\<rparr>]))))))))"

section \<open>Nodes\<close>

definition compile_execution :: "string \<Rightarrow> prompt_roots \<Rightarrow> 'c execution_source \<Rightarrow> agent_contract option \<Rightarrow>
    'c compiled_action option \<Rightarrow> error + 'c node_execution" where
  "compile_execution cardType roots selection agent action = (case (selection, agent, action) of
     (SelectAgent s, Some a, _) \<Rightarrow>
       bindE (selectAgentPrompt (WorkflowAgent cardType) a roots) (\<lambda>selected.
       bindE (compilePromptDeclaration (sel_prompt s)) (\<lambda>prompt.
       bindE (compilePromptDeclaration (sel_correction s)) (\<lambda>correction.
       bindE (compileDataFields (sel_data_inputs s)) (\<lambda>dataInputs.
       bindE (validateInputBindings dataInputs (sel_inputs s) False) (\<lambda>_.
       Inr (AgentExecution \<lparr>ae_agent = a, ae_selected_prompt = selected, ae_prompt = prompt,
         ae_correction_prompt = correction, ae_data_inputs = dataInputs, ae_inputs = sel_inputs s\<rparr>))))))
   | (SelectAction _, _, Some a) \<Rightarrow> Inr (ActionExecution a)
   | _ \<Rightarrow> Inl (PlainError ''TypeError'' []))"

definition check_outcomes :: "'c node_execution \<Rightarrow> (string \<times> edge_source) list \<Rightarrow> string \<Rightarrow> error + unit" where
  "check_outcomes execution edges nodeId = (case execution of
     AgentExecution _ \<Rightarrow> Inr ()
   | ActionExecution a \<Rightarrow>
       guardE (length edges = length (outcomes (act_operation a)) \<and>
         list_all (\<lambda>(outcome, _). hasOwn edges outcome) (outcomes (act_operation a)))
         (PlainError ''Action must configure every exact operation outcome.'' [nodeId]))"

definition creates_cards :: "agent_contract \<Rightarrow> bool" where
  "creates_cards agent = list_ex (\<lambda>tool. t_name tool = ''create_card'' \<and>
     list_ex (\<lambda>r. case r of CardResource scopes \<Rightarrow> SelfScope \<in> set scopes \<or> AllScope \<in> set scopes | _ \<Rightarrow> False)
       (t_resources tool)) (a_tools agent)"

definition compile_node :: "string \<Rightarrow> (string \<times> agent_contract) list \<Rightarrow> prompt_roots \<Rightarrow>
    (string \<times> 'c operation_definition) list \<Rightarrow> string list \<Rightarrow> (string \<times> compiled_record) list \<Rightarrow>
    string \<times> 'c node_source \<Rightarrow> (string \<times> 'c node_draft) list \<Rightarrow> error + (string \<times> 'c node_draft) list" where
  "compile_node cardType agents roots operations permitted records = (\<lambda>(rawNodeId, node) nodes.
     bindE (process_identifier rawNodeId) (\<lambda>nodeId.
     bindE (case ns_execution node of SelectAgent _ \<Rightarrow> Inr None
       | SelectAction source \<Rightarrow> bindE (compileActionExecution source operations NodeBinding) (\<lambda>a. Inr (Some a))) (\<lambda>action.
     bindE (check_output_record records node action nodeId) (\<lambda>outputRecord.
     bindE (case ns_execution node of SelectAction _ \<Rightarrow> Inr None
       | SelectAgent s \<Rightarrow>
           bindE (optionE (PlainError ''agent references missing agent.'' [nodeId, sel_agent s])
             (map_of agents (sel_agent s))) (\<lambda>a.
           bindE (guardE (a_session a = CardScope) (PlainError ''agent must use card session scope.'' [nodeId])) (\<lambda>_.
           Inr (Some a)))) (\<lambda>agent.
     bindE (guardE (\<not> (agent = None \<and> (ns_initialize node \<noteq> None \<or> ns_record_prompts node \<noteq> None \<or>
         ns_descendant node \<noteq> None)))
       (PlainError ''Action cannot initialize records or declare agent record/descendant prompts.'' [nodeId])) (\<lambda>_.
     bindE (mapE (check_initializer records agent) (case ns_initialize node of None \<Rightarrow> [] | Some is \<Rightarrow> is)) (\<lambda>initializeRecords.
     bindE (mapE (check_requirement records agent outputRecord) (ns_records node)) (\<lambda>requirements.
     bindE (compile_execution cardType roots (ns_execution node) agent action) (\<lambda>execution.
     bindE (check_outcomes execution (ns_edges node) nodeId) (\<lambda>_.
     bindE (foldE (compile_edge execution requirements) (ns_edges node) []) (\<lambda>edges.
     bindE (guardE (edges \<noteq> []) (PlainError ''edges must not be empty.'' [nodeId])) (\<lambda>_.
     bindE (case ns_descendant node of None \<Rightarrow> Inr None
       | Some (names, unchanged) \<Rightarrow>
           bindE (mapE (\<lambda>raw. bindE (parseRecordName raw) (\<lambda>name.
             optionE (PlainError ''descendant_context references unknown record.'' [name]) (map_of records name))) names) (\<lambda>rs.
           Inr (Some (rs, unchanged)))) (\<lambda>descendantContext.
     bindE (foldE (compile_record_prompt cardType roots records)
       (case ns_record_prompts node of None \<Rightarrow> [] | Some ps \<Rightarrow> ps) ([], [])) (\<lambda>(_, recordPrompts).
     Inr (AList.update nodeId \<lparr>nd_id = nodeId, nd_execution = execution, nd_output_record = outputRecord,
       nd_record_prompts = recordPrompts, nd_requirements = requirements, nd_initialize = initializeRecords,
       nd_descendant = descendantContext, nd_edges = edges,
       nd_creation_types = (case agent of Some a \<Rightarrow> if creates_cards a then permitted else [] | None \<Rightarrow> []),
       nd_activation_types = (case agent of Some a \<Rightarrow> if has_tool a ''activate_card'' then permitted else [] | None \<Rightarrow> [])\<rparr>
       nodes)))))))))))))))"

section \<open>Card types\<close>

definition compile_entry :: "('c card_type_source) \<Rightarrow> card_entry \<Rightarrow> error + string \<times> compiled_declaration option" where
  "compile_entry source entry =
     (let (node, prompt) = ct_entries source entry in
      bindE (compile_optional_declaration prompt) (\<lambda>p. Inr (node, p)))"

definition compileCardTypeInputs :: "string \<Rightarrow> 'c card_type_source \<Rightarrow> (string \<times> agent_contract) list \<Rightarrow> prompt_roots \<Rightarrow>
    string list \<Rightarrow> (string \<times> 'c operation_definition) list \<Rightarrow> error + 'c card_type_draft" where
  "compileCardTypeInputs cardType source agents roots configuredCardTypes operations =
     bindE (optionE (PlainError ''notification_recipient references missing agent.'' [ct_recipient source])
       (map_of agents (ct_recipient source))) (\<lambda>recipient.
     bindE (guardE (a_session recipient = CardScope)
       (PlainError ''notification_recipient must use card session scope.'' [cardType])) (\<lambda>_.
     bindE (foldE (add_child_type configuredCardTypes) (ct_permitted source) []) (\<lambda>permitted.
     bindE (foldE (compile_record cardType roots) (ct_records source) ([], None)) (\<lambda>(records, bootstrap).
     bindE (optionE (PlainError ''records must contain exactly one bootstrap record.'' [cardType]) bootstrap) (\<lambda>bootstrapRecord.
     bindE (foldE (compile_node cardType agents roots operations permitted records) (ct_nodes source) []) (\<lambda>nodes.
     bindE (guardE (nodes \<noteq> []) (PlainError ''nodes must not be empty.'' [cardType])) (\<lambda>_.
     bindE (mapE (\<lambda>e. bindE (compile_entry source e) (\<lambda>r. Inr (e, r))) ENTRY_PORTS) (\<lambda>entries.
     bindE (case ct_after_commit source of None \<Rightarrow> Inr None
       | Some (statuses, action) \<Rightarrow>
           bindE (compileActionExecution action operations AfterActivationCommit) (\<lambda>a. Inr (Some (statuses, a)))) (\<lambda>afterCommit.
     Inr \<lparr>dr_after_commit = afterCommit, dr_card_type = cardType, dr_recipient = ct_recipient source,
       dr_permitted = permitted, dr_records = records, dr_bootstrap = bootstrapRecord, dr_nodes = nodes,
       dr_entries = (\<lambda>e. the (map_of entries e))\<rparr>)))))))))"

end
