(* ===== verification/GraphSearch.thy ===== *)
theory GraphSearch
  imports OperationContract
begin

text \<open>
  Depth-first search, as the recursive \<open>visit\<close> functions of
  \<open>src/runtime/card-process/card-process-config.ts\<close> write it: a call looks its node up, marks it
  and calls itself for each successor that is not marked. The recursion is written with the list
  of calls still to make; \<open>succ\<close> gives the successors of a node and \<open>err\<close> the error of a missing one.
\<close>

function visit_graph :: "('n \<Rightarrow> string list) \<Rightarrow> (string \<Rightarrow> error) \<Rightarrow> (string \<times> 'n) list \<Rightarrow> string list \<Rightarrow>
    string list \<Rightarrow> error + string list" where
  "visit_graph succ err nodes [] reachable = Inr reachable"
| "visit_graph succ err nodes (i # calls) reachable =
     (if i \<in> set reachable then visit_graph succ err nodes calls reachable
      else case map_of nodes i of
        None \<Rightarrow> Inl (err i)
      | Some n \<Rightarrow> visit_graph succ err nodes (succ n @ calls) (reachable @ [i]))"
  by pat_completeness auto
termination
proof (relation "inv_image (less_than <*lex*> less_than)
    (\<lambda>(succ, err, nodes, calls, reachable). (card (fst ` set nodes - set reachable), length calls))", goal_cases)
  case (3 succ err nodes i calls reachable n)
  then have "i \<in> fst ` set nodes - set reachable" by (force dest: map_of_SomeD)
  then have "card (fst ` set nodes - set (reachable @ [i])) < card (fst ` set nodes - set reachable)"
    by (intro psubset_card_mono) auto
  then show ?case by simp
qed auto

definition graph_arcs :: "('n \<Rightarrow> string list) \<Rightarrow> (string \<times> 'n) list \<Rightarrow> (string \<times> string) set" where
  "graph_arcs succ nodes = {(a, b). \<exists>n. map_of nodes a = Some n \<and> b \<in> set (succ n)}"

definition graph_closed :: "('n \<Rightarrow> string list) \<Rightarrow> (string \<times> 'n) list \<Rightarrow> bool" where
  "graph_closed succ nodes \<longleftrightarrow> (\<forall>(a, b) \<in> graph_arcs succ nodes. map_of nodes b \<noteq> None)"

lemma visit_graph_sound:
  "visit_graph succ err nodes calls reachable = Inr r \<Longrightarrow>
     set reachable \<subseteq> set r \<and> set calls \<subseteq> set r \<and> set r \<subseteq> set reachable \<union> (graph_arcs succ nodes)\<^sup>* `` set calls"
proof (induction succ err nodes calls reachable rule: visit_graph.induct)
  case (2 succ err nodes i calls reachable)
  show ?case
  proof (cases "i \<in> set reachable")
    case True
    with "2.IH"(1) "2.prems" show ?thesis by auto
  next
    case False
    with "2.prems" obtain n where n: "map_of nodes i = Some n"
        "visit_graph succ err nodes (succ n @ calls) (reachable @ [i]) = Inr r" by (auto split: option.splits)
    from "2.IH"(2) [OF False n] have ih: "set (reachable @ [i]) \<subseteq> set r" "set (succ n @ calls) \<subseteq> set r"
        "set r \<subseteq> set (reachable @ [i]) \<union> (graph_arcs succ nodes)\<^sup>* `` set (succ n @ calls)" by auto
    have "(i, s) \<in> graph_arcs succ nodes" if "s \<in> set (succ n)" for s using n(1) that by (auto simp: graph_arcs_def)
    then have "(graph_arcs succ nodes)\<^sup>* `` set (succ n) \<subseteq> (graph_arcs succ nodes)\<^sup>* `` {i}"
      by (auto intro: converse_rtrancl_into_rtrancl)
    then have more: "insert i ((graph_arcs succ nodes)\<^sup>* `` set (succ n @ calls)) \<subseteq> (graph_arcs succ nodes)\<^sup>* `` set (i # calls)"
      by (auto simp: Image_Un)
    have "set r \<subseteq> set reachable \<union> insert i ((graph_arcs succ nodes)\<^sup>* `` set (succ n @ calls))" using ih(3) by simp
    also have "\<dots> \<subseteq> set reachable \<union> (graph_arcs succ nodes)\<^sup>* `` set (i # calls)" by (rule Un_mono [OF subset_refl more])
    finally show ?thesis using ih(1,2) by simp
  qed
qed auto

lemma visit_graph_closed:
  "visit_graph succ err nodes calls reachable = Inr r \<Longrightarrow> graph_arcs succ nodes `` set reachable \<subseteq> set reachable \<union> set calls \<Longrightarrow>
     graph_arcs succ nodes `` set r \<subseteq> set r"
proof (induction succ err nodes calls reachable rule: visit_graph.induct)
  case (2 succ err nodes i calls reachable)
  show ?case
  proof (cases "i \<in> set reachable")
    case True
    with "2.IH"(1) "2.prems" show ?thesis by auto
  next
    case False
    with "2.prems" obtain n where n: "map_of nodes i = Some n"
        "visit_graph succ err nodes (succ n @ calls) (reachable @ [i]) = Inr r" by (auto split: option.splits)
    have "graph_arcs succ nodes `` {i} \<subseteq> set (succ n)" using n(1) by (auto simp: graph_arcs_def)
    with "2.prems"(2) have "graph_arcs succ nodes `` set (reachable @ [i]) \<subseteq> set (reachable @ [i]) \<union> set (succ n @ calls)" by auto
    from "2.IH"(2) [OF False n this] show ?thesis .
  qed
qed auto

lemma visit_graph_exact:
  assumes "visit_graph succ err nodes calls [] = Inr r"
  shows "set r = (graph_arcs succ nodes)\<^sup>* `` set calls"
proof
  show "set r \<subseteq> (graph_arcs succ nodes)\<^sup>* `` set calls" using visit_graph_sound [OF assms] by simp
  have closed: "graph_arcs succ nodes `` set r \<subseteq> set r" using visit_graph_closed [OF assms] by simp
  have "b \<in> set r" if "(a, b) \<in> (graph_arcs succ nodes)\<^sup>*" "a \<in> set r" for a b
    using that by (induction rule: rtrancl_induct) (use closed in auto)
  then show "(graph_arcs succ nodes)\<^sup>* `` set calls \<subseteq> set r" using visit_graph_sound [OF assms] by auto
qed

lemma visit_graph_total:
  "graph_closed succ nodes \<Longrightarrow> \<forall>i \<in> set calls. map_of nodes i \<noteq> None \<Longrightarrow> \<exists>r. visit_graph succ err nodes calls reachable = Inr r"
proof (induction succ err nodes calls reachable rule: visit_graph.induct)
  case (2 succ err nodes i calls reachable)
  show ?case
  proof (cases "i \<in> set reachable")
    case False
    obtain n where n: "map_of nodes i = Some n" using "2.prems"(2) by auto
    have "\<forall>s \<in> set (succ n). map_of nodes s \<noteq> None"
      using "2.prems"(1) n by (auto simp: graph_closed_def graph_arcs_def)
    with "2.IH"(2) [OF False n "2.prems"(1)] "2.prems"(2) False n show ?thesis by auto
  qed (use "2.IH"(1) "2.prems" in auto)
qed auto

lemma visit_graph_found:
  "visit_graph succ err nodes calls reachable = Inr r \<Longrightarrow> i \<in> set r \<Longrightarrow> i \<in> set reachable \<or> map_of nodes i \<noteq> None"
proof (induction succ err nodes calls reachable rule: visit_graph.induct)
  case (2 succ err nodes j calls reachable)
  then show ?case by (cases "j \<in> set reachable"; cases "map_of nodes j") auto
qed auto

lemma graph_arcs_start:
  assumes "map_of nodes a = Some n"
  shows "(graph_arcs succ nodes)\<^sup>* `` set (succ n) = (graph_arcs succ nodes)\<^sup>+ `` {a}"
proof -
  have "set (succ n) = graph_arcs succ nodes `` {a}" using assms by (auto simp: graph_arcs_def)
  then show ?thesis by (simp add: trancl_unfold_left relcomp_Image)
qed

end
