(* ===== verification/WorkflowTopology.thy ===== *)
theory WorkflowTopology
  imports WorkflowDraft GraphSearch
begin

text \<open>
  The topology of a workflow (\<open>src/runtime/card-process/card-process-config.ts\<close>,
  \<open>validateCardTypeTopology\<close>): the draft of a card type is a
  graph of nodes whose edges lead to nodes or terminals, and whose four entries lead to nodes.

  A node that is looked up and missing is the \<open>TypeError\<close> of \<open>get(id)!\<close>.
\<close>

section \<open>The code\<close>

definition checkE :: "('a \<Rightarrow> error + unit) \<Rightarrow> 'a list \<Rightarrow> error + unit" where
  "checkE f xs = bindE (mapE f xs) (\<lambda>_. Inr ())"

lemma checkE_iff [errE]: "checkE f xs = Inr u \<longleftrightarrow> (\<forall>x \<in> set xs. f x = Inr ())"
  by (induction xs) (auto simp: checkE_def errE)

definition runs_recipient :: "'c card_type_draft \<Rightarrow> 'c node_draft \<Rightarrow> bool" where
  "runs_recipient d n = (case nd_execution n of
     AgentExecution e \<Rightarrow> a_name (ae_agent e) = dr_recipient d | ActionExecution _ \<Rightarrow> False)"

definition is_action :: "'c node_draft \<Rightarrow> bool" where
  "is_action n = (case nd_execution n of AgentExecution _ \<Rightarrow> False | ActionExecution _ \<Rightarrow> True)"

definition declared_inputs :: "'c node_draft \<Rightarrow> op_fields" where
  "declared_inputs n = (case nd_execution n of
     AgentExecution e \<Rightarrow> ae_data_inputs e | ActionExecution a \<Rightarrow> op_inputs (act_operation a))"

definition bound_inputs :: "'c node_draft \<Rightarrow> input_bindings" where
  "bound_inputs n = (case nd_execution n of AgentExecution e \<Rightarrow> ae_inputs e | ActionExecution a \<Rightarrow> act_inputs a)"

text \<open>An outcome the operation does not declare has \<open>undefined\<close> outputs, which are read only for an edge that binds inputs.\<close>

definition edge_outputs :: "'c node_draft \<Rightarrow> edge_draft \<Rightarrow> error + op_fields" where
  "edge_outputs n edge = (case nd_execution n of
     AgentExecution _ \<Rightarrow> Inr []
   | ActionExecution a \<Rightarrow>
       (case map_of (outcomes (act_operation a)) (ed_outcome edge) of
          Some outputs \<Rightarrow> Inr outputs
        | None \<Rightarrow> if ed_inputs edge = [] then Inr [] else Inl (PlainError ''TypeError'' [])))"

definition get_node :: "'c card_type_draft \<Rightarrow> string \<Rightarrow> error + 'c node_draft" where
  "get_node d i = optionE (PlainError ''TypeError'' []) (map_of (dr_nodes d) i)"

definition has_node :: "'c card_type_draft \<Rightarrow> string \<Rightarrow> bool" where
  "has_node d i \<longleftrightarrow> map_of (dr_nodes d) i \<noteq> None"

definition check_edge :: "'c card_type_draft \<Rightarrow> string \<Rightarrow> 'c node_draft \<Rightarrow> edge_draft \<Rightarrow> error + unit" where
  "check_edge d nodeId node edge =
     bindE (guardE (case ed_target_node edge of None \<Rightarrow> True | Some t \<Rightarrow> has_node d t)
       (PlainError ''targets missing node.'' [nodeId])) (\<lambda>_.
     bindE (case ed_target_node edge of
         Some t \<Rightarrow>
           bindE (get_node d t) (\<lambda>target.
           bindE (guardE (\<not> (ed_prompt edge \<noteq> None \<and> is_action target))
             (PlainError ''Agent prompt cannot target an action.'' [])) (\<lambda>_.
           bindE (edge_outputs node edge) (\<lambda>outputs.
           validateIncomingInputs (declared_inputs target) (bound_inputs target) (ed_inputs edge) outputs)))
       | None \<Rightarrow> guardE (ed_inputs edge = []) (PlainError ''Terminal routes cannot bind inputs.'' [])) (\<lambda>_.
     bindE (guardE (case ed_pending edge of None \<Rightarrow> True | Some p \<Rightarrow> has_node d (pe_target_node p))
       (PlainError ''pending_notifications targets missing node.'' [nodeId])) (\<lambda>_.
     let doneEdge = (ed_target_state edge = terminalState PortDone);
         sourceIsRecipient = runs_recipient d node in
     bindE (guardE (\<not> (ed_pending edge \<noteq> None \<and> (\<not> doneEdge \<or> sourceIsRecipient)))
       (PlainError ''pending_notifications is allowed only on a nonrecipient DONE edge.'' [nodeId])) (\<lambda>_.
     bindE (guardE (\<not> (doneEdge \<and> \<not> sourceIsRecipient \<and> ed_pending edge = None))
       (PlainError ''requires pending_notifications because its DONE source is not the recipient.'' [nodeId])) (\<lambda>_.
     case ed_pending edge of
       None \<Rightarrow> Inr ()
     | Some p \<Rightarrow>
         bindE (get_node d (pe_target_node p)) (\<lambda>target.
         bindE (guardE (runs_recipient d target)
           (PlainError ''pending_notifications target must run the notification recipient.'' [nodeId])) (\<lambda>_.
         validateIncomingInputs (declared_inputs target) (bound_inputs target) [] [])))))))"

definition check_entry :: "'c card_type_draft \<Rightarrow> card_entry \<Rightarrow> error + unit" where
  "check_entry d entry =
     (let (node, prompt) = dr_entries d entry in
      bindE (get_node d node) (\<lambda>target.
      bindE (guardE (\<not> (prompt \<noteq> None \<and> is_action target)) (PlainError ''Entry prompt cannot target an action.'' [])) (\<lambda>_.
      validateIncomingInputs (declared_inputs target) (bound_inputs target) [] [])))"

definition edge_successors :: "edge_draft \<Rightarrow> string list" where
  "edge_successors e =
     (case ed_target_node e of None \<Rightarrow> [] | Some t \<Rightarrow> [t]) @
     (case ed_pending e of None \<Rightarrow> [] | Some p \<Rightarrow> [pe_target_node p])"

definition successors :: "'c node_draft \<Rightarrow> string list" where
  "successors n = concat (map (\<lambda>(_, e). edge_successors e) (nd_edges n))"

type_synonym 'c draft_nodes = "(string \<times> 'c node_draft) list"

definition visit_nodes :: "'c draft_nodes \<Rightarrow> string list \<Rightarrow> string list \<Rightarrow> error + string list" where
  "visit_nodes = visit_graph successors (\<lambda>_. PlainError ''TypeError'' [])"

definition has_terminal_edge :: "'c node_draft \<Rightarrow> bool" where
  "has_terminal_edge n = list_ex (\<lambda>(_, e). ed_terminal e \<noteq> None) (nd_edges n)"

definition terminal_pass :: "'c draft_nodes \<Rightarrow> string list \<Rightarrow> string list" where
  "terminal_pass nodes reached =
     List.fold (\<lambda>(i, n) r. if i \<notin> set r \<and> list_ex (\<lambda>t. t \<in> set r) (successors n) then r @ [i] else r) nodes reached"

lemma terminal_pass_grows:
  "\<exists>new. List.fold (\<lambda>(i, n) r. if i \<notin> set r \<and> list_ex (\<lambda>t. t \<in> set r) (successors n) then r @ [i] else r) nodes reached =
     reached @ new \<and> set new \<subseteq> fst ` set nodes \<and> set new \<inter> set reached = {}"
proof (induction nodes arbitrary: reached)
  case (Cons p nodes)
  obtain i n where p: "p = (i, n)" by (cases p)
  show ?case
  proof (cases "i \<notin> set reached \<and> list_ex (\<lambda>t. t \<in> set reached) (successors n)")
    case True
    obtain new where "List.fold (\<lambda>(i, n) r. if i \<notin> set r \<and> list_ex (\<lambda>t. t \<in> set r) (successors n) then r @ [i] else r)
        nodes (reached @ [i]) = (reached @ [i]) @ new" "set new \<subseteq> fst ` set nodes" "set new \<inter> set (reached @ [i]) = {}"
      using Cons.IH by blast
    then show ?thesis using True p by (intro exI [of _ "i # new"]) auto
  next
    case False
    then show ?thesis using Cons.IH [of reached] p by auto
  qed
qed simp

function terminal_loop :: "'c draft_nodes \<Rightarrow> string list \<Rightarrow> string list" where
  "terminal_loop nodes reached =
     (let next = terminal_pass nodes reached in
      if length next = length reached then reached else terminal_loop nodes next)"
  by pat_completeness auto
termination
proof (relation "measure (\<lambda>(nodes, reached). card (fst ` set nodes - set reached))", goal_cases)
  case (2 nodes reached grown)
  obtain new where new: "grown = reached @ new" "set new \<subseteq> fst ` set nodes" "set new \<inter> set reached = {}"
    using terminal_pass_grows [of nodes reached] 2(1) by (auto simp: terminal_pass_def)
  with 2(2) obtain i where "i \<in> set new" by (cases new) auto
  with new have "fst ` set nodes - set grown \<subset> fst ` set nodes - set reached" by auto
  then show ?case by (simp add: psubset_card_mono)
qed simp

declare terminal_loop.simps [simp del]

lemma someE_cong [fundef_cong]:
  assumes "xs = ys" and "\<And>x. x \<in> set ys \<Longrightarrow> f x = g x"
  shows "someE f xs = someE g ys"
proof -
  have "someE f ys = someE g ys" using assms(2) by (induction ys) (auto intro!: bindE_cong)
  then show ?thesis using assms(1) by simp
qed

function pathExists :: "'c draft_nodes \<Rightarrow> string \<Rightarrow> string \<Rightarrow> string list \<Rightarrow> error + bool" where
  "pathExists nodes a b seen =
     (if a = b then Inr True
      else if a \<in> set seen then Inr False
      else case map_of nodes a of
        None \<Rightarrow> Inl (PlainError ''TypeError'' [])
      | Some n \<Rightarrow> someE (\<lambda>t. pathExists nodes t b (seen @ [a])) (successors n))"
  by pat_completeness auto
termination
proof (relation "measure (\<lambda>(nodes, a, b, seen). card (fst ` set nodes - set seen))", goal_cases)
  case (2 nodes a b seen n t)
  then have "a \<in> fst ` set nodes - set seen" by (force dest: map_of_SomeD)
  then have "fst ` set nodes - set (seen @ [a]) \<subset> fst ` set nodes - set seen" by auto
  then show ?case by (simp add: psubset_card_mono)
qed simp

declare pathExists.simps [simp del]

definition check_promotion :: "'c card_type_draft \<Rightarrow> string \<Rightarrow> edge_draft \<Rightarrow> error + unit" where
  "check_promotion d sourceId edge = (case ed_terminal edge of
     Some tb \<Rightarrow>
       (case tb_promotion tb of
          PromoteLatest i \<Rightarrow>
            bindE (guardE (has_node d i) (PlainError ''promotes missing node.'' [sourceId, i])) (\<lambda>_.
            bindE (pathExists (dr_nodes d) i sourceId []) (\<lambda>found.
            guardE found (PlainError ''has no path from promoted node to its terminal source.'' [sourceId, i])))
        | PromoteCurrent \<Rightarrow> Inr ())
   | None \<Rightarrow> Inr ())"

definition validateCardTypeTopology :: "'c card_type_draft \<Rightarrow> error + unit" where
  "validateCardTypeTopology d =
     bindE (guardE (list_ex (\<lambda>(_, n). runs_recipient d n) (dr_nodes d))
       (PlainError ''notification_recipient is not used by any workflow node.'' [dr_recipient d])) (\<lambda>_.
     bindE (checkE (\<lambda>(i, n). checkE (\<lambda>(_, e). check_edge d i n e) (nd_edges n)) (dr_nodes d)) (\<lambda>_.
     bindE (checkE (\<lambda>entry. guardE (has_node d (fst (dr_entries d entry)))
       (PlainError ''entry targets missing node.'' [])) ENTRY_PORTS) (\<lambda>_.
     bindE (checkE (check_entry d) ENTRY_PORTS) (\<lambda>_.
     bindE (get_node d (fst (dr_entries d EntryStopped))) (\<lambda>stoppedNode.
     bindE (guardE (runs_recipient d stoppedNode)
       (PlainError ''entries.STOPPED must target a node run by the notification recipient.'' [])) (\<lambda>_.
     bindE (visit_nodes (dr_nodes d) (map (\<lambda>e. fst (dr_entries d e)) ENTRY_PORTS) []) (\<lambda>reachable.
     bindE (checkE (\<lambda>(i, _). guardE (i \<in> set reachable) (PlainError ''is unreachable from every entry.'' [i])) (dr_nodes d)) (\<lambda>_.
     let terminalReachable = terminal_loop (dr_nodes d) (map fst (filter (\<lambda>(_, n). has_terminal_edge n) (dr_nodes d))) in
     bindE (checkE (\<lambda>(i, _). guardE (i \<in> set terminalReachable) (PlainError ''has no path to a terminal.'' [i])) (dr_nodes d)) (\<lambda>_.
     checkE (\<lambda>(i, n). checkE (\<lambda>(_, e). check_promotion d i e) (nd_edges n)) (dr_nodes d))))))))))"

section \<open>The graph\<close>

definition arcs :: "'c draft_nodes \<Rightarrow> (string \<times> string) set" where
  "arcs nodes = {(a, b). \<exists>n. map_of nodes a = Some n \<and> b \<in> set (successors n)}"

definition closed_graph :: "'c draft_nodes \<Rightarrow> bool" where
  "closed_graph nodes \<longleftrightarrow> (\<forall>(a, b) \<in> arcs nodes. map_of nodes b \<noteq> None)"

lemma arcs_graph: "arcs nodes = graph_arcs successors nodes"
  by (simp add: arcs_def graph_arcs_def)

lemma visit_nodes_exact: "visit_nodes nodes calls [] = Inr r \<Longrightarrow> set r = (arcs nodes)\<^sup>* `` set calls"
  unfolding visit_nodes_def arcs_graph by (rule visit_graph_exact)

lemma visit_nodes_total:
  "closed_graph nodes \<Longrightarrow> \<forall>i \<in> set calls. map_of nodes i \<noteq> None \<Longrightarrow> \<exists>r. visit_nodes nodes calls reachable = Inr r"
  unfolding visit_nodes_def closed_graph_def arcs_graph by (rule visit_graph_total) (simp_all add: graph_closed_def)

section \<open>The fixpoint\<close>

lemma terminal_pass_sound:
  assumes "set reached \<subseteq> T" and "\<And>i n t. (i, n) \<in> set nodes \<Longrightarrow> t \<in> set (successors n) \<Longrightarrow> t \<in> T \<Longrightarrow> i \<in> T"
  shows "set (terminal_pass nodes reached) \<subseteq> T"
  using assms unfolding terminal_pass_def
proof (induction nodes arbitrary: reached)
  case (Cons p nodes)
  obtain i n where p: "p = (i, n)" by (cases p)
  let ?r = "if i \<notin> set reached \<and> list_ex (\<lambda>t. t \<in> set reached) (successors n) then reached @ [i] else reached"
  have "set ?r \<subseteq> T" using Cons.prems(1) Cons.prems(2) [of i n] p by (auto simp: list_ex_iff)
  then have "set (List.fold (\<lambda>(i, n) r. if i \<notin> set r \<and> list_ex (\<lambda>t. t \<in> set r) (successors n) then r @ [i] else r) nodes ?r) \<subseteq> T"
    by (rule Cons.IH) (use Cons.prems(2) in auto)
  then show ?case by (simp add: p)
qed simp

lemma terminal_pass_stable:
  assumes "length (terminal_pass nodes reached) = length reached"
    and "(i, n) \<in> set nodes" and "t \<in> set (successors n)" and "t \<in> set reached"
  shows "i \<in> set reached"
proof (rule ccontr)
  assume "i \<notin> set reached"
  let ?f = "\<lambda>(i, n) r. if i \<notin> set r \<and> list_ex (\<lambda>t. t \<in> set r) (successors n) then r @ [i] else r"
  obtain before after' where nodes: "nodes = before @ (i, n) # after'" using split_list [OF assms(2)] by blast
  obtain b where b: "List.fold ?f before reached = reached @ b" using terminal_pass_grows [of before reached] by blast
  obtain a where a: "List.fold ?f after' (?f (i, n) (reached @ b)) = ?f (i, n) (reached @ b) @ a"
    using terminal_pass_grows [of after' "?f (i, n) (reached @ b)"] by blast
  have "i \<in> set (?f (i, n) (reached @ b))" using assms(3,4) by (auto simp: list_ex_iff)
  then have "i \<in> set (terminal_pass nodes reached)" using a b nodes by (simp add: terminal_pass_def)
  moreover obtain new where "terminal_pass nodes reached = reached @ new"
    using terminal_pass_grows [of nodes reached] by (auto simp: terminal_pass_def)
  ultimately show False using assms(1) \<open>i \<notin> set reached\<close> by auto
qed

lemma terminal_loop_bounds:
  assumes "set reached \<subseteq> T" and "\<And>i n t. (i, n) \<in> set nodes \<Longrightarrow> t \<in> set (successors n) \<Longrightarrow> t \<in> T \<Longrightarrow> i \<in> T"
  shows "set reached \<subseteq> set (terminal_loop nodes reached) \<and> set (terminal_loop nodes reached) \<subseteq> T"
  using assms
proof (induction nodes reached rule: terminal_loop.induct)
  case (1 nodes reached)
  obtain new where new: "terminal_pass nodes reached = reached @ new"
    using terminal_pass_grows [of nodes reached] by (auto simp: terminal_pass_def)
  show ?case
  proof (cases "length (terminal_pass nodes reached) = length reached")
    case False
    have "set (terminal_pass nodes reached) \<subseteq> T" using terminal_pass_sound "1.prems" by metis
    from "1.IH" [OF refl False this "1.prems"(2)] new False show ?thesis
      by (subst (1 2) terminal_loop.simps) (auto simp: Let_def)
  qed (use "1.prems" in \<open>simp add: terminal_loop.simps\<close>)
qed

lemma terminal_loop_stable:
  "(i, n) \<in> set nodes \<Longrightarrow> t \<in> set (successors n) \<Longrightarrow> t \<in> set (terminal_loop nodes reached) \<Longrightarrow>
     i \<in> set (terminal_loop nodes reached)"
proof (induction nodes reached rule: terminal_loop.induct)
  case (1 nodes reached)
  show ?case
  proof (cases "length (terminal_pass nodes reached) = length reached")
    case True
    then show ?thesis using terminal_pass_stable [OF True "1.prems"(1,2)] "1.prems"(3) by (simp add: terminal_loop.simps)
  next
    case False
    then have "terminal_loop nodes reached = terminal_loop nodes (terminal_pass nodes reached)"
      by (subst terminal_loop.simps) (simp add: Let_def)
    with "1.IH" [OF refl False "1.prems"(1,2)] "1.prems"(3) show ?thesis by simp
  qed
qed

lemma terminal_loop_exact:
  assumes "distinct (map fst nodes)"
  shows "set (terminal_loop nodes (map fst (filter (\<lambda>(_, n). has_terminal_edge n) nodes))) =
    {i. \<exists>j n. (i, j) \<in> (arcs nodes)\<^sup>* \<and> map_of nodes j = Some n \<and> has_terminal_edge n}"
    (is "set (terminal_loop nodes ?seed) = ?T")
proof -
  have node: "map_of nodes i = Some n \<longleftrightarrow> (i, n) \<in> set nodes" for i n using assms by (rule map_of_eq_Some_iff)
  have seed: "set ?seed \<subseteq> ?T" by (auto simp flip: node)
  have step: "i \<in> ?T" if "(i, n) \<in> set nodes" "t \<in> set (successors n)" "t \<in> ?T" for i n t
    using that by (auto simp: arcs_def node intro: converse_rtrancl_into_rtrancl)
  have bounds: "set ?seed \<subseteq> set (terminal_loop nodes ?seed) \<and> set (terminal_loop nodes ?seed) \<subseteq> ?T"
    by (rule terminal_loop_bounds [OF seed]) (rule step)
  have "i \<in> set (terminal_loop nodes ?seed)"
    if "(i, j) \<in> (arcs nodes)\<^sup>*" "map_of nodes j = Some n" "has_terminal_edge n" for i j n
    using that(1)
  proof (induction rule: converse_rtrancl_induct)
    case base
    have "j \<in> set ?seed" using that(2,3) by (force simp: node)
    then show ?case using bounds by blast
  next
    case (step y z)
    then obtain m where "(y, m) \<in> set nodes" "z \<in> set (successors m)" by (auto simp: arcs_def node)
    then show ?case using terminal_loop_stable step.IH by blast
  qed
  with bounds show ?thesis by blast
qed

section \<open>Paths\<close>

definition arcs_avoiding :: "'c draft_nodes \<Rightarrow> string list \<Rightarrow> (string \<times> string) set" where
  "arcs_avoiding nodes seen = {(a, b) \<in> arcs nodes. a \<notin> set seen}"

lemma leave_for_good:
  assumes "(x, b) \<in> (arcs_avoiding nodes seen)\<^sup>*"
  shows "(x, b) \<in> (arcs_avoiding nodes (seen @ [a]))\<^sup>* \<or>
    (\<exists>c. (a, c) \<in> arcs nodes \<and> (c, b) \<in> (arcs_avoiding nodes (seen @ [a]))\<^sup>*)"
  using assms
proof (induction rule: converse_rtrancl_induct)
  case (step x y)
  then show ?case
    by (cases "x = a") (auto simp: arcs_avoiding_def intro: converse_rtrancl_into_rtrancl)
qed simp

lemma someE_Inr:
  assumes "\<And>x. x \<in> set xs \<Longrightarrow> \<exists>b. f x = Inr b"
  shows "someE f xs = Inr (\<exists>x \<in> set xs. f x = Inr True)"
  using assms by (intro someE_exact) fastforce

lemma pathExists_run:
  assumes "closed_graph nodes" and "map_of nodes a \<noteq> None"
  shows "pathExists nodes a b seen = Inr ((a, b) \<in> (arcs_avoiding nodes seen)\<^sup>*)"
  using assms
proof (induction nodes a b seen rule: pathExists.induct)
  case (1 nodes a b seen)
  show ?case
  proof (cases "a = b \<or> a \<in> set seen")
    case True
    moreover have "(a, b) \<notin> (arcs_avoiding nodes seen)\<^sup>*" if "a \<noteq> b" "a \<in> set seen"
      using that by (auto simp: arcs_avoiding_def elim: converse_rtranclE)
    ultimately show ?thesis by (auto simp: pathExists.simps [of nodes a])
  next
    case False
    obtain n where n: "map_of nodes a = Some n" using "1.prems"(2) by auto
    have ih: "pathExists nodes t b (seen @ [a]) = Inr ((t, b) \<in> (arcs_avoiding nodes (seen @ [a]))\<^sup>*)"
      if "t \<in> set (successors n)" for t
    proof -
      have "map_of nodes t \<noteq> None" using "1.prems"(1) n that by (auto simp: closed_graph_def arcs_def)
      with "1.IH" [OF _ _ n that "1.prems"(1)] False show ?thesis by blast
    qed
    have "pathExists nodes a b seen = Inr (\<exists>t \<in> set (successors n). (t, b) \<in> (arcs_avoiding nodes (seen @ [a]))\<^sup>*)"
      using False n someE_exact [of "successors n" "\<lambda>t. pathExists nodes t b (seen @ [a])"] ih
      by (simp add: pathExists.simps [of nodes a])
    also have "(\<exists>t \<in> set (successors n). (t, b) \<in> (arcs_avoiding nodes (seen @ [a]))\<^sup>*) \<longleftrightarrow>
        (a, b) \<in> (arcs_avoiding nodes seen)\<^sup>*"
    proof
      assume "\<exists>t \<in> set (successors n). (t, b) \<in> (arcs_avoiding nodes (seen @ [a]))\<^sup>*"
      then obtain t where t: "(a, t) \<in> arcs_avoiding nodes seen" "(t, b) \<in> (arcs_avoiding nodes (seen @ [a]))\<^sup>*"
        using n False by (auto simp: arcs_avoiding_def arcs_def)
      have "(arcs_avoiding nodes (seen @ [a]))\<^sup>* \<subseteq> (arcs_avoiding nodes seen)\<^sup>*"
        by (rule rtrancl_mono) (auto simp: arcs_avoiding_def)
      with t show "(a, b) \<in> (arcs_avoiding nodes seen)\<^sup>*" by (blast intro: converse_rtrancl_into_rtrancl)
    next
      assume "(a, b) \<in> (arcs_avoiding nodes seen)\<^sup>*"
      moreover have "(a, b) \<notin> (arcs_avoiding nodes (seen @ [a]))\<^sup>*"
        using False by (auto simp: arcs_avoiding_def elim: converse_rtranclE)
      ultimately obtain c where "(a, c) \<in> arcs nodes" "(c, b) \<in> (arcs_avoiding nodes (seen @ [a]))\<^sup>*"
        using leave_for_good by blast
      then show "\<exists>t \<in> set (successors n). (t, b) \<in> (arcs_avoiding nodes (seen @ [a]))\<^sup>*"
        using n by (auto simp: arcs_def)
    qed
    finally show ?thesis .
  qed
qed

lemma pathExists_exact:
  assumes "closed_graph nodes" and "map_of nodes a \<noteq> None"
  shows "pathExists nodes a b [] = Inr ((a, b) \<in> (arcs nodes)\<^sup>*)"
  using pathExists_run [OF assms, of b "[]"] by (simp add: arcs_avoiding_def)

section \<open>What the validation accepts\<close>

definition entry_target :: "'c card_type_draft \<Rightarrow> card_entry \<Rightarrow> string" where
  "entry_target d entry = fst (dr_entries d entry)"

definition inputs_met :: "'c node_draft \<Rightarrow> edge_inputs \<Rightarrow> op_fields \<Rightarrow> bool" where
  "inputs_met n edge outputs \<longleftrightarrow> validateIncomingInputs (declared_inputs n) (bound_inputs n) edge outputs = Inr ()"

text \<open>
  An edge leads to a terminal and binds nothing, or to a node whose inputs it completes; it
  carries a detour for pending notifications exactly when it finishes the card from a node that
  the notification recipient does not run, and the detour leads to a node the recipient runs.
\<close>

definition edge_ok :: "'c card_type_draft \<Rightarrow> 'c node_draft \<Rightarrow> edge_draft \<Rightarrow> bool" where
  "edge_ok d n e \<longleftrightarrow>
     (case ed_target_node e of
        None \<Rightarrow> ed_inputs e = []
      | Some t \<Rightarrow> \<exists>m outputs. map_of (dr_nodes d) t = Some m \<and> (ed_prompt e \<noteq> None \<longrightarrow> \<not> is_action m) \<and>
          edge_outputs n e = Inr outputs \<and> inputs_met m (ed_inputs e) outputs) \<and>
     (ed_pending e \<noteq> None \<longleftrightarrow> ed_target_state e = terminalState PortDone \<and> \<not> runs_recipient d n) \<and>
     (\<forall>p. ed_pending e = Some p \<longrightarrow>
        (\<exists>m. map_of (dr_nodes d) (pe_target_node p) = Some m \<and> runs_recipient d m \<and> inputs_met m [] []))"

definition entry_ok :: "'c card_type_draft \<Rightarrow> card_entry \<Rightarrow> bool" where
  "entry_ok d entry \<longleftrightarrow> (\<exists>m. map_of (dr_nodes d) (entry_target d entry) = Some m \<and>
     (snd (dr_entries d entry) \<noteq> None \<longrightarrow> \<not> is_action m) \<and> inputs_met m [] [] \<and>
     (entry = EntryStopped \<longrightarrow> runs_recipient d m))"

definition promotion_ok :: "'c card_type_draft \<Rightarrow> string \<Rightarrow> edge_draft \<Rightarrow> bool" where
  "promotion_ok d i e \<longleftrightarrow> (\<forall>tb p. ed_terminal e = Some tb \<and> tb_promotion tb = PromoteLatest p \<longrightarrow>
     has_node d p \<and> (p, i) \<in> (arcs (dr_nodes d))\<^sup>*)"

definition topology_ok :: "'c card_type_draft \<Rightarrow> bool" where
  "topology_ok d \<longleftrightarrow>
     (\<forall>(i, n) \<in> set (dr_nodes d). \<forall>(_, e) \<in> set (nd_edges n). edge_ok d n e \<and> promotion_ok d i e) \<and>
     (\<forall>entry. entry_ok d entry) \<and>
     (\<forall>(i, n) \<in> set (dr_nodes d).
        (\<exists>entry. (entry_target d entry, i) \<in> (arcs (dr_nodes d))\<^sup>*) \<and>
        (\<exists>j m. (i, j) \<in> (arcs (dr_nodes d))\<^sup>* \<and> map_of (dr_nodes d) j = Some m \<and> has_terminal_edge m))"

lemma entry_ports: "set ENTRY_PORTS = UNIV"
  unfolding ENTRY_PORTS_def by (auto intro: card_entry.exhaust)

lemma unit_Inr: "m = Inr u \<longleftrightarrow> m = Inr ()" for m :: "error + unit"
  by simp

lemma check_edge_iff: "check_edge d i n e = Inr () \<longleftrightarrow> edge_ok d n e"
  unfolding check_edge_def edge_ok_def Let_def
  by (cases "ed_target_node e"; cases "ed_pending e")
    (auto simp: errE get_node_def has_node_def inputs_met_def)

lemma check_entry_iff:
  "check_entry d entry = Inr () \<longleftrightarrow> (\<exists>m. map_of (dr_nodes d) (entry_target d entry) = Some m \<and>
     (snd (dr_entries d entry) \<noteq> None \<longrightarrow> \<not> is_action m) \<and> inputs_met m [] [])"
  unfolding check_entry_def entry_target_def Let_def
  by (cases "dr_entries d entry") (auto simp: errE get_node_def inputs_met_def)

lemma edges_closed:
  assumes "distinct (map fst (dr_nodes d))"
    and "\<forall>(i, n) \<in> set (dr_nodes d). \<forall>(_, e) \<in> set (nd_edges n). edge_ok d n e"
  shows "closed_graph (dr_nodes d)"
proof -
  have "map_of (dr_nodes d) b \<noteq> None" if n: "map_of (dr_nodes d) a = Some n" and b: "b \<in> set (successors n)" for a b n
  proof -
    obtain r e where e: "(r, e) \<in> set (nd_edges n)" "b \<in> set (edge_successors e)"
      using b by (auto simp: successors_def)
    have "edge_ok d n e" using assms(2) map_of_SomeD [OF n] e(1) by blast
    then show ?thesis using e(2)
      by (auto simp: edge_ok_def edge_successors_def split: option.splits)
  qed
  then show ?thesis by (auto simp: closed_graph_def arcs_def)
qed

abbreviation each_edge :: "'c card_type_draft \<Rightarrow> (string \<Rightarrow> 'c node_draft \<Rightarrow> edge_draft \<Rightarrow> bool) \<Rightarrow> bool" where
  "each_edge d P \<equiv> \<forall>(i, n) \<in> set (dr_nodes d). \<forall>(_, e) \<in> set (nd_edges n). P i n e"

abbreviation each_node :: "'c card_type_draft \<Rightarrow> (string \<Rightarrow> bool) \<Rightarrow> bool" where
  "each_node d P \<equiv> \<forall>(i, n) \<in> set (dr_nodes d). P i"

lemma validation_steps:
  "validateCardTypeTopology d = Inr () \<longleftrightarrow>
     list_ex (\<lambda>(_, n). runs_recipient d n) (dr_nodes d) \<and> each_edge d (\<lambda>i n e. edge_ok d n e) \<and>
     (\<forall>entry. has_node d (entry_target d entry)) \<and> (\<forall>entry. check_entry d entry = Inr ()) \<and>
     (\<exists>m. map_of (dr_nodes d) (entry_target d EntryStopped) = Some m \<and> runs_recipient d m) \<and>
     (\<exists>reach. visit_nodes (dr_nodes d) (map (entry_target d) ENTRY_PORTS) [] = Inr reach \<and> each_node d (\<lambda>i. i \<in> set reach)) \<and>
     each_node d (\<lambda>i. i \<in> set (terminal_loop (dr_nodes d) (map fst (filter (\<lambda>(_, n). has_terminal_edge n) (dr_nodes d))))) \<and>
     each_edge d (\<lambda>i n e. check_promotion d i e = Inr ())"
  unfolding validateCardTypeTopology_def Let_def entry_target_def [abs_def]
  by (simp add: errE case_prod_unfold entry_ports check_edge_iff get_node_def) blast

lemma entry_ok_iff:
  "entry_ok d entry \<longleftrightarrow> check_entry d entry = Inr () \<and>
     (entry = EntryStopped \<longrightarrow> (\<exists>m. map_of (dr_nodes d) (entry_target d entry) = Some m \<and> runs_recipient d m))"
  unfolding entry_ok_def check_entry_iff by auto

lemma topology_exact:
  assumes dist: "distinct (map fst (dr_nodes d))"
  shows "validateCardTypeTopology d = Inr () \<longleftrightarrow> topology_ok d"
proof (cases "each_edge d (\<lambda>i n e. edge_ok d n e) \<and> (\<forall>entry. entry_ok d entry)")
  case False
  then have "\<not> topology_ok d" unfolding topology_ok_def by blast
  moreover have "validateCardTypeTopology d \<noteq> Inr ()" using False unfolding validation_steps entry_ok_iff by blast
  ultimately show ?thesis by blast
next
  case True
  then have edges: "each_edge d (\<lambda>i n e. edge_ok d n e)" and entries: "\<And>entry. entry_ok d entry" by blast+
  have closed: "closed_graph (dr_nodes d)" using edges_closed [OF dist edges] .
  have targets: "has_node d (entry_target d entry)" for entry
    using entries [of entry] by (auto simp: entry_ok_def has_node_def)
  obtain stopped where stopped: "map_of (dr_nodes d) (entry_target d EntryStopped) = Some stopped" "runs_recipient d stopped"
    using entries [of EntryStopped] by (auto simp: entry_ok_def)
  obtain reach where reach: "visit_nodes (dr_nodes d) (map (entry_target d) ENTRY_PORTS) [] = Inr reach"
    using visit_nodes_total [OF closed, of "map (entry_target d) ENTRY_PORTS" "[]"] targets by (auto simp: has_node_def)
  have reach_set: "i \<in> set reach \<longleftrightarrow> (\<exists>entry. (entry_target d entry, i) \<in> (arcs (dr_nodes d))\<^sup>*)" for i
    unfolding visit_nodes_exact [OF reach] by (auto simp: entry_ports)
  have promotion: "check_promotion d i e = Inr () \<longleftrightarrow> promotion_ok d i e" for i e
    using pathExists_exact [OF closed]
    by (auto simp: check_promotion_def promotion_ok_def errE has_node_def split: option.splits promotion.splits)
  have recipient: "list_ex (\<lambda>(_, n). runs_recipient d n) (dr_nodes d)"
    using stopped map_of_SomeD by (fastforce simp: list_ex_iff)
  have "validateCardTypeTopology d = Inr () \<longleftrightarrow> each_node d (\<lambda>i. i \<in> set reach) \<and>
      each_node d (\<lambda>i. \<exists>j m. (i, j) \<in> (arcs (dr_nodes d))\<^sup>* \<and> map_of (dr_nodes d) j = Some m \<and> has_terminal_edge m) \<and>
      each_edge d (\<lambda>i n e. promotion_ok d i e)"
    unfolding validation_steps terminal_loop_exact [OF dist] promotion mem_Collect_eq
    using edges entries targets stopped reach recipient by (simp add: entry_ok_iff)
  also have "\<dots> \<longleftrightarrow> topology_ok d"
    unfolding topology_ok_def reach_set using edges entries by blast
  finally show ?thesis .
qed

end
