(* ===== verification/WorkflowTable.thy ===== *)
theory WorkflowTable
  imports WorkflowTopology MicroActor
begin

text \<open>
  The state table of a card type (\<open>src/runtime/card-process/card-process-config.ts\<close>,
  \<open>buildCardTypeStateTable\<close>, \<open>validateDescendantContextClosure\<close>, \<open>processNodeOutcomes\<close>): a checked
  draft becomes the table of states that the micro actor of a card runs.

  A state of the table extends the state of a micro actor with what the process needs of it;
  \<open>actor_table\<close> forgets the extension, as passing the table to \<open>validateCompiledActorTable\<close> does.
\<close>

section \<open>The table\<close>

datatype runtime_cause = CauseBlocked | CauseFailed

datatype transition_semantic =
    NativeCorrectionEntry
  | NativeCorrectionReturn card_entry
  | NativeCorrectionOutcome runtime_cause
  | Activation
  | EntryRoute "compiled_declaration option"
  | ConfiguredOutcome string string "route_test option" edge_inputs "compiled_declaration option" "terminal_behavior option"
  | ConfiguredPending string string compiled_declaration
  | NotificationInterrupt compiled_declaration
  | RuntimeTerminal runtime_cause

record process_transition = compiled_transition +
  semantic :: transition_semantic

datatype node_purpose = ProductNode | GitCorrection

record 'c node_contract =
  nc_purpose :: node_purpose
  nc_id :: string
  nc_execution :: "'c node_execution"
  nc_record_prompts :: "record_prompt list"
  nc_requirements :: "record_requirement list"
  nc_initialize :: "compiled_record list"
  nc_output_record :: "compiled_record option"
  nc_descendant :: "(compiled_record list \<times> bool) option"
  nc_creation_types :: "string list"
  nc_activation_types :: "string list"
  nc_readable :: "(string \<times> compiled_record) list"

datatype 'c process_kind = ReadyState | EntryState card_entry | NodeState "'c node_contract" | TerminalState terminal_port

record 'c process_state =
  ps_kind :: "'c process_kind"
  ps_on :: "(string \<times> process_transition) list"
  ps_terminal :: bool
  ps_parked :: bool

type_synonym 'c process_table = "(string \<times> 'c process_state) list"

definition actor_state :: "'c process_state \<Rightarrow> compiled_state" where
  "actor_state s = \<lparr>on = map (\<lambda>(e, t). (e, compiled_transition.truncate t)) (ps_on s),
     isTerminal = ps_terminal s, isParked = ps_parked s\<rparr>"

definition actor_table_of :: "'c process_table \<Rightarrow> actor_table" where
  "actor_table_of states = map (\<lambda>(i, s). (i, actor_state s)) states"

definition map_from :: "('k \<times> 'v) list \<Rightarrow> ('k \<times> 'v) list" where
  "map_from kvs = List.fold (\<lambda>(k, v). AList.update k v) kvs []"

definition GIT_CORRECTION_NODE_ID :: string where
  "GIT_CORRECTION_NODE_ID = ''git-rebase-correction''"

definition compiledProcessTransition :: "string \<Rightarrow> transition_semantic \<Rightarrow> bool \<Rightarrow> process_transition" where
  "compiledProcessTransition target sem re = \<lparr>targetStateId = target, reenter = re, semantic = sem\<rparr>"

fun cause_name :: "runtime_cause \<Rightarrow> string" where
  "cause_name CauseBlocked = ''blocked''"
| "cause_name CauseFailed = ''failed''"

fun cause_port :: "runtime_cause \<Rightarrow> terminal_port" where
  "cause_port CauseBlocked = PortBlocked"
| "cause_port CauseFailed = PortFailed"

definition correction_entry :: "bool \<Rightarrow> string \<times> process_transition" where
  "correction_entry re =
     (''native:correction'', compiledProcessTransition (nodeState GIT_CORRECTION_NODE_ID) NativeCorrectionEntry re)"

definition ready_on :: "bool \<Rightarrow> (string \<times> process_transition) list" where
  "ready_on native = map_from ((if native then [correction_entry False] else []) @
     map (\<lambda>entry. (''activate:'' @ entry_name entry, compiledProcessTransition (entryState entry) Activation False)) ENTRY_PORTS)"

definition entry_state :: "'c card_type_draft \<Rightarrow> card_entry \<Rightarrow> string \<times> 'c process_state" where
  "entry_state d entry = (let (node, prompt) = dr_entries d entry in
     (entryState entry, \<lparr>ps_kind = EntryState entry,
        ps_on = [(''entry:route'', compiledProcessTransition (nodeState node) (EntryRoute prompt) False)],
        ps_terminal = False, ps_parked = False\<rparr>))"

definition edge_transitions :: "string \<Rightarrow> edge_draft \<Rightarrow> (string \<times> process_transition) list" where
  "edge_transitions stateId e =
     (''result:'' @ ed_route_id e, compiledProcessTransition (ed_target_state e)
        (ConfiguredOutcome (ed_outcome e) (ed_route_id e) (ed_test e) (ed_inputs e) (ed_prompt e) (ed_terminal e))
        (ed_target_state e = stateId)) #
     (case ed_pending e of None \<Rightarrow> []
      | Some p \<Rightarrow> [(''result:'' @ ed_route_id e @ '':pending-notifications'', compiledProcessTransition (pe_target_state p)
          (ConfiguredPending (ed_outcome e) (ed_route_id e @ '':pending-notifications'') (pe_prompt p))
          (pe_target_state p = stateId))])"

definition runtime_terminal :: "runtime_cause \<Rightarrow> string \<times> process_transition" where
  "runtime_terminal cause = (''execution:'' @ cause_name cause,
     compiledProcessTransition (terminalState (cause_port cause)) (RuntimeTerminal cause) False)"

definition node_on :: "bool \<Rightarrow> string \<Rightarrow> compiled_declaration \<Rightarrow> string \<Rightarrow> 'c node_draft \<Rightarrow> (string \<times> process_transition) list" where
  "node_on native recoveryNode recoveryPrompt nodeId n =
     map_from ((if native then [correction_entry False] else []) @
       [(''notification:interrupt'', compiledProcessTransition (nodeState recoveryNode)
          (NotificationInterrupt recoveryPrompt) (recoveryNode = nodeId))] @
       concat (map (\<lambda>(_, e). edge_transitions (nodeState nodeId) e) (nd_edges n)) @
       [runtime_terminal CauseFailed, runtime_terminal CauseBlocked])"

definition node_state :: "'c card_type_draft \<Rightarrow> bool \<Rightarrow> string \<times> 'c node_draft \<Rightarrow> error + string \<times> 'c process_state" where
  "node_state d native = (\<lambda>(nodeId, n).
     let (recoveryNode, prompt) = dr_entries d EntryStopped in
     bindE (optionE (PlainError ''entries.STOPPED requires a recovery prompt for notification interruption.'' [dr_card_type d])
       prompt) (\<lambda>recoveryPrompt.
     Inr (nodeState nodeId, \<lparr>ps_kind = NodeState \<lparr>nc_purpose = ProductNode, nc_id = nodeId, nc_execution = nd_execution n,
         nc_record_prompts = nd_record_prompts n, nc_requirements = nd_requirements n, nc_initialize = nd_initialize n,
         nc_output_record = nd_output_record n, nc_descendant = nd_descendant n, nc_creation_types = nd_creation_types n,
         nc_activation_types = nd_activation_types n, nc_readable = dr_records d\<rparr>,
       ps_on = node_on native recoveryNode recoveryPrompt nodeId n, ps_terminal = False, ps_parked = False\<rparr>)))"

definition correction_on :: "'c card_type_draft \<Rightarrow> (string \<times> process_transition) list" where
  "correction_on d = map_from (correction_entry True #
     map (\<lambda>entry. (''native:verified:'' @ entry_name entry,
       compiledProcessTransition (nodeState (fst (dr_entries d entry))) (NativeCorrectionReturn entry) False)) ENTRY_PORTS @
     concat (map (\<lambda>cause.
       [(''result:'' @ cause_name cause, compiledProcessTransition (terminalState (cause_port cause))
           (NativeCorrectionOutcome cause) False),
        runtime_terminal cause]) [CauseBlocked, CauseFailed]))"

definition correction_state :: "'c card_type_draft \<Rightarrow> agent_execution \<Rightarrow> string \<times> 'c process_state" where
  "correction_state d correction =
     (nodeState GIT_CORRECTION_NODE_ID, \<lparr>ps_kind = NodeState \<lparr>nc_purpose = GitCorrection, nc_id = GIT_CORRECTION_NODE_ID,
         nc_execution = AgentExecution correction, nc_record_prompts = [], nc_requirements = [], nc_initialize = [],
         nc_output_record = None, nc_descendant = None, nc_creation_types = [], nc_activation_types = [],
         nc_readable = dr_records d\<rparr>,
       ps_on = correction_on d, ps_terminal = False, ps_parked = False\<rparr>)"

definition terminal_state :: "terminal_port \<Rightarrow> string \<times> 'c process_state" where
  "terminal_state port =
     (terminalState port, \<lparr>ps_kind = TerminalState port, ps_on = [], ps_terminal = True, ps_parked = False\<rparr>)"

definition process_states :: "'c card_type_draft \<Rightarrow> agent_execution option \<Rightarrow> error + 'c process_table" where
  "process_states d correction =
     bindE (mapE (node_state d (correction \<noteq> None)) (dr_nodes d)) (\<lambda>nodes.
     Inr (map_from
       ((''lifecycle:ready'', \<lparr>ps_kind = ReadyState, ps_on = ready_on (correction \<noteq> None),
           ps_terminal = False, ps_parked = True\<rparr>) #
        map (entry_state d) ENTRY_PORTS @ nodes @
        (case correction of None \<Rightarrow> [] | Some execution \<Rightarrow> [correction_state d execution]) @
        map terminal_state TERMINAL_PORTS)))"

section \<open>The prompts of the table\<close>

definition execution_prompts :: "'c process_state \<Rightarrow> string list" where
  "execution_prompts s = (case ps_kind s of
     NodeState n \<Rightarrow> (case nc_execution n of
       AgentExecution e \<Rightarrow> [cp_prompt_id (ae_prompt e), cp_prompt_id (ae_correction_prompt e)]
     | ActionExecution _ \<Rightarrow> [])
   | _ \<Rightarrow> [])"

definition transition_prompts :: "process_transition \<Rightarrow> string list" where
  "transition_prompts t = (case semantic t of
     EntryRoute (Some p) \<Rightarrow> [cp_prompt_id p]
   | ConfiguredOutcome _ _ _ _ (Some p) _ \<Rightarrow> [cp_prompt_id p]
   | ConfiguredPending _ _ p \<Rightarrow> [cp_prompt_id p]
   | NotificationInterrupt p \<Rightarrow> [cp_prompt_id p]
   | _ \<Rightarrow> [])"

definition process_prompt_ids :: "'c process_table \<Rightarrow> string list" where
  "process_prompt_ids states = List.fold append_new
     (concat (map (\<lambda>(_, s). execution_prompts s @ concat (map (\<lambda>(_, t). transition_prompts t) (ps_on s))) states)) []"

record 'c card_type_workflow =
  wf_after_commit :: "(terminal_port list \<times> 'c compiled_action) option"
  wf_card_type :: string
  wf_recipient :: string
  wf_planning_target :: bool
  wf_permitted :: "string list"
  wf_records :: "(string \<times> compiled_record) list"
  wf_bootstrap :: compiled_record
  wf_initial :: string
  wf_states :: "'c process_table"
  wf_prompts :: "(string \<times> process_prompt) list"

definition plans_children :: "string \<Rightarrow> 'c process_state \<Rightarrow> bool" where
  "plans_children recipient s = (case ps_kind s of
     NodeState n \<Rightarrow> (case nc_execution n of
       AgentExecution e \<Rightarrow> a_name (ae_agent e) = recipient \<and> nc_creation_types n \<noteq> [] \<and> nc_activation_types n \<noteq> []
     | ActionExecution _ \<Rightarrow> False)
   | _ \<Rightarrow> False)"

definition buildCardTypeStateTable :: "'c card_type_draft \<Rightarrow> prompt_roots \<Rightarrow> agent_execution option \<Rightarrow>
    error + 'c card_type_workflow" where
  "buildCardTypeStateTable d roots correction =
     bindE (process_states d correction) (\<lambda>states.
     bindE (validateCompiledActorTable ''lifecycle:ready'' (actor_table_of states)) (\<lambda>_.
     bindE (mapE (\<lambda>i. bindE (selectProcessPrompt (dr_card_type d) i roots) (\<lambda>p. Inr (i, p))) (process_prompt_ids states)) (\<lambda>prompts.
     Inr \<lparr>wf_after_commit = dr_after_commit d, wf_card_type = dr_card_type d, wf_recipient = dr_recipient d,
       wf_planning_target = list_ex (\<lambda>(_, s). plans_children (dr_recipient d) s) states,
       wf_permitted = dr_permitted d, wf_records = dr_records d, wf_bootstrap = dr_bootstrap d,
       wf_initial = ''lifecycle:ready'', wf_states = states, wf_prompts = prompts\<rparr>)))"

definition processNodeOutcomes :: "'c card_type_workflow \<Rightarrow> string \<Rightarrow> error + string list" where
  "processNodeOutcomes w stateId = (case map_of (wf_states w) stateId of
     Some s \<Rightarrow> (case ps_kind s of
       NodeState n \<Rightarrow> Inr (case nc_purpose n of
         GitCorrection \<Rightarrow> [''source_ready'', ''blocked'', ''failed'']
       | ProductNode \<Rightarrow> List.fold append_new (concat (map (\<lambda>(_, t). case semantic t of
           ConfiguredOutcome outcome _ _ _ _ _ \<Rightarrow> [outcome] | _ \<Rightarrow> []) (ps_on s))) [])
     | _ \<Rightarrow> Inl (PlainError ''Workflow has no node state.'' [wf_card_type w, stateId]))
   | None \<Rightarrow> Inl (PlainError ''Workflow has no node state.'' [wf_card_type w, stateId]))"

section \<open>Descendant context\<close>

type_synonym 'c drafts = "(string \<times> 'c card_type_draft) list"

definition get_draft :: "'c drafts \<Rightarrow> string \<Rightarrow> error + 'c card_type_draft" where
  "get_draft drafts t = optionE (PlainError ''No compile draft exists for configured card type.'' [t]) (map_of drafts t)"

definition visit_types :: "'c drafts \<Rightarrow> string list \<Rightarrow> string list \<Rightarrow> error + string list" where
  "visit_types = visit_graph dr_permitted
     (\<lambda>child. PlainError ''No compile draft exists for configured card type.'' [child])"

definition check_descendants :: "'c drafts \<Rightarrow> string list \<Rightarrow> string \<times> 'c node_draft \<Rightarrow> error + unit" where
  "check_descendants drafts reachable = (\<lambda>(nodeId, n).
     checkE (\<lambda>r. checkE (\<lambda>t.
       bindE (get_draft drafts t) (\<lambda>descendant.
       guardE (map_of (dr_records descendant) (r_name r) \<noteq> None)
         (PlainError ''descendant_context record is not declared by reachable descendant type.'' [nodeId, r_name r, t]))) reachable)
       (case nd_descendant n of None \<Rightarrow> [] | Some (records, _) \<Rightarrow> records))"

definition validateDescendantContextClosure :: "'c drafts \<Rightarrow> error + unit" where
  "validateDescendantContextClosure drafts = checkE (\<lambda>(cardType, d).
     bindE (get_draft drafts cardType) (\<lambda>current.
     bindE (visit_types drafts (dr_permitted current) []) (\<lambda>reachable.
     checkE (check_descendants drafts reachable) (dr_nodes d)))) drafts"

end
