(* ===== verification/WorkflowLaws.thy ===== *)
theory WorkflowLaws
  imports WorkflowTable
begin

text \<open>
  What the compilation of a card type establishes: the shape of a draft, and from a checked
  topology the shape of its state table.
\<close>

section \<open>Route identifiers\<close>

definition route_suffix :: "string \<Rightarrow> bool" where
  "route_suffix s \<longleftrightarrow> s = [] \<or> s = '':otherwise'' \<or> (\<exists>i. CHR '':'' \<notin> set i \<and> s = '':case:'' @ i)"

text \<open>The schema of the configuration admits only identifiers for the cases of an edge.\<close>

definition edge_ids_named :: "edge_source \<Rightarrow> bool" where
  "edge_ids_named e \<longleftrightarrow> (case e of PlainEdge _ \<Rightarrow> True | CasesEdge cases _ \<Rightarrow> list_all (\<lambda>(i, _). IDENTIFIER i) cases)"

definition node_ids_named :: "'c node_source \<Rightarrow> bool" where
  "node_ids_named node \<longleftrightarrow> list_all edge_ids_named (map snd (ns_edges node))"

definition case_ids_named :: "'c card_type_source \<Rightarrow> bool" where
  "case_ids_named source \<longleftrightarrow> list_all node_ids_named (map snd (ct_nodes source))"

lemma lower_word_no_colon: "lower_word extra n s \<Longrightarrow> \<not> extra CHR '':'' \<Longrightarrow> CHR '':'' \<notin> set s"
  by (auto simp: lower_word_def list_all_iff is_lower_def is_digit_def dest!: bspec)

lemma identifier_no_colon: "IDENTIFIER s \<Longrightarrow> CHR '':'' \<notin> set s"
  unfolding IDENTIFIER_def by (rule lower_word_no_colon) auto

lemma outcome_no_colon:
  assumes "outcomeIdentifier s = Inr out"
  shows "out = s \<and> CHR '':'' \<notin> set out"
proof -
  have "OUTCOME_IDENTIFIER s" "out = s" using assms by (auto simp: outcomeIdentifier_def errE)
  then show ?thesis unfolding OUTCOME_IDENTIFIER_def by (auto dest!: lower_word_no_colon)
qed

lemma split_at_colon:
  assumes "a @ s = b @ t" and "CHR '':'' \<notin> set a" and "CHR '':'' \<notin> set b"
    and "s = [] \<or> hd s = CHR '':''" and "t = [] \<or> hd t = CHR '':''"
  shows "a = b \<and> s = t"
  using assms
proof (induction a arbitrary: b)
  case Nil
  then show ?case by (cases b; cases s) auto
next
  case (Cons x a)
  then show ?case by (cases b; cases t) auto
qed

lemma route_suffix_hd: "route_suffix s \<Longrightarrow> s = [] \<or> hd s = CHR '':''"
  by (auto simp: route_suffix_def)

lemma pending_suffix: "route_suffix s \<Longrightarrow> route_suffix t \<Longrightarrow> s \<noteq> t @ '':pending-notifications''"
  by (auto simp: route_suffix_def)

definition edge_formed :: "string \<times> edge_draft \<Rightarrow> bool" where
  "edge_formed = (\<lambda>(r, e). r = ed_route_id e \<and> CHR '':'' \<notin> set (ed_outcome e) \<and>
     (\<exists>s. route_suffix s \<and> r = ed_outcome e @ s) \<and>
     (case ed_target_node e of
        Some t \<Rightarrow> ed_target_state e = nodeState t \<and> ed_terminal e = None \<and> ed_pending e = None
      | None \<Rightarrow> (\<exists>port. ed_target_state e = terminalState port) \<and> ed_terminal e \<noteq> None) \<and>
     (\<forall>p. ed_pending e = Some p \<longrightarrow> pe_target_state p = nodeState (pe_target_node p)))"

lemma pending_route_id:
  assumes "edge_formed (r, e)" and "edge_formed (r', e')"
  shows "r \<noteq> r' @ '':pending-notifications''"
proof
  assume eq: "r = r' @ '':pending-notifications''"
  obtain s where s: "route_suffix s" "r = ed_outcome e @ s" "CHR '':'' \<notin> set (ed_outcome e)"
    using assms(1) by (auto simp: edge_formed_def)
  obtain t where t: "route_suffix t" "r' = ed_outcome e' @ t" "CHR '':'' \<notin> set (ed_outcome e')"
    using assms(2) by (auto simp: edge_formed_def)
  have "ed_outcome e = ed_outcome e' \<and> s = t @ '':pending-notifications''"
    using eq s t route_suffix_hd [OF s(1)] route_suffix_hd [OF t(1)]
    by (intro split_at_colon) (auto simp: hd_append)
  with pending_suffix s(1) t(1) show False by blast
qed

section \<open>Compiled drafts\<close>

definition node_formed :: "string \<times> 'c node_draft \<Rightarrow> bool" where
  "node_formed = (\<lambda>(i, n). distinct (map fst (nd_edges n)) \<and> (\<forall>re \<in> set (nd_edges n). edge_formed re))"

definition draft_formed :: "'c card_type_draft \<Rightarrow> bool" where
  "draft_formed d \<longleftrightarrow> distinct (map fst (dr_nodes d)) \<and> (\<forall>n \<in> set (dr_nodes d). node_formed n)"

lemma update_mem: "kv \<in> set (AList.update k v kvs) \<Longrightarrow> kv = (k, v) \<or> kv \<in> set kvs"
  by (induction kvs) (auto split: if_splits)

definition edges_formed :: "(string \<times> edge_draft) list \<Rightarrow> bool" where
  "edges_formed edges \<longleftrightarrow> distinct (map fst edges) \<and> (\<forall>re \<in> set edges. edge_formed re)"

lemma edges_formed_update: "edges_formed edges \<Longrightarrow> edge_formed (r, e) \<Longrightarrow> edges_formed (AList.update r e edges)"
  using distinct_update [of edges r e] by (auto simp: edges_formed_def dest: update_mem)

lemma compile_branch_formed:
  assumes "compile_branch execution requirements outcome (edge, routeId, test) edges = Inr edges'"
    and "edges_formed edges" and "CHR '':'' \<notin> set outcome" and "\<exists>s. route_suffix s \<and> routeId = outcome @ s"
  shows "edges_formed edges'"
proof (cases "rs_target edge")
  case (ToNode node)
  then obtain prompt where "edges' = AList.update routeId \<lparr>ed_outcome = outcome, ed_route_id = routeId, ed_test = test,
      ed_inputs = rs_inputs edge, ed_target_state = nodeState node, ed_target_node = Some node, ed_prompt = prompt,
      ed_terminal = None, ed_pending = None\<rparr> edges"
    using assms(1) by (auto simp: compile_branch_def errE)
  with assms(2-) show ?thesis by (simp add: edges_formed_update edge_formed_def)
next
  case (ToTerminal terminal promote exports)
  then obtain exportRecords pending where e: "edges' = AList.update routeId \<lparr>ed_outcome = outcome, ed_route_id = routeId,
      ed_test = test, ed_inputs = rs_inputs edge, ed_target_state = terminalState terminal, ed_target_node = None,
      ed_prompt = None, ed_terminal = Some \<lparr>tb_promotion = promote, tb_export_records = exportRecords\<rparr>,
      ed_pending = pending\<rparr> edges" "\<forall>p. pending = Some p \<longrightarrow> pe_target_state p = nodeState (pe_target_node p)"
    using assms(1) by (auto simp: compile_branch_def errE split: option.splits)
  with assms(2-) show ?thesis by (auto simp: edge_formed_def intro!: edges_formed_update)
qed

lemma compile_edge_formed:
  assumes "compile_edge execution requirements (raw, configured) edges = Inr edges'" and "edges_formed edges"
    and "edge_ids_named configured"
  shows "edges_formed edges'"
proof -
  obtain outcome where o: "outcomeIdentifier raw = Inr outcome"
    and run: "foldE (compile_branch execution requirements outcome) (edge_branches outcome configured) edges = Inr edges'"
    using assms(1) by (auto simp: compile_edge_def errE)
  have plain: "CHR '':'' \<notin> set outcome" using outcome_no_colon [OF o] by blast
  have suffixes: "\<exists>s. route_suffix s \<and> r = outcome @ s" if "(edge, r, test) \<in> set (edge_branches outcome configured)" for edge r test
    using that assms(3)
    by (fastforce simp: edge_branches_def edge_ids_named_def route_suffix_def list_all_iff split: edge_source.splits dest: identifier_no_colon)
  show ?thesis
    using run
  proof (rule foldE_invariant [where I = edges_formed])
    show "edges_formed edges''" if "x \<in> set (edge_branches outcome configured)" "edges_formed s"
        "compile_branch execution requirements outcome x s = Inr edges''" for x s edges''
      using compile_branch_formed [of execution requirements outcome "fst x" "fst (snd x)" "snd (snd x)" s edges'']
        that suffixes [of "fst x" "fst (snd x)" "snd (snd x)"] plain by simp
  qed (rule assms(2))
qed

lemma compile_node_formed:
  fixes nodes :: "'c draft_nodes"
  assumes "compile_node cardType agents roots operations permitted records (raw, node) nodes = Inr nodes'"
    and "distinct (map fst nodes)" and "\<forall>n \<in> set nodes. node_formed n"
    and "node_ids_named node"
  shows "distinct (map fst nodes') \<and> (\<forall>n \<in> set nodes'. node_formed n)"
proof -
  obtain execution :: "'c node_execution" and requirements edges i n where run: "foldE (compile_edge execution requirements) (ns_edges node) [] = Inr edges"
    and nodes': "nodes' = AList.update i n nodes" and n: "nd_edges n = edges"
    using assms(1) unfolding compile_node_def prod.case bindE_Inr_iff case_prod_beta fst_conv snd_conv sum.inject(2)
    by (elim exE conjE) (rule that, assumption, erule sym, simp)
  have "edges_formed edges"
    using run
  proof (rule foldE_invariant [where I = edges_formed])
    show "edges_formed edges''" if "x \<in> set (ns_edges node)" "edges_formed s"
        "compile_edge execution requirements x s = Inr edges''" for x s edges''
      using that compile_edge_formed [of execution requirements "fst x" "snd x" s edges''] assms(4)
      by (auto simp: node_ids_named_def list_all_iff)
  qed (simp add: edges_formed_def)
  then have "node_formed (i, n)" using n by (simp add: node_formed_def edges_formed_def)
  then show ?thesis using assms(2,3) nodes' distinct_update [of nodes i n] by (auto dest: update_mem)
qed

lemma compiled_draft_formed:
  assumes "compileCardTypeInputs cardType source agents roots configured operations = Inr d" and "case_ids_named source"
  shows "draft_formed d"
proof -
  obtain permitted records where
    run: "foldE (compile_node cardType agents roots operations permitted records) (ct_nodes source) [] = Inr (dr_nodes d)"
    using assms(1) by (auto simp: compileCardTypeInputs_def errE)
  show ?thesis
    unfolding draft_formed_def using run
  proof (rule foldE_invariant [where I = "\<lambda>nodes. distinct (map fst nodes) \<and> (\<forall>n \<in> set nodes. node_formed n)"])
    show "distinct (map fst s') \<and> (\<forall>n \<in> set s'. node_formed n)"
      if "x \<in> set (ct_nodes source)" "distinct (map fst s) \<and> (\<forall>n \<in> set s. node_formed n)"
        "compile_node cardType agents roots operations permitted records x s = Inr s'" for x s s'
      using that compile_node_formed [of cardType agents roots operations permitted records "fst x" "snd x" s s'] assms(2)
      by (auto simp: case_ids_named_def list_all_iff)
  qed simp
qed

section \<open>Maps built from entries\<close>

lemma map_from_snoc: "map_from (kvs @ [(k, v)]) = AList.update k v (map_from kvs)"
  by (simp add: map_from_def)

lemma map_from_mem: "kv \<in> set (map_from kvs) \<Longrightarrow> kv \<in> set kvs"
proof (induction kvs rule: rev_induct)
  case (snoc x kvs)
  then show ?case by (cases x) (auto simp: map_from_snoc dest: update_mem)
qed (simp add: map_from_def)

lemma map_from_keys: "fst ` set (map_from kvs) = fst ` set kvs"
proof (induction kvs rule: rev_induct)
  case (snoc x kvs)
  then show ?case using dom_update [of "fst x" "snd x" "map_from kvs"] by (cases x) (simp add: map_from_snoc)
qed (simp add: map_from_def)

lemma update_new: "k \<notin> fst ` set kvs \<Longrightarrow> AList.update k v kvs = kvs @ [(k, v)]"
  by (induction kvs) auto

lemma map_from_distinct: "distinct (map fst kvs) \<Longrightarrow> map_from kvs = kvs"
proof (induction kvs rule: rev_induct)
  case (snoc x kvs)
  then show ?case by (cases x) (simp add: map_from_snoc update_new)
qed (simp add: map_from_def)

section \<open>The table passes the check of the actor\<close>

definition state_list :: "'c card_type_draft \<Rightarrow> agent_execution option \<Rightarrow> compiled_declaration \<Rightarrow> 'c process_table" where
  "state_list d correction prompt =
     (''lifecycle:ready'', \<lparr>ps_kind = ReadyState, ps_on = ready_on (correction \<noteq> None), ps_terminal = False, ps_parked = True\<rparr>) #
     map (entry_state d) ENTRY_PORTS @
     map (\<lambda>(i, n). (nodeState i, \<lparr>ps_kind = NodeState \<lparr>nc_purpose = ProductNode, nc_id = i, nc_execution = nd_execution n,
         nc_record_prompts = nd_record_prompts n, nc_requirements = nd_requirements n, nc_initialize = nd_initialize n,
         nc_output_record = nd_output_record n, nc_descendant = nd_descendant n, nc_creation_types = nd_creation_types n,
         nc_activation_types = nd_activation_types n, nc_readable = dr_records d\<rparr>,
       ps_on = node_on (correction \<noteq> None) (entry_target d EntryStopped) prompt i n, ps_terminal = False, ps_parked = False\<rparr>))
       (dr_nodes d) @
     (case correction of None \<Rightarrow> [] | Some execution \<Rightarrow> [correction_state d execution]) @
     map terminal_state TERMINAL_PORTS"

lemma mapE_pointwise: "\<forall>x \<in> set xs. f x = Inr (g x) \<Longrightarrow> mapE f xs = Inr (map g xs)"
  by (induction xs) auto

lemma process_states_run:
  assumes "snd (dr_entries d EntryStopped) = Some prompt"
  shows "process_states d correction = Inr (map_from (state_list d correction prompt))"
proof -
  have "dr_entries d EntryStopped = (entry_target d EntryStopped, Some prompt)"
    using assms by (simp add: entry_target_def prod_eq_iff)
  then have "mapE (node_state d (correction \<noteq> None)) (dr_nodes d) = Inr (map (\<lambda>(i, n). (nodeState i, \<lparr>ps_kind = NodeState
      \<lparr>nc_purpose = ProductNode, nc_id = i, nc_execution = nd_execution n,
         nc_record_prompts = nd_record_prompts n, nc_requirements = nd_requirements n, nc_initialize = nd_initialize n,
         nc_output_record = nd_output_record n, nc_descendant = nd_descendant n, nc_creation_types = nd_creation_types n,
         nc_activation_types = nd_activation_types n, nc_readable = dr_records d\<rparr>,
       ps_on = node_on (correction \<noteq> None) (entry_target d EntryStopped) prompt i n, ps_terminal = False, ps_parked = False\<rparr>))
       (dr_nodes d))"
    by (intro mapE_pointwise) (auto simp: node_state_def)
  then show ?thesis by (simp add: process_states_def state_list_def)
qed

definition transition_sound :: "string set \<Rightarrow> string \<Rightarrow> string \<times> process_transition \<Rightarrow> bool" where
  "transition_sound ids i = (\<lambda>(e, t). e \<noteq> [] \<and> targetStateId t \<in> ids \<and> (reenter t \<longrightarrow> targetStateId t = i))"

definition state_sound :: "string set \<Rightarrow> string \<times> 'c process_state \<Rightarrow> bool" where
  "state_sound ids = (\<lambda>(i, s). i \<noteq> [] \<and> (ps_terminal s \<longrightarrow> ps_on s = [] \<and> \<not> ps_parked s) \<and>
     (\<forall>et \<in> set (ps_on s). transition_sound ids i et))"

lemma actor_table_keys: "fst ` set (actor_table_of states) = fst ` set states"
  by (force simp: actor_table_of_def)

lemma mapE_unit: "\<forall>x \<in> set xs. f x = Inr () \<Longrightarrow> \<exists>us. mapE f xs = Inr us"
  by (induction xs) auto

lemma sound_table_valid:
  assumes "''lifecycle:ready'' \<in> fst ` set states" and sound: "\<forall>s \<in> set states. state_sound (fst ` set states) s"
  shows "validateCompiledActorTable ''lifecycle:ready'' (actor_table_of states) = Inr ()"
proof -
  let ?T = "actor_table_of states"
  have look: "map_of ?T i \<noteq> None \<longleftrightarrow> i \<in> fst ` set states" for i
    by (simp add: map_of_eq_None_iff actor_table_keys)
  have one: "validate_state ?T (i, actor_state s) = Inr ()" if "(i, s) \<in> set states" for i s
  proof -
    have s: "state_sound (fst ` set states) (i, s)" using sound that by blast
    have "\<exists>us. mapE (validate_transition ?T i) (on (actor_state s)) = Inr us"
    proof (intro mapE_unit ballI)
      fix et assume "et \<in> set (on (actor_state s))"
      then obtain e t where et: "(e, t) \<in> set (ps_on s)" "et = (e, compiled_transition.truncate t)"
        by (auto simp: actor_state_def)
      have "transition_sound (fst ` set states) i (e, t)" using s et(1) by (auto simp: state_sound_def)
      then show "validate_transition ?T i et = Inr ()"
        using look et(2) by (simp add: validate_transition_def transition_sound_def errE compiled_transition.truncate_def)
    qed
    then show ?thesis using s by (auto simp: validate_state_def errE state_sound_def actor_state_def)
  qed
  have each: "\<forall>x \<in> set ?T. validate_state ?T x = Inr ()" using one by (auto simp: actor_table_of_def)
  have "\<forall>x \<in> set ?T. (\<lambda>(stateName, _). guardE (stateName \<noteq> [])
       (InvalidActorDefinitionError ''State names must be non-empty'' [])) x = Inr ()"
    using sound by (fastforce simp: actor_table_of_def state_sound_def)
  note names = mapE_unit [OF this]
  have "?T \<noteq> []" "map_of ?T ''lifecycle:ready'' \<noteq> None" using assms(1) look by (auto simp: actor_table_of_def)
  with names mapE_unit [OF each] show ?thesis
    by (auto simp: validateCompiledActorTable_def errE)
qed

lemma terminal_ports: "set TERMINAL_PORTS = UNIV"
  unfolding TERMINAL_PORTS_def by (auto intro: terminal_port.exhaust)

lemma state_ids [simp]:
  "fst (entry_state d e) = entryState e" "fst (terminal_state t) = terminalState t"
  "fst (correction_state d c) = nodeState GIT_CORRECTION_NODE_ID"
  by (simp_all add: entry_state_def terminal_state_def correction_state_def split: prod.splits)

lemma state_list_keys:
  "fst ` set (state_list d correction prompt) =
     {''lifecycle:ready''} \<union> range entryState \<union> nodeState ` fst ` set (dr_nodes d) \<union>
     (if correction = None then {} else {nodeState GIT_CORRECTION_NODE_ID}) \<union> range terminalState"
  by (cases correction)
    (simp_all add: state_list_def entry_ports terminal_ports image_Un image_image case_prod_unfold Un_assoc insert_commute)

lemmas state_transitions = correction_entry_def runtime_terminal_def compiledProcessTransition_def

lemma ready_sound:
  assumes "range entryState \<subseteq> ids" and "native \<longrightarrow> nodeState GIT_CORRECTION_NODE_ID \<in> ids" and "et \<in> set (ready_on native)"
  shows "transition_sound ids i et"
  using map_from_mem [OF assms(3) [unfolded ready_on_def]] assms(1,2)
  by (auto simp: transition_sound_def state_transitions split: if_splits)

lemma edge_sound:
  assumes "edge_formed (r, e)" and "edge_ok d n e" and "range terminalState \<subseteq> ids" and "nodeState ` fst ` set (dr_nodes d) \<subseteq> ids"
    and "et \<in> set (edge_transitions i e)"
  shows "transition_sound ids i et"
proof -
  have node: "nodeState t \<in> ids" if "map_of (dr_nodes d) t = Some m" for t m
    using assms(4) map_of_SomeD [OF that] by force
  have "ed_target_state e \<in> ids"
    using assms(1-3) by (auto simp: edge_formed_def edge_ok_def split: option.splits intro: node)
  moreover have "pe_target_state p \<in> ids" if "ed_pending e = Some p" for p
    using assms(1,2) that by (auto simp: edge_formed_def edge_ok_def intro: node)
  ultimately show ?thesis using assms(5)
    by (auto simp: edge_transitions_def transition_sound_def state_transitions split: option.splits)
qed

lemma node_sound:
  assumes "node_formed (i, n)" and "\<forall>(_, e) \<in> set (nd_edges n). edge_ok d n e"
    and "range terminalState \<subseteq> ids" and "nodeState ` fst ` set (dr_nodes d) \<subseteq> ids" and "nodeState recovery \<in> ids"
    and "native \<longrightarrow> nodeState GIT_CORRECTION_NODE_ID \<in> ids" and "et \<in> set (node_on native recovery prompt i n)"
  shows "transition_sound ids (nodeState i) et"
proof -
  have "et \<in> set (edge_transitions (nodeState i) e) \<Longrightarrow> transition_sound ids (nodeState i) et" if "(r, e) \<in> set (nd_edges n)" for r e
    using assms(1,2) that by (intro edge_sound [OF _ _ assms(3,4)]) (auto simp: node_formed_def)
  with map_from_mem [OF assms(7) [unfolded node_on_def]] assms(3,5,6) show ?thesis
    by (auto simp: transition_sound_def state_transitions split: if_splits)
qed

lemma correction_sound:
  assumes "range terminalState \<subseteq> ids" and "\<forall>entry. nodeState (entry_target d entry) \<in> ids"
    and "nodeState GIT_CORRECTION_NODE_ID \<in> ids" and "et \<in> set (correction_on d)"
  shows "transition_sound ids (nodeState GIT_CORRECTION_NODE_ID) et"
  using map_from_mem [OF assms(4) [unfolded correction_on_def]] assms(1-3)
  by (auto simp: transition_sound_def state_transitions entry_target_def)

lemma entry_node:
  assumes "topology_ok d"
  shows "entry_target d entry \<in> fst ` set (dr_nodes d)"
proof -
  have "entry_ok d entry" using assms by (simp add: topology_ok_def)
  then obtain m where "map_of (dr_nodes d) (entry_target d entry) = Some m" by (auto simp: entry_ok_def)
  from map_of_SomeD [OF this] show ?thesis by force
qed

lemma state_list_sound:
  assumes "draft_formed d" and "topology_ok d" and "s \<in> set (state_list d correction prompt)"
  shows "state_sound (fst ` set (state_list d correction prompt)) s"
proof -
  let ?ids = "fst ` set (state_list d correction prompt)"
  have ids: "''lifecycle:ready'' \<in> ?ids" "range entryState \<subseteq> ?ids" "nodeState ` fst ` set (dr_nodes d) \<subseteq> ?ids"
      "correction \<noteq> None \<longrightarrow> nodeState GIT_CORRECTION_NODE_ID \<in> ?ids" "range terminalState \<subseteq> ?ids"
    unfolding state_list_keys by auto
  have entries: "nodeState (entry_target d entry) \<in> ?ids" for entry
    using entry_node [OF assms(2)] ids(3) by blast
  have nodes: "node_formed (i, n)" "\<forall>(_, e) \<in> set (nd_edges n). edge_ok d n e" if "(i, n) \<in> set (dr_nodes d)" for i n
    using assms(1,2) that by (auto simp: draft_formed_def topology_ok_def)
  from assms(3) consider
      (ready) "s = (''lifecycle:ready'', \<lparr>ps_kind = ReadyState, ps_on = ready_on (correction \<noteq> None), ps_terminal = False, ps_parked = True\<rparr>)"
    | (entry) entry where "s = entry_state d entry"
    | (node) i n k where "(i, n) \<in> set (dr_nodes d)" "s = (nodeState i, \<lparr>ps_kind = k,
        ps_on = node_on (correction \<noteq> None) (entry_target d EntryStopped) prompt i n, ps_terminal = False, ps_parked = False\<rparr>)"
    | (correction) execution where "correction = Some execution" "s = correction_state d execution"
    | (terminal) port where "s = terminal_state port"
    unfolding state_list_def by (auto split: option.splits)
  then show ?thesis
  proof cases
    case ready
    then show ?thesis using ready_sound [OF ids(2,4)] by (simp add: state_sound_def)
  next
    case entry
    then show ?thesis using entries [of entry]
      by (auto simp: entry_state_def entry_target_def state_sound_def transition_sound_def entryState_def state_transitions split: prod.splits)
  next
    case node
    then show ?thesis using node_sound [OF nodes [OF node(1)] ids(5,3) entries ids(4)]
      by (simp add: state_sound_def nodeState_def)
  next
    case correction
    then show ?thesis using correction_sound [OF ids(5), of d] entries ids(4)
      by (auto simp: correction_state_def state_sound_def nodeState_def)
  next
    case terminal
    then show ?thesis by (simp add: terminal_state_def state_sound_def terminalState_def)
  qed
qed

lemma compiled_table_valid:
  assumes "draft_formed d" and "topology_ok d"
  shows "validateCompiledActorTable ''lifecycle:ready'' (actor_table_of (map_from (state_list d correction prompt))) = Inr ()"
proof (rule sound_table_valid)
  show "''lifecycle:ready'' \<in> fst ` set (map_from (state_list d correction prompt))"
    unfolding map_from_keys state_list_keys by simp
  show "\<forall>s \<in> set (map_from (state_list d correction prompt)). state_sound (fst ` set (map_from (state_list d correction prompt))) s"
    unfolding map_from_keys using state_list_sound [OF assms] map_from_mem by blast
qed

section \<open>The work of a card\<close>

text \<open>
  The steps a card takes when nothing fails: its activation, the route of its entry, the outcomes
  the workflow configures, and the return from a native correction.
\<close>

definition configured :: "transition_semantic \<Rightarrow> bool" where
  "configured s \<longleftrightarrow> (case s of ConfiguredOutcome _ _ _ _ _ _ \<Rightarrow> True | ConfiguredPending _ _ _ \<Rightarrow> True | _ \<Rightarrow> False)"

definition ordinary :: "transition_semantic \<Rightarrow> bool" where
  "ordinary s \<longleftrightarrow> configured s \<or> (case s of Activation \<Rightarrow> True | EntryRoute _ \<Rightarrow> True | NativeCorrectionReturn _ \<Rightarrow> True | _ \<Rightarrow> False)"

definition moves :: "(transition_semantic \<Rightarrow> bool) \<Rightarrow> 'c process_table \<Rightarrow> (string \<times> string) set" where
  "moves P states = {(a, b). \<exists>s e t. map_of states a = Some s \<and> (e, t) \<in> set (ps_on s) \<and> P (semantic t) \<and> targetStateId t = b}"

lemma nodeState_inject [simp]: "nodeState i = nodeState j \<longleftrightarrow> i = j"
  by (simp add: nodeState_def)

lemma entryState_inject [simp]: "entryState e = entryState e' \<longleftrightarrow> e = e'"
  by (cases e; cases e') (simp_all add: entryState_def)

lemma state_kinds_differ [simp]:
  "entryState e \<noteq> nodeState i" "nodeState i \<noteq> entryState e" "terminalState t \<noteq> nodeState i" "nodeState i \<noteq> terminalState t"
  "entryState e \<noteq> terminalState t" "terminalState t \<noteq> entryState e"
  "nodeState i \<noteq> ''lifecycle:ready''" "entryState e \<noteq> ''lifecycle:ready''" "terminalState t \<noteq> ''lifecycle:ready''"
  "''lifecycle:ready'' \<noteq> nodeState i" "''lifecycle:ready'' \<noteq> entryState e" "''lifecycle:ready'' \<noteq> terminalState t"
  by (simp_all add: nodeState_def entryState_def terminalState_def)

definition no_reserved_node :: "'c card_type_draft \<Rightarrow> agent_execution option \<Rightarrow> bool" where
  "no_reserved_node d correction \<longleftrightarrow> (correction \<noteq> None \<longrightarrow> GIT_CORRECTION_NODE_ID \<notin> fst ` set (dr_nodes d))"

lemma state_list_distinct:
  assumes "draft_formed d" and "no_reserved_node d correction"
  shows "distinct (map fst (state_list d correction prompt))"
proof -
  have "distinct (map fst (map terminal_state TERMINAL_PORTS))" "distinct (map fst (map (entry_state d) ENTRY_PORTS))"
    by (simp_all add: TERMINAL_PORTS_def ENTRY_PORTS_def terminalState_def)
  moreover have "distinct (map (\<lambda>x. nodeState (fst x)) (dr_nodes d))"
    using assms(1) by (auto simp: draft_formed_def distinct_map inj_on_def)
  ultimately show ?thesis using assms(2)
    by (cases correction) (auto simp: state_list_def no_reserved_node_def case_prod_unfold comp_def rev_image_eqI)
qed

lemma edge_keys_distinct:
  assumes "edges_formed edges"
  shows "distinct (concat (map (\<lambda>(_, e). map fst (edge_transitions i e)) edges))"
  using assms
proof (induction edges)
  case (Cons re edges)
  obtain r e where re: "re = (r, e)" by (cases re)
  have keys: "set (map fst (edge_transitions i e)) \<subseteq> {''result:'' @ r, ''result:'' @ r @ '':pending-notifications''}"
    if "edge_formed (r, e)" for r e using that by (auto simp: edge_transitions_def edge_formed_def split: option.splits)
  have formed: "edge_formed (r, e)" "edges_formed edges" "r \<notin> fst ` set edges" using Cons.prems re by (auto simp: edges_formed_def)
  have "set (map fst (edge_transitions i e)) \<inter> set (map fst (edge_transitions i (snd re'))) = {}" if "re' \<in> set edges" for re'
  proof -
    obtain r' e' where re': "re' = (r', e')" by (cases re')
    note that = that [unfolded re']
    have f': "edge_formed (r', e')" using that formed(2) by (auto simp: edges_formed_def)
    have "r \<noteq> r'" using that formed(3) by force
    moreover have "r \<noteq> r' @ '':pending-notifications''" "r' \<noteq> r @ '':pending-notifications''"
      using pending_route_id formed(1) f' by blast+
    ultimately have "{''result:'' @ r, ''result:'' @ r @ '':pending-notifications''} \<inter>
        {''result:'' @ r', ''result:'' @ r' @ '':pending-notifications''} = {}" by auto
    then show ?thesis using keys [OF formed(1)] keys [OF f'] unfolding re' snd_conv by (meson disjoint_iff subsetD)
  qed
  moreover have "distinct (map fst (edge_transitions i e))" by (simp add: edge_transitions_def split: option.splits)
  moreover have "set (concat (map (\<lambda>(_, e). map fst (edge_transitions i e)) edges)) =
      (\<Union>re \<in> set edges. set (map fst (edge_transitions i (snd re))))" by (auto simp: case_prod_unfold)
  ultimately have "set (map fst (edge_transitions i e)) \<inter> set (concat (map (\<lambda>(_, e). map fst (edge_transitions i e)) edges)) = {}"
      and "distinct (map fst (edge_transitions i e))" by (blast, blast)
  with Cons.IH [OF formed(2)] re show ?case by simp
qed simp

lemma edge_keys: "k \<in> set (concat (map (\<lambda>(_, e). map fst (edge_transitions i e)) edges)) \<Longrightarrow> \<exists>r. k = ''result:'' @ r"
  by (auto simp: edge_transitions_def split: option.splits)

lemma node_on_edges:
  assumes "node_formed (i, n)" and "(r, e) \<in> set (nd_edges n)" and "et \<in> set (edge_transitions (nodeState i) e)"
  shows "et \<in> set (node_on native recovery prompt i n)"
proof -
  let ?es = "concat (map (\<lambda>(_, e). edge_transitions (nodeState i) e) (nd_edges n))"
  have es: "map fst ?es = concat (map (\<lambda>(_, e). map fst (edge_transitions (nodeState i) e)) (nd_edges n))"
    by (induction "nd_edges n") (simp_all add: map_concat comp_def case_prod_unfold)
  have "distinct (map fst ?es)" unfolding es
    using assms(1) by (intro edge_keys_distinct) (simp add: node_formed_def edges_formed_def)
  moreover have "''native:correction'' \<notin> set (map fst ?es)" "''notification:interrupt'' \<notin> set (map fst ?es)"
      "''execution:failed'' \<notin> set (map fst ?es)" "''execution:blocked'' \<notin> set (map fst ?es)"
    unfolding es using edge_keys by fastforce+
  ultimately have "distinct (map fst ((if native then [correction_entry False] else []) @
      [(''notification:interrupt'', compiledProcessTransition (nodeState recovery) (NotificationInterrupt prompt) (recovery = i))] @
      ?es @ [runtime_terminal CauseFailed, runtime_terminal CauseBlocked]))"
    by (auto simp: correction_entry_def runtime_terminal_def)
  from map_from_distinct [OF this] assms(2,3) show ?thesis by (auto simp: node_on_def)
qed

text \<open>The table of a formed draft whose topology was checked and which keeps clear of the reserved node.\<close>

definition compiled_table :: "'c card_type_draft \<Rightarrow> agent_execution option \<Rightarrow> compiled_declaration \<Rightarrow> 'c process_table \<Rightarrow> bool" where
  "compiled_table d correction prompt states \<longleftrightarrow> draft_formed d \<and> topology_ok d \<and> no_reserved_node d correction \<and>
     states = map_from (state_list d correction prompt)"

lemma table_formed: "compiled_table d correction prompt states \<Longrightarrow> draft_formed d"
  and table_topology: "compiled_table d correction prompt states \<Longrightarrow> topology_ok d"
  and table_unreserved: "compiled_table d correction prompt states \<Longrightarrow> no_reserved_node d correction"
  and table_states: "compiled_table d correction prompt states \<Longrightarrow> states = map_from (state_list d correction prompt)"
  by (simp_all add: compiled_table_def)


lemma states_list:
  assumes ct: "compiled_table d correction prompt states"
  shows "states = state_list d correction prompt"
  unfolding table_states [OF ct] by (rule map_from_distinct [OF state_list_distinct [OF table_formed [OF ct] table_unreserved [OF ct]]])

lemma state_lookup:
  assumes "(i, s) \<in> set (state_list d correction prompt)" and ct: "compiled_table d correction prompt states"
  shows "map_of states i = Some s"
  unfolding states_list [OF ct] using state_list_distinct [OF table_formed [OF ct] table_unreserved [OF ct]] assms(1) by simp

lemma node_lookup:
  assumes "(i, n) \<in> set (dr_nodes d)"
    and ct: "compiled_table d correction prompt states"
  shows "\<exists>s. map_of states (nodeState i) = Some s \<and> ps_on s = node_on (correction \<noteq> None) (entry_target d EntryStopped) prompt i n"
  using assms(1) state_lookup [OF _ ct, of "nodeState i"] by (fastforce simp: state_list_def)

lemma node_move:
  assumes "(i, n) \<in> set (dr_nodes d)" and "(r, e) \<in> set (nd_edges n)" and "(k, t) \<in> set (edge_transitions (nodeState i) e)"
    and "P (semantic t)"
    and ct: "compiled_table d correction prompt states"
  shows "(nodeState i, targetStateId t) \<in> moves P states"
proof -
  obtain s where s: "map_of states (nodeState i) = Some s"
      "ps_on s = node_on (correction \<noteq> None) (entry_target d EntryStopped) prompt i n" using node_lookup [OF assms(1) ct] by blast
  have "node_formed (i, n)" using table_formed [OF ct] assms(1) by (auto simp: draft_formed_def)
  from node_on_edges [OF this assms(2,3)] have "(k, t) \<in> set (ps_on s)" unfolding s(2) .
  with s(1) assms(4) show ?thesis unfolding moves_def by blast
qed

lemma arc_moves:
  assumes "(i, j) \<in> arcs (dr_nodes d)"
    and ct: "compiled_table d correction prompt states"
  shows "(nodeState i, nodeState j) \<in> moves configured states"
proof -
  obtain n r e where n: "(i, n) \<in> set (dr_nodes d)" and e: "(r, e) \<in> set (nd_edges n)" "j \<in> set (edge_successors e)"
    using assms(1) by (auto simp: arcs_def successors_def dest: map_of_SomeD)
  have f: "edge_formed (r, e)" using table_formed [OF ct] n e(1) by (auto simp: draft_formed_def node_formed_def)
  from e(2) consider "ed_target_node e = Some j" | p where "ed_pending e = Some p" "pe_target_node p = j"
    by (cases "ed_target_node e"; cases "ed_pending e") (auto simp: edge_successors_def)
  then obtain k t where "(k, t) \<in> set (edge_transitions (nodeState i) e)" "targetStateId t = nodeState j" "configured (semantic t)"
    using f by cases (fastforce simp: edge_transitions_def edge_formed_def state_transitions configured_def)+
  then show ?thesis using node_move [OF n e(1) _ _ ct] by metis
qed

lemma path_moves:
  assumes "(i, j) \<in> (arcs (dr_nodes d))\<^sup>*" and ct: "compiled_table d correction prompt states"
  shows "(nodeState i, nodeState j) \<in> (moves configured states)\<^sup>*"
  using assms(1) by (induction rule: rtrancl_induct) (auto intro: rtrancl_into_rtrancl arc_moves [OF _ ct])

lemma terminal_move:
  assumes "(i, n) \<in> set (dr_nodes d)" and "has_terminal_edge n"
    and ct: "compiled_table d correction prompt states"
  shows "\<exists>port. (nodeState i, terminalState port) \<in> moves configured states"
proof -
  obtain r e where e: "(r, e) \<in> set (nd_edges n)" "ed_terminal e \<noteq> None" using assms(2) by (auto simp: has_terminal_edge_def list_ex_iff)
  have "edge_formed (r, e)" using table_formed [OF ct] assms(1) e(1) by (auto simp: draft_formed_def node_formed_def)
  then obtain port where "ed_target_state e = terminalState port" using e(2) by (auto simp: edge_formed_def split: option.splits)
  moreover have "\<exists>k t. (k, t) \<in> set (edge_transitions (nodeState i) e) \<and> targetStateId t = ed_target_state e \<and> configured (semantic t)"
    unfolding edge_transitions_def by (intro exI conjI, rule list.set_intros(1)) (simp_all add: state_transitions configured_def)
  ultimately show ?thesis using node_move [OF assms(1) e(1) _ _ ct] by metis
qed

text \<open>Configured outcomes alone lead from every node to a terminal.\<close>

lemma node_terminates:
  assumes "i \<in> fst ` set (dr_nodes d)"
    and ct: "compiled_table d correction prompt states"
  shows "\<exists>port. (nodeState i, terminalState port) \<in> (moves configured states)\<^sup>*"
proof -
  obtain j m where path: "(i, j) \<in> (arcs (dr_nodes d))\<^sup>*" and m: "map_of (dr_nodes d) j = Some m" "has_terminal_edge m"
    using table_topology [OF ct] assms(1) unfolding topology_ok_def by fastforce
  from terminal_move [OF map_of_SomeD [OF m(1)] m(2) ct] path_moves [OF path ct] show ?thesis
    by (meson rtrancl_into_rtrancl)
qed

lemma configured_ordinary: "moves configured states \<subseteq> moves ordinary states"
  unfolding moves_def ordinary_def by blast

lemma entry_moves:
  assumes ct: "compiled_table d correction prompt states"
  shows "(''lifecycle:ready'', entryState entry) \<in> moves ordinary states"
    and "(entryState entry, nodeState (entry_target d entry)) \<in> moves ordinary states"
proof -
  have "map_of states ''lifecycle:ready'' = Some \<lparr>ps_kind = ReadyState, ps_on = ready_on (correction \<noteq> None), ps_terminal = False, ps_parked = True\<rparr>"
    by (rule state_lookup [OF _ ct]) (simp add: state_list_def)
  moreover have "distinct (map fst ((if native then [correction_entry False] else []) @
     map (\<lambda>entry. (''activate:'' @ entry_name entry, compiledProcessTransition (entryState entry) Activation False)) ENTRY_PORTS))" for native
    by (simp add: correction_entry_def ENTRY_PORTS_def)
  then have "(''activate:'' @ entry_name entry, compiledProcessTransition (entryState entry) Activation False) \<in> set (ready_on native)" for native
    unfolding ready_on_def by (subst map_from_distinct) (auto simp: entry_ports)
  ultimately show "(''lifecycle:ready'', entryState entry) \<in> moves ordinary states"
    by (force simp: moves_def ordinary_def configured_def state_transitions)
  have "map_of states (entryState entry) = Some (snd (entry_state d entry))"
    by (rule state_lookup [OF _ ct]) (simp add: state_list_def entry_ports image_iff prod_eq_iff exI [of _ entry])
  then show "(entryState entry, nodeState (entry_target d entry)) \<in> moves ordinary states"
    by (auto simp: moves_def ordinary_def configured_def state_transitions entry_state_def entry_target_def split: prod.splits)
qed


text \<open>An activation can reach every node the workflow declares.\<close>

lemma node_reached:
  assumes "i \<in> fst ` set (dr_nodes d)"
    and ct: "compiled_table d correction prompt states"
  shows "(''lifecycle:ready'', nodeState i) \<in> (moves ordinary states)\<^sup>*"
proof -
  obtain entry where "(entry_target d entry, i) \<in> (arcs (dr_nodes d))\<^sup>*"
    using table_topology [OF ct] assms(1) unfolding topology_ok_def by fastforce
  from path_moves [OF this ct] rtrancl_mono [OF configured_ordinary]
  have "(nodeState (entry_target d entry), nodeState i) \<in> (moves ordinary states)\<^sup>*" by blast
  with entry_moves [OF ct, of entry] show ?thesis by (meson converse_rtrancl_into_rtrancl)
qed

lemma correction_move:
  assumes "correction \<noteq> None"
    and ct: "compiled_table d correction prompt states"
  shows "(nodeState GIT_CORRECTION_NODE_ID, nodeState (entry_target d entry)) \<in> moves ordinary states"
proof -
  obtain execution where "correction = Some execution" using assms(1) by blast
  then have "map_of states (nodeState GIT_CORRECTION_NODE_ID) = Some (snd (correction_state d execution))"
    by (intro state_lookup [OF _ ct]) (simp add: state_list_def prod_eq_iff)
  moreover have "distinct (map fst (correction_entry True #
     map (\<lambda>entry. (''native:verified:'' @ entry_name entry,
       compiledProcessTransition (nodeState (fst (dr_entries d entry))) (NativeCorrectionReturn entry) False)) ENTRY_PORTS @
     concat (map (\<lambda>cause.
       [(''result:'' @ cause_name cause, compiledProcessTransition (terminalState (cause_port cause))
           (NativeCorrectionOutcome cause) False),
        runtime_terminal cause]) [CauseBlocked, CauseFailed])))"
    by (simp add: correction_entry_def runtime_terminal_def ENTRY_PORTS_def)
  then have "(''native:verified:'' @ entry_name entry,
       compiledProcessTransition (nodeState (fst (dr_entries d entry))) (NativeCorrectionReturn entry) False) \<in> set (correction_on d)"
    unfolding correction_on_def by (subst map_from_distinct) (auto simp: entry_ports)
  ultimately show ?thesis
    by (force simp: moves_def ordinary_def state_transitions correction_state_def entry_target_def)
qed

text \<open>No state is a dead end: without a failure, a terminal can be reached from each of them.\<close>

lemma state_terminates:
  assumes "a \<in> fst ` set states"
    and ct: "compiled_table d correction prompt states"
  shows "\<exists>port. (a, terminalState port) \<in> (moves ordinary states)\<^sup>*"
proof -
  have node: "\<exists>port. (nodeState i, terminalState port) \<in> (moves ordinary states)\<^sup>*" if "i \<in> fst ` set (dr_nodes d)" for i
    using node_terminates [OF that ct] rtrancl_mono [OF configured_ordinary] by blast
  have target: "\<exists>port. (nodeState (entry_target d entry), terminalState port) \<in> (moves ordinary states)\<^sup>*" for entry
    by (rule node [OF entry_node [OF table_topology [OF ct]]])
  have entry: "\<exists>port. (entryState e, terminalState port) \<in> (moves ordinary states)\<^sup>*" for e
    using target [of e] entry_moves(2) [OF ct] by (meson converse_rtrancl_into_rtrancl)
  from assms(1) consider "a = ''lifecycle:ready''" | e where "a = entryState e" | i where "a = nodeState i" "i \<in> fst ` set (dr_nodes d)"
    | "a = nodeState GIT_CORRECTION_NODE_ID" "correction \<noteq> None" | port where "a = terminalState port"
    unfolding states_list [OF ct] state_list_keys by (auto split: if_splits)
  then show ?thesis
  proof cases
    case 1
    then show ?thesis using entry entry_moves(1) [OF ct] by (meson converse_rtrancl_into_rtrancl)
  next
    case 4
    then show ?thesis using target [of EntryBacklog] correction_move [OF _ ct, of EntryBacklog] by (meson converse_rtrancl_into_rtrancl)
  qed (use entry node in blast)+
qed

lemma product_state:
  assumes "(i, s) \<in> set states" and "ps_kind s = NodeState n" and "nc_purpose n = ProductNode"
    and ct: "compiled_table d correction prompt states"
  shows "\<exists>j m. (j, m) \<in> set (dr_nodes d) \<and> i = nodeState j"
  using assms(1-3) unfolding states_list [OF ct] state_list_def
  by (auto simp: entry_state_def terminal_state_def correction_state_def split: option.splits prod.splits)

lemma product_terminates:
  assumes "i \<in> fst ` set (dr_nodes d)" and ct: "compiled_table d correction prompt states"
  shows "\<exists>port. (nodeState i, terminalState port) \<in> (moves configured states)\<^sup>+"
  using node_terminates [OF assms] rtranclD by fastforce

section \<open>Descendant context\<close>

definition type_arcs :: "'c drafts \<Rightarrow> (string \<times> string) set" where
  "type_arcs drafts = graph_arcs dr_permitted drafts"

text \<open>
  A draft map is closed when every permitted child type has a draft, and the records a node
  takes from descendants are declared by every type that may occur below.
\<close>

definition context_ok :: "'c drafts \<Rightarrow> bool" where
  "context_ok drafts \<longleftrightarrow>
     (\<forall>t u. (t, u) \<in> type_arcs drafts \<longrightarrow> u \<in> dom (map_of drafts)) \<and>
     (\<forall>t d i n records unchanged r u e. (t, d) \<in> set drafts \<and> (i, n) \<in> set (dr_nodes d) \<and>
        nd_descendant n = Some (records, unchanged) \<and> r \<in> set records \<and> (t, u) \<in> (type_arcs drafts)\<^sup>+ \<and> map_of drafts u = Some e \<longrightarrow>
        r_name r \<in> dom (map_of (dr_records e)))"

lemma check_descendants_iff:
  assumes "\<forall>u \<in> set reachable. map_of drafts u \<noteq> None"
  shows "check_descendants drafts reachable (i, n) = Inr () \<longleftrightarrow>
    (\<forall>records unchanged r u e. nd_descendant n = Some (records, unchanged) \<and> r \<in> set records \<and> u \<in> set reachable \<and>
       map_of drafts u = Some e \<longrightarrow> r_name r \<in> dom (map_of (dr_records e)))"
proof -
  have one: "bindE (get_draft drafts u) (\<lambda>descendant. guardE (map_of (dr_records descendant) (r_name r) \<noteq> None) err) = Inr () \<longleftrightarrow>
      (\<forall>e. map_of drafts u = Some e \<longrightarrow> r_name r \<in> dom (map_of (dr_records e)))" if "u \<in> set reachable" for u r and err :: error
    using assms that by (auto simp: get_draft_def errE)
  show ?thesis
  proof (cases "nd_descendant n")
    case None
    then show ?thesis by (simp add: check_descendants_def checkE_iff)
  next
    case (Some p)
    obtain records unchanged where p: "p = (records, unchanged)" by (cases p)
    have "check_descendants drafts reachable (i, n) = Inr () \<longleftrightarrow>
        (\<forall>r \<in> set records. \<forall>u \<in> set reachable. \<forall>e. map_of drafts u = Some e \<longrightarrow> r_name r \<in> dom (map_of (dr_records e)))"
      unfolding check_descendants_def prod.case Some p option.case checkE_iff using one by blast
    then show ?thesis unfolding Some p option.inject prod.inject by blast
  qed
qed

lemma visited_types:
  assumes "visit_types drafts (dr_permitted d) [] = Inr reachable" and "map_of drafts t = Some d"
  shows "set reachable = (type_arcs drafts)\<^sup>+ `` {t}" and "\<forall>u \<in> set reachable. map_of drafts u \<noteq> None"
  using visit_graph_exact [OF assms(1) [unfolded visit_types_def]] visit_graph_found [OF assms(1) [unfolded visit_types_def]]
    graph_arcs_start [OF assms(2)] by (auto simp: type_arcs_def)

lemma context_exact:
  assumes "distinct (map fst drafts)"
  shows "validateDescendantContextClosure drafts = Inr () \<longleftrightarrow> context_ok drafts"
proof -
  have look: "map_of drafts t = Some d \<longleftrightarrow> (t, d) \<in> set drafts" for t d using assms by (rule map_of_eq_Some_iff)
  have steps: "validateDescendantContextClosure drafts = Inr () \<longleftrightarrow> (\<forall>t d. (t, d) \<in> set drafts \<longrightarrow>
      (\<exists>reachable. visit_types drafts (dr_permitted d) [] = Inr reachable \<and>
        (\<forall>x \<in> set (dr_nodes d). check_descendants drafts reachable x = Inr ())))"
  proof -
    have "bindE (get_draft drafts t) (\<lambda>current. bindE (visit_types drafts (dr_permitted current) []) (\<lambda>reachable.
        checkE (check_descendants drafts reachable) (dr_nodes d))) = Inr () \<longleftrightarrow>
      (\<exists>reachable. visit_types drafts (dr_permitted d) [] = Inr reachable \<and>
        (\<forall>x \<in> set (dr_nodes d). check_descendants drafts reachable x = Inr ()))" if "(t, d) \<in> set drafts" for t d
      using look [THEN iffD2, OF that] by (simp add: get_draft_def errE)
    then show ?thesis unfolding validateDescendantContextClosure_def checkE_iff by (auto simp: case_prod_unfold)
  qed
  show ?thesis
  proof
    assume valid: "validateDescendantContextClosure drafts = Inr ()"
    have closed: "u \<in> dom (map_of drafts)" if arc: "(t, u) \<in> type_arcs drafts" for t u
    proof -
      obtain d where d: "map_of drafts t = Some d" using arc by (auto simp: type_arcs_def graph_arcs_def)
      then obtain reachable where r: "visit_types drafts (dr_permitted d) [] = Inr reachable" using valid steps look by blast
      show ?thesis using visited_types [OF r d] arc by blast
    qed
    moreover have "r_name r \<in> dom (map_of (dr_records e))"
      if "(t, d) \<in> set drafts" "(i, n) \<in> set (dr_nodes d)" "nd_descendant n = Some (records, unchanged)" "r \<in> set records"
        "(t, u) \<in> (type_arcs drafts)\<^sup>+" "map_of drafts u = Some e" for t d i n records unchanged r u e
    proof -
      note given = that
      obtain reachable where r: "visit_types drafts (dr_permitted d) [] = Inr reachable"
        and ok: "check_descendants drafts reachable (i, n) = Inr ()" using valid steps given(1,2) by blast
      have m: "map_of drafts t = Some d" using look given(1) by blast
      have "u \<in> set reachable" using visited_types(1) [OF r m] given(5) by blast
      then show ?thesis using ok [unfolded check_descendants_iff [OF visited_types(2) [OF r m]]] given by blast
    qed
    ultimately show "context_ok drafts" unfolding context_ok_def by blast
  next
    assume ok: "context_ok drafts"
    have closed: "graph_closed dr_permitted drafts"
      using ok unfolding context_ok_def graph_closed_def type_arcs_def by blast
    have "\<exists>reachable. visit_types drafts (dr_permitted d) [] = Inr reachable \<and>
        (\<forall>x \<in> set (dr_nodes d). check_descendants drafts reachable x = Inr ())" if d: "(t, d) \<in> set drafts" for t d
    proof -
      have m: "map_of drafts t = Some d" using d look by blast
      have "\<forall>i \<in> set (dr_permitted d). map_of drafts i \<noteq> None"
        using closed m by (auto simp: graph_closed_def graph_arcs_def)
      then obtain reachable where r: "visit_types drafts (dr_permitted d) [] = Inr reachable"
        using visit_graph_total [OF closed] unfolding visit_types_def by blast
      have "check_descendants drafts reachable (i, n) = Inr ()" if "(i, n) \<in> set (dr_nodes d)" for i n
        unfolding check_descendants_iff [OF visited_types(2) [OF r m]] visited_types(1) [OF r m]
        using ok d that unfolding context_ok_def by blast
      with r show ?thesis by auto
    qed
    then show "validateDescendantContextClosure drafts = Inr ()" unfolding steps by blast
  qed
qed

end
