(* ===== verification/WorkflowProject.thy ===== *)
theory WorkflowProject
  imports WorkflowLaws
begin

text \<open>
  Compilation of a project's workflows (\<open>src/runtime/card-process/card-process-config.ts\<close>,
  \<open>compileGitWorkflowPolicy\<close> and \<open>compileProjectWorkflowDeclarations\<close>): the Git policy, the model
  lists, the agents, the analyst and the oversight agent, and the table of every card type.

  \<open>schema\<close> is the parsed configuration schema of each builtin operation, code of that
  operation. Of the configuration only what the compilation reads is kept; the flag of an
  MCP server is its \<open>disabled\<close> field.
\<close>

section \<open>Builtin operations\<close>

definition shellRunOperation :: "('c \<Rightarrow> error + 'c) \<Rightarrow> 'c operation_definition" where
  "shellRunOperation schema = \<lparr>op_id = ''shell.run'', provider = \<lparr>provider_kind = Builtin, provider_name = ''shell''\<rparr>,
     contractVersion = 1, bindings = [NodeBinding, AfterActivationCommit], config = schema,
     op_inputs = [(''args'', StringsField True)],
     outcomes = [(''passed'', [(''exit_code'', IntegerField (Some 0) (Some 0) True)]),
       (''failed'', [(''exit_code'', IntegerField (Some 1) None True)]),
       (''signalled'', [(''signal'', StringField None True)]),
       (''timed_out'', [(''reason'', StringField None True)])],
     retainFields = [''exit_code'', ''signal'', ''reason''], op_output = Some OperationContract.CommandStdout\<rparr>"

datatype quality_language = Javascript | Typescript | Python

fun language_key :: "quality_language \<Rightarrow> string" where
  "language_key Javascript = ''javascript.eslint''"
| "language_key Typescript = ''typescript.eslint''"
| "language_key Python = ''python.ruff''"

definition quality_facts :: op_fields where
  "quality_facts = [(''finding_count'', IntegerField (Some 0) None True), (''error_count'', IntegerField (Some 0) None True),
     (''warning_count'', IntegerField (Some 0) None True), (''analyzed_files'', IntegerField (Some 0) None True),
     (''coverage_complete'', BooleanField True)]"

definition quality_operation :: "(quality_language \<Rightarrow> 'c \<Rightarrow> error + 'c) \<Rightarrow> quality_language \<Rightarrow> 'c operation_definition" where
  "quality_operation schema language = \<lparr>op_id = ''code-quality.'' @ language_key language,
     provider = \<lparr>provider_kind = Plugin, provider_name = ''code-quality''\<rparr>, contractVersion = 1, bindings = [NodeBinding],
     config = schema language, op_inputs = [],
     outcomes = map (\<lambda>outcome. (outcome, quality_facts)) [''clean'', ''findings'', ''analysis_failed'', ''timed_out'', ''signalled''],
     retainFields = map fst quality_facts, op_output = Some OperationContract.ReturnedText\<rparr>"

definition qualityOperationPlugin :: "(quality_language \<Rightarrow> 'c \<Rightarrow> error + 'c) \<Rightarrow> 'c operation_plugin" where
  "qualityOperationPlugin schema = \<lparr>plugin_namespace = ''code-quality'',
     plugin_operations = map (\<lambda>l. (language_key l, quality_operation schema l)) [Javascript, Typescript, Python]\<rparr>"

section \<open>The Git policy\<close>

record git_policy =
  gp_delivery_branch :: string
  gp_ref_namespace :: string
  gp_source_roots :: "string list"
  gp_excluded :: "string list"
  gp_agent :: string
  gp_prompt :: prompt_declaration
  gp_correction_prompt :: prompt_declaration
  gp_reviews :: "(string \<times> (string \<times> string) option) list"

datatype git_input = GitDisabled | GitEnabled git_policy

definition gitSourcePathSchema :: "string \<Rightarrow> bool" where
  "gitSourcePathSchema s \<longleftrightarrow> s \<noteq> [] \<and> (s = ''.'' \<or>
     list_all (\<lambda>c. 32 \<le> code c \<and> code c \<noteq> 127 \<and>
       c \<notin> set [CHR 0x5C, CHR '':'', CHR ''*'', CHR ''?'', CHR ''['', CHR '']'']) s \<and>
     list_all (\<lambda>part. part \<noteq> [] \<and> part \<noteq> ''.'' \<and> part \<noteq> ''..'') (split_on CHR ''/'' s))"

definition gitSourcePathsSchema :: "string list \<Rightarrow> bool" where
  "gitSourcePathsSchema ps \<longleftrightarrow> ps \<noteq> [] \<and> list_all gitSourcePathSchema ps \<and> distinct ps"

definition staticPromptDeclarationSchema :: "prompt_declaration \<Rightarrow> bool" where
  "staticPromptDeclarationSchema p \<longleftrightarrow> IDENTIFIER (pd_reference p) \<and> pd_compaction_key p = None"

definition durablePromptDeclarationSchema :: "prompt_declaration \<Rightarrow> bool" where
  "durablePromptDeclarationSchema p \<longleftrightarrow> IDENTIFIER (pd_reference p) \<and>
     (case pd_compaction_key p of None \<Rightarrow> True | Some k \<Rightarrow> k \<noteq> [] \<and> \<not> pd_compactable p)"

definition gitWorkflowSchema :: "git_input \<Rightarrow> bool" where
  "gitWorkflowSchema input = (case input of
     GitDisabled \<Rightarrow> True
   | GitEnabled p \<Rightarrow>
       gitRefNameSchema (gp_delivery_branch p) \<and> \<not> starts_with ''refs/'' (gp_delivery_branch p) \<and>
       \<not> starts_with ''-'' (gp_delivery_branch p) \<and> gp_delivery_branch p \<noteq> ''HEAD'' \<and>
       gitRefNameSchema (gp_ref_namespace p) \<and> starts_with ''refs/saivage/'' (gp_ref_namespace p) \<and>
       gitSourcePathsSchema (gp_source_roots p) \<and> gitSourcePathsSchema (gp_excluded p) \<and>
       agentNameSchema (gp_agent p) \<and> staticPromptDeclarationSchema (gp_prompt p) \<and>
       durablePromptDeclarationSchema (gp_correction_prompt p) \<and>
       list_all (\<lambda>(t, b). cardTypeNameSchema t \<and> (case b of None \<Rightarrow> True
         | Some (node, outcome) \<Rightarrow> IDENTIFIER node \<and> OUTCOME_IDENTIFIER outcome)) (gp_reviews p))"

record 'c project_config =
  pc_agents :: agents_config
  pc_card_types :: "(string \<times> 'c card_type_source) list"
  pc_mcp_disabled :: "bool list"
  pc_git :: "git_input option"

definition edge_routes :: "edge_source \<Rightarrow> route_source list" where
  "edge_routes e = (case e of PlainEdge r \<Rightarrow> [r] | CasesEdge cases otherwise \<Rightarrow> map (\<lambda>(_, _, r). r) cases @ [otherwise])"

definition route_reserved :: "route_source \<Rightarrow> bool" where
  "route_reserved r \<longleftrightarrow>
     (case rs_target r of
        ToNode n \<Rightarrow> n = GIT_CORRECTION_NODE_ID
      | ToTerminal _ (PromoteLatest n) _ \<Rightarrow> n = GIT_CORRECTION_NODE_ID
      | ToTerminal _ PromoteCurrent _ \<Rightarrow> False) \<or>
     (case rs_pending r of Some (n, _) \<Rightarrow> n = GIT_CORRECTION_NODE_ID | None \<Rightarrow> False)"

definition check_correction_agent :: "agent_contract option \<Rightarrow> error + agent_contract" where
  "check_correction_agent agent =
     bindE (optionE (PlainError ''git_workflow.correction.agent must be a declared card Executor without child authority.'' [])
       (case agent of None \<Rightarrow> None
        | Some a \<Rightarrow> if a_session a \<noteq> CardScope \<or> has_tool a ''activate_card'' \<or> has_tool a ''create_card'' then None else Some a)) (\<lambda>a.
     bindE (guardE (has_tool a ''run_command'' \<and> has_tool a ''write'' \<and> agentCanWriteRecord a ''git-correction.md'')
       (PlainError ''git_workflow.correction.agent requires run_command, write and git-correction.md permission.'' [])) (\<lambda>_.
     Inr a))"

definition check_global_participant :: "(string \<times> agent_contract) list \<Rightarrow> string \<Rightarrow> error + unit" where
  "check_global_participant agents name =
     bindE (optionE (PlainError ''Git workflow global participant must be a declared global agent.'' [name])
       (case map_of agents name of None \<Rightarrow> None
        | Some a \<Rightarrow> if a_session a = GlobalScope then Some a else None)) (\<lambda>a.
     bindE (assertNativeGitGlobalEligibility (a_tools a)) (\<lambda>_.
     guardE (a_quality a = []) (PlainError ''Git workflow global participant selects an unsupported source writer.'' [name])))"

definition excludes :: "string \<Rightarrow> string \<Rightarrow> bool" where
  "excludes root excluded \<longleftrightarrow> excluded = ''.'' \<or> root = excluded \<or> starts_with (excluded @ ''/'') root"

definition check_review :: "(string \<times> agent_contract) list \<Rightarrow> agent_contract \<Rightarrow> string \<Rightarrow> 'c card_type_source \<Rightarrow>
    string \<times> string \<Rightarrow> error + unit" where
  "check_review agents correction cardType source = (\<lambda>(reviewNode, approved).
     bindE (case get_prop reviewNode (ct_nodes source) of
         Missing \<Rightarrow> Inl (PlainError ''has an invalid review node/approved outcome binding.'' [cardType])
       | Inherited \<Rightarrow> Inl (PlainError ''TypeError'' [])
       | Own node \<Rightarrow>
           (case (ns_execution node, ns_descendant node, get_prop approved (ns_edges node)) of
              (SelectAgent s, Some (_, True), Own (PlainEdge route)) \<Rightarrow>
                if reviewNode = GIT_CORRECTION_NODE_ID
                then Inl (PlainError ''has an invalid review node/approved outcome binding.'' [cardType])
                else Inr (s, route)
            | (SelectAgent s, Some (_, True), Inherited) \<Rightarrow> Inl (PlainError ''TypeError'' [])
            | _ \<Rightarrow> Inl (PlainError ''has an invalid review node/approved outcome binding.'' [cardType]))) (\<lambda>(s, route).
     bindE (guardE (case rs_target route of
           ToTerminal port _ _ \<Rightarrow> port = PortDone
         | ToNode n \<Rightarrow> cardType = ''project'' \<and> n = ''assess-completion'')
       (PlainError ''approved review must route to DONE or root completion assessment.'' [cardType])) (\<lambda>_.
     guardE (case map_of agents (sel_agent s) of None \<Rightarrow> False
         | Some reviewer \<Rightarrow> a_session reviewer = CardScope \<and> a_name reviewer \<noteq> a_name correction \<and>
             \<not> has_tool reviewer ''checkpoint_source'')
       (PlainError ''must select an independent card Reviewer without checkpoint authority.'' [cardType]))))"

definition check_git_type :: "(string \<times> agent_contract) list \<Rightarrow> agent_contract \<Rightarrow> git_policy \<Rightarrow>
    string \<times> 'c card_type_source \<Rightarrow> error + unit" where
  "check_git_type agents correction policy = (\<lambda>(cardType, source).
     bindE (guardE (ct_after_commit source = None)
       (PlainError ''cannot select after_activation_commit hooks.'' [cardType])) (\<lambda>_.
     bindE (guardE (\<not> hasOwn (ct_nodes source) GIT_CORRECTION_NODE_ID)
       (PlainError ''authors the reserved correction node.'' [cardType])) (\<lambda>_.
     bindE (checkE (\<lambda>entry. guardE (fst (ct_entries source entry) \<noteq> GIT_CORRECTION_NODE_ID)
       (PlainError ''Authored Git correction entry is forbidden.'' [])) ENTRY_PORTS) (\<lambda>_.
     bindE (checkE (\<lambda>(_, node). checkE (\<lambda>(_, e). checkE (\<lambda>r. guardE (\<not> route_reserved r)
       (PlainError ''Authored Git correction edge or promotion is forbidden.'' [])) (edge_routes e)) (ns_edges node))
       (ct_nodes source)) (\<lambda>_.
     bindE (guardE (case map_of (ct_records source) ''git-correction.md'' of None \<Rightarrow> False | Some r \<Rightarrow> \<not> rc_bootstrap r)
       (PlainError ''requires a nonbootstrap git-correction.md declaration.'' [cardType])) (\<lambda>_.
     case map_of (gp_reviews policy) cardType of
       None \<Rightarrow> Inl (PlainError ''TypeError'' [])
     | Some None \<Rightarrow> guardE (list_all (\<lambda>(_, node). ns_descendant node = None) (ct_nodes source))
         (PlainError ''has review context but no review binding.'' [cardType])
     | Some (Some review) \<Rightarrow> check_review agents correction cardType source review))))))"

definition compileGitWorkflowPolicy :: "'c project_config \<Rightarrow> error + git_policy option" where
  "compileGitWorkflowPolicy cfg = (case pc_git cfg of
     None \<Rightarrow> Inr None
   | Some input \<Rightarrow>
       bindE (guardE (gitWorkflowSchema input) (ZodError ''gitWorkflow'')) (\<lambda>_.
       case input of
         GitDisabled \<Rightarrow> Inr None
       | GitEnabled policy \<Rightarrow>
           bindE (compileAgents (pc_agents cfg)) (\<lambda>agents.
           bindE (check_correction_agent (map_of agents (gp_agent policy))) (\<lambda>correction.
           bindE (checkE (check_global_participant agents)
             (remdups [cf_analyst (pc_agents cfg), cf_oversight (pc_agents cfg)])) (\<lambda>_.
           bindE (guardE (list_all (\<lambda>disabled. disabled) (pc_mcp_disabled cfg))
             (PlainError ''Git workflow cannot select an enabled MCP server with unknown writer footprint.'' [])) (\<lambda>_.
           bindE (guardE (''.saivage'' \<in> set (gp_excluded policy) \<and> ''.git'' \<in> set (gp_excluded policy))
             (PlainError ''git_workflow.excluded_paths must exclude .saivage and .git.'' [])) (\<lambda>_.
           bindE (checkE (\<lambda>root. guardE (\<not> list_ex (excludes root) (gp_excluded policy))
             (PlainError ''Git source root is excluded.'' [root])) (gp_source_roots policy)) (\<lambda>_.
           bindE (guardE (length (gp_reviews policy) = length (pc_card_types cfg) \<and>
               list_all (\<lambda>(t, _). hasOwn (gp_reviews policy) t) (pc_card_types cfg))
             (PlainError ''git_workflow.review_bindings must explicitly select a binding or null for every card type.'' [])) (\<lambda>_.
           bindE (checkE (check_git_type agents correction policy) (pc_card_types cfg)) (\<lambda>_.
           Inr (Some policy)))))))))))"

section \<open>The project\<close>

record 'c compile_options =
  opt_plugins :: "'c operation_plugin list"
  opt_project_root :: "string option"
  opt_default_root :: "string option"

text \<open>
  The files and the location of a bundled template are outside: \<open>files\<close> reads a path,
  \<open>template_root\<close> is \<open>resolveSystemTemplate\<close>.
\<close>

definition promptRoots :: "(string list \<Rightarrow> string option) \<Rightarrow> (string \<Rightarrow> string) \<Rightarrow> 'c compile_options \<Rightarrow> bool \<Rightarrow> prompt_roots" where
  "promptRoots files template_root options nativeGit = \<lparr>pr_native_git = nativeGit,
     pr_default_root = (case opt_default_root options of Some r \<Rightarrow> r
       | None \<Rightarrow> template_root (if nativeGit then ''classic-git'' else ''classic'')),
     pr_override_root = (case opt_project_root options of None \<Rightarrow> None
       | Some r \<Rightarrow> if r = [] then None else Some (r @ ''/.saivage/config/prompts'')),
     pr_files = files\<rparr>"

definition known_models :: "models_section \<Rightarrow> error + string list" where
  "known_models models =
     bindE (mapE (\<lambda>(name, _). resolveRoute models name) (model_routes models)) (\<lambda>routes.
     Inr (List.fold append_new (concat routes @ concat (model_equivalents models)) []))"

definition check_failover :: "string list \<Rightarrow> string \<times> string list \<Rightarrow> error + unit" where
  "check_failover known = (\<lambda>(source, targets).
     bindE (guardE (source \<in> set known) (PlainError ''models.failover references unknown source model.'' [source])) (\<lambda>_.
     bindE (guardE (distinct targets) (PlainError ''models.failover contains a duplicate model.'' [source])) (\<lambda>_.
     checkE (\<lambda>t. guardE (t \<in> set known) (PlainError ''models.failover references unknown model.'' [source, t])) targets)))"

definition OVERSIGHT_ALLOWED_TOOL_NAMES :: "string list" where
  "OVERSIGHT_ALLOWED_TOOL_NAMES = [''get_status'', ''list_cards'', ''get_card'', ''get_tree'', ''list_card_versions'',
     ''get_card_version'', ''diff_card_versions'', ''read_record_version'', ''read'', ''glob'', ''grep'',
     ''read_runtime_events'', ''read_runtime_errors'', ''list_processes_tool'', ''list_agent_sessions'',
     ''read_agent_session'', ''queue_notification'']"

definition select_analyst :: "agents_config \<Rightarrow> (string \<times> agent_contract) list \<Rightarrow> error + agent_contract" where
  "select_analyst cfg agents =
     bindE (optionE (PlainError ''analyst_agent references missing agent.'' [cf_analyst cfg]) (map_of agents (cf_analyst cfg))) (\<lambda>analyst.
     bindE (guardE (a_session analyst = GlobalScope) (PlainError ''analyst_agent must use global session scope.'' [])) (\<lambda>_.
     Inr analyst))"

definition select_oversight :: "agents_config \<Rightarrow> (string \<times> agent_contract) list \<Rightarrow> agent_contract \<Rightarrow> error + agent_contract" where
  "select_oversight cfg agents analyst =
     bindE (optionE (PlainError ''oversight.agent references missing agent.'' [cf_oversight cfg]) (map_of agents (cf_oversight cfg))) (\<lambda>oversight.
     bindE (guardE (a_name oversight \<noteq> a_name analyst) (PlainError ''oversight.agent must differ from analyst_agent.'' [])) (\<lambda>_.
     bindE (guardE (a_session oversight = GlobalScope) (PlainError ''oversight.agent must use global session scope.'' [])) (\<lambda>_.
     bindE (guardE (\<not> a_skills oversight) (PlainError ''oversight.agent must have skills: false.'' [])) (\<lambda>_.
     bindE (checkE (\<lambda>tool. guardE (t_name tool \<in> set OVERSIGHT_ALLOWED_TOOL_NAMES)
       (PlainError ''oversight.agent tool is forbidden.'' [t_name tool])) (a_tools oversight)) (\<lambda>_.
     Inr oversight)))))"

definition correction_execution :: "git_policy option \<Rightarrow> (string \<times> agent_contract) list \<Rightarrow> prompt_roots \<Rightarrow> string \<Rightarrow>
    error + agent_execution option" where
  "correction_execution gitPolicy agents roots cardType = (case gitPolicy of
     None \<Rightarrow> Inr None
   | Some policy \<Rightarrow>
       bindE (optionE (PlainError ''TypeError'' []) (map_of agents (gp_agent policy))) (\<lambda>agent.
       bindE (selectAgentPrompt (WorkflowAgent cardType) agent roots) (\<lambda>selected.
       bindE (compilePromptDeclaration (gp_prompt policy)) (\<lambda>prompt.
       bindE (compilePromptDeclaration (gp_correction_prompt policy)) (\<lambda>correctionPrompt.
       bindE (compileDataFields []) (\<lambda>dataInputs.
       Inr (Some \<lparr>ae_agent = agent, ae_selected_prompt = selected, ae_prompt = prompt, ae_correction_prompt = correctionPrompt,
         ae_data_inputs = dataInputs, ae_inputs = []\<rparr>)))))))"

record 'c project_workflows =
  pw_git :: "git_policy option"
  pw_operations :: "(string \<times> 'c operation_definition) list"
  pw_analyst :: agent_contract
  pw_analyst_prompt :: agent_prompt
  pw_oversight :: agent_contract
  pw_oversight_prompt :: agent_prompt
  pw_agents :: "(string \<times> agent_contract) list"
  pw_card_types :: "(string \<times> 'c card_type_workflow) list"
  pw_vocabulary :: "string list"

definition compileProjectWorkflowDeclarations :: "('c \<Rightarrow> error + 'c) \<Rightarrow> (quality_language \<Rightarrow> 'c \<Rightarrow> error + 'c) \<Rightarrow>
    (string list \<Rightarrow> string option) \<Rightarrow> (string \<Rightarrow> string) \<Rightarrow> 'c project_config \<Rightarrow> 'c compile_options \<Rightarrow> error + 'c project_workflows" where
  "compileProjectWorkflowDeclarations shellSchema qualitySchema files template_root cfg options =
     bindE (compileGitWorkflowPolicy cfg) (\<lambda>gitPolicy.
     bindE (guardE (\<not> (gitPolicy = None \<and> list_ex (\<lambda>(_, agent).
         list_ex (\<lambda>(tools, _). ''checkpoint_source'' \<in> set tools) (as_grants agent)) (cf_agents (pc_agents cfg))))
       (PlainError ''checkpoint_source requires an enabled native Git policy.'' [])) (\<lambda>_.
     let roots = promptRoots files template_root options (gitPolicy \<noteq> None) in
     bindE (compileOperations [shellRunOperation shellSchema] (qualityOperationPlugin qualitySchema # opt_plugins options)) (\<lambda>operations.
     bindE (known_models (cf_models (pc_agents cfg))) (\<lambda>known.
     bindE (checkE (check_failover known) (model_failover (cf_models (pc_agents cfg)))) (\<lambda>_.
     bindE (compileAgents (pc_agents cfg)) (\<lambda>agents.
     bindE (select_analyst (pc_agents cfg) agents) (\<lambda>analyst.
     bindE (select_oversight (pc_agents cfg) agents analyst) (\<lambda>oversight.
     bindE (selectAgentPrompt GlobalAgent analyst roots) (\<lambda>analystPrompt.
     bindE (selectAgentPrompt GlobalAgent oversight roots) (\<lambda>oversightPrompt.
     bindE (checkE (\<lambda>(t, _). guardE (cardTypeNameSchema t) (ZodError ''cardTypeName'')) (pc_card_types cfg)) (\<lambda>_.
     let vocabulary = map fst (pc_card_types cfg) in
     bindE (guardE (''project'' \<in> set vocabulary) (PlainError ''card_types must contain the reserved project entry.'' [])) (\<lambda>_.
     bindE (mapE (\<lambda>(t, source). bindE (compileCardTypeInputs t source agents roots vocabulary operations) (\<lambda>d. Inr (t, d)))
       (pc_card_types cfg)) (\<lambda>drafts.
     bindE (checkE (\<lambda>(_, d). validateCardTypeTopology d) drafts) (\<lambda>_.
     bindE (validateDescendantContextClosure drafts) (\<lambda>_.
     bindE (mapE (\<lambda>(t, d). bindE (correction_execution gitPolicy agents roots t) (\<lambda>correction.
       bindE (buildCardTypeStateTable d roots correction) (\<lambda>w. Inr (t, w)))) drafts) (\<lambda>cardTypes.
     Inr \<lparr>pw_git = gitPolicy, pw_operations = operations, pw_analyst = analyst, pw_analyst_prompt = analystPrompt,
       pw_oversight = oversight, pw_oversight_prompt = oversightPrompt, pw_agents = agents, pw_card_types = cardTypes,
       pw_vocabulary = vocabulary\<rparr>))))))))))))))))"

section \<open>What a compiled project guarantees\<close>

lemma compile_node_key:
  "compile_node cardType agents roots operations permitted records (raw, node) nodes = Inr nodes' \<Longrightarrow>
     fst ` set nodes' \<subseteq> insert raw (fst ` set nodes)"
  unfolding compile_node_def prod.case bindE_Inr_iff case_prod_beta fst_conv snd_conv sum.inject(2) process_identifier_def
  by (elim exE conjE) (auto simp: errE dest: update_mem)

lemma compiled_node_keys:
  assumes "compileCardTypeInputs cardType source agents roots types operations = Inr d"
  shows "fst ` set (dr_nodes d) \<subseteq> fst ` set (ct_nodes source)"
proof -
  obtain permitted records where
    run: "foldE (compile_node cardType agents roots operations permitted records) (ct_nodes source) [] = Inr (dr_nodes d)"
    using assms by (auto simp: compileCardTypeInputs_def errE)
  show ?thesis
    using run
  proof (rule foldE_invariant [where I = "\<lambda>nodes. fst ` set nodes \<subseteq> fst ` set (ct_nodes source)"])
    show "fst ` set s' \<subseteq> fst ` set (ct_nodes source)"
      if "x \<in> set (ct_nodes source)" "fst ` set s \<subseteq> fst ` set (ct_nodes source)"
        "compile_node cardType agents roots operations permitted records x s = Inr s'" for x s s'
      using that compile_node_key [of cardType agents roots operations permitted records "fst x" "snd x" s s']
        image_eqI [of "fst x" fst x] by (metis (no_types, lifting) insert_subset prod.collapse subset_trans)
  qed simp
qed

lemma policy_types:
  assumes "compileGitWorkflowPolicy cfg = Inr (Some policy)" and "(t, source) \<in> set (pc_card_types cfg)"
  shows "GIT_CORRECTION_NODE_ID \<notin> fst ` set (ct_nodes source)"
proof -
  obtain agents correction where "\<forall>x \<in> set (pc_card_types cfg). check_git_type agents correction policy x = Inr ()"
    using assms(1) by (auto simp: compileGitWorkflowPolicy_def errE split: option.splits git_input.splits)
  with assms(2) have "check_git_type agents correction policy (t, source) = Inr ()" by blast
  then show ?thesis by (auto simp: check_git_type_def errE hasOwn_def map_of_eq_None_iff)
qed

lemma correction_needs_policy: "correction_execution gitPolicy agents roots t = Inr (Some execution) \<Longrightarrow> gitPolicy \<noteq> None"
  by (cases gitPolicy) (auto simp: correction_execution_def)

text \<open>Every card type of a compiled project comes from a formed draft with a checked topology.\<close>

lemma project_card_type:
  assumes "compileProjectWorkflowDeclarations shellSchema qualitySchema files template_root cfg options = Inr w"
    and "(t, flow) \<in> set (pw_card_types w)"
  obtains source agents roots operations d correction where
    "(t, source) \<in> set (pc_card_types cfg)"
    "compileCardTypeInputs t source agents roots (map fst (pc_card_types cfg)) operations = Inr d"
    "validateCardTypeTopology d = Inr ()" "buildCardTypeStateTable d roots correction = Inr flow"
    "no_reserved_node d correction"
proof -
  from assms(1) obtain gitPolicy roots operations agents drafts where
    policy: "compileGitWorkflowPolicy cfg = Inr gitPolicy"
    and compile: "mapE (\<lambda>(t, source). bindE (compileCardTypeInputs t source agents roots (map fst (pc_card_types cfg)) operations)
        (\<lambda>d. Inr (t, d))) (pc_card_types cfg) = Inr drafts"
    and topology: "checkE (\<lambda>(_, d). validateCardTypeTopology d) drafts = Inr ()"
    and build: "mapE (\<lambda>(t, d). bindE (correction_execution gitPolicy agents roots t) (\<lambda>correction.
        bindE (buildCardTypeStateTable d roots correction) (\<lambda>w. Inr (t, w)))) drafts = Inr (pw_card_types w)"
    unfolding compileProjectWorkflowDeclarations_def Let_def bindE_Inr_iff sum.inject(2)
    by (elim exE conjE) (rule that, assumption, assumption, (simp; fail), force)
  from mapE_set [OF build] assms(2) obtain d correction where
    d: "(t, d) \<in> set drafts" and correction: "correction_execution gitPolicy agents roots t = Inr correction"
    and flow: "buildCardTypeStateTable d roots correction = Inr flow" by (fastforce simp: errE)
  from mapE_set [OF compile] d obtain source where
    source: "(t, source) \<in> set (pc_card_types cfg)"
      "compileCardTypeInputs t source agents roots (map fst (pc_card_types cfg)) operations = Inr d" by (fastforce simp: errE)
  have valid: "validateCardTypeTopology d = Inr ()" using topology d by (auto simp: checkE_iff)
  have "no_reserved_node d correction"
  proof (cases correction)
    case (Some execution)
    then obtain p where "gitPolicy = Some p" using correction correction_needs_policy by blast
    from policy_types [OF policy [unfolded this] source(1)] compiled_node_keys [OF source(2)]
    show ?thesis by (auto simp: no_reserved_node_def)
  qed (simp add: no_reserved_node_def)
  with source valid flow show ?thesis by (rule that)
qed

lemma built_table:
  assumes "buildCardTypeStateTable d roots correction = Inr flow" and "draft_formed d"
    and "validateCardTypeTopology d = Inr ()" and "no_reserved_node d correction"
  shows "\<exists>prompt. compiled_table d correction prompt (wf_states flow)" and "wf_initial flow = ''lifecycle:ready''"
    and "validateCompiledActorTable (wf_initial flow) (actor_table_of (wf_states flow)) = Inr ()"
proof -
  obtain states where states: "process_states d correction = Inr states" "wf_states flow = states"
    and initial: "wf_initial flow = ''lifecycle:ready''"
    and valid: "validateCompiledActorTable ''lifecycle:ready'' (actor_table_of states) = Inr ()"
    using assms(1) by (auto simp: buildCardTypeStateTable_def errE)
  have topology: "topology_ok d" using assms(2,3) topology_exact by (auto simp: draft_formed_def)
  then obtain i n where node: "(i, n) \<in> set (dr_nodes d)" using entry_node by fastforce
  obtain prompt where "snd (dr_entries d EntryStopped) = Some prompt"
  proof (cases "snd (dr_entries d EntryStopped)")
    case None
    then have "node_state d (correction \<noteq> None) (i, n) \<noteq> Inr y" for y
      by (cases "dr_entries d EntryStopped") (simp add: node_state_def errE)
    then have "mapE (node_state d (correction \<noteq> None)) (dr_nodes d) \<noteq> Inr ys" for ys
      using node mapE_each [of "node_state d (correction \<noteq> None)" "dr_nodes d" ys "(i, n)"] by metis
    with states(1) show ?thesis by (simp add: process_states_def errE)
  qed
  from process_states_run [OF this] states show "\<exists>prompt. compiled_table d correction prompt (wf_states flow)"
    using assms(2,4) topology by (auto simp: compiled_table_def)
  show "wf_initial flow = ''lifecycle:ready''" by (rule initial)
  show "validateCompiledActorTable (wf_initial flow) (actor_table_of (wf_states flow)) = Inr ()"
    using valid states initial by simp
qed

lemma project_table:
  assumes "compileProjectWorkflowDeclarations shellSchema qualitySchema files template_root cfg options = Inr w"
    and "(t, flow) \<in> set (pw_card_types w)" and "\<forall>(_, source) \<in> set (pc_card_types cfg). case_ids_named source"
  obtains d correction prompt where "compiled_table d correction prompt (wf_states flow)"
    "wf_initial flow = ''lifecycle:ready''"
    "validateCompiledActorTable (wf_initial flow) (actor_table_of (wf_states flow)) = Inr ()"
proof -
  obtain source agents roots operations d correction where c: "(t, source) \<in> set (pc_card_types cfg)"
    "compileCardTypeInputs t source agents roots (map fst (pc_card_types cfg)) operations = Inr d"
    "validateCardTypeTopology d = Inr ()" "buildCardTypeStateTable d roots correction = Inr flow"
    "no_reserved_node d correction" using project_card_type [OF assms(1,2)] .
  have "draft_formed d" using compiled_draft_formed [OF c(2)] assms(3) c(1) by blast
  from built_table [OF c(4) this c(3,5)] that show ?thesis by blast
qed

section \<open>The builtin catalogue\<close>

lemmas freeze_simps = freezeDefinition_def operationIdSchema_def operationComponent_def is_name_def is_lower_def is_digit_def
  validateOperationFields_def validate_field_def fieldNameSchema_def lower_word_def validate_range_def outcomeSchema_def
  validate_retained_def safe_int_def MAX_SAFE_INTEGER_def

lemma shell_operation_valid: "freezeDefinition (shellRunOperation schema) = Inr (shellRunOperation schema)"
  by (simp add: shellRunOperation_def freeze_simps)

lemma quality_operation_valid: "freezeDefinition (quality_operation schema l) = Inr (quality_operation schema l)"
  by (cases l) (simp_all add: quality_operation_def quality_facts_def freeze_simps)

text \<open>Without further plugins the catalogue compiles, with four operations.\<close>

lemma builtin_operations:
  "compileOperations [shellRunOperation schema] [qualityOperationPlugin schemas] =
     Inr ((''shell.run'', shellRunOperation schema) #
       map (\<lambda>l. (''code-quality.'' @ language_key l, quality_operation schemas l)) [Javascript, Typescript, Python])"
proof -
  have ids: "op_id (shellRunOperation schema) = ''shell.run''"
      "op_id (quality_operation schemas l) = ''code-quality.'' @ language_key l" for l
    by (simp_all add: shellRunOperation_def quality_operation_def)
  have providers: "provider (shellRunOperation schema) = \<lparr>provider_kind = Builtin, provider_name = ''shell''\<rparr>"
      "provider (quality_operation schemas l) = \<lparr>provider_kind = Plugin, provider_name = ''code-quality''\<rparr>" for l
    by (simp_all add: shellRunOperation_def quality_operation_def)
  show ?thesis
    by (simp add: compileOperations_def qualityOperationPlugin_def add_builtin_def add_plugin_def add_plugin_operation_def
      add_operation_def shell_operation_valid quality_operation_valid ids providers operationKeySchema_def operationNamespaceSchema_def
      operationIdSchema_def operationComponent_def is_name_def is_lower_def is_digit_def reserved_namespaces_def)
qed

end
