(* ===== verification/WorkflowProperties.thy ===== *)
theory WorkflowProperties
  imports WorkflowProject
begin

text \<open>
  Properties of the compilation of prompts, tools and workflows, with a small project that
  compiles as their instance.
\<close>

section \<open>A small project\<close>

definition sample_declaration :: prompt_declaration where
  "sample_declaration = \<lparr>pd_reference = ''work'', pd_compactable = True, pd_compaction_key = None\<rparr>"

definition sample_agent :: "tool_scope \<Rightarrow> agent_source" where
  "sample_agent scope = \<lparr>as_prompt = sample_declaration, as_grants = [], as_quality = [], as_model_route = ''main'',
     as_skills = False, as_session = scope\<rparr>"

definition sample_agents :: agents_config where
  "sample_agents = \<lparr>cf_agents = [(''analyst'', sample_agent GlobalScope), (''watcher'', sample_agent GlobalScope),
       (''planner'', sample_agent CardScope)],
     cf_analyst = ''analyst'', cf_oversight = ''watcher'',
     cf_models = \<lparr>model_routes = [(''main'', \<lparr>route_candidates = Some [''m''], route_profile = None, route_max_tokens = Some 100\<rparr>)],
       model_profiles = [], model_equivalents = [], model_failover = []\<rparr>\<rparr>"

definition sample_node :: "edge_target \<Rightarrow> unit node_source" where
  "sample_node target = \<lparr>ns_execution = SelectAgent \<lparr>sel_agent = ''planner'', sel_prompt = sample_declaration,
       sel_correction = sample_declaration, sel_data_inputs = [], sel_inputs = []\<rparr>,
     ns_output_record = None, ns_initialize = None, ns_record_prompts = None, ns_records = [], ns_descendant = None,
     ns_edges = [(''done'', PlainEdge \<lparr>rs_target = target, rs_prompt = None, rs_pending = None, rs_inputs = []\<rparr>)]\<rparr>"

definition sample_card_type :: "unit card_type_source" where
  "sample_card_type = \<lparr>ct_permitted = [],
     ct_records = [(''brief.md'', \<lparr>rc_format = ''markdown'', rc_schema = ''authored-record.v1'', rc_bootstrap = True, rc_template = None\<rparr>)],
     ct_recipient = ''planner'', ct_after_commit = None, ct_entries = (\<lambda>_. (''plan'', Some sample_declaration)),
     ct_nodes = [(''plan'', sample_node (ToNode ''review'')), (''review'', sample_node (ToTerminal PortDone PromoteCurrent []))]\<rparr>"

definition sample_project :: "unit project_config" where
  "sample_project = \<lparr>pc_agents = sample_agents, pc_card_types = [(''project'', sample_card_type)], pc_mcp_disabled = [], pc_git = None\<rparr>"

definition sample_files :: "string list \<Rightarrow> string option" where
  "sample_files path = (if ''agents'' \<in> set path \<and> ''project'' \<in> set path then Some ''Work: {{contractDescription}}'' else Some ''Text'')"

definition sample_options :: "unit compile_options" where
  "sample_options = \<lparr>opt_plugins = [], opt_project_root = None, opt_default_root = Some ''prompts''\<rparr>"

abbreviation sample_compilation :: "error + unit project_workflows" where
  "sample_compilation \<equiv> compileProjectWorkflowDeclarations Inr (\<lambda>_. Inr) sample_files (\<lambda>n. n) sample_project sample_options"

text \<open>What the compilation makes of it.\<close>

definition sample_compiled_declaration :: compiled_declaration where
  "sample_compiled_declaration = \<lparr>cp_prompt_id = ''work'', cp_compactable = True, cp_compaction_key = None\<rparr>"

definition sample_contract :: "string \<Rightarrow> tool_scope \<Rightarrow> agent_contract" where
  "sample_contract name scope = \<lparr>a_name = name, a_prompt = sample_declaration, a_tools = [], a_quality = [],
     a_model_route = ''main'', a_models = [''m''], a_max_tokens = Some 100, a_skills = False, a_session = scope\<rparr>"

definition sample_contracts :: "(string \<times> agent_contract) list" where
  "sample_contracts = [(''analyst'', sample_contract ''analyst'' GlobalScope), (''watcher'', sample_contract ''watcher'' GlobalScope),
     (''planner'', sample_contract ''planner'' CardScope)]"

definition sample_roots :: prompt_roots where
  "sample_roots = promptRoots sample_files (\<lambda>n. n) sample_options False"

definition sample_node_draft :: "string \<Rightarrow> edge_target \<Rightarrow> unit node_draft" where
  "sample_node_draft i target = \<lparr>nd_id = i, nd_execution = AgentExecution \<lparr>ae_agent = sample_contract ''planner'' CardScope,
       ae_selected_prompt = \<lparr>ap_source = BundledCard, ap_reference = ''work'', ap_path = [''prompts'', ''agents'', ''project'', ''work.md''],
         ap_compiled = [LiteralText ''Work: '', Placeholder ''contractDescription'']\<rparr>,
       ae_prompt = sample_compiled_declaration, ae_correction_prompt = sample_compiled_declaration, ae_data_inputs = [], ae_inputs = []\<rparr>,
     nd_output_record = None, nd_record_prompts = [], nd_requirements = [], nd_initialize = [], nd_descendant = None,
     nd_edges = [(''done'', \<lparr>ed_outcome = ''done'', ed_route_id = ''done'', ed_test = None, ed_inputs = [],
       ed_target_state = (case target of ToNode n \<Rightarrow> nodeState n | ToTerminal t _ _ \<Rightarrow> terminalState t),
       ed_target_node = (case target of ToNode n \<Rightarrow> Some n | ToTerminal _ _ _ \<Rightarrow> None), ed_prompt = None,
       ed_terminal = (case target of ToNode _ \<Rightarrow> None | ToTerminal _ p _ \<Rightarrow> Some \<lparr>tb_promotion = p, tb_export_records = []\<rparr>),
       ed_pending = None\<rparr>)],
     nd_creation_types = [], nd_activation_types = []\<rparr>"

definition sample_draft :: "unit card_type_draft" where
  "sample_draft = (let brief = \<lparr>r_name = ''brief.md'', r_format = ''markdown'', r_schema = ''authored-record.v1'', r_bootstrap = True,
       r_declared = True, r_initialization = None\<rparr> in
     \<lparr>dr_after_commit = None, dr_card_type = ''project'', dr_recipient = ''planner'', dr_permitted = [],
      dr_records = [(''brief.md'', brief)], dr_bootstrap = brief,
      dr_nodes = [(''plan'', sample_node_draft ''plan'' (ToNode ''review'')),
        (''review'', sample_node_draft ''review'' (ToTerminal PortDone PromoteCurrent []))],
      dr_entries = (\<lambda>_. (''plan'', Some sample_compiled_declaration))\<rparr>)"

lemma sample_agents_compile: "compileAgents sample_agents = Inr sample_contracts"
  by (simp add: compileAgents_def sample_agents_def sample_agent_def compile_agent_def qualityToolNames_def find_route_def
    get_prop_def expandModelOrder_def resolveRoute_def expand_model_def equivalents_of_def failover_of_def append_new_def
    object_prototype_def sample_contracts_def sample_contract_def)

lemma sample_prompt:
  "selectAgentPrompt (WorkflowAgent ''project'') (sample_contract ''planner'' CardScope) sample_roots =
     Inr \<lparr>ap_source = BundledCard, ap_reference = ''work'', ap_path = [''prompts'', ''agents'', ''project'', ''work.md''],
       ap_compiled = [LiteralText ''Work: '', Placeholder ''contractDescription'']\<rparr>"
  by code_simp

definition sample_global_prompt :: agent_prompt where
  "sample_global_prompt = \<lparr>ap_source = BundledShared, ap_reference = ''work'',
     ap_path = [''prompts'', ''agents'', ''_shared'', ''work.md''], ap_compiled = [LiteralText ''Text'']\<rparr>"

lemma sample_global_prompts:
  "selectAgentPrompt GlobalAgent (sample_contract ''analyst'' GlobalScope) sample_roots = Inr sample_global_prompt"
  "selectAgentPrompt GlobalAgent (sample_contract ''watcher'' GlobalScope) sample_roots = Inr sample_global_prompt"
  by code_simp+

lemma sample_process_prompt:
  "selectProcessPrompt ''project'' ''work'' sample_roots = Inr \<lparr>pp_reference = ''work'', pp_source = BundledCard,
     pp_path = [''prompts'', ''process'', ''project'', ''work.md''], pp_text = ''Text''\<rparr>"
  by code_simp

lemma sample_topology: "validateCardTypeTopology sample_draft = Inr ()"
  by code_simp

lemma sample_draft_compiles:
  "compileCardTypeInputs ''project'' sample_card_type sample_contracts sample_roots [''project''] operations = Inr sample_draft"
proof -
  have identifiers: "process_identifier ''plan'' = Inr ''plan''" "process_identifier ''review'' = Inr ''review''"
      "process_identifier ''work'' = Inr ''work''" "outcomeIdentifier ''done'' = Inr ''done''" "parseRecordName ''brief.md'' = Inr ''brief.md''"
    by code_simp+
  have agent: "map_of sample_contracts ''planner'' = Some (sample_contract ''planner'' CardScope)" by (simp add: sample_contracts_def)
  have plain: "a_session (sample_contract n s) = s" "has_tool (sample_contract n s) t = False" "creates_cards (sample_contract n s) = False" for n s t
    by (simp_all add: sample_contract_def has_tool_def creates_cards_def)
  have decl: "compilePromptDeclaration sample_declaration = Inr sample_compiled_declaration"
    by (simp add: compilePromptDeclaration_def sample_declaration_def identifiers sample_compiled_declaration_def)
  have node: "compile_node ''project'' sample_contracts sample_roots operations [] records (i, sample_node target) nodes =
      Inr (AList.update i (sample_node_draft i target) nodes)"
    if "process_identifier i = Inr i" "target = ToNode m \<or> target = ToTerminal PortDone PromoteCurrent []" for records i target nodes m
    using that
    by (auto simp: compile_node_def sample_node_def check_output_record_def agent plain compile_execution_def sample_prompt decl
        compileDataFields_def validateOperationFields_def validateInputBindings_def check_outcomes_def compile_edge_def identifiers
        edge_branches_def compile_branch_def compile_optional_declaration_def sample_node_draft_def)
  show ?thesis
    by (simp add: compileCardTypeInputs_def sample_card_type_def agent plain compile_record_def identifiers node decl
        compile_entry_def compile_optional_declaration_def ENTRY_PORTS_def sample_draft_def Let_def)
      (rule ext, rename_tac e, case_tac e, simp_all)
qed

definition sample_flow :: "unit card_type_workflow" where
  "sample_flow = \<lparr>wf_after_commit = None, wf_card_type = ''project'', wf_recipient = ''planner'', wf_planning_target = False,
     wf_permitted = [], wf_records = dr_records sample_draft, wf_bootstrap = dr_bootstrap sample_draft,
     wf_initial = ''lifecycle:ready'', wf_states = map_from (state_list sample_draft None sample_compiled_declaration),
     wf_prompts = [(''work'', \<lparr>pp_reference = ''work'', pp_source = BundledCard,
       pp_path = [''prompts'', ''process'', ''project'', ''work.md''], pp_text = ''Text''\<rparr>)]\<rparr>"

lemma sample_formed: "draft_formed sample_draft"
  by (rule compiled_draft_formed [OF sample_draft_compiles]) code_simp

lemma sample_builds: "buildCardTypeStateTable sample_draft sample_roots None = Inr sample_flow"
proof -
  have "snd (dr_entries sample_draft EntryStopped) = Some sample_compiled_declaration" by (simp add: sample_draft_def Let_def)
  moreover have "topology_ok sample_draft" using sample_topology topology_exact sample_formed by (auto simp: draft_formed_def)
  moreover have "process_prompt_ids (map_from (state_list sample_draft None sample_compiled_declaration)) = [''work'']"
      "list_ex (\<lambda>(_, s). plans_children ''planner'' s) (map_from (state_list sample_draft None sample_compiled_declaration)) = False"
    by code_simp+
  moreover have "dr_after_commit sample_draft = None" "dr_card_type sample_draft = ''project''" "dr_recipient sample_draft = ''planner''"
      "dr_permitted sample_draft = []" by (simp_all add: sample_draft_def Let_def)
  ultimately show ?thesis
    by (simp add: buildCardTypeStateTable_def process_states_run compiled_table_valid sample_formed sample_process_prompt sample_flow_def)
qed

lemma sample_compiles:
  "\<exists>w. sample_compilation = Inr w \<and> (''project'', sample_flow) \<in> set (pw_card_types w)"
proof -
  have git: "compileGitWorkflowPolicy sample_project = Inr None" by (simp add: compileGitWorkflowPolicy_def sample_project_def)
  have parts: "pc_agents sample_project = sample_agents" "pc_card_types sample_project = [(''project'', sample_card_type)]"
      "opt_plugins sample_options = []" "promptRoots sample_files (\<lambda>n. n) sample_options False = sample_roots"
    by (simp_all add: sample_project_def sample_options_def sample_roots_def)
  have grants: "list_ex (\<lambda>(_, agent). list_ex (\<lambda>(tools, _). ''checkpoint_source'' \<in> set tools) (as_grants agent)) (cf_agents sample_agents) = False"
    by (simp add: sample_agents_def sample_agent_def)
  have models: "\<exists>known. known_models (cf_models sample_agents) = Inr known" "model_failover (cf_models sample_agents) = []"
    by (simp_all add: sample_agents_def known_models_def resolveRoute_def find_route_def get_prop_def)
  have participants: "select_analyst sample_agents sample_contracts = Inr (sample_contract ''analyst'' GlobalScope)"
      "select_oversight sample_agents sample_contracts (sample_contract ''analyst'' GlobalScope) = Inr (sample_contract ''watcher'' GlobalScope)"
    by (simp_all add: select_analyst_def select_oversight_def sample_agents_def sample_contracts_def sample_contract_def checkE_def)
  have closure: "validateDescendantContextClosure [(''project'', sample_draft)] = Inr ()" by code_simp
  show ?thesis
    using models
    by (auto simp: compileProjectWorkflowDeclarations_def git parts grants builtin_operations sample_agents_compile participants
        sample_global_prompts sample_draft_compiles sample_topology closure correction_execution_def sample_builds checkE_def
        cardTypeNameSchema_def is_name_def is_lower_def Let_def)
qed

section \<open>Prompts\<close>

text \<open>
  (C30) The template parser decides the grammar of templates and inverts it: a text parses to a
  token list exactly when the text is a way of writing those tokens, with placeholders and
  fragment includes in double braces with blanks, and literals free of doubled braces. So
  parsing is unambiguous and every other text is rejected.
\<close>

theorem prompt_parse_exact: "parse host name t = Inr tokens \<longleftrightarrow> template_of tokens t"
proof
  assume "parse host name t = Inr tokens"
  then have "parse_from host name [] t = Inr tokens" by (simp add: parse_def)
  from parse_from_sound [OF this] show "template_of tokens t" by (cases t) auto
next
  assume "template_of tokens t"
  then show "parse host name t = Inr tokens" by (simp add: parse_def parse_from_complete)
qed

text \<open>
  A template that compiles for a host always renders when the placeholders of the host have
  values, to its literals and values in order; the contract of a workflow agent appears in it
  exactly once, and of a record context exactly the selection and at most one content.
\<close>

theorem prompt_renders:
  assumes compiled: "compilePromptTemplate host name path text resolveFragment = Inr tokens"
    and supplied: "\<forall>k \<in> set (PLACEHOLDERS host). map_of variables k \<noteq> None"
  shows "renderCompiledPrompt host name tokens variables = Inr (concat (map (fill variables) tokens)) \<and>
    (\<forall>t. host = WorkflowAgent t \<longrightarrow> (\<exists>before after'. tokens = before @ Placeholder ''contractDescription'' # after' \<and>
       Placeholder ''contractDescription'' \<notin> set before \<union> set after')) \<and>
    (\<forall>t. host = RecordContext t \<longrightarrow> placeholder_count ''recordSelection'' tokens = 1 \<and> placeholder_count ''recordContent'' tokens \<le> 1)"
proof (intro conjI allI impI)
  have "\<forall>k. Placeholder k \<in> set tokens \<longrightarrow> map_of variables k \<noteq> None"
    using compiled_placeholders [OF compiled] supplied by blast
  then show "renderCompiledPrompt host name tokens variables = Inr (concat (map (fill variables) tokens))" by (rule render_exact)
next
  fix t assume "host = WorkflowAgent t"
  then have "placeholder_count ''contractDescription'' tokens = 1" using compiled by (auto simp: compilePromptTemplate_def errE)
  from count_split [OF this] show "\<exists>before after'. tokens = before @ Placeholder ''contractDescription'' # after' \<and>
       Placeholder ''contractDescription'' \<notin> set before \<union> set after'" by blast
next
  fix t assume "host = RecordContext t"
  then show "placeholder_count ''recordSelection'' tokens = 1" "placeholder_count ''recordContent'' tokens \<le> 1"
    using compiled by (auto simp: compilePromptTemplate_def errE)
qed

theorem prompt_renders_witness:
  "renderCompiledPrompt (WorkflowAgent ''project'') ''planner'' [LiteralText ''Work: '', Placeholder ''contractDescription'']
     [(''contractDescription'', ''emit a result'')] = Inr ''Work: emit a result''"
proof -
  have "compilePromptTemplate (WorkflowAgent ''project'') ''planner'' ''p'' ''Work: {{ contractDescription }}'' (\<lambda>_. Inl (ENOENT ''f'')) =
      Inr [LiteralText ''Work: '', Placeholder ''contractDescription'']" by code_simp
  from prompt_renders [OF this, of "[(''contractDescription'', ''emit a result'')]"] show ?thesis by (simp add: fill_def)
qed

section \<open>Authority of tools\<close>

definition granted :: "direct_authority \<Rightarrow> string \<Rightarrow> object_target \<Rightarrow> bool" where
  "granted auth tool target \<longleftrightarrow> (\<exists>r clause. find (\<lambda>r. t_name r = tool) (authority_tools auth) = Some r \<and>
     clause \<in> set (t_resources r) \<and> covers (anchorCardId auth) target clause)"

text \<open>
  (C29) The check on an object a tool call reaches always decides, and allows it exactly when a
  clause of the agent's grant of that tool covers the object; otherwise the call is rejected. A
  grant without the scope \<open>all\<close> never reaches a card outside the subtree of the agent's own
  card, and an agent without a card reaches cards and records only through \<open>all\<close>.
\<close>

theorem tool_authority_exact:
  assumes valid: "\<forall>i. object_card target = Some i \<longrightarrow> cardIdSchema i"
  shows "allowsReachedObject auth tool target = Inr (granted auth tool target) \<and>
    assertReachedObjectAuthority auth tool target = (if granted auth tool target then Inr () else Inl (PlainError ''ToolArgumentValidationError'' [tool])) \<and>
    (\<forall>i a. granted auth tool target \<and> object_card target = Some i \<and> anchorCardId auth = Some a \<and>
       (\<forall>r \<in> set (authority_tools auth). \<forall>c \<in> set (t_resources r). AllScope \<notin> set (resource_scopes c)) \<longrightarrow> i = a \<or> below a i) \<and>
    (granted auth tool target \<and> object_card target \<noteq> None \<and> anchorCardId auth = None \<longrightarrow>
       (\<exists>r \<in> set (authority_tools auth). \<exists>c \<in> set (t_resources r). AllScope \<in> set (resource_scopes c)))"
proof (intro conjI allI impI)
  show run: "allowsReachedObject auth tool target = Inr (granted auth tool target)"
    using authority_run [OF valid, of auth tool] by (auto simp: granted_def)
  show "assertReachedObjectAuthority auth tool target = (if granted auth tool target then Inr () else Inl (PlainError ''ToolArgumentValidationError'' [tool]))"
    using run by (simp add: assertReachedObjectAuthority_def)
  have clause: "\<exists>r \<in> set (authority_tools auth). \<exists>c \<in> set (t_resources r). in_scope (resource_scopes c) (anchorCardId auth) i"
    if given: "granted auth tool target" "object_card target = Some i" for i
  proof -
    obtain r c where r: "find (\<lambda>r. t_name r = tool) (authority_tools auth) = Some r" and c: "c \<in> set (t_resources r)"
        "covers (anchorCardId auth) target c" using given(1) unfolding granted_def by blast
    have "r \<in> set (authority_tools auth)" using r by (auto simp: find_Some_iff)
    moreover have "in_scope (resource_scopes c) (anchorCardId auth) i" using c(2) given(2) by (cases target) auto
    ultimately show ?thesis using c(1) by blast
  qed
  show "i = a \<or> below a i" if "granted auth tool target \<and> object_card target = Some i \<and> anchorCardId auth = Some a \<and>
       (\<forall>r \<in> set (authority_tools auth). \<forall>c \<in> set (t_resources r). AllScope \<notin> set (resource_scopes c))" for i a
    using clause [of i] that in_scope_confined by metis
  show "\<exists>r \<in> set (authority_tools auth). \<exists>c \<in> set (t_resources r). AllScope \<in> set (resource_scopes c)"
    if "granted auth tool target \<and> object_card target \<noteq> None \<and> anchorCardId auth = None"
    using clause that by (fastforce simp: in_scope_def)
qed

definition sample_reader :: direct_authority where
  "sample_reader = \<lparr>anchorCardId = Some ''card-a'', authority_tools = [\<lparr>t_scope = CardScope, t_name = ''get_card'',
     t_group = ''card:card-inspection'', t_target = \<lparr>meta_kinds = [CardKind], meta_target = TargetRequired, meta_direct = CardSelection\<rparr>,
     t_resources = [CardResource [DescendantsScope]]\<rparr>]\<rparr>"

theorem tool_authority_exact_witness:
  "assertReachedObjectAuthority sample_reader ''get_card'' (CardObject ''card-a-b'') = Inr () \<and> below ''card-a'' ''card-a-b'' \<and>
   assertReachedObjectAuthority sample_reader ''get_card'' (CardObject ''card-b'') = Inl (PlainError ''ToolArgumentValidationError'' [''get_card''])"
proof -
  have ids: "cardIdSchema ''card-a-b''" "cardIdSchema ''card-b''" by code_simp+
  have allowed: "allowsReachedObject sample_reader ''get_card'' (CardObject ''card-a-b'') = Inr True"
      "allowsReachedObject sample_reader ''get_card'' (CardObject ''card-b'') = Inr False" by code_simp+
  have reach: "\<forall>r \<in> set (authority_tools sample_reader). \<forall>c \<in> set (t_resources r). AllScope \<notin> set (resource_scopes c)"
      "anchorCardId sample_reader = Some ''card-a''" by (simp_all add: sample_reader_def)
  show ?thesis
    using tool_authority_exact [of "CardObject ''card-a-b''" sample_reader "''get_card''"]
      tool_authority_exact [of "CardObject ''card-b''" sample_reader "''get_card''"] ids allowed reach by auto
qed

section \<open>Workflows\<close>

text \<open>
  (C28) The validation of a card type accepts exactly the well-formed workflow graphs: every edge
  leads to a node whose inputs it completes or to a terminal, a card is finished by a node the
  notification recipient does not run exactly with a detour to one it runs, every node is
  reachable from an entry and can reach a terminal, and a promoted node has a path to the
  terminal edge that promotes it.
\<close>

theorem workflow_topology_exact:
  assumes "distinct (map fst (dr_nodes d))"
  shows "validateCardTypeTopology d = Inr () \<longleftrightarrow> topology_ok d"
  using assms by (rule topology_exact)

theorem workflow_topology_exact_witness: "topology_ok sample_draft \<and> \<not> topology_ok (sample_draft\<lparr>dr_recipient := ''analyst''\<rparr>)"
proof -
  have "distinct (map fst (dr_nodes sample_draft))" by (simp add: sample_draft_def Let_def)
  moreover have "validateCardTypeTopology (sample_draft\<lparr>dr_recipient := ''analyst''\<rparr>) \<noteq> Inr ()" by code_simp
  ultimately show ?thesis
    using workflow_topology_exact [of sample_draft] workflow_topology_exact [of "sample_draft\<lparr>dr_recipient := ''analyst''\<rparr>"]
      sample_topology by simp
qed

text \<open>
  (C31) The closure check on the drafts of a project succeeds exactly when every permitted child
  type has a draft and every record that a node takes from its descendants is declared by
  every type that can occur below the card.
\<close>

theorem descendant_context_exact:
  assumes "distinct (map fst drafts)"
  shows "validateDescendantContextClosure drafts = Inr () \<longleftrightarrow> context_ok drafts"
  using assms by (rule context_exact)

theorem descendant_context_exact_witness:
  "context_ok [(''project'', sample_draft)] \<and> \<not> context_ok [(''project'', sample_draft\<lparr>dr_permitted := [''task'']\<rparr>)]"
proof -
  have "validateDescendantContextClosure [(''project'', sample_draft)] = Inr ()"
      "validateDescendantContextClosure [(''project'', sample_draft\<lparr>dr_permitted := [''task'']\<rparr>)] \<noteq> Inr ()" by code_simp+
  then show ?thesis
    using descendant_context_exact [of "[(''project'', sample_draft)]"]
      descendant_context_exact [of "[(''project'', sample_draft\<lparr>dr_permitted := [''task'']\<rparr>)]"] by simp
qed

text \<open>
  (C27) Every card type of a compiled project has a state table that the micro actor accepts; an
  activation can reach each of its product nodes, configured outcomes alone lead from each
  product node to a terminal, and no state is a dead end.
\<close>

theorem project_workflows_live:
  assumes compiled: "compileProjectWorkflowDeclarations shellSchema qualitySchema files template_root cfg options = Inr w"
    and ids: "\<forall>(_, source) \<in> set (pc_card_types cfg). case_ids_named source"
    and flow: "(t, flow) \<in> set (pw_card_types w)"
  shows "validateCompiledActorTable (wf_initial flow) (actor_table_of (wf_states flow)) = Inr () \<and>
    (\<forall>(i, s) \<in> set (wf_states flow). (\<exists>port. (i, terminalState port) \<in> (moves ordinary (wf_states flow))\<^sup>*) \<and>
       (\<forall>n. ps_kind s = NodeState n \<and> nc_purpose n = ProductNode \<longrightarrow>
          (wf_initial flow, i) \<in> (moves ordinary (wf_states flow))\<^sup>* \<and>
          (\<exists>port. (i, terminalState port) \<in> (moves configured (wf_states flow))\<^sup>+)))"
proof -
  obtain d correction prompt where ct: "compiled_table d correction prompt (wf_states flow)"
    and initial: "wf_initial flow = ''lifecycle:ready''"
    and valid: "validateCompiledActorTable (wf_initial flow) (actor_table_of (wf_states flow)) = Inr ()"
    using project_table [OF compiled flow ids] .
  have "\<exists>port. (i, terminalState port) \<in> (moves ordinary (wf_states flow))\<^sup>*" if "(i, s) \<in> set (wf_states flow)" for i s
    by (rule state_terminates [OF _ ct]) (use that in force)
  moreover have "(wf_initial flow, i) \<in> (moves ordinary (wf_states flow))\<^sup>* \<and>
      (\<exists>port. (i, terminalState port) \<in> (moves configured (wf_states flow))\<^sup>+)"
    if product: "(i, s) \<in> set (wf_states flow)" "ps_kind s = NodeState n" "nc_purpose n = ProductNode" for i s n
  proof -
    obtain j m where "(j, m) \<in> set (dr_nodes d)" "i = nodeState j" using product_state [OF product ct] by blast
    then have "j \<in> fst ` set (dr_nodes d)" "i = nodeState j" by force+
    then show ?thesis using node_reached [OF _ ct] product_terminates [OF _ ct] initial by simp
  qed
  ultimately show ?thesis using valid by blast
qed

theorem project_workflows_live_witness:
  "(''lifecycle:ready'', nodeState ''review'') \<in> (moves ordinary (wf_states sample_flow))\<^sup>* \<and>
   (\<exists>port. (nodeState ''plan'', terminalState port) \<in> (moves configured (wf_states sample_flow))\<^sup>+)"
proof -
  obtain w where w: "sample_compilation = Inr w" "(''project'', sample_flow) \<in> set (pw_card_types w)" using sample_compiles by blast
  have ids: "\<forall>(_, source) \<in> set (pc_card_types sample_project). case_ids_named source"
    by (simp add: sample_project_def sample_card_type_def sample_node_def case_ids_named_def node_ids_named_def edge_ids_named_def)
  have states: "\<exists>s n. (nodeState i, s) \<in> set (wf_states sample_flow) \<and> ps_kind s = NodeState n \<and> nc_purpose n = ProductNode"
    if "i = ''plan'' \<or> i = ''review''" for i
  proof -
    have "map_from (state_list sample_draft None sample_compiled_declaration) = state_list sample_draft None sample_compiled_declaration"
      by (rule map_from_distinct [OF state_list_distinct [OF sample_formed]]) (simp add: no_reserved_node_def)
    with that show ?thesis by (auto simp: sample_flow_def state_list_def sample_draft_def Let_def)
  qed
  have "wf_initial sample_flow = ''lifecycle:ready''" by (simp add: sample_flow_def)
  with states [of "''plan''"] states [of "''review''"] project_workflows_live [OF w(1) ids w(2)] show ?thesis by fastforce
qed

end
