(* ===== verification/JsonValues.thy ===== *)
theory JsonValues
  imports Schemas Complex_Main
begin

text \<open>
  The JSON values that conversation rows embed in their content: the persisted tool call
  (\<^verbatim>\<open>src/contracts/persisted-tool-call.ts\<close>), the settled tool result
  (\<^verbatim>\<open>src/contracts/tool-result.ts\<close>, \<^verbatim>\<open>image.ts\<close>, \<^verbatim>\<open>view-image.ts\<close>) and the activation marker
  (\<^verbatim>\<open>src/schemas/activation-instructions.ts\<close>).

  \<open>JSON.parse\<close>, \<open>JSON.stringify\<close> and the division of JavaScript numbers are the fields of
  \<open>json_api\<close>; \<open>json_parse\<close> returns \<open>None\<close> where \<open>JSON.parse\<close> throws. A number is the exact
  value of its double, a rational.
\<close>

datatype json =
    JNull
  | JBool bool
  | JNum rat
  | JStr string
  | JArr "json list"
  | JObj "(string \<times> json) list"

record json_api =
  json_parse :: "string \<Rightarrow> json option"
  json_stringify :: "json \<Rightarrow> string"
  js_divide :: "rat \<Rightarrow> rat \<Rightarrow> rat"

section \<open>Reading values\<close>

text \<open>Property access on a plain object, and the primitive zod types.\<close>

fun as_object :: "json \<Rightarrow> (string \<times> json) list option" where
  "as_object (JObj kvs) = Some kvs"
| "as_object _ = None"

fun as_string :: "json \<Rightarrow> string option" where
  "as_string (JStr s) = Some s"
| "as_string _ = None"

fun as_array :: "json \<Rightarrow> json list option" where
  "as_array (JArr xs) = Some xs"
| "as_array _ = None"

fun as_bool :: "json \<Rightarrow> bool option" where
  "as_bool (JBool b) = Some b"
| "as_bool _ = None"

text \<open>\<open>z.number().int()\<close>.\<close>

fun as_integer :: "json \<Rightarrow> int option" where
  "as_integer (JNum q) = (if of_int \<lfloor>q\<rfloor> = q then Some \<lfloor>q\<rfloor> else None)"
| "as_integer _ = None"

fun as_number :: "json \<Rightarrow> rat option" where
  "as_number (JNum q) = Some q"
| "as_number _ = None"

text \<open>
  \<open>z.object({...}).strict()\<close> accepts only the declared names; a required member is read by
  \<open>member\<close>, an optional one by \<open>optional_member\<close>, a nullable one by \<open>nullable\<close>.
\<close>

definition strict_object :: "string list \<Rightarrow> json \<Rightarrow> (string \<times> json) list option" where
  "strict_object names v = Option.bind (as_object v) (\<lambda>kvs.
     if list_all (\<lambda>(k, _). k \<in> set names) kvs then Some kvs else None)"

definition required_member :: "(string \<times> json) list \<Rightarrow> string \<Rightarrow> (json \<Rightarrow> 'a option) \<Rightarrow> 'a option" where
  "required_member kvs k read = Option.bind (map_of kvs k) read"

definition optional_member :: "(string \<times> json) list \<Rightarrow> string \<Rightarrow> (json \<Rightarrow> 'a option) \<Rightarrow> 'a option option" where
  "optional_member kvs k read = (case map_of kvs k of None \<Rightarrow> Some None | Some v \<Rightarrow> map_option Some (read v))"

definition nullable :: "(json \<Rightarrow> 'a option) \<Rightarrow> json \<Rightarrow> 'a option option" where
  "nullable read v = (if v = JNull then Some None else map_option Some (read v))"

definition literal :: "string \<Rightarrow> json \<Rightarrow> unit option" where
  "literal s v = (if v = JStr s then Some () else None)"

definition checked :: "('a \<Rightarrow> bool) \<Rightarrow> (json \<Rightarrow> 'a option) \<Rightarrow> json \<Rightarrow> 'a option" where
  "checked P read v = Option.bind (read v) (\<lambda>x. if P x then Some x else None)"

fun read_all :: "(json \<Rightarrow> 'a option) \<Rightarrow> json list \<Rightarrow> 'a list option" where
  "read_all read [] = Some []"
| "read_all read (v # vs) = Option.bind (read v) (\<lambda>x. map_option ((#) x) (read_all read vs))"

text \<open>
  \<open>canonicalJson\<close>: objects with sorted keys. Keys are compared as the byte strings they are
  here; the program compares UTF-16 units, which agrees on ASCII names.
\<close>

fun key_less :: "string \<Rightarrow> string \<Rightarrow> bool" where
  "key_less _ [] = False"
| "key_less [] (_ # _) = True"
| "key_less (a # as) (b # bs) = (code a < code b \<or> (a = b \<and> key_less as bs))"

fun insert_entry :: "string \<times> json \<Rightarrow> (string \<times> json) list \<Rightarrow> (string \<times> json) list" where
  "insert_entry e [] = [e]"
| "insert_entry e (f # fs) = (if key_less (fst f) (fst e) then f # insert_entry e fs else e # f # fs)"

fun sortJson :: "json \<Rightarrow> json" where
  "sortJson (JArr vs) = JArr (map sortJson vs)"
| "sortJson (JObj kvs) = JObj (foldr insert_entry (map (map_prod id sortJson) kvs) [])"
| "sortJson v = v"

definition canonicalJson :: "json_api \<Rightarrow> json \<Rightarrow> string" where
  "canonicalJson api v = json_stringify api (sortJson v)"

section \<open>The persisted tool call\<close>

record persisted_call =
  pc_id :: string
  pc_name :: string
  pc_arguments :: string

definition parseToolCallMessageForModel :: "json \<Rightarrow> error + persisted_call" where
  "parseToolCallMessageForModel row =
     bindE (optionE (PlainError ''persisted tool-call row is not an object'' []) (as_object row)) (\<lambda>kvs.
     bindE (guardE (Option.bind (map_of kvs ''toolCalls'') as_array = None)
       (PlainError ''persistence row uses deprecated {toolCalls:[...]} wrapper'' [])) (\<lambda>_.
     case Option.bind (map_of kvs ''tool_calls'') as_array of
       Some [call] \<Rightarrow>
         (case as_object call of
            None \<Rightarrow> Inl (PlainError ''persisted tool-call entry is malformed'' [])
          | Some entry \<Rightarrow>
              bindE (guardE (map_of entry ''type'' = Some (JStr ''function''))
                (PlainError ''persisted tool-call entry is malformed'' [])) (\<lambda>_.
              bindE (optionE (PlainError ''persisted tool-call entry is malformed'' [])
                (Option.bind (map_of entry ''id'') as_string)) (\<lambda>i.
              bindE (optionE (PlainError ''persisted tool-call entry is malformed'' [])
                (Option.bind (map_of entry ''function'') as_object)) (\<lambda>fn.
              bindE (optionE (PlainError ''persisted tool-call function must have string name and string arguments'' [])
                (Option.bind (map_of fn ''name'') as_string)) (\<lambda>name.
              bindE (optionE (PlainError ''persisted tool-call function must have string name and string arguments'' [])
                (Option.bind (map_of fn ''arguments'') as_string)) (\<lambda>args.
              Inr \<lparr>pc_id = i, pc_name = name, pc_arguments = args\<rparr>))))))
     | _ \<Rightarrow> Inl (PlainError ''persisted tool-call row must have exactly one entry in tool_calls'' [])))"

section \<open>Tool results\<close>

definition MAX_IMAGE_PIXELS :: int where
  "MAX_IMAGE_PIXELS = 40000000"

definition MAX_IMAGE_BYTES :: int where
  "MAX_IMAGE_BYTES = 16 * 1024 * 1024"

record image_descriptor =
  im_id :: string
  im_width :: int
  im_height :: int
  im_byte_length :: int
  im_sha256 :: string

definition sha256HexSchema :: "string \<Rightarrow> bool" where
  "sha256HexSchema s \<longleftrightarrow> length s = 64 \<and> list_all is_hex s"

definition bounded_int :: "int \<Rightarrow> json \<Rightarrow> int option" where
  "bounded_int most = checked (\<lambda>n. 0 < n \<and> n \<le> most) as_integer"

definition imageDescriptorSchema :: "json \<Rightarrow> image_descriptor option" where
  "imageDescriptorSchema v =
     Option.bind (strict_object [''id'', ''mime_type'', ''width'', ''height'', ''byte_length'', ''sha256''] v) (\<lambda>kv.
     Option.bind (required_member kv ''id'' (checked uuidV4Schema as_string)) (\<lambda>i.
     Option.bind (required_member kv ''mime_type'' (literal ''image/png'')) (\<lambda>_.
     Option.bind (required_member kv ''width'' (bounded_int MAX_IMAGE_PIXELS)) (\<lambda>w.
     Option.bind (required_member kv ''height'' (bounded_int MAX_IMAGE_PIXELS)) (\<lambda>h.
     Option.bind (required_member kv ''byte_length'' (bounded_int MAX_IMAGE_BYTES)) (\<lambda>b.
     Option.bind (required_member kv ''sha256'' (checked sha256HexSchema as_string)) (\<lambda>d.
     if w * h \<le> MAX_IMAGE_PIXELS
     then Some \<lparr>im_id = i, im_width = w, im_height = h, im_byte_length = b, im_sha256 = d\<rparr> else None)))))))"

datatype content_block = TextBlock string | ImageBlock image_descriptor

definition toolResultContentBlockSchema :: "json \<Rightarrow> content_block option" where
  "toolResultContentBlockSchema v = Option.bind (as_object v) (\<lambda>kvs.
     if map_of kvs ''type'' = Some (JStr ''text'') then
       Option.bind (strict_object [''type'', ''text''] v) (\<lambda>kv. required_member kv ''text'' (map_option TextBlock \<circ> as_string))
     else if map_of kvs ''type'' = Some (JStr ''image'') then
       Option.bind (strict_object [''type'', ''image''] v) (\<lambda>kv.
         required_member kv ''image'' (map_option ImageBlock \<circ> imageDescriptorSchema))
     else None)"

datatype tool_result =
    ResultOk "json option" "content_block list option"
  | ResultFailed string "json option"

definition result_blocks :: "json \<Rightarrow> content_block list option" where
  "result_blocks v = Option.bind (as_array v) (\<lambda>vs.
     if vs = [] then None else read_all toolResultContentBlockSchema vs)"

definition toolResultSchema :: "json \<Rightarrow> tool_result option" where
  "toolResultSchema v = Option.bind (as_object v) (\<lambda>kvs.
     if map_of kvs ''success'' = Some (JBool True) then
       Option.bind (strict_object [''success'', ''data'', ''content''] v) (\<lambda>kv.
       Option.bind (optional_member kv ''content'' result_blocks) (\<lambda>blocks.
       Some (ResultOk (map_of kv ''data'') blocks)))
     else if map_of kvs ''success'' = Some (JBool False) then
       Option.bind (strict_object [''success'', ''error'', ''data''] v) (\<lambda>kv.
       Option.bind (required_member kv ''error'' (checked (\<lambda>s. s \<noteq> []) as_string)) (\<lambda>e.
       Some (ResultFailed e (map_of kv ''data''))))
     else None)"

fun result_success :: "tool_result \<Rightarrow> bool" where
  "result_success (ResultOk _ _) = True"
| "result_success (ResultFailed _ _) = False"

fun result_content :: "tool_result \<Rightarrow> content_block list option" where
  "result_content (ResultOk _ blocks) = blocks"
| "result_content (ResultFailed _ _) = None"

fun is_image :: "content_block \<Rightarrow> bool" where
  "is_image (ImageBlock _) = True"
| "is_image (TextBlock _) = False"

text \<open>\<open>(JSON.parse(content) as {success?: unknown}).success === true\<close>.\<close>

definition settled_success :: "json \<Rightarrow> bool" where
  "settled_success v \<longleftrightarrow> (case v of JObj kvs \<Rightarrow> map_of kvs ''success'' = Some (JBool True) | _ \<Rightarrow> False)"

section \<open>The metadata of a viewed image\<close>

definition imageDimensionsSchema :: "json \<Rightarrow> (int \<times> int) option" where
  "imageDimensionsSchema v =
     Option.bind (strict_object [''width'', ''height''] v) (\<lambda>kv.
     Option.bind (required_member kv ''width'' (bounded_int MAX_IMAGE_PIXELS)) (\<lambda>w.
     Option.bind (required_member kv ''height'' (bounded_int MAX_IMAGE_PIXELS)) (\<lambda>h.
     if w * h \<le> MAX_IMAGE_PIXELS then Some (w, h) else None)))"

datatype max_dimension = AtMost int | Original

definition imageMaxDimensionSchema :: "json \<Rightarrow> max_dimension option" where
  "imageMaxDimensionSchema v =
     (if v = JStr ''original'' then Some Original else map_option AtMost (bounded_int 16384 v))"

definition scale_part :: "json \<Rightarrow> rat option" where
  "scale_part = checked (\<lambda>q. 0 < q \<and> q \<le> 1) as_number"

record image_facts =
  if_source :: "int \<times> int"
  if_oriented :: "int \<times> int"
  if_sent :: "int \<times> int"
  if_orientation_applied :: bool
  if_resized :: bool
  if_scale_x :: rat
  if_scale_y :: rat
  if_max_dimension :: max_dimension

definition refineImageNormalizationFacts :: "json_api \<Rightarrow> image_facts \<Rightarrow> bool" where
  "refineImageNormalizationFacts api f =
     (let (sw, sh) = if_source f; (uw, uh) = if_oriented f; (w, h) = if_sent f;
          same = (sw = uw \<and> sh = uh); swapped = (sw = uh \<and> sh = uw)
      in (same \<or> swapped) \<and> (if_orientation_applied f \<or> same) \<and> w \<le> uw \<and> h \<le> uh \<and>
         if_scale_x f = js_divide api (of_int w) (of_int uw) \<and>
         if_scale_y f = js_divide api (of_int h) (of_int uh) \<and>
         if_resized f = (w < uw \<or> h < uh) \<and>
         (case if_max_dimension f of Original \<Rightarrow> \<not> if_resized f | AtMost n \<Rightarrow> max w h \<le> n) \<and>
         \<bar>w * uh - h * uw\<bar> \<le> max uw uh)"

definition viewImageDataSchema :: "json_api \<Rightarrow> json \<Rightarrow> image_facts option" where
  "viewImageDataSchema api v =
     Option.bind (strict_object [''source_path'', ''source_dimensions'', ''oriented_dimensions'', ''sent_dimensions'',
       ''orientation_applied'', ''resized'', ''scale'', ''max_dimension''] v) (\<lambda>kv.
     Option.bind (required_member kv ''source_path'' (checked (\<lambda>s. s \<noteq> []) as_string)) (\<lambda>_.
     Option.bind (required_member kv ''source_dimensions'' imageDimensionsSchema) (\<lambda>source.
     Option.bind (required_member kv ''oriented_dimensions'' imageDimensionsSchema) (\<lambda>oriented.
     Option.bind (required_member kv ''sent_dimensions'' imageDimensionsSchema) (\<lambda>sent.
     Option.bind (required_member kv ''orientation_applied'' as_bool) (\<lambda>applied.
     Option.bind (required_member kv ''resized'' as_bool) (\<lambda>resized.
     Option.bind (required_member kv ''scale'' (strict_object [''x'', ''y''])) (\<lambda>scale.
     Option.bind (required_member scale ''x'' scale_part) (\<lambda>x.
     Option.bind (required_member scale ''y'' scale_part) (\<lambda>y.
     Option.bind (required_member kv ''max_dimension'' imageMaxDimensionSchema) (\<lambda>m.
     let facts = \<lparr>if_source = source, if_oriented = oriented, if_sent = sent, if_orientation_applied = applied,
           if_resized = resized, if_scale_x = x, if_scale_y = y, if_max_dimension = m\<rparr>
     in if refineImageNormalizationFacts api facts then Some facts else None)))))))))))"

definition assertViewImageResult :: "json_api \<Rightarrow> json option \<Rightarrow> image_descriptor \<Rightarrow> error + unit" where
  "assertViewImageResult api data picture =
     bindE (optionE (ZodError ''viewImageData'') (Option.bind data (viewImageDataSchema api))) (\<lambda>facts.
     guardE (if_sent facts = (im_width picture, im_height picture))
       (PlainError ''Image result requires consistent strict view_image metadata.'' []))"

section \<open>Activation markers\<close>

text \<open>\<open>conversationSessionIdentity\<close>: the agent and, of a card session, the card.\<close>

definition conversationSessionIdentity :: "string \<Rightarrow> error + string \<times> string option" where
  "conversationSessionIdentity sessionId = (case split_on CHR '':'' sessionId of
     [a, name, rest] \<Rightarrow>
       if a = ''agent'' \<and> agentNameSchema name \<and> (rest = ''global'' \<or> cardIdSchema rest)
       then Inr (name, if rest = ''global'' then None else Some rest)
       else Inl (ZodError ''conversationSessionId'')
   | _ \<Rightarrow> Inl (ZodError ''conversationSessionId''))"

definition canonicalUuidSchema :: "string \<Rightarrow> bool" where
  "canonicalUuidSchema s \<longleftrightarrow> length s = 36 \<and>
     list_all (\<lambda>(i, c).
       if i \<in> {8, 13, 18, 23} then c = CHR ''-''
       else if i = 14 then c \<in> set ''12345678''
       else if i = 19 then c \<in> {CHR ''8'', CHR ''9'', CHR ''a'', CHR ''b''}
       else is_hex c) (enumerate 0 s)"

datatype activation_caller = CallerRoot | CallerGlobal | CallerParent string string

text \<open>\<open>CallerParent\<close> keeps the card and the session of the parent, the parts that are used.\<close>

record prepared_instructions =
  pi_activation_id :: "string option"
  pi_caller :: activation_caller
  pi_card :: "string option"
  pi_direction :: "string option"
  pi_node :: "string option"

datatype activation_instructions = Prepared prepared_instructions | Unavailable | NotApplicable

record activation_payload =
  ap_agent_name :: string
  ap_input_id :: string
  ap_timestamp :: string
  ap_instructions :: activation_instructions
  ap_card_id :: "string option"

definition activation_caller_schema :: "zod \<Rightarrow> json \<Rightarrow> activation_caller option" where
  "activation_caller_schema z v = Option.bind (as_object v) (\<lambda>kvs.
     if map_of kvs ''kind'' = Some (JStr ''root'') then map_option (\<lambda>_. CallerRoot) (strict_object [''kind''] v)
     else if map_of kvs ''kind'' = Some (JStr ''global'') then map_option (\<lambda>_. CallerGlobal) (strict_object [''kind''] v)
     else if map_of kvs ''kind'' = Some (JStr ''parent'') then
       Option.bind (strict_object [''kind'', ''cardId'', ''sessionId'', ''sourceInputId'', ''toolCallId'', ''toolName''] v) (\<lambda>kv.
       Option.bind (required_member kv ''cardId'' (checked cardIdSchema as_string)) (\<lambda>card.
       Option.bind (required_member kv ''sessionId'' (checked conversationSessionIdSchema as_string)) (\<lambda>session.
       Option.bind (required_member kv ''sourceInputId'' (checked (uuid z) as_string)) (\<lambda>_.
       Option.bind (required_member kv ''toolCallId'' (checked (\<lambda>s. s \<noteq> []) as_string)) (\<lambda>_.
       Option.bind (required_member kv ''toolName'' (literal ''activate_card'')) (\<lambda>_.
       Some (CallerParent card session)))))))
     else None)"

definition activation_card_schema :: "json \<Rightarrow> string option" where
  "activation_card_schema v =
     Option.bind (strict_object [''cardId'', ''cardType'', ''title''] v) (\<lambda>kv.
     Option.bind (required_member kv ''cardId'' (checked cardIdSchema as_string)) (\<lambda>card.
     Option.bind (required_member kv ''cardType'' (checked cardTypeNameSchema as_string)) (\<lambda>_.
     Option.bind (required_member kv ''title'' as_string) (\<lambda>_. Some card))))"

definition activation_direction_schema :: "json \<Rightarrow> string option" where
  "activation_direction_schema v =
     Option.bind (strict_object [''text''] v) (\<lambda>kv. required_member kv ''text'' (checked (\<lambda>s. \<not> is_blank s) as_string))"

definition activation_node_schema :: "json \<Rightarrow> string option" where
  "activation_node_schema v =
     Option.bind (strict_object [''node_id'', ''text''] v) (\<lambda>kv.
     Option.bind (required_member kv ''node_id'' (checked is_name as_string)) (\<lambda>node.
     Option.bind (required_member kv ''text'' as_string) (\<lambda>_. Some node)))"

definition activationInstructionsSchema :: "zod \<Rightarrow> json \<Rightarrow> activation_instructions option" where
  "activationInstructionsSchema z v = Option.bind (as_object v) (\<lambda>kvs.
     if map_of kvs ''kind'' = Some (JStr ''prepared'') then
       Option.bind (strict_object [''kind'', ''role_text'', ''activation_id'', ''caller'', ''card'', ''parent_direction'', ''node''] v) (\<lambda>kv.
       Option.bind (required_member kv ''role_text'' as_string) (\<lambda>_.
       Option.bind (required_member kv ''activation_id'' (nullable (checked (uuid z) as_string))) (\<lambda>activation.
       Option.bind (required_member kv ''caller'' (activation_caller_schema z)) (\<lambda>caller.
       Option.bind (required_member kv ''card'' (nullable activation_card_schema)) (\<lambda>card.
       Option.bind (required_member kv ''parent_direction'' (nullable activation_direction_schema)) (\<lambda>direction.
       Option.bind (required_member kv ''node'' (nullable activation_node_schema)) (\<lambda>node.
       Some (Prepared \<lparr>pi_activation_id = activation, pi_caller = caller, pi_card = card,
         pi_direction = direction, pi_node = node\<rparr>))))))))
     else if map_of kvs ''kind'' = Some (JStr ''unavailable'') then
       Option.bind (strict_object [''kind'', ''reason''] v) (\<lambda>kv.
       Option.bind (required_member kv ''reason'' (literal ''not_recorded'')) (\<lambda>_. Some Unavailable))
     else if map_of kvs ''kind'' = Some (JStr ''not_applicable'') then
       Option.bind (strict_object [''kind'', ''reason''] v) (\<lambda>kv.
       Option.bind (required_member kv ''reason'' (literal ''non_model_ingress'')) (\<lambda>_. Some NotApplicable))
     else None)"

definition activationOpenPayloadSchema :: "zod \<Rightarrow> json \<Rightarrow> activation_payload option" where
  "activationOpenPayloadSchema z v =
     Option.bind (strict_object [''event'', ''agent_name'', ''input_id'', ''timestamp'', ''instructions'', ''card_id''] v) (\<lambda>kv.
     Option.bind (required_member kv ''event'' (literal ''activation_open'')) (\<lambda>_.
     Option.bind (required_member kv ''agent_name'' (checked agentNameSchema as_string)) (\<lambda>name.
     Option.bind (required_member kv ''input_id'' (checked canonicalUuidSchema as_string)) (\<lambda>input.
     Option.bind (required_member kv ''timestamp'' (checked (datetime z) as_string)) (\<lambda>time.
     Option.bind (required_member kv ''instructions'' (activationInstructionsSchema z)) (\<lambda>instructions.
     Option.bind (optional_member kv ''card_id'' (checked cardIdSchema as_string)) (\<lambda>card.
     Some \<lparr>ap_agent_name = name, ap_input_id = input, ap_timestamp = time,
       ap_instructions = instructions, ap_card_id = card\<rparr>)))))))"

definition prepared_consistent :: "prepared_instructions \<Rightarrow> string option \<Rightarrow> bool" where
  "prepared_consistent p cardId \<longleftrightarrow>
     (pi_node p = None) = (cardId = None) \<and> (pi_card p = None) = (cardId = None) \<and>
     (pi_activation_id p = None) = (cardId = None) \<and> (pi_caller p = CallerGlobal) = (cardId = None) \<and>
     (pi_caller p = CallerRoot \<longrightarrow> cardId = Some ''project'') \<and>
     (pi_direction p \<noteq> None) = (case pi_caller p of CallerParent _ _ \<Rightarrow> True | _ \<Rightarrow> False) \<and>
     (pi_card p \<noteq> None \<longrightarrow> pi_card p = cardId)"

definition check_parent_evidence :: "string \<Rightarrow> string option \<Rightarrow> activation_caller \<Rightarrow> error + unit" where
  "check_parent_evidence sessionId cardId caller = (case caller of
     CallerParent parent session \<Rightarrow>
       (case cardId of
          None \<Rightarrow> Inl (PlainError ''has malformed parent activation evidence.'' [sessionId])
        | Some c \<Rightarrow>
            bindE (cardParentId c) (\<lambda>p.
            bindE (guardE (p = Some parent) (PlainError ''has malformed parent activation evidence.'' [sessionId])) (\<lambda>_.
            bindE (conversationSessionIdentity session) (\<lambda>(_, owner).
            guardE (owner = Some parent) (PlainError ''has malformed parent activation evidence.'' [sessionId])))))
   | _ \<Rightarrow> Inr ())"

definition parseActivationOpenPayload ::
    "json_api \<Rightarrow> zod \<Rightarrow> string \<Rightarrow> string \<Rightarrow> string \<Rightarrow> error + activation_payload option" where
  "parseActivationOpenPayload api z content sessionId timestamp =
     bindE (optionE (PlainError ''SyntaxError'' []) (json_parse api content)) (\<lambda>v.
     if Option.bind (as_object v) (\<lambda>kvs. map_of kvs ''event'') \<noteq> Some (JStr ''activation_open'') then Inr None
     else
       bindE (optionE (ZodError ''activationOpenPayload'') (activationOpenPayloadSchema z v)) (\<lambda>payload.
       bindE (conversationSessionIdentity sessionId) (\<lambda>(agentName, owner).
       bindE (guardE (ap_agent_name payload = agentName \<and> ap_card_id payload = owner \<and> ap_timestamp payload = timestamp)
         (PlainError ''has a malformed activation_open marker identity.'' [sessionId])) (\<lambda>_.
       bindE (case ap_instructions payload of
           Prepared p \<Rightarrow> guardE (prepared_consistent p (ap_card_id payload))
             (PlainError ''has a malformed activation instruction node identity.'' [sessionId])
         | _ \<Rightarrow> Inr ()) (\<lambda>_.
       bindE (guardE (\<not> (ap_card_id payload \<noteq> None \<and> ap_instructions payload = NotApplicable))
         (PlainError ''requires model activation instructions.'' [sessionId])) (\<lambda>_.
       bindE (case ap_instructions payload of
           Prepared p \<Rightarrow> check_parent_evidence sessionId (ap_card_id payload) (pi_caller p)
         | _ \<Rightarrow> Inr ()) (\<lambda>_.
       Inr (Some payload))))))))"

end
