(* ===== verification/ConversationRows.thy ===== *)
theory ConversationRows
  imports JsonValues
begin

text \<open>
  The rows of a conversation: context policies (\<^verbatim>\<open>src/schemas/context-policy.ts\<close>), record
  observations (\<^verbatim>\<open>src/schemas/record-observation.ts\<close>), the message schema
  (\<^verbatim>\<open>src/schemas/validators.ts\<close>), content-policy refusals (\<^verbatim>\<open>src/schemas/content-policy.ts\<close>), the
  private rows of a provider (\<^verbatim>\<open>src/contracts/responses-conversation.ts\<close>) and the identities of
  tool calls and results (\<^verbatim>\<open>src/schemas/message-identity.ts\<close>).
\<close>

section \<open>Context policies\<close>

datatype context_replacement = Retain | LatestSnapshot string string

datatype context_audience = PrimaryAndSummarizer | SummarizerOnly | EvidenceOnly

datatype context_evidence =
    NoEvidence
  | LocatorEvidence string string
  | QueryEvidence string json string

datatype template_replacement = TemplateRetain | TemplateLatest string

datatype evidence_mode = ModeNone | ModeObservational | ModeLocator

record policy_template =
  pt_replacement :: template_replacement
  pt_audience :: context_audience
  pt_evidence_mode :: evidence_mode

datatype settled_evidence = SettledNone | SettledQuery string | SettledLocator string string

datatype settlement_origin = Executed | RejectedBeforeExecution | UnsupportedTool | ExecutionFailed

datatype structural_behavior =
    ActivationBoundary | ProviderFailure | ModelRecoveryNotice | ContentPolicyRefusalRow | ResponsesPrivate | RecordObservationRow

datatype row_policy =
    ContentPolicy context_replacement context_audience context_evidence bool "string option"
  | ToolCallPolicy policy_template string string
  | ToolResultPolicy settlement_origin string string settled_evidence
  | StructuralPolicy structural_behavior

text \<open>The last two fields of \<open>ContentPolicy\<close> are \<open>compactable\<close> and \<open>compaction_key\<close>.\<close>

fun contextReplacementSchema :: "context_replacement \<Rightarrow> bool" where
  "contextReplacementSchema Retain = True"
| "contextReplacementSchema (LatestSnapshot key digest) = (key \<noteq> [] \<and> sha256HexSchema digest)"

fun contextEvidenceSchema :: "context_evidence \<Rightarrow> bool" where
  "contextEvidenceSchema NoEvidence = True"
| "contextEvidenceSchema (LocatorEvidence locator digest) = (locator \<noteq> [] \<and> sha256HexSchema digest)"
| "contextEvidenceSchema (QueryEvidence tool _ digest) = (tool \<noteq> [] \<and> sha256HexSchema digest)"

fun settledToolEvidenceSchema :: "settled_evidence \<Rightarrow> bool" where
  "settledToolEvidenceSchema SettledNone = True"
| "settledToolEvidenceSchema (SettledQuery digest) = sha256HexSchema digest"
| "settledToolEvidenceSchema (SettledLocator locator digest) = (locator \<noteq> [] \<and> sha256HexSchema digest)"

definition toolResultPolicyTemplateSchema :: "policy_template \<Rightarrow> bool" where
  "toolResultPolicyTemplateSchema t \<longleftrightarrow>
     (case pt_replacement t of TemplateRetain \<Rightarrow> True | TemplateLatest key \<Rightarrow> key \<noteq> [])"

fun rowContextPolicySchema :: "row_policy \<Rightarrow> bool" where
  "rowContextPolicySchema (ContentPolicy replacement audience evidence compactable key) \<longleftrightarrow>
     contextReplacementSchema replacement \<and> contextEvidenceSchema evidence \<and>
     pred_option (\<lambda>k. k \<noteq> []) key \<and> \<not> (key \<noteq> None \<and> compactable)"
| "rowContextPolicySchema (ToolCallPolicy template bytes digest) \<longleftrightarrow>
     toolResultPolicyTemplateSchema template \<and> bytes \<noteq> [] \<and> sha256HexSchema digest"
| "rowContextPolicySchema (ToolResultPolicy origin result call evidence) \<longleftrightarrow>
     sha256HexSchema result \<and> sha256HexSchema call \<and> settledToolEvidenceSchema evidence"
| "rowContextPolicySchema (StructuralPolicy behavior) \<longleftrightarrow> True"

text \<open>The template as the object that \<open>canonicalJson\<close> serialises.\<close>

fun audience_name :: "context_audience \<Rightarrow> string" where
  "audience_name PrimaryAndSummarizer = ''primary_and_summarizer''"
| "audience_name SummarizerOnly = ''summarizer_only''"
| "audience_name EvidenceOnly = ''evidence_only''"

fun mode_name :: "evidence_mode \<Rightarrow> string" where
  "mode_name ModeNone = ''none''"
| "mode_name ModeObservational = ''observational_query''"
| "mode_name ModeLocator = ''canonical_locator''"

definition template_json :: "policy_template \<Rightarrow> json" where
  "template_json t = JObj [
     (''storage'', JStr ''durable''),
     (''replacement'', case pt_replacement t of
        TemplateRetain \<Rightarrow> JObj [(''kind'', JStr ''retain'')]
      | TemplateLatest key \<Rightarrow> JObj [(''kind'', JStr ''latest_snapshot''), (''key'', JStr key)]),
     (''settledAudience'', JStr (audience_name (pt_audience t))),
     (''evidenceMode'', JStr (mode_name (pt_evidence_mode t)))]"

definition DURABLE_PRIMARY_CONTENT_POLICY :: row_policy where
  "DURABLE_PRIMARY_CONTENT_POLICY = ContentPolicy Retain PrimaryAndSummarizer NoEvidence True None"

definition durablePrimaryContentPolicy :: "bool \<Rightarrow> string option \<Rightarrow> row_policy" where
  "durablePrimaryContentPolicy compactable key = ContentPolicy Retain PrimaryAndSummarizer NoEvidence compactable key"

definition MODEL_RECOVERY_NOTICE_TEXT :: string where
  "MODEL_RECOVERY_NOTICE_TEXT =
     ''The previous runtime activation was interrupted. External or domain effects may or may not have happened. Inspect current card, record, and tool facts before repeating work.''"

section \<open>Record observations\<close>

record observed_accepted =
  oa_entry_id :: string
  oa_version :: nat
  oa_locator :: string
  oa_content_sha256 :: string

datatype observed_selection =
    ObservedAccepted observed_accepted
  | ObservedBaseline string
  | ObservedDraft nat nat string "observed_accepted option"
  | ObservedAbsent
  | ObservedEmpty

datatype observed_exposure =
    ExposedMetadata | ExposedReference | ExposedBody | ExposedExcerpt | ExposedSlice nat nat nat

datatype observed_view = AcceptedView | EffectiveView

record selection_observation =
  so_card_id :: string
  so_record_name :: string
  so_view :: observed_view
  so_current :: bool
  so_head :: "(string \<times> nat) option"
  so_selection :: observed_selection
  so_exposure :: observed_exposure

text \<open>\<open>encodeURIComponent\<close> on the UTF-8 bytes of a string.\<close>

definition hex_digit :: "nat \<Rightarrow> char" where
  "hex_digit n = char_of (if n < 10 then 48 + n else 55 + n)"

definition uri_unreserved :: "char \<Rightarrow> bool" where
  "uri_unreserved c \<longleftrightarrow> is_lower c \<or> is_digit c \<or> (65 \<le> code c \<and> code c \<le> 90) \<or> c \<in> set ''-_.!~*()'' \<or> code c = 39"

definition encodeURIComponent :: "string \<Rightarrow> string" where
  "encodeURIComponent s = concat (map (\<lambda>c. if uri_unreserved c then [c]
     else [CHR ''%'', hex_digit (code c div 16), hex_digit (code c mod 16)]) s)"

fun decimal_text :: "nat \<Rightarrow> string" where
  "decimal_text n = (if n < 10 then [char_of (48 + n)] else decimal_text (n div 10) @ [char_of (48 + n mod 10)])"

declare decimal_text.simps [simp del]

definition record_locator :: "string \<Rightarrow> string \<Rightarrow> nat \<Rightarrow> string" where
  "record_locator name cardId version =
     ''record:///'' @ encodeURIComponent name @ ''?card='' @ encodeURIComponent cardId @ ''&v='' @ decimal_text version"

definition acceptedSelectionSchema :: "observed_accepted \<Rightarrow> bool" where
  "acceptedSelectionSchema a \<longleftrightarrow> uuidV4Schema (oa_entry_id a) \<and> positiveSafeIntegerSchema (oa_version a) \<and>
     oa_locator a \<noteq> [] \<and> sha256HexSchema (oa_content_sha256 a)"

fun observedSelectionSchema :: "observed_selection \<Rightarrow> bool" where
  "observedSelectionSchema (ObservedAccepted a) = acceptedSelectionSchema a"
| "observedSelectionSchema (ObservedBaseline digest) = sha256HexSchema digest"
| "observedSelectionSchema (ObservedDraft version target digest backing) \<longleftrightarrow>
     safe_nat version \<and> positiveSafeIntegerSchema target \<and> sha256HexSchema digest \<and>
     pred_option acceptedSelectionSchema backing \<and>
     target = (case backing of None \<Rightarrow> 0 | Some a \<Rightarrow> oa_version a) + 1 \<and>
     (version = target \<or> version = 0 \<and> target = 1 \<and> backing = None)"
| "observedSelectionSchema ObservedAbsent = True"
| "observedSelectionSchema ObservedEmpty = True"

fun observedExposureSchema :: "observed_exposure \<Rightarrow> bool" where
  "observedExposureSchema (ExposedSlice offset bytes full) \<longleftrightarrow>
     safe_nat offset \<and> safe_nat bytes \<and> safe_nat full \<and> offset + bytes \<le> full"
| "observedExposureSchema _ = True"

fun exposes_body :: "observed_exposure \<Rightarrow> bool" where
  "exposes_body (ExposedSlice _ _ _) = True"
| "exposes_body ExposedBody = True"
| "exposes_body ExposedExcerpt = True"
| "exposes_body _ = False"

fun observed_backing :: "observed_selection \<Rightarrow> observed_accepted option" where
  "observed_backing (ObservedAccepted a) = Some a"
| "observed_backing (ObservedDraft _ _ _ backing) = backing"
| "observed_backing _ = None"

definition recordSelectionObservationSchema :: "selection_observation \<Rightarrow> bool" where
  "recordSelectionObservationSchema v \<longleftrightarrow>
     cardIdSchema (so_card_id v) \<and> recordNameSchema (so_record_name v) \<and>
     pred_option (\<lambda>(i, revision). uuidV4Schema i \<and> positiveSafeIntegerSchema revision) (so_head v) \<and>
     observedSelectionSchema (so_selection v) \<and> observedExposureSchema (so_exposure v) \<and>
     \<not> (so_view v = AcceptedView \<and> (case so_selection v of ObservedDraft _ _ _ _ \<Rightarrow> True | ObservedBaseline _ \<Rightarrow> True | _ \<Rightarrow> False)) \<and>
     (\<not> so_current v \<longrightarrow> so_head v = None \<and> (case so_selection v of ObservedAccepted _ \<Rightarrow> True | _ \<Rightarrow> False)) \<and>
     (so_current v \<and> so_head v = None \<longrightarrow> so_selection v = ObservedAbsent) \<and>
     \<not> (so_selection v = ObservedAbsent \<and> so_head v \<noteq> None \<and> so_view v = EffectiveView) \<and>
     \<not> ((so_selection v = ObservedAbsent \<or> so_selection v = ObservedEmpty) \<and> exposes_body (so_exposure v)) \<and>
     pred_option (\<lambda>a. pred_option (\<lambda>(_, revision). oa_version a \<le> revision) (so_head v) \<and>
         oa_locator a = record_locator (so_record_name v) (so_card_id v) (oa_version a))
       (observed_backing (so_selection v))"

datatype observation_source =
    FromRead string string string
  | FromMutation string string string
  | FromPreparation string string
  | FromPrompt string string string

text \<open>
  \<open>FromRead\<close> and \<open>FromMutation\<close> carry \<open>input_id\<close>, \<open>tool_call_id\<close> and \<open>tool_name\<close>;
  \<open>FromPreparation\<close> and \<open>FromPrompt\<close> carry \<open>input_id\<close>, \<open>node_id\<close> and, for a prompt, \<open>reference\<close>.
\<close>

fun recordObservationSourceSchema :: "observation_source \<Rightarrow> bool" where
  "recordObservationSourceSchema (FromRead input call tool) \<longleftrightarrow> uuidV4Schema input \<and> call \<noteq> [] \<and> tool \<noteq> []"
| "recordObservationSourceSchema (FromMutation input call tool) \<longleftrightarrow> uuidV4Schema input \<and> call \<noteq> [] \<and> tool \<noteq> []"
| "recordObservationSourceSchema (FromPreparation input node) \<longleftrightarrow> uuidV4Schema input \<and> node \<noteq> []"
| "recordObservationSourceSchema (FromPrompt input node reference) \<longleftrightarrow> uuidV4Schema input \<and> node \<noteq> [] \<and> reference \<noteq> []"

record record_observation =
  ob_observed :: selection_observation
  ob_source :: observation_source

definition recordObservationSchema :: "record_observation \<Rightarrow> bool" where
  "recordObservationSchema b \<longleftrightarrow>
     recordSelectionObservationSchema (ob_observed b) \<and> recordObservationSourceSchema (ob_source b)"

text \<open>\<open>JSON.stringify\<close> of a list of strings is injective, so the key is the triple.\<close>

definition recordObservationKey :: "selection_observation \<Rightarrow> string \<times> string \<times> observed_view" where
  "recordObservationKey v = (so_card_id v, so_record_name v, so_view v)"

section \<open>Messages\<close>

datatype message_role = UserRole | AssistantRole | SystemRole | ToolRole

datatype message_kind =
    KText | KActivity | KToolCall | KToolResult | KModelIssue | KModelRepair | KContentPolicyRetry
  | KContentPolicyRefusal | KModelRecovered | KProviderPrivate | KRecordObservation | KRecordPrompt

datatype projection_kind = AssistantMessage | AssistantToolCall

record provider_projection =
  pp_source_input_id :: string
  pp_private_message_id :: string
  pp_projection_kind :: projection_kind

record prompt_provenance =
  rp_reference :: string
  rp_node_id :: string
  rp_changed :: bool

record agent_message =
  am_id :: string
  am_session_id :: string
  am_role :: message_role
  am_kind :: message_kind
  am_content :: string
  am_policy :: row_policy
  am_round_id :: string
  am_message_index :: nat
  am_block_index :: nat
  am_tool :: "string option"
  am_tool_call_id :: "string option"
  am_timestamp :: string
  am_links :: "(string \<times> string \<times> string option) list option"
  am_model_spec :: "string option"
  am_requested_model_spec :: "string option"
  am_projection :: "provider_projection option"
  am_workflow_prompt :: bool
  am_observations :: "record_observation list option"
  am_record_prompt :: "prompt_provenance option"

section \<open>Identities of tool calls and results\<close>

text \<open>\<open>lastIndexOf\<close> and \<open>indexOf\<close> on strings; \<open>undefined\<close> and the empty string are falsy.\<close>

definition occurrences :: "string \<Rightarrow> string \<Rightarrow> nat list" where
  "occurrences p s = filter (\<lambda>k. starts_with p (drop k s)) [0..<Suc (length s)]"

definition truthy_text :: "string option \<Rightarrow> bool" where
  "truthy_text s \<longleftrightarrow> s \<noteq> None \<and> s \<noteq> Some []"

definition source_input_id :: "string \<Rightarrow> string \<Rightarrow> string option \<Rightarrow> error + string" where
  "source_input_id tag i toolCallId =
     (let suffix = tag @ (if truthy_text toolCallId then the toolCallId else []);
          found = occurrences suffix i;
          index = (if found = [] then 0 else if truthy_text toolCallId then last found else hd found)
      in bindE (guardE (0 < index) (PlainError ''Malformed tool message id: missing suffix.'' [i, suffix])) (\<lambda>_.
         bindE (guardE (\<not> (truthy_text toolCallId \<and> index + length suffix \<noteq> length i))
           (PlainError ''Malformed tool message id: unexpected trailing content.'' [i])) (\<lambda>_.
         Inr (take index i))))"

definition sourceInputIdFromToolCallMessageId :: "string \<Rightarrow> string option \<Rightarrow> error + string" where
  "sourceInputIdFromToolCallMessageId = source_input_id '':tool-call:''"

definition sourceInputIdFromToolResultMessageId :: "string \<Rightarrow> string option \<Rightarrow> error + string" where
  "sourceInputIdFromToolResultMessageId = source_input_id '':tool-result:''"

record tool_identity =
  ti_session_id :: string
  ti_source_input_id :: string
  ti_tool_call_id :: string

definition loggedToolCallKey :: "tool_identity \<Rightarrow> string" where
  "loggedToolCallKey t = join '':'' [ti_session_id t, ti_source_input_id t, ti_tool_call_id t]"

definition loggedToolCallIdentity :: "agent_message \<Rightarrow> error + tool_identity option" where
  "loggedToolCallIdentity m =
     (if am_kind m \<noteq> KToolCall \<or> \<not> truthy_text (am_tool_call_id m) then Inr None
      else bindE (sourceInputIdFromToolCallMessageId (am_id m) (am_tool_call_id m)) (\<lambda>input.
        Inr (Some \<lparr>ti_session_id = am_session_id m, ti_source_input_id = input,
          ti_tool_call_id = the (am_tool_call_id m)\<rparr>)))"

definition loggedToolResultIdentity :: "agent_message \<Rightarrow> error + tool_identity option" where
  "loggedToolResultIdentity m =
     (if am_kind m \<noteq> KToolResult \<or> \<not> truthy_text (am_tool_call_id m) then Inr None
      else bindE (sourceInputIdFromToolResultMessageId (am_id m) (am_tool_call_id m)) (\<lambda>input.
        Inr (Some \<lparr>ti_session_id = am_session_id m, ti_source_input_id = input,
          ti_tool_call_id = the (am_tool_call_id m)\<rparr>)))"

section \<open>Content-policy rows and private rows\<close>

definition CONTENT_POLICY_RETRY_TEXT :: string where
  "CONTENT_POLICY_RETRY_TEXT =
     ''Saivage authorizes only assistance that the provider can give within its applicable safety requirements. This automated message is not an operator attestation about the request'' @ [char_of (39::nat)] @
     ''s purpose, locality, or benignity. If compliant assistance is possible, continue within those requirements; otherwise refuse.''"

text \<open>The refusal schema, and the input the refusal answers.\<close>

definition contentPolicyRefusalContentSchema :: "zod \<Rightarrow> json \<Rightarrow> string option" where
  "contentPolicyRefusalContentSchema z v =
     Option.bind (strict_object [''version'', ''type'', ''source_input_id'', ''candidate'', ''provider_response''] v) (\<lambda>kv.
     if map_of kv ''version'' \<noteq> Some (JNum 1) then None else
     Option.bind (required_member kv ''type'' (literal ''content_policy_refusal'')) (\<lambda>_.
     Option.bind (required_member kv ''source_input_id'' (checked (uuid z) as_string)) (\<lambda>input.
     Option.bind (required_member kv ''candidate'' (strict_object [''provider'', ''account'', ''model''])) (\<lambda>candidate.
     Option.bind (required_member candidate ''provider'' (checked (\<lambda>s. s \<noteq> []) as_string)) (\<lambda>_.
     Option.bind (required_member candidate ''account'' (nullable (checked (\<lambda>s. s \<noteq> []) as_string))) (\<lambda>_.
     Option.bind (required_member candidate ''model'' (checked (\<lambda>s. s \<noteq> []) as_string)) (\<lambda>_.
     Option.bind (required_member kv ''provider_response'' as_string) (\<lambda>_. Some input))))))))"

definition parseCanonicalContentPolicyRefusal :: "json_api \<Rightarrow> zod \<Rightarrow> string \<Rightarrow> error + string" where
  "parseCanonicalContentPolicyRefusal api z content =
     bindE (optionE (PlainError ''SyntaxError'' []) (json_parse api content)) (\<lambda>v.
     bindE (optionE (ZodError ''contentPolicyRefusalContent'') (contentPolicyRefusalContentSchema z v)) (\<lambda>input.
     bindE (guardE (content = canonicalJson api v)
       (PlainError ''content_policy_refusal content must be canonical JSON.'' [])) (\<lambda>_.
     Inr input)))"

fun truthy_json :: "json \<Rightarrow> bool" where
  "truthy_json JNull = False"
| "truthy_json (JBool b) = b"
| "truthy_json (JNum q) = (q \<noteq> 0)"
| "truthy_json (JStr s) = (s \<noteq> [])"
| "truthy_json (JArr _) = True"
| "truthy_json (JObj _) = True"

record private_content =
  pv_source_input_id :: json
  pv_projection_message_id :: json

definition truthy_member :: "(string \<times> json) list \<Rightarrow> string \<Rightarrow> bool" where
  "truthy_member kv k \<longleftrightarrow> pred_option truthy_json (map_of kv k) \<and> map_of kv k \<noteq> None"

definition parsePrivateContent :: "json_api \<Rightarrow> agent_message \<Rightarrow> error + private_content" where
  "parsePrivateContent api m =
     bindE (guardE (am_kind m = KProviderPrivate) (PlainError ''is not a provider_private row.'' [am_id m])) (\<lambda>_.
     bindE (optionE (PlainError ''SyntaxError'' []) (json_parse api (am_content m))) (\<lambda>v.
     bindE (guardE (v \<noteq> JNull) (PlainError ''TypeError'' [])) (\<lambda>_.
     let kv = (case v of JObj kvs \<Rightarrow> kvs | _ \<Rightarrow> []) in
     bindE (guardE (map_of kv ''transport'' = Some (JStr ''openai-responses''))
       (PlainError ''has unsupported transport.'' [am_id m])) (\<lambda>_.
     bindE (guardE (required_member kv ''producer_account_id'' (checked sha256HexSchema as_string) \<noteq> None)
       (PlainError ''has invalid producer account identity.'' [am_id m])) (\<lambda>_.
     bindE (guardE (list_all (truthy_member kv) [''source_input_id'', ''projection_message_id'', ''provider'', ''model''] \<and>
         Option.bind (map_of kv ''output'') as_array \<noteq> None)
       (PlainError ''is malformed.'' [am_id m])) (\<lambda>_.
     Inr \<lparr>pv_source_input_id = the (map_of kv ''source_input_id''),
       pv_projection_message_id = the (map_of kv ''projection_message_id'')\<rparr>))))))"

section \<open>The message schema\<close>

definition roundIdGrammar :: "string \<Rightarrow> bool" where
  "roundIdGrammar s = (case split_on CHR ''-'' s of
     [r, kind, hex] \<Rightarrow> r = ''r'' \<and> kind \<in> {''pre'', ''user'', ''assistant'', ''compacted''} \<and>
       length hex = 32 \<and> list_all is_hex hex
   | _ \<Rightarrow> False)"

fun is_content_policy :: "row_policy \<Rightarrow> bool" where
  "is_content_policy (ContentPolicy _ _ _ _ _) = True"
| "is_content_policy _ = False"

text \<open>A protected row: content that is not compactable.\<close>

fun is_protected :: "row_policy \<Rightarrow> bool" where
  "is_protected (ContentPolicy _ _ _ compactable _) = (\<not> compactable)"
| "is_protected _ = False"

fun compaction_key :: "row_policy \<Rightarrow> string option" where
  "compaction_key (ContentPolicy _ _ _ _ key) = key"
| "compaction_key _ = None"

definition session_card :: "string \<Rightarrow> string option" where
  "session_card s = (case conversationSessionIdentity s of Inr (_, owner) \<Rightarrow> owner | Inl _ \<Rightarrow> None)"

definition bare_metadata :: "agent_message \<Rightarrow> bool" where
  "bare_metadata m \<longleftrightarrow> am_tool m = None \<and> am_tool_call_id m = None \<and> am_links m = None \<and> am_projection m = None"

definition content_success :: "json_api \<Rightarrow> string \<Rightarrow> bool" where
  "content_success api content = (case json_parse api content of Some v \<Rightarrow> settled_success v | None \<Rightarrow> False)"

definition message_policy_ok :: "json_api \<Rightarrow> zod \<Rightarrow> (string \<Rightarrow> string) \<Rightarrow> agent_message \<Rightarrow> bool" where
  "message_policy_ok api z sha m = (case am_kind m of
     KRecordObservation \<Rightarrow> am_policy m = StructuralPolicy RecordObservationRow \<and> am_role m = SystemRole \<and> am_content m = []
   | KRecordPrompt \<Rightarrow> is_content_policy (am_policy m) \<and> am_role m = UserRole \<and> am_workflow_prompt m \<and>
       am_record_prompt m \<noteq> None \<and> \<not> is_blank (am_content m)
   | KActivity \<Rightarrow> am_policy m = StructuralPolicy ActivationBoundary \<and>
       (case parseActivationOpenPayload api z (am_content m) (am_session_id m) (am_timestamp m) of Inr _ \<Rightarrow> True | Inl _ \<Rightarrow> False)
   | KModelIssue \<Rightarrow> am_policy m = StructuralPolicy ProviderFailure
   | KContentPolicyRefusal \<Rightarrow> am_policy m = StructuralPolicy ContentPolicyRefusalRow
   | KModelRecovered \<Rightarrow> am_policy m = StructuralPolicy ModelRecoveryNotice
   | KProviderPrivate \<Rightarrow> am_policy m = StructuralPolicy ResponsesPrivate
   | KToolCall \<Rightarrow>
       (case am_policy m of
          ToolCallPolicy template bytes digest \<Rightarrow>
            canonicalJson api (template_json template) = bytes \<and> sha (canonicalJson api (template_json template)) = digest
        | _ \<Rightarrow> False)
   | KToolResult \<Rightarrow>
       (case am_policy m of
          ToolResultPolicy origin result call evidence \<Rightarrow>
            sha (am_content m) = result \<and>
            (case json_parse api (am_content m) of
               None \<Rightarrow> False
             | Some v \<Rightarrow> v \<noteq> JNull \<and> (settled_success v \<or> evidence = SettledNone) \<and>
                 (origin \<noteq> Executed \<longrightarrow> \<not> settled_success v \<and> evidence = SettledNone))
        | _ \<Rightarrow> False)
   | _ \<Rightarrow> is_content_policy (am_policy m))"

text \<open>Non-compactable content is plain configured user text.\<close>

definition message_protection_ok :: "agent_message \<Rightarrow> bool" where
  "message_protection_ok m = (case am_policy m of
     ContentPolicy replacement audience evidence compactable key \<Rightarrow>
       compactable \<or> (am_role m = UserRole \<and> am_kind m \<in> {KText, KModelRepair, KRecordPrompt} \<and>
         replacement = Retain \<and> audience = PrimaryAndSummarizer \<and> evidence = NoEvidence \<and> am_projection m = None)
   | _ \<Rightarrow> True)"

definition message_refusal_ok :: "json_api \<Rightarrow> zod \<Rightarrow> agent_message \<Rightarrow> bool" where
  "message_refusal_ok api z m \<longleftrightarrow>
     (am_kind m = KContentPolicyRetry \<longrightarrow>
        am_role m = UserRole \<and> am_content m = CONTENT_POLICY_RETRY_TEXT \<and> bare_metadata m) \<and>
     (am_kind m = KContentPolicyRefusal \<longrightarrow> am_role m = SystemRole \<and> bare_metadata m \<and>
        (case parseCanonicalContentPolicyRefusal api z (am_content m) of Inr _ \<Rightarrow> True | Inl _ \<Rightarrow> False))"

definition tool_observation_ok :: "json_api \<Rightarrow> agent_message \<Rightarrow> record_observation \<Rightarrow> bool" where
  "tool_observation_ok api m b \<longleftrightarrow>
     (case ob_source b of
        FromRead input call tool \<Rightarrow> am_tool_call_id m = Some call \<and> am_tool m = Some tool \<and>
          am_id m = input @ '':tool-result:'' @ call
      | FromMutation input call tool \<Rightarrow> am_tool_call_id m = Some call \<and> am_tool m = Some tool \<and>
          am_id m = input @ '':tool-result:'' @ call
      | _ \<Rightarrow> False) \<and>
     (case am_policy m of ToolResultPolicy origin _ _ _ \<Rightarrow> origin = Executed | _ \<Rightarrow> False) \<and>
     content_success api (am_content m)"

definition context_observation_ok :: "agent_message \<Rightarrow> record_observation \<Rightarrow> bool" where
  "context_observation_ok m b \<longleftrightarrow>
     (am_kind m = KRecordObservation \<longrightarrow> (case ob_source b of FromPreparation _ _ \<Rightarrow> True | _ \<Rightarrow> False)) \<and>
     (am_kind m = KRecordPrompt \<longrightarrow> (case ob_source b of
        FromPrompt _ node reference \<Rightarrow> map_option rp_reference (am_record_prompt m) = Some reference \<and>
          map_option rp_node_id (am_record_prompt m) = Some node
      | _ \<Rightarrow> False)) \<and>
     so_current (ob_observed b) \<and> Some (so_card_id (ob_observed b)) = session_card (am_session_id m)"

definition message_observations_ok :: "json_api \<Rightarrow> agent_message \<Rightarrow> bool" where
  "message_observations_ok api m \<longleftrightarrow>
     (am_record_prompt m \<noteq> None \<longrightarrow> am_kind m = KRecordPrompt) \<and>
     (am_kind m \<in> {KRecordPrompt, KRecordObservation} \<longrightarrow> am_observations m \<noteq> None) \<and>
     pred_option (\<lambda>bs. am_kind m \<in> {KToolResult, KRecordObservation, KRecordPrompt} \<and> bs \<noteq> [] \<and>
         list_all recordObservationSchema bs \<and> distinct (map (recordObservationKey \<circ> ob_observed) bs) \<and>
         list_all (if am_kind m = KToolResult then tool_observation_ok api m else context_observation_ok m) bs)
       (am_observations m)"

definition message_projection_ok :: "zod \<Rightarrow> agent_message \<Rightarrow> bool" where
  "message_projection_ok z m \<longleftrightarrow>
     pred_option (\<lambda>p. uuid z (pp_source_input_id p) \<and> pp_private_message_id p \<noteq> [] \<and> am_role m = AssistantRole \<and>
         (case pp_projection_kind p of AssistantMessage \<Rightarrow> am_kind m = KText | AssistantToolCall \<Rightarrow> am_kind m = KToolCall))
       (am_projection m) \<and>
     (am_kind m = KProviderPrivate \<longrightarrow> am_role m = SystemRole \<and> am_projection m = None)"

definition message_tool_ok :: "zod \<Rightarrow> agent_message \<Rightarrow> bool" where
  "message_tool_ok z m \<longleftrightarrow>
     (am_kind m \<in> {KToolCall, KToolResult} \<longrightarrow> truthy_text (am_tool m) \<and> truthy_text (am_tool_call_id m) \<and>
        (case (if am_kind m = KToolCall then sourceInputIdFromToolCallMessageId (am_id m) (am_tool_call_id m)
               else sourceInputIdFromToolResultMessageId (am_id m) (am_tool_call_id m)) of
           Inr input \<Rightarrow> uuid z input | Inl _ \<Rightarrow> False))"

definition agentMessageSchema :: "json_api \<Rightarrow> zod \<Rightarrow> (string \<Rightarrow> string) \<Rightarrow> agent_message \<Rightarrow> bool" where
  "agentMessageSchema api z sha m \<longleftrightarrow>
     am_id m \<noteq> [] \<and> conversationSessionIdSchema (am_session_id m) \<and> rowContextPolicySchema (am_policy m) \<and>
     roundIdGrammar (am_round_id m) \<and> safe_nat (am_message_index m) \<and> safe_nat (am_block_index m) \<and>
     datetime z (am_timestamp m) \<and>
     pred_option (list_all (\<lambda>(kind, i, _). kind \<in> {''card'', ''process'', ''artifact'', ''attachment''} \<and> i \<noteq> [])) (am_links m) \<and>
     pred_option (\<lambda>p. rp_reference p \<noteq> [] \<and> rp_node_id p \<noteq> []) (am_record_prompt m) \<and>
     (am_workflow_prompt m \<longrightarrow> am_role m = UserRole \<and> am_kind m \<in> {KText, KModelRepair, KRecordPrompt} \<and>
        session_card (am_session_id m) \<noteq> None) \<and>
     message_policy_ok api z sha m \<and> message_protection_ok m \<and> message_refusal_ok api z m \<and>
     message_observations_ok api m \<and> message_projection_ok z m \<and> message_tool_ok z m"

definition parse_message :: "json_api \<Rightarrow> zod \<Rightarrow> (string \<Rightarrow> string) \<Rightarrow> agent_message \<Rightarrow> error + agent_message" where
  "parse_message api z sha m = (if agentMessageSchema api z sha m then Inr m else Inl (ZodError ''agentMessage''))"

end
