(* ===== verification/ConversationValidation.thy ===== *)
theory ConversationValidation
  imports ConversationRows OperationContract "HOL-Library.AList"
begin

text \<open>
  The validation of a conversation (\<^verbatim>\<open>src/contracts/conversation-validation.ts\<close>): rows are reduced
  one by one to checkpoints of rounds, repair segments and tool calls, from which the validated
  conversation is materialised. The same file derives what a compaction must carry over: the
  protected prompts, the required facts and the atomicity of the covered prefix.

  A \<open>Map\<close> is an association list in insertion order. The tool key, the JSON text of three
  strings, is the identity itself. Two compacted histories have the same canonical JSON
  exactly when they are equal values.
\<close>

section \<open>Compacted histories\<close>

record latest_observation =
  lo_segment_version :: nat
  lo_row_index :: nat
  lo_message_id :: string
  lo_timestamp :: string
  lo_observation :: record_observation

record required_facts =
  rf_observations :: "latest_observation list"
  rf_recovery :: "(string \<times> string) option"
  rf_refusal :: "(string \<times> string) option"

record protected_prompt =
  pr_segment_version :: nat
  pr_row_index :: nat
  pr_message :: agent_message

record compacted_history =
  ch_summary :: string
  ch_prompts :: "protected_prompt list"
  ch_facts :: required_facts

record genesis_seed =
  cg_id :: string
  cg_timestamp :: string
  cg_history :: compacted_history
  cg_source_version :: nat
  cg_covered_through :: string

section \<open>Checkpoints\<close>

datatype segment_kind = InitialSegment | RepairSegment

record inherited_activation =
  ia_marker_id :: string
  ia_input_id :: string
  ia_segment_kind :: segment_kind
  ia_start :: nat

record source_checkpoint =
  sc_id :: string
  sc_role :: message_role
  sc_kind :: message_kind
  sc_opens_round :: bool
  sc_repair_anchor :: bool
  sc_tool :: "string option"
  sc_tool_call_id :: "string option"
  sc_source_input_id :: "string option"
  sc_failed :: bool
  sc_private_id :: "string option"
  sc_row :: nat

record segment_checkpoint =
  sg_kind :: segment_kind
  sg_start :: nat
  sg_end :: nat

record round_checkpoint =
  rc_label :: string
  rc_input_id :: string
  rc_activation :: "nat option"
  rc_start :: nat
  rc_end :: nat
  rc_segments :: "segment_checkpoint list"

record call_checkpoint =
  cc_key :: tool_identity
  cc_tool :: "string option"
  cc_template_sha256 :: string
  cc_evidence_mode :: evidence_mode
  cc_source :: nat
  cc_physical :: nat
  cc_result :: "nat option"

record validation_state =
  vs_session :: string
  vs_ids :: "string list"
  vs_sources :: "source_checkpoint list"
  vs_rounds :: "round_checkpoint list"
  vs_calls :: "(tool_identity \<times> call_checkpoint) list"
  vs_results :: "(tool_identity \<times> nat) list"
  vs_unmatched :: "tool_identity option"
  vs_inherited :: "inherited_activation option"

definition createCanonicalConversationValidationState ::
    "string \<Rightarrow> inherited_activation option \<Rightarrow> validation_state" where
  "createCanonicalConversationValidationState sessionId inherited =
     \<lparr>vs_session = sessionId, vs_ids = [], vs_sources = [], vs_rounds = [], vs_calls = [], vs_results = [],
      vs_unmatched = None, vs_inherited = inherited\<rparr>"

section \<open>The reduction of a row\<close>

definition validateToolCallOrParseResult :: "json_api \<Rightarrow> agent_message \<Rightarrow> error + tool_result option" where
  "validateToolCallOrParseResult api row =
     (if am_kind row = KToolCall then
        bindE (guardE (am_role row = AssistantRole) (PlainError ''Tool call must use assistant role.'' [am_id row])) (\<lambda>_.
        bindE (optionE (PlainError ''Tool call has malformed embedded content'' [am_id row]) (json_parse api (am_content row))) (\<lambda>v.
        bindE (case parseToolCallMessageForModel v of
            Inl _ \<Rightarrow> Inl (PlainError ''Tool call has malformed embedded content'' [am_id row]) | Inr c \<Rightarrow> Inr c) (\<lambda>embedded.
        bindE (guardE (am_tool_call_id row = Some (pc_id embedded) \<and> am_tool row = Some (pc_name embedded))
          (PlainError ''Tool call embedded identity does not match row metadata.'' [am_id row])) (\<lambda>_.
        Inr None))))
      else if am_kind row = KToolResult then
        bindE (guardE (am_role row = ToolRole) (PlainError ''Tool result must use tool role.'' [am_id row])) (\<lambda>_.
        bindE (optionE (PlainError ''Tool result has malformed content'' [am_id row])
          (Option.bind (json_parse api (am_content row)) toolResultSchema)) (\<lambda>result.
        Inr (Some result)))
      else Inr None)"

definition validateToolResultSemantics :: "json_api \<Rightarrow> agent_message \<Rightarrow> tool_result \<Rightarrow> error + unit" where
  "validateToolResultSemantics api row result =
     (let blocks = (case result_content result of None \<Rightarrow> [] | Some bs \<Rightarrow> bs);
          malformed = PlainError ''Tool result has malformed content'' [am_id row]
      in bindE (if result_success result \<and> am_tool row = Some ''view_image''
           then (case (result, blocks) of
               (ResultOk data _, [ImageBlock picture]) \<Rightarrow>
                 (case assertViewImageResult api data picture of Inl _ \<Rightarrow> Inl malformed | Inr u \<Rightarrow> Inr u)
             | _ \<Rightarrow> Inl malformed)
           else Inr ()) (\<lambda>_.
         guardE (\<not> (result_success result \<and> list_ex is_image blocks \<and>
             (case am_policy row of ToolResultPolicy origin _ _ _ \<Rightarrow> origin \<noteq> Executed | _ \<Rightarrow> False))) malformed))"

text \<open>The marker of an activation; \<open>None\<close> when the row opens no round.\<close>

definition validateActivationOpenMarker ::
    "json_api \<Rightarrow> zod \<Rightarrow> string \<Rightarrow> agent_message \<Rightarrow> error + activation_payload option" where
  "validateActivationOpenMarker api z sessionId row =
     (if am_kind row \<noteq> KActivity then Inr None
      else parseActivationOpenPayload api z (am_content row) sessionId (am_timestamp row))"

definition tool_call_step :: "validation_state \<Rightarrow> nat \<Rightarrow> agent_message \<Rightarrow> tool_identity \<Rightarrow> error + validation_state" where
  "tool_call_step s rowOrdinal row key = (case am_policy row of
     ToolCallPolicy template bytes digest \<Rightarrow>
       bindE (guardE (map_of (vs_calls s) key = None)
         (PlainError ''Conversation contains a duplicate tool call identity.'' [])) (\<lambda>_.
       Inr (s\<lparr>vs_calls := vs_calls s @ [(key, \<lparr>cc_key = key, cc_tool = am_tool row, cc_template_sha256 = digest,
         cc_evidence_mode = pt_evidence_mode template, cc_source = length (vs_sources s), cc_physical = rowOrdinal,
         cc_result = None\<rparr>)]\<rparr>))
   | _ \<Rightarrow> Inl (PlainError ''Tool call is missing its tool_call context policy.'' [am_id row]))"

fun evidence_of_mode :: "evidence_mode \<Rightarrow> settled_evidence \<Rightarrow> bool" where
  "evidence_of_mode ModeNone e = (e = SettledNone)"
| "evidence_of_mode ModeObservational e = (case e of SettledQuery _ \<Rightarrow> True | _ \<Rightarrow> False)"
| "evidence_of_mode ModeLocator e = (case e of SettledLocator _ _ \<Rightarrow> True | _ \<Rightarrow> False)"

definition tool_result_step ::
    "json_api \<Rightarrow> validation_state \<Rightarrow> agent_message \<Rightarrow> tool_identity \<Rightarrow> tool_result option \<Rightarrow> error + validation_state" where
  "tool_result_step api s row key toolResult = (case am_policy row of
     ToolResultPolicy origin content callDigest evidence \<Rightarrow>
       bindE (guardE (map_of (vs_results s) key = None)
         (PlainError ''Conversation contains a duplicate tool result identity.'' [])) (\<lambda>_.
       bindE (optionE (PlainError ''Conversation tool result has no matching earlier call with the same identity and tool name.'' [])
         (map_of (vs_calls s) key)) (\<lambda>call.
       bindE (guardE (cc_tool call = am_tool row)
         (PlainError ''Conversation tool result has no matching earlier call with the same identity and tool name.'' [])) (\<lambda>_.
       bindE (guardE (callDigest = cc_template_sha256 call)
         (PlainError ''Tool result does not commit to the policy template hash of its call.'' [am_id row])) (\<lambda>_.
       bindE (optionE (PlainError ''TypeError'' []) toolResult) (\<lambda>result.
       bindE (validateToolResultSemantics api row result) (\<lambda>_.
       bindE (guardE (if result_success result then evidence_of_mode (cc_evidence_mode call) evidence else evidence = SettledNone)
         (PlainError ''Tool result must carry exactly the evidence its call declared.'' [am_id row])) (\<lambda>_.
       let ordinal = length (vs_sources s) in
       Inr (s\<lparr>vs_results := vs_results s @ [(key, ordinal)],
         vs_calls := AList.update key (call\<lparr>cc_result := Some ordinal\<rparr>) (vs_calls s)\<rparr>))))))))
   | _ \<Rightarrow> Inl (PlainError ''Tool result is missing its tool_result context policy.'' [am_id row]))"

definition validateToolOrdering ::
    "json_api \<Rightarrow> validation_state \<Rightarrow> nat \<Rightarrow> agent_message \<Rightarrow> tool_identity option \<Rightarrow> tool_identity option \<Rightarrow>
     tool_result option \<Rightarrow> error + validation_state" where
  "validateToolOrdering api s rowOrdinal row callIdentity resultIdentity toolResult = (case callIdentity of
     Some key \<Rightarrow> tool_call_step s rowOrdinal row key
   | None \<Rightarrow>
       (case resultIdentity of
          Some key \<Rightarrow> tool_result_step api s row key toolResult
        | None \<Rightarrow> Inr s))"

definition inherited_round :: "inherited_activation \<Rightarrow> nat \<Rightarrow> round_checkpoint" where
  "inherited_round a ordinal =
     \<lparr>rc_label = ia_marker_id a, rc_input_id = ia_input_id a, rc_activation = None, rc_start = ordinal, rc_end = ordinal,
      rc_segments = [\<lparr>sg_kind = ia_segment_kind a, sg_start = ordinal, sg_end = ordinal\<rparr>]\<rparr>"

definition opened_round :: "agent_message \<Rightarrow> activation_payload \<Rightarrow> nat \<Rightarrow> round_checkpoint" where
  "opened_round row payload ordinal =
     \<lparr>rc_label = am_id row, rc_input_id = ap_input_id payload, rc_activation = Some ordinal, rc_start = ordinal,
      rc_end = ordinal + 1,
      rc_segments = [\<lparr>sg_kind = InitialSegment, sg_start = ordinal, sg_end = ordinal + 1\<rparr>]\<rparr>"

definition extend_last_segment :: "nat \<Rightarrow> segment_checkpoint list \<Rightarrow> segment_checkpoint list" where
  "extend_last_segment ordinal gs = butlast gs @ [(last gs)\<lparr>sg_end := ordinal + 1\<rparr>]"

definition extend_round :: "nat \<Rightarrow> bool \<Rightarrow> round_checkpoint \<Rightarrow> round_checkpoint" where
  "extend_round ordinal repairAnchor r = r\<lparr>rc_end := ordinal + 1,
     rc_segments := (if repairAnchor
       then rc_segments r @ [\<lparr>sg_kind = RepairSegment, sg_start = ordinal, sg_end = ordinal + 1\<rparr>]
       else extend_last_segment ordinal (rc_segments r))\<rparr>"

definition next_rounds ::
    "round_checkpoint list \<Rightarrow> nat \<Rightarrow> agent_message \<Rightarrow> activation_payload option \<Rightarrow> bool \<Rightarrow> round_checkpoint list" where
  "next_rounds rounds ordinal row opens repairAnchor = (case opens of
     Some payload \<Rightarrow> rounds @ [opened_round row payload ordinal]
   | None \<Rightarrow> if rounds = [] then [] else butlast rounds @ [extend_round ordinal repairAnchor (last rounds)])"

definition repair_anchor :: "agent_message \<Rightarrow> bool \<Rightarrow> bool" where
  "repair_anchor row failed \<longleftrightarrow> am_kind row = KModelRepair \<or> am_kind row = KContentPolicyRetry \<or> failed"

definition inherit_round :: "validation_state \<Rightarrow> round_checkpoint list" where
  "inherit_round s = vs_rounds s @ (case vs_inherited s of
     Some a \<Rightarrow> if length (vs_sources s) = ia_start a then [inherited_round a (length (vs_sources s))] else []
   | None \<Rightarrow> [])"

definition reduceCanonicalConversationRow ::
    "json_api \<Rightarrow> zod \<Rightarrow> agent_message \<times> nat \<Rightarrow> validation_state \<Rightarrow> error + validation_state" where
  "reduceCanonicalConversationRow api z = (\<lambda>(row, rowOrdinal) s.
     bindE (guardE (am_session_id row = vs_session s)
       (PlainError ''Conversation row belongs to another session.'' [am_id row, am_session_id row, vs_session s])) (\<lambda>_.
     bindE (guardE (am_id row \<notin> set (vs_ids s)) (PlainError ''Conversation contains duplicate message ids.'' [])) (\<lambda>_.
     let ordinal = length (vs_sources s); rounds = inherit_round s in
     bindE (validateToolCallOrParseResult api row) (\<lambda>toolResult.
     let failed = (case toolResult of Some r \<Rightarrow> \<not> result_success r | None \<Rightarrow> False) in
     bindE (if am_kind row = KProviderPrivate then bindE (parsePrivateContent api row) (\<lambda>_. Inr ()) else Inr ()) (\<lambda>_.
     bindE (validateActivationOpenMarker api z (vs_session s) row) (\<lambda>opens.
     bindE (conversationSessionIdentity (vs_session s)) (\<lambda>(_, owner).
     bindE (guardE (\<not> (owner = None \<and> rounds = [] \<and> opens = None))
       (PlainError ''Global-agent conversation must start with an exact activation_open marker and have an empty preamble.'' [vs_session s])) (\<lambda>_.
     bindE (loggedToolCallIdentity row) (\<lambda>callIdentity.
     bindE (loggedToolResultIdentity row) (\<lambda>resultIdentity.
     bindE (validateToolOrdering api
         (s\<lparr>vs_ids := vs_ids s @ [am_id row], vs_rounds := next_rounds rounds ordinal row opens (repair_anchor row failed)\<rparr>)
         rowOrdinal row callIdentity resultIdentity toolResult) (\<lambda>t.
     Inr (t\<lparr>vs_sources := vs_sources t @ [\<lparr>sc_id = am_id row, sc_role = am_role row, sc_kind = am_kind row,
       sc_opens_round = (opens \<noteq> None), sc_repair_anchor = repair_anchor row failed, sc_tool = am_tool row,
       sc_tool_call_id = am_tool_call_id row,
       sc_source_input_id = (case callIdentity of Some k \<Rightarrow> Some (ti_source_input_id k)
         | None \<Rightarrow> map_option ti_source_input_id resultIdentity),
       sc_failed = failed, sc_private_id = map_option pp_private_message_id (am_projection row),
       sc_row = rowOrdinal\<rparr>]\<rparr>))))))))))))"

definition finishCanonicalConversationValidation :: "validation_state \<Rightarrow> error + validation_state" where
  "finishCanonicalConversationValidation s =
     (case filter (\<lambda>c. cc_result c = None) (map snd (vs_calls s)) of
        [] \<Rightarrow> Inr (s\<lparr>vs_unmatched := None\<rparr>)
      | [c] \<Rightarrow>
          if Suc (cc_source c) = length (vs_sources s) then Inr (s\<lparr>vs_unmatched := Some (cc_key c)\<rparr>)
          else Inl (PlainError ''Conversation contains a non-final unmatched tool call.'' [])
      | _ \<Rightarrow> Inl (PlainError ''Conversation contains more than one unmatched tool call.'' []))"

section \<open>The validated conversation\<close>

datatype activation_checkpoint = RowActivation agent_message | GenesisActivation string string

record source_segment =
  ss_kind :: segment_kind
  ss_rows :: "agent_message list"

record source_round =
  sr_open :: bool
  sr_label :: string
  sr_activation :: activation_checkpoint
  sr_rows :: "agent_message list"
  sr_segments :: "source_segment list"

record conversation_call =
  cl_session_id :: string
  cl_source_input_id :: string
  cl_tool_call_id :: string
  cl_tool :: "string option"
  cl_started_at :: string
  cl_message :: agent_message
  cl_source :: nat
  cl_physical :: nat
  cl_result :: "nat option"

record validated_conversation =
  vc_segment_version :: nat
  vc_session :: string
  vc_physical :: "agent_message list"
  vc_rows :: "agent_message list"
  vc_preamble :: "agent_message list"
  vc_rounds :: "source_round list"
  vc_safe_ends :: "nat list"
  vc_calls :: "conversation_call list"
  vc_unmatched :: "conversation_call option"
  vc_genesis :: "(string \<times> string \<times> nat \<times> string) option"
  vc_history :: "compacted_history option"
  vc_facts :: required_facts

definition slice :: "nat \<Rightarrow> nat \<Rightarrow> 'a list \<Rightarrow> 'a list" where
  "slice a b xs = drop a (take b xs)"

definition isSafeFallbackBoundary :: "source_checkpoint \<Rightarrow> source_checkpoint option \<Rightarrow> bool" where
  "isSafeFallbackBoundary c following \<longleftrightarrow>
     \<not> (sc_kind c = KToolCall \<or> map_option sc_kind following = Some KToolResult) \<and>
     \<not> (sc_kind c = KProviderPrivate \<or> Option.bind following sc_private_id = Some (sc_id c))"

fun observe_row ::
    "nat \<Rightarrow> (string \<times> nat) list \<Rightarrow> agent_message \<Rightarrow> ((string \<times> string \<times> observed_view) \<times> latest_observation) list \<Rightarrow>
     error + ((string \<times> string \<times> observed_view) \<times> latest_observation) list" where
  "observe_row version ordinals row latest =
     bindE (optionE (PlainError ''Record observation row is not in its canonical source.'' []) (map_of ordinals (am_id row))) (\<lambda>i.
     Inr (foldl (\<lambda>acc b. if \<not> so_current (ob_observed b) then acc
         else AList.delete (recordObservationKey (ob_observed b)) acc @
           [(recordObservationKey (ob_observed b), \<lparr>lo_segment_version = version, lo_row_index = i, lo_message_id = am_id row,
             lo_timestamp = am_timestamp row, lo_observation = b\<rparr>)])
       latest (case am_observations row of None \<Rightarrow> [] | Some bs \<Rightarrow> bs)))"

definition deriveLatestRecordObservations ::
    "latest_observation list \<Rightarrow> agent_message list \<Rightarrow> agent_message list \<Rightarrow> nat \<Rightarrow> error + latest_observation list" where
  "deriveLatestRecordObservations inherited rows sourceRows version =
     bindE (foldE (observe_row version (rev (zip (map am_id sourceRows) [0..<length sourceRows])))
       rows (foldl (\<lambda>acc e. AList.update (recordObservationKey (ob_observed (lo_observation e))) e acc) [] inherited)) (\<lambda>latest.
     Inr (map snd latest))"

definition materialize_round :: "agent_message list \<Rightarrow> nat \<Rightarrow> nat \<times> round_checkpoint \<Rightarrow> source_round" where
  "materialize_round rows count = (\<lambda>(i, r).
     \<lparr>sr_open = (Suc i = count), sr_label = rc_label r,
      sr_activation = (case rc_activation r of None \<Rightarrow> GenesisActivation (rc_label r) (rc_input_id r) | Some k \<Rightarrow> RowActivation (rows ! k)),
      sr_rows = slice (rc_start r) (rc_end r) rows,
      sr_segments = map (\<lambda>g. \<lparr>ss_kind = sg_kind g, ss_rows = slice (sg_start g) (sg_end g) rows\<rparr>) (rc_segments r)\<rparr>)"

definition materialize_call :: "agent_message list \<Rightarrow> string \<Rightarrow> call_checkpoint \<Rightarrow> conversation_call" where
  "materialize_call rows sessionId c =
     \<lparr>cl_session_id = sessionId, cl_source_input_id = ti_source_input_id (cc_key c), cl_tool_call_id = ti_tool_call_id (cc_key c),
      cl_tool = cc_tool c, cl_started_at = am_timestamp (rows ! cc_source c), cl_message = rows ! cc_source c,
      cl_source = cc_source c, cl_physical = cc_physical c, cl_result = cc_result c\<rparr>"

definition call_key :: "conversation_call \<Rightarrow> tool_identity" where
  "call_key c = \<lparr>ti_session_id = cl_session_id c, ti_source_input_id = cl_source_input_id c, ti_tool_call_id = cl_tool_call_id c\<rparr>"

definition no_facts :: required_facts where
  "no_facts = \<lparr>rf_observations = [], rf_recovery = None, rf_refusal = None\<rparr>"

definition seed_facts :: "genesis_seed option \<Rightarrow> required_facts" where
  "seed_facts genesis = (case genesis of None \<Rightarrow> no_facts | Some g \<Rightarrow> ch_facts (cg_history g))"

definition segment_version :: "genesis_seed option \<Rightarrow> nat" where
  "segment_version genesis = (case genesis of None \<Rightarrow> 1 | Some g \<Rightarrow> cg_source_version g + 1)"

definition safe_ends :: "source_checkpoint list \<Rightarrow> nat list" where
  "safe_ends sources = map Suc (filter (\<lambda>i. isSafeFallbackBoundary (sources ! i)
     (if Suc i < length sources then Some (sources ! Suc i) else None)) [0..<length sources])"

definition materializeValidatedConversation ::
    "validation_state \<Rightarrow> agent_message list \<Rightarrow> genesis_seed option \<Rightarrow> error + validated_conversation" where
  "materializeValidatedConversation s physical genesis =
     (let rows = map (\<lambda>c. physical ! sc_row c) (vs_sources s) in
      bindE (case genesis of
          None \<Rightarrow> Inr ()
        | Some g \<Rightarrow> guardE (\<not> list_ex (\<lambda>row. am_id row \<in> am_id ` pr_message ` set (ch_prompts (cg_history g))) rows)
            (PlainError ''Compacted genesis protected prompt ids must be disjoint from retained canonical rows.'' [])) (\<lambda>_.
      let calls = map (materialize_call rows (vs_session s)) (map snd (vs_calls s)) in
      bindE (case vs_unmatched s of
          None \<Rightarrow> Inr None
        | Some k \<Rightarrow> bindE (optionE (PlainError ''Canonical unmatched tool call fact is missing.'' [])
            (find (\<lambda>c. call_key c = k) calls)) (\<lambda>c. Inr (Some c))) (\<lambda>unmatched.
      bindE (deriveLatestRecordObservations (rf_observations (seed_facts genesis)) rows rows (segment_version genesis)) (\<lambda>observations.
      Inr \<lparr>vc_segment_version = segment_version genesis, vc_session = vs_session s, vc_physical = physical, vc_rows = rows,
        vc_preamble = take (case vs_rounds s of [] \<Rightarrow> length rows | r # _ \<Rightarrow> rc_start r) rows,
        vc_rounds = map (materialize_round rows (length (vs_rounds s))) (enumerate 0 (vs_rounds s)),
        vc_safe_ends = safe_ends (vs_sources s),
        vc_calls = calls, vc_unmatched = unmatched,
        vc_genesis = map_option (\<lambda>g. (cg_id g, cg_timestamp g, cg_source_version g, cg_covered_through g)) genesis,
        vc_history = map_option cg_history genesis,
        vc_facts = (seed_facts genesis)\<lparr>rf_observations := observations\<rparr>\<rparr>))))"

section \<open>The check of a compacted history\<close>

fun observation_origin :: "observation_source \<Rightarrow> string option" where
  "observation_origin (FromRead input call _) = Some (input @ '':tool-result:'' @ call)"
| "observation_origin (FromMutation input call _) = Some (input @ '':tool-result:'' @ call)"
| "observation_origin _ = None"

definition check_seed_observation :: "nat \<Rightarrow> latest_observation \<Rightarrow> error + unit" where
  "check_seed_observation version e =
     bindE (guardE (lo_segment_version e \<le> version)
       (PlainError ''Compacted record observation source is later than its source segment.'' [])) (\<lambda>_.
     guardE (pred_option (\<lambda>origin. lo_message_id e = origin) (observation_origin (ob_source (lo_observation e))))
       (PlainError ''Compacted record observation has mismatched tool source identity.'' []))"

definition coordinates_before :: "protected_prompt \<Rightarrow> protected_prompt \<Rightarrow> bool" where
  "coordinates_before a b \<longleftrightarrow> pr_segment_version a < pr_segment_version b \<or>
     pr_segment_version a = pr_segment_version b \<and> pr_row_index a < pr_row_index b"

fun check_seed_prompts :: "string \<Rightarrow> nat \<Rightarrow> string list \<Rightarrow> protected_prompt option \<Rightarrow> protected_prompt list \<Rightarrow> error + unit" where
  "check_seed_prompts sessionId version ids prior [] = Inr ()"
| "check_seed_prompts sessionId version ids prior (e # es) =
     bindE (guardE (am_session_id (pr_message e) = sessionId)
       (PlainError ''Compacted genesis protected prompt belongs to another session.'' [])) (\<lambda>_.
     bindE (guardE (is_protected (am_policy (pr_message e)))
       (PlainError ''Compacted genesis protected prompt is not protected-capable content.'' [])) (\<lambda>_.
     bindE (guardE (am_id (pr_message e) \<notin> set ids)
       (PlainError ''Compacted genesis protected prompts contain duplicate message ids.'' [])) (\<lambda>_.
     bindE (guardE (pr_segment_version e \<le> version)
       (PlainError ''Compacted genesis protected prompt source is later than its source segment.'' [])) (\<lambda>_.
     bindE (guardE (pred_option (\<lambda>p. coordinates_before p e) prior)
       (PlainError ''Compacted genesis protected prompt coordinates are not strictly ordered.'' [])) (\<lambda>_.
     check_seed_prompts sessionId version (am_id (pr_message e) # ids) (Some e) es)))))"

definition validateSelfContainedCompactedHistory :: "string \<Rightarrow> genesis_seed \<Rightarrow> error + unit" where
  "validateSelfContainedCompactedHistory sessionId seed =
     bindE (mapE (check_seed_observation (cg_source_version seed)) (rf_observations (ch_facts (cg_history seed)))) (\<lambda>_.
     check_seed_prompts sessionId (cg_source_version seed) [] None (ch_prompts (cg_history seed)))"

definition validateConversation ::
    "json_api \<Rightarrow> zod \<Rightarrow> string \<Rightarrow> agent_message list \<Rightarrow> inherited_activation option \<Rightarrow> genesis_seed option \<Rightarrow>
     error + validated_conversation" where
  "validateConversation api z sessionId physicalRows inherited genesis =
     bindE (case genesis of None \<Rightarrow> Inr () | Some g \<Rightarrow> validateSelfContainedCompactedHistory sessionId g) (\<lambda>_.
     bindE (foldE (reduceCanonicalConversationRow api z) (zip physicalRows [0..<length physicalRows])
       (createCanonicalConversationValidationState sessionId inherited)) (\<lambda>s.
     bindE (finishCanonicalConversationValidation (s\<lparr>vs_rounds := inherit_round s\<rparr>)) (\<lambda>t.
     materializeValidatedConversation t physicalRows genesis)))"

end
