(* ===== verification/ConversationLaws.thy ===== *)
theory ConversationLaws
  imports ConversationValidation
begin

text \<open>
  What the validation of a conversation accepts and what it returns. \<open>row_admissible\<close> is the
  declarative reading of the reducer: it speaks of the earlier rows, not of checkpoints.
  \<open>tracks\<close> ties the checkpoints to the rows reduced so far.
\<close>

section \<open>The specification\<close>

definition call_key_of :: "agent_message \<Rightarrow> tool_identity option" where
  "call_key_of row = (case loggedToolCallIdentity row of Inr k \<Rightarrow> k | Inl _ \<Rightarrow> None)"

definition result_key_of :: "agent_message \<Rightarrow> tool_identity option" where
  "result_key_of row = (case loggedToolResultIdentity row of Inr k \<Rightarrow> k | Inl _ \<Rightarrow> None)"

definition opens_round :: "json_api \<Rightarrow> zod \<Rightarrow> string \<Rightarrow> agent_message \<Rightarrow> bool" where
  "opens_round api z sid row \<longleftrightarrow> (\<exists>p. validateActivationOpenMarker api z sid row = Inr (Some p))"

text \<open>A row that is readable on its own.\<close>

definition row_readable :: "json_api \<Rightarrow> zod \<Rightarrow> string \<Rightarrow> agent_message \<Rightarrow> bool" where
  "row_readable api z sid row \<longleftrightarrow>
     (\<exists>r. validateToolCallOrParseResult api row = Inr r) \<and>
     (am_kind row = KProviderPrivate \<longrightarrow> (\<exists>c. parsePrivateContent api row = Inr c)) \<and>
     (\<exists>p. validateActivationOpenMarker api z sid row = Inr p) \<and>
     (\<exists>k. loggedToolCallIdentity row = Inr k) \<and> (\<exists>k. loggedToolResultIdentity row = Inr k)"

text \<open>A result answers a call of the same tool whose policy it commits to, with the evidence the call declared.\<close>

definition answers :: "json_api \<Rightarrow> agent_message \<Rightarrow> agent_message \<Rightarrow> bool" where
  "answers api call row \<longleftrightarrow> am_tool call = am_tool row \<and>
     (\<exists>template bytes digest origin content evidence result.
        am_policy call = ToolCallPolicy template bytes digest \<and>
        am_policy row = ToolResultPolicy origin content digest evidence \<and>
        validateToolCallOrParseResult api row = Inr (Some result) \<and>
        validateToolResultSemantics api row result = Inr () \<and>
        (if result_success result then evidence_of_mode (pt_evidence_mode template) evidence else evidence = SettledNone))"

definition row_admissible ::
    "json_api \<Rightarrow> zod \<Rightarrow> string \<Rightarrow> bool \<Rightarrow> agent_message list \<Rightarrow> agent_message \<Rightarrow> bool" where
  "row_admissible api z sid resumed earlier row \<longleftrightarrow>
     am_session_id row = sid \<and> am_id row \<notin> am_id ` set earlier \<and> row_readable api z sid row \<and>
     (\<exists>name owner. conversationSessionIdentity sid = Inr (name, owner) \<and>
        (owner = None \<longrightarrow> resumed \<or> (\<exists>r \<in> set (earlier @ [row]). opens_round api z sid r))) \<and>
     (\<forall>k. call_key_of row = Some k \<longrightarrow>
        (\<exists>t b d. am_policy row = ToolCallPolicy t b d) \<and> (\<forall>c \<in> set earlier. call_key_of c \<noteq> Some k)) \<and>
     (\<forall>k. result_key_of row = Some k \<longrightarrow>
        (\<forall>r \<in> set earlier. result_key_of r \<noteq> Some k) \<and>
        (\<exists>c \<in> set earlier. call_key_of c = Some k \<and> answers api c row))"

definition rows_admissible :: "json_api \<Rightarrow> zod \<Rightarrow> string \<Rightarrow> bool \<Rightarrow> agent_message list \<Rightarrow> bool" where
  "rows_admissible api z sid resumed rows \<longleftrightarrow>
     (\<forall>i < length rows. row_admissible api z sid resumed (take i rows) (rows ! i))"

definition unanswered :: "agent_message list \<Rightarrow> nat \<Rightarrow> bool" where
  "unanswered rows i \<longleftrightarrow> (\<exists>k. call_key_of (rows ! i) = Some k \<and> (\<forall>r \<in> set rows. result_key_of r \<noteq> Some k))"

definition seed_ok :: "string \<Rightarrow> genesis_seed \<Rightarrow> bool" where
  "seed_ok sid g \<longleftrightarrow>
     (\<forall>e \<in> set (rf_observations (ch_facts (cg_history g))). lo_segment_version e \<le> cg_source_version g \<and>
        pred_option (\<lambda>origin. lo_message_id e = origin) (observation_origin (ob_source (lo_observation e)))) \<and>
     (\<forall>e \<in> set (ch_prompts (cg_history g)). am_session_id (pr_message e) = sid \<and>
        is_protected (am_policy (pr_message e)) \<and> pr_segment_version e \<le> cg_source_version g) \<and>
     distinct (map (am_id \<circ> pr_message) (ch_prompts (cg_history g))) \<and>
     sorted_wrt coordinates_before (ch_prompts (cg_history g))"

section \<open>Checkpoints of a prefix\<close>

fun policy_digest_of :: "row_policy \<Rightarrow> string" where
  "policy_digest_of (ToolCallPolicy _ _ d) = d"
| "policy_digest_of _ = []"

fun policy_mode_of :: "row_policy \<Rightarrow> evidence_mode" where
  "policy_mode_of (ToolCallPolicy t _ _) = pt_evidence_mode t"
| "policy_mode_of _ = ModeNone"

definition result_table :: "agent_message list \<Rightarrow> (tool_identity \<times> nat) list" where
  "result_table rows = concat (map (\<lambda>(i, row). case result_key_of row of None \<Rightarrow> [] | Some k \<Rightarrow> [(k, i)]) (enumerate 0 rows))"

definition call_checkpoint_of :: "agent_message list \<Rightarrow> nat \<Rightarrow> tool_identity \<Rightarrow> call_checkpoint" where
  "call_checkpoint_of rows i k =
     \<lparr>cc_key = k, cc_tool = am_tool (rows ! i), cc_template_sha256 = policy_digest_of (am_policy (rows ! i)),
      cc_evidence_mode = policy_mode_of (am_policy (rows ! i)), cc_source = i, cc_physical = i,
      cc_result = map_of (result_table rows) k\<rparr>"

definition call_table :: "agent_message list \<Rightarrow> (tool_identity \<times> call_checkpoint) list" where
  "call_table rows = concat (map (\<lambda>(i, row). case call_key_of row of None \<Rightarrow> [] | Some k \<Rightarrow> [(k, call_checkpoint_of rows i k)])
     (enumerate 0 rows))"

definition tracks :: "json_api \<Rightarrow> zod \<Rightarrow> string \<Rightarrow> inherited_activation option \<Rightarrow> agent_message list \<Rightarrow> validation_state \<Rightarrow> bool" where
  "tracks api z sid inh rows s \<longleftrightarrow>
     vs_session s = sid \<and> vs_inherited s = inh \<and> vs_ids s = map am_id rows \<and>
     map sc_row (vs_sources s) = [0..<length rows] \<and> map sc_id (vs_sources s) = map am_id rows \<and>
     map sc_kind (vs_sources s) = map am_kind rows \<and>
     map sc_private_id (vs_sources s) = map (map_option pp_private_message_id \<circ> am_projection) rows \<and>
     vs_results s = result_table rows \<and> vs_calls s = call_table rows \<and>
     (vs_rounds s = [] \<longleftrightarrow> (inh = None \<or> rows = []) \<and> \<not> (\<exists>r \<in> set rows. opens_round api z sid r))"

lemma enumerate_snoc: "enumerate n (xs @ [x]) = enumerate n xs @ [(n + length xs, x)]"
  by (simp add: enumerate_append_eq)

lemma result_table_snoc:
  "result_table (rows @ [row]) = result_table rows @ (case result_key_of row of None \<Rightarrow> [] | Some k \<Rightarrow> [(k, length rows)])"
  by (simp add: result_table_def enumerate_snoc)

lemma result_table_Nil [simp]: "result_table [] = []"
  by (simp add: result_table_def)

lemma result_table_keys: "fst ` set (result_table rows) = {k. \<exists>r \<in> set rows. result_key_of r = Some k}"
  by (induction rows rule: rev_induct) (auto simp: result_table_snoc split: option.splits)

lemma result_table_index:
  "(k, j) \<in> set (result_table rows) \<longleftrightarrow> j < length rows \<and> result_key_of (rows ! j) = Some k"
  by (induction rows rule: rev_induct)
    (auto simp: result_table_snoc nth_append less_Suc_eq split: option.splits if_splits)

lemma map_of_result_table_None: "map_of (result_table rows) k = None \<longleftrightarrow> (\<forall>r \<in> set rows. result_key_of r \<noteq> Some k)"
  by (simp add: map_of_eq_None_iff result_table_keys)

lemma call_table_mem:
  "(k, c) \<in> set (call_table rows) \<longleftrightarrow> (\<exists>i < length rows. call_key_of (rows ! i) = Some k \<and> c = call_checkpoint_of rows i k)"
proof -
  have "(k, c) \<in> set (call_table rows) \<longleftrightarrow>
      (\<exists>(i, row) \<in> set (enumerate 0 rows). call_key_of row = Some k \<and> c = call_checkpoint_of rows i k)"
    by (force simp: call_table_def split: option.splits)
  then show ?thesis by (auto simp: in_set_enumerate_eq)
qed

lemma concat_enumerate: "concat (map (\<lambda>p. f (snd p)) (enumerate n rows)) = concat (map f rows)"
  by (induction rows arbitrary: n) auto

lemma call_table_keys: "map fst (call_table rows) = concat (map (\<lambda>row. case call_key_of row of None \<Rightarrow> [] | Some k \<Rightarrow> [k]) rows)"
  by (simp add: call_table_def map_concat comp_def case_prod_unfold option.case_distrib [of "map fst"]
      concat_enumerate [of "\<lambda>row. case call_key_of row of None \<Rightarrow> [] | Some k \<Rightarrow> [k]"] cong: option.case_cong)

lemma call_table_fst: "fst ` set (call_table rows) = {k. \<exists>r \<in> set rows. call_key_of r = Some k}"
proof -
  have "set (map fst (call_table rows)) = {k. \<exists>r \<in> set rows. call_key_of r = Some k}"
    unfolding call_table_keys by (force split: option.splits)
  then show ?thesis by simp
qed

lemma map_of_call_table_None: "map_of (call_table rows) k = None \<longleftrightarrow> (\<forall>r \<in> set rows. call_key_of r \<noteq> Some k)"
  by (simp add: map_of_eq_None_iff call_table_fst)

lemma calls_distinct_snoc:
  "distinct (map fst (call_table (rows @ [row]))) \<longleftrightarrow> distinct (map fst (call_table rows)) \<and>
     (\<forall>k. call_key_of row = Some k \<longrightarrow> (\<forall>r \<in> set rows. call_key_of r \<noteq> Some k))"
  unfolding call_table_keys by (force split: option.splits)

lemma call_table_lookup:
  assumes "distinct (map fst (call_table rows))"
  shows "map_of (call_table rows) k = Some c \<longleftrightarrow>
    (\<exists>i < length rows. call_key_of (rows ! i) = Some k \<and> c = call_checkpoint_of rows i k)"
  using assms call_table_mem by (simp add: map_of_eq_Some_iff)

text \<open>Appending a row that answers nothing leaves the earlier checkpoints; a result fills in one.\<close>

lemma call_table_call:
  assumes "result_key_of row = None"
  shows "call_table (rows @ [row]) = call_table rows @
    (case call_key_of row of None \<Rightarrow> [] | Some k \<Rightarrow> [(k, call_checkpoint_of (rows @ [row]) (length rows) k)])"
proof -
  have "call_checkpoint_of (rows @ [row]) i k = call_checkpoint_of rows i k" if "i < length rows" for i k
    using that assms by (simp add: call_checkpoint_of_def nth_append result_table_snoc)
  then have "(\<lambda>(i, row). case call_key_of row of None \<Rightarrow> [] | Some k \<Rightarrow> [(k, call_checkpoint_of (rows @ [r]) i k)]) p =
      (\<lambda>(i, row). case call_key_of row of None \<Rightarrow> [] | Some k \<Rightarrow> [(k, call_checkpoint_of rows i k)]) p"
    if "p \<in> set (enumerate 0 rows)" "r = row" for p r
    using that by (cases p) (auto simp: in_set_enumerate_eq split: option.splits)
  then show ?thesis by (simp add: call_table_def enumerate_snoc cong: map_cong)
qed

lemma update_checkpoint:
  "distinct (map fst ps) \<Longrightarrow> map_of ps k = Some c \<Longrightarrow>
   AList.update k (f c) ps = map (\<lambda>(k', c'). (k', if k' = k then f c' else c')) ps"
proof (induction ps)
  case (Cons p ps)
  have "map (\<lambda>(k', c'). (k', if k' = k then f c' else c')) ps = ps" if "k \<notin> fst ` set ps"
    by (rule map_idI) (use that in force)
  with Cons show ?case by (cases p) (auto split: if_splits)
qed simp

lemma call_table_result:
  assumes distinct: "distinct (map fst (call_table rows))" and key: "result_key_of row = Some k" and call: "call_key_of row = None"
    and fresh: "\<forall>r \<in> set rows. result_key_of r \<noteq> Some k" and found: "map_of (call_table rows) k = Some c"
  shows "call_table (rows @ [row]) = AList.update k (c\<lparr>cc_result := Some (length rows)\<rparr>) (call_table rows)"
proof -
  have chk: "call_checkpoint_of (rows @ [row]) i k' =
      (if k' = k then (call_checkpoint_of rows i k')\<lparr>cc_result := Some (length rows)\<rparr> else call_checkpoint_of rows i k')"
    if "i < length rows" for i k'
    using that key fresh map_of_result_table_None [of rows k]
    by (auto simp: call_checkpoint_of_def nth_append result_table_snoc map_add_def split: option.splits)
  have "call_table (rows @ [row]) = concat (map (\<lambda>(i, row'). case call_key_of row' of None \<Rightarrow> []
      | Some k' \<Rightarrow> [(k', call_checkpoint_of (rows @ [row]) i k')]) (enumerate 0 rows))"
    using call by (simp add: call_table_def enumerate_snoc)
  also have "\<dots> = concat (map (\<lambda>(i, row'). case call_key_of row' of None \<Rightarrow> []
      | Some k' \<Rightarrow> [(k', if k' = k then (call_checkpoint_of rows i k')\<lparr>cc_result := Some (length rows)\<rparr>
          else call_checkpoint_of rows i k')]) (enumerate 0 rows))"
    by (rule arg_cong [of _ _ concat], rule map_cong) (auto simp: in_set_enumerate_eq chk split: option.splits)
  also have "\<dots> = map (\<lambda>(k', c'). (k', if k' = k then c'\<lparr>cc_result := Some (length rows)\<rparr> else c')) (call_table rows)"
    unfolding call_table_def map_concat map_map
    by (rule arg_cong [of _ _ concat], rule map_cong) (auto split: option.splits)
  also have "\<dots> = AList.update k (c\<lparr>cc_result := Some (length rows)\<rparr>) (call_table rows)"
    using update_checkpoint [OF distinct found, of "\<lambda>c. c\<lparr>cc_result := Some (length rows)\<rparr>"] by simp
  finally show ?thesis .
qed

section \<open>The step of the reducer\<close>

lemma tool_call_step_Inr:
  "tool_call_step s n row k = Inr t \<longleftrightarrow> (\<exists>template bytes digest. am_policy row = ToolCallPolicy template bytes digest \<and>
     map_of (vs_calls s) k = None \<and>
     t = s\<lparr>vs_calls := vs_calls s @ [(k, \<lparr>cc_key = k, cc_tool = am_tool row, cc_template_sha256 = digest,
       cc_evidence_mode = pt_evidence_mode template, cc_source = length (vs_sources s), cc_physical = n, cc_result = None\<rparr>)]\<rparr>)"
  by (auto simp: tool_call_step_def errE split: row_policy.splits)

lemma tool_result_step_Inr:
  "tool_result_step api s row k r = Inr t \<longleftrightarrow>
    (\<exists>origin content digest evidence call result. am_policy row = ToolResultPolicy origin content digest evidence \<and>
       map_of (vs_results s) k = None \<and> map_of (vs_calls s) k = Some call \<and> cc_tool call = am_tool row \<and>
       digest = cc_template_sha256 call \<and> r = Some result \<and> validateToolResultSemantics api row result = Inr () \<and>
       (if result_success result then evidence_of_mode (cc_evidence_mode call) evidence else evidence = SettledNone) \<and>
       t = s\<lparr>vs_results := vs_results s @ [(k, length (vs_sources s))],
         vs_calls := AList.update k (call\<lparr>cc_result := Some (length (vs_sources s))\<rparr>) (vs_calls s)\<rparr>)"
  by (auto simp: tool_result_step_def errE Let_def split: row_policy.splits)

lemma call_key_kind: "call_key_of row = Some k \<Longrightarrow> am_kind row = KToolCall"
  by (auto simp: call_key_of_def loggedToolCallIdentity_def bindE_def split: if_splits sum.splits)

lemma result_key_kind: "result_key_of row = Some k \<Longrightarrow> am_kind row = KToolResult"
  by (auto simp: result_key_of_def loggedToolResultIdentity_def bindE_def split: if_splits sum.splits)

lemma call_no_result: "call_key_of row = Some k \<Longrightarrow> result_key_of row = None"
  using call_key_kind [of row k] result_key_kind [of row] by (cases "result_key_of row") auto

lemma inherit_round_Nil:
  assumes "tracks api z sid inh rows s" and "pred_option (\<lambda>a. ia_start a = 0) inh"
  shows "inherit_round s = [] \<longleftrightarrow> inh = None \<and> \<not> (\<exists>r \<in> set rows. opens_round api z sid r)"
proof -
  have "length (vs_sources s) = length rows"
    using assms(1) by (metis diff_zero length_map length_upt tracks_def)
  with assms show ?thesis by (cases inh) (auto simp: inherit_round_def tracks_def)
qed

lemma next_rounds_Nil: "next_rounds rounds n row opens anchor = [] \<longleftrightarrow> rounds = [] \<and> opens = None"
  by (auto simp: next_rounds_def split: option.splits)

lemma reduce_Inr:
  "reduceCanonicalConversationRow api z (row, n) s = Inr t \<longleftrightarrow>
    am_session_id row = vs_session s \<and> am_id row \<notin> set (vs_ids s) \<and> row_readable api z (vs_session s) row \<and>
    (\<exists>name owner. conversationSessionIdentity (vs_session s) = Inr (name, owner) \<and>
       \<not> (owner = None \<and> inherit_round s = [] \<and> \<not> opens_round api z (vs_session s) row)) \<and>
    (\<exists>toolResult opens u. validateToolCallOrParseResult api row = Inr toolResult \<and>
       validateActivationOpenMarker api z (vs_session s) row = Inr opens \<and>
       validateToolOrdering api (s\<lparr>vs_ids := vs_ids s @ [am_id row],
           vs_rounds := next_rounds (inherit_round s) (length (vs_sources s)) row opens
             (repair_anchor row (case toolResult of Some r \<Rightarrow> \<not> result_success r | None \<Rightarrow> False))\<rparr>)
         n row (call_key_of row) (result_key_of row) toolResult = Inr u \<and>
       t = u\<lparr>vs_sources := vs_sources u @ [\<lparr>sc_id = am_id row, sc_role = am_role row, sc_kind = am_kind row,
         sc_opens_round = (opens \<noteq> None),
         sc_repair_anchor = repair_anchor row (case toolResult of Some r \<Rightarrow> \<not> result_success r | None \<Rightarrow> False),
         sc_tool = am_tool row, sc_tool_call_id = am_tool_call_id row,
         sc_source_input_id = (case call_key_of row of Some k \<Rightarrow> Some (ti_source_input_id k)
           | None \<Rightarrow> map_option ti_source_input_id (result_key_of row)),
         sc_failed = (case toolResult of Some r \<Rightarrow> \<not> result_success r | None \<Rightarrow> False),
         sc_private_id = map_option pp_private_message_id (am_projection row), sc_row = n\<rparr>]\<rparr>)"
  (is "?l \<longleftrightarrow> ?r")
proof -
  have priv: "(if am_kind row = KProviderPrivate then bindE (parsePrivateContent api row) (\<lambda>_. Inr ()) else Inr ()) = Inr () \<longleftrightarrow>
      (am_kind row = KProviderPrivate \<longrightarrow> (\<exists>c. parsePrivateContent api row = Inr c))"
    by (auto simp: errE)
  show ?thesis
  proof (cases "row_readable api z (vs_session s) row \<and> (\<exists>x. conversationSessionIdentity (vs_session s) = Inr x)")
    case True
    then obtain r p k j name owner where parts: "validateToolCallOrParseResult api row = Inr r"
        "validateActivationOpenMarker api z (vs_session s) row = Inr p" "loggedToolCallIdentity row = Inr k"
        "loggedToolResultIdentity row = Inr j" "conversationSessionIdentity (vs_session s) = Inr (name, owner)"
        "am_kind row = KProviderPrivate \<Longrightarrow> \<exists>c. parsePrivateContent api row = Inr c"
      by (fastforce simp: row_readable_def)
    moreover from this(6) have "(if am_kind row = KProviderPrivate then bindE (parsePrivateContent api row) (\<lambda>_. Inr ()) else Inr ()) = Inr ()"
      using priv by blast
    ultimately show ?thesis using True
      by (auto simp: reduceCanonicalConversationRow_def opens_round_def call_key_of_def result_key_of_def Let_def
          bindE_Inr_iff guardE_Inr_iff cong: option.case_cong)
  next
    case False
    then show ?thesis
      by (auto simp: reduceCanonicalConversationRow_def row_readable_def errE Let_def priv)
  qed
qed

text \<open>The rows reduced so far: no call identity twice, every call with its policy, and a call for every result.\<close>

definition paired :: "agent_message list \<Rightarrow> bool" where
  "paired rows \<longleftrightarrow> distinct (map fst (call_table rows)) \<and>
     (\<forall>c \<in> set rows. call_key_of c \<noteq> None \<longrightarrow> (\<exists>t b d. am_policy c = ToolCallPolicy t b d)) \<and>
     (\<forall>r \<in> set rows. \<forall>k. result_key_of r = Some k \<longrightarrow> (\<exists>c \<in> set rows. call_key_of c = Some k))"

text \<open>The conditions on calls and results, and the tables they leave behind.\<close>

lemma ordering_run:
  assumes tables: "vs_calls s = call_table rows" "vs_results s = result_table rows" "length (vs_sources s) = length rows"
    and paired: "paired rows"
    and run: "validateToolOrdering api s (length rows) row (call_key_of row) (result_key_of row) r = Inr u"
  shows "u = s\<lparr>vs_calls := call_table (rows @ [row]), vs_results := result_table (rows @ [row])\<rparr>"
proof (cases "call_key_of row")
  case (Some k)
  then have none: "result_key_of row = None" by (rule call_no_result)
  from run Some obtain template bytes digest where "am_policy row = ToolCallPolicy template bytes digest"
      "u = s\<lparr>vs_calls := vs_calls s @ [(k, \<lparr>cc_key = k, cc_tool = am_tool row, cc_template_sha256 = digest,
         cc_evidence_mode = pt_evidence_mode template, cc_source = length (vs_sources s), cc_physical = length rows,
         cc_result = None\<rparr>)]\<rparr>" "map_of (vs_calls s) k = None"
    by (auto simp: validateToolOrdering_def tool_call_step_Inr)
  moreover from this(3) have "map_of (result_table rows) k = None"
    using paired tables(1) by (auto simp: paired_def map_of_call_table_None map_of_result_table_None)
  ultimately show ?thesis
    using tables by (simp add: call_table_call [OF none] Some result_table_snoc none call_checkpoint_of_def)
next
  case None
  show ?thesis
  proof (cases "result_key_of row")
    case (Some k)
    with run None obtain call where "map_of (vs_results s) k = None" "map_of (vs_calls s) k = Some call"
        "u = s\<lparr>vs_results := vs_results s @ [(k, length (vs_sources s))],
           vs_calls := AList.update k (call\<lparr>cc_result := Some (length (vs_sources s))\<rparr>) (vs_calls s)\<rparr>"
      by (auto simp: validateToolOrdering_def tool_result_step_Inr)
    then show ?thesis
      using call_table_result [OF _ Some None, of rows call] paired tables map_of_result_table_None [of rows k]
      by (simp add: result_table_snoc Some paired_def)
  next
    case no: None
    then show ?thesis using run None tables by (simp add: validateToolOrdering_def result_table_snoc call_table_call)
  qed
qed

lemma ordering_exact:
  assumes tables: "vs_calls s = call_table rows" "vs_results s = result_table rows" "length (vs_sources s) = length rows"
    and paired: "paired rows" and result: "validateToolCallOrParseResult api row = Inr r"
  shows "(\<exists>u. validateToolOrdering api s (length rows) row (call_key_of row) (result_key_of row) r = Inr u) \<longleftrightarrow>
    (\<forall>k. call_key_of row = Some k \<longrightarrow>
       (\<exists>t b d. am_policy row = ToolCallPolicy t b d) \<and> (\<forall>c \<in> set rows. call_key_of c \<noteq> Some k)) \<and>
    (\<forall>k. result_key_of row = Some k \<longrightarrow>
       (\<forall>r \<in> set rows. result_key_of r \<noteq> Some k) \<and> (\<exists>c \<in> set rows. call_key_of c = Some k \<and> answers api c row))"
proof (cases "call_key_of row")
  case (Some k)
  then show ?thesis
    using call_no_result [OF Some] tables
    by (auto simp: validateToolOrdering_def tool_call_step_Inr map_of_call_table_None)
next
  case no_call: None
  show ?thesis
  proof (cases "result_key_of row")
    case (Some k)
    have lookup: "map_of (call_table rows) k = Some call \<longleftrightarrow>
        (\<exists>i < length rows. call_key_of (rows ! i) = Some k \<and> call = call_checkpoint_of rows i k)" for call
      using call_table_lookup paired by (simp add: paired_def)
    have "(\<exists>u. tool_result_step api s row k r = Inr u) \<longleftrightarrow> (\<forall>r \<in> set rows. result_key_of r \<noteq> Some k) \<and>
        (\<exists>i < length rows. call_key_of (rows ! i) = Some k \<and> answers api (rows ! i) row)" (is "?l \<longleftrightarrow> ?r")
    proof
      assume ?l
      then obtain origin content digest evidence call result where step: "am_policy row = ToolResultPolicy origin content digest evidence"
          "map_of (result_table rows) k = None" "map_of (call_table rows) k = Some call" "cc_tool call = am_tool row"
          "digest = cc_template_sha256 call" "r = Some result" "validateToolResultSemantics api row result = Inr ()"
          "if result_success result then evidence_of_mode (cc_evidence_mode call) evidence else evidence = SettledNone"
        unfolding tool_result_step_Inr tables by blast
      from step(3) obtain i where i: "i < length rows" "call_key_of (rows ! i) = Some k" "call = call_checkpoint_of rows i k"
        using lookup by blast
      then obtain t b d where "am_policy (rows ! i) = ToolCallPolicy t b d" using paired by (fastforce simp: paired_def)
      with step i result have "answers api (rows ! i) row"
        by (auto simp: answers_def call_checkpoint_of_def split: if_splits)
      with i step(2) show ?r by (auto simp: map_of_result_table_None)
    next
      assume ?r
      then obtain i where i: "i < length rows" "call_key_of (rows ! i) = Some k" "answers api (rows ! i) row"
        and fresh: "\<forall>r \<in> set rows. result_key_of r \<noteq> Some k" by blast
      then have found: "map_of (call_table rows) k = Some (call_checkpoint_of rows i k)" using lookup by blast
      from i(3) result obtain template bytes digest origin content evidence res where parts: "am_tool (rows ! i) = am_tool row"
          "am_policy (rows ! i) = ToolCallPolicy template bytes digest" "am_policy row = ToolResultPolicy origin content digest evidence"
          "r = Some res" "validateToolResultSemantics api row res = Inr ()"
          "if result_success res then evidence_of_mode (pt_evidence_mode template) evidence else evidence = SettledNone"
        by (auto simp: answers_def)
      have "map_of (result_table rows) k = None" using fresh by (simp add: map_of_result_table_None)
      with parts found show ?l
        by (simp add: tool_result_step_def tables Let_def guardE_def) (simp add: call_checkpoint_of_def)
    qed
    moreover have "(\<exists>i < length rows. call_key_of (rows ! i) = Some k \<and> answers api (rows ! i) row) \<longleftrightarrow>
        (\<exists>c \<in> set rows. call_key_of c = Some k \<and> answers api c row)"
      by (metis in_set_conv_nth)
    ultimately show ?thesis using Some no_call by (simp add: validateToolOrdering_def)
  next
    case None
    with no_call show ?thesis by (simp add: validateToolOrdering_def)
  qed
qed

lemma tracks_length: "tracks api z sid inh rows s \<Longrightarrow> length (vs_sources s) = length rows"
  by (metis diff_zero length_map length_upt tracks_def)

lemma tracks_start: "tracks api z sid inh [] (createCanonicalConversationValidationState sid inh)"
  by (simp add: tracks_def createCanonicalConversationValidationState_def call_table_def)

lemma step_tracks:
  assumes t: "tracks api z sid inh rows s" and start: "pred_option (\<lambda>a. ia_start a = 0) inh" and paired: "paired rows"
    and run: "reduceCanonicalConversationRow api z (row, length rows) s = Inr u"
  shows "tracks api z sid inh (rows @ [row]) u"
proof -
  from run obtain opens w r where parts: "validateActivationOpenMarker api z (vs_session s) row = Inr opens"
      "validateToolOrdering api (s\<lparr>vs_ids := vs_ids s @ [am_id row],
         vs_rounds := next_rounds (inherit_round s) (length (vs_sources s)) row opens
           (repair_anchor row (case r of Some r \<Rightarrow> \<not> result_success r | None \<Rightarrow> False))\<rparr>)
         (length rows) row (call_key_of row) (result_key_of row) r = Inr w"
      "\<exists>c. u = w\<lparr>vs_sources := vs_sources w @ [c]\<rparr> \<and> sc_row c = length rows \<and> sc_id c = am_id row \<and> sc_kind c = am_kind row \<and>
         sc_private_id c = map_option pp_private_message_id (am_projection row)"
    unfolding reduce_Inr by fastforce
  have w: "w = s\<lparr>vs_ids := vs_ids s @ [am_id row], vs_rounds := next_rounds (inherit_round s) (length (vs_sources s)) row opens
           (repair_anchor row (case r of Some r \<Rightarrow> \<not> result_success r | None \<Rightarrow> False)),
         vs_calls := call_table (rows @ [row]), vs_results := result_table (rows @ [row])\<rparr>"
    using ordering_run [OF _ _ _ paired parts(2)] t tracks_length [OF t] by (simp add: tracks_def)
  have "opens = None \<longleftrightarrow> \<not> opens_round api z sid row" using parts(1) t by (cases opens) (auto simp: opens_round_def tracks_def)
  with w parts(3) t inherit_round_Nil [OF t start] show ?thesis
    by (auto simp: tracks_def next_rounds_Nil)
qed

lemma step_exact:
  assumes t: "tracks api z sid inh rows s" and start: "pred_option (\<lambda>a. ia_start a = 0) inh" and paired: "paired rows"
  shows "(\<exists>u. reduceCanonicalConversationRow api z (row, length rows) s = Inr u) \<longleftrightarrow>
    row_admissible api z sid (inh \<noteq> None) rows row"
proof (cases "row_readable api z sid row")
  case True
  then obtain r p where rp: "validateToolCallOrParseResult api row = Inr r" "validateActivationOpenMarker api z sid row = Inr p"
    by (auto simp: row_readable_def)
  define s' where "s' = s\<lparr>vs_ids := vs_ids s @ [am_id row],
         vs_rounds := next_rounds (inherit_round s) (length (vs_sources s)) row p
           (repair_anchor row (case r of Some r \<Rightarrow> \<not> result_success r | None \<Rightarrow> False))\<rparr>"
  have s: "vs_session s = sid" "set (vs_ids s) = am_id ` set rows" using t by (auto simp: tracks_def)
  have "(\<exists>u. validateToolOrdering api s' (length rows) row (call_key_of row) (result_key_of row) r = Inr u) \<longleftrightarrow>
      (\<forall>k. call_key_of row = Some k \<longrightarrow>
       (\<exists>t b d. am_policy row = ToolCallPolicy t b d) \<and> (\<forall>c \<in> set rows. call_key_of c \<noteq> Some k)) \<and>
      (\<forall>k. result_key_of row = Some k \<longrightarrow>
       (\<forall>r \<in> set rows. result_key_of r \<noteq> Some k) \<and> (\<exists>c \<in> set rows. call_key_of c = Some k \<and> answers api c row))"
    by (rule ordering_exact [OF _ _ _ paired rp(1)]) (use t tracks_length [OF t] in \<open>simp_all add: s'_def tracks_def\<close>)
  moreover have "(\<exists>u. reduceCanonicalConversationRow api z (row, length rows) s = Inr u) \<longleftrightarrow>
      am_session_id row = sid \<and> am_id row \<notin> am_id ` set rows \<and>
      (\<exists>name owner. conversationSessionIdentity sid = Inr (name, owner) \<and>
        \<not> (owner = None \<and> inherit_round s = [] \<and> \<not> opens_round api z sid row)) \<and>
      (\<exists>u. validateToolOrdering api s' (length rows) row (call_key_of row) (result_key_of row) r = Inr u)"
    unfolding reduce_Inr s using True rp by (auto simp: s'_def)
  ultimately show ?thesis
    unfolding row_admissible_def inherit_round_Nil [OF t start] using True by auto
next
  case False
  moreover have "vs_session s = sid" using t by (simp add: tracks_def)
  ultimately show ?thesis unfolding reduce_Inr by (simp add: row_admissible_def)
qed

lemma admissible_paired:
  assumes "paired rows" and "row_admissible api z sid resumed rows row"
  shows "paired (rows @ [row])"
proof -
  have "\<exists>c \<in> set (rows @ [row]). call_key_of c = Some k" if "r \<in> set (rows @ [row])" "result_key_of r = Some k" for r k
    using assms that by (auto simp: paired_def row_admissible_def)
  with assms show ?thesis by (auto simp: paired_def calls_distinct_snoc row_admissible_def)
qed

lemma foldE_snoc: "foldE f (xs @ [x]) s = bindE (foldE f xs s) (f x)"
  by (induction xs arbitrary: s) (auto simp: bindE_def split: sum.splits)

lemma rows_admissible_snoc:
  "rows_admissible api z sid resumed (rows @ [row]) \<longleftrightarrow>
   rows_admissible api z sid resumed rows \<and> row_admissible api z sid resumed rows row"
  by (auto simp: rows_admissible_def less_Suc_eq nth_append)

lemma reduction_exact:
  assumes start: "pred_option (\<lambda>a. ia_start a = 0) inh"
  shows "((\<exists>s. foldE (reduceCanonicalConversationRow api z) (zip rows [0..<length rows])
      (createCanonicalConversationValidationState sid inh) = Inr s) \<longleftrightarrow> rows_admissible api z sid (inh \<noteq> None) rows) \<and>
    (\<forall>s. foldE (reduceCanonicalConversationRow api z) (zip rows [0..<length rows])
      (createCanonicalConversationValidationState sid inh) = Inr s \<longrightarrow> tracks api z sid inh rows s) \<and>
    (rows_admissible api z sid (inh \<noteq> None) rows \<longrightarrow> paired rows)"
proof (induction rows rule: rev_induct)
  case Nil
  show ?case by (simp add: tracks_start rows_admissible_def paired_def call_table_def)
next
  case (snoc row rows)
  define run where "run = foldE (reduceCanonicalConversationRow api z) (zip rows [0..<length rows])
      (createCanonicalConversationValidationState sid inh)"
  have whole: "foldE (reduceCanonicalConversationRow api z) (zip (rows @ [row]) [0..<length (rows @ [row])])
      (createCanonicalConversationValidationState sid inh) = bindE run (reduceCanonicalConversationRow api z (row, length rows))"
    by (simp add: run_def foldE_snoc)
  show ?case
  proof (cases run)
    case (Inl e)
    then show ?thesis using snoc.IH whole by (simp add: run_def rows_admissible_snoc)
  next
    case (Inr s)
    with snoc.IH have s: "tracks api z sid inh rows s" "paired rows" "rows_admissible api z sid (inh \<noteq> None) rows"
      by (auto simp: run_def)
    show ?thesis
      using step_exact [OF s(1) start s(2), of row] step_tracks [OF s(1) start s(2), of row] admissible_paired [OF s(2), of api z sid _ row] s(3)
      unfolding whole Inr rows_admissible_snoc by auto
  qed
qed

end
