(* ===== verification/ConversationShape.thy ===== *)
theory ConversationShape
  imports ConversationLaws
begin

text \<open>
  The rest of the validation: the call that may stay unmatched, the check of a compacted seed,
  the rounds and their segments as a partition of the rows, and what a validated
  conversation holds.
\<close>

section \<open>The unmatched call\<close>

lemma call_table_cc_key: "map cc_key (map snd (call_table rows)) = map fst (call_table rows)"
proof -
  have "cc_key (snd p) = fst p" if "p \<in> set (call_table rows)" for p
    using that call_table_mem [of "fst p" "snd p" rows] by (auto simp: call_checkpoint_of_def)
  then show ?thesis by simp
qed

definition open_calls :: "agent_message list \<Rightarrow> call_checkpoint list" where
  "open_calls rows = filter (\<lambda>c. cc_result c = None) (map snd (call_table rows))"

lemma open_calls_mem:
  "c \<in> set (open_calls rows) \<longleftrightarrow>
   (\<exists>i < length rows. \<exists>k. call_key_of (rows ! i) = Some k \<and> c = call_checkpoint_of rows i k \<and> unanswered rows i)"
proof -
  have "c \<in> set (open_calls rows) \<longleftrightarrow> (\<exists>k. (k, c) \<in> set (call_table rows)) \<and> cc_result c = None"
    by (force simp: open_calls_def)
  also have "\<dots> \<longleftrightarrow> (\<exists>i < length rows. \<exists>k. call_key_of (rows ! i) = Some k \<and> c = call_checkpoint_of rows i k \<and> cc_result c = None)"
    unfolding call_table_mem by blast
  also have "\<dots> \<longleftrightarrow> (\<exists>i < length rows. \<exists>k. call_key_of (rows ! i) = Some k \<and> c = call_checkpoint_of rows i k \<and> unanswered rows i)"
    by (auto simp: call_checkpoint_of_def map_of_result_table_None unanswered_def)
  finally show ?thesis .
qed

lemma open_calls_distinct: "paired rows \<Longrightarrow> distinct (open_calls rows)"
proof -
  assume "paired rows"
  then have "distinct (map cc_key (map snd (call_table rows)))" by (simp only: call_table_cc_key paired_def)
  then have "distinct (map snd (call_table rows))" by (simp only: distinct_map)
  then show ?thesis by (simp add: open_calls_def)
qed

lemma finish_run:
  assumes s: "vs_calls s = call_table rows" "length (vs_sources s) = length rows" and paired: "paired rows"
  shows "(\<exists>t. finishCanonicalConversationValidation s = Inr t) \<longleftrightarrow> (\<forall>i < length rows. unanswered rows i \<longrightarrow> Suc i = length rows)"
    and "finishCanonicalConversationValidation s = Inr t \<Longrightarrow>
      t = s\<lparr>vs_unmatched := map_option cc_key (at_last (open_calls rows))\<rparr>"
proof -
  have fin: "finishCanonicalConversationValidation s = (case open_calls rows of
        [] \<Rightarrow> Inr (s\<lparr>vs_unmatched := None\<rparr>)
      | [c] \<Rightarrow> if Suc (cc_source c) = length rows then Inr (s\<lparr>vs_unmatched := Some (cc_key c)\<rparr>)
          else Inl (PlainError ''Conversation contains a non-final unmatched tool call.'' [])
      | _ \<Rightarrow> Inl (PlainError ''Conversation contains more than one unmatched tool call.'' []))"
    using s by (simp add: finishCanonicalConversationValidation_def open_calls_def cong: list.case_cong)
  show "finishCanonicalConversationValidation s = Inr t \<Longrightarrow> t = s\<lparr>vs_unmatched := map_option cc_key (at_last (open_calls rows))\<rparr>"
    unfolding fin by (auto simp: at_last_def split: list.splits if_splits)
  have final: "(\<forall>i < length rows. unanswered rows i \<longrightarrow> Suc i = length rows) \<longleftrightarrow>
      (\<forall>c \<in> set (open_calls rows). Suc (cc_source c) = length rows)"
  proof -
    have "\<exists>c \<in> set (open_calls rows). cc_source c = i" if "i < length rows" "unanswered rows i" for i
    proof -
      obtain k where "call_key_of (rows ! i) = Some k" using \<open>unanswered rows i\<close> by (auto simp: unanswered_def)
      with that have "call_checkpoint_of rows i k \<in> set (open_calls rows)" by (auto simp: open_calls_mem)
      then show ?thesis by (rule bexI [rotated]) (simp add: call_checkpoint_of_def)
    qed
    moreover have "cc_source c < length rows \<and> unanswered rows (cc_source c)" if "c \<in> set (open_calls rows)" for c
      using that by (auto simp: open_calls_mem call_checkpoint_of_def)
    ultimately show ?thesis by metis
  qed
  have same: "c = c'" if "c \<in> set (open_calls rows)" "c' \<in> set (open_calls rows)" "cc_source c = cc_source c'" for c c'
    using that by (auto simp: open_calls_mem call_checkpoint_of_def)
  show "(\<exists>t. finishCanonicalConversationValidation s = Inr t) \<longleftrightarrow> (\<forall>i < length rows. unanswered rows i \<longrightarrow> Suc i = length rows)"
  proof (cases "open_calls rows" rule: remdups_adj.cases)
    case (3 c c' cs)
    then have "c \<noteq> c'" using open_calls_distinct [OF paired] by simp
    then have "\<not> (\<forall>c \<in> set (open_calls rows). Suc (cc_source c) = length rows)" using same 3
      by (metis list.set_intros nat.inject)
    with 3 show ?thesis unfolding final fin by simp
  qed (simp_all add: final fin)
qed

section \<open>Compacted seeds\<close>

lemma coordinates_transp: "transp coordinates_before"
  by (auto simp: transp_def coordinates_before_def)

lemma check_seed_prompts_iff:
  "check_seed_prompts sid version ids prior es = Inr () \<longleftrightarrow>
     (\<forall>e \<in> set es. am_session_id (pr_message e) = sid \<and> is_protected (am_policy (pr_message e)) \<and> pr_segment_version e \<le> version) \<and>
     distinct (map (am_id \<circ> pr_message) es) \<and> set ids \<inter> set (map (am_id \<circ> pr_message) es) = {} \<and>
     sorted_wrt coordinates_before ((case prior of None \<Rightarrow> [] | Some p \<Rightarrow> [p]) @ es)"
proof (induction sid version ids prior es rule: check_seed_prompts.induct)
  case (1 sid version ids prior)
  show ?case by (simp split: option.splits)
next
  case (2 sid version ids prior e es)
  have "sorted_wrt coordinates_before ((case prior of None \<Rightarrow> [] | Some p \<Rightarrow> [p]) @ e # es) \<longleftrightarrow>
      pred_option (\<lambda>p. coordinates_before p e) prior \<and> sorted_wrt coordinates_before (e # es)"
    by (cases prior) (simp_all add: sorted_wrt2 [OF coordinates_transp] del: sorted_wrt.simps)
  with 2 show ?case by (auto simp: errE simp del: sorted_wrt.simps)
qed

lemma seed_exact: "validateSelfContainedCompactedHistory sid g = Inr () \<longleftrightarrow> seed_ok sid g"
proof -
  have "(\<exists>us. mapE (check_seed_observation (cg_source_version g)) es = Inr us) \<longleftrightarrow>
      (\<forall>e \<in> set es. lo_segment_version e \<le> cg_source_version g \<and>
        pred_option (\<lambda>origin. lo_message_id e = origin) (observation_origin (ob_source (lo_observation e))))" for es
    unfolding mapE_succeeds_iff by (auto simp: check_seed_observation_def errE)
  then show ?thesis
    by (auto simp: validateSelfContainedCompactedHistory_def seed_ok_def errE check_seed_prompts_iff)
qed

section \<open>Rounds and segments partition the rows\<close>

fun consecutive :: "nat \<Rightarrow> (nat \<times> nat) list \<Rightarrow> nat \<Rightarrow> bool" where
  "consecutive a [] b = (a = b)"
| "consecutive a ((s, e) # es) b = (s = a \<and> a \<le> e \<and> consecutive e es b)"

lemma consecutive_snoc: "consecutive a (xs @ [(s, e)]) b \<longleftrightarrow> consecutive a xs s \<and> s \<le> e \<and> e = b"
  by (induction xs arbitrary: a) auto

lemma consecutive_append: "consecutive a (xs @ ys) b \<longleftrightarrow> (\<exists>m. consecutive a xs m \<and> consecutive m ys b)"
  by (induction xs arbitrary: a) auto

lemma consecutive_le: "consecutive a xs b \<Longrightarrow> a \<le> b"
  by (induction a xs b rule: consecutive.induct) auto

lemma slice_join: "a \<le> b \<Longrightarrow> b \<le> c \<Longrightarrow> slice a b xs @ slice b c xs = slice a c xs"
proof -
  assume "a \<le> b" "b \<le> c"
  then have "take c xs = take b xs @ drop b (take c xs)" by (metis append_take_drop_id min.absorb1 take_take)
  then have "slice a c xs = drop a (take b xs @ drop b (take c xs))" by (simp add: slice_def)
  also have "\<dots> = drop a (take b xs) @ drop (a - length (take b xs)) (drop b (take c xs))" by simp
  also have "\<dots> = slice a b xs @ slice b c xs"
    using \<open>a \<le> b\<close> by (cases "length xs \<le> b") (auto simp: slice_def)
  finally show ?thesis by simp
qed

lemma slice_same [simp]: "slice a a xs = []"
  by (simp add: slice_def)

lemma consecutive_slices: "consecutive a es b \<Longrightarrow> concat (map (\<lambda>(s, e). slice s e xs) es) = slice a b xs"
  by (induction a es b rule: consecutive.induct) (auto dest: consecutive_le simp: slice_join)

definition span_of :: "round_checkpoint \<Rightarrow> nat \<times> nat" where
  "span_of r = (rc_start r, rc_end r)"

definition round_ok :: "round_checkpoint \<Rightarrow> bool" where
  "round_ok r \<longleftrightarrow> rc_segments r \<noteq> [] \<and> consecutive (rc_start r) (map (\<lambda>g. (sg_start g, sg_end g)) (rc_segments r)) (rc_end r) \<and>
     (\<forall>i. rc_activation r = Some i \<longrightarrow> i = rc_start r \<and> i < rc_end r)"

definition activations :: "round_checkpoint list \<Rightarrow> nat list" where
  "activations rounds = concat (map (\<lambda>r. case rc_activation r of None \<Rightarrow> [] | Some i \<Rightarrow> [i]) rounds)"

definition rounds_ok :: "json_api \<Rightarrow> zod \<Rightarrow> string \<Rightarrow> agent_message list \<Rightarrow> round_checkpoint list \<Rightarrow> bool" where
  "rounds_ok api z sid rows rounds \<longleftrightarrow>
     (rounds \<noteq> [] \<longrightarrow> consecutive (rc_start (hd rounds)) (map span_of rounds) (length rows)) \<and>
     (\<forall>r \<in> set rounds. round_ok r) \<and>
     activations rounds = filter (\<lambda>i. opens_round api z sid (rows ! i)) [0..<length rows]"

lemma extend_round_ok:
  assumes "round_ok r" and "rc_end r = n"
  shows "round_ok (extend_round n anchor r)"
proof -
  obtain gs g where gs: "rc_segments r = gs @ [g]" using assms(1) by (metis round_ok_def rev_exhaust)
  with assms have "consecutive (rc_start r) (map (\<lambda>g. (sg_start g, sg_end g)) gs) (sg_start g)" "sg_start g \<le> sg_end g" "sg_end g = n"
    by (auto simp: round_ok_def consecutive_snoc)
  with assms gs show ?thesis
    by (auto simp: round_ok_def extend_round_def extend_last_segment_def consecutive_append)
qed

lemma next_rounds_ok:
  assumes ok: "rounds_ok api z sid rows rounds" and opens: "opens = None \<longleftrightarrow> \<not> opens_round api z sid row"
  shows "rounds_ok api z sid (rows @ [row]) (next_rounds rounds (length rows) row opens anchor)"
proof -
  have filter: "filter (\<lambda>i. opens_round api z sid ((rows @ [row]) ! i)) [0..<length (rows @ [row])] =
      filter (\<lambda>i. opens_round api z sid (rows ! i)) [0..<length rows] @ (if opens_round api z sid row then [length rows] else [])"
  proof -
    have "filter (\<lambda>i. opens_round api z sid ((rows @ [row]) ! i)) [0..<length rows] =
        filter (\<lambda>i. opens_round api z sid (rows ! i)) [0..<length rows]"
      by (rule filter_cong) (simp_all add: nth_append)
    then show ?thesis by simp
  qed
  show ?thesis
  proof (cases opens)
    case (Some payload)
    have new: "round_ok (opened_round row payload (length rows))" by (simp add: round_ok_def opened_round_def)
    from Some ok show ?thesis
      unfolding rounds_ok_def next_rounds_def filter using opens new
      by (auto simp: hd_append span_of_def consecutive_snoc opened_round_def activations_def)
  next
    case None
    show ?thesis
    proof (cases rounds rule: rev_cases)
      case Nil
      then show ?thesis using None ok opens unfolding rounds_ok_def filter by (simp add: next_rounds_def activations_def)
    next
      case (snoc rs r)
      with ok have r: "round_ok r" "rc_end r = length rows" "rc_start r \<le> rc_end r"
        by (auto simp: rounds_ok_def span_of_def consecutive_snoc)
      have sel: "rc_start (extend_round n anchor r) = rc_start r" "rc_activation (extend_round n anchor r) = rc_activation r"
          "rc_end (extend_round n anchor r) = Suc n" for n by (simp_all add: extend_round_def)
      from snoc None ok show ?thesis
        unfolding rounds_ok_def filter using opens extend_round_ok [OF r(1,2)] r
        by (cases rs) (auto simp: next_rounds_def span_of_def consecutive_snoc sel activations_def)
    qed
  qed
qed

lemma inherit_round_ok:
  assumes t: "tracks api z sid inh rows s" and start: "pred_option (\<lambda>a. ia_start a = 0) inh"
    and ok: "rounds_ok api z sid rows (vs_rounds s)"
  shows "rounds_ok api z sid rows (inherit_round s)"
proof (cases "rows = []")
  case True
  with t have "vs_rounds s = []" "vs_sources s = []" by (auto simp: tracks_def)
  with True show ?thesis using t start ok
    by (cases inh) (auto simp: inherit_round_def tracks_def rounds_ok_def inherited_round_def span_of_def round_ok_def activations_def)
next
  case False
  with tracks_length [OF t] have "inherit_round s = vs_rounds s" using t start
    by (cases inh) (auto simp: inherit_round_def tracks_def)
  with ok show ?thesis by simp
qed

lemma reduction_rounds:
  assumes start: "pred_option (\<lambda>a. ia_start a = 0) inh"
    and run: "foldE (reduceCanonicalConversationRow api z) (zip rows [0..<length rows])
      (createCanonicalConversationValidationState sid inh) = Inr s"
  shows "rounds_ok api z sid rows (vs_rounds s)"
  using run
proof (induction rows arbitrary: s rule: rev_induct)
  case Nil
  then show ?case by (auto simp: createCanonicalConversationValidationState_def rounds_ok_def activations_def)
next
  case (snoc row rows)
  from snoc.prems obtain u where u: "foldE (reduceCanonicalConversationRow api z) (zip rows [0..<length rows])
      (createCanonicalConversationValidationState sid inh) = Inr u" "reduceCanonicalConversationRow api z (row, length rows) u = Inr s"
    by (auto simp: foldE_snoc errE)
  have t: "tracks api z sid inh rows u" and paired: "paired rows" using reduction_exact [OF start, of api z rows sid] u(1) by auto
  from u(2) obtain opens w r anchor where parts: "validateActivationOpenMarker api z (vs_session u) row = Inr opens"
      "validateToolOrdering api (u\<lparr>vs_ids := vs_ids u @ [am_id row],
         vs_rounds := next_rounds (inherit_round u) (length (vs_sources u)) row opens anchor\<rparr>)
         (length rows) row (call_key_of row) (result_key_of row) r = Inr w"
      "\<exists>c. s = w\<lparr>vs_sources := vs_sources w @ [c]\<rparr>"
    unfolding reduce_Inr by fastforce
  have "vs_rounds s = next_rounds (inherit_round u) (length rows) row opens anchor"
    using ordering_run [OF _ _ _ paired parts(2)] parts(3) t tracks_length [OF t] by (auto simp: tracks_def)
  moreover have "opens = None \<longleftrightarrow> \<not> opens_round api z sid row" using parts(1) t by (cases opens) (auto simp: opens_round_def tracks_def)
  ultimately show ?case using next_rounds_ok [OF inherit_round_ok [OF t start snoc.IH [OF u(1)]]] by simp
qed

text \<open>The rounds as a function of the rows.\<close>

definition opening_of :: "json_api \<Rightarrow> zod \<Rightarrow> string \<Rightarrow> agent_message \<Rightarrow> activation_payload option" where
  "opening_of api z sid row = (case validateActivationOpenMarker api z sid row of Inr p \<Rightarrow> p | Inl _ \<Rightarrow> None)"

definition anchored :: "json_api \<Rightarrow> agent_message \<Rightarrow> bool" where
  "anchored api row = repair_anchor row (case validateToolCallOrParseResult api row of
     Inr (Some r) \<Rightarrow> \<not> result_success r | _ \<Rightarrow> False)"

definition rounds_of ::
    "json_api \<Rightarrow> zod \<Rightarrow> string \<Rightarrow> inherited_activation option \<Rightarrow> agent_message list \<Rightarrow> round_checkpoint list" where
  "rounds_of api z sid inh rows = foldl (\<lambda>rs (i, row). next_rounds rs i row (opening_of api z sid row) (anchored api row))
     (case inh of None \<Rightarrow> [] | Some a \<Rightarrow> [inherited_round a 0]) (enumerate 0 rows)"

lemma rounds_of_snoc:
  "rounds_of api z sid inh (rows @ [row]) =
   next_rounds (rounds_of api z sid inh rows) (length rows) row (opening_of api z sid row) (anchored api row)"
  by (simp add: rounds_of_def enumerate_snoc)

lemma reduction_rounds_of:
  assumes start: "pred_option (\<lambda>a. ia_start a = 0) inh"
    and run: "foldE (reduceCanonicalConversationRow api z) (zip rows [0..<length rows])
      (createCanonicalConversationValidationState sid inh) = Inr s"
  shows "inherit_round s = rounds_of api z sid inh rows"
  using run
proof (induction rows arbitrary: s rule: rev_induct)
  case Nil
  then have s: "s = createCanonicalConversationValidationState sid inh" by simp
  show ?case using start unfolding s
    by (cases inh) (auto simp: createCanonicalConversationValidationState_def inherit_round_def rounds_of_def)
next
  case (snoc row rows)
  from snoc.prems obtain u where u: "foldE (reduceCanonicalConversationRow api z) (zip rows [0..<length rows])
      (createCanonicalConversationValidationState sid inh) = Inr u" "reduceCanonicalConversationRow api z (row, length rows) u = Inr s"
    by (auto simp: foldE_snoc errE)
  have t: "tracks api z sid inh rows u" and paired: "paired rows" using reduction_exact [OF start, of api z rows sid] u(1) by auto
  have t': "tracks api z sid inh (rows @ [row]) s" using reduction_exact [OF start, of api z "rows @ [row]" sid] snoc.prems by blast
  from u(2) obtain opens w r where parts: "validateActivationOpenMarker api z (vs_session u) row = Inr opens"
      "validateToolCallOrParseResult api row = Inr r"
      "validateToolOrdering api (u\<lparr>vs_ids := vs_ids u @ [am_id row],
         vs_rounds := next_rounds (inherit_round u) (length (vs_sources u)) row opens
           (repair_anchor row (case r of Some r \<Rightarrow> \<not> result_success r | None \<Rightarrow> False))\<rparr>)
         (length rows) row (call_key_of row) (result_key_of row) r = Inr w"
      "\<exists>c. s = w\<lparr>vs_sources := vs_sources w @ [c]\<rparr>"
    unfolding reduce_Inr by fastforce
  have "vs_rounds s = next_rounds (inherit_round u) (length rows) row opens
      (repair_anchor row (case r of Some r \<Rightarrow> \<not> result_success r | None \<Rightarrow> False))"
    using ordering_run [OF _ _ _ paired parts(3)] parts(4) t tracks_length [OF t] by (auto simp: tracks_def)
  moreover have "opens = opening_of api z sid row" using parts(1) t by (simp add: opening_of_def tracks_def)
  moreover have "repair_anchor row (case r of Some r \<Rightarrow> \<not> result_success r | None \<Rightarrow> False) = anchored api row"
    using parts(2) by (cases r) (simp_all add: anchored_def)
  moreover have "inherit_round s = vs_rounds s"
    using tracks_length [OF t'] t' start by (cases inh) (auto simp: inherit_round_def tracks_def)
  ultimately show ?case by (simp add: rounds_of_snoc snoc.IH [OF u(1)])
qed

section \<open>The materialised conversation\<close>

lemma foldE_total:
  "(\<And>x s. x \<in> set xs \<Longrightarrow> \<exists>t. f x s = Inr t) \<Longrightarrow> \<exists>t. foldE f xs s = Inr t"
proof (induction xs arbitrary: s)
  case (Cons x xs)
  then obtain t where "f x s = Inr t" by fastforce
  then show ?case using Cons by simp
qed simp

lemma deriveLatest_total:
  assumes "set rows \<subseteq> set sources"
  shows "\<exists>os. deriveLatestRecordObservations inherited rows sources version = Inr os"
proof -
  have "\<exists>i. map_of (rev (zip (map am_id sources) [0..<length sources])) (am_id row) = Some i" if "row \<in> set rows" for row
  proof -
    have "am_id row \<in> fst ` set (zip (map am_id sources) [0..<length sources])"
      using that assms by (force simp: set_zip in_set_conv_nth)
    then show ?thesis by (metis map_of_eq_None_iff not_Some_eq set_rev)
  qed
  then have "\<exists>t. foldE (observe_row version (rev (zip (map am_id sources) [0..<length sources]))) rows s = Inr t" for s
    by (intro foldE_total) fastforce
  then obtain t where "foldE (observe_row version (rev (zip (map am_id sources) [0..<length sources]))) rows
      (foldl (\<lambda>acc e. AList.update (recordObservationKey (ob_observed (lo_observation e))) e acc) [] inherited) = Inr t" by blast
  then show ?thesis by (simp add: deriveLatestRecordObservations_def)
qed

lemma call_key_session: "call_key_of row = Some k \<Longrightarrow> ti_session_id k = am_session_id row"
  by (auto simp: call_key_of_def loggedToolCallIdentity_def bindE_def split: if_splits sum.splits)

lemma physical_rows: "map sc_row sources = [0..<length physical] \<Longrightarrow> map (\<lambda>c. physical ! sc_row c) sources = physical"
proof -
  assume "map sc_row sources = [0..<length physical]"
  then have "map ((!) physical) (map sc_row sources) = map ((!) physical) [0..<length physical]" by simp
  then show ?thesis by (simp add: comp_def map_nth)
qed

definition unmatched_call :: "string \<Rightarrow> agent_message list \<Rightarrow> conversation_call option" where
  "unmatched_call sid rows = map_option (materialize_call rows sid) (at_last (open_calls rows))"

lemma find_unmatched:
  assumes sessions: "\<forall>r \<in> set rows. am_session_id r = sid" and paired: "paired rows" and last: "at_last (open_calls rows) = Some c"
  shows "find (\<lambda>d. call_key d = cc_key c) (map (materialize_call rows sid) (map snd (call_table rows))) = Some (materialize_call rows sid c)"
proof -
  have key: "call_key (materialize_call rows sid d) = cc_key d" if d: "d \<in> set (map snd (call_table rows))" for d
  proof -
    from d obtain k where "(k, d) \<in> set (call_table rows)" by auto
    then obtain i where "i < length rows" "call_key_of (rows ! i) = Some k" "d = call_checkpoint_of rows i k"
      unfolding call_table_mem by blast
    with sessions call_key_session show ?thesis
      by (fastforce simp: call_key_def materialize_call_def call_checkpoint_of_def intro!: tool_identity.equality)
  qed
  have "c \<in> set (open_calls rows)" using last by (auto simp: at_last_Some_iff)
  then have c: "c \<in> set (map snd (call_table rows))" by (auto simp: open_calls_def)
  have inj: "inj_on cc_key (set (map snd (call_table rows)))"
    using paired call_table_cc_key [of rows] by (simp only: paired_def distinct_map [symmetric]) (metis distinct_map)
  have "find (\<lambda>d. call_key d = cc_key c) (map (materialize_call rows sid) ds) = Some (materialize_call rows sid c)"
    if "set ds \<subseteq> set (map snd (call_table rows))" "c \<in> set ds" for ds
    using that
  proof (induction ds)
    case (Cons d ds)
    show ?case
    proof (cases "d = c")
      case True
      then show ?thesis using key [OF c] by simp
    next
      case False
      then have "cc_key d \<noteq> cc_key c" using inj Cons.prems c by (auto dest: inj_onD)
      with Cons key [of d] False show ?thesis by simp
    qed
  qed simp
  then show ?thesis using c by blast
qed

definition prompts_disjoint :: "genesis_seed option \<Rightarrow> agent_message list \<Rightarrow> bool" where
  "prompts_disjoint genesis rows \<longleftrightarrow> pred_option (\<lambda>g. \<forall>row \<in> set rows.
     am_id row \<notin> am_id ` pr_message ` set (ch_prompts (cg_history g))) genesis"

lemma materialize_run:
  assumes t: "tracks api z sid inh rows s" and paired: "paired rows" and sessions: "\<forall>r \<in> set rows. am_session_id r = sid"
    and u: "u = s\<lparr>vs_rounds := rounds, vs_unmatched := map_option cc_key (at_last (open_calls rows))\<rparr>"
  shows "materializeValidatedConversation u rows genesis = Inr v \<longleftrightarrow> prompts_disjoint genesis rows \<and>
    (\<exists>os. deriveLatestRecordObservations (rf_observations (seed_facts genesis)) rows rows (segment_version genesis) = Inr os \<and>
      v = \<lparr>vc_segment_version = segment_version genesis, vc_session = sid, vc_physical = rows, vc_rows = rows,
        vc_preamble = take (case rounds of [] \<Rightarrow> length rows | r # _ \<Rightarrow> rc_start r) rows,
        vc_rounds = map (materialize_round rows (length rounds)) (enumerate 0 rounds),
        vc_safe_ends = safe_ends (vs_sources s),
        vc_calls = map (materialize_call rows sid) (map snd (call_table rows)), vc_unmatched = unmatched_call sid rows,
        vc_genesis = map_option (\<lambda>g. (cg_id g, cg_timestamp g, cg_source_version g, cg_covered_through g)) genesis,
        vc_history = map_option cg_history genesis, vc_facts = (seed_facts genesis)\<lparr>rf_observations := os\<rparr>\<rparr>)"
proof -
  have sel: "vs_session u = sid" "map (\<lambda>c. rows ! sc_row c) (vs_sources s) = rows" "vs_calls u = call_table rows" "vs_rounds u = rounds"
      "vs_sources u = vs_sources s"
    using t u physical_rows [of "vs_sources s" rows] by (auto simp: tracks_def)
  have found: "(case vs_unmatched u of
          None \<Rightarrow> Inr None
        | Some k \<Rightarrow> bindE (optionE (PlainError ''Canonical unmatched tool call fact is missing.'' [])
            (find (\<lambda>c. call_key c = k) (map (materialize_call rows sid) (map snd (call_table rows))))) (\<lambda>c. Inr (Some c))) =
      Inr (unmatched_call sid rows)"
    using find_unmatched [OF sessions paired] u by (cases "at_last (open_calls rows)") (simp_all add: unmatched_call_def)
  have disjoint: "(case genesis of None \<Rightarrow> Inr ()
        | Some g \<Rightarrow> guardE (\<not> list_ex (\<lambda>row. am_id row \<in> am_id ` pr_message ` set (ch_prompts (cg_history g))) rows)
            (PlainError ''Compacted genesis protected prompt ids must be disjoint from retained canonical rows.'' [])) = Inr () \<longleftrightarrow>
      prompts_disjoint genesis rows"
    by (auto simp: prompts_disjoint_def errE list_ex_iff split: option.splits)
  show ?thesis
    unfolding materializeValidatedConversation_def Let_def sel found bindE_simps bindE_Inr_iff by (auto simp: disjoint)
qed

text \<open>What a validation returns, in one equation.\<close>

definition accepted :: "json_api \<Rightarrow> zod \<Rightarrow> string \<Rightarrow> agent_message list \<Rightarrow> inherited_activation option \<Rightarrow> genesis_seed option \<Rightarrow> bool" where
  "accepted api z sid rows inh genesis \<longleftrightarrow> pred_option (seed_ok sid) genesis \<and> rows_admissible api z sid (inh \<noteq> None) rows \<and>
     (\<forall>i < length rows. unanswered rows i \<longrightarrow> Suc i = length rows) \<and> prompts_disjoint genesis rows"

lemma admissible_sessions: "rows_admissible api z sid resumed rows \<Longrightarrow> r \<in> set rows \<Longrightarrow> am_session_id r = sid"
  by (auto simp: rows_admissible_def row_admissible_def in_set_conv_nth)

lemma seed_check: "(case genesis of None \<Rightarrow> Inr () | Some g \<Rightarrow> validateSelfContainedCompactedHistory sid g) = Inr () \<longleftrightarrow>
    pred_option (seed_ok sid) genesis"
  by (cases genesis) (simp_all add: seed_exact)

lemma validation_exact:
  assumes start: "pred_option (\<lambda>a. ia_start a = 0) inh"
  shows "(\<exists>v. validateConversation api z sid rows inh genesis = Inr v) \<longleftrightarrow> accepted api z sid rows inh genesis"
    and "validateConversation api z sid rows inh genesis = Inr v \<Longrightarrow>
      \<exists>rounds. rounds = rounds_of api z sid inh rows \<and> rounds_ok api z sid rows rounds \<and> vc_segment_version v = segment_version genesis \<and> vc_session v = sid \<and>
        vc_physical v = rows \<and> vc_rows v = rows \<and>
        vc_preamble v = take (case rounds of [] \<Rightarrow> length rows | r # _ \<Rightarrow> rc_start r) rows \<and>
        vc_rounds v = map (materialize_round rows (length rounds)) (enumerate 0 rounds) \<and>
        (rounds = [] \<longleftrightarrow> inh = None \<and> \<not> (\<exists>r \<in> set rows. opens_round api z sid r)) \<and>
        vc_calls v = map (materialize_call rows sid) (map snd (call_table rows)) \<and> vc_unmatched v = unmatched_call sid rows \<and>
        vc_history v = map_option cg_history genesis \<and>
        rf_recovery (vc_facts v) = rf_recovery (seed_facts genesis) \<and> rf_refusal (vc_facts v) = rf_refusal (seed_facts genesis)"
proof -
  define run where "run = foldE (reduceCanonicalConversationRow api z) (zip rows [0..<length rows])
      (createCanonicalConversationValidationState sid inh)"
  have all: "validateConversation api z sid rows inh genesis = Inr w \<longleftrightarrow> pred_option (seed_ok sid) genesis \<and>
      (\<exists>s t. run = Inr s \<and> finishCanonicalConversationValidation (s\<lparr>vs_rounds := inherit_round s\<rparr>) = Inr t \<and>
        materializeValidatedConversation t rows genesis = Inr w)" for w
    unfolding validateConversation_def run_def by (auto simp: bindE_Inr_iff seed_check)
  have red: "(\<exists>s. run = Inr s) \<longleftrightarrow> rows_admissible api z sid (inh \<noteq> None) rows"
      "run = Inr s \<Longrightarrow> tracks api z sid inh rows s \<and> paired rows \<and> rounds_ok api z sid rows (inherit_round s)" for s
    using reduction_exact [OF start, of api z rows sid] reduction_rounds [OF start, of api z rows sid s] inherit_round_ok [OF _ start]
    unfolding run_def by blast+
  have mat: "materializeValidatedConversation t rows genesis = Inr w \<longleftrightarrow> prompts_disjoint genesis rows \<and>
    (\<exists>os. deriveLatestRecordObservations (rf_observations (seed_facts genesis)) rows rows (segment_version genesis) = Inr os \<and>
      w = \<lparr>vc_segment_version = segment_version genesis, vc_session = sid, vc_physical = rows, vc_rows = rows,
        vc_preamble = take (case inherit_round s of [] \<Rightarrow> length rows | r # _ \<Rightarrow> rc_start r) rows,
        vc_rounds = map (materialize_round rows (length (inherit_round s))) (enumerate 0 (inherit_round s)),
        vc_safe_ends = safe_ends (vs_sources s),
        vc_calls = map (materialize_call rows sid) (map snd (call_table rows)), vc_unmatched = unmatched_call sid rows,
        vc_genesis = map_option (\<lambda>g. (cg_id g, cg_timestamp g, cg_source_version g, cg_covered_through g)) genesis,
        vc_history = map_option cg_history genesis, vc_facts = (seed_facts genesis)\<lparr>rf_observations := os\<rparr>\<rparr>)"
    if "run = Inr s" "finishCanonicalConversationValidation (s\<lparr>vs_rounds := inherit_round s\<rparr>) = Inr t" for s t w
  proof -
    have s: "tracks api z sid inh rows s" "paired rows" using red(2) [OF that(1)] by auto
    have "\<forall>r \<in> set rows. am_session_id r = sid" using red(1) that(1) admissible_sessions by blast
    moreover have "t = s\<lparr>vs_rounds := inherit_round s, vs_unmatched := map_option cc_key (at_last (open_calls rows))\<rparr>"
      using finish_run(2) [OF _ _ s(2) that(2)] s(1) tracks_length [OF s(1)] by (simp add: tracks_def)
    ultimately show ?thesis by (rule materialize_run [OF s])
  qed
  have fin: "(\<exists>t. finishCanonicalConversationValidation (s\<lparr>vs_rounds := inherit_round s\<rparr>) = Inr t) \<longleftrightarrow>
      (\<forall>i < length rows. unanswered rows i \<longrightarrow> Suc i = length rows)" if "run = Inr s" for s
    by (rule finish_run(1)) (use red(2) [OF that] tracks_length in \<open>auto simp: tracks_def\<close>)
  show "(\<exists>v. validateConversation api z sid rows inh genesis = Inr v) \<longleftrightarrow> accepted api z sid rows inh genesis"
  proof (cases run)
    case (Inl e)
    then show ?thesis using red(1) by (simp add: all accepted_def)
  next
    case (Inr s)
    obtain os where "deriveLatestRecordObservations (rf_observations (seed_facts genesis)) rows rows (segment_version genesis) = Inr os"
      using deriveLatest_total by blast
    with Inr fin [OF Inr] red(1) show ?thesis unfolding all accepted_def by (auto simp: mat)
  qed
  show "\<exists>rounds. rounds = rounds_of api z sid inh rows \<and> rounds_ok api z sid rows rounds \<and> vc_segment_version v = segment_version genesis \<and> vc_session v = sid \<and>
        vc_physical v = rows \<and> vc_rows v = rows \<and>
        vc_preamble v = take (case rounds of [] \<Rightarrow> length rows | r # _ \<Rightarrow> rc_start r) rows \<and>
        vc_rounds v = map (materialize_round rows (length rounds)) (enumerate 0 rounds) \<and>
        (rounds = [] \<longleftrightarrow> inh = None \<and> \<not> (\<exists>r \<in> set rows. opens_round api z sid r)) \<and>
        vc_calls v = map (materialize_call rows sid) (map snd (call_table rows)) \<and> vc_unmatched v = unmatched_call sid rows \<and>
        vc_history v = map_option cg_history genesis \<and>
        rf_recovery (vc_facts v) = rf_recovery (seed_facts genesis) \<and> rf_refusal (vc_facts v) = rf_refusal (seed_facts genesis)"
    if "validateConversation api z sid rows inh genesis = Inr v"
  proof -
    from that obtain s t where st: "run = Inr s" "finishCanonicalConversationValidation (s\<lparr>vs_rounds := inherit_round s\<rparr>) = Inr t"
        "materializeValidatedConversation t rows genesis = Inr v" unfolding all by blast
    have rounds: "rounds_of api z sid inh rows = inherit_round s"
      using reduction_rounds_of [OF start st(1) [unfolded run_def]] by simp
    show ?thesis unfolding rounds using st red(2) [OF st(1)] inherit_round_Nil [OF _ start] mat [OF st(1,2)]
      by (intro exI [of _ "inherit_round s"]) auto
  qed
qed

end
