(* ===== verification/ConversationCompaction.thy ===== *)
theory ConversationCompaction
  imports ConversationShape
begin

text \<open>
  What a compaction carries over (\<^verbatim>\<open>src/contracts/conversation-validation.ts\<close>): the selection of
  protected prompts, the atomicity of the covered prefix, the required facts, and the check of
  a successor. Every row is an object of its own, so \<open>rows.indexOf\<close> of an occurrence is its
  position. Prompts and facts are compared through \<open>canonicalJson\<close> in the code and as values
  here: the serialisation of these documents is injective.
\<close>

section \<open>Protected prompts\<close>

definition prompt_occurrences :: "protected_prompt list \<Rightarrow> agent_message list \<Rightarrow> nat \<Rightarrow> protected_prompt list" where
  "prompt_occurrences inherited rows sourceVersion = inherited @
     map (\<lambda>(i, m). \<lparr>pr_segment_version = sourceVersion, pr_row_index = i, pr_message = m\<rparr>) (enumerate 0 rows)"

definition scan_occurrence ::
    "nat list \<times> (string \<times> nat) list \<Rightarrow> nat \<times> protected_prompt \<Rightarrow> nat list \<times> (string \<times> nat) list" where
  "scan_occurrence = (\<lambda>(selected, latestByKey) (index, occurrence).
     if \<not> is_protected (am_policy (pr_message occurrence)) then (selected, latestByKey)
     else case compaction_key (am_policy (pr_message occurrence)) of
       None \<Rightarrow> (selected @ [index], latestByKey)
     | Some key \<Rightarrow> (selected, AList.update key index latestByKey))"

definition selected_occurrences :: "protected_prompt list \<Rightarrow> nat list" where
  "selected_occurrences occs =
     (let (selected, latestByKey) = foldl scan_occurrence ([], []) (enumerate 0 occs) in selected @ map snd latestByKey)"

record protection_selection =
  ps_protected :: "protected_prompt list"
  ps_active :: "protected_prompt list"
  ps_released :: "agent_message list"

definition selectConversationProtection ::
    "protected_prompt list \<Rightarrow> agent_message list \<Rightarrow> nat \<Rightarrow> nat \<Rightarrow> protection_selection" where
  "selectConversationProtection inherited rows sourceVersion cutoffCount =
     (let occs = prompt_occurrences inherited rows sourceVersion;
          selected = selected_occurrences occs;
          chosen = (\<lambda>P. map snd (filter (\<lambda>(i, _). i \<in> set selected \<and> P i) (enumerate 0 occs)))
      in \<lparr>ps_protected = chosen (\<lambda>i. i < length inherited \<or> i - length inherited < cutoffCount),
          ps_active = chosen (\<lambda>_. True),
          ps_released = map (pr_message \<circ> snd)
            (filter (\<lambda>(i, _). i \<notin> set selected) (enumerate 0 (take (length inherited) occs)))\<rparr>)"

section \<open>The covered prefix\<close>

definition settled_result :: "validated_conversation \<Rightarrow> string list \<Rightarrow> string \<Rightarrow> error + string" where
  "settled_result conversation covered callId =
     bindE (optionE (PlainError ''Covered tool call is not part of one complete settled exchange.'' [callId])
       (Option.bind (find (\<lambda>c. am_id (cl_message c) = callId) (vc_calls conversation)) cl_result)) (\<lambda>j.
     let resultId = am_id (vc_rows conversation ! j) in
     bindE (guardE (resultId \<in> set covered)
       (PlainError ''Compaction coverage would split the provider bundle of tool call.'' [callId])) (\<lambda>_.
     Inr resultId))"

definition private_id :: "agent_message \<Rightarrow> string option" where
  "private_id row = map_option pp_private_message_id (am_projection row)"

definition mate_covered :: "string list \<Rightarrow> agent_message \<Rightarrow> bool" where
  "mate_covered covered row = pred_option (\<lambda>p. p \<in> set covered) (private_id row)"

text \<open>The group a covered row contributes; rows that an earlier group includes give none.\<close>

definition atomic_group :: "validated_conversation \<Rightarrow> agent_message list \<Rightarrow> agent_message \<Rightarrow> error + string list" where
  "atomic_group conversation coveredRows row =
     (let covered = map am_id coveredRows; bundled = (truthy_text (private_id row) \<and> mate_covered covered row) in
      if am_kind row = KToolCall then
        (if bundled then Inr []
         else bindE (settled_result conversation covered (am_id row)) (\<lambda>resultId. Inr [am_id row, resultId]))
      else if am_kind row = KToolResult then Inr []
      else if am_kind row = KProviderPrivate then
        (case find (\<lambda>candidate. private_id candidate = Some (am_id row)) coveredRows of
           None \<Rightarrow> Inl (PlainError ''Covered private row would be split from its marked visible mate.'' [am_id row])
         | Some mate \<Rightarrow>
             if am_kind mate \<noteq> KToolCall then Inr [am_id row, am_id mate]
             else bindE (settled_result conversation covered (am_id mate)) (\<lambda>resultId. Inr [am_id row, am_id mate, resultId]))
      else if bundled then Inr []
      else Inr [am_id row])"

definition validateAtomicCoveredSourcePrefix :: "validated_conversation \<Rightarrow> agent_message list \<Rightarrow> error + unit" where
  "validateAtomicCoveredSourcePrefix conversation coveredRows =
     bindE (guardE (coveredRows \<noteq> []) (PlainError ''Compaction coverage requires source rows.'' [])) (\<lambda>_.
     bindE (mapE (\<lambda>row. optionE (PlainError ''Covered row is not a source row of the current conversation.'' [am_id row])
         (find (\<lambda>i. am_id (vc_rows conversation ! i) = am_id row) [0..<length (vc_rows conversation)])) coveredRows) (\<lambda>ordinals.
     bindE (guardE (ordinals = [0..<length ordinals])
       (PlainError ''Covered rows are not one exact contiguous canonical source prefix.'' [])) (\<lambda>_.
     bindE (mapE (atomic_group conversation coveredRows) coveredRows) (\<lambda>groups.
     guardE (concat groups = map am_id coveredRows)
       (PlainError ''Atomic covered source groups do not reassemble the exact covered source order.'' [])))))"

section \<open>Required facts\<close>

definition slice_end :: "nat \<Rightarrow> string \<Rightarrow> string" where
  "slice_end n s = take (length s - n) s"

definition recovered_input :: "agent_message \<Rightarrow> string" where
  "recovered_input row = slice_end (length '':model-recovered'') (am_id row)"

definition validateCoveredRecoveryRow :: "agent_message \<Rightarrow> error + unit" where
  "validateCoveredRecoveryRow row =
     bindE (guardE (ends_with '':model-recovered'' (am_id row) \<and> am_content row = MODEL_RECOVERY_NOTICE_TEXT)
       (PlainError ''Covered recovery notice does not carry the exact canonical recovery warning and identity.'' [am_id row])) (\<lambda>_.
     guardE (canonicalUuidSchema (recovered_input row))
       (PlainError ''Covered recovery notice does not name a canonical activation input id.'' [am_id row]))"

definition validateCoveredRefusalRow :: "validated_conversation \<Rightarrow> agent_message \<Rightarrow> string \<Rightarrow> error + unit" where
  "validateCoveredRefusalRow source row activationInputId =
     bindE (guardE (canonicalUuidSchema activationInputId)
       (PlainError ''Covered refusal marker does not name a canonical activation input id.'' [am_id row])) (\<lambda>_.
     guardE (pred_option (\<lambda>r. am_id (last (sr_rows r)) = am_id row)
           (find (\<lambda>r. list_ex (\<lambda>c. am_id c = am_id row) (sr_rows r)) (vc_rounds source)) \<and>
         list_ex (\<lambda>r. list_ex (\<lambda>c. am_id c = am_id row) (sr_rows r)) (vc_rounds source))
       (PlainError ''Covered refusal marker is not the terminal row of its activation.'' [am_id row]))"

definition cover_fact ::
    "json_api \<Rightarrow> zod \<Rightarrow> validated_conversation \<Rightarrow> agent_message \<Rightarrow> (string \<times> string) option \<times> (string \<times> string) option \<Rightarrow>
     error + (string \<times> string) option \<times> (string \<times> string) option" where
  "cover_fact api z source row = (\<lambda>(recovery, refusal).
     if am_kind row = KModelRecovered then
       bindE (validateCoveredRecoveryRow row) (\<lambda>_. Inr (Some (am_id row, recovered_input row), refusal))
     else if am_kind row = KContentPolicyRefusal then
       bindE (parseCanonicalContentPolicyRefusal api z (am_content row)) (\<lambda>input.
       bindE (validateCoveredRefusalRow source row input) (\<lambda>_.
       Inr (recovery, Some (am_id row, input))))
     else Inr (recovery, refusal))"

definition deriveRequiredModelFacts ::
    "json_api \<Rightarrow> zod \<Rightarrow> required_facts \<Rightarrow> agent_message list \<Rightarrow> validated_conversation \<Rightarrow> error + required_facts" where
  "deriveRequiredModelFacts api z inherited coveredRows source =
     bindE (foldE (cover_fact api z source) coveredRows (rf_recovery inherited, rf_refusal inherited)) (\<lambda>(recovery, refusal).
     bindE (deriveLatestRecordObservations (rf_observations inherited) coveredRows (vc_rows source) (vc_segment_version source))
       (\<lambda>observations.
     Inr \<lparr>rf_observations = observations, rf_recovery = recovery, rf_refusal = refusal\<rparr>))"

definition validateCompactedHistorySuccessor ::
    "json_api \<Rightarrow> zod \<Rightarrow> validated_conversation \<Rightarrow> nat \<Rightarrow> compacted_history \<Rightarrow> agent_message list \<Rightarrow> error + unit" where
  "validateCompactedHistorySuccessor api z source sourceVersion successor coveredRows =
     (let inheritedPrompts = (case vc_history source of None \<Rightarrow> [] | Some h \<Rightarrow> ch_prompts h);
          inheritedFacts = (case vc_history source of None \<Rightarrow> no_facts | Some h \<Rightarrow> ch_facts h);
          protection = selectConversationProtection inheritedPrompts (vc_rows source) sourceVersion (length coveredRows)
      in bindE (validateAtomicCoveredSourcePrefix source coveredRows) (\<lambda>_.
         bindE (guardE (ps_protected protection = ch_prompts successor)
           (PlainError ''Successor protected prompts do not exactly derive from the source protection selection.'' [])) (\<lambda>_.
         bindE (deriveRequiredModelFacts api z inheritedFacts coveredRows source) (\<lambda>expected.
         guardE (expected = ch_facts successor)
           (PlainError ''Successor required model facts do not match the newest covered canonical occurrences.'' [])))))"

section \<open>Which prompts survive\<close>

definition shadows :: "protected_prompt \<Rightarrow> protected_prompt \<Rightarrow> bool" where
  "shadows f e \<longleftrightarrow> is_protected (am_policy (pr_message f)) \<and>
     compaction_key (am_policy (pr_message e)) \<noteq> None \<and>
     compaction_key (am_policy (pr_message f)) = compaction_key (am_policy (pr_message e))"

text \<open>The specification: a protected prompt survives unless a later one has its key.\<close>

fun surviving :: "protected_prompt list \<Rightarrow> protected_prompt list" where
  "surviving [] = []"
| "surviving (e # es) =
     (if is_protected (am_policy (pr_message e)) \<and> \<not> list_ex (\<lambda>f. shadows f e) es then [e] else []) @ surviving es"

definition live :: "protected_prompt list \<Rightarrow> nat \<Rightarrow> bool" where
  "live es i \<longleftrightarrow> i < length es \<and> is_protected (am_policy (pr_message (es ! i))) \<and>
     \<not> (\<exists>j < length es. i < j \<and> shadows (es ! j) (es ! i))"

lemma live_snoc:
  "live (es @ [e]) i \<longleftrightarrow>
     (if i < length es then live es i \<and> \<not> shadows e (es ! i) else i = length es \<and> is_protected (am_policy (pr_message e)))"
  by (auto simp: live_def nth_append less_Suc_eq)

lemma live_bound: "live es i \<Longrightarrow> i < length es"
  by (simp add: live_def)

abbreviation key_at :: "protected_prompt list \<Rightarrow> nat \<Rightarrow> string option" where
  "key_at es i \<equiv> compaction_key (am_policy (pr_message (es ! i)))"

definition scanned :: "protected_prompt list \<Rightarrow> nat list \<times> (string \<times> nat) list \<Rightarrow> bool" where
  "scanned es = (\<lambda>(sel, latest). distinct (map fst latest) \<and>
      (\<forall>i. i \<in> set sel \<longleftrightarrow> live es i \<and> key_at es i = None) \<and>
      (\<forall>k i. map_of latest k = Some i \<longleftrightarrow> live es i \<and> key_at es i = Some k))"

lemma scan_step:
  assumes "scanned es (sel, latest)"
  shows "scanned (es @ [e]) (scan_occurrence (sel, latest) (length es, e))"
proof -
  from assms have IH: "distinct (map fst latest)" "\<And>i. i \<in> set sel \<longleftrightarrow> live es i \<and> key_at es i = None"
      "\<And>k i. map_of latest k = Some i \<longleftrightarrow> live es i \<and> key_at es i = Some k" by (auto simp: scanned_def)
  have at: "(es @ [e]) ! i = (if i < length es then es ! i else e)" if "live (es @ [e]) i" for i
    using live_bound [OF that] by (auto simp: nth_append less_Suc_eq)
  show ?thesis
  proof (cases "is_protected (am_policy (pr_message e))")
    case False
    then have same: "live (es @ [e]) i \<longleftrightarrow> live es i" for i using live_bound [of es i] by (auto simp: live_snoc shadows_def)
    have key: "key_at (es @ [e]) i = key_at es i" if "live es i" for i using live_bound [OF that] by (simp add: nth_append)
    show ?thesis using False IH(1) by (simp add: scanned_def scan_occurrence_def IH(2,3) same key del: map_of_eq_Some_iff cong: conj_cong)
  next
    case True
    show ?thesis
    proof (cases "compaction_key (am_policy (pr_message e))")
      case None
      then have live: "live (es @ [e]) i \<longleftrightarrow> live es i \<or> i = length es" for i
        using True live_bound [of es i] by (auto simp: live_snoc shadows_def)
      have "i \<in> set (sel @ [length es]) \<longleftrightarrow> live (es @ [e]) i \<and> key_at (es @ [e]) i = None" for i
        using IH(2) [of i] None live_bound [of es i] by (auto simp: live nth_append)
      moreover have "map_of latest k = Some i \<longleftrightarrow> live (es @ [e]) i \<and> key_at (es @ [e]) i = Some k" for k i
        using IH(3) [of k i] None live_bound [of es i] by (auto simp: live nth_append)
      ultimately show ?thesis using True None IH(1) by (simp add: scanned_def scan_occurrence_def)
    next
      case (Some key)
      then have live: "live (es @ [e]) i \<longleftrightarrow> live es i \<and> key_at es i \<noteq> Some key \<or> i = length es" for i
        using True live_bound [of es i] by (auto simp: live_snoc shadows_def)
      have "i \<in> set sel \<longleftrightarrow> live (es @ [e]) i \<and> key_at (es @ [e]) i = None" for i
        using IH(2) [of i] Some live_bound [of es i] by (auto simp: live nth_append)
      moreover have "map_of (AList.update key (length es) latest) k = Some i \<longleftrightarrow> live (es @ [e]) i \<and> key_at (es @ [e]) i = Some k" for k i
      proof (cases "i = length es")
        case True
        moreover have "map_of latest k \<noteq> Some (length es)" using IH(3) live_bound [of es "length es"] by auto
        ultimately show ?thesis using Some by (auto simp: update_conv' live nth_append)
      next
        case False
        then show ?thesis using IH(3) [of k i] IH(3) [of key i] live_bound [of es i]
          by (cases "k = key") (auto simp: update_conv' live nth_append)
      qed
      ultimately show ?thesis using True Some IH(1) by (simp add: scanned_def scan_occurrence_def distinct_update)
    qed
  qed
qed

lemma scan_exact: "scanned es (foldl scan_occurrence ([], []) (enumerate 0 es))"
proof (induction es rule: rev_induct)
  case Nil
  show ?case by (simp add: scanned_def live_def)
next
  case (snoc e es)
  then show ?case using scan_step [of es] by (cases "foldl scan_occurrence ([], []) (enumerate 0 es)") (simp add: enumerate_snoc)
qed

lemma selected_exact: "set (selected_occurrences es) = {i. live es i}"
proof -
  obtain sel latest where run: "foldl scan_occurrence ([], []) (enumerate 0 es) = (sel, latest)"
    by (cases "foldl scan_occurrence ([], []) (enumerate 0 es)")
  with scan_exact [of es] have IH: "distinct (map fst latest)" "\<And>i. i \<in> set sel \<longleftrightarrow> live es i \<and> key_at es i = None"
      "\<And>k i. map_of latest k = Some i \<longleftrightarrow> live es i \<and> key_at es i = Some k" by (auto simp: scanned_def)
  have "i \<in> snd ` set latest \<longleftrightarrow> live es i \<and> key_at es i \<noteq> None" for i
  proof -
    have "i \<in> snd ` set latest \<longleftrightarrow> (\<exists>k. (k, i) \<in> set latest)" by force
    then have "i \<in> snd ` set latest \<longleftrightarrow> (\<exists>k. map_of latest k = Some i)" by (simp only: map_of_eq_Some_iff [OF IH(1)])
    then show ?thesis by (simp add: IH(3))
  qed
  with run IH(2) show ?thesis by (auto simp: selected_occurrences_def)
qed

lemma surviving_live: "surviving es = map snd (filter (\<lambda>(i, _). live es i) (enumerate 0 es))"
proof -
  have "surviving es = map ((!) es) (filter (live es) [0..<length es])"
  proof (induction es)
    case (Cons e es)
    have here: "live (e # es) 0 \<longleftrightarrow> is_protected (am_policy (pr_message e)) \<and> \<not> list_ex (\<lambda>f. shadows f e) es"
      by (force simp: live_def list_ex_iff in_set_conv_nth gr0_conv_Suc)
    have later: "live (e # es) (Suc i) \<longleftrightarrow> live es i" for i
    proof -
      have "(\<exists>j < Suc (length es). Suc i < j \<and> shadows ((e # es) ! j) (es ! i)) \<longleftrightarrow> (\<exists>j < length es. i < j \<and> shadows (es ! j) (es ! i))"
        by (auto simp: Suc_less_eq2)
      then show ?thesis by (simp add: live_def)
    qed
    have "filter (live (e # es)) [0..<length (e # es)] =
        (if live (e # es) 0 then [0] else []) @ map Suc (filter (live es) [0..<length es])"
      by (simp add: upt_conv_Cons del: upt_Suc flip: map_Suc_upt) (simp add: filter_map comp_def later)
    with Cons here show ?case by (simp add: comp_def)
  qed (simp add: live_def)
  also have "\<dots> = map snd (filter (\<lambda>(i, _). live es i) (enumerate 0 es))"
  proof -
    have "enumerate 0 es = map (\<lambda>i. (i, es ! i)) [0..<length es]" by (rule nth_equalityI) (simp_all add: nth_enumerate_eq)
    then show ?thesis by (simp add: filter_map comp_def)
  qed
  finally show ?thesis .
qed

lemma selection_active: "ps_active (selectConversationProtection inherited rows v c) = surviving (prompt_occurrences inherited rows v)"
  by (simp add: selectConversationProtection_def Let_def selected_exact surviving_live)

lemma surviving_append:
  "surviving (xs @ ys) = filter (\<lambda>e. \<not> list_ex (\<lambda>f. shadows f e) ys) (surviving xs) @ surviving ys"
  by (induction xs) auto

lemma live_append: "i < length xs \<Longrightarrow> live (xs @ ys) i \<longleftrightarrow> live xs i \<and> \<not> list_ex (\<lambda>f. shadows f (xs ! i)) ys"
proof -
  assume i: "i < length xs"
  have "(\<exists>j < length (xs @ ys). i < j \<and> shadows ((xs @ ys) ! j) (xs ! i)) \<longleftrightarrow>
      (\<exists>j < length xs. i < j \<and> shadows (xs ! j) (xs ! i)) \<or> (\<exists>j < length ys. shadows (ys ! j) (xs ! i))" (is "?l \<longleftrightarrow> ?r")
  proof
    assume ?l
    then obtain j where j: "j < length (xs @ ys)" "i < j" "shadows ((xs @ ys) ! j) (xs ! i)" by blast
    show ?r
    proof (cases "j < length xs")
      case True
      with j show ?thesis by (auto simp: nth_append)
    next
      case False
      with j have "j - length xs < length ys \<and> shadows (ys ! (j - length xs)) (xs ! i)" by (auto simp: nth_append)
      then show ?thesis by blast
    qed
  next
    assume ?r
    then show ?l
    proof
      assume "\<exists>j < length ys. shadows (ys ! j) (xs ! i)"
      then obtain j where "j < length ys" "shadows (ys ! j) (xs ! i)" by blast
      then show ?thesis using i by (intro exI [of _ "length xs + j"]) simp
    qed (auto simp: nth_append)
  qed
  moreover have "list_ex (\<lambda>f. shadows f (xs ! i)) ys \<longleftrightarrow> (\<exists>j < length ys. shadows (ys ! j) (xs ! i))"
    by (metis in_set_conv_nth list_ex_iff)
  ultimately show ?thesis using i by (auto simp: live_def nth_append [of xs ys i])
qed

lemma selection_protected:
  assumes "prompt_occurrences inherited rows v = xs @ ys" and "length xs = length inherited + c"
  shows "ps_protected (selectConversationProtection inherited rows v c) = filter (\<lambda>e. \<not> list_ex (\<lambda>f. shadows f e) ys) (surviving xs)"
proof -
  have "ps_protected (selectConversationProtection inherited rows v c) =
      map snd (filter (\<lambda>(i, _). live (xs @ ys) i \<and> i < length xs) (enumerate 0 (xs @ ys)))"
  proof -
    have "(i < length inherited \<or> i - length inherited < c) = (i < length xs)" for i using assms(2) by arith
    then show ?thesis by (simp add: selectConversationProtection_def Let_def assms(1) selected_exact)
  qed
  also have "\<dots> = map snd (filter (\<lambda>(i, _). live (xs @ ys) i \<and> i < length xs) (enumerate 0 xs))"
  proof -
    have none: "filter (\<lambda>(i, _). live (xs @ ys) i \<and> i < length xs) (enumerate (length xs) ys) = []"
      by (auto simp: filter_empty_conv in_set_enumerate_eq)
    show ?thesis by (simp add: enumerate_append_eq none)
  qed
  also have "\<dots> = map snd (filter (\<lambda>(i, e). live xs i \<and> \<not> list_ex (\<lambda>f. shadows f e) ys) (enumerate 0 xs))"
    by (rule arg_cong [of _ _ "map snd"], rule filter_cong) (auto simp: in_set_enumerate_eq live_append)
  also have "\<dots> = filter (\<lambda>e. \<not> list_ex (\<lambda>f. shadows f e) ys) (surviving xs)"
    unfolding surviving_live by (simp add: filter_map comp_def case_prod_unfold conj_commute flip: filter_filter)
  finally show ?thesis .
qed

lemma surviving_settled: "sorted_wrt (\<lambda>e f. \<not> shadows f e) (surviving es) \<and> (\<forall>e \<in> set (surviving es). is_protected (am_policy (pr_message e)))"
proof (induction es)
  case (Cons e es)
  have "set (surviving es) \<subseteq> set es" by (induction es) auto
  with Cons show ?case by (auto simp: sorted_wrt_append list_ex_iff)
qed simp

lemma surviving_id:
  "sorted_wrt (\<lambda>e f. \<not> shadows f e) es \<Longrightarrow> \<forall>e \<in> set es. is_protected (am_policy (pr_message e)) \<Longrightarrow> surviving es = es"
  by (induction es) (auto simp: list_ex_iff)

lemma surviving_messages:
  "map pr_message es = map pr_message fs \<Longrightarrow> map pr_message (surviving es) = map pr_message (surviving fs)"
proof (induction es arbitrary: fs)
  case (Cons e es)
  then obtain f fs' where f: "fs = f # fs'" "pr_message f = pr_message e" "map pr_message es = map pr_message fs'"
    by (auto simp: map_eq_Cons_conv eq_commute)
  have "list_ex (\<lambda>g. shadows g e) es \<longleftrightarrow> list_ex (\<lambda>g. shadows g f) fs'"
  proof -
    have "list_ex (\<lambda>g. shadows g x) gs \<longleftrightarrow> list_ex (\<lambda>m. is_protected (am_policy m) \<and> compaction_key (am_policy (pr_message x)) \<noteq> None \<and>
        compaction_key (am_policy m) = compaction_key (am_policy (pr_message x))) (map pr_message gs)" for gs x
      by (auto simp: list_ex_iff shadows_def)
    then show ?thesis by (simp only: f)
  qed
  with Cons.IH [OF f(3)] f show ?case by simp
qed simp

text \<open>Compaction loses no active prompt and revives none.\<close>

lemma protection_kept:
  assumes c: "c \<le> length rows"
  shows "map pr_message (ps_active (selectConversationProtection
      (ps_protected (selectConversationProtection inherited rows v c)) (drop c rows) v' c')) =
    map pr_message (ps_active (selectConversationProtection inherited rows v c))"
proof -
  let ?occ = "\<lambda>v n rs. map (\<lambda>(i, m). \<lparr>pr_segment_version = v, pr_row_index = i, pr_message = m\<rparr>) (enumerate n rs)"
  define xs ys where "xs = inherited @ ?occ v 0 (take c rows)" and "ys = ?occ v c (drop c rows)"
  have "enumerate 0 rows = enumerate 0 (take c rows) @ enumerate c (drop c rows)"
    using c enumerate_append_eq [of 0 "take c rows" "drop c rows"] by (simp add: min_absorb2)
  then have occ: "prompt_occurrences inherited rows v = xs @ ys" by (simp add: prompt_occurrences_def xs_def ys_def)
  have len: "length xs = length inherited + c" using c by (simp add: xs_def)
  define kept where "kept = filter (\<lambda>e. \<not> list_ex (\<lambda>f. shadows f e) ys) (surviving xs)"
  have kept: "ps_protected (selectConversationProtection inherited rows v c) = kept"
    using selection_protected [OF occ len] by (simp add: kept_def)
  have "surviving kept = kept"
    using surviving_settled [of xs] by (intro surviving_id) (auto simp: kept_def sorted_wrt_filter)
  moreover have "filter (\<lambda>e. \<not> list_ex (\<lambda>f. shadows f e) ys) kept = kept" by (simp add: kept_def)
  ultimately have "surviving (kept @ ys) = kept @ surviving ys" by (simp add: surviving_append)
  moreover have "map pr_message (surviving (prompt_occurrences kept (drop c rows) v')) = map pr_message (surviving (kept @ ys))"
    by (rule surviving_messages) (simp add: prompt_occurrences_def ys_def comp_def case_prod_unfold)
  moreover have "surviving (xs @ ys) = kept @ surviving ys" by (simp add: surviving_append kept_def)
  ultimately show ?thesis by (simp add: selection_active kept occ)
qed

section \<open>No exchange is split\<close>

lemma settled_result_Inr:
  assumes calls: "vc_calls conv = map (materialize_call rows sid) (map snd (call_table rows))" "vc_rows conv = rows"
    and ids: "distinct (map am_id rows)" and i: "i < length rows" "call_key_of (rows ! i) = Some k"
    and run: "settled_result conv covered (am_id (rows ! i)) = Inr res"
  shows "\<exists>j < length rows. result_key_of (rows ! j) = Some k \<and> res = am_id (rows ! j) \<and> res \<in> set covered"
proof -
  from run obtain c j where c: "find (\<lambda>c. am_id (cl_message c) = am_id (rows ! i)) (vc_calls conv) = Some c" "cl_result c = Some j"
      "res = am_id (rows ! j)" "res \<in> set covered"
    by (auto simp: settled_result_def errE Let_def calls(2) split: bind_splits)
  from c(1) have "c \<in> set (vc_calls conv)" "am_id (cl_message c) = am_id (rows ! i)" by (auto simp: find_Some_iff)
  then obtain k' d where d: "(k', d) \<in> set (call_table rows)" "c = materialize_call rows sid d" unfolding calls(1) by auto
  then obtain i' where i': "i' < length rows" "call_key_of (rows ! i') = Some k'" "d = call_checkpoint_of rows i' k'"
    unfolding call_table_mem by blast
  have "am_id (rows ! i') = am_id (rows ! i)" using d i' \<open>am_id (cl_message c) = _\<close> by (simp add: materialize_call_def call_checkpoint_of_def)
  then have "i' = i" using ids i i' by (simp add: distinct_conv_nth) metis
  with i i' have "k' = k" by simp
  with d i' c(2) have "map_of (result_table rows) k = Some j" by (simp add: materialize_call_def call_checkpoint_of_def)
  then have "(k, j) \<in> set (result_table rows)" by (rule map_of_SomeD)
  then show ?thesis using c(3,4) by (auto simp: result_table_index)
qed

lemma atomic_settles:
  assumes calls: "vc_calls conv = map (materialize_call rows sid) (map snd (call_table rows))" "vc_rows conv = rows"
    and ids: "distinct (map am_id rows)" and run: "validateAtomicCoveredSourcePrefix conv (take n rows) = Inr ()"
    and i: "i < n" "i < length rows" "call_key_of (rows ! i) = Some k"
  shows "\<exists>j < n. j < length rows \<and> result_key_of (rows ! j) = Some k"
proof -
  let ?covered = "take n rows"
  from run obtain groups where groups: "mapE (atomic_group conv ?covered) ?covered = Inr groups" "concat groups = map am_id ?covered"
    by (auto simp: validateAtomicCoveredSourcePrefix_def errE)
  have "am_id (rows ! i) \<in> set (concat groups)" unfolding groups(2) using i by (force simp: in_set_conv_nth)
  then obtain g where "g \<in> set groups" "am_id (rows ! i) \<in> set g" by auto
  then obtain r where r: "r \<in> set ?covered" "atomic_group conv ?covered r = Inr g" using mapE_set [OF groups(1)] by blast
  have kind: "am_kind (rows ! i) = KToolCall" using i(3) by (rule call_key_kind)
  have same: "x = rows ! i" if "x \<in> set rows" "am_id x = am_id (rows ! i)" for x
    using that ids i(2) by (metis distinct_map inj_onD nth_mem)
  have own: ?thesis if "settled_result conv (map am_id ?covered) (am_id (rows ! i)) = Inr res" for res
  proof -
    from settled_result_Inr [OF calls ids i(2,3) that] obtain j where j: "j < length rows" "result_key_of (rows ! j) = Some k"
        "am_id (rows ! j) \<in> set (map am_id ?covered)" by blast
    then obtain j' where "j' < n" "j' < length rows" "am_id (rows ! j') = am_id (rows ! j)" by (auto simp: in_set_conv_nth)
    then have "j' = j" using ids j(1) by (simp add: distinct_conv_nth) metis
    with \<open>j' < n\<close> j show ?thesis by blast
  qed
  have other: False if "settled_result conv covered (am_id m) = Inr (am_id (rows ! i))" "m \<in> set rows" "am_kind m = KToolCall" for m covered
  proof -
    from that(1) obtain c j where "find (\<lambda>c. am_id (cl_message c) = am_id m) (vc_calls conv) = Some c" "cl_result c = Some j"
        "am_id (rows ! i) = am_id (rows ! j)"
      by (auto simp: settled_result_def errE Let_def calls(2) split: bind_splits)
    moreover from this(1) have "c \<in> set (vc_calls conv)" by (auto simp: find_Some_iff)
    then obtain k' d i' where "d = call_checkpoint_of rows i' k'" "c = materialize_call rows sid d"
      unfolding calls(1) using call_table_mem by fastforce
    ultimately have "map_of (result_table rows) k' = Some j" "am_id (rows ! i) = am_id (rows ! j)"
      by (auto simp: materialize_call_def call_checkpoint_of_def)
    then have "j < length rows" "result_key_of (rows ! j) = Some k'" "am_id (rows ! j) = am_id (rows ! i)"
      using map_of_SomeD [of "result_table rows" k' j] by (auto simp: result_table_index)
    then show False using same [of "rows ! j"] result_key_kind kind by fastforce
  qed
  have r_rows: "r \<in> set rows" using r(1) by (rule in_set_takeD)
  consider (KToolCall) "am_kind r = KToolCall" | (KProviderPrivate) "am_kind r = KProviderPrivate"
    | (Other) "am_kind r \<noteq> KToolCall" "am_kind r \<noteq> KProviderPrivate" by blast
  then show ?thesis
  proof cases
    case KToolCall
    with r(2) \<open>am_id (rows ! i) \<in> set g\<close> obtain res where "settled_result conv (map am_id ?covered) (am_id r) = Inr res"
        "am_id (rows ! i) = am_id r \<or> am_id (rows ! i) = res"
      by (auto simp: atomic_group_def errE Let_def split: if_splits)
    then show ?thesis using own other [OF _ r_rows KToolCall] same [OF r_rows] by metis
  next
    case KProviderPrivate
    with r(2) obtain mate where mate: "find (\<lambda>c. private_id c = Some (am_id r)) ?covered = Some mate"
      by (auto simp: atomic_group_def Let_def split: option.splits)
    then have mate_rows: "mate \<in> set rows" by (auto simp: find_Some_iff dest: nth_mem in_set_takeD)
    have not_r: "am_id (rows ! i) \<noteq> am_id r" using same [OF r_rows] kind KProviderPrivate by auto
    show ?thesis
    proof (cases "am_kind mate = KToolCall")
      case True
      with r(2) KProviderPrivate mate obtain res where res: "settled_result conv (map am_id ?covered) (am_id mate) = Inr res"
          "g = [am_id r, am_id mate, res]"
        by (auto simp: atomic_group_def errE)
      with \<open>am_id (rows ! i) \<in> set g\<close> not_r have "am_id (rows ! i) = am_id mate \<or> am_id (rows ! i) = res" by simp
      with res(1) show ?thesis using own other [OF _ mate_rows True] by metis
    next
      case False
      with r(2) KProviderPrivate mate have "g = [am_id r, am_id mate]" by (auto simp: atomic_group_def)
      with \<open>am_id (rows ! i) \<in> set g\<close> not_r have "am_id mate = am_id (rows ! i)" by simp
      with same [OF mate_rows] kind False show ?thesis by simp
    qed
  next
    case Other
    with r(2) have "set g \<subseteq> {am_id r}" by (auto simp: atomic_group_def Let_def split: if_splits)
    with \<open>am_id (rows ! i) \<in> set g\<close> have "am_id r = am_id (rows ! i)" by (simp add: subset_iff)
    then have "r = rows ! i" by (rule same [OF r_rows])
    with kind Other(1) show ?thesis by simp
  qed
qed

end
