(* ===== verification/ConversationFiles.thy ===== *)
theory ConversationFiles
  imports ConversationCompaction
begin

text \<open>
  Conversations on disk (\<^verbatim>\<open>src/persistence/conversation-file.ts\<close>,
  \<^verbatim>\<open>canonical-conversation-artifacts.ts\<close>, \<^verbatim>\<open>growing-file.ts\<close>): an index lists the segments of a
  session, a segment is a growing file of envelopes of which a crash may leave a torn
  suffix, and a compaction publishes a new segment and then the index that selects it.

  A segment file is the list of its complete envelopes and whether bytes follow the last of
  them. Random identities and the clock are explicit arguments.
\<close>

section \<open>Documents\<close>

datatype entry_genesis = OrdinaryEntry | CompactedEntry nat string string

record version_entry =
  ve_entry_id :: string
  ve_version :: nat
  ve_filename :: string
  ve_created_at :: string
  ve_genesis :: entry_genesis

record version_index =
  vi_session_id :: string
  vi_created_at :: string
  vi_versions :: "version_entry list"
  vi_current_version :: "nat option"
  vi_current_filename :: "string option"

datatype continuation = BetweenRounds | InheritedOpenRound string string segment_kind

datatype genesis_kind = OrdinaryGenesis | CompactedGenesis nat string string compacted_history continuation

text \<open>\<open>CompactedGenesis\<close> carries the source version, its file, the last covered message, the history and the continuation.\<close>

record segment_genesis =
  gn_id :: string
  gn_entry_id :: string
  gn_session_id :: string
  gn_segment_version :: nat
  gn_timestamp :: string
  gn_kind :: genesis_kind

datatype segment_row = GenesisRow segment_genesis | MessageRow agent_message

record segment_file =
  sf_envelopes :: "segment_row list list"
  sf_torn :: bool

datatype conversation_effect =
    ConversationChanged string string nat "string option"
  | AgentMembershipChanged string "string option"

record conversation_store =
  cs_indexes :: "string \<rightharpoonup> version_index"
  cs_previous :: "string \<rightharpoonup> version_index"
  cs_segments :: "string \<times> string \<rightharpoonup> segment_file"
  cs_effects :: "conversation_effect list"

section \<open>Schemas\<close>

fun decimal_value :: "string \<Rightarrow> nat" where
  "decimal_value s = foldl (\<lambda>n c. 10 * n + (code c - 48)) 0 s"

definition filename_prefix :: "string \<Rightarrow> string" where
  "filename_prefix name = takeWhile (\<lambda>c. c \<noteq> CHR ''-'') name"

definition jsonlVersionFilenameSchema :: "string \<Rightarrow> bool" where
  "jsonlVersionFilenameSchema name \<longleftrightarrow>
     (let digits = filename_prefix name; rest = drop (Suc (length digits)) name in
      digits \<noteq> [] \<and> list_all is_digit digits \<and> hd digits \<noteq> CHR ''0'' \<and>
      ends_with ''.jsonl'' rest \<and> uuidV4Schema (slice_end 6 rest))"

definition versionFilename :: "nat \<Rightarrow> string \<Rightarrow> error + string" where
  "versionFilename version i =
     bindE (guardE (positiveSafeIntegerSchema version) (ZodError ''positiveSafeInteger'')) (\<lambda>_.
     bindE (guardE (uuidV4Schema i) (ZodError ''uuidV4'')) (\<lambda>_.
     Inr (decimal_text version @ ''-'' @ i @ ''.jsonl'')))"

definition validateHeadFields :: "version_index \<Rightarrow> bool" where
  "validateHeadFields v \<longleftrightarrow>
     (if vi_versions v = [] then vi_current_version v = None \<and> vi_current_filename v = None
      else list_all (\<lambda>(i, e). ve_version e = i + 1 \<and> decimal_value (filename_prefix (ve_filename e)) = ve_version e)
          (enumerate 0 (vi_versions v)) \<and>
        distinct (map ve_filename (vi_versions v)) \<and>
        vi_current_version v = Some (ve_version (last (vi_versions v))) \<and>
        vi_current_filename v = Some (ve_filename (last (vi_versions v))))"

fun entryGenesisSchema :: "entry_genesis \<Rightarrow> bool" where
  "entryGenesisSchema OrdinaryEntry = True"
| "entryGenesisSchema (CompactedEntry version filename covered) \<longleftrightarrow>
     positiveSafeIntegerSchema version \<and> jsonlVersionFilenameSchema filename \<and> covered \<noteq> []"

definition conversationVersionEntrySchema :: "zod \<Rightarrow> version_entry \<Rightarrow> bool" where
  "conversationVersionEntrySchema z e \<longleftrightarrow> uuidV4Schema (ve_entry_id e) \<and> positiveSafeIntegerSchema (ve_version e) \<and>
     jsonlVersionFilenameSchema (ve_filename e) \<and> datetime z (ve_created_at e) \<and> entryGenesisSchema (ve_genesis e)"

definition entry_follows :: "version_index \<Rightarrow> nat \<times> version_entry \<Rightarrow> bool" where
  "entry_follows v = (\<lambda>(i, e). case ve_genesis e of
     OrdinaryEntry \<Rightarrow> ve_version e = 1
   | CompactedEntry version filename _ \<Rightarrow> ve_version e \<noteq> 1 \<and> 0 < i \<and>
       version = ve_version (vi_versions v ! (i - 1)) \<and> filename = ve_filename (vi_versions v ! (i - 1)))"

definition conversationVersionIndexSchema :: "zod \<Rightarrow> version_index \<Rightarrow> bool" where
  "conversationVersionIndexSchema z v \<longleftrightarrow> conversationSessionIdSchema (vi_session_id v) \<and> datetime z (vi_created_at v) \<and>
     list_all (conversationVersionEntrySchema z) (vi_versions v) \<and>
     pred_option positiveSafeIntegerSchema (vi_current_version v) \<and>
     pred_option jsonlVersionFilenameSchema (vi_current_filename v) \<and> validateHeadFields v \<and>
     list_all (entry_follows v) (enumerate 0 (vi_versions v))"

definition latestRecordObservationSchema :: "zod \<Rightarrow> latest_observation \<Rightarrow> bool" where
  "latestRecordObservationSchema z e \<longleftrightarrow> positiveSafeIntegerSchema (lo_segment_version e) \<and> safe_nat (lo_row_index e) \<and>
     lo_message_id e \<noteq> [] \<and> datetime z (lo_timestamp e) \<and> recordObservationSchema (lo_observation e) \<and>
     so_current (ob_observed (lo_observation e))"

definition observation_order :: "latest_observation \<Rightarrow> latest_observation \<Rightarrow> bool" where
  "observation_order a b \<longleftrightarrow> lo_segment_version a < lo_segment_version b \<or>
     lo_segment_version a = lo_segment_version b \<and> lo_row_index a \<le> lo_row_index b"

fun adjacent :: "('a \<Rightarrow> 'a \<Rightarrow> bool) \<Rightarrow> 'a list \<Rightarrow> bool" where
  "adjacent P (a # b # cs) = (P a b \<and> adjacent P (b # cs))"
| "adjacent P _ = True"

definition requiredModelFactSlotsSchema :: "zod \<Rightarrow> required_facts \<Rightarrow> bool" where
  "requiredModelFactSlotsSchema z f \<longleftrightarrow> list_all (latestRecordObservationSchema z) (rf_observations f) \<and>
     distinct (map (recordObservationKey \<circ> ob_observed \<circ> lo_observation) (rf_observations f)) \<and>
     adjacent observation_order (rf_observations f) \<and>
     pred_option (\<lambda>(source, input). canonicalUuidSchema input \<and> source = input @ '':model-recovered'') (rf_recovery f) \<and>
     pred_option (\<lambda>(marker, input). canonicalUuidSchema marker \<and> canonicalUuidSchema input) (rf_refusal f)"

definition protectedPromptSchema :: "json_api \<Rightarrow> zod \<Rightarrow> (string \<Rightarrow> string) \<Rightarrow> protected_prompt \<Rightarrow> bool" where
  "protectedPromptSchema api z sha p \<longleftrightarrow> positiveSafeIntegerSchema (pr_segment_version p) \<and> safe_nat (pr_row_index p) \<and>
     agentMessageSchema api z sha (pr_message p)"

definition compactedHistorySchema :: "json_api \<Rightarrow> zod \<Rightarrow> (string \<Rightarrow> string) \<Rightarrow> compacted_history \<Rightarrow> bool" where
  "compactedHistorySchema api z sha h \<longleftrightarrow> ch_summary h \<noteq> [] \<and> list_all (protectedPromptSchema api z sha) (ch_prompts h) \<and>
     requiredModelFactSlotsSchema z (ch_facts h)"

fun conversationContinuationSchema :: "continuation \<Rightarrow> bool" where
  "conversationContinuationSchema BetweenRounds = True"
| "conversationContinuationSchema (InheritedOpenRound marker input _) \<longleftrightarrow> marker \<noteq> [] \<and> canonicalUuidSchema input"

fun genesisKindSchema :: "json_api \<Rightarrow> zod \<Rightarrow> (string \<Rightarrow> string) \<Rightarrow> genesis_kind \<Rightarrow> bool" where
  "genesisKindSchema api z sha OrdinaryGenesis = True"
| "genesisKindSchema api z sha (CompactedGenesis version filename covered history cont) \<longleftrightarrow>
     positiveSafeIntegerSchema version \<and> jsonlVersionFilenameSchema filename \<and> covered \<noteq> [] \<and>
     compactedHistorySchema api z sha history \<and> conversationContinuationSchema cont"

definition conversationSegmentGenesisSchema :: "json_api \<Rightarrow> zod \<Rightarrow> (string \<Rightarrow> string) \<Rightarrow> segment_genesis \<Rightarrow> bool" where
  "conversationSegmentGenesisSchema api z sha g \<longleftrightarrow> uuidV4Schema (gn_id g) \<and> uuidV4Schema (gn_entry_id g) \<and>
     conversationSessionIdSchema (gn_session_id g) \<and> positiveSafeIntegerSchema (gn_segment_version g) \<and>
     datetime z (gn_timestamp g) \<and> genesisKindSchema api z sha (gn_kind g)"

fun conversationSegmentRowSchema :: "json_api \<Rightarrow> zod \<Rightarrow> (string \<Rightarrow> string) \<Rightarrow> segment_row \<Rightarrow> bool" where
  "conversationSegmentRowSchema api z sha (GenesisRow g) = conversationSegmentGenesisSchema api z sha g"
| "conversationSegmentRowSchema api z sha (MessageRow m) = agentMessageSchema api z sha m"

definition conversationSegmentEnvelopeSchema :: "json_api \<Rightarrow> zod \<Rightarrow> (string \<Rightarrow> string) \<Rightarrow> segment_row list \<Rightarrow> bool" where
  "conversationSegmentEnvelopeSchema api z sha rows \<longleftrightarrow> rows \<noteq> [] \<and> list_all (conversationSegmentRowSchema api z sha) rows"

section \<open>Reading\<close>

definition parseIndex :: "zod \<Rightarrow> string \<Rightarrow> conversation_store \<Rightarrow> error + version_index" where
  "parseIndex z sessionId st =
     bindE (optionE (PlainError ''ENOENT'' [sessionId]) (cs_indexes st sessionId)) (\<lambda>v.
     bindE (guardE (conversationVersionIndexSchema z v) (PlainError ''Conversation index is malformed.'' [sessionId])) (\<lambda>_. Inr v))"

fun message_row :: "segment_row \<Rightarrow> agent_message option" where
  "message_row (MessageRow m) = Some m"
| "message_row (GenesisRow _) = None"

text \<open>\<open>parseSegment\<close> on complete envelopes: one genesis first, then messages.\<close>

definition parseSegment ::
    "json_api \<Rightarrow> zod \<Rightarrow> (string \<Rightarrow> string) \<Rightarrow> string \<Rightarrow> segment_row list list \<Rightarrow> error + segment_genesis \<times> agent_message list" where
  "parseSegment api z sha path envelopes =
     bindE (guardE (envelopes \<noteq> []) (PlainError ''Conversation segment has an incomplete final envelope.'' [path])) (\<lambda>_.
     bindE (guardE (list_all (conversationSegmentEnvelopeSchema api z sha) envelopes)
       (PlainError ''Conversation segment envelope is malformed.'' [path])) (\<lambda>_.
     case concat envelopes of
       GenesisRow g # rows \<Rightarrow>
         bindE (guardE (list_all (\<lambda>r. message_row r \<noteq> None) rows)
           (PlainError ''Conversation segment contains a non-initial genesis row.'' [path])) (\<lambda>_.
         Inr (g, List.map_filter message_row rows))
     | _ \<Rightarrow> Inl (PlainError ''Conversation segment must begin with exactly one genesis row.'' [path])))"

record conversation_segment =
  se_index :: version_index
  se_entry :: version_entry
  se_genesis :: segment_genesis
  se_rows :: "agent_message list"
  se_conversation :: validated_conversation

fun inherited_seed :: "genesis_kind \<Rightarrow> inherited_activation option" where
  "inherited_seed (CompactedGenesis _ _ _ _ (InheritedOpenRound marker input kind)) =
     Some \<lparr>ia_marker_id = marker, ia_input_id = input, ia_segment_kind = kind, ia_start = 0\<rparr>"
| "inherited_seed _ = None"

definition compacted_seed :: "segment_genesis \<Rightarrow> genesis_seed option" where
  "compacted_seed g = (case gn_kind g of
     CompactedGenesis version _ covered history _ \<Rightarrow>
       Some \<lparr>cg_id = gn_id g, cg_timestamp = gn_timestamp g, cg_history = history, cg_source_version = version,
         cg_covered_through = covered\<rparr>
   | OrdinaryGenesis \<Rightarrow> None)"

definition validationSeeds :: "segment_genesis \<Rightarrow> inherited_activation option \<times> genesis_seed option" where
  "validationSeeds g = (inherited_seed (gn_kind g), compacted_seed g)"

fun genesis_matches :: "genesis_kind \<Rightarrow> entry_genesis \<Rightarrow> bool" where
  "genesis_matches OrdinaryGenesis OrdinaryEntry = True"
| "genesis_matches (CompactedGenesis version filename covered _ _) (CompactedEntry version' filename' covered') =
     (version = version' \<and> filename = filename' \<and> covered = covered')"
| "genesis_matches _ _ = False"

definition validateLoadedSegment ::
    "json_api \<Rightarrow> zod \<Rightarrow> version_index \<Rightarrow> version_entry \<Rightarrow> segment_genesis \<times> agent_message list \<Rightarrow> string \<Rightarrow> error + conversation_segment" where
  "validateLoadedSegment api z index entry = (\<lambda>(g, rows) sessionId.
     bindE (guardE (gn_entry_id g = ve_entry_id entry \<and> gn_session_id g = sessionId \<and>
         gn_segment_version g = ve_version entry \<and> genesis_matches (gn_kind g) (ve_genesis entry))
       (PlainError ''Conversation segment does not match its index entry.'' [ve_filename entry])) (\<lambda>_.
     case validationSeeds g of (inherited, compacted) \<Rightarrow>
       (case validateConversation api z sessionId rows inherited compacted of
          Inl _ \<Rightarrow> Inl (PlainError ''Conversation segment is invalid'' [sessionId])
        | Inr conversation \<Rightarrow>
            Inr \<lparr>se_index = index, se_entry = entry, se_genesis = g, se_rows = rows, se_conversation = conversation\<rparr>)))"

definition selectSegment :: "string \<Rightarrow> nat option \<Rightarrow> version_index \<Rightarrow> error + version_entry option" where
  "selectSegment sessionId version index =
     bindE (guardE (vi_session_id index = sessionId) (PlainError ''Conversation index identity does not match.'' [sessionId])) (\<lambda>_.
     case version of
       None \<Rightarrow> Inr (at_last (vi_versions index))
     | Some v \<Rightarrow>
         if 0 < v \<and> v \<le> length (vi_versions index) then Inr (Some (vi_versions index ! (v - 1)))
         else Inl (PlainError ''ConversationHistoricalVersionNotFoundError'' []))"

text \<open>
  \<open>loadSegment\<close>: the current segment is a growing file whose torn suffix is cut off after its
  complete prefix has been validated; a historical one must be whole.
\<close>

definition loadSegment ::
    "json_api \<Rightarrow> zod \<Rightarrow> (string \<Rightarrow> string) \<Rightarrow> version_index \<Rightarrow> version_entry \<Rightarrow> string \<Rightarrow> (conversation_store, conversation_segment) op" where
  "loadSegment api z sha index entry sessionId =
     bindS (readS (\<lambda>st. optionE (PlainError ''ENOENT'' [ve_filename entry]) (cs_segments st (sessionId, ve_filename entry)))) (\<lambda>file.
     bindS (liftS (guardE (\<not> (sf_torn file \<and> vi_current_version index \<noteq> Some (ve_version entry)))
       (PlainError ''Conversation segment has an incomplete final envelope.'' [ve_filename entry]))) (\<lambda>_.
     bindS (liftS (bindE (parseSegment api z sha (ve_filename entry) (sf_envelopes file)) (\<lambda>parsed.
       validateLoadedSegment api z index entry parsed sessionId))) (\<lambda>segment.
     bindS (if sf_torn file
         then modifyS (\<lambda>st. st\<lparr>cs_segments := (cs_segments st)((sessionId, ve_filename entry) \<mapsto> file\<lparr>sf_torn := False\<rparr>)\<rparr>)
         else returnS ()) (\<lambda>_.
     returnS segment))))"

definition readSegment ::
    "json_api \<Rightarrow> zod \<Rightarrow> (string \<Rightarrow> string) \<Rightarrow> string \<Rightarrow> nat option \<Rightarrow> (conversation_store, conversation_segment option) op" where
  "readSegment api z sha sessionId version =
     bindS (readS (parseIndex z sessionId)) (\<lambda>index.
     bindS (liftS (selectSegment sessionId version index)) (\<lambda>selected.
     case selected of
       None \<Rightarrow> returnS None
     | Some entry \<Rightarrow> bindS (loadSegment api z sha index entry sessionId) (\<lambda>segment. returnS (Some segment))))"

definition readConversation ::
    "json_api \<Rightarrow> zod \<Rightarrow> (string \<Rightarrow> string) \<Rightarrow> string \<Rightarrow> (conversation_store, validated_conversation) op" where
  "readConversation api z sha sessionId =
     bindS (readSegment api z sha sessionId None) (\<lambda>segment. case segment of
       Some s \<Rightarrow> returnS (se_conversation s)
     | None \<Rightarrow> liftS (validateConversation api z sessionId [] None None))"

definition readHistoricalConversationSegment ::
    "json_api \<Rightarrow> zod \<Rightarrow> (string \<Rightarrow> string) \<Rightarrow> string \<Rightarrow> nat \<Rightarrow> (conversation_store, conversation_segment) op" where
  "readHistoricalConversationSegment api z sha sessionId version =
     bindS (readS (parseIndex z sessionId)) (\<lambda>index.
     bindS (liftS (selectSegment sessionId (Some version) index)) (\<lambda>selected.
     case selected of
       None \<Rightarrow> liftS (Inl (PlainError ''TypeError'' []))
     | Some entry \<Rightarrow> (\<lambda>st. case loadSegment api z sha index entry sessionId st of
           (Inl _, st') \<Rightarrow> (Inl (PlainError ''Historical conversation segment unavailable.'' []), st')
         | (Inr segment, st') \<Rightarrow> (Inr segment, st'))))"

section \<open>Writing\<close>

definition publishIndex :: "string \<Rightarrow> version_index \<Rightarrow> bool \<Rightarrow> (conversation_store, unit) op" where
  "publishIndex sessionId index replacement =
     bindS (modifyS (\<lambda>st. st\<lparr>cs_previous := (cs_previous st)(sessionId := None)\<rparr>)) (\<lambda>_.
     bindS (if replacement then
              bindS (readS (\<lambda>st. optionE (PlainError ''ENOENT'' [sessionId]) (cs_indexes st sessionId))) (\<lambda>current.
              modifyS (\<lambda>st. st\<lparr>cs_previous := (cs_previous st)(sessionId \<mapsto> current)\<rparr>))
            else returnS ()) (\<lambda>_.
     modifyS (\<lambda>st. st\<lparr>cs_indexes := (cs_indexes st)(sessionId \<mapsto> index)\<rparr>)))"

definition publishFreshSegment :: "string \<Rightarrow> string \<Rightarrow> segment_row list \<Rightarrow> (conversation_store, unit) op" where
  "publishFreshSegment sessionId filename rows =
     bindS (readS (\<lambda>st. guardE (cs_segments st (sessionId, filename) = None) (PlainError ''File is already published.'' [filename]))) (\<lambda>_.
     modifyS (\<lambda>st. st\<lparr>cs_segments := (cs_segments st)((sessionId, filename) \<mapsto> \<lparr>sf_envelopes = [rows], sf_torn = False\<rparr>)\<rparr>))"

text \<open>
  The append of an envelope as a whole; a write or \<open>fsync\<close> that throws with an unknown outcome
  is not modelled here. What such an append leaves on disk is a torn tail (\<open>sf_torn\<close>) or the envelope.
\<close>

definition appendRequiredEnvelope :: "string \<Rightarrow> string \<Rightarrow> segment_row list \<Rightarrow> (conversation_store, unit) op" where
  "appendRequiredEnvelope sessionId filename rows =
     bindS (readS (\<lambda>st. optionE (PlainError ''Growing stream is missing for append.'' [filename]) (cs_segments st (sessionId, filename)))) (\<lambda>file.
     modifyS (\<lambda>st. st\<lparr>cs_segments := (cs_segments st)((sessionId, filename) \<mapsto>
       file\<lparr>sf_envelopes := sf_envelopes file @ [rows]\<rparr>)\<rparr>))"

definition emit_change :: "conversation_effect \<Rightarrow> (conversation_store, unit) op" where
  "emit_change e = modifyS (\<lambda>st. st\<lparr>cs_effects := cs_effects st @ [e]\<rparr>)"

definition emptyIndex :: "zod \<Rightarrow> string \<Rightarrow> string \<Rightarrow> error + version_index" where
  "emptyIndex z sessionId now =
     (let v = \<lparr>vi_session_id = sessionId, vi_created_at = now, vi_versions = [], vi_current_version = None, vi_current_filename = None\<rparr>
      in if conversationVersionIndexSchema z v then Inr v else Inl (ZodError ''conversationVersionIndex''))"

text \<open>\<open>initializeMissingConversation\<close>; directories are implicit.\<close>

definition initializeMissingConversation :: "zod \<Rightarrow> string \<Rightarrow> string \<Rightarrow> (conversation_store, bool) op" where
  "initializeMissingConversation z sessionId now =
     bindS (readS (\<lambda>st. case cs_indexes st sessionId of
         None \<Rightarrow> Inr True
       | Some _ \<Rightarrow> bindE (parseIndex z sessionId st) (\<lambda>_. Inr False))) (\<lambda>missing.
     if missing then
       bindS (liftS (emptyIndex z sessionId now)) (\<lambda>v. bindS (publishIndex sessionId v False) (\<lambda>_. returnS True))
     else returnS False)"

definition validateBatch ::
    "json_api \<Rightarrow> zod \<Rightarrow> (string \<Rightarrow> string) \<Rightarrow> agent_message list \<Rightarrow> error + agent_message list" where
  "validateBatch api z sha messages =
     bindE (guardE (messages \<noteq> []) (PlainError ''Conversation append requires at least one message.'' [])) (\<lambda>_.
     bindE (mapE (parse_message api z sha) messages) (\<lambda>parsed.
     bindE (guardE (list_all (\<lambda>m. am_session_id m = am_session_id (hd parsed)) parsed)
       (PlainError ''Conversation append requires one session.'' [])) (\<lambda>_.
     bindE (guardE (distinct (map am_id parsed))
       (PlainError ''Conversation append contains duplicate message ids.'' [])) (\<lambda>_.
     Inr parsed))))"

definition visibleMessageId :: "agent_message list \<Rightarrow> string option" where
  "visibleMessageId rows = map_option am_id (at_last (filter (\<lambda>r. am_kind r \<noteq> KProviderPrivate) rows))"

text \<open>The identities drawn for a first segment: entry, file and genesis, and the time.\<close>

record segment_draw =
  sd_entry_id :: string
  sd_file_id :: string
  sd_genesis_id :: string
  sd_now :: string

definition first_segment ::
    "zod \<Rightarrow> string \<Rightarrow> version_index \<Rightarrow> segment_draw \<Rightarrow> error + string \<times> segment_genesis \<times> version_index" where
  "first_segment z sessionId index draw =
     bindE (versionFilename 1 (sd_file_id draw)) (\<lambda>filename.
     let g = \<lparr>gn_id = sd_genesis_id draw, gn_entry_id = sd_entry_id draw, gn_session_id = sessionId, gn_segment_version = 1,
           gn_timestamp = sd_now draw, gn_kind = OrdinaryGenesis\<rparr>;
         entry = \<lparr>ve_entry_id = sd_entry_id draw, ve_version = 1, ve_filename = filename, ve_created_at = sd_now draw,
           ve_genesis = OrdinaryEntry\<rparr>;
         v = index\<lparr>vi_versions := [entry], vi_current_version := Some 1, vi_current_filename := Some filename\<rparr>
     in bindE (guardE (conversationVersionIndexSchema z v) (ZodError ''conversationVersionIndex'')) (\<lambda>_. Inr (filename, g, v)))"

definition appendConversationBatch ::
    "json_api \<Rightarrow> zod \<Rightarrow> (string \<Rightarrow> string) \<Rightarrow> agent_message list \<Rightarrow> segment_draw \<Rightarrow> (conversation_store, unit) op" where
  "appendConversationBatch api z sha messages draw =
     bindS (liftS (validateBatch api z sha messages)) (\<lambda>parsed.
     let sessionId = am_session_id (hd parsed) in
     bindS (readS (parseIndex z sessionId)) (\<lambda>index.
     bindS (readSegment api z sha sessionId None) (\<lambda>current.
     let prior = (case current of None \<Rightarrow> [] | Some s \<Rightarrow> se_rows s) in
     bindS (liftS (guardE (\<not> list_ex (\<lambda>m. am_id m \<in> am_id ` set prior) parsed)
       (PlainError ''Conversation message already exists.'' []))) (\<lambda>_.
     let visible = (case visibleMessageId parsed of Some i \<Rightarrow> Some i | None \<Rightarrow> visibleMessageId prior) in
     case current of
       None \<Rightarrow>
         bindS (liftS (first_segment z sessionId index draw)) (\<lambda>(filename, g, v).
         bindS (publishFreshSegment sessionId filename (GenesisRow g # map MessageRow parsed)) (\<lambda>_.
         bindS (publishIndex sessionId v True) (\<lambda>_.
         bindS (emit_change (ConversationChanged sessionId (gn_entry_id g) 1 visible)) (\<lambda>_.
         emit_change (AgentMembershipChanged sessionId (session_card sessionId))))))
     | Some s \<Rightarrow>
         bindS (appendRequiredEnvelope sessionId (ve_filename (se_entry s)) (map MessageRow parsed)) (\<lambda>_.
         emit_change (ConversationChanged sessionId (ve_entry_id (se_entry s)) (ve_version (se_entry s)) visible))))))"

record compaction_publication =
  cp_genesis_id :: string
  cp_segment_version :: nat
  cp_entry_id :: string
  cp_timestamp :: string
  cp_filename :: string
  cp_history :: compacted_history
  cp_cutoff_index :: nat
  cp_cutoff_message :: string
  cp_continuation :: continuation

definition open_inherited :: "validated_conversation \<Rightarrow> inherited_activation \<Rightarrow> bool" where
  "open_inherited conversation a = list_ex (\<lambda>r. sr_open r \<and> sr_activation r = GenesisActivation (ia_marker_id a) (ia_input_id a))
     (vc_rounds conversation)"

definition compacted_successor ::
    "zod \<Rightarrow> string \<Rightarrow> conversation_segment \<Rightarrow> compaction_publication \<Rightarrow> error + segment_genesis \<times> version_index" where
  "compacted_successor z sessionId current cp =
     (let source = se_entry current;
          g = \<lparr>gn_id = cp_genesis_id cp, gn_entry_id = cp_entry_id cp, gn_session_id = sessionId,
            gn_segment_version = cp_segment_version cp, gn_timestamp = cp_timestamp cp,
            gn_kind = CompactedGenesis (ve_version source) (ve_filename source) (cp_cutoff_message cp) (cp_history cp) (cp_continuation cp)\<rparr>;
          entry = \<lparr>ve_entry_id = cp_entry_id cp, ve_version = cp_segment_version cp, ve_filename = cp_filename cp,
            ve_created_at = cp_timestamp cp,
            ve_genesis = CompactedEntry (ve_version source) (ve_filename source) (cp_cutoff_message cp)\<rparr>;
          v = (se_index current)\<lparr>vi_versions := vi_versions (se_index current) @ [entry],
            vi_current_version := Some (cp_segment_version cp), vi_current_filename := Some (cp_filename cp)\<rparr>
      in bindE (guardE (conversationVersionIndexSchema z v) (ZodError ''conversationVersionIndex'')) (\<lambda>_. Inr (g, v)))"

definition publishCompactedConversationSegment ::
    "json_api \<Rightarrow> zod \<Rightarrow> (string \<Rightarrow> string) \<Rightarrow> string \<Rightarrow> compaction_publication \<Rightarrow> (conversation_store, validated_conversation) op" where
  "publishCompactedConversationSegment api z sha sessionId cp =
     bindS (readSegment api z sha sessionId None) (\<lambda>segment.
     bindS (liftS (optionE (PlainError ''Conversation has no source segment to compact.'' [sessionId]) segment)) (\<lambda>current.
     let entry = se_entry current; sourceRows = vc_rows (se_conversation current); n = Suc (cp_cutoff_index cp) in
     bindS (liftS (guardE (vi_current_version (se_index current) = Some (ve_version entry) \<and>
         vi_current_filename (se_index current) = Some (ve_filename entry))
       (PlainError ''Conversation compaction source is not the current index head.'' []))) (\<lambda>_.
     bindS (liftS (guardE (ve_version entry + 1 = cp_segment_version cp)
       (PlainError ''Compaction successor identity does not extend the still-current conversation head.'' []))) (\<lambda>_.
     bindS (liftS (guardE (cp_cutoff_index cp < length sourceRows \<and> am_id (sourceRows ! cp_cutoff_index cp) = cp_cutoff_message cp)
       (PlainError ''Conversation compaction cutoff does not identify the source segment.'' []))) (\<lambda>_.
     bindS (liftS (validateCompactedHistorySuccessor api z (se_conversation current) (ve_version entry) (cp_history cp) (take n sourceRows))) (\<lambda>_.
     let rows = drop n sourceRows in
     bindS (liftS (guardE (\<not> (cp_continuation cp = BetweenRounds \<and>
         pred_option (open_inherited (se_conversation current)) (inherited_seed (gn_kind (se_genesis current))) \<and>
         inherited_seed (gn_kind (se_genesis current)) \<noteq> None))
       (PlainError ''A between-rounds cutoff cannot leave an inherited open activation with no retained row.'' []))) (\<lambda>_.
     bindS (liftS (compacted_successor z sessionId current cp)) (\<lambda>(g, v).
     bindS (liftS (validateConversation api z sessionId rows (inherited_seed (gn_kind g)) (compacted_seed g))) (\<lambda>successor.
     bindS (publishFreshSegment sessionId (cp_filename cp) (GenesisRow g # map MessageRow rows)) (\<lambda>_.
     bindS (publishIndex sessionId v True) (\<lambda>_.
     bindS (emit_change (ConversationChanged sessionId (cp_entry_id cp) (cp_segment_version cp) (visibleMessageId rows))) (\<lambda>_.
     returnS successor))))))))))))"

definition restoreConversationIndex :: "zod \<Rightarrow> string \<Rightarrow> version_index \<Rightarrow> bool \<Rightarrow> (conversation_store, unit) op" where
  "restoreConversationIndex z sessionId index replacement =
     bindS (liftS (guardE (conversationVersionIndexSchema z index) (ZodError ''conversationVersionIndex''))) (\<lambda>_.
     bindS (liftS (guardE (vi_session_id index = sessionId) (PlainError ''Conversation repair owner mismatch.'' []))) (\<lambda>_.
     publishIndex sessionId index replacement))"

end
