(* ===== verification/ConversationStore.thy ===== *)
theory ConversationStore
  imports ConversationFiles
begin

text \<open>
  Laws of the conversation files: what reading the current segment returns, and what it returns
  after an append and after a compaction.
\<close>

section \<open>Reading\<close>

lemma parseIndex_Inr: "parseIndex z sid st = Inr v \<longleftrightarrow> cs_indexes st sid = Some v \<and> conversationVersionIndexSchema z v"
  by (auto simp: parseIndex_def errE)

lemma index_head:
  assumes "conversationVersionIndexSchema z v" and "vi_versions v = es @ [e]"
  shows "vi_current_version v = Some (ve_version e)" and "vi_current_filename v = Some (ve_filename e)" and "ve_version e = Suc (length es)"
  using assms by (auto simp: conversationVersionIndexSchema_def validateHeadFields_def enumerate_snoc)

lemma map_filter_messages: "List.map_filter message_row (map MessageRow ms) = ms"
  by (induction ms) (auto simp: List.map_filter_def)

lemma map_filter_append: "List.map_filter f (xs @ ys) = List.map_filter f xs @ List.map_filter f ys"
  by (simp add: List.map_filter_def)

lemma parseSegment_Inr:
  "parseSegment api z sha path es = Inr (g, rows) \<longleftrightarrow> es \<noteq> [] \<and> list_all (conversationSegmentEnvelopeSchema api z sha) es \<and>
     concat es = GenesisRow g # map MessageRow rows"
proof -
  have "list_all (\<lambda>r. message_row r \<noteq> None) rs \<and> List.map_filter message_row rs = ms \<longleftrightarrow> rs = map MessageRow ms" for rs ms
  proof (induction rs arbitrary: ms)
    case (Cons r rs)
    show ?case
    proof (cases r)
      case (MessageRow m)
      then show ?thesis using Cons by (cases ms) (auto simp: List.map_filter_def)
    qed (cases ms; simp)
  qed (auto simp: List.map_filter_def)
  moreover define c where "c = concat es"
  ultimately show ?thesis
    unfolding parseSegment_def c_def [symmetric] by (cases c) (auto simp: errE split: segment_row.splits)
qed

lemma parsed_rows_schema:
  assumes "parseSegment api z sha path es = Inr (g, rows)" and "m \<in> set rows"
  shows "agentMessageSchema api z sha m"
proof -
  from assms have "MessageRow m \<in> set (concat es)" "list_all (conversationSegmentEnvelopeSchema api z sha) es"
    by (auto simp: parseSegment_Inr)
  then show ?thesis by (fastforce simp: list_all_iff conversationSegmentEnvelopeSchema_def)
qed

lemma parseSegment_append:
  assumes "parseSegment api z sha path es = Inr (g, rows)" and "ms \<noteq> []" and "\<forall>m \<in> set ms. agentMessageSchema api z sha m"
  shows "parseSegment api z sha path (es @ [map MessageRow ms]) = Inr (g, rows @ ms)"
  using assms by (auto simp: parseSegment_Inr conversationSegmentEnvelopeSchema_def list_all_iff)

lemma parseSegment_fresh:
  assumes "conversationSegmentGenesisSchema api z sha g" and "\<forall>m \<in> set ms. agentMessageSchema api z sha m"
  shows "parseSegment api z sha path [GenesisRow g # map MessageRow ms] = Inr (g, ms)"
  using assms by (auto simp: parseSegment_Inr conversationSegmentEnvelopeSchema_def list_all_iff)

lemma validateLoadedSegment_Inr:
  "validateLoadedSegment api z index entry (g, rows) sid = Inr seg \<longleftrightarrow>
     gn_entry_id g = ve_entry_id entry \<and> gn_session_id g = sid \<and> gn_segment_version g = ve_version entry \<and>
     genesis_matches (gn_kind g) (ve_genesis entry) \<and>
     (\<exists>v. validateConversation api z sid rows (inherited_seed (gn_kind g)) (compacted_seed g) = Inr v \<and>
        seg = \<lparr>se_index = index, se_entry = entry, se_genesis = g, se_rows = rows, se_conversation = v\<rparr>)"
  by (auto simp: validateLoadedSegment_def validationSeeds_def errE split: sum.splits)

text \<open>The current segment of a session, as a relation on the store.\<close>

definition current_segment ::
    "json_api \<Rightarrow> zod \<Rightarrow> (string \<Rightarrow> string) \<Rightarrow> conversation_store \<Rightarrow> string \<Rightarrow> segment_file \<Rightarrow> conversation_segment \<Rightarrow> bool" where
  "current_segment api z sha st sid file seg \<longleftrightarrow>
     cs_indexes st sid = Some (se_index seg) \<and> conversationVersionIndexSchema z (se_index seg) \<and> vi_session_id (se_index seg) = sid \<and>
     at_last (vi_versions (se_index seg)) = Some (se_entry seg) \<and> cs_segments st (sid, ve_filename (se_entry seg)) = Some file \<and>
     parseSegment api z sha (ve_filename (se_entry seg)) (sf_envelopes file) = Inr (se_genesis seg, se_rows seg) \<and>
     validateLoadedSegment api z (se_index seg) (se_entry seg) (se_genesis seg, se_rows seg) sid = Inr seg"

definition mend :: "string \<Rightarrow> segment_file \<Rightarrow> conversation_segment \<Rightarrow> conversation_store \<Rightarrow> conversation_store" where
  "mend sid file seg st = (if sf_torn file
     then st\<lparr>cs_segments := (cs_segments st)((sid, ve_filename (se_entry seg)) \<mapsto> file\<lparr>sf_torn := False\<rparr>)\<rparr> else st)"

lemma mend_sel [simp]:
  "cs_indexes (mend sid file seg st) = cs_indexes st" "cs_previous (mend sid file seg st) = cs_previous st"
  "cs_effects (mend sid file seg st) = cs_effects st"
  "k \<noteq> (sid, ve_filename (se_entry seg)) \<Longrightarrow> cs_segments (mend sid file seg st) k = cs_segments st k"
  by (simp_all add: mend_def)

lemma loadSegment_run:
  assumes "vi_current_version index = Some (ve_version entry)"
  shows "loadSegment api z sha index entry sid st = (Inr seg, st') \<longleftrightarrow>
    (\<exists>file. cs_segments st (sid, ve_filename entry) = Some file \<and>
       (\<exists>parsed. parseSegment api z sha (ve_filename entry) (sf_envelopes file) = Inr parsed \<and>
          validateLoadedSegment api z index entry parsed sid = Inr seg) \<and>
       st' = (if sf_torn file then st\<lparr>cs_segments := (cs_segments st)((sid, ve_filename entry) \<mapsto> file\<lparr>sf_torn := False\<rparr>)\<rparr> else st))"
  using assms by (auto simp: loadSegment_def errE)

lemma readSegment_Some:
  "readSegment api z sha sid None st = (Inr (Some seg), st') \<longleftrightarrow>
   (\<exists>file. current_segment api z sha st sid file seg \<and> st' = mend sid file seg st)"
proof -
  have "readSegment api z sha sid None st = (Inr (Some seg), st') \<longleftrightarrow>
      (\<exists>index entry. cs_indexes st sid = Some index \<and> conversationVersionIndexSchema z index \<and> vi_session_id index = sid \<and>
         at_last (vi_versions index) = Some entry \<and> loadSegment api z sha index entry sid st = (Inr seg, st'))"
    by (auto simp: readSegment_def errE parseIndex_Inr selectSegment_def split: option.splits)
  also have "\<dots> \<longleftrightarrow> (\<exists>index entry. cs_indexes st sid = Some index \<and> conversationVersionIndexSchema z index \<and> vi_session_id index = sid \<and>
         at_last (vi_versions index) = Some entry \<and>
         (\<exists>file. cs_segments st (sid, ve_filename entry) = Some file \<and>
           (\<exists>parsed. parseSegment api z sha (ve_filename entry) (sf_envelopes file) = Inr parsed \<and>
             validateLoadedSegment api z index entry parsed sid = Inr seg) \<and>
           st' = (if sf_torn file then st\<lparr>cs_segments := (cs_segments st)((sid, ve_filename entry) \<mapsto> file\<lparr>sf_torn := False\<rparr>)\<rparr> else st)))"
  proof -
    have "vi_current_version index = Some (ve_version entry)"
      if "conversationVersionIndexSchema z index" "at_last (vi_versions index) = Some entry" for index entry
      using that index_head(1) by (auto simp: at_last_Some_iff)
    then show ?thesis by (simp add: loadSegment_run cong: conj_cong)
  qed
  also have "\<dots> \<longleftrightarrow> (\<exists>file. current_segment api z sha st sid file seg \<and> st' = mend sid file seg st)"
  proof
    assume "\<exists>index entry. cs_indexes st sid = Some index \<and> conversationVersionIndexSchema z index \<and> vi_session_id index = sid \<and>
         at_last (vi_versions index) = Some entry \<and>
         (\<exists>file. cs_segments st (sid, ve_filename entry) = Some file \<and>
           (\<exists>parsed. parseSegment api z sha (ve_filename entry) (sf_envelopes file) = Inr parsed \<and>
             validateLoadedSegment api z index entry parsed sid = Inr seg) \<and>
           st' = (if sf_torn file then st\<lparr>cs_segments := (cs_segments st)((sid, ve_filename entry) \<mapsto> file\<lparr>sf_torn := False\<rparr>)\<rparr> else st))"
    then obtain index entry doc parsed where found: "cs_indexes st sid = Some index" "conversationVersionIndexSchema z index" "vi_session_id index = sid"
        "at_last (vi_versions index) = Some entry" "cs_segments st (sid, ve_filename entry) = Some doc"
        "parseSegment api z sha (ve_filename entry) (sf_envelopes doc) = Inr parsed" "validateLoadedSegment api z index entry parsed sid = Inr seg"
        "st' = (if sf_torn doc then st\<lparr>cs_segments := (cs_segments st)((sid, ve_filename entry) \<mapsto> doc\<lparr>sf_torn := False\<rparr>)\<rparr> else st)"
      by blast
    obtain g rows where parsed: "parsed = (g, rows)" by (cases parsed)
    with found(7) have "se_index seg = index" "se_entry seg = entry" "se_genesis seg = g" "se_rows seg = rows"
      by (auto simp: validateLoadedSegment_Inr)
    with found parsed show "\<exists>file. current_segment api z sha st sid file seg \<and> st' = mend sid file seg st"
      by (auto simp: current_segment_def mend_def)
  qed (auto simp: current_segment_def mend_def)
  finally show ?thesis .
qed

lemma readSegment_None:
  "readSegment api z sha sid None st = (Inr None, st') \<longleftrightarrow>
   (\<exists>index. cs_indexes st sid = Some index \<and> conversationVersionIndexSchema z index \<and> vi_session_id index = sid \<and> vi_versions index = []) \<and>
   st' = st"
  by (auto simp: readSegment_def errE parseIndex_Inr selectSegment_def at_last_def split: option.splits if_splits)

lemma readConversation_Inr:
  "readConversation api z sha sid st = (Inr v, st') \<longleftrightarrow>
   (\<exists>file seg. current_segment api z sha st sid file seg \<and> st' = mend sid file seg st \<and> v = se_conversation seg) \<or>
   (readSegment api z sha sid None st = (Inr None, st') \<and> validateConversation api z sid [] None None = Inr v)"
proof -
  have "readConversation api z sha sid st = (Inr v, st') \<longleftrightarrow>
      (\<exists>seg. readSegment api z sha sid None st = (Inr (Some seg), st') \<and> v = se_conversation seg) \<or>
      (readSegment api z sha sid None st = (Inr None, st') \<and> validateConversation api z sid [] None None = Inr v)"
    by (auto simp: readConversation_def errE split: option.splits)
  then show ?thesis unfolding readSegment_Some by blast
qed

lemma current_unique:
  assumes "current_segment api z sha st sid file seg" and "current_segment api z sha st sid file' seg'"
  shows "file' = file \<and> seg' = seg"
  using assms by (auto simp: current_segment_def)

lemma current_conversation:
  assumes "current_segment api z sha st sid file seg"
  shows "validateConversation api z sid (se_rows seg) (inherited_seed (gn_kind (se_genesis seg))) (compacted_seed (se_genesis seg)) =
      Inr (se_conversation seg)"
    and "gn_session_id (se_genesis seg) = sid"
proof -
  from assms have "validateLoadedSegment api z (se_index seg) (se_entry seg) (se_genesis seg, se_rows seg) sid = Inr seg"
    by (simp add: current_segment_def)
  then show "validateConversation api z sid (se_rows seg) (inherited_seed (gn_kind (se_genesis seg))) (compacted_seed (se_genesis seg)) =
      Inr (se_conversation seg)" "gn_session_id (se_genesis seg) = sid"
    unfolding validateLoadedSegment_Inr by (auto dest: arg_cong [of _ _ se_conversation])
qed

lemma inherited_start: "pred_option (\<lambda>a. ia_start a = 0) (inherited_seed k)"
  by (cases k rule: inherited_seed.cases) simp_all

lemma current_rows:
  assumes "current_segment api z sha st sid file seg"
  shows "vc_rows (se_conversation seg) = se_rows seg"
  using validation_exact(2) [OF inherited_start current_conversation(1) [OF assms]] by auto

text \<open>Reading a segment that is in place and whole.\<close>

lemma read_whole:
  assumes index: "cs_indexes st sid = Some index" "conversationVersionIndexSchema z index" "vi_session_id index = sid"
      "at_last (vi_versions index) = Some entry"
    and doc: "cs_segments st (sid, ve_filename entry) = Some doc" "\<not> sf_torn doc"
      "parseSegment api z sha (ve_filename entry) (sf_envelopes doc) = Inr (g, rows)"
    and genesis: "gn_entry_id g = ve_entry_id entry" "gn_session_id g = sid" "gn_segment_version g = ve_version entry"
      "genesis_matches (gn_kind g) (ve_genesis entry)"
  shows "readConversation api z sha sid st = (Inr w, st') \<longleftrightarrow>
    validateConversation api z sid rows (inherited_seed (gn_kind g)) (compacted_seed g) = Inr w \<and> st' = st"
proof -
  have "vi_versions index \<noteq> []" using index(4) by (auto simp: at_last_def)
  then have none: "readSegment api z sha sid None st \<noteq> (Inr None, st'')" for st'' using index(1) by (auto simp: readSegment_None)
  have "(\<exists>file seg. current_segment api z sha st sid file seg \<and> st' = mend sid file seg st \<and> w = se_conversation seg) \<longleftrightarrow>
      validateConversation api z sid rows (inherited_seed (gn_kind g)) (compacted_seed g) = Inr w \<and> st' = st" (is "?l \<longleftrightarrow> ?r")
  proof
    assume ?l
    then obtain doc' seg where seg: "current_segment api z sha st sid doc' seg" "st' = mend sid doc' seg st" "w = se_conversation seg" by blast
    then have "se_index seg = index" "se_entry seg = entry" "doc' = doc" "se_genesis seg = g" "se_rows seg = rows"
      using index doc by (auto simp: current_segment_def)
    then show ?r using current_conversation(1) [OF seg(1)] seg doc(2) by (auto simp: mend_def)
  next
    assume r: ?r
    then have "current_segment api z sha st sid doc \<lparr>se_index = index, se_entry = entry, se_genesis = g, se_rows = rows, se_conversation = w\<rparr>"
      using assms by (simp add: current_segment_def validateLoadedSegment_Inr)
    then show ?l using r doc(2) by (fastforce simp: mend_def)
  qed
  then show ?thesis unfolding readConversation_Inr using none by blast
qed

section \<open>Appending\<close>

lemma validateBatch_Inr:
  "validateBatch api z sha ms = Inr parsed \<longleftrightarrow> parsed = ms \<and> ms \<noteq> [] \<and> (\<forall>m \<in> set ms. agentMessageSchema api z sha m) \<and>
     (\<forall>m \<in> set ms. am_session_id m = am_session_id (hd ms)) \<and> distinct (map am_id ms)"
proof -
  have "mapE (parse_message api z sha) ms = Inr parsed \<longleftrightarrow> parsed = ms \<and> (\<forall>m \<in> set ms. agentMessageSchema api z sha m)" for ms parsed
    by (induction ms arbitrary: parsed) (auto simp: errE parse_message_def)
  then show ?thesis by (auto simp: validateBatch_def errE list_all_iff)
qed

lemma publishIndex_run:
  "publishIndex sid v True st = (Inr u, st') \<longleftrightarrow> (\<exists>current. cs_indexes st sid = Some current \<and>
     st' = st\<lparr>cs_previous := (cs_previous st)(sid \<mapsto> current), cs_indexes := (cs_indexes st)(sid \<mapsto> v)\<rparr>)"
  by (auto simp: publishIndex_def errE)

lemma publishFreshSegment_run:
  "publishFreshSegment sid f rows st = (Inr u, st') \<longleftrightarrow> cs_segments st (sid, f) = None \<and>
     st' = st\<lparr>cs_segments := (cs_segments st)((sid, f) \<mapsto> \<lparr>sf_envelopes = [rows], sf_torn = False\<rparr>)\<rparr>"
  by (auto simp: publishFreshSegment_def errE)

lemma empty_validates: "\<exists>v. validateConversation api z sid [] None None = Inr v \<and> vc_rows v = []"
proof -
  have "\<exists>v. validateConversation api z sid [] None None = Inr v"
    unfolding validation_exact(1) [of None, simplified] by (simp add: accepted_def rows_admissible_def prompts_disjoint_def)
  then show ?thesis using validation_exact(2) [of None api z sid "[]" None] by fastforce
qed

lemma append_batch: "appendConversationBatch api z sha ms draw st = (Inr u, st') \<Longrightarrow> validateBatch api z sha ms = Inr ms"
proof (cases "validateBatch api z sha ms")
  case (Inl e)
  moreover assume "appendConversationBatch api z sha ms draw st = (Inr u, st')"
  ultimately show ?thesis by (simp add: appendConversationBatch_def)
next
  case (Inr parsed)
  then have "parsed = ms" unfolding validateBatch_Inr by blast
  with Inr show ?thesis by simp
qed

lemma append_to_segment:
  assumes batch: "validateBatch api z sha ms = Inr ms" and sid: "am_session_id (hd ms) = sid" and index: "parseIndex z sid st = Inr index"
    and read: "readSegment api z sha sid None st = (Inr (Some seg), st1)"
    and run: "appendConversationBatch api z sha ms draw st = (Inr u, st')"
  shows "\<exists>doc. cs_segments st1 (sid, ve_filename (se_entry seg)) = Some doc \<and> cs_indexes st' = cs_indexes st1 \<and>
    cs_segments st' = (cs_segments st1)((sid, ve_filename (se_entry seg)) \<mapsto> doc\<lparr>sf_envelopes := sf_envelopes doc @ [map MessageRow ms]\<rparr>)"
proof -
  from run obtain visible where "bindS (appendRequiredEnvelope sid (ve_filename (se_entry seg)) (map MessageRow ms)) (\<lambda>_.
      emit_change (ConversationChanged sid (ve_entry_id (se_entry seg)) (ve_version (se_entry seg)) visible)) st1 = (Inr u, st')"
    by (simp add: appendConversationBatch_def batch sid index read Let_def) (auto simp: bindS_Inr_iff [of "liftS _"] liftS_iff)
  then show ?thesis by (auto simp: appendRequiredEnvelope_def emit_change_def errE)
qed

lemma append_new_segment:
  assumes batch: "validateBatch api z sha ms = Inr ms" and sid: "am_session_id (hd ms) = sid" and index: "parseIndex z sid st = Inr index"
    and read: "readSegment api z sha sid None st = (Inr None, st1)"
    and run: "appendConversationBatch api z sha ms draw st = (Inr u, st')"
  shows "\<exists>filename g v. first_segment z sid index draw = Inr (filename, g, v) \<and> cs_indexes st' sid = Some v \<and>
    cs_segments st' (sid, filename) = Some \<lparr>sf_envelopes = [GenesisRow g # map MessageRow ms], sf_torn = False\<rparr>"
proof -
  from run obtain filename g v visible where "first_segment z sid index draw = Inr (filename, g, v)"
      "bindS (publishFreshSegment sid filename (GenesisRow g # map MessageRow ms)) (\<lambda>_.
         bindS (publishIndex sid v True) (\<lambda>_.
         bindS (emit_change (ConversationChanged sid (gn_entry_id g) 1 visible)) (\<lambda>_.
         emit_change (AgentMembershipChanged sid (session_card sid))))) st1 = (Inr u, st')"
    by (simp add: appendConversationBatch_def batch sid index read Let_def) (auto simp: bindS_Inr_iff [of "liftS _"] liftS_iff)
  then show ?thesis by (auto simp: emit_change_def errE publishFreshSegment_run publishIndex_run)
qed

lemma append_stored:
  assumes seg: "current_segment api z sha st sid doc seg" and sid: "sid = am_session_id (hd ms)"
    and run: "appendConversationBatch api z sha ms draw st = (Inr u, st')"
  shows "cs_indexes st' = cs_indexes st"
    and "cs_segments st' (sid, ve_filename (se_entry seg)) =
      Some (doc\<lparr>sf_torn := False, sf_envelopes := sf_envelopes doc @ [map MessageRow ms]\<rparr>)"
    and "parseSegment api z sha (ve_filename (se_entry seg)) (sf_envelopes doc @ [map MessageRow ms]) = Inr (se_genesis seg, se_rows seg @ ms)"
proof -
  have read: "readSegment api z sha sid None st = (Inr (Some seg), mend sid doc seg st)" using seg unfolding readSegment_Some by blast
  have whole: "cs_segments (mend sid doc seg st) (sid, ve_filename (se_entry seg)) = Some (doc\<lparr>sf_torn := False\<rparr>)"
    using seg by (auto simp: mend_def current_segment_def)
  have batch: "validateBatch api z sha ms = Inr ms" using run by (rule append_batch)
  have index: "parseIndex z sid st = Inr (se_index seg)" using seg by (simp add: parseIndex_Inr current_segment_def)
  show "cs_indexes st' = cs_indexes st" "cs_segments st' (sid, ve_filename (se_entry seg)) =
      Some (doc\<lparr>sf_torn := False, sf_envelopes := sf_envelopes doc @ [map MessageRow ms]\<rparr>)"
    using append_to_segment [OF batch sid [symmetric] index read run] whole by auto
  have "parseSegment api z sha (ve_filename (se_entry seg)) (sf_envelopes doc) = Inr (se_genesis seg, se_rows seg)"
    using seg by (auto simp: current_segment_def)
  moreover have "ms \<noteq> []" "\<forall>m \<in> set ms. agentMessageSchema api z sha m" using batch by (auto simp: validateBatch_Inr)
  ultimately show "parseSegment api z sha (ve_filename (se_entry seg)) (sf_envelopes doc @ [map MessageRow ms]) =
      Inr (se_genesis seg, se_rows seg @ ms)" by (rule parseSegment_append)
qed

lemma append_current:
  assumes seg: "current_segment api z sha st sid doc seg" and sid: "sid = am_session_id (hd ms)"
    and run: "appendConversationBatch api z sha ms draw st = (Inr u, st')"
  shows "readConversation api z sha sid st' = (Inr w, st'') \<longleftrightarrow>
    validateConversation api z sid (se_rows seg @ ms) (inherited_seed (gn_kind (se_genesis seg))) (compacted_seed (se_genesis seg)) = Inr w \<and>
    st'' = st'"
proof -
  note stored = append_stored [OF seg sid run]
  have loaded: "validateLoadedSegment api z (se_index seg) (se_entry seg) (se_genesis seg, se_rows seg) sid = Inr seg"
    using seg by (auto simp: current_segment_def)
  show ?thesis
  proof (rule read_whole)
    show "parseSegment api z sha (ve_filename (se_entry seg))
        (sf_envelopes (doc\<lparr>sf_torn := False, sf_envelopes := sf_envelopes doc @ [map MessageRow ms]\<rparr>)) = Inr (se_genesis seg, se_rows seg @ ms)"
      using stored(3) by simp
  qed (use seg stored(1,2) loaded in \<open>auto simp: current_segment_def validateLoadedSegment_Inr\<close>)
qed

text \<open>The segment that is current after an append is the one before it, with the batch at its end.\<close>

lemma append_next:
  assumes seg: "current_segment api z sha st sid doc seg" and sid: "sid = am_session_id (hd ms)"
    and run: "appendConversationBatch api z sha ms draw st = (Inr u, st')" and after: "current_segment api z sha st' sid doc' seg'"
  shows "se_genesis seg' = se_genesis seg" and "se_rows seg' = se_rows seg @ ms"
  using after append_stored [OF seg sid run] seg by (auto simp: current_segment_def)

lemma append_reads:
  assumes "appendConversationBatch api z sha ms draw st = (Inr u, st')"
  shows "\<exists>found st1. readSegment api z sha (am_session_id (hd ms)) None st = (Inr found, st1) \<and>
    (\<forall>s. found = Some s \<longrightarrow> (\<forall>m \<in> set ms. am_id m \<notin> am_id ` set (se_rows s)))"
proof -
  have batch: "validateBatch api z sha ms = Inr ms" using assms by (rule append_batch)
  show ?thesis
  proof (cases "readSegment api z sha (am_session_id (hd ms)) None st")
    case (Pair r st1)
    with assms obtain found where "r = Inr found" unfolding appendConversationBatch_def batch
      by (cases r) (auto simp: bindS_Inr_iff [of "liftS _"] bindS_Inr_iff [of "readS _"] liftS_iff readS_iff Let_def)
    moreover have "am_id m \<notin> am_id ` set (se_rows s)" if "found = Some s" "m \<in> set ms" for s m
      using assms Pair that \<open>r = Inr found\<close> unfolding appendConversationBatch_def batch
      by (auto simp: bindS_Inr_iff [of "liftS _"] bindS_Inr_iff [of "readS _"] liftS_iff readS_iff Let_def guardE_Inr_iff list_ex_iff)
    ultimately show ?thesis using Pair by blast
  qed
qed

lemma append_fresh:
  assumes seg: "current_segment api z sha st sid doc seg" and sid: "sid = am_session_id (hd ms)"
    and run: "appendConversationBatch api z sha ms draw st = (Inr u, st')" and m: "m \<in> set ms"
  shows "am_id m \<notin> am_id ` set (se_rows seg)"
  using append_reads [OF run] m seg sid readSegment_Some [of api z sha sid st seg "mend sid doc seg st"] by fastforce

lemma append_first:
  assumes none: "readSegment api z sha sid None st = (Inr None, st)" and sid: "sid = am_session_id (hd ms)"
    and drawn: "uuidV4Schema (sd_genesis_id draw)" and run: "appendConversationBatch api z sha ms draw st = (Inr u, st')"
  shows "readConversation api z sha sid st' = (Inr w, st'') \<longleftrightarrow> validateConversation api z sid ms None None = Inr w \<and> st'' = st'"
proof -
  from none obtain index where index: "cs_indexes st sid = Some index" "conversationVersionIndexSchema z index" "vi_session_id index = sid"
    unfolding readSegment_None by blast
  have batch: "validateBatch api z sha ms = Inr ms" using run by (rule append_batch)
  then have ms: "ms \<noteq> []" "\<forall>m \<in> set ms. agentMessageSchema api z sha m" by (auto simp: validateBatch_Inr)
  define filename where "filename = decimal_text 1 @ ''-'' @ sd_file_id draw @ ''.jsonl''"
  define g where "g = \<lparr>gn_id = sd_genesis_id draw, gn_entry_id = sd_entry_id draw, gn_session_id = sid, gn_segment_version = 1,
           gn_timestamp = sd_now draw, gn_kind = OrdinaryGenesis\<rparr>"
  define entry where "entry = \<lparr>ve_entry_id = sd_entry_id draw, ve_version = 1, ve_filename = filename, ve_created_at = sd_now draw,
           ve_genesis = OrdinaryEntry\<rparr>"
  define v where "v = index\<lparr>vi_versions := [entry], vi_current_version := Some 1, vi_current_filename := Some filename\<rparr>"
  have st': "conversationVersionIndexSchema z v \<and> cs_indexes st' sid = Some v \<and>
      cs_segments st' (sid, filename) = Some \<lparr>sf_envelopes = [GenesisRow g # map MessageRow ms], sf_torn = False\<rparr>"
    using append_new_segment [OF batch sid [symmetric] _ none run, of index] index(1,2)
    by (auto simp: parseIndex_Inr first_segment_def versionFilename_def Let_def errE filename_def g_def entry_def v_def)
  have entry: "conversationVersionEntrySchema z entry" using st' by (simp add: v_def conversationVersionIndexSchema_def)
  have parsed: "parseSegment api z sha filename [GenesisRow g # map MessageRow ms] = Inr (g, ms)"
    using entry drawn index by (simp add: parseSegment_fresh ms conversationSegmentGenesisSchema_def g_def entry_def
        conversationVersionEntrySchema_def conversationVersionIndexSchema_def)
  have "readConversation api z sha sid st' = (Inr w, st'') \<longleftrightarrow>
      validateConversation api z sid ms (inherited_seed (gn_kind g)) (compacted_seed g) = Inr w \<and> st'' = st'"
    by (rule read_whole [where index = v and entry = entry and doc = "\<lparr>sf_envelopes = [GenesisRow g # map MessageRow ms], sf_torn = False\<rparr>"])
      (use st' index parsed in \<open>simp_all add: v_def entry_def at_last_def, simp_all add: g_def\<close>)
  then show ?thesis by (simp add: g_def compacted_seed_def)
qed

section \<open>Compacting\<close>

lemma compaction_run:
  assumes "publishCompactedConversationSegment api z sha sid cp st = (Inr w, st')"
  shows "\<exists>doc seg g v. current_segment api z sha st sid doc seg \<and> Suc (ve_version (se_entry seg)) = cp_segment_version cp \<and>
    cp_cutoff_index cp < length (se_rows seg) \<and> am_id (se_rows seg ! cp_cutoff_index cp) = cp_cutoff_message cp \<and>
    validateCompactedHistorySuccessor api z (se_conversation seg) (ve_version (se_entry seg)) (cp_history cp)
      (take (Suc (cp_cutoff_index cp)) (se_rows seg)) = Inr () \<and>
    compacted_successor z sid seg cp = Inr (g, v) \<and>
    validateConversation api z sid (drop (Suc (cp_cutoff_index cp)) (se_rows seg)) (inherited_seed (gn_kind g)) (compacted_seed g) = Inr w \<and>
    cs_segments (mend sid doc seg st) (sid, cp_filename cp) = None \<and>
    cs_indexes st' = (cs_indexes st)(sid \<mapsto> v) \<and>
    cs_segments st' = (cs_segments (mend sid doc seg st))((sid, cp_filename cp) \<mapsto>
      \<lparr>sf_envelopes = [GenesisRow g # map MessageRow (drop (Suc (cp_cutoff_index cp)) (se_rows seg))], sf_torn = False\<rparr>)"
proof -
  from assms obtain found st1 where first: "readSegment api z sha sid None st = (Inr found, st1)"
    unfolding publishCompactedConversationSegment_def bindS_Inr_iff by blast
  with assms obtain seg where found: "found = Some seg"
    by (cases found) (simp_all add: publishCompactedConversationSegment_def)
  with first obtain doc where seg: "current_segment api z sha st sid doc seg" "st1 = mend sid doc seg st"
    by (auto simp: readSegment_Some)
  have rows: "vc_rows (se_conversation seg) = se_rows seg" using seg(1) by (rule current_rows)
  from assms obtain g v visible where rest: "Suc (ve_version (se_entry seg)) = cp_segment_version cp"
      "cp_cutoff_index cp < length (se_rows seg)" "am_id (se_rows seg ! cp_cutoff_index cp) = cp_cutoff_message cp"
      "validateCompactedHistorySuccessor api z (se_conversation seg) (ve_version (se_entry seg)) (cp_history cp)
         (take (Suc (cp_cutoff_index cp)) (se_rows seg)) = Inr ()"
      "compacted_successor z sid seg cp = Inr (g, v)"
      "validateConversation api z sid (drop (Suc (cp_cutoff_index cp)) (se_rows seg)) (inherited_seed (gn_kind g)) (compacted_seed g) = Inr w"
      "bindS (publishFreshSegment sid (cp_filename cp) (GenesisRow g # map MessageRow (drop (Suc (cp_cutoff_index cp)) (se_rows seg)))) (\<lambda>_.
         bindS (publishIndex sid v True) (\<lambda>_.
         bindS (emit_change visible) (\<lambda>_. returnS w))) st1 = (Inr w, st')"
    unfolding publishCompactedConversationSegment_def
    by (simp add: first found rows Let_def) (auto simp: bindS_Inr_iff [of "liftS _"] liftS_iff guardE_Inr_iff bindS_Inr_iff [of "emit_change _"]
        bindS_Inr_iff [of "publishIndex _ _ _"] bindS_Inr_iff [of "publishFreshSegment _ _ _"] returnS_iff)
  from rest(7) have "cs_segments st1 (sid, cp_filename cp) = None \<and> cs_indexes st' = (cs_indexes st1)(sid \<mapsto> v) \<and>
      cs_segments st' = (cs_segments st1)((sid, cp_filename cp) \<mapsto>
        \<lparr>sf_envelopes = [GenesisRow g # map MessageRow (drop (Suc (cp_cutoff_index cp)) (se_rows seg))], sf_torn = False\<rparr>)"
    by (auto simp: errE publishFreshSegment_run publishIndex_run emit_change_def)
  with seg rest(1-6) show ?thesis by (intro exI [of _ doc] exI [of _ seg] exI [of _ g] exI [of _ v]) simp
qed

lemma compaction_reads:
  assumes run: "publishCompactedConversationSegment api z sha sid cp st = (Inr w, st')"
    and drawn: "uuidV4Schema (cp_genesis_id cp)" "compactedHistorySchema api z sha (cp_history cp)"
      "conversationContinuationSchema (cp_continuation cp)"
  shows "readConversation api z sha sid st' = (Inr w, st')"
proof -
  from compaction_run [OF run] obtain doc seg g v where c: "current_segment api z sha st sid doc seg"
      "Suc (ve_version (se_entry seg)) = cp_segment_version cp"
      "am_id (se_rows seg ! cp_cutoff_index cp) = cp_cutoff_message cp" "cp_cutoff_index cp < length (se_rows seg)"
      "compacted_successor z sid seg cp = Inr (g, v)"
      "validateConversation api z sid (drop (Suc (cp_cutoff_index cp)) (se_rows seg)) (inherited_seed (gn_kind g)) (compacted_seed g) = Inr w"
      "cs_indexes st' = (cs_indexes st)(sid \<mapsto> v)"
      "cs_segments st' (sid, cp_filename cp) =
        Some \<lparr>sf_envelopes = [GenesisRow g # map MessageRow (drop (Suc (cp_cutoff_index cp)) (se_rows seg))], sf_torn = False\<rparr>"
    by fastforce
  define entry where "entry = \<lparr>ve_entry_id = cp_entry_id cp, ve_version = cp_segment_version cp, ve_filename = cp_filename cp,
            ve_created_at = cp_timestamp cp,
            ve_genesis = CompactedEntry (ve_version (se_entry seg)) (ve_filename (se_entry seg)) (cp_cutoff_message cp)\<rparr>"
  have g: "g = \<lparr>gn_id = cp_genesis_id cp, gn_entry_id = cp_entry_id cp, gn_session_id = sid,
            gn_segment_version = cp_segment_version cp, gn_timestamp = cp_timestamp cp,
            gn_kind = CompactedGenesis (ve_version (se_entry seg)) (ve_filename (se_entry seg)) (cp_cutoff_message cp)
              (cp_history cp) (cp_continuation cp)\<rparr>"
    and v: "v = (se_index seg)\<lparr>vi_versions := vi_versions (se_index seg) @ [entry],
            vi_current_version := Some (cp_segment_version cp), vi_current_filename := Some (cp_filename cp)\<rparr>"
    and schema: "conversationVersionIndexSchema z v"
    using c(5) by (auto simp: compacted_successor_def errE Let_def entry_def)
  have parts: "conversationVersionEntrySchema z entry" using schema by (simp add: v conversationVersionIndexSchema_def)
  have sid: "vi_session_id (se_index seg) = sid" "conversationSessionIdSchema sid"
    using c(1) by (auto simp: current_segment_def conversationVersionIndexSchema_def)
  have source: "conversationVersionEntrySchema z (se_entry seg)"
    using c(1) by (auto simp: current_segment_def conversationVersionIndexSchema_def at_last_Some_iff)
  have rows: "\<forall>m \<in> set (se_rows seg). agentMessageSchema api z sha m"
    using c(1) parsed_rows_schema by (fastforce simp: current_segment_def)
  then have cutoff: "cp_cutoff_message cp \<noteq> []" using c(3,4) by (fastforce simp: agentMessageSchema_def)
  have "conversationSegmentGenesisSchema api z sha g"
    using drawn parts source sid cutoff by (simp add: g conversationSegmentGenesisSchema_def conversationVersionEntrySchema_def entry_def)
  then have parsed: "parseSegment api z sha (cp_filename cp) [GenesisRow g # map MessageRow (drop (Suc (cp_cutoff_index cp)) (se_rows seg))] =
      Inr (g, drop (Suc (cp_cutoff_index cp)) (se_rows seg))"
    using rows by (intro parseSegment_fresh) (auto dest: in_set_dropD)
  have "readConversation api z sha sid st' = (Inr w, st') \<longleftrightarrow>
      validateConversation api z sid (drop (Suc (cp_cutoff_index cp)) (se_rows seg)) (inherited_seed (gn_kind g)) (compacted_seed g) = Inr w \<and> st' = st'"
    by (rule read_whole [where index = v and entry = entry and
          doc = "\<lparr>sf_envelopes = [GenesisRow g # map MessageRow (drop (Suc (cp_cutoff_index cp)) (se_rows seg))], sf_torn = False\<rparr>"])
      (use c(7,8) schema sid parsed in \<open>simp_all add: v entry_def, simp_all add: g\<close>)
  with c(6) show ?thesis by simp
qed

text \<open>The compacted segment stays readable as history.\<close>

lemma compaction_history:
  assumes run: "publishCompactedConversationSegment api z sha sid cp st = (Inr w, st')"
    and before: "readConversation api z sha sid st = (Inr v0, st0)"
  shows "\<exists>seg. readHistoricalConversationSegment api z sha sid (cp_segment_version cp - 1) st' = (Inr seg, st') \<and> se_conversation seg = v0"
proof -
  from compaction_run [OF run] obtain doc seg g v where c: "current_segment api z sha st sid doc seg"
      "Suc (ve_version (se_entry seg)) = cp_segment_version cp" "compacted_successor z sid seg cp = Inr (g, v)"
      "cs_segments (mend sid doc seg st) (sid, cp_filename cp) = None" "cs_indexes st' = (cs_indexes st)(sid \<mapsto> v)"
      "\<And>f. f \<noteq> cp_filename cp \<Longrightarrow> cs_segments st' (sid, f) = cs_segments (mend sid doc seg st) (sid, f)"
    by fastforce
  have v0: "v0 = se_conversation seg"
    using before c(1) current_unique [OF c(1)] unfolding readConversation_Inr by (auto simp: readSegment_None current_segment_def at_last_def)
  have v: "conversationVersionIndexSchema z v" "vi_session_id v = sid" "\<exists>e. vi_versions v = vi_versions (se_index seg) @ [e]"
      "vi_current_version v = Some (cp_segment_version cp)"
    using c(1,3) by (auto simp: compacted_successor_def errE Let_def current_segment_def)
  obtain es where es: "vi_versions (se_index seg) = es @ [se_entry seg]" using c(1) by (auto simp: current_segment_def at_last_Some_iff)
  have len: "ve_version (se_entry seg) = Suc (length es)" using index_head(3) [OF _ es] c(1) by (auto simp: current_segment_def)
  have select: "selectSegment sid (Some (cp_segment_version cp - 1)) v = Inr (Some (se_entry seg))"
    using v(2,3) es len c(2) by (auto simp: selectSegment_def nth_append)
  have whole: "cs_segments (mend sid doc seg st) (sid, ve_filename (se_entry seg)) = Some (doc\<lparr>sf_torn := False\<rparr>)"
    using c(1) by (auto simp: mend_def current_segment_def)
  with c(4) have "ve_filename (se_entry seg) \<noteq> cp_filename cp" by auto
  with whole c(6) have file_kept: "cs_segments st' (sid, ve_filename (se_entry seg)) = Some (doc\<lparr>sf_torn := False\<rparr>)" by simp
  have "validateLoadedSegment api z v (se_entry seg) (se_genesis seg, se_rows seg) sid = Inr (seg\<lparr>se_index := v\<rparr>)"
    and "parseSegment api z sha (ve_filename (se_entry seg)) (sf_envelopes doc) = Inr (se_genesis seg, se_rows seg)"
    using c(1) unfolding current_segment_def validateLoadedSegment_Inr by (auto dest: arg_cong [of _ _ se_conversation])
  then have "loadSegment api z sha v (se_entry seg) sid st' = (Inr (seg\<lparr>se_index := v\<rparr>), st')"
    using file_kept by (simp add: loadSegment_def readS_def returnS_def bindS_def liftS_def)
  moreover have "parseIndex z sid st' = Inr v" using c(5) v(1) by (simp add: parseIndex_Inr)
  ultimately have "readHistoricalConversationSegment api z sha sid (cp_segment_version cp - 1) st' = (Inr (seg\<lparr>se_index := v\<rparr>), st')"
    using select by (simp add: readHistoricalConversationSegment_def)
  then show ?thesis using v0 by (intro exI [of _ "seg\<lparr>se_index := v\<rparr>"]) simp
qed

end
