(* ===== verification/ConversationRecovery.thy ===== *)
theory ConversationRecovery
  imports ConversationStore
begin

text \<open>
  Settling tool calls (\<^verbatim>\<open>src/runtime/actors/llm-delivery-log.ts\<close>,
  \<^verbatim>\<open>src/contracts/tool-result-projection.ts\<close>), the recovery notice
  (\<^verbatim>\<open>src/runtime/actors/conversation-session.ts\<close>) and the recovery of a session after a crash
  (\<^verbatim>\<open>src/runtime/actors/conversation-recovery.ts\<close>). The redaction of outbound values is the
  parameter \<open>redact\<close>.
\<close>

section \<open>Settled tool results\<close>

datatype tool_outcome =
    Succeeded "json option" "content_block list option" "(bool \<times> selection_observation list) option"
  | FailedOutcome string "json option"

datatype execution_evidence = EvidenceNone | EvidenceBytes | EvidenceLocator string string

datatype settlement = ExecutedSettlement tool_outcome execution_evidence | SyntheticSettlement settlement_origin tool_outcome

definition image_json :: "image_descriptor \<Rightarrow> json" where
  "image_json im = JObj [(''id'', JStr (im_id im)), (''mime_type'', JStr ''image/png''), (''width'', JNum (of_int (im_width im))),
     (''height'', JNum (of_int (im_height im))), (''byte_length'', JNum (of_int (im_byte_length im))), (''sha256'', JStr (im_sha256 im))]"

fun projectContent :: "(json \<Rightarrow> json) \<Rightarrow> content_block \<Rightarrow> json" where
  "projectContent redact (TextBlock t) = JObj [(''type'', JStr ''text''), (''text'', redact (JStr t))]"
| "projectContent redact (ImageBlock im) = JObj [(''type'', JStr ''image''), (''image'', image_json im)]"

definition optional_entry :: "string \<Rightarrow> json option \<Rightarrow> (string \<times> json) list" where
  "optional_entry k v = (case v of None \<Rightarrow> [] | Some x \<Rightarrow> [(k, x)])"

fun projectOutcome :: "(json \<Rightarrow> json) \<Rightarrow> tool_outcome \<Rightarrow> json" where
  "projectOutcome redact (Succeeded data content _) =
     JObj ((''success'', JBool True) # optional_entry ''content'' (map_option (\<lambda>bs. JArr (map (projectContent redact) bs)) content) @
       optional_entry ''data'' (map_option redact data))"
| "projectOutcome redact (FailedOutcome e data) =
     JObj ((''success'', JBool False) # (''error'', redact (JStr e)) # optional_entry ''data'' (map_option redact data))"

definition settleToolActionOutcome ::
    "json_api \<Rightarrow> (json \<Rightarrow> json) \<Rightarrow> tool_outcome \<Rightarrow> error + tool_result \<times> json" where
  "settleToolActionOutcome api redact outcome =
     bindE (optionE (ZodError ''toolResult'') (toolResultSchema (projectOutcome redact outcome))) (\<lambda>r.
     Inr (r, projectOutcome redact outcome))"

definition toolFailed :: "string \<Rightarrow> json option \<Rightarrow> error + tool_outcome" where
  "toolFailed e data =
     bindE (guardE (e \<noteq> []) (PlainError ''Tool action failure requires a non-empty error.'' [])) (\<lambda>_. Inr (FailedOutcome e data))"

definition syntheticToolSettlement :: "settlement_origin \<Rightarrow> string \<Rightarrow> json option \<Rightarrow> error + settlement" where
  "syntheticToolSettlement kind e data = bindE (toolFailed e data) (\<lambda>outcome. Inr (SyntheticSettlement kind outcome))"

record result_policy =
  rp_template :: policy_template
  rp_template_bytes :: string
  rp_template_sha256 :: string

definition assertResultPolicyConsistency :: "json_api \<Rightarrow> (string \<Rightarrow> string) \<Rightarrow> result_policy \<Rightarrow> string \<Rightarrow> error + unit" where
  "assertResultPolicyConsistency api sha p toolName =
     guardE (canonicalJson api (template_json (rp_template p)) = rp_template_bytes p \<and>
         sha (canonicalJson api (template_json (rp_template p))) = rp_template_sha256 p)
       (PlainError ''Result policy template does not commit to its canonical bytes and hash.'' [toolName])"

fun settlement_outcome :: "settlement \<Rightarrow> tool_outcome" where
  "settlement_outcome (ExecutedSettlement outcome _) = outcome"
| "settlement_outcome (SyntheticSettlement _ outcome) = outcome"

fun settlement_kind :: "settlement \<Rightarrow> settlement_origin" where
  "settlement_kind (ExecutedSettlement _ _) = Executed"
| "settlement_kind (SyntheticSettlement origin _) = origin"

definition settledEvidence ::
    "json_api \<Rightarrow> (string \<Rightarrow> string) \<Rightarrow> result_policy \<Rightarrow> settlement \<Rightarrow> tool_result \<Rightarrow> json \<Rightarrow> string \<Rightarrow> error + settled_evidence" where
  "settledEvidence api sha p settlement projected v toolName = (case settlement of
     SyntheticSettlement _ _ \<Rightarrow> Inr SettledNone
   | ExecutedSettlement _ evidence \<Rightarrow>
       if \<not> result_success projected then Inr SettledNone
       else (case (pt_evidence_mode (rp_template p), evidence) of
           (ModeObservational, EvidenceBytes) \<Rightarrow> Inr (SettledQuery (sha (canonicalJson api v)))
         | (ModeLocator, EvidenceLocator locator digest) \<Rightarrow> Inr (SettledLocator locator digest)
         | (ModeNone, EvidenceNone) \<Rightarrow> Inr SettledNone
         | _ \<Rightarrow> Inl (PlainError ''Executed tool must supply the evidence its policy declares.'' [toolName])))"

record settled_facts =
  st_observations :: "(bool \<times> selection_observation list) option"
  st_result :: tool_result
  st_bytes :: string
  st_content_sha256 :: string
  st_origin :: settlement_origin
  st_evidence :: settled_evidence
  st_call_sha256 :: string

fun outcome_observations :: "tool_outcome \<Rightarrow> (bool \<times> selection_observation list) option" where
  "outcome_observations (Succeeded _ _ os) = os"
| "outcome_observations (FailedOutcome _ _) = None"

definition settleToolResultForConversation ::
    "json_api \<Rightarrow> (string \<Rightarrow> string) \<Rightarrow> (json \<Rightarrow> json) \<Rightarrow> string \<Rightarrow> result_policy \<Rightarrow> settlement \<Rightarrow> error + settled_facts" where
  "settleToolResultForConversation api sha redact toolName p settlement =
     bindE (assertResultPolicyConsistency api sha p toolName) (\<lambda>_.
     bindE (settleToolActionOutcome api redact (settlement_outcome settlement)) (\<lambda>(r, v).
     bindE (settledEvidence api sha p settlement r v toolName) (\<lambda>evidence.
     let bytes = canonicalJson api v in
     Inr \<lparr>st_observations = outcome_observations (settlement_outcome settlement), st_result = r, st_bytes = bytes,
       st_content_sha256 = sha bytes, st_origin = settlement_kind settlement, st_evidence = evidence,
       st_call_sha256 = rp_template_sha256 p\<rparr>)))"

definition deterministicRoundId :: "(string \<Rightarrow> string) \<Rightarrow> string \<Rightarrow> string \<Rightarrow> string" where
  "deterministicRoundId sha kind seed = ''r-'' @ kind @ ''-'' @ take 32 (sha seed)"

record settlement_record =
  sl_session_id :: string
  sl_source_input_id :: string
  sl_tool_call_id :: string
  sl_tool_name :: string
  sl_policy :: result_policy
  sl_settlement :: settlement

definition observation_rows :: "settlement_record \<Rightarrow> settled_facts \<Rightarrow> record_observation list option" where
  "observation_rows r f = (case st_observations f of
     None \<Rightarrow> None
   | Some (read, os) \<Rightarrow> if os = [] then None else Some (map (\<lambda>observed. \<lparr>ob_observed = observed,
       ob_source = (if read then FromRead else FromMutation) (sl_source_input_id r) (sl_tool_call_id r) (sl_tool_name r)\<rparr>) os))"

definition buildToolResultMessage ::
    "json_api \<Rightarrow> zod \<Rightarrow> (string \<Rightarrow> string) \<Rightarrow> settlement_record \<Rightarrow> settled_facts \<Rightarrow> string \<Rightarrow> error + agent_message" where
  "buildToolResultMessage api z sha r f now = parse_message api z sha
     \<lparr>am_id = sl_source_input_id r @ '':tool-result:'' @ sl_tool_call_id r, am_session_id = sl_session_id r,
      am_role = ToolRole, am_kind = KToolResult, am_content = st_bytes f,
      am_policy = ToolResultPolicy (st_origin f) (st_content_sha256 f) (st_call_sha256 f) (st_evidence f),
      am_round_id = deterministicRoundId sha ''user'' (sl_source_input_id r), am_message_index = 2, am_block_index = 0,
      am_tool = Some (sl_tool_name r), am_tool_call_id = Some (sl_tool_call_id r), am_timestamp = now, am_links = None,
      am_model_spec = None, am_requested_model_spec = None, am_projection = None, am_workflow_prompt = False,
      am_observations = observation_rows r f, am_record_prompt = None\<rparr>"

definition buildSettledToolResult ::
    "json_api \<Rightarrow> zod \<Rightarrow> (string \<Rightarrow> string) \<Rightarrow> (json \<Rightarrow> json) \<Rightarrow> settlement_record \<Rightarrow> string \<Rightarrow> error + settled_facts \<times> agent_message" where
  "buildSettledToolResult api z sha redact r now =
     bindE (settleToolResultForConversation api sha redact (sl_tool_name r) (sl_policy r) (sl_settlement r)) (\<lambda>f.
     bindE (buildToolResultMessage api z sha r f now) (\<lambda>m. Inr (f, m)))"

definition appendToolResult ::
    "json_api \<Rightarrow> zod \<Rightarrow> (string \<Rightarrow> string) \<Rightarrow> (json \<Rightarrow> json) \<Rightarrow> settlement_record \<Rightarrow> string \<Rightarrow> segment_draw \<Rightarrow>
     (conversation_store, settled_facts) op" where
  "appendToolResult api z sha redact r now draw =
     bindS (liftS (buildSettledToolResult api z sha redact r now)) (\<lambda>(f, m).
     bindS (appendConversationBatch api z sha [m] draw) (\<lambda>_. returnS f))"

datatype settle_context = ActualUse | Recovery

fun uncertain_text :: "settle_context \<Rightarrow> string" where
  "uncertain_text ActualUse =
     ''Prior activation ended without a recorded tool result. External or domain effects may or may not have happened. The prior call will not be replayed.''"
| "uncertain_text Recovery =
     ''Runtime activation was interrupted before completion. External or domain effects may or may not have happened.''"

definition appendUncertainPriorToolResult ::
    "json_api \<Rightarrow> zod \<Rightarrow> (string \<Rightarrow> string) \<Rightarrow> (json \<Rightarrow> json) \<Rightarrow> string \<Rightarrow> conversation_call \<Rightarrow> settle_context \<Rightarrow> string \<Rightarrow>
     segment_draw \<Rightarrow> (conversation_store, unit) op" where
  "appendUncertainPriorToolResult api z sha redact sessionId call context now draw =
     (let m = cl_message call in
      case (am_policy m, cl_tool call) of
        (ToolCallPolicy template bytes digest, Some tool) \<Rightarrow>
          bindS (liftS (guardE (am_kind m = KToolCall \<and> am_tool m = Some tool \<and> am_tool_call_id m = Some (cl_tool_call_id call))
            (PlainError ''Unmatched tool call is missing its tool identity or tool_call context policy.'' [am_id m]))) (\<lambda>_.
          bindS (liftS (syntheticToolSettlement ExecutionFailed (uncertain_text context) (Some (JObj [(''outcome_unknown'', JBool True)])))) (\<lambda>settlement.
          bindS (appendToolResult api z sha redact
            \<lparr>sl_session_id = sessionId, sl_source_input_id = cl_source_input_id call, sl_tool_call_id = cl_tool_call_id call,
             sl_tool_name = tool,
             sl_policy = \<lparr>rp_template = template, rp_template_bytes = bytes, rp_template_sha256 = digest\<rparr>,
             sl_settlement = settlement\<rparr> now draw) (\<lambda>_. returnS ())))
      | _ \<Rightarrow> liftS (Inl (PlainError ''Unmatched tool call is missing its tool identity or tool_call context policy.'' [am_id m])))"

section \<open>The recovery notice\<close>

definition recovery_notice :: "(string \<Rightarrow> string) \<Rightarrow> string \<Rightarrow> string \<Rightarrow> string \<Rightarrow> agent_message" where
  "recovery_notice sha sessionId inputId now =
     \<lparr>am_id = inputId @ '':model-recovered'', am_session_id = sessionId, am_role = SystemRole, am_kind = KModelRecovered,
      am_content = MODEL_RECOVERY_NOTICE_TEXT, am_policy = StructuralPolicy ModelRecoveryNotice,
      am_round_id = deterministicRoundId sha ''pre'' inputId, am_message_index = 0, am_block_index = 1,
      am_tool = None, am_tool_call_id = None, am_timestamp = now, am_links = None,
      am_model_spec = None, am_requested_model_spec = None, am_projection = None, am_workflow_prompt = False,
      am_observations = None, am_record_prompt = None\<rparr>"

definition appendRecoveryNotice ::
    "json_api \<Rightarrow> zod \<Rightarrow> (string \<Rightarrow> string) \<Rightarrow> string \<Rightarrow> string \<Rightarrow> string \<Rightarrow> segment_draw \<Rightarrow> (conversation_store, unit) op" where
  "appendRecoveryNotice api z sha sessionId inputId now draw =
     bindS (liftS (parse_message api z sha (recovery_notice sha sessionId inputId now))) (\<lambda>m.
     appendConversationBatch api z sha [m] draw)"

definition isExactRecoveryNotice :: "(string \<Rightarrow> string) \<Rightarrow> agent_message \<Rightarrow> string \<Rightarrow> string \<Rightarrow> bool" where
  "isExactRecoveryNotice sha m sessionId inputId \<longleftrightarrow>
     am_id m = inputId @ '':model-recovered'' \<and> am_session_id m = sessionId \<and> am_role m = SystemRole \<and> am_kind m = KModelRecovered \<and>
     am_content m = MODEL_RECOVERY_NOTICE_TEXT \<and> am_round_id m = deterministicRoundId sha ''pre'' inputId \<and>
     am_message_index m = 0 \<and> am_block_index m = 1"

section \<open>Classification\<close>

datatype implicit_state = EmptyConversation | AwaitingToolResult | SettledTerminal | AssistantTextPending | PendingProvider

fun recoveryVisibility :: "message_kind \<Rightarrow> bool" where
  "recoveryVisibility KActivity = False"
| "recoveryVisibility KProviderPrivate = False"
| "recoveryVisibility KRecordObservation = False"
| "recoveryVisibility _ = True"

fun model_visible :: "message_kind \<Rightarrow> bool" where
  "model_visible KText = True"
| "model_visible KToolCall = True"
| "model_visible KToolResult = True"
| "model_visible KModelRepair = True"
| "model_visible KContentPolicyRetry = True"
| "model_visible KContentPolicyRefusal = True"
| "model_visible KModelRecovered = True"
| "model_visible _ = False"

definition parseResultPayload :: "json_api \<Rightarrow> agent_message \<Rightarrow> error + bool" where
  "parseResultPayload api m =
     bindE (optionE (PlainError ''Tool result has malformed JSON content.'' [am_id m]) (json_parse api (am_content m))) (\<lambda>v.
     bindE (guardE (v \<noteq> JNull) (PlainError ''TypeError'' [])) (\<lambda>_. Inr (settled_success v)))"

definition toolCallIdentity :: "agent_message \<Rightarrow> error + tool_identity" where
  "toolCallIdentity m = bindE (loggedToolCallIdentity m)
     (optionE (PlainError ''Validated tool_call message is missing tool_call_id.'' [am_id m]))"

definition toolResultIdentity :: "agent_message \<Rightarrow> error + tool_identity" where
  "toolResultIdentity m = bindE (loggedToolResultIdentity m)
     (optionE (PlainError ''Validated tool_result message is missing tool_call_id.'' [am_id m]))"

text \<open>The latest call before the result, read from the end.\<close>

fun settled_by :: "string list \<Rightarrow> string \<Rightarrow> agent_message list \<Rightarrow> error + bool" where
  "settled_by terminal resultKey [] = Inr False"
| "settled_by terminal resultKey (call # earlier) =
     (if am_kind call \<noteq> KToolCall then settled_by terminal resultKey earlier
      else if \<not> (truthy_text (am_tool call) \<and> the (am_tool call) \<in> set terminal) then Inr False
      else bindE (toolCallIdentity call) (\<lambda>k. Inr (loggedToolCallKey k = resultKey)))"

definition lastModelVisibleExchangeIsSettledTerminal :: "json_api \<Rightarrow> agent_message list \<Rightarrow> string list \<Rightarrow> error + bool" where
  "lastModelVisibleExchangeIsSettledTerminal api messages terminal =
     (let modelVisible = filter (\<lambda>m. model_visible (am_kind m)) messages in
      case at_last modelVisible of
        None \<Rightarrow> Inr False
      | Some final \<Rightarrow>
          if am_kind final = KContentPolicyRefusal then Inr True
          else if am_kind final \<noteq> KToolResult then Inr False
          else bindE (parseResultPayload api final) (\<lambda>success.
            if \<not> success then Inr False
            else bindE (toolResultIdentity final) (\<lambda>k.
              settled_by terminal (loggedToolCallKey k) (rev (butlast modelVisible)))))"

definition classifyConversation ::
    "json_api \<Rightarrow> agent_message list \<Rightarrow> string list \<Rightarrow> agent_message option \<Rightarrow> error + implicit_state" where
  "classifyConversation api messages terminal unmatched =
     (let visible = filter (\<lambda>m. recoveryVisibility (am_kind m)) messages in
      if visible = [] then Inr EmptyConversation
      else if pred_option (\<lambda>u. list_ex (\<lambda>m. am_id m = am_id u) visible) unmatched \<and> unmatched \<noteq> None then Inr AwaitingToolResult
      else bindE (lastModelVisibleExchangeIsSettledTerminal api visible terminal) (\<lambda>settled.
        if settled then Inr SettledTerminal
        else if am_kind (last visible) = KText \<and> am_role (last visible) = AssistantRole then Inr AssistantTextPending
        else Inr PendingProvider))"

section \<open>Recovery of a session\<close>

definition activationMarker :: "json_api \<Rightarrow> zod \<Rightarrow> agent_message \<Rightarrow> error + (string \<times> string \<times> string) option" where
  "activationMarker api z m =
     (if am_kind m \<noteq> KActivity then Inr None
      else bindE (parseActivationOpenPayload api z (am_content m) (am_session_id m) (am_timestamp m)) (\<lambda>payload. case payload of
          None \<Rightarrow> Inr None
        | Some p \<Rightarrow> bindE (optionE (PlainError ''Activation marker is not card-owned.'' [am_id m]) (ap_card_id p)) (\<lambda>owner.
            Inr (Some (ap_agent_name p, owner, ap_input_id p)))))"

definition requireAssociatedActivationMarker :: "json_api \<Rightarrow> zod \<Rightarrow> agent_message \<Rightarrow> string \<Rightarrow> error + string" where
  "requireAssociatedActivationMarker api z m sessionId =
     bindE (activationMarker api z m) (\<lambda>marker.
     bindE (optionE (PlainError ''Latest activation marker is missing or malformed.'' [sessionId]) marker) (\<lambda>(agentName, owner, inputId).
     bindE (conversationSessionIdentity sessionId) (\<lambda>(name, cardId).
     bindE (guardE (cardId = Some owner \<and> agentName = name)
       (PlainError ''Activation marker does not match session.'' [am_id m, sessionId])) (\<lambda>_.
     Inr inputId))))"

definition activation_input :: "json_api \<Rightarrow> zod \<Rightarrow> string \<Rightarrow> activation_checkpoint \<Rightarrow> error + string" where
  "activation_input api z sessionId a = (case a of
     GenesisActivation _ inputId \<Rightarrow> Inr inputId
   | RowActivation m \<Rightarrow> requireAssociatedActivationMarker api z m sessionId)"

definition index_of_id :: "agent_message list \<Rightarrow> string \<Rightarrow> nat option" where
  "index_of_id rows i = find (\<lambda>k. am_id (rows ! k) = i) [0..<length rows]"

definition physicalIndexForSource :: "agent_message list \<Rightarrow> agent_message \<Rightarrow> error + nat" where
  "physicalIndexForSource rows source =
     optionE (PlainError ''Canonical activation marker is missing from physical rows.'' [am_id source]) (index_of_id rows (am_id source))"

definition validateCallSettlementPairs ::
    "validated_conversation \<Rightarrow> nat option \<Rightarrow> bool \<Rightarrow> error + conversation_call option" where
  "validateCallSettlementPairs conversation latestActivationIndex interrupted = (case vc_unmatched conversation of
     None \<Rightarrow> Inr None
   | Some call \<Rightarrow>
       bindE (guardE interrupted
         (PlainError ''A cleanly closed or empty role session contains an unmatched tool call.'' [])) (\<lambda>_.
       bindE (guardE (pred_option (\<lambda>i. i \<le> cl_physical call) latestActivationIndex \<and> latestActivationIndex \<noteq> None)
         (PlainError ''Interrupted role session contains an unmatched tool call in an older activation round.'' [])) (\<lambda>_.
       Inr (Some call))))"

text \<open>
  What recovery finds out before it writes: nothing to do, or the activation to close and the
  call to settle. The branches are those of \<open>stabilizeAgentSession\<close>, in order.
\<close>

datatype recovery_plan = Stable | Interrupted string "conversation_call option"

definition stable_if_settled :: "validated_conversation \<Rightarrow> nat option \<Rightarrow> error + recovery_plan" where
  "stable_if_settled conversation i = bindE (validateCallSettlementPairs conversation i False) (\<lambda>_. Inr Stable)"

definition latest_activation_index :: "validated_conversation \<Rightarrow> source_round \<Rightarrow> error + nat option" where
  "latest_activation_index conversation r =
     (if sr_rows r = [] then Inr None
      else bindE (optionE (PlainError ''Activation has no retained source rows.'' [sr_label r])
        (index_of_id (vc_rows conversation) (am_id (hd (sr_rows r))))) (\<lambda>i. Inr (Some i)))"

definition covered_for :: "string \<Rightarrow> (string \<times> string) option \<Rightarrow> bool" where
  "covered_for inputId covered = (case covered of None \<Rightarrow> False | Some (_, activation) \<Rightarrow> activation = inputId)"

definition plan_round ::
    "json_api \<Rightarrow> zod \<Rightarrow> (string \<Rightarrow> string) \<Rightarrow> string \<Rightarrow> string list \<Rightarrow> validated_conversation \<Rightarrow> source_round \<Rightarrow> error + recovery_plan" where
  "plan_round api z sha sessionId terminal conversation r =
     bindE (latest_activation_index conversation r) (\<lambda>latest.
     bindE (activation_input api z sessionId (sr_activation r)) (\<lambda>inputId.
     let activationRows = (case latest of None \<Rightarrow> [] | Some i \<Rightarrow> drop i (vc_rows conversation));
         final = at_last activationRows;
         refusals = filter (\<lambda>m. am_kind m = KContentPolicyRefusal) activationRows;
         recoveries = filter (\<lambda>m. am_kind m = KModelRecovered) activationRows;
         exactFinal = (case final of None \<Rightarrow> False | Some m \<Rightarrow> isExactRecoveryNotice sha m sessionId inputId) in
     bindE (case latest of
         None \<Rightarrow> Inr None
       | Some i \<Rightarrow> bindE (physicalIndexForSource (vc_physical conversation) (vc_rows conversation ! i)) (\<lambda>k. Inr (Some k))) (\<lambda>physical.
     if refusals \<noteq> [] then
       bindE (guardE (length refusals = 1 \<and> map_option am_kind final = Some KContentPolicyRefusal)
         (PlainError ''Activation has rows after or colliding with its terminal content-policy refusal marker.'' [inputId])) (\<lambda>_.
       stable_if_settled conversation physical)
     else if covered_for inputId (rf_refusal (vc_facts conversation)) then stable_if_settled conversation physical
     else
       bindE (guardE (\<not> (recoveries \<noteq> [] \<and> \<not> exactFinal))
         (PlainError ''Interrupted activation has a recovery notice that is not its final exact canonical source row.'' [inputId])) (\<lambda>_.
       if exactFinal then
         bindE (guardE (length recoveries = 1) (PlainError ''Interrupted activation has colliding recovery notices.'' [inputId])) (\<lambda>_.
         stable_if_settled conversation physical)
       else if covered_for inputId (rf_recovery (vc_facts conversation)) then stable_if_settled conversation physical
       else
         bindE (classifyConversation api activationRows terminal (map_option cl_message (vc_unmatched conversation))) (\<lambda>state.
         if state = SettledTerminal then stable_if_settled conversation physical
         else bindE (validateCallSettlementPairs conversation physical True) (\<lambda>unmatched. Inr (Interrupted inputId unmatched)))))))"

definition plan_recovery ::
    "json_api \<Rightarrow> zod \<Rightarrow> (string \<Rightarrow> string) \<Rightarrow> string \<Rightarrow> string list \<Rightarrow> validated_conversation \<Rightarrow> error + recovery_plan" where
  "plan_recovery api z sha sessionId terminal conversation = (case at_last (vc_rounds conversation) of
     None \<Rightarrow>
       bindE (validateCallSettlementPairs conversation None False) (\<lambda>_.
       bindE (classifyConversation api (vc_rows conversation) terminal (map_option cl_message (vc_unmatched conversation))) (\<lambda>state.
       bindE (guardE (state = EmptyConversation \<or> state = SettledTerminal)
         (PlainError ''Non-clean role session has no activation marker.'' [sessionId])) (\<lambda>_. Inr Stable)))
   | Some r \<Rightarrow> plan_round api z sha sessionId terminal conversation r)"

definition stabilizeAgentSession ::
    "json_api \<Rightarrow> zod \<Rightarrow> (string \<Rightarrow> string) \<Rightarrow> (json \<Rightarrow> json) \<Rightarrow> string \<Rightarrow> string list \<Rightarrow> string \<times> string \<Rightarrow> segment_draw \<Rightarrow>
     (conversation_store, unit) op" where
  "stabilizeAgentSession api z sha redact sessionId terminal = (\<lambda>(now, later) draw.
     bindS (readConversation api z sha sessionId) (\<lambda>conversation.
     bindS (liftS (plan_recovery api z sha sessionId terminal conversation)) (\<lambda>plan. case plan of
       Stable \<Rightarrow> returnS ()
     | Interrupted inputId unmatched \<Rightarrow>
         bindS (case unmatched of
             None \<Rightarrow> returnS ()
           | Some call \<Rightarrow> appendUncertainPriorToolResult api z sha redact sessionId call Recovery now draw) (\<lambda>_.
         appendRecoveryNotice api z sha sessionId inputId later draw))))"

definition settleFinalUnmatchedCall ::
    "json_api \<Rightarrow> zod \<Rightarrow> (string \<Rightarrow> string) \<Rightarrow> (json \<Rightarrow> json) \<Rightarrow> string \<Rightarrow> string \<Rightarrow> segment_draw \<Rightarrow> (conversation_store, unit) op" where
  "settleFinalUnmatchedCall api z sha redact sessionId now draw =
     bindS (readConversation api z sha sessionId) (\<lambda>conversation. case vc_unmatched conversation of
       None \<Rightarrow> returnS ()
     | Some call \<Rightarrow> appendUncertainPriorToolResult api z sha redact sessionId call ActualUse now draw)"

end
