(* ===== verification/ConversationStability.thy ===== *)
theory ConversationStability
  imports ConversationRecovery
begin

text \<open>
  Recovery closes an interrupted session for good: after a run of \<open>stabilizeAgentSession\<close> the
  conversation is readable, no tool call is open, and another run finds nothing to do.
\<close>

section \<open>The latest activation\<close>

lemma index_of_own_id:
  assumes "distinct (map am_id rows)" and "i < length rows"
  shows "index_of_id rows (am_id (rows ! i)) = Some i"
proof -
  have "am_id (rows ! k) = am_id (rows ! i) \<longleftrightarrow> k = i" if "k < length rows" for k
    using assms that by (auto simp: distinct_conv_nth)
  then have "find (\<lambda>k. am_id (rows ! k) = am_id (rows ! i)) [0..<length rows] = Some i"
    using assms(2) by (auto simp: find_Some_iff intro!: exI [of _ i])
  then show ?thesis by (simp add: index_of_id_def)
qed

lemma validated_ids:
  assumes "rows_admissible api z sid resumed rows"
  shows "distinct (map am_id rows)"
proof -
  have "am_id (rows ! i) \<noteq> am_id (rows ! j)" if "i < j" "j < length rows" for i j
  proof -
    have "rows ! i \<in> set (take j rows)" using that by (auto simp: in_set_conv_nth intro!: exI [of _ i])
    moreover have "am_id (rows ! j) \<notin> am_id ` set (take j rows)"
      using assms that by (auto simp: rows_admissible_def row_admissible_def)
    ultimately show ?thesis by (metis image_eqI)
  qed
  then show ?thesis unfolding distinct_conv_nth by (simp add: linorder_neq_iff) (metis)
qed

text \<open>
  The plan for the last round \<open>c\<close> of a validated conversation, over its activation rows.
\<close>

definition plan_rows ::
    "json_api \<Rightarrow> (string \<Rightarrow> string) \<Rightarrow> string \<Rightarrow> string list \<Rightarrow> validated_conversation \<Rightarrow> agent_message list \<Rightarrow> nat option \<Rightarrow> string \<Rightarrow>
     error + recovery_plan" where
  "plan_rows api sha sid terminal v activationRows physical inputId =
     (let final = at_last activationRows;
          refusals = filter (\<lambda>m. am_kind m = KContentPolicyRefusal) activationRows;
          recoveries = filter (\<lambda>m. am_kind m = KModelRecovered) activationRows;
          exactFinal = (case final of None \<Rightarrow> False | Some m \<Rightarrow> isExactRecoveryNotice sha m sid inputId) in
      if refusals \<noteq> [] then
        bindE (guardE (length refusals = 1 \<and> map_option am_kind final = Some KContentPolicyRefusal)
          (PlainError ''Activation has rows after or colliding with its terminal content-policy refusal marker.'' [inputId])) (\<lambda>_.
        stable_if_settled v physical)
      else if covered_for inputId (rf_refusal (vc_facts v)) then stable_if_settled v physical
      else
        bindE (guardE (\<not> (recoveries \<noteq> [] \<and> \<not> exactFinal))
          (PlainError ''Interrupted activation has a recovery notice that is not its final exact canonical source row.'' [inputId])) (\<lambda>_.
        if exactFinal then
          bindE (guardE (length recoveries = 1) (PlainError ''Interrupted activation has colliding recovery notices.'' [inputId])) (\<lambda>_.
          stable_if_settled v physical)
        else if covered_for inputId (rf_recovery (vc_facts v)) then stable_if_settled v physical
        else
          bindE (classifyConversation api activationRows terminal (map_option cl_message (vc_unmatched v))) (\<lambda>state.
          if state = SettledTerminal then stable_if_settled v physical
          else bindE (validateCallSettlementPairs v physical True) (\<lambda>unmatched. Inr (Interrupted inputId unmatched)))))"

lemma plan_round_rows:
  assumes ids: "distinct (map am_id rows)" and v: "vc_rows v = rows" "vc_physical v = rows"
    and r: "sr_rows r = drop start rows" and start: "start \<le> length rows"
  shows "plan_round api z sha sid terminal v r = bindE (activation_input api z sid (sr_activation r))
    (plan_rows api sha sid terminal v (drop start rows) (if start = length rows then None else Some start))"
proof (cases "start = length rows")
  case True
  then have "latest_activation_index v r = Inr None" using r by (simp add: latest_activation_index_def)
  then show ?thesis using True by (cases "activation_input api z sid (sr_activation r)") (simp_all add: plan_round_def plan_rows_def Let_def)
next
  case False
  then have i: "start < length rows" using start by simp
  have "hd (sr_rows r) = rows ! start" using i r by (simp add: hd_drop_conv_nth)
  then have "latest_activation_index v r = Inr (Some start)"
    using index_of_own_id [OF ids i] i r v by (simp add: latest_activation_index_def)
  moreover have "physicalIndexForSource (vc_physical v) (vc_rows v ! start) = Inr start"
    using index_of_own_id [OF ids i] v by (simp add: physicalIndexForSource_def)
  ultimately show ?thesis using False v by (cases "activation_input api z sid (sr_activation r)") (simp_all add: plan_round_def plan_rows_def Let_def)
qed

lemma settled_Stable: "stable_if_settled v i = Inr p \<longleftrightarrow> vc_unmatched v = None \<and> p = Stable"
  by (auto simp: stable_if_settled_def validateCallSettlementPairs_def errE split: option.splits)

lemma pairs_interrupted: "validateCallSettlementPairs v i True = Inr u \<Longrightarrow> u = vc_unmatched v"
  by (auto simp: validateCallSettlementPairs_def errE split: option.splits)

lemma plan_rows_Stable: "plan_rows api sha sid terminal v xs i inputId = Inr Stable \<Longrightarrow> vc_unmatched v = None"
  by (auto simp: plan_rows_def Let_def errE settled_Stable split: if_splits)

lemma plan_rows_Interrupted:
  assumes "plan_rows api sha sid terminal v xs i inputId = Inr (Interrupted input u)"
  shows "input = inputId" and "u = vc_unmatched v" and "filter (\<lambda>m. am_kind m = KContentPolicyRefusal) xs = []"
    and "filter (\<lambda>m. am_kind m = KModelRecovered) xs = []"
  using assms by (auto simp: plan_rows_def Let_def errE settled_Stable pairs_interrupted split: if_splits)

lemma plan_rows_closed:
  assumes "filter (\<lambda>m. am_kind m = KContentPolicyRefusal) xs = []" and "filter (\<lambda>m. am_kind m = KModelRecovered) xs = []"
    and "isExactRecoveryNotice sha m sid inputId" and "vc_unmatched v = None"
  shows "plan_rows api sha sid terminal v (xs @ [m]) i inputId = Inr Stable"
proof -
  have "am_kind m = KModelRecovered" using assms(3) by (simp add: isExactRecoveryNotice_def)
  then show ?thesis using assms by (simp add: plan_rows_def Let_def settled_Stable at_last_def)
qed

text \<open>Rows that open no activation extend the last round.\<close>

lemma rounds_extended:
  assumes "rounds_of api z sid inh rows = rs @ [c]" and "\<forall>r \<in> set ys. am_kind r \<noteq> KActivity"
  shows "\<exists>c'. rounds_of api z sid inh (rows @ ys) = rs @ [c'] \<and> rc_start c' = rc_start c \<and> rc_activation c' = rc_activation c \<and>
    rc_label c' = rc_label c \<and> rc_input_id c' = rc_input_id c"
  using assms(2)
proof (induction ys rule: rev_induct)
  case (snoc y ys)
  then obtain c' where c': "rounds_of api z sid inh (rows @ ys) = rs @ [c']" "rc_start c' = rc_start c" "rc_activation c' = rc_activation c"
      "rc_label c' = rc_label c" "rc_input_id c' = rc_input_id c" by auto
  have "opening_of api z sid y = None" using snoc.prems by (simp add: opening_of_def validateActivationOpenMarker_def)
  then have "rounds_of api z sid inh ((rows @ ys) @ [y]) = rs @ [extend_round (length (rows @ ys)) (anchored api y) c']"
    unfolding rounds_of_snoc c' by (simp add: next_rounds_def)
  then show ?case using c' by (simp add: extend_round_def)
qed (use assms(1) in simp)

lemma last_round:
  assumes start: "pred_option (\<lambda>a. ia_start a = 0) inh" and valid: "validateConversation api z sid rows inh genesis = Inr v"
    and rounds: "rounds_of api z sid inh rows = rs @ [c]"
  shows "at_last (vc_rounds v) = Some (materialize_round rows (Suc (length rs)) (length rs, c))"
    and "sr_rows (materialize_round rows (Suc (length rs)) (length rs, c)) = drop (rc_start c) rows"
    and "rc_start c \<le> length rows" and "rc_activation c = Some i \<Longrightarrow> i < length rows"
proof -
  have ok: "rounds_ok api z sid rows (rs @ [c])" and vc: "vc_rounds v = map (materialize_round rows (Suc (length rs))) (enumerate 0 (rs @ [c]))"
    using validation_exact(2) [OF start valid] rounds by auto
  show "at_last (vc_rounds v) = Some (materialize_round rows (Suc (length rs)) (length rs, c))"
    unfolding vc by (simp add: enumerate_snoc at_last_def)
  from ok have c: "rc_start c \<le> rc_end c" "rc_end c = length rows" "round_ok c"
    by (auto simp: rounds_ok_def span_of_def consecutive_snoc)
  then show "rc_start c \<le> length rows" "rc_activation c = Some i \<Longrightarrow> i < length rows" by (auto simp: round_ok_def)
  show "sr_rows (materialize_round rows (Suc (length rs)) (length rs, c)) = drop (rc_start c) rows"
    using c by (simp add: materialize_round_def slice_def)
qed

lemma validated_basics:
  assumes start: "pred_option (\<lambda>a. ia_start a = 0) inh" and valid: "validateConversation api z sid rows inh genesis = Inr v"
  shows "vc_rows v = rows" and "vc_physical v = rows" and "distinct (map am_id rows)"
    and "vc_unmatched v = None \<longleftrightarrow> (\<forall>i < length rows. \<not> unanswered rows i)"
proof -
  show "vc_rows v = rows" "vc_physical v = rows" using validation_exact(2) [OF start valid] by auto
  have "accepted api z sid rows inh genesis" using validation_exact(1) [OF start] valid by blast
  then show "distinct (map am_id rows)" by (auto simp: accepted_def intro: validated_ids)
  have "vc_unmatched v = unmatched_call sid rows" using validation_exact(2) [OF start valid] by auto
  moreover have "open_calls rows = [] \<longleftrightarrow> (\<forall>i < length rows. \<not> unanswered rows i)"
  proof -
    have "set (open_calls rows) = {} \<longleftrightarrow> (\<forall>i < length rows. \<not> unanswered rows i)"
      unfolding set_eq_iff open_calls_mem by (auto simp: unanswered_def)
    then show ?thesis by simp
  qed
  ultimately show "vc_unmatched v = None \<longleftrightarrow> (\<forall>i < length rows. \<not> unanswered rows i)" by (simp add: unmatched_call_def at_last_def)
qed

lemma plan_last_round:
  assumes start: "pred_option (\<lambda>a. ia_start a = 0) inh" and valid: "validateConversation api z sid rows inh genesis = Inr v"
    and rounds: "rounds_of api z sid inh rows = rs @ [c]"
  shows "plan_recovery api z sha sid terminal v =
    bindE (activation_input api z sid (case rc_activation c of None \<Rightarrow> GenesisActivation (rc_label c) (rc_input_id c) | Some k \<Rightarrow> RowActivation (rows ! k)))
      (plan_rows api sha sid terminal v (drop (rc_start c) rows) (if rc_start c = length rows then None else Some (rc_start c)))"
proof -
  note round = last_round [OF start valid rounds]
  note basics = validated_basics [OF start valid]
  show ?thesis using plan_round_rows [OF basics(3,1,2) round(2,3)] round(1)
    by (simp add: plan_recovery_def materialize_round_def)
qed

lemma plan_no_round:
  assumes start: "pred_option (\<lambda>a. ia_start a = 0) inh" and valid: "validateConversation api z sid rows inh genesis = Inr v"
    and rounds: "rounds_of api z sid inh rows = []" and plan: "plan_recovery api z sha sid terminal v = Inr p"
  shows "p = Stable" and "vc_unmatched v = None"
proof -
  have "vc_rounds v = []" using validation_exact(2) [OF start valid] rounds by auto
  with plan show "p = Stable" "vc_unmatched v = None"
    by (auto simp: plan_recovery_def at_last_def errE validateCallSettlementPairs_def split: option.splits)
qed

lemma plan_stable_settled:
  assumes start: "pred_option (\<lambda>a. ia_start a = 0) inh" and valid: "validateConversation api z sid rows inh genesis = Inr v"
    and plan: "plan_recovery api z sha sid terminal v = Inr Stable"
  shows "vc_unmatched v = None"
proof (cases "rounds_of api z sid inh rows" rule: rev_cases)
  case Nil
  then show ?thesis using plan_no_round [OF start valid _ plan] by blast
next
  case (snoc rs c)
  then show ?thesis using plan unfolding plan_last_round [OF start valid snoc] by (auto simp: errE dest: plan_rows_Stable)
qed

lemma plan_after:
  assumes start: "pred_option (\<lambda>a. ia_start a = 0) inh" and v: "validateConversation api z sid rows inh genesis = Inr v"
    and w: "validateConversation api z sid (rows @ added @ [m]) inh genesis = Inr w"
    and added: "\<forall>r \<in> set added. am_kind r = KToolResult" and m: "isExactRecoveryNotice sha m sid input"
    and plan: "plan_recovery api z sha sid terminal v = Inr (Interrupted input u)" and closed: "vc_unmatched w = None"
  shows "plan_recovery api z sha sid terminal w = Inr Stable"
proof (cases "rounds_of api z sid inh rows" rule: rev_cases)
  case Nil
  then show ?thesis using plan_no_round [OF start v _ plan] by simp
next
  case (snoc rs c)
  have "\<forall>r \<in> set (added @ [m]). am_kind r \<noteq> KActivity" using added m by (auto simp: isExactRecoveryNotice_def)
  from rounds_extended [OF snoc this] obtain c' where c': "rounds_of api z sid inh (rows @ added @ [m]) = rs @ [c']"
      "rc_start c' = rc_start c" "rc_activation c' = rc_activation c" "rc_label c' = rc_label c" "rc_input_id c' = rc_input_id c" by auto
  let ?act = "\<lambda>rows. case rc_activation c of None \<Rightarrow> GenesisActivation (rc_label c) (rc_input_id c) | Some k \<Rightarrow> RowActivation (rows ! k)"
  have act: "?act (rows @ added @ [m]) = ?act rows"
    using last_round(4) [OF start v snoc] by (simp add: nth_append split: option.splits)
  from plan obtain inputId where inputId: "activation_input api z sid (?act rows) = Inr inputId"
      and rest: "plan_rows api sha sid terminal v (drop (rc_start c) rows) (if rc_start c = length rows then None else Some (rc_start c)) inputId =
        Inr (Interrupted input u)"
    unfolding plan_last_round [OF start v snoc] by (auto simp: errE)
  have "inputId = input" using plan_rows_Interrupted(1) [OF rest] by simp
  moreover have "plan_rows api sha sid terminal w ((drop (rc_start c) rows @ added) @ [m]) i input = Inr Stable" for i
    using plan_rows_Interrupted(3,4) [OF rest] added m closed by (intro plan_rows_closed) (auto simp: filter_empty_conv)
  moreover have "drop (rc_start c) (rows @ added @ [m]) = (drop (rc_start c) rows @ added) @ [m]"
    using last_round(3) [OF start v snoc] by simp
  ultimately show ?thesis unfolding plan_last_round [OF start w c'(1)] c' act using inputId by simp
qed

section \<open>Writing the notice\<close>

lemma session_identity: "conversationSessionIdSchema s \<Longrightarrow> \<exists>p. conversationSessionIdentity s = Inr p"
  by (auto simp: conversationSessionIdSchema_def conversationSessionIdentity_def split: list.splits)

definition names_no_prompt :: "agent_message \<Rightarrow> genesis_seed option \<Rightarrow> bool" where
  "names_no_prompt m genesis = pred_option (\<lambda>g. am_id m \<notin> am_id ` pr_message ` set (ch_prompts (cg_history g))) genesis"

lemma accepted_notice:
  assumes acc: "accepted api z sid rows inh genesis" and closed: "\<forall>i < length rows. \<not> unanswered rows i"
    and m: "am_kind m = KModelRecovered" "am_session_id m = sid" "am_id m \<notin> am_id ` set rows" "names_no_prompt m genesis"
    and sid: "conversationSessionIdSchema sid" and opened: "rows \<noteq> [] \<or> inh \<noteq> None"
  shows "accepted api z sid (rows @ [m]) inh genesis" and "\<forall>i < length (rows @ [m]). \<not> unanswered (rows @ [m]) i"
proof -
  have keys: "call_key_of m = None" "result_key_of m = None"
    using m(1) call_key_kind [of m] result_key_kind [of m] by (cases "call_key_of m", simp_all, cases "result_key_of m", simp_all)
  obtain name owner where owner: "conversationSessionIdentity sid = Inr (name, owner)" using session_identity [OF sid] by auto
  have rows: "rows_admissible api z sid (inh \<noteq> None) rows" using acc by (simp add: accepted_def)
  have "inh \<noteq> None \<or> (\<exists>r \<in> set rows. opens_round api z sid r)" if "owner = None"
  proof (cases "inh = None")
    case True
    with opened have "row_admissible api z sid (inh \<noteq> None) (butlast rows) (last rows)"
      using rows by (cases rows rule: rev_cases) (auto simp: rows_admissible_snoc)
    then show ?thesis using True that owner opened last_in_set [of rows] by (auto simp: row_admissible_def dest: in_set_butlastD)
  qed simp
  then have "row_admissible api z sid (inh \<noteq> None) rows m"
    using m keys owner by (auto simp: row_admissible_def row_readable_def validateToolCallOrParseResult_def
        validateActivationOpenMarker_def loggedToolCallIdentity_def loggedToolResultIdentity_def)
  moreover show "\<forall>i < length (rows @ [m]). \<not> unanswered (rows @ [m]) i"
    using closed keys by (auto simp: unanswered_def nth_append)
  ultimately show "accepted api z sid (rows @ [m]) inh genesis"
    using acc rows m(4) by (auto simp: accepted_def rows_admissible_snoc prompts_disjoint_def names_no_prompt_def pred_option_def)
qed

lemma current_mend:
  "current_segment api z sha st sid doc seg \<Longrightarrow> current_segment api z sha (mend sid doc seg st) sid (doc\<lparr>sf_torn := False\<rparr>) seg"
  by (auto simp: current_segment_def mend_def)

lemma read_again: "readConversation api z sha sid st = (Inr v, st') \<Longrightarrow> readConversation api z sha sid st' = (Inr v, st')"
proof -
  assume "readConversation api z sha sid st = (Inr v, st')"
  then consider (segment) doc seg where "current_segment api z sha st sid doc seg" "st' = mend sid doc seg st" "v = se_conversation seg"
    | (empty) "readSegment api z sha sid None st = (Inr None, st')" "validateConversation api z sid [] None None = Inr v"
    unfolding readConversation_Inr by blast
  then show ?thesis
  proof cases
    case segment
    have "mend sid (doc\<lparr>sf_torn := False\<rparr>) seg st' = st'" by (simp add: mend_def)
    with segment current_mend [OF segment(1)] show ?thesis unfolding readConversation_Inr by metis
  next
    case empty
    then show ?thesis unfolding readConversation_Inr by (auto simp: readSegment_None)
  qed
qed

lemma built_result:
  "buildToolResultMessage api z sha r f now = Inr m \<Longrightarrow> am_kind m = KToolResult \<and> am_session_id m = sl_session_id r"
  by (auto simp: buildToolResultMessage_def parse_message_def split: if_splits)

lemma tool_result_appends:
  assumes "appendToolResult api z sha redact r now draw st = (Inr f, st')"
  shows "\<exists>m. am_kind m = KToolResult \<and> am_session_id m = sl_session_id r \<and> appendConversationBatch api z sha [m] draw st = (Inr (), st')"
  using assms by (auto simp: appendToolResult_def buildSettledToolResult_def errE dest: built_result)

lemma uncertain_appends:
  assumes "appendUncertainPriorToolResult api z sha redact sid call context now draw st = (Inr u, st')"
  shows "\<exists>m. am_kind m = KToolResult \<and> am_session_id m = sid \<and> appendConversationBatch api z sha [m] draw st = (Inr (), st')"
  using assms
  by (auto simp: appendUncertainPriorToolResult_def Let_def errE split: row_policy.splits option.splits dest!: tool_result_appends)

lemma notice_exact: "isExactRecoveryNotice sha (recovery_notice sha sid input now) sid input"
  by (simp add: isExactRecoveryNotice_def recovery_notice_def)

lemma notice_closes:
  assumes seg: "current_segment api z sha st sid doc seg" and closed: "\<forall>i < length (se_rows seg). \<not> unanswered (se_rows seg) i"
    and opened: "se_rows seg \<noteq> [] \<or> inherited_seed (gn_kind (se_genesis seg)) \<noteq> None"
    and prompts: "names_no_prompt (recovery_notice sha sid input now) (compacted_seed (se_genesis seg))"
    and run: "appendRecoveryNotice api z sha sid input now draw st = (Inr u, st')"
  shows "\<exists>w. readConversation api z sha sid st' = (Inr w, st') \<and> vc_unmatched w = None \<and>
    validateConversation api z sid (se_rows seg @ [recovery_notice sha sid input now])
      (inherited_seed (gn_kind (se_genesis seg))) (compacted_seed (se_genesis seg)) = Inr w"
proof -
  let ?m = "recovery_notice sha sid input now"
  let ?inh = "inherited_seed (gn_kind (se_genesis seg))" and ?gen = "compacted_seed (se_genesis seg)"
  from run have append: "appendConversationBatch api z sha [?m] draw st = (Inr u, st')" and "agentMessageSchema api z sha ?m"
    by (auto simp: appendRecoveryNotice_def parse_message_def errE split: if_splits)
  then have sid: "conversationSessionIdSchema sid" by (simp add: agentMessageSchema_def recovery_notice_def)
  have m: "am_kind ?m = KModelRecovered" "am_session_id ?m = sid" by (simp_all add: recovery_notice_def)
  have "accepted api z sid (se_rows seg) ?inh ?gen"
    using validation_exact(1) [OF inherited_start] current_conversation(1) [OF seg] by blast
  moreover have "am_id ?m \<notin> am_id ` set (se_rows seg)" using append_fresh [OF seg _ append] m by simp
  ultimately have acc: "accepted api z sid (se_rows seg @ [?m]) ?inh ?gen" "\<forall>i < length (se_rows seg @ [?m]). \<not> unanswered (se_rows seg @ [?m]) i"
    using accepted_notice [OF _ closed m _ prompts sid opened] by blast+
  then obtain w where w: "validateConversation api z sid (se_rows seg @ [?m]) ?inh ?gen = Inr w"
    using validation_exact(1) [OF inherited_start] by blast
  moreover have "vc_unmatched w = None" using validated_basics(4) [OF inherited_start w] acc(2) by blast
  moreover have "readConversation api z sha sid st' = (Inr w, st')" using append_current [OF seg _ append] w m by simp
  ultimately show ?thesis by blast
qed

section \<open>Recovery runs\<close>

lemma validated_segment:
  assumes read: "readConversation api z sha sid st = (Inr v, st1)" and rounds: "plan_recovery api z sha sid terminal v \<noteq> Inr Stable"
    and plan: "plan_recovery api z sha sid terminal v = Inr p"
  shows "\<exists>doc seg. current_segment api z sha st1 sid doc seg \<and> v = se_conversation seg \<and>
    (se_rows seg \<noteq> [] \<or> inherited_seed (gn_kind (se_genesis seg)) \<noteq> None)"
  using read unfolding readConversation_Inr
proof (elim disjE exE conjE)
  assume "validateConversation api z sid [] None None = Inr v"
  then have "p = Stable" using plan_no_round(1) [of None, OF _ _ _ plan] by (simp add: rounds_of_def)
  with rounds plan show ?thesis by simp
next
  fix doc seg
  assume seg: "current_segment api z sha st sid doc seg" "st1 = mend sid doc seg st" "v = se_conversation seg"
  have "rounds_of api z sid (inherited_seed (gn_kind (se_genesis seg))) (se_rows seg) \<noteq> []"
    using plan_no_round(1) [OF inherited_start current_conversation(1) [OF seg(1)] _ plan [unfolded seg(3)]] rounds plan by auto
  then have "se_rows seg \<noteq> [] \<or> inherited_seed (gn_kind (se_genesis seg)) \<noteq> None" by (auto simp: rounds_of_def split: option.splits)
  with seg current_mend [OF seg(1)] show ?thesis by blast
qed

lemma settled_before_notice:
  assumes seg: "current_segment api z sha st sid doc seg" and last: "am_kind (last (se_rows seg)) = KToolResult" "se_rows seg \<noteq> []"
  shows "\<forall>i < length (se_rows seg). \<not> unanswered (se_rows seg) i"
proof -
  have "accepted api z sid (se_rows seg) (inherited_seed (gn_kind (se_genesis seg))) (compacted_seed (se_genesis seg))"
    using validation_exact(1) [OF inherited_start] current_conversation(1) [OF seg] by blast
  then have final: "\<forall>i < length (se_rows seg). unanswered (se_rows seg) i \<longrightarrow> Suc i = length (se_rows seg)" by (simp add: accepted_def)
  have "\<not> unanswered (se_rows seg) i" if "Suc i = length (se_rows seg)" for i
  proof -
    have "se_rows seg ! i = last (se_rows seg)" using that last(2) by (metis diff_Suc_1 last_conv_nth)
    then show ?thesis using last(1) call_key_kind by (auto simp: unanswered_def)
  qed
  with final show ?thesis by blast
qed

lemma ends_with_suffix: "ends_with p (s @ p)"
  by (simp add: ends_with_def starts_with_def)

lemma seed_prompts: "vc_history (se_conversation seg) = map_option cg_history (compacted_seed (se_genesis seg)) \<Longrightarrow>
   pred_option (\<lambda>h. \<forall>e \<in> set (ch_prompts h). \<not> ends_with '':model-recovered'' (am_id (pr_message e))) (vc_history (se_conversation seg)) \<Longrightarrow>
   names_no_prompt (recovery_notice sha sid input now) (compacted_seed (se_genesis seg))"
  using ends_with_suffix [of "'':model-recovered''" input] by (fastforce simp: names_no_prompt_def pred_option_def recovery_notice_def)

lemma plan_unmatched:
  assumes start: "pred_option (\<lambda>a. ia_start a = 0) inh" and valid: "validateConversation api z sid rows inh genesis = Inr v"
    and plan: "plan_recovery api z sha sid terminal v = Inr (Interrupted input u)"
  shows "u = vc_unmatched v"
proof (cases "rounds_of api z sid inh rows" rule: rev_cases)
  case Nil
  then show ?thesis using plan_no_round(1) [OF start valid _ plan] by simp
next
  case (snoc rs c)
  then show ?thesis using plan unfolding plan_last_round [OF start valid snoc] by (auto simp: errE dest: plan_rows_Interrupted(2))
qed

lemma settled_then_current:
  assumes seg: "current_segment api z sha st sid doc seg" and first: "appendConversationBatch api z sha ms draw st = (Inr u, st2)"
    and ms: "am_session_id (hd ms) = sid" and second: "appendConversationBatch api z sha ns draw' st2 = (Inr u', st3)" and ns: "am_session_id (hd ns) = sid"
  shows "\<exists>doc2 seg2. current_segment api z sha st2 sid doc2 seg2 \<and> se_genesis seg2 = se_genesis seg \<and> se_rows seg2 = se_rows seg @ ms"
proof -
  from append_reads [OF second] ns obtain found st4 where found: "readSegment api z sha sid None st2 = (Inr found, st4)" by auto
  have "readSegment api z sha sid None st2 \<noteq> (Inr None, st4)"
    using append_stored(1) [OF seg ms [symmetric] first] seg by (auto simp: readSegment_None current_segment_def at_last_def)
  then have "found \<noteq> None" using found by metis
  with found obtain doc2 seg2 where "current_segment api z sha st2 sid doc2 seg2" by (auto simp: readSegment_Some)
  with append_next [OF seg ms [symmetric] first this] show ?thesis by blast
qed

lemma interrupted_closes:
  assumes seg: "current_segment api z sha st sid doc seg" "se_rows seg \<noteq> [] \<or> inherited_seed (gn_kind (se_genesis seg)) \<noteq> None"
    and prompts: "names_no_prompt (recovery_notice sha sid input later) (compacted_seed (se_genesis seg))"
    and settle: "(case vc_unmatched (se_conversation seg) of None \<Rightarrow> returnS ()
        | Some call \<Rightarrow> appendUncertainPriorToolResult api z sha redact sid call Recovery now draw) st = (Inr u, st2)"
    and notice: "appendRecoveryNotice api z sha sid input later draw st2 = (Inr u', st')"
  shows "\<exists>w added. readConversation api z sha sid st' = (Inr w, st') \<and> vc_unmatched w = None \<and> (\<forall>r \<in> set added. am_kind r = KToolResult) \<and>
    (added = [] \<longleftrightarrow> vc_unmatched (se_conversation seg) = None) \<and> length added \<le> 1 \<and>
    validateConversation api z sid (se_rows seg @ added @ [recovery_notice sha sid input later])
      (inherited_seed (gn_kind (se_genesis seg))) (compacted_seed (se_genesis seg)) = Inr w"
proof (cases "vc_unmatched (se_conversation seg)")
  case None
  then have "\<forall>i < length (se_rows seg). \<not> unanswered (se_rows seg) i"
    using validated_basics(4) [OF inherited_start current_conversation(1) [OF seg(1)]] by simp
  moreover have "st2 = st" using settle None by (simp add: returnS_iff)
  ultimately show ?thesis using notice_closes [OF seg(1) _ seg(2) prompts] notice None by (intro exI [of _ "[]"] | fastforce)+
next
  case (Some call)
  with settle obtain m where m: "am_kind m = KToolResult" "am_session_id m = sid" "appendConversationBatch api z sha [m] draw st = (Inr (), st2)"
    by (auto dest: uncertain_appends)
  from notice have second: "appendConversationBatch api z sha [recovery_notice sha sid input later] draw st2 = (Inr u', st')"
    by (auto simp: appendRecoveryNotice_def parse_message_def errE split: if_splits)
  obtain doc2 seg2 where seg2: "current_segment api z sha st2 sid doc2 seg2" "se_genesis seg2 = se_genesis seg" "se_rows seg2 = se_rows seg @ [m]"
    using settled_then_current [OF seg(1) m(3) _ second] m(2) by (auto simp: recovery_notice_def)
  have "\<forall>i < length (se_rows seg2). \<not> unanswered (se_rows seg2) i"
    using seg2(3) m(1) by (intro settled_before_notice [OF seg2(1)]) auto
  from notice_closes [OF seg2(1) this _ _ notice] seg2(2,3) prompts
  obtain w where "readConversation api z sha sid st' = (Inr w, st')" "vc_unmatched w = None"
      "validateConversation api z sid (se_rows seg @ [m] @ [recovery_notice sha sid input later])
        (inherited_seed (gn_kind (se_genesis seg))) (compacted_seed (se_genesis seg)) = Inr w" by auto
  then show ?thesis using m(1) Some by (intro exI [of _ w] exI [of _ "[m]"]) auto
qed

lemma recovery_closes:
  assumes read: "readConversation api z sha sid st = (Inr v, st1)"
    and prompts: "pred_option (\<lambda>h. \<forall>e \<in> set (ch_prompts h). \<not> ends_with '':model-recovered'' (am_id (pr_message e))) (vc_history v)"
    and run: "stabilizeAgentSession api z sha redact sid terminal (now, later) draw st = (Inr u, st')"
  shows "\<exists>w added. readConversation api z sha sid st' = (Inr w, st') \<and> vc_unmatched w = None \<and>
    plan_recovery api z sha sid terminal w = Inr Stable \<and> vc_rows w = vc_rows v @ added \<and>
    (added = [] \<or> map am_kind added = (if vc_unmatched v = None then [KModelRecovered] else [KToolResult, KModelRecovered]))"
proof -
  from run read obtain p where plan: "plan_recovery api z sha sid terminal v = Inr p"
    by (auto simp: stabilizeAgentSession_def errE)
  show ?thesis
  proof (cases p)
    case Stable
    have "st' = st1" using run read plan Stable by (auto simp: stabilizeAgentSession_def returnS_iff)
    moreover have "vc_unmatched v = None"
      using read plan_stable_settled [OF inherited_start current_conversation(1)] plan_stable_settled [of None] plan Stable
      unfolding readConversation_Inr by auto
    ultimately show ?thesis using read_again [OF read] plan Stable by (intro exI [of _ v] exI [of _ "[]"]) simp
  next
    case (Interrupted input un)
    then obtain doc seg where seg: "current_segment api z sha st1 sid doc seg" "v = se_conversation seg"
        "se_rows seg \<noteq> [] \<or> inherited_seed (gn_kind (se_genesis seg)) \<noteq> None"
      using validated_segment [OF read _ plan] plan by auto
    note valid = current_conversation(1) [OF seg(1), folded seg(2)]
    have un: "un = vc_unmatched v" using plan_unmatched [OF inherited_start valid] plan Interrupted by simp
    from run read plan Interrupted obtain u1 st2 where
        "(case un of None \<Rightarrow> returnS ()
          | Some call \<Rightarrow> appendUncertainPriorToolResult api z sha redact sid call Recovery now draw) st1 = (Inr u1, st2)"
        and notice: "appendRecoveryNotice api z sha sid input later draw st2 = (Inr u, st')"
      by (auto simp: stabilizeAgentSession_def bindS_Inr_iff [of "case un of None \<Rightarrow> _ | Some x \<Rightarrow> _ x"])
    then have settle: "(case vc_unmatched (se_conversation seg) of None \<Rightarrow> returnS ()
          | Some call \<Rightarrow> appendUncertainPriorToolResult api z sha redact sid call Recovery now draw) st1 = (Inr u1, st2)"
      using un seg(2) by simp
    have "names_no_prompt (recovery_notice sha sid input later) (compacted_seed (se_genesis seg))"
      using prompts validation_exact(2) [OF inherited_start valid] unfolding seg(2) by (intro seed_prompts) auto
    from interrupted_closes [OF seg(1,3) this settle notice] obtain w added where w: "readConversation api z sha sid st' = (Inr w, st')"
        "vc_unmatched w = None" "\<forall>r \<in> set added. am_kind r = KToolResult" "added = [] \<longleftrightarrow> vc_unmatched v = None" "length added \<le> 1"
        "validateConversation api z sid (se_rows seg @ added @ [recovery_notice sha sid input later])
          (inherited_seed (gn_kind (se_genesis seg))) (compacted_seed (se_genesis seg)) = Inr w"
      using seg(2) by auto
    have "plan_recovery api z sha sid terminal w = Inr Stable"
      using plan_after [OF inherited_start valid w(6) w(3) notice_exact] plan Interrupted w(2) by auto
    moreover have "vc_rows w = vc_rows v @ added @ [recovery_notice sha sid input later]"
      using validated_basics(1) [OF inherited_start w(6)] current_rows [OF seg(1)] seg(2) by simp
    moreover have "map am_kind (added @ [recovery_notice sha sid input later]) =
        (if vc_unmatched v = None then [KModelRecovered] else [KToolResult, KModelRecovered])"
      using w(3-5) by (cases added) (auto simp: recovery_notice_def)
    ultimately show ?thesis using w(1,2) by blast
  qed
qed

lemma recovery_idle:
  assumes "readConversation api z sha sid st = (Inr w, st)" and "plan_recovery api z sha sid terminal w = Inr Stable"
  shows "stabilizeAgentSession api z sha redact sid terminal clock draw st = (Inr (), st)"
  using assms by (cases clock) (simp add: stabilizeAgentSession_def returnS_def)

end
