(* ===== verification/ConversationProperties.thy ===== *)
theory ConversationProperties
  imports ConversationStability
begin

text \<open>
  Properties of conversations: what the validation accepts and how it partitions the rows, what
  is read back after an append and a compaction, and that recovery settles a session. The
  session \<open>talk\<close> of a planner on the project card is their instance.
\<close>

section \<open>A small session\<close>

definition talk :: string where
  "talk = ''agent:planner:project''"

definition talk_uuid :: "char \<Rightarrow> string" where
  "talk_uuid c = ''00000000-0000-4000-8000-00000000000'' @ [c]"

definition talk_digest :: string where
  "talk_digest = replicate 64 CHR ''a''"

definition talk_sha :: "string \<Rightarrow> string" where
  "talk_sha s = talk_digest"

definition talk_zod :: zod where
  "talk_zod = \<lparr>datetime = (\<lambda>s. s \<noteq> []), uuid = (\<lambda>s. length s = 36)\<rparr>"

definition talk_failure :: json where
  "talk_failure = JObj [(''data'', JObj [(''outcome_unknown'', JBool True)]), (''error'', JStr (uncertain_text Recovery)),
     (''success'', JBool False)]"

definition talk_marker_json :: json where
  "talk_marker_json = JObj [(''event'', JStr ''activation_open''), (''agent_name'', JStr ''planner''),
     (''input_id'', JStr (talk_uuid CHR ''1'')), (''timestamp'', JStr ''t0''), (''card_id'', JStr ''project''),
     (''instructions'', JObj [(''kind'', JStr ''unavailable''), (''reason'', JStr ''not_recorded'')])]"

definition talk_call_json :: json where
  "talk_call_json = JObj [(''tool_calls'', JArr [JObj [(''id'', JStr ''c1''), (''type'', JStr ''function''),
     (''function'', JObj [(''name'', JStr ''run''), (''arguments'', JStr ''{}'')])]])]"

text \<open>An interpreter of JSON that knows the texts of the session.\<close>

definition talk_texts :: "(string \<times> json) list" where
  "talk_texts = [(''marker'', talk_marker_json), (''call'', talk_call_json), (''failure'', talk_failure)]"

definition talk_api :: json_api where
  "talk_api = \<lparr>json_parse = map_of talk_texts, json_stringify = (\<lambda>v. if v = talk_failure then ''failure'' else ''template''),
     js_divide = (\<lambda>a b. a / b)\<rparr>"

definition talk_row :: "string \<Rightarrow> message_role \<Rightarrow> message_kind \<Rightarrow> string \<Rightarrow> row_policy \<Rightarrow> agent_message" where
  "talk_row i role kind content policy = \<lparr>am_id = i, am_session_id = talk, am_role = role, am_kind = kind, am_content = content,
     am_policy = policy, am_round_id = ''r-user-'' @ replicate 32 CHR ''0'', am_message_index = 0, am_block_index = 0,
     am_tool = None, am_tool_call_id = None, am_timestamp = ''t0'', am_links = None, am_model_spec = None,
     am_requested_model_spec = None, am_projection = None, am_workflow_prompt = False, am_observations = None, am_record_prompt = None\<rparr>"

definition talk_marker :: agent_message where
  "talk_marker = talk_row ''m0'' SystemRole KActivity ''marker'' (StructuralPolicy ActivationBoundary)"

definition talk_prompt :: agent_message where
  "talk_prompt = talk_row ''m1'' UserRole KText ''Do it.'' (durablePrimaryContentPolicy False (Some ''work''))"

definition talk_call :: agent_message where
  "talk_call = (talk_row (talk_uuid CHR ''1'' @ '':tool-call:c1'') AssistantRole KToolCall ''call''
     (ToolCallPolicy \<lparr>pt_replacement = TemplateRetain, pt_audience = PrimaryAndSummarizer, pt_evidence_mode = ModeNone\<rparr> ''template'' talk_digest))
     \<lparr>am_tool := Some ''run'', am_tool_call_id := Some ''c1''\<rparr>"

definition talk_result :: agent_message where
  "talk_result = (talk_row (talk_uuid CHR ''1'' @ '':tool-result:c1'') ToolRole KToolResult ''failure''
     (ToolResultPolicy ExecutionFailed talk_digest talk_digest SettledNone))
     \<lparr>am_tool := Some ''run'', am_tool_call_id := Some ''c1''\<rparr>"

definition talk_filename :: string where
  "talk_filename = ''1-'' @ talk_uuid CHR ''2'' @ ''.jsonl''"

definition talk_entry :: version_entry where
  "talk_entry = \<lparr>ve_entry_id = talk_uuid CHR ''3'', ve_version = 1, ve_filename = talk_filename, ve_created_at = ''t0'', ve_genesis = OrdinaryEntry\<rparr>"

definition talk_index :: version_index where
  "talk_index = \<lparr>vi_session_id = talk, vi_created_at = ''t0'', vi_versions = [talk_entry], vi_current_version = Some 1,
     vi_current_filename = Some talk_filename\<rparr>"

definition talk_genesis :: segment_genesis where
  "talk_genesis = \<lparr>gn_id = talk_uuid CHR ''4'', gn_entry_id = talk_uuid CHR ''3'', gn_session_id = talk, gn_segment_version = 1,
     gn_timestamp = ''t0'', gn_kind = OrdinaryGenesis\<rparr>"

definition talk_store :: "agent_message list \<Rightarrow> conversation_store" where
  "talk_store rows = \<lparr>cs_indexes = [talk \<mapsto> talk_index], cs_previous = Map.empty,
     cs_segments = [(talk, talk_filename) \<mapsto> \<lparr>sf_envelopes = [GenesisRow talk_genesis # map MessageRow rows], sf_torn = False\<rparr>],
     cs_effects = []\<rparr>"

definition talk_draw :: segment_draw where
  "talk_draw = \<lparr>sd_entry_id = talk_uuid CHR ''5'', sd_file_id = talk_uuid CHR ''6'', sd_genesis_id = talk_uuid CHR ''7'', sd_now = ''t1''\<rparr>"

section \<open>Validation\<close>

text \<open>
  (C9) The validation of a segment accepts exactly the rows that the specification \<open>accepted\<close>
  allows: every row belongs to the session, has a fresh identity and readable content, a call is
  new, a result answers one earlier open call of the same tool under the policy and with the
  evidence the call declared, only the last row may be an unanswered call, a global session
  starts with an activation, and a compacted seed is self-contained and disjoint from the rows.
\<close>

theorem conversation_validation_exact:
  "(\<exists>v. validateConversation api z sid rows (inherited_seed k) genesis = Inr v) \<longleftrightarrow> accepted api z sid rows (inherited_seed k) genesis"
  by (rule validation_exact(1) [OF inherited_start])

definition row_activations :: "source_round list \<Rightarrow> agent_message list" where
  "row_activations rounds = concat (map (\<lambda>r. case sr_activation r of RowActivation m \<Rightarrow> [m] | GenesisActivation _ _ \<Rightarrow> []) rounds)"

lemma rounds_cover:
  assumes "rounds_ok api z sid rows rounds"
  shows "take (case rounds of [] \<Rightarrow> length rows | r # _ \<Rightarrow> rc_start r) rows @
    concat (map sr_rows (map (materialize_round rows n) (enumerate 0 rounds))) = rows"
proof (cases rounds)
  case (Cons r rs)
  have "map sr_rows (map (materialize_round rows n) (enumerate k cs)) = map (\<lambda>(s, e). slice s e rows) (map span_of cs)" for k cs
    by (induction cs arbitrary: k) (simp_all add: materialize_round_def span_of_def)
  then have "concat (map sr_rows (map (materialize_round rows n) (enumerate 0 rounds))) = concat (map (\<lambda>(s, e). slice s e rows) (map span_of rounds))"
    by (simp only:)
  also have "\<dots> = slice (rc_start r) (length rows) rows"
    by (rule consecutive_slices) (use assms Cons in \<open>simp add: rounds_ok_def\<close>)
  finally show ?thesis using Cons by (simp add: slice_def)
qed simp

lemma rounds_segments:
  assumes "rounds_ok api z sid rows rounds" and "r \<in> set (map (materialize_round rows n) (enumerate 0 rounds))"
  shows "concat (map ss_rows (sr_segments r)) = sr_rows r"
proof -
  obtain i c where c: "(i, c) \<in> set (enumerate 0 rounds)" "r = materialize_round rows n (i, c)" using assms(2) by auto
  have "c \<in> set rounds" using c(1) by (simp add: in_set_enumerate_eq) (metis nth_mem)
  then have "round_ok c" using assms(1) by (simp add: rounds_ok_def)
  then have "concat (map (\<lambda>(s, e). slice s e rows) (map (\<lambda>g. (sg_start g, sg_end g)) (rc_segments c))) = slice (rc_start c) (rc_end c) rows"
    by (intro consecutive_slices) (simp add: round_ok_def)
  then show ?thesis unfolding c(2) by (simp add: materialize_round_def comp_def)
qed

lemma rounds_activations:
  assumes "rounds_ok api z sid rows rounds"
  shows "row_activations (map (materialize_round rows n) (enumerate 0 rounds)) = filter (opens_round api z sid) rows"
proof -
  have "row_activations (map (materialize_round rows n) (enumerate k cs)) = map ((!) rows) (activations cs)" for k cs
    by (induction cs arbitrary: k) (auto simp: row_activations_def materialize_round_def activations_def split: option.splits)
  then have "row_activations (map (materialize_round rows n) (enumerate 0 rounds)) =
      map ((!) rows) (filter (\<lambda>i. opens_round api z sid (rows ! i)) [0..<length rows])"
    using assms by (simp add: rounds_ok_def)
  also have "\<dots> = filter (opens_round api z sid) (map ((!) rows) [0..<length rows])" by (simp add: filter_map comp_def)
  finally show ?thesis by (simp add: map_nth)
qed

text \<open>
  (C13) A validated conversation partitions its rows: the preamble and the rounds in order are the
  rows, the segments of a round are its rows, exactly the last round is open, the rows that open
  rounds are the activation markers among the rows, and the unmatched call is reported exactly
  when a call has no result.
\<close>

theorem conversation_partition:
  assumes "validateConversation api z sid rows (inherited_seed k) genesis = Inr v"
  shows "vc_preamble v @ concat (map sr_rows (vc_rounds v)) = rows \<and>
    (\<forall>r \<in> set (vc_rounds v). concat (map ss_rows (sr_segments r)) = sr_rows r) \<and>
    (\<forall>i < length (vc_rounds v). sr_open (vc_rounds v ! i) = (Suc i = length (vc_rounds v))) \<and>
    row_activations (vc_rounds v) = filter (opens_round api z sid) rows \<and>
    (vc_unmatched v = None \<longleftrightarrow> (\<forall>i < length rows. \<not> unanswered rows i))"
proof -
  from validation_exact(2) [OF inherited_start assms] obtain rounds where v: "rounds_ok api z sid rows rounds"
      "vc_preamble v = take (case rounds of [] \<Rightarrow> length rows | r # _ \<Rightarrow> rc_start r) rows"
      "vc_rounds v = map (materialize_round rows (length rounds)) (enumerate 0 rounds)" by blast
  show ?thesis
  proof (intro conjI)
    show "\<forall>i < length (vc_rounds v). sr_open (vc_rounds v ! i) = (Suc i = length (vc_rounds v))"
      unfolding v(3) by (simp add: materialize_round_def nth_enumerate_eq)
  qed (use v rounds_cover rounds_segments rounds_activations validated_basics(4) [OF inherited_start assms] in \<open>auto simp del: map_map\<close>)
qed

lemma talk_valid:
  "case validateConversation talk_api talk_zod talk [talk_marker, talk_prompt] None None of
     Inl e \<Rightarrow> False
   | Inr v \<Rightarrow> plan_recovery talk_api talk_zod talk_sha talk [] v = Inr (Interrupted (talk_uuid CHR ''1'') None) \<and> vc_history v = None \<and>
       length (vc_rounds v) = 1"
  by code_simp

lemma talk_validates:
  obtains v where "validateConversation talk_api talk_zod talk [talk_marker, talk_prompt] None None = Inr v"
    "plan_recovery talk_api talk_zod talk_sha talk [] v = Inr (Interrupted (talk_uuid CHR ''1'') None)" "vc_history v = None" "length (vc_rounds v) = 1"
  using talk_valid by (auto split: sum.splits)

theorem conversation_partition_witness:
  "\<exists>v. validateConversation talk_api talk_zod talk [talk_marker, talk_prompt] (inherited_seed OrdinaryGenesis) None = Inr v \<and>
     length (vc_rounds v) = 1 \<and> vc_preamble v @ concat (map sr_rows (vc_rounds v)) = [talk_marker, talk_prompt]"
proof -
  obtain v where v: "validateConversation talk_api talk_zod talk [talk_marker, talk_prompt] (inherited_seed OrdinaryGenesis) None = Inr v"
      "length (vc_rounds v) = 1" using talk_validates by auto
  then show ?thesis using conversation_partition [OF v(1)] by blast
qed

section \<open>Appending\<close>

lemma read_seeded:
  assumes "readConversation api z sha sid st = (Inr v, st0)"
  shows "\<exists>k genesis. validateConversation api z sid (vc_rows v) (inherited_seed k) genesis = Inr v \<and>
    ((\<exists>doc seg. current_segment api z sha st sid doc seg \<and> k = gn_kind (se_genesis seg) \<and> genesis = compacted_seed (se_genesis seg) \<and>
        se_rows seg = vc_rows v) \<or>
     (readSegment api z sha sid None st = (Inr None, st) \<and> k = OrdinaryGenesis \<and> genesis = None \<and> vc_rows v = []))"
  using assms unfolding readConversation_Inr
proof (elim disjE exE conjE)
  fix doc seg
  assume seg: "current_segment api z sha st sid doc seg" "v = se_conversation seg"
  with current_rows [OF seg(1)] current_conversation(1) [OF seg(1)] show ?thesis by metis
next
  assume none: "readSegment api z sha sid None st = (Inr None, st0)" and v: "validateConversation api z sid [] None None = Inr v"
  have "vc_rows v = []" using v empty_validates [of api z sid] by auto
  with none v show ?thesis by (intro exI [of _ OrdinaryGenesis] exI [of _ None]) (auto simp: readSegment_None)
qed

text \<open>
  (C12) What an append does to a session: the next read returns the rows before it followed by
  the batch, with the same compacted history, and changes nothing on disk. It fails only when the
  extended rows are not acceptable, since an append checks the batch and its identities but not
  the conversation it extends.
\<close>

theorem append_read_back:
  assumes run: "appendConversationBatch api z sha ms draw st = (Inr u, st')"
    and before: "readConversation api z sha (am_session_id (hd ms)) st = (Inr v, st0)"
    and drawn: "uuidV4Schema (sd_genesis_id draw)"
  shows "\<exists>k genesis. validateConversation api z (am_session_id (hd ms)) (vc_rows v) (inherited_seed k) genesis = Inr v \<and>
    ((\<exists>w. readConversation api z sha (am_session_id (hd ms)) st' = (Inr w, st')) \<longleftrightarrow>
       accepted api z (am_session_id (hd ms)) (vc_rows v @ ms) (inherited_seed k) genesis) \<and>
    (\<forall>w st''. readConversation api z sha (am_session_id (hd ms)) st' = (Inr w, st'') \<longrightarrow>
       st'' = st' \<and> vc_rows w = vc_rows v @ ms \<and> vc_history w = vc_history v)"
proof -
  let ?sid = "am_session_id (hd ms)"
  from read_seeded [OF before] obtain k genesis where valid: "validateConversation api z ?sid (vc_rows v) (inherited_seed k) genesis = Inr v"
    and store: "(\<exists>doc seg. current_segment api z sha st ?sid doc seg \<and> k = gn_kind (se_genesis seg) \<and> genesis = compacted_seed (se_genesis seg) \<and>
        se_rows seg = vc_rows v) \<or>
     (readSegment api z sha ?sid None st = (Inr None, st) \<and> k = OrdinaryGenesis \<and> genesis = None \<and> vc_rows v = [])" by blast
  have read: "readConversation api z sha ?sid st' = (Inr w, st'') \<longleftrightarrow>
      validateConversation api z ?sid (vc_rows v @ ms) (inherited_seed k) genesis = Inr w \<and> st'' = st'" for w st''
    using store
  proof (elim disjE exE conjE)
    fix doc seg
    assume seg: "current_segment api z sha st ?sid doc seg" "k = gn_kind (se_genesis seg)" "genesis = compacted_seed (se_genesis seg)"
      "se_rows seg = vc_rows v"
    show ?thesis using append_current [OF seg(1) refl run, of w st''] unfolding seg(2-4) .
  next
    assume none: "readSegment api z sha ?sid None st = (Inr None, st)" "k = OrdinaryGenesis" "genesis = None" "vc_rows v = []"
    show ?thesis using append_first [OF none(1) refl drawn run, of w st''] unfolding none(2-4) by simp
  qed
  have "(\<exists>w. readConversation api z sha ?sid st' = (Inr w, st')) \<longleftrightarrow> accepted api z ?sid (vc_rows v @ ms) (inherited_seed k) genesis"
    unfolding read using validation_exact(1) [OF inherited_start] by simp
  moreover have "vc_rows w = vc_rows v @ ms \<and> vc_history w = vc_history v"
    if "validateConversation api z ?sid (vc_rows v @ ms) (inherited_seed k) genesis = Inr w" for w
    using validation_exact(2) [OF inherited_start that] validation_exact(2) [OF inherited_start valid] by auto
  ultimately show ?thesis using valid read by blast
qed

section \<open>Compaction\<close>

text \<open>
  (C11) A compaction that succeeds is what the next read returns: the rows after the cutoff under
  the new history. The compacted segment stays readable as the version before it.
\<close>

theorem compaction_read_back:
  assumes run: "publishCompactedConversationSegment api z sha sid cp st = (Inr w, st')"
    and before: "readConversation api z sha sid st = (Inr v, st0)"
    and drawn: "uuidV4Schema (cp_genesis_id cp)" "compactedHistorySchema api z sha (cp_history cp)"
      "conversationContinuationSchema (cp_continuation cp)"
  shows "readConversation api z sha sid st' = (Inr w, st') \<and> vc_rows w = drop (Suc (cp_cutoff_index cp)) (vc_rows v) \<and>
    vc_history w = Some (cp_history cp) \<and>
    (\<exists>seg. readHistoricalConversationSegment api z sha sid (cp_segment_version cp - 1) st' = (Inr seg, st') \<and> se_conversation seg = v)"
proof -
  from compaction_run [OF run] obtain doc seg g ix where c: "current_segment api z sha st sid doc seg" "compacted_successor z sid seg cp = Inr (g, ix)"
      "validateConversation api z sid (drop (Suc (cp_cutoff_index cp)) (se_rows seg)) (inherited_seed (gn_kind g)) (compacted_seed g) = Inr w" by blast
  have "readConversation api z sha sid st = (Inr (se_conversation seg), mend sid doc seg st)" unfolding readConversation_Inr using c(1) by blast
  with before have v: "vc_rows v = se_rows seg" using current_rows [OF c(1)] by simp
  have g: "map_option cg_history (compacted_seed g) = Some (cp_history cp)"
    using c(2) by (auto simp: compacted_successor_def errE Let_def compacted_seed_def)
  have w: "vc_rows w = drop (Suc (cp_cutoff_index cp)) (se_rows seg)" "vc_history w = map_option cg_history (compacted_seed g)"
    using validation_exact(2) [OF inherited_start c(3)] by auto
  show ?thesis
    using compaction_reads [OF run drawn] compaction_history [OF run before] w [unfolded g] v by simp
qed

text \<open>
  (C10) A compaction loses no instruction and splits no exchange: the protected prompts in force
  are the same before and after it, and every call it covers has its result among the covered
  rows.
\<close>

theorem compaction_protects:
  assumes run: "publishCompactedConversationSegment api z sha sid cp st = (Inr w, st')"
    and before: "readConversation api z sha sid st = (Inr v, st0)"
  shows "map pr_message (ps_active (selectConversationProtection (ch_prompts (cp_history cp)) (vc_rows w) a b)) =
      map pr_message (ps_active (selectConversationProtection (case vc_history v of None \<Rightarrow> [] | Some h \<Rightarrow> ch_prompts h) (vc_rows v)
        (cp_segment_version cp - 1) (Suc (cp_cutoff_index cp)))) \<and>
    (\<forall>i \<le> cp_cutoff_index cp. \<forall>k. call_key_of (vc_rows v ! i) = Some k \<longrightarrow> (\<exists>j \<le> cp_cutoff_index cp. result_key_of (vc_rows v ! j) = Some k))"
proof -
  let ?n = "Suc (cp_cutoff_index cp)"
  from compaction_run [OF run] obtain doc seg g ix where c: "current_segment api z sha st sid doc seg" "Suc (ve_version (se_entry seg)) = cp_segment_version cp"
      "cp_cutoff_index cp < length (se_rows seg)"
      "validateCompactedHistorySuccessor api z (se_conversation seg) (ve_version (se_entry seg)) (cp_history cp) (take ?n (se_rows seg)) = Inr ()"
      "validateConversation api z sid (drop ?n (se_rows seg)) (inherited_seed (gn_kind g)) (compacted_seed g) = Inr w" by blast
  have "readConversation api z sha sid st = (Inr (se_conversation seg), mend sid doc seg st)" unfolding readConversation_Inr using c(1) by blast
  with before have v: "v = se_conversation seg" by simp
  note valid = current_conversation(1) [OF c(1), folded v]
  have rows: "vc_rows v = se_rows seg" "vc_rows w = drop ?n (se_rows seg)"
    using current_rows [OF c(1)] v validated_basics(1) [OF inherited_start c(5)] by auto
  have len: "length (take ?n (se_rows seg)) = ?n" using c(3) by simp
  from c(4) have prompts: "ps_protected (selectConversationProtection (case vc_history v of None \<Rightarrow> [] | Some h \<Rightarrow> ch_prompts h) (vc_rows v)
        (cp_segment_version cp - 1) ?n) = ch_prompts (cp_history cp)"
    and atomic: "validateAtomicCoveredSourcePrefix v (take ?n (vc_rows v)) = Inr ()"
    unfolding validateCompactedHistorySuccessor_def Let_def v [symmetric] rows len c(2) [symmetric] by (auto simp: errE)
  have kept: "map pr_message (ps_active (selectConversationProtection (ch_prompts (cp_history cp)) (vc_rows w) a b)) =
      map pr_message (ps_active (selectConversationProtection (case vc_history v of None \<Rightarrow> [] | Some h \<Rightarrow> ch_prompts h) (vc_rows v)
        (cp_segment_version cp - 1) ?n))"
    unfolding prompts [symmetric] rows using c(3) by (intro protection_kept) simp
  have calls: "vc_calls v = map (materialize_call (vc_rows v) sid) (map snd (call_table (vc_rows v)))" "distinct (map am_id (vc_rows v))"
    using validation_exact(2) [OF inherited_start valid] validated_basics(3) [OF inherited_start valid] unfolding rows by auto
  have "\<exists>j \<le> cp_cutoff_index cp. result_key_of (vc_rows v ! j) = Some k"
    if "i \<le> cp_cutoff_index cp" "call_key_of (vc_rows v ! i) = Some k" for i k
    using atomic_settles [OF calls(1) refl calls(2) atomic, of i k] that c(3) rows by (auto simp: less_Suc_eq_le)
  with kept show ?thesis by blast
qed

section \<open>Recovery\<close>

text \<open>
  (C8) Recovery settles a session: after a run that succeeds the conversation is readable and no
  call is open; the run added nothing, or the result of the open call and then the recovery
  notice; and another run, at any time, changes nothing. The prompts a compaction carried over
  must not have the identity of a notice, since their identities may not be used again.
\<close>

theorem recovery_settles:
  assumes read: "readConversation api z sha sid st = (Inr v, st0)"
    and prompts: "pred_option (\<lambda>h. \<forall>e \<in> set (ch_prompts h). \<not> ends_with '':model-recovered'' (am_id (pr_message e))) (vc_history v)"
    and run: "stabilizeAgentSession api z sha redact sid terminal clock draw st = (Inr u, st')"
  shows "\<exists>w added. readConversation api z sha sid st' = (Inr w, st') \<and> vc_unmatched w = None \<and> vc_rows w = vc_rows v @ added \<and>
    (added = [] \<or> map am_kind added = (if vc_unmatched v = None then [KModelRecovered] else [KToolResult, KModelRecovered])) \<and>
    stabilizeAgentSession api z sha redact sid terminal clock' draw' st' = (Inr (), st')"
proof -
  obtain now later where clock: "clock = (now, later)" by (cases clock)
  show ?thesis using recovery_closes [OF read prompts run [unfolded clock]] recovery_idle by blast
qed

section \<open>The session as an instance\<close>

definition talk_answer :: agent_message where
  "talk_answer = talk_row ''m2'' AssistantRole KText ''Done.'' DURABLE_PRIMARY_CONTENT_POLICY"

abbreviation talk_notice :: agent_message where
  "talk_notice \<equiv> recovery_notice talk_sha talk (talk_uuid CHR ''1'') ''t2''"

lemma talk_marker_schema: "agentMessageSchema talk_api talk_zod talk_sha talk_marker"
  by code_simp

lemma talk_prompt_schema: "agentMessageSchema talk_api talk_zod talk_sha talk_prompt"
  by code_simp

lemma talk_answer_schema: "agentMessageSchema talk_api talk_zod talk_sha talk_answer"
  by code_simp

lemma talk_notice_schema: "agentMessageSchema talk_api talk_zod talk_sha talk_notice"
  by code_simp

lemma talk_index_schema: "conversationVersionIndexSchema talk_zod talk_index"
  by code_simp

lemma talk_genesis_schema: "conversationSegmentGenesisSchema talk_api talk_zod talk_sha talk_genesis"
  by code_simp

lemma talk_draw_schema: "uuidV4Schema (sd_genesis_id talk_draw)"
  by code_simp

lemmas talk_schemas = talk_marker_schema talk_prompt_schema talk_answer_schema talk_notice_schema

abbreviation talk_segment :: "agent_message list \<Rightarrow> validated_conversation \<Rightarrow> conversation_segment" where
  "talk_segment rows v \<equiv> \<lparr>se_index = talk_index, se_entry = talk_entry, se_genesis = talk_genesis, se_rows = rows, se_conversation = v\<rparr>"

lemma talk_current:
  assumes "\<forall>m \<in> set rows. agentMessageSchema talk_api talk_zod talk_sha m" and "validateConversation talk_api talk_zod talk rows None None = Inr v"
  shows "current_segment talk_api talk_zod talk_sha (talk_store rows) talk
    \<lparr>sf_envelopes = [GenesisRow talk_genesis # map MessageRow rows], sf_torn = False\<rparr> (talk_segment rows v)"
  using assms talk_index_schema parseSegment_fresh [OF talk_genesis_schema, of rows]
  by (simp add: current_segment_def talk_store_def validateLoadedSegment_Inr)
    (simp add: talk_index_def talk_entry_def talk_genesis_def at_last_def compacted_seed_def)

lemma talk_read_segment:
  assumes "\<forall>m \<in> set rows. agentMessageSchema talk_api talk_zod talk_sha m" and "validateConversation talk_api talk_zod talk rows None None = Inr v"
  shows "readSegment talk_api talk_zod talk_sha talk None (talk_store rows) = (Inr (Some (talk_segment rows v)), talk_store rows)"
  using talk_current [OF assms] unfolding readSegment_Some by (intro exI) (auto simp: mend_def)

lemma talk_read:
  assumes "\<forall>m \<in> set rows. agentMessageSchema talk_api talk_zod talk_sha m" and "validateConversation talk_api talk_zod talk rows None None = Inr v"
  shows "readConversation talk_api talk_zod talk_sha talk (talk_store rows) = (Inr v, talk_store rows)"
  by (simp add: readConversation_def talk_read_segment [OF assms] returnS_def)

lemma talk_append:
  assumes rows: "\<forall>m \<in> set rows. agentMessageSchema talk_api talk_zod talk_sha m" "validateConversation talk_api talk_zod talk rows None None = Inr v"
    and m: "agentMessageSchema talk_api talk_zod talk_sha m" "am_session_id m = talk" "am_id m \<notin> am_id ` set rows"
  shows "\<exists>st'. appendConversationBatch talk_api talk_zod talk_sha [m] draw (talk_store rows) = (Inr (), st')"
proof -
  have "validateBatch talk_api talk_zod talk_sha [m] = Inr [m]" using m by (simp add: validateBatch_Inr)
  moreover have "parseIndex talk_zod talk (talk_store rows) = Inr talk_index"
    by (simp add: parseIndex_Inr talk_index_schema talk_store_def)
  moreover have "cs_segments (talk_store rows) (talk, ve_filename talk_entry) \<noteq> None" by (simp add: talk_store_def talk_entry_def)
  ultimately show ?thesis using m
    by (auto simp: appendConversationBatch_def talk_read_segment [OF rows] Let_def appendRequiredEnvelope_def emit_change_def errE)
qed

lemma talk_answered_valid:
  "\<exists>v. validateConversation talk_api talk_zod talk [talk_marker, talk_prompt, talk_answer] None None = Inr v"
proof -
  have "case validateConversation talk_api talk_zod talk [talk_marker, talk_prompt, talk_answer] None None of Inl e \<Rightarrow> False | Inr v \<Rightarrow> True"
    by code_simp
  then show ?thesis by (auto split: sum.splits)
qed

lemma talk_sessions [simp]:
  "am_session_id talk_marker = talk" "am_session_id talk_answer = talk" "am_session_id talk_notice = talk"
  by (simp_all add: talk_marker_def talk_answer_def talk_row_def recovery_notice_def)

lemma talk_fresh: "am_id talk_answer \<notin> am_id ` set [talk_marker, talk_prompt]" "am_id talk_notice \<notin> am_id ` set [talk_marker, talk_prompt]"
  by (simp_all add: talk_marker_def talk_prompt_def talk_answer_def talk_row_def recovery_notice_def talk_uuid_def)

theorem append_read_back_witness:
  "\<exists>st' w. appendConversationBatch talk_api talk_zod talk_sha [talk_answer] talk_draw (talk_store [talk_marker, talk_prompt]) = (Inr (), st') \<and>
     readConversation talk_api talk_zod talk_sha talk st' = (Inr w, st') \<and> vc_rows w = [talk_marker, talk_prompt, talk_answer]"
proof -
  let ?rows = "[talk_marker, talk_prompt]"
  obtain v where valid: "validateConversation talk_api talk_zod talk ?rows None None = Inr v" using talk_validates by blast
  have schemas: "\<forall>m \<in> set ?rows. agentMessageSchema talk_api talk_zod talk_sha m" by (simp add: talk_schemas)
  obtain st' where run: "appendConversationBatch talk_api talk_zod talk_sha [talk_answer] talk_draw (talk_store ?rows) = (Inr (), st')"
    using talk_append [OF schemas valid talk_answer_schema _ talk_fresh(1)] by auto
  have before: "readConversation talk_api talk_zod talk_sha (am_session_id (hd [talk_answer])) (talk_store ?rows) = (Inr v, talk_store ?rows)"
    using talk_read [OF schemas valid] by simp
  obtain w where "validateConversation talk_api talk_zod talk (?rows @ [talk_answer]) None None = Inr w" using talk_answered_valid by auto
  then have after: "readConversation talk_api talk_zod talk_sha talk st' = (Inr w, st')"
    using append_current [OF talk_current [OF schemas valid] _ run, of w st'] by (simp add: talk_genesis_def compacted_seed_def)
  have "vc_rows v = ?rows" using validated_basics(1) [of None, OF _ valid] by simp
  then have "vc_rows w = ?rows @ [talk_answer]" using append_read_back [OF run before talk_draw_schema] after by auto
  with run after show ?thesis by auto
qed

theorem recovery_settles_witness:
  "\<exists>st' w. stabilizeAgentSession talk_api talk_zod talk_sha id talk [] (''t1'', ''t2'') talk_draw (talk_store [talk_marker, talk_prompt]) = (Inr (), st') \<and>
     readConversation talk_api talk_zod talk_sha talk st' = (Inr w, st') \<and> vc_unmatched w = None \<and>
     stabilizeAgentSession talk_api talk_zod talk_sha id talk [] (''t3'', ''t4'') talk_draw st' = (Inr (), st')"
proof -
  let ?rows = "[talk_marker, talk_prompt]"
  obtain v where v: "validateConversation talk_api talk_zod talk ?rows None None = Inr v" "vc_history v = None"
      "plan_recovery talk_api talk_zod talk_sha talk [] v = Inr (Interrupted (talk_uuid CHR ''1'') None)" using talk_validates by blast
  have schemas: "\<forall>m \<in> set ?rows. agentMessageSchema talk_api talk_zod talk_sha m" by (simp add: talk_schemas)
  obtain st' where append: "appendConversationBatch talk_api talk_zod talk_sha [talk_notice] talk_draw (talk_store ?rows) = (Inr (), st')"
    using talk_append [OF schemas v(1) talk_notice_schema _ talk_fresh(2)] by auto
  note read = talk_read [OF schemas v(1)]
  have run: "stabilizeAgentSession talk_api talk_zod talk_sha id talk [] (''t1'', ''t2'') talk_draw (talk_store ?rows) = (Inr (), st')"
    using append by (simp add: stabilizeAgentSession_def read v(3) returnS_def appendRecoveryNotice_def parse_message_def talk_notice_schema)
  have prompts: "pred_option (\<lambda>h. \<forall>e \<in> set (ch_prompts h). \<not> ends_with '':model-recovered'' (am_id (pr_message e))) (vc_history v)"
    by (simp add: v(2))
  show ?thesis using run recovery_settles [OF read prompts run, of "(''t3'', ''t4'')" talk_draw] by blast
qed

section \<open>A compaction of the session\<close>

definition talk_history :: compacted_history where
  "talk_history = \<lparr>ch_summary = ''Asked to do it.'', ch_prompts = [\<lparr>pr_segment_version = 1, pr_row_index = 1, pr_message = talk_prompt\<rparr>],
     ch_facts = no_facts\<rparr>"

definition talk_compaction :: compaction_publication where
  "talk_compaction = \<lparr>cp_genesis_id = talk_uuid CHR ''8'', cp_segment_version = 2, cp_entry_id = talk_uuid CHR ''9'', cp_timestamp = ''t1'',
     cp_filename = ''2-'' @ talk_uuid CHR ''a'' @ ''.jsonl'', cp_history = talk_history, cp_cutoff_index = 1, cp_cutoff_message = ''m1'',
     cp_continuation = InheritedOpenRound ''m0'' (talk_uuid CHR ''1'') InitialSegment\<rparr>"

definition talk_entry2 :: version_entry where
  "talk_entry2 = \<lparr>ve_entry_id = talk_uuid CHR ''9'', ve_version = 2, ve_filename = ''2-'' @ talk_uuid CHR ''a'' @ ''.jsonl'', ve_created_at = ''t1'',
     ve_genesis = CompactedEntry 1 talk_filename ''m1''\<rparr>"

definition talk_index2 :: version_index where
  "talk_index2 = talk_index\<lparr>vi_versions := [talk_entry, talk_entry2], vi_current_version := Some 2,
     vi_current_filename := Some (''2-'' @ talk_uuid CHR ''a'' @ ''.jsonl'')\<rparr>"

definition talk_genesis2 :: segment_genesis where
  "talk_genesis2 = \<lparr>gn_id = talk_uuid CHR ''8'', gn_entry_id = talk_uuid CHR ''9'', gn_session_id = talk, gn_segment_version = 2,
     gn_timestamp = ''t1'', gn_kind = CompactedGenesis 1 talk_filename ''m1'' talk_history (InheritedOpenRound ''m0'' (talk_uuid CHR ''1'') InitialSegment)\<rparr>"

lemma talk_index2_schema: "conversationVersionIndexSchema talk_zod talk_index2"
  by code_simp

lemma talk_compaction_schemas:
  "uuidV4Schema (cp_genesis_id talk_compaction)" "compactedHistorySchema talk_api talk_zod talk_sha (cp_history talk_compaction)"
  "conversationContinuationSchema (cp_continuation talk_compaction)"
  by code_simp+

lemma talk_successor:
  assumes "validateConversation talk_api talk_zod talk [talk_marker, talk_prompt, talk_answer] None None = Inr v"
  shows "validateCompactedHistorySuccessor talk_api talk_zod v 1 talk_history [talk_marker, talk_prompt] = Inr ()"
proof -
  have "case validateConversation talk_api talk_zod talk [talk_marker, talk_prompt, talk_answer] None None of
      Inl e \<Rightarrow> False | Inr v \<Rightarrow> validateCompactedHistorySuccessor talk_api talk_zod v 1 talk_history [talk_marker, talk_prompt] = Inr ()"
    by code_simp
  then show ?thesis by (simp add: assms)
qed

lemma talk_compacted_valid:
  "\<exists>w. validateConversation talk_api talk_zod talk [talk_answer] (inherited_seed (gn_kind talk_genesis2)) (compacted_seed talk_genesis2) = Inr w"
proof -
  have "case validateConversation talk_api talk_zod talk [talk_answer] (inherited_seed (gn_kind talk_genesis2)) (compacted_seed talk_genesis2) of
      Inl e \<Rightarrow> False | Inr w \<Rightarrow> True" by code_simp
  then show ?thesis by (auto split: sum.splits)
qed

lemma talk_compacts:
  obtains v w st' where "readConversation talk_api talk_zod talk_sha talk (talk_store [talk_marker, talk_prompt, talk_answer]) =
      (Inr v, talk_store [talk_marker, talk_prompt, talk_answer])" "vc_rows v = [talk_marker, talk_prompt, talk_answer]" "vc_history v = None"
    "publishCompactedConversationSegment talk_api talk_zod talk_sha talk talk_compaction (talk_store [talk_marker, talk_prompt, talk_answer]) = (Inr w, st')"
proof -
  let ?rows = "[talk_marker, talk_prompt, talk_answer]"
  obtain v where valid: "validateConversation talk_api talk_zod talk ?rows None None = Inr v" using talk_answered_valid by blast
  obtain w where w: "validateConversation talk_api talk_zod talk [talk_answer] (inherited_seed (gn_kind talk_genesis2)) (compacted_seed talk_genesis2) = Inr w"
    using talk_compacted_valid by blast
  have schemas: "\<forall>m \<in> set ?rows. agentMessageSchema talk_api talk_zod talk_sha m" by (simp add: talk_schemas)
  have v: "vc_rows v = ?rows" "vc_history v = None" using validation_exact(2) [of None, OF _ valid] by auto
  have head: "vi_current_version talk_index = Some 1" "vi_current_filename talk_index = Some talk_filename" "ve_version talk_entry = 1"
      "ve_filename talk_entry = talk_filename" "am_id talk_prompt = ''m1''" "gn_kind talk_genesis = OrdinaryGenesis"
    by (simp_all add: talk_index_def talk_entry_def talk_prompt_def talk_row_def talk_genesis_def)
  have cp: "cp_segment_version talk_compaction = 2" "cp_cutoff_index talk_compaction = 1" "cp_cutoff_message talk_compaction = ''m1''"
      "cp_history talk_compaction = talk_history" by (simp_all add: talk_compaction_def)
  have "compacted_successor talk_zod talk (talk_segment ?rows v) talk_compaction = Inr (talk_genesis2, talk_index2)"
  proof -
    have "talk_index\<lparr>vi_versions := vi_versions talk_index @ [talk_entry2], vi_current_version := Some 2,
        vi_current_filename := Some (''2-'' @ talk_uuid CHR ''a'' @ ''.jsonl'')\<rparr> = talk_index2" by (simp add: talk_index2_def talk_index_def)
    then show ?thesis using talk_index2_schema
      by (simp add: compacted_successor_def Let_def head(3,4)) (simp add: talk_compaction_def talk_entry2_def talk_genesis2_def)
  qed
  moreover have "cs_segments (talk_store ?rows) (talk, cp_filename talk_compaction) = None"
    by (simp add: talk_store_def talk_compaction_def talk_filename_def)
  moreover have "cs_indexes (talk_store ?rows) talk = Some talk_index" by (simp add: talk_store_def)
  ultimately have "\<exists>st'. publishCompactedConversationSegment talk_api talk_zod talk_sha talk talk_compaction (talk_store ?rows) = (Inr w, st')"
    using w talk_successor [OF valid]
    by (auto simp: publishCompactedConversationSegment_def talk_read_segment [OF schemas valid] v head cp Let_def
        publishFreshSegment_def publishIndex_def emit_change_def errE)
  with that talk_read [OF schemas valid] v show ?thesis by blast
qed

theorem compaction_read_back_witness:
  "\<exists>w st'. publishCompactedConversationSegment talk_api talk_zod talk_sha talk talk_compaction (talk_store [talk_marker, talk_prompt, talk_answer]) = (Inr w, st') \<and>
     readConversation talk_api talk_zod talk_sha talk st' = (Inr w, st') \<and> vc_rows w = [talk_answer] \<and> vc_history w = Some talk_history"
proof -
  obtain v w st' where read: "readConversation talk_api talk_zod talk_sha talk (talk_store [talk_marker, talk_prompt, talk_answer]) =
      (Inr v, talk_store [talk_marker, talk_prompt, talk_answer])" and v: "vc_rows v = [talk_marker, talk_prompt, talk_answer]"
    and run: "publishCompactedConversationSegment talk_api talk_zod talk_sha talk talk_compaction (talk_store [talk_marker, talk_prompt, talk_answer]) = (Inr w, st')"
    by (rule talk_compacts)
  show ?thesis using run v compaction_read_back [OF run read talk_compaction_schemas] by (auto simp: talk_compaction_def)
qed

theorem compaction_protects_witness:
  "\<exists>w st'. publishCompactedConversationSegment talk_api talk_zod talk_sha talk talk_compaction (talk_store [talk_marker, talk_prompt, talk_answer]) = (Inr w, st') \<and>
     map pr_message (ps_active (selectConversationProtection (ch_prompts talk_history) (vc_rows w) 2 0)) = [talk_prompt]"
proof -
  obtain v w st' where read: "readConversation talk_api talk_zod talk_sha talk (talk_store [talk_marker, talk_prompt, talk_answer]) =
      (Inr v, talk_store [talk_marker, talk_prompt, talk_answer])" and v: "vc_rows v = [talk_marker, talk_prompt, talk_answer]" "vc_history v = None"
    and run: "publishCompactedConversationSegment talk_api talk_zod talk_sha talk talk_compaction (talk_store [talk_marker, talk_prompt, talk_answer]) = (Inr w, st')"
    by (rule talk_compacts)
  have "map pr_message (ps_active (selectConversationProtection [] [talk_marker, talk_prompt, talk_answer] 1 2)) = [talk_prompt]"
    by code_simp
  then show ?thesis using run compaction_protects [OF run read, of 2 0] by (auto simp: v talk_compaction_def numeral_2_eq_2)
qed

end
