(* ===== verification/Spec2Isabelle.thy ===== *)
theory Spec2Isabelle
  imports CardProperties MicroActorProperties RuntimeGate OperationProperties RuntimeProperties
    WorkflowProperties ConversationProperties
begin

text \<open>
  \<^bold>\<open>Saivage: a verification library of its core\<close>

  Saivage runs agents over a tree of work items called cards. Cards are kept on disk as
  immutable documents selected by a head file (\<open>src/persistence\<close>); one service
  (\<open>src/cards/card-service.ts\<close>) is the only writer of cards; runtime actors
  (\<open>src/runtime\<close>) drive each card through a compiled workflow whose nodes run agents or
  operations and exchange checked values. All paths below are relative to \<open>src/src/\<close>.

  \<^bold>\<open>How the code is modelled.\<close>
  \<^item> Fallible pure code returns \<open>error + 'a\<close> (\<open>Inl\<close> the thrown value, theory \<open>Prelude\<close>);
    code that writes files is an operation \<open>('s, 'a) op\<close>, a function from a store to a result
    and the store it leaves behind, so a failing call keeps the writes it had made.
  \<^item> A file is a key of a map in the store record; its content is the typed document, and the
    zod schema of the document is a bool-valued function checked at every read and write. Byte
    encoding and directories are not modelled. File-system calls return, except in
    \<open>PublicationFaults\<close>, where every call of a card publication (open, write, \<open>fsync\<close>, close,
    \<open>rename\<close>, \<open>link\<close>, \<open>unlink\<close>, \<open>lstat\<close>) may throw before or after its effect.
  \<^item> Callbacks of the services are logged as effects; a callback that calls the service again
    while it runs is not modelled.
  \<^item> Checks of third-party code are parameters: the record \<open>zod\<close> (\<open>datetime\<close>, \<open>uuid\<close>) and
    \<open>sha\<close> for SHA-256. Clock readings and random identities are explicit arguments
    (\<open>stamps\<close>, \<open>birth_ids\<close>). Nothing is assumed of them beyond what a theorem states.
  \<^item> Asynchronous code is a step machine. JavaScript runs a call to completion, so a step of
    the outside happens only when the stack is empty; promises are indexed entries that are
    pending or settled once.
  \<^item> Loops are total functions with termination proofs, or partial functions to \<open>option\<close> that
    are shown to return; no fuel is used except in
    \<open>actor_compute\<close>, which evaluates a bounded number of steps of the actor machine to build
    the concrete instances of its properties.

  \<^bold>\<open>Cards\<close> (\<open>cards/\<close>, \<open>persistence/\<close>, \<open>schemas/\<close>)
  \<^item> \<open>CardId\<close>: identities, segments and depth (\<open>schemas/card-id.ts\<close>). \<open>Schemas\<close>, \<open>CardRecord\<close>:
    names, native Git facts, lifecycle, card records and version changes (\<open>schemas/\<close>).
    \<open>CardLifecycle\<close>: permissions and the status table (\<open>cards/card-status.ts\<close>,
    \<open>cards/card-permissions.ts\<close>, \<open>cards/lifecycle.ts\<close>).
  \<^item> \<open>CardArtifacts\<close>: heads, version documents, tombstones, mailboxes and
    \<open>validateCardTransition\<close> (\<open>persistence/canonical-card-artifacts.ts\<close>), with its
    characterisation in \<open>CardTransitions\<close>. \<open>CardFiles\<close>, \<open>CardBirth\<close>, \<open>CardTree\<close>: reading,
    publication, creation and traversal (\<open>persistence/card-files.ts\<close>); laws in \<open>CardStore\<close>,
    \<open>CardLinks\<close>, \<open>CardPublication\<close>, \<open>CardGraph\<close>, \<open>CardWalk\<close>.
  \<^item> \<open>RecordFiles\<close>, \<open>RecordOperations\<close>: authored records with drafts and accepted versions
    (\<open>persistence/authored-record-files.ts\<close>); laws and properties in \<open>RecordLaws\<close>,
    \<open>RecordProperties\<close>.
  \<^item> \<open>CardService\<close>, \<open>CardDeletion\<close>: the card service (\<open>cards/card-service.ts\<close>,
    \<open>cards/validator.ts\<close>, \<open>cards/card-index.ts\<close>), with the deletion order computed by
    draining a dependency graph. \<open>CardServiceLaws\<close>, \<open>CardServiceRuns\<close>, \<open>CardInvariant\<close>,
    \<open>CardSteps\<close>, \<open>CardDeletionLaws\<close>, \<open>CardEvolution\<close>, \<open>CardNotifications\<close>: what each operation
    does and that it keeps the project invariant, through the locale \<open>card_publication\<close>
    and the frame locale of \<open>Prelude\<close>, interpreted on the model.
  \<^item> \<open>ProjectRuns\<close>: all histories of service calls from an empty project, failing calls
    included. \<open>ProjectProperties\<close>, \<open>CardProperties\<close>: over those histories the active cards are
    exactly the cards linked from the project card, versions only grow, deletion removes exactly
    the requested subtrees. \<open>CardActive\<close>, \<open>CardRefinement\<close>: the active cards as a map
    from identities to records, and an abstract step of that map for every call, which every
    successful call refines.
  \<^item> \<open>PublicationFaults\<close>: the card publications call by call (\<open>persistence/replace-file.ts\<close>,
    \<open>publish-head.ts\<close>) under any faults. Without faults they are the publications of
    \<open>CardFiles\<close>; with faults a later reader finds the old or the new version, and the new one
    after a throw only when the error is \<open>PublicationOutcomeUnknownError\<close>.

  \<^bold>\<open>Runtime\<close> (\<open>runtime/\<close>)
  \<^item> \<open>MicroActor\<close>: compiled actor tables and \<open>BaseActor\<close> (\<open>runtime/micro-actor/\<close>) as an
    abstract machine with an explicit stack, for arbitrary subclass code. \<open>MicroActorLaws\<close>:
    the invariant, kept by every step. \<open>MicroActorProperties\<close>: sequence numbers, waiters and the
    single main loop; moves only along the table; terminal and failed actors; no
    forgotten waiter.
  \<^item> \<open>RuntimeGate\<close>: the pause gate and the lease of a child invocation
    (\<open>runtime/runtime-gate.ts\<close>, \<open>runtime/actors/child-invocation-wait.ts\<close>) under any sequence of
    calls: one parked frontier, always released; one delivery.
  \<^item> \<open>RunningChain\<close>, \<open>ChangedPropagation\<close>: the running cards a restart resumes
    (\<open>runtime/running-card-chain.ts\<close>) and the propagation of edits towards the project card
    (\<open>runtime/changed-propagation.ts\<close>), with their exact effect on the active cards in
    \<open>RuntimeProperties\<close>.
  \<^item> \<open>OperationContract\<close>, \<open>OperationRouting\<close>: declared fields, values, returned results, the
    catalogue of operations, input bindings and routes
    (\<open>runtime/card-process/operation-contract.ts\<close>, \<open>operation-routing.ts\<close>).
    \<open>OperationProperties\<close>: bindings that pass the compile-time checks resolve at run time, but
    for three failures that are stated exactly; the exact meaning of the value check; first matching route; honest namespaces; and the one
    input name for which the check does not do what it means to.

  \<^bold>\<open>Compilation of a project\<close> (\<open>runtime/card-process/\<close>, \<open>utils/\<close>, \<open>tools/\<close>)
  \<^item> \<open>PromptTemplate\<close>: parsing, compiling and rendering of templates (\<open>utils/prompt-api.ts\<close>).
    \<open>ToolAuthority\<close>: capabilities, resource metadata of tools and the check of a call on an
    object (\<open>tools/direct-object-authority.ts\<close>, \<open>tool-resource-metadata.ts\<close>,
    \<open>runtime-tool-catalog.ts\<close>).
  \<^item> \<open>AgentContracts\<close>, \<open>PromptSelection\<close>, \<open>WorkflowDraft\<close>: the declarations of agents, prompts,
    records, nodes and edges and their compilation to a draft of a card type
    (\<open>runtime/card-process/card-process-config.ts\<close>). \<open>WorkflowTopology\<close>: the validation of the
    graph of a draft by searches (\<open>GraphSearch\<close> holds the search and its equality with
    reachability). \<open>WorkflowTable\<close>: the state table of a card type and the closure of the
    context of descendants. \<open>WorkflowProject\<close>: the operations built in, the Git policy and
    \<open>compileProjectWorkflowDeclarations\<close>.
  \<^item> \<open>WorkflowLaws\<close>, \<open>WorkflowProperties\<close>: the template parser inverts printing; a compiled
    template renders; the authority check and the graph validation decide their declarative
    specifications; the tables of a compiled project are tables the micro actor accepts, in
    which every node is reached and an exit stays reachable.

  \<^bold>\<open>Conversations\<close> (\<open>contracts/\<close>, \<open>schemas/\<close>, \<open>persistence/\<close>, \<open>runtime/actors/\<close>)
  \<^item> \<open>JsonValues\<close>, \<open>ConversationRows\<close>: the rows of a conversation, \<open>agentMessageSchema\<close> of
    \<open>schemas/validators.ts\<close>, and the tool calls, tool results and activation markers embedded in
    them. JSON text is read and written by the parameter \<open>json_api\<close>.
  \<^item> \<open>ConversationValidation\<close>, \<open>ConversationCompaction\<close>: the reduction of rows to rounds,
    segments and calls, and the checks of a compaction
    (\<open>contracts/conversation-validation.ts\<close>). \<open>ConversationLaws\<close>, \<open>ConversationShape\<close>: the
    validation decides the specification \<open>accepted\<close>, and what it returns.
  \<^item> \<open>ConversationFiles\<close>: the index and the segments of a session on disk
    (\<open>persistence/conversation-file.ts\<close>, \<open>canonical-conversation-artifacts.ts\<close>,
    \<open>growing-file.ts\<close>). A segment is its complete envelopes and whether a torn write follows
    them. \<open>ConversationStore\<close>: what is read after an append and after a compaction.
  \<^item> \<open>ConversationRecovery\<close>: settled tool results and the recovery of a session after a crash
    (\<open>runtime/actors/conversation-recovery.ts\<close>, \<open>llm-delivery-log.ts\<close>,
    \<open>conversation-session.ts\<close>). \<open>ConversationStability\<close>: a recovery run leaves nothing for a
    second one. \<open>ConversationProperties\<close>: the properties, with a small session as instance.

  \<^bold>\<open>Not modelled.\<close> The supervisor, card-process, LLM and analyst actors built on
  \<open>BaseActor\<close> (model providers, processes and Git are outside the program), the Git workflow,
  providers and agents, the executors of tools and their binding to agents,
  the operator application with its HTTP routes and wire contracts, MCP and configuration
  loading. Of the compilation, \<open>bindRuntimeWorkflows\<close>, the texts of result contracts and the
  registry of template files are not modelled. Of the card store, the committed catalogues, the
  history tree and the repair entry points are not modelled, nor are I/O faults of authored records
  and conversations; of the card service, the record wrappers and version diffs. Of conversations, the redaction of outbound values (a parameter),
  the bytes of images, the pairing of private rows of a provider, the read-only inspection of
  files and the builders of the other message kinds are not modelled.
\<close>

end
